(* ===== verification/Prelude.thy ===== *)
theory Prelude
  imports Main "HOL-Library.Multiset" "HOL-Library.Product_Lexorder"
begin

text \<open>
  Shared vocabulary of the development: JavaScript errors as values of a sum type and the
  combinators that thread them (a thrown error aborts the rest of the handler), decimal
  printing and parsing, lodash and SQL helpers over lists of rows, event attributes, and the
  lemmas about them that the component theories use.
\<close>

section \<open>Errors as values\<close>

text \<open>
  The values the code throws. \<open>JsError\<close> is \<^verbatim>\<open>throw new Error(msg)\<close>; \<open>TypeError\<close> is the
  engine's error for reading a property of \<^verbatim>\<open>undefined\<close> or for \<^verbatim>\<open>BigInt(null)\<close>; \<open>ValidationError\<close>
  is objection's error when a field that \<^verbatim>\<open>jsonSchema.required\<close> names is missing; \<open>NotFoundError\<close>
  is \<^verbatim>\<open>throwIfNotFound\<close>; \<open>DbError\<close> is a statement the database rejects.
\<close>

datatype js_error =
    JsError string
  | TypeError
  | ValidationError string
  | NotFoundError
  | DbError string

type_synonym 'a res = "js_error + 'a"

text \<open>What is in the database after a job, and the error it threw, if it threw one.\<close>

type_synonym 'db outcome = "'db \<times> js_error option"

named_theorems res_simps "equations of the error combinators"
named_theorems job_simps "shape of the job handlers"

definition rbind :: "'a res \<Rightarrow> ('a \<Rightarrow> 'b res) \<Rightarrow> 'b res" where
  "rbind m f = (case m of Inl e \<Rightarrow> Inl e | Inr x \<Rightarrow> f x)"

text \<open>\<^verbatim>\<open>array.forEach\<close> with a body that updates a state and may throw.\<close>

fun rfold :: "('x \<Rightarrow> 's \<Rightarrow> 's res) \<Rightarrow> 'x list \<Rightarrow> 's \<Rightarrow> 's res" where
  "rfold f [] s = Inr s"
| "rfold f (x # xs) s = rbind (f x s) (rfold f xs)"

text \<open>\<^verbatim>\<open>array.map\<close> with a body that may throw.\<close>

fun rmap :: "('x \<Rightarrow> 'y res) \<Rightarrow> 'x list \<Rightarrow> 'y list res" where
  "rmap f [] = Inr []"
| "rmap f (x # xs) = rbind (f x) (\<lambda>y. rbind (rmap f xs) (\<lambda>ys. Inr (y # ys)))"

text \<open>\<^verbatim>\<open>object.field\<close> where the object may be \<^verbatim>\<open>undefined\<close> or null.\<close>

definition need :: "'a option \<Rightarrow> 'a res" where
  "need v = (case v of None \<Rightarrow> Inl TypeError | Some x \<Rightarrow> Inr x)"

lemma rbind_Inl [simp, res_simps]: "rbind (Inl e) f = Inl e"
  by (simp add: rbind_def)

lemma rbind_Inr [simp, res_simps]: "rbind (Inr x) f = f x"
  by (simp add: rbind_def)

lemma rbind_eq_Inr [res_simps]: "rbind m f = Inr y \<longleftrightarrow> (\<exists>x. m = Inr x \<and> f x = Inr y)"
  by (cases m) simp_all

lemma rbind_eq_Inl [res_simps]:
  "rbind m f = Inl e \<longleftrightarrow> m = Inl e \<or> (\<exists>x. m = Inr x \<and> f x = Inl e)"
  by (cases m) auto

lemma rbind_assoc: "rbind (rbind m f) g = rbind m (\<lambda>x. rbind (f x) g)"
  by (cases m) simp_all

lemma rbind_Inr_right [simp]: "rbind m Inr = m"
  by (cases m) simp_all

lemma need_Some [simp, res_simps]: "need (Some x) = Inr x"
  by (simp add: need_def)

lemma need_None [simp, res_simps]: "need None = Inl TypeError"
  by (simp add: need_def)

lemma need_eq_Inr [res_simps]: "need v = Inr x \<longleftrightarrow> v = Some x"
  by (cases v) simp_all

lemma rfold_append: "rfold f (xs @ ys) s = rbind (rfold f xs s) (rfold f ys)"
proof (induction xs arbitrary: s)
  case (Cons x xs)
  then show ?case by (cases "f x s") simp_all
qed simp

lemma rfold_throws:
  assumes "x \<in> set xs" and "\<And>s. isl (f x s)"
  shows "isl (rfold f xs s)"
  using assms(1)
proof (induction xs arbitrary: s)
  case (Cons y ys)
  show ?case
  proof (cases "f y s")
    case (Inr s')
    with assms(2) [of s] Cons have "x \<in> set ys" by auto
    with Cons.IH Inr show ?thesis by simp
  qed simp
qed simp

lemma rfold_invariant:
  assumes "rfold f xs s = Inr s'" and "I s"
    and "\<And>x s s'. x \<in> set xs \<Longrightarrow> I s \<Longrightarrow> f x s = Inr s' \<Longrightarrow> I s'"
  shows "I s'"
  using assms by (induction xs arbitrary: s) (auto simp: rbind_eq_Inr)

text \<open>A loop succeeds when an invariant makes every body succeed and re-establishes itself.\<close>

lemma rfold_total:
  assumes "I s xs"
    and "\<And>x ys s. I s (x # ys) \<Longrightarrow> \<exists>s'. f x s = Inr s' \<and> I s' ys"
  shows "\<exists>s'. rfold f xs s = Inr s' \<and> I s' []"
  using assms(1)
proof (induction xs arbitrary: s)
  case Nil
  then show ?case by simp
next
  case (Cons x xs)
  from assms(2) [OF Cons.prems] obtain s' where "f x s = Inr s'" "I s' xs" by blast
  with Cons.IH [of s'] show ?case by simp
qed

text \<open>A loop whose body is simulated by an abstract step simulates the abstract fold.\<close>

lemma rfold_simulates:
  assumes "rfold f xs s = Inr s'" and "R s a"
    and "\<And>x s s' a. x \<in> set xs \<Longrightarrow> R s a \<Longrightarrow> f x s = Inr s' \<Longrightarrow> R s' (g x a)"
  shows "R s' (fold g xs a)"
  using assms by (induction xs arbitrary: s a) (auto simp: rbind_eq_Inr)

text \<open>Two computations that throw the same error or return related values.\<close>

lemma rbind_rel:
  assumes "rel_sum (=) R m n" and "\<And>x y. R x y \<Longrightarrow> rel_sum (=) Q (f x) (g y)"
  shows "rel_sum (=) Q (rbind m f) (rbind n g)"
  using assms by (cases m; cases n) auto

lemma rfold_rel:
  assumes "R s t" and "\<And>x s t. x \<in> set xs \<Longrightarrow> R s t \<Longrightarrow> rel_sum (=) R (f x s) (g x t)"
  shows "rel_sum (=) R (rfold f xs s) (rfold g xs t)"
  using assms
proof (induction xs arbitrary: s t)
  case (Cons x xs)
  then show ?case by (auto intro!: rbind_rel [where R = R])
qed simp

lemma rmap_eq_Inr: "rmap f xs = Inr ys \<longleftrightarrow> list_all2 (\<lambda>x y. f x = Inr y) xs ys"
  by (induction xs arbitrary: ys) (auto simp: rbind_eq_Inr list_all2_Cons1)

lemma rmap_append:
  "rmap f (xs @ ys) = rbind (rmap f xs) (\<lambda>us. rbind (rmap f ys) (\<lambda>vs. Inr (us @ vs)))"
  by (induction xs) (simp_all add: rbind_assoc)

lemma rmap_inD: "rmap f xs = Inr ys \<Longrightarrow> y \<in> set ys \<Longrightarrow> \<exists>x\<in>set xs. f x = Inr y"
  by (induction xs arbitrary: ys) (auto simp: rbind_eq_Inr)

lemma rmap_memD: "rmap f xs = Inr ys \<Longrightarrow> x \<in> set xs \<Longrightarrow> \<exists>y\<in>set ys. f x = Inr y"
  by (induction xs arbitrary: ys) (auto simp: rbind_eq_Inr)

lemma rmap_length: "rmap f xs = Inr ys \<Longrightarrow> length ys = length xs"
  by (auto simp: rmap_eq_Inr dest: list_all2_lengthD)

lemma rmap_pure [simp]: "rmap (\<lambda>x. Inr (g x)) xs = Inr (map g xs)"
  by (induction xs) simp_all

lemma rmap_total: "(\<forall>x\<in>set xs. \<exists>y. f x = Inr y) \<Longrightarrow> \<exists>ys. rmap f xs = Inr ys"
  by (induction xs) fastforce+

text \<open>When every element succeeds or throws the same error and one of them throws, that error is thrown.\<close>

lemma rmap_throws:
  assumes "\<forall>x\<in>set xs. f x = Inl e \<or> (\<exists>y. f x = Inr y)" and "\<exists>x\<in>set xs. f x = Inl e"
  shows "rmap f xs = Inl e"
  using assms by (induction xs) fastforce+

lemma ex_split_snoc:
  "(\<exists>xs b ys. zs @ [a] = xs @ b # ys \<and> P xs b) \<longleftrightarrow> (\<exists>xs b ys. zs = xs @ b # ys \<and> P xs b) \<or> P zs a"
proof
  assume "\<exists>xs b ys. zs @ [a] = xs @ b # ys \<and> P xs b"
  then obtain xs b ys where *: "zs @ [a] = xs @ b # ys" "P xs b" by blast
  then show "(\<exists>xs b ys. zs = xs @ b # ys \<and> P xs b) \<or> P zs a"
    by (cases ys rule: rev_cases) auto
next
  assume "(\<exists>xs b ys. zs = xs @ b # ys \<and> P xs b) \<or> P zs a"
  then show "\<exists>xs b ys. zs @ [a] = xs @ b # ys \<and> P xs b"
  proof
    assume "\<exists>xs b ys. zs = xs @ b # ys \<and> P xs b"
    then obtain xs b ys where "zs @ [a] = xs @ b # (ys @ [a])" "P xs b" by auto
    then show ?thesis by blast
  qed blast
qed

section \<open>Decimal strings\<close>

text \<open>\<^verbatim>\<open>n.toString()\<close> of a whole number and the template \<^verbatim>\<open>`${n}`\<close>.\<close>

definition digit_char :: "nat \<Rightarrow> char" where
  "digit_char d = char_of (48 + d)"

definition is_digit :: "char \<Rightarrow> bool" where
  "is_digit c \<longleftrightarrow> 48 \<le> (of_char c :: nat) \<and> (of_char c :: nat) \<le> 57"

definition digit_value :: "char \<Rightarrow> nat" where
  "digit_value c = of_char c - 48"

fun show_nat :: "nat \<Rightarrow> string" where
  "show_nat n = (if n < 10 then [digit_char n] else show_nat (n div 10) @ [digit_char (n mod 10)])"

declare show_nat.simps [simp del]

definition show_int :: "int \<Rightarrow> string" where
  "show_int i = (if i < 0 then CHR ''-'' # show_nat (nat (- i)) else show_nat (nat i))"

text \<open>The value of a string of digits, as \<^verbatim>\<open>parseInt(s, 10)\<close> and \<^verbatim>\<open>BigInt(s)\<close> read it.\<close>

definition digits_value :: "string \<Rightarrow> nat" where
  "digits_value s = foldl (\<lambda>v c. 10 * v + digit_value c) 0 s"

text \<open>
  \<^verbatim>\<open>parseInt(s, 10)\<close> on a string without sign or blanks: the longest prefix of digits,
  \<open>None\<close> for \<^verbatim>\<open>NaN\<close>.
\<close>

definition js_parseInt :: "string \<Rightarrow> nat option" where
  "js_parseInt s =
     (let ds = takeWhile is_digit s in if ds = [] then None else Some (digits_value ds))"

lemma is_digit_digit_char [simp]: "d < 10 \<Longrightarrow> is_digit (digit_char d)"
  by (simp add: is_digit_def digit_char_def)

lemma digit_value_digit_char [simp]: "d < 10 \<Longrightarrow> digit_value (digit_char d) = d"
  by (simp add: digit_value_def digit_char_def)

lemma show_nat_nonempty [simp]: "show_nat n \<noteq> []"
  by (subst show_nat.simps) simp

lemma show_nat_digits: "c \<in> set (show_nat n) \<Longrightarrow> is_digit c"
proof (induction n rule: show_nat.induct)
  case (1 n)
  then show ?case
    by (cases "n < 10") (auto simp: show_nat.simps [of n])
qed

lemma digits_value_show_nat [simp]: "digits_value (show_nat n) = n"
proof (induction n rule: show_nat.induct)
  case (1 n)
  then show ?case
    by (cases "n < 10") (simp_all add: show_nat.simps [of n] digits_value_def)
qed

lemma js_parseInt_show_nat: "js_parseInt (show_nat n) = Some n"
proof -
  have "takeWhile is_digit (show_nat n) = show_nat n"
    by (simp only: takeWhile_eq_all_conv) (blast intro: show_nat_digits)
  then show ?thesis by (simp only: js_parseInt_def Let_def) simp
qed

lemma show_nat_inj: "show_nat m = show_nat n \<longleftrightarrow> m = n"
  by (metis digits_value_show_nat)

lemma show_nat_no_char: "\<not> is_digit c \<Longrightarrow> c \<notin> set (show_nat n)"
  using show_nat_digits by blast

lemma show_int_inj: "show_int i = show_int j \<longleftrightarrow> i = j"
proof -
  have "\<not> is_digit (CHR ''-'')" by (simp add: is_digit_def)
  then have "CHR ''-'' # s \<noteq> show_nat n" for s n
    by (metis list.set_intros(1) show_nat_no_char)
  then show ?thesis
    by (auto simp: show_int_def show_nat_inj dest: sym)
qed

text \<open>A nullable id inside a template: \<^verbatim>\<open>`${null}`\<close> is the text \<open>null\<close>.\<close>

definition show_id :: "int option \<Rightarrow> string" where
  "show_id i = (case i of None \<Rightarrow> ''null'' | Some n \<Rightarrow> show_int n)"

lemma underscore_not_in_show_int: "CHR ''_'' \<notin> set (show_int i)"
  by (simp add: show_int_def show_nat_no_char is_digit_def)

lemma underscore_not_in_show_id: "CHR ''_'' \<notin> set (show_id i)"
  by (simp add: show_id_def underscore_not_in_show_int split: option.split)

lemma show_int_not_null: "show_int i \<noteq> ''null''"
proof
  assume *: "show_int i = ''null''"
  then have "CHR ''n'' \<in> set (show_int i)" by simp
  then show False
    by (auto simp: show_int_def is_digit_def dest: show_nat_digits split: if_splits)
qed

lemma show_int_not_undefined: "show_int i \<noteq> ''undefined''"
proof
  assume *: "show_int i = ''undefined''"
  then have "CHR ''u'' \<in> set (show_int i)" by simp
  then show False
    by (auto simp: show_int_def is_digit_def dest: show_nat_digits split: if_splits)
qed

lemma show_id_inj: "show_id i = show_id j \<longleftrightarrow> i = j"
  by (auto simp: show_id_def show_int_inj show_int_not_null show_int_not_null [symmetric]
      split: option.splits)

text \<open>Two-part keys \<^verbatim>\<open>`${a}_${b}`\<close> are unambiguous when the first part has no separator.\<close>

lemma sep_key_inj:
  assumes "c \<notin> set a" and "c \<notin> set a'"
  shows "a @ c # b = a' @ c # b' \<longleftrightarrow> a = a' \<and> b = b'"
  using assms
proof (induction a arbitrary: a')
  case Nil
  then show ?case by (cases a') auto
next
  case (Cons x a)
  then show ?case by (cases a') auto
qed

lemma sep_key_inj_right:
  assumes "c \<notin> set b" and "c \<notin> set b'"
  shows "a @ c # b = a' @ c # b' \<longleftrightarrow> a = a' \<and> b = b'"
proof
  assume "a @ c # b = a' @ c # b'"
  then have "rev b @ c # rev a = rev b' @ c # rev a'"
    by (metis append.assoc append_Cons append_Nil rev.simps(2) rev_append)
  with assms show "a = a' \<and> b = b'" by (simp add: sep_key_inj)
qed simp

section \<open>Rows and queries\<close>

text \<open>\<^verbatim>\<open>where('height', '>', a).andWhere('height', '<=', b)\<close>\<close>

definition in_range :: "int \<Rightarrow> int \<Rightarrow> int \<Rightarrow> bool" where
  "in_range a b h \<longleftrightarrow> a < h \<and> h \<le> b"

lemma in_range_split:
  "a \<le> b \<Longrightarrow> b \<le> c \<Longrightarrow> in_range a c h \<longleftrightarrow> in_range a b h \<or> in_range b c h"
  by (auto simp: in_range_def)

lemma in_range_disjoint: "in_range a b h \<Longrightarrow> \<not> in_range b c h"
  by (auto simp: in_range_def)

lemma in_range_empty: "b \<le> a \<Longrightarrow> \<not> in_range a b h"
  by (auto simp: in_range_def)

lemma filter_mset_range_split:
  assumes "a \<le> b" and "b \<le> c"
  shows "filter_mset (\<lambda>x. P x \<and> in_range a c (h x)) M =
    filter_mset (\<lambda>x. P x \<and> in_range a b (h x)) M + filter_mset (\<lambda>x. P x \<and> in_range b c (h x)) M"
  by (rule multiset_eqI) (use assms in \<open>auto simp: in_range_def\<close>)

lemma filter_range_split:
  assumes "sorted (map h xs)" and "a \<le> b" and "b \<le> c"
  shows "filter (\<lambda>x. in_range a c (h x)) xs =
    filter (\<lambda>x. in_range a b (h x)) xs @ filter (\<lambda>x. in_range b c (h x)) xs"
  using assms(1)
proof (induction xs)
  case (Cons x xs)
  show ?case
  proof (cases "b < h x")
    case True
    with Cons.prems have "filter (\<lambda>x. in_range a b (h x)) (x # xs) = []"
      by (force simp: in_range_def filter_empty_conv)
    moreover have "filter (\<lambda>y. in_range a c (h y)) (x # xs) = filter (\<lambda>y. in_range b c (h y)) (x # xs)"
      by (rule filter_cong) (use Cons.prems True assms(2) in \<open>force simp: in_range_def\<close>)+
    ultimately show ?thesis by simp
  next
    case False
    with Cons assms(3) show ?thesis by (auto simp: in_range_def)
  qed
qed simp

lemma map_filter_conv: "List.map_filter f xs = map (the \<circ> f) (filter (\<lambda>x. f x \<noteq> None) xs)"
  by (induction xs) (auto simp: map_filter_simps split: option.split)

lemma mset_map_filter_mset:
  "mset (List.map_filter f xs) = image_mset (the \<circ> f) (filter_mset (\<lambda>x. f x \<noteq> None) (mset xs))"
  by (simp add: map_filter_conv mset_filter)

lemma map_filter_append: "List.map_filter f (xs @ ys) = List.map_filter f xs @ List.map_filter f ys"
  by (induction xs) (simp_all split: option.split)

lemma find_append: "find P (xs @ ys) = (case find P xs of None \<Rightarrow> find P ys | Some x \<Rightarrow> Some x)"
  by (induction xs) simp_all

lemma find_unique:
  assumes "x \<in> set xs" and "P x" and "\<And>y. y \<in> set xs \<Longrightarrow> P y \<Longrightarrow> y = x"
  shows "find P xs = Some x"
proof (cases "find P xs")
  case None
  with assms(1,2) show ?thesis by (auto simp: find_None_iff)
next
  case (Some y)
  then have "y \<in> set xs \<and> P y" by (auto simp: find_Some_iff)
  with Some assms(3) show ?thesis by blast
qed

lemma find_by_key: "distinct (map f xs) \<Longrightarrow> x \<in> set xs \<Longrightarrow> f x = v \<Longrightarrow> find (\<lambda>y. f y = v) xs = Some x"
  by (rule find_unique) (auto simp: distinct_map inj_on_def)

lemma find_map_overwrite:
  assumes "\<And>u. P (f u) = P u"
  shows "find P (map f xs) = map_option f (find P xs)"
  using assms by (induction xs) simp_all

text \<open>\<^verbatim>\<open>_.keyBy(xs, f)\<close>: the last row with a key wins.\<close>

definition keyBy :: "('x \<Rightarrow> 'k) \<Rightarrow> 'x list \<Rightarrow> ('k \<rightharpoonup> 'x)" where
  "keyBy f xs = map_of (rev (map (\<lambda>x. (f x, x)) xs))"

lemma keyBy_Nil [simp]: "keyBy f [] = Map.empty"
  by (simp add: keyBy_def)

lemma keyBy_snoc [simp]: "keyBy f (xs @ [x]) = (keyBy f xs)(f x \<mapsto> x)"
  by (simp add: keyBy_def)

lemma keyBy_SomeD: "keyBy f xs k = Some x \<Longrightarrow> x \<in> set xs \<and> f x = k"
  by (induction xs rule: rev_induct) (auto split: if_splits)

lemma keyBy_None_iff: "keyBy f xs k = None \<longleftrightarrow> k \<notin> f ` set xs"
  by (induction xs rule: rev_induct) auto

lemma keyBy_unique: "x \<in> set xs \<Longrightarrow> inj_on f (set xs) \<Longrightarrow> keyBy f xs (f x) = Some x"
  by (cases "keyBy f xs (f x)") (auto simp: keyBy_None_iff dest!: keyBy_SomeD dest: inj_onD)

text \<open>\<^verbatim>\<open>_.uniq(xs)\<close> and \<^verbatim>\<open>Array.from(new Set(xs))\<close>: first occurrences, in order.\<close>

definition uniq :: "'x list \<Rightarrow> 'x list" where
  "uniq xs = rev (remdups (rev xs))"

lemma set_uniq [simp]: "set (uniq xs) = set xs"
  by (simp add: uniq_def)

lemma distinct_uniq [simp]: "distinct (uniq xs)"
  by (simp add: uniq_def)

lemma uniq_Nil_iff [simp]: "uniq xs = [] \<longleftrightarrow> xs = []"
  by (simp add: uniq_def)

text \<open>
  \<^verbatim>\<open>_.sortBy(xs, f)\<close> is stable, as \<^const>\<open>sort_key\<close> is, and puts rows without the field last.
\<close>

definition last_if_missing :: "int option \<Rightarrow> nat \<times> int" where
  "last_if_missing v = (case v of Some n \<Rightarrow> (0, n) | None \<Rightarrow> (1, 0))"

definition sortBy :: "('x \<Rightarrow> int option) \<Rightarrow> 'x list \<Rightarrow> 'x list" where
  "sortBy f xs = sort_key (\<lambda>x. last_if_missing (f x)) xs"

lemma mset_sortBy [simp]: "mset (sortBy f xs) = mset xs"
  by (simp add: sortBy_def)

lemma set_sortBy [simp]: "set (sortBy f xs) = set xs"
  by (simp add: sortBy_def)

lemma sortBy_Nil [simp]: "sortBy f [] = []"
  by (simp add: sortBy_def)

lemma length_sortBy [simp]: "length (sortBy f xs) = length xs"
  by (simp add: sortBy_def)

section \<open>Event attributes\<close>

record event_attribute =
  attr_index :: int
  attr_key :: "string option"
  attr_value :: "string option"

definition getAttributeFrom :: "event_attribute list \<Rightarrow> string \<Rightarrow> string option" where
  "getAttributeFrom listAttributes attributeType =
     (case find (\<lambda>attr. attr_key attr = Some attributeType) listAttributes of
        None \<Rightarrow> None
      | Some attr \<Rightarrow> attr_value attr)"

text \<open>JavaScript truthiness of a string that may be missing: empty strings are false.\<close>

definition truthy :: "string option \<Rightarrow> bool" where
  "truthy v \<longleftrightarrow> v \<noteq> None \<and> v \<noteq> Some []"

lemma getAttributeFrom_Nil [simp]: "getAttributeFrom [] t = None"
  by (simp add: getAttributeFrom_def)

lemma getAttributeFrom_Cons [simp]:
  "getAttributeFrom (a # as) t =
     (if attr_key a = Some t then attr_value a else getAttributeFrom as t)"
  by (simp add: getAttributeFrom_def)

lemma getAttributeFrom_SomeD:
  "getAttributeFrom as t = Some v \<Longrightarrow>
     \<exists>a\<in>set as. attr_key a = Some t \<and> attr_value a = Some v"
  by (induction as) (auto split: if_splits)

section \<open>Text\<close>

text \<open>\<^verbatim>\<open>s.toLowerCase()\<close> on the ASCII text of addresses.\<close>

definition toLowerCase :: "string \<Rightarrow> string" where
  "toLowerCase s =
     map (\<lambda>c. if 65 \<le> (of_char c :: nat) \<and> (of_char c :: nat) \<le> 90 then char_of (of_char c + 32 :: nat) else c) s"

definition startsWith :: "string \<Rightarrow> string \<Rightarrow> bool" where
  "startsWith s p \<longleftrightarrow> take (length p) s = p"

text \<open>\<^verbatim>\<open>try { ... } catch { return undefined }\<close>\<close>

definition try_undefined :: "'a res \<Rightarrow> 'a option" where
  "try_undefined r = (case r of Inl e \<Rightarrow> None | Inr x \<Rightarrow> Some x)"

lemma try_undefined_simps [simp]:
  "try_undefined (Inl e) = None" "try_undefined (Inr x) = Some x"
  by (simp_all add: try_undefined_def)

lemma try_undefined_eq_Some [simp]: "try_undefined r = Some x \<longleftrightarrow> r = Inr x"
  by (cases r) simp_all

section \<open>Rows with fresh ids\<close>

text \<open>The rows of one insert get consecutive ids from the sequence, in the order of the statement.\<close>

definition numbered :: "int \<Rightarrow> (int \<Rightarrow> 'r) list \<Rightarrow> 'r list" where
  "numbered n rows = map (\<lambda>(k, f). f (n + int k)) (zip [0..<length rows] rows)"

lemma length_numbered [simp]: "length (numbered n rows) = length rows"
  by (simp add: numbered_def)

lemma nth_numbered [simp]: "i < length rows \<Longrightarrow> numbered n rows ! i = (rows ! i) (n + int i)"
  by (simp add: numbered_def)

lemma set_numbered: "x \<in> set (numbered n rows) \<longleftrightarrow> (\<exists>i<length rows. x = (rows ! i) (n + int i))"
  by (metis in_set_conv_nth length_numbered nth_numbered)

lemma filter_numbered:
  assumes "\<And>f i. f \<in> set rows \<Longrightarrow> P (f i) = Q f"
  shows "length (filter P (numbered n rows)) = length (filter Q rows)"
proof -
  have "map P (numbered n rows) = map Q rows"
    by (rule nth_equalityI) (simp_all add: assms)
  then have "length (filter id (map P (numbered n rows))) = length (filter id (map Q rows))" by simp
  then show ?thesis by (simp add: filter_map)
qed

lemma distinct_numbered:
  assumes "\<forall>f\<in>set rows. \<forall>i. key (f i) = i"
  shows "map key (numbered n rows) = map (\<lambda>k. n + int k) [0..<length rows]"
  using assms by (intro nth_equalityI) simp_all

lemma append_numbered_keys:
  assumes "distinct (map key xs)" and "list_all (\<lambda>x. key x < n) xs" and "\<forall>f\<in>set rows. \<forall>i. key (f i) = i"
  shows "distinct (map key (xs @ numbered n rows))"
    and "list_all (\<lambda>x. key x < n + int (length rows)) (xs @ numbered n rows)"
proof -
  have new: "map key (numbered n rows) = map (\<lambda>k. n + int k) [0..<length rows]"
    by (rule distinct_numbered [OF assms(3)])
  then have "set (map key (numbered n rows)) = (\<lambda>k. n + int k) ` {..<length rows}" by (simp only: set_map set_upt atLeast0LessThan)
  then have above: "key ` set (numbered n rows) = (\<lambda>k. n + int k) ` {..<length rows}" by simp
  have "distinct (map key (numbered n rows))" unfolding new by (simp add: distinct_map inj_on_def)
  with above assms(1,2) show "distinct (map key (xs @ numbered n rows))" by (fastforce simp: list_all_iff)
  have "key x < n + int (length rows)" if "x \<in> set (numbered n rows)" for x
    using above that by (metis (no_types, lifting) add_less_cancel_left imageE image_eqI lessThan_iff of_nat_less_iff)
  with assms(2) show "list_all (\<lambda>x. key x < n + int (length rows)) (xs @ numbered n rows)"
    by (fastforce simp: list_all_iff)
qed

text \<open>Numbered rows agree, up to their ids, with the contents they were made from.\<close>

lemma map_numbered:
  assumes "\<And>f i. f \<in> set rows \<Longrightarrow> g (f i) = h f"
  shows "map g (numbered n rows) = map h rows"
  by (rule nth_equalityI) (simp_all add: assms)

text \<open>Two loops in a row are one loop, and a loop derives one row from every element that has one.\<close>

lemma rmap_rmap: "rmap f xs = Inr ys \<Longrightarrow> rmap g ys = rmap (\<lambda>x. rbind (f x) g) xs"
  by (induction xs arbitrary: ys) (auto simp: rbind_eq_Inr)

lemma rmap_derived: "rmap f xs = Inr ys \<Longrightarrow> ys = List.map_filter (\<lambda>x. try_undefined (f x)) xs"
  by (induction xs arbitrary: ys) (auto simp: rbind_eq_Inr map_filter_simps)

lemma rmap_cong_set: "(\<And>x. x \<in> set xs \<Longrightarrow> f x = g x) \<Longrightarrow> rmap f xs = rmap g xs"
  by (induction xs) simp_all

text \<open>What is derived from the rows of a range is the sum of what is derived from its parts.\<close>

lemma derived_range_split:
  assumes "a \<le> b" and "b \<le> c"
  shows "mset (List.map_filter f (sort_key k (filter (\<lambda>x. P x \<and> in_range a c (h x)) xs))) =
    mset (List.map_filter f (sort_key k (filter (\<lambda>x. P x \<and> in_range a b (h x)) xs))) +
    mset (List.map_filter f (sort_key k (filter (\<lambda>x. P x \<and> in_range b c (h x)) xs)))"
  unfolding mset_map_filter_mset mset_sort mset_filter by (subst filter_mset_range_split [OF assms]) simp

section \<open>Keys of tokens\<close>

text \<open>The key \<^verbatim>\<open>`${contract}_${token_id}`\<close>; an undefined token id is spelt out.\<close>

definition token_key :: "string \<Rightarrow> string option \<Rightarrow> string" where
  "token_key contract token_id =
     contract @ CHR ''_'' # (case token_id of None \<Rightarrow> ''undefined'' | Some t \<Rightarrow> t)"

lemma token_key_inj_left:
  "CHR ''_'' \<notin> set c \<Longrightarrow> CHR ''_'' \<notin> set d \<Longrightarrow>
    token_key c (Some i) = token_key d (Some j) \<longleftrightarrow> c = d \<and> i = j"
  by (simp add: token_key_def sep_key_inj)

section \<open>Validation of rows\<close>

text \<open>
  \<^verbatim>\<open>fromJson\<close> validates with \<^verbatim>\<open>coerceTypes\<close>: a null in a field declared as a string becomes the
  empty string, in a field declared as a number zero. Fields that are undefined stay so.
\<close>

text \<open>A required field.\<close>

definition required :: "string \<Rightarrow> string option \<Rightarrow> string res" where
  "required field v = (case v of None \<Rightarrow> Inl (ValidationError field) | Some s \<Rightarrow> Inr s)"

definition coerce_string :: "string option \<Rightarrow> string" where
  "coerce_string v = (case v of None \<Rightarrow> [] | Some s \<Rightarrow> s)"

definition coerce_number :: "int option \<Rightarrow> int" where
  "coerce_number v = (case v of None \<Rightarrow> 0 | Some n \<Rightarrow> n)"

section \<open>Sums over the rows of a keyed table\<close>

definition msum :: "('v \<Rightarrow> int) \<Rightarrow> ('k \<rightharpoonup> 'v) \<Rightarrow> int" where
  "msum f m = (\<Sum>k\<in>dom m. f (the (m k)))"

lemma msum_empty [simp]: "msum f Map.empty = 0"
  by (simp add: msum_def)

lemma msum_upd:
  assumes "finite (dom m)"
  shows "msum f (m(k \<mapsto> v)) = msum f m + f v - (case m k of None \<Rightarrow> 0 | Some u \<Rightarrow> f u)"
proof -
  have rest: "(\<Sum>x\<in>dom m - {k}. f (the ((m(k \<mapsto> v)) x))) = (\<Sum>x\<in>dom m - {k}. f (the (m x)))"
    by (rule sum.cong) auto
  have new: "msum f (m(k \<mapsto> v)) = f v + (\<Sum>x\<in>dom m - {k}. f (the (m x)))"
    using assms rest by (simp add: msum_def sum.insert_remove)
  show ?thesis
  proof (cases "m k")
    case None
    then have "dom m - {k} = dom m" by auto
    with None new show ?thesis by (simp add: msum_def)
  next
    case (Some u)
    then have "k \<in> dom m" by blast
    then have "msum f m = f u + (\<Sum>x\<in>dom m - {k}. f (the (m x)))"
      using assms Some by (simp add: msum_def sum.remove)
    with Some new show ?thesis by simp
  qed
qed

end
