(* ===== verification/Checkpoint.thy ===== *)
theory Checkpoint
  imports Prelude
begin

text \<open>
  Block checkpoints (\<^verbatim>\<open>src/models/block_checkpoint.ts\<close>): the table that every indexing job
  reads to find the half-open range of heights of its next run and writes, in the transaction
  that stores the run's rows, to say how far it has come. The theory holds the table, the
  operation \<open>getCheckpoint\<close>, what one run of a job does to the table, and two interfaces:
  \<open>checkpointed_job\<close>, what every job promises about its checkpoint, and \<open>appending_job\<close>, which
  adds that a run appends exactly the rows derived from the heights of its range.
\<close>

section \<open>The table and its operations\<close>

text \<open>The column \<^verbatim>\<open>job_name\<close> is unique, so the table is a map from job names to heights.\<close>

type_synonym checkpoint_table = "string \<rightharpoonup> int"

record base_db =
  block_checkpoint :: checkpoint_table

record config =
  startBlock :: int
  blocksPerCall :: "string \<Rightarrow> int"

datatype guard = SkipGE | SkipGT | NoGuard

text \<open>
  A call site of \<open>getCheckpoint\<close>: the job, the jobs it waits for, the entry of the
  configuration that bounds a run, and the test that returns early.
\<close>

record job_decl =
  job_name :: string
  lastHeightJobNames :: "string list"
  configName :: "string option"
  job_guard :: guard

text \<open>\<^verbatim>\<open>whereIn('job_name', names).orderBy('height', 'ASC').first()\<close>\<close>

definition lastHeightCheckpoint :: "checkpoint_table \<Rightarrow> string list \<Rightarrow> int option" where
  "lastHeightCheckpoint tbl names =
     (case List.map_filter tbl names of
        [] \<Rightarrow> None
      | h # hs \<Rightarrow> Some (fold min hs h))"

definition getCheckpoint ::
  "config \<Rightarrow> checkpoint_table \<Rightarrow> string \<Rightarrow> string list \<Rightarrow> string option \<Rightarrow> int \<times> int \<times> (string \<times> int)"
where
  "getCheckpoint cfg tbl jobName names confName =
     (let jobCheckpoint = tbl jobName;
          lastHeight = lastHeightCheckpoint tbl names;
          startHeight = (case jobCheckpoint of Some h \<Rightarrow> h | None \<Rightarrow> startBlock cfg);
          updateBlockCheckpoint =
            (case jobCheckpoint of Some h \<Rightarrow> (jobName, h) | None \<Rightarrow> (jobName, startBlock cfg));
          endHeight =
            (case lastHeight of
               None \<Rightarrow> 0
             | Some h \<Rightarrow>
                 (case confName of
                    Some k \<Rightarrow> min (startHeight + blocksPerCall cfg k) h
                  | None \<Rightarrow> h))
      in (startHeight, endHeight, updateBlockCheckpoint))"

text \<open>\<^verbatim>\<open>BlockCheckpoint.query().insert(row).onConflict('job_name').merge()\<close>\<close>

definition saveCheckpoint :: "string \<times> int \<Rightarrow> 'a base_db_scheme \<Rightarrow> 'a base_db_scheme" where
  "saveCheckpoint row db =
     db\<lparr>block_checkpoint := (block_checkpoint db)(fst row \<mapsto> snd row)\<rparr>"

definition skips :: "guard \<Rightarrow> int \<Rightarrow> int \<Rightarrow> bool" where
  "skips g startB endB =
     (case g of SkipGE \<Rightarrow> startB \<ge> endB | SkipGT \<Rightarrow> startB > endB | NoGuard \<Rightarrow> False)"

definition job_start :: "config \<Rightarrow> job_decl \<Rightarrow> checkpoint_table \<Rightarrow> int" where
  "job_start cfg d tbl =
     fst (getCheckpoint cfg tbl (job_name d) (lastHeightJobNames d) (configName d))"

definition job_end :: "config \<Rightarrow> job_decl \<Rightarrow> checkpoint_table \<Rightarrow> int" where
  "job_end cfg d tbl =
     fst (snd (getCheckpoint cfg tbl (job_name d) (lastHeightJobNames d) (configName d)))"

text \<open>
  The shape all range jobs share: read the range, return early on the guard, do the work of
  the range and, in the same transaction, set the job's own checkpoint to the end of the range.
\<close>

definition range_job ::
  "config \<Rightarrow> job_decl \<Rightarrow> (int \<Rightarrow> int \<Rightarrow> 'a base_db_scheme \<Rightarrow> 'a base_db_scheme res)
    \<Rightarrow> 'a base_db_scheme \<Rightarrow> 'a base_db_scheme res"
where
  "range_job cfg d work db =
     (case getCheckpoint cfg (block_checkpoint db) (job_name d) (lastHeightJobNames d) (configName d)
      of (startB, endB, row) \<Rightarrow>
        if skips (job_guard d) startB endB then Inr db
        else rbind (work startB endB db) (\<lambda>db'. Inr (saveCheckpoint (fst row, endB) db')))"

text \<open>What one run does to the checkpoint table, whatever else it does.\<close>

definition checkpoint_run :: "config \<Rightarrow> job_decl \<Rightarrow> checkpoint_table \<Rightarrow> checkpoint_table" where
  "checkpoint_run cfg d tbl =
     (if skips (job_guard d) (job_start cfg d tbl) (job_end cfg d tbl) then tbl
      else tbl(job_name d \<mapsto> job_end cfg d tbl))"

section \<open>Facts about the range of a run\<close>

lemma fold_min_le: "fold min hs (h :: int) \<le> h \<and> (\<forall>x\<in>set hs. fold min hs h \<le> x)"
proof (induction hs arbitrary: h)
  case (Cons a hs)
  have "fold min hs (min a h) \<le> min a h" and "\<forall>x\<in>set hs. fold min hs (min a h) \<le> x"
    using Cons by blast+
  then show ?case by auto
qed simp

lemma fold_min_in: "fold min hs (h :: int) \<in> insert h (set hs)"
proof (induction hs arbitrary: h)
  case (Cons a hs)
  from Cons [of "min a h"] show ?case by (auto simp: min_def split: if_splits)
qed simp

lemma map_filter_eq_Nil: "List.map_filter t ns = [] \<longleftrightarrow> (\<forall>n\<in>set ns. t n = None)"
  by (induction ns) (auto simp: map_filter_simps split: option.split)

lemma set_map_filter_Some: "x \<in> set (List.map_filter t ns) \<longleftrightarrow> (\<exists>n\<in>set ns. t n = Some x)"
  by (induction ns) (auto simp: map_filter_simps split: option.split)

lemma lastHeightCheckpoint_None:
  "lastHeightCheckpoint tbl names = None \<longleftrightarrow> (\<forall>n\<in>set names. tbl n = None)"
  by (simp add: lastHeightCheckpoint_def map_filter_eq_Nil [symmetric] split: list.split)

lemma lastHeightCheckpoint_le:
  assumes "lastHeightCheckpoint tbl names = Some h" and "n \<in> set names" and "tbl n = Some k"
  shows "h \<le> k"
proof -
  from assms(2,3) have "k \<in> set (List.map_filter tbl names)"
    by (auto simp: set_map_filter_Some)
  with assms(1) fold_min_le show ?thesis
    by (auto simp: lastHeightCheckpoint_def split: list.splits)
qed

lemma lastHeightCheckpoint_in:
  assumes "lastHeightCheckpoint tbl names = Some h"
  shows "\<exists>n\<in>set names. tbl n = Some h"
proof -
  from assms have "h \<in> set (List.map_filter tbl names)"
    using fold_min_in by (auto simp: lastHeightCheckpoint_def split: list.splits)
  then show ?thesis by (simp add: set_map_filter_Some)
qed

lemma job_start_eq:
  "job_start cfg d tbl = (case tbl (job_name d) of Some h \<Rightarrow> h | None \<Rightarrow> startBlock cfg)"
  by (simp add: job_start_def getCheckpoint_def Let_def)

lemma job_end_eq:
  "job_end cfg d tbl =
     (case lastHeightCheckpoint tbl (lastHeightJobNames d) of
        None \<Rightarrow> 0
      | Some h \<Rightarrow>
          (case configName d of
             Some k \<Rightarrow> min (job_start cfg d tbl + blocksPerCall cfg k) h
           | None \<Rightarrow> h))"
  by (simp add: job_end_def job_start_eq getCheckpoint_def Let_def split: option.split)

lemma getCheckpoint_row:
  "getCheckpoint cfg tbl (job_name d) (lastHeightJobNames d) (configName d) =
     (job_start cfg d tbl, job_end cfg d tbl, (job_name d, job_start cfg d tbl))"
  by (simp add: job_end_def job_start_def getCheckpoint_def Let_def split: option.split)

lemma job_end_le_dependency:
  assumes "n \<in> set (lastHeightJobNames d)" and "tbl n = Some h"
  shows "job_end cfg d tbl \<le> h"
proof -
  from assms have "lastHeightCheckpoint tbl (lastHeightJobNames d) \<noteq> None"
    by (auto simp: lastHeightCheckpoint_None)
  then obtain m where m: "lastHeightCheckpoint tbl (lastHeightJobNames d) = Some m" by blast
  with assms have "m \<le> h" by (auto intro: lastHeightCheckpoint_le)
  with m show ?thesis by (auto simp: job_end_eq split: option.split)
qed

lemma block_checkpoint_saveCheckpoint [simp]:
  "block_checkpoint (saveCheckpoint row db) = (block_checkpoint db)(fst row \<mapsto> snd row)"
  by (simp add: saveCheckpoint_def)

lemma range_job_unfold:
  "range_job cfg d work db =
     (if skips (job_guard d) (job_start cfg d (block_checkpoint db)) (job_end cfg d (block_checkpoint db))
      then Inr db
      else rbind (work (job_start cfg d (block_checkpoint db)) (job_end cfg d (block_checkpoint db)) db)
             (\<lambda>db'. Inr (saveCheckpoint (job_name d, job_end cfg d (block_checkpoint db)) db')))"
  by (simp add: range_job_def getCheckpoint_row)

lemma range_job_cases:
  assumes "range_job cfg d work db = Inr db'"
  obtains
    (skip) "skips (job_guard d) (job_start cfg d (block_checkpoint db)) (job_end cfg d (block_checkpoint db))"
      "db' = db"
  | (worked) db1 where
      "\<not> skips (job_guard d) (job_start cfg d (block_checkpoint db)) (job_end cfg d (block_checkpoint db))"
      "work (job_start cfg d (block_checkpoint db)) (job_end cfg d (block_checkpoint db)) db = Inr db1"
      "db' = saveCheckpoint (job_name d, job_end cfg d (block_checkpoint db)) db1"
  using assms by (auto simp: range_job_unfold rbind_eq_Inr split: if_splits)

lemma range_job_isl:
  "isl (range_job cfg d work db) \<longleftrightarrow>
     \<not> skips (job_guard d) (job_start cfg d (block_checkpoint db)) (job_end cfg d (block_checkpoint db)) \<and>
     isl (work (job_start cfg d (block_checkpoint db)) (job_end cfg d (block_checkpoint db)) db)"
  by (cases "work (job_start cfg d (block_checkpoint db)) (job_end cfg d (block_checkpoint db)) db")
    (simp_all add: range_job_unfold)

text \<open>A range job whose work leaves the checkpoint table alone changes it as \<open>checkpoint_run\<close> says.\<close>

lemma range_job_checkpoint:
  assumes "range_job cfg d work db = Inr db'"
    and "\<And>s e db db'. work s e db = Inr db' \<Longrightarrow> block_checkpoint db' = block_checkpoint db"
  shows "block_checkpoint db' = checkpoint_run cfg d (block_checkpoint db)"
  using assms(1)
  by (auto simp: range_job_unfold checkpoint_run_def rbind_eq_Inr split: if_splits dest: assms(2))

lemma job_start_checkpoint_run:
  "job_start cfg d (checkpoint_run cfg d tbl) =
     (if skips (job_guard d) (job_start cfg d tbl) (job_end cfg d tbl) then job_start cfg d tbl
      else job_end cfg d tbl)"
  by (simp add: checkpoint_run_def job_start_eq)

lemma not_skips_le: "g \<noteq> NoGuard \<Longrightarrow> \<not> skips g s e \<Longrightarrow> s \<le> e"
  by (cases g) (simp_all add: skips_def)

lemma checkpoint_run_mono:
  assumes "job_guard d \<noteq> NoGuard"
  shows "job_start cfg d tbl \<le> job_start cfg d (checkpoint_run cfg d tbl)"
  using not_skips_le [OF assms] by (simp add: job_start_checkpoint_run)

lemma checkpoint_run_other: "n \<noteq> job_name d \<Longrightarrow> checkpoint_run cfg d tbl n = tbl n"
  by (simp add: checkpoint_run_def)

section \<open>Runs of a job among other changes of the database\<close>

text \<open>
  A trace of the database as one job sees it: the job runs, or the environment (the other jobs)
  changes the database in a way the relation \<open>env\<close> allows. \<open>pre\<close> restricts the states in
  which the job is started.
\<close>

inductive job_trace ::
  "('db \<Rightarrow> 'db res) \<Rightarrow> ('db \<Rightarrow> bool) \<Rightarrow> ('db \<Rightarrow> 'db \<Rightarrow> bool) \<Rightarrow> 'db \<Rightarrow> 'db \<Rightarrow> bool"
  for run :: "'db \<Rightarrow> 'db res" and pre :: "'db \<Rightarrow> bool" and env :: "'db \<Rightarrow> 'db \<Rightarrow> bool" and db0 :: 'db
where
  trace_start: "job_trace run pre env db0 db0"
| trace_run: "job_trace run pre env db0 db \<Longrightarrow> pre db \<Longrightarrow> run db = Inr db' \<Longrightarrow> job_trace run pre env db0 db'"
| trace_env: "job_trace run pre env db0 db \<Longrightarrow> env db db' \<Longrightarrow> job_trace run pre env db0 db'"

lemma trace_one: "pre db0 \<Longrightarrow> run db0 = Inr db \<Longrightarrow> job_trace run pre env db0 db"
  by (rule trace_run [OF trace_start])

text \<open>
  What the environment may do while a job relies on its checkpoint: it does not touch the job's
  checkpoint or its output, and what the job derives from heights it has passed is settled.
\<close>

definition settled_env ::
  "('db \<Rightarrow> int) \<Rightarrow> ('db \<Rightarrow> 'm) \<Rightarrow> ('db \<Rightarrow> int \<Rightarrow> int \<Rightarrow> 'r) \<Rightarrow> 'db \<Rightarrow> 'db \<Rightarrow> bool"
where
  "settled_env pos out rows db db' \<longleftrightarrow>
     pos db' = pos db \<and> out db' = out db \<and> (\<forall>a b. b \<le> pos db \<longrightarrow> rows db' a b = rows db a b)"

text \<open>A job without a guard relies on being started only when the end of its range is not behind it.\<close>

definition forward :: "config \<Rightarrow> job_decl \<Rightarrow> 'a base_db_scheme \<Rightarrow> bool" where
  "forward cfg d db \<longleftrightarrow> job_start cfg d (block_checkpoint db) \<le> job_end cfg d (block_checkpoint db)"

text \<open>The interface every job that uses \<open>getCheckpoint\<close> offers.\<close>

locale checkpointed_job =
  fixes cfg :: config
    and decl :: job_decl
    and run :: "'a base_db_scheme \<Rightarrow> 'a base_db_scheme res"
  assumes run_checkpoint:
    "run db = Inr db' \<Longrightarrow> block_checkpoint db' = checkpoint_run cfg decl (block_checkpoint db)"
begin

abbreviation pos :: "'a base_db_scheme \<Rightarrow> int" where
  "pos db \<equiv> job_start cfg decl (block_checkpoint db)"

lemma run_mono: "job_guard decl \<noteq> NoGuard \<Longrightarrow> run db = Inr db' \<Longrightarrow> pos db \<le> pos db'"
  using checkpoint_run_mono by (simp add: run_checkpoint)

lemma run_other_checkpoint:
  "run db = Inr db' \<Longrightarrow> n \<noteq> job_name decl \<Longrightarrow> block_checkpoint db' n = block_checkpoint db n"
  by (simp add: run_checkpoint checkpoint_run_other)

lemma run_within_dependency:
  assumes "run db = Inr db'" and "n \<in> set (lastHeightJobNames decl)"
    and "block_checkpoint db n = Some h" and "pos db \<le> h"
  shows "pos db' \<le> h"
  using assms job_end_le_dependency [where cfg = cfg and tbl = "block_checkpoint db", OF assms(2,3)]
  by (simp add: run_checkpoint job_start_checkpoint_run)

end

text \<open>
  A job that derives, from the heights of its range, an addition to what it has stored: a
  multiset of new rows, or a change of a balance. \<open>rows db a b\<close> is what the heights after
  \<open>a\<close> and up to \<open>b\<close> contribute.
\<close>

locale appending_job = checkpointed_job cfg decl run
  for cfg :: config and decl :: job_decl and run :: "'a base_db_scheme \<Rightarrow> 'a base_db_scheme res" +
  fixes pre :: "'a base_db_scheme \<Rightarrow> bool"
    and rows :: "'a base_db_scheme \<Rightarrow> int \<Rightarrow> int \<Rightarrow> 'm :: cancel_comm_monoid_add"
    and out :: "'a base_db_scheme \<Rightarrow> 'm"
  assumes run_out: "pre db \<Longrightarrow> run db = Inr db' \<Longrightarrow>
      out db' = out db +
        (if skips (job_guard decl) (pos db) (job_end cfg decl (block_checkpoint db)) then 0
         else rows db (pos db) (job_end cfg decl (block_checkpoint db)))"
    and run_rows: "pre db \<Longrightarrow> run db = Inr db' \<Longrightarrow> rows db' = rows db"
    and rows_split: "a \<le> b \<Longrightarrow> b \<le> c \<Longrightarrow> rows db a c = rows db a b + rows db b c"
    and guarded: "pre db \<Longrightarrow> \<not> skips (job_guard decl) (pos db) (job_end cfg decl (block_checkpoint db)) \<Longrightarrow>
      pos db \<le> job_end cfg decl (block_checkpoint db)"
begin

lemma rows_empty: "rows db a a = 0"
  using rows_split [of a a a db] by simp

lemma run_step:
  assumes "run db = Inr db'" and "pre db"
  shows "pos db \<le> pos db' \<and> out db' = out db + rows db' (pos db) (pos db')"
  using run_out [OF assms(2,1)] run_rows [OF assms(2,1)] run_checkpoint [OF assms(1)] guarded [OF assms(2)]
  by (simp add: job_start_checkpoint_run rows_empty)

theorem exactly_once:
  assumes "job_trace run pre (settled_env pos out rows) db0 db"
  shows "pos db0 \<le> pos db \<and> out db = out db0 + rows db (pos db0) (pos db)"
  using assms
proof (induction rule: job_trace.induct)
  case trace_start
  show ?case by (simp add: rows_empty)
next
  case (trace_run db db')
  have "pos db \<le> pos db'" and out: "out db' = out db + rows db' (pos db) (pos db')"
    using run_step [OF trace_run.hyps(3,2)] by blast+
  moreover have "rows db = rows db'" using run_rows [OF trace_run.hyps(2,3)] by simp
  ultimately show ?case
    using trace_run.IH rows_split [of "pos db0" "pos db" "pos db'" db'] by (simp add: add.assoc)
next
  case (trace_env db db')
  then show ?case by (auto simp: settled_env_def)
qed

end

text \<open>
  A job that replays, in order, what the heights of its range contain over a state it keeps:
  \<open>acts db a b\<close> are the steps of the heights after \<open>a\<close> and up to \<open>b\<close>, \<open>abs\<close> the state. \<open>ok\<close> is
  what the job keeps and the environment must not break.
\<close>

locale replaying_job = checkpointed_job cfg decl run
  for cfg :: config and decl :: job_decl and run :: "'a base_db_scheme \<Rightarrow> 'a base_db_scheme res" +
  fixes pre :: "'a base_db_scheme \<Rightarrow> bool"
    and ok :: "'a base_db_scheme \<Rightarrow> bool"
    and acts :: "'a base_db_scheme \<Rightarrow> int \<Rightarrow> int \<Rightarrow> 'x list"
    and step :: "'x \<Rightarrow> 's \<Rightarrow> 's"
    and abs :: "'a base_db_scheme \<Rightarrow> 's"
  assumes replay_abs: "ok db \<Longrightarrow> run db = Inr db' \<Longrightarrow>
      abs db' = (if skips (job_guard decl) (pos db) (job_end cfg decl (block_checkpoint db)) then abs db
        else fold step (acts db (pos db) (job_end cfg decl (block_checkpoint db))) (abs db))"
    and replay_acts: "run db = Inr db' \<Longrightarrow> acts db' = acts db"
    and replay_ok: "ok db \<Longrightarrow> run db = Inr db' \<Longrightarrow> ok db'"
    and acts_split: "ok db \<Longrightarrow> a \<le> b \<Longrightarrow> b \<le> c \<Longrightarrow> acts db a c = acts db a b @ acts db b c"
    and replay_guarded: "pre db \<Longrightarrow> \<not> skips (job_guard decl) (pos db) (job_end cfg decl (block_checkpoint db)) \<Longrightarrow>
      pos db \<le> job_end cfg decl (block_checkpoint db)"
begin

lemma acts_empty: "ok db \<Longrightarrow> acts db a a = []"
  using acts_split [of db a a a] by simp

lemma replay_step:
  assumes "run db = Inr db'" and "pre db" and "ok db"
  shows "pos db \<le> pos db' \<and> abs db' = fold step (acts db' (pos db) (pos db')) (abs db)"
  using replay_abs [OF assms(3,1)] replay_acts [OF assms(1)] run_checkpoint [OF assms(1)]
    replay_guarded [OF assms(2)] acts_empty [OF assms(3)]
  by (simp add: job_start_checkpoint_run)

theorem replays_once:
  assumes "job_trace run pre (\<lambda>db db'. settled_env pos abs acts db db' \<and> ok db') db0 db" and "ok db0"
  shows "ok db \<and> pos db0 \<le> pos db \<and> abs db = fold step (acts db (pos db0) (pos db)) (abs db0)"
  using assms
proof (induction rule: job_trace.induct)
  case trace_start
  then show ?case by (simp add: acts_empty)
next
  case (trace_run db db')
  then have IH: "ok db" "pos db0 \<le> pos db" "abs db = fold step (acts db (pos db0) (pos db)) (abs db0)"
    by blast+
  moreover have "ok db'" using replay_ok [OF IH(1) trace_run.hyps(3)] .
  moreover have "pos db \<le> pos db'" "abs db' = fold step (acts db' (pos db) (pos db')) (abs db)"
    using replay_step [OF trace_run.hyps(3,2) IH(1)] by blast+
  moreover have "acts db' = acts db" using replay_acts [OF trace_run.hyps(3)] .
  ultimately show ?case using acts_split [of db "pos db0" "pos db" "pos db'"] by simp
next
  case (trace_env db db')
  then show ?case by (auto simp: settled_env_def)
qed

end

end
