(* ===== verification/Chain_Db.thy ===== *)
theory Chain_Db
  imports Checkpoint
begin

text \<open>
  The tables of raw chain data that the Cosmos side of the indexer shares: blocks with their
  signatures, transactions, messages, and events with their attributes (\<^verbatim>\<open>src/models/block.ts\<close>,
  \<^verbatim>\<open>transaction.ts\<close>, \<^verbatim>\<open>transaction_message.ts\<close>, \<^verbatim>\<open>event.ts\<close>, \<^verbatim>\<open>event_attribute.ts\<close>), and the attribute
  codec that \<^verbatim>\<open>src/common/utils/chain.registry.ts\<close> picks by the version of the Cosmos SDK.
\<close>

section \<open>Events as the node reports them\<close>

text \<open>A field that the JSON of the node leaves out, or sets to null, is \<open>None\<close>.\<close>

record raw_attribute =
  ra_key :: "string option"
  ra_value :: "string option"

record raw_event =
  re_type :: string
  re_attributes :: "raw_attribute list option"
  re_msg_index :: "nat option"

section \<open>Tables\<close>

datatype event_source = BEGIN_BLOCK_EVENT | END_BLOCK_EVENT | TX_EVENT

text \<open>An event row with the attribute rows that reference it.\<close>

record event_row =
  evt_id :: int
  evt_tx_id :: "int option"
  evt_tx_msg_index :: "nat option"
  evt_type :: string
  evt_block_height :: int
  evt_source :: event_source
  evt_attributes :: "event_attribute list"

record block_signature =
  bs_block_id_flag :: int
  bs_validator_address :: string
  bs_timestamp :: string

record block_row =
  blk_height :: int
  blk_hash :: string
  blk_time :: string
  blk_proposer_address :: string
  blk_tx_count :: nat
  blk_signatures :: "block_signature list"

text \<open>A message of a transaction: its type URL and the rest of its content.\<close>

record 'c chain_message =
  cm_type :: string
  cm_content :: 'c

text \<open>The part of the stored raw transaction that later jobs read.\<close>

record 'c tx_data =
  td_messages :: "'c chain_message list"
  td_events :: "raw_event list option"
  td_logs :: "raw_event list list option"

text \<open>The column \<^verbatim>\<open>fee\<close> is the JSON of the list of coins.\<close>

record coin =
  coin_denom :: string
  coin_amount :: string

record 'c transaction_row =
  tx_id :: int
  tx_height :: int
  tx_hash :: string
  tx_codespace :: string
  tx_code :: int
  tx_gas_used :: string
  tx_gas_wanted :: string
  tx_gas_limit :: string
  tx_fee :: "coin list"
  tx_memo :: string
  tx_index :: nat
  tx_timestamp :: string
  tx_data :: "'c tx_data option"

record 'c message_row =
  msg_id :: int
  msg_tx_id :: int
  msg_index :: nat
  msg_type :: string
  msg_sender :: string
  msg_content :: 'c
  msg_parent_id :: "int option"

text \<open>Rows of a list are in the order of the primary key, which the sequences hand out.\<close>

record 'c chain_db = base_db +
  block_table :: "block_row list"
  transaction_table :: "'c transaction_row list"
  transaction_seq :: int
  event_table :: "event_row list"
  event_seq :: int
  message_table :: "'c message_row list"
  message_seq :: int

text \<open>The transaction an event refers to.\<close>

definition event_tx :: "('c, 'a) chain_db_scheme \<Rightarrow> event_row \<Rightarrow> 'c transaction_row option" where
  "event_tx db e =
     (case evt_tx_id e of None \<Rightarrow> None | Some i \<Rightarrow> find (\<lambda>t. tx_id t = i) (transaction_table db))"

text \<open>The transaction of a message.\<close>

definition message_tx :: "('c, 'a) chain_db_scheme \<Rightarrow> 'c message_row \<Rightarrow> 'c transaction_row option" where
  "message_tx db m = find (\<lambda>t. tx_id t = msg_tx_id m) (transaction_table db)"

section \<open>The attribute codec\<close>

text \<open>
  \<open>fromBase64\<close>, \<open>toBase64\<close>, \<open>fromUtf8\<close>, \<open>toUtf8\<close> of \<^verbatim>\<open>@cosmjs/encoding\<close> (\<open>None\<close> is a thrown error)
  and \<^verbatim>\<open>SemVer.compare\<close>.
\<close>

record encoding_ext =
  fromBase64 :: "string \<Rightarrow> string option"
  toBase64 :: "string \<Rightarrow> string"
  fromUtf8 :: "string \<Rightarrow> string option"
  toUtf8 :: "string \<Rightarrow> string"
  semver_compare :: "string \<Rightarrow> string \<Rightarrow> int"

record registry =
  decodeAttribute :: "string \<Rightarrow> string"
  encodeAttribute :: "string \<Rightarrow> string"

definition decode_base64_attribute :: "encoding_ext \<Rightarrow> string \<Rightarrow> string" where
  "decode_base64_attribute enc input =
     (if input = [] then input
      else case fromBase64 enc input of
             None \<Rightarrow> input
           | Some bytes \<Rightarrow> (case fromUtf8 enc bytes of None \<Rightarrow> input | Some s \<Rightarrow> s))"

definition setCosmosSdkVersionByString :: "encoding_ext \<Rightarrow> string \<Rightarrow> registry" where
  "setCosmosSdkVersionByString enc version =
     (if semver_compare enc version ''v0.45.99'' = - 1
      then \<lparr>decodeAttribute = decode_base64_attribute enc,
            encodeAttribute = (\<lambda>input. toBase64 enc (toUtf8 enc input))\<rparr>
      else \<lparr>decodeAttribute = (\<lambda>input. input), encodeAttribute = (\<lambda>input. input)\<rparr>)"

text \<open>
  \<^verbatim>\<open>attribute?.key ? decodeAttribute(attribute?.key) : null\<close>. The columns are declared as strings and
  the validator coerces null to the empty string.
\<close>

definition stored_text :: "registry \<Rightarrow> string option \<Rightarrow> string option" where
  "stored_text reg v =
     Some (case v of None \<Rightarrow> [] | Some s \<Rightarrow> if s = [] then [] else decodeAttribute reg s)"

definition attribute_rows_of :: "registry \<Rightarrow> raw_attribute list \<Rightarrow> event_attribute list" where
  "attribute_rows_of reg attrs =
     map (\<lambda>(index, attribute). \<lparr>attr_index = int index, attr_key = stored_text reg (ra_key attribute),
                                attr_value = stored_text reg (ra_value attribute)\<rparr>)
       (zip [0..<length attrs] attrs)"

definition composite_key :: "registry \<Rightarrow> string \<Rightarrow> raw_attribute \<Rightarrow> string" where
  "composite_key reg type attribute =
     (case ra_key attribute of
        None \<Rightarrow> []
      | Some k \<Rightarrow> if k = [] then [] else type @ ''.'' @ decodeAttribute reg k)"

text \<open>\<^verbatim>\<open>insertGraph\<close> of events: consecutive ids from the sequence.\<close>

definition number_events :: "int \<Rightarrow> (int \<Rightarrow> event_row) list \<Rightarrow> event_row list" where
  "number_events n fs = map (\<lambda>(k, f). f (n + int k)) (zip [0..<length fs] fs)"

lemma length_number_events [simp]: "length (number_events n fs) = length fs"
  by (simp add: number_events_def)

lemma length_attribute_rows_of [simp]: "length (attribute_rows_of reg attrs) = length attrs"
  by (simp add: attribute_rows_of_def)

lemma attribute_rows_nth:
  "i < length attrs \<Longrightarrow> attribute_rows_of reg attrs ! i =
     \<lparr>attr_index = int i, attr_key = stored_text reg (ra_key (attrs ! i)),
      attr_value = stored_text reg (ra_value (attrs ! i))\<rparr>"
  by (simp add: attribute_rows_of_def)

section \<open>Properties\<close>

text \<open>What the libraries promise: decoding undoes encoding, and only empty text encodes to nothing.\<close>

definition encoding_ok :: "encoding_ext \<Rightarrow> bool" where
  "encoding_ok enc \<longleftrightarrow>
     (\<forall>b. fromBase64 enc (toBase64 enc b) = Some b) \<and> (\<forall>s. fromUtf8 enc (toUtf8 enc s) = Some s) \<and>
     (\<forall>b. toBase64 enc b = [] \<longrightarrow> b = []) \<and> (\<forall>s. toUtf8 enc s = [] \<longrightarrow> s = [])"

definition sample_encoding :: encoding_ext where
  "sample_encoding =
     \<lparr>fromBase64 = (\<lambda>s. Some (rev s)), toBase64 = rev, fromUtf8 = Some, toUtf8 = id,
      semver_compare = (\<lambda>a b. if a = ''v0.45.17'' then - 1 else 1)\<rparr>"

text \<open>
  Whatever the version of the SDK, the registry's two attribute functions are inverse:
  decoding an encoded attribute gives the attribute back.
\<close>

theorem attribute_roundtrip:
  assumes "encoding_ok enc"
  shows "decodeAttribute (setCosmosSdkVersionByString enc version)
    (encodeAttribute (setCosmosSdkVersionByString enc version) s) = s"
proof -
  have "toBase64 enc (toUtf8 enc s) = [] \<Longrightarrow> s = []" using assms unfolding encoding_ok_def by blast
  moreover have "fromBase64 enc (toBase64 enc (toUtf8 enc s)) = Some (toUtf8 enc s)"
    and "fromUtf8 enc (toUtf8 enc s) = Some s"
    using assms unfolding encoding_ok_def by blast+
  ultimately show ?thesis
    by (auto simp: setCosmosSdkVersionByString_def decode_base64_attribute_def)
qed

theorem attribute_roundtrip_witness:
  "decodeAttribute (setCosmosSdkVersionByString sample_encoding ''v0.45.17'')
     (encodeAttribute (setCosmosSdkVersionByString sample_encoding ''v0.45.17'') ''sender'') = ''sender''"
  by (rule attribute_roundtrip) (simp add: encoding_ok_def sample_encoding_def)

end
