(* ===== verification/Crawl_Block.thy ===== *)
theory Crawl_Block
  imports Chain_Db
begin

text \<open>
  The block crawler (\<^verbatim>\<open>src/services/crawl-block/crawl_block.service.ts\<close>): it asks the node for the
  next range of blocks and their results, stores those that are not stored yet with their
  signatures and events, and then, outside the transaction that stored them, moves its
  checkpoint. The lemmas show that stops between the two writes leave no gap and no duplicate.
\<close>

section \<open>What the node answers\<close>

record block_json =
  bj_height :: "string option"
  bj_time :: "string option"
  bj_proposer_address :: "string option"
  bj_txs_length :: "nat option"
  bj_last_commit_signatures :: "block_signature list option"

record rpc_result =
  rr_block_id_hash :: "string option"
  rr_block :: "block_json option"
  rr_begin_block_events :: "raw_event list option"
  rr_end_block_events :: "raw_event list option"

record merged_response =
  mr_block_id_hash :: "string option"
  mr_block :: "block_json option"
  mr_block_result :: rpc_result

text \<open>
  The node as the crawler sees it: the answer to a JSON-RPC request by method and height, the
  height of the latest block, and the validator's test of the format \<^verbatim>\<open>date-time\<close>.
\<close>

record node_ext =
  rpc_execute :: "string \<Rightarrow> string \<Rightarrow> rpc_result"
  latest_height :: "string option"
  is_date_time :: "string \<Rightarrow> bool"

section \<open>Range and queries\<close>

definition CRAWL_BLOCK :: string where "CRAWL_BLOCK = ''crawl:block''"

definition initEnv :: "config \<Rightarrow> 'a base_db_scheme \<Rightarrow> int \<times> 'a base_db_scheme" where
  "initEnv cfg db =
     (case block_checkpoint db CRAWL_BLOCK of
        None \<Rightarrow> (startBlock cfg, saveCheckpoint (CRAWL_BLOCK, startBlock cfg) db)
      | Some h \<Rightarrow> (h, db))"

text \<open>A latest height that does not parse is \<^verbatim>\<open>NaN\<close>, and no comparison with it holds.\<close>

definition crawl_range :: "config \<Rightarrow> node_ext \<Rightarrow> int \<Rightarrow> int \<times> int" where
  "crawl_range cfg ext currentBlock =
     (let latestBlockNetwork = js_parseInt (case latest_height ext of None \<Rightarrow> ''0'' | Some h \<Rightarrow> h);
          startB = currentBlock + 1;
          endB = startB + blocksPerCall cfg ''crawlBlock'' - 1
      in (startB,
          case latestBlockNetwork of
            None \<Rightarrow> endB
          | Some latest \<Rightarrow> if endB > int latest then int latest else endB))"

definition block_queries :: "int \<Rightarrow> int \<Rightarrow> (string \<times> string) list" where
  "block_queries startB endB =
     concat (map (\<lambda>i. [(''block'', show_int i), (''block_results'', show_int i)]) [startB..endB])"

definition merge_response :: "rpc_result \<Rightarrow> rpc_result \<Rightarrow> merged_response" where
  "merge_response r result =
     \<lparr>mr_block_id_hash = rr_block_id_hash r, mr_block = rr_block r, mr_block_result = result\<rparr>"

fun mergeBlockResponses :: "rpc_result list \<Rightarrow> merged_response list res" where
  "mergeBlockResponses [] = Inr []"
| "mergeBlockResponses [r] = Inl TypeError"
| "mergeBlockResponses (r # result # rest) =
     rbind (mergeBlockResponses rest) (\<lambda>ms. Inr (merge_response r result # ms))"

section \<open>Building the rows\<close>

definition header_height :: "merged_response \<Rightarrow> string option" where
  "header_height m = (case mr_block m of None \<Rightarrow> None | Some b \<Rightarrow> bj_height b)"

text \<open>The value of the first attribute \<open>bloom\<close> of a \<open>block_bloom\<close> event is blanked.\<close>

fun blank_first_bloom :: "raw_attribute list \<Rightarrow> raw_attribute list" where
  "blank_first_bloom [] = []"
| "blank_first_bloom (a # as) =
     (if ra_key a = Some ''bloom'' then a\<lparr>ra_value := Some []\<rparr> # as else a # blank_first_bloom as)"

definition end_block_event :: "raw_event \<Rightarrow> raw_event res" where
  "end_block_event e =
     (if re_type e = ''block_bloom''
      then rbind (need (re_attributes e)) (\<lambda>attrs. Inr (e\<lparr>re_attributes := Some (blank_first_bloom attrs)\<rparr>))
      else Inr e)"

definition block_event_row :: "registry \<Rightarrow> int \<Rightarrow> raw_event \<times> event_source \<Rightarrow> (int \<Rightarrow> event_row) res" where
  "block_event_row reg height es =
     rbind (need (re_attributes (fst es))) (\<lambda>attrs.
       Inr (\<lambda>i. \<lparr>evt_id = i, evt_tx_id = None, evt_tx_msg_index = None, evt_type = re_type (fst es),
                 evt_block_height = height, evt_source = snd es,
                 evt_attributes = attribute_rows_of reg attrs\<rparr>))"

definition block_events :: "registry \<Rightarrow> int \<Rightarrow> rpc_result \<Rightarrow> (int \<Rightarrow> event_row) list res" where
  "block_events reg height result =
     (let begins = (case rr_begin_block_events result of None \<Rightarrow> [] | Some es \<Rightarrow> es);
          ends = (case rr_end_block_events result of None \<Rightarrow> [] | Some es \<Rightarrow> es) in
      rbind (rmap end_block_event ends) (\<lambda>ends.
        rmap (block_event_row reg height)
          (map (\<lambda>e. (e, BEGIN_BLOCK_EVENT)) begins @ map (\<lambda>e. (e, END_BLOCK_EVENT)) ends)))"

text \<open>\<^verbatim>\<open>Block.fromJson\<close>: the height is decimal text that the validator coerces to a number.\<close>

definition valid_text :: "string option \<Rightarrow> string res" where
  "valid_text v =
     (case v of
        None \<Rightarrow> Inl (ValidationError ''required'')
      | Some s \<Rightarrow> if 1 \<le> length s \<and> length s \<le> 255 then Inr s else Inl (ValidationError ''length''))"

definition coerced_height :: "string option \<Rightarrow> int res" where
  "coerced_height v =
     (case v of
        None \<Rightarrow> Inl (ValidationError ''required'')
      | Some s \<Rightarrow> if s \<noteq> [] \<and> list_all is_digit s then Inr (int (digits_value s))
                 else Inl (ValidationError ''height''))"

definition block_model :: "node_ext \<Rightarrow> merged_response \<Rightarrow> block_row res" where
  "block_model ext m =
     rbind (need (mr_block m)) (\<lambda>b.
     rbind (coerced_height (bj_height b)) (\<lambda>height.
     rbind (valid_text (mr_block_id_hash m)) (\<lambda>hash.
     rbind (case bj_time b of
              None \<Rightarrow> Inl (ValidationError ''required'')
            | Some t \<Rightarrow> if is_date_time ext t then Inr t else Inl (ValidationError ''date-time'')) (\<lambda>time.
     rbind (valid_text (bj_proposer_address b)) (\<lambda>proposer.
       Inr \<lparr>blk_height = height, blk_hash = hash, blk_time = time, blk_proposer_address = proposer,
            blk_tx_count = (case bj_txs_length b of None \<Rightarrow> 0 | Some n \<Rightarrow> n),
            blk_signatures = (case bj_last_commit_signatures b of None \<Rightarrow> [] | Some ss \<Rightarrow> ss)\<rparr>)))))"

definition block_graph ::
  "node_ext \<Rightarrow> registry \<Rightarrow> merged_response \<Rightarrow> (block_row \<times> (int \<Rightarrow> event_row) list) res"
where
  "block_graph ext reg m =
     rbind (block_model ext m) (\<lambda>b.
     rbind (block_events reg (blk_height b) (mr_block_result m)) (\<lambda>es. Inr (b, es)))"

text \<open>
  The blocks to store: those with a height that no stored block has. \<^verbatim>\<open>insertGraph\<close> fails on a
  height that occurs twice, the key of the table.
\<close>

definition new_blocks :: "merged_response list \<Rightarrow> block_row list \<Rightarrow> merged_response list" where
  "new_blocks listBlock table =
     filter (\<lambda>m. case header_height m of
                   None \<Rightarrow> False
                 | Some h \<Rightarrow> h \<noteq> [] \<and> (case js_parseInt h of
                     None \<Rightarrow> True | Some n \<Rightarrow> int n \<notin> set (map blk_height table)))
       listBlock"

definition insert_block_graphs ::
  "(block_row \<times> (int \<Rightarrow> event_row) list) list \<Rightarrow> ('c, 'a) chain_db_scheme \<Rightarrow> ('c, 'a) chain_db_scheme res"
where
  "insert_block_graphs graphs db =
     (let rows = map fst graphs; events = concat (map snd graphs) in
      if graphs = [] then Inr db
      else if distinct (map blk_height (block_table db @ rows))
      then Inr (db\<lparr>block_table := block_table db @ rows,
                   event_table := event_table db @ number_events (event_seq db) events,
                   event_seq := event_seq db + int (length events)\<rparr>)
      else Inl (DbError ''duplicate key value violates unique constraint''))"

definition handleListBlock ::
  "node_ext \<Rightarrow> registry \<Rightarrow> merged_response list \<Rightarrow> ('c, 'a) chain_db_scheme \<Rightarrow> ('c, 'a) chain_db_scheme res"
where
  "handleListBlock ext reg listBlock db =
     rbind (rmap (block_graph ext reg) (new_blocks listBlock (block_table db)))
       (\<lambda>graphs. insert_block_graphs graphs db)"

text \<open>The two writes of a run: the blocks, and then the checkpoint.\<close>

definition store_range ::
  "config \<Rightarrow> node_ext \<Rightarrow> registry \<Rightarrow> int \<Rightarrow> ('c, 'a) chain_db_scheme \<Rightarrow> ('c, 'a) chain_db_scheme res"
where
  "store_range cfg ext reg currentBlock db =
     (let (startB, endB) = crawl_range cfg ext currentBlock in
      rbind (mergeBlockResponses (map (\<lambda>(method, h). rpc_execute ext method h) (block_queries startB endB)))
        (\<lambda>listBlock. handleListBlock ext reg listBlock db))"

definition move_checkpoint ::
  "config \<Rightarrow> node_ext \<Rightarrow> int \<Rightarrow> ('c, 'a) chain_db_scheme \<Rightarrow> ('c, 'a) chain_db_scheme"
where
  "move_checkpoint cfg ext currentBlock db =
     (let (startB, endB) = crawl_range cfg ext currentBlock in
      if currentBlock < endB then saveCheckpoint (CRAWL_BLOCK, endB) db else db)"

definition handleJobCrawlBlock ::
  "config \<Rightarrow> node_ext \<Rightarrow> registry \<Rightarrow> int \<Rightarrow> ('c, 'a) chain_db_scheme \<Rightarrow> ('c, 'a) chain_db_scheme res"
where
  "handleJobCrawlBlock cfg ext reg currentBlock db =
     (case store_range cfg ext reg currentBlock db of
        Inl _ \<Rightarrow> Inl (JsError ''cannot crawl block'')
      | Inr db' \<Rightarrow> Inr (move_checkpoint cfg ext currentBlock db'))"

definition crawl_block_job ::
  "config \<Rightarrow> node_ext \<Rightarrow> registry \<Rightarrow> ('c, 'a) chain_db_scheme \<Rightarrow> ('c, 'a) chain_db_scheme res"
where
  "crawl_block_job cfg ext reg db =
     (let (currentBlock, db1) = initEnv cfg db in handleJobCrawlBlock cfg ext reg currentBlock db1)"

section \<open>What a run stores\<close>

text \<open>The node answers a request for the block at a height with that block.\<close>

definition merged_at :: "node_ext \<Rightarrow> int \<Rightarrow> merged_response" where
  "merged_at ext i =
     merge_response (rpc_execute ext ''block'' (show_int i)) (rpc_execute ext ''block_results'' (show_int i))"

definition rpc_ok :: "node_ext \<Rightarrow> bool" where
  "rpc_ok ext \<longleftrightarrow> (\<forall>i>0. header_height (merged_at ext i) = Some (show_int i))"

lemma mergeBlockResponses_queries:
  "mergeBlockResponses (map (\<lambda>(method, h). rpc_execute ext method h) (block_queries s e)) =
     Inr (map (merged_at ext) [s..e])"
proof -
  have "mergeBlockResponses (map (\<lambda>(method, h). rpc_execute ext method h)
      (concat (map (\<lambda>i. [(''block'', show_int i), (''block_results'', show_int i)]) is))) =
    Inr (map (merged_at ext) is)" for "is"
    by (induction "is") (simp_all add: merged_at_def)
  then show ?thesis by (simp add: block_queries_def)
qed

lemma parse_height: "0 \<le> i \<Longrightarrow> js_parseInt (show_int i) = Some (nat i)"
  by (simp add: show_int_def js_parseInt_show_nat)

lemma show_int_nonempty [simp]: "show_int i \<noteq> []"
  by (simp add: show_int_def)

lemma coerced_height_show: "0 \<le> i \<Longrightarrow> coerced_height (Some (show_int i)) = Inr i"
  using show_nat_digits by (auto simp: coerced_height_def show_int_def list_all_iff)

lemma new_blocks_at:
  assumes "rpc_ok ext" and "0 < s"
  shows "new_blocks (map (merged_at ext) [s..e]) table =
    map (merged_at ext) (filter (\<lambda>i. i \<notin> set (map blk_height table)) [s..e])"
proof -
  have "(case header_height (merged_at ext i) of None \<Rightarrow> False
      | Some h \<Rightarrow> h \<noteq> [] \<and> (case js_parseInt h of None \<Rightarrow> True | Some n \<Rightarrow> int n \<notin> set (map blk_height table)))
    \<longleftrightarrow> i \<notin> set (map blk_height table)" if "i \<in> set [s..e]" for i
    using that assms by (auto simp: rpc_ok_def parse_height)
  then show ?thesis
    by (auto simp: new_blocks_def filter_map o_def intro!: arg_cong [of _ _ "map (merged_at ext)"] filter_cong)
qed

lemma block_graph_height:
  assumes "rpc_ok ext" and "0 < i" and "block_graph ext reg (merged_at ext i) = Inr g"
  shows "blk_height (fst g) = i"
  using assms coerced_height_show [of i]
  by (auto simp: block_graph_def block_model_def rbind_eq_Inr rpc_ok_def header_height_def need_eq_Inr
      split: option.splits)

lemma rmap_graph_heights:
  assumes "rpc_ok ext" and "\<forall>i\<in>set is. 0 < i" and "rmap (block_graph ext reg) (map (merged_at ext) is) = Inr gs"
  shows "map blk_height (map fst gs) = is"
  using assms(2,3)
proof (induction "is" arbitrary: gs)
  case (Cons i "is")
  then show ?case using block_graph_height [OF assms(1)] by (auto simp: rbind_eq_Inr)
qed simp

definition missing_heights :: "int \<Rightarrow> int \<Rightarrow> block_row list \<Rightarrow> int list" where
  "missing_heights s e table = filter (\<lambda>i. i \<notin> set (map blk_height table)) [s..e]"

lemma missing_distinct:
  "distinct (map blk_height table) \<Longrightarrow> distinct (map blk_height table @ missing_heights s e table)"
  by (auto simp: missing_heights_def)

lemma store_range_unfold:
  assumes "rpc_ok ext" and "0 \<le> current"
  shows "store_range cfg ext reg current db =
    rbind (rmap (block_graph ext reg) (map (merged_at ext)
        (missing_heights (current + 1) (snd (crawl_range cfg ext current)) (block_table db)))) (\<lambda>graphs. insert_block_graphs graphs db)"
proof -
  obtain e where e: "crawl_range cfg ext current = (current + 1, e)" by (simp add: crawl_range_def Let_def)
  show ?thesis
    using new_blocks_at [OF assms(1), of "current + 1" e "block_table db"] assms(2)
    by (simp add: store_range_def e handleListBlock_def missing_heights_def mergeBlockResponses_queries)
qed

lemma store_range_heights:
  assumes "rpc_ok ext" and "0 \<le> current" and "store_range cfg ext reg current db = Inr db'"
  shows "\<exists>rows. block_table db' = block_table db @ rows \<and>
      map blk_height rows = missing_heights (current + 1) (snd (crawl_range cfg ext current)) (block_table db)"
    and "block_checkpoint db' = block_checkpoint db"
proof -
  let ?is = "missing_heights (current + 1) (snd (crawl_range cfg ext current)) (block_table db)"
  obtain gs where gs: "rmap (block_graph ext reg) (map (merged_at ext) ?is) = Inr gs"
    and ins: "insert_block_graphs gs db = Inr db'"
    using assms(3) unfolding store_range_unfold [OF assms(1,2)] rbind_eq_Inr by blast
  from ins have db': "block_table db' = block_table db @ map fst gs" "block_checkpoint db' = block_checkpoint db"
    by (auto simp: insert_block_graphs_def Let_def split: if_splits)
  have "map blk_height (map fst gs) = ?is"
    using gs assms(2) by (intro rmap_graph_heights [OF assms(1)]) (auto simp: missing_heights_def)
  with db' show "\<exists>rows. block_table db' = block_table db @ rows \<and> map blk_height rows = ?is" by blast
  from db' show "block_checkpoint db' = block_checkpoint db" by simp
qed

text \<open>With valid answers for the missing heights the insertion succeeds.\<close>

definition answers_valid :: "node_ext \<Rightarrow> registry \<Rightarrow> bool" where
  "answers_valid ext reg \<longleftrightarrow> (\<forall>i>0. \<not> isl (block_graph ext reg (merged_at ext i)))"

lemma rmap_succeeds: "\<forall>x\<in>set xs. \<not> isl (f x) \<Longrightarrow> \<exists>ys. rmap f xs = Inr ys"
proof (induction xs)
  case (Cons x xs)
  then obtain y ys where "f x = Inr y" "rmap f xs = Inr ys" by (auto simp: isl_def) (metis sum.exhaust)
  then show ?case by simp
qed simp

lemma store_range_succeeds:
  assumes "rpc_ok ext" and "0 \<le> current" and "answers_valid ext reg"
    and "distinct (map blk_height (block_table db))"
  shows "\<exists>db'. store_range cfg ext reg current db = Inr db'"
proof -
  let ?is = "missing_heights (current + 1) (snd (crawl_range cfg ext current)) (block_table db)"
  have pos: "\<forall>i\<in>set ?is. 0 < i" using assms(2) by (auto simp: missing_heights_def)
  then obtain gs where gs: "rmap (block_graph ext reg) (map (merged_at ext) ?is) = Inr gs"
    using rmap_succeeds [of "map (merged_at ext) ?is" "block_graph ext reg"] assms(3)
    by (auto simp: answers_valid_def)
  have "distinct (map blk_height (block_table db @ map fst gs))"
    using rmap_graph_heights [OF assms(1) pos gs] missing_distinct [OF assms(4)] by simp
  with gs show ?thesis
    by (simp add: store_range_unfold [OF assms(1,2)] insert_block_graphs_def Let_def)
qed

section \<open>Runs, stops and the rest of the system\<close>

definition crawled :: "config \<Rightarrow> ('c, 'a) chain_db_scheme \<Rightarrow> int" where
  "crawled cfg db = (case block_checkpoint db CRAWL_BLOCK of None \<Rightarrow> startBlock cfg | Some h \<Rightarrow> h)"

text \<open>
  A step of the system as the crawler's tables see it: a run, a run that stops after storing the
  blocks and before moving the checkpoint, a run that throws, of which only the checkpoint row that
  \<open>initEnv\<close> inserts is left, or a change that touches neither.
\<close>

inductive crawl_step ::
  "config \<Rightarrow> registry \<Rightarrow> ('c, 'a) chain_db_scheme \<Rightarrow> ('c, 'a) chain_db_scheme \<Rightarrow> bool"
  for cfg :: config and reg :: registry
where
  step_run: "rpc_ok ext \<Longrightarrow> crawl_block_job cfg ext reg db = Inr db' \<Longrightarrow> crawl_step cfg reg db db'"
| step_stopped: "rpc_ok ext \<Longrightarrow> initEnv cfg db = (current, db1) \<Longrightarrow>
    store_range cfg ext reg current db1 = Inr db' \<Longrightarrow> crawl_step cfg reg db db'"
| step_failed: "initEnv cfg db = (current, db') \<Longrightarrow> crawl_step cfg reg db db'"
| step_other: "block_table db' = block_table db \<Longrightarrow>
    block_checkpoint db' CRAWL_BLOCK = block_checkpoint db CRAWL_BLOCK \<Longrightarrow> crawl_step cfg reg db db'"

definition blocks_ok :: "config \<Rightarrow> ('c, 'a) chain_db_scheme \<Rightarrow> bool" where
  "blocks_ok cfg db \<longleftrightarrow> startBlock cfg \<le> crawled cfg db \<and>
     distinct (map blk_height (block_table db)) \<and>
     (\<forall>h. startBlock cfg < h \<and> h \<le> crawled cfg db \<longrightarrow> h \<in> blk_height ` set (block_table db))"

lemma initEnv_facts:
  assumes "initEnv cfg db = (current, db1)"
  shows "current = crawled cfg db" and "block_table db1 = block_table db"
    and "block_checkpoint db1 CRAWL_BLOCK = Some current" and "crawled cfg db1 = crawled cfg db"
  using assms by (auto simp: initEnv_def crawled_def saveCheckpoint_def split: option.splits)

lemma stored_blocks_ok:
  assumes "rpc_ok ext" and "0 \<le> startBlock cfg" and "blocks_ok cfg db"
    and "initEnv cfg db = (current, db1)" and "store_range cfg ext reg current db1 = Inr db2"
  shows "crawled cfg db2 = current \<and> distinct (map blk_height (block_table db2)) \<and>
    (\<forall>h. startBlock cfg < h \<and> h \<le> max current (snd (crawl_range cfg ext current)) \<longrightarrow>
       h \<in> blk_height ` set (block_table db2))"
proof -
  note ini = initEnv_facts [OF assms(4)]
  have nonneg: "0 \<le> current" using assms(2,3) ini(1) by (simp add: blocks_ok_def)
  let ?e = "snd (crawl_range cfg ext current)"
  obtain rows where rows: "block_table db2 = block_table db @ rows"
    "map blk_height rows = missing_heights (current + 1) ?e (block_table db)"
    using store_range_heights(1) [OF assms(1) nonneg assms(5)] ini(2) by auto
  have img: "blk_height ` set rows = set (missing_heights (current + 1) ?e (block_table db))"
    by (metis rows(2) set_map)
  have "h \<in> blk_height ` set (block_table db2)" if "startBlock cfg < h" "h \<le> max current ?e" for h
  proof (cases "h \<le> current")
    case True
    then show ?thesis using that(1) assms(3) ini(1) rows(1) by (auto simp: blocks_ok_def)
  next
    case False
    then have "h \<in> blk_height ` set (block_table db) \<or> h \<in> set (missing_heights (current + 1) ?e (block_table db))"
      using that(2) by (auto simp: missing_heights_def)
    then show ?thesis using img by (auto simp: rows(1) image_Un)
  qed
  moreover have "distinct (map blk_height (block_table db2))"
    using missing_distinct [of "block_table db" "current + 1" ?e] assms(3)
    by (simp add: rows blocks_ok_def)
  moreover have "crawled cfg db2 = current"
    using store_range_heights(2) [OF assms(1) nonneg assms(5)] ini(3) by (simp add: crawled_def)
  ultimately show ?thesis by blast
qed

lemma crawl_step_blocks_ok:
  assumes "crawl_step cfg reg db db'" and "0 \<le> startBlock cfg" and "blocks_ok cfg db"
  shows "blocks_ok cfg db' \<and> crawled cfg db \<le> crawled cfg db'"
  using assms(1)
proof cases
  case (step_run ext)
  obtain current db1 where ini: "initEnv cfg db = (current, db1)" by (cases "initEnv cfg db")
  then obtain db2 where db2: "store_range cfg ext reg current db1 = Inr db2"
    and db': "db' = move_checkpoint cfg ext current db2"
    using step_run(2) by (auto simp: crawl_block_job_def handleJobCrawlBlock_def split: sum.splits)
  note stored = stored_blocks_ok [OF step_run(1) assms(2,3) ini db2]
  have pos: "crawled cfg db' = max current (snd (crawl_range cfg ext current))" "block_table db' = block_table db2"
    using stored by (auto simp: db' move_checkpoint_def crawled_def saveCheckpoint_def split: prod.split)
  then show ?thesis
    using stored initEnv_facts(1) [OF ini] assms(3) by (auto simp: blocks_ok_def)
next
  case (step_stopped ext current db1)
  note stored = stored_blocks_ok [OF step_stopped(1) assms(2,3) step_stopped(2,3)]
  then show ?thesis
    using initEnv_facts(1) [OF step_stopped(2)] assms(3) by (auto simp: blocks_ok_def)
next
  case (step_failed current)
  from initEnv_facts(2,4) [OF step_failed] assms(3) show ?thesis by (simp add: blocks_ok_def)
next
  case step_other
  then show ?thesis using assms(3) by (simp add: blocks_ok_def crawled_def)
qed

section \<open>Properties\<close>

definition sample_registry :: registry where
  "sample_registry = \<lparr>decodeAttribute = (\<lambda>s. s), encodeAttribute = (\<lambda>s. s)\<rparr>"

definition sample_block_json :: "string \<Rightarrow> block_json" where
  "sample_block_json h =
     \<lparr>bj_height = Some h, bj_time = Some ''t'', bj_proposer_address = Some ''p'', bj_txs_length = Some 0,
      bj_last_commit_signatures = None\<rparr>"

definition sample_node :: node_ext where
  "sample_node =
     \<lparr>rpc_execute = (\<lambda>method h.
        if method = ''block''
        then \<lparr>rr_block_id_hash = Some ''h'', rr_block = Some (sample_block_json h),
              rr_begin_block_events = None, rr_end_block_events = None\<rparr>
        else \<lparr>rr_block_id_hash = None, rr_block = None, rr_begin_block_events = None,
              rr_end_block_events =
                Some [\<lparr>re_type = ''block_bloom'',
                       re_attributes = Some [\<lparr>ra_key = Some ''bloom'', ra_value = Some ''ff''\<rparr>],
                       re_msg_index = None\<rparr>]\<rparr>),
      latest_height = Some ''2'', is_date_time = (\<lambda>_. True)\<rparr>"

definition empty_chain_db :: "string chain_db" where
  "empty_chain_db =
     \<lparr>block_checkpoint = Map.empty, block_table = [], transaction_table = [], transaction_seq = 1,
      event_table = [], event_seq = 1, message_table = [], message_seq = 1\<rparr>"

lemma sample_rpc_ok: "rpc_ok sample_node"
  by (simp add: rpc_ok_def sample_node_def merged_at_def merge_response_def header_height_def sample_block_json_def)

lemma sample_answers_valid: "answers_valid sample_node sample_registry"
  using show_nat_digits
  by (auto simp: answers_valid_def sample_node_def merged_at_def merge_response_def sample_block_json_def
      block_graph_def block_model_def coerced_height_show valid_text_def block_events_def end_block_event_def
      block_event_row_def)

lemma empty_blocks_ok: "blocks_ok cfg empty_chain_db"
  by (simp add: blocks_ok_def crawled_def empty_chain_db_def)

text \<open>
  C2. Starting from an empty block table, after any sequence of runs of the block crawler, of
  runs that stop between storing blocks and moving the checkpoint, and of steps of the other
  jobs, every height after the configured start up to the crawler's checkpoint has exactly one
  stored block.
\<close>

theorem crawl_block_no_gap:
  assumes "(crawl_step cfg reg)\<^sup>*\<^sup>* db0 db" and "0 \<le> startBlock cfg" and "blocks_ok cfg db0"
    and "startBlock cfg < h" and "h \<le> crawled cfg db"
  shows "\<exists>!b. b \<in> set (block_table db) \<and> blk_height b = h"
proof -
  have "blocks_ok cfg db"
    using assms(1,3) by (induction rule: rtranclp_induct) (auto dest: crawl_step_blocks_ok [OF _ assms(2)])
  then have "h \<in> blk_height ` set (block_table db)" "distinct (map blk_height (block_table db))"
    using assms(4,5) by (auto simp: blocks_ok_def)
  then show ?thesis by (auto simp: distinct_map dest: inj_onD)
qed

text \<open>
  A run of the block crawler on valid answers succeeds and moves the checkpoint to the
  smaller of the current height plus the configured number of blocks and the node's latest
  height, and never back.
\<close>

theorem crawl_block_progress:
  assumes "rpc_ok ext" and "answers_valid ext reg" and "0 \<le> startBlock cfg" and "blocks_ok cfg db"
    and "latest_height ext = Some (show_nat n)"
  shows "\<exists>db'. crawl_block_job cfg ext reg db = Inr db' \<and>
    crawled cfg db' = max (crawled cfg db) (min (crawled cfg db + blocksPerCall cfg ''crawlBlock'') (int n))"
proof -
  obtain current db1 where ini: "initEnv cfg db = (current, db1)" by (cases "initEnv cfg db")
  note facts = initEnv_facts [OF ini]
  have "0 \<le> current" "distinct (map blk_height (block_table db1))"
    using assms(3,4) facts by (auto simp: blocks_ok_def)
  then obtain db2 where db2: "store_range cfg ext reg current db1 = Inr db2"
    using store_range_succeeds [OF assms(1) _ assms(2)] by blast
  have "snd (crawl_range cfg ext current) = min (current + blocksPerCall cfg ''crawlBlock'') (int n)"
    by (simp add: crawl_range_def Let_def assms(5) js_parseInt_show_nat)
  moreover have "crawled cfg (move_checkpoint cfg ext current db2) = max current (snd (crawl_range cfg ext current))"
    using stored_blocks_ok [OF assms(1,3,4) ini db2]
    by (auto simp: move_checkpoint_def crawled_def saveCheckpoint_def split: prod.split)
  ultimately show ?thesis
    using ini db2 facts(1) by (simp add: crawl_block_job_def handleJobCrawlBlock_def)
qed

theorem crawl_block_progress_witness:
  "\<exists>db'. crawl_block_job \<lparr>startBlock = 0, blocksPerCall = (\<lambda>_. 100)\<rparr> sample_node sample_registry empty_chain_db = Inr db' \<and>
     crawled \<lparr>startBlock = 0, blocksPerCall = (\<lambda>_. 100)\<rparr> db' = 2"
proof -
  have "latest_height sample_node = Some (show_nat 2)" by code_simp
  from crawl_block_progress [OF sample_rpc_ok sample_answers_valid _ empty_blocks_ok this,
      of "\<lparr>startBlock = 0, blocksPerCall = (\<lambda>_. 100)\<rparr>"]
  show ?thesis by (simp add: crawled_def empty_chain_db_def)
qed

theorem crawl_block_no_gap_witness:
  "\<exists>db. (crawl_step \<lparr>startBlock = 0, blocksPerCall = (\<lambda>_. 100)\<rparr> sample_registry)\<^sup>*\<^sup>* empty_chain_db db \<and>
     (\<exists>!b. b \<in> set (block_table db) \<and> blk_height b = 2)"
proof -
  let ?cfg = "\<lparr>startBlock = 0, blocksPerCall = (\<lambda>_. 100)\<rparr> :: config"
  have "(case crawl_block_job ?cfg sample_node sample_registry empty_chain_db of
      Inl _ \<Rightarrow> False | Inr db \<Rightarrow> crawled ?cfg db = 2)"
    by code_simp
  then obtain db where db: "crawl_block_job ?cfg sample_node sample_registry empty_chain_db = Inr db" "crawled ?cfg db = 2"
    by (auto split: sum.splits)
  have steps: "(crawl_step ?cfg sample_registry)\<^sup>*\<^sup>* empty_chain_db db"
    using step_run [OF sample_rpc_ok db(1)] by blast
  with crawl_block_no_gap [OF steps _ empty_blocks_ok, of 2] db(2) show ?thesis by auto
qed

end
