(* ===== verification/Crawl_Tx.thy ===== *)
theory Crawl_Tx
  imports Crawl_Block
begin

text \<open>
  The transaction crawler (\<^verbatim>\<open>src/services/crawl-tx/crawl_tx.service.ts\<close>): the job that fetches the
  transactions of stored blocks page by page and stores them, and the job that derives events,
  attributes and messages from stored transactions. The decoder of raw transactions (protobuf
  and the message registry) is the parameter \<open>decode_raw_tx\<close>, the answer to \<open>tx_search\<close> the
  parameter \<open>tx_search\<close>, and the parser of logs the parameter \<open>parse_log\<close>.
\<close>

section \<open>Parameters\<close>

record raw_tx =
  rt_hash :: string
  rt_tx :: string
  rt_index :: nat
  rt_codespace :: "string option"
  rt_code :: "int option"
  rt_gas_used :: "string option"
  rt_gas_wanted :: "string option"
  rt_log :: "string option"
  rt_events :: "raw_event list option"

record 'c decoded_tx =
  dt_messages :: "'c chain_message list"
  dt_memo :: string
  dt_fee_amount :: "coin list option"
  dt_gas_limit :: "string option"

record 'c tx_ext =
  tx_search :: "int \<Rightarrow> nat \<Rightarrow> nat \<Rightarrow> raw_tx list"
  decode_raw_tx :: "string \<Rightarrow> 'c decoded_tx option"
  parse_log :: "string \<Rightarrow> raw_event list list option"

record tx_config =
  tx_base_config :: config
  txsPerCall :: nat
  saveRawLog :: bool
  lastEventsTypeTx :: "string list"

section \<open>Fetching\<close>

definition CRAWL_TRANSACTION :: job_decl where
  "CRAWL_TRANSACTION =
     \<lparr>job_name = ''crawl:transaction'', lastHeightJobNames = [''crawl:block''],
      configName = Some ''crawlTransaction'', job_guard = SkipGE\<rparr>"

definition HANDLE_TRANSACTION :: job_decl where
  "HANDLE_TRANSACTION =
     \<lparr>job_name = ''handle:transaction'', lastHeightJobNames = [''crawl:transaction''],
      configName = Some ''handleTransaction'', job_guard = SkipGE\<rparr>"

text \<open>The stored blocks of a range, ordered by height.\<close>

definition blocks_between :: "int \<Rightarrow> int \<Rightarrow> ('c, 'a) chain_db_scheme \<Rightarrow> block_row list" where
  "blocks_between startB endB db =
     sort_key blk_height (filter (\<lambda>b. in_range startB endB (blk_height b)) (block_table db))"

definition totalPages :: "nat \<Rightarrow> nat \<Rightarrow> nat" where
  "totalPages tx_count perPage = (tx_count + perPage - 1) div perPage"

text \<open>One request per page of every block with transactions; the answer carries the height.\<close>

definition page_results :: "tx_config \<Rightarrow> 'c tx_ext \<Rightarrow> block_row list \<Rightarrow> (int \<times> raw_tx list) list" where
  "page_results cfg ext blocks =
     concat (map (\<lambda>b. if blk_tx_count b > 0
                      then map (\<lambda>i. (blk_height b, tx_search ext (blk_height b) (i + 1) (txsPerCall cfg)))
                             [0..<totalPages (blk_tx_count b) (txsPerCall cfg)]
                      else []) blocks)"

record raw_block_txs =
  rb_txs :: "raw_tx list"
  rb_height :: int
  rb_timestamp :: string

definition count_error :: "block_row \<Rightarrow> nat \<Rightarrow> js_error" where
  "count_error b found =
     JsError (''Error in block '' @ show_int (blk_height b) @ '': '' @ show_nat found @ '' txs found, ''
              @ show_nat (blk_tx_count b) @ '' txs expected'')"

definition collect_block :: "(int \<times> raw_tx list) list \<Rightarrow> block_row \<Rightarrow> raw_block_txs res" where
  "collect_block results b =
     (let listTxs = concat (map snd (filter (\<lambda>r. show_int (fst r) = show_int (blk_height b)) results)) in
      if length listTxs \<noteq> blk_tx_count b then Inl (count_error b (length listTxs))
      else Inr \<lparr>rb_txs = listTxs, rb_height = blk_height b, rb_timestamp = blk_time b\<rparr>)"

definition getListRawTx ::
  "tx_config \<Rightarrow> 'c tx_ext \<Rightarrow> int \<Rightarrow> int \<Rightarrow> ('c, 'a) chain_db_scheme \<Rightarrow> raw_block_txs list res"
where
  "getListRawTx cfg ext startB endB db =
     (let blocks = blocks_between startB endB db in
      rmap (collect_block (page_results cfg ext blocks)) (filter (\<lambda>b. blk_tx_count b > 0) blocks))"

section \<open>Decoding and storing\<close>

text \<open>Transactions whose hash is stored are left out; a log that does not parse leaves no logs.\<close>

definition decode_tx ::
  "'c tx_ext \<Rightarrow> raw_tx \<Rightarrow> (raw_tx \<times> 'c decoded_tx \<times> 'c tx_data) res"
where
  "decode_tx ext tx =
     (case decode_raw_tx ext (rt_tx tx) of
        None \<Rightarrow> Inl (JsError ''cannot decode tx'')
      | Some d \<Rightarrow>
          Inr (tx, d, \<lparr>td_messages = dt_messages d, td_events = rt_events tx,
                       td_logs = (case rt_log tx of None \<Rightarrow> None | Some l \<Rightarrow> parse_log ext l)\<rparr>))"

definition decodeListRawTx ::
  "'c tx_ext \<Rightarrow> raw_block_txs list \<Rightarrow> ('c, 'a) chain_db_scheme
    \<Rightarrow> ((raw_tx \<times> 'c decoded_tx \<times> 'c tx_data) list \<times> int \<times> string) list res"
where
  "decodeListRawTx ext listRawTx db =
     rmap (\<lambda>payload.
       rbind (rmap (decode_tx ext)
                (filter (\<lambda>tx. rt_hash tx \<notin> set (map tx_hash (transaction_table db))) (rb_txs payload)))
         (\<lambda>listTx. Inr (listTx, rb_height payload, rb_timestamp payload))) listRawTx"

definition tx_model ::
  "tx_config \<Rightarrow> int \<Rightarrow> string \<Rightarrow> raw_tx \<times> 'c decoded_tx \<times> 'c tx_data \<Rightarrow> 'c transaction_row res"
where
  "tx_model cfg height timestamp t =
     (case t of (tx, d, data) \<Rightarrow>
        case dt_fee_amount d of
          None \<Rightarrow> Inl (ValidationError ''fee'')
        | Some fee \<Rightarrow>
            Inr \<lparr>tx_id = 0, tx_height = height, tx_hash = rt_hash tx,
                 tx_codespace = (case rt_codespace tx of None \<Rightarrow> [] | Some s \<Rightarrow> s),
                 tx_code = (case rt_code tx of None \<Rightarrow> 0 | Some n \<Rightarrow> n),
                 tx_gas_used = (case rt_gas_used tx of None \<Rightarrow> ''0'' | Some s \<Rightarrow> s),
                 tx_gas_wanted = (case rt_gas_wanted tx of None \<Rightarrow> ''0'' | Some s \<Rightarrow> s),
                 tx_gas_limit = (case dt_gas_limit d of None \<Rightarrow> ''0'' | Some s \<Rightarrow> s),
                 tx_fee = fee, tx_memo = dt_memo d, tx_index = rt_index tx, tx_timestamp = timestamp,
                 tx_data = (if saveRawLog cfg then Some data else None)\<rparr>)"

text \<open>\<^verbatim>\<open>batchInsert\<close>: the sequence numbers the rows.\<close>

definition number_txs :: "int \<Rightarrow> 'c transaction_row list \<Rightarrow> 'c transaction_row list" where
  "number_txs n rows = map (\<lambda>(k, t). t\<lparr>tx_id := n + int k\<rparr>) (zip [0..<length rows] rows)"

definition insertTxDecoded ::
  "tx_config \<Rightarrow> ((raw_tx \<times> 'c decoded_tx \<times> 'c tx_data) list \<times> int \<times> string) list
    \<Rightarrow> ('c, 'a) chain_db_scheme \<Rightarrow> ('c, 'a) chain_db_scheme res"
where
  "insertTxDecoded cfg listTxDecoded db =
     rbind (rmap (\<lambda>(listTx, height, timestamp). rmap (tx_model cfg height timestamp) listTx) listTxDecoded)
       (\<lambda>models. Inr (db\<lparr>transaction_table := transaction_table db @ number_txs (transaction_seq db) (concat models),
                         transaction_seq := transaction_seq db + int (length (concat models))\<rparr>))"

definition crawl_tx_work ::
  "tx_config \<Rightarrow> 'c tx_ext \<Rightarrow> int \<Rightarrow> int \<Rightarrow> ('c, 'a) chain_db_scheme \<Rightarrow> ('c, 'a) chain_db_scheme res"
where
  "crawl_tx_work cfg ext startB endB db =
     rbind (getListRawTx cfg ext startB endB db) (\<lambda>listTxRaw.
     rbind (decodeListRawTx ext listTxRaw db) (\<lambda>listdecodedTx.
       insertTxDecoded cfg listdecodedTx db))"

definition jobCrawlTx ::
  "tx_config \<Rightarrow> 'c tx_ext \<Rightarrow> ('c, 'a) chain_db_scheme \<Rightarrow> ('c, 'a) chain_db_scheme res"
where
  "jobCrawlTx cfg ext = range_job (tx_base_config cfg) CRAWL_TRANSACTION (crawl_tx_work cfg ext)"

section \<open>Events and messages of a transaction\<close>

text \<open>
  The events up to and including the first run of events of the types that close the
  transaction's own events.
\<close>

fun tx_level_events :: "string list \<Rightarrow> bool \<Rightarrow> raw_event list \<Rightarrow> raw_event list" where
  "tx_level_events types reachLast [] = []"
| "tx_level_events types reachLast (e # es) =
     (let reachLast' = (reachLast \<or> re_type e \<in> set types) in
      if reachLast' \<and> re_type e \<notin> set types then []
      else e # tx_level_events types reachLast' es)"

definition log_events :: "raw_event list list \<Rightarrow> raw_event list" where
  "log_events logs =
     concat (map (\<lambda>(index, evs). map (\<lambda>e. e\<lparr>re_msg_index := Some index\<rparr>) evs)
       (zip [0..<length logs] logs))"

definition createListEventWithMsgIndex :: "tx_config \<Rightarrow> 'c tx_data \<Rightarrow> raw_event list" where
  "createListEventWithMsgIndex cfg data =
     (case td_logs data of
        None \<Rightarrow> []
      | Some logs \<Rightarrow>
          tx_level_events (lastEventsTypeTx cfg) False (case td_events data of None \<Rightarrow> [] | Some es \<Rightarrow> es)
            @ log_events logs)"

text \<open>The search throws when an event it visits has no attributes or nothing is found.\<close>

fun find_event :: "string \<Rightarrow> string \<Rightarrow> raw_event list \<Rightarrow> raw_attribute list option res" where
  "find_event eventType key [] = Inr None"
| "find_event eventType key (e # es) =
     (if re_type e = eventType
      then rbind (need (re_attributes e)) (\<lambda>attrs.
             if list_ex (\<lambda>a. ra_key a = Some key) attrs then Inr (Some attrs) else find_event eventType key es)
      else find_event eventType key es)"

definition findAttribute :: "raw_event list option \<Rightarrow> string \<Rightarrow> string \<Rightarrow> string res" where
  "findAttribute events eventType attributeKey =
     rbind (need events) (\<lambda>evs.
     rbind (find_event eventType attributeKey evs) (\<lambda>found.
     rbind (case found of
              None \<Rightarrow> Inr []
            | Some attrs \<Rightarrow>
                rbind (need (find (\<lambda>a. ra_key a = Some attributeKey) attrs)) (\<lambda>a. need (ra_value a)))
       (\<lambda>result.
         if result = []
         then Inl (JsError (''Could not find attribute '' @ attributeKey @ '' in event type '' @ eventType))
         else Inr result)))"

definition tx_sender :: "registry \<Rightarrow> 'c tx_data \<Rightarrow> string" where
  "tx_sender reg data =
     (case findAttribute (td_events data) ''message'' (encodeAttribute reg ''sender'') of
        Inl _ \<Rightarrow> []
      | Inr v \<Rightarrow> decodeAttribute reg v)"

definition tx_event_row ::
  "registry \<Rightarrow> 'c transaction_row \<Rightarrow> raw_event \<Rightarrow> int \<Rightarrow> event_row"
where
  "tx_event_row reg tx e i =
     \<lparr>evt_id = i, evt_tx_id = Some (tx_id tx), evt_tx_msg_index = re_msg_index e, evt_type = re_type e,
      evt_block_height = tx_height tx, evt_source = TX_EVENT,
      evt_attributes = (case re_attributes e of None \<Rightarrow> [] | Some attrs \<Rightarrow> attribute_rows_of reg attrs)\<rparr>"

definition tx_message_rows ::
  "registry \<Rightarrow> 'c transaction_row \<Rightarrow> 'c tx_data \<Rightarrow> (int \<Rightarrow> 'c message_row) list"
where
  "tx_message_rows reg tx data =
     map (\<lambda>(index, m) i. \<lparr>msg_id = i, msg_tx_id = tx_id tx, msg_index = index, msg_type = cm_type m,
                          msg_sender = tx_sender reg data, msg_content = cm_content m, msg_parent_id = None\<rparr>)
       (zip [0..<length (td_messages data)] (td_messages data))"

definition number_messages :: "int \<Rightarrow> (int \<Rightarrow> 'c message_row) list \<Rightarrow> 'c message_row list" where
  "number_messages n fs = map (\<lambda>(k, f). f (n + int k)) (zip [0..<length fs] fs)"

definition related_rows ::
  "tx_config \<Rightarrow> registry \<Rightarrow> 'c transaction_row
    \<Rightarrow> ((int \<Rightarrow> event_row) list \<times> (int \<Rightarrow> 'c message_row) list) res"
where
  "related_rows cfg reg tx =
     rbind (need (tx_data tx)) (\<lambda>data.
       Inr (map (tx_event_row reg tx) (createListEventWithMsgIndex cfg data), tx_message_rows reg tx data))"

definition insertRelatedTx ::
  "tx_config \<Rightarrow> registry \<Rightarrow> 'c transaction_row list \<Rightarrow> ('c, 'a) chain_db_scheme \<Rightarrow> ('c, 'a) chain_db_scheme res"
where
  "insertRelatedTx cfg reg listDecodedTx db =
     rbind (rmap (related_rows cfg reg) listDecodedTx) (\<lambda>rows.
       let events = concat (map fst rows); msgs = concat (map snd rows) in
       Inr (db\<lparr>event_table := event_table db @ number_events (event_seq db) events,
               event_seq := event_seq db + int (length events),
               message_table := message_table db @ number_messages (message_seq db) msgs,
               message_seq := message_seq db + int (length msgs)\<rparr>))"

definition txs_between :: "int \<Rightarrow> int \<Rightarrow> ('c, 'a) chain_db_scheme \<Rightarrow> 'c transaction_row list" where
  "txs_between startB endB db =
     sort_key (\<lambda>t. (tx_height t, tx_index t))
       (filter (\<lambda>t. in_range startB endB (tx_height t)) (transaction_table db))"

definition handle_tx_work ::
  "tx_config \<Rightarrow> registry \<Rightarrow> int \<Rightarrow> int \<Rightarrow> ('c, 'a) chain_db_scheme \<Rightarrow> ('c, 'a) chain_db_scheme res"
where
  "handle_tx_work cfg reg startB endB db = insertRelatedTx cfg reg (txs_between startB endB db) db"

definition jobHandlerCrawlTx ::
  "tx_config \<Rightarrow> registry \<Rightarrow> ('c, 'a) chain_db_scheme \<Rightarrow> ('c, 'a) chain_db_scheme res"
where
  "jobHandlerCrawlTx cfg reg = range_job (tx_base_config cfg) HANDLE_TRANSACTION (handle_tx_work cfg reg)"

section \<open>Pages\<close>

lemma concat_chunks:
  assumes "0 < n"
  shows "concat (map (\<lambda>i. take n (drop (i * n) xs)) [0..<k]) = take (k * n) xs"
proof (induction k)
  case (Suc k)
  have "take (k * n) xs @ take n (drop (k * n) xs) = take (Suc k * n) xs"
    by (simp add: take_add [symmetric] add.commute)
  with Suc show ?case by simp
qed simp

lemma totalPages_enough: "0 < n \<Longrightarrow> c \<le> totalPages c n * n"
proof -
  assume n: "0 < n"
  have "c + n - 1 = (c + n - 1) div n * n + (c + n - 1) mod n" by simp
  moreover have "(c + n - 1) mod n < n" using n by simp
  ultimately show ?thesis unfolding totalPages_def by linarith
qed

lemma concat_pages:
  assumes "0 < n"
  shows "concat (map (\<lambda>i. take n (drop (i * n) xs)) [0..<totalPages (length xs) n]) = xs"
  using concat_chunks [OF assms, of xs "totalPages (length xs) n"] totalPages_enough [OF assms, of "length xs"]
  by simp

text \<open>
  The documented behaviour of \<open>tx_search\<close>: page \<open>k\<close> of size \<open>n\<close> holds the next \<open>n\<close> transactions of
  the height after the first \<open>(k - 1) * n\<close>.
\<close>

definition pages_ok :: "'c tx_ext \<Rightarrow> (int \<Rightarrow> raw_tx list) \<Rightarrow> bool" where
  "pages_ok ext chain_txs \<longleftrightarrow>
     (\<forall>h k n. 0 < n \<longrightarrow> tx_search ext h (k + 1) n = take n (drop (k * n) (chain_txs h)))"

definition counts_ok :: "(int \<Rightarrow> raw_tx list) \<Rightarrow> ('c, 'a) chain_db_scheme \<Rightarrow> bool" where
  "counts_ok chain_txs db \<longleftrightarrow> distinct (map blk_height (block_table db)) \<and>
     (\<forall>b\<in>set (block_table db). blk_tx_count b = length (chain_txs (blk_height b)))"

lemma page_results_of_block:
  assumes "distinct (map blk_height blocks)" and "b \<in> set blocks" and "0 < blk_tx_count b"
  shows "filter (\<lambda>r. show_int (fst r) = show_int (blk_height b)) (page_results cfg ext blocks) =
    map (\<lambda>i. (blk_height b, tx_search ext (blk_height b) (i + 1) (txsPerCall cfg)))
      [0..<totalPages (blk_tx_count b) (txsPerCall cfg)]"
  using assms
proof (induction blocks)
  case (Cons x blocks)
  let ?own = "\<lambda>y. map (\<lambda>i. (blk_height y, tx_search ext (blk_height y) (i + 1) (txsPerCall cfg)))
      [0..<totalPages (blk_tx_count y) (txsPerCall cfg)]"
  have step: "page_results cfg ext (x # blocks) = (if blk_tx_count x > 0 then ?own x else []) @ page_results cfg ext blocks"
    by (simp add: page_results_def)
  show ?case
  proof (cases "x = b")
    case True
    have heights: "fst ` set (page_results cfg ext bs) \<subseteq> blk_height ` set bs" for bs
      by (auto simp: page_results_def split: if_splits)
    have "\<forall>r\<in>set (page_results cfg ext blocks). fst r \<noteq> blk_height b"
      using Cons.prems(1) True heights [of blocks] by fastforce
    then have "filter (\<lambda>r. show_int (fst r) = show_int (blk_height b)) (page_results cfg ext blocks) = []"
      by (simp add: filter_empty_conv show_int_inj)
    with step True Cons.prems(3) show ?thesis by (simp add: comp_def)
  next
    case False
    then have b: "b \<in> set blocks" "blk_height x \<noteq> blk_height b" using Cons.prems by auto
    then have "filter (\<lambda>r. show_int (fst r) = show_int (blk_height b)) (if blk_tx_count x > 0 then ?own x else []) = []"
      by (auto simp: filter_empty_conv show_int_inj)
    with step Cons.IH b(1) Cons.prems show ?thesis by simp
  qed
qed simp

lemma collect_block_complete:
  assumes "pages_ok ext chain_txs" and "0 < txsPerCall cfg" and "distinct (map blk_height blocks)"
    and "b \<in> set blocks" and "0 < blk_tx_count b" and "blk_tx_count b = length (chain_txs (blk_height b))"
  shows "collect_block (page_results cfg ext blocks) b =
    Inr \<lparr>rb_txs = chain_txs (blk_height b), rb_height = blk_height b, rb_timestamp = blk_time b\<rparr>"
proof -
  have "concat (map snd (filter (\<lambda>r. show_int (fst r) = show_int (blk_height b)) (page_results cfg ext blocks))) =
      concat (map (\<lambda>i. take (txsPerCall cfg) (drop (i * txsPerCall cfg) (chain_txs (blk_height b))))
        [0..<totalPages (length (chain_txs (blk_height b))) (txsPerCall cfg)])"
    using assms(1,2,6) by (simp add: page_results_of_block [OF assms(3-5)] comp_def pages_ok_def)
  also have "\<dots> = chain_txs (blk_height b)" by (rule concat_pages [OF assms(2)])
  finally show ?thesis using assms(6) by (simp add: collect_block_def)
qed

lemma blocks_between_facts:
  "set (blocks_between s e db) = {b \<in> set (block_table db). in_range s e (blk_height b)}"
  "distinct (map blk_height (block_table db)) \<Longrightarrow> distinct (map blk_height (blocks_between s e db))"
proof -
  show "set (blocks_between s e db) = {b \<in> set (block_table db). in_range s e (blk_height b)}"
    by (simp add: blocks_between_def)
  assume "distinct (map blk_height (block_table db))"
  then have "distinct (map blk_height (filter (\<lambda>b. in_range s e (blk_height b)) (block_table db)))"
    by (rule distinct_map_filter)
  moreover have "mset (map blk_height (blocks_between s e db)) =
      mset (map blk_height (filter (\<lambda>b. in_range s e (blk_height b)) (block_table db)))"
    by (simp add: blocks_between_def)
  ultimately show "distinct (map blk_height (blocks_between s e db))" by (metis mset_eq_imp_distinct_iff)
qed

lemma rmap_all_Inr: "(\<And>x. x \<in> set xs \<Longrightarrow> f x = Inr (g x)) \<Longrightarrow> rmap f xs = Inr (map g xs)"
  by (induction xs) simp_all

definition block_txs :: "(int \<Rightarrow> raw_tx list) \<Rightarrow> block_row \<Rightarrow> raw_block_txs" where
  "block_txs chain_txs b =
     \<lparr>rb_txs = chain_txs (blk_height b), rb_height = blk_height b, rb_timestamp = blk_time b\<rparr>"

lemma getListRawTx_eq:
  assumes "pages_ok ext chain_txs" and "counts_ok chain_txs db" and "0 < txsPerCall cfg"
  shows "getListRawTx cfg ext s e db =
    Inr (map (block_txs chain_txs) (filter (\<lambda>b. 0 < blk_tx_count b) (blocks_between s e db)))"
proof -
  have d: "distinct (map blk_height (blocks_between s e db))"
    using assms(2) by (simp add: blocks_between_facts counts_ok_def)
  have "collect_block (page_results cfg ext (blocks_between s e db)) b = Inr (block_txs chain_txs b)"
    if "b \<in> set (filter (\<lambda>b. 0 < blk_tx_count b) (blocks_between s e db))" for b
    unfolding block_txs_def
    using that assms(2) by (intro collect_block_complete [OF assms(1,3) d]) (auto simp: blocks_between_facts counts_ok_def)
  then have "rmap (collect_block (page_results cfg ext (blocks_between s e db)))
      (filter (\<lambda>b. 0 < blk_tx_count b) (blocks_between s e db)) =
    Inr (map (block_txs chain_txs) (filter (\<lambda>b. 0 < blk_tx_count b) (blocks_between s e db)))"
    by (rule rmap_all_Inr)
  then show ?thesis by (simp add: getListRawTx_def)
qed

section \<open>The transaction's own events\<close>

lemma tx_level_events_reached:
  "tx_level_events types True es = takeWhile (\<lambda>e. re_type e \<in> set types) es"
  by (induction es) simp_all

lemma tx_level_events_eq:
  "tx_level_events types False es =
     takeWhile (\<lambda>e. re_type e \<notin> set types) es @
     takeWhile (\<lambda>e. re_type e \<in> set types) (dropWhile (\<lambda>e. re_type e \<notin> set types) es)"
  by (induction es) (simp_all add: tx_level_events_reached)

section \<open>The rows a transaction gives rise to\<close>

text \<open>Rows up to the ids that the sequences assign.\<close>

definition tx_rows ::
  "tx_config \<Rightarrow> registry \<Rightarrow> 'c transaction_row \<Rightarrow> (event_row + 'c message_row) multiset"
where
  "tx_rows cfg reg tx =
     (case tx_data tx of
        None \<Rightarrow> {#}
      | Some data \<Rightarrow>
          mset (map (\<lambda>e. Inl (tx_event_row reg tx e 0)) (createListEventWithMsgIndex cfg data)) +
          mset (map (\<lambda>f. Inr (f 0)) (tx_message_rows reg tx data)))"

definition related_of ::
  "tx_config \<Rightarrow> registry \<Rightarrow> ('c, 'a) chain_db_scheme \<Rightarrow> int \<Rightarrow> int \<Rightarrow> (event_row + 'c message_row) multiset"
where
  "related_of cfg reg db a b =
     (\<Sum>t\<in># filter_mset (\<lambda>t. in_range a b (tx_height t)) (mset (transaction_table db)). tx_rows cfg reg t)"

definition stored_related :: "('c, 'a) chain_db_scheme \<Rightarrow> (event_row + 'c message_row) multiset" where
  "stored_related db =
     image_mset (\<lambda>e. Inl (e\<lparr>evt_id := 0\<rparr>)) (filter_mset (\<lambda>e. evt_source e = TX_EVENT) (mset (event_table db))) +
     image_mset (\<lambda>m. Inr (m\<lparr>msg_id := 0\<rparr>)) (filter_mset (\<lambda>m. msg_parent_id m = None) (mset (message_table db)))"

lemma map_zip_upt_const:
  "length ks = length fs \<Longrightarrow> (\<And>k f. f \<in> set fs \<Longrightarrow> G k f = H f) \<Longrightarrow> map (\<lambda>(k, f). G k f) (zip ks fs) = map H fs"
  by (induction ks fs rule: list_induct2) auto

lemma stored_number_events:
  assumes "\<And>f. f \<in> set fs \<Longrightarrow> (\<forall>i. evt_source (f i) = TX_EVENT \<and> (f i)\<lparr>evt_id := 0\<rparr> = f 0)"
  shows "image_mset (\<lambda>e. Inl (e\<lparr>evt_id := 0\<rparr>))
      (filter_mset (\<lambda>e. evt_source e = TX_EVENT) (mset (number_events n fs))) = mset (map (\<lambda>f. Inl (f 0)) fs)"
proof -
  have "\<forall>e\<in>set (number_events n fs). evt_source e = TX_EVENT"
    using assms by (auto simp: number_events_def dest!: set_zip_rightD)
  then have "filter_mset (\<lambda>e. evt_source e = TX_EVENT) (mset (number_events n fs)) = mset (number_events n fs)"
    by (simp flip: mset_filter)
  moreover have "map (\<lambda>e. Inl (e\<lparr>evt_id := 0\<rparr>)) (number_events n fs) = map (\<lambda>f. Inl (f 0)) fs"
    unfolding number_events_def map_map
    using assms by (subst map_zip_upt_const [symmetric, where ks = "[0..<length fs]"
          and G = "\<lambda>k f. Inl ((f (n + int k))\<lparr>evt_id := 0\<rparr>)"]) (auto simp: comp_def split_def)
  ultimately show ?thesis by (metis mset_map)
qed

lemma stored_number_messages:
  assumes "\<And>f. f \<in> set fs \<Longrightarrow> (\<forall>i. msg_parent_id (f i) = None \<and> (f i)\<lparr>msg_id := 0\<rparr> = f 0)"
  shows "image_mset (\<lambda>m. Inr (m\<lparr>msg_id := 0\<rparr>))
      (filter_mset (\<lambda>m. msg_parent_id m = None) (mset (number_messages n fs))) = mset (map (\<lambda>f. Inr (f 0)) fs)"
proof -
  have "\<forall>m\<in>set (number_messages n fs). msg_parent_id m = None"
    using assms by (auto simp: number_messages_def dest!: set_zip_rightD)
  then have "filter_mset (\<lambda>m. msg_parent_id m = None) (mset (number_messages n fs)) = mset (number_messages n fs)"
    by (simp flip: mset_filter)
  moreover have "map (\<lambda>m. Inr (m\<lparr>msg_id := 0\<rparr>)) (number_messages n fs) = map (\<lambda>f. Inr (f 0)) fs"
    unfolding number_messages_def map_map
    using assms by (subst map_zip_upt_const [symmetric, where ks = "[0..<length fs]"
          and G = "\<lambda>k f. Inr ((f (n + int k))\<lparr>msg_id := 0\<rparr>)"]) (auto simp: comp_def split_def)
  ultimately show ?thesis by (metis mset_map)
qed

lemma related_rows_mset:
  assumes "rmap (related_rows cfg reg) txs = Inr rows"
  shows "mset (map (\<lambda>f. Inl (f 0)) (concat (map fst rows))) + mset (map (\<lambda>f. Inr (f 0)) (concat (map snd rows))) =
    (\<Sum>t\<in># mset txs. tx_rows cfg reg t)"
  using assms
proof (induction txs arbitrary: rows)
  case (Cons t txs)
  then obtain r rs where r: "related_rows cfg reg t = Inr r" "rmap (related_rows cfg reg) txs = Inr rs" "rows = r # rs"
    by (auto simp: rbind_eq_Inr)
  then obtain data where "tx_data t = Some data"
    "r = (map (tx_event_row reg t) (createListEventWithMsgIndex cfg data), tx_message_rows reg t data)"
    by (auto simp: related_rows_def rbind_eq_Inr need_eq_Inr)
  then have "tx_rows cfg reg t = mset (map (\<lambda>f. Inl (f 0)) (fst r)) + mset (map (\<lambda>f. Inr (f 0)) (snd r))"
    by (simp add: tx_rows_def comp_def)
  with Cons.IH [OF r(2)] r(3) show ?case by (simp add: ac_simps)
qed simp

lemma related_rows_shape:
  assumes "related_rows cfg reg t = Inr r"
  shows "f \<in> set (fst r) \<Longrightarrow> \<forall>i. evt_source (f i) = TX_EVENT \<and> (f i)\<lparr>evt_id := 0\<rparr> = f 0"
    and "g \<in> set (snd r) \<Longrightarrow> \<forall>i. msg_parent_id (g i) = None \<and> (g i)\<lparr>msg_id := 0\<rparr> = g 0"
  using assms by (auto simp: related_rows_def rbind_eq_Inr tx_event_row_def tx_message_rows_def)

lemma insertRelatedTx_effect:
  assumes "insertRelatedTx cfg reg txs db = Inr db'"
  shows "stored_related db' = stored_related db + (\<Sum>t\<in># mset txs. tx_rows cfg reg t)"
    and "transaction_table db' = transaction_table db" and "block_checkpoint db' = block_checkpoint db"
proof -
  from assms obtain rows where rows: "rmap (related_rows cfg reg) txs = Inr rows"
    and db': "db' = db\<lparr>event_table := event_table db @ number_events (event_seq db) (concat (map fst rows)),
        event_seq := event_seq db + int (length (concat (map fst rows))),
        message_table := message_table db @ number_messages (message_seq db) (concat (map snd rows)),
        message_seq := message_seq db + int (length (concat (map snd rows)))\<rparr>"
    by (auto simp: insertRelatedTx_def rbind_eq_Inr Let_def)
  have shape: "\<exists>t. related_rows cfg reg t = Inr r" if "r \<in> set rows" for r
    using that rows unfolding rmap_eq_Inr by (auto simp: list_all2_conv_all_nth in_set_conv_nth)
  have events: "\<forall>i. evt_source (f i) = TX_EVENT \<and> (f i)\<lparr>evt_id := 0\<rparr> = f 0" if "f \<in> set (concat (map fst rows))" for f
    using that shape related_rows_shape(1) by fastforce
  have msgs: "\<forall>i. msg_parent_id (g i) = None \<and> (g i)\<lparr>msg_id := 0\<rparr> = g 0" if "g \<in> set (concat (map snd rows))" for g
    using that shape related_rows_shape(2) by fastforce
  show "stored_related db' = stored_related db + (\<Sum>t\<in># mset txs. tx_rows cfg reg t)"
    unfolding related_rows_mset [OF rows, symmetric]
    by (simp add: stored_related_def db' stored_number_events [OF events] stored_number_messages [OF msgs] ac_simps
        del: set_concat)
  show "transaction_table db' = transaction_table db" "block_checkpoint db' = block_checkpoint db"
    by (simp_all add: db')
qed

lemma handle_tx_work_effect:
  assumes "handle_tx_work cfg reg s e db = Inr db'"
  shows "stored_related db' = stored_related db + related_of cfg reg db s e"
    and "related_of cfg reg db' = related_of cfg reg db" and "block_checkpoint db' = block_checkpoint db"
  using insertRelatedTx_effect [OF assms [unfolded handle_tx_work_def]]
  by (simp_all add: related_of_def txs_between_def mset_filter fun_eq_iff)

lemma related_saved:
  "related_of cfg reg (saveCheckpoint row db) = related_of cfg reg db"
  "stored_related (saveCheckpoint row db) = stored_related db"
  by (simp_all add: related_of_def stored_related_def saveCheckpoint_def fun_eq_iff)

lemma jobHandlerCrawlTx_effect:
  assumes "jobHandlerCrawlTx cfg reg db = Inr db'"
  shows "block_checkpoint db' = checkpoint_run (tx_base_config cfg) HANDLE_TRANSACTION (block_checkpoint db)"
    and "related_of cfg reg db' = related_of cfg reg db"
    and "stored_related db' = stored_related db +
      (if skips (job_guard HANDLE_TRANSACTION) (job_start (tx_base_config cfg) HANDLE_TRANSACTION (block_checkpoint db))
          (job_end (tx_base_config cfg) HANDLE_TRANSACTION (block_checkpoint db)) then {#}
       else related_of cfg reg db (job_start (tx_base_config cfg) HANDLE_TRANSACTION (block_checkpoint db))
          (job_end (tx_base_config cfg) HANDLE_TRANSACTION (block_checkpoint db)))"
proof -
  show "block_checkpoint db' = checkpoint_run (tx_base_config cfg) HANDLE_TRANSACTION (block_checkpoint db)"
    using assms unfolding jobHandlerCrawlTx_def
    by (rule range_job_checkpoint) (rule handle_tx_work_effect(3))
  note cases = range_job_cases [OF assms [unfolded jobHandlerCrawlTx_def]]
  show "related_of cfg reg db' = related_of cfg reg db"
    by (cases rule: cases) (auto simp: related_saved dest: handle_tx_work_effect(2))
  show "stored_related db' = stored_related db +
      (if skips (job_guard HANDLE_TRANSACTION) (job_start (tx_base_config cfg) HANDLE_TRANSACTION (block_checkpoint db))
          (job_end (tx_base_config cfg) HANDLE_TRANSACTION (block_checkpoint db)) then {#}
       else related_of cfg reg db (job_start (tx_base_config cfg) HANDLE_TRANSACTION (block_checkpoint db))
          (job_end (tx_base_config cfg) HANDLE_TRANSACTION (block_checkpoint db)))"
    by (cases rule: cases) (auto simp: related_saved dest: handle_tx_work_effect(1))
qed

lemma related_of_split:
  assumes "a \<le> b" and "b \<le> c"
  shows "related_of cfg reg db a c = related_of cfg reg db a b + related_of cfg reg db b c"
  using filter_mset_range_split [OF assms, of "\<lambda>_. True" tx_height "mset (transaction_table db)"]
  by (simp add: related_of_def)

interpretation handle_tx_job: appending_job "tx_base_config cfg" HANDLE_TRANSACTION "jobHandlerCrawlTx cfg reg"
    "\<lambda>_. True" "\<lambda>db. related_of cfg reg db" stored_related
  for cfg reg
  by unfold_locales
    (auto simp: jobHandlerCrawlTx_effect HANDLE_TRANSACTION_def skips_def intro: related_of_split)

section \<open>The transactions stored\<close>

abbreviation tx_key :: "'c transaction_row \<Rightarrow> int \<times> string" where
  "tx_key t \<equiv> (tx_height t, tx_hash t)"

definition chain_keys ::
  "(int \<Rightarrow> raw_tx list) \<Rightarrow> ('c, 'a) chain_db_scheme \<Rightarrow> int \<Rightarrow> int \<Rightarrow> (int \<times> string) multiset"
where
  "chain_keys chain_txs db a b =
     (\<Sum>blk\<in># filter_mset (\<lambda>blk. in_range a b (blk_height blk)) (mset (block_table db)).
        mset (map (\<lambda>r. (blk_height blk, rt_hash r)) (chain_txs (blk_height blk))))"

definition stored_keys :: "('c, 'a) chain_db_scheme \<Rightarrow> (int \<times> string) multiset" where
  "stored_keys db = image_mset tx_key (mset (transaction_table db))"

text \<open>
  What the job relies on: the node pages as documented, blocks carry their number of
  transactions, no transaction is in two blocks, and what is stored belongs to passed heights.
\<close>

definition tx_pre ::
  "tx_config \<Rightarrow> 'c tx_ext \<Rightarrow> (int \<Rightarrow> raw_tx list) \<Rightarrow> ('c, 'a) chain_db_scheme \<Rightarrow> bool"
where
  "tx_pre cfg ext chain_txs db \<longleftrightarrow> pages_ok ext chain_txs \<and> counts_ok chain_txs db \<and> 0 < txsPerCall cfg \<and>
     (\<forall>h h' r r'. r \<in> set (chain_txs h) \<longrightarrow> r' \<in> set (chain_txs h') \<longrightarrow> rt_hash r = rt_hash r' \<longrightarrow> h = h') \<and>
     (\<forall>t\<in>set (transaction_table db). tx_hash t \<in> rt_hash ` set (chain_txs (tx_height t)) \<and>
        tx_height t \<le> job_start (tx_base_config cfg) CRAWL_TRANSACTION (block_checkpoint db))"

lemma tx_model_key:
  "tx_model cfg h ts t = Inr row \<Longrightarrow> tx_key row = (h, rt_hash (fst t))"
  by (auto simp: tx_model_def split: prod.splits option.splits)

lemma decode_tx_fst: "decode_tx ext r = Inr t \<Longrightarrow> fst t = r"
  by (auto simp: decode_tx_def split: option.splits)

lemma rmap_map: "rmap f xs = Inr ys \<Longrightarrow> (\<And>x y. f x = Inr y \<Longrightarrow> h y = g x) \<Longrightarrow> map h ys = map g xs"
  by (induction xs arbitrary: ys) (auto simp: rbind_eq_Inr)

lemma tx_models_keys:
  "rmap (tx_model cfg h ts) l = Inr rows \<Longrightarrow> map tx_key rows = map (\<lambda>t. (h, rt_hash (fst t))) l"
  by (erule rmap_map) (rule tx_model_key)

lemma rmap_fails: "x \<in> set xs \<Longrightarrow> isl (f x) \<Longrightarrow> rmap f xs \<noteq> Inr ys"
  by (induction xs arbitrary: ys) (auto simp: rbind_eq_Inr isl_def)

lemma number_txs_key: "map tx_key (number_txs n rows) = map tx_key rows"
  unfolding number_txs_def map_map
  by (rule nth_equalityI) auto

lemma insertTxDecoded_keys:
  assumes "insertTxDecoded cfg dec db = Inr db'"
  shows "map tx_key (transaction_table db') = map tx_key (transaction_table db) @
      concat (map (\<lambda>(l, h, ts). map (\<lambda>t. (h, rt_hash (fst t))) l) dec)"
    and "block_table db' = block_table db" and "block_checkpoint db' = block_checkpoint db"
proof -
  from assms obtain models where
    models: "rmap (\<lambda>(l, h, ts). rmap (tx_model cfg h ts) l) dec = Inr models"
    and db': "db' = db\<lparr>transaction_table := transaction_table db @ number_txs (transaction_seq db) (concat models),
        transaction_seq := transaction_seq db + int (length (concat models))\<rparr>"
    by (auto simp: insertTxDecoded_def rbind_eq_Inr)
  have "map (map tx_key) models = map (\<lambda>(l, h, ts). map (\<lambda>t. (h, rt_hash (fst t))) l) dec"
    using models by (rule rmap_map) (auto simp: tx_models_keys)
  then show "map tx_key (transaction_table db') = map tx_key (transaction_table db) @
      concat (map (\<lambda>(l, h, ts). map (\<lambda>t. (h, rt_hash (fst t))) l) dec)"
    by (simp add: db' number_txs_key map_concat)
  show "block_table db' = block_table db" "block_checkpoint db' = block_checkpoint db" by (simp_all add: db')
qed

lemma decodeListRawTx_keys:
  assumes "decodeListRawTx ext raws db = Inr dec"
  shows "concat (map (\<lambda>(l, h, ts). map (\<lambda>t. (h, rt_hash (fst t))) l) dec) =
    concat (map (\<lambda>p. map (\<lambda>r. (rb_height p, rt_hash r))
      (filter (\<lambda>tx. rt_hash tx \<notin> set (map tx_hash (transaction_table db))) (rb_txs p))) raws)"
proof -
  have "map (\<lambda>(l, h, ts). map (\<lambda>t. (h, rt_hash (fst t))) l) dec =
    map (\<lambda>p. map (\<lambda>r. (rb_height p, rt_hash r))
      (filter (\<lambda>tx. rt_hash tx \<notin> set (map tx_hash (transaction_table db))) (rb_txs p))) raws"
    using assms unfolding decodeListRawTx_def
    by (rule rmap_map) (auto simp: rbind_eq_Inr dest: decode_tx_fst intro!: rmap_map)
  then show ?thesis by simp
qed

lemma crawl_tx_work_effect:
  assumes "crawl_tx_work cfg ext s e db = Inr db'" and "tx_pre cfg ext chain_txs db"
    and "s = job_start (tx_base_config cfg) CRAWL_TRANSACTION (block_checkpoint db)"
  shows "stored_keys db' = stored_keys db + chain_keys chain_txs db s e"
proof -
  let ?blocks = "filter (\<lambda>b. 0 < blk_tx_count b) (blocks_between s e db)"
  have pre: "pages_ok ext chain_txs" "counts_ok chain_txs db" "0 < txsPerCall cfg"
    using assms(2) by (simp_all add: tx_pre_def)
  obtain dec where dec: "decodeListRawTx ext (map (block_txs chain_txs) ?blocks) db = Inr dec"
    and ins: "insertTxDecoded cfg dec db = Inr db'"
    using assms(1) by (auto simp: crawl_tx_work_def getListRawTx_eq [OF pre] rbind_eq_Inr)
  have new: "rt_hash r \<notin> tx_hash ` set (transaction_table db)"
    if "b \<in> set (blocks_between s e db)" "r \<in> set (chain_txs (blk_height b))" for b r
  proof
    assume "rt_hash r \<in> tx_hash ` set (transaction_table db)"
    then obtain t where t: "t \<in> set (transaction_table db)" "rt_hash r = tx_hash t" by auto
    then obtain r' where "r' \<in> set (chain_txs (tx_height t))" "rt_hash r' = tx_hash t" "tx_height t \<le> s"
      using assms(2,3) unfolding tx_pre_def by fastforce
    with that(2) t(2) have "tx_height t = blk_height b" using assms(2) unfolding tx_pre_def by metis
    with that(1) \<open>tx_height t \<le> s\<close> show False by (simp add: blocks_between_facts in_range_def)
  qed
  have same: "filter (\<lambda>tx. rt_hash tx \<notin> set (map tx_hash (transaction_table db))) (chain_txs (blk_height b)) =
      chain_txs (blk_height b)" if "b \<in> set ?blocks" for b
    using that new [of b] by (auto intro!: filter_True)
  have "concat (map (\<lambda>(l, h, ts). map (\<lambda>t. (h, rt_hash (fst t))) l) dec) =
      concat (map (\<lambda>b. map (\<lambda>r. (blk_height b, rt_hash r)) (chain_txs (blk_height b))) ?blocks)"
    unfolding decodeListRawTx_keys [OF dec] map_map
    using same by (intro arg_cong [of _ _ concat] map_cong refl) (simp add: block_txs_def)
  also have "\<dots> = concat (map (\<lambda>b. map (\<lambda>r. (blk_height b, rt_hash r)) (chain_txs (blk_height b))) (blocks_between s e db))"
  proof -
    have "concat (map g (filter P xs)) = concat (map g xs)" if "\<forall>x\<in>set xs. \<not> P x \<longrightarrow> g x = []"
      for g :: "block_row \<Rightarrow> (int \<times> string) list" and P xs
      using that by (induction xs) auto
    moreover have "chain_txs (blk_height b) = []" if "b \<in> set (blocks_between s e db)" "\<not> 0 < blk_tx_count b" for b
      using that pre(2) by (simp add: blocks_between_facts counts_ok_def)
    ultimately show ?thesis by auto
  qed
  finally have keys: "mset (concat (map (\<lambda>(l, h, ts). map (\<lambda>t. (h, rt_hash (fst t))) l) dec)) =
      (\<Sum>blk\<in># mset (blocks_between s e db). mset (map (\<lambda>r. (blk_height blk, rt_hash r)) (chain_txs (blk_height blk))))"
    by (simp add: mset_concat comp_def flip: mset_map sum_mset_sum_list)
  have "mset (blocks_between s e db) = filter_mset (\<lambda>b. in_range s e (blk_height b)) (mset (block_table db))"
    by (simp add: blocks_between_def mset_filter)
  with keys have "mset (map tx_key (transaction_table db')) = mset (map tx_key (transaction_table db)) + chain_keys chain_txs db s e"
    unfolding insertTxDecoded_keys(1) [OF ins] by (simp add: chain_keys_def)
  then show ?thesis by (simp add: stored_keys_def)
qed

lemma crawl_tx_work_keeps:
  assumes "crawl_tx_work cfg ext s e db = Inr db'"
  shows "block_table db' = block_table db" and "block_checkpoint db' = block_checkpoint db"
  using assms by (auto simp: crawl_tx_work_def rbind_eq_Inr dest: insertTxDecoded_keys)

lemma jobCrawlTx_effect:
  assumes "jobCrawlTx cfg ext db = Inr db'"
  shows "block_checkpoint db' = checkpoint_run (tx_base_config cfg) CRAWL_TRANSACTION (block_checkpoint db)"
    and "chain_keys chain_txs db' = chain_keys chain_txs db"
    and "tx_pre cfg ext chain_txs db \<Longrightarrow> stored_keys db' = stored_keys db +
      (if skips (job_guard CRAWL_TRANSACTION) (job_start (tx_base_config cfg) CRAWL_TRANSACTION (block_checkpoint db))
          (job_end (tx_base_config cfg) CRAWL_TRANSACTION (block_checkpoint db)) then {#}
       else chain_keys chain_txs db (job_start (tx_base_config cfg) CRAWL_TRANSACTION (block_checkpoint db))
          (job_end (tx_base_config cfg) CRAWL_TRANSACTION (block_checkpoint db)))"
proof -
  show "block_checkpoint db' = checkpoint_run (tx_base_config cfg) CRAWL_TRANSACTION (block_checkpoint db)"
    using assms unfolding jobCrawlTx_def by (rule range_job_checkpoint) (rule crawl_tx_work_keeps(2))
  note cases = range_job_cases [OF assms [unfolded jobCrawlTx_def]]
  show "chain_keys chain_txs db' = chain_keys chain_txs db"
    by (cases rule: cases) (auto simp: chain_keys_def saveCheckpoint_def fun_eq_iff dest: crawl_tx_work_keeps)
  show "stored_keys db' = stored_keys db +
      (if skips (job_guard CRAWL_TRANSACTION) (job_start (tx_base_config cfg) CRAWL_TRANSACTION (block_checkpoint db))
          (job_end (tx_base_config cfg) CRAWL_TRANSACTION (block_checkpoint db)) then {#}
       else chain_keys chain_txs db (job_start (tx_base_config cfg) CRAWL_TRANSACTION (block_checkpoint db))
          (job_end (tx_base_config cfg) CRAWL_TRANSACTION (block_checkpoint db)))"
    if "tx_pre cfg ext chain_txs db"
    by (cases rule: cases) (auto simp: stored_keys_def saveCheckpoint_def dest!: crawl_tx_work_effect [OF _ that refl])
qed

lemma chain_keys_split:
  assumes "a \<le> b" and "b \<le> c"
  shows "chain_keys chain_txs db a c = chain_keys chain_txs db a b + chain_keys chain_txs db b c"
  using filter_mset_range_split [OF assms, of "\<lambda>_. True" blk_height "mset (block_table db)"]
  by (simp add: chain_keys_def)

interpretation crawl_tx_job: appending_job "tx_base_config cfg" CRAWL_TRANSACTION "jobCrawlTx cfg ext"
    "tx_pre cfg ext chain_txs" "\<lambda>db. chain_keys chain_txs db" stored_keys
  for cfg ext chain_txs
  by unfold_locales
    (auto simp: jobCrawlTx_effect CRAWL_TRANSACTION_def [THEN arg_cong, of job_guard] skips_def intro: chain_keys_split)

section \<open>Properties\<close>

definition sample_raw_tx :: "nat \<Rightarrow> raw_tx" where
  "sample_raw_tx i =
     \<lparr>rt_hash = show_nat i, rt_tx = ''raw'', rt_index = i, rt_codespace = None, rt_code = None,
      rt_gas_used = None, rt_gas_wanted = None, rt_log = Some ''log'',
      rt_events = Some
        [\<lparr>re_type = ''message'',
          re_attributes = Some [\<lparr>ra_key = Some ''sender'', ra_value = Some ''aura1a''\<rparr>], re_msg_index = None\<rparr>,
         \<lparr>re_type = ''tx'', re_attributes = Some [], re_msg_index = None\<rparr>,
         \<lparr>re_type = ''transfer'', re_attributes = Some [], re_msg_index = None\<rparr>]\<rparr>"

definition sample_chain_txs :: "int \<Rightarrow> raw_tx list" where
  "sample_chain_txs h = (if h = 1 then map sample_raw_tx [0..<3] else [])"

definition sample_tx_ext :: "string tx_ext" where
  "sample_tx_ext =
     \<lparr>tx_search = (\<lambda>h k n. take n (drop ((k - 1) * n) (sample_chain_txs h))),
      decode_raw_tx = (\<lambda>_. Some \<lparr>dt_messages = [\<lparr>cm_type = ''/send'', cm_content = ''c''\<rparr>], dt_memo = [],
                                dt_fee_amount = Some [\<lparr>coin_denom = ''uaura'', coin_amount = ''1''\<rparr>], dt_gas_limit = None\<rparr>),
      parse_log = (\<lambda>_. Some [[\<lparr>re_type = ''transfer'', re_attributes = Some [], re_msg_index = None\<rparr>]])\<rparr>"

definition sample_tx_config :: tx_config where
  "sample_tx_config =
     \<lparr>tx_base_config = \<lparr>startBlock = 0, blocksPerCall = (\<lambda>_. 100)\<rparr>, txsPerCall = 2, saveRawLog = True,
      lastEventsTypeTx = [''tx'', ''ethereum_tx'']\<rparr>"

definition sample_tx_db :: "string chain_db" where
  "sample_tx_db =
     empty_chain_db\<lparr>block_checkpoint := [''crawl:block'' \<mapsto> 1],
       block_table := [\<lparr>blk_height = 1, blk_hash = ''h'', blk_time = ''t'', blk_proposer_address = ''p'',
                        blk_tx_count = 3, blk_signatures = []\<rparr>]\<rparr>"

lemma sample_pages_ok: "pages_ok sample_tx_ext sample_chain_txs"
  by (simp add: pages_ok_def sample_tx_ext_def)

lemma sample_counts_ok: "counts_ok sample_chain_txs sample_tx_db"
  by (simp add: counts_ok_def sample_tx_db_def sample_chain_txs_def empty_chain_db_def)

lemma sample_tx_pre: "tx_pre sample_tx_config sample_tx_ext sample_chain_txs sample_tx_db"
  using sample_pages_ok sample_counts_ok
  by (simp add: tx_pre_def sample_tx_config_def)
    (simp add: sample_chain_txs_def sample_tx_db_def empty_chain_db_def)

text \<open>
  When the node pages a block's transactions as documented and the stored blocks carry their
  number of transactions, the paged fetch of a range returns, for every block of the range that
  has transactions and in order of height, exactly its transactions in the node's order.
\<close>

theorem getListRawTx_complete:
  assumes "pages_ok ext chain_txs" and "counts_ok chain_txs db" and "0 < txsPerCall cfg"
  shows "getListRawTx cfg ext s e db =
    Inr (map (\<lambda>b. \<lparr>rb_txs = chain_txs (blk_height b), rb_height = blk_height b, rb_timestamp = blk_time b\<rparr>)
      (filter (\<lambda>b. 0 < blk_tx_count b) (blocks_between s e db)))"
  using getListRawTx_eq [OF assms] by (simp add: block_txs_def [abs_def])

theorem getListRawTx_complete_witness:
  "getListRawTx sample_tx_config sample_tx_ext 0 1 sample_tx_db =
     Inr [\<lparr>rb_txs = map sample_raw_tx [0..<3], rb_height = 1, rb_timestamp = ''t''\<rparr>]"
proof -
  have "map (\<lambda>b. \<lparr>rb_txs = sample_chain_txs (blk_height b), rb_height = blk_height b, rb_timestamp = blk_time b\<rparr>)
      (filter (\<lambda>b. 0 < blk_tx_count b) (blocks_between 0 1 sample_tx_db)) =
    [\<lparr>rb_txs = map sample_raw_tx [0..<3], rb_height = 1, rb_timestamp = ''t''\<rparr>]"
    by code_simp
  then show ?thesis
    using getListRawTx_complete [OF sample_pages_ok sample_counts_ok, of sample_tx_config 0 1]
    by (simp add: sample_tx_config_def)
qed

text \<open>
  When the pages of a block with transactions do not add up to its number of transactions,
  the run throws and commits nothing: the checkpoint stays where it is and the range is retried.
\<close>

theorem getListRawTx_count_checked:
  assumes "b \<in> set (blocks_between (job_start (tx_base_config cfg) CRAWL_TRANSACTION (block_checkpoint db))
        (job_end (tx_base_config cfg) CRAWL_TRANSACTION (block_checkpoint db)) db)"
    and "0 < blk_tx_count b" and "distinct (map blk_height (block_table db))"
    and "(\<Sum>i\<leftarrow>[0..<totalPages (blk_tx_count b) (txsPerCall cfg)].
        length (tx_search ext (blk_height b) (i + 1) (txsPerCall cfg))) \<noteq> blk_tx_count b"
  shows "isl (jobCrawlTx cfg ext db)"
proof (rule ccontr)
  assume "\<not> isl (jobCrawlTx cfg ext db)"
  then obtain db' where run: "jobCrawlTx cfg ext db = Inr db'" by (cases "jobCrawlTx cfg ext db") auto
  let ?s = "job_start (tx_base_config cfg) CRAWL_TRANSACTION (block_checkpoint db)"
    and ?e = "job_end (tx_base_config cfg) CRAWL_TRANSACTION (block_checkpoint db)"
  let ?blocks = "blocks_between ?s ?e db"
  have "length (concat (map snd (filter (\<lambda>r. show_int (fst r) = show_int (blk_height b))
      (page_results cfg ext ?blocks)))) \<noteq> blk_tx_count b"
    using assms(4) page_results_of_block [OF blocks_between_facts(2) [OF assms(3)] assms(1,2), of cfg ext]
    by (simp add: length_concat comp_def)
  then have "isl (collect_block (page_results cfg ext ?blocks) b)" by (simp add: collect_block_def)
  then have fails: "\<forall>ys. rmap (collect_block (page_results cfg ext ?blocks)) (filter (\<lambda>b. 0 < blk_tx_count b) ?blocks) \<noteq> Inr ys"
    using assms(1,2) rmap_fails [of b "filter (\<lambda>b. 0 < blk_tx_count b) ?blocks"
        "collect_block (page_results cfg ext ?blocks)"] by simp
  have "\<not> crawl_tx_work cfg ext ?s ?e db = Inr db1" for db1
    using fails by (auto simp: crawl_tx_work_def getListRawTx_def rbind_eq_Inr Let_def)
  moreover have "?s < ?e" using assms(1) by (simp add: blocks_between_facts(1) in_range_def)
  ultimately show False
    by (cases rule: range_job_cases [OF run [unfolded jobCrawlTx_def]])
      (auto simp: skips_def CRAWL_TRANSACTION_def [THEN arg_cong, of job_guard])
qed

text \<open>
  C3. When the node pages the transactions of a block as documented, stored blocks carry their
  number of transactions, no hash occurs at two heights of the chain, and the transactions
  stored whenever the job starts are ones of the chain at heights that it has passed, then, however the fetching job
  interleaves with other jobs that leave its checkpoint, the stored transactions and the blocks of
  passed heights alone, the transactions stored are those stored at first and, exactly once each, all transactions of the stored
  blocks of the heights passed since.
\<close>

theorem crawl_tx_exactly_once:
  assumes "job_trace (jobCrawlTx cfg ext) (tx_pre cfg ext chain_txs)
      (settled_env (\<lambda>db. job_start (tx_base_config cfg) CRAWL_TRANSACTION (block_checkpoint db))
        stored_keys (chain_keys chain_txs)) db0 db"
  shows "stored_keys db = stored_keys db0 +
    chain_keys chain_txs db (job_start (tx_base_config cfg) CRAWL_TRANSACTION (block_checkpoint db0))
      (job_start (tx_base_config cfg) CRAWL_TRANSACTION (block_checkpoint db))"
  using crawl_tx_job.exactly_once [OF assms] by simp

theorem crawl_tx_exactly_once_witness:
  "\<exists>db. jobCrawlTx sample_tx_config sample_tx_ext sample_tx_db = Inr db \<and>
     stored_keys db = {#(1, ''0''), (1, ''1''), (1, ''2'')#}"
proof -
  let ?start = "\<lambda>db. job_start (tx_base_config sample_tx_config) CRAWL_TRANSACTION (block_checkpoint db)"
  have "\<not> isl (jobCrawlTx sample_tx_config sample_tx_ext sample_tx_db)" by code_simp
  then obtain db where run: "jobCrawlTx sample_tx_config sample_tx_ext sample_tx_db = Inr db"
    by (metis sum.collapse(2))
  have trace: "job_trace (jobCrawlTx sample_tx_config sample_tx_ext) (tx_pre sample_tx_config sample_tx_ext sample_chain_txs)
      (settled_env ?start stored_keys (chain_keys sample_chain_txs)) sample_tx_db db"
    by (intro trace_one run sample_tx_pre)
  have range: "?start sample_tx_db = 0"
    "job_end (tx_base_config sample_tx_config) CRAWL_TRANSACTION (block_checkpoint sample_tx_db) = 1"
    by code_simp+
  have "?start db = 1"
    using jobCrawlTx_effect(1) [OF run] range
    by (simp add: job_start_checkpoint_run skips_def CRAWL_TRANSACTION_def [THEN arg_cong, of job_guard])
  moreover have "chain_keys sample_chain_txs db 0 1 = chain_keys sample_chain_txs sample_tx_db 0 1"
    using jobCrawlTx_effect(2) [OF run] by simp
  moreover have "chain_keys sample_chain_txs sample_tx_db 0 1 = {#(1, ''0''), (1, ''1''), (1, ''2'')#}"
    "stored_keys sample_tx_db = {#}"
    by code_simp+
  ultimately show ?thesis using run range crawl_tx_exactly_once [OF trace] by auto
qed






theorem getListRawTx_count_checked_witness:
  "isl (jobCrawlTx sample_tx_config (sample_tx_ext\<lparr>tx_search := (\<lambda>_ _ _. [])\<rparr>) sample_tx_db)"
proof -
  have range: "job_start (tx_base_config sample_tx_config) CRAWL_TRANSACTION (block_checkpoint sample_tx_db) = 0"
    "job_end (tx_base_config sample_tx_config) CRAWL_TRANSACTION (block_checkpoint sample_tx_db) = 1"
    by code_simp+
  have facts: "hd (block_table sample_tx_db) \<in> set (blocks_between 0 1 sample_tx_db)"
    "0 < blk_tx_count (hd (block_table sample_tx_db))" "distinct (map blk_height (block_table sample_tx_db))"
    "(\<Sum>i\<leftarrow>[0..<totalPages (blk_tx_count (hd (block_table sample_tx_db))) (txsPerCall sample_tx_config)].
        length (tx_search (sample_tx_ext\<lparr>tx_search := (\<lambda>_ _ _. [])\<rparr>) (blk_height (hd (block_table sample_tx_db)))
          (i + 1) (txsPerCall sample_tx_config))) \<noteq> blk_tx_count (hd (block_table sample_tx_db))"
    by code_simp+
  show ?thesis
    by (rule getListRawTx_count_checked [where b = "hd (block_table sample_tx_db)"])
      (use facts in \<open>simp_all only: range not_False_eq_True\<close>)
qed

text \<open>
  C6. However the handling job interleaves with other jobs that leave its checkpoint, the stored
  transaction events and top-level messages, and the transactions of passed heights alone (the
  decoding of stored transactions anew does not), the transaction events and the
  top-level messages stored are, up to their ids, those stored at first and, exactly once each,
  those of the transactions of the heights passed since.
\<close>

theorem handle_tx_exactly_once:
  assumes "job_trace (jobHandlerCrawlTx cfg reg) (\<lambda>_. True)
      (settled_env (\<lambda>db. job_start (tx_base_config cfg) HANDLE_TRANSACTION (block_checkpoint db))
        stored_related (related_of cfg reg)) db0 db"
  shows "stored_related db = stored_related db0 +
    related_of cfg reg db (job_start (tx_base_config cfg) HANDLE_TRANSACTION (block_checkpoint db0))
      (job_start (tx_base_config cfg) HANDLE_TRANSACTION (block_checkpoint db))"
  using handle_tx_job.exactly_once [OF assms] by simp

definition sample_stored_tx_db :: "string chain_db" where
  "sample_stored_tx_db =
     sample_tx_db\<lparr>block_checkpoint := [''crawl:transaction'' \<mapsto> 5],
       transaction_table := [\<lparr>tx_id = 1, tx_height = 1, tx_hash = ''0'', tx_codespace = [], tx_code = 0,
         tx_gas_used = ''0'', tx_gas_wanted = ''0'', tx_gas_limit = ''0'', tx_fee = [\<lparr>coin_denom = ''uaura'', coin_amount = ''1''\<rparr>], tx_memo = [],
         tx_index = 0, tx_timestamp = ''t'',
         tx_data = Some \<lparr>td_messages = [\<lparr>cm_type = ''/send'', cm_content = ''c''\<rparr>],
           td_events = rt_events (sample_raw_tx 0), td_logs = parse_log sample_tx_ext ''log''\<rparr>\<rparr>]\<rparr>"

theorem handle_tx_exactly_once_witness:
  "\<exists>db. jobHandlerCrawlTx sample_tx_config sample_registry sample_stored_tx_db = Inr db \<and> size (stored_related db) = 4"
proof -
  let ?db0 = sample_stored_tx_db
  let ?start = "\<lambda>db. job_start (tx_base_config sample_tx_config) HANDLE_TRANSACTION (block_checkpoint db)"
  have "\<not> isl (jobHandlerCrawlTx sample_tx_config sample_registry ?db0)" by code_simp
  then obtain db where run: "jobHandlerCrawlTx sample_tx_config sample_registry ?db0 = Inr db"
    by (metis sum.collapse(2))
  have trace: "job_trace (jobHandlerCrawlTx sample_tx_config sample_registry) (\<lambda>_. True)
      (settled_env ?start stored_related (related_of sample_tx_config sample_registry)) ?db0 db"
    using run by (intro trace_one) simp_all
  have same: "related_of sample_tx_config sample_registry db = related_of sample_tx_config sample_registry ?db0"
    by (rule jobHandlerCrawlTx_effect(2) [OF run])
  have range: "?start ?db0 = 0" "job_end (tx_base_config sample_tx_config) HANDLE_TRANSACTION (block_checkpoint ?db0) = 5"
    by code_simp+
  then have "?start db = 5"
    using jobHandlerCrawlTx_effect(1) [OF run]
    by (simp add: job_start_checkpoint_run skips_def HANDLE_TRANSACTION_def [THEN arg_cong, of job_guard])
  moreover have "size (related_of sample_tx_config sample_registry ?db0 0 5) = 4" "size (stored_related ?db0) = 0"
    by code_simp+
  ultimately show ?thesis using run range same handle_tx_exactly_once [OF trace] by auto
qed

text \<open>
  The events kept for a transaction are its own events through the first run of closing
  events, then the events of each message's log in order, marked with the index of the message;
  a failed transaction, which has no logs, keeps none.
\<close>

theorem createListEventWithMsgIndex_spec:
  "createListEventWithMsgIndex cfg data =
     (case td_logs data of
        None \<Rightarrow> []
      | Some logs \<Rightarrow>
          let own = (case td_events data of None \<Rightarrow> [] | Some es \<Rightarrow> es);
              closing = (\<lambda>e. re_type e \<in> set (lastEventsTypeTx cfg)) in
          takeWhile (Not \<circ> closing) own @ takeWhile closing (dropWhile (Not \<circ> closing) own) @
          concat (map (\<lambda>i. map (re_msg_index_update (\<lambda>_. Some i)) (logs ! i)) [0..<length logs]))"
proof -
  have "zip [0..<length logs] logs = map (\<lambda>i. (i, logs ! i)) [0..<length logs]" for logs :: "raw_event list list"
    by (rule nth_equalityI) simp_all
  then have "log_events logs = concat (map (\<lambda>i. map (re_msg_index_update (\<lambda>_. Some i)) (logs ! i)) [0..<length logs])" for logs
    by (simp add: log_events_def comp_def)
  then show ?thesis
    by (simp add: createListEventWithMsgIndex_def tx_level_events_eq comp_def Let_def split: option.split)
qed

end
