(* ===== verification/Coin_Transfer.thy ===== *)
theory Coin_Transfer
  imports Crawl_Tx
begin

text \<open>
  The coin transfer indexer (\<^verbatim>\<open>src/services/crawl-tx/coin_transfer.service.ts\<close>): it reads the
  \<open>transfer\<close> events of the messages of a range of transactions and stores one row per transfer.
  Amounts pass through JavaScript numbers, whose rounding is written out.
\<close>

section \<open>JavaScript numbers\<close>

text \<open>Whole numbers as IEEE doubles: 53 significant bits, ties to even.\<close>

fun bit_length :: "nat \<Rightarrow> nat" where
  "bit_length n = (if n = 0 then 0 else Suc (bit_length (n div 2)))"

declare bit_length.simps [simp del]

definition to_double :: "nat \<Rightarrow> nat" where
  "to_double n =
     (let u = 2 ^ (bit_length n - 53); q = n div u; r = n mod u in
      if 2 * r < u \<or> (2 * r = u \<and> even q) then q * u else (q + 1) * u)"

text \<open>
  \<^verbatim>\<open>String(d)\<close> prints the shortest decimal that reads back as \<open>d\<close>; its value is the multiple of the
  largest power of ten that does, the nearer one when two do.
\<close>

fun shortest_decimal :: "nat \<Rightarrow> nat \<Rightarrow> nat" where
  "shortest_decimal 0 d = d"
| "shortest_decimal (Suc k) d =
     (let p = 10 ^ Suc k; lo = d div p * p; hi = lo + p in
      if to_double lo = d \<and> (d - lo \<le> hi - d \<or> to_double hi \<noteq> d) then lo
      else if to_double hi = d then hi
      else shortest_decimal k d)"

definition number_text_value :: "nat \<Rightarrow> nat" where
  "number_text_value d = (if d < 2 ^ 53 then d else shortest_decimal (bit_length d) d)"

section \<open>Extracting an amount\<close>

text \<open>\<^verbatim>\<open>s.match(/(\d+)/)?.[0]\<close>, and \<^verbatim>\<open>s.replace(t, '')\<close>, which removes the first occurrence of \<open>t\<close>.\<close>

definition first_digits :: "string \<Rightarrow> string option" where
  "first_digits s =
     (let ds = takeWhile is_digit (dropWhile (Not \<circ> is_digit) s) in if ds = [] then None else Some ds)"

fun remove_first :: "string \<Rightarrow> string \<Rightarrow> string" where
  "remove_first t [] = []"
| "remove_first t (c # s) =
     (if t \<noteq> [] \<and> startsWith (c # s) t then drop (length t) (c # s) else c # remove_first t s)"

text \<open>The amount is the number that \<^verbatim>\<open>Number.parseInt\<close> returns.\<close>

definition extractAmount :: "string option \<Rightarrow> nat \<times> string" where
  "extractAmount rawAmount =
     (case rawAmount of
        None \<Rightarrow> (0, [])
      | Some s \<Rightarrow>
          let amount = (case first_digits s of None \<Rightarrow> ''0'' | Some ds \<Rightarrow> ds) in
          (to_double (digits_value amount), remove_first amount s))"

section \<open>Transfers of a transaction\<close>

record coin_transfer =
  ct_block_height :: int
  ct_tx_id :: int
  ct_tx_msg_id :: int
  ct_from :: string
  ct_to :: string
  ct_amount :: nat
  ct_denom :: string
  ct_timestamp :: string

record 'c coin_db = "'c chain_db" +
  coin_transfers :: "coin_transfer list"

text \<open>
  \<^verbatim>\<open>find(...)?.value\<close>: the outer \<open>None\<close> is undefined, the inner a null. \<^verbatim>\<open>fromJson\<close> coerces null to
  the empty text; \<open>from\<close> has a default of null, while \<open>to\<close> is required.
\<close>

definition attr_lookup :: "event_attribute list \<Rightarrow> string \<Rightarrow> string option option" where
  "attr_lookup attrs k = map_option attr_value (find (\<lambda>a. attr_key a = Some k) attrs)"

definition null_text :: "string option \<Rightarrow> string" where
  "null_text v = (case v of None \<Rightarrow> [] | Some s \<Rightarrow> s)"

definition coin_transfer_fromJson ::
  "'c transaction_row \<Rightarrow> 'c message_row \<Rightarrow> string option option \<Rightarrow> string option option \<Rightarrow> string option
    \<Rightarrow> coin_transfer res"
where
  "coin_transfer_fromJson tx msg src dst rawAmount =
     (case dst of
        None \<Rightarrow> Inl (ValidationError ''to'')
      | Some d \<Rightarrow>
          let (amount, denom) = extractAmount rawAmount in
          Inr \<lparr>ct_block_height = tx_height tx, ct_tx_id = tx_id tx, ct_tx_msg_id = msg_id msg,
               ct_from = (case src of None \<Rightarrow> [] | Some v \<Rightarrow> null_text v), ct_to = null_text d,
               ct_amount = number_text_value amount, ct_denom = denom, ct_timestamp = tx_timestamp tx\<rparr>)"

text \<open>The pairs of recipient and amount of a multi-send. The rows before a bad pair are kept.\<close>

fun multi_send_rows ::
  "'c transaction_row \<Rightarrow> 'c message_row \<Rightarrow> string option option \<Rightarrow> event_attribute list \<Rightarrow> coin_transfer list res"
where
  "multi_send_rows tx msg src [] = Inr []"
| "multi_send_rows tx msg src [a] = Inl TypeError"
| "multi_send_rows tx msg src (a # b # rest) =
     (if attr_key a \<noteq> Some ''recipient'' \<and> attr_key b \<noteq> Some ''amount'' then Inr []
      else rbind (coin_transfer_fromJson tx msg src (Some (attr_value a)) (attr_value b)) (\<lambda>row.
           rbind (multi_send_rows tx msg src rest) (\<lambda>rows. Inr (row # rows))))"

definition has_authz_index :: "event_attribute list \<Rightarrow> bool" where
  "has_authz_index attrs \<longleftrightarrow> length attrs = 4 \<and> Some ''authz_msg_index'' \<in> set (map attr_key attrs)"

definition js_nth :: "'x list \<Rightarrow> nat \<Rightarrow> 'x option" where
  "js_nth xs i = (if i < length xs then Some (xs ! i) else None)"

definition event_transfers ::
  "'c transaction_row \<Rightarrow> 'c message_row list \<Rightarrow> event_row list \<Rightarrow> event_row \<Rightarrow> coin_transfer list res"
where
  "event_transfers tx messages events e =
     (case evt_tx_msg_index e of
        None \<Rightarrow> Inr []
      | Some idx \<Rightarrow>
          if evt_type e \<noteq> ''transfer'' then Inr []
          else
            let attrs = evt_attributes e; msg = js_nth messages idx in
            rbind (if length attrs \<noteq> 3
                   then rbind (need msg) (\<lambda>m. Inr (msg_type m \<noteq> ''/cosmos.bank.v1beta1.MsgMultiSend'' \<and>
                                                  \<not> has_authz_index attrs))
                   else Inr False) (\<lambda>unsupported.
            if unsupported then Inr []
            else
              rbind (need msg) (\<lambda>m.
                if length attrs = 3 \<or> has_authz_index attrs
                then rbind (coin_transfer_fromJson tx m (attr_lookup attrs ''sender'') (attr_lookup attrs ''recipient'')
                             (case attr_lookup attrs ''amount'' of None \<Rightarrow> None | Some v \<Rightarrow> v)) (\<lambda>row. Inr [row])
                else multi_send_rows tx m
                       (case find (\<lambda>c. evt_type c = ''coin_spent'' \<and> evt_tx_msg_index c = Some idx) events of
                          None \<Rightarrow> None
                        | Some c \<Rightarrow> attr_lookup (evt_attributes c) ''spender'') attrs)))"

definition messages_of :: "('c, 'a) chain_db_scheme \<Rightarrow> 'c transaction_row \<Rightarrow> 'c message_row list" where
  "messages_of db tx = filter (\<lambda>m. msg_tx_id m = tx_id tx) (message_table db)"

definition msg_events_of :: "('c, 'a) chain_db_scheme \<Rightarrow> 'c transaction_row \<Rightarrow> event_row list" where
  "msg_events_of db tx = filter (\<lambda>e. evt_tx_id e = Some (tx_id tx) \<and> evt_tx_msg_index e \<noteq> None) (event_table db)"

definition tx_transfers :: "('c, 'a) chain_db_scheme \<Rightarrow> 'c transaction_row \<Rightarrow> coin_transfer list res" where
  "tx_transfers db tx =
     rbind (rmap (event_transfers tx (messages_of db tx) (msg_events_of db tx)) (msg_events_of db tx))
       (\<lambda>rows. Inr (concat rows))"

text \<open>
  The events between the smallest and the largest transaction id of the range are handed to
  their transactions; one that belongs to a transaction outside the range makes the code throw.
\<close>

definition fetchTransactionCTByHeight ::
  "int \<Rightarrow> int \<Rightarrow> ('c, 'a) chain_db_scheme \<Rightarrow> 'c transaction_row list res"
where
  "fetchTransactionCTByHeight fromHeight toHeight db =
     (let transactions = sort_key tx_id (filter (\<lambda>t. in_range fromHeight toHeight (tx_height t)) (transaction_table db)) in
      if transactions = [] then Inr []
      else
        let lo = tx_id (hd transactions); hi = tx_id (last transactions);
            events = filter (\<lambda>e. evt_tx_msg_index e \<noteq> None \<and>
              (case evt_tx_id e of None \<Rightarrow> False | Some i \<Rightarrow> lo \<le> i \<and> i \<le> hi)) (event_table db) in
        if list_all (\<lambda>e. evt_tx_id e \<in> set (map (Some \<circ> tx_id) transactions)) events
        then Inr transactions else Inl TypeError)"

definition HANDLE_COIN_TRANSFER :: job_decl where
  "HANDLE_COIN_TRANSFER =
     \<lparr>job_name = ''handle:coin_transfer'', lastHeightJobNames = [''handle:transaction''],
      configName = Some ''handleCoinTransfer'', job_guard = SkipGE\<rparr>"

definition coin_transfer_work ::
  "int \<Rightarrow> int \<Rightarrow> ('c, 'a) coin_db_scheme \<Rightarrow> ('c, 'a) coin_db_scheme res"
where
  "coin_transfer_work fromBlock toBlock db =
     rbind (fetchTransactionCTByHeight fromBlock toBlock db) (\<lambda>transactions.
     rbind (rmap (tx_transfers db) transactions) (\<lambda>rows.
       Inr (db\<lparr>coin_transfers := coin_transfers db @ concat rows\<rparr>)))"

definition jobHandleTxCoinTransfer ::
  "config \<Rightarrow> ('c, 'a) coin_db_scheme \<Rightarrow> ('c, 'a) coin_db_scheme res"
where
  "jobHandleTxCoinTransfer cfg = range_job cfg HANDLE_COIN_TRANSFER coin_transfer_work"

section \<open>Numbers below 2^53 are exact\<close>

lemma bit_length_bounds: "0 < n \<Longrightarrow> 2 ^ (bit_length n - 1) \<le> n \<and> n < 2 ^ bit_length n \<and> 0 < bit_length n"
proof (induction n rule: bit_length.induct)
  case (1 n)
  show ?case
  proof (cases "n < 2")
    case True
    with 1 have "n = 1" by simp
    then show ?thesis by (simp add: bit_length.simps)
  next
    case False
    then have IH: "2 ^ (bit_length (n div 2) - 1) \<le> n div 2" "n div 2 < 2 ^ bit_length (n div 2)" "0 < bit_length (n div 2)"
      using 1 by auto
    obtain m where m: "bit_length (n div 2) = Suc m" using IH(3) gr0_implies_Suc by blast
    have "bit_length n = Suc (Suc m)" using 1(2) m by (simp add: bit_length.simps [of n])
    with IH(1,2) m show ?thesis by simp linarith
  qed
qed

lemma bit_length_le:
  assumes "n < 2 ^ k"
  shows "bit_length n \<le> k"
proof (cases "n = 0")
  case True
  then show ?thesis by (simp add: bit_length.simps)
next
  case False
  then have "(2::nat) ^ (bit_length n - 1) < 2 ^ k" using bit_length_bounds [of n] assms by linarith
  then have "bit_length n - 1 < k" by simp
  then show ?thesis by simp
qed

lemma bit_length_eq: "2 ^ k \<le> n \<Longrightarrow> n < 2 ^ Suc k \<Longrightarrow> bit_length n = Suc k"
proof -
  assume n: "2 ^ k \<le> n" "n < 2 ^ Suc k"
  have "n \<noteq> 0" using n(1) by (cases "n = 0") simp_all
  then have "n < 2 ^ bit_length n" using bit_length_bounds by simp
  then have "(2::nat) ^ k < 2 ^ bit_length n" using n(1) by linarith
  then have "k < bit_length n" by simp
  with bit_length_le [OF n(2)] show ?thesis by simp
qed

lemma to_double_exact: "n < 2 ^ 53 \<Longrightarrow> to_double n = n"
  using bit_length_le [of n 53] by (simp add: to_double_def)

lemma takeWhile_digits: "s = [] \<or> \<not> is_digit (hd s) \<Longrightarrow> takeWhile is_digit (show_nat n @ s) = show_nat n"
proof -
  assume s: "s = [] \<or> \<not> is_digit (hd s)"
  have "takeWhile is_digit (show_nat n @ s) = show_nat n @ takeWhile is_digit s"
    by (rule takeWhile_append2) (rule show_nat_digits)
  with s show ?thesis by (cases s) auto
qed

lemma extractAmount_show:
  assumes "n < 2 ^ 53" and "s = [] \<or> \<not> is_digit (hd s)"
  shows "extractAmount (Some (show_nat n @ s)) = (n, s)"
proof -
  obtain c cs where n: "show_nat n = c # cs" by (cases "show_nat n") auto
  have "is_digit c" using show_nat_digits [of c n] n by simp
  then have "dropWhile (Not \<circ> is_digit) (show_nat n @ s) = show_nat n @ s" by (simp add: n)
  then have digits: "first_digits (show_nat n @ s) = Some (show_nat n)"
    using takeWhile_digits [OF assms(2)] by (simp add: first_digits_def)
  moreover have "remove_first (show_nat n) (show_nat n @ s) = s"
    using n by (simp add: startsWith_def)
  ultimately show ?thesis
    by (simp add: extractAmount_def to_double_exact [OF assms(1)])
qed

section \<open>What a run stores\<close>

definition transfers_of :: "('c, 'a) chain_db_scheme \<Rightarrow> int \<Rightarrow> int \<Rightarrow> coin_transfer multiset" where
  "transfers_of db a b =
     (\<Sum>t\<in># filter_mset (\<lambda>t. in_range a b (tx_height t)) (mset (transaction_table db)).
        case tx_transfers db t of Inl _ \<Rightarrow> {#} | Inr rows \<Rightarrow> mset rows)"

lemma rmap_concat_mset:
  "rmap f xs = Inr rows \<Longrightarrow>
     mset (concat rows) = (\<Sum>x\<in># mset xs. case f x of Inl _ \<Rightarrow> {#} | Inr l \<Rightarrow> mset l)"
  by (induction xs arbitrary: rows) (auto simp: rbind_eq_Inr)

lemma fetch_txs:
  assumes "fetchTransactionCTByHeight a b db = Inr txs"
  shows "mset txs = filter_mset (\<lambda>t. in_range a b (tx_height t)) (mset (transaction_table db))"
proof -
  let ?txs = "sort_key tx_id (filter (\<lambda>t. in_range a b (tx_height t)) (transaction_table db))"
  have "txs = ?txs"
    using assms by (auto simp: fetchTransactionCTByHeight_def Let_def split: if_splits)
  then show ?thesis by (simp add: mset_filter)
qed

lemma coin_transfer_work_effect:
  assumes "coin_transfer_work a b db = Inr db'"
  shows "\<exists>rows. db' = db\<lparr>coin_transfers := rows\<rparr> \<and>
    mset rows = mset (coin_transfers db) + transfers_of db a b"
proof -
  from assms obtain txs rows where txs: "fetchTransactionCTByHeight a b db = Inr txs"
    and rows: "rmap (tx_transfers db) txs = Inr rows"
    and db': "db' = db\<lparr>coin_transfers := coin_transfers db @ concat rows\<rparr>"
    by (auto simp: coin_transfer_work_def rbind_eq_Inr)
  have "mset (concat rows) = transfers_of db a b"
    using rmap_concat_mset [OF rows] fetch_txs [OF txs] by (simp add: transfers_of_def)
  with db' show ?thesis by auto
qed

lemma tx_transfers_cong:
  assumes "message_table db' = message_table db" and "event_table db' = event_table db"
  shows "tx_transfers db' t = tx_transfers db t"
  using assms by (simp add: tx_transfers_def messages_of_def msg_events_of_def)

lemma transfers_of_cong:
  assumes "transaction_table db' = transaction_table db" and "message_table db' = message_table db"
    and "event_table db' = event_table db"
  shows "transfers_of db' = transfers_of db"
  using assms tx_transfers_cong [OF assms(2,3)] by (simp add: transfers_of_def fun_eq_iff)

lemma transfers_of_split:
  assumes "a \<le> b" and "b \<le> c"
  shows "transfers_of db a c = transfers_of db a b + transfers_of db b c"
  using filter_mset_range_split [OF assms, of "\<lambda>_. True" tx_height "mset (transaction_table db)"]
  by (simp add: transfers_of_def)

abbreviation stored_transfers :: "('c, 'a) coin_db_scheme \<Rightarrow> coin_transfer multiset" where
  "stored_transfers db \<equiv> mset (coin_transfers db)"

lemma coin_transfer_job_effect:
  assumes "jobHandleTxCoinTransfer cfg db = Inr db'"
  shows "block_checkpoint db' = checkpoint_run cfg HANDLE_COIN_TRANSFER (block_checkpoint db)"
    and "transfers_of db' = transfers_of db"
    and "stored_transfers db' = stored_transfers db +
      (if skips (job_guard HANDLE_COIN_TRANSFER) (job_start cfg HANDLE_COIN_TRANSFER (block_checkpoint db))
          (job_end cfg HANDLE_COIN_TRANSFER (block_checkpoint db)) then {#}
       else transfers_of db (job_start cfg HANDLE_COIN_TRANSFER (block_checkpoint db))
          (job_end cfg HANDLE_COIN_TRANSFER (block_checkpoint db)))"
proof -
  show "block_checkpoint db' = checkpoint_run cfg HANDLE_COIN_TRANSFER (block_checkpoint db)"
    using assms unfolding jobHandleTxCoinTransfer_def
    by (rule range_job_checkpoint) (auto dest: coin_transfer_work_effect)
  note cases = range_job_cases [OF assms [unfolded jobHandleTxCoinTransfer_def]]
  show "transfers_of db' = transfers_of db"
    by (cases rule: cases)
      (auto simp: saveCheckpoint_def dest!: coin_transfer_work_effect intro!: transfers_of_cong)
  show "stored_transfers db' = stored_transfers db +
      (if skips (job_guard HANDLE_COIN_TRANSFER) (job_start cfg HANDLE_COIN_TRANSFER (block_checkpoint db))
          (job_end cfg HANDLE_COIN_TRANSFER (block_checkpoint db)) then {#}
       else transfers_of db (job_start cfg HANDLE_COIN_TRANSFER (block_checkpoint db))
          (job_end cfg HANDLE_COIN_TRANSFER (block_checkpoint db)))"
    by (cases rule: cases) (auto simp: saveCheckpoint_def dest!: coin_transfer_work_effect)
qed

interpretation coin_transfer_job: appending_job cfg HANDLE_COIN_TRANSFER "jobHandleTxCoinTransfer cfg"
    "\<lambda>_. True" "\<lambda>db. transfers_of db" "\<lambda>db. stored_transfers db"
  for cfg
  by unfold_locales
    (auto simp: coin_transfer_job_effect HANDLE_COIN_TRANSFER_def [THEN arg_cong, of job_guard] skips_def
      intro: transfers_of_split)

section \<open>Properties\<close>

definition sample_transfer_event :: event_row where
  "sample_transfer_event =
     \<lparr>evt_id = 1, evt_tx_id = Some 1, evt_tx_msg_index = Some 0, evt_type = ''transfer'', evt_block_height = 1,
      evt_source = TX_EVENT,
      evt_attributes = [\<lparr>attr_index = 0, attr_key = Some ''recipient'', attr_value = Some ''aura1b''\<rparr>,
                        \<lparr>attr_index = 1, attr_key = Some ''sender'', attr_value = Some ''aura1a''\<rparr>,
                        \<lparr>attr_index = 2, attr_key = Some ''amount'', attr_value = Some ''25uaura''\<rparr>]\<rparr>"

definition sample_message :: "string message_row" where
  "sample_message =
     \<lparr>msg_id = 9, msg_tx_id = 1, msg_index = 0, msg_type = ''/send'', msg_sender = ''aura1a'', msg_content = ''c'',
      msg_parent_id = None\<rparr>"

definition sample_coin_db :: "string coin_db" where
  "sample_coin_db =
     \<lparr>block_checkpoint = [''handle:transaction'' \<mapsto> 5], block_table = [],
      transaction_table = transaction_table sample_stored_tx_db, transaction_seq = 2,
      event_table = [sample_transfer_event], event_seq = 2, message_table = [sample_message], message_seq = 10,
      coin_transfers = []\<rparr>"

lemma single_transfer:
  assumes "evt_type e = ''transfer''" and "evt_tx_msg_index e = Some idx" and "js_nth messages idx = Some m"
    and "length (evt_attributes e) = 3"
    and "attr_lookup (evt_attributes e) ''sender'' = Some (Some src)"
    and "attr_lookup (evt_attributes e) ''recipient'' = Some (Some dst)"
    and "attr_lookup (evt_attributes e) ''amount'' = Some (Some amount)"
    and "extractAmount (Some amount) = (n, denom)" and "n < 2 ^ 53"
  shows "event_transfers tx messages events e =
    Inr [\<lparr>ct_block_height = tx_height tx, ct_tx_id = tx_id tx, ct_tx_msg_id = msg_id m,
          ct_from = src, ct_to = dst, ct_amount = n, ct_denom = denom, ct_timestamp = tx_timestamp tx\<rparr>]"
  using assms by (simp add: event_transfers_def coin_transfer_fromJson_def null_text_def number_text_value_def)

text \<open>
  A transfer event of a message with one sender, one recipient and one amount below
  2^53 of one denomination becomes exactly one row with that sender, recipient, amount and
  denomination, whatever the order of the three attributes.
\<close>

theorem event_transfers_single:
  assumes "evt_type e = ''transfer''" and "evt_tx_msg_index e = Some idx" and "idx < length messages"
    and "length (evt_attributes e) = 3"
    and "attr_lookup (evt_attributes e) ''sender'' = Some (Some src)"
    and "attr_lookup (evt_attributes e) ''recipient'' = Some (Some dst)"
    and "attr_lookup (evt_attributes e) ''amount'' = Some (Some (show_nat n @ denom))"
    and "n < 2 ^ 53" and "denom = [] \<or> \<not> is_digit (hd denom)"
  shows "event_transfers tx messages events e =
    Inr [\<lparr>ct_block_height = tx_height tx, ct_tx_id = tx_id tx, ct_tx_msg_id = msg_id (messages ! idx),
          ct_from = src, ct_to = dst, ct_amount = n, ct_denom = denom, ct_timestamp = tx_timestamp tx\<rparr>]"
proof -
  have "js_nth messages idx = Some (messages ! idx)" unfolding js_nth_def using assms(3) by simp
  from single_transfer [OF assms(1,2) this assms(4-7) extractAmount_show [OF assms(8,9)] assms(8)] show ?thesis .
qed

theorem event_transfers_single_witness:
  "event_transfers (hd (transaction_table sample_coin_db)) [sample_message] [sample_transfer_event] sample_transfer_event =
     Inr [\<lparr>ct_block_height = 1, ct_tx_id = 1, ct_tx_msg_id = 9, ct_from = ''aura1a'', ct_to = ''aura1b'',
           ct_amount = 25, ct_denom = ''uaura'', ct_timestamp = ''t''\<rparr>]"
proof -
  have n: "show_nat 25 @ ''uaura'' = ''25uaura''" by code_simp
  have "evt_type sample_transfer_event = ''transfer''" "evt_tx_msg_index sample_transfer_event = Some 0"
    "0 < length [sample_message]" "length (evt_attributes sample_transfer_event) = 3"
    "attr_lookup (evt_attributes sample_transfer_event) ''sender'' = Some (Some ''aura1a'')"
    "attr_lookup (evt_attributes sample_transfer_event) ''recipient'' = Some (Some ''aura1b'')"
    "attr_lookup (evt_attributes sample_transfer_event) ''amount'' = Some (Some (show_nat 25 @ ''uaura''))"
    "(25::nat) < 2 ^ 53" "''uaura'' = [] \<or> \<not> is_digit (hd ''uaura'')"
    unfolding n by (simp_all add: sample_transfer_event_def attr_lookup_def is_digit_def)
  note row = event_transfers_single [OF this]
  show ?thesis
    unfolding row by (simp add: sample_coin_db_def sample_stored_tx_db_def sample_message_def)
qed

text \<open>
  Amounts of 2^53 and more are rounded, because they pass through a JavaScript number:
  the amount 9007199254740993 of an event is read as 9007199254740992.
\<close>

theorem extractAmount_rounds:
  "extractAmount (Some ''9007199254740993uaura'') = (9007199254740992, ''uaura'')"
proof -
  have "bit_length 9007199254740993 = Suc 53" by (rule bit_length_eq) simp_all
  then have "to_double 9007199254740993 = 9007199254740992" by (simp add: to_double_def Let_def)
  then show ?thesis
    by (simp add: extractAmount_def first_digits_def is_digit_def digits_value_def digit_value_def startsWith_def)
qed

text \<open>
  For a text without digits the function returns the whole text as the denomination, where
  its comment announces the empty text.
\<close>

theorem extractAmount_invalid:
  assumes "\<forall>c\<in>set s. \<not> is_digit c"
  shows "extractAmount (Some s) = (0, s)"
proof -
  have "dropWhile (Not \<circ> is_digit) s = []" using assms by (simp add: dropWhile_eq_Nil_conv)
  then have "first_digits s = None" unfolding first_digits_def by (simp only: takeWhile.simps Let_def if_True refl)
  moreover have "remove_first ''0'' t = t" if "CHR ''0'' \<notin> set t" for t
    using that by (induction t) (auto simp: startsWith_def)
  moreover have "CHR ''0'' \<notin> set s" using assms by (auto simp: is_digit_def)
  ultimately show ?thesis
    by (simp add: extractAmount_def digits_value_def digit_value_def to_double_exact)
qed

theorem extractAmount_invalid_witness: "extractAmount (Some ''uaura'') = (0, ''uaura'')"
  by (rule extractAmount_invalid) (simp add: is_digit_def)

text \<open>
  However the coin transfer job interleaves with the other jobs, the transfers stored are
  those stored at first and, exactly once each, those of the transactions of the heights passed
  since.
\<close>

theorem coin_transfer_exactly_once:
  assumes "job_trace (jobHandleTxCoinTransfer cfg) (\<lambda>_. True)
      (settled_env (\<lambda>db. job_start cfg HANDLE_COIN_TRANSFER (block_checkpoint db))
        (\<lambda>db. mset (coin_transfers db)) transfers_of) db0 db"
  shows "mset (coin_transfers db) = mset (coin_transfers db0) +
    transfers_of db (job_start cfg HANDLE_COIN_TRANSFER (block_checkpoint db0))
      (job_start cfg HANDLE_COIN_TRANSFER (block_checkpoint db))"
  using coin_transfer_job.exactly_once [OF assms] by simp

lemma sample_fetch: "fetchTransactionCTByHeight 0 5 sample_coin_db = Inr (transaction_table sample_coin_db)"
  by (simp add: fetchTransactionCTByHeight_def sample_coin_db_def sample_stored_tx_db_def in_range_def
      sample_transfer_event_def)

lemma sample_transfers: "\<exists>row. tx_transfers sample_coin_db (hd (transaction_table sample_coin_db)) = Inr [row] \<and>
    rmap (tx_transfers sample_coin_db) (transaction_table sample_coin_db) = Inr [[row]]"
proof -
  have amount: "extractAmount (Some ''25uaura'') = (25, ''uaura'')"
  proof -
    have "show_nat 25 @ ''uaura'' = ''25uaura''" by code_simp
    then show ?thesis using extractAmount_show [of 25 "''uaura''"] by (simp add: is_digit_def)
  qed
  have one: "\<exists>row. event_transfers tx [sample_message] [sample_transfer_event] sample_transfer_event = Inr [row]"
    for tx :: "string transaction_row"
  proof (rule exI, rule single_transfer [OF _ _ _ _ _ _ _ amount])
    show "js_nth [sample_message] 0 = Some sample_message" unfolding js_nth_def by simp
  qed (simp_all add: sample_transfer_event_def attr_lookup_def)
  let ?tx = "hd (transaction_table sample_coin_db)"
  have "messages_of sample_coin_db ?tx = [sample_message]" "msg_events_of sample_coin_db ?tx = [sample_transfer_event]"
    by (simp_all add: messages_of_def msg_events_of_def sample_coin_db_def sample_stored_tx_db_def
        sample_message_def sample_transfer_event_def)
  then have "\<exists>row. tx_transfers sample_coin_db ?tx = Inr [row]"
    using one [of ?tx] by (auto simp: tx_transfers_def)
  moreover have "transaction_table sample_coin_db = [?tx]" by (simp add: sample_coin_db_def sample_stored_tx_db_def)
  ultimately show ?thesis by (metis (no_types, lifting) rbind_Inr rmap.simps)
qed

theorem coin_transfer_exactly_once_witness:
  "\<exists>db. jobHandleTxCoinTransfer (tx_base_config sample_tx_config) sample_coin_db = Inr db \<and>
     size (mset (coin_transfers db)) = 1"
proof -
  let ?cfg = "tx_base_config sample_tx_config"
  let ?start = "\<lambda>db. job_start ?cfg HANDLE_COIN_TRANSFER (block_checkpoint db)"
  have range: "?start sample_coin_db = 0" "job_end ?cfg HANDLE_COIN_TRANSFER (block_checkpoint sample_coin_db) = 5"
    by code_simp+
  obtain db where run: "jobHandleTxCoinTransfer ?cfg sample_coin_db = Inr db"
  proof -
    have "\<exists>db. coin_transfer_work 0 5 sample_coin_db = Inr db"
      using sample_transfers by (auto simp: coin_transfer_work_def sample_fetch)
    then obtain d where "coin_transfer_work 0 5 sample_coin_db = Inr d" ..
    with range that show thesis
      by (cases "jobHandleTxCoinTransfer ?cfg sample_coin_db")
        (auto simp: jobHandleTxCoinTransfer_def range_job_unfold split: if_splits)
  qed
  have trace: "job_trace (jobHandleTxCoinTransfer ?cfg) (\<lambda>_. True)
      (settled_env ?start (\<lambda>db. mset (coin_transfers db)) transfers_of) sample_coin_db db"
    using run by (intro trace_one) simp_all
  have "?start db = 5"
    using range coin_transfer_job_effect(1) [OF run]
    by (simp add: job_start_checkpoint_run skips_def HANDLE_COIN_TRANSFER_def [THEN arg_cong, of job_guard])
  moreover have "size (transfers_of sample_coin_db 0 5) = 1" "coin_transfers sample_coin_db = []"
    using sample_transfers
    by (auto simp: transfers_of_def in_range_def sample_coin_db_def [THEN arg_cong, of transaction_table]
        sample_coin_db_def [THEN arg_cong, of coin_transfers] sample_stored_tx_db_def)
  ultimately have "mset (coin_transfers db) = transfers_of sample_coin_db 0 5"
    and "size (transfers_of sample_coin_db 0 5) = 1"
    using range coin_transfer_job_effect(2) [OF run] coin_transfer_exactly_once [OF trace] by auto
  with run show ?thesis by metis
qed

end
