(* ===== verification/Json.thy ===== *)
theory Json
  imports Prelude
begin

text \<open>
  JSON values as the indexer stores them in \<^verbatim>\<open>jsonb\<close> columns, property access with JavaScript's
  errors, and the coercions of the models' validator (\<^verbatim>\<open>coerceTypes\<close> in \<^verbatim>\<open>src/models/base.ts\<close>).
\<close>

datatype json =
    JNull
  | JBool bool
  | JNum int
  | JStr string
  | JArr "json list"
  | JObj "(string \<times> json) list"

text \<open>\<^verbatim>\<open>value.key\<close>: reading a property of null throws; a property that is not there is undefined.\<close>

definition json_get :: "json \<Rightarrow> string \<Rightarrow> json option res" where
  "json_get j k = (case j of JNull \<Rightarrow> Inl TypeError | JObj kvs \<Rightarrow> Inr (map_of kvs k) | _ \<Rightarrow> Inr None)"

text \<open>\<^verbatim>\<open>value?.key\<close>\<close>

definition json_opt :: "json option \<Rightarrow> string \<Rightarrow> json option" where
  "json_opt v k = (case v of Some (JObj kvs) \<Rightarrow> map_of kvs k | _ \<Rightarrow> None)"

text \<open>JavaScript truthiness of a value that may be missing.\<close>

definition json_truthy :: "json option \<Rightarrow> bool" where
  "json_truthy v \<longleftrightarrow>
     (case v of None \<Rightarrow> False | Some JNull \<Rightarrow> False | Some (JBool b) \<Rightarrow> b | Some (JNum n) \<Rightarrow> n \<noteq> 0
      | Some (JStr s) \<Rightarrow> s \<noteq> [] | _ \<Rightarrow> True)"

text \<open>The values inside an object or an array.\<close>

fun children :: "json \<Rightarrow> json list" where
  "children (JObj kvs) = map snd kvs"
| "children (JArr xs) = xs"
| "children _ = []"

lemma size_children: "v \<in> set (children j) \<Longrightarrow> size v < size j"
proof (cases j)
  case (JArr xs)
  then show "v \<in> set (children j) \<Longrightarrow> size v < size j" using size_list_estimation' [of v xs "size v" size] by auto
next
  case (JObj kvs)
  assume v: "v \<in> set (children j)"
  with JObj obtain k where "(k, v) \<in> set kvs" by auto
  then have "size_prod (\<lambda>_. 0) size (k, v) \<le> size_list (size_prod (\<lambda>_. 0) size) kvs"
    by (rule size_list_estimation') simp
  with JObj show "size v < size j" by simp
qed simp_all

lemma rmap_cong [fundef_cong]: "xs = ys \<Longrightarrow> (\<And>x. x \<in> set ys \<Longrightarrow> f x = g x) \<Longrightarrow> rmap f xs = rmap g ys"
  by (induction xs arbitrary: ys) auto

text \<open>Only whole decimal text is accepted where a number is expected.\<close>

definition number_of_text :: "string \<Rightarrow> int option" where
  "number_of_text s =
     (case s of
        [] \<Rightarrow> None
      | c # cs \<Rightarrow>
          if c = CHR ''-'' then (if cs \<noteq> [] \<and> list_all is_digit cs then Some (- int (digits_value cs)) else None)
          else if list_all is_digit s then Some (int (digits_value s)) else None)"

definition as_string :: "json option \<Rightarrow> string res" where
  "as_string v =
     (case v of
        None \<Rightarrow> Inl (ValidationError ''required'')
      | Some j \<Rightarrow>
          (case j of
             JStr s \<Rightarrow> Inr s
           | JNum n \<Rightarrow> Inr (show_int n)
           | JBool b \<Rightarrow> Inr (if b then ''true'' else ''false'')
           | JNull \<Rightarrow> Inr []
           | _ \<Rightarrow> Inl (ValidationError ''must be string'')))"

definition as_number :: "json option \<Rightarrow> int res" where
  "as_number v =
     (case v of
        None \<Rightarrow> Inl (ValidationError ''required'')
      | Some j \<Rightarrow>
          (case j of
             JNum n \<Rightarrow> Inr n
           | JStr s \<Rightarrow> (case number_of_text s of None \<Rightarrow> Inl (ValidationError ''must be number'') | Some n \<Rightarrow> Inr n)
           | JBool b \<Rightarrow> Inr (if b then 1 else 0)
           | JNull \<Rightarrow> Inr 0
           | _ \<Rightarrow> Inl (ValidationError ''must be number'')))"

text \<open>
  The database driver: the text of a value in a column of text, and the number a numeric column makes
  of a text (\<open>None\<close> when it rejects it).
\<close>

record column_ext =
  column_text :: "json \<Rightarrow> string"
  column_numeric :: "string \<Rightarrow> int option"

definition text_value :: "'x column_ext_scheme \<Rightarrow> json option \<Rightarrow> string option" where
  "text_value ext v = (case v of None \<Rightarrow> None | Some JNull \<Rightarrow> None | Some j \<Rightarrow> Some (column_text ext j))"

definition numeric_value :: "'x column_ext_scheme \<Rightarrow> json option \<Rightarrow> int option res" where
  "numeric_value ext v =
     (case text_value ext v of
        None \<Rightarrow> Inr None
      | Some s \<Rightarrow>
          (case column_numeric ext s of
             None \<Rightarrow> Inl (DbError ''invalid input syntax for type numeric'')
           | Some n \<Rightarrow> Inr (Some n)))"

lemma as_simps [simp]:
  "as_string (Some (JStr s)) = Inr s" "as_number (Some (JNum n)) = Inr n"
  by (simp_all add: as_string_def as_number_def)

lemma number_of_text_show_nat [simp]: "number_of_text (show_nat n) = Some (int n)"
proof -
  obtain c cs where n: "show_nat n = c # cs" by (cases "show_nat n") auto
  have "is_digit c" using show_nat_digits [of c n] n by simp
  then have "c \<noteq> CHR ''-''" by (auto simp: is_digit_def)
  moreover have "list_all is_digit (show_nat n)" by (auto simp: list_all_iff show_nat_digits)
  moreover have "digits_value (c # cs) = n" using n digits_value_show_nat by metis
  ultimately show ?thesis by (simp add: number_of_text_def n)
qed

end
