(* ===== verification/Votes.thy ===== *)
theory Votes
  imports Crawl_Tx Json
begin

text \<open>
  Jobs over stored messages: the messages inside an authorised execution
  (\<^verbatim>\<open>src/services/crawl-tx/handle_authz_tx.service.ts\<close>), the votes of governance proposals
  (\<^verbatim>\<open>src/services/handle-vote/handle_vote_tx.service.ts\<close>) and their counts
  (\<^verbatim>\<open>src/services/crawl-proposal/count_vote_proposal.service.ts\<close>).
\<close>

section \<open>Messages inside an authorised execution\<close>

definition MSG_AUTHZ_EXEC :: string where "MSG_AUTHZ_EXEC = ''/cosmos.authz.v1beta1.MsgExec''"

definition HANDLE_AUTHZ_TX :: job_decl where
  "HANDLE_AUTHZ_TX =
     \<lparr>job_name = ''handle:authz-tx'', lastHeightJobNames = [''handle:transaction''],
      configName = Some ''handleAuthzTx'', job_guard = SkipGT\<rparr>"

text \<open>The inner join of a message with its transaction.\<close>

definition tx_of :: "('c, 'a) chain_db_scheme \<Rightarrow> 'c message_row \<Rightarrow> 'c transaction_row option" where
  "tx_of db m = find (\<lambda>t. tx_id t = msg_tx_id m) (transaction_table db)"

definition msg_in_range :: "int \<Rightarrow> int \<Rightarrow> ('c, 'a) chain_db_scheme \<Rightarrow> 'c message_row \<Rightarrow> bool" where
  "msg_in_range a b db m = (case tx_of db m of None \<Rightarrow> False | Some t \<Rightarrow> in_range a b (tx_height t))"

text \<open>
  The callbacks of \<^verbatim>\<open>forEach\<close> are asynchronous: what one throws (no list of messages, a message
  without a type) rejects its own promise and the loop goes on with the next.
\<close>

definition sub_message :: "json message_row \<Rightarrow> nat \<times> json \<Rightarrow> (int \<Rightarrow> json message_row) option" where
  "sub_message txMsg im =
     try_undefined
       (rbind (json_get (snd im) ''@type'') (\<lambda>type.
        rbind (as_string type) (\<lambda>type.
          Inr (\<lambda>i. \<lparr>msg_id = i, msg_tx_id = msg_tx_id txMsg, msg_index = fst im, msg_type = type,
                    msg_sender = msg_sender txMsg, msg_content = snd im, msg_parent_id = Some (msg_id txMsg)\<rparr>))))"

definition sub_messages :: "json message_row \<Rightarrow> (int \<Rightarrow> json message_row) list" where
  "sub_messages txMsg =
     (case json_opt (Some (msg_content txMsg)) ''msgs'' of
        Some (JArr msgs) \<Rightarrow> List.map_filter (sub_message txMsg) (zip [0..<length msgs] msgs)
      | _ \<Rightarrow> [])"

definition authz_messages ::
  "int \<Rightarrow> int \<Rightarrow> (json, 'a) chain_db_scheme \<Rightarrow> json message_row list"
where
  "authz_messages startB endB db =
     filter (\<lambda>m. msg_in_range startB endB db m \<and> msg_type m = MSG_AUTHZ_EXEC \<and> msg_parent_id m = None)
       (message_table db)"

definition authz_work :: "int \<Rightarrow> int \<Rightarrow> (json, 'a) chain_db_scheme \<Rightarrow> (json, 'a) chain_db_scheme res" where
  "authz_work startB endB db =
     (let listSubTxAuthz = concat (map sub_messages (authz_messages startB endB db)) in
      Inr (db\<lparr>message_table := message_table db @ number_messages (message_seq db) listSubTxAuthz,
              message_seq := message_seq db + int (length listSubTxAuthz)\<rparr>))"

definition handle_authz_job :: "config \<Rightarrow> (json, 'a) chain_db_scheme \<Rightarrow> (json, 'a) chain_db_scheme res" where
  "handle_authz_job cfg = range_job cfg HANDLE_AUTHZ_TX authz_work"

section \<open>Votes\<close>

definition MSG_VOTE :: string where "MSG_VOTE = ''/cosmos.gov.v1beta1.MsgVote''"
definition MSG_VOTE_V1 :: string where "MSG_VOTE_V1 = ''/cosmos.gov.v1.MsgVote''"

record vote =
  v_voter :: string
  v_txhash :: string
  v_vote_option :: string
  v_proposal_id :: int
  v_height :: int
  v_tx_id :: int

text \<open>The pair of voter and proposal is unique, which \<open>upsert_vote\<close> maintains.\<close>

record vote_db = "json chain_db" +
  votes :: "vote list"

definition HANDLE_VOTE_TX :: job_decl where
  "HANDLE_VOTE_TX =
     \<lparr>job_name = ''handle:vote-tx'', lastHeightJobNames = [''handle:authz-tx''],
      configName = Some ''handleVoteTx'', job_guard = SkipGT\<rparr>"

definition vote_messages ::
  "int \<Rightarrow> int \<Rightarrow> (json, 'a) chain_db_scheme \<Rightarrow> (json message_row \<times> json transaction_row) list"
where
  "vote_messages startB endB db =
     sort_key (\<lambda>(m, t). (tx_height t, msg_index m))
       (List.map_filter
         (\<lambda>m. case tx_of db m of
                None \<Rightarrow> None
              | Some t \<Rightarrow>
                  if in_range startB endB (tx_height t) \<and> msg_type m \<in> {MSG_VOTE, MSG_VOTE_V1} \<and> tx_code t = 0
                  then Some (m, t) else None)
         (message_table db))"

definition vote_fromJson :: "json message_row \<times> json transaction_row \<Rightarrow> vote res" where
  "vote_fromJson mt =
     (let (m, t) = mt; content = msg_content m in
      rbind (json_get content ''voter'') (\<lambda>voter.
      rbind (json_get content ''proposal_id'') (\<lambda>proposal_id.
      rbind (json_get content ''option'') (\<lambda>opt.
      rbind (as_string voter) (\<lambda>voter.
      rbind (as_number proposal_id) (\<lambda>proposal_id.
      rbind (as_string opt) (\<lambda>opt.
        Inr \<lparr>v_voter = voter, v_txhash = tx_hash t, v_vote_option = opt, v_proposal_id = proposal_id,
             v_height = tx_height t, v_tx_id = msg_tx_id m\<rparr>)))))))"

abbreviation vote_key :: "vote \<Rightarrow> int \<times> string" where
  "vote_key v \<equiv> (v_proposal_id v, v_voter v)"

text \<open>
  \<^verbatim>\<open>insert(vote).onConflict(['proposal_id', 'voter']).merge([...]).where('vote.height', '<=', vote.height)\<close>
\<close>

definition merge_vote :: "vote \<Rightarrow> vote \<Rightarrow> vote" where
  "merge_vote v old =
     (if v_height old \<le> v_height v
      then old\<lparr>v_vote_option := v_vote_option v, v_height := v_height v, v_tx_id := v_tx_id v,
               v_txhash := v_txhash v\<rparr>
      else old)"

definition upsert_vote :: "vote \<Rightarrow> vote list \<Rightarrow> vote list" where
  "upsert_vote v tbl =
     (if vote_key v \<in> set (map vote_key tbl)
      then map (\<lambda>old. if vote_key old = vote_key v then merge_vote v old else old) tbl
      else tbl @ [v])"

definition vote_work :: "int \<Rightarrow> int \<Rightarrow> 'a vote_db_scheme \<Rightarrow> 'a vote_db_scheme res" where
  "vote_work startB endB db =
     rbind (rmap vote_fromJson (vote_messages startB endB db)) (\<lambda>votesInsert.
       Inr (db\<lparr>votes := fold upsert_vote votesInsert (votes db)\<rparr>))"

definition handleVote :: "config \<Rightarrow> 'a vote_db_scheme \<Rightarrow> 'a vote_db_scheme res" where
  "handleVote cfg = range_job cfg HANDLE_VOTE_TX vote_work"

section \<open>Counting\<close>

record count_vote =
  cv_yes :: nat
  cv_no :: nat
  cv_abstain :: nat
  cv_no_with_veto :: nat
  cv_unspecified :: nat

record proposal =
  p_proposal_id :: int
  p_status :: string
  p_voting_end_time :: "int option"
  p_count_vote :: "count_vote option"
  p_vote_counted :: bool

text \<open>The vote rows of the table, by proposal and option.\<close>

definition count_option :: "vote list \<Rightarrow> int \<Rightarrow> string \<Rightarrow> nat" where
  "count_option tbl pid opt = length (filter (\<lambda>v. v_proposal_id v = pid \<and> v_vote_option v = opt) tbl)"

definition is_counted_now :: "int \<Rightarrow> proposal \<Rightarrow> bool" where
  "is_counted_now latestTime p \<longleftrightarrow>
     p_status p = ''PROPOSAL_STATUS_VOTING_PERIOD'' \<or>
     (p_status p \<in> {''PROPOSAL_STATUS_FAILED'', ''PROPOSAL_STATUS_PASSED'', ''PROPOSAL_STATUS_REJECTED''} \<and>
      (case p_voting_end_time p of None \<Rightarrow> False | Some t \<Rightarrow> t \<le> latestTime) \<and> \<not> p_vote_counted p)"

text \<open>\<^verbatim>\<open>new Date(null)\<close> is the epoch.\<close>

definition count_proposal :: "vote list \<Rightarrow> int \<Rightarrow> proposal \<Rightarrow> proposal" where
  "count_proposal tbl latestTime p =
     (let pid = p_proposal_id p in
      p\<lparr>p_count_vote := Some
          \<lparr>cv_yes = count_option tbl pid ''VOTE_OPTION_YES'', cv_no = count_option tbl pid ''VOTE_OPTION_NO'',
           cv_abstain = count_option tbl pid ''VOTE_OPTION_ABSTAIN'',
           cv_no_with_veto = count_option tbl pid ''VOTE_OPTION_NO_WITH_VETO'',
           cv_unspecified = count_option tbl pid ''VOTE_OPTION_UNSPECIFIED''\<rparr>,
        p_vote_counted := ((case p_voting_end_time p of None \<Rightarrow> 0 | Some t \<Rightarrow> t) \<le> latestTime)\<rparr>)"

definition latestCheckpointTime :: "(string \<Rightarrow> int) \<Rightarrow> int \<Rightarrow> 'a vote_db_scheme \<Rightarrow> int" where
  "latestCheckpointTime date_of now db =
     (case block_checkpoint db (job_name HANDLE_VOTE_TX) of
        None \<Rightarrow> now - 10
      | Some h \<Rightarrow>
          (case find (\<lambda>b. blk_height b = h) (block_table db) of
             None \<Rightarrow> now - 10
           | Some b \<Rightarrow> date_of (blk_time b)))"

definition count_vote_job ::
  "(string \<Rightarrow> int) \<Rightarrow> int \<Rightarrow> 'a vote_db_scheme \<Rightarrow> proposal list \<Rightarrow> proposal list"
where
  "count_vote_job date_of now db proposals =
     (let t = latestCheckpointTime date_of now db in
      map (\<lambda>p. if is_counted_now t p then count_proposal (votes db) t p else p) proposals)"

section \<open>Sub-messages are stored once\<close>

text \<open>Rows up to the ids that the sequence assigns.\<close>

definition subs_of :: "(json, 'a) chain_db_scheme \<Rightarrow> int \<Rightarrow> int \<Rightarrow> json message_row multiset" where
  "subs_of db a b =
     (\<Sum>m\<in># mset (authz_messages a b db). mset (map (\<lambda>f. f 0) (sub_messages m)))"

definition stored_subs :: "(json, 'a) chain_db_scheme \<Rightarrow> json message_row multiset" where
  "stored_subs db =
     image_mset (\<lambda>m. m\<lparr>msg_id := 0\<rparr>) (filter_mset (\<lambda>m. msg_parent_id m \<noteq> None) (mset (message_table db)))"

lemma sub_messages_shape:
  "f \<in> set (sub_messages m) \<Longrightarrow> (\<forall>i. msg_parent_id (f i) = Some (msg_id m) \<and> (f i)\<lparr>msg_id := 0\<rparr> = f 0)"
  by (auto simp: sub_messages_def sub_message_def set_map_filter_Some rbind_eq_Inr split: option.splits json.splits)

lemma number_messages_subs:
  assumes "\<And>f. f \<in> set fs \<Longrightarrow> (\<forall>i. msg_parent_id (f i) \<noteq> None \<and> (f i)\<lparr>msg_id := 0\<rparr> = f 0)"
  shows "image_mset (\<lambda>m. m\<lparr>msg_id := 0\<rparr>)
      (filter_mset (\<lambda>m. msg_parent_id m \<noteq> None) (mset (number_messages n fs))) = mset (map (\<lambda>f. f 0) fs)"
    and "filter (\<lambda>m. msg_parent_id m = None) (number_messages n fs) = []"
proof -
  have all: "\<forall>m\<in>set (number_messages n fs). msg_parent_id m \<noteq> None"
    using assms by (auto simp: number_messages_def dest!: set_zip_rightD)
  then show "filter (\<lambda>m. msg_parent_id m = None) (number_messages n fs) = []" by (simp add: filter_empty_conv)
  from all have "filter_mset (\<lambda>m. msg_parent_id m \<noteq> None) (mset (number_messages n fs)) = mset (number_messages n fs)"
    by (simp flip: mset_filter)
  moreover have "map (\<lambda>m. m\<lparr>msg_id := 0\<rparr>) (number_messages n fs) = map (\<lambda>f. f 0) fs"
    unfolding number_messages_def map_map
    using assms by (subst map_zip_upt_const [symmetric, where ks = "[0..<length fs]"
          and G = "\<lambda>k f. (f (n + int k))\<lparr>msg_id := 0\<rparr>"]) (auto simp: comp_def split_def)
  ultimately show "image_mset (\<lambda>m. m\<lparr>msg_id := 0\<rparr>)
      (filter_mset (\<lambda>m. msg_parent_id m \<noteq> None) (mset (number_messages n fs))) = mset (map (\<lambda>f. f 0) fs)"
    by (metis mset_map)
qed

lemma authz_messages_alt:
  "authz_messages a b db = filter (\<lambda>m. msg_in_range a b db m \<and> msg_type m = MSG_AUTHZ_EXEC)
     (filter (\<lambda>m. msg_parent_id m = None) (message_table db))"
  by (simp add: authz_messages_def conj_ac)

lemma authz_messages_top:
  assumes "transaction_table db' = transaction_table db"
    and "filter (\<lambda>m. msg_parent_id m = None) (message_table db') = filter (\<lambda>m. msg_parent_id m = None) (message_table db)"
  shows "authz_messages a b db' = authz_messages a b db"
  unfolding authz_messages_alt assms(2) by (simp add: msg_in_range_def tx_of_def assms(1))

lemma authz_work_effect:
  assumes "authz_work a b db = Inr db'"
  shows "stored_subs db' = stored_subs db + subs_of db a b" and "subs_of db' = subs_of db"
    and "block_checkpoint db' = block_checkpoint db"
proof -
  let ?fs = "concat (map sub_messages (authz_messages a b db))"
  have db': "db' = db\<lparr>message_table := message_table db @ number_messages (message_seq db) ?fs,
      message_seq := message_seq db + int (length ?fs)\<rparr>"
    using assms by (simp add: authz_work_def Let_def)
  have shape: "\<forall>i. msg_parent_id (f i) \<noteq> None \<and> (f i)\<lparr>msg_id := 0\<rparr> = f 0" if "f \<in> set ?fs" for f
    using that by (auto dest: sub_messages_shape)
  note num = number_messages_subs [where fs = ?fs and n = "message_seq db", OF shape]
  have "mset (map (\<lambda>f. f 0) ?fs) = subs_of db a b"
    by (simp add: subs_of_def map_concat mset_concat comp_def flip: mset_map sum_mset_sum_list)
  then show "stored_subs db' = stored_subs db + subs_of db a b"
    using num(1) by (simp add: stored_subs_def db' del: set_concat)
  have "authz_messages c d db' = authz_messages c d db" for c d
    using num(2) by (intro authz_messages_top) (simp_all add: db' del: set_concat)
  then show "subs_of db' = subs_of db" by (simp add: subs_of_def fun_eq_iff)
  show "block_checkpoint db' = block_checkpoint db" by (simp add: db')
qed

lemma subs_of_split:
  assumes "a \<le> b" and "b \<le> c"
  shows "subs_of db a c = subs_of db a b + subs_of db b c"
proof -
  have "mset (authz_messages a c db) = mset (authz_messages a b db) + mset (authz_messages b c db)"
    unfolding authz_messages_def msg_in_range_def
    unfolding mset_filter
    by (rule multiset_eqI) (use assms in \<open>auto simp: in_range_def split: option.splits\<close>)
  then show ?thesis by (simp add: subs_of_def)
qed

lemma authz_saved:
  "subs_of (saveCheckpoint row db) = subs_of db" "stored_subs (saveCheckpoint row db) = stored_subs db"
  by (simp_all add: subs_of_def stored_subs_def saveCheckpoint_def fun_eq_iff authz_messages_def msg_in_range_def tx_of_def)

lemma handle_authz_effect:
  assumes "handle_authz_job cfg db = Inr db'"
  shows "block_checkpoint db' = checkpoint_run cfg HANDLE_AUTHZ_TX (block_checkpoint db)"
    and "subs_of db' = subs_of db"
    and "stored_subs db' = stored_subs db +
      (if skips (job_guard HANDLE_AUTHZ_TX) (job_start cfg HANDLE_AUTHZ_TX (block_checkpoint db))
          (job_end cfg HANDLE_AUTHZ_TX (block_checkpoint db)) then {#}
       else subs_of db (job_start cfg HANDLE_AUTHZ_TX (block_checkpoint db)) (job_end cfg HANDLE_AUTHZ_TX (block_checkpoint db)))"
proof -
  show "block_checkpoint db' = checkpoint_run cfg HANDLE_AUTHZ_TX (block_checkpoint db)"
    using assms unfolding handle_authz_job_def by (rule range_job_checkpoint) (rule authz_work_effect(3))
  note cases = range_job_cases [OF assms [unfolded handle_authz_job_def]]
  show "subs_of db' = subs_of db"
    by (cases rule: cases) (auto simp: authz_saved dest: authz_work_effect(2))
  show "stored_subs db' = stored_subs db +
      (if skips (job_guard HANDLE_AUTHZ_TX) (job_start cfg HANDLE_AUTHZ_TX (block_checkpoint db))
          (job_end cfg HANDLE_AUTHZ_TX (block_checkpoint db)) then {#}
       else subs_of db (job_start cfg HANDLE_AUTHZ_TX (block_checkpoint db)) (job_end cfg HANDLE_AUTHZ_TX (block_checkpoint db)))"
    by (cases rule: cases) (auto simp: authz_saved dest: authz_work_effect(1))
qed

interpretation authz_job: appending_job cfg HANDLE_AUTHZ_TX "handle_authz_job cfg" "\<lambda>_. True"
    "\<lambda>db. subs_of db" "\<lambda>db. stored_subs db"
  for cfg
  by unfold_locales
    (auto simp: handle_authz_effect HANDLE_AUTHZ_TX_def [THEN arg_cong, of job_guard] skips_def intro: subs_of_split)

section \<open>The stored vote is the newest\<close>

definition votes_ok :: "vote list \<Rightarrow> bool" where
  "votes_ok tbl \<longleftrightarrow> distinct (map vote_key tbl)"

definition vote_of :: "vote list \<Rightarrow> int \<times> string \<Rightarrow> vote option" where
  "vote_of tbl k = find (\<lambda>v. vote_key v = k) tbl"

lemma merge_vote_key [simp]:
  "v_proposal_id (merge_vote v old) = v_proposal_id old" "v_voter (merge_vote v old) = v_voter old"
  by (simp_all add: merge_vote_def)

lemma merge_vote_same: "vote_key v = vote_key old \<Longrightarrow> merge_vote v old = (if v_height old \<le> v_height v then v else old)"
  by (simp add: merge_vote_def)

lemma upsert_keys:
  "map vote_key (upsert_vote v tbl) =
     (if vote_key v \<in> set (map vote_key tbl) then map vote_key tbl else map vote_key tbl @ [vote_key v])"
  by (auto simp: upsert_vote_def)

lemma votes_ok_upsert: "votes_ok tbl \<Longrightarrow> votes_ok (upsert_vote v tbl)"
  unfolding votes_ok_def upsert_keys by auto

lemma find_map_key:
  assumes "\<And>x. vote_key (g x) = vote_key x"
  shows "find (\<lambda>v. vote_key v = k) (map g tbl) = map_option g (find (\<lambda>v. vote_key v = k) tbl)"
  using assms by (induction tbl) auto

lemma find_None_key: "find (\<lambda>v. vote_key v = k) tbl = None \<longleftrightarrow> k \<notin> set (map vote_key tbl)"
  by (auto simp: find_None_iff)

lemma vote_of_upsert:
  "vote_of (upsert_vote v tbl) k =
     (if k = vote_key v
      then Some (case vote_of tbl k of None \<Rightarrow> v | Some old \<Rightarrow> if v_height old \<le> v_height v then v else old)
      else vote_of tbl k)"
proof (cases "vote_key v \<in> set (map vote_key tbl)")
  case True
  let ?g = "\<lambda>old. if vote_key old = vote_key v then merge_vote v old else old"
  have "vote_of (upsert_vote v tbl) k = map_option ?g (vote_of tbl k)"
    unfolding upsert_vote_def vote_of_def using True by (simp add: find_map_key)
  moreover have "vote_key old = k" if "vote_of tbl k = Some old" for old
    using that by (auto simp: vote_of_def find_Some_iff)
  moreover have "vote_of tbl (vote_key v) \<noteq> None"
    using True find_None_key [of "vote_key v" tbl] by (simp add: vote_of_def)
  ultimately show ?thesis
    by (cases "vote_of tbl k") (auto simp: merge_vote_same)
next
  case False
  then have "vote_of tbl (vote_key v) = None" using find_None_key [of "vote_key v" tbl] by (simp add: vote_of_def)
  with False show ?thesis
    by (auto simp: upsert_vote_def vote_of_def find_append split: option.split)
qed

text \<open>The newest of a sequence: the last one of the greatest height.\<close>

definition is_newest :: "vote \<Rightarrow> vote list \<Rightarrow> bool" where
  "is_newest v vs \<longleftrightarrow>
     (\<exists>xs ys. vs = xs @ v # ys \<and> (\<forall>x\<in>set xs. v_height x \<le> v_height v) \<and> (\<forall>y\<in>set ys. v_height y < v_height v))"

definition candidates :: "vote list \<Rightarrow> vote list \<Rightarrow> int \<times> string \<Rightarrow> vote list" where
  "candidates tbl vs k =
     (case vote_of tbl k of None \<Rightarrow> [] | Some v \<Rightarrow> [v]) @ filter (\<lambda>v. vote_key v = k) vs"

lemma is_newest_single: "is_newest v [v]"
  unfolding is_newest_def by force

lemma is_newest_snoc:
  assumes "is_newest v vs"
  shows "is_newest (if v_height v \<le> v_height w then w else v) (vs @ [w])"
proof -
  obtain xs ys where vs: "vs = xs @ v # ys" "\<forall>x\<in>set xs. v_height x \<le> v_height v" "\<forall>y\<in>set ys. v_height y < v_height v"
    using assms by (auto simp: is_newest_def)
  show ?thesis
  proof (cases "v_height v \<le> v_height w")
    case True
    with vs have "\<forall>x\<in>set vs. v_height x \<le> v_height w" by fastforce
    with True show ?thesis unfolding is_newest_def by force
  next
    case False
    with vs show ?thesis unfolding is_newest_def
      by (intro exI [of _ xs] exI [of _ "ys @ [w]"]) auto
  qed
qed

lemma fold_upsert_newest:
  "(case vote_of (fold upsert_vote vs tbl) k of
      None \<Rightarrow> candidates tbl vs k = []
    | Some v \<Rightarrow> is_newest v (candidates tbl vs k))"
proof (induction vs rule: rev_induct)
  case Nil
  show ?case by (auto simp: candidates_def is_newest_single split: option.split)
next
  case (snoc w vs)
  let ?t = "fold upsert_vote vs tbl"
  show ?case
  proof (cases "vote_key w = k")
    case False
    then have "candidates tbl (vs @ [w]) k = candidates tbl vs k" by (simp add: candidates_def)
    with False snoc show ?thesis by (auto simp: vote_of_upsert split: option.splits)
  next
    case True
    then have c: "candidates tbl (vs @ [w]) k = candidates tbl vs k @ [w]" by (simp add: candidates_def)
    show ?thesis
    proof (cases "vote_of ?t k")
      case None
      with snoc have "candidates tbl vs k = []" by simp
      then show ?thesis using True None c is_newest_single by (simp add: vote_of_upsert)
    next
      case (Some v)
      with snoc is_newest_snoc [of v _ w] show ?thesis using True c by (simp add: vote_of_upsert)
    qed
  qed
qed

lemma fold_upsert_ok: "votes_ok tbl \<Longrightarrow> votes_ok (fold upsert_vote vs tbl)"
  by (induction vs arbitrary: tbl) (auto simp: votes_ok_upsert)

lemma vote_work_keeps: "vote_work a b db = Inr db' \<Longrightarrow> block_checkpoint db' = block_checkpoint db"
  by (auto simp: vote_work_def rbind_eq_Inr)

interpretation vote_job: checkpointed_job cfg HANDLE_VOTE_TX "handleVote cfg" for cfg
proof unfold_locales
  fix db db' :: "'a vote_db_scheme"
  assume "handleVote cfg db = Inr db'"
  then show "block_checkpoint db' = checkpoint_run cfg HANDLE_VOTE_TX (block_checkpoint db)"
    unfolding handleVote_def by (rule range_job_checkpoint) (rule vote_work_keeps)
qed

section \<open>Properties\<close>

definition sample_vote_content :: "string \<Rightarrow> json" where
  "sample_vote_content opt =
     JObj [(''@type'', JStr MSG_VOTE), (''voter'', JStr ''aura1v''), (''proposal_id'', JStr ''7''), (''option'', JStr opt)]"

definition sample_vote_tx :: "int \<Rightarrow> nat \<Rightarrow> json transaction_row" where
  "sample_vote_tx i idx =
     \<lparr>tx_id = i, tx_height = 3, tx_hash = show_int i, tx_codespace = [], tx_code = 0, tx_gas_used = ''0'',
      tx_gas_wanted = ''0'', tx_gas_limit = ''0'', tx_fee = [], tx_memo = [], tx_index = idx,
      tx_timestamp = ''t'', tx_data = None\<rparr>"

definition sample_vote_message :: "int \<Rightarrow> int \<Rightarrow> nat \<Rightarrow> string \<Rightarrow> json message_row" where
  "sample_vote_message i tx idx opt =
     \<lparr>msg_id = i, msg_tx_id = tx, msg_index = idx, msg_type = MSG_VOTE, msg_sender = ''aura1v'',
      msg_content = sample_vote_content opt, msg_parent_id = None\<rparr>"

text \<open>
  One block with two transactions of the same voter: the first one's second message votes yes,
  the second one's first message votes no.
\<close>

definition sample_vote_db :: vote_db where
  "sample_vote_db =
     \<lparr>block_checkpoint = [''handle:transaction'' \<mapsto> 5, ''handle:authz-tx'' \<mapsto> 5], block_table = [],
      transaction_table = [sample_vote_tx 1 0, sample_vote_tx 2 1], transaction_seq = 3,
      event_table = [], event_seq = 1,
      message_table = [sample_vote_message 1 1 1 ''VOTE_OPTION_YES'', sample_vote_message 2 2 0 ''VOTE_OPTION_NO'',
        \<lparr>msg_id = 3, msg_tx_id = 2, msg_index = 1, msg_type = MSG_AUTHZ_EXEC, msg_sender = ''aura1v'',
         msg_content = JObj [(''msgs'', JArr [sample_vote_content ''VOTE_OPTION_NO'', JNull])], msg_parent_id = None\<rparr>],
      message_seq = 4, votes = []\<rparr>"

definition sample_vote_config :: config where
  "sample_vote_config = \<lparr>startBlock = 0, blocksPerCall = (\<lambda>_. 100)\<rparr>"

definition sample_authz_db :: vote_db where
  "sample_authz_db = sample_vote_db\<lparr>block_checkpoint := [''handle:transaction'' \<mapsto> 5]\<rparr>"

text \<open>
  However the job for authorised executions interleaves with the other jobs, the messages
  stored with a parent are, up to their ids, those stored at first and, exactly once each, the
  typed messages inside the executions of the transactions of the heights passed since.
\<close>

theorem authz_exactly_once:
  assumes "job_trace (handle_authz_job cfg) (\<lambda>_. True)
      (settled_env (\<lambda>db. job_start cfg HANDLE_AUTHZ_TX (block_checkpoint db)) stored_subs subs_of) db0 db"
  shows "stored_subs db = stored_subs db0 +
    subs_of db (job_start cfg HANDLE_AUTHZ_TX (block_checkpoint db0)) (job_start cfg HANDLE_AUTHZ_TX (block_checkpoint db))"
  using authz_job.exactly_once [OF assms] by simp

theorem authz_exactly_once_witness:
  "\<exists>db. handle_authz_job sample_vote_config sample_authz_db = Inr db \<and> size (stored_subs db) = 1"
proof -
  let ?start = "\<lambda>db. job_start sample_vote_config HANDLE_AUTHZ_TX (block_checkpoint db)"
  have "\<not> isl (handle_authz_job sample_vote_config sample_authz_db)" by code_simp
  then obtain db where run: "handle_authz_job sample_vote_config sample_authz_db = Inr db" by (metis sum.collapse(2))
  have trace: "job_trace (handle_authz_job sample_vote_config) (\<lambda>_. True)
      (settled_env ?start stored_subs subs_of) sample_authz_db db"
    using run by (intro trace_one) simp_all
  have range: "?start sample_authz_db = 0" "job_end sample_vote_config HANDLE_AUTHZ_TX (block_checkpoint sample_authz_db) = 5"
    by code_simp+
  then have "?start db = 5"
    using handle_authz_effect(1) [OF run]
    by (simp add: job_start_checkpoint_run skips_def HANDLE_AUTHZ_TX_def [THEN arg_cong, of job_guard])
  moreover have "size (subs_of sample_authz_db 0 5) = 1" "size (stored_subs sample_authz_db) = 0" by code_simp+
  ultimately show ?thesis
    using run range handle_authz_effect(2) [OF run] authz_exactly_once [OF trace] by auto
qed

text \<open>
  After a run of the vote job every voter's stored vote on a proposal is the newest of the
  vote stored before and the votes of the range: it has the greatest height and is the last of
  those in the order the messages are read; voters and proposals without a vote have no row,
  and no pair of voter and proposal has two.
\<close>

theorem handleVote_newest:
  assumes "handleVote cfg db = Inr db'" and "votes_ok (votes db)"
    and "job_start cfg HANDLE_VOTE_TX (block_checkpoint db) \<le> job_end cfg HANDLE_VOTE_TX (block_checkpoint db)"
  shows "\<exists>vs. rmap vote_fromJson (vote_messages (job_start cfg HANDLE_VOTE_TX (block_checkpoint db))
        (job_end cfg HANDLE_VOTE_TX (block_checkpoint db)) db) = Inr vs \<and> votes_ok (votes db') \<and>
      (\<forall>k. case vote_of (votes db') k of
             None \<Rightarrow> candidates (votes db) vs k = []
           | Some v \<Rightarrow> is_newest v (candidates (votes db) vs k))"
proof -
  from assms(1,3) obtain vs where
    vs: "rmap vote_fromJson (vote_messages (job_start cfg HANDLE_VOTE_TX (block_checkpoint db))
        (job_end cfg HANDLE_VOTE_TX (block_checkpoint db)) db) = Inr vs"
    and "votes db' = fold upsert_vote vs (votes db)"
    by (auto simp: handleVote_def range_job_unfold vote_work_def rbind_eq_Inr skips_def saveCheckpoint_def
        HANDLE_VOTE_TX_def [THEN arg_cong, of job_guard])
  then show ?thesis using fold_upsert_newest fold_upsert_ok [OF assms(2)] by auto
qed

theorem handleVote_newest_witness:
  "\<exists>db'. handleVote sample_vote_config sample_vote_db = Inr db' \<and> votes_ok (votes db')"
proof -
  have "\<not> isl (handleVote sample_vote_config sample_vote_db)" by code_simp
  then obtain db' where run: "handleVote sample_vote_config sample_vote_db = Inr db'" by (metis sum.collapse(2))
  moreover have "votes_ok (votes sample_vote_db)"
    "job_start sample_vote_config HANDLE_VOTE_TX (block_checkpoint sample_vote_db)
      \<le> job_end sample_vote_config HANDLE_VOTE_TX (block_checkpoint sample_vote_db)"
    by code_simp+
  ultimately show ?thesis using handleVote_newest [OF run] by blast
qed

text \<open>
  Votes of one block are read in the order of their index inside their own transaction, not
  in the order of the transactions: of two votes of the same voter in one block, the vote in
  the second message of the first transaction overrides the vote in the first message of the
  second transaction.
\<close>

theorem handleVote_ignores_tx_order:
  "(case handleVote sample_vote_config sample_vote_db of
      Inl _ \<Rightarrow> False
    | Inr db' \<Rightarrow> map (\<lambda>v. (v_vote_option v, v_tx_id v)) (votes db') = [(''VOTE_OPTION_YES'', 1)])"
  by code_simp

text \<open>
  A proposal selected for counting gets, for each option, the number of stored votes with
  that option; when every stored vote has one of the five options, the five counts add up to
  the number of votes on the proposal. Proposals not selected are left as they are.
\<close>

theorem count_vote_totals:
  assumes "\<forall>v\<in>set (votes db). v_vote_option v \<in> {''VOTE_OPTION_YES'', ''VOTE_OPTION_NO'', ''VOTE_OPTION_ABSTAIN'',
      ''VOTE_OPTION_NO_WITH_VETO'', ''VOTE_OPTION_UNSPECIFIED''}"
    and "i < length proposals"
  shows "let p = proposals ! i; t = latestCheckpointTime date_of now db in
    if is_counted_now t p
    then (\<exists>c. count_vote_job date_of now db proposals ! i =
            p\<lparr>p_count_vote := Some c, p_vote_counted := ((case p_voting_end_time p of None \<Rightarrow> 0 | Some e \<Rightarrow> e) \<le> t)\<rparr> \<and>
          cv_yes c + cv_no c + cv_abstain c + cv_no_with_veto c + cv_unspecified c =
            length (filter (\<lambda>v. v_proposal_id v = p_proposal_id p) (votes db)))
    else count_vote_job date_of now db proposals ! i = p"
proof -
  have sum: "count_option tbl pid ''VOTE_OPTION_YES'' + count_option tbl pid ''VOTE_OPTION_NO'' +
      count_option tbl pid ''VOTE_OPTION_ABSTAIN'' + count_option tbl pid ''VOTE_OPTION_NO_WITH_VETO'' +
      count_option tbl pid ''VOTE_OPTION_UNSPECIFIED'' = length (filter (\<lambda>v. v_proposal_id v = pid) tbl)"
    if "\<forall>v\<in>set tbl. v_vote_option v \<in> {''VOTE_OPTION_YES'', ''VOTE_OPTION_NO'', ''VOTE_OPTION_ABSTAIN'',
      ''VOTE_OPTION_NO_WITH_VETO'', ''VOTE_OPTION_UNSPECIFIED''}" for tbl pid
    using that by (induction tbl) (auto simp: count_option_def)
  show ?thesis
    using assms(2) sum [OF assms(1), of "p_proposal_id (proposals ! i)"]
    by (auto simp: count_vote_job_def count_proposal_def Let_def)
qed

theorem count_vote_totals_witness:
  "\<exists>c. count_vote_job (\<lambda>_. 0) 100 sample_vote_db
      [\<lparr>p_proposal_id = 7, p_status = ''PROPOSAL_STATUS_VOTING_PERIOD'', p_voting_end_time = Some 500,
        p_count_vote = None, p_vote_counted = False\<rparr>] ! 0 =
     \<lparr>p_proposal_id = 7, p_status = ''PROPOSAL_STATUS_VOTING_PERIOD'', p_voting_end_time = Some 500,
      p_count_vote = Some c, p_vote_counted = False\<rparr> \<and> cv_yes c = 0"
  using count_vote_totals [of sample_vote_db 0 "[\<lparr>p_proposal_id = 7, p_status = ''PROPOSAL_STATUS_VOTING_PERIOD'',
      p_voting_end_time = Some 500, p_count_vote = None, p_vote_counted = False\<rparr>]" "\<lambda>_. 0" 100]
  by (auto simp: sample_vote_db_def is_counted_now_def latestCheckpointTime_def HANDLE_VOTE_TX_def)

end
