(* ===== verification/Erc20_Handler.thy ===== *)
theory Erc20_Handler
  imports Prelude
begin

text \<open>
  The pure part of the ERC-20 indexer (\<^verbatim>\<open>src/services/evm/erc20_handler.ts\<close>): the class
  \<^verbatim>\<open>Erc20Handler\<close>, which replays balance-changing activities over the balances and contracts
  loaded from the database. The lemmas show that a replay is a double-entry ledger: each
  balance moves by the credits minus the debits of its account, the supply by mints minus
  burns, and the sum of the balances minus the supply never changes.
\<close>

section \<open>Rows\<close>

definition ZERO_ADDRESS :: string where
  "ZERO_ADDRESS = ''0x0000000000000000000000000000000000000000''"

definition ACTION_TRANSFER :: string where "ACTION_TRANSFER = ''transfer''"
definition ACTION_APPROVAL :: string where "ACTION_APPROVAL = ''approval''"
definition ACTION_DEPOSIT :: string where "ACTION_DEPOSIT = ''deposit''"
definition ACTION_WITHDRAWAL :: string where "ACTION_WITHDRAWAL = ''withdrawal''"

text \<open>
  An \<^verbatim>\<open>erc20_activity\<close>. The amount is text while the row is built and a decimal once it is
  stored, so its type is a parameter.
\<close>

record 'amt erc20_activity =
  act_evm_event_id :: "int option"
  act_sender :: "string option"
  act_action :: string
  act_contract :: string
  act_amount :: "'amt option"
  act_from :: "string option"
  act_to :: "string option"
  act_height :: int
  act_tx_hash :: string
  act_evm_tx_id :: "int option"
  act_cosmos_tx_id :: "int option"
  act_cosmos_event_id :: "int option"

text \<open>A stored activity joined with the accounts of its two addresses.\<close>

record joined_activity =
  activity :: "int erc20_activity"
  from_account_id :: "int option"
  to_account_id :: "int option"

record account_balance =
  ab_denom :: string
  ab_amount :: "int option"
  ab_last_updated_height :: "int option"
  ab_account_id :: "int option"
  ab_type :: string

record erc20_contract =
  ec_evm_smart_contract_id :: int
  ec_address :: string
  ec_total_supply :: "int option"
  ec_symbol :: "string option"
  ec_decimal :: "string option"
  ec_name :: "string option"
  ec_track :: bool
  ec_last_updated_height :: "int option"

record erc20_handler =
  accountBalances :: "string \<rightharpoonup> account_balance"
  erc20Activities :: "joined_activity list"
  erc20Contracts :: "string \<rightharpoonup> erc20_contract"

section \<open>The handler\<close>

text \<open>The key \<^verbatim>\<open>`${accountId}_${erc20ContractAddress}`\<close> of the dictionary of balances.\<close>

definition balance_key :: "int option \<Rightarrow> string \<Rightarrow> string" where
  "balance_key accountId addr = show_id accountId @ CHR ''_'' # addr"

text \<open>\<^verbatim>\<open>height < last_updated_height\<close>, where a null height compares as zero.\<close>

definition height_before :: "int \<Rightarrow> int option \<Rightarrow> bool" where
  "height_before h l \<longleftrightarrow> h < (case l of None \<Rightarrow> 0 | Some n \<Rightarrow> n)"

definition is_stale :: "int \<Rightarrow> account_balance option \<Rightarrow> bool" where
  "is_stale h bal \<longleftrightarrow> (case bal of None \<Rightarrow> False | Some b \<Rightarrow> height_before h (ab_last_updated_height b))"

text \<open>\<^verbatim>\<open>BigInt(balance?.amount || 0)\<close>\<close>

definition amount_or_0 :: "account_balance option \<Rightarrow> int" where
  "amount_or_0 bal =
     (case bal of None \<Rightarrow> 0 | Some b \<Rightarrow> (case ab_amount b of None \<Rightarrow> 0 | Some n \<Rightarrow> n))"

definition put_balance ::
  "joined_activity \<Rightarrow> int option \<Rightarrow> int \<Rightarrow> erc20_handler \<Rightarrow> erc20_handler"
where
  "put_balance a accountId amount st =
     st\<lparr>accountBalances := (accountBalances st)
          (balance_key accountId (act_contract (activity a)) \<mapsto>
             \<lparr>ab_denom = act_contract (activity a), ab_amount = Some amount,
              ab_last_updated_height = Some (act_height (activity a)),
              ab_account_id = accountId, ab_type = ''ERC20_TOKEN''\<rparr>)\<rparr>"

definition put_supply ::
  "joined_activity \<Rightarrow> erc20_contract \<Rightarrow> int \<Rightarrow> erc20_handler \<Rightarrow> erc20_handler"
where
  "put_supply a contract supply st =
     st\<lparr>erc20Contracts := (erc20Contracts st)
          (act_contract (activity a) \<mapsto>
             contract\<lparr>ec_total_supply := Some supply,
                      ec_last_updated_height := Some (act_height (activity a))\<rparr>)\<rparr>"

text \<open>A nullable address inside a message.\<close>

definition show_address :: "string option \<Rightarrow> string" where
  "show_address addr = (case addr of None \<Rightarrow> ''null'' | Some s \<Rightarrow> s)"

text \<open>One side of a transfer: the account's balance, or the supply for the zero address.\<close>

definition handle_from :: "joined_activity \<Rightarrow> erc20_handler \<Rightarrow> erc20_handler res" where
  "handle_from a st =
     (let act = activity a;
          bal = accountBalances st (balance_key (from_account_id a) (act_contract act)) in
      if act_from act \<noteq> Some ZERO_ADDRESS then
        if is_stale (act_height act) bal
        then Inl (JsError (''Process erc20 balance: fromAccountBalance ''
                            @ show_address (act_from act) @ '' was updated''))
        else rbind (need (act_amount act)) (\<lambda>amount.
               Inr (put_balance a (from_account_id a) (amount_or_0 bal - amount) st))
      else
        rbind (need (erc20Contracts st (act_contract act))) (\<lambda>erc20Contract.
          case ec_total_supply erc20Contract of
            None \<Rightarrow> Inr st
          | Some supply \<Rightarrow>
              rbind (need (act_amount act)) (\<lambda>amount.
                Inr (put_supply a erc20Contract (supply + amount) st))))"

definition handle_to :: "joined_activity \<Rightarrow> erc20_handler \<Rightarrow> erc20_handler res" where
  "handle_to a st =
     (let act = activity a;
          bal = accountBalances st (balance_key (to_account_id a) (act_contract act)) in
      if act_to act \<noteq> Some ZERO_ADDRESS then
        if is_stale (act_height act) bal
        then Inl (JsError (''Process erc20 balance: toAccountBalance ''
                            @ show_address (act_to act) @ '' was updated''))
        else rbind (need (act_amount act)) (\<lambda>amount.
               Inr (put_balance a (to_account_id a) (amount_or_0 bal + amount) st))
      else
        rbind (need (erc20Contracts st (act_contract act))) (\<lambda>erc20Contract.
          case ec_total_supply erc20Contract of
            None \<Rightarrow> Inr st
          | Some supply \<Rightarrow>
              rbind (need (act_amount act)) (\<lambda>amount.
                Inr (put_supply a erc20Contract (supply - amount) st))))"

definition handlerErc20Transfer :: "joined_activity \<Rightarrow> erc20_handler \<Rightarrow> erc20_handler res" where
  "handlerErc20Transfer a st =
     (case erc20Contracts st (act_contract (activity a)) of
        None \<Rightarrow> Inl (JsError (''Erc20 contract not found:'' @ act_contract (activity a)))
      | Some _ \<Rightarrow> rbind (handle_from a st) (handle_to a))"

definition changes_balance :: "joined_activity \<Rightarrow> bool" where
  "changes_balance a \<longleftrightarrow>
     act_action (activity a) \<in> {ACTION_TRANSFER, ACTION_DEPOSIT, ACTION_WITHDRAWAL}"

definition process_activity :: "joined_activity \<Rightarrow> erc20_handler \<Rightarrow> erc20_handler res" where
  "process_activity a st = (if changes_balance a then handlerErc20Transfer a st else Inr st)"

definition erc20_process :: "erc20_handler \<Rightarrow> erc20_handler res" where
  "erc20_process st = rfold process_activity (erc20Activities st) st"

section \<open>The ledger the handler implements\<close>

definition balance_of :: "erc20_handler \<Rightarrow> int option \<Rightarrow> string \<Rightarrow> int" where
  "balance_of st accountId c = amount_or_0 (accountBalances st (balance_key accountId c))"

definition supply_of :: "erc20_handler \<Rightarrow> string \<Rightarrow> int option" where
  "supply_of st c = (case erc20Contracts st c of None \<Rightarrow> None | Some k \<Rightarrow> ec_total_supply k)"

definition amount_of :: "joined_activity \<Rightarrow> int" where
  "amount_of a = (case act_amount (activity a) of None \<Rightarrow> 0 | Some n \<Rightarrow> n)"

definition debit :: "int option \<Rightarrow> string \<Rightarrow> joined_activity \<Rightarrow> int" where
  "debit i c a =
     (if changes_balance a \<and> act_contract (activity a) = c \<and> act_from (activity a) \<noteq> Some ZERO_ADDRESS
         \<and> from_account_id a = i then amount_of a else 0)"

definition credit :: "int option \<Rightarrow> string \<Rightarrow> joined_activity \<Rightarrow> int" where
  "credit i c a =
     (if changes_balance a \<and> act_contract (activity a) = c \<and> act_to (activity a) \<noteq> Some ZERO_ADDRESS
         \<and> to_account_id a = i then amount_of a else 0)"

definition minted :: "string \<Rightarrow> joined_activity \<Rightarrow> int" where
  "minted c a =
     (if changes_balance a \<and> act_contract (activity a) = c \<and> act_from (activity a) = Some ZERO_ADDRESS
      then amount_of a else 0)"

definition burnt :: "string \<Rightarrow> joined_activity \<Rightarrow> int" where
  "burnt c a =
     (if changes_balance a \<and> act_contract (activity a) = c \<and> act_to (activity a) = Some ZERO_ADDRESS
      then amount_of a else 0)"

lemma balance_key_inj [simp]: "balance_key i c = balance_key j d \<longleftrightarrow> i = j \<and> c = d"
  by (simp add: balance_key_def sep_key_inj underscore_not_in_show_id show_id_inj)

lemma put_balance_simps [simp]:
  "balance_of (put_balance a i n st) j c =
     (if j = i \<and> c = act_contract (activity a) then n else balance_of st j c)"
  "erc20Contracts (put_balance a i n st) = erc20Contracts st"
  "supply_of (put_balance a i n st) c = supply_of st c"
  by (auto simp: balance_of_def put_balance_def amount_or_0_def supply_of_def)

lemma put_supply_simps [simp]:
  "accountBalances (put_supply a k n st) = accountBalances st"
  "balance_of (put_supply a k n st) j c = balance_of st j c"
  "supply_of (put_supply a k n st) c = (if c = act_contract (activity a) then Some n else supply_of st c)"
  by (auto simp: balance_of_def put_supply_def supply_of_def)

section \<open>What a replay does\<close>

lemma handle_from_cases:
  assumes "handle_from a st = Inr st'"
  obtains
    (account) n where "act_from (activity a) \<noteq> Some ZERO_ADDRESS" "act_amount (activity a) = Some n"
      "\<not> is_stale (act_height (activity a)) (accountBalances st (balance_key (from_account_id a) (act_contract (activity a))))"
      "st' = put_balance a (from_account_id a) (balance_of st (from_account_id a) (act_contract (activity a)) - n) st"
  | (no_supply) "act_from (activity a) = Some ZERO_ADDRESS" "supply_of st (act_contract (activity a)) = None"
      "st' = st"
  | (some_supply) k n s where "act_from (activity a) = Some ZERO_ADDRESS" "act_amount (activity a) = Some n"
      "erc20Contracts st (act_contract (activity a)) = Some k" "supply_of st (act_contract (activity a)) = Some s"
      "st' = put_supply a k (s + n) st"
proof (cases "act_from (activity a) = Some ZERO_ADDRESS")
  case True
  with assms obtain k where k: "erc20Contracts st (act_contract (activity a)) = Some k"
    by (auto simp: handle_from_def Let_def rbind_eq_Inr need_eq_Inr)
  with True assms show thesis
    by (cases "ec_total_supply k")
      (auto simp: handle_from_def Let_def rbind_eq_Inr need_eq_Inr supply_of_def
        intro: no_supply some_supply)
next
  case False
  with assms account show thesis
    by (auto simp: handle_from_def Let_def rbind_eq_Inr need_eq_Inr balance_of_def split: if_splits)
qed

lemma handle_from_effect:
  assumes "handle_from a st = Inr st'" and "changes_balance a"
  shows "balance_of st' j c = balance_of st j c - debit j c a"
    and "supply_of st' c = map_option (\<lambda>s. s + minted c a) (supply_of st c)"
  using assms(2)
  by (cases rule: handle_from_cases [OF assms(1)];
      auto simp: debit_def minted_def amount_of_def option.map_ident)+

lemma handle_to_cases:
  assumes "handle_to a st = Inr st'"
  obtains
    (account) n where "act_to (activity a) \<noteq> Some ZERO_ADDRESS" "act_amount (activity a) = Some n"
      "\<not> is_stale (act_height (activity a)) (accountBalances st (balance_key (to_account_id a) (act_contract (activity a))))"
      "st' = put_balance a (to_account_id a) (balance_of st (to_account_id a) (act_contract (activity a)) + n) st"
  | (no_supply) "act_to (activity a) = Some ZERO_ADDRESS" "supply_of st (act_contract (activity a)) = None"
      "st' = st"
  | (some_supply) k n s where "act_to (activity a) = Some ZERO_ADDRESS" "act_amount (activity a) = Some n"
      "erc20Contracts st (act_contract (activity a)) = Some k" "supply_of st (act_contract (activity a)) = Some s"
      "st' = put_supply a k (s - n) st"
proof (cases "act_to (activity a) = Some ZERO_ADDRESS")
  case True
  with assms obtain k where k: "erc20Contracts st (act_contract (activity a)) = Some k"
    by (auto simp: handle_to_def Let_def rbind_eq_Inr need_eq_Inr)
  with True assms show thesis
    by (cases "ec_total_supply k")
      (auto simp: handle_to_def Let_def rbind_eq_Inr need_eq_Inr supply_of_def
        intro: no_supply some_supply)
next
  case False
  with assms account show thesis
    by (auto simp: handle_to_def Let_def rbind_eq_Inr need_eq_Inr balance_of_def split: if_splits)
qed

lemma handle_to_effect:
  assumes "handle_to a st = Inr st'" and "changes_balance a"
  shows "balance_of st' j c = balance_of st j c + credit j c a"
    and "supply_of st' c = map_option (\<lambda>s. s - burnt c a) (supply_of st c)"
  using assms(2)
  by (cases rule: handle_to_cases [OF assms(1)];
      auto simp: credit_def burnt_def amount_of_def option.map_ident)+

lemma process_activity_effect:
  assumes "process_activity a st = Inr st'"
  shows "balance_of st' j c = balance_of st j c + credit j c a - debit j c a"
    and "supply_of st' c = map_option (\<lambda>s. s + minted c a - burnt c a) (supply_of st c)"
proof -
  have "balance_of st' j c = balance_of st j c + credit j c a - debit j c a \<and>
        supply_of st' c = map_option (\<lambda>s. s + minted c a - burnt c a) (supply_of st c)"
  proof (cases "changes_balance a")
    case True
    with assms obtain st1 where "handle_from a st = Inr st1" and "handle_to a st1 = Inr st'"
      by (auto simp: process_activity_def handlerErc20Transfer_def rbind_eq_Inr split: option.splits)
    with True show ?thesis
      by (simp add: handle_from_effect handle_to_effect option.map_comp o_def)
  next
    case False
    with assms show ?thesis
      by (simp add: process_activity_def credit_def debit_def minted_def burnt_def option.map_ident)
  qed
  then show "balance_of st' j c = balance_of st j c + credit j c a - debit j c a"
    and "supply_of st' c = map_option (\<lambda>s. s + minted c a - burnt c a) (supply_of st c)" by blast+
qed

lemma process_list_effect:
  assumes "rfold process_activity as st = Inr st'"
  shows "balance_of st' j c =
      balance_of st j c + sum_list (map (credit j c) as) - sum_list (map (debit j c) as)"
    and "supply_of st' c =
      map_option (\<lambda>s. s + sum_list (map (minted c) as) - sum_list (map (burnt c) as)) (supply_of st c)"
  using assms
proof (induction as arbitrary: st)
  case Nil
  { case 1 then show ?case by simp }
  { case 2 then show ?case by (simp add: option.map_ident) }
next
  case (Cons a as)
  { case 1
    then show ?case using Cons.IH(1) by (auto simp: rbind_eq_Inr process_activity_effect) }
  { case 2
    then show ?case using Cons.IH(2)
      by (auto simp: rbind_eq_Inr process_activity_effect option.map_comp o_def algebra_simps) }
qed

section \<open>Conservation\<close>

text \<open>Rows sit under the key of their account and contract, as \<^verbatim>\<open>_.keyBy\<close> puts them.\<close>

definition wf_balances :: "(string \<rightharpoonup> account_balance) \<Rightarrow> bool" where
  "wf_balances m \<longleftrightarrow> finite (dom m) \<and>
     (\<forall>k b. m k = Some b \<longrightarrow> k = balance_key (ab_account_id b) (ab_denom b))"

definition holders_total :: "erc20_handler \<Rightarrow> string \<Rightarrow> int" where
  "holders_total st c =
     msum (\<lambda>b. if ab_denom b = c then amount_or_0 (Some b) else 0) (accountBalances st)"

lemma wf_balances_put_balance:
  "wf_balances (accountBalances st) \<Longrightarrow> wf_balances (accountBalances (put_balance a i n st))"
  by (auto simp: wf_balances_def put_balance_def)

lemma wf_balances_denom:
  "wf_balances m \<Longrightarrow> m (balance_key i c) = Some b \<Longrightarrow> ab_denom b = c"
  using balance_key_inj by (metis wf_balances_def)

lemma holders_total_put_balance:
  assumes "wf_balances (accountBalances st)"
  shows "holders_total (put_balance a i n st) c =
    holders_total st c + (if c = act_contract (activity a) then n - balance_of st i c else 0)"
proof -
  have "finite (dom (accountBalances st))" using assms by (simp add: wf_balances_def)
  then show ?thesis
    using wf_balances_denom [OF assms]
    by (auto simp: holders_total_def put_balance_def msum_upd balance_of_def amount_or_0_def
        split: option.split)
qed

lemma holders_total_put_supply [simp]: "holders_total (put_supply a k n st) c = holders_total st c"
  by (simp add: holders_total_def)

lemma handle_from_total:
  assumes "handle_from a st = Inr st'" and "changes_balance a" and "wf_balances (accountBalances st)"
  shows "wf_balances (accountBalances st')"
    and "holders_total st' c - (case supply_of st' c of None \<Rightarrow> 0 | Some s \<Rightarrow> s) =
      holders_total st c - (case supply_of st c of None \<Rightarrow> 0 | Some s \<Rightarrow> s) -
        (if act_contract (activity a) = c \<and> (act_from (activity a) \<noteq> Some ZERO_ADDRESS \<or> supply_of st c \<noteq> None)
         then amount_of a else 0)"
  using assms(2,3)
  by (cases rule: handle_from_cases [OF assms(1)];
      auto simp: holders_total_put_balance wf_balances_put_balance amount_of_def)+

lemma handle_to_total:
  assumes "handle_to a st = Inr st'" and "changes_balance a" and "wf_balances (accountBalances st)"
  shows "wf_balances (accountBalances st')"
    and "holders_total st' c - (case supply_of st' c of None \<Rightarrow> 0 | Some s \<Rightarrow> s) =
      holders_total st c - (case supply_of st c of None \<Rightarrow> 0 | Some s \<Rightarrow> s) +
        (if act_contract (activity a) = c \<and> (act_to (activity a) \<noteq> Some ZERO_ADDRESS \<or> supply_of st c \<noteq> None)
         then amount_of a else 0)"
  using assms(2,3)
  by (cases rule: handle_to_cases [OF assms(1)];
      auto simp: holders_total_put_balance wf_balances_put_balance amount_of_def)+

definition float_of :: "erc20_handler \<Rightarrow> string \<Rightarrow> int" where
  "float_of st c = holders_total st c - (case supply_of st c of None \<Rightarrow> 0 | Some s \<Rightarrow> s)"

lemma process_activity_float:
  assumes "process_activity a st = Inr st'" and "wf_balances (accountBalances st)"
    and "supply_of st c \<noteq> None"
  shows "wf_balances (accountBalances st') \<and> supply_of st' c \<noteq> None \<and> float_of st' c = float_of st c"
proof (cases "changes_balance a")
  case True
  with assms obtain st1 where src: "handle_from a st = Inr st1" and dst: "handle_to a st1 = Inr st'"
    by (auto simp: process_activity_def handlerErc20Transfer_def rbind_eq_Inr split: option.splits)
  have wf1: "wf_balances (accountBalances st1)" and s1: "supply_of st1 c \<noteq> None"
    using handle_from_total(1) [OF src True assms(2)] handle_from_effect(2) [OF src True] assms(3)
    by auto
  show ?thesis
    using handle_from_total(2) [OF src True assms(2), of c] handle_to_total(1) [OF dst True wf1]
      handle_to_total(2) [OF dst True wf1, of c]
      handle_to_effect(2) [OF dst True] assms(3) s1
    by (auto simp: float_of_def)
next
  case False
  with assms show ?thesis by (simp add: process_activity_def)
qed

lemma process_list_float:
  assumes "rfold process_activity as st = Inr st'" and "wf_balances (accountBalances st)"
    and "supply_of st c \<noteq> None"
  shows "wf_balances (accountBalances st') \<and> supply_of st' c \<noteq> None \<and> float_of st' c = float_of st c"
  by (rule rfold_invariant [OF assms(1), where I = "\<lambda>s. wf_balances (accountBalances s) \<and>
        supply_of s c \<noteq> None \<and> float_of s c = float_of st c"])
    (use assms in simp, metis process_activity_float)

section \<open>When a replay succeeds\<close>

definition last_height :: "account_balance \<Rightarrow> int" where
  "last_height b = (case ab_last_updated_height b of None \<Rightarrow> 0 | Some n \<Rightarrow> n)"

definition replayable :: "erc20_handler \<Rightarrow> joined_activity list \<Rightarrow> bool" where
  "replayable st as \<longleftrightarrow>
     sorted (map (act_height \<circ> activity) (filter changes_balance as)) \<and>
     (\<forall>a \<in> set (filter changes_balance as).
        act_contract (activity a) \<in> dom (erc20Contracts st) \<and> act_amount (activity a) \<noteq> None \<and>
        (\<forall>b \<in> ran (accountBalances st). last_height b \<le> act_height (activity a)))"

lemma is_stale_iff: "is_stale h bal \<longleftrightarrow> (\<exists>b. bal = Some b \<and> h < last_height b)"
  by (simp add: is_stale_def height_before_def last_height_def split: option.split)

text \<open>After one side of an activity every row is at most as new as before or as the activity.\<close>

lemma put_balance_heights:
  assumes "b \<in> ran (accountBalances (put_balance a i n st))"
  shows "b \<in> ran (accountBalances st) \<or> last_height b = act_height (activity a)"
  using assms by (auto simp: put_balance_def ran_def last_height_def split: if_splits)

definition side_ok :: "joined_activity \<Rightarrow> erc20_handler \<Rightarrow> bool" where
  "side_ok a st \<longleftrightarrow> act_contract (activity a) \<in> dom (erc20Contracts st) \<and>
     act_amount (activity a) \<noteq> None \<and>
     (\<forall>b \<in> ran (accountBalances st). last_height b \<le> act_height (activity a))"

definition grows_to :: "joined_activity \<Rightarrow> erc20_handler \<Rightarrow> erc20_handler \<Rightarrow> bool" where
  "grows_to a st st' \<longleftrightarrow> dom (erc20Contracts st') = dom (erc20Contracts st) \<and>
     (\<forall>b \<in> ran (accountBalances st'). b \<in> ran (accountBalances st) \<or> last_height b = act_height (activity a))"

lemma not_stale_if_side_ok:
  "side_ok a st \<Longrightarrow> \<not> is_stale (act_height (activity a)) (accountBalances st k)"
  by (auto simp: side_ok_def is_stale_iff ran_def not_less)

lemma put_supply_dom:
  "act_contract (activity a) \<in> dom (erc20Contracts st) \<Longrightarrow>
     dom (erc20Contracts (put_supply a k n st)) = dom (erc20Contracts st)"
  by (auto simp: put_supply_def)

lemma handle_from_ok: "side_ok a st \<Longrightarrow> \<exists>st'. handle_from a st = Inr st' \<and> grows_to a st st'"
  using not_stale_if_side_ok [of a st] put_balance_heights [of _ a _ _ st]
  by (auto simp: handle_from_def Let_def side_ok_def grows_to_def put_supply_dom domIff
      split: option.split)

lemma handle_to_ok: "side_ok a st \<Longrightarrow> \<exists>st'. handle_to a st = Inr st' \<and> grows_to a st st'"
  using not_stale_if_side_ok [of a st] put_balance_heights [of _ a _ _ st]
  by (auto simp: handle_to_def Let_def side_ok_def grows_to_def put_supply_dom domIff
      split: option.split)

lemma process_activity_ok:
  assumes "replayable st (a # as)"
  shows "\<exists>st'. process_activity a st = Inr st' \<and> replayable st' as"
proof (cases "changes_balance a")
  case True
  with assms have ok: "side_ok a st" by (simp add: replayable_def side_ok_def)
  then obtain st1 where st1: "handle_from a st = Inr st1" "grows_to a st st1"
    using handle_from_ok by blast
  with ok have "side_ok a st1" by (auto simp: side_ok_def grows_to_def)
  then obtain st2 where st2: "handle_to a st1 = Inr st2" "grows_to a st1 st2"
    using handle_to_ok by blast
  have "process_activity a st = Inr st2"
    using True st1 st2 ok
    by (auto simp: process_activity_def handlerErc20Transfer_def side_ok_def)
  moreover have "replayable st2 as"
    using assms True st1(2) st2(2) by (fastforce simp: replayable_def grows_to_def)
  ultimately show ?thesis by blast
next
  case False
  with assms show ?thesis by (simp add: process_activity_def replayable_def)
qed

section \<open>Properties\<close>

text \<open>A concrete replay for the witnesses: a mint of 100 to account 1, then 30 from 1 to 2.\<close>

definition sample_activity :: "string \<Rightarrow> string \<Rightarrow> int \<Rightarrow> int \<Rightarrow> int erc20_activity" where
  "sample_activity src dst amount h =
     \<lparr>act_evm_event_id = Some h, act_sender = Some src, act_action = ACTION_TRANSFER,
      act_contract = ''0xc'', act_amount = Some amount, act_from = Some src, act_to = Some dst,
      act_height = h, act_tx_hash = ''0xt'', act_evm_tx_id = Some h, act_cosmos_tx_id = Some h,
      act_cosmos_event_id = None\<rparr>"

definition sample_contract :: erc20_contract where
  "sample_contract =
     \<lparr>ec_evm_smart_contract_id = 7, ec_address = ''0xc'', ec_total_supply = Some 0, ec_symbol = None,
      ec_decimal = None, ec_name = None, ec_track = True, ec_last_updated_height = Some 1\<rparr>"

definition sample_handler :: erc20_handler where
  "sample_handler =
     \<lparr>accountBalances = Map.empty,
      erc20Activities =
        [\<lparr>activity = sample_activity ZERO_ADDRESS ''0xa'' 100 5, from_account_id = None, to_account_id = Some 1\<rparr>,
         \<lparr>activity = sample_activity ''0xa'' ''0xb'' 30 6, from_account_id = Some 1, to_account_id = Some 2\<rparr>],
      erc20Contracts = [''0xc'' \<mapsto> sample_contract]\<rparr>"

lemma sample_replayable: "replayable sample_handler (erc20Activities sample_handler)"
  by (simp add: replayable_def sample_handler_def sample_activity_def ACTION_TRANSFER_def)

text \<open>
  C19. A replay that succeeds is a double-entry ledger: the balance of every account under every
  contract changes by the sum of its credits minus the sum of its debits among the activities,
  and a contract's known total supply by what was minted minus what was burnt.
\<close>

theorem erc20_process_ledger:
  assumes "erc20_process st = Inr st'"
  shows "balance_of st' i c = balance_of st i c
      + sum_list (map (credit i c) (erc20Activities st)) - sum_list (map (debit i c) (erc20Activities st))
    \<and> supply_of st' c = map_option (\<lambda>s. s + sum_list (map (minted c) (erc20Activities st))
      - sum_list (map (burnt c) (erc20Activities st))) (supply_of st c)"
  using assms process_list_effect by (auto simp: erc20_process_def)

text \<open>
  C20. For a contract with a known supply, the sum of the balances minus the supply is the same
  before and after a replay: no activity creates or loses tokens.
\<close>

theorem erc20_process_conserves:
  assumes "erc20_process st = Inr st'" and "wf_balances (accountBalances st)"
    and "supply_of st c = Some s"
  shows "\<exists>s'. supply_of st' c = Some s' \<and> holders_total st' c - s' = holders_total st c - s"
proof -
  have "supply_of st' c \<noteq> None \<and> float_of st' c = float_of st c"
    using process_list_float [of "erc20Activities st" st st' c] assms by (simp add: erc20_process_def)
  with assms(3) show ?thesis by (auto simp: float_of_def)
qed

text \<open>
  A replay succeeds when the balance-changing activities are in height order, none is older
  than a loaded balance, their contracts are loaded and their amounts are present.
\<close>

theorem erc20_process_succeeds:
  assumes "replayable st (erc20Activities st)"
  shows "\<exists>st'. erc20_process st = Inr st'"
  using rfold_total [of replayable st "erc20Activities st" process_activity, OF assms process_activity_ok]
  by (auto simp: erc20_process_def)

theorem erc20_process_succeeds_witness:
  "\<exists>st'. erc20_process sample_handler = Inr st'"
  using erc20_process_succeeds [OF sample_replayable] .

lemma sample_process: "\<exists>st'. erc20_process sample_handler = Inr st'"
  using rfold_total [of replayable sample_handler "erc20Activities sample_handler" process_activity,
      OF sample_replayable process_activity_ok]
  by (auto simp: erc20_process_def)

theorem erc20_process_ledger_witness:
  "\<exists>st'. erc20_process sample_handler = Inr st' \<and> balance_of st' (Some 1) ''0xc'' = 70
     \<and> supply_of st' ''0xc'' = Some 100"
proof -
  obtain st' where st': "erc20_process sample_handler = Inr st'" using sample_process by blast
  have "balance_of sample_handler (Some 1) ''0xc'' = 0" "supply_of sample_handler ''0xc'' = Some 0"
    "sum_list (map (credit (Some 1) ''0xc'') (erc20Activities sample_handler)) = 100"
    "sum_list (map (debit (Some 1) ''0xc'') (erc20Activities sample_handler)) = 30"
    "sum_list (map (minted ''0xc'') (erc20Activities sample_handler)) = 100"
    "sum_list (map (burnt ''0xc'') (erc20Activities sample_handler)) = 0"
    by code_simp+
  with st' erc20_process_ledger [OF st', of "Some 1" "''0xc''"] show ?thesis by simp
qed

theorem erc20_process_conserves_witness:
  "\<exists>st' s'. erc20_process sample_handler = Inr st' \<and> supply_of st' ''0xc'' = Some s'
     \<and> holders_total st' ''0xc'' = s'"
proof -
  obtain st' where st': "erc20_process sample_handler = Inr st'" using sample_process by blast
  have "wf_balances (accountBalances sample_handler)" "supply_of sample_handler ''0xc'' = Some 0"
    "holders_total sample_handler ''0xc'' = 0"
    by (simp_all add: sample_handler_def wf_balances_def supply_of_def sample_contract_def holders_total_def)
  with st' erc20_process_conserves [OF st'] show ?thesis by force
qed

end
