(* ===== verification/Handle_Address.thy ===== *)
theory Handle_Address
  imports Checkpoint
begin

text \<open>
  Addresses and accounts: the conversions of \<^verbatim>\<open>src/services/evm/utils.ts\<close>, the validity tests of
  \<^verbatim>\<open>src/common/utils/utils.ts\<close> and the service of \<^verbatim>\<open>src/services/crawl-account/handle_address.service.ts\<close>,
  which creates an account row for every valid address that an event mentions. The bech32 and
  Ethereum codecs are libraries and come as the parameter \<open>codec\<close>.
\<close>

section \<open>Address codecs\<close>

text \<open>
  \<open>fromBech32\<close> and \<open>toBech32\<close> of \<^verbatim>\<open>@cosmjs/encoding\<close> and the coder \<^verbatim>\<open>ETH\<close> of
  \<^verbatim>\<open>@evmos/address-converter\<close>; \<open>None\<close> is a thrown error, bytes are a list of characters.
\<close>

record codec =
  fromBech32 :: "string \<Rightarrow> (string \<times> string) option"
  toBech32 :: "string \<Rightarrow> string \<Rightarrow> string"
  ETH_encoder :: "string \<Rightarrow> string"
  ETH_decoder :: "string \<Rightarrow> string option"

definition makeBech32Decoder :: "codec \<Rightarrow> string \<Rightarrow> string \<Rightarrow> string res" where
  "makeBech32Decoder cd currentPrefix input =
     (case fromBech32 cd input of
        None \<Rightarrow> Inl (JsError ''invalid bech32'')
      | Some (prefix, data) \<Rightarrow>
          if prefix \<noteq> currentPrefix then Inl (JsError ''Unrecognised address format'')
          else Inr data)"

definition convertBech32AddressToEthAddress :: "codec \<Rightarrow> string \<Rightarrow> string \<Rightarrow> string res" where
  "convertBech32AddressToEthAddress cd prefix bech32Address =
     rbind (makeBech32Decoder cd prefix bech32Address) (\<lambda>data. Inr (ETH_encoder cd data))"

definition convertEthAddressToBech32Address :: "codec \<Rightarrow> string \<Rightarrow> string \<Rightarrow> string res" where
  "convertEthAddressToBech32Address cd prefix ethAddress =
     (case ETH_decoder cd ethAddress of
        None \<Rightarrow> Inl (JsError ''invalid address'')
      | Some data \<Rightarrow> Inr (toBech32 cd prefix data))"

text \<open>\<^verbatim>\<open>Utils.isValidAddress\<close> and \<^verbatim>\<open>Utils.isValidAccountAddress\<close>; \<open>-1\<close> asks for any length.\<close>

definition isValidAddress :: "codec \<Rightarrow> string \<Rightarrow> int \<Rightarrow> bool" where
  "isValidAddress cd address len =
     (case fromBech32 cd address of
        None \<Rightarrow> False
      | Some (prefix, data) \<Rightarrow> len = - 1 \<or> int (length data) = len)"

definition isValidAccountAddress :: "codec \<Rightarrow> string \<Rightarrow> string \<Rightarrow> int \<Rightarrow> bool" where
  "isValidAccountAddress cd address prefix len =
     (case fromBech32 cd address of
        None \<Rightarrow> False
      | Some (p, data) \<Rightarrow> len = - 1 \<or> (int (length data) = len \<and> p = prefix))"

section \<open>Accounts\<close>

record account =
  acc_id :: int
  acc_address :: string
  acc_evm_address :: "string option"

record attribute_row =
  ar_block_height :: int
  ar_value :: "string option"

text \<open>
  The tables the service reads and writes. \<open>account_seq\<close> is the sequence of the primary key,
  \<open>update_account_calls\<close> the calls of the action \<^verbatim>\<open>CrawlAccountService.UpdateAccount\<close>.
\<close>

record account_db = base_db +
  account :: "account list"
  account_seq :: int
  attribute_rows :: "attribute_row list"
  update_account_calls :: "string list list"

text \<open>
  \<^verbatim>\<open>insertNewAccountAndUpdate\<close>. \<^verbatim>\<open>trx.batchInsert\<close> runs in a savepoint of the transaction, and
  its failure (a row with an \<^verbatim>\<open>address\<close> or an \<^verbatim>\<open>evm_address\<close> the table already has) is caught and
  logged: then no row is inserted and the caller goes on.
\<close>

definition number_accounts :: "int \<Rightarrow> (string \<times> string) list \<Rightarrow> account list" where
  "number_accounts n xs =
     map (\<lambda>(k, addr, evm). \<lparr>acc_id = n + int k, acc_address = addr, acc_evm_address = Some evm\<rparr>)
       (zip [0..<length xs] xs)"

definition unique_accounts :: "account list \<Rightarrow> bool" where
  "unique_accounts as \<longleftrightarrow> distinct (map acc_id as) \<and> distinct (map acc_address as) \<and>
     distinct (map acc_evm_address (filter (\<lambda>a. acc_evm_address a \<noteq> None) as))"

definition new_accounts ::
  "codec \<Rightarrow> string \<Rightarrow> string list \<Rightarrow> account list \<Rightarrow> (string \<times> string) list res"
where
  "new_accounts cd networkPrefix addresses table =
     (let existedAccounts = map acc_address (filter (\<lambda>r. acc_address r \<in> set addresses) table) in
      rmap (\<lambda>addr. rbind (convertBech32AddressToEthAddress cd networkPrefix addr)
                      (\<lambda>evm. Inr (addr, toLowerCase evm)))
        (filter (\<lambda>addr. addr \<notin> set existedAccounts) addresses))"

definition insertNewAccountAndUpdate ::
  "codec \<Rightarrow> string \<Rightarrow> string list \<Rightarrow> 'a account_db_scheme \<Rightarrow> 'a account_db_scheme res"
where
  "insertNewAccountAndUpdate cd networkPrefix addresses db =
     rbind (new_accounts cd networkPrefix addresses (account db)) (\<lambda>accounts.
       if accounts = [] then Inr db
       else if unique_accounts (account db @ number_accounts (account_seq db) accounts)
       then Inr (db\<lparr>account := account db @ number_accounts (account_seq db) accounts,
                    account_seq := account_seq db + int (length accounts)\<rparr>)
       else Inr db)"

definition actionCrawlNewAccountApi ::
  "codec \<Rightarrow> string \<Rightarrow> string list \<Rightarrow> 'a account_db_scheme \<Rightarrow> 'a account_db_scheme res"
where
  "actionCrawlNewAccountApi cd networkPrefix addresses db =
     insertNewAccountAndUpdate cd networkPrefix addresses db"

definition HANDLE_ADDRESS :: job_decl where
  "HANDLE_ADDRESS =
     \<lparr>job_name = ''handle:address'', lastHeightJobNames = [''handle:transaction''],
      configName = Some ''handleAddress'', job_guard = SkipGE\<rparr>"

text \<open>The addresses of a range: values that start with the prefix and are accounts or contracts.\<close>

definition event_addresses :: "codec \<Rightarrow> string \<Rightarrow> int \<Rightarrow> int \<Rightarrow> 'a account_db_scheme \<Rightarrow> string list" where
  "event_addresses cd networkPrefix startHeight endHeight db =
     uniq (filter (\<lambda>addr. isValidAccountAddress cd addr networkPrefix 20 \<or>
                          isValidAccountAddress cd addr networkPrefix 32)
       (List.map_filter
          (\<lambda>r. case ar_value r of
                 None \<Rightarrow> None
               | Some v \<Rightarrow> if startsWith v networkPrefix \<and> in_range startHeight endHeight (ar_block_height r)
                          then Some v else None)
          (attribute_rows db)))"

definition handle_address_work ::
  "codec \<Rightarrow> string \<Rightarrow> int \<Rightarrow> int \<Rightarrow> 'a account_db_scheme \<Rightarrow> 'a account_db_scheme res"
where
  "handle_address_work cd networkPrefix startHeight endHeight db =
     (let addresses = event_addresses cd networkPrefix startHeight endHeight db in
      rbind (if addresses = [] then Inr db
             else insertNewAccountAndUpdate cd networkPrefix addresses db)
        (\<lambda>db'. Inr (db'\<lparr>update_account_calls := update_account_calls db' @ [addresses]\<rparr>)))"

definition handle_address_job ::
  "config \<Rightarrow> codec \<Rightarrow> string \<Rightarrow> 'a account_db_scheme \<Rightarrow> 'a account_db_scheme res"
where
  "handle_address_job cfg cd networkPrefix =
     range_job cfg HANDLE_ADDRESS (handle_address_work cd networkPrefix)"

section \<open>Every address of a passed height has an account\<close>

text \<open>
  What the codecs guarantee: among texts that start with the network prefix, no two bech32
  addresses have the same Ethereum form (a bech32 text determines its bytes, its case and its
  checksum, and the Ethereum form spells the bytes out).
\<close>

definition evm_form :: "codec \<Rightarrow> string \<Rightarrow> string \<Rightarrow> string res" where
  "evm_form cd p addr = rbind (convertBech32AddressToEthAddress cd p addr) (\<lambda>evm. Inr (toLowerCase evm))"

definition codec_injective :: "codec \<Rightarrow> string \<Rightarrow> bool" where
  "codec_injective cd p \<longleftrightarrow>
     (\<forall>a b e. startsWith a p \<longrightarrow> startsWith b p \<longrightarrow> evm_form cd p a = Inr e \<longrightarrow> evm_form cd p b = Inr e \<longrightarrow> a = b)"

definition account_row_ok :: "codec \<Rightarrow> string \<Rightarrow> account \<Rightarrow> bool" where
  "account_row_ok cd p r \<longleftrightarrow> startsWith (acc_address r) p \<and>
     (\<forall>e. acc_evm_address r = Some e \<longrightarrow> evm_form cd p (acc_address r) = Inr e)"

definition accounts_ok :: "codec \<Rightarrow> string \<Rightarrow> 'a account_db_scheme \<Rightarrow> bool" where
  "accounts_ok cd p db \<longleftrightarrow> distinct (map acc_id (account db)) \<and> distinct (map acc_address (account db)) \<and>
     (\<forall>r\<in>set (account db). account_row_ok cd p r \<and> acc_id r < account_seq db)"

lemma number_accounts_simps:
  "map acc_address (number_accounts n xs) = map fst xs"
  "map acc_id (number_accounts n xs) = map (\<lambda>k. n + int k) [0..<length xs]"
  "map acc_evm_address (number_accounts n xs) = map (Some \<circ> snd) xs"
  by (rule nth_equalityI; simp add: number_accounts_def split: prod.split)+

lemma new_accounts_spec:
  assumes "new_accounts cd p addresses table = Inr accounts"
  shows "map fst accounts = filter (\<lambda>addr. addr \<notin> acc_address ` set table) addresses"
    and "\<And>a e. (a, e) \<in> set accounts \<Longrightarrow> evm_form cd p a = Inr e"
proof -
  let ?new = "filter (\<lambda>addr. addr \<notin> acc_address ` set table) addresses"
  have eq: "filter (\<lambda>addr. addr \<notin> set (map acc_address (filter (\<lambda>r. acc_address r \<in> set addresses) table))) addresses
      = ?new"
    by (rule filter_cong) auto
  have rel: "list_all2 (\<lambda>addr y. fst y = addr \<and> evm_form cd p addr = Inr (snd y)) ?new accounts"
    using assms unfolding new_accounts_def Let_def rmap_eq_Inr eq
    by (rule list_all2_mono) (auto simp: rbind_eq_Inr evm_form_def)
  then show "map fst accounts = ?new"
    by (auto simp: list_all2_conv_all_nth intro: nth_equalityI)
  fix a e assume "(a, e) \<in> set accounts"
  with rel show "evm_form cd p a = Inr e"
    by (auto simp: list_all2_conv_all_nth in_set_conv_nth)
qed

lemma distinct_evm_addresses:
  assumes "codec_injective cd p" and "\<forall>r\<in>set rs. account_row_ok cd p r" and "distinct (map acc_address rs)"
  shows "distinct (map acc_evm_address (filter (\<lambda>a. acc_evm_address a \<noteq> None) rs))"
proof (rule distinct_map [THEN iffD2], intro conjI inj_onI)
  show "distinct (filter (\<lambda>a. acc_evm_address a \<noteq> None) rs)"
    using assms(3) by (simp add: distinct_map)
next
  fix r r' assume r: "r \<in> set (filter (\<lambda>a. acc_evm_address a \<noteq> None) rs)"
    "r' \<in> set (filter (\<lambda>a. acc_evm_address a \<noteq> None) rs)" "acc_evm_address r = acc_evm_address r'"
  then obtain e where "acc_evm_address r = Some e" "acc_evm_address r' = Some e" by auto
  with r assms(2) have "acc_address r = acc_address r'"
    using assms(1) unfolding codec_injective_def account_row_ok_def by simp
  with r assms(3) show "r = r'" by (auto simp: distinct_map dest: inj_onD)
qed

text \<open>Inserting distinct valid addresses never meets a row that is already there.\<close>

lemma inserted_accounts_ok:
  assumes inj: "codec_injective cd p" and ok: "accounts_ok cd p db"
    and addrs: "distinct addresses" "\<forall>a\<in>set addresses. startsWith a p"
    and acc: "new_accounts cd p addresses (account db) = Inr accounts"
    and all: "table' = account db @ number_accounts (account_seq db) accounts"
  shows "unique_accounts table'"
    and "accounts_ok cd p (db\<lparr>account := table', account_seq := account_seq db + int (length accounts)\<rparr>)"
proof -
  let ?new = "number_accounts (account_seq db) accounts"
  note spec = new_accounts_spec [OF acc]
  have fst_new: "distinct (map fst accounts)" "\<forall>a\<in>fst ` set accounts. startsWith a p \<and> a \<notin> acc_address ` set (account db)"
    using spec(1) addrs by (simp_all flip: set_map)
  have addr_new: "acc_address ` set ?new = fst ` set accounts"
    by (metis number_accounts_simps(1) set_map)
  have row_new: "account_row_ok cd p r" if "r \<in> set ?new" for r
  proof -
    from that obtain k where "k < length accounts"
      "r = \<lparr>acc_id = account_seq db + int k, acc_address = fst (accounts ! k), acc_evm_address = Some (snd (accounts ! k))\<rparr>"
      by (auto simp: number_accounts_def in_set_conv_nth split: prod.split)
    with fst_new(2) spec(2) [of "fst (accounts ! k)" "snd (accounts ! k)"] show ?thesis
      by (auto simp: account_row_ok_def)
  qed
  have id_new: "acc_id ` set ?new = (\<lambda>k. account_seq db + int k) ` {0..<length accounts}"
    by (metis number_accounts_simps(2) set_map set_upt)
  have ids: "distinct (map acc_id table')"
    using ok id_new by (fastforce simp: all accounts_ok_def number_accounts_simps(2) distinct_map inj_on_def)
  have addresses: "distinct (map acc_address table')"
    using ok fst_new addr_new by (fastforce simp: all accounts_ok_def number_accounts_simps(1))
  have rows: "\<forall>r\<in>set table'. account_row_ok cd p r"
    using ok row_new by (auto simp: all accounts_ok_def)
  then show "unique_accounts table'"
    using ids addresses distinct_evm_addresses [OF inj] by (simp add: unique_accounts_def)
  have "acc_id r < account_seq db + int (length accounts)" if "r \<in> set table'" for r
  proof (cases "r \<in> set ?new")
    case True
    then have "acc_id r \<in> (\<lambda>k. account_seq db + int k) ` {0..<length accounts}"
      using id_new by blast
    then show ?thesis by auto
  next
    case False
    with that ok have "acc_id r < account_seq db" by (simp add: all accounts_ok_def)
    then show ?thesis by simp
  qed
  then show "accounts_ok cd p (db\<lparr>account := table', account_seq := account_seq db + int (length accounts)\<rparr>)"
    using ids addresses rows by (simp add: accounts_ok_def)
qed

lemma insert_keeps:
  assumes "insertNewAccountAndUpdate cd p addresses db = Inr db'"
  shows "block_checkpoint db' = block_checkpoint db" and "\<exists>new. account db' = account db @ new"
    and "unique_accounts (account db) \<Longrightarrow> unique_accounts (account db')"
  using assms by (auto simp: insertNewAccountAndUpdate_def rbind_eq_Inr split: if_splits)

lemma insert_covers:
  assumes "insertNewAccountAndUpdate cd p addresses db = Inr db'"
    and "codec_injective cd p" and "accounts_ok cd p db"
    and "distinct addresses" and "\<forall>a\<in>set addresses. startsWith a p"
  shows "set addresses \<subseteq> acc_address ` set (account db') \<and> accounts_ok cd p db'"
proof -
  obtain accounts where acc: "new_accounts cd p addresses (account db) = Inr accounts"
    using assms(1) by (auto simp: insertNewAccountAndUpdate_def rbind_eq_Inr)
  note new = inserted_accounts_ok [OF assms(2-5) acc refl]
  have img: "acc_address ` set (number_accounts (account_seq db) accounts) = fst ` set accounts"
    by (metis number_accounts_simps(1) set_map)
  have "fst ` set accounts = {a \<in> set addresses. a \<notin> acc_address ` set (account db)}"
    using new_accounts_spec(1) [OF acc] by (metis (no_types) set_filter set_map)
  then show ?thesis
    using assms(1,3) acc new img
    by (cases "accounts = []") (auto simp: insertNewAccountAndUpdate_def image_Un)
qed

lemma event_addresses_ok:
  "distinct (event_addresses cd p s e db)" "a \<in> set (event_addresses cd p s e db) \<Longrightarrow> startsWith a p"
  by (auto simp: event_addresses_def set_map_filter_Some split: option.splits if_splits)

lemma handle_address_work_keeps:
  "handle_address_work cd p s e db = Inr db' \<Longrightarrow> block_checkpoint db' = block_checkpoint db"
  by (auto simp: handle_address_work_def Let_def rbind_eq_Inr insert_keeps(1) split: if_splits)

lemma handle_address_work_covers:
  assumes "handle_address_work cd p s e db = Inr db'"
    and "codec_injective cd p" and "accounts_ok cd p db"
  shows "set (event_addresses cd p s e db) \<subseteq> acc_address ` set (account db') \<and> accounts_ok cd p db'
    \<and> (\<exists>new. account db' = account db @ new)"
proof (cases "event_addresses cd p s e db = []")
  case True
  with assms show ?thesis by (auto simp: handle_address_work_def accounts_ok_def)
next
  case False
  with assms obtain db1 where db1: "insertNewAccountAndUpdate cd p (event_addresses cd p s e db) db = Inr db1"
    and "db' = db1\<lparr>update_account_calls := update_account_calls db1 @ [event_addresses cd p s e db]\<rparr>"
    by (auto simp: handle_address_work_def Let_def rbind_eq_Inr)
  with insert_covers [OF db1 assms(2,3)] insert_keeps(2) [OF db1] event_addresses_ok [where cd = cd and p = p and s = s and e = e and db = db] show ?thesis
    by (simp add: accounts_ok_def)
qed

interpretation addr_job: checkpointed_job cfg HANDLE_ADDRESS "handle_address_job cfg cd p"
  for cfg cd p
proof unfold_locales
  fix db db' :: "'a account_db_scheme"
  assume "handle_address_job cfg cd p db = Inr db'"
  then show "block_checkpoint db' = checkpoint_run cfg HANDLE_ADDRESS (block_checkpoint db)"
    unfolding handle_address_job_def
    by (rule range_job_checkpoint) (rule handle_address_work_keeps)
qed

section \<open>Properties\<close>

text \<open>A codec, a configuration and a database for the witnesses.\<close>

definition sample_codec :: codec where
  "sample_codec =
     \<lparr>fromBech32 = (\<lambda>s. if startsWith s ''aura'' then Some (''aura'', drop 4 s) else None),
      toBech32 = (\<lambda>p d. p @ d), ETH_encoder = (\<lambda>d. ''0x'' @ concat (map (\<lambda>c. show_nat (of_char c) @ ''.'') d)),
      ETH_decoder = (\<lambda>s. if startsWith s ''0x'' then Some (drop 2 s) else None)\<rparr>"

definition sample_config :: config where
  "sample_config = \<lparr>startBlock = 0, blocksPerCall = (\<lambda>_. 100)\<rparr>"

definition sample_account_db :: account_db where
  "sample_account_db =
     \<lparr>block_checkpoint = [''handle:transaction'' \<mapsto> 8],
      account = [], account_seq = 1,
      attribute_rows = [\<lparr>ar_block_height = 3, ar_value = Some ''aura01234567890123456789''\<rparr>],
      update_account_calls = []\<rparr>"

lemma toLowerCase_digits: "toLowerCase (''0x'' @ concat (map (\<lambda>c. show_nat (of_char c) @ ''.'') d))
    = ''0x'' @ concat (map (\<lambda>c. show_nat (of_char c) @ ''.'') d)"
  by (auto simp: toLowerCase_def map_concat o_def is_digit_def dest!: show_nat_digits intro!: arg_cong [of _ _ concat] map_idI)

lemma dotted_inj:
  "concat (map (\<lambda>c :: char. show_nat (of_char c) @ ''.'') d) = concat (map (\<lambda>c. show_nat (of_char c) @ ''.'') d') \<Longrightarrow> d = d'"
proof (induction d arbitrary: d')
  case Nil
  then show ?case by (cases d') auto
next
  case (Cons c d)
  then obtain c' ds where d': "d' = c' # ds" by (cases d') auto
  have no: "CHR ''.'' \<notin> set (show_nat (of_char x))" for x :: char
    by (simp add: show_nat_no_char is_digit_def)
  from Cons.prems d' have "(of_char c :: nat) = of_char c'"
    and "concat (map (\<lambda>c. show_nat (of_char c) @ ''.'') d) = concat (map (\<lambda>c. show_nat (of_char c) @ ''.'') ds)"
    by (simp_all add: sep_key_inj [OF no no] show_nat_inj)
  with Cons.IH d' show ?case by simp
qed

lemma sample_codec_injective: "codec_injective sample_codec ''aura''"
proof (unfold codec_injective_def, intro allI impI)
  fix a b e
  assume "startsWith a ''aura''" "startsWith b ''aura''"
    and "evm_form sample_codec ''aura'' a = Inr e" "evm_form sample_codec ''aura'' b = Inr e"
  then have "drop 4 a = drop 4 b" and "take 4 a = ''aura''" and "take 4 b = ''aura''"
    by (auto simp: evm_form_def convertBech32AddressToEthAddress_def makeBech32Decoder_def sample_codec_def
        toLowerCase_digits [simplified] startsWith_def eval_nat_numeral dest!: dotted_inj)
  then show "a = b" by (metis append_take_drop_id)
qed

text \<open>
  When a run of the address job commits, every valid account or contract address that an
  event attribute of its range of heights mentions has an account row, no earlier row is gone,
  the account table keeps its invariant (unique keys and addresses, each Ethereum form that of
  its address), and the job's checkpoint is the end of the range. The codec's injectivity is
  what keeps the insertion, whose failure the code only logs, from failing.
\<close>

theorem handle_address_covers:
  assumes "handle_address_job cfg cd prefix db = Inr db'"
    and "job_start cfg HANDLE_ADDRESS (block_checkpoint db) < job_end cfg HANDLE_ADDRESS (block_checkpoint db)"
    and "codec_injective cd prefix" and "accounts_ok cd prefix db"
  shows "set (event_addresses cd prefix (job_start cfg HANDLE_ADDRESS (block_checkpoint db))
        (job_end cfg HANDLE_ADDRESS (block_checkpoint db)) db) \<subseteq> acc_address ` set (account db')
    \<and> (\<exists>new. account db' = account db @ new) \<and> accounts_ok cd prefix db'
    \<and> block_checkpoint db' (job_name HANDLE_ADDRESS) = Some (job_end cfg HANDLE_ADDRESS (block_checkpoint db))"
proof -
  have "\<not> skips (job_guard HANDLE_ADDRESS) (job_start cfg HANDLE_ADDRESS (block_checkpoint db))
      (job_end cfg HANDLE_ADDRESS (block_checkpoint db))"
    using assms(2) by (simp add: skips_def HANDLE_ADDRESS_def)
  with assms(1) obtain db1 where
    work: "handle_address_work cd prefix (job_start cfg HANDLE_ADDRESS (block_checkpoint db))
      (job_end cfg HANDLE_ADDRESS (block_checkpoint db)) db = Inr db1"
    and "db' = saveCheckpoint (job_name HANDLE_ADDRESS, job_end cfg HANDLE_ADDRESS (block_checkpoint db)) db1"
    by (auto simp: handle_address_job_def range_job_unfold rbind_eq_Inr)
  then show ?thesis
    using handle_address_work_covers [OF work assms(3,4)] by (simp add: saveCheckpoint_def accounts_ok_def)
qed

theorem handle_address_covers_witness:
  "\<exists>db'. handle_address_job sample_config sample_codec ''aura'' sample_account_db = Inr db'
     \<and> ''aura01234567890123456789'' \<in> acc_address ` set (account db')"
proof -
  let ?s = "job_start sample_config HANDLE_ADDRESS (block_checkpoint sample_account_db)"
  let ?e = "job_end sample_config HANDLE_ADDRESS (block_checkpoint sample_account_db)"
  have range: "?s = 0" "?e = 8" by code_simp+
  have addrs: "event_addresses sample_codec ''aura'' 0 8 sample_account_db = [''aura01234567890123456789'']"
    by code_simp
  have ok: "accounts_ok sample_codec ''aura'' sample_account_db"
    by (simp add: accounts_ok_def sample_account_db_def)
  obtain accounts where "new_accounts sample_codec ''aura'' [''aura01234567890123456789''] (account sample_account_db)
      = Inr accounts"
    by (simp add: new_accounts_def sample_account_db_def sample_codec_def convertBech32AddressToEthAddress_def
        makeBech32Decoder_def startsWith_def)
  then obtain db' where db': "handle_address_job sample_config sample_codec ''aura'' sample_account_db = Inr db'"
    using range addrs
    by (cases "handle_address_job sample_config sample_codec ''aura'' sample_account_db")
      (auto simp: handle_address_job_def range_job_unfold handle_address_work_def
        insertNewAccountAndUpdate_def rbind_eq_Inl split: if_splits)
  show ?thesis
    using db' handle_address_covers [OF db' _ sample_codec_injective ok] range addrs by auto
qed

end
