(* ===== verification/Erc20_Service.thy ===== *)
theory Erc20_Service
  imports Erc20_Handler Handle_Address
begin

text \<open>
  The ERC-20 indexer around the handler: the builders of activities and the queries and upserts
  of \<^verbatim>\<open>src/services/evm/erc20_handler.ts\<close>, the three jobs of
  \<^verbatim>\<open>src/services/evm/erc20.service.ts\<close> and the reindexer of \<^verbatim>\<open>src/services/evm/erc20_reindex.ts\<close>.
  ABI decoding, the topic hashes, the text of bytes and the chain's answers come as the
  parameter \<open>erc20_ext\<close>.
\<close>

section \<open>Tables and parameters\<close>

record evm_event =
  ev_id :: int
  ev_tx_id :: "int option"
  ev_evm_tx_id :: int
  ev_address :: string
  ev_topic0 :: "string option"
  ev_topic1 :: "string option"
  ev_topic2 :: "string option"
  ev_topic3 :: "string option"
  ev_data :: "string option"
  ev_block_height :: int
  ev_tx_hash :: string

text \<open>A Cosmos event with its fetched relations: the hash of its transaction and its attributes.\<close>

record cosmos_event =
  ce_id :: int
  ce_type :: string
  ce_block_height :: int
  ce_tx_id :: "int option"
  ce_tx_hash :: "string option"
  ce_attributes :: "event_attribute list"

record evm_smart_contract =
  sc_id :: int
  sc_address :: string
  sc_type :: "string option"
  sc_created_height :: "int option"

record erc20_info =
  info_name :: "string option"
  info_symbol :: "string option"
  info_decimals :: "string option"
  info_totalSupply :: "int option"

record erc20_ext =
  topic_TRANSFER :: string
  topic_APPROVAL :: string
  topic_DEPOSIT :: string
  topic_WITHDRAWAL :: string
  decodeAbi_address_address_uint :: "string \<Rightarrow> (string \<times> string \<times> int) option"
  decodeAbi_address_uint :: "string \<Rightarrow> (string \<times> int) option"
  viem_toHex :: "string option \<Rightarrow> string option"
  pg_numeric :: "string \<Rightarrow> int option"
  readErc20 :: "string \<Rightarrow> erc20_info"
  getBlockNumber :: int
  codec_of :: codec

record erc20_config =
  base_config :: config
  networkPrefixAddress :: string
  evmOnly :: bool
  wrapExtensionContract :: "string list"

text \<open>
  The tables. Rows of a list are in the order of the primary key; \<^verbatim>\<open>evm_transaction\<close> gives the
  sender of a transaction by its id; \<^verbatim>\<open>erc20_contract.address\<close> and the pair of account and denom
  of \<^verbatim>\<open>account_balance\<close> are unique, so those two tables are maps, the second under the text key
  of the pair.
\<close>

record erc20_db = account_db +
  evm_events :: "evm_event list"
  cosmos_events :: "cosmos_event list"
  evm_smart_contracts :: "evm_smart_contract list"
  evm_transactions :: "int \<rightharpoonup> string option"
  erc20_contracts :: "string \<rightharpoonup> erc20_contract"
  erc20_activities :: "int erc20_activity list"
  account_balances :: "string \<rightharpoonup> account_balance"

section \<open>Building activities\<close>

definition evm_activity ::
  "evm_event \<Rightarrow> string option \<Rightarrow> string \<Rightarrow> int \<Rightarrow> string \<Rightarrow> string \<Rightarrow> string erc20_activity"
where
  "evm_activity e sender action amount src dst =
     \<lparr>act_evm_event_id = Some (ev_id e), act_sender = Some (coerce_string sender), act_action = action,
      act_contract = ev_address e, act_amount = Some (show_int amount),
      act_from = Some src, act_to = Some dst, act_height = ev_block_height e,
      act_tx_hash = ev_tx_hash e, act_evm_tx_id = Some (ev_evm_tx_id e),
      act_cosmos_tx_id = Some (coerce_number (ev_tx_id e)), act_cosmos_event_id = None\<rparr>"

text \<open>\<^verbatim>\<open>e.topic1 + e.topic2.slice(2) + toHex(e.data).slice(2)\<close> and its decoding.\<close>

definition decode_transfer :: "erc20_ext \<Rightarrow> evm_event \<Rightarrow> (string \<times> string \<times> int) res" where
  "decode_transfer ext e =
     rbind (need (ev_topic2 e)) (\<lambda>topic2.
     rbind (need (viem_toHex ext (ev_data e))) (\<lambda>data.
       need (decodeAbi_address_address_uint ext
         (show_address (ev_topic1 e) @ drop 2 topic2 @ drop 2 data))))"

definition decode_wrap :: "erc20_ext \<Rightarrow> evm_event \<Rightarrow> (string \<times> int) res" where
  "decode_wrap ext e =
     rbind (need (viem_toHex ext (ev_data e))) (\<lambda>data.
       need (decodeAbi_address_uint ext (show_address (ev_topic1 e) @ drop 2 data)))"

definition buildTransferActivity ::
  "erc20_ext \<Rightarrow> string option \<Rightarrow> evm_event \<Rightarrow> string erc20_activity option"
where
  "buildTransferActivity ext sender e =
     try_undefined (rbind (decode_transfer ext e) (\<lambda>(src, dst, amount).
       Inr (evm_activity e sender ACTION_TRANSFER amount (toLowerCase src) (toLowerCase dst))))"

definition buildApprovalActivity ::
  "erc20_ext \<Rightarrow> string option \<Rightarrow> evm_event \<Rightarrow> string erc20_activity option"
where
  "buildApprovalActivity ext sender e =
     try_undefined (rbind (decode_transfer ext e) (\<lambda>(src, dst, amount).
       Inr (evm_activity e sender ACTION_APPROVAL amount (toLowerCase src) (toLowerCase dst))))"

definition buildWrapDepositActivity ::
  "erc20_ext \<Rightarrow> string option \<Rightarrow> evm_event \<Rightarrow> string erc20_activity option"
where
  "buildWrapDepositActivity ext sender e =
     try_undefined (rbind (decode_wrap ext e) (\<lambda>(dst, amount).
       Inr (evm_activity e sender ACTION_DEPOSIT amount ZERO_ADDRESS (toLowerCase dst))))"

definition buildWrapWithdrawalActivity ::
  "erc20_ext \<Rightarrow> string option \<Rightarrow> evm_event \<Rightarrow> string erc20_activity option"
where
  "buildWrapWithdrawalActivity ext sender e =
     try_undefined (rbind (decode_wrap ext e) (\<lambda>(src, amount).
       Inr (evm_activity e sender ACTION_WITHDRAWAL amount (toLowerCase src) ZERO_ADDRESS)))"

definition buildWrapExtensionActivity ::
  "erc20_ext \<Rightarrow> string option \<Rightarrow> evm_event \<Rightarrow> string erc20_activity option"
where
  "buildWrapExtensionActivity ext sender e =
     (if ev_topic0 e = Some (topic_DEPOSIT ext) then buildWrapDepositActivity ext sender e
      else if ev_topic0 e = Some (topic_WITHDRAWAL ext) then buildWrapWithdrawalActivity ext sender e
      else None)"

definition getAddressFromAttrAndConvert0x ::
  "codec \<Rightarrow> string \<Rightarrow> event_attribute list \<Rightarrow> string \<Rightarrow> string option res"
where
  "getAddressFromAttrAndConvert0x cd prefix attrs key =
     (case find (\<lambda>attr. attr_key attr = Some key) attrs of
        None \<Rightarrow> Inr None
      | Some attr \<Rightarrow>
          rbind (need (attr_value attr)) (\<lambda>value.
          rbind (if startsWith value ''0x'' then Inr value
                 else convertBech32AddressToEthAddress cd prefix value) (\<lambda>value.
            Inr (Some (toLowerCase value)))))"

definition buildTransferActivityByCosmos ::
  "erc20_ext \<Rightarrow> string \<Rightarrow> cosmos_event \<Rightarrow> string erc20_activity option"
where
  "buildTransferActivityByCosmos ext prefix e =
     (let addressOf = getAddressFromAttrAndConvert0x (codec_of ext) prefix (ce_attributes e) in
      try_undefined
       (rbind (addressOf ''sender'') (\<lambda>sender.
        rbind (addressOf ''receiver'') (\<lambda>receiver.
        rbind (addressOf ''erc20_token'') (\<lambda>address.
        rbind (need (ce_tx_hash e)) (\<lambda>hash.
          case address of
            None \<Rightarrow> Inl (ValidationError ''erc20_contract_address'')
          | Some addr \<Rightarrow>
              Inr \<lparr>act_evm_event_id = None, act_sender = sender, act_action = ACTION_TRANSFER,
                   act_contract = addr,
                   act_amount = getAttributeFrom (ce_attributes e) ''amount'',
                   act_from = (if ce_type e = ''convert_coin'' then Some ZERO_ADDRESS else sender),
                   act_to = (if ce_type e = ''convert_erc20'' then Some ZERO_ADDRESS else receiver),
                   act_height = ce_block_height e, act_tx_hash = hash, act_evm_tx_id = None,
                   act_cosmos_tx_id = Some (coerce_number (ce_tx_id e)), act_cosmos_event_id = Some (ce_id e)\<rparr>))))))"

text \<open>The join of \<^verbatim>\<open>evm_event\<close> with the contract tables and the sending transaction.\<close>

definition erc20_events ::
  "int \<Rightarrow> int \<Rightarrow> string list option \<Rightarrow> 'a erc20_db_scheme \<Rightarrow> (evm_event \<times> string option) list"
where
  "erc20_events startBlk endBlk addresses db =
     List.map_filter
       (\<lambda>e. if in_range startBlk endBlk (ev_block_height e)
               \<and> ev_address e \<in> set (map sc_address (evm_smart_contracts db))
               \<and> erc20_contracts db (ev_address e) \<noteq> None
               \<and> (case addresses of None \<Rightarrow> True | Some as \<Rightarrow> ev_address e \<in> set as)
            then map_option (\<lambda>sender. (e, sender)) (evm_transactions db (ev_evm_tx_id e))
            else None)
       (evm_events db)"

text \<open>With a list of addresses the query joins the attributes, one row per matching attribute.\<close>

definition erc20_cosmos_events ::
  "int \<Rightarrow> int \<Rightarrow> string list option \<Rightarrow> 'a erc20_db_scheme \<Rightarrow> cosmos_event list"
where
  "erc20_cosmos_events startBlk endBlk addresses db =
     concat (map
       (\<lambda>e. if in_range startBlk endBlk (ce_block_height e) \<and>
               (ce_type e = ''convert_coin'' \<or> ce_type e = ''convert_erc20'')
            then (case addresses of
                    None \<Rightarrow> [e]
                  | Some as \<Rightarrow>
                      map (\<lambda>_. e) (filter (\<lambda>attr. attr_key attr = Some ''erc20_token'' \<and>
                        (case attr_value attr of None \<Rightarrow> False | Some v \<Rightarrow> toLowerCase v \<in> set as))
                        (ce_attributes e)))
            else [])
       (cosmos_events db))"

definition build_evm_activity ::
  "erc20_config \<Rightarrow> erc20_ext \<Rightarrow> evm_event \<times> string option \<Rightarrow> string erc20_activity option"
where
  "build_evm_activity cfg ext es =
     (let (e, sender) = es in
      if ev_topic0 e = Some (topic_TRANSFER ext) then buildTransferActivity ext sender e
      else if ev_topic0 e = Some (topic_APPROVAL ext) then buildApprovalActivity ext sender e
      else if ev_address e \<in> set (wrapExtensionContract cfg) then buildWrapExtensionActivity ext sender e
      else None)"

definition buildErc20Activities ::
  "erc20_config \<Rightarrow> erc20_ext \<Rightarrow> int \<Rightarrow> int \<Rightarrow> string list option \<Rightarrow> 'a erc20_db_scheme
    \<Rightarrow> string erc20_activity list"
where
  "buildErc20Activities cfg ext startBlk endBlk addresses db =
     (let fromEvm = List.map_filter (build_evm_activity cfg ext)
            (erc20_events startBlk endBlk addresses db);
          fromCosmos = List.map_filter (buildTransferActivityByCosmos ext (networkPrefixAddress cfg))
            (if evmOnly cfg then [] else erc20_cosmos_events startBlk endBlk addresses db)
      in sortBy act_cosmos_tx_id (fromEvm @ fromCosmos))"

section \<open>Queries and updates\<close>

text \<open>The left join with \<^verbatim>\<open>account\<close> on \<^verbatim>\<open>evm_address\<close>, which is unique.\<close>

definition account_id_of :: "account list \<Rightarrow> string option \<Rightarrow> int option" where
  "account_id_of accs addr =
     (case addr of
        None \<Rightarrow> None
      | Some a \<Rightarrow> map_option acc_id (find (\<lambda>r. acc_evm_address r = Some a) accs))"

definition is_tracked :: "(string \<rightharpoonup> erc20_contract) \<Rightarrow> string \<Rightarrow> bool" where
  "is_tracked contracts c = (case contracts c of None \<Rightarrow> False | Some k \<Rightarrow> ec_track k)"

definition getErc20Activities ::
  "int \<Rightarrow> int \<Rightarrow> string list option \<Rightarrow> 'a erc20_db_scheme \<Rightarrow> joined_activity list"
where
  "getErc20Activities startBlk endBlk addresses db =
     map (\<lambda>act. \<lparr>activity = act, from_account_id = account_id_of (account db) (act_from act),
                to_account_id = account_id_of (account db) (act_to act)\<rparr>)
       (filter (\<lambda>act. in_range startBlk endBlk (act_height act)
                    \<and> is_tracked (erc20_contracts db) (act_contract act)
                    \<and> (case addresses of None \<Rightarrow> True | Some as \<Rightarrow> act_contract act \<in> set as))
          (erc20_activities db))"

text \<open>
  The balances whose account has the address of a sender or recipient and whose denom is that
  activity's contract.
\<close>

definition balance_selected :: "account list \<Rightarrow> joined_activity list \<Rightarrow> account_balance \<Rightarrow> bool" where
  "balance_selected accs acts b \<longleftrightarrow>
     list_ex (\<lambda>r. Some (acc_id r) = ab_account_id b \<and> acc_evm_address r \<noteq> None \<and>
        list_ex (\<lambda>a. act_contract (activity a) = ab_denom b \<and>
          (act_from (activity a) = acc_evm_address r \<or> act_to (activity a) = acc_evm_address r)) acts) accs"

definition load_balances ::
  "account list \<Rightarrow> joined_activity list \<Rightarrow> (string \<rightharpoonup> account_balance) \<Rightarrow> (string \<rightharpoonup> account_balance)"
where
  "load_balances accs acts tbl =
     (\<lambda>k. case tbl k of None \<Rightarrow> None | Some b \<Rightarrow> if balance_selected accs acts b then Some b else None)"

definition load_contracts ::
  "joined_activity list \<Rightarrow> (string \<rightharpoonup> erc20_contract) \<Rightarrow> (string \<rightharpoonup> erc20_contract)"
where
  "load_contracts acts tbl = tbl |` set (map (act_contract \<circ> activity) acts)"

text \<open>A row without an account violates the not-null constraint of \<^verbatim>\<open>account_balance.account_id\<close>.\<close>

definition updateErc20AccountsBalance ::
  "joined_activity list \<Rightarrow> 'a erc20_db_scheme \<Rightarrow> 'a erc20_db_scheme res"
where
  "updateErc20AccountsBalance acts db =
     (if acts = [] then Inr db
      else rbind (erc20_process
             \<lparr>accountBalances = load_balances (account db) acts (account_balances db),
              erc20Activities = acts,
              erc20Contracts = load_contracts acts (erc20_contracts db)\<rparr>) (\<lambda>st.
        if list_ex (\<lambda>a. accountBalances st (balance_key None (act_contract (activity a))) \<noteq> None) acts
        then Inl (DbError ''null value in column account_id'')
        else Inr (db\<lparr>erc20_contracts := erc20_contracts db ++ erc20Contracts st,
                     account_balances := account_balances db ++ accountBalances st\<rparr>)))"

section \<open>The jobs\<close>

definition erc20_instance :: "erc20_ext \<Rightarrow> int \<Rightarrow> string \<Rightarrow> bool \<Rightarrow> int option \<Rightarrow> erc20_contract" where
  "erc20_instance ext smartContractId addr track height =
     (let info = readErc20 ext addr in
      \<lparr>ec_evm_smart_contract_id = smartContractId, ec_address = addr,
       ec_total_supply = info_totalSupply info, ec_symbol = info_symbol info,
       ec_decimal = info_decimals info, ec_name = info_name info,
       ec_track = track, ec_last_updated_height = height\<rparr>)"

definition getErc20Instances :: "erc20_ext \<Rightarrow> evm_smart_contract list \<Rightarrow> erc20_contract list" where
  "getErc20Instances ext scs =
     map (\<lambda>e. erc20_instance ext (sc_id e) (sc_address e) True (sc_created_height e)) scs"

definition upsert_contracts ::
  "erc20_contract list \<Rightarrow> (string \<rightharpoonup> erc20_contract) \<Rightarrow> (string \<rightharpoonup> erc20_contract)"
where
  "upsert_contracts ks tbl = tbl ++ keyBy ec_address ks"

definition HANDLE_ERC20_CONTRACT :: job_decl where
  "HANDLE_ERC20_CONTRACT =
     \<lparr>job_name = ''handle:erc20-contract'', lastHeightJobNames = [''crawl:smart-contract-evm''],
      configName = Some ''erc20'', job_guard = NoGuard\<rparr>"

definition handleErc20Contract_work ::
  "erc20_ext \<Rightarrow> int \<Rightarrow> int \<Rightarrow> 'a erc20_db_scheme \<Rightarrow> 'a erc20_db_scheme res"
where
  "handleErc20Contract_work ext startBlk endBlk db =
     (let erc20SmartContracts =
            filter (\<lambda>sc. (case sc_created_height sc of None \<Rightarrow> False | Some h \<Rightarrow> in_range startBlk endBlk h)
                       \<and> sc_type sc = Some ''ERC20'') (evm_smart_contracts db) in
      Inr (if erc20SmartContracts = [] then db
           else db\<lparr>erc20_contracts :=
                 upsert_contracts (getErc20Instances ext erc20SmartContracts) (erc20_contracts db)\<rparr>))"

definition handleErc20Contract ::
  "erc20_config \<Rightarrow> erc20_ext \<Rightarrow> 'a erc20_db_scheme \<Rightarrow> 'a erc20_db_scheme res"
where
  "handleErc20Contract cfg ext =
     range_job (base_config cfg) HANDLE_ERC20_CONTRACT (handleErc20Contract_work ext)"

definition insertNewErc20Contracts ::
  "erc20_ext \<Rightarrow> (int \<times> string) list \<Rightarrow> 'a erc20_db_scheme \<Rightarrow> 'a erc20_db_scheme"
where
  "insertNewErc20Contracts ext evmSmartContracts db =
     (if evmSmartContracts = [] then db
      else db\<lparr>erc20_contracts := upsert_contracts
             (map (\<lambda>(i, addr). erc20_instance ext i addr True (Some (getBlockNumber ext))) evmSmartContracts)
             (erc20_contracts db)\<rparr>)"

definition handleMissingErc20Contract ::
  "erc20_ext \<Rightarrow> string erc20_activity list \<Rightarrow> 'a erc20_db_scheme \<Rightarrow> 'a erc20_db_scheme res"
where
  "handleMissingErc20Contract ext acts db =
     (let missing = filter (\<lambda>addr. erc20_contracts db addr = None) (uniq (map act_contract acts)) in
      rbind (rmap (\<lambda>addr.
               rbind (need (find (\<lambda>sc. sc_address sc = addr) (evm_smart_contracts db))) (\<lambda>sc.
                 Inr (erc20_instance ext (sc_id sc) addr False (Some (- 1))))) missing)
        (\<lambda>rows. Inr (db\<lparr>erc20_contracts := upsert_contracts rows (erc20_contracts db)\<rparr>)))"

text \<open>\<^verbatim>\<open>knex.batchInsert('erc20_activity', ...)\<close>: the text of an amount becomes a decimal.\<close>

definition store_activity :: "erc20_ext \<Rightarrow> string erc20_activity \<Rightarrow> int erc20_activity res" where
  "store_activity ext act =
     rbind (case act_amount act of
              None \<Rightarrow> Inr None
            | Some s \<Rightarrow> (case pg_numeric ext s of
                           None \<Rightarrow> Inl (DbError ''invalid input syntax for type numeric'')
                         | Some n \<Rightarrow> Inr (Some n)))
       (\<lambda>amount.
         Inr \<lparr>act_evm_event_id = act_evm_event_id act, act_sender = act_sender act,
              act_action = act_action act, act_contract = act_contract act, act_amount = amount,
              act_from = act_from act, act_to = act_to act, act_height = act_height act,
              act_tx_hash = act_tx_hash act, act_evm_tx_id = act_evm_tx_id act,
              act_cosmos_tx_id = act_cosmos_tx_id act, act_cosmos_event_id = act_cosmos_event_id act\<rparr>)"

definition insert_activities ::
  "erc20_ext \<Rightarrow> string erc20_activity list \<Rightarrow> 'a erc20_db_scheme \<Rightarrow> 'a erc20_db_scheme res"
where
  "insert_activities ext acts db =
     rbind (rmap (store_activity ext) acts)
       (\<lambda>rows. Inr (db\<lparr>erc20_activities := erc20_activities db @ rows\<rparr>))"

definition HANDLE_ERC20_ACTIVITY :: job_decl where
  "HANDLE_ERC20_ACTIVITY =
     \<lparr>job_name = ''handle:erc20-activity'',
      lastHeightJobNames = [''handle:erc20-contract'', ''handle:evm-proxy-history''],
      configName = Some ''erc20'', job_guard = NoGuard\<rparr>"

definition handleErc20Activity_work ::
  "erc20_config \<Rightarrow> erc20_ext \<Rightarrow> int \<Rightarrow> int \<Rightarrow> 'a erc20_db_scheme \<Rightarrow> 'a erc20_db_scheme res"
where
  "handleErc20Activity_work cfg ext startBlk endBlk db =
     (let acts = buildErc20Activities cfg ext startBlk endBlk None db in
      rbind (handleMissingErc20Contract ext acts db) (insert_activities ext acts))"

definition handleErc20Activity ::
  "erc20_config \<Rightarrow> erc20_ext \<Rightarrow> 'a erc20_db_scheme \<Rightarrow> 'a erc20_db_scheme res"
where
  "handleErc20Activity cfg ext =
     range_job (base_config cfg) HANDLE_ERC20_ACTIVITY (handleErc20Activity_work cfg ext)"

text \<open>The accounts that the left joins did not find, as bech32 addresses without repetition.\<close>

definition missing_accounts ::
  "erc20_config \<Rightarrow> erc20_ext \<Rightarrow> joined_activity list \<Rightarrow> string list res"
where
  "missing_accounts cfg ext acts =
     rbind (rmap (\<lambda>addr. rbind (need addr)
                    (convertEthAddressToBech32Address (codec_of ext) (networkPrefixAddress cfg)))
              (map (act_from \<circ> activity) (filter (\<lambda>a. from_account_id a = None) acts) @
               map (act_to \<circ> activity) (filter (\<lambda>a. to_account_id a = None) acts)))
       (\<lambda>addresses. Inr (uniq addresses))"

definition HANDLE_ERC20_BALANCE :: job_decl where
  "HANDLE_ERC20_BALANCE =
     \<lparr>job_name = ''handle:erc20-balance'', lastHeightJobNames = [''handle:erc20-activity''],
      configName = Some ''erc20'', job_guard = NoGuard\<rparr>"

text \<open>
  The accounts that the work creates are inserted outside its transaction and would stay when a later
  statement throws; the model leaves them out then, and the run that tries the range again creates them.
\<close>

definition handleErc20Balance_work ::
  "erc20_config \<Rightarrow> erc20_ext \<Rightarrow> int \<Rightarrow> int \<Rightarrow> 'a erc20_db_scheme \<Rightarrow> 'a erc20_db_scheme res"
where
  "handleErc20Balance_work cfg ext startBlk endBlk db =
     rbind (missing_accounts cfg ext (getErc20Activities startBlk endBlk None db)) (\<lambda>missing.
     rbind (if missing = [] then Inr db
            else actionCrawlNewAccountApi (codec_of ext) (networkPrefixAddress cfg) missing db) (\<lambda>db1.
       updateErc20AccountsBalance (getErc20Activities startBlk endBlk None db1) db1))"

definition handleErc20Balance ::
  "erc20_config \<Rightarrow> erc20_ext \<Rightarrow> 'a erc20_db_scheme \<Rightarrow> 'a erc20_db_scheme res"
where
  "handleErc20Balance cfg ext =
     range_job (base_config cfg) HANDLE_ERC20_BALANCE (handleErc20Balance_work cfg ext)"

section \<open>The reindexer\<close>

text \<open>
  The first statement of \<open>reindex\<close> runs outside its transaction: tracking stays off when the
  transaction fails. Its result is the state the transaction starts from.
\<close>

definition stop_tracking :: "string \<Rightarrow> 'a erc20_db_scheme \<Rightarrow> 'a erc20_db_scheme" where
  "stop_tracking addr db =
     (case erc20_contracts db addr of
        None \<Rightarrow> db
      | Some k \<Rightarrow> db\<lparr>erc20_contracts := (erc20_contracts db)(addr \<mapsto> k\<lparr>ec_track := False\<rparr>)\<rparr>)"

definition delete_erc20_rows :: "string \<Rightarrow> 'a erc20_db_scheme \<Rightarrow> 'a erc20_db_scheme" where
  "delete_erc20_rows addr db =
     db\<lparr>erc20_activities := filter (\<lambda>act. act_contract act \<noteq> addr) (erc20_activities db),
        account_balances := (\<lambda>k. case account_balances db k of
            None \<Rightarrow> None | Some b \<Rightarrow> if ab_denom b = addr then None else Some b),
        erc20_contracts := (erc20_contracts db)(addr := None)\<rparr>"

definition insert_reindexed_contract ::
  "erc20_ext \<Rightarrow> int \<Rightarrow> string \<Rightarrow> 'a erc20_db_scheme \<Rightarrow> 'a erc20_db_scheme"
where
  "insert_reindexed_contract ext smartContractId addr db =
     db\<lparr>erc20_contracts := (erc20_contracts db)(addr \<mapsto>
        (erc20_instance ext smartContractId addr True (Some (getBlockNumber ext)))\<lparr>ec_total_supply := Some 0\<rparr>)\<rparr>"

definition reindex_transaction ::
  "erc20_config \<Rightarrow> erc20_ext \<Rightarrow> string \<Rightarrow> 'a erc20_db_scheme \<Rightarrow> 'a erc20_db_scheme res"
where
  "reindex_transaction cfg ext addr db =
     (case erc20_contracts db addr of
        None \<Rightarrow> Inl NotFoundError
      | Some k \<Rightarrow>
          if ec_evm_smart_contract_id k \<notin> set (map sc_id (evm_smart_contracts db)) then Inl NotFoundError
          else
            (let db1 = insert_reindexed_contract ext (ec_evm_smart_contract_id k) addr
                         (delete_erc20_rows addr db);
                 acts = buildErc20Activities cfg ext 0 (getBlockNumber ext) (Some [addr]) db1 in
             rbind (insert_activities ext acts db1) (\<lambda>db2.
             rbind (missing_accounts cfg ext (getErc20Activities 0 (getBlockNumber ext) (Some [addr]) db2)) (\<lambda>missing.
               if missing \<noteq> [] then Inl (JsError ''Missing accounts. You should reindex them'')
               else updateErc20AccountsBalance
                      (getErc20Activities 0 (getBlockNumber ext) (Some [addr]) db2) db2))))"

definition erc20_reindex ::
  "erc20_config \<Rightarrow> erc20_ext \<Rightarrow> string \<Rightarrow> 'a erc20_db_scheme \<Rightarrow> 'a erc20_db_scheme res"
where
  "erc20_reindex cfg ext addr db = reindex_transaction cfg ext addr (stop_tracking addr db)"

end
