(* ===== verification/Erc20_Ledger.thy ===== *)
theory Erc20_Ledger
  imports Erc20_Service
begin

text \<open>
  What the ERC-20 indexer stores. A replay over the rows that the queries load has the effect of
  a replay over the whole tables; replaying two batches one after the other is replaying their
  concatenation; and, whatever the other jobs do in between, the balance stored for an address
  is its initial balance plus the net of all tracked activities of the heights passed.
\<close>

section \<open>Loaded rows and whole tables\<close>

definition db_handler :: "'a erc20_db_scheme \<Rightarrow> erc20_handler" where
  "db_handler db =
     \<lparr>accountBalances = account_balances db, erc20Activities = [], erc20Contracts = erc20_contracts db\<rparr>"

definition loaded_as ::
  "string set \<Rightarrow> string set \<Rightarrow> (string \<rightharpoonup> account_balance) \<Rightarrow> (string \<rightharpoonup> erc20_contract)
    \<Rightarrow> erc20_handler \<Rightarrow> erc20_handler \<Rightarrow> bool"
where
  "loaded_as K C bals conts sl sf \<longleftrightarrow>
     accountBalances sf = bals ++ accountBalances sl \<and> (\<forall>k\<in>K. accountBalances sl k = None \<longrightarrow> bals k = None) \<and>
     erc20Contracts sf = conts ++ erc20Contracts sl \<and> (\<forall>c\<in>C. erc20Contracts sl c = None \<longrightarrow> conts c = None)"

definition activity_keys :: "joined_activity \<Rightarrow> string set" where
  "activity_keys a =
     {balance_key (from_account_id a) (act_contract (activity a)),
      balance_key (to_account_id a) (act_contract (activity a))}"

lemma loaded_as_lookup:
  assumes "loaded_as K C B D sl sf"
  shows "k \<in> K \<Longrightarrow> accountBalances sl k = accountBalances sf k"
    and "c \<in> C \<Longrightarrow> erc20Contracts sl c = erc20Contracts sf c"
  using assms by (auto simp: loaded_as_def map_add_def split: option.split)

lemma loaded_as_put_balance:
  "loaded_as K C B D sl sf \<Longrightarrow> loaded_as K C B D (put_balance a i n sl) (put_balance a i n sf)"
  by (simp add: loaded_as_def put_balance_def)

lemma loaded_as_put_supply:
  "loaded_as K C B D sl sf \<Longrightarrow> loaded_as K C B D (put_supply a k n sl) (put_supply a k n sf)"
  by (simp add: loaded_as_def put_supply_def)

lemma handle_from_loaded:
  assumes "loaded_as K C B D sl sf" and "activity_keys a \<subseteq> K" and "act_contract (activity a) \<in> C"
  shows "rel_sum (=) (loaded_as K C B D) (handle_from a sl) (handle_from a sf)"
proof -
  have "accountBalances sl (balance_key (from_account_id a) (act_contract (activity a))) =
      accountBalances sf (balance_key (from_account_id a) (act_contract (activity a)))"
    and "erc20Contracts sl (act_contract (activity a)) = erc20Contracts sf (act_contract (activity a))"
    using assms(2,3) loaded_as_lookup [OF assms(1)] by (simp_all add: activity_keys_def)
  then show ?thesis
    using assms(1)
    by (auto simp: handle_from_def Let_def need_def loaded_as_put_balance loaded_as_put_supply
        split: option.split)
qed

lemma handle_to_loaded:
  assumes "loaded_as K C B D sl sf" and "activity_keys a \<subseteq> K" and "act_contract (activity a) \<in> C"
  shows "rel_sum (=) (loaded_as K C B D) (handle_to a sl) (handle_to a sf)"
proof -
  have "accountBalances sl (balance_key (to_account_id a) (act_contract (activity a))) =
      accountBalances sf (balance_key (to_account_id a) (act_contract (activity a)))"
    and "erc20Contracts sl (act_contract (activity a)) = erc20Contracts sf (act_contract (activity a))"
    using assms(2,3) loaded_as_lookup [OF assms(1)] by (simp_all add: activity_keys_def)
  then show ?thesis
    using assms(1)
    by (auto simp: handle_to_def Let_def need_def loaded_as_put_balance loaded_as_put_supply
        split: option.split)
qed

lemma process_activity_loaded:
  assumes "loaded_as K C B D sl sf" and "activity_keys a \<subseteq> K" and "act_contract (activity a) \<in> C"
  shows "rel_sum (=) (loaded_as K C B D) (process_activity a sl) (process_activity a sf)"
proof -
  have "erc20Contracts sl (act_contract (activity a)) = erc20Contracts sf (act_contract (activity a))"
    using assms(3) loaded_as_lookup [OF assms(1)] by simp
  moreover have "rel_sum (=) (loaded_as K C B D) (rbind (handle_from a sl) (handle_to a))
      (rbind (handle_from a sf) (handle_to a))"
    using assms handle_from_loaded handle_to_loaded by (blast intro: rbind_rel)
  ultimately show ?thesis
    using assms(1) by (simp add: process_activity_def handlerErc20Transfer_def split: option.split)
qed

text \<open>
  The invariant of the two tables (balances under the key of their account and denom, every
  account referenced exists, accounts unique) and of joined activities.
\<close>

definition erc20_ok :: "'a erc20_db_scheme \<Rightarrow> bool" where
  "erc20_ok db \<longleftrightarrow> unique_accounts (account db) \<and> wf_balances (account_balances db) \<and>
     (\<forall>b \<in> ran (account_balances db). ab_account_id b \<in> Some ` acc_id ` set (account db))"

definition joined_ok :: "account list \<Rightarrow> joined_activity list \<Rightarrow> bool" where
  "joined_ok accs acts \<longleftrightarrow>
     (\<forall>a\<in>set acts. from_account_id a = account_id_of accs (act_from (activity a)) \<and>
                   to_account_id a = account_id_of accs (act_to (activity a)))"

definition null_free :: "(string \<rightharpoonup> account_balance) \<Rightarrow> bool" where
  "null_free m \<longleftrightarrow> (\<forall>c. m (balance_key None c) = None)"

lemma getErc20Activities_joined: "joined_ok (account db) (getErc20Activities s e addrs db)"
  by (auto simp: joined_ok_def getErc20Activities_def)

lemma wf_balances_key:
  "wf_balances m \<Longrightarrow> m (balance_key i c) = Some b \<Longrightarrow> ab_account_id b = i \<and> ab_denom b = c"
  by (metis balance_key_inj wf_balances_def)

lemma erc20_ok_null_free: "erc20_ok db \<Longrightarrow> null_free (account_balances db)"
  unfolding null_free_def
proof
  fix c assume ok: "erc20_ok db"
  show "account_balances db (balance_key None c) = None"
  proof (cases "account_balances db (balance_key None c)")
    case (Some b)
    then have "b \<in> ran (account_balances db)" by (rule ranI)
    with ok Some wf_balances_key [of "account_balances db" None c b] show ?thesis
      by (auto simp: erc20_ok_def)
  qed
qed

lemma account_id_of_SomeD:
  assumes "account_id_of accs addr = Some i"
  obtains r a where "addr = Some a" "r \<in> set accs" "acc_evm_address r = Some a" "acc_id r = i"
  using assms by (auto simp: account_id_of_def find_Some_iff in_set_conv_nth split: option.splits)

lemma load_balances_covers:
  assumes "erc20_ok db" and "joined_ok (account db) acts" and "a \<in> set acts" and "k \<in> activity_keys a"
  shows "load_balances (account db) acts (account_balances db) k = account_balances db k"
proof (cases "account_balances db k")
  case None
  then show ?thesis by (simp add: load_balances_def)
next
  case (Some b)
  have "balance_selected (account db) acts b"
  proof -
    obtain i addr where k: "k = balance_key i (act_contract (activity a))"
      and i: "i = account_id_of (account db) addr" and addr: "addr = act_from (activity a) \<or> addr = act_to (activity a)"
      using assms(2,3,4) unfolding activity_keys_def joined_ok_def by blast
    have b: "ab_account_id b = i" "ab_denom b = act_contract (activity a)"
      using wf_balances_key [of "account_balances db" i _ b] assms(1) Some k by (auto simp: erc20_ok_def)
    moreover have "i \<noteq> None"
      using erc20_ok_null_free [OF assms(1)] Some k by (cases i) (auto simp: null_free_def)
    then obtain j where "account_id_of (account db) addr = Some j" using i by auto
    then obtain r e where "addr = Some e" "r \<in> set (account db)" "acc_evm_address r = Some e" "acc_id r = j"
      by (rule account_id_of_SomeD)
    ultimately show ?thesis
      using addr i assms(3) \<open>account_id_of (account db) addr = Some j\<close>
      unfolding balance_selected_def list_ex_iff by (metis option.distinct(1))
  qed
  with Some show ?thesis by (simp add: load_balances_def)
qed

lemma map_add_subset: "(\<And>k v. m k = Some v \<Longrightarrow> t k = Some v) \<Longrightarrow> t ++ m = t"
  by (rule ext) (auto simp: map_add_def split: option.split)

lemma loaded_initially:
  assumes "erc20_ok db" and "joined_ok (account db) acts"
  shows "loaded_as (\<Union>a\<in>set acts. activity_keys a) ((act_contract \<circ> activity) ` set acts)
    (account_balances db) (erc20_contracts db)
    \<lparr>accountBalances = load_balances (account db) acts (account_balances db), erc20Activities = acts,
     erc20Contracts = load_contracts acts (erc20_contracts db)\<rparr> (db_handler db)"
proof -
  have "account_balances db ++ load_balances (account db) acts (account_balances db) = account_balances db"
    by (rule map_add_subset) (auto simp: load_balances_def split: option.splits if_splits)
  moreover have "erc20_contracts db ++ load_contracts acts (erc20_contracts db) = erc20_contracts db"
    by (rule map_add_subset) (auto simp: load_contracts_def restrict_map_def split: if_splits)
  ultimately show ?thesis
    using load_balances_covers [OF assms]
    by (auto simp: loaded_as_def db_handler_def load_contracts_def)
qed

section \<open>Null rows\<close>

lemma process_activity_keeps:
  assumes "process_activity a st = Inr st'"
  shows "dom (accountBalances st) \<subseteq> dom (accountBalances st')"
    and "dom (accountBalances st') \<subseteq> dom (accountBalances st) \<union> activity_keys a"
    and "erc20Activities st' = erc20Activities st"
    and "is_tracked (erc20Contracts st') = is_tracked (erc20Contracts st)"
    and "wf_balances (accountBalances st) \<Longrightarrow> wf_balances (accountBalances st')"
proof -
  have put: "dom (accountBalances st) \<subseteq> dom (accountBalances (put_balance a i n st))"
    "dom (accountBalances (put_balance a i n st)) = insert (balance_key i (act_contract (activity a))) (dom (accountBalances st))"
    "erc20Activities (put_balance a i n st) = erc20Activities st"
    "erc20Activities (put_supply a k n st) = erc20Activities st"
    "erc20Contracts st (act_contract (activity a)) = Some k \<Longrightarrow>
      is_tracked (erc20Contracts (put_supply a k n st)) = is_tracked (erc20Contracts st)" for i n k st
    by (auto simp: put_balance_def put_supply_def is_tracked_def fun_eq_iff)
  have src: "dom (accountBalances s) \<subseteq> dom (accountBalances s') \<and>
      dom (accountBalances s') \<subseteq> dom (accountBalances s) \<union> activity_keys a \<and>
      erc20Activities s' = erc20Activities s \<and> is_tracked (erc20Contracts s') = is_tracked (erc20Contracts s) \<and>
      (wf_balances (accountBalances s) \<longrightarrow> wf_balances (accountBalances s'))"
    if "handle_from a s = Inr s'" for s s'
    by (cases rule: handle_from_cases [OF that]) (auto simp: put wf_balances_put_balance activity_keys_def)
  have dst: "dom (accountBalances s) \<subseteq> dom (accountBalances s') \<and>
      dom (accountBalances s') \<subseteq> dom (accountBalances s) \<union> activity_keys a \<and>
      erc20Activities s' = erc20Activities s \<and> is_tracked (erc20Contracts s') = is_tracked (erc20Contracts s) \<and>
      (wf_balances (accountBalances s) \<longrightarrow> wf_balances (accountBalances s'))"
    if "handle_to a s = Inr s'" for s s'
    by (cases rule: handle_to_cases [OF that]) (auto simp: put wf_balances_put_balance activity_keys_def)
  have "dom (accountBalances st) \<subseteq> dom (accountBalances st') \<and>
      dom (accountBalances st') \<subseteq> dom (accountBalances st) \<union> activity_keys a \<and>
      erc20Activities st' = erc20Activities st \<and> is_tracked (erc20Contracts st') = is_tracked (erc20Contracts st) \<and>
      (wf_balances (accountBalances st) \<longrightarrow> wf_balances (accountBalances st'))"
  proof (cases "changes_balance a")
    case True
    with assms obtain st1 where "handle_from a st = Inr st1" "handle_to a st1 = Inr st'"
      by (auto simp: process_activity_def handlerErc20Transfer_def rbind_eq_Inr split: option.splits)
    with src [of st st1] dst [of st1 st'] show ?thesis by (simp, blast)
  next
    case False
    with assms show ?thesis by (simp add: process_activity_def)
  qed
  then show "dom (accountBalances st) \<subseteq> dom (accountBalances st')"
    and "dom (accountBalances st') \<subseteq> dom (accountBalances st) \<union> activity_keys a"
    and "erc20Activities st' = erc20Activities st"
    and "is_tracked (erc20Contracts st') = is_tracked (erc20Contracts st)"
    and "wf_balances (accountBalances st) \<Longrightarrow> wf_balances (accountBalances st')" by blast+
qed

lemma process_list_keeps:
  assumes "rfold process_activity acts st = Inr st'"
  shows "dom (accountBalances st) \<subseteq> dom (accountBalances st')"
    and "dom (accountBalances st') \<subseteq> dom (accountBalances st) \<union> (\<Union>a\<in>set acts. activity_keys a)"
    and "erc20Activities st' = erc20Activities st"
    and "is_tracked (erc20Contracts st') = is_tracked (erc20Contracts st)"
    and "wf_balances (accountBalances st) \<Longrightarrow> wf_balances (accountBalances st')"
proof -
  let ?I = "\<lambda>s. dom (accountBalances st) \<subseteq> dom (accountBalances s) \<and>
      dom (accountBalances s) \<subseteq> dom (accountBalances st) \<union> (\<Union>a\<in>set acts. activity_keys a) \<and>
      erc20Activities s = erc20Activities st \<and> is_tracked (erc20Contracts s) = is_tracked (erc20Contracts st) \<and>
      (wf_balances (accountBalances st) \<longrightarrow> wf_balances (accountBalances s))"
  have "?I st'"
  proof (rule rfold_invariant [OF assms, where I = ?I])
    fix a s s' assume "a \<in> set acts" "?I s" "process_activity a s = Inr s'"
    with process_activity_keeps [of a s s'] show "?I s'" by (simp, blast)
  qed simp
  then show "dom (accountBalances st) \<subseteq> dom (accountBalances st')"
    and "dom (accountBalances st') \<subseteq> dom (accountBalances st) \<union> (\<Union>a\<in>set acts. activity_keys a)"
    and "erc20Activities st' = erc20Activities st"
    and "is_tracked (erc20Contracts st') = is_tracked (erc20Contracts st)"
    and "wf_balances (accountBalances st) \<Longrightarrow> wf_balances (accountBalances st')" by blast+
qed

lemma null_free_dom: "null_free m \<longleftrightarrow> (\<forall>c. balance_key None c \<notin> dom m)"
  by (auto simp: null_free_def domIff)

lemma null_rows_iff:
  assumes "rfold process_activity acts st = Inr st'" and "null_free (accountBalances st)"
  shows "list_ex (\<lambda>a. accountBalances st' (balance_key None (act_contract (activity a))) \<noteq> None) acts
    \<longleftrightarrow> \<not> null_free (accountBalances st')"
  using assms(2) process_list_keeps(2) [OF assms(1)]
  by (fastforce simp: null_free_dom list_ex_iff activity_keys_def domIff)

lemma null_free_mono: "dom m \<subseteq> dom m' \<Longrightarrow> null_free m' \<Longrightarrow> null_free m"
  by (meson in_mono null_free_dom)

section \<open>The update as a replay over the whole tables\<close>

lemma updateErc20AccountsBalance_iff:
  assumes "erc20_ok db" and "joined_ok (account db) acts"
  shows "updateErc20AccountsBalance acts db = Inr db' \<longleftrightarrow>
    (\<exists>st. rfold process_activity acts (db_handler db) = Inr st \<and> null_free (accountBalances st) \<and>
      db' = db\<lparr>erc20_contracts := erc20Contracts st, account_balances := accountBalances st\<rparr>)"
proof (cases "acts = []")
  case True
  then show ?thesis
    using erc20_ok_null_free [OF assms(1)]
    by (auto simp: updateErc20AccountsBalance_def db_handler_def)
next
  case False
  let ?K = "\<Union>a\<in>set acts. activity_keys a" and ?C = "(act_contract \<circ> activity) ` set acts"
  let ?R = "loaded_as ?K ?C (account_balances db) (erc20_contracts db)"
  let ?l = "\<lparr>accountBalances = load_balances (account db) acts (account_balances db), erc20Activities = acts,
     erc20Contracts = load_contracts acts (erc20_contracts db)\<rparr>"
  have rel: "rel_sum (=) ?R (rfold process_activity acts ?l) (rfold process_activity acts (db_handler db))"
  proof (rule rfold_rel [where R = ?R, OF loaded_initially [OF assms]])
    fix a s t assume "a \<in> set acts" "?R s t"
    then show "rel_sum (=) ?R (process_activity a s) (process_activity a t)"
      by (intro process_activity_loaded) auto
  qed
  have null: "null_free (accountBalances (db_handler db))"
    using erc20_ok_null_free [OF assms(1)] by (simp add: db_handler_def)
  show ?thesis
  proof (cases "rfold process_activity acts ?l")
    case (Inl e)
    with rel False show ?thesis
      by (cases "rfold process_activity acts (db_handler db)")
        (auto simp: updateErc20AccountsBalance_def erc20_process_def)
  next
    case (Inr sl)
    with rel obtain sf where sf: "rfold process_activity acts (db_handler db) = Inr sf" and R: "?R sl sf"
      by (cases "rfold process_activity acts (db_handler db)") auto
    have "accountBalances sl (balance_key None c) = accountBalances sf (balance_key None c)" for c
      using R null by (simp add: loaded_as_def null_free_def db_handler_def map_add_def split: option.split)
    then have "list_ex (\<lambda>a. accountBalances sl (balance_key None (act_contract (activity a))) \<noteq> None) acts
        \<longleftrightarrow> \<not> null_free (accountBalances sf)"
      using null_rows_iff [OF sf null] by simp
    moreover have "account_balances db ++ accountBalances sl = accountBalances sf"
      and "erc20_contracts db ++ erc20Contracts sl = erc20Contracts sf"
      using R by (simp_all add: loaded_as_def)
    ultimately show ?thesis
      using False Inr sf by (auto simp: updateErc20AccountsBalance_def erc20_process_def)
  qed
qed

lemma erc20_ok_update:
  assumes "erc20_ok db" and "joined_ok (account db) acts" and "updateErc20AccountsBalance acts db = Inr db'"
  shows "erc20_ok db' \<and> account db' = account db"
proof -
  from assms obtain st where st: "rfold process_activity acts (db_handler db) = Inr st"
    and null: "null_free (accountBalances st)"
    and db': "db' = db\<lparr>erc20_contracts := erc20Contracts st, account_balances := accountBalances st\<rparr>"
    by (auto simp: updateErc20AccountsBalance_iff)
  have wf: "wf_balances (accountBalances st)"
    using process_list_keeps(5) [OF st] assms(1) by (simp add: erc20_ok_def db_handler_def)
  have "ab_account_id b \<in> Some ` acc_id ` set (account db)" if "b \<in> ran (accountBalances st)" for b
  proof -
    from that wf obtain k where k: "accountBalances st k = Some b" "k = balance_key (ab_account_id b) (ab_denom b)"
      unfolding ran_def wf_balances_def by blast
    then have "k \<in> dom (account_balances db) \<union> (\<Union>a\<in>set acts. activity_keys a)"
      using process_list_keeps(2) [OF st] by (simp add: db_handler_def) blast
    then consider b0 where "account_balances db k = Some b0"
      | a where "a \<in> set acts" "k \<in> activity_keys a"
      by blast
    then show ?thesis
    proof cases
      case 1
      then have "ab_account_id b0 = ab_account_id b" "b0 \<in> ran (account_balances db)"
        using k(2) assms(1) wf_balances_key [of "account_balances db"] by (auto simp: erc20_ok_def intro: ranI)
      with assms(1) show ?thesis unfolding erc20_ok_def by metis
    next
      case 2
      have "ab_account_id b \<noteq> None" using null k by (metis null_free_def option.distinct(1))
      moreover have "ab_account_id b = from_account_id a \<or> ab_account_id b = to_account_id a"
        using 2(2) k(2) by (auto simp: activity_keys_def)
      ultimately obtain addr i where "account_id_of (account db) addr = Some i" "ab_account_id b = Some i"
        using 2(1) assms(2) unfolding joined_ok_def by (metis not_None_eq)
      then show ?thesis by (auto elim: account_id_of_SomeD)
    qed
  qed
  with wf assms(1) db' show ?thesis by (simp add: erc20_ok_def)
qed

lemma process_list_append_null:
  assumes "rfold process_activity ys st = Inr st'" and "null_free (accountBalances st')"
  shows "null_free (accountBalances st)"
  using null_free_mono [OF process_list_keeps(1) [OF assms(1)] assms(2)] .

lemma db_handler_updated:
  assumes "rfold process_activity acts (db_handler db) = Inr st"
  shows "db_handler (db\<lparr>erc20_contracts := erc20Contracts st, account_balances := accountBalances st\<rparr>) = st"
  using process_list_keeps(3) [OF assms] by (simp add: db_handler_def)

section \<open>Balances by address\<close>

definition address_balance :: "string \<Rightarrow> string \<Rightarrow> 'a erc20_db_scheme \<Rightarrow> int" where
  "address_balance addr c db =
     (case account_id_of (account db) (Some addr) of
        None \<Rightarrow> 0
      | Some i \<Rightarrow> amount_or_0 (account_balances db (balance_key (Some i) c)))"

definition transfers :: "'amt erc20_activity \<Rightarrow> bool" where
  "transfers act \<longleftrightarrow> act_action act \<in> {ACTION_TRANSFER, ACTION_DEPOSIT, ACTION_WITHDRAWAL}"

definition net_of :: "string \<Rightarrow> string \<Rightarrow> int erc20_activity \<Rightarrow> int" where
  "net_of addr c act =
     (if transfers act \<and> act_contract act = c \<and> addr \<noteq> ZERO_ADDRESS then
        (if act_to act = Some addr then (case act_amount act of None \<Rightarrow> 0 | Some n \<Rightarrow> n) else 0) -
        (if act_from act = Some addr then (case act_amount act of None \<Rightarrow> 0 | Some n \<Rightarrow> n) else 0)
      else 0)"

text \<open>What the tracked activities of a range of heights mean for an address.\<close>

definition net_range :: "string \<Rightarrow> string \<Rightarrow> 'a erc20_db_scheme \<Rightarrow> int \<Rightarrow> int \<Rightarrow> int" where
  "net_range addr c db a b =
     sum_list (map (net_of addr c)
       (filter (\<lambda>act. is_tracked (erc20_contracts db) (act_contract act) \<and> in_range a b (act_height act))
         (erc20_activities db)))"

lemma sum_list_range_split:
  fixes f :: "'x \<Rightarrow> int"
  assumes "a \<le> b" and "b \<le> c"
  shows "sum_list (map f (filter (\<lambda>x. P x \<and> in_range a c (h x)) xs)) =
    sum_list (map f (filter (\<lambda>x. P x \<and> in_range a b (h x)) xs)) +
    sum_list (map f (filter (\<lambda>x. P x \<and> in_range b c (h x)) xs))"
  using assms by (induction xs) (auto simp: in_range_def)

lemma account_id_of_inj:
  assumes "unique_accounts accs" and "account_id_of accs x = Some i" and "account_id_of accs y = Some i"
  shows "x = y"
proof -
  obtain r a where x: "x = Some a" "r \<in> set accs" "acc_evm_address r = Some a" "acc_id r = i"
    using assms(2) by (rule account_id_of_SomeD)
  obtain r' a' where y: "y = Some a'" "r' \<in> set accs" "acc_evm_address r' = Some a'" "acc_id r' = i"
    using assms(3) by (rule account_id_of_SomeD)
  have "inj_on acc_id (set accs)" using assms(1) by (simp add: unique_accounts_def distinct_map)
  then have "r = r'" using x y by (auto dest: inj_onD)
  with x y show ?thesis by simp
qed

text \<open>In a replay that leaves no null row, both sides of every transfer have an account.\<close>

lemma process_sides_known:
  assumes "rfold process_activity acts st = Inr st'" and "null_free (accountBalances st')"
    and "a \<in> set acts" and "changes_balance a"
  shows "act_from (activity a) \<noteq> Some ZERO_ADDRESS \<Longrightarrow> from_account_id a \<noteq> None"
    and "act_to (activity a) \<noteq> Some ZERO_ADDRESS \<Longrightarrow> to_account_id a \<noteq> None"
proof -
  from assms(3) obtain xs ys where acts: "acts = xs @ a # ys" by (meson split_list)
  with assms(1) obtain s1 s3 where "process_activity a s1 = Inr s3"
    and s3: "rfold process_activity ys s3 = Inr st'"
    by (auto simp: rfold_append rbind_eq_Inr)
  with assms(4) obtain s2 where s2: "handle_from a s1 = Inr s2" "handle_to a s2 = Inr s3"
    by (auto simp: process_activity_def handlerErc20Transfer_def rbind_eq_Inr split: option.splits)
  have "null_free (accountBalances s3)" using process_list_append_null [OF s3 assms(2)] .
  moreover have "dom (accountBalances s2) \<subseteq> dom (accountBalances s3)"
    by (cases rule: handle_to_cases [OF s2(2)]) (auto simp: put_balance_def)
  ultimately have nf: "null_free (accountBalances s2)" "null_free (accountBalances s3)"
    by (auto intro: null_free_mono)
  show "act_from (activity a) \<noteq> Some ZERO_ADDRESS \<Longrightarrow> from_account_id a \<noteq> None"
    using nf(1) by (cases rule: handle_from_cases [OF s2(1)]) (auto simp: null_free_dom put_balance_def)
  show "act_to (activity a) \<noteq> Some ZERO_ADDRESS \<Longrightarrow> to_account_id a \<noteq> None"
    using nf(2) by (cases rule: handle_to_cases [OF s2(2)]) (auto simp: null_free_dom put_balance_def)
qed

lemma changes_balance_transfers: "changes_balance a \<longleftrightarrow> transfers (activity a)"
  by (simp add: changes_balance_def transfers_def)

lemma net_of_by_account:
  assumes "unique_accounts accs" and "account_id_of accs (Some addr) = Some i"
    and "from_account_id a = account_id_of accs (act_from (activity a))"
    and "to_account_id a = account_id_of accs (act_to (activity a))"
    and "addr \<noteq> ZERO_ADDRESS"
  shows "net_of addr c (activity a) = credit (Some i) c a - debit (Some i) c a"
proof -
  have "account_id_of accs x = Some i \<longleftrightarrow> x = Some addr" for x
    using assms(1,2) account_id_of_inj by blast
  with assms(3-5) show ?thesis
    by (auto simp: net_of_def credit_def debit_def amount_of_def changes_balance_transfers)
qed

lemma update_address_balance:
  assumes "erc20_ok db" and "joined_ok (account db) acts" and "updateErc20AccountsBalance acts db = Inr db'"
    and "addr \<noteq> ZERO_ADDRESS"
  shows "address_balance addr c db' = address_balance addr c db + sum_list (map (net_of addr c \<circ> activity) acts)"
proof -
  from assms(1-3) obtain st where st: "rfold process_activity acts (db_handler db) = Inr st"
    and null: "null_free (accountBalances st)"
    and db': "db' = db\<lparr>erc20_contracts := erc20Contracts st, account_balances := accountBalances st\<rparr>"
    by (auto simp: updateErc20AccountsBalance_iff)
  show ?thesis
  proof (cases "account_id_of (account db) (Some addr)")
    case None
    have "net_of addr c (activity a) = 0" if "a \<in> set acts" for a
      using that None assms(2,4) process_sides_known [OF st null that]
      by (auto simp: net_of_def joined_ok_def changes_balance_transfers)
    then have "sum_list (map (net_of addr c \<circ> activity) acts) = 0"
      by (induction acts) auto
    with None db' show ?thesis by (simp add: address_balance_def)
  next
    case (Some i)
    have "map (net_of addr c \<circ> activity) acts = map (\<lambda>a. credit (Some i) c a - debit (Some i) c a) acts"
      using net_of_by_account [OF _ Some _ _ assms(4)] assms(1,2)
      by (auto simp: joined_ok_def erc20_ok_def)
    then have "sum_list (map (net_of addr c \<circ> activity) acts) =
        sum_list (map (credit (Some i) c) acts) - sum_list (map (debit (Some i) c) acts)"
      by (simp only: sum_list_subtractf)
    with Some db' process_list_effect(1) [OF st, of "Some i" c] show ?thesis
      by (simp add: address_balance_def balance_of_def db_handler_def)
  qed
qed

section \<open>The balance job\<close>

lemma account_id_of_append:
  "account_id_of (xs @ ys) addr =
     (case account_id_of xs addr of None \<Rightarrow> account_id_of ys addr | Some i \<Rightarrow> Some i)"
proof -
  have "find P (xs @ ys) = (case find P xs of None \<Rightarrow> find P ys | Some r \<Rightarrow> Some r)" for P :: "account \<Rightarrow> bool"
    by (induction xs) auto
  then show ?thesis by (auto simp: account_id_of_def split: option.splits)
qed

lemma insert_account_keeps:
  assumes "insertNewAccountAndUpdate cd p addrs db = Inr db1" and "erc20_ok db"
  shows "erc20_ok db1" and "address_balance addr c db1 = address_balance addr c db"
    and "erc20_activities db1 = erc20_activities db" and "erc20_contracts db1 = erc20_contracts db"
proof -
  obtain new where new: "account db1 = account db @ new" using insert_keeps(2) [OF assms(1)] by blast
  have same: "account_balances db1 = account_balances db" "erc20_activities db1 = erc20_activities db"
    "erc20_contracts db1 = erc20_contracts db"
    using assms(1) by (auto simp: insertNewAccountAndUpdate_def rbind_eq_Inr split: if_splits)
  then show "erc20_activities db1 = erc20_activities db" "erc20_contracts db1 = erc20_contracts db" by simp_all
  have uni: "unique_accounts (account db1)"
    using insert_keeps(3) [OF assms(1)] assms(2) by (simp add: erc20_ok_def)
  then show ok1: "erc20_ok db1"
    using assms(2) same(1) new by (auto simp: erc20_ok_def image_Un)
  have "account_balances db (balance_key (Some i) c) = None"
    if "account_id_of new (Some addr) = Some i" for i
  proof (rule ccontr)
    assume "account_balances db (balance_key (Some i) c) \<noteq> None"
    then obtain b where b: "account_balances db (balance_key (Some i) c) = Some b" by blast
    then have "i \<in> acc_id ` set (account db)"
      using assms(2) wf_balances_key [of "account_balances db" "Some i" c b] b ranI [of "account_balances db", OF b]
      unfolding erc20_ok_def by (metis imageE option.inject)
    moreover have "i \<in> acc_id ` set new" using that by (auto elim: account_id_of_SomeD)
    ultimately show False using uni new by (auto simp: unique_accounts_def)
  qed
  then show "address_balance addr c db1 = address_balance addr c db"
    by (auto simp: address_balance_def same new account_id_of_append amount_or_0_def split: option.split)
qed

lemma getErc20Activities_net:
  "sum_list (map (net_of addr c \<circ> activity) (getErc20Activities s e None db)) = net_range addr c db s e"
proof -
  have "map (net_of addr c \<circ> activity) (getErc20Activities s e None db) =
    map (net_of addr c) (filter (\<lambda>act. is_tracked (erc20_contracts db) (act_contract act) \<and>
      in_range s e (act_height act)) (erc20_activities db))"
    by (simp add: getErc20Activities_def comp_def conj_commute)
  then show ?thesis by (simp add: net_range_def)
qed

lemma update_keeps:
  assumes "erc20_ok db" and "joined_ok (account db) acts" and "updateErc20AccountsBalance acts db = Inr db'"
  shows "block_checkpoint db' = block_checkpoint db" and "erc20_activities db' = erc20_activities db"
    and "is_tracked (erc20_contracts db') = is_tracked (erc20_contracts db)"
proof -
  from assms obtain st where st: "rfold process_activity acts (db_handler db) = Inr st"
    and db': "db' = db\<lparr>erc20_contracts := erc20Contracts st, account_balances := accountBalances st\<rparr>"
    by (auto simp: updateErc20AccountsBalance_iff)
  show "block_checkpoint db' = block_checkpoint db" "erc20_activities db' = erc20_activities db"
    "is_tracked (erc20_contracts db') = is_tracked (erc20_contracts db)"
    using process_list_keeps(4) [OF st] db' by (simp_all add: db_handler_def)
qed

lemma handleErc20Balance_work_cases:
  assumes "handleErc20Balance_work cfg ext s e db = Inr db'" and "erc20_ok db"
  obtains db1 where "erc20_ok db1" "\<forall>addr c. address_balance addr c db1 = address_balance addr c db"
    "erc20_activities db1 = erc20_activities db" "erc20_contracts db1 = erc20_contracts db"
    "updateErc20AccountsBalance (getErc20Activities s e None db1) db1 = Inr db'"
proof -
  from assms(1) obtain missing db1 where
    step: "(if missing = [] then Inr db
            else actionCrawlNewAccountApi (codec_of ext) (networkPrefixAddress cfg) missing db) = Inr db1"
    and upd: "updateErc20AccountsBalance (getErc20Activities s e None db1) db1 = Inr db'"
    by (auto simp: handleErc20Balance_work_def rbind_eq_Inr)
  show thesis
  proof (cases "missing = []")
    case True
    with step upd assms(2) that [of db] show thesis by simp
  next
    case False
    with step have "insertNewAccountAndUpdate (codec_of ext) (networkPrefixAddress cfg) missing db = Inr db1"
      by (simp add: actionCrawlNewAccountApi_def)
    from that [of db1] insert_account_keeps [OF this assms(2)] upd show thesis by blast
  qed
qed

lemma handleErc20Balance_work_effect:
  assumes "handleErc20Balance_work cfg ext s e db = Inr db'" and "erc20_ok db"
  shows "erc20_ok db'"
    and "addr \<noteq> ZERO_ADDRESS \<Longrightarrow> address_balance addr c db' = address_balance addr c db + net_range addr c db s e"
    and "net_range addr c db' = net_range addr c db"
proof -
  obtain db1 where ok1: "erc20_ok db1" and bal: "\<forall>addr c. address_balance addr c db1 = address_balance addr c db"
    and same: "erc20_activities db1 = erc20_activities db" "erc20_contracts db1 = erc20_contracts db"
    and upd: "updateErc20AccountsBalance (getErc20Activities s e None db1) db1 = Inr db'"
    using assms by (rule handleErc20Balance_work_cases)
  note joined = getErc20Activities_joined [of db1 s e None]
  show "erc20_ok db'" using erc20_ok_update [OF ok1 joined upd] by simp
  show "net_range addr c db' = net_range addr c db"
    using update_keeps [OF ok1 joined upd] same by (simp add: net_range_def fun_eq_iff)
  have "net_range addr c db1 s e = net_range addr c db s e"
    using same by (simp add: net_range_def)
  then show "addr \<noteq> ZERO_ADDRESS \<Longrightarrow> address_balance addr c db' = address_balance addr c db + net_range addr c db s e"
    using update_address_balance [OF ok1 joined upd] bal getErc20Activities_net [of addr c s e db1] by simp
qed

lemma handleErc20Balance_work_checkpoint:
  "handleErc20Balance_work cfg ext s e db = Inr db' \<Longrightarrow> block_checkpoint db' = block_checkpoint db"
  by (auto simp: handleErc20Balance_work_def updateErc20AccountsBalance_def actionCrawlNewAccountApi_def
      rbind_eq_Inr insert_keeps(1) split: if_splits)

definition saved :: "'a erc20_db_scheme \<Rightarrow> 'a erc20_db_scheme \<Rightarrow> bool" where
  "saved db1 db' \<longleftrightarrow> (\<exists>row. db' = saveCheckpoint row db1)"

lemma saved_same:
  assumes "saved db1 db'"
  shows "erc20_ok db' = erc20_ok db1" "address_balance addr c db' = address_balance addr c db1"
    "net_range addr c db' = net_range addr c db1" "erc20_activities db' = erc20_activities db1"
    "erc20_contracts db' = erc20_contracts db1"
  using assms by (auto simp: saved_def saveCheckpoint_def erc20_ok_def address_balance_def net_range_def fun_eq_iff
      split: option.split)

lemma handleErc20Balance_effect:
  assumes "handleErc20Balance cfg ext db = Inr db'" and "erc20_ok db"
  shows "erc20_ok db'" and "net_range addr c db' = net_range addr c db"
    and "addr \<noteq> ZERO_ADDRESS \<Longrightarrow> address_balance addr c db' = address_balance addr c db +
      net_range addr c db (job_start (base_config cfg) HANDLE_ERC20_BALANCE (block_checkpoint db))
        (job_end (base_config cfg) HANDLE_ERC20_BALANCE (block_checkpoint db))"
proof -
  from assms(1) obtain db1 where
    work: "handleErc20Balance_work cfg ext (job_start (base_config cfg) HANDLE_ERC20_BALANCE (block_checkpoint db))
      (job_end (base_config cfg) HANDLE_ERC20_BALANCE (block_checkpoint db)) db = Inr db1"
    and db': "saved db1 db'"
    by (auto simp: handleErc20Balance_def range_job_unfold skips_def HANDLE_ERC20_BALANCE_def rbind_eq_Inr saved_def)
  note effect = handleErc20Balance_work_effect [OF work assms(2)]
  show "erc20_ok db'" and "net_range addr c db' = net_range addr c db"
    and "addr \<noteq> ZERO_ADDRESS \<Longrightarrow> address_balance addr c db' = address_balance addr c db +
      net_range addr c db (job_start (base_config cfg) HANDLE_ERC20_BALANCE (block_checkpoint db))
        (job_end (base_config cfg) HANDLE_ERC20_BALANCE (block_checkpoint db))"
    using effect by (simp_all add: saved_same [OF db'])
qed

lemma handleErc20Balance_checkpoint:
  assumes "handleErc20Balance cfg ext db = Inr db'"
  shows "block_checkpoint db' = checkpoint_run (base_config cfg) HANDLE_ERC20_BALANCE (block_checkpoint db)"
  using assms unfolding handleErc20Balance_def
  by (rule range_job_checkpoint) (rule handleErc20Balance_work_checkpoint)

interpretation erc20_balance_job: appending_job "base_config cfg" HANDLE_ERC20_BALANCE
    "handleErc20Balance cfg ext"
    "\<lambda>db. erc20_ok db \<and> addr \<noteq> ZERO_ADDRESS \<and> forward (base_config cfg) HANDLE_ERC20_BALANCE db"
    "\<lambda>db. net_range addr c db" "address_balance addr c"
  for cfg ext addr c
proof unfold_locales
  fix db db' :: "'a erc20_db_scheme" and a b d :: int
  assume le: "a \<le> b" "b \<le> d"
  show "net_range addr c db a d = net_range addr c db a b + net_range addr c db b d"
    unfolding net_range_def by (rule sum_list_range_split [OF le])
qed (auto simp: handleErc20Balance_effect handleErc20Balance_checkpoint forward_def skips_def
      HANDLE_ERC20_BALANCE_def [THEN arg_cong, of job_guard])

section \<open>The activity job\<close>

text \<open>
  What the events of a range contribute to the activities of one contract, stored. Inserting a
  row for an unknown contract can make older events of that contract eligible, so the claim is
  per contract the table knows.
\<close>

definition built_rows ::
  "erc20_config \<Rightarrow> erc20_ext \<Rightarrow> string \<Rightarrow> 'a erc20_db_scheme \<Rightarrow> int \<Rightarrow> int \<Rightarrow> int erc20_activity res multiset"
where
  "built_rows cfg ext c db a b =
     image_mset (store_activity ext)
       (filter_mset (\<lambda>act. act_contract act = c) (mset (buildErc20Activities cfg ext a b None db)))"

definition stored_rows :: "string \<Rightarrow> 'a erc20_db_scheme \<Rightarrow> int erc20_activity res multiset" where
  "stored_rows c db = image_mset Inr (filter_mset (\<lambda>act. act_contract act = c) (mset (erc20_activities db)))"

lemma mset_map_filter_range_split:
  assumes "a \<le> b" and "b \<le> c"
  shows "mset (List.map_filter (\<lambda>x. if in_range a c (h x) \<and> P x then g x else None) xs) =
    mset (List.map_filter (\<lambda>x. if in_range a b (h x) \<and> P x then g x else None) xs) +
    mset (List.map_filter (\<lambda>x. if in_range b c (h x) \<and> P x then g x else None) xs)"
  using assms by (induction xs) (auto simp: map_filter_simps in_range_def split: option.split)

lemma erc20_events_split:
  assumes "a \<le> b" and "b \<le> c"
  shows "mset (erc20_events a c addrs db) = mset (erc20_events a b addrs db) + mset (erc20_events b c addrs db)"
  unfolding erc20_events_def by (rule mset_map_filter_range_split [OF assms])

lemma erc20_cosmos_events_split:
  assumes "a \<le> b" and "b \<le> c"
  shows "mset (erc20_cosmos_events a c addrs db) =
    mset (erc20_cosmos_events a b addrs db) + mset (erc20_cosmos_events b c addrs db)"
proof -
  have split: "mset (concat (map (\<lambda>e. if in_range a c (ce_block_height e) \<and> P e then g e else []) es)) =
    mset (concat (map (\<lambda>e. if in_range a b (ce_block_height e) \<and> P e then g e else []) es)) +
    mset (concat (map (\<lambda>e. if in_range b c (ce_block_height e) \<and> P e then g e else []) es))"
    for P and g :: "cosmos_event \<Rightarrow> cosmos_event list" and es
    using assms by (induction es) (auto simp: in_range_def)
  show ?thesis unfolding erc20_cosmos_events_def by (rule split)
qed

lemma buildErc20Activities_split:
  assumes "a \<le> b" and "b \<le> c"
  shows "mset (buildErc20Activities cfg ext a c addrs db) =
    mset (buildErc20Activities cfg ext a b addrs db) + mset (buildErc20Activities cfg ext b c addrs db)"
  by (simp add: buildErc20Activities_def Let_def mset_map_filter_mset erc20_events_split [OF assms]
      erc20_cosmos_events_split [OF assms])

text \<open>Events of a contract the table knows are joined whatever other contracts it knows.\<close>

lemma build_evm_contract: "build_evm_activity cfg ext (e, sender) = Some act \<Longrightarrow> act_contract act = ev_address e"
  by (auto simp: build_evm_activity_def buildTransferActivity_def buildApprovalActivity_def
      buildWrapExtensionActivity_def buildWrapDepositActivity_def buildWrapWithdrawalActivity_def
      evm_activity_def rbind_eq_Inr split: if_splits)

lemma build_of_known_contract:
  assumes "evm_events db' = evm_events db" "cosmos_events db' = cosmos_events db"
    "evm_smart_contracts db' = evm_smart_contracts db" "evm_transactions db' = evm_transactions db"
    "erc20_contracts db c \<noteq> None \<longleftrightarrow> erc20_contracts db' c \<noteq> None"
  shows "filter_mset (\<lambda>act. act_contract act = c) (mset (buildErc20Activities cfg ext a b addrs db')) =
    filter_mset (\<lambda>act. act_contract act = c) (mset (buildErc20Activities cfg ext a b addrs db))"
proof -
  have cosmos: "erc20_cosmos_events a b addrs db' = erc20_cosmos_events a b addrs db"
    by (simp add: erc20_cosmos_events_def assms(2))
  have "filter (\<lambda>act. act_contract act = c) (List.map_filter (build_evm_activity cfg ext)
        (List.map_filter (\<lambda>e. if in_range a b (ev_block_height e) \<and> ev_address e \<in> S \<and>
            T (ev_address e) \<noteq> None \<and> Q e then map_option (\<lambda>sender. (e, sender)) (M (ev_evm_tx_id e)) else None) es)) =
      filter (\<lambda>act. act_contract act = c) (List.map_filter (build_evm_activity cfg ext)
        (List.map_filter (\<lambda>e. if in_range a b (ev_block_height e) \<and> ev_address e \<in> S \<and>
            T' (ev_address e) \<noteq> None \<and> Q e then map_option (\<lambda>sender. (e, sender)) (M (ev_evm_tx_id e)) else None) es))"
    if "T c \<noteq> None \<longleftrightarrow> T' c \<noteq> None" for S Q es and T T' :: "string \<rightharpoonup> erc20_contract" and M :: "int \<rightharpoonup> string option"
    using that by (induction es) (auto simp: map_filter_simps dest!: build_evm_contract split: option.splits)
  from this [where T = "erc20_contracts db'" and T' = "erc20_contracts db"] assms
  have "filter (\<lambda>act. act_contract act = c) (List.map_filter (build_evm_activity cfg ext) (erc20_events a b addrs db')) =
    filter (\<lambda>act. act_contract act = c) (List.map_filter (build_evm_activity cfg ext) (erc20_events a b addrs db))"
    unfolding erc20_events_def assms(1-4) by simp
  then have "filter_mset (\<lambda>act. act_contract act = c) (mset (List.map_filter (build_evm_activity cfg ext) (erc20_events a b addrs db'))) =
    filter_mset (\<lambda>act. act_contract act = c) (mset (List.map_filter (build_evm_activity cfg ext) (erc20_events a b addrs db)))"
    by (metis mset_filter)
  then show ?thesis by (simp add: buildErc20Activities_def Let_def cosmos)
qed

lemma rmap_mset: "rmap f xs = Inr ys \<Longrightarrow> image_mset f (mset xs) = image_mset Inr (mset ys)"
  unfolding rmap_eq_Inr by (induction rule: list_all2_induct) auto

lemma store_activity_contract: "store_activity ext act = Inr row \<Longrightarrow> act_contract row = act_contract act"
  by (auto simp: store_activity_def rbind_eq_Inr)

lemma insert_activities_rows:
  assumes "insert_activities ext acts db = Inr db'"
  shows "stored_rows c db' = stored_rows c db +
    image_mset (store_activity ext) (filter_mset (\<lambda>act. act_contract act = c) (mset acts))"
proof -
  from assms obtain rows where rows: "rmap (store_activity ext) acts = Inr rows"
    and db': "db' = db\<lparr>erc20_activities := erc20_activities db @ rows\<rparr>"
    by (auto simp: insert_activities_def rbind_eq_Inr)
  from rows have "image_mset (store_activity ext) (filter_mset (\<lambda>act. act_contract act = c) (mset acts)) =
      image_mset Inr (filter_mset (\<lambda>act. act_contract act = c) (mset rows))"
    unfolding rmap_eq_Inr by (induction rule: list_all2_induct) (auto simp: store_activity_contract)
  with db' show ?thesis by (simp add: stored_rows_def)
qed

lemma handleMissing_keeps:
  assumes "handleMissingErc20Contract ext acts db = Inr db1"
  shows "\<exists>tbl. db1 = db\<lparr>erc20_contracts := tbl\<rparr> \<and> (\<forall>c. erc20_contracts db c \<noteq> None \<longrightarrow> tbl c \<noteq> None)"
proof -
  from assms obtain rows where "db1 = db\<lparr>erc20_contracts := upsert_contracts rows (erc20_contracts db)\<rparr>"
    by (auto simp: handleMissingErc20Contract_def Let_def rbind_eq_Inr)
  moreover have "upsert_contracts rows (erc20_contracts db) c \<noteq> None" if "erc20_contracts db c \<noteq> None" for c
    using that by (auto simp: upsert_contracts_def map_add_def split: option.splits)
  ultimately show ?thesis by blast
qed

lemma handleErc20Activity_work_effect:
  assumes "handleErc20Activity_work cfg ext s e db = Inr db'"
  shows "block_checkpoint db' = block_checkpoint db"
    and "stored_rows c db' = stored_rows c db + built_rows cfg ext c db s e"
    and "erc20_contracts db c \<noteq> None \<Longrightarrow> built_rows cfg ext c db' = built_rows cfg ext c db"
    and "erc20_contracts db c \<noteq> None \<Longrightarrow> erc20_contracts db' c \<noteq> None"
proof -
  from assms obtain db1 where miss: "handleMissingErc20Contract ext (buildErc20Activities cfg ext s e None db) db = Inr db1"
    and ins: "insert_activities ext (buildErc20Activities cfg ext s e None db) db1 = Inr db'"
    by (auto simp: handleErc20Activity_work_def Let_def rbind_eq_Inr)
  from handleMissing_keeps [OF miss] obtain tbl where db1: "db1 = db\<lparr>erc20_contracts := tbl\<rparr>"
    and tbl: "\<And>c. erc20_contracts db c \<noteq> None \<Longrightarrow> tbl c \<noteq> None" by blast
  from ins obtain rows where db': "db' = db1\<lparr>erc20_activities := erc20_activities db1 @ rows\<rparr>"
    by (auto simp: insert_activities_def rbind_eq_Inr)
  show "block_checkpoint db' = block_checkpoint db" by (simp add: db' db1)
  show "stored_rows c db' = stored_rows c db + built_rows cfg ext c db s e"
    using insert_activities_rows [OF ins, of c] by (simp add: db1 stored_rows_def built_rows_def)
  show "erc20_contracts db c \<noteq> None \<Longrightarrow> erc20_contracts db' c \<noteq> None" using tbl by (simp add: db' db1)
  assume "erc20_contracts db c \<noteq> None"
  then have "filter_mset (\<lambda>act. act_contract act = c) (mset (buildErc20Activities cfg ext a b None db')) =
      filter_mset (\<lambda>act. act_contract act = c) (mset (buildErc20Activities cfg ext a b None db))" for a b
    using tbl [of c] by (intro build_of_known_contract) (simp_all add: db' db1)
  then show "built_rows cfg ext c db' = built_rows cfg ext c db"
    by (simp add: built_rows_def fun_eq_iff)
qed

lemma built_rows_saved: "built_rows cfg ext c (saveCheckpoint row db) = built_rows cfg ext c db"
proof -
  have "erc20_events a b None (saveCheckpoint row db) = erc20_events a b None db"
    and "erc20_cosmos_events a b None (saveCheckpoint row db) = erc20_cosmos_events a b None db" for a b
    unfolding erc20_events_def erc20_cosmos_events_def saveCheckpoint_def by (simp_all cong: if_cong)
  then show ?thesis by (simp add: built_rows_def fun_eq_iff buildErc20Activities_def)
qed

lemma handleErc20Activity_cases:
  assumes "handleErc20Activity cfg ext db = Inr db'"
  obtains db1 row where
    "handleErc20Activity_work cfg ext (job_start (base_config cfg) HANDLE_ERC20_ACTIVITY (block_checkpoint db))
      (job_end (base_config cfg) HANDLE_ERC20_ACTIVITY (block_checkpoint db)) db = Inr db1"
    "db' = saveCheckpoint row db1"
  using assms by (auto simp: handleErc20Activity_def range_job_unfold skips_def HANDLE_ERC20_ACTIVITY_def rbind_eq_Inr)

lemma handleErc20Activity_effect:
  assumes "handleErc20Activity cfg ext db = Inr db'" and "erc20_contracts db c \<noteq> None"
  shows "stored_rows c db' = stored_rows c db +
      built_rows cfg ext c db (job_start (base_config cfg) HANDLE_ERC20_ACTIVITY (block_checkpoint db))
        (job_end (base_config cfg) HANDLE_ERC20_ACTIVITY (block_checkpoint db))"
    and "built_rows cfg ext c db' = built_rows cfg ext c db"
proof -
  obtain db1 row where work: "handleErc20Activity_work cfg ext
      (job_start (base_config cfg) HANDLE_ERC20_ACTIVITY (block_checkpoint db))
      (job_end (base_config cfg) HANDLE_ERC20_ACTIVITY (block_checkpoint db)) db = Inr db1"
    and db': "db' = saveCheckpoint row db1"
    using assms(1) by (rule handleErc20Activity_cases)
  have "stored_rows c db' = stored_rows c db1" by (simp add: db' stored_rows_def saveCheckpoint_def)
  then show "stored_rows c db' = stored_rows c db +
      built_rows cfg ext c db (job_start (base_config cfg) HANDLE_ERC20_ACTIVITY (block_checkpoint db))
        (job_end (base_config cfg) HANDLE_ERC20_ACTIVITY (block_checkpoint db))"
    using handleErc20Activity_work_effect(2) [OF work] by simp
  show "built_rows cfg ext c db' = built_rows cfg ext c db"
    using handleErc20Activity_work_effect(3) [OF work assms(2)] by (simp add: db' built_rows_saved)
qed

interpretation erc20_activity_job: appending_job "base_config cfg" HANDLE_ERC20_ACTIVITY
    "handleErc20Activity cfg ext"
    "\<lambda>db. erc20_contracts db c \<noteq> None \<and> forward (base_config cfg) HANDLE_ERC20_ACTIVITY db"
    "\<lambda>db. built_rows cfg ext c db" "stored_rows c"
  for cfg ext c
proof unfold_locales
  fix db db' :: "'a erc20_db_scheme" and a b d :: int
  show "block_checkpoint db' = checkpoint_run (base_config cfg) HANDLE_ERC20_ACTIVITY (block_checkpoint db)"
    if "handleErc20Activity cfg ext db = Inr db'"
    using that unfolding handleErc20Activity_def
    by (rule range_job_checkpoint) (rule handleErc20Activity_work_effect(1))
  show "built_rows cfg ext c db a d = built_rows cfg ext c db a b + built_rows cfg ext c db b d"
    if "a \<le> b" "b \<le> d"
    by (simp add: built_rows_def buildErc20Activities_split [OF that])
qed (auto simp: handleErc20Activity_effect forward_def skips_def
      HANDLE_ERC20_ACTIVITY_def [THEN arg_cong, of job_guard])

section \<open>The reindexer\<close>

lemma process_other_contract:
  assumes "process_activity a st = Inr st'" and "act_contract (activity a) \<noteq> c"
  shows "erc20Contracts st' c = erc20Contracts st c"
proof (cases "changes_balance a")
  case True
  have put: "erc20Contracts (put_supply a k n s) c = erc20Contracts s c" for k n s
    using assms(2) by (simp add: put_supply_def)
  from True assms obtain st1 where src: "handle_from a st = Inr st1" and dst: "handle_to a st1 = Inr st'"
    by (auto simp: process_activity_def handlerErc20Transfer_def rbind_eq_Inr split: option.splits)
  have "erc20Contracts st1 c = erc20Contracts st c"
    by (cases rule: handle_from_cases [OF src]) (simp_all add: put)
  moreover have "erc20Contracts st' c = erc20Contracts st1 c"
    by (cases rule: handle_to_cases [OF dst]) (simp_all add: put)
  ultimately show ?thesis by simp
qed (use assms in \<open>simp add: process_activity_def\<close>)

lemma process_list_other_contract:
  assumes "rfold process_activity acts st = Inr st'" and "\<forall>a\<in>set acts. act_contract (activity a) \<noteq> c"
  shows "erc20Contracts st' c = erc20Contracts st c"
  by (rule rfold_invariant [OF assms(1), where I = "\<lambda>s. erc20Contracts s c = erc20Contracts st c"])
    (use assms(2) in \<open>auto simp: process_other_contract\<close>)

lemma delete_rows_ok:
  assumes "erc20_ok db"
  shows "erc20_ok (delete_erc20_rows addr db)"
    and "account_balances (delete_erc20_rows addr db) (balance_key i addr) = None"
    and "c \<noteq> addr \<Longrightarrow> address_balance holder c (delete_erc20_rows addr db) = address_balance holder c db"
    and "holders_total (db_handler (delete_erc20_rows addr db)) addr = 0"
proof -
  let ?m = "\<lambda>k. case account_balances db k of None \<Rightarrow> None | Some b \<Rightarrow> if ab_denom b = addr then None else Some b"
  have sub: "?m k = Some b \<Longrightarrow> account_balances db k = Some b \<and> ab_denom b \<noteq> addr" for k b
    by (simp split: option.splits if_splits)
  have wf: "wf_balances (account_balances db)" using assms by (simp add: erc20_ok_def)
  have dom: "dom ?m \<subseteq> dom (account_balances db)" by (auto split: option.splits)
  have "wf_balances ?m"
    using wf sub finite_subset [OF dom] unfolding wf_balances_def by blast
  moreover have "ran ?m \<subseteq> ran (account_balances db)" using sub by (auto simp: ran_def)
  ultimately show "erc20_ok (delete_erc20_rows addr db)"
    using assms by (auto simp: erc20_ok_def delete_erc20_rows_def)
  show "account_balances (delete_erc20_rows addr db) (balance_key i addr) = None"
    using wf_balances_key [OF wf, of i addr]
    by (cases "account_balances db (balance_key i addr)") (auto simp: delete_erc20_rows_def)
  show "address_balance holder c (delete_erc20_rows addr db) = address_balance holder c db" if "c \<noteq> addr"
    using that wf_balances_key [OF wf, of _ c]
    by (auto simp: address_balance_def delete_erc20_rows_def split: option.split)
  have "msum (\<lambda>b. if ab_denom b = addr then amount_or_0 (Some b) else 0) ?m = 0"
    unfolding msum_def by (rule sum.neutral) (auto dest: sub)
  then show "holders_total (db_handler (delete_erc20_rows addr db)) addr = 0"
    by (simp add: holders_total_def db_handler_def delete_erc20_rows_def)
qed

lemma stop_tracking_same:
  "erc20_ok (stop_tracking addr db) = erc20_ok db"
  "address_balance holder c (stop_tracking addr db) = address_balance holder c db"
  "c \<noteq> addr \<Longrightarrow> erc20_contracts (stop_tracking addr db) c = erc20_contracts db c"
  "erc20_activities (stop_tracking addr db) = erc20_activities db"
  by (auto simp: stop_tracking_def erc20_ok_def address_balance_def split: option.split)

text \<open>The state a successful reindex replays from, and the replay.\<close>

lemma erc20_reindex_cases:
  assumes "erc20_reindex cfg ext addr db = Inr db'" and "erc20_ok db"
  obtains db2 rows where "erc20_ok db2"
    "erc20_activities db2 = filter (\<lambda>act. act_contract act \<noteq> addr) (erc20_activities db) @ rows"
    "supply_of (db_handler db2) addr = Some 0" "is_tracked (erc20_contracts db2) addr"
    "holders_total (db_handler db2) addr = 0"
    "\<forall>i. account_balances db2 (balance_key i addr) = None"
    "\<forall>c. c \<noteq> addr \<longrightarrow> erc20_contracts db2 c = erc20_contracts db c"
    "\<forall>holder c. c \<noteq> addr \<longrightarrow> address_balance holder c db2 = address_balance holder c db"
    "account db2 = account db"
    "updateErc20AccountsBalance (getErc20Activities 0 (getBlockNumber ext) (Some [addr]) db2) db2 = Inr db'"
proof -
  let ?db0 = "stop_tracking addr db"
  from assms(1) obtain i acts db2 where
    ins: "insert_activities ext acts (insert_reindexed_contract ext i addr (delete_erc20_rows addr ?db0)) = Inr db2"
    and upd: "updateErc20AccountsBalance (getErc20Activities 0 (getBlockNumber ext) (Some [addr]) db2) db2 = Inr db'"
    by (auto simp: erc20_reindex_def reindex_transaction_def Let_def rbind_eq_Inr split: option.splits if_splits)
  from ins obtain rows where
    db2: "db2 = (insert_reindexed_contract ext i addr (delete_erc20_rows addr ?db0))
      \<lparr>erc20_activities := erc20_activities (insert_reindexed_contract ext i addr (delete_erc20_rows addr ?db0)) @ rows\<rparr>"
    by (auto simp: insert_activities_def rbind_eq_Inr)
  have ok0: "erc20_ok ?db0" using assms(2) by (simp add: stop_tracking_same)
  note del = delete_rows_ok [OF ok0, where addr = addr]
  have acct: "account ?db0 = account db" by (simp add: stop_tracking_def split: option.split)
  have same: "account_balances db2 = account_balances (delete_erc20_rows addr ?db0)"
    "account db2 = account (delete_erc20_rows addr ?db0)"
    "erc20_contracts db2 = (erc20_contracts ?db0)(addr \<mapsto>
      (erc20_instance ext i addr True (Some (getBlockNumber ext)))\<lparr>ec_total_supply := Some 0\<rparr>)"
    by (simp_all add: db2 insert_reindexed_contract_def delete_erc20_rows_def)
  show thesis
  proof (rule that)
    show "erc20_ok db2" using del(1) same by (simp add: erc20_ok_def)
    show "erc20_activities db2 = filter (\<lambda>act. act_contract act \<noteq> addr) (erc20_activities db) @ rows"
      by (simp add: db2 insert_reindexed_contract_def delete_erc20_rows_def stop_tracking_same)
    show "supply_of (db_handler db2) addr = Some 0" "is_tracked (erc20_contracts db2) addr"
      by (simp_all add: supply_of_def db_handler_def same(3) is_tracked_def erc20_instance_def Let_def)
    show "holders_total (db_handler db2) addr = 0"
      using del(4) same(1) by (simp add: holders_total_def db_handler_def)
    show "\<forall>i. account_balances db2 (balance_key i addr) = None" using del(2) same(1) by simp
    show "\<forall>c. c \<noteq> addr \<longrightarrow> erc20_contracts db2 c = erc20_contracts db c"
      using same(3) by (simp add: stop_tracking_same)
    show "\<forall>holder c. c \<noteq> addr \<longrightarrow> address_balance holder c db2 = address_balance holder c db"
    proof (intro allI impI)
      fix holder c assume "c \<noteq> addr"
      have "address_balance holder c db2 = address_balance holder c (delete_erc20_rows addr ?db0)"
        unfolding address_balance_def same(1,2) ..
      also have "\<dots> = address_balance holder c db"
        using del(3) [OF \<open>c \<noteq> addr\<close>] by (simp add: stop_tracking_same)
      finally show "address_balance holder c db2 = address_balance holder c db" .
    qed
    show "account db2 = account db" using same(2) acct by (simp add: delete_erc20_rows_def)
  qed (rule upd)
qed

definition reindexed_activities :: "erc20_ext \<Rightarrow> string \<Rightarrow> 'a erc20_db_scheme \<Rightarrow> joined_activity list" where
  "reindexed_activities ext addr db = getErc20Activities 0 (getBlockNumber ext) (Some [addr]) db"

section \<open>Properties\<close>

text \<open>A database for the witnesses: the two activities of the handler's sample, stored and tracked.\<close>

definition sample_ext :: erc20_ext where
  "sample_ext =
     \<lparr>topic_TRANSFER = ''T'', topic_APPROVAL = ''A'', topic_DEPOSIT = ''D'', topic_WITHDRAWAL = ''W'',
      decodeAbi_address_address_uint =
        (\<lambda>s. if length s < 6 then None else Some (take 3 s, take 3 (drop 3 s), int (digits_value (drop 6 s)))),
      decodeAbi_address_uint = (\<lambda>s. None), viem_toHex = (\<lambda>d. map_option (\<lambda>s. ''0x'' @ s) d),
      pg_numeric = (\<lambda>s. map_option int (js_parseInt s)),
      readErc20 = (\<lambda>_. \<lparr>info_name = None, info_symbol = None, info_decimals = None, info_totalSupply = None\<rparr>),
      getBlockNumber = 9, codec_of = sample_codec\<rparr>"

definition sample_erc20_config :: erc20_config where
  "sample_erc20_config =
     \<lparr>base_config = sample_config, networkPrefixAddress = ''aura'', evmOnly = True, wrapExtensionContract = []\<rparr>"

definition sample_event :: "int \<Rightarrow> string \<Rightarrow> string \<Rightarrow> string \<Rightarrow> evm_event" where
  "sample_event h src dst amount =
     \<lparr>ev_id = h, ev_tx_id = Some h, ev_evm_tx_id = 1, ev_address = ''0xc'', ev_topic0 = Some ''T'',
      ev_topic1 = Some src, ev_topic2 = Some (''0x'' @ dst), ev_topic3 = None, ev_data = Some amount,
      ev_block_height = h, ev_tx_hash = ''0xt''\<rparr>"

definition sample_erc20_db :: erc20_db where
  "sample_erc20_db =
     \<lparr>block_checkpoint = [''handle:erc20-activity'' \<mapsto> 8, ''handle:erc20-contract'' \<mapsto> 9],
      account = [\<lparr>acc_id = 1, acc_address = ''aura1'', acc_evm_address = Some ''0xa''\<rparr>,
                 \<lparr>acc_id = 2, acc_address = ''aura2'', acc_evm_address = Some ''0xb''\<rparr>,
                 \<lparr>acc_id = 3, acc_address = ''aura3'', acc_evm_address = Some ZERO_ADDRESS\<rparr>],
      account_seq = 4, attribute_rows = [], update_account_calls = [],
      evm_events = [sample_event 9 ''0xa'' ''0xb'' ''25''], cosmos_events = [],
      evm_smart_contracts = [\<lparr>sc_id = 7, sc_address = ''0xc'', sc_type = Some ''ERC20'', sc_created_height = Some 1\<rparr>],
      evm_transactions = [1 \<mapsto> Some ''0xa''],
      erc20_contracts = [''0xc'' \<mapsto> sample_contract],
      erc20_activities = [sample_activity ZERO_ADDRESS ''0xa'' 100 5, sample_activity ''0xa'' ''0xb'' 30 6],
      account_balances = Map.empty\<rparr>"

lemma sample_erc20_ok: "erc20_ok sample_erc20_db"
proof -
  have "unique_accounts (account sample_erc20_db)" by code_simp
  then show ?thesis by (simp add: erc20_ok_def sample_erc20_db_def wf_balances_def)
qed

text \<open>
  Updating the stored balances from a list of activities is the same in one batch as in two:
  a run over the concatenation succeeds with a result exactly when the first batch and then
  the second succeed with it. So the division of heights into runs does not matter.
\<close>

theorem erc20_update_incremental:
  assumes "erc20_ok db" and "joined_ok (account db) (xs @ ys)"
  shows "updateErc20AccountsBalance (xs @ ys) db = Inr db' \<longleftrightarrow>
    (\<exists>db1. updateErc20AccountsBalance xs db = Inr db1 \<and> updateErc20AccountsBalance ys db1 = Inr db')"
proof -
  have xs: "joined_ok (account db) xs" and ys: "joined_ok (account db) ys"
    using assms(2) by (auto simp: joined_ok_def)
  have second: "updateErc20AccountsBalance ys db1 = Inr db' \<longleftrightarrow>
      (\<exists>st'. rfold process_activity ys st = Inr st' \<and> null_free (accountBalances st') \<and>
        db' = db\<lparr>erc20_contracts := erc20Contracts st', account_balances := accountBalances st'\<rparr>)"
    if "updateErc20AccountsBalance xs db = Inr db1" "rfold process_activity xs (db_handler db) = Inr st"
      "db1 = db\<lparr>erc20_contracts := erc20Contracts st, account_balances := accountBalances st\<rparr>" for db1 st
    using updateErc20AccountsBalance_iff [of db1 ys db'] erc20_ok_update [OF assms(1) xs that(1)] ys
      db_handler_updated [OF that(2)] that(3)
    by auto
  show ?thesis
    unfolding updateErc20AccountsBalance_iff [OF assms] rfold_append
    using second updateErc20AccountsBalance_iff [OF assms(1) xs] process_list_append_null
    by (auto simp: rbind_eq_Inr)
qed

theorem erc20_update_incremental_witness:
  "\<exists>db1 db'. updateErc20AccountsBalance (getErc20Activities 0 5 None sample_erc20_db) sample_erc20_db = Inr db1
     \<and> updateErc20AccountsBalance (getErc20Activities 5 6 None sample_erc20_db) db1 = Inr db'"
proof -
  let ?xs = "getErc20Activities 0 5 None sample_erc20_db" and ?ys = "getErc20Activities 5 6 None sample_erc20_db"
  have "\<not> isl (updateErc20AccountsBalance (?xs @ ?ys) sample_erc20_db)" by code_simp
  then obtain db' where "updateErc20AccountsBalance (?xs @ ?ys) sample_erc20_db = Inr db'"
    by (metis sum.collapse(2))
  moreover have "joined_ok (account sample_erc20_db) (?xs @ ?ys)"
    using getErc20Activities_joined [of sample_erc20_db 0 5 None] getErc20Activities_joined [of sample_erc20_db 5 6 None]
    by (auto simp: joined_ok_def)
  ultimately show ?thesis
    using erc20_update_incremental [OF sample_erc20_ok, of ?xs ?ys db'] by blast
qed

text \<open>
  C4. When the balance job, which has no guard, is started only while the end of its range is not
  behind its start, and only on tables in order (ids and addresses of accounts are distinct, balances
  are keyed by account and denom, and their accounts exist), then, however its runs interleave with
  other jobs that leave its checkpoint, its balances and the activities of passed heights alone, the
  balance stored for an address other than the zero address under a contract is what it was at first plus the
  net of that contract's tracked activities at the heights passed since, each counted exactly once.
\<close>

theorem erc20_balance_exactly_once:
  assumes "job_trace (handleErc20Balance cfg ext)
      (\<lambda>db. erc20_ok db \<and> addr \<noteq> ZERO_ADDRESS \<and> forward (base_config cfg) HANDLE_ERC20_BALANCE db)
      (settled_env (\<lambda>db. job_start (base_config cfg) HANDLE_ERC20_BALANCE (block_checkpoint db))
        (address_balance addr c) (net_range addr c)) db0 db"
  shows "address_balance addr c db = address_balance addr c db0 +
    net_range addr c db (job_start (base_config cfg) HANDLE_ERC20_BALANCE (block_checkpoint db0))
      (job_start (base_config cfg) HANDLE_ERC20_BALANCE (block_checkpoint db))"
  using erc20_balance_job.exactly_once [OF assms] by simp

theorem erc20_balance_exactly_once_witness:
  "\<exists>db. handleErc20Balance sample_erc20_config sample_ext sample_erc20_db = Inr db \<and>
     address_balance ''0xa'' ''0xc'' db = 70"
proof -
  let ?start = "\<lambda>db. job_start (base_config sample_erc20_config) HANDLE_ERC20_BALANCE (block_checkpoint db)"
  have "\<not> isl (handleErc20Balance sample_erc20_config sample_ext sample_erc20_db)" by code_simp
  then obtain db where run: "handleErc20Balance sample_erc20_config sample_ext sample_erc20_db = Inr db"
    by (metis sum.collapse(2))
  have "addr_ok \<noteq> ZERO_ADDRESS" if "addr_ok = ''0xa''" for addr_ok using that by (simp add: ZERO_ADDRESS_def)
  moreover have range: "?start sample_erc20_db = 0"
    "job_end (base_config sample_erc20_config) HANDLE_ERC20_BALANCE (block_checkpoint sample_erc20_db) = 8"
    by code_simp+
  ultimately have trace: "job_trace (handleErc20Balance sample_erc20_config sample_ext)
      (\<lambda>db. erc20_ok db \<and> ''0xa'' \<noteq> ZERO_ADDRESS \<and> forward (base_config sample_erc20_config) HANDLE_ERC20_BALANCE db)
      (settled_env ?start (address_balance ''0xa'' ''0xc'') (net_range ''0xa'' ''0xc'')) sample_erc20_db db"
    using sample_erc20_ok by (intro trace_one run) (simp add: forward_def)
  have "?start db = 8"
    using handleErc20Balance_checkpoint [OF run] range
    by (simp add: job_start_checkpoint_run skips_def HANDLE_ERC20_BALANCE_def [THEN arg_cong, of job_guard])
  moreover have "net_range ''0xa'' ''0xc'' db 0 8 = net_range ''0xa'' ''0xc'' sample_erc20_db 0 8"
    using handleErc20Balance_effect(2) [OF run sample_erc20_ok] by simp
  moreover have "net_range ''0xa'' ''0xc'' sample_erc20_db 0 8 = 70"
    "address_balance ''0xa'' ''0xc'' sample_erc20_db = 0"
    by code_simp+
  ultimately show ?thesis
    using run range erc20_balance_exactly_once [OF trace] by auto
qed

text \<open>
  However the activity job's runs interleave with the other jobs, the stored activities of a
  contract that the contract table knows are those stored at first and, exactly once each, the
  activities that the events of the heights passed since give rise to.
\<close>

theorem erc20_activity_exactly_once:
  assumes "job_trace (handleErc20Activity cfg ext)
      (\<lambda>db. erc20_contracts db c \<noteq> None \<and> forward (base_config cfg) HANDLE_ERC20_ACTIVITY db)
      (settled_env (\<lambda>db. job_start (base_config cfg) HANDLE_ERC20_ACTIVITY (block_checkpoint db))
        (stored_rows c) (built_rows cfg ext c)) db0 db"
  shows "stored_rows c db = stored_rows c db0 +
    built_rows cfg ext c db (job_start (base_config cfg) HANDLE_ERC20_ACTIVITY (block_checkpoint db0))
      (job_start (base_config cfg) HANDLE_ERC20_ACTIVITY (block_checkpoint db))"
  using erc20_activity_job.exactly_once [OF assms] by simp

theorem erc20_activity_exactly_once_witness:
  "\<exists>db. handleErc20Activity sample_erc20_config sample_ext sample_erc20_db = Inr db \<and>
     stored_rows ''0xc'' db = stored_rows ''0xc'' sample_erc20_db + built_rows sample_erc20_config sample_ext ''0xc'' db 8 9"
proof -
  let ?start = "\<lambda>db. job_start (base_config sample_erc20_config) HANDLE_ERC20_ACTIVITY (block_checkpoint db)"
  have "\<not> isl (handleErc20Activity sample_erc20_config sample_ext sample_erc20_db)" by code_simp
  then obtain db where run: "handleErc20Activity sample_erc20_config sample_ext sample_erc20_db = Inr db"
    by (metis sum.collapse(2))
  have range: "?start sample_erc20_db = 8"
    "job_end (base_config sample_erc20_config) HANDLE_ERC20_ACTIVITY (block_checkpoint sample_erc20_db) = 9"
    by code_simp+
  have "erc20_contracts sample_erc20_db ''0xc'' \<noteq> None" by (simp add: sample_erc20_db_def)
  then have trace: "job_trace (handleErc20Activity sample_erc20_config sample_ext)
      (\<lambda>db. erc20_contracts db ''0xc'' \<noteq> None \<and> forward (base_config sample_erc20_config) HANDLE_ERC20_ACTIVITY db)
      (settled_env ?start (stored_rows ''0xc'') (built_rows sample_erc20_config sample_ext ''0xc'')) sample_erc20_db db"
    using range by (intro trace_one run) (simp add: forward_def)
  have "?start db = 9"
    using erc20_activity_job.run_checkpoint [OF run] range
    by (simp add: job_start_checkpoint_run skips_def HANDLE_ERC20_ACTIVITY_def [THEN arg_cong, of job_guard])
  with run range erc20_activity_exactly_once [OF trace] show ?thesis by auto
qed

text \<open>
  A successful reindex of a contract rebuilds it from its activities alone: every holder's
  balance is the net of the stored activities, the total supply is what they mint minus what
  they burn, the balances add up to that supply, the contract is tracked again, and the rows of
  the other contracts and their balances are as they were.
\<close>

theorem erc20_reindex_rebuilds:
  assumes "erc20_reindex cfg ext addr db = Inr db'" and "erc20_ok db" and "holder \<noteq> ZERO_ADDRESS"
  shows "address_balance holder addr db' = sum_list (map (net_of holder addr \<circ> activity) (reindexed_activities ext addr db'))
    \<and> supply_of (db_handler db') addr = Some (sum_list (map (minted addr) (reindexed_activities ext addr db')) - sum_list (map (burnt addr) (reindexed_activities ext addr db')))
    \<and> supply_of (db_handler db') addr = Some (holders_total (db_handler db') addr)
    \<and> is_tracked (erc20_contracts db') addr
    \<and> (\<forall>c. c \<noteq> addr \<longrightarrow> erc20_contracts db' c = erc20_contracts db c
         \<and> address_balance holder c db' = address_balance holder c db)"
proof -
  obtain db2 rows where ok: "erc20_ok db2"
    and fresh: "supply_of (db_handler db2) addr = Some 0" "is_tracked (erc20_contracts db2) addr"
      "holders_total (db_handler db2) addr = 0" "\<forall>i. account_balances db2 (balance_key i addr) = None"
    and others: "\<forall>c. c \<noteq> addr \<longrightarrow> erc20_contracts db2 c = erc20_contracts db c"
      "\<forall>holder c. c \<noteq> addr \<longrightarrow> address_balance holder c db2 = address_balance holder c db"
    and upd: "updateErc20AccountsBalance (reindexed_activities ext addr db2) db2 = Inr db'"
    using assms(1,2) unfolding reindexed_activities_def by (rule erc20_reindex_cases)
  have joined: "joined_ok (account db2) (reindexed_activities ext addr db2)" unfolding reindexed_activities_def by (rule getErc20Activities_joined)
  obtain st where st: "rfold process_activity (reindexed_activities ext addr db2) (db_handler db2) = Inr st"
    and db': "db' = db2\<lparr>erc20_contracts := erc20Contracts st, account_balances := accountBalances st\<rparr>"
    using upd updateErc20AccountsBalance_iff [OF ok joined] by blast
  have handler: "db_handler db' = st" unfolding db' by (rule db_handler_updated [OF st])
  have "is_tracked (erc20_contracts db') = is_tracked (erc20_contracts db2)"
    by (rule update_keeps(3) [OF ok joined upd])
  then have acts: "reindexed_activities ext addr db' = reindexed_activities ext addr db2" and tracked: "is_tracked (erc20_contracts db') addr"
    using fresh(2) by (simp_all add: reindexed_activities_def getErc20Activities_def db')
  have only: "\<forall>a\<in>set (reindexed_activities ext addr db2). act_contract (activity a) = addr"
    by (auto simp: reindexed_activities_def getErc20Activities_def)
  have start: "address_balance holder addr db2 = 0"
    using fresh(4) by (simp add: address_balance_def amount_or_0_def split: option.split)
  have net0: "sum_list (map (net_of holder c \<circ> activity) (reindexed_activities ext addr db2)) = 0" if "c \<noteq> addr" for c
  proof -
    have "map (net_of holder c \<circ> activity) (reindexed_activities ext addr db2) = map (\<lambda>_. 0) (reindexed_activities ext addr db2)"
      using that only by (auto simp: net_of_def)
    then show ?thesis by (metis sum_list_0)
  qed
  have "wf_balances (accountBalances (db_handler db2))" using ok by (simp add: erc20_ok_def db_handler_def)
  then have "supply_of st addr \<noteq> None \<and> float_of st addr = float_of (db_handler db2) addr"
    using process_list_float [OF st] fresh(1) by simp
  then have total: "supply_of st addr = Some (holders_total st addr)"
    using fresh(1,3) by (auto simp: float_of_def)
  have "supply_of st addr = Some (sum_list (map (minted addr) (reindexed_activities ext addr db2)) - sum_list (map (burnt addr) (reindexed_activities ext addr db2)))"
    using process_list_effect(2) [OF st, of addr] fresh(1) by simp
  moreover have "erc20_contracts db' c = erc20_contracts db c" if "c \<noteq> addr" for c
    using process_list_other_contract [OF st, of c] only that others(1) by (simp add: db' db_handler_def)
  moreover have "address_balance holder c db' = address_balance holder c db" if "c \<noteq> addr" for c
    using update_address_balance [OF ok joined upd assms(3), of c] net0 [OF that] others(2) that by simp
  ultimately show ?thesis
    using update_address_balance [OF ok joined upd assms(3), of addr] start total tracked
    by (simp add: handler acts)
qed

theorem erc20_reindex_rebuilds_witness:
  "\<exists>db'. erc20_reindex sample_erc20_config sample_ext ''0xc'' sample_erc20_db = Inr db'
     \<and> supply_of (db_handler db') ''0xc'' = Some (holders_total (db_handler db') ''0xc'')
     \<and> is_tracked (erc20_contracts db') ''0xc''"
proof -
  have "\<not> isl (erc20_reindex sample_erc20_config sample_ext ''0xc'' sample_erc20_db)" by code_simp
  then obtain db' where run: "erc20_reindex sample_erc20_config sample_ext ''0xc'' sample_erc20_db = Inr db'"
    by (metis sum.collapse(2))
  have "''0xa'' \<noteq> ZERO_ADDRESS" by (simp add: ZERO_ADDRESS_def)
  from erc20_reindex_rebuilds [OF run sample_erc20_ok this] run show ?thesis by blast
qed

end
