(* ===== verification/Erc721.thy ===== *)
theory Erc721
  imports Erc20_Service Json "HOL-Library.AList"
begin

text \<open>
  The ERC-721 indexer: the handler of \<^verbatim>\<open>src/services/evm/erc721_handler.ts\<close>, which replays transfers
  over the tokens loaded from the database, and the jobs of \<^verbatim>\<open>src/services/evm/erc721.service.ts\<close>
  that register contracts, store activities and tokens, and queue the tokens whose media is to
  be fetched. Its properties are in the theory of owners. Topic hashes, ABI decoding and the
  answers of contracts are the parameter \<open>erc721_ext\<close>.
\<close>

section \<open>Rows and parameters\<close>

definition ACTION_APPROVAL_FOR_ALL :: string where "ACTION_APPROVAL_FOR_ALL = ''approval_for_all''"

text \<open>
  The field \<^verbatim>\<open>token_id\<close> is only there until the row is stored, when \<^verbatim>\<open>erc721_token_id\<close> replaces it.
\<close>

record erc721_activity =
  a7_evm_event_id :: int
  a7_sender :: string
  a7_action :: string
  a7_contract :: string
  a7_from :: string
  a7_to :: string
  a7_height :: int
  a7_tx_hash :: string
  a7_evm_tx_id :: int
  a7_token_id :: "string option"
  a7_erc721_token_id :: "int option"

record erc721_token =
  t7_id :: "int option"
  t7_token_id :: string
  t7_owner :: string
  t7_contract :: string
  t7_last_updated_height :: int
  t7_media_info :: "json option"

record erc721_contract =
  c7_id :: int
  c7_evm_smart_contract_id :: int
  c7_address :: string
  c7_symbol :: "string option"
  c7_name :: "string option"
  c7_track :: bool
  c7_last_updated_height :: "int option"

record erc721_ext =
  topic721_TRANSFER :: string
  topic721_APPROVAL :: string
  topic721_APPROVAL_FOR_ALL :: string
  decodeAbi_transfer :: "string \<Rightarrow> (string \<times> string \<times> int) option"
  decodeAbi_approval_all :: "string \<Rightarrow> (string \<times> string) option"
  readErc721 :: "string \<Rightarrow> string option \<times> string option"
  readTokenURI :: "string \<Rightarrow> string \<Rightarrow> string option"
  blockNumber721 :: int

text \<open>
  The payload of a queued media job and its id; the metadata and the links are still empty. The
  queue holds the jobs that are waiting.
\<close>

record token_media =
  tm_jobId :: string
  tm_address :: string
  tm_token_id :: string
  tm_erc721_token_id :: "int option"
  tm_token_uri :: "string option"

record erc721_db = erc20_db +
  erc721_contracts :: "erc721_contract list"
  erc721_contract_seq :: int
  erc721_tokens :: "erc721_token list"
  erc721_token_seq :: int
  erc721_activities :: "erc721_activity list"
  token_media_queue :: "token_media list"

section \<open>The handler\<close>

definition token_key_of :: "erc721_token \<Rightarrow> string" where
  "token_key_of t = token_key (t7_contract t) (Some (t7_token_id t))"

text \<open>The dictionary keeps its keys in the order of insertion, as \<^verbatim>\<open>Object.values\<close> reads them.\<close>

type_synonym token_dict = "(string \<times> erc721_token) list"

definition handlerErc721Transfer :: "erc721_activity \<Rightarrow> token_dict \<Rightarrow> token_dict res" where
  "handlerErc721Transfer a erc721Tokens =
     (let key = token_key (a7_contract a) (a7_token_id a) in
      case map_of erc721Tokens key of
        Some token \<Rightarrow>
          Inr (AList.update key (token\<lparr>t7_owner := a7_to a, t7_last_updated_height := a7_height a\<rparr>) erc721Tokens)
      | None \<Rightarrow>
          if a7_from a = ZERO_ADDRESS then
            (case a7_token_id a of
               None \<Rightarrow> Inl (ValidationError ''token_id'')
             | Some i \<Rightarrow>
                 Inr (AList.update key
                   \<lparr>t7_id = None, t7_token_id = i, t7_owner = a7_to a, t7_contract = a7_contract a,
                    t7_last_updated_height = a7_height a, t7_media_info = None\<rparr> erc721Tokens))
          else Inl (JsError ''Handle erc721 tranfer error''))"

definition process721_activity :: "erc721_activity \<Rightarrow> token_dict \<Rightarrow> token_dict res" where
  "process721_activity a toks =
     (if a7_action a = ACTION_TRANSFER then handlerErc721Transfer a toks else Inr toks)"

definition erc721_process :: "erc721_activity list \<Rightarrow> token_dict \<Rightarrow> token_dict res" where
  "erc721_process acts toks = rfold process721_activity acts toks"

section \<open>Building activities\<close>

definition evm_activity721 ::
  "evm_event \<Rightarrow> string option \<Rightarrow> string \<Rightarrow> string \<Rightarrow> string \<Rightarrow> string option \<Rightarrow> erc721_activity"
where
  "evm_activity721 e sender action src dst token_id =
     \<lparr>a7_evm_event_id = ev_id e, a7_sender = coerce_string sender, a7_action = action,
      a7_contract = ev_address e, a7_from = toLowerCase src, a7_to = toLowerCase dst,
      a7_height = ev_block_height e, a7_tx_hash = ev_tx_hash e, a7_evm_tx_id = ev_evm_tx_id e,
      a7_token_id = token_id, a7_erc721_token_id = None\<rparr>"

text \<open>\<^verbatim>\<open>e.topic1 + e.topic2.slice(2) + e.topic3.slice(2)\<close> and its decoding.\<close>

definition decode721 :: "erc721_ext \<Rightarrow> evm_event \<Rightarrow> (string \<times> string \<times> int) res" where
  "decode721 ext e =
     rbind (need (ev_topic2 e)) (\<lambda>topic2.
     rbind (need (ev_topic3 e)) (\<lambda>topic3.
       need (decodeAbi_transfer ext (show_address (ev_topic1 e) @ drop 2 topic2 @ drop 2 topic3))))"

definition buildTransferActivity721 ::
  "erc721_ext \<Rightarrow> string option \<Rightarrow> evm_event \<Rightarrow> erc721_activity option"
where
  "buildTransferActivity721 ext sender e =
     try_undefined (rbind (decode721 ext e) (\<lambda>(src, dst, tokenId).
       Inr (evm_activity721 e sender ACTION_TRANSFER src dst (Some (show_int tokenId)))))"

definition buildApprovalActivity721 ::
  "erc721_ext \<Rightarrow> string option \<Rightarrow> evm_event \<Rightarrow> erc721_activity option"
where
  "buildApprovalActivity721 ext sender e =
     try_undefined (rbind (decode721 ext e) (\<lambda>(src, dst, tokenId).
       Inr (evm_activity721 e sender ACTION_APPROVAL src dst (Some (show_int tokenId)))))"

definition buildApprovalForAllActivity ::
  "erc721_ext \<Rightarrow> string option \<Rightarrow> evm_event \<Rightarrow> erc721_activity option"
where
  "buildApprovalForAllActivity ext sender e =
     try_undefined (rbind (need (ev_topic2 e)) (\<lambda>topic2.
       rbind (need (decodeAbi_approval_all ext (show_address (ev_topic1 e) @ drop 2 topic2))) (\<lambda>(src, dst).
         Inr (evm_activity721 e sender ACTION_APPROVAL_FOR_ALL src dst None))))"

definition build721 :: "erc721_ext \<Rightarrow> evm_event \<Rightarrow> string option \<Rightarrow> erc721_activity option" where
  "build721 ext e sender =
     (if ev_topic0 e = Some (topic721_TRANSFER ext) then buildTransferActivity721 ext sender e
      else if ev_topic0 e = Some (topic721_APPROVAL ext) then buildApprovalActivity721 ext sender e
      else if ev_topic0 e = Some (topic721_APPROVAL_FOR_ALL ext) then buildApprovalForAllActivity ext sender e
      else None)"

section \<open>Contracts\<close>

definition getErc721Instances ::
  "erc721_ext \<Rightarrow> (int \<times> string \<times> int option) list \<Rightarrow> (int \<Rightarrow> erc721_contract) list"
where
  "getErc721Instances ext scs =
     map (\<lambda>(scId, addr, created) newId.
       \<lparr>c7_id = newId, c7_evm_smart_contract_id = scId, c7_address = addr,
        c7_symbol = snd (readErc721 ext addr), c7_name = fst (readErc721 ext addr),
        c7_track = True, c7_last_updated_height = created\<rparr>) scs"

text \<open>A plain insert: the address and the contract's id are unique columns.\<close>

definition insert_contract721 ::
  "(int \<Rightarrow> erc721_contract) \<Rightarrow> 'a erc721_db_scheme \<Rightarrow> 'a erc721_db_scheme res"
where
  "insert_contract721 row db =
     (let new = row (erc721_contract_seq db) in
      if c7_address new \<in> set (map c7_address (erc721_contracts db)) \<or>
         c7_evm_smart_contract_id new \<in> set (map c7_evm_smart_contract_id (erc721_contracts db))
      then Inl (DbError ''duplicate key value violates unique constraint'')
      else Inr (db\<lparr>erc721_contracts := erc721_contracts db @ [new],
                   erc721_contract_seq := erc721_contract_seq db + 1\<rparr>))"

text \<open>\<^verbatim>\<open>insert(...).onConflict(['address']).merge()\<close>: the row keeps its id, the sequence moves on.\<close>

definition upsert_contract721 ::
  "(int \<Rightarrow> erc721_contract) \<Rightarrow> 'a erc721_db_scheme \<Rightarrow> 'a erc721_db_scheme res"
where
  "upsert_contract721 row db =
     (let new = row (erc721_contract_seq db) in
      if c7_address new \<in> set (map c7_address (erc721_contracts db)) then
        Inr (db\<lparr>erc721_contracts :=
                  map (\<lambda>c. if c7_address c = c7_address new then row (c7_id c) else c) (erc721_contracts db),
                erc721_contract_seq := erc721_contract_seq db + 1\<rparr>)
      else insert_contract721 row db)"

definition HANDLE_ERC721_CONTRACT :: job_decl where
  "HANDLE_ERC721_CONTRACT =
     \<lparr>job_name = ''handle:erc721-contract'', lastHeightJobNames = [''crawl:smart-contract-evm''],
      configName = Some ''erc721'', job_guard = NoGuard\<rparr>"

definition handleErc721Contract_work ::
  "erc721_ext \<Rightarrow> int \<Rightarrow> int \<Rightarrow> 'a erc721_db_scheme \<Rightarrow> 'a erc721_db_scheme res"
where
  "handleErc721Contract_work ext startBlk endBlk db =
     (let erc721SmartContracts =
            filter (\<lambda>sc. (case sc_created_height sc of None \<Rightarrow> False | Some h \<Rightarrow> in_range startBlk endBlk h)
                       \<and> sc_type sc = Some ''ERC721'') (evm_smart_contracts db) in
      rfold insert_contract721
        (getErc721Instances ext
          (map (\<lambda>sc. (sc_id sc, sc_address sc, sc_created_height sc)) erc721SmartContracts)) db)"

definition handleErc721Contract ::
  "config \<Rightarrow> erc721_ext \<Rightarrow> 'a erc721_db_scheme \<Rightarrow> 'a erc721_db_scheme res"
where
  "handleErc721Contract cfg ext = range_job cfg HANDLE_ERC721_CONTRACT (handleErc721Contract_work ext)"

definition insertNewErc721Contracts ::
  "erc721_ext \<Rightarrow> (int \<times> string) list \<Rightarrow> 'a erc721_db_scheme \<Rightarrow> 'a erc721_db_scheme res"
where
  "insertNewErc721Contracts ext evmSmartContracts db =
     rfold upsert_contract721
       (getErc721Instances ext
         (map (\<lambda>(i, addr). (i, addr, Some (blockNumber721 ext))) evmSmartContracts)) db"
section \<open>Tokens and activities\<close>

text \<open>
  The join of \<^verbatim>\<open>evm_event\<close> with the two contract tables and the transaction, with the columns
  selected beside the event: the sender, the contract's id and whether it is tracked.
\<close>

definition erc721_event_row ::
  "'a erc721_db_scheme \<Rightarrow> evm_event \<Rightarrow> (evm_event \<times> string option \<times> int \<times> bool) option"
where
  "erc721_event_row db e =
     (case (find (\<lambda>sc. sc_address sc = ev_address e) (evm_smart_contracts db),
            evm_transactions db (ev_evm_tx_id e),
            find (\<lambda>c. c7_address c = ev_address e) (erc721_contracts db)) of
        (Some sc, Some sender, Some c) \<Rightarrow> Some (e, sender, sc_id sc, c7_track c)
      | _ \<Rightarrow> None)"

definition erc721_events ::
  "int \<Rightarrow> int \<Rightarrow> 'a erc721_db_scheme \<Rightarrow> (evm_event \<times> string option \<times> int \<times> bool) list"
where
  "erc721_events startBlk endBlk db =
     List.map_filter (erc721_event_row db)
       (filter (\<lambda>e. in_range startBlk endBlk (ev_block_height e)) (evm_events db))"

text \<open>Contracts of the events that the table does not know yet are stored without tracking.\<close>

definition handleMissingErc721Contract ::
  "erc721_ext \<Rightarrow> (evm_event \<times> string option \<times> int \<times> bool) list \<Rightarrow> 'a erc721_db_scheme \<Rightarrow> 'a erc721_db_scheme res"
where
  "handleMissingErc721Contract ext events db =
     (let eventsUniqByAddress = keyBy (\<lambda>(e, _). ev_address e) events;
          addresses = uniq (map (\<lambda>(e, _). ev_address e) events);
          missing = filter (\<lambda>addr. addr \<notin> set (map c7_address (erc721_contracts db))) addresses in
      rfold (\<lambda>addr db.
          rbind (need (eventsUniqByAddress addr)) (\<lambda>(_, _, scId, _).
            insert_contract721 (\<lambda>newId.
              \<lparr>c7_id = newId, c7_evm_smart_contract_id = scId, c7_address = addr,
               c7_symbol = snd (readErc721 ext addr), c7_name = fst (readErc721 ext addr),
               c7_track = False, c7_last_updated_height = Some (- 1)\<rparr>) db)) missing db)"

definition activities721 :: "erc721_ext \<Rightarrow> int \<Rightarrow> int \<Rightarrow> 'a erc721_db_scheme \<Rightarrow> erc721_activity list" where
  "activities721 ext startBlk endBlk db =
     List.map_filter (\<lambda>(e, sender, _). build721 ext e sender)
       (filter (\<lambda>(_, _, _, track). track) (erc721_events startBlk endBlk db))"

text \<open>\<^verbatim>\<open>_.keyBy\<close> of the tokens whose contract and id are those of an activity.\<close>

definition load_tokens :: "erc721_activity list \<Rightarrow> erc721_token list \<Rightarrow> token_dict" where
  "load_tokens acts tbl =
     fold (\<lambda>t. AList.update (token_key_of t) t)
       (filter (\<lambda>t. (t7_contract t, Some (t7_token_id t)) \<in> set (map (\<lambda>a. (a7_contract a, a7_token_id a)) acts)) tbl) []"

text \<open>
  \<^verbatim>\<open>insert(...).onConflict(['token_id', 'erc721_contract_address']).merge()\<close>: a row that is there keeps
  its id and its media and takes the owner and the height; the sequence gives an id to every row
  of the statement, also to those that turn out to be there. The statement returns the ids.
\<close>

definition same_token :: "erc721_token \<Rightarrow> erc721_token \<Rightarrow> bool" where
  "same_token t u \<longleftrightarrow> t7_token_id t = t7_token_id u \<and> t7_contract t = t7_contract u"

definition upsert_token ::
  "erc721_token \<Rightarrow> 'a erc721_db_scheme \<Rightarrow> 'a erc721_db_scheme \<times> int option"
where
  "upsert_token t db =
     (let tbl = erc721_tokens db; seq = erc721_token_seq db in
      case find (same_token t) tbl of
        Some u \<Rightarrow>
          (db\<lparr>erc721_tokens := map (\<lambda>u. if same_token t u
                then u\<lparr>t7_owner := t7_owner t, t7_last_updated_height := t7_last_updated_height t\<rparr> else u) tbl,
              erc721_token_seq := seq + 1\<rparr>, t7_id u)
      | None \<Rightarrow>
          (db\<lparr>erc721_tokens := tbl @ [t\<lparr>t7_id := Some seq, t7_media_info := None\<rparr>],
              erc721_token_seq := seq + 1\<rparr>, Some seq))"

primrec upsert_tokens ::
  "erc721_token list \<Rightarrow> 'a erc721_db_scheme \<Rightarrow> 'a erc721_db_scheme \<times> (string \<times> int option) list"
where
  "upsert_tokens [] db = (db, [])"
| "upsert_tokens (t # ts) db =
     (let (db1, i) = upsert_token t db; (db2, ids) = upsert_tokens ts db1 in
      (db2, (token_key_of t, i) # ids))"

text \<open>\<^verbatim>\<open>activity.erc721_token_id = token.id\<close>, then the row without \<^verbatim>\<open>token_id\<close>.\<close>

definition link_token :: "(string \<times> int option) list \<Rightarrow> erc721_activity \<Rightarrow> erc721_activity" where
  "link_token ids a =
     (case map_of ids (token_key (a7_contract a) (a7_token_id a)) of
        None \<Rightarrow> a
      | Some i \<Rightarrow> a\<lparr>a7_erc721_token_id := i\<rparr>)"

definition stored_activity721 :: "erc721_activity \<Rightarrow> erc721_activity" where
  "stored_activity721 a = a\<lparr>a7_token_id := None\<rparr>"

definition updateErc721 ::
  "erc721_activity list \<Rightarrow> erc721_token list \<Rightarrow> 'a erc721_db_scheme \<Rightarrow> 'a erc721_db_scheme"
where
  "updateErc721 acts toks db =
     (let (db1, ids) = upsert_tokens toks db in
      db1\<lparr>erc721_activities := erc721_activities db1 @ map (stored_activity721 \<circ> link_token ids) acts\<rparr>)"

definition HANDLE_ERC721_ACTIVITY :: job_decl where
  "HANDLE_ERC721_ACTIVITY =
     \<lparr>job_name = ''handle:erc721-activity'',
      lastHeightJobNames = [''handle:erc721-contract'', ''handle:evm-proxy-history''],
      configName = Some ''erc721'', job_guard = NoGuard\<rparr>"

definition handleErc721Activity_work ::
  "erc721_ext \<Rightarrow> int \<Rightarrow> int \<Rightarrow> 'a erc721_db_scheme \<Rightarrow> 'a erc721_db_scheme res"
where
  "handleErc721Activity_work ext startBlk endBlk db =
     rbind (handleMissingErc721Contract ext (erc721_events startBlk endBlk db) db) (\<lambda>db1.
       let acts = activities721 ext startBlk endBlk db in
       if acts = [] then Inr db1
       else rbind (erc721_process acts (load_tokens acts (erc721_tokens db1))) (\<lambda>toks.
              Inr (updateErc721 acts (map snd toks) db1)))"

definition handleErc721Activity ::
  "config \<Rightarrow> erc721_ext \<Rightarrow> 'a erc721_db_scheme \<Rightarrow> 'a erc721_db_scheme res"
where
  "handleErc721Activity cfg ext = range_job cfg HANDLE_ERC721_ACTIVITY (handleErc721Activity_work ext)"

section \<open>Queueing media\<close>

definition HANDLE_ERC721_MEDIA :: string where "HANDLE_ERC721_MEDIA = ''handle:erc721-media''"

definition getTokensUri :: "erc721_ext \<Rightarrow> erc721_token list \<Rightarrow> token_media list" where
  "getTokensUri ext tokens =
     map (\<lambda>t. \<lparr>tm_jobId = t7_contract t @ CHR ''_'' # show_id (t7_id t), tm_address = t7_contract t,
               tm_token_id = t7_token_id t, tm_erc721_token_id = t7_id t,
               tm_token_uri = readTokenURI ext (t7_contract t) (t7_token_id t)\<rparr>) tokens"

text \<open>A job whose id is already in the queue is not added again.\<close>

definition createJob :: "token_media \<Rightarrow> token_media list \<Rightarrow> token_media list" where
  "createJob m queue = (if tm_jobId m \<in> set (map tm_jobId queue) then queue else queue @ [m])"

definition tokensUnprocess :: "nat \<Rightarrow> int \<Rightarrow> erc721_token list \<Rightarrow> erc721_token list" where
  "tokensUnprocess mediaPerBatch idTokenCheckpoint tbl =
     take mediaPerBatch
       (filter (\<lambda>t. t7_media_info t = None \<and> (case t7_id t of None \<Rightarrow> False | Some i \<Rightarrow> idTokenCheckpoint < i)) tbl)"

definition media_checkpoint :: "'a erc721_db_scheme \<Rightarrow> int" where
  "media_checkpoint db = (case block_checkpoint db HANDLE_ERC721_MEDIA of None \<Rightarrow> 0 | Some h \<Rightarrow> h)"

definition handleErc721Media ::
  "erc721_ext \<Rightarrow> nat \<Rightarrow> 'a erc721_db_scheme \<Rightarrow> 'a erc721_db_scheme"
where
  "handleErc721Media ext mediaPerBatch db =
     (let toks = tokensUnprocess mediaPerBatch (media_checkpoint db) (erc721_tokens db) in
      if toks = [] then db
      else (case t7_id (last toks) of
              None \<Rightarrow> db
            | Some i \<Rightarrow>
                saveCheckpoint (HANDLE_ERC721_MEDIA, i)
                  (db\<lparr>token_media_queue := fold createJob (getTokensUri ext toks) (token_media_queue db)\<rparr>)))"

end
