(* ===== verification/Erc721_Owners.thy ===== *)
theory Erc721_Owners
  imports Erc721
begin

text \<open>
  Properties of the ERC-721 indexer. The tables of tokens and the dictionary of the handler are
  two views of one map from a contract and a token to its owner and the height of its last
  transfer; the replay is a fold of transfers over that map, and exactly the transfers of
  unknown tokens that are not mints make it throw.
\<close>

section \<open>The map of owners\<close>

type_synonym owners = "string \<times> string \<rightharpoonup> string \<times> int"

definition owners_of :: "erc721_token list \<Rightarrow> owners" where
  "owners_of tbl = map_of (map (\<lambda>t. ((t7_contract t, t7_token_id t), (t7_owner t, t7_last_updated_height t))) tbl)"

definition dict_owners :: "token_dict \<Rightarrow> owners" where
  "dict_owners d = (\<lambda>(c, i). map_option (\<lambda>t. (t7_owner t, t7_last_updated_height t)) (map_of d (token_key c (Some i))))"

definition transfer_step :: "erc721_activity \<Rightarrow> owners \<Rightarrow> owners" where
  "transfer_step a own =
     (if a7_action a = ACTION_TRANSFER then
        (case a7_token_id a of None \<Rightarrow> own | Some i \<Rightarrow> own((a7_contract a, i) \<mapsto> (a7_to a, a7_height a)))
      else own)"

text \<open>Token ids are decimal, so they have no separator and the text keys are unambiguous.\<close>

definition plain :: "string \<Rightarrow> bool" where "plain i \<longleftrightarrow> CHR ''_'' \<notin> set i \<and> i \<noteq> ''undefined''"

definition tokens_ok :: "erc721_token list \<Rightarrow> bool" where
  "tokens_ok tbl \<longleftrightarrow> distinct (map (\<lambda>t. (t7_contract t, t7_token_id t)) tbl) \<and> list_all (\<lambda>t. plain (t7_token_id t)) tbl"

definition dict_ok :: "token_dict \<Rightarrow> bool" where
  "dict_ok d \<longleftrightarrow> distinct (map fst d) \<and> list_all (\<lambda>(k, t). k = token_key_of t \<and> plain (t7_token_id t)) d"

definition transfers_ok :: "erc721_activity list \<Rightarrow> bool" where
  "transfers_ok acts \<longleftrightarrow>
     list_all (\<lambda>a. (case a7_token_id a of None \<Rightarrow> a7_action a \<noteq> ACTION_TRANSFER | Some i \<Rightarrow> plain i)) acts"

lemma token_key_inj:
  "plain i \<Longrightarrow> plain j \<Longrightarrow> token_key c (Some i) = token_key d (Some j) \<longleftrightarrow> c = d \<and> i = j"
  by (simp add: token_key_def plain_def sep_key_inj_right)

lemma transfer_step_local:
  "own p = own' p \<Longrightarrow> fold transfer_step acts own p = fold transfer_step acts own' p"
proof (induction acts arbitrary: own own')
  case (Cons a acts)
  have "transfer_step a own p = transfer_step a own' p"
    using Cons.prems by (cases "a7_token_id a") (simp_all add: transfer_step_def)
  with Cons.IH [of "transfer_step a own" "transfer_step a own'"] show ?case by simp
qed simp

lemma transfer_step_keeps: "own p \<noteq> None \<Longrightarrow> fold transfer_step acts own p \<noteq> None"
proof (induction acts arbitrary: own)
  case (Cons a acts)
  have "transfer_step a own p \<noteq> None"
    using Cons.prems by (cases "a7_token_id a") (simp_all add: transfer_step_def)
  with Cons.IH [of "transfer_step a own"] show ?case by simp
qed simp

lemma transfer_step_other:
  "(fst p, Some (snd p)) \<notin> set (map (\<lambda>a. (a7_contract a, a7_token_id a)) acts) \<Longrightarrow>
    fold transfer_step acts own p = own p"
proof (induction acts arbitrary: own)
  case (Cons a acts)
  then have "transfer_step a own p = own p"
    by (cases p; cases "a7_token_id a") (auto simp: transfer_step_def)
  with Cons.IH [of "transfer_step a own"] Cons.prems show ?case by simp
qed simp

section \<open>The replay refines the fold of transfers\<close>

lemma dict_ok_update:
  assumes "dict_ok d" and "plain (t7_token_id t)"
  shows "dict_ok (AList.update (token_key_of t) t d)"
proof -
  have "set (AList.update (token_key_of t) t d) \<subseteq> insert (token_key_of t, t) (set d)"
    by (induction d) auto
  with assms show ?thesis by (auto simp: dict_ok_def list_all_iff distinct_update)
qed

lemma handlerErc721Transfer_effect:
  assumes "handlerErc721Transfer a d = Inr d'" and "a7_token_id a = Some i" and "plain i" and "dict_ok d"
  shows "dict_ok d'" and "plain j \<Longrightarrow> dict_owners d' (c, j) =
    (if (c, j) = (a7_contract a, i) then Some (a7_to a, a7_height a) else dict_owners d (c, j))"
proof -
  let ?k = "token_key (a7_contract a) (Some i)"
  from assms(1,2) obtain t where d': "d' = AList.update ?k t d" and t: "t7_owner t = a7_to a"
      "t7_last_updated_height t = a7_height a"
    and key: "(\<exists>u. map_of d ?k = Some u \<and> t7_token_id t = t7_token_id u \<and> t7_contract t = t7_contract u) \<or>
      t7_token_id t = i \<and> t7_contract t = a7_contract a"
    by (force simp: handlerErc721Transfer_def Let_def split: option.splits if_splits)
  have "?k = token_key_of t \<and> plain (t7_token_id t)"
    using key assms(3,4) by (auto simp: dict_ok_def token_key_of_def list_all_iff dest!: map_of_SomeD)
  then show "dict_ok d'"
    using assms(4) by (simp add: d' dict_ok_update)
  show "plain j \<Longrightarrow> dict_owners d' (c, j) =
    (if (c, j) = (a7_contract a, i) then Some (a7_to a, a7_height a) else dict_owners d (c, j))"
    using assms(3) by (simp add: d' dict_owners_def update_conv' t token_key_inj)
qed

lemma erc721_process_effect:
  assumes "erc721_process acts d = Inr d'" and "transfers_ok acts" and "dict_ok d"
  shows "dict_ok d'" and "plain i \<Longrightarrow> dict_owners d' (c, i) = fold transfer_step acts (dict_owners d) (c, i)"
proof -
  let ?R = "\<lambda>d own. dict_ok d \<and> (\<forall>c i. plain i \<longrightarrow> dict_owners d (c, i) = own (c, i))"
  have "?R d' (fold transfer_step acts (dict_owners d))"
  proof (rule rfold_simulates [where R = ?R, OF assms(1) [unfolded erc721_process_def]])
    fix a s s' own
    assume a: "a \<in> set acts" and R: "?R s own" and run: "process721_activity a s = Inr s'"
    show "?R s' (transfer_step a own)"
    proof (cases "a7_action a = ACTION_TRANSFER")
      case True
      with a assms(2) obtain j where j: "a7_token_id a = Some j" "plain j"
        by (auto simp: transfers_ok_def list_all_iff split: option.splits)
      have h: "handlerErc721Transfer a s = Inr s'" using run True by (simp add: process721_activity_def)
      show ?thesis
        using handlerErc721Transfer_effect [OF h j] R True j
        by (auto simp: transfer_step_def)
    next
      case False
      with run R show ?thesis by (simp add: process721_activity_def transfer_step_def)
    qed
  next
    show "?R d (dict_owners d)" using assms(3) by simp
  qed
  then show "dict_ok d'" and "plain i \<Longrightarrow> dict_owners d' (c, i) = fold transfer_step acts (dict_owners d) (c, i)"
    by blast+
qed
section \<open>Loading and storing\<close>

lemma dict_of_rows:
  assumes "tokens_ok tbl"
  shows "map_of (fold (\<lambda>t. AList.update (token_key_of t) t) tbl []) = map_of (map (\<lambda>t. (token_key_of t, t)) tbl)"
    and "dict_ok (fold (\<lambda>t. AList.update (token_key_of t) t) tbl [])"
  using assms
proof (induction tbl rule: rev_induct)
  case (snoc t tbl)
  { case 1
    then have "tokens_ok tbl" by (simp add: tokens_ok_def)
    moreover have "token_key_of t \<notin> token_key_of ` set tbl"
      using 1 by (auto simp: tokens_ok_def token_key_of_def token_key_inj list_all_iff)
    then have "map_of (map (\<lambda>t. (token_key_of t, t)) tbl) (token_key_of t) = None"
      by (force simp: map_of_eq_None_iff)
    ultimately show ?case using snoc.IH(1)
      by (auto simp: update_conv' fun_eq_iff map_add_def split: option.split) }
  { case 2
    then have "tokens_ok tbl" by (simp add: tokens_ok_def)
    from snoc.IH(2) [OF this] 2 show ?case by (simp add: dict_ok_update tokens_ok_def) }
qed (simp_all add: dict_ok_def)

lemma tokens_ok_filter: "tokens_ok tbl \<Longrightarrow> tokens_ok (filter P tbl)"
  by (auto simp: tokens_ok_def distinct_map_filter list_all_iff)

lemma map_of_token_rows:
  assumes "list_all (\<lambda>t. plain (t7_token_id t)) tbl" and "plain i"
  shows "map_option (\<lambda>t. (t7_owner t, t7_last_updated_height t))
      (map_of (map (\<lambda>t. (token_key_of t, t)) tbl) (token_key c (Some i))) = owners_of tbl (c, i)"
  using assms by (induction tbl) (simp_all add: owners_of_def token_key_of_def token_key_inj)

lemma owners_of_filter:
  "owners_of (filter (\<lambda>t. (t7_contract t, Some (t7_token_id t)) \<in> S) tbl) (c, i) =
     (if (c, Some i) \<in> S then owners_of tbl (c, i) else None)"
  by (induction tbl) (auto simp: owners_of_def)

lemma load_tokens_effect:
  assumes "tokens_ok tbl"
  shows "dict_ok (load_tokens acts tbl)"
    and "plain i \<Longrightarrow> dict_owners (load_tokens acts tbl) (c, i) =
      (if (c, Some i) \<in> set (map (\<lambda>a. (a7_contract a, a7_token_id a)) acts) then owners_of tbl (c, i) else None)"
proof -
  let ?S = "set (map (\<lambda>a. (a7_contract a, a7_token_id a)) acts)"
  let ?rows = "filter (\<lambda>t. (t7_contract t, Some (t7_token_id t)) \<in> ?S) tbl"
  have ok: "tokens_ok ?rows" using assms by (rule tokens_ok_filter)
  then show "dict_ok (load_tokens acts tbl)" by (simp only: load_tokens_def dict_of_rows(2))
  assume "plain i"
  with ok have "dict_owners (load_tokens acts tbl) (c, i) = owners_of ?rows (c, i)"
    by (simp only: dict_owners_def load_tokens_def dict_of_rows(1) map_of_token_rows tokens_ok_def prod.case)
  then show "dict_owners (load_tokens acts tbl) (c, i) =
      (if (c, Some i) \<in> ?S then owners_of tbl (c, i) else None)"
    by (simp only: owners_of_filter)
qed

lemma owners_of_Cons:
  "owners_of (t # ts) = (owners_of ts)((t7_contract t, t7_token_id t) \<mapsto> (t7_owner t, t7_last_updated_height t))"
  by (simp add: owners_of_def)

lemma owners_of_overwrite:
  assumes "\<exists>u\<in>set tbl. same_token t u"
  shows "owners_of (map (\<lambda>u. if same_token t u
      then u\<lparr>t7_owner := t7_owner t, t7_last_updated_height := t7_last_updated_height t\<rparr> else u) tbl) =
    (owners_of tbl)((t7_contract t, t7_token_id t) \<mapsto> (t7_owner t, t7_last_updated_height t))" (is "owners_of (map ?f tbl) = _")
proof
  fix p
  show "owners_of (map ?f tbl) p =
    ((owners_of tbl)((t7_contract t, t7_token_id t) \<mapsto> (t7_owner t, t7_last_updated_height t))) p"
  proof (cases "p = (t7_contract t, t7_token_id t)")
    case True
    have "owners_of (map ?f tbl) (t7_contract t, t7_token_id t) = Some (t7_owner t, t7_last_updated_height t)"
      using assms by (induction tbl) (auto simp: owners_of_def same_token_def)
    with True show ?thesis by simp
  next
    case False
    then have "owners_of (map ?f tbl) p = owners_of tbl p"
      by (induction tbl) (auto simp: owners_of_def same_token_def)
    with False show ?thesis by simp
  qed
qed

lemma upsert_token_owners:
  "owners_of (erc721_tokens (fst (upsert_token t db))) =
     (owners_of (erc721_tokens db))((t7_contract t, t7_token_id t) \<mapsto> (t7_owner t, t7_last_updated_height t))"
proof (cases "find (same_token t) (erc721_tokens db)")
  case None
  then have "(t7_contract t, t7_token_id t) \<notin> (\<lambda>u. (t7_contract u, t7_token_id u)) ` set (erc721_tokens db)"
    by (auto simp: find_None_iff same_token_def)
  then have "owners_of (erc721_tokens db) (t7_contract t, t7_token_id t) = None"
    by (simp add: owners_of_def map_of_eq_None_iff image_image)
  with None show ?thesis
    by (auto simp: upsert_token_def Let_def owners_of_def map_add_def fun_eq_iff split: option.split)
next
  case (Some u)
  then have "\<exists>u\<in>set (erc721_tokens db). same_token t u" by (metis find_None_iff option.distinct(1))
  with Some show ?thesis by (simp add: upsert_token_def Let_def owners_of_overwrite)
qed

lemma upsert_token_ok:
  assumes "tokens_ok (erc721_tokens db)" and "plain (t7_token_id t)"
  shows "tokens_ok (erc721_tokens (fst (upsert_token t db)))"
proof (cases "find (same_token t) (erc721_tokens db)")
  case None
  then have "erc721_tokens (fst (upsert_token t db)) =
      erc721_tokens db @ [t\<lparr>t7_id := Some (erc721_token_seq db), t7_media_info := None\<rparr>]"
    by (simp add: upsert_token_def Let_def)
  with None assms show ?thesis by (auto simp: tokens_ok_def find_None_iff same_token_def)
next
  case (Some u)
  let ?f = "\<lambda>u. if same_token t u
    then u\<lparr>t7_owner := t7_owner t, t7_last_updated_height := t7_last_updated_height t\<rparr> else u"
  have "(\<lambda>t. (t7_contract t, t7_token_id t)) \<circ> ?f = (\<lambda>t. (t7_contract t, t7_token_id t))" by auto
  with Some show ?thesis
    using assms by (auto simp: upsert_token_def Let_def tokens_ok_def list_all_iff)
qed

lemma upsert_tokens_effect:
  assumes "tokens_ok (erc721_tokens db)" and "list_all (\<lambda>t. plain (t7_token_id t)) ts"
    and "distinct (map (\<lambda>t. (t7_contract t, t7_token_id t)) ts)"
  shows "tokens_ok (erc721_tokens (fst (upsert_tokens ts db)))"
    and "owners_of (erc721_tokens (fst (upsert_tokens ts db))) = owners_of (erc721_tokens db) ++ owners_of ts"
  using assms
proof (induction ts arbitrary: db)
  case (Cons t ts)
  have step: "fst (upsert_tokens (t # ts) db) = fst (upsert_tokens ts (fst (upsert_token t db)))" for db :: "'a erc721_db_scheme"
    by (simp add: Let_def split_beta)
  { case 1 then show ?case unfolding step by (intro Cons.IH(1) upsert_token_ok) simp_all }
  { case 2
    then have "owners_of ts (t7_contract t, t7_token_id t) = None"
      by (auto simp: owners_of_def map_of_eq_None_iff image_image)
    with 2 show ?case unfolding step
      using Cons.IH(2) [of "fst (upsert_token t db)"] upsert_token_ok [of db t]
      by (simp add: upsert_token_owners owners_of_Cons) (auto simp: map_add_def fun_eq_iff split: option.split) }
qed (simp_all add: owners_of_def [of "[]"])

lemma dict_rows:
  assumes "dict_ok d"
  shows "list_all (\<lambda>t. plain (t7_token_id t)) (map snd d)"
    and "distinct (map (\<lambda>t. (t7_contract t, t7_token_id t)) (map snd d))"
    and "plain i \<Longrightarrow> owners_of (map snd d) (c, i) = dict_owners d (c, i)"
    and "\<not> plain i \<Longrightarrow> owners_of (map snd d) (c, i) = None"
proof -
  show "list_all (\<lambda>t. plain (t7_token_id t)) (map snd d)"
    using assms by (auto simp: dict_ok_def list_all_iff)
  have keys: "d = map (\<lambda>t. (token_key_of t, t)) (map snd d)"
    using assms by (induction d) (auto simp: dict_ok_def)
  have "map fst d = map (\<lambda>(c, i). token_key c (Some i)) (map (\<lambda>t. (t7_contract t, t7_token_id t)) (map snd d))"
    using assms by (auto simp: dict_ok_def list_all_iff token_key_of_def)
  moreover have "distinct (map fst d)" using assms by (simp add: dict_ok_def)
  ultimately show "distinct (map (\<lambda>t. (t7_contract t, t7_token_id t)) (map snd d))"
    by (simp only: distinct_map)
  show "owners_of (map snd d) (c, i) = dict_owners d (c, i)" if "plain i"
    using map_of_token_rows [OF \<open>list_all _ (map snd d)\<close> that, of c]
    by (simp only: dict_owners_def prod.case arg_cong [OF keys, of map_of, symmetric])
  show "owners_of (map snd d) (c, i) = None" if "\<not> plain i"
    using that assms by (auto simp: owners_of_def map_of_eq_None_iff dict_ok_def list_all_iff)
qed

lemma updateErc721_tokens [simp]:
  "erc721_tokens (updateErc721 acts toks db) = erc721_tokens (fst (upsert_tokens toks db))"
  by (simp add: updateErc721_def split_beta)

text \<open>Loading, replaying and storing is the fold of the transfers over the stored owners.\<close>

lemma replay_stored_owners:
  assumes "tokens_ok (erc721_tokens db)" and "transfers_ok acts"
    and "erc721_process acts (load_tokens acts (erc721_tokens db)) = Inr d"
  shows "tokens_ok (erc721_tokens (updateErc721 acts (map snd d) db))"
    and "owners_of (erc721_tokens (updateErc721 acts (map snd d) db)) =
      fold transfer_step acts (owners_of (erc721_tokens db))"
proof -
  let ?d0 = "load_tokens acts (erc721_tokens db)" and ?own = "owners_of (erc721_tokens db)"
  let ?S = "set (map (\<lambda>a. (a7_contract a, a7_token_id a)) acts)"
  note d0 = load_tokens_effect [OF assms(1), where acts = acts]
  note d = erc721_process_effect [OF assms(3,2) d0(1)]
  note rows = dict_rows [OF d(1)]
  note stored = upsert_tokens_effect [OF assms(1) rows(1,2)]
  show "tokens_ok (erc721_tokens (updateErc721 acts (map snd d) db))" using stored(1) by simp
  have "(?own ++ owners_of (map snd d)) (c, i) = fold transfer_step acts ?own (c, i)" for c i
  proof (cases "plain i")
    case False
    then have "?own (c, i) = None"
      using assms(1) by (auto simp: owners_of_def map_of_eq_None_iff tokens_ok_def list_all_iff)
    moreover have "(c, Some i) \<notin> ?S"
      using False assms(2) by (auto simp: transfers_ok_def list_all_iff split: option.splits)
    then have "fold transfer_step acts ?own (c, i) = ?own (c, i)"
      using transfer_step_other [of "(c, i)"] by simp
    ultimately show ?thesis using rows(4) [OF False] by (simp add: map_add_def)
  next
    case True
    have new: "owners_of (map snd d) (c, i) = fold transfer_step acts (dict_owners ?d0) (c, i)"
      by (simp add: rows(3) [OF True] d(2) [OF True])
    show ?thesis
    proof (cases "(c, Some i) \<in> ?S")
      case S: True
      then have "fold transfer_step acts (dict_owners ?d0) (c, i) = fold transfer_step acts ?own (c, i)"
        using d0(2) [OF True, of c] by (intro transfer_step_local) simp
      then show ?thesis
        using new transfer_step_keeps [of ?own "(c, i)" acts]
        by (cases "?own (c, i)") (auto simp: map_add_def split: option.split)
    next
      case S: False
      then have "dict_owners ?d0 (c, i) = None" using d0(2) [OF True, of c] by simp
      then show ?thesis
        using new S transfer_step_other [of "(c, i)" acts] by (simp add: map_add_def)
    qed
  qed
  then show "owners_of (erc721_tokens (updateErc721 acts (map snd d) db)) = fold transfer_step acts ?own"
    by (simp add: stored(2) fun_eq_iff)
qed
section \<open>The activities of a range\<close>

lemma activities721_cong:
  assumes "evm_events db' = evm_events db" and "evm_smart_contracts db' = evm_smart_contracts db"
    and "evm_transactions db' = evm_transactions db" and "erc721_contracts db' = erc721_contracts db"
  shows "activities721 ext a b db' = activities721 ext a b db"
proof -
  have "erc721_event_row db' = erc721_event_row db"
    by (simp only: fun_eq_iff erc721_event_row_def assms simp_thms)
  then show ?thesis by (simp only: activities721_def erc721_events_def assms)
qed

lemma activities721_split:
  assumes "sorted (map ev_block_height (evm_events db))" and "a \<le> b" and "b \<le> c"
  shows "activities721 ext a c db = activities721 ext a b db @ activities721 ext b c db"
  using filter_range_split [OF assms] by (simp add: activities721_def erc721_events_def map_filter_append)

lemma build721_shape:
  assumes "build721 ext e sender = Some a"
  shows "a7_erc721_token_id a = None"
    and "case a7_token_id a of None \<Rightarrow> a7_action a \<noteq> ACTION_TRANSFER | Some i \<Rightarrow> plain i"
    and "a7_height a = ev_block_height e"
  using assms underscore_not_in_show_int show_int_not_undefined
  by (auto simp: build721_def buildTransferActivity721_def buildApprovalActivity721_def
      buildApprovalForAllActivity_def rbind_eq_Inr evm_activity721_def plain_def
      ACTION_TRANSFER_def ACTION_APPROVAL_FOR_ALL_def split: if_splits)

lemma activities721_mem:
  "x \<in> set (activities721 ext a b db) \<Longrightarrow> \<exists>e sender. build721 ext e sender = Some x"
  by (auto simp: activities721_def set_map_filter_Some)

lemma activities721_ok: "transfers_ok (activities721 ext a b db)"
  using build721_shape(2) by (force simp: transfers_ok_def list_all_iff dest!: activities721_mem)

text \<open>The events come from a join with the contract table, so no contract is ever missing.\<close>

lemma no_missing_contract: "handleMissingErc721Contract ext (erc721_events a b db) db = Inr db"
proof -
  have "ev_address e \<in> c7_address ` set (erc721_contracts db)" if "(e, r) \<in> set (erc721_events a b db)" for e r
  proof -
    from that obtain n where "erc721_event_row db n = Some (e, r)"
      by (auto simp: erc721_events_def set_map_filter_Some)
    then have "find (\<lambda>c. c7_address c = ev_address e) (erc721_contracts db) \<noteq> None"
      by (auto simp: erc721_event_row_def split: option.splits)
    then obtain c where "c \<in> set (erc721_contracts db)" "c7_address c = ev_address e"
      by (auto simp: find_None_iff)
    then show ?thesis by (metis image_eqI)
  qed
  then have "filter (\<lambda>addr. addr \<notin> set (map c7_address (erc721_contracts db)))
      (uniq (map (\<lambda>(e, _). ev_address e) (erc721_events a b db))) = []"
    by (auto simp: filter_empty_conv)
  then show ?thesis by (simp only: handleMissingErc721Contract_def Let_def rfold.simps(1))
qed

lemma handleErc721Activity_work_eq:
  "handleErc721Activity_work ext a b db =
     (let acts = activities721 ext a b db in
      if acts = [] then Inr db
      else rbind (erc721_process acts (load_tokens acts (erc721_tokens db)))
             (\<lambda>toks. Inr (updateErc721 acts (map snd toks) db)))"
  by (simp add: handleErc721Activity_work_def no_missing_contract)

lemma upsert_tokens_frame:
  "\<exists>tbl seq. fst (upsert_tokens ts db) = db\<lparr>erc721_tokens := tbl, erc721_token_seq := seq\<rparr>"
proof (induction ts arbitrary: db)
  case Nil
  show ?case by (rule exI [of _ "erc721_tokens db"], rule exI [of _ "erc721_token_seq db"]) simp
next
  case (Cons t ts)
  obtain tbl seq where "fst (upsert_token t db) = db\<lparr>erc721_tokens := tbl, erc721_token_seq := seq\<rparr>"
    by (cases "find (same_token t) (erc721_tokens db)") (auto simp: upsert_token_def Let_def)
  then show ?case using Cons.IH [of "fst (upsert_token t db)"] by (auto simp: Let_def split_beta)
qed
section \<open>The jobs\<close>

abbreviation erc721_pos :: "config \<Rightarrow> 'a erc721_db_scheme \<Rightarrow> int" where
  "erc721_pos cfg db \<equiv> job_start cfg HANDLE_ERC721_ACTIVITY (block_checkpoint db)"

abbreviation erc721_end :: "config \<Rightarrow> 'a erc721_db_scheme \<Rightarrow> int" where
  "erc721_end cfg db \<equiv> job_end cfg HANDLE_ERC721_ACTIVITY (block_checkpoint db)"

definition erc721_ok :: "'a erc721_db_scheme \<Rightarrow> bool" where
  "erc721_ok db \<longleftrightarrow> sorted (map ev_block_height (evm_events db)) \<and> tokens_ok (erc721_tokens db)"

definition unlinked :: "erc721_activity \<Rightarrow> erc721_activity" where
  "unlinked a = a\<lparr>a7_token_id := None, a7_erc721_token_id := None\<rparr>"

definition activity_log :: "'a erc721_db_scheme \<Rightarrow> erc721_activity multiset" where
  "activity_log db = mset (map unlinked (erc721_activities db))"

definition activities721_of :: "erc721_ext \<Rightarrow> 'a erc721_db_scheme \<Rightarrow> int \<Rightarrow> int \<Rightarrow> erc721_activity multiset" where
  "activities721_of ext db a b = mset (map unlinked (activities721 ext a b db))"

lemma activities721_of_split:
  assumes "a \<le> b" and "b \<le> c"
  shows "activities721_of ext db a c = activities721_of ext db a b + activities721_of ext db b c"
proof -
  have "filter_mset (\<lambda>e. in_range a c (ev_block_height e)) (mset (evm_events db)) =
      filter_mset (\<lambda>e. in_range a b (ev_block_height e)) (mset (evm_events db)) +
      filter_mset (\<lambda>e. in_range b c (ev_block_height e)) (mset (evm_events db))"
    using filter_mset_range_split [OF assms, of "\<lambda>_. True" ev_block_height "mset (evm_events db)"] by simp
  then show ?thesis
    by (simp add: activities721_of_def activities721_def erc721_events_def mset_map_filter_mset)
qed

lemma work_cases:
  assumes "handleErc721Activity_work ext a b db = Inr db'"
  obtains
    (none) "activities721 ext a b db = []" "db' = db"
  | (some) d where "activities721 ext a b db \<noteq> []"
      "erc721_process (activities721 ext a b db) (load_tokens (activities721 ext a b db) (erc721_tokens db)) = Inr d"
      "db' = updateErc721 (activities721 ext a b db) (map snd d) db"
  using assms by (auto simp: handleErc721Activity_work_eq Let_def rbind_eq_Inr split: if_splits)

lemma work_frame:
  assumes "handleErc721Activity_work ext a b db = Inr db'"
  shows "block_checkpoint db' = block_checkpoint db" and "evm_events db' = evm_events db"
    and "evm_smart_contracts db' = evm_smart_contracts db" and "evm_transactions db' = evm_transactions db"
    and "erc721_contracts db' = erc721_contracts db"
    and "activity_log db' = activity_log db + activities721_of ext db a b"
    and "erc721_ok db \<Longrightarrow> erc721_ok db' \<and> owners_of (erc721_tokens db') =
      fold transfer_step (activities721 ext a b db) (owners_of (erc721_tokens db))"
proof -
  let ?acts = "activities721 ext a b db"
  have "db' = db \<and> ?acts = [] \<or> (\<exists>tbl seq ids.
      db' = db\<lparr>erc721_tokens := tbl, erc721_token_seq := seq,
        erc721_activities := erc721_activities db @ map (stored_activity721 \<circ> link_token ids) ?acts\<rparr>)"
    using assms
  proof (cases rule: work_cases)
    case (some d)
    obtain db1 ids where *: "upsert_tokens (map snd d) db = (db1, ids)" by fastforce
    with upsert_tokens_frame [of "map snd d" db] obtain tbl seq
      where "db1 = db\<lparr>erc721_tokens := tbl, erc721_token_seq := seq\<rparr>" by auto
    with some(3) * show ?thesis by (auto simp: updateErc721_def)
  qed simp
  moreover have "unlinked \<circ> (stored_activity721 \<circ> link_token ids) = unlinked" for ids
    by (auto simp: fun_eq_iff unlinked_def stored_activity721_def link_token_def split: option.split)
  ultimately show "block_checkpoint db' = block_checkpoint db" "evm_events db' = evm_events db"
    "evm_smart_contracts db' = evm_smart_contracts db" "evm_transactions db' = evm_transactions db"
    "erc721_contracts db' = erc721_contracts db"
    "activity_log db' = activity_log db + activities721_of ext db a b"
    by (auto simp: activity_log_def activities721_of_def multiset.map_comp)
  assume ok: "erc721_ok db"
  show "erc721_ok db' \<and> owners_of (erc721_tokens db') = fold transfer_step ?acts (owners_of (erc721_tokens db))"
    using assms
  proof (cases rule: work_cases)
    case (some d)
    with ok replay_stored_owners [OF _ activities721_ok some(2)] \<open>evm_events db' = evm_events db\<close> show ?thesis
      by (simp add: erc721_ok_def)
  qed (use ok in simp)
qed

lemma erc721_skips [simp]: "\<not> skips (job_guard HANDLE_ERC721_ACTIVITY) s e"
  by (simp add: skips_def HANDLE_ERC721_ACTIVITY_def)

lemma erc721_run_cases:
  assumes "handleErc721Activity cfg ext db = Inr db'"
  obtains db1 where "handleErc721Activity_work ext (erc721_pos cfg db) (erc721_end cfg db) db = Inr db1"
    "db' = saveCheckpoint (job_name HANDLE_ERC721_ACTIVITY, erc721_end cfg db) db1"
  using range_job_cases [OF assms [unfolded handleErc721Activity_def]] by auto

lemma saveCheckpoint_frame721 [simp]:
  "erc721_tokens (saveCheckpoint r db) = erc721_tokens db"
  "evm_events (saveCheckpoint r db) = evm_events db"
  "evm_smart_contracts (saveCheckpoint r db) = evm_smart_contracts db"
  "evm_transactions (saveCheckpoint r db) = evm_transactions db"
  "erc721_contracts (saveCheckpoint r db) = erc721_contracts db"
  "erc721_activities (saveCheckpoint r db) = erc721_activities db"
  "erc721_ok (saveCheckpoint r db) = erc721_ok db"
  "activity_log (saveCheckpoint r db) = activity_log db"
  by (simp_all add: saveCheckpoint_def erc721_ok_def activity_log_def)

lemma erc721_run_frame:
  assumes "handleErc721Activity cfg ext db = Inr db'"
  shows "activities721 ext a b db' = activities721 ext a b db"
  using assms by (cases rule: erc721_run_cases) (auto intro!: activities721_cong simp: work_frame)

lemma erc721_run_checkpoint:
  "handleErc721Activity cfg ext db = Inr db' \<Longrightarrow>
    block_checkpoint db' = checkpoint_run cfg HANDLE_ERC721_ACTIVITY (block_checkpoint db)"
  by (rule range_job_checkpoint [of cfg HANDLE_ERC721_ACTIVITY "handleErc721Activity_work ext"])
    (simp_all add: handleErc721Activity_def work_frame(1))

lemma erc721_run_log:
  assumes "handleErc721Activity cfg ext db = Inr db'"
  shows "activity_log db' = activity_log db + activities721_of ext db (erc721_pos cfg db) (erc721_end cfg db)"
    and "activities721_of ext db' = activities721_of ext db"
  using assms
  by (cases rule: erc721_run_cases, simp add: work_frame)
    (simp add: fun_eq_iff activities721_of_def erc721_run_frame [OF assms])

lemma erc721_run_owners:
  assumes "erc721_ok db" and "handleErc721Activity cfg ext db = Inr db'"
  shows "erc721_ok db'" and "owners_of (erc721_tokens db') =
    fold transfer_step (activities721 ext (erc721_pos cfg db) (erc721_end cfg db) db) (owners_of (erc721_tokens db))"
  using assms(2,1) by (cases rule: erc721_run_cases; simp add: work_frame)+

lemma activities721_split_ok:
  "erc721_ok db \<Longrightarrow> a \<le> b \<Longrightarrow> b \<le> c \<Longrightarrow>
    activities721 ext a c db = activities721 ext a b db @ activities721 ext b c db"
  by (rule activities721_split) (simp_all add: erc721_ok_def)

interpretation erc721_activity_job: appending_job cfg HANDLE_ERC721_ACTIVITY "handleErc721Activity cfg ext"
    "forward cfg HANDLE_ERC721_ACTIVITY" "activities721_of ext" activity_log
  for cfg ext
  by unfold_locales
    (auto simp: forward_def intro: erc721_run_checkpoint erc721_run_log activities721_of_split)

interpretation erc721_owner_job: replaying_job cfg HANDLE_ERC721_ACTIVITY "handleErc721Activity cfg ext"
    "forward cfg HANDLE_ERC721_ACTIVITY" erc721_ok "\<lambda>db a b. activities721 ext a b db" transfer_step "\<lambda>db. owners_of (erc721_tokens db)"
  for cfg ext
  by unfold_locales
    (auto simp: forward_def intro: ext erc721_run_frame erc721_run_owners activities721_split_ok)
section \<open>When a replay throws\<close>

text \<open>A transfer of a token that nobody owns and that is not a mint.\<close>

definition orphan_transfer :: "owners \<Rightarrow> erc721_activity \<Rightarrow> bool" where
  "orphan_transfer own a \<longleftrightarrow> a7_action a = ACTION_TRANSFER \<and> a7_from a \<noteq> ZERO_ADDRESS \<and>
     (case a7_token_id a of None \<Rightarrow> False | Some i \<Rightarrow> own (a7_contract a, i) = None)"

lemma orphan_transfer_local:
  "(\<And>i. a7_token_id a = Some i \<Longrightarrow> own (a7_contract a, i) = own' (a7_contract a, i)) \<Longrightarrow>
    orphan_transfer own a = orphan_transfer own' a"
  by (auto simp: orphan_transfer_def split: option.split)

lemma process721_throws:
  assumes "transfers_ok [a]"
  shows "isl (process721_activity a d) \<longleftrightarrow> orphan_transfer (dict_owners d) a"
  using assms
  by (auto simp: process721_activity_def handlerErc721Transfer_def orphan_transfer_def Let_def
      dict_owners_def transfers_ok_def split: option.splits)

lemma erc721_process_throws:
  assumes "transfers_ok acts" and "dict_ok d"
  shows "isl (erc721_process acts d) \<longleftrightarrow>
    (\<exists>xs a ys. acts = xs @ a # ys \<and> orphan_transfer (fold transfer_step xs (dict_owners d)) a)"
  using assms
proof (induction acts rule: rev_induct)
  case Nil
  then show ?case by (simp add: erc721_process_def)
next
  case (snoc a acts)
  have ok: "transfers_ok acts" "transfers_ok [a]" using snoc.prems by (simp_all add: transfers_ok_def)
  show ?case
  proof (cases "erc721_process acts d")
    case (Inl e)
    then have "isl (erc721_process (acts @ [a]) d)" by (simp add: erc721_process_def rfold_append)
    with Inl snoc.IH ok snoc.prems(2) show ?thesis by (simp only: ex_split_snoc) simp
  next
    case (Inr d')
    have d': "dict_ok d'" "\<And>c i. plain i \<Longrightarrow> dict_owners d' (c, i) = fold transfer_step acts (dict_owners d) (c, i)"
      using erc721_process_effect [OF Inr ok(1) snoc.prems(2)] by blast+
    have "isl (erc721_process (acts @ [a]) d) = isl (process721_activity a d')"
      using Inr by (cases "process721_activity a d'") (simp_all add: erc721_process_def rfold_append)
    also have "\<dots> = orphan_transfer (dict_owners d') a" by (rule process721_throws [OF ok(2)])
    also have "\<dots> = orphan_transfer (fold transfer_step acts (dict_owners d)) a"
      using ok(2) d'(2) by (intro orphan_transfer_local) (simp add: transfers_ok_def)
    finally have "isl (erc721_process (acts @ [a]) d) = orphan_transfer (fold transfer_step acts (dict_owners d)) a" .
    moreover have "\<not> (\<exists>xs a ys. acts = xs @ a # ys \<and> orphan_transfer (fold transfer_step xs (dict_owners d)) a)"
      using Inr snoc.IH [OF ok(1) snoc.prems(2)] by simp
    ultimately show ?thesis unfolding ex_split_snoc by blast
  qed
qed

text \<open>
  A run of the ERC-721 activity job throws exactly when the range holds, for a tracked
  contract, a transfer of a token that is neither stored nor minted earlier in the range and
  that does not come from the zero address. Such a run commits nothing, and since the events of
  a range stay where they are, the next run throws as well.
\<close>

theorem erc721_run_throws:
  assumes "tokens_ok (erc721_tokens db)"
  shows "isl (handleErc721Activity cfg ext db) \<longleftrightarrow>
    (\<exists>xs a ys. activities721 ext (erc721_pos cfg db) (erc721_end cfg db) db = xs @ a # ys \<and>
       orphan_transfer (fold transfer_step xs (owners_of (erc721_tokens db))) a)"
proof -
  let ?acts = "activities721 ext (erc721_pos cfg db) (erc721_end cfg db) db"
  let ?d = "load_tokens ?acts (erc721_tokens db)"
  note ok = activities721_ok [of ext "erc721_pos cfg db" "erc721_end cfg db" db]
  note load = load_tokens_effect [OF assms, where acts = ?acts]
  have "isl (handleErc721Activity cfg ext db) \<longleftrightarrow> isl (erc721_process ?acts ?d)"
    by (cases "erc721_process ?acts ?d")
      (auto simp: handleErc721Activity_def range_job_isl handleErc721Activity_work_eq Let_def erc721_process_def)
  also have "\<dots> \<longleftrightarrow> (\<exists>xs a ys. ?acts = xs @ a # ys \<and> orphan_transfer (fold transfer_step xs (dict_owners ?d)) a)"
    by (rule erc721_process_throws [OF ok load(1)])
  also have "\<dots> \<longleftrightarrow> (\<exists>xs a ys. ?acts = xs @ a # ys \<and>
      orphan_transfer (fold transfer_step xs (owners_of (erc721_tokens db))) a)"
  proof -
    have "orphan_transfer (fold transfer_step xs (dict_owners ?d)) a =
        orphan_transfer (fold transfer_step xs (owners_of (erc721_tokens db))) a"
      if "a \<in> set ?acts" for xs a
    proof (rule orphan_transfer_local)
      fix i assume i: "a7_token_id a = Some i"
      with that ok have "plain i" by (force simp: transfers_ok_def list_all_iff)
      moreover have "(a7_contract a, Some i) \<in> set (map (\<lambda>a. (a7_contract a, a7_token_id a)) ?acts)"
        using that i by force
      ultimately show "fold transfer_step xs (dict_owners ?d) (a7_contract a, i) =
          fold transfer_step xs (owners_of (erc721_tokens db)) (a7_contract a, i)"
        using load(2) by (intro transfer_step_local) simp
    qed
    then show ?thesis by (metis in_set_conv_decomp)
  qed
  finally show ?thesis .
qed
section \<open>Stored activities refer to their tokens\<close>

definition row_id :: "erc721_token list \<Rightarrow> string \<times> string \<Rightarrow> int option" where
  "row_id tbl p = Option.bind (find (\<lambda>t. (t7_contract t, t7_token_id t) = p) tbl) t7_id"

definition token_ref :: "erc721_token list \<Rightarrow> erc721_activity \<Rightarrow> int option" where
  "token_ref tbl a = Option.bind (a7_token_id a) (\<lambda>i. row_id tbl (a7_contract a, i))"

lemma upsert_token_row_id:
  "row_id (erc721_tokens (fst (upsert_token t db))) p =
     (if p = (t7_contract t, t7_token_id t) then snd (upsert_token t db) else row_id (erc721_tokens db) p)"
proof (cases "find (same_token t) (erc721_tokens db)")
  case None
  have same: "same_token t = (\<lambda>u. (t7_contract u, t7_token_id u) = (t7_contract t, t7_token_id t))"
    by (auto simp: same_token_def fun_eq_iff)
  from None show ?thesis
    by (auto simp: upsert_token_def Let_def row_id_def find_append same split: option.split)
next
  case (Some u)
  have same: "same_token t = (\<lambda>u. (t7_contract u, t7_token_id u) = (t7_contract t, t7_token_id t))"
    by (auto simp: same_token_def fun_eq_iff)
  let ?f = "\<lambda>u. if same_token t u
    then u\<lparr>t7_owner := t7_owner t, t7_last_updated_height := t7_last_updated_height t\<rparr> else u"
  have "find (\<lambda>t. (t7_contract t, t7_token_id t) = p) (map ?f (erc721_tokens db)) =
      map_option ?f (find (\<lambda>t. (t7_contract t, t7_token_id t) = p) (erc721_tokens db))"
    by (rule find_map_overwrite) simp
  then have "row_id (map ?f (erc721_tokens db)) p = row_id (erc721_tokens db) p"
    by (cases "find (\<lambda>t. (t7_contract t, t7_token_id t) = p) (erc721_tokens db)") (simp_all add: row_id_def)
  with Some show ?thesis by (simp add: upsert_token_def Let_def row_id_def same)
qed

lemma upsert_tokens_Cons:
  "fst (upsert_tokens (t # ts) db) = fst (upsert_tokens ts (fst (upsert_token t db)))"
  "snd (upsert_tokens (t # ts) db) =
     (token_key_of t, snd (upsert_token t db)) # snd (upsert_tokens ts (fst (upsert_token t db)))"
  by (simp_all add: Let_def split_beta)

lemma upsert_tokens_row_id:
  "p \<notin> set (map (\<lambda>t. (t7_contract t, t7_token_id t)) ts) \<Longrightarrow>
    row_id (erc721_tokens (fst (upsert_tokens ts db))) p = row_id (erc721_tokens db) p"
proof (induction ts arbitrary: db)
  case (Cons t ts)
  then show ?case by (simp add: upsert_tokens_Cons upsert_token_row_id del: upsert_tokens.simps)
qed simp

lemma upsert_tokens_ids:
  assumes "list_all (\<lambda>t. plain (t7_token_id t)) ts" and "distinct (map (\<lambda>t. (t7_contract t, t7_token_id t)) ts)"
    and "plain i"
  shows "map_of (snd (upsert_tokens ts db)) (token_key c (Some i)) =
      (if (c, i) \<in> set (map (\<lambda>t. (t7_contract t, t7_token_id t)) ts)
       then Some (row_id (erc721_tokens (fst (upsert_tokens ts db))) (c, i)) else None)"
  using assms(1,2)
proof (induction ts arbitrary: db)
  case (Cons t ts)
  show ?case
  proof (cases "(c, i) = (t7_contract t, t7_token_id t)")
    case True
    with Cons.prems have "(c, i) \<notin> set (map (\<lambda>t. (t7_contract t, t7_token_id t)) ts)" by auto
    with True show ?thesis
      by (simp add: upsert_tokens_Cons upsert_tokens_row_id upsert_token_row_id token_key_of_def
          del: upsert_tokens.simps)
  next
    case False
    then have "token_key c (Some i) \<noteq> token_key_of t"
      using Cons.prems assms(3) by (auto simp: token_key_of_def token_key_inj)
    with False Cons show ?thesis by (auto simp: upsert_tokens_Cons simp del: upsert_tokens.simps)
  qed
qed simp

lemma upsert_tokens_no_id:
  assumes "list_all (\<lambda>t. plain (t7_token_id t)) ts"
  shows "map_of (snd (upsert_tokens ts db)) (token_key c None) = None"
  using assms
proof (induction ts arbitrary: db)
  case (Cons t ts)
  have "token_key c None \<noteq> token_key_of t"
    using Cons.prems by (auto simp: token_key_of_def token_key_def plain_def sep_key_inj_right)
  with Cons show ?case by (simp add: upsert_tokens_Cons del: upsert_tokens.simps)
qed simp

lemma owners_of_pairs: "owners_of tbl p \<noteq> None \<longleftrightarrow> p \<in> set (map (\<lambda>t. (t7_contract t, t7_token_id t)) tbl)"
  by (simp add: owners_of_def map_of_eq_None_iff image_image)

lemma row_id_None: "owners_of tbl p = None \<Longrightarrow> row_id tbl p = None"
proof -
  assume "owners_of tbl p = None"
  then have "find (\<lambda>t. (t7_contract t, t7_token_id t) = p) tbl = None"
    using owners_of_pairs [of tbl p] by (auto simp: find_None_iff)
  then show ?thesis by (simp add: row_id_def)
qed

lemma link_token_ref:
  assumes "tokens_ok (erc721_tokens db)" and "transfers_ok acts" and "a \<in> set acts" and "a7_erc721_token_id a = None"
    and "erc721_process acts (load_tokens acts (erc721_tokens db)) = Inr d"
    and "upsert_tokens (map snd d) db = (db1, ids)"
  shows "link_token ids a = a\<lparr>a7_erc721_token_id := token_ref (erc721_tokens db1) a\<rparr>"
proof (cases "a7_token_id a")
  note load = load_tokens_effect [OF assms(1), where acts = acts]
  note d = erc721_process_effect [OF assms(5,2) load(1)]
  note rows = dict_rows [OF d(1)]
  case None
  with upsert_tokens_no_id [OF rows(1), of db "a7_contract a"] assms(4,6) show ?thesis
    by (simp add: link_token_def token_ref_def)
next
  note load = load_tokens_effect [OF assms(1), where acts = acts]
  note d = erc721_process_effect [OF assms(5,2) load(1)]
  note rows = dict_rows [OF d(1)]
  case (Some i)
  have plain: "plain i" using assms(2,3) Some by (force simp: transfers_ok_def list_all_iff)
  let ?p = "(a7_contract a, i)"
  have ids: "map_of ids (token_key (a7_contract a) (Some i)) =
      (if ?p \<in> set (map (\<lambda>t. (t7_contract t, t7_token_id t)) (map snd d)) then Some (row_id (erc721_tokens db1) ?p) else None)"
    using upsert_tokens_ids [OF rows(1,2) plain, of db "a7_contract a"] assms(6) by simp
  show ?thesis
  proof (cases "?p \<in> set (map (\<lambda>t. (t7_contract t, t7_token_id t)) (map snd d))")
    case True
    with ids Some show ?thesis by (simp add: link_token_def token_ref_def)
  next
    case False
    then have "owners_of (map snd d) ?p = None" using owners_of_pairs by blast
    then have "fold transfer_step acts (dict_owners (load_tokens acts (erc721_tokens db))) ?p = None"
      using rows(3) [OF plain] d(2) [OF plain] by simp
    then have "dict_owners (load_tokens acts (erc721_tokens db)) ?p = None"
      using transfer_step_keeps by blast
    moreover have "(a7_contract a, Some i) \<in> set (map (\<lambda>a. (a7_contract a, a7_token_id a)) acts)"
      using assms(3) Some by force
    ultimately have "owners_of (erc721_tokens db) ?p = None" using load(2) [OF plain, of "a7_contract a"] by simp
    moreover have "row_id (erc721_tokens db1) ?p = row_id (erc721_tokens db) ?p"
      using upsert_tokens_row_id [OF False, of db] assms(6) by simp
    ultimately have "row_id (erc721_tokens db1) ?p = None" using row_id_None by simp
    with False ids Some assms(4) show ?thesis by (simp add: link_token_def token_ref_def)
  qed
qed
section \<open>Properties\<close>

definition sample721_event :: "int \<Rightarrow> string \<Rightarrow> string \<Rightarrow> evm_event" where
  "sample721_event h src dst =
     \<lparr>ev_id = h, ev_tx_id = Some h, ev_evm_tx_id = 1, ev_address = ''0xc'', ev_topic0 = Some ''T'',
      ev_topic1 = Some (''0x'' @ src), ev_topic2 = Some (''0x'' @ dst), ev_topic3 = Some ''0x5'', ev_data = None,
      ev_block_height = h, ev_tx_hash = ''0xt''\<rparr>"

definition sample721_ext :: erc721_ext where
  "sample721_ext =
     \<lparr>topic721_TRANSFER = ''T'', topic721_APPROVAL = ''A'', topic721_APPROVAL_FOR_ALL = ''B'',
      decodeAbi_transfer = map_of [(''0x0a5'', (ZERO_ADDRESS, ''0xA'', 5)), (''0xab5'', (''0xA'', ''0xB'', 5))],
      decodeAbi_approval_all = (\<lambda>_. None), readErc721 = (\<lambda>_. (None, None)), readTokenURI = (\<lambda>_ _. None),
      blockNumber721 = 9\<rparr>"

definition sample721_config :: config where
  "sample721_config = \<lparr>startBlock = 0, blocksPerCall = (\<lambda>_. 100)\<rparr>"

definition sample721_db :: erc721_db where
  "sample721_db =
     \<lparr>block_checkpoint = [''handle:erc721-contract'' \<mapsto> 2, ''handle:evm-proxy-history'' \<mapsto> 3],
      account = [], account_seq = 1, attribute_rows = [], update_account_calls = [],
      evm_events = [sample721_event 1 ''0'' ''a'', sample721_event 2 ''a'' ''b''], cosmos_events = [],
      evm_smart_contracts = [\<lparr>sc_id = 7, sc_address = ''0xc'', sc_type = Some ''ERC721'', sc_created_height = Some 1\<rparr>],
      evm_transactions = [1 \<mapsto> Some ''0xa''], erc20_contracts = Map.empty, erc20_activities = [],
      account_balances = Map.empty,
      erc721_contracts = [\<lparr>c7_id = 1, c7_evm_smart_contract_id = 7, c7_address = ''0xc'', c7_symbol = None,
        c7_name = None, c7_track = True, c7_last_updated_height = Some 1\<rparr>],
      erc721_contract_seq = 2, erc721_tokens = [], erc721_token_seq = 4, erc721_activities = [],
      token_media_queue = []\<rparr>"

lemma sample721_ok: "erc721_ok sample721_db"
  by code_simp

lemma sample721_range:
  "erc721_pos sample721_config sample721_db = 0" "erc721_end sample721_config sample721_db = 2"
  by code_simp+

lemma sample721_run:
  obtains db where "handleErc721Activity sample721_config sample721_ext sample721_db = Inr db"
    "erc721_pos sample721_config db = 2"
proof -
  have "\<not> isl (handleErc721Activity sample721_config sample721_ext sample721_db)" by code_simp
  then obtain db where run: "handleErc721Activity sample721_config sample721_ext sample721_db = Inr db"
    by (metis sum.collapse(2))
  moreover have "erc721_pos sample721_config db = 2"
    using erc721_run_checkpoint [OF run] sample721_range by (simp add: job_start_checkpoint_run)
  ultimately show thesis by (rule that)
qed

text \<open>
  C7. When the activity job, which has no guard, is started only while the end of its range is not
  behind its start, and, at first and after every step of another job, the stored events are in the
  order of their heights and the tokens have one row each, under ids that contain no underscore and are not the text undefined, then, however its runs interleave with other
  jobs that leave its checkpoint, its tokens and the activities of passed heights alone, the stored owner of every ERC-721 token is
  the one that replaying all transfers of the heights passed since, in the order of the events,
  gives over the owners at first; no token has two rows, and the checkpoint does not move back.
\<close>

theorem erc721_owners_replayed:
  assumes "job_trace (handleErc721Activity cfg ext) (forward cfg HANDLE_ERC721_ACTIVITY)
      (\<lambda>db db'. settled_env (erc721_pos cfg) (\<lambda>db. owners_of (erc721_tokens db)) (\<lambda>db a b. activities721 ext a b db) db db'
        \<and> erc721_ok db') db0 db"
    and "erc721_ok db0"
  shows "owners_of (erc721_tokens db) =
      fold transfer_step (activities721 ext (erc721_pos cfg db0) (erc721_pos cfg db) db) (owners_of (erc721_tokens db0)) \<and>
    erc721_pos cfg db0 \<le> erc721_pos cfg db \<and> tokens_ok (erc721_tokens db)"
  using erc721_owner_job.replays_once [OF assms] by (auto simp: erc721_ok_def)

theorem erc721_owners_replayed_witness:
  "\<exists>db. handleErc721Activity sample721_config sample721_ext sample721_db = Inr db \<and>
     owners_of (erc721_tokens db) (''0xc'', ''5'') = Some (''0xb'', 2)"
proof -
  obtain db where run: "handleErc721Activity sample721_config sample721_ext sample721_db = Inr db"
    and pos: "erc721_pos sample721_config db = 2" by (rule sample721_run)
  have "job_trace (handleErc721Activity sample721_config sample721_ext) (forward sample721_config HANDLE_ERC721_ACTIVITY)
      (\<lambda>db db'. settled_env (erc721_pos sample721_config) (\<lambda>db. owners_of (erc721_tokens db))
        (\<lambda>db a b. activities721 sample721_ext a b db) db db' \<and> erc721_ok db') sample721_db db"
    by (intro trace_one run) (simp add: forward_def sample721_range)
  note erc721_owners_replayed [OF this sample721_ok]
  moreover have "fold transfer_step (activities721 sample721_ext 0 2 sample721_db) (owners_of (erc721_tokens sample721_db))
      (''0xc'', ''5'') = Some (''0xb'', 2)"
    by code_simp
  ultimately show ?thesis using run pos sample721_range erc721_run_frame [OF run] by simp
qed

text \<open>
  However the activity job's runs interleave with the other jobs, the ERC-721 activities
  stored are, up to their references to tokens, those stored at first and, exactly once each,
  those of the tracked contracts' events of the heights passed since.
\<close>

theorem erc721_activity_exactly_once:
  assumes "job_trace (handleErc721Activity cfg ext) (forward cfg HANDLE_ERC721_ACTIVITY)
      (settled_env (erc721_pos cfg) activity_log (activities721_of ext)) db0 db"
  shows "activity_log db = activity_log db0 + activities721_of ext db (erc721_pos cfg db0) (erc721_pos cfg db)"
  using erc721_activity_job.exactly_once [OF assms] by simp

theorem erc721_activity_exactly_once_witness:
  "\<exists>db. handleErc721Activity sample721_config sample721_ext sample721_db = Inr db \<and> size (activity_log db) = 2"
proof -
  obtain db where run: "handleErc721Activity sample721_config sample721_ext sample721_db = Inr db"
    and pos: "erc721_pos sample721_config db = 2" by (rule sample721_run)
  have "job_trace (handleErc721Activity sample721_config sample721_ext) (forward sample721_config HANDLE_ERC721_ACTIVITY)
      (settled_env (erc721_pos sample721_config) activity_log (activities721_of sample721_ext)) sample721_db db"
    by (intro trace_one run) (simp add: forward_def sample721_range)
  note erc721_activity_exactly_once [OF this]
  moreover have "length (activities721 sample721_ext 0 2 sample721_db) = 2" "erc721_activities sample721_db = []"
    by code_simp+
  ultimately have "size (activity_log db) = size (activities721_of sample721_ext sample721_db 0 2)"
    using pos sample721_range erc721_run_log(2) [OF run] by (simp add: activity_log_def)
  with \<open>length _ = 2\<close> run show ?thesis by (simp add: activities721_of_def)
qed

text \<open>
  Every activity that a run stores refers to the row of its token: the id written beside a
  transfer or an approval is the id under which the token table has that contract and token
  after the run, and there is none for a token without a row or an approval for all tokens.
\<close>

theorem erc721_activity_links:
  assumes "erc721_ok db" and "handleErc721Activity cfg ext db = Inr db'"
  shows "erc721_activities db' = erc721_activities db @
    map (\<lambda>a. a\<lparr>a7_token_id := None, a7_erc721_token_id := token_ref (erc721_tokens db') a\<rparr>)
      (activities721 ext (erc721_pos cfg db) (erc721_end cfg db) db)"
  using assms(2)
proof (cases rule: erc721_run_cases)
  case (1 db1)
  let ?acts = "activities721 ext (erc721_pos cfg db) (erc721_end cfg db) db"
  show ?thesis using 1(1)
  proof (cases rule: work_cases)
    case none
    with 1(2) show ?thesis by simp
  next
    case (some d)
    obtain db2 ids where ids: "upsert_tokens (map snd d) db = (db2, ids)" by fastforce
    have "stored_activity721 (link_token ids a) =
        a\<lparr>a7_token_id := None, a7_erc721_token_id := token_ref (erc721_tokens db2) a\<rparr>" if "a \<in> set ?acts" for a
      using link_token_ref [OF _ activities721_ok that _ some(2) ids] assms(1) activities721_mem [OF that] build721_shape(1)
      by (auto simp: erc721_ok_def stored_activity721_def)
    moreover have "erc721_activities db2 = erc721_activities db"
      using upsert_tokens_frame [of "map snd d" db] ids by auto
    ultimately show ?thesis using some(3) 1(2) ids by (simp add: updateErc721_def)
  qed
qed

theorem erc721_activity_links_witness:
  "\<exists>db. handleErc721Activity sample721_config sample721_ext sample721_db = Inr db \<and>
     map a7_erc721_token_id (erc721_activities db) =
       map (token_ref (erc721_tokens db)) (activities721 sample721_ext 0 2 sample721_db)"
proof -
  obtain db where run: "handleErc721Activity sample721_config sample721_ext sample721_db = Inr db"
    by (rule sample721_run)
  moreover have "erc721_activities sample721_db = []" by code_simp
  ultimately show ?thesis
    using erc721_activity_links [OF sample721_ok run] by (auto simp: sample721_range)
qed

theorem erc721_run_throws_witness:
  "isl (handleErc721Activity sample721_config sample721_ext
     (sample721_db\<lparr>evm_events := [sample721_event 2 ''a'' ''b'']\<rparr>))"
proof -
  let ?db = "sample721_db\<lparr>evm_events := [sample721_event 2 ''a'' ''b'']\<rparr>"
  let ?acts = "activities721 sample721_ext 0 2 ?db"
  have range: "erc721_pos sample721_config ?db = 0" "erc721_end sample721_config ?db = 2"
    and ok: "tokens_ok (erc721_tokens ?db)"
    and "?acts = [] @ hd ?acts # []"
    and "orphan_transfer (fold transfer_step [] (owners_of (erc721_tokens ?db))) (hd ?acts)"
    by code_simp+
  then have "\<exists>xs a ys. ?acts = xs @ a # ys \<and> orphan_transfer (fold transfer_step xs (owners_of (erc721_tokens ?db))) a"
    by blast
  then show ?thesis by (subst erc721_run_throws [OF ok]) (simp only: range)
qed
lemma take_upto_last:
  assumes "sorted_wrt (<) (map f xs)" and "take n xs \<noteq> []" and "x \<in> set xs" and "f x \<le> (f (last (take n xs)) :: int)"
  shows "x \<in> set (take n xs)"
proof (rule ccontr)
  assume "x \<notin> set (take n xs)"
  then have "x \<in> set (drop n xs)" using assms(3) by (metis Un_iff append_take_drop_id set_append)
  moreover have "sorted_wrt (<) (map f (take n xs) @ map f (drop n xs))"
    using assms(1) by (metis append_take_drop_id map_append)
  moreover have "last (take n xs) \<in> set (take n xs)" using assms(2) by (rule last_in_set)
  ultimately have "f (last (take n xs)) < f x" by (auto simp: sorted_wrt_append)
  with assms(4) show False by simp
qed

lemma createJob_queues:
  "tm_jobId m \<in> set (map tm_jobId (createJob m q))" "set q \<subseteq> set (createJob m q)"
  by (auto simp: createJob_def)

lemma fold_createJob:
  "set q \<subseteq> set (fold createJob ms q) \<and> (\<forall>m\<in>set ms. tm_jobId m \<in> set (map tm_jobId (fold createJob ms q)))"
proof (induction ms arbitrary: q)
  case (Cons m ms)
  from Cons [of "createJob m q"] createJob_queues(1) [of m q] createJob_queues(2) [of q m] show ?case
    by (auto 0 4)
qed simp

lemma distinct_createJob: "distinct (map tm_jobId q) \<Longrightarrow> distinct (map tm_jobId (fold createJob ms q))"
  by (induction ms arbitrary: q) (simp_all add: createJob_def)

text \<open>
  A run of the media job skips no token: every token without media whose id lies after the
  job's old checkpoint and up to its new one has a job in the queue, no queued job is lost and
  none is queued twice; and as long as a token is unprocessed, a run with a positive batch size
  moves the checkpoint forward.
\<close>

theorem erc721_media_queued:
  assumes "sorted_wrt (<) (map (\<lambda>t. the (t7_id t)) (erc721_tokens db))" and "list_all (\<lambda>t. t7_id t \<noteq> None) (erc721_tokens db)"
    and "distinct (map tm_jobId (token_media_queue db))" and "0 < batch"
  shows "let db' = handleErc721Media ext batch db;
      todo = filter (\<lambda>t. t7_media_info t = None \<and> media_checkpoint db < the (t7_id t)) (erc721_tokens db) in
    (\<forall>t\<in>set todo. the (t7_id t) \<le> media_checkpoint db' \<longrightarrow>
        t7_contract t @ CHR ''_'' # show_id (t7_id t) \<in> set (map tm_jobId (token_media_queue db'))) \<and>
    set (token_media_queue db) \<subseteq> set (token_media_queue db') \<and>
    distinct (map tm_jobId (token_media_queue db')) \<and>
    (if todo = [] then db' = db else media_checkpoint db < media_checkpoint db')"
proof -
  define todo where "todo = filter (\<lambda>t. t7_media_info t = None \<and> media_checkpoint db < the (t7_id t)) (erc721_tokens db)"
  let ?toks = "take batch todo"
  let ?queue = "fold createJob (getTokensUri ext ?toks) (token_media_queue db)"
  have toks: "tokensUnprocess batch (media_checkpoint db) (erc721_tokens db) = ?toks"
    unfolding tokensUnprocess_def todo_def
    by (rule arg_cong [of _ _ "take batch"], rule filter_cong) (use assms(2) in \<open>auto simp: list_all_iff\<close>)
  have incr: "sorted_wrt (<) (map (\<lambda>t. the (t7_id t)) todo)"
    using assms(1) by (simp add: todo_def sorted_wrt_map sorted_wrt_filter)
  show ?thesis
  proof (cases "todo = []")
    case True
    then have "handleErc721Media ext batch db = db" by (simp add: handleErc721Media_def Let_def toks)
    with True assms(3) show ?thesis by (simp add: Let_def todo_def)
  next
    case False
    then have ne: "?toks \<noteq> []" using assms(4) by simp
    then have last: "last ?toks \<in> set todo" by (metis in_set_takeD last_in_set)
    then obtain i where i: "t7_id (last ?toks) = Some i" and less: "media_checkpoint db < i"
      using assms(2) by (auto simp: todo_def list_all_iff)
    have db': "handleErc721Media ext batch db =
        saveCheckpoint (HANDLE_ERC721_MEDIA, i) (db\<lparr>token_media_queue := ?queue\<rparr>)"
      using ne i by (simp add: handleErc721Media_def Let_def toks)
    have queued: "t7_contract t @ CHR ''_'' # show_id (t7_id t) \<in> set (map tm_jobId ?queue)"
      if "t \<in> set todo" "the (t7_id t) \<le> i" for t
    proof -
      have "t \<in> set ?toks" using take_upto_last [OF incr ne that(1)] that(2) i by simp
      then show ?thesis using fold_createJob [of "token_media_queue db" "getTokensUri ext ?toks"]
        by (auto simp: getTokensUri_def)
    qed
    have "media_checkpoint (handleErc721Media ext batch db) = i"
      and "token_media_queue (handleErc721Media ext batch db) = ?queue"
      by (simp_all add: db' media_checkpoint_def saveCheckpoint_def)
    then show ?thesis
      using False queued less fold_createJob [of "token_media_queue db" "getTokensUri ext ?toks"]
        distinct_createJob [OF assms(3)] by (simp add: Let_def todo_def)
  qed
qed

theorem erc721_media_queued_witness:
  "map tm_jobId (token_media_queue (handleErc721Media sample721_ext 5 (sample721_db\<lparr>erc721_tokens :=
     [\<lparr>t7_id = Some 4, t7_token_id = ''5'', t7_owner = ''0xb'', t7_contract = ''0xc'',
       t7_last_updated_height = 2, t7_media_info = None\<rparr>]\<rparr>))) \<noteq> []"
proof -
  let ?db = "sample721_db\<lparr>erc721_tokens :=
     [\<lparr>t7_id = Some 4, t7_token_id = ''5'', t7_owner = ''0xb'', t7_contract = ''0xc'',
       t7_last_updated_height = 2, t7_media_info = None\<rparr>]\<rparr>"
  have "media_checkpoint ?db = 0" "media_checkpoint (handleErc721Media sample721_ext 5 ?db) = 4"
    "distinct (map tm_jobId (token_media_queue ?db))"
    by code_simp+
  then show ?thesis using erc721_media_queued [of ?db 5 sample721_ext] by (auto simp: Let_def)
qed

end
