(* ===== verification/Smart_Contract.thy ===== *)
theory Smart_Contract
  imports Chain_Db
begin

text \<open>
  The CosmWasm contracts of the chain: the jobs of \<^verbatim>\<open>src/services/crawl-cosmwasm\<close> that store codes
  (\<^verbatim>\<open>crawl_code.service.ts\<close>), instantiated and migrated contracts (\<^verbatim>\<open>crawl_smart_contract.service.ts\<close>),
  and the actions by which other services ask for codes and contracts that are missing. The answers
  of the node, already decoded, are the parameter \<open>wasm_ext\<close>. A job may commit some tables before
  it throws, so the jobs return the state they leave together with the error.
\<close>

section \<open>Rows and parameters\<close>

definition STATUS_LATEST :: string where "STATUS_LATEST = ''LATEST''"
definition STATUS_MIGRATED :: string where "STATUS_MIGRATED = ''MIGRATED''"

record code_row =
  cd_code_id :: int
  cd_creator :: string
  cd_data_hash :: string
  cd_instantiate_permission :: string
  cd_type :: "string option"
  cd_status :: "string option"
  cd_store_hash :: string
  cd_store_height :: int

text \<open>The columns that verification of a code fills and that only travel along are one field.\<close>

record code_id_verification =
  cv_code_id :: int
  cv_data_hash :: string
  cv_verification_status :: "string option"
  cv_verified_at :: "string option"
  cv_schemas :: string

record smart_contract =
  k_id :: int
  k_name :: "string option"
  k_address :: string
  k_creator :: string
  k_code_id :: int
  k_status :: string
  k_label :: "string option"
  k_instantiate_hash :: string
  k_instantiate_height :: int
  k_version :: "string option"

text \<open>
  What the node answers: the information about a code, the raw contract state \<open>contract_info\<close> as
  the fields of its JSON, and the information about a contract. \<open>Long_fromString\<close> is the package
  \<^verbatim>\<open>long\<close>, \<open>None\<close> an error it throws; \<open>now\<close> is the clock.
\<close>

record code_info =
  ci_creator :: string
  ci_dataHash :: string
  ci_instantiatePermission :: string

record cw2_data =
  cw2_contract :: "string option"
  cw2_name :: "string option"
  cw2_version :: "string option"

record contract_info =
  info_codeId :: int
  info_creator :: string
  info_label :: string

record wasm_ext =
  queryCode :: "int \<Rightarrow> code_info option"
  getContractCw2 :: "string \<Rightarrow> cw2_data option"
  getContractInfo :: "string \<Rightarrow> contract_info option"
  Long_fromString :: "string \<Rightarrow> int option"
  now :: string

record 'c wasm_db = "'c chain_db" +
  codes :: "code_row list"
  code_id_verifications :: "code_id_verification list"
  smart_contracts :: "smart_contract list"
  smart_contract_seq :: int

definition succeeded :: "'db outcome \<Rightarrow> 'db res" where
  "succeeded o1 = (case snd o1 of None \<Rightarrow> Inr (fst o1) | Some e \<Rightarrow> Inl e)"

text \<open>A range job whose work may leave changes behind when it throws.\<close>

definition range_outcome ::
  "config \<Rightarrow> job_decl \<Rightarrow> (int \<Rightarrow> int \<Rightarrow> 'a base_db_scheme \<Rightarrow> 'a base_db_scheme outcome)
    \<Rightarrow> 'a base_db_scheme \<Rightarrow> 'a base_db_scheme outcome"
where
  "range_outcome cfg d work db =
     (case getCheckpoint cfg (block_checkpoint db) (job_name d) (lastHeightJobNames d) (configName d)
      of (startB, endB, row) \<Rightarrow>
        if skips (job_guard d) startB endB then (db, None)
        else (case work startB endB db of
                (db', None) \<Rightarrow> (saveCheckpoint (fst row, endB) db', None)
              | (db', Some e) \<Rightarrow> (db', Some e)))"

section \<open>Codes\<close>

record store_code =
  st_codeId :: int
  st_hash :: string
  st_height :: int

text \<open>The list of \<^verbatim>\<open>code-type.json\<close>, which \<open>detectCodeType\<close> reads.\<close>

definition detectCodeType :: "string option \<Rightarrow> string" where
  "detectCodeType contract =
     (case contract of
        None \<Rightarrow> []
      | Some c \<Rightarrow>
          if c \<in> set [''crates.io:cw20-base''] then ''CW20''
          else if c \<in> set [''crates.io:cw721-base'', ''crates.io:cw721-metadata-onchain'',
                            ''crates.io:cw721-fixed-price'', ''crates.io:cw2981-royalties''] then ''CW721''
          else if c \<in> set [''crates.io:cw4973''] then ''CW4973''
          else [])"

definition code_entity :: "wasm_ext \<Rightarrow> store_code \<Rightarrow> code_row res" where
  "code_entity ext c =
     (case queryCode ext (st_codeId c) of
        None \<Rightarrow> Inl (ValidationError ''creator'')
      | Some i \<Rightarrow>
          Inr \<lparr>cd_code_id = st_codeId c, cd_creator = ci_creator i, cd_data_hash = toLowerCase (ci_dataHash i),
               cd_instantiate_permission = ci_instantiatePermission i, cd_type = None, cd_status = None,
               cd_store_hash = st_hash c, cd_store_height = st_height c\<rparr>)"

text \<open>A new code whose data hash has been verified before is verified as well.\<close>

definition new_verifications ::
  "wasm_ext \<Rightarrow> code_id_verification list \<Rightarrow> code_row list \<Rightarrow> code_id_verification list"
where
  "new_verifications ext tbl codeEntities =
     List.map_filter (\<lambda>newCode.
       map_option (\<lambda>v. v\<lparr>cv_code_id := cd_code_id newCode, cv_verified_at := Some (now ext)\<rparr>)
         (find (\<lambda>v. cv_data_hash v = cd_data_hash newCode)
           (filter (\<lambda>v. cv_verification_status v = Some ''SUCCESS'') tbl))) codeEntities"

text \<open>\<^verbatim>\<open>insert(codeEntities).onConflict('code_id').merge()\<close>; one statement may not hit a row twice.\<close>

definition upsert_code :: "code_row \<Rightarrow> code_row list \<Rightarrow> code_row list" where
  "upsert_code c tbl =
     (if cd_code_id c \<in> set (map cd_code_id tbl)
      then map (\<lambda>u. if cd_code_id u = cd_code_id c then c else u) tbl else tbl @ [c])"

definition upsert_codes :: "code_row list \<Rightarrow> ('c, 'a) wasm_db_scheme \<Rightarrow> ('c, 'a) wasm_db_scheme res" where
  "upsert_codes cs db =
     (if distinct (map cd_code_id cs) then Inr (db\<lparr>codes := fold upsert_code cs (codes db)\<rparr>)
      else Inl (DbError ''ON CONFLICT DO UPDATE command cannot affect row a second time''))"

text \<open>
  The handler logs an error of the statements and goes on, but the database has aborted the
  transaction: nothing of it is stored, and the next statement throws. \<open>DbError\<close> stands for that.
\<close>

definition insertNewCodes ::
  "wasm_ext \<Rightarrow> store_code list \<Rightarrow> ('c, 'a) wasm_db_scheme \<Rightarrow> ('c, 'a) wasm_db_scheme res"
where
  "insertNewCodes ext codeIds db =
     rbind (rmap (code_entity ext) codeIds) (\<lambda>codeEntities.
     rbind (upsert_codes codeEntities db) (\<lambda>db1.
       Inr (db1\<lparr>code_id_verifications := code_id_verifications db1 @
                  new_verifications ext (code_id_verifications db) codeEntities\<rparr>)))"

text \<open>A transaction in which a logged statement failed commits nothing and throws nothing.\<close>

definition commit_or_rollback :: "'db \<Rightarrow> 'db res \<Rightarrow> 'db res" where
  "commit_or_rollback db r = (case r of Inl (DbError m) \<Rightarrow> Inr db | Inl e \<Rightarrow> Inl e | Inr db' \<Rightarrow> Inr db')"

definition actionCrawlMissingCode ::
  "wasm_ext \<Rightarrow> store_code list \<Rightarrow> ('c, 'a) wasm_db_scheme \<Rightarrow> ('c, 'a) wasm_db_scheme res"
where
  "actionCrawlMissingCode ext codeIds db = commit_or_rollback db (insertNewCodes ext codeIds db)"

text \<open>
  \<^verbatim>\<open>Transaction.query().joinRelated('events.[attributes]')\<close> of the successful transactions of a range:
  hash and height of the transaction with the id, key and value of each attribute of an event type.
\<close>

definition tx_event_attributes ::
  "string \<Rightarrow> int \<Rightarrow> int \<Rightarrow> ('c, 'a) wasm_db_scheme \<Rightarrow> (string \<times> int \<times> int \<times> event_attribute) list"
where
  "tx_event_attributes type startHeight endHeight db =
     concat (map (\<lambda>t. concat (map (\<lambda>e. map (\<lambda>a. (tx_hash t, tx_height t, evt_id e, a)) (evt_attributes e))
                  (filter (\<lambda>e. evt_tx_id e = Some (tx_id t) \<and> evt_type e = type) (event_table db))))
       (filter (\<lambda>t. in_range startHeight endHeight (tx_height t) \<and> tx_code t = 0) (transaction_table db)))"

definition stored_codes ::
  "wasm_ext \<Rightarrow> int \<Rightarrow> int \<Rightarrow> ('c, 'a) wasm_db_scheme \<Rightarrow> store_code list res"
where
  "stored_codes ext startHeight endHeight db =
     rmap (\<lambda>(hash, height, _, a).
         case Long_fromString ext (coerce_string (attr_value a)) of
           None \<Rightarrow> Inl (JsError ''Long.fromString'')
         | Some i \<Rightarrow> Inr \<lparr>st_codeId = i, st_hash = hash, st_height = height\<rparr>)
       (filter (\<lambda>(_, _, _, a). attr_key a = Some ''code_id'')
         (tx_event_attributes ''store_code'' startHeight endHeight db))"

definition CRAWL_CODE :: job_decl where
  "CRAWL_CODE =
     \<lparr>job_name = ''crawl:code'', lastHeightJobNames = [''handle:transaction''],
      configName = Some ''crawlCodeId'', job_guard = SkipGE\<rparr>"

definition crawl_code_work ::
  "wasm_ext \<Rightarrow> int \<Rightarrow> int \<Rightarrow> ('c, 'a) wasm_db_scheme \<Rightarrow> ('c, 'a) wasm_db_scheme res"
where
  "crawl_code_work ext startHeight endHeight db =
     rbind (stored_codes ext startHeight endHeight db) (\<lambda>codeIds. insertNewCodes ext codeIds db)"

definition crawl_code_job ::
  "config \<Rightarrow> wasm_ext \<Rightarrow> ('c, 'a) wasm_db_scheme \<Rightarrow> ('c, 'a) wasm_db_scheme res"
where
  "crawl_code_job cfg ext = range_job cfg CRAWL_CODE (crawl_code_work ext)"

section \<open>Instantiated contracts\<close>

record instantiate_contract =
  ic_address :: "string option"
  ic_hash :: string
  ic_height :: int

text \<open>The row of a contract with what the node knows of it; the address is a required field.\<close>

definition new_contract :: "wasm_ext \<Rightarrow> instantiate_contract \<Rightarrow> (int \<Rightarrow> smart_contract) res" where
  "new_contract ext c =
     (case ic_address c of
        None \<Rightarrow> Inl (ValidationError ''address'')
      | Some addr \<Rightarrow>
          (let cw2 = getContractCw2 ext addr; info = getContractInfo ext addr in
           Inr (\<lambda>newId. \<lparr>k_id = newId, k_name = Option.bind cw2 cw2_contract, k_address = addr,
             k_creator = (case info of None \<Rightarrow> [] | Some i \<Rightarrow> info_creator i),
             k_code_id = (case info of None \<Rightarrow> 0 | Some i \<Rightarrow> info_codeId i),
             k_status = STATUS_LATEST, k_label = map_option info_label info,
             k_instantiate_hash = ic_hash c, k_instantiate_height = ic_height c,
             k_version = Option.bind cw2 cw2_version\<rparr>)))"

definition contract_code_ids :: "wasm_ext \<Rightarrow> instantiate_contract list \<Rightarrow> int list" where
  "contract_code_ids ext contracts =
     List.map_filter (\<lambda>c. Option.bind (ic_address c) (\<lambda>a. map_option info_codeId (getContractInfo ext a))) contracts"

text \<open>
  \<^verbatim>\<open>Code.query().patch({ type }).where({ code_id })\<close> for every contract whose name tells its type. A
  contract without information has no code id to compare with, which the query builder rejects.
\<close>

definition code_type_patches :: "wasm_ext \<Rightarrow> instantiate_contract list \<Rightarrow> (int option \<times> string) list" where
  "code_type_patches ext contracts =
     List.map_filter (\<lambda>c. Option.bind (ic_address c) (\<lambda>a. Option.bind (getContractCw2 ext a) (\<lambda>cw2.
       let t = detectCodeType (cw2_contract cw2) in
       if t = [] then None else Some (map_option info_codeId (getContractInfo ext a), t)))) contracts"

definition patch_code_type :: "int option \<times> string \<Rightarrow> code_row list \<Rightarrow> code_row list" where
  "patch_code_type p tbl =
     map (\<lambda>c. if Some (cd_code_id c) = fst p then c\<lparr>cd_type := Some (snd p)\<rparr> else c) tbl"

text \<open>\<^verbatim>\<open>SmartContract.query().insert(rows)\<close>: the code id references the table of codes.\<close>

definition insert_contracts ::
  "(int \<Rightarrow> smart_contract) list \<Rightarrow> ('c, 'a) wasm_db_scheme \<Rightarrow> ('c, 'a) wasm_db_scheme res"
where
  "insert_contracts rows db =
     (let new = map (\<lambda>(k, f). f (smart_contract_seq db + int k)) (zip [0..<length rows] rows) in
      if list_all (\<lambda>k. k_code_id k \<in> set (map cd_code_id (codes db))) new
      then Inr (db\<lparr>smart_contracts := smart_contracts db @ new,
                   smart_contract_seq := smart_contract_seq db + int (length rows)\<rparr>)
      else Inl (DbError ''insert on table smart_contract violates foreign key constraint''))"

text \<open>The codes of the contracts that the table does not have yet.\<close>

definition crawl_missing_codes ::
  "wasm_ext \<Rightarrow> instantiate_contract list \<Rightarrow> ('c, 'a) wasm_db_scheme \<Rightarrow> ('c, 'a) wasm_db_scheme res"
where
  "crawl_missing_codes ext contracts db =
     (let codeIds = uniq (contract_code_ids ext contracts);
          missingCodeIds = filter (\<lambda>i. i \<notin> set (map cd_code_id (codes db))) codeIds in
      if missingCodeIds = [] then Inr db
      else actionCrawlMissingCode ext
             (map (\<lambda>i. \<lparr>st_codeId = i, st_hash = [], st_height = 0\<rparr>) missingCodeIds) db)"

text \<open>
  Missing codes are stored by another service and types are patched outside of the transaction of
  the caller, so they stay whatever becomes of it: the first component is the database outside of
  the transaction, the second the database inside of it, or the error thrown.
\<close>

definition insertNewContracts ::
  "wasm_ext \<Rightarrow> instantiate_contract list \<Rightarrow> ('c, 'a) wasm_db_scheme \<Rightarrow>
    ('c, 'a) wasm_db_scheme \<times> ('c, 'a) wasm_db_scheme res"
where
  "insertNewContracts ext contracts db =
     (if contracts = [] then (db, Inr db)
      else case rmap (new_contract ext) contracts of
        Inl e \<Rightarrow> (db, Inl e)
      | Inr rows \<Rightarrow>
          (case crawl_missing_codes ext contracts db of
             Inl e \<Rightarrow> (db, Inl e)
           | Inr db1 \<Rightarrow>
               (let patches = code_type_patches ext contracts;
                    db2 = db1\<lparr>codes := fold patch_code_type patches (codes db1)\<rparr> in
                if list_ex (\<lambda>p. fst p = None) patches
                then (db2, Inl (JsError ''Undefined binding(s) detected''))
                else (db2, insert_contracts rows db2))))"

text \<open>An insert that the database rejects is logged only; the commit that follows stores nothing.\<close>

definition actionCrawlMissingContract ::
  "wasm_ext \<Rightarrow> instantiate_contract list \<Rightarrow> ('c, 'a) wasm_db_scheme \<Rightarrow> ('c, 'a) wasm_db_scheme outcome"
where
  "actionCrawlMissingContract ext contracts db =
     (case insertNewContracts ext contracts db of (out, inTrx) \<Rightarrow>
        (case inTrx of
           Inr db' \<Rightarrow> (db', None)
         | Inl e \<Rightarrow> (out, (case e of DbError m \<Rightarrow> None | _ \<Rightarrow> Some e))))"

definition instantiated ::
  "int \<Rightarrow> int \<Rightarrow> ('c, 'a) wasm_db_scheme \<Rightarrow> instantiate_contract list"
where
  "instantiated startHeight endHeight db =
     map (\<lambda>(hash, height, _, a). \<lparr>ic_address = Some (coerce_string (attr_value a)), ic_hash = hash, ic_height = height\<rparr>)
       (filter (\<lambda>(_, _, _, a). attr_key a = Some ''_contract_address'')
         (tx_event_attributes ''instantiate'' startHeight endHeight db))"

definition CRAWL_SMART_CONTRACT :: job_decl where
  "CRAWL_SMART_CONTRACT =
     \<lparr>job_name = ''crawl:smart-contract'', lastHeightJobNames = [''crawl:code''],
      configName = Some ''crawlSmartContract'', job_guard = SkipGE\<rparr>"

definition crawl_smart_contract_work ::
  "wasm_ext \<Rightarrow> int \<Rightarrow> int \<Rightarrow> ('c, 'a) wasm_db_scheme \<Rightarrow> ('c, 'a) wasm_db_scheme outcome"
where
  "crawl_smart_contract_work ext startHeight endHeight db =
     (case insertNewContracts ext (instantiated startHeight endHeight db) db of (out, inTrx) \<Rightarrow>
        (case inTrx of Inl e \<Rightarrow> (out, Some e) | Inr db' \<Rightarrow> (db', None)))"

definition crawl_smart_contract_job ::
  "config \<Rightarrow> wasm_ext \<Rightarrow> ('c, 'a) wasm_db_scheme \<Rightarrow> ('c, 'a) wasm_db_scheme outcome"
where
  "crawl_smart_contract_job cfg ext = range_outcome cfg CRAWL_SMART_CONTRACT (crawl_smart_contract_work ext)"

section \<open>Migrated contracts\<close>

record migrate_event =
  me_address :: string
  me_codeId :: "string option"
  me_hash :: string
  me_height :: int

text \<open>The migrations of a range, one for each attribute that names a contract.\<close>

definition migrate_events :: "int \<Rightarrow> int \<Rightarrow> ('c, 'a) wasm_db_scheme \<Rightarrow> migrate_event list" where
  "migrate_events startHeight endHeight db =
     (let resultTx = tx_event_attributes ''migrate'' startHeight endHeight db in
      map (\<lambda>(hash, height, eventId, a).
          \<lparr>me_address = coerce_string (attr_value a),
           me_codeId =
             (case find (\<lambda>(_, _, i, b). i = eventId \<and> attr_key b = Some ''code_id'') resultTx of
                None \<Rightarrow> None
              | Some (_, _, _, b) \<Rightarrow> attr_value b),
           me_hash = hash, me_height = height\<rparr>)
        (filter (\<lambda>(_, _, _, a). attr_key a = Some ''_contract_address'') resultTx))"

text \<open>A text compared with an integer column.\<close>

definition as_integer :: "string option \<Rightarrow> int res" where
  "as_integer v =
     (case v of
        None \<Rightarrow> Inl (JsError ''Undefined binding(s) detected'')
      | Some s \<Rightarrow>
          if s \<noteq> [] \<and> list_all is_digit s then Inr (int (digits_value s))
          else Inl (DbError ''invalid input syntax for type integer''))"

text \<open>
  The new row of a contract that is migrated: name and version are those of a contract with the
  same code, or those the node reports for it.
\<close>

definition migrated_contract ::
  "wasm_ext \<Rightarrow> smart_contract option \<Rightarrow> int \<Rightarrow> migrate_event \<Rightarrow> smart_contract \<Rightarrow> int \<Rightarrow> smart_contract"
where
  "migrated_contract ext codeContract codeId ev contract newId =
     (let cw2 = getContractCw2 ext (k_address contract) in
      \<lparr>k_id = newId,
       k_name = (case codeContract of
                   Some c \<Rightarrow> k_name c
                 | None \<Rightarrow> (case cw2 of Some data \<Rightarrow> cw2_name data | None \<Rightarrow> Some [])),
       k_address = k_address contract, k_creator = k_creator contract, k_code_id = codeId,
       k_status = STATUS_LATEST, k_label = Some (coerce_string (k_label contract)),
       k_instantiate_hash = me_hash ev, k_instantiate_height = me_height ev,
       k_version = (case codeContract of
                      Some c \<Rightarrow> k_version c
                    | None \<Rightarrow> (case cw2 of Some data \<Rightarrow> cw2_version data | None \<Rightarrow> Some []))\<rparr>)"

definition HANDLE_MIGRATE_CONTRACT :: job_decl where
  "HANDLE_MIGRATE_CONTRACT =
     \<lparr>job_name = ''handle:migrate-contract'', lastHeightJobNames = [''crawl:code''],
      configName = Some ''crawlSmartContract'', job_guard = SkipGE\<rparr>"

definition old_contracts :: "migrate_event list \<Rightarrow> ('c, 'a) wasm_db_scheme \<Rightarrow> smart_contract list" where
  "old_contracts evs db =
     filter (\<lambda>k. k_address k \<in> set (map me_address evs) \<and> k_status k = STATUS_LATEST) (smart_contracts db)"

text \<open>
  The new rows with a flag that says whether a contract with the same code was known: the rows
  whose version had to be asked for are inserted after the others.
\<close>

definition migrated_rows ::
  "wasm_ext \<Rightarrow> migrate_event list \<Rightarrow> ('c, 'a) wasm_db_scheme \<Rightarrow> (bool \<times> (int \<Rightarrow> smart_contract)) list res"
where
  "migrated_rows ext evs db =
     rbind (rmap (\<lambda>ev. as_integer (me_codeId ev)) evs) (\<lambda>codeIds.
       let migrateEvents = keyBy me_address evs;
           codeContractsByKey = keyBy (\<lambda>k. show_int (k_code_id k))
             (filter (\<lambda>k. k_code_id k \<in> set codeIds) (smart_contracts db)) in
       rmap (\<lambda>contract.
           rbind (need (migrateEvents (k_address contract))) (\<lambda>ev.
           rbind (as_integer (me_codeId ev)) (\<lambda>codeId.
             let codeContract = Option.bind (me_codeId ev) codeContractsByKey in
             Inr (codeContract \<noteq> None, migrated_contract ext codeContract codeId ev contract))))
         (old_contracts evs db))"

definition handleMigrateContract_work ::
  "wasm_ext \<Rightarrow> int \<Rightarrow> int \<Rightarrow> ('c, 'a) wasm_db_scheme \<Rightarrow> ('c, 'a) wasm_db_scheme res"
where
  "handleMigrateContract_work ext startHeight endHeight db =
     (let evs = migrate_events startHeight endHeight db;
          oldContractIds = map k_id (old_contracts evs db) in
      rbind (migrated_rows ext evs db) (\<lambda>rows.
        if rows = [] then Inr db
        else rbind (insert_contracts (map snd (filter fst rows) @ map snd (filter (Not \<circ> fst) rows)) db) (\<lambda>db1.
          Inr (db1\<lparr>smart_contracts :=
                     map (\<lambda>k. if k_id k \<in> set oldContractIds then k\<lparr>k_status := STATUS_MIGRATED\<rparr> else k)
                       (smart_contracts db1)\<rparr>))))"

definition handleMigrateContract ::
  "config \<Rightarrow> wasm_ext \<Rightarrow> ('c, 'a) wasm_db_scheme \<Rightarrow> ('c, 'a) wasm_db_scheme res"
where
  "handleMigrateContract cfg ext =
     range_job cfg HANDLE_MIGRATE_CONTRACT (handleMigrateContract_work ext)"

section \<open>The tables of the jobs\<close>

lemma succeeded_simps [simp]: "succeeded (db, None) = Inr db" "succeeded (db, Some e) = Inl e"
  by (simp_all add: succeeded_def)

lemma succeeded_eq_Inr: "succeeded r = Inr db \<longleftrightarrow> r = (db, None)"
  by (cases r) (auto simp: succeeded_def split: option.splits)

text \<open>Seen from its successes, it is a range job like the others.\<close>

lemma succeeded_range_outcome:
  "succeeded (range_outcome cfg d work db) = range_job cfg d (\<lambda>s e db. succeeded (work s e db)) db"
  by (simp add: range_outcome_def range_job_def succeeded_def split: prod.split option.split)

lemma insertNewCodes_keeps:
  assumes "insertNewCodes ext cs db = Inr db'"
  shows "block_checkpoint db' = block_checkpoint db" "transaction_table db' = transaction_table db"
    "event_table db' = event_table db" "smart_contracts db' = smart_contracts db"
    "smart_contract_seq db' = smart_contract_seq db" "wasm_db.more db' = wasm_db.more db"
  using assms by (auto simp: insertNewCodes_def upsert_codes_def rbind_eq_Inr split: if_splits)

lemma actionCrawlMissingCode_keeps:
  assumes "actionCrawlMissingCode ext cs db = Inr db'"
  shows "block_checkpoint db' = block_checkpoint db" "transaction_table db' = transaction_table db"
    "event_table db' = event_table db" "smart_contracts db' = smart_contracts db"
    "smart_contract_seq db' = smart_contract_seq db" "wasm_db.more db' = wasm_db.more db"
proof -
  consider "db' = db" | "insertNewCodes ext cs db = Inr db'"
    using assms by (auto simp: actionCrawlMissingCode_def commit_or_rollback_def split: sum.splits js_error.splits)
  then have "block_checkpoint db' = block_checkpoint db \<and> transaction_table db' = transaction_table db \<and>
    event_table db' = event_table db \<and> smart_contracts db' = smart_contracts db \<and>
    smart_contract_seq db' = smart_contract_seq db \<and> wasm_db.more db' = wasm_db.more db"
    by cases (simp_all add: insertNewCodes_keeps)
  then show "block_checkpoint db' = block_checkpoint db" "transaction_table db' = transaction_table db"
    "event_table db' = event_table db" "smart_contracts db' = smart_contracts db"
    "smart_contract_seq db' = smart_contract_seq db" "wasm_db.more db' = wasm_db.more db"
    by blast+
qed

lemma insert_contracts_keeps:
  assumes "insert_contracts rows db = Inr db'"
  shows "block_checkpoint db' = block_checkpoint db" "transaction_table db' = transaction_table db"
    "event_table db' = event_table db" "codes db' = codes db" "wasm_db.more db' = wasm_db.more db"
  using assms by (auto simp: insert_contracts_def Let_def split: if_splits)

lemma insert_contracts_rows:
  "insert_contracts rows db = Inr db' \<Longrightarrow>
    smart_contracts db' = smart_contracts db @ numbered (smart_contract_seq db) rows \<and>
    smart_contract_seq db' = smart_contract_seq db + int (length rows)"
  by (auto simp: insert_contracts_def numbered_def Let_def split: if_splits)

definition contract_ids_ok :: "('c, 'a) wasm_db_scheme \<Rightarrow> bool" where
  "contract_ids_ok db \<longleftrightarrow> distinct (map k_id (smart_contracts db)) \<and>
     list_all (\<lambda>k. k_id k < smart_contract_seq db) (smart_contracts db)"

lemma contract_ids_ok_cong:
  fixes db db' :: "('c, 'a) wasm_db_scheme"
  assumes "map k_id (smart_contracts db') = map k_id (smart_contracts db)"
    and "smart_contract_seq db' = smart_contract_seq db"
  shows "contract_ids_ok db' = contract_ids_ok db"
proof -
  have alt: "contract_ids_ok d \<longleftrightarrow> distinct (map k_id (smart_contracts d)) \<and>
      list_all (\<lambda>i. i < smart_contract_seq d) (map k_id (smart_contracts d))" for d :: "('c, 'a) wasm_db_scheme"
    by (simp add: contract_ids_ok_def list_all_iff)
  show ?thesis by (simp only: alt assms)
qed

text \<open>Row builders that put the id they are given into the row.\<close>

definition keeps_id :: "(int \<Rightarrow> smart_contract) list \<Rightarrow> bool" where
  "keeps_id rows \<longleftrightarrow> (\<forall>f\<in>set rows. \<forall>i. k_id (f i) = i)"

lemma numbered_ids: "keeps_id rows \<Longrightarrow> map k_id (numbered n rows) = map (\<lambda>i. n + int i) [0..<length rows]"
  by (rule nth_equalityI) (simp_all add: keeps_id_def)

lemma insert_contracts_ok:
  assumes "insert_contracts rows db = Inr db'" and "contract_ids_ok db" and "keeps_id rows"
  shows "contract_ids_ok db'"
proof -
  have ids: "map k_id (numbered n rows) = map (\<lambda>i. n + int i) [0..<length rows]" for n
    by (rule numbered_ids [OF assms(3)])
  have "list_all (\<lambda>i. n \<le> i \<and> i < n + int (length rows)) (map k_id (numbered n rows))" for n
    by (simp add: ids list_all_iff)
  moreover have "distinct (map k_id (numbered n rows))" for n
    by (simp only: ids) (simp add: distinct_map inj_on_def)
  ultimately show ?thesis
    using insert_contracts_rows [OF assms(1)] assms(2)
    by (fastforce simp: contract_ids_ok_def list_all_iff)
qed

section \<open>The current code of a contract\<close>

definition latest :: "string \<Rightarrow> smart_contract \<Rightarrow> bool" where
  "latest A k \<longleftrightarrow> k_address k = A \<and> k_status k = STATUS_LATEST"

definition latest_code :: "string \<Rightarrow> ('c, 'a) wasm_db_scheme \<Rightarrow> int option" where
  "latest_code A db = map_option k_code_id (find (latest A) (smart_contracts db))"

definition latest_unique :: "('c, 'a) wasm_db_scheme \<Rightarrow> bool" where
  "latest_unique db \<longleftrightarrow> (\<forall>A. length (filter (latest A) (smart_contracts db)) \<le> 1)"

definition migrate_step :: "string \<Rightarrow> migrate_event \<Rightarrow> int option \<Rightarrow> int option" where
  "migrate_step A ev code =
     (if me_address ev = A
      then (case as_integer (me_codeId ev) of Inl e \<Rightarrow> code | Inr c \<Rightarrow> map_option (\<lambda>_. c) code)
      else code)"

lemma find_code:
  assumes "\<And>x. x \<in> set xs \<Longrightarrow> P x \<Longrightarrow> f x = v"
  shows "map_option f (find P xs) = (if \<exists>x\<in>set xs. P x then Some v else None)"
  using assms by (cases "find P xs") (auto simp: find_None_iff find_Some_iff)

lemma latest_code_None: "latest_code A db = None \<longleftrightarrow> (\<forall>k\<in>set (smart_contracts db). \<not> latest A k)"
  by (auto simp: latest_code_def find_None_iff)

lemma fold_migrate_step:
  assumes "\<forall>ev\<in>set evs. \<exists>c. as_integer (me_codeId ev) = Inr c"
  shows "fold (migrate_step A) evs code =
    (case keyBy me_address evs A of
       None \<Rightarrow> code
     | Some ev \<Rightarrow> map_option (\<lambda>_. projr (as_integer (me_codeId ev))) code)"
  using assms
proof (induction evs rule: rev_induct)
  case (snoc ev evs)
  then obtain c where "as_integer (me_codeId ev) = Inr c" by auto
  with snoc show ?case by (auto simp: migrate_step_def option.map_comp comp_def split: option.splits)
qed simp

text \<open>What is known of the new rows: one for each old contract, with the code of its last migration.\<close>

lemma migrated_rows_shape:
  assumes "migrated_rows ext evs db = Inr rows"
  shows "\<forall>ev\<in>set evs. \<exists>c. as_integer (me_codeId ev) = Inr c"
    and "list_all2 (\<lambda>k r. \<exists>ev. keyBy me_address evs (k_address k) = Some ev \<and>
      (\<forall>i. k_id (snd r i) = i \<and> k_address (snd r i) = k_address k \<and> k_status (snd r i) = STATUS_LATEST \<and>
        k_code_id (snd r i) = projr (as_integer (me_codeId ev)))) (old_contracts evs db) rows"
proof -
  from assms obtain ids where ids: "rmap (\<lambda>ev. as_integer (me_codeId ev)) evs = Inr ids"
    by (auto simp: migrated_rows_def rbind_eq_Inr)
  then show "\<forall>ev\<in>set evs. \<exists>c. as_integer (me_codeId ev) = Inr c"
    by (auto simp: rmap_eq_Inr list_all2_conv_all_nth in_set_conv_nth) 
  show "list_all2 (\<lambda>k r. \<exists>ev. keyBy me_address evs (k_address k) = Some ev \<and>
      (\<forall>i. k_id (snd r i) = i \<and> k_address (snd r i) = k_address k \<and> k_status (snd r i) = STATUS_LATEST \<and>
        k_code_id (snd r i) = projr (as_integer (me_codeId ev)))) (old_contracts evs db) rows"
    using assms ids unfolding migrated_rows_def
    by (simp add: rmap_eq_Inr Let_def) (erule list_all2_mono,
      auto simp: rbind_eq_Inr need_eq_Inr migrated_contract_def Let_def)
qed

definition new_rows :: "(bool \<times> (int \<Rightarrow> smart_contract)) list \<Rightarrow> (int \<Rightarrow> smart_contract) list" where
  "new_rows rows = map snd (filter fst rows) @ map snd (filter (Not \<circ> fst) rows)"

lemma new_rows_set: "set (new_rows rows) = snd ` set rows"
  by (auto simp: new_rows_def)

lemma new_rows_filter: "length (filter P (new_rows rows)) = length (filter (\<lambda>r. P (snd r)) rows)"
proof (induction rows)
  case (Cons r rows)
  then show ?case by (cases r) (auto simp: new_rows_def)
qed (simp add: new_rows_def)

lemma list_all2_filter_length:
  assumes "list_all2 R xs ys" and "\<And>x y. R x y \<Longrightarrow> P x = Q y"
  shows "length (filter P xs) = length (filter Q ys)"
  using assms by (induction rule: list_all2_induct) auto

lemma list_all2_set1: "list_all2 R xs ys \<Longrightarrow> x \<in> set xs \<Longrightarrow> \<exists>y\<in>set ys. R x y"
  by (induction rule: list_all2_induct) auto

lemma list_all2_set2: "list_all2 R xs ys \<Longrightarrow> y \<in> set ys \<Longrightarrow> \<exists>x\<in>set xs. R x y"
  by (induction rule: list_all2_induct) auto

lemma old_contracts_iff:
  "k \<in> set (old_contracts evs db) \<longleftrightarrow>
    k \<in> set (smart_contracts db) \<and> k_status k = STATUS_LATEST \<and> keyBy me_address evs (k_address k) \<noteq> None"
  by (auto simp: old_contracts_def keyBy_None_iff)

lemma status_distinct [simp]: "STATUS_MIGRATED \<noteq> STATUS_LATEST" "STATUS_LATEST \<noteq> STATUS_MIGRATED"
  by (simp_all add: STATUS_LATEST_def STATUS_MIGRATED_def)

text \<open>The table after a run: the old rows, those that were migrated marked, and the new rows.\<close>

lemma handleMigrateContract_table:
  assumes "handleMigrateContract_work ext s e db = Inr db'" and "contract_ids_ok db"
  defines "evs \<equiv> migrate_events s e db"
  obtains rows where "migrated_rows ext evs db = Inr rows" "contract_ids_ok db'"
    "smart_contracts db' =
       map (\<lambda>k. if k \<in> set (old_contracts evs db) then k\<lparr>k_status := STATUS_MIGRATED\<rparr> else k) (smart_contracts db) @
       numbered (smart_contract_seq db) (new_rows rows)"
proof -
  from assms(1) obtain rows where rows: "migrated_rows ext evs db = Inr rows"
    by (auto simp: handleMigrateContract_work_def rbind_eq_Inr Let_def evs_def)
  note shape = migrated_rows_shape [OF rows]
  show thesis
  proof (cases "rows = []")
    case True
    with shape(2) have "old_contracts evs db = []" by simp
    moreover have "db' = db" using assms(1) rows True
      by (simp add: handleMigrateContract_work_def Let_def evs_def)
    ultimately show thesis
      using that [OF rows] True assms(2) by (simp add: new_rows_def numbered_def)
  next
    case False
    with assms(1) rows obtain db1 where db1: "insert_contracts (new_rows rows) db = Inr db1"
      and db': "db' = db1\<lparr>smart_contracts :=
        map (\<lambda>k. if k_id k \<in> k_id ` set (old_contracts evs db) then k\<lparr>k_status := STATUS_MIGRATED\<rparr> else k)
          (smart_contracts db1)\<rparr>"
      by (auto simp: handleMigrateContract_work_def rbind_eq_Inr Let_def evs_def new_rows_def)
    have ids: "keeps_id (new_rows rows)"
      using list_all2_set2 [OF shape(2)] by (fastforce simp: keeps_id_def new_rows_set)
    note tbl = insert_contracts_rows [OF db1]
    have "k_id k \<in> k_id ` set (old_contracts evs db) \<longleftrightarrow> k \<in> set (old_contracts evs db)" if "k \<in> set (smart_contracts db)" for k
      using that assms(2) by (auto simp: contract_ids_ok_def distinct_map old_contracts_iff dest: inj_onD)
    moreover have "k_id k \<notin> k_id ` set (old_contracts evs db)" if "k \<in> set (numbered (smart_contract_seq db) (new_rows rows))" for k
    proof -
      from that ids have "smart_contract_seq db \<le> k_id k"
        by (auto simp: set_numbered keeps_id_def)
      moreover have "list_all (\<lambda>k. k_id k < smart_contract_seq db) (old_contracts evs db)"
        using assms(2) by (auto simp: contract_ids_ok_def list_all_iff old_contracts_iff)
      ultimately show ?thesis by (force simp: list_all_iff)
    qed
    ultimately have table: "smart_contracts db' =
       map (\<lambda>k. if k \<in> set (old_contracts evs db) then k\<lparr>k_status := STATUS_MIGRATED\<rparr> else k) (smart_contracts db) @
       numbered (smart_contract_seq db) (new_rows rows)"
      by (simp add: db' tbl cong: map_cong)
    have "map k_id (smart_contracts db') = map k_id (smart_contracts db1)"
      and "smart_contract_seq db' = smart_contract_seq db1" by (simp_all add: db')
    then have "contract_ids_ok db'"
      using insert_contracts_ok [OF db1 assms(2) ids] contract_ids_ok_cong by blast
    with that [OF rows] table show thesis by blast
  qed
qed

lemma latest_marked:
  "latest A (if k \<in> set (old_contracts evs db) then k\<lparr>k_status := STATUS_MIGRATED\<rparr> else k) \<longleftrightarrow>
    latest A k \<and> k \<notin> set (old_contracts evs db)"
  by (simp add: latest_def)

text \<open>A migrated contract has the code of its last migration; the others keep theirs.\<close>

lemma migrate_latest_code:
  assumes "handleMigrateContract_work ext s e db = Inr db'" and "contract_ids_ok db"
  shows "latest_code A db' = fold (migrate_step A) (migrate_events s e db) (latest_code A db)"
proof -
  let ?evs = "migrate_events s e db"
  from assms obtain rows where rows: "migrated_rows ext ?evs db = Inr rows"
    and tbl: "smart_contracts db' =
       map (\<lambda>k. if k \<in> set (old_contracts ?evs db) then k\<lparr>k_status := STATUS_MIGRATED\<rparr> else k) (smart_contracts db) @
       numbered (smart_contract_seq db) (new_rows rows)"
    by (rule handleMigrateContract_table)
  note shape = migrated_rows_shape [OF rows]
  let ?mark = "\<lambda>k. if k \<in> set (old_contracts ?evs db) then k\<lparr>k_status := STATUS_MIGRATED\<rparr> else k"
  let ?new = "numbered (smart_contract_seq db) (new_rows rows)"
  have new: "\<exists>k\<in>set (old_contracts ?evs db). k_address k = k_address x \<and>
      k_code_id x = projr (as_integer (me_codeId (the (keyBy me_address ?evs (k_address x)))))" if "x \<in> set ?new" for x
  proof -
    from that obtain f i where f: "f \<in> set (new_rows rows)" and x: "x = f i"
      by (metis nth_mem set_numbered)
    then obtain r where "r \<in> set rows" "f = snd r" by (auto simp: new_rows_set)
    with list_all2_set2 [OF shape(2)] x show ?thesis by fastforce
  qed
  show ?thesis
  proof (cases "keyBy me_address ?evs A")
    case None
    then have "\<not> latest A x" if "x \<in> set ?new" for x
      using new [OF that] by (auto simp: latest_def old_contracts_iff)
    moreover have "find (latest A) (map ?mark (smart_contracts db)) = find (latest A) (smart_contracts db)"
    proof -
      have "k \<notin> set (old_contracts ?evs db)" if "latest A k" for k
        using that None by (auto simp: latest_def old_contracts_iff)
      then have "find (latest A) (map ?mark xs) = find (latest A) xs" for xs
        by (induction xs) (simp_all add: latest_marked)
      then show ?thesis .
    qed
    ultimately show ?thesis
      using None shape(1)
      by (simp add: latest_code_def tbl find_append fold_migrate_step find_None_iff [THEN iffD2] split: option.split)
  next
    case (Some ev)
    have "find (latest A) (map ?mark (smart_contracts db)) = None"
      using Some by (auto simp: find_None_iff latest_marked old_contracts_iff) (auto simp: latest_def)
    moreover have "map_option k_code_id (find (latest A) ?new) =
        (if \<exists>x\<in>set ?new. latest A x then Some (projr (as_integer (me_codeId ev))) else None)"
      using new Some by (intro find_code) (auto simp: latest_def)
    moreover have "(\<exists>x\<in>set ?new. latest A x) \<longleftrightarrow> (\<exists>k\<in>set (smart_contracts db). latest A k)"
    proof
      assume "\<exists>x\<in>set ?new. latest A x"
      with new show "\<exists>k\<in>set (smart_contracts db). latest A k"
        by (fastforce simp: latest_def old_contracts_iff)
    next
      assume "\<exists>k\<in>set (smart_contracts db). latest A k"
      then obtain k where k: "k \<in> set (old_contracts ?evs db)" "k_address k = A"
        using Some by (auto simp: latest_def old_contracts_iff)
      then obtain r where r: "r \<in> set rows" "\<forall>i. latest A (snd r i)"
        using list_all2_set1 [OF shape(2) k(1)] by (auto simp: latest_def)
      then have "snd r \<in> set (new_rows rows)" by (auto simp: new_rows_set)
      then obtain j where "j < length (new_rows rows)" "new_rows rows ! j = snd r" by (auto simp: in_set_conv_nth)
      with r(2) show "\<exists>x\<in>set ?new. latest A x" by (metis set_numbered)
    qed
    ultimately have "latest_code A db' =
        (if \<exists>k\<in>set (smart_contracts db). latest A k then Some (projr (as_integer (me_codeId ev))) else None)"
      by (simp add: latest_code_def tbl find_append)
    moreover have "fold (migrate_step A) ?evs (latest_code A db) =
        map_option (\<lambda>_. projr (as_integer (me_codeId ev))) (latest_code A db)"
      using Some fold_migrate_step [OF shape(1)] by simp
    ultimately show ?thesis using latest_code_None [of A db] by (cases "latest_code A db") auto
  qed
qed

lemma migrate_latest_unique:
  assumes "handleMigrateContract_work ext s e db = Inr db'" and "contract_ids_ok db" and "latest_unique db"
  shows "latest_unique db'"
proof -
  let ?evs = "migrate_events s e db"
  from assms(1,2) obtain rows where rows: "migrated_rows ext ?evs db = Inr rows"
    and tbl: "smart_contracts db' =
       map (\<lambda>k. if k \<in> set (old_contracts ?evs db) then k\<lparr>k_status := STATUS_MIGRATED\<rparr> else k) (smart_contracts db) @
       numbered (smart_contract_seq db) (new_rows rows)"
    by (rule handleMigrateContract_table)
  note shape = migrated_rows_shape [OF rows]
  let ?mark = "\<lambda>k. if k \<in> set (old_contracts ?evs db) then k\<lparr>k_status := STATUS_MIGRATED\<rparr> else k"
  let ?new = "numbered (smart_contract_seq db) (new_rows rows)"
  have "length (filter (latest A) (smart_contracts db')) \<le> length (filter (latest A) (smart_contracts db))" for A
  proof -
    have "length (filter (latest A) ?new) = length (filter (\<lambda>f. k_address (f 0) = A) (new_rows rows))"
    proof (rule filter_numbered)
      fix f i assume "f \<in> set (new_rows rows)"
      then obtain r where "r \<in> set rows" "f = snd r" by (auto simp: new_rows_set)
      with list_all2_set2 [OF shape(2), of r] show "latest A (f i) = (k_address (f 0) = A)"
        by (auto simp: latest_def)
    qed
    also have "\<dots> = length (filter (\<lambda>k. k_address k = A) (old_contracts ?evs db))"
      unfolding new_rows_filter by (rule sym, rule list_all2_filter_length [OF shape(2)]) auto
    also have "filter (\<lambda>k. k_address k = A) (old_contracts ?evs db) =
        filter (\<lambda>k. latest A k \<and> k \<in> set (old_contracts ?evs db)) (smart_contracts db)"
      by (auto simp: old_contracts_def latest_def intro!: filter_cong)
    finally have "length (filter (latest A) ?new) =
        length (filter (\<lambda>k. latest A k \<and> k \<in> set (old_contracts ?evs db)) (smart_contracts db))" .
    moreover have "length (filter (latest A) (map ?mark (smart_contracts db))) =
        length (filter (\<lambda>k. latest A k \<and> k \<notin> set (old_contracts ?evs db)) (smart_contracts db))"
      by (simp add: filter_map comp_def latest_marked)
    moreover have "length (filter (\<lambda>k. P k \<and> Q k) xs) + length (filter (\<lambda>k. P k \<and> \<not> Q k) xs) = length (filter P xs)"
      for P Q and xs :: "smart_contract list"
      by (induction xs) auto
    ultimately show ?thesis by (simp add: tbl add.commute)
  qed
  with assms(3) show ?thesis unfolding latest_unique_def by (meson order_trans)
qed

section \<open>Ranges\<close>

definition chain_ids_ok :: "('c, 'a) wasm_db_scheme \<Rightarrow> bool" where
  "chain_ids_ok db \<longleftrightarrow> sorted (map tx_height (transaction_table db)) \<and>
     distinct (map tx_id (transaction_table db)) \<and> distinct (map evt_id (event_table db))"

lemma tx_event_attributes_split:
  assumes "chain_ids_ok db" and "a \<le> b" and "b \<le> c"
  shows "tx_event_attributes type a c db = tx_event_attributes type a b db @ tx_event_attributes type b c db"
proof -
  have split: "filter (\<lambda>t. in_range s e (tx_height t) \<and> tx_code t = 0) (transaction_table db) =
      filter (\<lambda>t. tx_code t = 0) (filter (\<lambda>t. in_range s e (tx_height t)) (transaction_table db))" for s e
    by (simp add: conj_commute)
  have "sorted (map tx_height (transaction_table db))" using assms(1) by (simp add: chain_ids_ok_def)
  from filter_range_split [OF this assms(2,3)] show ?thesis
    by (simp only: tx_event_attributes_def split filter_append map_append concat_append)
qed

lemma tx_event_attributesE:
  assumes "(h, ht, i, x) \<in> set (tx_event_attributes type a b db)"
  obtains t ev where "t \<in> set (transaction_table db)" "in_range a b (tx_height t)" "ev \<in> set (event_table db)"
    "evt_id ev = i" "evt_tx_id ev = Some (tx_id t)"
  using assms by (auto simp: tx_event_attributes_def)

text \<open>The attributes of one event lie in one range.\<close>

lemma tx_event_attributes_disjoint:
  assumes "chain_ids_ok db" and "(h, ht, i, x) \<in> set (tx_event_attributes type a b db)"
    and "(h', ht', i, x') \<in> set (tx_event_attributes type b c db)"
  shows False
proof -
  from assms(2) obtain t ev where t: "t \<in> set (transaction_table db)" "in_range a b (tx_height t)"
    "ev \<in> set (event_table db)" "evt_id ev = i" "evt_tx_id ev = Some (tx_id t)"
    by (rule tx_event_attributesE)
  from assms(3) obtain t' ev' where t': "t' \<in> set (transaction_table db)" "in_range b c (tx_height t')"
    "ev' \<in> set (event_table db)" "evt_id ev' = i" "evt_tx_id ev' = Some (tx_id t')"
    by (rule tx_event_attributesE)
  have "ev = ev'" using t t' assms(1) by (auto simp: chain_ids_ok_def distinct_map dest: inj_onD)
  with t t' have "t = t'" using assms(1) by (auto simp: chain_ids_ok_def distinct_map dest: inj_onD)
  with t(2) t'(2) show False by (simp add: in_range_def)
qed

lemma find_append_left:
  "(\<forall>y\<in>set ys. \<not> P y) \<or> (\<exists>x\<in>set xs. P x) \<Longrightarrow> find P (xs @ ys) = find P xs"
  by (induction xs) (auto simp: find_None_iff)

lemma find_append_right: "(\<forall>x\<in>set xs. \<not> P x) \<Longrightarrow> find P (xs @ ys) = find P ys"
  by (induction xs) auto

lemma migrate_events_split:
  assumes "chain_ids_ok db" and "a \<le> b" and "b \<le> c"
  shows "migrate_events a c db = migrate_events a b db @ migrate_events b c db"
proof -
  let ?R = "\<lambda>a b. tx_event_attributes ''migrate'' a b db"
  let ?P = "\<lambda>i (_ :: string, _ :: int, j, b). j = i \<and> attr_key b = Some ''code_id''"
  have left: "find (?P i) (?R a b @ ?R b c) = find (?P i) (?R a b)" if "(h, ht, i, x) \<in> set (?R a b)" for h ht i x
    using tx_event_attributes_disjoint [OF assms(1) that] by (intro find_append_left disjI1) auto
  have right: "find (?P i) (?R a b @ ?R b c) = find (?P i) (?R b c)" if "(h, ht, i, x) \<in> set (?R b c)" for h ht i x
    using tx_event_attributes_disjoint [OF assms(1) _ that] by (intro find_append_right) auto
  show ?thesis
    unfolding migrate_events_def Let_def tx_event_attributes_split [OF assms]
    by (auto simp: left right intro!: map_cong)
qed

lemma handleMigrateContract_work_keeps:
  assumes "handleMigrateContract_work ext s e db = Inr db'"
  shows "block_checkpoint db' = block_checkpoint db" "transaction_table db' = transaction_table db"
    "event_table db' = event_table db"
  using assms insert_contracts_keeps
  by (auto simp: handleMigrateContract_work_def rbind_eq_Inr Let_def split: if_splits)

lemma acts_keep:
  assumes "transaction_table db' = transaction_table db" and "event_table db' = event_table db"
  shows "migrate_events a b db' = migrate_events a b db" "chain_ids_ok db' = chain_ids_ok db"
  using assms by (simp_all add: migrate_events_def tx_event_attributes_def chain_ids_ok_def)

section \<open>Interpretations\<close>

abbreviation migrate_pos :: "config \<Rightarrow> ('c, 'a) wasm_db_scheme \<Rightarrow> int" where
  "migrate_pos cfg db \<equiv> job_start cfg HANDLE_MIGRATE_CONTRACT (block_checkpoint db)"

definition migrate_ok :: "('c, 'a) wasm_db_scheme \<Rightarrow> bool" where
  "migrate_ok db \<longleftrightarrow> contract_ids_ok db \<and> latest_unique db \<and> chain_ids_ok db"

lemma ok_saveCheckpoint [simp]:
  "latest_code A (saveCheckpoint row db) = latest_code A db"
  "migrate_ok (saveCheckpoint row db) = migrate_ok db"
  "migrate_events a b (saveCheckpoint row db) = migrate_events a b db"
  by (simp_all add: saveCheckpoint_def latest_code_def migrate_ok_def contract_ids_ok_def latest_unique_def
      chain_ids_ok_def migrate_events_def tx_event_attributes_def)

lemma migrate_run_keeps:
  assumes "handleMigrateContract cfg ext db = Inr db'"
  shows "migrate_events a b db' = migrate_events a b db" "migrate_ok db \<Longrightarrow> migrate_ok db'"
    "block_checkpoint db' = checkpoint_run cfg HANDLE_MIGRATE_CONTRACT (block_checkpoint db)"
proof -
  show "migrate_events a b db' = migrate_events a b db"
    using assms unfolding handleMigrateContract_def
  proof (cases rule: range_job_cases)
    case (worked db1)
    from acts_keep(1) [OF handleMigrateContract_work_keeps(2,3) [OF worked(2)]] worked(3) show ?thesis by simp
  qed simp
  show "migrate_ok db'" if ok: "migrate_ok db"
    using assms unfolding handleMigrateContract_def
  proof (cases rule: range_job_cases)
    case (worked db1)
    have "contract_ids_ok db1"
      using handleMigrateContract_table [OF worked(2)] ok by (auto simp: migrate_ok_def)
    moreover have "latest_unique db1" using migrate_latest_unique [OF worked(2)] ok by (simp add: migrate_ok_def)
    moreover have "chain_ids_ok db1"
      using acts_keep(2) [OF handleMigrateContract_work_keeps(2,3) [OF worked(2)]] ok by (simp add: migrate_ok_def)
    ultimately have "migrate_ok db1" by (simp add: migrate_ok_def)
    with worked(3) show ?thesis by simp
  qed (use ok in simp)
  show "block_checkpoint db' = checkpoint_run cfg HANDLE_MIGRATE_CONTRACT (block_checkpoint db)"
    by (rule range_job_checkpoint [OF assms [unfolded handleMigrateContract_def]])
      (rule handleMigrateContract_work_keeps(1))
qed

lemma migrate_run_acts:
  "handleMigrateContract cfg ext db = Inr db' \<Longrightarrow> (\<lambda>a b. migrate_events a b db') = (\<lambda>a b. migrate_events a b db)"
  by (intro ext migrate_run_keeps(1))

lemma migrate_run_code:
  assumes "migrate_ok db" and "handleMigrateContract cfg ext db = Inr db'"
  shows "latest_code A db' =
    (if skips (job_guard HANDLE_MIGRATE_CONTRACT) (migrate_pos cfg db) (job_end cfg HANDLE_MIGRATE_CONTRACT (block_checkpoint db))
     then latest_code A db
     else fold (migrate_step A)
       (migrate_events (migrate_pos cfg db) (job_end cfg HANDLE_MIGRATE_CONTRACT (block_checkpoint db)) db) (latest_code A db))"
  using assms(2) unfolding handleMigrateContract_def
  by (cases rule: range_job_cases) (use assms(1) in \<open>simp_all add: migrate_latest_code migrate_ok_def\<close>)

lemma migrate_split_ok:
  "migrate_ok db \<Longrightarrow> a \<le> b \<Longrightarrow> b \<le> c \<Longrightarrow> migrate_events a c db = migrate_events a b db @ migrate_events b c db"
  by (rule migrate_events_split) (simp_all add: migrate_ok_def)

lemma migrate_guarded: "\<not> skips (job_guard HANDLE_MIGRATE_CONTRACT) s e \<Longrightarrow> s \<le> e"
  by (simp add: HANDLE_MIGRATE_CONTRACT_def skips_def)

interpretation migrate_job: replaying_job cfg HANDLE_MIGRATE_CONTRACT "handleMigrateContract cfg ext"
    "\<lambda>_. True" migrate_ok "\<lambda>db a b. migrate_events a b db" "migrate_step A" "latest_code A"
  for cfg ext A
  by unfold_locales
    (rule migrate_run_keeps(2,3) migrate_run_acts migrate_run_code migrate_split_ok migrate_guarded; assumption)+

text \<open>The other two jobs, seen from the table of checkpoints.\<close>

lemma crawl_code_checkpoint:
  "crawl_code_job cfg ext db = Inr db' \<Longrightarrow>
    block_checkpoint db' = checkpoint_run cfg CRAWL_CODE (block_checkpoint db)"
  unfolding crawl_code_job_def
  by (erule range_job_checkpoint) (auto simp: crawl_code_work_def rbind_eq_Inr insertNewCodes_keeps(1))

lemma insertNewContracts_cases:
  assumes "insertNewContracts ext cs db = (out, r)"
  obtains (none) "cs = []" "out = db" "r = Inr db"
  | (thrown) e where "out = db" "r = Inl e"
  | (stored) db1 rows where "cs \<noteq> []" "rmap (new_contract ext) cs = Inr rows"
      "db1 = db \<or> (\<exists>is. actionCrawlMissingCode ext is db = Inr db1)"
      "out = db1\<lparr>codes := fold patch_code_type (code_type_patches ext cs) (codes db1)\<rparr>"
      "(\<exists>m. r = Inl (JsError m)) \<or> r = insert_contracts rows out"
proof (cases "cs = []")
  case True
  with assms none show thesis by (auto simp: insertNewContracts_def)
next
  case False
  show thesis
  proof (cases "rmap (new_contract ext) cs")
    case (Inl e)
    with assms False thrown show thesis by (auto simp: insertNewContracts_def)
  next
    case (Inr rows)
    show thesis
    proof (cases "crawl_missing_codes ext cs db")
      case (Inl e)
      with assms False Inr have "out = db" "r = Inl e" by (simp_all add: insertNewContracts_def)
      then show thesis by (rule thrown)
    next
      case r: (Inr db1)
      then have "db1 = db \<or> (\<exists>is. actionCrawlMissingCode ext is db = Inr db1)"
        by (auto simp: crawl_missing_codes_def Let_def split: if_splits)
      with assms False Inr r stored [of rows db1] show thesis
        by (auto simp: insertNewContracts_def Let_def split: if_splits)
    qed
  qed
qed

lemma insertNewContracts_keeps:
  assumes "insertNewContracts ext cs db = (out, r)"
  shows "block_checkpoint out = block_checkpoint db" "r = Inr db' \<Longrightarrow> block_checkpoint db' = block_checkpoint db"
proof -
  have "block_checkpoint out = block_checkpoint db \<and> (\<forall>db'. r = Inr db' \<longrightarrow> block_checkpoint db' = block_checkpoint db)"
    using assms
  proof (cases rule: insertNewContracts_cases)
    case (stored db1 rows)
    then have "block_checkpoint db1 = block_checkpoint db" using actionCrawlMissingCode_keeps(1) by metis
    with stored(4) have out: "block_checkpoint out = block_checkpoint db" by simp
    then show ?thesis using stored(5) insert_contracts_keeps(1) by fastforce
  qed simp_all
  then show "block_checkpoint out = block_checkpoint db" "r = Inr db' \<Longrightarrow> block_checkpoint db' = block_checkpoint db"
    by blast+
qed

lemma crawl_smart_contract_checkpoint:
  "succeeded (crawl_smart_contract_job cfg ext db) = Inr db' \<Longrightarrow>
    block_checkpoint db' = checkpoint_run cfg CRAWL_SMART_CONTRACT (block_checkpoint db)"
  unfolding crawl_smart_contract_job_def succeeded_range_outcome
proof (erule range_job_checkpoint)
  fix s e and db db' :: "('a, 'b) wasm_db_scheme"
  assume "succeeded (crawl_smart_contract_work ext s e db) = Inr db'"
  then obtain out where "insertNewContracts ext (instantiated s e db) db = (out, Inr db')"
    by (auto simp: crawl_smart_contract_work_def succeeded_eq_Inr split: prod.splits sum.splits)
  then show "block_checkpoint db' = block_checkpoint db" by (rule insertNewContracts_keeps(2)) simp
qed

interpretation crawl_code: checkpointed_job cfg CRAWL_CODE "crawl_code_job cfg ext" for cfg ext
  by unfold_locales (rule crawl_code_checkpoint)

interpretation crawl_smart_contract: checkpointed_job cfg CRAWL_SMART_CONTRACT
    "\<lambda>db. succeeded (crawl_smart_contract_job cfg ext db)" for cfg ext
  by unfold_locales (rule crawl_smart_contract_checkpoint)

section \<open>Properties of migrations\<close>

definition sample_wasm_ext :: wasm_ext where
  "sample_wasm_ext =
     \<lparr>queryCode = (\<lambda>i. Some \<lparr>ci_creator = ''aura1x'', ci_dataHash = ''AB'', ci_instantiatePermission = ''all''\<rparr>),
      getContractCw2 = (\<lambda>a. Some \<lparr>cw2_contract = Some ''crates.io:cw721-base'', cw2_name = None, cw2_version = Some ''0.16''\<rparr>),
      getContractInfo = (\<lambda>a. Some \<lparr>info_codeId = 1, info_creator = ''aura1x'', info_label = ''nft''\<rparr>),
      Long_fromString = (\<lambda>s. map_option int (js_parseInt s)), now = ''2024-01-01''\<rparr>"

definition sample_wasm_tx :: "int \<Rightarrow> string transaction_row" where
  "sample_wasm_tx i =
     \<lparr>tx_id = i, tx_height = i, tx_hash = ''T'', tx_codespace = [], tx_code = 0, tx_gas_used = ''0'',
      tx_gas_wanted = ''0'', tx_gas_limit = ''0'', tx_fee = [], tx_memo = [], tx_index = 0,
      tx_timestamp = ''t'', tx_data = None\<rparr>"

definition sample_attributes :: "(string \<times> string) list \<Rightarrow> event_attribute list" where
  "sample_attributes kvs = map (\<lambda>(i, k, v). \<lparr>attr_index = int i, attr_key = Some k, attr_value = Some v\<rparr>) (zip [0..<length kvs] kvs)"

definition sample_wasm_event :: "int \<Rightarrow> int \<Rightarrow> string \<Rightarrow> (string \<times> string) list \<Rightarrow> event_row" where
  "sample_wasm_event i t type kvs =
     \<lparr>evt_id = i, evt_tx_id = Some t, evt_tx_msg_index = Some 0, evt_type = type, evt_block_height = t,
      evt_source = TX_EVENT, evt_attributes = sample_attributes kvs\<rparr>"

definition sample_code :: "int \<Rightarrow> string \<Rightarrow> code_row" where
  "sample_code i type =
     \<lparr>cd_code_id = i, cd_creator = ''aura1x'', cd_data_hash = ''ab'', cd_instantiate_permission = ''all'',
      cd_type = Some type, cd_status = None, cd_store_hash = ''T'', cd_store_height = 0\<rparr>"

definition sample_wasm_contract :: "int \<Rightarrow> string \<Rightarrow> int \<Rightarrow> smart_contract" where
  "sample_wasm_contract i addr code =
     \<lparr>k_id = i, k_name = Some ''crates.io:cw721-base'', k_address = addr, k_creator = ''aura1x'', k_code_id = code,
      k_status = STATUS_LATEST, k_label = Some ''nft'', k_instantiate_hash = ''T'', k_instantiate_height = 0,
      k_version = Some ''0.15''\<rparr>"

definition sample_wasm_config :: config where
  "sample_wasm_config = \<lparr>startBlock = 0, blocksPerCall = (\<lambda>_. 100)\<rparr>"

definition sample_wasm_db :: "string wasm_db" where
  "sample_wasm_db =
     \<lparr>block_checkpoint = [''crawl:code'' \<mapsto> 2, ''crawl:smart-contract'' \<mapsto> 2], block_table = [],
      transaction_table = [sample_wasm_tx 1, sample_wasm_tx 2], transaction_seq = 3,
      event_table =
        [sample_wasm_event 1 1 ''migrate'' [(''_contract_address'', ''aura1c''), (''code_id'', ''3'')],
         sample_wasm_event 2 2 ''migrate'' [(''_contract_address'', ''aura1c''), (''code_id'', ''2'')],
         sample_wasm_event 3 2 ''migrate'' [(''_contract_address'', ''aura1d''), (''code_id'', ''2'')]],
      event_seq = 4, message_table = [], message_seq = 1,
      codes = [sample_code 1 ''CW721'', sample_code 2 ''CW721'', sample_code 3 ''CW721''],
      code_id_verifications = [], smart_contracts = [sample_wasm_contract 1 ''aura1c'' 1], smart_contract_seq = 2\<rparr>"

lemma sample_wasm_ok: "migrate_ok sample_wasm_db"
proof -
  have "latest_unique sample_wasm_db"
    by (simp add: latest_unique_def sample_wasm_db_def)
  moreover have "contract_ids_ok sample_wasm_db" "chain_ids_ok sample_wasm_db" by code_simp+
  ultimately show ?thesis by (simp add: migrate_ok_def)
qed

lemma sample_wasm_run:
  obtains db where "handleMigrateContract sample_wasm_config sample_wasm_ext sample_wasm_db = Inr db"
    "migrate_pos sample_wasm_config db = 2"
proof -
  have "\<not> isl (handleMigrateContract sample_wasm_config sample_wasm_ext sample_wasm_db)" by code_simp
  then obtain db where run: "handleMigrateContract sample_wasm_config sample_wasm_ext sample_wasm_db = Inr db"
    by (metis sum.collapse(2))
  have "job_start sample_wasm_config HANDLE_MIGRATE_CONTRACT (checkpoint_run sample_wasm_config HANDLE_MIGRATE_CONTRACT
      (block_checkpoint sample_wasm_db)) = 2" by code_simp
  with migrate_run_keeps(3) [OF run] that [OF run] show thesis by simp
qed

text \<open>
  However the migration job's runs interleave with other jobs that leave a contract's rows
  alone, the code that the table gives for the current version of a stored contract is the one
  that replaying the migrations of the heights passed since, in order, gives; and no address has
  two current versions.
\<close>

theorem migrations_replayed:
  assumes "job_trace (handleMigrateContract cfg ext) (\<lambda>_. True)
      (\<lambda>db db'. settled_env (migrate_pos cfg) (latest_code A) (\<lambda>db a b. migrate_events a b db) db db' \<and> migrate_ok db')
      db0 db"
    and "migrate_ok db0"
  shows "latest_code A db =
      fold (migrate_step A) (migrate_events (migrate_pos cfg db0) (migrate_pos cfg db) db) (latest_code A db0) \<and>
    latest_unique db"
  using migrate_job.replays_once [OF assms] by (simp add: migrate_ok_def)

theorem migrations_replayed_witness:
  "\<exists>db. handleMigrateContract sample_wasm_config sample_wasm_ext sample_wasm_db = Inr db \<and>
     latest_code ''aura1c'' db = Some 2"
proof -
  obtain db where run: "handleMigrateContract sample_wasm_config sample_wasm_ext sample_wasm_db = Inr db"
    and pos: "migrate_pos sample_wasm_config db = 2" by (rule sample_wasm_run)
  have "job_trace (handleMigrateContract sample_wasm_config sample_wasm_ext) (\<lambda>_. True)
      (\<lambda>db db'. settled_env (migrate_pos sample_wasm_config) (latest_code ''aura1c'') (\<lambda>db a b. migrate_events a b db) db db'
        \<and> migrate_ok db') sample_wasm_db db"
    by (intro trace_one run) simp
  note migrations_replayed [OF this sample_wasm_ok]
  moreover have "migrate_pos sample_wasm_config sample_wasm_db = 0"
    and "fold (migrate_step ''aura1c'') (migrate_events 0 2 sample_wasm_db) (latest_code ''aura1c'' sample_wasm_db) = Some 2"
    by code_simp+
  ultimately show ?thesis using run pos migrate_run_keeps(1) [OF run] by auto
qed

end
