(* ===== verification/Contract_Event.thy ===== *)
theory Contract_Event
  imports Smart_Contract
begin

text \<open>
  The job of \<^verbatim>\<open>src/services/crawl-cosmwasm/crawl_contract_event.service.ts\<close>, which turns the wasm and
  instantiate events of a range into rows of \<^verbatim>\<open>smart_contract_event\<close>, with the activities that
  \<^verbatim>\<open>src/common/utils/smart_contract.ts\<close> reads from the events. The token jobs replay these rows.
\<close>

section \<open>Rows\<close>

text \<open>
  An event row with its attribute rows, which keep the order in which they are inserted.
\<close>

record smart_contract_event =
  se_id :: int
  se_smart_contract_id :: int
  se_action :: "string option"
  se_event_id :: int
  se_index :: nat
  se_tx_id :: int
  se_attributes :: "event_attribute list"

record 'c contract_event_db = "'c wasm_db" +
  smart_contract_events :: "smart_contract_event list"
  smart_contract_event_seq :: int

record contract_activity =
  ca_contractAddress :: "string option"
  ca_action :: "string option"
  ca_attributes :: "event_attribute list"
  ca_tx :: "int option"
  ca_event_id :: int
  ca_index :: nat

section \<open>Activities\<close>

text \<open>\<^verbatim>\<open>wasmEvent.transaction\<close> is the row the event refers to, if there is one.\<close>

definition event_transaction :: "('c, 'a) chain_db_scheme \<Rightarrow> event_row \<Rightarrow> int option" where
  "event_transaction db e =
     (case evt_tx_id e of
        None \<Rightarrow> None
      | Some i \<Rightarrow> map_option tx_id (find (\<lambda>t. tx_id t = i) (transaction_table db)))"

definition contract_activity_of :: "('c, 'a) chain_db_scheme \<Rightarrow> nat \<Rightarrow> event_row \<Rightarrow> contract_activity" where
  "contract_activity_of db index e =
     \<lparr>ca_contractAddress = getAttributeFrom (evt_attributes e) ''_contract_address'',
      ca_action = (if evt_type e = ''instantiate'' then Some ''instantiate''
                   else getAttributeFrom (evt_attributes e) ''action''),
      ca_attributes = evt_attributes e, ca_tx = event_transaction db e, ca_event_id = evt_id e, ca_index = index\<rparr>"

definition wasm_events :: "int \<Rightarrow> int \<Rightarrow> ('c, 'a) chain_db_scheme \<Rightarrow> event_row list" where
  "wasm_events fromBlock toBlock db =
     filter (\<lambda>e. evt_type e \<in> set [''wasm'', ''instantiate''] \<and> in_range fromBlock toBlock (evt_block_height e))
       (event_table db)"

definition getContractActivities :: "int \<Rightarrow> int \<Rightarrow> ('c, 'a) chain_db_scheme \<Rightarrow> contract_activity list" where
  "getContractActivities fromBlock toBlock db =
     (let es = wasm_events fromBlock toBlock db in
      map (\<lambda>(index, e). contract_activity_of db index e) (zip [0..<length es] es))"

section \<open>The job\<close>

text \<open>The query builder rejects a list that has an undefined address.\<close>

definition getContractByAddress ::
  "string option list \<Rightarrow> ('c, 'a) wasm_db_scheme \<Rightarrow> (string \<rightharpoonup> smart_contract) res"
where
  "getContractByAddress addresses db =
     (if None \<in> set addresses then Inl (JsError ''Undefined binding(s) detected'')
      else Inr (keyBy k_address (filter (\<lambda>k. Some (k_address k) \<in> set addresses) (smart_contracts db))))"

definition missing_contracts ::
  "contract_activity list \<Rightarrow> (string \<rightharpoonup> smart_contract) \<Rightarrow> string option list"
where
  "missing_contracts acts contractByAddress =
     uniq (filter (\<lambda>a. Option.bind a contractByAddress = None) (map ca_contractAddress acts))"

definition contract_event_row ::
  "(string \<rightharpoonup> smart_contract) \<Rightarrow> contract_activity \<Rightarrow> (int \<Rightarrow> smart_contract_event) res"
where
  "contract_event_row contractByAddress a =
     rbind (need (ca_tx a)) (\<lambda>txId.
     rbind (need (Option.bind (ca_contractAddress a) contractByAddress)) (\<lambda>k.
       Inr (\<lambda>newId. \<lparr>se_id = newId, se_smart_contract_id = k_id k, se_action = ca_action a,
                     se_event_id = ca_event_id a, se_index = ca_index a, se_tx_id = txId,
                     se_attributes = ca_attributes a\<rparr>)))"

definition insert_contract_events ::
  "(int \<Rightarrow> smart_contract_event) list \<Rightarrow> ('c, 'a) contract_event_db_scheme \<Rightarrow> ('c, 'a) contract_event_db_scheme"
where
  "insert_contract_events rows db =
     db\<lparr>smart_contract_events := smart_contract_events db @
          map (\<lambda>(k, f). f (smart_contract_event_seq db + int k)) (zip [0..<length rows] rows),
        smart_contract_event_seq := smart_contract_event_seq db + int (length rows)\<rparr>"

definition CRAWL_CONTRACT_EVENT :: job_decl where
  "CRAWL_CONTRACT_EVENT =
     \<lparr>job_name = ''crawl:contract-event'', lastHeightJobNames = [''crawl:smart-contract''],
      configName = Some ''crawlContractEvent'', job_guard = SkipGE\<rparr>"

text \<open>
  The contracts that are missing are asked for, but the dictionary that was read before is not read
  again: the rows of their events still find no contract.
\<close>

definition contract_event_work ::
  "wasm_ext \<Rightarrow> int \<Rightarrow> int \<Rightarrow> ('c, 'a) contract_event_db_scheme \<Rightarrow> ('c, 'a) contract_event_db_scheme outcome"
where
  "contract_event_work ext startBlk endBlk db =
     (let contractEvents = getContractActivities startBlk endBlk db in
      case getContractByAddress (map ca_contractAddress contractEvents) db of
        Inl e \<Rightarrow> (db, Some e)
      | Inr contractByAddress \<Rightarrow>
          (let missing = missing_contracts contractEvents contractByAddress in
           case (if missing = [] then (db, None)
                 else actionCrawlMissingContract ext
                        (map (\<lambda>address. \<lparr>ic_address = address, ic_hash = [], ic_height = 0\<rparr>) missing) db) of
             (db1, Some e) \<Rightarrow> (db1, Some e)
           | (db1, None) \<Rightarrow>
               (case rmap (contract_event_row contractByAddress) contractEvents of
                  Inl e \<Rightarrow> (db1, Some e)
                | Inr rows \<Rightarrow> (insert_contract_events rows db1, None))))"

definition crawl_contract_event_job ::
  "config \<Rightarrow> wasm_ext \<Rightarrow> ('c, 'a) contract_event_db_scheme \<Rightarrow> ('c, 'a) contract_event_db_scheme outcome"
where
  "crawl_contract_event_job cfg ext = range_outcome cfg CRAWL_CONTRACT_EVENT (contract_event_work ext)"

text \<open>
  \<^verbatim>\<open>SmartContractEvent.query().joinRelated('[event.transaction, smart_contract.code]')\<close>, the join from
  which the token services read.
\<close>

definition contract_event_join ::
  "('c, 'a) contract_event_db_scheme \<Rightarrow> smart_contract_event \<Rightarrow>
    (event_row \<times> 'c transaction_row \<times> smart_contract \<times> code_row) option"
where
  "contract_event_join db se =
     Option.bind (find (\<lambda>e. evt_id e = se_event_id se) (event_table db)) (\<lambda>e.
     Option.bind (evt_tx_id e) (\<lambda>i.
     Option.bind (find (\<lambda>t. tx_id t = i) (transaction_table db)) (\<lambda>t.
     Option.bind (find (\<lambda>k. k_id k = se_smart_contract_id se) (smart_contracts db)) (\<lambda>k.
     Option.bind (find (\<lambda>c. cd_code_id c = k_code_id k) (codes db)) (\<lambda>c. Some (e, t, k, c))))))"

text \<open>The sequence hands out the ids, so the rows are in the order of their ids.\<close>

definition event_ids_increase :: "('c, 'a) contract_event_db_scheme \<Rightarrow> bool" where
  "event_ids_increase db \<longleftrightarrow> sorted_wrt (<) (map se_id (smart_contract_events db))"

section \<open>What a run stores\<close>

text \<open>A stored event up to its own id, its contract's id and its place in the batch.\<close>

type_synonym event_content = "int \<times> string option \<times> int option \<times> event_attribute list"

definition stored_content :: "smart_contract_event \<Rightarrow> event_content" where
  "stored_content r = (se_event_id r, se_action r, Some (se_tx_id r), se_attributes r)"

definition wasm_content :: "('c, 'a) chain_db_scheme \<Rightarrow> event_row \<Rightarrow> event_content" where
  "wasm_content db e =
     (let a = contract_activity_of db 0 e in (ca_event_id a, ca_action a, ca_tx a, ca_attributes a))"

definition event_log :: "('c, 'a) contract_event_db_scheme \<Rightarrow> event_content multiset" where
  "event_log db = mset (map stored_content (smart_contract_events db))"

definition wasm_contents :: "('c, 'a) contract_event_db_scheme \<Rightarrow> int \<Rightarrow> int \<Rightarrow> event_content multiset" where
  "wasm_contents db a b = mset (map (wasm_content db) (wasm_events a b db))"

lemma length_getContractActivities [simp]: "length (getContractActivities a b db) = length (wasm_events a b db)"
  by (simp add: getContractActivities_def Let_def)

lemma nth_getContractActivities [simp]:
  "i < length (wasm_events a b db) \<Longrightarrow>
    getContractActivities a b db ! i = contract_activity_of db i (wasm_events a b db ! i)"
  by (simp add: getContractActivities_def Let_def)

lemma contract_addresses:
  "map ca_contractAddress (getContractActivities a b db) =
    map (\<lambda>e. getAttributeFrom (evt_attributes e) ''_contract_address'') (wasm_events a b db)"
  by (rule nth_equalityI) (simp_all add: contract_activity_of_def)

lemma contract_event_row_eq:
  "contract_event_row m a = Inr f \<longleftrightarrow>
    (\<exists>txId addr k. ca_tx a = Some txId \<and> ca_contractAddress a = Some addr \<and> m addr = Some k \<and>
      f = (\<lambda>newId. \<lparr>se_id = newId, se_smart_contract_id = k_id k, se_action = ca_action a,
        se_event_id = ca_event_id a, se_index = ca_index a, se_tx_id = txId, se_attributes = ca_attributes a\<rparr>))"
  by (cases "ca_contractAddress a") (auto simp: contract_event_row_def rbind_eq_Inr need_eq_Inr)

text \<open>A run that succeeds found every contract, so it asked for none.\<close>

lemma contract_event_work_cases:
  assumes "succeeded (contract_event_work ext s e db) = Inr db'"
  obtains m rows where "getContractByAddress (map ca_contractAddress (getContractActivities s e db)) db = Inr m"
    "rmap (contract_event_row m) (getContractActivities s e db) = Inr rows"
    "db' = insert_contract_events rows db"
proof -
  from assms obtain m where m: "getContractByAddress (map ca_contractAddress (getContractActivities s e db)) db = Inr m"
    by (auto simp: contract_event_work_def Let_def succeeded_eq_Inr split: sum.splits)
  let ?missing = "missing_contracts (getContractActivities s e db) m"
  from assms m obtain rows db1 where rows: "rmap (contract_event_row m) (getContractActivities s e db) = Inr rows"
    and db': "db' = insert_contract_events rows db1" and db1: "?missing = [] \<Longrightarrow> db1 = db"
    by (auto simp: contract_event_work_def Let_def succeeded_eq_Inr split: sum.splits prod.splits option.splits if_splits)
  have "Option.bind (ca_contractAddress a) m \<noteq> None" if "a \<in> set (getContractActivities s e db)" for a
  proof -
    from that obtain i where i: "i < length (getContractActivities s e db)" "getContractActivities s e db ! i = a"
      by (auto simp: in_set_conv_nth)
    with rows have "contract_event_row m a = Inr (rows ! i)"
      by (auto simp: rmap_eq_Inr list_all2_conv_all_nth)
    then show ?thesis by (auto simp: contract_event_row_eq)
  qed
  then have "?missing = []" by (simp add: missing_contracts_def filter_empty_conv)
  with db1 db' m rows that show thesis by blast
qed

lemma insert_contract_events_keeps [simp]:
  "block_checkpoint (insert_contract_events rows db) = block_checkpoint db"
  "event_table (insert_contract_events rows db) = event_table db"
  "transaction_table (insert_contract_events rows db) = transaction_table db"
  "smart_contracts (insert_contract_events rows db) = smart_contracts db"
  by (simp_all add: insert_contract_events_def)

lemma event_transaction_cong:
  "transaction_table db' = transaction_table db \<Longrightarrow> event_transaction db' = event_transaction db"
  by (rule ext) (simp add: event_transaction_def split: option.split)

lemma wasm_contents_cong:
  assumes "event_table db' = event_table db" and "transaction_table db' = transaction_table db"
  shows "wasm_contents db' = wasm_contents db"
proof -
  have "wasm_content db' = wasm_content db"
    by (rule ext) (simp only: wasm_content_def contract_activity_of_def event_transaction_def assms)
  moreover have "wasm_events a b db' = wasm_events a b db" for a b by (simp only: wasm_events_def assms)
  ultimately show ?thesis by (intro ext) (simp only: wasm_contents_def)
qed

lemma contract_event_work_log:
  assumes "succeeded (contract_event_work ext s e db) = Inr db'"
  shows "event_log db' = event_log db + wasm_contents db s e"
proof -
  from assms obtain m rows where rows: "rmap (contract_event_row m) (getContractActivities s e db) = Inr rows"
    and db': "db' = insert_contract_events rows db"
    by (rule contract_event_work_cases)
  have len: "length rows = length (wasm_events s e db)" using rmap_length [OF rows] by simp
  have "map (\<lambda>(k, f). stored_content (f (n + int k))) (zip [0..<length rows] rows) =
      map (wasm_content db) (wasm_events s e db)" for n
  proof (rule nth_equalityI)
    fix i assume "i < length (map (\<lambda>(k, f). stored_content (f (n + int k))) (zip [0..<length rows] rows))"
    then have i: "i < length (wasm_events s e db)" using len by simp
    then have "contract_event_row m (contract_activity_of db i (wasm_events s e db ! i)) = Inr (rows ! i)"
      using rows by (auto simp: rmap_eq_Inr list_all2_conv_all_nth)
    then show "map (\<lambda>(k, f). stored_content (f (n + int k))) (zip [0..<length rows] rows) ! i =
        map (wasm_content db) (wasm_events s e db) ! i"
      using i len by (auto simp: contract_event_row_eq stored_content_def wasm_content_def contract_activity_of_def)
  qed (simp add: len)
  then have "map stored_content (map (\<lambda>(k, f). f (smart_contract_event_seq db + int k)) (zip [0..<length rows] rows)) =
      map (wasm_content db) (wasm_events s e db)"
    by (simp add: comp_def case_prod_unfold)
  then show ?thesis by (simp only: event_log_def wasm_contents_def db' insert_contract_events_def contract_event_db.simps map_append mset_append) simp
qed

abbreviation contract_event_pos :: "config \<Rightarrow> ('c, 'a) contract_event_db_scheme \<Rightarrow> int" where
  "contract_event_pos cfg db \<equiv> job_start cfg CRAWL_CONTRACT_EVENT (block_checkpoint db)"

abbreviation contract_event_run ::
  "config \<Rightarrow> wasm_ext \<Rightarrow> ('c, 'a) contract_event_db_scheme \<Rightarrow> ('c, 'a) contract_event_db_scheme res"
where
  "contract_event_run cfg ext db \<equiv> succeeded (crawl_contract_event_job cfg ext db)"

lemma contract_event_run_eq:
  "contract_event_run cfg ext db =
    range_job cfg CRAWL_CONTRACT_EVENT (\<lambda>s e db. succeeded (contract_event_work ext s e db)) db"
  by (simp add: crawl_contract_event_job_def succeeded_range_outcome)

lemma contract_event_work_keeps:
  assumes "succeeded (contract_event_work ext s e db) = Inr db'"
  shows "block_checkpoint db' = block_checkpoint db" "wasm_contents db' = wasm_contents db"
proof -
  from assms obtain rows where db': "db' = insert_contract_events rows db"
    by (rule contract_event_work_cases)
  show "block_checkpoint db' = block_checkpoint db" by (simp add: db')
  show "wasm_contents db' = wasm_contents db" by (rule wasm_contents_cong) (simp_all add: db')
qed

lemma event_log_saveCheckpoint [simp]:
  "event_log (saveCheckpoint row db) = event_log db" "wasm_contents (saveCheckpoint row db) = wasm_contents db"
  by (simp add: event_log_def saveCheckpoint_def, rule wasm_contents_cong) (simp_all add: saveCheckpoint_def)

lemma contract_event_run_checkpoint:
  "contract_event_run cfg ext db = Inr db' \<Longrightarrow>
    block_checkpoint db' = checkpoint_run cfg CRAWL_CONTRACT_EVENT (block_checkpoint db)"
  unfolding contract_event_run_eq
  by (erule range_job_checkpoint) (rule contract_event_work_keeps(1))

lemma contract_event_run_rows:
  assumes "contract_event_run cfg ext db = Inr db'"
  shows "wasm_contents db' = wasm_contents db"
    and "event_log db' = event_log db +
      (if skips (job_guard CRAWL_CONTRACT_EVENT) (contract_event_pos cfg db) (job_end cfg CRAWL_CONTRACT_EVENT (block_checkpoint db))
       then {#} else wasm_contents db (contract_event_pos cfg db) (job_end cfg CRAWL_CONTRACT_EVENT (block_checkpoint db)))"
  using assms unfolding contract_event_run_eq
  by (cases rule: range_job_cases; simp add: contract_event_work_keeps contract_event_work_log)+

lemma wasm_contents_split:
  assumes "a \<le> b" and "b \<le> c"
  shows "wasm_contents db a c = wasm_contents db a b + wasm_contents db b c"
  using filter_mset_range_split [OF assms, where P = "\<lambda>e. evt_type e = ''wasm'' \<or> evt_type e = ''instantiate''"
      and h = evt_block_height and M = "mset (event_table db)"]
  by (simp add: wasm_contents_def wasm_events_def)

lemma contract_event_guarded: "\<not> skips (job_guard CRAWL_CONTRACT_EVENT) s e \<Longrightarrow> s \<le> e"
  by (simp add: CRAWL_CONTRACT_EVENT_def skips_def)

interpretation contract_event_job: appending_job cfg CRAWL_CONTRACT_EVENT "contract_event_run cfg ext"
    "\<lambda>_. True" wasm_contents event_log
  for cfg ext
  by unfold_locales
    (rule contract_event_run_checkpoint contract_event_run_rows wasm_contents_split contract_event_guarded; assumption)+

section \<open>Contracts that are missing\<close>

lemma new_contract_address: "new_contract ext c = Inr f \<Longrightarrow> Some (k_address (f n)) = ic_address c"
  by (cases "ic_address c") (auto simp: new_contract_def Let_def)

lemma insertNewContracts_addresses:
  assumes "insertNewContracts ext cs db = (out, Inr db')"
  shows "\<exists>new. smart_contracts db' = smart_contracts db @ new \<and> map (\<lambda>k. Some (k_address k)) new = map ic_address cs"
    and "event_table db' = event_table db" and "transaction_table db' = transaction_table db"
proof -
  have "(\<exists>new. smart_contracts db' = smart_contracts db @ new \<and> map (\<lambda>k. Some (k_address k)) new = map ic_address cs)
    \<and> event_table db' = event_table db \<and> transaction_table db' = transaction_table db"
    using assms
  proof (cases rule: insertNewContracts_cases)
    case (stored db1 rows)
    then have ins: "insert_contracts rows out = Inr db'" by auto
    have "\<forall>i<length cs. \<forall>n. Some (k_address ((rows ! i) n)) = ic_address (cs ! i)"
    proof (intro allI impI)
      fix i n assume "i < length cs"
      with stored(2) have "new_contract ext (cs ! i) = Inr (rows ! i)" by (simp add: rmap_eq_Inr list_all2_conv_all_nth)
      then show "Some (k_address ((rows ! i) n)) = ic_address (cs ! i)"
        by (rule new_contract_address)
    qed
    then have "map (\<lambda>k. Some (k_address k)) (numbered n rows) = map ic_address cs" for n
      using rmap_length [OF stored(2)] by (intro nth_equalityI) simp_all
    moreover have "smart_contracts out = smart_contracts db \<and> event_table out = event_table db \<and>
        transaction_table out = transaction_table db"
      using stored(3,4) actionCrawlMissingCode_keeps(2-4) by fastforce
    ultimately show ?thesis
      using insert_contracts_rows [OF ins] insert_contracts_keeps [OF ins] by auto
  qed simp_all
  then show "\<exists>new. smart_contracts db' = smart_contracts db @ new \<and> map (\<lambda>k. Some (k_address k)) new = map ic_address cs"
    and "event_table db' = event_table db" and "transaction_table db' = transaction_table db" by blast+
qed

text \<open>Every event of the range names a contract and belongs to a stored transaction.\<close>

definition wellformed_events :: "int \<Rightarrow> int \<Rightarrow> ('c, 'a) chain_db_scheme \<Rightarrow> bool" where
  "wellformed_events a b db \<longleftrightarrow>
     list_all (\<lambda>e. getAttributeFrom (evt_attributes e) ''_contract_address'' \<noteq> None \<and> event_transaction db e \<noteq> None)
       (wasm_events a b db)"

definition unknown_contracts :: "int \<Rightarrow> int \<Rightarrow> ('c, 'a) wasm_db_scheme \<Rightarrow> string option list" where
  "unknown_contracts a b db =
     uniq (filter (\<lambda>x. x \<notin> set (map (\<lambda>k. Some (k_address k)) (smart_contracts db)))
       (map (\<lambda>e. getAttributeFrom (evt_attributes e) ''_contract_address'') (wasm_events a b db)))"

lemma wellformed_activity:
  assumes "wellformed_events s e db" and "a \<in> set (getContractActivities s e db)"
  obtains addr txId where "ca_contractAddress a = Some addr" "ca_tx a = Some txId"
proof -
  from assms(2) obtain i where "i < length (wasm_events s e db)" "a = contract_activity_of db i (wasm_events s e db ! i)"
    by (metis in_set_conv_nth length_getContractActivities nth_getContractActivities)
  with assms(1) have "ca_contractAddress a \<noteq> None" "ca_tx a \<noteq> None"
    by (simp_all add: wellformed_events_def list_all_length contract_activity_of_def)
  with that show thesis by blast
qed

lemma getContractByAddress_wellformed:
  assumes "wellformed_events s e db"
  obtains m where "getContractByAddress (map ca_contractAddress (getContractActivities s e db)) db = Inr m"
    "\<forall>a\<in>set (getContractActivities s e db).
      Option.bind (ca_contractAddress a) m = None \<longleftrightarrow>
      ca_contractAddress a \<notin> set (map (\<lambda>k. Some (k_address k)) (smart_contracts db))"
proof -
  let ?as = "map ca_contractAddress (getContractActivities s e db)"
  let ?m = "keyBy k_address (filter (\<lambda>k. Some (k_address k) \<in> set ?as) (smart_contracts db))"
  have "None \<notin> set ?as" by (auto elim: wellformed_activity [OF assms])
  then have "getContractByAddress ?as db = Inr ?m" by (simp add: getContractByAddress_def)
  moreover have "Option.bind (ca_contractAddress a) ?m = None \<longleftrightarrow>
      ca_contractAddress a \<notin> set (map (\<lambda>k. Some (k_address k)) (smart_contracts db))"
    if a: "a \<in> set (getContractActivities s e db)" for a
  proof -
    from assms a obtain addr where addr: "ca_contractAddress a = Some addr" by (rule wellformed_activity)
    with a have "Some addr \<in> set ?as" by force
    with addr show ?thesis by (auto simp: keyBy_None_iff)
  qed
  ultimately show thesis using that by blast
qed

lemma missing_contracts_unknown:
  assumes "\<forall>a\<in>set (getContractActivities s e db).
      Option.bind (ca_contractAddress a) m = None \<longleftrightarrow>
      ca_contractAddress a \<notin> set (map (\<lambda>k. Some (k_address k)) (smart_contracts db))"
  shows "missing_contracts (getContractActivities s e db) m = unknown_contracts s e db"
proof -
  have "filter (\<lambda>x. Option.bind x m = None) (map ca_contractAddress (getContractActivities s e db)) =
      filter (\<lambda>x. x \<notin> set (map (\<lambda>k. Some (k_address k)) (smart_contracts db)))
        (map ca_contractAddress (getContractActivities s e db))"
    using assms by (intro filter_cong) auto
  then show ?thesis by (simp add: missing_contracts_def unknown_contracts_def contract_addresses)
qed

text \<open>The work of a range succeeds when every contract is known.\<close>

lemma contract_event_work_known:
  assumes "wellformed_events s e db" and "unknown_contracts s e db = []"
  shows "\<exists>db'. contract_event_work ext s e db = (db', None)"
proof -
  from assms(1) obtain m where m: "getContractByAddress (map ca_contractAddress (getContractActivities s e db)) db = Inr m"
    and known: "\<forall>a\<in>set (getContractActivities s e db).
      Option.bind (ca_contractAddress a) m = None \<longleftrightarrow>
      ca_contractAddress a \<notin> set (map (\<lambda>k. Some (k_address k)) (smart_contracts db))"
    by (rule getContractByAddress_wellformed)
  have none: "missing_contracts (getContractActivities s e db) m = []"
    using missing_contracts_unknown [OF known] assms(2) by simp
  have "\<exists>f. contract_event_row m a = Inr f" if a: "a \<in> set (getContractActivities s e db)" for a
  proof -
    from assms(1) a obtain addr txId where "ca_contractAddress a = Some addr" "ca_tx a = Some txId"
      by (rule wellformed_activity)
    moreover have "Option.bind (ca_contractAddress a) m \<noteq> None"
      using none a by (auto simp: missing_contracts_def filter_empty_conv)
    ultimately show ?thesis by (auto simp: contract_event_row_eq)
  qed
  then obtain rows where "rmap (contract_event_row m) (getContractActivities s e db) = Inr rows"
    using rmap_total by metis
  with m none show ?thesis by (simp add: contract_event_work_def Let_def)
qed

text \<open>With a contract missing, the run throws after the contract has been stored.\<close>

lemma contract_event_work_missing:
  assumes "wellformed_events s e db" and "unknown_contracts s e db \<noteq> []"
    and "insertNewContracts ext (map (\<lambda>address. \<lparr>ic_address = address, ic_hash = [], ic_height = 0\<rparr>) (unknown_contracts s e db)) db
      = (out, Inr db1)"
  shows "contract_event_work ext s e db = (db1, Some TypeError)"
    and "wellformed_events s e db1" "unknown_contracts s e db1 = []"
proof -
  from assms(1) obtain m where m: "getContractByAddress (map ca_contractAddress (getContractActivities s e db)) db = Inr m"
    and known: "\<forall>a\<in>set (getContractActivities s e db).
      Option.bind (ca_contractAddress a) m = None \<longleftrightarrow>
      ca_contractAddress a \<notin> set (map (\<lambda>k. Some (k_address k)) (smart_contracts db))"
    by (rule getContractByAddress_wellformed)
  have missing: "missing_contracts (getContractActivities s e db) m = unknown_contracts s e db"
    by (rule missing_contracts_unknown [OF known])
  have "rmap (contract_event_row m) (getContractActivities s e db) = Inl TypeError"
  proof (rule rmap_throws)
    show "\<forall>a\<in>set (getContractActivities s e db). contract_event_row m a = Inl TypeError \<or> (\<exists>f. contract_event_row m a = Inr f)"
      by (auto simp: contract_event_row_def rbind_def need_def split: option.split)
    have "set (missing_contracts (getContractActivities s e db) m) \<noteq> {}" using missing assms(2) by simp
    then obtain a where "a \<in> set (getContractActivities s e db)" "Option.bind (ca_contractAddress a) m = None"
      by (auto simp: missing_contracts_def)
    then show "\<exists>a\<in>set (getContractActivities s e db). contract_event_row m a = Inl TypeError"
      by (intro bexI [of _ a]) (auto simp: contract_event_row_def rbind_def need_def split: option.split)
  qed
  then show "contract_event_work ext s e db = (db1, Some TypeError)"
    using m missing assms(2,3) by (simp add: contract_event_work_def Let_def actionCrawlMissingContract_def)
  let ?asked = "map (\<lambda>address. \<lparr>ic_address = address, ic_hash = [], ic_height = 0\<rparr>) (unknown_contracts s e db)"
  have asked: "map ic_address ?asked = unknown_contracts s e db" by (simp add: comp_def)
  from insertNewContracts_addresses [OF assms(3), unfolded asked] obtain new
    where new: "smart_contracts db1 = smart_contracts db @ new"
      "set (map (\<lambda>k. Some (k_address k)) new) = set (unknown_contracts s e db)"
      "event_table db1 = event_table db" "transaction_table db1 = transaction_table db"
    by metis
  then show "wellformed_events s e db1"
    using assms(1) event_transaction_cong [OF new(4)] by (simp add: wellformed_events_def wasm_events_def)
  show "unknown_contracts s e db1 = []"
    using new by (auto simp: unknown_contracts_def wasm_events_def filter_empty_conv)
qed

section \<open>Properties\<close>

text \<open>An event of a contract that is known, and one of a contract that is not.\<close>

definition sample_event_db :: "int \<Rightarrow> string contract_event_db" where
  "sample_event_db n =
     \<lparr>block_checkpoint = [''crawl:smart-contract'' \<mapsto> n], block_table = [],
      transaction_table = [sample_wasm_tx 1, sample_wasm_tx 2], transaction_seq = 3,
      event_table =
        [sample_wasm_event 1 1 ''wasm'' [(''_contract_address'', ''aura1c''), (''action'', ''mint'')],
         sample_wasm_event 2 1 ''transfer'' [(''amount'', ''5uaura'')],
         sample_wasm_event 3 2 ''instantiate'' [(''_contract_address'', ''aura1d''), (''code_id'', ''1'')]],
      event_seq = 4, message_table = [], message_seq = 1, codes = [sample_code 1 ''CW721''],
      code_id_verifications = [], smart_contracts = [sample_wasm_contract 1 ''aura1c'' 1], smart_contract_seq = 2,
      smart_contract_events = [], smart_contract_event_seq = 1\<rparr>"

text \<open>
  C12. However the job's runs interleave with other jobs that leave its checkpoint, its rows and
  the events and transactions of passed heights alone, the stored contract events are, up to
  their ids, those stored at first and, exactly once each, the wasm and instantiate events of
  the heights passed since, with action, transaction and attributes.
\<close>

theorem contract_events_exactly_once:
  assumes "job_trace (contract_event_run cfg ext) (\<lambda>_. True)
      (settled_env (contract_event_pos cfg) event_log wasm_contents) db0 db"
  shows "event_log db = event_log db0 + wasm_contents db (contract_event_pos cfg db0) (contract_event_pos cfg db)"
  using contract_event_job.exactly_once [OF assms] by simp

theorem contract_events_exactly_once_witness:
  "\<exists>db. contract_event_run sample_wasm_config sample_wasm_ext (sample_event_db 1) = Inr db \<and>
     event_log db = {#(1, Some ''mint'', Some 1, sample_attributes [(''_contract_address'', ''aura1c''), (''action'', ''mint'')])#}"
proof -
  have "\<not> isl (contract_event_run sample_wasm_config sample_wasm_ext (sample_event_db 1))" by code_simp
  then obtain db where run: "contract_event_run sample_wasm_config sample_wasm_ext (sample_event_db 1) = Inr db"
    by (metis sum.collapse(2))
  have "job_trace (contract_event_run sample_wasm_config sample_wasm_ext) (\<lambda>_. True)
      (settled_env (contract_event_pos sample_wasm_config) event_log wasm_contents) (sample_event_db 1) db"
    by (intro trace_one run) simp
  note contract_events_exactly_once [OF this]
  moreover have "contract_event_pos sample_wasm_config db = 1"
  proof -
    have "job_start sample_wasm_config CRAWL_CONTRACT_EVENT (checkpoint_run sample_wasm_config CRAWL_CONTRACT_EVENT
        (block_checkpoint (sample_event_db 1))) = 1" by code_simp
    with contract_event_run_checkpoint [OF run] show ?thesis by simp
  qed
  moreover have "contract_event_pos sample_wasm_config (sample_event_db 1) = 0" by code_simp
  moreover have "wasm_contents (sample_event_db 1) 0 1 =
      {#(1, Some ''mint'', Some 1, sample_attributes [(''_contract_address'', ''aura1c''), (''action'', ''mint'')])#}"
    "event_log (sample_event_db 1) = {#}"
    by (simp_all add: wasm_contents_def wasm_events_def sample_event_db_def sample_wasm_event_def in_range_def
        wasm_content_def contract_activity_of_def event_transaction_def sample_wasm_tx_def event_log_def sample_attributes_def)
  ultimately show ?thesis using run contract_event_run_rows(1) [OF run] by auto
qed

text \<open>
  A run that meets events of contracts the table does not have asks for the contracts and
  still throws a type error, because it goes on with the dictionary it read before; but what it
  asked for is stored, so the next run over the same range succeeds and passes the range.
\<close>

theorem missing_contract_heals:
  assumes s_def: "contract_event_pos cfg db = s" and e_def: "job_end cfg CRAWL_CONTRACT_EVENT (block_checkpoint db) = e"
    and "s < e" and "wellformed_events s e db" and "unknown_contracts s e db \<noteq> []"
    and "insertNewContracts ext (map (\<lambda>address. \<lparr>ic_address = address, ic_hash = [], ic_height = 0\<rparr>) (unknown_contracts s e db)) db
      = (out, Inr db1)"
  shows "crawl_contract_event_job cfg ext db = (db1, Some TypeError) \<and>
    (\<exists>db2. crawl_contract_event_job cfg ext db1 = (db2, None) \<and> contract_event_pos cfg db2 = e)"
proof -
  note work = contract_event_work_missing [OF assms(4-6)]
  have guard: "\<not> skips (job_guard CRAWL_CONTRACT_EVENT) s e"
    using assms(3) by (simp add: skips_def CRAWL_CONTRACT_EVENT_def)
  have tbl: "block_checkpoint db1 = block_checkpoint db"
    using insertNewContracts_keeps(2) [OF assms(6)] by simp
  have first: "crawl_contract_event_job cfg ext db = (db1, Some TypeError)"
    using guard work(1) by (simp add: crawl_contract_event_job_def range_outcome_def getCheckpoint_row s_def e_def)
  obtain db2 where db2: "contract_event_work ext s e db1 = (db2, None)"
    using contract_event_work_known [OF work(2,3)] by blast
  have second: "crawl_contract_event_job cfg ext db1 = (saveCheckpoint (job_name CRAWL_CONTRACT_EVENT, e) db2, None)"
    using guard db2 by (simp add: crawl_contract_event_job_def range_outcome_def getCheckpoint_row s_def e_def tbl)
  moreover have "contract_event_pos cfg (saveCheckpoint (job_name CRAWL_CONTRACT_EVENT, e) db2) = e"
    by (simp add: job_start_eq)
  ultimately show ?thesis using first by blast
qed

theorem missing_contract_heals_witness:
  "\<exists>db1 db2. crawl_contract_event_job sample_wasm_config sample_wasm_ext (sample_event_db 2) = (db1, Some TypeError) \<and>
     crawl_contract_event_job sample_wasm_config sample_wasm_ext db1 = (db2, None) \<and>
     contract_event_pos sample_wasm_config db2 = 2"
proof -
  have range: "contract_event_pos sample_wasm_config (sample_event_db 2) = 0"
    "job_end sample_wasm_config CRAWL_CONTRACT_EVENT (block_checkpoint (sample_event_db 2)) = 2" by code_simp+
  have "wellformed_events 0 2 (sample_event_db 2)" "unknown_contracts 0 2 (sample_event_db 2) \<noteq> []" by code_simp+
  moreover have "\<not> isl (snd (insertNewContracts sample_wasm_ext
      (map (\<lambda>address. \<lparr>ic_address = address, ic_hash = [], ic_height = 0\<rparr>) (unknown_contracts 0 2 (sample_event_db 2)))
      (sample_event_db 2)))" by code_simp
  then obtain out db1 where "insertNewContracts sample_wasm_ext
      (map (\<lambda>address. \<lparr>ic_address = address, ic_hash = [], ic_height = 0\<rparr>) (unknown_contracts 0 2 (sample_event_db 2)))
      (sample_event_db 2) = (out, Inr db1)"
    by (metis prod.collapse sum.collapse(2))
  ultimately show ?thesis
    using missing_contract_heals [OF range] by simp
qed

end
