(* ===== verification/Cw721.thy ===== *)
theory Cw721
  imports Contract_Event "HOL-Library.AList"
begin

text \<open>
  The CW-721 indexer: the handler of \<^verbatim>\<open>src/services/cw721/cw721_handler.ts\<close>, which replays contract
  events over the tokens loaded from the database, and the jobs and actions of
  \<^verbatim>\<open>src/services/cw721/cw721.service.ts\<close>. Its properties and the reindexing of contracts are in the
  theories that follow. The answers of contracts are the parameter \<open>cw721_ext\<close>.
\<close>

section \<open>Rows and parameters\<close>

record cw721_contract =
  n_id :: int
  n_contract_id :: int
  n_symbol :: "string option"
  n_minter :: "string option"
  n_name :: "string option"
  n_track :: bool

text \<open>A token of the handler has no id until it is stored.\<close>

record cw721_token =
  tk_id :: "int option"
  tk_token_id :: string
  tk_media_info :: "string option"
  tk_owner :: "string option"
  tk_cw721_contract_id :: int
  tk_last_updated_height :: int
  tk_burned :: bool

text \<open>The field \<^verbatim>\<open>token_id\<close> is only there until the row is stored.\<close>

record cw721_activity =
  v_action :: string
  v_sender :: "string option"
  v_tx_hash :: string
  v_cw721_contract_id :: int
  v_cw721_token_id :: "int option"
  v_from :: "string option"
  v_to :: "string option"
  v_height :: int
  v_smart_contract_event_id :: int
  v_token_id :: "string option"

record cw721_contract_stats =
  cs_cw721_contract_id :: int
  cs_total_activity :: nat
  cs_transfer_24h :: nat

text \<open>Name, symbol and minter of a contract.\<close>

record cw721_info =
  nfo_name :: "string option"
  nfo_symbol :: "string option"
  nfo_minter :: "string option"

text \<open>
  The answers of a contract to \<open>contract_info\<close>, with name and symbol, and to \<open>minter\<close>; an answer that
  is no JSON text of the expected shape is \<open>None\<close>.
\<close>

record cw721_ext =
  query_contract_info :: "string \<Rightarrow> (string option \<times> string option) option"
  query_cw721_minter :: "string \<Rightarrow> string option"

definition cw721_contract_info :: "'x cw721_ext_scheme \<Rightarrow> string \<Rightarrow> cw721_info" where
  "cw721_contract_info ext addr =
     \<lparr>nfo_name = Option.bind (query_contract_info ext addr) fst,
      nfo_symbol = Option.bind (query_contract_info ext addr) snd, nfo_minter = query_cw721_minter ext addr\<rparr>"

record 'c cw721_db = "'c contract_event_db" +
  cw721_contracts :: "cw721_contract list"
  cw721_contract_seq :: int
  cw721_tokens :: "cw721_token list"
  cw721_token_seq :: int
  cw721_activities :: "cw721_activity list"
  cw721_stats :: "cw721_contract_stats list"

section \<open>Messages\<close>

text \<open>A contract event with the columns of the rows it is joined with.\<close>

record cw721_msg =
  m_contractAddress :: string
  m_action :: "string option"
  m_smart_contract_event_id :: int
  m_hash :: string
  m_height :: int
  m_attributes :: "event_attribute list"

definition cw721_msg_of :: "('c, 'a) contract_event_db_scheme \<Rightarrow> smart_contract_event \<Rightarrow> (int \<times> int \<times> cw721_msg) option" where
  "cw721_msg_of db se =
     (case contract_event_join db se of
        None \<Rightarrow> None
      | Some (e, t, k, c) \<Rightarrow>
          if cd_type c = Some ''CW721''
          then Some (evt_block_height e, k_id k,
            \<lparr>m_contractAddress = k_address k, m_action = se_action se, m_smart_contract_event_id = se_id se,
             m_hash = tx_hash t, m_height = tx_height t, m_attributes = se_attributes se\<rparr>)
          else None)"

text \<open>A page is the id after which it starts and the number of rows it has at most.\<close>

definition getCw721ContractEvents ::
  "int \<Rightarrow> int \<Rightarrow> int option \<Rightarrow> (int \<times> nat) option \<Rightarrow> ('c, 'a) contract_event_db_scheme \<Rightarrow> cw721_msg list"
where
  "getCw721ContractEvents startBlk endBlk smartContractId page db =
     (let rows = List.map_filter (cw721_msg_of db) (smart_contract_events db);
          inRange = filter (\<lambda>(h, k, _). in_range startBlk endBlk h \<and>
            (case smartContractId of None \<Rightarrow> True | Some i \<Rightarrow> i = 0 \<or> k = i)) rows;
          msgs = map (\<lambda>(_, _, m). m) inRange in
      case page of
        None \<Rightarrow> msgs
      | Some (prevId, limit) \<Rightarrow> take limit (filter (\<lambda>m. prevId < m_smart_contract_event_id m) msgs))"

section \<open>The handler\<close>

type_synonym cw721_dict = "(string \<times> cw721_token) list"
type_synonym cw721_state = "cw721_dict \<times> cw721_activity list"

abbreviation m_attr :: "cw721_msg \<Rightarrow> string \<Rightarrow> string option" where
  "m_attr msg key \<equiv> getAttributeFrom (m_attributes msg) key"

definition m_key :: "cw721_msg \<Rightarrow> string" where
  "m_key msg = token_key (m_contractAddress msg) (m_attr msg ''token_id'')"

definition cw721_activity_of ::
  "cw721_msg \<Rightarrow> int \<Rightarrow> string option \<Rightarrow> string option \<Rightarrow> string option \<Rightarrow> cw721_activity"
where
  "cw721_activity_of msg contractId sender src dst =
     \<lparr>v_action = coerce_string (m_action msg), v_sender = sender, v_tx_hash = m_hash msg,
      v_cw721_contract_id = contractId, v_cw721_token_id = None, v_from = src, v_to = dst,
      v_height = m_height msg, v_smart_contract_event_id = m_smart_contract_event_id msg,
      v_token_id = m_attr msg ''token_id''\<rparr>"

definition handlerCw721Transfer :: "(string \<rightharpoonup> int) \<Rightarrow> cw721_msg \<Rightarrow> cw721_state \<Rightarrow> cw721_state res" where
  "handlerCw721Transfer tracked msg st =
     (case st of (toks, acts) \<Rightarrow>
      case tracked (m_contractAddress msg) of
        None \<Rightarrow> Inr (toks, acts)
      | Some cid \<Rightarrow>
          (let recipient = m_attr msg ''recipient'';
               token = map_of toks (m_key msg);
               act = cw721_activity_of msg cid (m_attr msg ''sender'') (Option.bind token tk_owner) recipient in
           Inr (case token of
                  None \<Rightarrow> toks
                | Some t \<Rightarrow>
                    if tk_last_updated_height t \<le> m_height msg
                    then AList.update (m_key msg)
                      (t\<lparr>tk_owner := recipient, tk_last_updated_height := m_height msg\<rparr>) toks
                    else toks,
                acts @ [act])))"

definition handlerCw721Mint :: "(string \<rightharpoonup> int) \<Rightarrow> cw721_msg \<Rightarrow> cw721_state \<Rightarrow> cw721_state res" where
  "handlerCw721Mint tracked msg st =
     (case st of (toks, acts) \<Rightarrow>
      case tracked (m_contractAddress msg) of
        None \<Rightarrow> Inr (toks, acts)
      | Some cid \<Rightarrow>
          (let token = map_of toks (m_key msg);
               act = cw721_activity_of msg cid (m_attr msg ''minter'') None (m_attr msg ''owner'') in
           if (case token of None \<Rightarrow> True | Some t \<Rightarrow> tk_last_updated_height t \<le> m_height msg)
           then (case m_attr msg ''token_id'' of
                   None \<Rightarrow> Inl (ValidationError ''token_id'')
                 | Some i \<Rightarrow>
                     Inr (AList.update (m_key msg)
                       \<lparr>tk_id = Option.bind token tk_id, tk_token_id = i, tk_media_info = None,
                        tk_owner = m_attr msg ''owner'', tk_cw721_contract_id = cid,
                        tk_last_updated_height = m_height msg, tk_burned = False\<rparr> toks, acts @ [act]))
           else Inr (toks, acts @ [act])))"

text \<open>The owner is read before the token is tested.\<close>

definition handlerCw721Burn :: "(string \<rightharpoonup> int) \<Rightarrow> cw721_msg \<Rightarrow> cw721_state \<Rightarrow> cw721_state res" where
  "handlerCw721Burn tracked msg st =
     (case st of (toks, acts) \<Rightarrow>
      case tracked (m_contractAddress msg) of
        None \<Rightarrow> Inr (toks, acts)
      | Some cid \<Rightarrow>
          rbind (need (map_of toks (m_key msg))) (\<lambda>t.
            Inr (if tk_last_updated_height t \<le> m_height msg
                 then AList.update (m_key msg)
                   (t\<lparr>tk_burned := True, tk_last_updated_height := m_height msg\<rparr>) toks
                 else toks,
                 acts @ [cw721_activity_of msg cid (m_attr msg ''sender'') (tk_owner t) None])))"

definition handleCw721Others :: "(string \<rightharpoonup> int) \<Rightarrow> cw721_msg \<Rightarrow> cw721_state \<Rightarrow> cw721_state res" where
  "handleCw721Others tracked msg st =
     (case st of (toks, acts) \<Rightarrow>
      case tracked (m_contractAddress msg) of
        None \<Rightarrow> Inr (toks, acts)
      | Some cid \<Rightarrow> Inr (toks, acts @ [cw721_activity_of msg cid (m_attr msg ''sender'') None None]))"

definition cw721_process_msg :: "(string \<rightharpoonup> int) \<Rightarrow> cw721_msg \<Rightarrow> cw721_state \<Rightarrow> cw721_state res" where
  "cw721_process_msg tracked msg st =
     (if m_action msg = Some ''mint'' then handlerCw721Mint tracked msg st
      else if m_action msg = Some ''transfer_nft'' \<or> m_action msg = Some ''send_nft''
      then handlerCw721Transfer tracked msg st
      else if m_action msg = Some ''burn'' then handlerCw721Burn tracked msg st
      else handleCw721Others tracked msg st)"

definition cw721_process :: "(string \<rightharpoonup> int) \<Rightarrow> cw721_msg list \<Rightarrow> cw721_state \<Rightarrow> cw721_state res" where
  "cw721_process tracked msgs st = rfold (cw721_process_msg tracked) msgs st"

section \<open>Contracts\<close>

text \<open>The column \<^verbatim>\<open>contract_id\<close> is unique.\<close>

definition insert_cw721_contract ::
  "(int \<Rightarrow> cw721_contract) \<Rightarrow> ('c, 'a) cw721_db_scheme \<Rightarrow> ('c, 'a) cw721_db_scheme res"
where
  "insert_cw721_contract row db =
     (let new = row (cw721_contract_seq db) in
      if n_contract_id new \<in> set (map n_contract_id (cw721_contracts db))
      then Inl (DbError ''duplicate key value violates unique constraint'')
      else Inr (db\<lparr>cw721_contracts := cw721_contracts db @ [new], cw721_contract_seq := cw721_contract_seq db + 1\<rparr>))"

definition has_code_type :: "('c, 'a) wasm_db_scheme \<Rightarrow> string \<Rightarrow> smart_contract \<Rightarrow> bool" where
  "has_code_type db type k \<longleftrightarrow>
     (case find (\<lambda>c. cd_code_id c = k_code_id k) (codes db) of None \<Rightarrow> False | Some c \<Rightarrow> cd_type c = Some type)"

definition cw721_contract_of :: "cw721_info \<Rightarrow> int \<Rightarrow> int \<Rightarrow> cw721_contract" where
  "cw721_contract_of i contractId newId =
     \<lparr>n_id = newId, n_contract_id = contractId, n_symbol = nfo_symbol i, n_minter = nfo_minter i,
      n_name = nfo_name i, n_track = True\<rparr>"

definition handleInstantiateMsgs ::
  "cw721_ext \<Rightarrow> cw721_msg list \<Rightarrow> ('c, 'a) cw721_db_scheme \<Rightarrow> ('c, 'a) cw721_db_scheme res"
where
  "handleInstantiateMsgs ext msgsInstantiate db =
     (let cw721Contracts = filter (\<lambda>k. k_address k \<in> set (map m_contractAddress msgsInstantiate) \<and>
            has_code_type db ''CW721'' k) (smart_contracts db) in
      rfold insert_cw721_contract
        (map (\<lambda>k. cw721_contract_of (cw721_contract_info ext (k_address k)) (k_id k)) cw721Contracts) db)"

text \<open>\<^verbatim>\<open>withGraphJoined('smart_contract')\<close>: the address of a contract row.\<close>

definition cw721_address :: "('c, 'a) wasm_db_scheme \<Rightarrow> cw721_contract \<Rightarrow> string option" where
  "cw721_address db n = map_option k_address (find (\<lambda>k. k_id k = n_contract_id n) (smart_contracts db))"

definition getCw721TrackedContracts ::
  "string list \<Rightarrow> ('c, 'a) cw721_db_scheme \<Rightarrow> (string \<times> int) list"
where
  "getCw721TrackedContracts addresses db =
     List.map_filter (\<lambda>n. case cw721_address db n of
         None \<Rightarrow> None
       | Some a \<Rightarrow> if a \<in> set addresses \<and> n_track n then Some (a, n_id n) else None) (cw721_contracts db)"

section \<open>Tokens\<close>

definition token_address :: "('c, 'a) cw721_db_scheme \<Rightarrow> cw721_token \<Rightarrow> string option" where
  "token_address db t =
     Option.bind (find (\<lambda>n. n_id n = tk_cw721_contract_id t) (cw721_contracts db)) (cw721_address db)"

text \<open>
  \<^verbatim>\<open>whereIn(['address', 'token_id'], ...)\<close> with \<^verbatim>\<open>getAttributeFrom(...) || null\<close>: a missing or empty token
  id matches no row.
\<close>

definition load_cw721_tokens :: "cw721_msg list \<Rightarrow> ('c, 'a) cw721_db_scheme \<Rightarrow> cw721_dict" where
  "load_cw721_tokens msgs db =
     fold (\<lambda>(a, t). AList.update (token_key a (Some (tk_token_id t))) t)
       (List.map_filter (\<lambda>t. case token_address db t of
            None \<Rightarrow> None
          | Some a \<Rightarrow>
              if tk_token_id t \<noteq> [] \<and>
                 (a, Some (tk_token_id t)) \<in> set (map (\<lambda>m. (m_contractAddress m, m_attr m ''token_id'')) msgs)
              then Some (a, t) else None) (cw721_tokens db)) []"

definition handleCw721MsgExec :: "cw721_msg list \<Rightarrow> ('c, 'a) cw721_db_scheme \<Rightarrow> cw721_state res" where
  "handleCw721MsgExec msgs db =
     (let tracked = map_option snd \<circ> keyBy fst (getCw721TrackedContracts (map m_contractAddress msgs) db) in
      cw721_process tracked msgs (load_cw721_tokens msgs db, []))"

text \<open>
  \<^verbatim>\<open>insert(updatedTokens).onConflict('id').merge()\<close>: a token with an id replaces its row, a token without
  one gets the next id. A second row of a token of one contract violates the other unique key.
\<close>

definition same_cw721_token :: "cw721_token \<Rightarrow> cw721_token \<Rightarrow> bool" where
  "same_cw721_token t u \<longleftrightarrow>
     tk_token_id t = tk_token_id u \<and> tk_cw721_contract_id t = tk_cw721_contract_id u"

definition insert_cw721_token ::
  "cw721_token \<Rightarrow> ('c, 'a) cw721_db_scheme \<Rightarrow> ('c, 'a) cw721_db_scheme res"
where
  "insert_cw721_token t db =
     (if list_ex (same_cw721_token t) (cw721_tokens db)
      then Inl (DbError ''duplicate key value violates unique constraint'')
      else Inr (db\<lparr>cw721_tokens := cw721_tokens db @ [t]\<rparr>))"

definition upsert_cw721_token ::
  "cw721_token \<Rightarrow> ('c, 'a) cw721_db_scheme \<Rightarrow> (('c, 'a) cw721_db_scheme \<times> cw721_token) res"
where
  "upsert_cw721_token t db =
     (case tk_id t of
        Some i \<Rightarrow>
          if list_ex (\<lambda>u. tk_id u \<noteq> Some i \<and> same_cw721_token t u) (cw721_tokens db)
          then Inl (DbError ''duplicate key value violates unique constraint'')
          else if Some i \<in> set (map tk_id (cw721_tokens db))
          then Inr (db\<lparr>cw721_tokens := map (\<lambda>u. if tk_id u = Some i then t else u) (cw721_tokens db)\<rparr>, t)
          else rbind (insert_cw721_token t db) (\<lambda>db'. Inr (db', t))
      | None \<Rightarrow>
          (let t' = t\<lparr>tk_id := Some (cw721_token_seq db)\<rparr> in
           rbind (insert_cw721_token t' db) (\<lambda>db'.
             Inr (db'\<lparr>cw721_token_seq := cw721_token_seq db + 1\<rparr>, t'))))"

primrec upsert_cw721_tokens ::
  "cw721_token list \<Rightarrow> ('c, 'a) cw721_db_scheme \<Rightarrow> (('c, 'a) cw721_db_scheme \<times> cw721_token list) res"
where
  "upsert_cw721_tokens [] db = Inr (db, [])"
| "upsert_cw721_tokens (t # ts) db =
     rbind (upsert_cw721_token t db) (\<lambda>(db1, t').
     rbind (upsert_cw721_tokens ts db1) (\<lambda>(db2, ts'). Inr (db2, t' # ts')))"

section \<open>Activities\<close>

definition link_activity :: "cw721_token list \<Rightarrow> cw721_activity \<Rightarrow> cw721_activity" where
  "link_activity toks act =
     act\<lparr>v_cw721_token_id :=
       Option.bind (keyBy (\<lambda>t. token_key (show_int (tk_cw721_contract_id t)) (Some (tk_token_id t))) toks
         (token_key (show_int (v_cw721_contract_id act)) (v_token_id act))) tk_id\<rparr>"

text \<open>The activities are stored without the token id; an event has one activity at most.\<close>

definition insert_cw721_activity ::
  "cw721_activity \<Rightarrow> ('c, 'a) cw721_db_scheme \<Rightarrow> ('c, 'a) cw721_db_scheme res"
where
  "insert_cw721_activity act db =
     (if v_smart_contract_event_id act \<in> set (map v_smart_contract_event_id (cw721_activities db))
      then Inl (DbError ''duplicate key value violates unique constraint'')
      else Inr (db\<lparr>cw721_activities := cw721_activities db @ [act\<lparr>v_token_id := None\<rparr>]\<rparr>))"

definition updateTokenAndActivities ::
  "cw721_token list \<Rightarrow> cw721_activity list \<Rightarrow> ('c, 'a) cw721_db_scheme \<Rightarrow> ('c, 'a) cw721_db_scheme res"
where
  "updateTokenAndActivities updatedTokens acts db =
     rbind (if updatedTokens = [] then Inr (db, acts)
            else rbind (upsert_cw721_tokens updatedTokens db) (\<lambda>(db1, toks).
                   Inr (db1, map (link_activity toks) acts)))
       (\<lambda>(db1, acts1). rfold insert_cw721_activity acts1 db1)"

section \<open>The job\<close>

definition HANDLE_CW721_TRANSACTION :: job_decl where
  "HANDLE_CW721_TRANSACTION =
     \<lparr>job_name = ''handle:cw721-tx'', lastHeightJobNames = [''crawl:contract-event''],
      configName = Some ''cw721'', job_guard = SkipGE\<rparr>"

text \<open>The contracts instantiated in the range are tracked before its messages are replayed.\<close>

definition cw721_work ::
  "cw721_ext \<Rightarrow> int \<Rightarrow> int \<Rightarrow> ('c, 'a) cw721_db_scheme \<Rightarrow> ('c, 'a) cw721_db_scheme res"
where
  "cw721_work ext startBlk endBlk db =
     (let listContractMsg = getCw721ContractEvents startBlk endBlk None None db in
      if listContractMsg = [] then Inr db
      else rbind (handleInstantiateMsgs ext
                   (filter (\<lambda>msg. m_action msg = Some ''instantiate'') listContractMsg) db) (\<lambda>db1.
           rbind (handleCw721MsgExec listContractMsg db1) (\<lambda>(toks, acts).
             updateTokenAndActivities (map snd toks) acts db1)))"

definition cw721_job ::
  "config \<Rightarrow> cw721_ext \<Rightarrow> ('c, 'a) cw721_db_scheme \<Rightarrow> ('c, 'a) cw721_db_scheme res"
where
  "cw721_job cfg ext = range_job cfg HANDLE_CW721_TRANSACTION (cw721_work ext)"

definition handleRangeBlockMissingContract ::
  "int \<Rightarrow> int \<Rightarrow> int \<Rightarrow> ('c, 'a) cw721_db_scheme \<Rightarrow> ('c, 'a) cw721_db_scheme res"
where
  "handleRangeBlockMissingContract smartContractId startBlk endBlk db =
     rbind (handleCw721MsgExec (getCw721ContractEvents startBlk endBlk (Some smartContractId) None db) db)
       (\<lambda>(toks, acts). updateTokenAndActivities (map snd toks) acts db)"

section \<open>Statistics\<close>

text \<open>
  The activities of tracked contracts, except account-bound tokens: all with an action, and those
  that moved a token since the height of a day ago, without which the query is rejected.
\<close>

definition calCw721Stats :: "int option \<Rightarrow> ('c, 'a) cw721_db_scheme \<Rightarrow> cw721_contract_stats list res" where
  "calCw721Stats blockSince24hAgo db =
     (case blockSince24hAgo of
        None \<Rightarrow> Inl (JsError ''Undefined binding(s) detected'')
      | Some since \<Rightarrow>
          Inr (List.map_filter (\<lambda>n.
            let acts = filter (\<lambda>a. v_cw721_contract_id a = n_id n \<and> v_action a \<noteq> []) (cw721_activities db);
                name = Option.bind (find (\<lambda>k. k_id k = n_contract_id n) (smart_contracts db)) k_name in
            if n_track n \<and> name \<noteq> None \<and> name \<noteq> Some ''crates.io:cw4973'' \<and> acts \<noteq> []
            then Some \<lparr>cs_cw721_contract_id = n_id n, cs_total_activity = length acts,
                       cs_transfer_24h = length (filter (\<lambda>a. since \<le> v_height a \<and>
                         v_action a \<in> set [''mint'', ''burn'', ''send_nft'', ''transfer_nft'']) acts)\<rparr>
            else None) (cw721_contracts db)))"

definition upsert_cw721_stats :: "cw721_contract_stats \<Rightarrow> cw721_contract_stats list \<Rightarrow> cw721_contract_stats list" where
  "upsert_cw721_stats s tbl =
     (if cs_cw721_contract_id s \<in> set (map cs_cw721_contract_id tbl)
      then map (\<lambda>u. if cs_cw721_contract_id u = cs_cw721_contract_id s then s else u) tbl else tbl @ [s])"

definition refreshCw721Stats :: "int option \<Rightarrow> ('c, 'a) cw721_db_scheme \<Rightarrow> ('c, 'a) cw721_db_scheme res" where
  "refreshCw721Stats blockSince24hAgo db =
     rbind (calCw721Stats blockSince24hAgo db) (\<lambda>stats.
       Inr (db\<lparr>cw721_stats := fold upsert_cw721_stats stats (cw721_stats db)\<rparr>))"

end
