(* ===== verification/Cw721_Tokens.thy ===== *)
theory Cw721_Tokens
  imports Cw721
begin

text \<open>
  Properties of the CW-721 indexer. For one tracked contract, the rows of its tokens and the
  dictionary of the handler are two views of a map from token ids to owner, burn mark and height;
  the job replays the contract's messages over that map. A message is ignored by the map when the
  token is known to be newer.
\<close>

section \<open>The tokens of one contract\<close>

type_synonym nft = "string \<rightharpoonup> string option \<times> bool \<times> int"

definition nft_data :: "cw721_token \<Rightarrow> string option \<times> bool \<times> int" where
  "nft_data t = (tk_owner t, tk_burned t, tk_last_updated_height t)"

definition token_of :: "int \<Rightarrow> string \<Rightarrow> cw721_token \<Rightarrow> bool" where
  "token_of c i t \<longleftrightarrow> tk_cw721_contract_id t = c \<and> tk_token_id t = i"

definition nft_rows :: "int \<Rightarrow> cw721_token list \<Rightarrow> nft" where
  "nft_rows c tbl = (\<lambda>i. map_option nft_data (find (token_of c i) tbl))"

definition dict_nft :: "string \<Rightarrow> cw721_dict \<Rightarrow> nft" where
  "dict_nft A d = (\<lambda>i. map_option nft_data (map_of d (token_key A (Some i))))"

text \<open>What a message does to one token, if it concerns it.\<close>

definition nft_msg :: "cw721_msg \<Rightarrow> (string option \<times> bool \<times> int) option \<Rightarrow> (string option \<times> bool \<times> int) option" where
  "nft_msg msg v =
     (if m_action msg = Some ''mint'' then
        (case v of
           None \<Rightarrow> Some (m_attr msg ''owner'', False, m_height msg)
         | Some (own, b, h) \<Rightarrow> if h \<le> m_height msg then Some (m_attr msg ''owner'', False, m_height msg) else v)
      else if m_action msg = Some ''transfer_nft'' \<or> m_action msg = Some ''send_nft'' then
        map_option (\<lambda>(own, b, h). if h \<le> m_height msg then (m_attr msg ''recipient'', b, m_height msg) else (own, b, h)) v
      else if m_action msg = Some ''burn'' then
        map_option (\<lambda>(own, b, h). if h \<le> m_height msg then (own, True, m_height msg) else (own, b, h)) v
      else v)"

definition nft_step :: "string \<Rightarrow> cw721_msg \<Rightarrow> nft \<Rightarrow> nft" where
  "nft_step A msg m =
     (if m_contractAddress msg = A
      then (case m_attr msg ''token_id'' of None \<Rightarrow> m | Some i \<Rightarrow> m(i := nft_msg msg (m i)))
      else m)"

text \<open>Addresses have no separator, and the token ids of the contract are neither empty nor the word that stands for a missing id.\<close>

definition no_sep :: "string \<Rightarrow> bool" where "no_sep a \<longleftrightarrow> CHR ''_'' \<notin> set a"

definition plain_id :: "string \<Rightarrow> bool" where "plain_id i \<longleftrightarrow> i \<noteq> [] \<and> i \<noteq> ''undefined''"

definition msg_ok :: "string \<Rightarrow> cw721_msg \<Rightarrow> bool" where
  "msg_ok A msg \<longleftrightarrow> no_sep (m_contractAddress msg) \<and>
     (m_contractAddress msg = A \<longrightarrow> (case m_attr msg ''token_id'' of None \<Rightarrow> True | Some i \<Rightarrow> plain_id i))"

lemma m_key_eq:
  assumes "no_sep A" and "no_sep (m_contractAddress msg)" and "i \<noteq> ''undefined''"
  shows "m_key msg = token_key A (Some i) \<longleftrightarrow> m_contractAddress msg = A \<and> m_attr msg ''token_id'' = Some i"
proof (cases "m_attr msg ''token_id''")
  case None
  have "m_key msg = token_key (m_contractAddress msg) (Some ''undefined'')"
    by (simp add: m_key_def token_key_def None)
  with assms None show ?thesis by (simp add: token_key_inj_left no_sep_def)
next
  case (Some j)
  with assms show ?thesis by (simp add: m_key_def token_key_inj_left no_sep_def)
qed

section \<open>The handler\<close>

text \<open>What one message does to the dictionary: nothing, or an update under the message's key.\<close>

lemma cw721_process_msg_dict:
  assumes "cw721_process_msg tracked msg (d, acts) = Inr (d', acts')"
  shows "d' = d \<or> (\<exists>cid t. tracked (m_contractAddress msg) = Some cid \<and> d' = AList.update (m_key msg) t d \<and>
      ((\<exists>u. map_of d (m_key msg) = Some u \<and> tk_token_id t = tk_token_id u \<and>
          tk_cw721_contract_id t = tk_cw721_contract_id u \<and> tk_id t = tk_id u) \<or>
       m_attr msg ''token_id'' = Some (tk_token_id t) \<and> tk_cw721_contract_id t = cid \<and>
          tk_id t = Option.bind (map_of d (m_key msg)) tk_id))"
  using assms
  by (force simp: cw721_process_msg_def handlerCw721Mint_def handlerCw721Transfer_def handlerCw721Burn_def
      handleCw721Others_def rbind_eq_Inr need_eq_Inr Let_def split: if_splits option.splits)

lemma cw721_process_msg_untracked:
  "tracked (m_contractAddress msg) = None \<Longrightarrow> cw721_process_msg tracked msg st = Inr st"
  by (cases st) (simp add: cw721_process_msg_def handlerCw721Mint_def handlerCw721Transfer_def handlerCw721Burn_def
      handleCw721Others_def)

text \<open>Under its own key, the message acts as \<open>nft_msg\<close> says.\<close>

lemma cw721_process_msg_nft:
  assumes "cw721_process_msg tracked msg (d, acts) = Inr (d', acts')"
    and "tracked (m_contractAddress msg) = Some cid" and "m_attr msg ''token_id'' = Some i"
  shows "map_option nft_data (map_of d' (m_key msg)) = nft_msg msg (map_option nft_data (map_of d (m_key msg)))"
  using assms
  by (cases "map_of d (m_key msg)")
    (auto simp: cw721_process_msg_def handlerCw721Mint_def handlerCw721Transfer_def handlerCw721Burn_def
      handleCw721Others_def rbind_eq_Inr need_eq_Inr Let_def nft_msg_def nft_data_def update_conv' split: if_splits)

lemma cw721_process_msg_step:
  assumes "cw721_process_msg tracked msg (d, acts) = Inr (d', acts')"
    and "tracked A = Some c" and "msg_ok A msg" and "no_sep A" and "i \<noteq> ''undefined''"
  shows "dict_nft A d' i = nft_step A msg (dict_nft A d) i"
proof (cases "m_contractAddress msg = A \<and> m_attr msg ''token_id'' = Some i")
  case True
  then have "m_key msg = token_key A (Some i)" by (simp add: m_key_def)
  with True cw721_process_msg_nft [OF assms(1)] assms(2) show ?thesis
    by (simp add: dict_nft_def nft_step_def)
next
  case False
  then have "m_key msg \<noteq> token_key A (Some i)"
    using m_key_eq [OF assms(4) _ assms(5)] assms(3) by (auto simp: msg_ok_def)
  then have "dict_nft A d' i = dict_nft A d i"
    using cw721_process_msg_dict [OF assms(1)] by (auto simp: dict_nft_def update_conv')
  moreover have "nft_step A msg (dict_nft A d) i = dict_nft A d i"
    using False by (auto simp: nft_step_def split: option.split)
  ultimately show ?thesis by simp
qed

lemma nft_step_local: "m i = m' i \<Longrightarrow> fold (nft_step A) msgs m i = fold (nft_step A) msgs m' i"
proof (induction msgs arbitrary: m m')
  case (Cons msg msgs)
  have "nft_step A msg m i = nft_step A msg m' i"
    using Cons.prems by (auto simp: nft_step_def split: option.split)
  with Cons.IH [of "nft_step A msg m" "nft_step A msg m'"] show ?case by simp
qed simp

lemma nft_step_other:
  "(A, Some i) \<notin> set (map (\<lambda>m. (m_contractAddress m, m_attr m ''token_id'')) msgs) \<Longrightarrow>
    fold (nft_step A) msgs m i = m i"
proof (induction msgs arbitrary: m)
  case (Cons msg msgs)
  then have "nft_step A msg m i = m i" by (auto simp: nft_step_def split: option.split)
  with Cons show ?case by simp
qed simp

lemma cw721_process_nft:
  assumes "cw721_process tracked msgs (d, []) = Inr (d', acts)" and "tracked A = Some c"
    and "list_all (msg_ok A) msgs" and "no_sep A" and "i \<noteq> ''undefined''"
  shows "dict_nft A d' i = fold (nft_step A) msgs (dict_nft A d) i"
proof -
  let ?R = "\<lambda>st m. \<forall>i. i \<noteq> ''undefined'' \<longrightarrow> dict_nft A (fst st) i = m i"
  have "?R (d', acts) (fold (nft_step A) msgs (dict_nft A d))"
  proof (rule rfold_simulates [where R = ?R, OF assms(1) [unfolded cw721_process_def]])
    fix msg s s' m
    assume msg: "msg \<in> set msgs" and R: "?R s m" and run: "cw721_process_msg tracked msg s = Inr s'"
    have "msg_ok A msg" using msg assms(3) by (simp add: list_all_iff)
    with run assms(2,4) have step: "dict_nft A (fst s') i = nft_step A msg (dict_nft A (fst s)) i"
      if "i \<noteq> ''undefined''" for i
      using cw721_process_msg_step [of tracked msg "fst s" "snd s" "fst s'" "snd s'" A c i] that by simp
    show "?R s' (nft_step A msg m)"
    proof (intro allI impI)
      fix i :: string assume i: "i \<noteq> ''undefined''"
      with R nft_step_local [of "dict_nft A (fst s)" i m A "[msg]"] step show "dict_nft A (fst s') i = nft_step A msg m i"
        by simp
    qed
  qed simp
  with assms(5) show ?thesis by simp
qed

section \<open>Addresses, contracts and rows\<close>

definition addr_of :: "('c, 'a) cw721_db_scheme \<Rightarrow> int \<Rightarrow> string option" where
  "addr_of db cid = Option.bind (find (\<lambda>n. n_id n = cid) (cw721_contracts db)) (cw721_address db)"

lemma token_address_addr_of: "token_address db t = addr_of db (tk_cw721_contract_id t)"
  by (simp add: token_address_def addr_of_def)

definition addresses_ok :: "('c, 'a) cw721_db_scheme \<Rightarrow> bool" where
  "addresses_ok db \<longleftrightarrow> list_all (\<lambda>k. no_sep (k_address k)) (smart_contracts db) \<and>
     distinct (map k_id (smart_contracts db)) \<and> distinct (map n_id (cw721_contracts db)) \<and> list_all (\<lambda>n. n_id n < cw721_contract_seq db) (cw721_contracts db)"

text \<open>The contract at \<open>A\<close> has one row, it is tracked, and its code is a CW-721 code.\<close>

definition contract_row_ok :: "string \<Rightarrow> int \<Rightarrow> ('c, 'a) cw721_db_scheme \<Rightarrow> bool" where
  "contract_row_ok A c db \<longleftrightarrow>
     (\<exists>n k. n \<in> set (cw721_contracts db) \<and> n_id n = c \<and> n_track n \<and>
        find (\<lambda>k. k_id k = n_contract_id n) (smart_contracts db) = Some k \<and> k_address k = A \<and> has_code_type db ''CW721'' k) \<and>
     list_all (\<lambda>n. cw721_address db n = Some A \<longrightarrow> n_id n = c) (cw721_contracts db)"

definition token_rows_ok :: "('c, 'a) cw721_db_scheme \<Rightarrow> bool" where
  "token_rows_ok db \<longleftrightarrow> distinct (map tk_id (cw721_tokens db)) \<and>
     list_all (\<lambda>t. \<exists>j. tk_id t = Some j \<and> j < cw721_token_seq db) (cw721_tokens db) \<and>
     distinct (map (\<lambda>t. (tk_token_id t, tk_cw721_contract_id t)) (cw721_tokens db))"

lemma addr_of_no_sep: "addresses_ok db \<Longrightarrow> addr_of db cid = Some a \<Longrightarrow> no_sep a"
  by (auto simp: addr_of_def addresses_ok_def cw721_address_def list_all_iff find_Some_iff bind_eq_Some_conv)

lemma addr_of_A:
  assumes "addresses_ok db" and "contract_row_ok A c db"
  shows "addr_of db cid = Some A \<longleftrightarrow> cid = c"
proof
  assume "addr_of db cid = Some A"
  then obtain n where n: "find (\<lambda>n. n_id n = cid) (cw721_contracts db) = Some n" "cw721_address db n = Some A"
    by (auto simp: addr_of_def bind_eq_Some_conv)
  then have "n \<in> set (cw721_contracts db)" "n_id n = cid" by (auto simp: find_Some_iff)
  with n(2) assms(2) show "cid = c" by (auto simp: contract_row_ok_def list_all_iff)
next
  assume cid: "cid = c"
  from assms(2) obtain n k where n: "n \<in> set (cw721_contracts db)" "n_id n = c"
    "find (\<lambda>k. k_id k = n_contract_id n) (smart_contracts db) = Some k" "k_address k = A"
    by (auto simp: contract_row_ok_def)
  have "find (\<lambda>n. n_id n = cid) (cw721_contracts db) = Some n"
    using n(1,2) cid assms(1) by (intro find_unique) (auto simp: addresses_ok_def distinct_map dest: inj_onD)
  with n(3,4) show "addr_of db cid = Some A" by (simp add: addr_of_def cw721_address_def)
qed

lemma find_token:
  assumes "token_rows_ok db" and "t \<in> set (cw721_tokens db)" and "token_of c i t"
  shows "find (token_of c i) (cw721_tokens db) = Some t"
  using assms by (intro find_unique) (auto simp: token_rows_ok_def token_of_def distinct_map dest: inj_onD)

section \<open>Loading\<close>

abbreviation msg_pairs :: "cw721_msg list \<Rightarrow> (string \<times> string option) set" where
  "msg_pairs msgs \<equiv> set (map (\<lambda>m. (m_contractAddress m, m_attr m ''token_id'')) msgs)"

definition loaded :: "cw721_msg list \<Rightarrow> ('c, 'a) cw721_db_scheme \<Rightarrow> (string \<times> cw721_token) list" where
  "loaded msgs db = List.map_filter (\<lambda>t. case token_address db t of
      None \<Rightarrow> None
    | Some a \<Rightarrow> if tk_token_id t \<noteq> [] \<and> (a, Some (tk_token_id t)) \<in> msg_pairs msgs then Some (a, t) else None) (cw721_tokens db)"

lemma load_cw721_tokens_eq:
  "load_cw721_tokens msgs db = fold (\<lambda>(a, t). AList.update (token_key a (Some (tk_token_id t))) t) (loaded msgs db) []"
  by (simp add: load_cw721_tokens_def loaded_def)

lemma in_loaded:
  "(a, t) \<in> set (loaded msgs db) \<longleftrightarrow> t \<in> set (cw721_tokens db) \<and> addr_of db (tk_cw721_contract_id t) = Some a \<and>
    tk_token_id t \<noteq> [] \<and> (a, Some (tk_token_id t)) \<in> msg_pairs msgs"
  by (auto simp: loaded_def set_map_filter_Some token_address_addr_of split: option.splits if_splits)

text \<open>Updating one key after the other keeps keys distinct, and each entry is one of those put in.\<close>

lemma fold_update_entries:
  assumes "distinct (map fst d)"
  shows "distinct (map fst (fold (\<lambda>x. AList.update (f x) (g x)) xs d))"
    and "set (fold (\<lambda>x. AList.update (f x) (g x)) xs d) \<subseteq> set d \<union> (\<lambda>x. (f x, g x)) ` set xs"
    and "k \<in> fst ` set d \<or> k \<in> f ` set xs \<Longrightarrow> map_of (fold (\<lambda>x. AList.update (f x) (g x)) xs d) k \<noteq> None"
  using assms
proof (induction xs arbitrary: d)
  case (Cons x xs)
  { case 1
    with Cons.IH(1) [of "AList.update (f x) (g x) d"] show ?case by (simp add: distinct_update) }
  { case 2
    have "set (AList.update (f x) (g x) d) \<subseteq> insert (f x, g x) (set d)" by (induction d) auto
    with Cons.IH(2) [of "AList.update (f x) (g x) d"] 2 show ?case by (fastforce simp: distinct_update) }
  { case 3
    then show ?case using Cons.IH(3) [of "AList.update (f x) (g x) d"] by (auto simp: distinct_update dom_update) }
qed (auto simp: map_of_eq_None_iff)

text \<open>An entry of the dictionary: its key, its contract and, if it has an id, the row with that id.\<close>

definition entry_ok :: "('c, 'a) cw721_db_scheme \<Rightarrow> string \<times> cw721_token \<Rightarrow> bool" where
  "entry_ok db e \<longleftrightarrow> (\<exists>a. addr_of db (tk_cw721_contract_id (snd e)) = Some a \<and>
     fst e = token_key a (Some (tk_token_id (snd e))) \<and>
     (\<forall>j. tk_id (snd e) = Some j \<longrightarrow> (\<exists>u\<in>set (cw721_tokens db). tk_id u = Some j \<and>
        tk_token_id u = tk_token_id (snd e) \<and> addr_of db (tk_cw721_contract_id u) = Some a)))"

definition dict_wf :: "('c, 'a) cw721_db_scheme \<Rightarrow> cw721_dict \<Rightarrow> bool" where
  "dict_wf db d \<longleftrightarrow> distinct (map fst d) \<and> list_all (entry_ok db) d"

lemma load_wf: "dict_wf db (load_cw721_tokens msgs db)"
proof -
  let ?f = "\<lambda>x :: string \<times> cw721_token. token_key (fst x) (Some (tk_token_id (snd x)))"
  have eq: "load_cw721_tokens msgs db = fold (\<lambda>x. AList.update (?f x) (snd x)) (loaded msgs db) []"
    by (simp add: load_cw721_tokens_eq case_prod_unfold)
  have "entry_ok db (?f x, snd x)" if x: "x \<in> set (loaded msgs db)" for x
  proof -
    obtain a t where x': "x = (a, t)" by (cases x)
    with x have "(a, t) \<in> set (loaded msgs db)" by simp
    then show ?thesis unfolding x' in_loaded entry_ok_def by auto
  qed
  then show ?thesis
    using fold_update_entries(1,2) [of "[]" ?f snd "loaded msgs db"] unfolding eq dict_wf_def list_all_iff by fastforce
qed

lemma load_lookup:
  assumes "addresses_ok db" and "contract_row_ok A c db" and "token_rows_ok db"
  shows "map_of (load_cw721_tokens msgs db) (token_key A (Some i)) =
    (if i \<noteq> [] \<and> (A, Some i) \<in> msg_pairs msgs then find (token_of c i) (cw721_tokens db) else None)"
proof -
  let ?f = "\<lambda>x :: string \<times> cw721_token. token_key (fst x) (Some (tk_token_id (snd x)))"
  let ?d = "fold (\<lambda>x. AList.update (?f x) (snd x)) (loaded msgs db) []"
  have eq: "load_cw721_tokens msgs db = ?d" by (simp add: load_cw721_tokens_eq case_prod_unfold)
  note A = addr_of_A [OF assms(1,2)]
  have sepA: "no_sep A" using addr_of_no_sep [OF assms(1)] A by blast
  have entry: "t \<in> set (cw721_tokens db) \<and> token_of c i t \<and> i \<noteq> [] \<and> (A, Some i) \<in> msg_pairs msgs"
    if x: "(a, t) \<in> set (loaded msgs db)" and k: "token_key a (Some (tk_token_id t)) = token_key A (Some i)" for a t
  proof -
    from x have t: "t \<in> set (cw721_tokens db)" "addr_of db (tk_cw721_contract_id t) = Some a" "tk_token_id t \<noteq> []"
      "(a, Some (tk_token_id t)) \<in> msg_pairs msgs" unfolding in_loaded by blast+
    have "a = A \<and> tk_token_id t = i"
      using k sepA addr_of_no_sep [OF assms(1) t(2)] by (simp add: token_key_inj_left no_sep_def)
    with t A show ?thesis by (auto simp: token_of_def)
  qed
  show ?thesis
  proof (cases "map_of ?d (token_key A (Some i))")
    case None
    have "\<not> (i \<noteq> [] \<and> (A, Some i) \<in> msg_pairs msgs \<and> t \<in> set (cw721_tokens db) \<and> token_of c i t)" for t
    proof
      assume *: "i \<noteq> [] \<and> (A, Some i) \<in> msg_pairs msgs \<and> t \<in> set (cw721_tokens db) \<and> token_of c i t"
      then have "(A, t) \<in> set (loaded msgs db)" by (simp only: in_loaded) (auto simp: A token_of_def)
      then have "?f (A, t) \<in> ?f ` set (loaded msgs db)" by blast
      with fold_update_entries(3) [of "[]" _ ?f "loaded msgs db" snd] None * show False by (force simp: token_of_def)
    qed
    then have "find (token_of c i) (cw721_tokens db) = None" if "i \<noteq> [] \<and> (A, Some i) \<in> msg_pairs msgs"
      using that unfolding find_None_iff by blast
    with None eq show ?thesis by (simp del: set_map)
  next
    case (Some t)
    then have "(token_key A (Some i), t) \<in> set ?d" by (rule map_of_SomeD)
    then obtain x where "x \<in> set (loaded msgs db)" "?f x = token_key A (Some i)" "snd x = t"
      using fold_update_entries(2) [of "[]" ?f snd "loaded msgs db"] by auto
    then have "t \<in> set (cw721_tokens db) \<and> token_of c i t \<and> i \<noteq> [] \<and> (A, Some i) \<in> msg_pairs msgs"
      using entry [of "fst x" t] by auto
    with Some eq find_token [OF assms(3)] show ?thesis by auto
  qed
qed

section \<open>The dictionary stays well-formed\<close>

definition tracked_ok :: "('c, 'a) cw721_db_scheme \<Rightarrow> (string \<rightharpoonup> int) \<Rightarrow> bool" where
  "tracked_ok db tracked \<longleftrightarrow> (\<forall>a cid. tracked a = Some cid \<longrightarrow> addr_of db cid = Some a)"

lemma dict_wf_update:
  "dict_wf db d \<Longrightarrow> entry_ok db (k, t) \<Longrightarrow> dict_wf db (AList.update k t d)"
proof -
  have "set (AList.update k t d) \<subseteq> insert (k, t) (set d)" by (induction d) auto
  then show "dict_wf db d \<Longrightarrow> entry_ok db (k, t) \<Longrightarrow> dict_wf db (AList.update k t d)"
    by (auto simp: dict_wf_def list_all_iff distinct_update)
qed

lemma cw721_process_msg_wf:
  assumes "cw721_process_msg tracked msg (d, acts) = Inr (d', acts')"
    and "dict_wf db d" and "tracked_ok db tracked" and "addresses_ok db" and "no_sep (m_contractAddress msg)"
  shows "dict_wf db d'"
  using cw721_process_msg_dict [OF assms(1)]
proof (elim disjE exE conjE)
  fix cid t
  assume cid: "tracked (m_contractAddress msg) = Some cid" and d': "d' = AList.update (m_key msg) t d"
  have addr: "addr_of db cid = Some (m_contractAddress msg)" using cid assms(3) by (simp add: tracked_ok_def)
  {
    fix u assume "map_of d (m_key msg) = Some u" "tk_token_id t = tk_token_id u"
      "tk_cw721_contract_id t = tk_cw721_contract_id u" "tk_id t = tk_id u"
    moreover from this(1) have "entry_ok db (m_key msg, u)"
      using assms(2) by (auto simp: dict_wf_def list_all_iff dest: map_of_SomeD)
    ultimately have "entry_ok db (m_key msg, t)" by (simp add: entry_ok_def)
    with d' assms(2) show "dict_wf db d'" by (simp add: dict_wf_update)
  }
  {
    assume mint: "m_attr msg ''token_id'' = Some (tk_token_id t)" "tk_cw721_contract_id t = cid"
      "tk_id t = Option.bind (map_of d (m_key msg)) tk_id"
    have key: "m_key msg = token_key (m_contractAddress msg) (Some (tk_token_id t))"
      by (simp add: m_key_def mint(1))
    have "\<exists>u\<in>set (cw721_tokens db). tk_id u = Some j \<and> tk_token_id u = tk_token_id t \<and>
        addr_of db (tk_cw721_contract_id u) = Some (m_contractAddress msg)" if "tk_id t = Some j" for j
    proof -
      from that mint(3) obtain v where v: "map_of d (m_key msg) = Some v" "tk_id v = Some j"
        by (auto simp: bind_eq_Some_conv)
      then have "entry_ok db (m_key msg, v)"
        using assms(2) by (auto simp: dict_wf_def list_all_iff dest: map_of_SomeD)
      then obtain a u where a: "addr_of db (tk_cw721_contract_id v) = Some a" "m_key msg = token_key a (Some (tk_token_id v))"
        and u: "u \<in> set (cw721_tokens db)" "tk_id u = Some j" "tk_token_id u = tk_token_id v"
          "addr_of db (tk_cw721_contract_id u) = Some a"
        using v(2) by (auto simp: entry_ok_def)
      have "a = m_contractAddress msg \<and> tk_token_id v = tk_token_id t"
        using a(2) key addr_of_no_sep [OF assms(4) a(1)] assms(5) by (simp add: token_key_inj_left no_sep_def)
      with u show ?thesis by auto
    qed
    then have "entry_ok db (m_key msg, t)" using addr mint(2) key by (simp add: entry_ok_def)
    with d' assms(2) show "dict_wf db d'" by (simp add: dict_wf_update)
  }
qed (use assms(2) in simp)

lemma cw721_process_wf:
  assumes "cw721_process tracked msgs (d, []) = Inr (d', acts)" and "dict_wf db d"
    and "tracked_ok db tracked" and "addresses_ok db" and "list_all (msg_ok A) msgs"
  shows "dict_wf db d'"
proof -
  have "dict_wf db (fst (d', acts))"
  proof (rule rfold_invariant [where I = "\<lambda>st. dict_wf db (fst st)", OF assms(1) [unfolded cw721_process_def]])
    fix msg s s'
    assume "msg \<in> set msgs" "dict_wf db (fst s)" "cw721_process_msg tracked msg s = Inr s'"
    with assms(3-5) cw721_process_msg_wf [of tracked msg "fst s" "snd s" "fst s'" "snd s'" db]
    show "dict_wf db (fst s')" by (simp add: list_all_iff msg_ok_def)
  qed (use assms(2) in simp)
  then show ?thesis by simp
qed

section \<open>Storing\<close>

text \<open>The row that a token with an id replaces is a row of the same token.\<close>

definition replaces_ok :: "int \<Rightarrow> ('c, 'a) cw721_db_scheme \<Rightarrow> cw721_token \<Rightarrow> bool" where
  "replaces_ok c db t \<longleftrightarrow> (\<forall>j. tk_id t = Some j \<longrightarrow> (\<exists>u\<in>set (cw721_tokens db). tk_id u = Some j \<and>
     tk_token_id u = tk_token_id t \<and> (tk_cw721_contract_id u = c \<longleftrightarrow> tk_cw721_contract_id t = c)))"

lemma distinct_map_replace:
  assumes "distinct (map f xs)" and "\<And>x. x \<in> set xs \<Longrightarrow> P x \<Longrightarrow> f y = f x \<or> f y \<notin> f ` set xs"
    and "\<And>x x'. x \<in> set xs \<Longrightarrow> x' \<in> set xs \<Longrightarrow> P x \<Longrightarrow> P x' \<Longrightarrow> x = x'"
  shows "distinct (map f (map (\<lambda>x. if P x then y else x) xs))"
  using assms
proof (induction xs)
  case (Cons a xs)
  have IH: "distinct (map f (map (\<lambda>x. if P x then y else x) xs))"
  proof (rule Cons.IH)
    show "distinct (map f xs)" using Cons.prems(1) by simp
    show "f y = f x \<or> f y \<notin> f ` set xs" if "x \<in> set xs" "P x" for x
      using Cons.prems(2) [of x] that by auto
    show "x = x'" if "x \<in> set xs" "x' \<in> set xs" "P x" "P x'" for x x'
      using Cons.prems(3) that by auto
  qed
  show ?case
  proof (cases "P a")
    case True
    have "\<not> P x" if "x \<in> set xs" for x
      using Cons.prems(1,3) True that by (metis distinct.simps(2) imageI list.set_intros list.simps(9) set_map)
    then have "map (\<lambda>x. if P x then y else x) xs = xs" by (simp cong: map_cong)
    moreover have "f y \<notin> f ` set xs" using Cons.prems(1) Cons.prems(2) [of a] True by auto
    ultimately show ?thesis using True Cons.prems(1) by simp
  next
    case False
    have "f a \<noteq> f y" if "x \<in> set xs" "P x" for x
      using Cons.prems(1) Cons.prems(2) [of x] that by auto
    with False IH Cons.prems(1) show ?thesis by (auto split: if_splits)
  qed
qed simp

lemma upsert_keeps:
  assumes "upsert_cw721_token t db = Inr (db', t')"
  shows "cw721_contracts db' = cw721_contracts db" "smart_contracts db' = smart_contracts db"
    "cw721_activities db' = cw721_activities db" "block_checkpoint db' = block_checkpoint db"
    "cw721_contract_seq db' = cw721_contract_seq db" "codes db' = codes db" "event_table db' = event_table db"
    "transaction_table db' = transaction_table db" "smart_contract_events db' = smart_contract_events db"
  using assms
  by (auto simp: upsert_cw721_token_def insert_cw721_token_def Let_def rbind_eq_Inr split: option.splits if_splits)

lemma upsert_fresh:
  assumes "insert_cw721_token t db = Inr db'"
  shows "\<forall>u\<in>set (cw721_tokens db). \<not> same_cw721_token t u" "db' = db\<lparr>cw721_tokens := cw721_tokens db @ [t]\<rparr>"
  using assms by (auto simp: insert_cw721_token_def list_ex_iff split: if_splits)

lemma upsert_cw721_token_effect:
  assumes "upsert_cw721_token t db = Inr (db', t')" and "token_rows_ok db" and "replaces_ok c db t"
  shows "token_rows_ok db'"
    and "nft_rows c (cw721_tokens db') i = (if token_of c i t then Some (nft_data t) else nft_rows c (cw721_tokens db) i)"
    and "u \<in> set (cw721_tokens db) \<Longrightarrow> tk_id u \<noteq> tk_id t \<Longrightarrow> u \<in> set (cw721_tokens db')"
proof -
  have "token_rows_ok db' \<and>
    nft_rows c (cw721_tokens db') i = (if token_of c i t then Some (nft_data t) else nft_rows c (cw721_tokens db) i) \<and>
    (u \<in> set (cw721_tokens db) \<longrightarrow> tk_id u \<noteq> tk_id t \<longrightarrow> u \<in> set (cw721_tokens db'))"
  proof (cases "tk_id t")
    case None
    let ?t = "t\<lparr>tk_id := Some (cw721_token_seq db)\<rparr>"
    from assms(1) None obtain db1 where db1: "insert_cw721_token ?t db = Inr db1"
      and db': "db' = db1\<lparr>cw721_token_seq := cw721_token_seq db + 1\<rparr>"
      by (auto simp: upsert_cw721_token_def Let_def rbind_eq_Inr)
    note fresh = upsert_fresh [OF db1]
    have "token_rows_ok db'"
      using assms(2) fresh by (fastforce simp: token_rows_ok_def db' list_all_iff same_cw721_token_def)
    moreover have "nft_rows c (cw721_tokens db') i =
        (if token_of c i t then Some (nft_data t) else nft_rows c (cw721_tokens db) i)"
    proof (cases "token_of c i t")
      case True
      then have "find (token_of c i) (cw721_tokens db) = None"
        using fresh(1) by (auto simp: find_None_iff same_cw721_token_def token_of_def)
      with True fresh(2) show ?thesis by (simp add: nft_rows_def db' find_append token_of_def nft_data_def)
    next
      case False
      then have "\<not> token_of c i ?t" by (simp add: token_of_def)
      with False fresh(2) show ?thesis by (simp add: nft_rows_def db' find_append_left)
    qed
    ultimately show ?thesis using fresh(2) by (simp add: db')
  next
    case (Some j)
    with assms(3) obtain v where v: "v \<in> set (cw721_tokens db)" "tk_id v = Some j" "tk_token_id v = tk_token_id t"
      "tk_cw721_contract_id v = c \<longleftrightarrow> tk_cw721_contract_id t = c"
      by (auto simp: replaces_ok_def)
    then have "Some j \<in> set (map tk_id (cw721_tokens db))" by (metis image_eqI set_map)
    with assms(1) Some have db': "db' = db\<lparr>cw721_tokens := map (\<lambda>u. if tk_id u = Some j then t else u) (cw721_tokens db)\<rparr>"
      and clash: "\<forall>u\<in>set (cw721_tokens db). tk_id u = Some j \<or> \<not> same_cw721_token t u"
      by (auto simp: upsert_cw721_token_def list_ex_iff split: if_splits)
    have one: "u = v" if "u \<in> set (cw721_tokens db)" "tk_id u = Some j" for u
    proof -
      have "inj_on tk_id (set (cw721_tokens db))" using assms(2) by (simp add: token_rows_ok_def distinct_map)
      with that v(1,2) show ?thesis by (metis inj_onD)
    qed
    have toks': "cw721_tokens db' = map (\<lambda>u. if tk_id u = Some j then t else u) (cw721_tokens db)" by (simp add: db')
    have ids: "map tk_id (cw721_tokens db') = map tk_id (cw721_tokens db)" using Some by (simp add: db')
    have "distinct (map (\<lambda>t. (tk_token_id t, tk_cw721_contract_id t)) (cw721_tokens db'))"
      unfolding toks'
    proof (rule distinct_map_replace)
      fix x assume x: "x \<in> set (cw721_tokens db)" "tk_id x = Some j"
      show "(tk_token_id t, tk_cw721_contract_id t) = (tk_token_id x, tk_cw721_contract_id x) \<or>
        (tk_token_id t, tk_cw721_contract_id t) \<notin> (\<lambda>t. (tk_token_id t, tk_cw721_contract_id t)) ` set (cw721_tokens db)"
      proof (rule disjCI, drule notnotD, simp only: prod.inject)
        assume "(tk_token_id t, tk_cw721_contract_id t) \<in> (\<lambda>t. (tk_token_id t, tk_cw721_contract_id t)) ` set (cw721_tokens db)"
        then obtain u where "u \<in> set (cw721_tokens db)" "same_cw721_token t u" by (auto simp: same_cw721_token_def)
        with clash have "u = x" using one x by metis
        with \<open>same_cw721_token t u\<close> show "tk_token_id t = tk_token_id x \<and> tk_cw721_contract_id t = tk_cw721_contract_id x"
          by (simp add: same_cw721_token_def)
      qed
    qed (use assms(2) one in \<open>auto simp: token_rows_ok_def\<close>)
    moreover have "list_all (\<lambda>t. \<exists>j. tk_id t = Some j \<and> j < cw721_token_seq db) (cw721_tokens db')"
    proof -
      have "list_all (\<lambda>o1. \<exists>j. o1 = Some j \<and> j < cw721_token_seq db) (map tk_id (cw721_tokens db))"
        using assms(2) by (auto simp: token_rows_ok_def list_all_iff)
      then have "list_all (\<lambda>o1. \<exists>j. o1 = Some j \<and> j < cw721_token_seq db) (map tk_id (cw721_tokens db'))"
        by (simp only: ids)
      then show ?thesis by (auto simp: list_all_iff)
    qed
    ultimately have ok: "token_rows_ok db'"
      using assms(2) by (simp add: token_rows_ok_def ids) (simp add: db')
    have vt: "token_of c i v \<longleftrightarrow> token_of c i t" using v(3,4) by (auto simp: token_of_def)
    have "nft_rows c (cw721_tokens db') i =
        (if token_of c i t then Some (nft_data t) else nft_rows c (cw721_tokens db) i)"
    proof (cases "token_of c i t")
      case True
      have "t \<in> set (cw721_tokens db')" using v(1,2) by (force simp: db')
      with find_token [OF ok _ True] True show ?thesis by (simp add: nft_rows_def)
    next
      case False
      have "find (token_of c i) (map (\<lambda>u. if tk_id u = Some j then t else u) xs) = find (token_of c i) xs"
        if "set xs \<subseteq> set (cw721_tokens db)" for xs
        using that False vt one by (induction xs) auto
      with False show ?thesis by (simp add: nft_rows_def db')
    qed
    with ok Some show ?thesis by (auto simp: db')
  qed
  then show "token_rows_ok db'"
    and "nft_rows c (cw721_tokens db') i = (if token_of c i t then Some (nft_data t) else nft_rows c (cw721_tokens db) i)"
    and "u \<in> set (cw721_tokens db) \<Longrightarrow> tk_id u \<noteq> tk_id t \<Longrightarrow> u \<in> set (cw721_tokens db')"
    by blast+
qed

lemma upsert_cw721_tokens_keeps:
  assumes "upsert_cw721_tokens ts db = Inr (db', ts')"
  shows "cw721_contracts db' = cw721_contracts db" "smart_contracts db' = smart_contracts db"
    "cw721_activities db' = cw721_activities db" "block_checkpoint db' = block_checkpoint db"
    "cw721_contract_seq db' = cw721_contract_seq db" "codes db' = codes db" "event_table db' = event_table db"
    "transaction_table db' = transaction_table db" "smart_contract_events db' = smart_contract_events db"
proof -
  have "cw721_contracts db' = cw721_contracts db \<and> smart_contracts db' = smart_contracts db \<and>
    cw721_activities db' = cw721_activities db \<and> block_checkpoint db' = block_checkpoint db \<and>
    cw721_contract_seq db' = cw721_contract_seq db \<and> codes db' = codes db \<and> event_table db' = event_table db \<and>
    transaction_table db' = transaction_table db \<and> smart_contract_events db' = smart_contract_events db"
    using assms
  proof (induction ts arbitrary: db ts')
    case (Cons t ts)
    then obtain db1 t1 ts1 where "upsert_cw721_token t db = Inr (db1, t1)" "upsert_cw721_tokens ts db1 = Inr (db', ts1)"
      by (auto simp: rbind_eq_Inr)
    with Cons.IH upsert_keeps [of t db db1 t1] show ?case by simp
  qed simp
  then show "cw721_contracts db' = cw721_contracts db" "smart_contracts db' = smart_contracts db"
    "cw721_activities db' = cw721_activities db" "block_checkpoint db' = block_checkpoint db"
    "cw721_contract_seq db' = cw721_contract_seq db" "codes db' = codes db" "event_table db' = event_table db"
    "transaction_table db' = transaction_table db" "smart_contract_events db' = smart_contract_events db"
    by blast+
qed

lemma upsert_cw721_tokens_effect:
  assumes "upsert_cw721_tokens ts db = Inr (db', ts')" and "token_rows_ok db"
    and "list_all (replaces_ok c db) ts" and "distinct (filter (\<lambda>o1. o1 \<noteq> None) (map tk_id ts))"
  shows "token_rows_ok db' \<and> nft_rows c (cw721_tokens db') i =
    (case find (token_of c i) (rev ts) of Some t \<Rightarrow> Some (nft_data t) | None \<Rightarrow> nft_rows c (cw721_tokens db) i)"
  using assms
proof (induction ts arbitrary: db ts')
  case (Cons t ts)
  then obtain db1 t1 ts1 where one: "upsert_cw721_token t db = Inr (db1, t1)"
    and rest: "upsert_cw721_tokens ts db1 = Inr (db', ts1)" by (auto simp: rbind_eq_Inr)
  have t: "replaces_ok c db t" using Cons.prems(3) by simp
  note eff = upsert_cw721_token_effect [OF one Cons.prems(2) t]
  have "replaces_ok c db1 s" if "s \<in> set ts" for s
    unfolding replaces_ok_def
  proof (intro allI impI)
    fix j assume j: "tk_id s = Some j"
    have "replaces_ok c db s" using Cons.prems(3) that by (simp add: list_all_iff)
    with j obtain u where u: "u \<in> set (cw721_tokens db)" "tk_id u = Some j" "tk_token_id u = tk_token_id s"
      "tk_cw721_contract_id u = c \<longleftrightarrow> tk_cw721_contract_id s = c"
      unfolding replaces_ok_def by blast
    have "tk_id t \<noteq> Some j"
    proof
      assume "tk_id t = Some j"
      then have "Some j \<notin> set (map tk_id ts)" using Cons.prems(4) by auto
      with that j show False by (metis image_eqI set_map)
    qed
    with u eff(3) [of u] show "\<exists>u\<in>set (cw721_tokens db1). tk_id u = Some j \<and> tk_token_id u = tk_token_id s \<and>
        (tk_cw721_contract_id u = c \<longleftrightarrow> tk_cw721_contract_id s = c)" by metis
  qed
  then have "list_all (replaces_ok c db1) ts" by (simp add: list_all_iff)
  with Cons.IH [OF rest eff(1)] Cons.prems(4) eff(2) show ?case
    by (auto simp: find_append split: option.splits if_splits)
qed simp

text \<open>The entries of a well-formed dictionary meet the conditions of the upsert.\<close>

lemma dict_wf_upsert:
  assumes "dict_wf db d" and "addresses_ok db" and "contract_row_ok A c db" and "token_rows_ok db"
  shows "list_all (replaces_ok c db) (map snd d)"
    and "distinct (filter (\<lambda>o1. o1 \<noteq> None) (map tk_id (map snd d)))"
    and "map_option nft_data (find (token_of c i) (rev (map snd d))) = dict_nft A d i"
proof -
  note A = addr_of_A [OF assms(2,3)]
  have entry: "entry_ok db (k, t)" if "(k, t) \<in> set d" for k t
    using that assms(1) by (auto simp: dict_wf_def list_all_iff)
  show "list_all (replaces_ok c db) (map snd d)"
    unfolding list_all_iff
  proof (rule ballI)
    fix t assume "t \<in> set (map snd d)"
    then obtain k where "(k, t) \<in> set d" by auto
    with entry have e: "entry_ok db (k, t)" by blast
    show "replaces_ok c db t" unfolding replaces_ok_def
    proof (intro allI impI)
      fix j assume "tk_id t = Some j"
      with e obtain a u where "addr_of db (tk_cw721_contract_id t) = Some a" and u: "u \<in> set (cw721_tokens db)" "tk_id u = Some j"
        "tk_token_id u = tk_token_id t" "addr_of db (tk_cw721_contract_id u) = Some a" by (auto simp: entry_ok_def)
      then have "tk_cw721_contract_id u = c \<longleftrightarrow> tk_cw721_contract_id t = c" using A by (metis option.inject)
      with u show "\<exists>u\<in>set (cw721_tokens db). tk_id u = Some j \<and> tk_token_id u = tk_token_id t \<and>
          (tk_cw721_contract_id u = c \<longleftrightarrow> tk_cw721_contract_id t = c)" by blast
    qed
  qed
  have same: "k = k'" if "(k, t) \<in> set d" "(k', t') \<in> set d" "tk_id t = Some j" "tk_id t' = Some j" for k t k' t' j
  proof -
    from entry [OF that(1)] that(3) obtain a u where u: "k = token_key a (Some (tk_token_id t))" "u \<in> set (cw721_tokens db)"
      "tk_id u = Some j" "tk_token_id u = tk_token_id t" "addr_of db (tk_cw721_contract_id u) = Some a"
      by (auto simp: entry_ok_def)
    from entry [OF that(2)] that(4) obtain a' u' where u': "k' = token_key a' (Some (tk_token_id t'))" "u' \<in> set (cw721_tokens db)"
      "tk_id u' = Some j" "tk_token_id u' = tk_token_id t'" "addr_of db (tk_cw721_contract_id u') = Some a'"
      by (auto simp: entry_ok_def)
    have "inj_on tk_id (set (cw721_tokens db))" using assms(4) by (simp add: token_rows_ok_def distinct_map)
    then have "u = u'" using u(2,3) u'(2,3) by (metis inj_onD)
    with u u' show ?thesis by simp
  qed
  have "distinct (filter (\<lambda>o1. o1 \<noteq> None) (map tk_id (map snd xs)))" if "distinct (map fst xs)" "set xs \<subseteq> set d" for xs
    using that
  proof (induction xs)
    case (Cons x xs)
    obtain k t where x: "x = (k, t)" by (cases x)
    have "tk_id t \<notin> set (map tk_id (map snd xs))" if "tk_id t \<noteq> None"
    proof
      assume "tk_id t \<in> set (map tk_id (map snd xs))"
      then obtain k' t' where "(k', t') \<in> set xs" "tk_id t' = tk_id t" by auto
      with same [of k t k' t'] that Cons.prems x have "k = k'" "k' \<in> set (map fst xs)" by force+
      with Cons.prems(1) x show False by simp
    qed
    with Cons x show ?case by (auto simp del: set_map)
  qed simp
  with assms(1) show "distinct (filter (\<lambda>o1. o1 \<noteq> None) (map tk_id (map snd d)))" by (simp add: dict_wf_def)
  have dist: "distinct (map fst d)" using assms(1) by (simp add: dict_wf_def)
  have hit: "map_of d (token_key A (Some i)) = Some t" if t: "t \<in> set (map snd d)" "token_of c i t" for t
  proof -
    from t obtain k where k: "(k, t) \<in> set d" by auto
    from entry [OF k] obtain a where "addr_of db (tk_cw721_contract_id t) = Some a" "k = token_key a (Some (tk_token_id t))"
      by (auto simp: entry_ok_def)
    moreover from this(1) t(2) A [of "tk_cw721_contract_id t"] have "a = A" by (simp add: token_of_def)
    ultimately have "k = token_key A (Some i)" using t(2) by (simp add: token_of_def)
    with k dist show ?thesis by simp
  qed
  show "map_option nft_data (find (token_of c i) (rev (map snd d))) = dict_nft A d i"
  proof (cases "map_of d (token_key A (Some i))")
    case None
    then have "find (token_of c i) (rev (map snd d)) = None" using hit by (auto simp: find_None_iff)
    with None show ?thesis by (simp add: dict_nft_def)
  next
    case (Some t)
    then have td: "(token_key A (Some i), t) \<in> set d" by (rule map_of_SomeD)
    from entry [OF this] obtain a where a: "addr_of db (tk_cw721_contract_id t) = Some a"
      "token_key A (Some i) = token_key a (Some (tk_token_id t))" by (auto simp: entry_ok_def)
    moreover have "no_sep A" "no_sep a" using addr_of_no_sep [OF assms(2)] A a(1) by blast+
    ultimately have tt: "token_of c i t" using A by (auto simp: token_key_inj_left no_sep_def token_of_def)
    have ts: "t \<in> set (rev (map snd d))" using td by force
    have "find (token_of c i) (rev (map snd d)) = Some t"
    proof (rule find_unique [where P = "token_of c i", OF ts tt])
      fix y assume "y \<in> set (rev (map snd d))" "token_of c i y"
      with hit [of y] Some show "y = t" by simp
    qed
    with Some show ?thesis by (simp add: dict_nft_def)
  qed
qed

section \<open>Contracts instantiated in a range\<close>

primrec number_from :: "int \<Rightarrow> (int \<Rightarrow> 'r) list \<Rightarrow> 'r list" where
  "number_from n [] = []"
| "number_from n (f # fs) = f n # number_from (n + 1) fs"

lemma insert_cw721_contracts:
  assumes "rfold insert_cw721_contract rows db = Inr db'"
  shows "db' = db\<lparr>cw721_contracts := cw721_contracts db @ number_from (cw721_contract_seq db) rows,
      cw721_contract_seq := cw721_contract_seq db + int (length rows)\<rparr> \<and>
    (\<forall>n\<in>set (number_from (cw721_contract_seq db) rows). n_contract_id n \<notin> n_contract_id ` set (cw721_contracts db))"
  using assms
proof (induction rows arbitrary: db)
  case (Cons f rows)
  let ?n = "f (cw721_contract_seq db)"
  from Cons.prems(1) obtain db1 where ins: "insert_cw721_contract f db = Inr db1"
    and rest: "rfold insert_cw721_contract rows db1 = Inr db'" by (auto simp: rbind_eq_Inr)
  from ins have db1: "db1 = db\<lparr>cw721_contracts := cw721_contracts db @ [?n], cw721_contract_seq := cw721_contract_seq db + 1\<rparr>"
    and fresh: "n_contract_id ?n \<notin> n_contract_id ` set (cw721_contracts db)"
    by (auto simp: insert_cw721_contract_def Let_def split: if_splits)
  from Cons.IH [OF rest] fresh show ?case by (simp add: db1)
qed simp

lemma number_from_range:
  "\<forall>f\<in>set rows. \<forall>i. n_id (f i) = i \<Longrightarrow>
    \<forall>x\<in>set (number_from m rows). m \<le> n_id x \<and> n_id x < m + int (length rows)"
proof (induction rows arbitrary: m)
  case (Cons f rows)
  then show ?case using Cons.IH [of "m + 1"] by force
qed simp

lemma number_from_distinct:
  "\<forall>f\<in>set rows. \<forall>i. n_id (f i) = i \<Longrightarrow> distinct (map n_id (number_from m rows))"
proof (induction rows arbitrary: m)
  case (Cons f rows)
  then show ?case using number_from_range [of rows "m + 1"] by force
qed simp

lemma number_from_contract_ids:
  "\<forall>f\<in>set rows. \<forall>i. n_contract_id (f i) = g f \<Longrightarrow> n_contract_id ` set (number_from m rows) = g ` set rows"
  by (induction rows arbitrary: m) auto

lemma handleInstantiateMsgs_ok:
  fixes db db' :: "('c, 'a) cw721_db_scheme"
  assumes "handleInstantiateMsgs ext ms db = Inr db'" and "addresses_ok db" and "contract_row_ok A c db"
  shows "addresses_ok db'" "contract_row_ok A c db'"
proof -
  let ?ks = "filter (\<lambda>k. k_address k \<in> set (map m_contractAddress ms) \<and> has_code_type db ''CW721'' k) (smart_contracts db)"
  let ?row = "\<lambda>k. cw721_contract_of (cw721_contract_info ext (k_address k)) (k_id k)"
  let ?new = "number_from (cw721_contract_seq db) (map ?row ?ks)"
  have "rfold insert_cw721_contract (map ?row ?ks) db = Inr db'"
    using assms(1) by (simp only: handleInstantiateMsgs_def Let_def)
  note ins = insert_cw721_contracts [OF this]
  have db': "cw721_contracts db' = cw721_contracts db @ ?new" "smart_contracts db' = smart_contracts db" "codes db' = codes db"
    "cw721_contract_seq db' = cw721_contract_seq db + int (length (map ?row ?ks))"
    using ins by simp_all
  have fresh: "n_contract_id n \<notin> n_contract_id ` set (cw721_contracts db)" if "n \<in> set ?new" for n
    using ins that by blast
  have ids: "\<forall>f\<in>set (map ?row ?ks). \<forall>i. n_id (f i) = i" by (simp add: cw721_contract_of_def)
  have cids: "n_contract_id ` set ?new = k_id ` set ?ks"
    using number_from_contract_ids [of "map ?row ?ks" "\<lambda>f. n_contract_id (f 0)"]
    by (simp add: cw721_contract_of_def image_image del: set_filter)
  have addresses: "addresses_ok d'" if "cw721_contracts d' = cw721_contracts db @ new" "smart_contracts d' = smart_contracts db"
      "cw721_contract_seq d' = cw721_contract_seq db + m" "0 \<le> m" "distinct (map n_id new)"
      "\<forall>x\<in>set new. cw721_contract_seq db \<le> n_id x \<and> n_id x < cw721_contract_seq db + m"
    for d' :: "('c, 'a) cw721_db_scheme" and new m
  proof -
    have old: "\<forall>x\<in>set (cw721_contracts db). n_id x < cw721_contract_seq db"
      using assms(2) by (simp add: addresses_ok_def list_all_iff)
    have "n_id ` set (cw721_contracts db) \<inter> n_id ` set new = {}"
      using old that(6) by force
    moreover have "\<forall>x\<in>set (cw721_contracts db). n_id x < cw721_contract_seq db + m"
      using old that(4) by force
    ultimately show ?thesis
      using assms(2) that(5,6) by (simp add: addresses_ok_def that(1-3) list_all_iff ball_Un)
  qed
  show "addresses_ok db'"
    by (rule addresses [OF db'(1,2,4) _ number_from_distinct [OF ids] number_from_range [OF ids]]) simp
  from assms(3) obtain n k where n: "n \<in> set (cw721_contracts db)" "n_id n = c" "n_track n"
    "find (\<lambda>k. k_id k = n_contract_id n) (smart_contracts db) = Some k" "k_address k = A" "has_code_type db ''CW721'' k"
    and only: "\<forall>m\<in>set (cw721_contracts db). cw721_address db m = Some A \<longrightarrow> n_id m = c"
    by (auto simp: contract_row_ok_def list_all_iff)
  have k: "k \<in> set (smart_contracts db)" "k_id k = n_contract_id n" using n(4) by (auto simp: find_Some_iff)
  have addr: "cw721_address db' m = cw721_address db m" for m by (simp add: cw721_address_def db')
  have not_A: "cw721_address db m \<noteq> Some A" if m: "m \<in> set ?new" for m
  proof
    assume A: "cw721_address db m = Some A"
    from m have "n_contract_id m \<in> k_id ` set ?ks" unfolding cids [symmetric] by (rule imageI)
    then obtain q where q: "q \<in> set ?ks" "k_id q = n_contract_id m" by (elim imageE) simp
    have "find (\<lambda>k. k_id k = n_contract_id m) (smart_contracts db) = Some q"
      using q assms(2) by (intro find_by_key) (auto simp: addresses_ok_def)
    with A have "k_address q = A" by (simp add: cw721_address_def)
    with q(1) n(5,6) k(1) have "k \<in> set ?ks" by simp
    then have "k_id k \<in> n_contract_id ` set ?new" unfolding cids by (rule imageI)
    then obtain m' where m': "m' \<in> set ?new" "n_contract_id m' = n_contract_id n" using k(2) by (elim imageE) simp
    from fresh [OF m'(1)] n(1) show False unfolding m'(2) by blast
  qed
  show "contract_row_ok A c db'"
    unfolding contract_row_ok_def list_all_iff
  proof (intro conjI)
    show "\<exists>n k. n \<in> set (cw721_contracts db') \<and> n_id n = c \<and> n_track n \<and>
        find (\<lambda>k. k_id k = n_contract_id n) (smart_contracts db') = Some k \<and> k_address k = A \<and> has_code_type db' ''CW721'' k"
      using n by (intro exI [of _ n] exI [of _ k]) (simp add: db' has_code_type_def)
    show "\<forall>n\<in>set (cw721_contracts db'). cw721_address db' n = Some A \<longrightarrow> n_id n = c"
      using only not_A by (auto simp: db'(1) addr simp del: set_filter)
  qed
qed

lemma handleInstantiateMsgs_keeps:
  assumes "handleInstantiateMsgs ext ms db = Inr db'"
  shows "cw721_tokens db' = cw721_tokens db" "cw721_token_seq db' = cw721_token_seq db"
    "smart_contracts db' = smart_contracts db" "cw721_activities db' = cw721_activities db"
    "block_checkpoint db' = block_checkpoint db" "codes db' = codes db" "event_table db' = event_table db"
    "transaction_table db' = transaction_table db" "smart_contract_events db' = smart_contract_events db"
  using insert_cw721_contracts [OF assms [unfolded handleInstantiateMsgs_def Let_def]] by simp_all

section \<open>Activities\<close>

lemma insert_cw721_activities:
  assumes "rfold insert_cw721_activity acts db = Inr db'"
  shows "db' = db\<lparr>cw721_activities := cw721_activities db @ map (\<lambda>a. a\<lparr>v_token_id := None\<rparr>) acts\<rparr>"
  using assms
  by (induction acts arbitrary: db) (force simp: rbind_eq_Inr insert_cw721_activity_def split: if_splits)+

text \<open>Each message of a tracked contract has one activity, which names its event and the contract.\<close>

definition tracked_events :: "(string \<rightharpoonup> int) \<Rightarrow> cw721_msg list \<Rightarrow> (int \<times> int) list" where
  "tracked_events tracked msgs =
     List.map_filter (\<lambda>m. map_option (\<lambda>c. (m_smart_contract_event_id m, c)) (tracked (m_contractAddress m))) msgs"

definition activity_event :: "cw721_activity \<Rightarrow> int \<times> int" where
  "activity_event a = (v_smart_contract_event_id a, v_cw721_contract_id a)"

lemma cw721_process_msg_activity:
  assumes "cw721_process_msg tracked msg (d, acts) = Inr (d', acts')"
  shows "map activity_event acts' = map activity_event acts @ tracked_events tracked [msg]"
  using assms
  by (auto simp: cw721_process_msg_def handlerCw721Mint_def handlerCw721Transfer_def handlerCw721Burn_def
      handleCw721Others_def rbind_eq_Inr need_eq_Inr Let_def tracked_events_def activity_event_def cw721_activity_of_def
      map_filter_simps split: if_splits option.splits)

lemma cw721_process_activities:
  assumes "cw721_process tracked msgs (d, []) = Inr (d', acts)"
  shows "map activity_event acts = tracked_events tracked msgs"
proof -
  let ?R = "\<lambda>st es. map activity_event (snd st) = es"
  have "?R (d', acts) (fold (\<lambda>m es. es @ tracked_events tracked [m]) msgs [])"
  proof (rule rfold_simulates [where R = ?R, OF assms [unfolded cw721_process_def]])
    fix msg s s' es
    assume "?R s es" "cw721_process_msg tracked msg s = Inr s'"
    with cw721_process_msg_activity [of tracked msg "fst s" "snd s" "fst s'" "snd s'"]
    show "?R s' (es @ tracked_events tracked [msg])" by simp
  qed simp
  moreover have "fold (\<lambda>m es. es @ tracked_events tracked [m]) msgs es = es @ tracked_events tracked msgs" for es
    by (induction msgs arbitrary: es) (simp_all add: tracked_events_def map_filter_simps split: option.split)
  ultimately show ?thesis by simp
qed

lemma updateTokenAndActivities_effect:
  assumes "updateTokenAndActivities toks acts db = Inr db'"
  obtains db1 ts' where "upsert_cw721_tokens toks db = Inr (db1, ts')"
    "cw721_tokens db' = cw721_tokens db1" "cw721_token_seq db' = cw721_token_seq db1"
    "map activity_event (cw721_activities db') = map activity_event (cw721_activities db) @ map activity_event acts"
    "cw721_contracts db' = cw721_contracts db" "smart_contracts db' = smart_contracts db"
    "block_checkpoint db' = block_checkpoint db" "cw721_contract_seq db' = cw721_contract_seq db"
    "codes db' = codes db" "event_table db' = event_table db" "transaction_table db' = transaction_table db"
    "smart_contract_events db' = smart_contract_events db"
proof -
  have link: "map activity_event (map (link_activity ts) acts) = map activity_event acts" for ts
    by (simp add: link_activity_def activity_event_def comp_def)
  from assms obtain db1 ts' acts1 where up: "upsert_cw721_tokens toks db = Inr (db1, ts')"
    and acts1: "map activity_event acts1 = map activity_event acts"
    and ins: "rfold insert_cw721_activity acts1 db1 = Inr db'"
    by (cases "toks = []") (auto simp: updateTokenAndActivities_def rbind_eq_Inr intro: link)
  have "map activity_event (map (\<lambda>a. a\<lparr>v_token_id := None\<rparr>) acts1) = map activity_event acts1"
    by (simp add: activity_event_def comp_def)
  with that [OF up] insert_cw721_activities [OF ins] upsert_cw721_tokens_keeps [OF up] acts1 show thesis by simp
qed

section \<open>Tracked contracts\<close>

definition tracked_by_addr :: "cw721_msg list \<Rightarrow> ('c, 'a) cw721_db_scheme \<Rightarrow> (string \<rightharpoonup> int)" where
  "tracked_by_addr msgs db = map_option snd \<circ> keyBy fst (getCw721TrackedContracts (map m_contractAddress msgs) db)"

lemma in_tracked:
  "(a, i) \<in> set (getCw721TrackedContracts as db) \<longleftrightarrow>
    a \<in> set as \<and> (\<exists>n\<in>set (cw721_contracts db). cw721_address db n = Some a \<and> n_track n \<and> n_id n = i)"
  by (auto simp: getCw721TrackedContracts_def set_map_filter_Some split: option.splits if_splits)

lemma tracked_by_addr_ok:
  assumes "addresses_ok db"
  shows "tracked_ok db (tracked_by_addr msgs db)"
  unfolding tracked_ok_def
proof (intro allI impI)
  fix a cid assume "tracked_by_addr msgs db a = Some cid"
  then have "(a, cid) \<in> set (getCw721TrackedContracts (map m_contractAddress msgs) db)"
    by (auto simp: tracked_by_addr_def dest!: keyBy_SomeD)
  then obtain n where n: "n \<in> set (cw721_contracts db)" "cw721_address db n = Some a" "n_id n = cid"
    by (auto simp: in_tracked)
  have "find (\<lambda>n. n_id n = cid) (cw721_contracts db) = Some n"
    using n assms by (intro find_by_key) (simp_all add: addresses_ok_def)
  with n(2) show "addr_of db cid = Some a" by (simp add: addr_of_def)
qed

lemma tracked_by_addr_A:
  assumes "addresses_ok db" and "contract_row_ok A c db"
  shows "tracked_by_addr msgs db A = (if A \<in> m_contractAddress ` set msgs then Some c else None)"
proof (cases "tracked_by_addr msgs db A")
  case None
  from assms(2) obtain n where "n \<in> set (cw721_contracts db)" "n_id n = c" "n_track n" "cw721_address db n = Some A"
    by (auto simp: contract_row_ok_def cw721_address_def)
  then have "(A, c) \<in> set (getCw721TrackedContracts (map m_contractAddress msgs) db)" if "A \<in> m_contractAddress ` set msgs"
    using that by (auto simp: in_tracked)
  with None have "A \<notin> m_contractAddress ` set msgs"
    by (force simp: tracked_by_addr_def keyBy_None_iff)
  with None show ?thesis by simp
next
  case (Some cid)
  then have "(A, cid) \<in> set (getCw721TrackedContracts (map m_contractAddress msgs) db)"
    by (auto simp: tracked_by_addr_def dest!: keyBy_SomeD)
  moreover have "cid = c"
    using tracked_by_addr_ok [OF assms(1)] Some addr_of_A [OF assms] by (auto simp: tracked_ok_def)
  ultimately show ?thesis using Some by (auto simp: in_tracked)
qed

section \<open>The work of a range\<close>

text \<open>The keys of the dictionary are those loaded and those of the messages with a token id.\<close>

lemma cw721_process_keys:
  assumes "cw721_process tracked msgs (d, []) = Inr (d', acts)"
  shows "fst ` set d' \<subseteq> fst ` set d \<union> {token_key a (Some i) | a i. (a, Some i) \<in> msg_pairs msgs}"
proof -
  let ?K = "fst ` set d \<union> {token_key a (Some i) | a i. (a, Some i) \<in> msg_pairs msgs}"
  have "fst ` set (fst (d', acts)) \<subseteq> ?K"
  proof (rule rfold_invariant [where I = "\<lambda>st. fst ` set (fst st) \<subseteq> ?K", OF assms [unfolded cw721_process_def]])
    fix msg s s'
    assume msg: "msg \<in> set msgs" and I: "fst ` set (fst s) \<subseteq> ?K" and run: "cw721_process_msg tracked msg s = Inr s'"
    from run cw721_process_msg_dict [of tracked msg "fst s" "snd s" "fst s'" "snd s'"]
    consider "fst s' = fst s"
      | t u where "fst s' = AList.update (m_key msg) t (fst s)" "map_of (fst s) (m_key msg) = Some u"
      | t where "fst s' = AList.update (m_key msg) t (fst s)" "m_attr msg ''token_id'' = Some (tk_token_id t)"
      by fastforce
    then show "fst ` set (fst s') \<subseteq> ?K"
    proof cases
      case (2 t u)
      have "m_key msg \<in> fst ` set (fst s)" using map_of_SomeD [OF 2(2)] by force
      with 2(1) I show ?thesis by (auto simp: dom_update)
    next
      case (3 t)
      have "m_key msg = token_key (m_contractAddress msg) (Some (tk_token_id t))" by (simp add: m_key_def 3(2))
      moreover have "(m_contractAddress msg, Some (tk_token_id t)) \<in> msg_pairs msgs" using msg 3(2) by force
      ultimately have "m_key msg \<in> ?K" by blast
      with 3(1) I show ?thesis by (auto simp: dom_update)
    qed (use I in simp)
  qed simp
  then show ?thesis by simp
qed

lemma nft_step_keeps: "m i \<noteq> None \<Longrightarrow> fold (nft_step A) msgs m i \<noteq> None"
proof (induction msgs arbitrary: m)
  case (Cons msg msgs)
  have "nft_msg msg v \<noteq> None" if "v \<noteq> None" for v
    using that by (cases v) (auto simp: nft_msg_def)
  then have "nft_step A msg m i \<noteq> None"
    using Cons.prems by (simp add: nft_step_def split: option.split)
  with Cons.IH [of "nft_step A msg m"] show ?case by simp
qed simp

text \<open>Loading, replaying and storing together replay the messages over the rows.\<close>

lemma exec_and_store:
  assumes "handleCw721MsgExec msgs db = Inr (d, acts)" and "updateTokenAndActivities (map snd d) acts db = Inr db'"
    and "addresses_ok db" and "contract_row_ok A c db" and "token_rows_ok db" and "list_all (msg_ok A) msgs"
  shows "token_rows_ok db'"
    and "nft_rows c (cw721_tokens db') = fold (nft_step A) msgs (nft_rows c (cw721_tokens db))"
    and "map activity_event (cw721_activities db') =
      map activity_event (cw721_activities db) @ tracked_events (tracked_by_addr msgs db) msgs"
proof -
  let ?tr = "tracked_by_addr msgs db" and ?d0 = "load_cw721_tokens msgs db"
  have run: "cw721_process ?tr msgs (?d0, []) = Inr (d, acts)"
    using assms(1) by (simp add: handleCw721MsgExec_def tracked_by_addr_def Let_def)
  from assms(2) obtain db1 ts' where up: "upsert_cw721_tokens (map snd d) db = Inr (db1, ts')"
    and toks: "cw721_tokens db' = cw721_tokens db1" "cw721_token_seq db' = cw721_token_seq db1"
    and log: "map activity_event (cw721_activities db') = map activity_event (cw721_activities db) @ map activity_event acts"
    by (rule updateTokenAndActivities_effect)
  have wf: "dict_wf db d"
    by (rule cw721_process_wf [OF run load_wf tracked_by_addr_ok [OF assms(3)] assms(3,6)])
  note ups = dict_wf_upsert [OF wf assms(3,4,5)]
  note eff = upsert_cw721_tokens_effect [OF up assms(5) ups(1,2)]
  show "token_rows_ok db'" using eff toks by (simp add: token_rows_ok_def)
  show "map activity_event (cw721_activities db') =
      map activity_event (cw721_activities db) @ tracked_events ?tr msgs"
    using log cw721_process_activities [OF run] by simp
  have sepA: "no_sep A" using addr_of_no_sep [OF assms(3)] addr_of_A [OF assms(3,4)] by blast
  show "nft_rows c (cw721_tokens db') = fold (nft_step A) msgs (nft_rows c (cw721_tokens db))"
  proof (rule ext)
    fix i
    have stored: "nft_rows c (cw721_tokens db') i =
        (case dict_nft A d i of Some v \<Rightarrow> Some v | None \<Rightarrow> nft_rows c (cw721_tokens db) i)"
      using eff [of i] ups(3) [of i] by (auto simp: toks split: option.splits)
    show "nft_rows c (cw721_tokens db') i = fold (nft_step A) msgs (nft_rows c (cw721_tokens db)) i"
    proof (cases "(A, Some i) \<in> msg_pairs msgs")
      case True
      then obtain m where "m \<in> set msgs" "m_contractAddress m = A" "m_attr m ''token_id'' = Some i" by auto
      then have plain: "plain_id i" using assms(6) by (auto simp: list_all_iff msg_ok_def)
      have trA: "?tr A = Some c" using True tracked_by_addr_A [OF assms(3,4), of msgs] by force
      have "dict_nft A ?d0 i = nft_rows c (cw721_tokens db) i"
        using load_lookup [OF assms(3-5), of msgs i] True plain by (simp add: dict_nft_def nft_rows_def plain_id_def del: set_map)
      from nft_step_local [where m = "dict_nft A ?d0" and m' = "nft_rows c (cw721_tokens db)" and i = i, OF this]
      have "dict_nft A d i = fold (nft_step A) msgs (nft_rows c (cw721_tokens db)) i"
        using cw721_process_nft [OF run trA assms(6) sepA, of i] plain by (simp add: plain_id_def)
      moreover have "nft_rows c (cw721_tokens db) i = None" if "fold (nft_step A) msgs (nft_rows c (cw721_tokens db)) i = None"
        using that nft_step_keeps by metis
      ultimately show ?thesis using stored by (simp split: option.split)
    next
      case False
      have "token_key A (Some i) \<notin> fst ` set ?d0"
        using load_lookup [OF assms(3-5), of msgs i] False by (simp add: map_of_eq_None_iff del: set_map)
      moreover have "token_key A (Some i) \<noteq> token_key a (Some j)" if "(a, Some j) \<in> msg_pairs msgs" for a j
      proof -
        have "no_sep a" using that assms(6) by (auto simp: list_all_iff msg_ok_def)
        with sepA that False show ?thesis by (auto simp: token_key_inj_left no_sep_def simp del: set_map)
      qed
      ultimately have "token_key A (Some i) \<notin> fst ` set d" using cw721_process_keys [OF run] by blast
      then have "dict_nft A d i = None" by (simp add: dict_nft_def map_of_eq_None_iff)
      with stored nft_step_other [OF False] show ?thesis by simp
    qed
  qed
qed

definition cw721_rows :: "('c, 'a) cw721_db_scheme \<Rightarrow> (int \<times> int \<times> cw721_msg) list" where
  "cw721_rows db = List.map_filter (cw721_msg_of db) (smart_contract_events db)"

abbreviation cw721_msgs :: "int \<Rightarrow> int \<Rightarrow> ('c, 'a) cw721_db_scheme \<Rightarrow> cw721_msg list" where
  "cw721_msgs a b db \<equiv> getCw721ContractEvents a b None None db"

lemma cw721_msgs_eq:
  "cw721_msgs a b db = map (\<lambda>(_, _, m). m) (filter (\<lambda>x. in_range a b (fst x)) (cw721_rows db))"
  by (simp add: getCw721ContractEvents_def cw721_rows_def Let_def case_prod_unfold)

text \<open>
  What the theorems about the contract at \<open>A\<close> need of the database and the job keeps: the contract
  has one row, tokens have one row each, events are in the order of their heights, and the token
  ids of the contract's messages are plain.
\<close>

definition cw721_ok :: "string \<Rightarrow> int \<Rightarrow> ('c, 'a) cw721_db_scheme \<Rightarrow> bool" where
  "cw721_ok A c db \<longleftrightarrow> addresses_ok db \<and> contract_row_ok A c db \<and> token_rows_ok db \<and>
     sorted (map fst (cw721_rows db)) \<and> list_all (\<lambda>(_, _, m). msg_ok A m) (cw721_rows db)"

lemma cw721_rows_cong:
  assumes "smart_contract_events db' = smart_contract_events db" "event_table db' = event_table db"
    "transaction_table db' = transaction_table db" "smart_contracts db' = smart_contracts db" "codes db' = codes db"
  shows "cw721_rows db' = cw721_rows db"
proof -
  have "cw721_msg_of db' = cw721_msg_of db"
    by (rule ext) (simp only: cw721_msg_of_def contract_event_join_def assms)
  then show ?thesis by (simp add: cw721_rows_def assms)
qed

text \<open>The tables the job does not write.\<close>

definition same_chain :: "('c, 'a) cw721_db_scheme \<Rightarrow> ('c, 'a) cw721_db_scheme \<Rightarrow> bool" where
  "same_chain db db' \<longleftrightarrow> smart_contract_events db' = smart_contract_events db \<and> event_table db' = event_table db \<and>
     transaction_table db' = transaction_table db \<and> smart_contracts db' = smart_contracts db \<and> codes db' = codes db \<and>
     block_checkpoint db' = block_checkpoint db"

lemma cw721_work_cases:
  assumes "cw721_work ext s e db = Inr db'"
  obtains (none) "cw721_msgs s e db = []" "db' = db"
  | (some) db1 d acts where "handleInstantiateMsgs ext (filter (\<lambda>msg. m_action msg = Some ''instantiate'') (cw721_msgs s e db)) db = Inr db1"
      "handleCw721MsgExec (cw721_msgs s e db) db1 = Inr (d, acts)" "updateTokenAndActivities (map snd d) acts db1 = Inr db'"
  using assms by (auto simp: cw721_work_def Let_def rbind_eq_Inr split: if_splits)

lemma cw721_work_chain:
  assumes "cw721_work ext s e db = Inr db'"
  shows "same_chain db db'"
  using assms
proof (cases rule: cw721_work_cases)
  case (some db1 d acts)
  from some(3) show ?thesis
    by (rule updateTokenAndActivities_effect) (simp add: same_chain_def handleInstantiateMsgs_keeps [OF some(1)])
qed (simp add: same_chain_def)

lemma cw721_work_effect:
  assumes "cw721_work ext s e db = Inr db'" and "cw721_ok A c db"
  shows "cw721_ok A c db'"
    and "nft_rows c (cw721_tokens db') = fold (nft_step A) (cw721_msgs s e db) (nft_rows c (cw721_tokens db))"
proof -
  have chain: "same_chain db db'" by (rule cw721_work_chain [OF assms(1)])
  have rows: "cw721_rows db' = cw721_rows db" by (rule cw721_rows_cong) (use chain in \<open>simp_all add: same_chain_def\<close>)
  have msgs: "list_all (msg_ok A) (cw721_msgs s e db)"
    using assms(2) by (fastforce simp: cw721_ok_def cw721_msgs_eq list_all_iff)
  from assms(1) have "addresses_ok db' \<and> contract_row_ok A c db' \<and> token_rows_ok db' \<and>
    nft_rows c (cw721_tokens db') = fold (nft_step A) (cw721_msgs s e db) (nft_rows c (cw721_tokens db))"
  proof (cases rule: cw721_work_cases)
    case none
    with assms(2) show ?thesis by (simp add: cw721_ok_def)
  next
    case (some db1 d acts)
    have ok1: "addresses_ok db1" "contract_row_ok A c db1"
      using handleInstantiateMsgs_ok [OF some(1), of A c] assms(2) by (simp_all add: cw721_ok_def)
    have tok1: "token_rows_ok db1"
      using assms(2) handleInstantiateMsgs_keeps [OF some(1)] by (simp add: cw721_ok_def token_rows_ok_def)
    note eff = exec_and_store [OF some(2,3) ok1 tok1 msgs]
    from some(3) have "cw721_contracts db' = cw721_contracts db1 \<and> cw721_contract_seq db' = cw721_contract_seq db1 \<and>
        smart_contracts db' = smart_contracts db1 \<and> codes db' = codes db1"
      by (rule updateTokenAndActivities_effect) simp
    then have "addresses_ok db' \<and> contract_row_ok A c db'"
      using ok1 by (simp add: addresses_ok_def contract_row_ok_def cw721_address_def has_code_type_def)
    with eff(1,2) handleInstantiateMsgs_keeps(1) [OF some(1)] show ?thesis by simp
  qed
  with assms(2) rows show "cw721_ok A c db'"
    and "nft_rows c (cw721_tokens db') = fold (nft_step A) (cw721_msgs s e db) (nft_rows c (cw721_tokens db))"
    by (simp_all add: cw721_ok_def)
qed

section \<open>Interpretations\<close>

abbreviation cw721_pos :: "config \<Rightarrow> ('c, 'a) cw721_db_scheme \<Rightarrow> int" where
  "cw721_pos cfg db \<equiv> job_start cfg HANDLE_CW721_TRANSACTION (block_checkpoint db)"

lemma saved_cw721 [simp]:
  "cw721_ok A c (saveCheckpoint row db) = cw721_ok A c db"
  "cw721_msgs a b (saveCheckpoint row db) = cw721_msgs a b db"
  "cw721_tokens (saveCheckpoint row db) = cw721_tokens db"
  "cw721_activities (saveCheckpoint row db) = cw721_activities db"
proof -
  have rows: "cw721_rows (saveCheckpoint row db) = cw721_rows db"
    by (rule cw721_rows_cong) (simp_all add: saveCheckpoint_def)
  then show "cw721_msgs a b (saveCheckpoint row db) = cw721_msgs a b db" by (simp add: cw721_msgs_eq)
  show "cw721_ok A c (saveCheckpoint row db) = cw721_ok A c db"
    by (simp add: cw721_ok_def rows) (simp add: saveCheckpoint_def addresses_ok_def contract_row_ok_def token_rows_ok_def
      cw721_address_def has_code_type_def)
qed (simp_all add: saveCheckpoint_def)

lemma cw721_run_checkpoint:
  "cw721_job cfg ext db = Inr db' \<Longrightarrow>
    block_checkpoint db' = checkpoint_run cfg HANDLE_CW721_TRANSACTION (block_checkpoint db)"
  unfolding cw721_job_def by (erule range_job_checkpoint) (drule cw721_work_chain, simp add: same_chain_def)

lemma cw721_run_msgs:
  assumes "cw721_job cfg ext db = Inr db'"
  shows "(\<lambda>a b. cw721_msgs a b db') = (\<lambda>a b. cw721_msgs a b db)"
  using assms unfolding cw721_job_def
proof (cases rule: range_job_cases)
  case (worked db1)
  have "cw721_rows db1 = cw721_rows db"
    by (rule cw721_rows_cong) (use cw721_work_chain [OF worked(2)] in \<open>simp_all add: same_chain_def\<close>)
  with worked(3) show ?thesis by (simp add: cw721_msgs_eq [of _ _ db1] cw721_msgs_eq [of _ _ db])
qed simp

lemma cw721_run_ok: "cw721_ok A c db \<Longrightarrow> cw721_job cfg ext db = Inr db' \<Longrightarrow> cw721_ok A c db'"
  unfolding cw721_job_def by (erule range_job_cases) (simp_all add: cw721_work_effect(1))

lemma cw721_run_tokens:
  assumes "cw721_ok A c db" and "cw721_job cfg ext db = Inr db'"
  shows "nft_rows c (cw721_tokens db') =
    (if skips (job_guard HANDLE_CW721_TRANSACTION) (cw721_pos cfg db) (job_end cfg HANDLE_CW721_TRANSACTION (block_checkpoint db))
     then nft_rows c (cw721_tokens db)
     else fold (nft_step A) (cw721_msgs (cw721_pos cfg db) (job_end cfg HANDLE_CW721_TRANSACTION (block_checkpoint db)) db)
       (nft_rows c (cw721_tokens db)))"
  using assms(2) unfolding cw721_job_def
  by (cases rule: range_job_cases) (simp_all add: cw721_work_effect(2) [OF _ assms(1)])

lemma cw721_msgs_split:
  assumes "cw721_ok A c db" and "a \<le> b" and "b \<le> d"
  shows "cw721_msgs a d db = cw721_msgs a b db @ cw721_msgs b d db"
proof -
  have "sorted (map fst (cw721_rows db))" using assms(1) by (simp add: cw721_ok_def)
  from filter_range_split [OF this assms(2,3)] show ?thesis by (simp add: cw721_msgs_eq)
qed

lemma cw721_guarded: "\<not> skips (job_guard HANDLE_CW721_TRANSACTION) s e \<Longrightarrow> s \<le> e"
  by (simp add: HANDLE_CW721_TRANSACTION_def skips_def)

interpretation cw721_token_job: replaying_job cfg HANDLE_CW721_TRANSACTION "cw721_job cfg ext"
    "\<lambda>_. True" "cw721_ok A c" "\<lambda>db a b. cw721_msgs a b db" "nft_step A" "\<lambda>db. nft_rows c (cw721_tokens db)"
  for cfg ext A c
  by unfold_locales
    (rule cw721_run_checkpoint cw721_run_tokens cw721_run_msgs cw721_run_ok cw721_msgs_split cw721_guarded; assumption)+

text \<open>The events of the contract's messages, and those its activities name.\<close>

definition message_events :: "string \<Rightarrow> ('c, 'a) cw721_db_scheme \<Rightarrow> int \<Rightarrow> int \<Rightarrow> int multiset" where
  "message_events A db a b =
     mset (map m_smart_contract_event_id (filter (\<lambda>m. m_contractAddress m = A) (cw721_msgs a b db)))"

definition recorded_events :: "int \<Rightarrow> ('c, 'a) cw721_db_scheme \<Rightarrow> int multiset" where
  "recorded_events c db = mset (map v_smart_contract_event_id (filter (\<lambda>a. v_cw721_contract_id a = c) (cw721_activities db)))"

lemma recorded_events_eq:
  "recorded_events c db = mset (map fst (filter (\<lambda>x. snd x = c) (map activity_event (cw721_activities db))))"
  by (simp add: recorded_events_def activity_event_def filter_map comp_def)

lemma tracked_events_A:
  assumes "\<And>m. m \<in> set msgs \<Longrightarrow> tracked (m_contractAddress m) = Some c \<longleftrightarrow> m_contractAddress m = A"
  shows "map fst (filter (\<lambda>x. snd x = c) (tracked_events tracked msgs)) =
    map m_smart_contract_event_id (filter (\<lambda>m. m_contractAddress m = A) msgs)"
  using assms
proof (induction msgs)
  case (Cons m msgs)
  have "tracked (m_contractAddress m) = Some c \<longleftrightarrow> m_contractAddress m = A" using Cons.prems by simp
  with Cons show ?case
    by (cases "tracked (m_contractAddress m)") (auto simp: tracked_events_def map_filter_simps)
qed (simp add: tracked_events_def)

lemma cw721_work_events:
  assumes "cw721_work ext s e db = Inr db'" and "cw721_ok A c db"
  shows "recorded_events c db' = recorded_events c db + message_events A db s e"
  using assms(1)
proof (cases rule: cw721_work_cases)
  case none
  then show ?thesis by (simp add: message_events_def)
next
  case (some db1 d acts)
  have ok1: "addresses_ok db1" "contract_row_ok A c db1"
    using handleInstantiateMsgs_ok [OF some(1), of A c] assms(2) by (simp_all add: cw721_ok_def)
  have tok1: "token_rows_ok db1"
    using assms(2) handleInstantiateMsgs_keeps [OF some(1)] by (simp add: cw721_ok_def token_rows_ok_def)
  have msgs: "list_all (msg_ok A) (cw721_msgs s e db)"
    using assms(2) by (fastforce simp: cw721_ok_def cw721_msgs_eq list_all_iff)
  have tr: "tracked_by_addr (cw721_msgs s e db) db1 (m_contractAddress m) = Some c \<longleftrightarrow> m_contractAddress m = A"
    if "m \<in> set (cw721_msgs s e db)" for m
  proof -
    have "addr_of db1 c = Some A" using addr_of_A [OF ok1] by simp
    then show ?thesis
      using tracked_by_addr_ok [OF ok1(1), of "cw721_msgs s e db"] tracked_by_addr_A [OF ok1, of "cw721_msgs s e db"] that
      by (auto simp: tracked_ok_def)
  qed
  from exec_and_store(3) [OF some(2,3) ok1 tok1 msgs] show ?thesis
    by (simp add: recorded_events_eq tracked_events_A [OF tr] message_events_def handleInstantiateMsgs_keeps(4) [OF some(1)]
        del: map_map)
qed

lemma cw721_run_events:
  assumes "cw721_ok A c db" and "cw721_job cfg ext db = Inr db'"
  shows "recorded_events c db' = recorded_events c db +
    (if skips (job_guard HANDLE_CW721_TRANSACTION) (cw721_pos cfg db) (job_end cfg HANDLE_CW721_TRANSACTION (block_checkpoint db))
     then {#}
     else message_events A db (cw721_pos cfg db) (job_end cfg HANDLE_CW721_TRANSACTION (block_checkpoint db)))"
proof -
  have [simp]: "recorded_events c (saveCheckpoint row db) = recorded_events c db" for row and db :: "('c, 'd) cw721_db_scheme"
    by (simp add: recorded_events_def)
  show ?thesis
    using assms(2) unfolding cw721_job_def
    by (cases rule: range_job_cases) (simp_all add: cw721_work_events [OF _ assms(1)])
qed

lemma message_events_cong:
  "cw721_job cfg ext db = Inr db' \<Longrightarrow> message_events A db' = message_events A db"
  by (intro ext) (simp add: message_events_def fun_cong [OF fun_cong [OF cw721_run_msgs]])

lemma message_events_split:
  assumes "a \<le> b" and "b \<le> d"
  shows "message_events A db a d = message_events A db a b + message_events A db b d"
  using filter_mset_range_split [OF assms, where P = "\<lambda>x. m_contractAddress (snd (snd x)) = A" and h = fst and M = "mset (cw721_rows db)"]
  by (simp add: message_events_def cw721_msgs_eq filter_map comp_def case_prod_unfold conj_commute flip: mset_filter image_mset_union)

interpretation cw721_activity_job: appending_job cfg HANDLE_CW721_TRANSACTION "cw721_job cfg ext"
    "cw721_ok A c" "message_events A" "recorded_events c"
  for cfg ext A c
  by unfold_locales
    (rule cw721_run_events message_events_cong message_events_split cw721_guarded; assumption)+

section \<open>When a run throws\<close>

text \<open>A burn of a token that is neither stored nor minted before throws.\<close>

lemma cw721_process_prefix:
  assumes "cw721_process tracked (xs @ msg # ys) (d, []) = Inr st"
  obtains d1 acts1 st2 where "cw721_process tracked xs (d, []) = Inr (d1, acts1)" "cw721_process_msg tracked msg (d1, acts1) = Inr st2"
  using assms by (auto simp: cw721_process_def rfold_append rbind_eq_Inr)

lemma cw721_unknown_burn:
  assumes "cw721_ok A c db" and "cw721_msgs s e db = xs @ msg # ys"
    and "m_contractAddress msg = A" and "m_action msg = Some ''burn''" and "m_attr msg ''token_id'' = Some i"
    and "fold (nft_step A) xs (nft_rows c (cw721_tokens db)) i = None"
  shows "isl (cw721_work ext s e db)"
proof (rule ccontr)
  assume "\<not> isl (cw721_work ext s e db)"
  then obtain db' where "cw721_work ext s e db = Inr db'" by (metis sum.collapse(2))
  then show False
  proof (cases rule: cw721_work_cases)
    case none
    with assms(2) show False by simp
  next
    case (some db1 d acts)
    let ?msgs = "cw721_msgs s e db"
    have ok1: "addresses_ok db1" "contract_row_ok A c db1"
      using handleInstantiateMsgs_ok [OF some(1), of A c] assms(1) by (simp_all add: cw721_ok_def)
    have tok1: "token_rows_ok db1"
      using assms(1) handleInstantiateMsgs_keeps [OF some(1)] by (simp add: cw721_ok_def token_rows_ok_def)
    have msgs: "list_all (msg_ok A) ?msgs"
      using assms(1) by (fastforce simp: cw721_ok_def cw721_msgs_eq list_all_iff)
    then have plain: "plain_id i" and xs: "list_all (msg_ok A) xs"
      using assms(2,3,5) by (auto simp: list_all_iff msg_ok_def)
    have "cw721_process (tracked_by_addr ?msgs db1) (xs @ msg # ys) (load_cw721_tokens ?msgs db1, []) = Inr (d, acts)"
      using some(2) assms(2) by (simp add: handleCw721MsgExec_def tracked_by_addr_def Let_def)
    then obtain d1 acts1 st2 where pre: "cw721_process (tracked_by_addr ?msgs db1) xs (load_cw721_tokens ?msgs db1, []) = Inr (d1, acts1)"
      and burn: "cw721_process_msg (tracked_by_addr ?msgs db1) msg (d1, acts1) = Inr st2"
      by (rule cw721_process_prefix)
    have in_msgs: "(A, Some i) \<in> msg_pairs ?msgs" using assms(2,3,5) by force
    have trA: "tracked_by_addr ?msgs db1 A = Some c" using in_msgs tracked_by_addr_A [OF ok1] by force
    have sepA: "no_sep A" using addr_of_no_sep [OF ok1(1)] addr_of_A [OF ok1] by blast
    have "dict_nft A (load_cw721_tokens ?msgs db1) i = nft_rows c (cw721_tokens db) i"
      using load_lookup [OF ok1 tok1, of ?msgs i] in_msgs plain handleInstantiateMsgs_keeps(1) [OF some(1)]
      by (simp add: dict_nft_def nft_rows_def plain_id_def del: set_map)
    from nft_step_local [where m = "dict_nft A (load_cw721_tokens ?msgs db1)" and m' = "nft_rows c (cw721_tokens db)" and i = i, OF this]
    have "dict_nft A d1 i = None"
      using cw721_process_nft [OF pre trA xs sepA, of i] plain assms(6) by (simp add: plain_id_def)
    then have "map_of d1 (m_key msg) = None" by (simp add: dict_nft_def m_key_def assms(3,5))
    with burn trA assms(3,4) show False
      by (simp add: cw721_process_msg_def handlerCw721Burn_def)
  qed
qed

section \<open>Properties\<close>

definition sample_contract_event :: "int \<Rightarrow> string \<Rightarrow> (string \<times> string) list \<Rightarrow> smart_contract_event" where
  "sample_contract_event i action kvs =
     \<lparr>se_id = i, se_smart_contract_id = 1, se_action = Some action, se_event_id = i, se_index = 0, se_tx_id = i,
      se_attributes = sample_attributes kvs\<rparr>"

text \<open>A token is minted, sent on and approved, at the heights 1, 2 and 3; with a fourth height another is burned.\<close>

definition sample_cw721_db :: "int \<Rightarrow> string cw721_db" where
  "sample_cw721_db n =
     \<lparr>block_checkpoint = [''crawl:contract-event'' \<mapsto> n], block_table = [],
      transaction_table = map sample_wasm_tx [1, 2, 3, 4], transaction_seq = 5,
      event_table = map (\<lambda>i. sample_wasm_event i i ''wasm'' []) [1, 2, 3, 4], event_seq = 5,
      message_table = [], message_seq = 1, codes = [sample_code 1 ''CW721''], code_id_verifications = [],
      smart_contracts = [sample_wasm_contract 1 ''aura1c'' 1], smart_contract_seq = 2,
      smart_contract_events =
        [sample_contract_event 1 ''mint'' [(''token_id'', ''a_1''), (''owner'', ''aura1o''), (''minter'', ''aura1m'')],
         sample_contract_event 2 ''send_nft'' [(''token_id'', ''a_1''), (''recipient'', ''aura1p''), (''sender'', ''aura1o'')],
         sample_contract_event 3 ''approve'' [(''token_id'', ''a_1''), (''sender'', ''aura1p'')],
         sample_contract_event 4 ''burn'' [(''token_id'', ''b''), (''sender'', ''aura1p'')]],
      smart_contract_event_seq = 5,
      cw721_contracts = [\<lparr>n_id = 7, n_contract_id = 1, n_symbol = Some ''N'', n_minter = None, n_name = Some ''nft'', n_track = True\<rparr>],
      cw721_contract_seq = 8, cw721_tokens = [], cw721_token_seq = 1, cw721_activities = [], cw721_stats = []\<rparr>"

definition sample_cw721_ext :: cw721_ext where
  "sample_cw721_ext = \<lparr>query_contract_info = (\<lambda>_. None), query_cw721_minter = (\<lambda>_. None)\<rparr>"

lemma sample_cw721_ok: "cw721_ok ''aura1c'' 7 (sample_cw721_db n)"
proof -
  have "contract_row_ok ''aura1c'' 7 (sample_cw721_db n)"
    by (simp add: contract_row_ok_def sample_cw721_db_def sample_wasm_contract_def sample_code_def has_code_type_def cw721_address_def)
  moreover have "addresses_ok (sample_cw721_db n)"
    by (simp add: addresses_ok_def sample_cw721_db_def sample_wasm_contract_def no_sep_def)
  moreover have "token_rows_ok (sample_cw721_db n)" by (simp add: token_rows_ok_def sample_cw721_db_def)
  moreover have "cw721_rows (sample_cw721_db n) = cw721_rows (sample_cw721_db 3)"
    by (rule cw721_rows_cong) (simp_all add: sample_cw721_db_def)
  moreover have "sorted (map fst (cw721_rows (sample_cw721_db 3)))"
    "list_all (\<lambda>(_, _, m). msg_ok ''aura1c'' m) (cw721_rows (sample_cw721_db 3))" by code_simp+
  ultimately show ?thesis by (simp add: cw721_ok_def)
qed

lemma sample_cw721_run:
  obtains db where "cw721_job sample_wasm_config sample_cw721_ext (sample_cw721_db 3) = Inr db"
    "cw721_pos sample_wasm_config db = 3"
proof -
  have "\<not> isl (cw721_job sample_wasm_config sample_cw721_ext (sample_cw721_db 3))" by code_simp
  then obtain db where run: "cw721_job sample_wasm_config sample_cw721_ext (sample_cw721_db 3) = Inr db"
    by (metis sum.collapse(2))
  have "job_start sample_wasm_config HANDLE_CW721_TRANSACTION (checkpoint_run sample_wasm_config HANDLE_CW721_TRANSACTION
      (block_checkpoint (sample_cw721_db 3))) = 3" by code_simp
  with cw721_run_checkpoint [OF run] that [OF run] show thesis by simp
qed

lemma sample_cw721_start: "cw721_pos sample_wasm_config (sample_cw721_db 3) = 0"
  by code_simp

text \<open>
  C8. For a tracked contract of a CW-721 code that has one contract row (it was never migrated), whose
  messages name token ids that are neither empty nor the text undefined, on a database where contract
  addresses contain no underscore, ids and token rows are unique and contract events are in the order of
  their heights, all this at first and after every step of another job: however the CW-721 job's runs interleave
  with other jobs that leave its checkpoint, the contract's tokens and the messages of passed heights
  alone, the stored owner, burn mark and height of every token of the contract are those that replaying all its
  messages of the heights passed since, in the order of the events, gives over the tokens at first;
  the stored rows stay well-formed.
\<close>

theorem cw721_tokens_replayed:
  assumes "job_trace (cw721_job cfg ext) (\<lambda>_. True)
      (\<lambda>db db'. settled_env (cw721_pos cfg) (\<lambda>db. nft_rows c (cw721_tokens db)) (\<lambda>db a b. cw721_msgs a b db) db db'
        \<and> cw721_ok A c db') db0 db"
    and "cw721_ok A c db0"
  shows "nft_rows c (cw721_tokens db) =
      fold (nft_step A) (cw721_msgs (cw721_pos cfg db0) (cw721_pos cfg db) db) (nft_rows c (cw721_tokens db0)) \<and>
    cw721_pos cfg db0 \<le> cw721_pos cfg db \<and> token_rows_ok db"
  using cw721_token_job.replays_once [OF assms] by (simp add: cw721_ok_def)

theorem cw721_tokens_replayed_witness:
  "\<exists>db. cw721_job sample_wasm_config sample_cw721_ext (sample_cw721_db 3) = Inr db \<and>
     nft_rows 7 (cw721_tokens db) ''a_1'' = Some (Some ''aura1p'', False, 2)"
proof -
  obtain db where run: "cw721_job sample_wasm_config sample_cw721_ext (sample_cw721_db 3) = Inr db"
    and pos: "cw721_pos sample_wasm_config db = 3" by (rule sample_cw721_run)
  have "job_trace (cw721_job sample_wasm_config sample_cw721_ext) (\<lambda>_. True)
      (\<lambda>db db'. settled_env (cw721_pos sample_wasm_config) (\<lambda>db. nft_rows 7 (cw721_tokens db)) (\<lambda>db a b. cw721_msgs a b db) db db'
        \<and> cw721_ok ''aura1c'' 7 db') (sample_cw721_db 3) db"
    by (intro trace_one run) simp
  note cw721_tokens_replayed [OF this sample_cw721_ok]
  moreover have "fold (nft_step ''aura1c'') (cw721_msgs 0 3 (sample_cw721_db 3)) (nft_rows 7 (cw721_tokens (sample_cw721_db 3))) ''a_1''
      = Some (Some ''aura1p'', False, 2)" by code_simp
  ultimately show ?thesis
    using run pos sample_cw721_start fun_cong [OF fun_cong [OF cw721_run_msgs [OF run]]] by simp
qed

text \<open>
  However the job's runs interleave with other jobs, the events that the stored activities
  of a tracked contract name are those named at first and, exactly once each, the events of its
  messages of the heights passed since.
\<close>

theorem cw721_activity_exactly_once:
  assumes "job_trace (cw721_job cfg ext) (cw721_ok A c)
      (settled_env (cw721_pos cfg) (recorded_events c) (message_events A)) db0 db"
  shows "recorded_events c db = recorded_events c db0 + message_events A db (cw721_pos cfg db0) (cw721_pos cfg db)"
  using cw721_activity_job.exactly_once [OF assms] by simp

theorem cw721_activity_exactly_once_witness:
  "\<exists>db. cw721_job sample_wasm_config sample_cw721_ext (sample_cw721_db 3) = Inr db \<and> recorded_events 7 db = {#1, 2, 3#}"
proof -
  obtain db where run: "cw721_job sample_wasm_config sample_cw721_ext (sample_cw721_db 3) = Inr db"
    and pos: "cw721_pos sample_wasm_config db = 3" by (rule sample_cw721_run)
  have "job_trace (cw721_job sample_wasm_config sample_cw721_ext) (cw721_ok ''aura1c'' 7)
      (settled_env (cw721_pos sample_wasm_config) (recorded_events 7) (message_events ''aura1c'')) (sample_cw721_db 3) db"
    by (intro trace_one run sample_cw721_ok)
  note cw721_activity_exactly_once [OF this]
  moreover have "map m_smart_contract_event_id (filter (\<lambda>m. m_contractAddress m = ''aura1c'') (cw721_msgs 0 3 (sample_cw721_db 3))) = [1, 2, 3]"
    "cw721_activities (sample_cw721_db 3) = []" by code_simp+
  ultimately show ?thesis
    using run pos sample_cw721_start message_events_cong [OF run] by (simp add: message_events_def recorded_events_def)
qed

text \<open>
  A burn of a token that is neither stored nor minted earlier in the range makes the whole
  run throw: the handler reads the owner of the missing token before it tests that it is there.
  The checkpoint stays, so the same run is repeated and the job does not pass the burn.
\<close>

theorem cw721_unknown_burn_blocks:
  assumes "cw721_ok A c db"
    and "cw721_pos cfg db < job_end cfg HANDLE_CW721_TRANSACTION (block_checkpoint db)"
    and "cw721_msgs (cw721_pos cfg db) (job_end cfg HANDLE_CW721_TRANSACTION (block_checkpoint db)) db = xs @ msg # ys"
    and "m_contractAddress msg = A" and "m_action msg = Some ''burn''" and "m_attr msg ''token_id'' = Some i"
    and "fold (nft_step A) xs (nft_rows c (cw721_tokens db)) i = None"
  shows "isl (cw721_job cfg ext db)"
  using cw721_unknown_burn [OF assms(1,3-7)] assms(2)
  by (simp add: cw721_job_def range_job_isl skips_def HANDLE_CW721_TRANSACTION_def [THEN arg_cong, of job_guard])

theorem cw721_unknown_burn_blocks_witness:
  "isl (cw721_job sample_wasm_config sample_cw721_ext (sample_cw721_db 4))"
proof -
  have range: "cw721_pos sample_wasm_config (sample_cw721_db 4) = 0"
    "job_end sample_wasm_config HANDLE_CW721_TRANSACTION (block_checkpoint (sample_cw721_db 4)) = 4" by code_simp+
  let ?msgs = "cw721_msgs 0 4 (sample_cw721_db 4)"
  have len: "length ?msgs = 4" by code_simp
  then have split: "?msgs = take 3 ?msgs @ ?msgs ! 3 # drop 4 ?msgs" using id_take_nth_drop [of 3 ?msgs] by simp
  have burn: "m_contractAddress (?msgs ! 3) = ''aura1c''" "m_action (?msgs ! 3) = Some ''burn''"
    "m_attr (?msgs ! 3) ''token_id'' = Some ''b''"
    "fold (nft_step ''aura1c'') (take 3 ?msgs) (nft_rows 7 (cw721_tokens (sample_cw721_db 4))) ''b'' = None"
    by code_simp+
  show ?thesis
  proof (rule cw721_unknown_burn_blocks [OF sample_cw721_ok _ _ burn])
    show "cw721_msgs (cw721_pos sample_wasm_config (sample_cw721_db 4))
        (job_end sample_wasm_config HANDLE_CW721_TRANSACTION (block_checkpoint (sample_cw721_db 4))) (sample_cw721_db 4) =
      take 3 ?msgs @ ?msgs ! 3 # drop 4 ?msgs"
      unfolding range by (rule split)
  qed (simp add: range)
qed

end
