(* ===== verification/Pages.thy ===== *)
theory Pages
  imports Prelude
begin

text \<open>
  Loops that read page by page: the loop that asks a contract for the next page of its tokens or
  accounts until it gets an empty one (\<^verbatim>\<open>src/models/cw721_contract.ts\<close> and \<^verbatim>\<open>cw20_contract.ts\<close>), and the
  jobs that handle one page of stored events and queue themselves for the next. Nothing bounds
  these loops, so they are partial functions and that they end is proved.
\<close>

section \<open>Answers of a contract\<close>

text \<open>
  \<^verbatim>\<open>do { \<dots> } while (startAfter)\<close>: the query answers with the items after an item, or throws. An empty
  page ends the loop, and so does a page whose last item is the empty text.
\<close>

partial_function (option) all_pages ::
  "(string option \<Rightarrow> string list res) \<Rightarrow> string option \<Rightarrow> string list \<Rightarrow> string list res option"
where
  "all_pages query startAfter acc =
     (case query startAfter of
        Inl e \<Rightarrow> Some (Inl e)
      | Inr items \<Rightarrow>
          if items = [] \<or> last items = [] then Some (Inr (acc @ items))
          else all_pages query (Some (last items)) (acc @ items))"

text \<open>
  What the query messages of the token standards promise: pages of at most \<open>n\<close> items in the order of
  the contract's list, starting after the item given.
\<close>

definition pages_of :: "(string option \<Rightarrow> string list res) \<Rightarrow> nat \<Rightarrow> string list \<Rightarrow> bool" where
  "pages_of query n items \<longleftrightarrow> 0 < n \<and> [] \<notin> set items \<and> query None = Inr (take n items) \<and>
     (\<forall>xs x ys. items = xs @ x # ys \<longrightarrow> query (Some x) = Inr (take n ys))"

lemma all_pages_after:
  assumes "pages_of query n items" and "items = xs @ x # ys"
  shows "all_pages query (Some x) acc = Some (Inr (acc @ ys))"
  using assms(2)
proof (induction "length ys" arbitrary: xs x ys acc rule: less_induct)
  case less
  have q: "query (Some x) = Inr (take n ys)" using assms(1) less.prems by (auto simp: pages_of_def)
  show ?case
  proof (cases "take n ys = []")
    case True
    then have "ys = []" using assms(1) by (auto simp: pages_of_def)
    with q show ?thesis by (simp add: all_pages.simps)
  next
    case False
    then obtain us u where page: "take n ys = us @ [u]" by (metis rev_exhaust)
    then have ys: "ys = us @ u # drop n ys" by (metis append_Cons append_Nil append_assoc append_take_drop_id)
    then have "u \<in> set ys" by (metis in_set_conv_decomp)
    then have "u \<in> set items" using less.prems by simp
    then have "u \<noteq> []" using assms(1) by (auto simp: pages_of_def)
    moreover have "all_pages query (Some u) (acc @ take n ys) = Some (Inr ((acc @ take n ys) @ drop n ys))"
    proof (rule less.hyps)
      show "length (drop n ys) < length ys" using False by auto
      show "items = (xs @ x # us) @ u # drop n ys" using less.prems ys by simp
    qed
    moreover have "(acc @ take n ys) @ drop n ys = acc @ ys" by simp
    ultimately show ?thesis using q False page by (simp only: all_pages.simps [of query "Some x"]) simp
  qed
qed

lemma all_pages_complete:
  assumes "pages_of query n items"
  shows "all_pages query None [] = Some (Inr items)"
proof (cases "take n items = []")
  case True
  then have "items = []" using assms by (auto simp: pages_of_def)
  with assms show ?thesis by (simp add: all_pages.simps pages_of_def)
next
  case False
  then obtain us u where page: "take n items = us @ [u]" by (metis rev_exhaust)
  then have items: "items = us @ u # drop n items" by (metis append_Cons append_Nil append_assoc append_take_drop_id)
  then have "u \<noteq> []" using assms by (metis in_set_conv_decomp pages_of_def)
  moreover have "all_pages query (Some u) (take n items) = Some (Inr items)"
    using all_pages_after [OF assms items, of "take n items"] by simp
  moreover have "query None = Inr (take n items)" using assms by (simp add: pages_of_def)
  ultimately show ?thesis using False page by (simp add: all_pages.simps [of query None])
qed

section \<open>Jobs that queue themselves\<close>

text \<open>The job is given where the last page ended; it ends, or names where the next one starts.\<close>

partial_function (option) run_pages ::
  "(int \<Rightarrow> 'db \<Rightarrow> ('db \<times> int option) res) \<Rightarrow> int \<Rightarrow> 'db \<Rightarrow> 'db res option"
where
  "run_pages job prevId db =
     (case job prevId db of
        Inl e \<Rightarrow> Some (Inl e)
      | Inr r \<Rightarrow>
          (case snd r of
             None \<Rightarrow> Some (Inr (fst r))
           | Some nextId \<Rightarrow> run_pages job nextId (fst r)))"

fun chunks :: "nat \<Rightarrow> 'x list \<Rightarrow> 'x list list" where
  "chunks n [] = []"
| "chunks n (x # xs) = (x # take (n - 1) xs) # chunks n (drop (n - 1) xs)"

lemma concat_page_chunks [simp]: "concat (chunks n xs) = xs"
  by (induction n xs rule: chunks.induct) simp_all

lemma chunks_eq: "0 < n \<Longrightarrow> xs \<noteq> [] \<Longrightarrow> chunks n xs = take n xs # chunks n (drop n xs)"
  by (cases xs; cases n) simp_all

lemma chunks_nonempty: "c \<in> set (chunks n xs) \<Longrightarrow> c \<noteq> []"
  by (induction n xs rule: chunks.induct) auto

text \<open>
  A paged job over events that have increasing ids and that its handler does not change: it handles
  the events after the given id in pages of \<open>limit\<close>, and finishes when none is left.
\<close>

locale paged_job =
  fixes events :: "'db \<Rightarrow> 'e list"
    and eid :: "'e \<Rightarrow> int"
    and limit :: nat
    and handle :: "'e list \<Rightarrow> 'db \<Rightarrow> 'db res"
    and finish :: "'db \<Rightarrow> 'db"
    and job :: "int \<Rightarrow> 'db \<Rightarrow> ('db \<times> int option) res"
    and ok :: "'db \<Rightarrow> bool"
  assumes limit_pos: "0 < limit"
    and job_def: "job prevId db =
      (let page = take limit (filter (\<lambda>e. prevId < eid e) (events db)) in
       if page = [] then Inr (finish db, None)
       else rbind (handle page db) (\<lambda>db'. Inr (db', Some (eid (last page)))))"
    and ids_increase: "ok db \<Longrightarrow> sorted_wrt (<) (map eid (events db))"
    and handle_events: "ok db \<Longrightarrow> handle es db = Inr db' \<Longrightarrow> events db' = events db \<and> ok db'"
begin

lemma rest_of_page:
  assumes "sorted_wrt (<) (map eid es)" and "take limit (filter (\<lambda>e. p < eid e) es) = page" and "page \<noteq> []"
  shows "filter (\<lambda>e. eid (last page) < eid e) es = drop limit (filter (\<lambda>e. p < eid e) es)"
proof -
  let ?es = "filter (\<lambda>e. p < eid e) es"
  have all: "?es = page @ drop limit ?es" using assms(2) by (metis append_take_drop_id)
  have "sorted_wrt (<) (map eid ?es)" using assms(1) by (simp add: sorted_wrt_map sorted_wrt_filter)
  then have sorted: "sorted_wrt (\<lambda>x y. eid x < eid y) (page @ drop limit ?es)" using all by (metis sorted_wrt_map)
  have "last page \<in> set ?es" using assms(3) by (subst all) simp
  then have "p < eid (last page)" by simp
  then have "filter (\<lambda>e. eid (last page) < eid e) es = filter (\<lambda>e. eid (last page) < eid e) ?es"
    by (auto intro!: filter_cong)
  also have "\<dots> = filter (\<lambda>e. eid (last page) < eid e) page @ filter (\<lambda>e. eid (last page) < eid e) (drop limit ?es)"
    by (subst all) simp
  also have "filter (\<lambda>e. eid (last page) < eid e) page = []"
  proof -
    obtain us u where page: "page = us @ [u]" using assms(3) by (metis rev_exhaust)
    with sorted have "\<forall>x\<in>set us. eid x < eid u" by (simp add: sorted_wrt_append)
    with page show ?thesis by (auto simp: filter_empty_conv)
  qed
  also have "filter (\<lambda>e. eid (last page) < eid e) (drop limit ?es) = drop limit ?es"
    using sorted assms(3) by (simp add: sorted_wrt_append)
  finally show ?thesis by simp
qed

text \<open>The loop ends, whatever the handler does, and its result is that of handling all pages in order.\<close>

theorem run_pages_result:
  assumes "ok db"
  shows "run_pages job prevId db =
    Some (rbind (rfold handle (chunks limit (filter (\<lambda>e. prevId < eid e) (events db))) db) (\<lambda>db'. Inr (finish db')))"
  using assms
proof (induction "length (filter (\<lambda>e. prevId < eid e) (events db))" arbitrary: prevId db rule: less_induct)
  case less
  let ?es = "filter (\<lambda>e. prevId < eid e) (events db)"
  let ?page = "take limit ?es"
  show ?case
  proof (cases "?page = []")
    case True
    then have "?es = []" using limit_pos by simp
    then show ?thesis using True by (simp add: run_pages.simps job_def)
  next
    case False
    show ?thesis
    proof (cases "handle ?page db")
      case (Inl e)
      with False limit_pos show ?thesis by (simp add: run_pages.simps job_def Let_def chunks_eq)
    next
      case (Inr db')
      with handle_events less.prems have ev: "events db' = events db" and ok': "ok db'" by blast+
      have rest: "filter (\<lambda>e. eid (last ?page) < eid e) (events db') = drop limit ?es"
        using rest_of_page [OF ids_increase [OF less.prems] refl False] ev by simp
      have "run_pages job (eid (last ?page)) db' =
          Some (rbind (rfold handle (chunks limit (drop limit ?es)) db') (\<lambda>db'. Inr (finish db')))"
        using less.hyps [of "eid (last ?page)" db'] ok' rest False limit_pos by simp
      with Inr False limit_pos show ?thesis
        by (simp add: run_pages.simps [of job prevId] job_def Let_def chunks_eq)
    qed
  qed
qed

end

end
