(* ===== verification/Cw20.thy ===== *)
theory Cw20
  imports Contract_Event Pages "HOL-Library.AList"
begin

text \<open>
  CW-20 tokens: contracts with their supply, the balances of their holders, the activities, and the
  number of holders of a day. The theory holds the models (\<^verbatim>\<open>src/models/cw20_contract.ts\<close>,
  \<^verbatim>\<open>cw20_holder.ts\<close>, \<^verbatim>\<open>cw20_activity.ts\<close>, \<^verbatim>\<open>cw20_total_holder_stats.ts\<close>) and the operations of the services
  \<^verbatim>\<open>src/services/cw20/cw20.service.ts\<close>, \<^verbatim>\<open>cw20_update_by_contract.service.ts\<close> and
  \<^verbatim>\<open>cw20_reindexing.service.ts\<close>. The first stores the activities of a range of heights and queues, per
  contract, a job of the second, which moves the balances.
\<close>

section \<open>State and parameters\<close>

text \<open>The columns \<^verbatim>\<open>total_supply\<close> and \<^verbatim>\<open>amount\<close> are whole numbers of up to 80 digits.\<close>

record cw20_contract =
  tc_id :: int
  tc_smart_contract_id :: int
  tc_marketing_info :: "string option"
  tc_total_supply :: int
  tc_symbol :: "string option"
  tc_decimal :: "string option"
  tc_minter :: "string option"
  tc_name :: "string option"
  tc_track :: bool
  tc_last_updated_height :: int

text \<open>A contract and an address have one row.\<close>

record cw20_holder =
  th_cw20_contract_id :: int
  th_address :: string
  th_amount :: int
  th_last_updated_height :: int

record cw20_activity =
  ta_id :: int
  ta_smart_contract_event_id :: int
  ta_sender :: string
  ta_action :: string
  ta_cw20_contract_id :: int
  ta_amount :: "int option"
  ta_from :: "string option"
  ta_to :: "string option"
  ta_height :: int
  ta_tx_hash :: string
  ta_tx_id :: int

record cw20_total_holder_stats =
  ts_cw20_contract_id :: int
  ts_total_holder :: nat
  ts_date :: int

record update_by_contract_param =
  ub_cw20ContractId :: int
  ub_startBlock :: int
  ub_endBlock :: int

text \<open>The two queues: updates of one contract, in order, and the contracts to reindex, by address.\<close>

record 'c cw20_db = "'c contract_event_db" +
  cw20_contracts :: "cw20_contract list"
  cw20_contract_seq :: int
  cw20_holders :: "cw20_holder list"
  cw20_activities :: "cw20_activity list"
  cw20_activity_seq :: int
  cw20_stats :: "cw20_total_holder_stats list"
  cw20_update_jobs :: "update_by_contract_param list"
  cw20_reindex_jobs :: "(string \<times> int) list"

record cw20_token_info =
  ti_symbol :: "string option"
  ti_decimals :: "string option"
  ti_name :: "string option"

text \<open>
  The answers of a contract: an error of the transport is thrown, an answer that is no JSON text of
  the expected shape is \<open>None\<close>; an account's balance comes with the height of the answer. Besides,
  the whole number that a numeric column makes of a text, and the local day of a block's time.
\<close>

record cw20_ext =
  token_info :: "string \<Rightarrow> cw20_token_info option res"
  query_minter :: "string \<Rightarrow> string option res"
  query_marketing_info :: "string \<Rightarrow> string option res"
  all_accounts :: "string \<Rightarrow> string option \<Rightarrow> string list res"
  query_balance :: "string \<Rightarrow> string \<Rightarrow> (nat \<times> int) res"
  to_numeric :: "string \<Rightarrow> int option"
  day_of :: "string \<Rightarrow> int"

section \<open>Contracts\<close>

record holder_event =
  he_address :: string
  he_amount :: int
  he_event_height :: int

definition getInstantiateBalances :: "cw20_ext \<Rightarrow> string \<Rightarrow> holder_event list res option" where
  "getInstantiateBalances ext contractAddress =
     map_option (\<lambda>r. rbind r (rmap (\<lambda>account.
         rbind (query_balance ext contractAddress account) (\<lambda>(amount, height).
           Inr \<lparr>he_address = account, he_amount = int amount, he_event_height = height\<rparr>))))
       (all_pages (all_accounts ext contractAddress) None [])"

record cw20_contract_info =
  ci_address :: string
  ci_symbol :: "string option"
  ci_minter :: "string option"
  ci_decimal :: "string option"
  ci_marketing_info :: "string option"
  ci_name :: "string option"

definition getContractsInfo :: "cw20_ext \<Rightarrow> string list \<Rightarrow> cw20_contract_info list res" where
  "getContractsInfo ext contractAddresses =
     rbind (rmap (token_info ext) contractAddresses) (\<lambda>infos.
     rbind (rmap (query_minter ext) contractAddresses) (\<lambda>minters.
     rbind (rmap (query_marketing_info ext) contractAddresses) (\<lambda>marketings.
       Inr (map (\<lambda>(address, info, minter, marketing).
           \<lparr>ci_address = address, ci_symbol = Option.bind info ti_symbol, ci_minter = minter,
            ci_decimal = Option.bind info ti_decimals, ci_marketing_info = marketing,
            ci_name = Option.bind info ti_name\<rparr>)
         (zip contractAddresses (zip infos (zip minters marketings)))))))"

text \<open>A contract's address, and the tracked contracts among some addresses.\<close>

definition cw20_address :: "('c, 'a) wasm_db_scheme \<Rightarrow> cw20_contract \<Rightarrow> string option" where
  "cw20_address db n = map_option k_address (find (\<lambda>k. k_id k = tc_smart_contract_id n) (smart_contracts db))"

definition tracked_cw20 :: "string list \<Rightarrow> ('c, 'a) cw20_db_scheme \<Rightarrow> (string \<times> cw20_contract) list" where
  "tracked_cw20 addresses db =
     List.map_filter (\<lambda>n. case cw20_address db n of
         None \<Rightarrow> None
       | Some a \<Rightarrow> if a \<in> set addresses \<and> tc_track n then Some (a, n) else None) (cw20_contracts db)"

section \<open>Events\<close>

text \<open>A contract event with the columns of the rows it is joined with, and its message's sender.\<close>

record cw20_event =
  ev_contract_address :: string
  ev_action :: "string option"
  ev_smart_contract_id :: int
  ev_smart_contract_event_id :: int
  ev_hash :: string
  ev_height :: int
  ev_tx_id :: int
  ev_attributes :: "event_attribute list"
  ev_message_sender :: "string option"

definition message_sender :: "('c, 'a) chain_db_scheme \<Rightarrow> event_row \<Rightarrow> string option" where
  "message_sender db e =
     (case (evt_tx_id e, evt_tx_msg_index e) of
        (Some i, Some j) \<Rightarrow> map_option msg_sender (find (\<lambda>m. msg_tx_id m = i \<and> msg_index m = j) (message_table db))
      | _ \<Rightarrow> None)"

definition cw20_event_of :: "('c, 'a) contract_event_db_scheme \<Rightarrow> smart_contract_event \<Rightarrow> (int \<times> cw20_event) option" where
  "cw20_event_of db se =
     (case contract_event_join db se of
        None \<Rightarrow> None
      | Some (e, t, k, c) \<Rightarrow>
          if cd_type c = Some ''CW20''
          then Some (evt_block_height e,
            \<lparr>ev_contract_address = k_address k, ev_action = se_action se, ev_smart_contract_id = k_id k,
             ev_smart_contract_event_id = se_id se, ev_hash = tx_hash t, ev_height = tx_height t,
             ev_tx_id = se_tx_id se, ev_attributes = se_attributes se, ev_message_sender = message_sender db e\<rparr>)
          else None)"

definition getCw20ContractEvents ::
  "int \<Rightarrow> int \<Rightarrow> int option \<Rightarrow> (int \<times> nat) option \<Rightarrow> ('c, 'a) contract_event_db_scheme \<Rightarrow> cw20_event list"
where
  "getCw20ContractEvents startBlk endBlk smartContractId page db =
     (let rows = List.map_filter (cw20_event_of db) (smart_contract_events db);
          inRange = filter (\<lambda>(h, ev). in_range startBlk endBlk h \<and>
            (case smartContractId of None \<Rightarrow> True | Some i \<Rightarrow> i = 0 \<or> ev_smart_contract_id ev = i)) rows;
          events = map snd inRange in
      case page of
        None \<Rightarrow> events
      | Some (prevId, limit) \<Rightarrow> take limit (filter (\<lambda>ev. prevId < ev_smart_contract_event_id ev) events))"

section \<open>New contracts\<close>

definition insert_cw20_contract ::
  "cw20_contract \<Rightarrow> ('c, 'a) cw20_db_scheme \<Rightarrow> ('c, 'a) cw20_db_scheme res"
where
  "insert_cw20_contract n db =
     (if tc_smart_contract_id n \<in> set (map tc_smart_contract_id (cw20_contracts db))
      then Inl (DbError ''duplicate key value violates unique constraint'')
      else Inr (db\<lparr>cw20_contracts := cw20_contracts db @ [n], cw20_contract_seq := cw20_contract_seq db + 1\<rparr>))"

definition insert_cw20_holder ::
  "cw20_holder \<Rightarrow> ('c, 'a) cw20_db_scheme \<Rightarrow> ('c, 'a) cw20_db_scheme res"
where
  "insert_cw20_holder h db =
     (if list_ex (\<lambda>g. th_cw20_contract_id g = th_cw20_contract_id h \<and> th_address g = th_address h) (cw20_holders db)
      then Inl (DbError ''duplicate key value violates unique constraint'')
      else Inr (db\<lparr>cw20_holders := cw20_holders db @ [h]\<rparr>))"

text \<open>\<^verbatim>\<open>insertGraph\<close> of a contract with its holders; the supply is the sum of the balances.\<close>

definition new_cw20_contract ::
  "int \<Rightarrow> int \<Rightarrow> cw20_contract_info option \<Rightarrow> bool \<Rightarrow> holder_event list \<Rightarrow> int \<Rightarrow> cw20_contract"
where
  "new_cw20_contract newId smartContractId info track initBalances height =
     \<lparr>tc_id = newId, tc_smart_contract_id = smartContractId,
      tc_marketing_info = Option.bind info ci_marketing_info, tc_total_supply = sum_list (map he_amount initBalances),
      tc_symbol = Option.bind info ci_symbol, tc_decimal = Option.bind info ci_decimal,
      tc_minter = Option.bind info ci_minter, tc_name = Option.bind info ci_name,
      tc_track = track, tc_last_updated_height = height\<rparr>"

definition initial_holder :: "int \<Rightarrow> holder_event \<Rightarrow> cw20_holder" where
  "initial_holder newId e =
     \<lparr>th_cw20_contract_id = newId, th_address = he_address e, th_amount = he_amount e,
      th_last_updated_height = he_event_height e\<rparr>"

definition insert_cw20_graph ::
  "int \<Rightarrow> cw20_contract_info option \<Rightarrow> bool \<Rightarrow> holder_event list \<Rightarrow> int \<Rightarrow> ('c, 'a) cw20_db_scheme \<Rightarrow>
    ('c, 'a) cw20_db_scheme res"
where
  "insert_cw20_graph smartContractId info track initBalances height db =
     (let newId = cw20_contract_seq db in
      rbind (insert_cw20_contract (new_cw20_contract newId smartContractId info track initBalances height) db)
        (rfold insert_cw20_holder (map (initial_holder newId) initBalances)))"

definition min_height :: "holder_event list \<Rightarrow> int" where
  "min_height es = (case map he_event_height es of [] \<Rightarrow> 0 | h # hs \<Rightarrow> fold min hs h)"

definition max_height :: "holder_event list \<Rightarrow> int" where
  "max_height es = (case map he_event_height es of [] \<Rightarrow> 0 | h # hs \<Rightarrow> fold max hs h)"

text \<open>When the balances cannot be read the contract is stored without holders and is not tracked.\<close>

definition balances_or_untracked :: "holder_event list res \<Rightarrow> bool \<times> holder_event list" where
  "balances_or_untracked r = (case r of Inl e \<Rightarrow> (False, []) | Inr es \<Rightarrow> (True, es))"

text \<open>The balances of several contracts; \<open>None\<close> when one of them never stops answering.\<close>

fun all_balances :: "cw20_ext \<Rightarrow> cw20_event list \<Rightarrow> (cw20_event \<times> holder_event list res) list option" where
  "all_balances ext [] = Some []"
| "all_balances ext (ev # evs) =
     Option.bind (getInstantiateBalances ext (ev_contract_address ev)) (\<lambda>r.
     Option.bind (all_balances ext evs) (\<lambda>rs. Some ((ev, r) # rs)))"

definition store_instantiated ::
  "cw20_contract_info list \<Rightarrow> cw20_event \<times> holder_event list res \<Rightarrow> ('c, 'a) cw20_db_scheme \<Rightarrow> ('c, 'a) cw20_db_scheme res"
where
  "store_instantiated contractsInfo x db =
     (case x of (ev, r) \<Rightarrow> (case balances_or_untracked r of (track, initBalances) \<Rightarrow>
        insert_cw20_graph (ev_smart_contract_id ev) (find (\<lambda>i. ci_address i = ev_contract_address ev) contractsInfo)
          track initBalances (min_height initBalances) db))"

definition handleCw20Instantiate ::
  "cw20_ext \<Rightarrow> cw20_event list \<Rightarrow> ('c, 'a) cw20_db_scheme \<Rightarrow> ('c, 'a) cw20_db_scheme res option"
where
  "handleCw20Instantiate ext cw20InstantiateEvents db =
     (if cw20InstantiateEvents = [] then Some (Inr db)
      else case getContractsInfo ext (map ev_contract_address cw20InstantiateEvents) of
        Inl e \<Rightarrow> Some (Inl e)
      | Inr contractsInfo \<Rightarrow>
          map_option (\<lambda>answers. rfold (store_instantiated contractsInfo) answers db)
            (all_balances ext cw20InstantiateEvents))"

section \<open>Activities\<close>

definition cw20_activity_of :: "cw20_ext \<Rightarrow> cw20_contract \<Rightarrow> cw20_event \<Rightarrow> (int \<Rightarrow> cw20_activity) res" where
  "cw20_activity_of ext n ev =
     rbind (need (ev_message_sender ev)) (\<lambda>sender.
       Inr (\<lambda>newId. \<lparr>ta_id = newId, ta_smart_contract_event_id = ev_smart_contract_event_id ev, ta_sender = sender,
           ta_action = coerce_string (ev_action ev), ta_cw20_contract_id = tc_id n,
           ta_amount = Option.bind (getAttributeFrom (ev_attributes ev) ''amount'') (to_numeric ext),
           ta_from = getAttributeFrom (ev_attributes ev) ''from'', ta_to = getAttributeFrom (ev_attributes ev) ''to'',
           ta_height = ev_height ev, ta_tx_hash = ev_hash ev, ta_tx_id = ev_tx_id ev\<rparr>))"

text \<open>The database rejects a row whose amount is a text that is no number.\<close>

definition amount_accepted :: "cw20_ext \<Rightarrow> cw20_event \<Rightarrow> bool" where
  "amount_accepted ext ev \<longleftrightarrow>
     (case getAttributeFrom (ev_attributes ev) ''amount'' of None \<Rightarrow> True | Some s \<Rightarrow> to_numeric ext s \<noteq> None)"

definition insert_cw20_activities ::
  "(int \<Rightarrow> cw20_activity) list \<Rightarrow> ('c, 'a) cw20_db_scheme \<Rightarrow> ('c, 'a) cw20_db_scheme"
where
  "insert_cw20_activities rows db =
     db\<lparr>cw20_activities := cw20_activities db @
          map (\<lambda>(k, f). f (cw20_activity_seq db + int k)) (zip [0..<length rows] rows),
        cw20_activity_seq := cw20_activity_seq db + int (length rows)\<rparr>"

definition handleCw20Histories ::
  "cw20_ext \<Rightarrow> cw20_event list \<Rightarrow> ('c, 'a) cw20_db_scheme \<Rightarrow> ('c, 'a) cw20_db_scheme res"
where
  "handleCw20Histories ext cw20Events db =
     (let byAddress = map_option snd \<circ> keyBy fst (tracked_cw20 (map ev_contract_address cw20Events) db);
          mine = List.map_filter (\<lambda>ev. case byAddress (ev_contract_address ev) of
                     None \<Rightarrow> None
                   | Some n \<Rightarrow> if tc_id n = 0 then None else Some (n, ev)) cw20Events in
      rbind (rmap (\<lambda>(n, ev). cw20_activity_of ext n ev) mine) (\<lambda>newHistories.
        if list_all (\<lambda>(_, ev). amount_accepted ext ev) mine then Inr (insert_cw20_activities newHistories db)
        else Inl (DbError ''invalid input syntax for type numeric'')))"

section \<open>Holders of a day\<close>

definition insert_cw20_stats ::
  "cw20_total_holder_stats \<Rightarrow> ('c, 'a) cw20_db_scheme \<Rightarrow> ('c, 'a) cw20_db_scheme res"
where
  "insert_cw20_stats s db =
     (if list_ex (\<lambda>u. ts_cw20_contract_id u = ts_cw20_contract_id s \<and> ts_date u = ts_date s) (cw20_stats db)
      then Inl (DbError ''duplicate key value violates unique constraint'')
      else Inr (db\<lparr>cw20_stats := cw20_stats db @ [s]\<rparr>))"

definition total_holder :: "('c, 'a) cw20_db_scheme \<Rightarrow> int \<Rightarrow> nat" where
  "total_holder db i = length (filter (\<lambda>h. th_cw20_contract_id h = i \<and> 0 < th_amount h) (cw20_holders db))"

definition handleTotalHolderStatistic :: "int \<Rightarrow> ('c, 'a) cw20_db_scheme \<Rightarrow> ('c, 'a) cw20_db_scheme res" where
  "handleTotalHolderStatistic day db =
     rfold insert_cw20_stats
       (map (\<lambda>n. \<lparr>ts_cw20_contract_id = tc_id n, ts_total_holder = total_holder db (tc_id n), ts_date = day\<rparr>)
         (filter (\<lambda>n. tc_track n \<and> 0 < total_holder db (tc_id n)) (cw20_contracts db))) db"

definition handleStatistic ::
  "cw20_ext \<Rightarrow> int \<Rightarrow> ('c, 'a) cw20_db_scheme \<Rightarrow> ('c, 'a) cw20_db_scheme res"
where
  "handleStatistic ext startBlk db =
     (case find (\<lambda>b. blk_height b = startBlk) (block_table db) of
        None \<Rightarrow> Inl NotFoundError
      | Some b \<Rightarrow>
          (let systemDate = day_of ext (blk_time b) in
           case map ts_date (cw20_stats db) of
             [] \<Rightarrow> handleTotalHolderStatistic systemDate db
           | d # ds \<Rightarrow> if fold max ds d < systemDate then handleTotalHolderStatistic systemDate db else Inr db))"

section \<open>The range job\<close>

definition UpdateByContract ::
  "(int \<times> int) list \<Rightarrow> int \<Rightarrow> int \<Rightarrow> ('c, 'a) cw20_db_scheme \<Rightarrow> ('c, 'a) cw20_db_scheme"
where
  "UpdateByContract cw20Contracts startBlk endBlk db =
     db\<lparr>cw20_update_jobs := cw20_update_jobs db @
       List.map_filter (\<lambda>(i, lastUpdated).
           let startUpdateBlock = max startBlk lastUpdated in
           if startUpdateBlock < endBlk
           then Some \<lparr>ub_cw20ContractId = i, ub_startBlock = startUpdateBlock, ub_endBlock = endBlk\<rparr>
           else None) cw20Contracts\<rparr>"

definition HANDLE_CW20 :: job_decl where
  "HANDLE_CW20 =
     \<lparr>job_name = ''handle:cw20'', lastHeightJobNames = [''crawl:contract-event''],
      configName = Some ''cw20'', job_guard = SkipGE\<rparr>"

text \<open>The transaction of a run: contracts, activities and the checkpoint.\<close>

definition cw20_transaction ::
  "cw20_ext \<Rightarrow> cw20_event list \<Rightarrow> string \<times> int \<Rightarrow> ('c, 'a) cw20_db_scheme \<Rightarrow> ('c, 'a) cw20_db_scheme res option"
where
  "cw20_transaction ext cw20Events row db =
     (if cw20Events = [] then Some (Inr (saveCheckpoint row db))
      else map_option (\<lambda>r.
          rbind r (\<lambda>db1.
          rbind (handleCw20Histories ext cw20Events db1) (\<lambda>db2.
            Inr (saveCheckpoint row db2))))
        (handleCw20Instantiate ext (filter (\<lambda>ev. ev_action ev = Some ''instantiate'') cw20Events) db))"

definition jobHandleCw20 ::
  "config \<Rightarrow> cw20_ext \<Rightarrow> ('c, 'a) cw20_db_scheme \<Rightarrow> ('c, 'a) cw20_db_scheme outcome option"
where
  "jobHandleCw20 cfg ext db =
     (case getCheckpoint cfg (block_checkpoint db) (job_name HANDLE_CW20) (lastHeightJobNames HANDLE_CW20) (configName HANDLE_CW20)
      of (startBlk, endBlk, row) \<Rightarrow>
        (case handleStatistic ext startBlk db of
           Inl e \<Rightarrow> Some (db, Some e)
         | Inr db1 \<Rightarrow>
             if startBlk \<ge> endBlk then Some (db1, None)
             else
               (let cw20Events = getCw20ContractEvents startBlk endBlk None None db1 in
                map_option (\<lambda>r. case r of
                     Inl e \<Rightarrow> (db1, Some e)
                   | Inr db2 \<Rightarrow>
                       (UpdateByContract
                          (map (\<lambda>(_, n). (tc_id n, tc_last_updated_height n))
                            (tracked_cw20 (map ev_contract_address cw20Events) db2)) startBlk endBlk db2, None))
                  (cw20_transaction ext cw20Events (fst row, endBlk) db1))))"
section \<open>Balances\<close>

definition balance_actions :: "string list" where
  "balance_actions =
     [''mint'', ''burn'', ''transfer'', ''send'', ''transfer_from'', ''burn_from'', ''send_from'']"

type_synonym holder_dict = "(string \<times> cw20_holder) list"

definition load_cw20_holders :: "cw20_activity list \<Rightarrow> int \<Rightarrow> ('c, 'a) cw20_db_scheme \<Rightarrow> holder_dict" where
  "load_cw20_holders orderEvents cw20ContractId db =
     (let addresses = concat (map (\<lambda>ev. (if truthy (ta_from ev) then [the (ta_from ev)] else []) @
            (if truthy (ta_to ev) then [the (ta_to ev)] else [])) orderEvents) in
      fold (\<lambda>h. AList.update (th_address h) h)
        (filter (\<lambda>h. th_address h \<in> set addresses \<and> th_cw20_contract_id h = cw20ContractId) (cw20_holders db)) [])"

text \<open>The sender of an event must be known; the recipient need not.\<close>

definition debit_sender ::
  "int \<Rightarrow> cw20_activity \<Rightarrow> int \<Rightarrow> holder_dict \<times> int \<Rightarrow> (holder_dict \<times> int) res"
where
  "debit_sender cw20ContractId event amount st =
     (case st of (holders, addAmount) \<Rightarrow>
        if truthy (ta_from event)
        then rbind (need (map_of holders (the (ta_from event)))) (\<lambda>h.
          if th_last_updated_height h \<le> ta_height event
          then Inr (AList.update (the (ta_from event))
                 \<lparr>th_cw20_contract_id = cw20ContractId, th_address = the (ta_from event),
                  th_amount = th_amount h - amount, th_last_updated_height = ta_height event\<rparr> holders,
               addAmount - amount)
          else Inr (holders, addAmount))
        else Inr (holders, addAmount))"

definition credit_recipient :: "int \<Rightarrow> cw20_activity \<Rightarrow> int \<Rightarrow> holder_dict \<times> int \<Rightarrow> holder_dict \<times> int" where
  "credit_recipient cw20ContractId event amount st =
     (case st of (holders, addAmount) \<Rightarrow>
        if truthy (ta_to event) \<and>
           (case map_of holders (the (ta_to event)) of None \<Rightarrow> 0 | Some h \<Rightarrow> th_last_updated_height h) \<le> ta_height event
        then (AList.update (the (ta_to event))
                \<lparr>th_cw20_contract_id = cw20ContractId, th_address = the (ta_to event),
                 th_amount = (case map_of holders (the (ta_to event)) of None \<Rightarrow> 0 | Some h \<Rightarrow> th_amount h) + amount,
                 th_last_updated_height = ta_height event\<rparr> holders,
              addAmount + amount)
        else (holders, addAmount))"

definition update_holder :: "int \<Rightarrow> cw20_activity \<Rightarrow> holder_dict \<times> int \<Rightarrow> (holder_dict \<times> int) res" where
  "update_holder cw20ContractId event st =
     (case ta_amount event of
        None \<Rightarrow> Inl (JsError (''handle event '' @ show_int (ta_id event) @ '' not found amount''))
      | Some amount \<Rightarrow>
          rbind (debit_sender cw20ContractId event amount st) (\<lambda>st'. Inr (credit_recipient cw20ContractId event amount st')))"

text \<open>\<^verbatim>\<open>insert(\<dots>).onConflict(['cw20_contract_id', 'address']).merge()\<close>\<close>

definition upsert_cw20_holder :: "cw20_holder \<Rightarrow> cw20_holder list \<Rightarrow> cw20_holder list" where
  "upsert_cw20_holder h hs =
     (if list_ex (\<lambda>g. th_cw20_contract_id g = th_cw20_contract_id h \<and> th_address g = th_address h) hs
      then map (\<lambda>g. if th_cw20_contract_id g = th_cw20_contract_id h \<and> th_address g = th_address h then h else g) hs
      else hs @ [h])"

definition updateBalanceHolders ::
  "cw20_activity list \<Rightarrow> int \<Rightarrow> ('c, 'a) cw20_db_scheme \<Rightarrow> (('c, 'a) cw20_db_scheme \<times> int) res"
where
  "updateBalanceHolders cw20Events cw20ContractId db =
     (let orderEvents = sort_key ta_id (filter (\<lambda>ev. ta_action ev \<in> set balance_actions) cw20Events) in
      rbind (rfold (update_holder cw20ContractId) orderEvents (load_cw20_holders orderEvents cw20ContractId db, 0))
        (\<lambda>(holders, addAmount).
          Inr (db\<lparr>cw20_holders := fold (\<lambda>(address, h). upsert_cw20_holder
                  (h\<lparr>th_cw20_contract_id := cw20ContractId, th_address := address\<rparr>)) holders (cw20_holders db)\<rparr>,
               addAmount)))"

definition jobHandle ::
  "update_by_contract_param \<Rightarrow> ('c, 'a) cw20_db_scheme \<Rightarrow> ('c, 'a) cw20_db_scheme res"
where
  "jobHandle p db =
     (let cid = ub_cw20ContractId p;
          newEvents = filter (\<lambda>a. ta_cw20_contract_id a = cid \<and> in_range (ub_startBlock p) (ub_endBlock p) (ta_height a))
            (cw20_activities db) in
      if newEvents = [] then Inr db
      else rbind (updateBalanceHolders newEvents cid db) (\<lambda>(db1, addAmount).
        if cid \<in> set (map tc_id (cw20_contracts db1))
        then Inr (db1\<lparr>cw20_contracts := map (\<lambda>n. if tc_id n = cid
                then n\<lparr>tc_total_supply := tc_total_supply n + addAmount, tc_last_updated_height := ub_endBlock p\<rparr>
                else n) (cw20_contracts db1)\<rparr>)
        else Inl NotFoundError))"

section \<open>Reindexing\<close>

record cw20_history_params =
  ch_smartContractId :: int
  ch_startBlock :: int
  ch_endBlock :: int
  ch_contractAddress :: string

text \<open>The job that it creates for the next page is the id with which that page starts.\<close>

definition cw20_history_events ::
  "cw20_history_params \<Rightarrow> (int \<times> nat) option \<Rightarrow> ('c, 'a) contract_event_db_scheme \<Rightarrow> cw20_event list"
where
  "cw20_history_events p page db =
     getCw20ContractEvents (ch_startBlock p) (ch_endBlock p) (Some (ch_smartContractId p)) page db"

definition remove_cw20_reindex_job :: "string \<Rightarrow> ('c, 'a) cw20_db_scheme \<Rightarrow> ('c, 'a) cw20_db_scheme" where
  "remove_cw20_reindex_job addr db =
     db\<lparr>cw20_reindex_jobs := filter (\<lambda>(a, _). a \<noteq> addr) (cw20_reindex_jobs db)\<rparr>"

definition reindexHistory ::
  "cw20_ext \<Rightarrow> nat \<Rightarrow> cw20_history_params \<Rightarrow> int \<Rightarrow> ('c, 'a) cw20_db_scheme \<Rightarrow>
    (('c, 'a) cw20_db_scheme \<times> int option) res"
where
  "reindexHistory ext limitRecordGet p prevId db =
     (let events = cw20_history_events p (Some (prevId, limitRecordGet)) db in
      if events = [] then Inr (remove_cw20_reindex_job (ch_contractAddress p) db, None)
      else rbind (handleCw20Histories ext events db) (\<lambda>db'.
             Inr (db', Some (ev_smart_contract_event_id (last events)))))"

definition cw20_reindexing :: "string \<Rightarrow> ('c, 'a) cw20_db_scheme \<Rightarrow> ('c, 'a) cw20_db_scheme res" where
  "cw20_reindexing contractAddress db =
     (case find (\<lambda>k. k_address k = contractAddress) (smart_contracts db) of
        None \<Rightarrow> Inl NotFoundError
      | Some k \<Rightarrow>
          (case find (\<lambda>c. cd_code_id c = k_code_id k) (codes db) of
             None \<Rightarrow> Inl TypeError
           | Some c \<Rightarrow>
               if cd_type c = Some ''CW20''
               then Inr (if contractAddress \<in> set (map fst (cw20_reindex_jobs db)) then db
                         else db\<lparr>cw20_reindex_jobs := cw20_reindex_jobs db @ [(contractAddress, k_id k)]\<rparr>)
               else Inl (JsError (''Smart contract '' @ contractAddress @ '' is not CW20 type''))))"

definition cw20_contract_at :: "string \<Rightarrow> ('c, 'a) cw20_db_scheme \<Rightarrow> cw20_contract option" where
  "cw20_contract_at addr db = find (\<lambda>n. cw20_address db n = Some addr) (cw20_contracts db)"

definition delete_cw20_contract :: "int \<Rightarrow> ('c, 'a) cw20_db_scheme \<Rightarrow> ('c, 'a) cw20_db_scheme" where
  "delete_cw20_contract i db =
     db\<lparr>cw20_activities := filter (\<lambda>a. ta_cw20_contract_id a \<noteq> i) (cw20_activities db),
        cw20_stats := filter (\<lambda>s. ts_cw20_contract_id s \<noteq> i) (cw20_stats db),
        cw20_holders := filter (\<lambda>h. th_cw20_contract_id h \<noteq> i) (cw20_holders db),
        cw20_contracts := filter (\<lambda>n. tc_id n \<noteq> i) (cw20_contracts db)\<rparr>"

text \<open>
  The rows are replaced in one transaction; after it the update of the heights between the answers
  is queued, and the history job is created.
\<close>

definition replace_cw20_contract ::
  "string \<Rightarrow> int \<Rightarrow> cw20_contract_info option \<Rightarrow> bool \<Rightarrow> holder_event list \<Rightarrow> ('c, 'a) cw20_db_scheme \<Rightarrow>
    ('c, 'a) cw20_db_scheme res"
where
  "replace_cw20_contract contractAddress smartContractId info track initBalances db =
     (let db1 = (case cw20_contract_at contractAddress db of
                   None \<Rightarrow> db | Some n \<Rightarrow> delete_cw20_contract (tc_id n) db) in
      rbind (insert_cw20_graph smartContractId info track initBalances (min_height initBalances) db1) (\<lambda>db2.
        Inr (UpdateByContract [(cw20_contract_seq db1, min_height initBalances)]
               (min_height initBalances) (max_height initBalances) db2)))"

definition cw20_reindex_job ::
  "config \<Rightarrow> cw20_ext \<Rightarrow> string \<times> int \<Rightarrow> ('c, 'a) cw20_db_scheme \<Rightarrow>
    (('c, 'a) cw20_db_scheme \<times> cw20_history_params) res option"
where
  "cw20_reindex_job cfg ext payload db =
     (case payload of (contractAddress, smartContractId) \<Rightarrow>
      case getContractsInfo ext [contractAddress] of
        Inl e \<Rightarrow> Some (Inl e)
      | Inr infos \<Rightarrow>
          map_option (\<lambda>r.
              case balances_or_untracked r of (track, initBalances) \<Rightarrow>
               rbind (replace_cw20_contract contractAddress smartContractId (case infos of [] \<Rightarrow> None | i # _ \<Rightarrow> Some i)
                   track initBalances db) (\<lambda>db'.
                 Inr (db', \<lparr>ch_smartContractId = smartContractId, ch_startBlock = startBlock cfg,
                       ch_endBlock = max_height initBalances, ch_contractAddress = contractAddress\<rparr>)))
            (getInstantiateBalances ext contractAddress))"

end
