(* ===== verification/Cw20_Ledger.thy ===== *)
theory Cw20_Ledger
  imports Cw20
begin

text \<open>
  What the CW-20 services keep true: the supply of every contract is the sum of its holders'
  balances, whatever operation runs, and a balance is the one at first plus what the activities
  move.
\<close>

section \<open>Rows of holders\<close>

definition holder_at :: "int \<Rightarrow> string \<Rightarrow> cw20_holder list \<Rightarrow> cw20_holder option" where
  "holder_at c x hs = find (\<lambda>h. th_cw20_contract_id h = c \<and> th_address h = x) hs"

definition holder_amount :: "cw20_holder option \<Rightarrow> int" where
  "holder_amount v = (case v of None \<Rightarrow> 0 | Some h \<Rightarrow> th_amount h)"

definition holder_sum :: "int \<Rightarrow> cw20_holder list \<Rightarrow> int" where
  "holder_sum c hs = sum_list (map th_amount (filter (\<lambda>h. th_cw20_contract_id h = c) hs))"

definition holder_key :: "cw20_holder \<Rightarrow> int \<times> string" where
  "holder_key h = (th_cw20_contract_id h, th_address h)"

abbreviation holder_keys :: "cw20_holder list \<Rightarrow> (int \<times> string) list" where
  "holder_keys hs \<equiv> map holder_key hs"

lemma holder_amount_simps [simp]: "holder_amount None = 0" "holder_amount (Some h) = th_amount h"
  by (simp_all add: holder_amount_def)

lemma holder_at_None: "holder_at c x hs = None \<longleftrightarrow> (c, x) \<notin> set (holder_keys hs)"
  by (auto simp: holder_at_def holder_key_def find_None_iff)

text \<open>The sum over the rows of a contract is the sum of the balances of its addresses.\<close>

lemma holder_sum_balances:
  assumes "distinct (holder_keys hs)" and "finite S" and "th_address ` {h \<in> set hs. th_cw20_contract_id h = c} \<subseteq> S"
  shows "holder_sum c hs = (\<Sum>x\<in>S. holder_amount (holder_at c x hs))"
  using assms(1,3)
proof (induction hs)
  case (Cons h hs)
  show ?case
  proof (cases "th_cw20_contract_id h = c")
    case True
    let ?x = "th_address h"
    have x: "?x \<in> S" using Cons.prems(2) True by auto
    have "holder_at c ?x hs = None" using Cons.prems(1) True by (simp add: holder_at_None holder_key_def)
    then have "(\<Sum>x\<in>S. holder_amount (holder_at c x (h # hs))) =
        (\<Sum>x\<in>S. holder_amount (holder_at c x hs) + (if x = ?x then th_amount h else 0))"
      using True by (intro sum.cong) (auto simp: holder_at_def)
    moreover have "holder_sum c hs = (\<Sum>x\<in>S. holder_amount (holder_at c x hs))"
      using Cons.prems by (intro Cons.IH) auto
    ultimately show ?thesis using True x assms(2) by (simp add: holder_sum_def sum.distrib)
  next
    case False
    with Cons show ?thesis by (auto simp: holder_sum_def holder_at_def)
  qed
qed (simp add: holder_sum_def holder_at_def)

lemma holder_sum_change:
  assumes "distinct (holder_keys hs)" and "distinct (holder_keys hs')" and "finite X"
    and "\<And>x. holder_amount (holder_at c x hs') = holder_amount (holder_at c x hs) + (if x \<in> X then f x else 0)"
  shows "holder_sum c hs' = holder_sum c hs + (\<Sum>x\<in>X. f x)"
proof -
  let ?S = "X \<union> th_address ` set hs \<union> th_address ` set hs'"
  have fin: "finite ?S" using assms(3) by simp
  have "holder_sum c hs' = (\<Sum>x\<in>?S. holder_amount (holder_at c x hs) + (if x \<in> X then f x else 0))"
    unfolding assms(4) [symmetric] by (rule holder_sum_balances [OF assms(2) fin]) auto
  also have "\<dots> = (\<Sum>x\<in>?S. holder_amount (holder_at c x hs)) + (\<Sum>x\<in>X. f x)"
    using fin by (simp add: sum.distrib sum.If_cases Int_absorb1 Un_assoc)
  also have "(\<Sum>x\<in>?S. holder_amount (holder_at c x hs)) = holder_sum c hs"
    by (rule holder_sum_balances [OF assms(1) fin, symmetric]) auto
  finally show ?thesis .
qed

lemma upsert_holder_keys:
  "holder_keys (upsert_cw20_holder h hs) =
    (if holder_key h \<in> set (holder_keys hs) then holder_keys hs else holder_keys hs @ [holder_key h])"
proof (cases "holder_key h \<in> set (holder_keys hs)")
  case True
  then have ex: "list_ex (\<lambda>g. th_cw20_contract_id g = th_cw20_contract_id h \<and> th_address g = th_address h) hs"
    by (auto simp: list_ex_iff holder_key_def)
  have "holder_keys (map (\<lambda>g. if th_cw20_contract_id g = th_cw20_contract_id h \<and> th_address g = th_address h then h else g) hs) =
      holder_keys hs"
    by (simp add: holder_key_def)
  with True ex show ?thesis by (simp only: upsert_cw20_holder_def if_True)
next
  case False
  then have "\<not> list_ex (\<lambda>g. th_cw20_contract_id g = th_cw20_contract_id h \<and> th_address g = th_address h) hs"
    by (auto simp: list_ex_iff holder_key_def image_iff)
  with False show ?thesis by (simp only: upsert_cw20_holder_def if_False map_append list.map)
qed

lemma holder_at_upsert:
  "holder_at c x (upsert_cw20_holder h hs) =
    (if th_cw20_contract_id h = c \<and> th_address h = x then Some h else holder_at c x hs)"
proof -
  let ?k = "\<lambda>g. th_cw20_contract_id g = th_cw20_contract_id h \<and> th_address g = th_address h"
  let ?f = "\<lambda>g. if ?k g then h else g"
  have "find (\<lambda>g. th_cw20_contract_id g = c \<and> th_address g = x) (map ?f hs) =
      (if ?k (h\<lparr>th_cw20_contract_id := c, th_address := x\<rparr>) \<and> list_ex ?k hs then Some h
       else find (\<lambda>g. th_cw20_contract_id g = c \<and> th_address g = x) hs)"
    by (induction hs) auto
  moreover have "find (\<lambda>g. th_cw20_contract_id g = c \<and> th_address g = x) hs = None"
    if "\<not> list_ex ?k hs" "th_cw20_contract_id h = c" "th_address h = x"
    using that by (auto simp: find_None_iff list_ex_iff)
  ultimately show ?thesis
    by (auto simp: holder_at_def upsert_cw20_holder_def find_append split: option.split)
qed

abbreviation store_holders :: "int \<Rightarrow> holder_dict \<Rightarrow> cw20_holder list \<Rightarrow> cw20_holder list" where
  "store_holders c d hs \<equiv>
    fold (\<lambda>(address, h). upsert_cw20_holder (h\<lparr>th_cw20_contract_id := c, th_address := address\<rparr>)) d hs"

lemma store_holders_distinct: "distinct (holder_keys hs) \<Longrightarrow> distinct (holder_keys (store_holders c d hs))"
  by (induction d arbitrary: hs) (auto simp: upsert_holder_keys)

lemma holder_at_store:
  assumes "distinct (map fst d)"
  shows "holder_at c' x (store_holders c d hs) =
    (case if c' = c then map_of d x else None of
       None \<Rightarrow> holder_at c' x hs
     | Some h \<Rightarrow> Some (h\<lparr>th_cw20_contract_id := c, th_address := x\<rparr>))"
  using assms
proof (induction d arbitrary: hs)
  case (Cons e d)
  obtain y h where e: "e = (y, h)" by fastforce
  with Cons.prems have "map_of d y = None" by (simp add: map_of_eq_None_iff)
  with Cons e show ?case by (auto simp: holder_at_upsert split: option.split)
qed simp
section \<open>What one activity does to a holder\<close>

text \<open>The balance of an address with the height up to which it counts; \<open>None\<close> without a row.\<close>

type_synonym holding = "(int \<times> int) option"

definition holding_of :: "cw20_holder option \<Rightarrow> holding" where
  "holding_of v = map_option (\<lambda>h. (th_amount h, th_last_updated_height h)) v"

definition held :: "holding \<Rightarrow> int" where
  "held v = (case v of None \<Rightarrow> 0 | Some (a, _) \<Rightarrow> a)"

definition sends :: "cw20_activity \<Rightarrow> string \<Rightarrow> bool" where
  "sends ev x \<longleftrightarrow> truthy (ta_from ev) \<and> ta_from ev = Some x"

definition receives :: "cw20_activity \<Rightarrow> string \<Rightarrow> bool" where
  "receives ev x \<longleftrightarrow> truthy (ta_to ev) \<and> ta_to ev = Some x"

definition take_out :: "cw20_activity \<Rightarrow> holding \<Rightarrow> holding" where
  "take_out ev v =
     (case v of
        None \<Rightarrow> None
      | Some (a, h) \<Rightarrow> if h \<le> ta_height ev then Some (a - the (ta_amount ev), ta_height ev) else Some (a, h))"

definition put_in :: "cw20_activity \<Rightarrow> holding \<Rightarrow> holding" where
  "put_in ev v =
     (case v of
        None \<Rightarrow> if 0 \<le> ta_height ev then Some (the (ta_amount ev), ta_height ev) else None
      | Some (a, h) \<Rightarrow> if h \<le> ta_height ev then Some (a + the (ta_amount ev), ta_height ev) else Some (a, h))"

definition apply_event :: "cw20_activity \<Rightarrow> string \<Rightarrow> holding \<Rightarrow> holding" where
  "apply_event ev x v =
     (let v1 = (if sends ev x then take_out ev v else v) in if receives ev x then put_in ev v1 else v1)"

abbreviation dict_holding :: "holder_dict \<Rightarrow> string \<Rightarrow> holding" where
  "dict_holding d x \<equiv> holding_of (map_of d x)"

lemma held_holding [simp]: "held (holding_of v) = holder_amount v"
  by (cases v) (simp_all add: held_def holding_of_def)

lemma debit_sender_cases:
  assumes "debit_sender c ev m (d, a) = Inr (d', a')"
  obtains (none) "\<not> truthy (ta_from ev)" "d' = d" "a' = a"
  | (late) x h where "ta_from ev = Some x" "sends ev x" "map_of d x = Some h"
      "ta_height ev < th_last_updated_height h" "d' = d" "a' = a"
  | (debit) x h where "ta_from ev = Some x" "sends ev x" "map_of d x = Some h"
      "th_last_updated_height h \<le> ta_height ev" "a' = a - m"
      "d' = AList.update x \<lparr>th_cw20_contract_id = c, th_address = x, th_amount = th_amount h - m,
        th_last_updated_height = ta_height ev\<rparr> d"
proof (cases "truthy (ta_from ev)")
  case True
  then obtain x where x: "ta_from ev = Some x" "sends ev x" by (auto simp: truthy_def sends_def)
  with True assms obtain h where h: "map_of d x = Some h" by (auto simp: debit_sender_def rbind_eq_Inr need_eq_Inr)
  show thesis
  proof (cases "th_last_updated_height h \<le> ta_height ev")
    case True
    with \<open>truthy (ta_from ev)\<close> assms x h show thesis by (intro debit [of x h]) (simp_all add: debit_sender_def)
  next
    case False
    with \<open>truthy (ta_from ev)\<close> assms x h show thesis by (intro late [of x h]) (simp_all add: debit_sender_def)
  qed
next
  case False
  with assms show thesis by (intro none) (simp_all add: debit_sender_def)
qed

lemma sends_iff: "ta_from ev = Some x \<Longrightarrow> sends ev x \<Longrightarrow> sends ev y \<longleftrightarrow> y = x"
  by (auto simp: sends_def)

lemma debit_sender_holding:
  assumes "debit_sender c ev (the (ta_amount ev)) (d, a) = Inr (d', a')"
  shows "dict_holding d' x = (if sends ev x then take_out ev (dict_holding d x) else dict_holding d x)"
    and "distinct (map fst d) \<Longrightarrow> distinct (map fst d')"
    and "sends ev x \<Longrightarrow> dict_holding d x \<noteq> None"
  using assms
  by (cases rule: debit_sender_cases;
      auto simp: sends_iff take_out_def holding_of_def update_conv' distinct_update sends_def [of _ x])+

lemma credit_recipient_holding:
  assumes "credit_recipient c ev (the (ta_amount ev)) (d, a) = (d', a')"
  shows "dict_holding d' x = (if receives ev x then put_in ev (dict_holding d x) else dict_holding d x)"
    and "distinct (map fst d) \<Longrightarrow> distinct (map fst d')"
  using assms
  by (auto simp: credit_recipient_def receives_def put_in_def holding_of_def update_conv' truthy_def
      distinct_update split: if_splits option.splits)

text \<open>The second component counts what the balances of the addresses change in sum.\<close>

lemma sum_update:
  assumes "finite X" and "k \<in> X"
  shows "(\<Sum>x\<in>X. held (dict_holding (AList.update k h d) x)) =
    (\<Sum>x\<in>X. held (dict_holding d x)) + th_amount h - held (dict_holding d k)"
proof -
  have "(\<Sum>x\<in>X. held (dict_holding (AList.update k h d) x)) =
      (\<Sum>x\<in>X. held (dict_holding d x) + (if x = k then th_amount h - held (dict_holding d k) else 0))"
    by (rule sum.cong) (auto simp: update_conv')
  with assms show ?thesis by (simp add: sum.distrib)
qed

lemma debit_sender_sum:
  assumes "debit_sender c ev m (d, a) = Inr (d', a')" and "finite X" and "\<And>x. sends ev x \<Longrightarrow> x \<in> X"
  shows "a' - a = (\<Sum>x\<in>X. held (dict_holding d' x)) - (\<Sum>x\<in>X. held (dict_holding d x))"
  using assms(1)
proof (cases rule: debit_sender_cases)
  case (debit x h)
  with sum_update [OF assms(2) assms(3) [OF debit(2)], where d = d] show ?thesis by simp
qed simp_all

lemma credit_recipient_sum:
  assumes "credit_recipient c ev m (d, a) = (d', a')" and "finite X" and "\<And>x. receives ev x \<Longrightarrow> x \<in> X"
  shows "a' - a = (\<Sum>x\<in>X. held (dict_holding d' x)) - (\<Sum>x\<in>X. held (dict_holding d x))"
proof (cases "truthy (ta_to ev)")
  case True
  then obtain x where x: "ta_to ev = Some x" "receives ev x" by (auto simp: truthy_def receives_def)
  with True assms(1) sum_update [OF assms(2) assms(3) [OF x(2)], where d = d] show ?thesis
    by (auto simp: credit_recipient_def split: if_splits option.splits)
qed (use assms(1) in \<open>auto simp: credit_recipient_def\<close>)

definition touches :: "cw20_activity \<Rightarrow> string \<Rightarrow> bool" where
  "touches ev x \<longleftrightarrow> sends ev x \<or> receives ev x"

lemma update_holder_effect:
  assumes "update_holder c ev (d, a) = Inr (d', a')"
  shows "dict_holding d' x = apply_event ev x (dict_holding d x)"
    and "distinct (map fst d) \<Longrightarrow> distinct (map fst d')"
    and "sends ev x \<Longrightarrow> dict_holding d x \<noteq> None"
    and "finite X \<Longrightarrow> {x. touches ev x} \<subseteq> X \<Longrightarrow>
      a' - a = (\<Sum>x\<in>X. held (dict_holding d' x)) - (\<Sum>x\<in>X. held (dict_holding d x))"
proof -
  from assms obtain d1 a1 where debit: "debit_sender c ev (the (ta_amount ev)) (d, a) = Inr (d1, a1)"
    and credit: "credit_recipient c ev (the (ta_amount ev)) (d1, a1) = (d', a')"
    by (auto simp: update_holder_def rbind_eq_Inr split: option.splits)
  show "dict_holding d' x = apply_event ev x (dict_holding d x)"
    by (simp add: apply_event_def Let_def credit_recipient_holding(1) [OF credit] debit_sender_holding(1) [OF debit])
  show "distinct (map fst d')" if "distinct (map fst d)"
    using debit_sender_holding(2) [OF debit that] credit_recipient_holding(2) [OF credit] by blast
  show "dict_holding d x \<noteq> None" if "sends ev x" using debit_sender_holding(3) [OF debit that] .
  show "a' - a = (\<Sum>x\<in>X. held (dict_holding d' x)) - (\<Sum>x\<in>X. held (dict_holding d x))"
    if "finite X" "{x. touches ev x} \<subseteq> X"
    using debit_sender_sum [OF debit that(1)] credit_recipient_sum [OF credit that(1)] that(2)
    by (fastforce simp: touches_def)
qed

text \<open>No sender of the activities is without a row when its turn comes.\<close>

fun can_replay :: "cw20_activity list \<Rightarrow> string \<Rightarrow> holding \<Rightarrow> bool" where
  "can_replay [] x v \<longleftrightarrow> True"
| "can_replay (ev # evs) x v \<longleftrightarrow> (sends ev x \<longrightarrow> v \<noteq> None) \<and> can_replay evs x (apply_event ev x v)"

lemma update_holders_effect:
  assumes "rfold (update_holder c) evs (d, a) = Inr (d', a')" and "distinct (map fst d)"
    and "finite X" and "\<And>ev x. ev \<in> set evs \<Longrightarrow> touches ev x \<Longrightarrow> x \<in> X"
  shows "dict_holding d' x = fold (\<lambda>ev. apply_event ev x) evs (dict_holding d x) \<and> distinct (map fst d') \<and>
    can_replay evs x (dict_holding d x) \<and>
    a' - a = (\<Sum>x\<in>X. held (dict_holding d' x)) - (\<Sum>x\<in>X. held (dict_holding d x))"
  using assms(1,2,4)
proof (induction evs arbitrary: d a)
  case (Cons ev evs)
  from Cons.prems(1) obtain d1 a1 where step: "update_holder c ev (d, a) = Inr (d1, a1)"
    and rest: "rfold (update_holder c) evs (d1, a1) = Inr (d', a')" by (auto simp: rbind_eq_Inr)
  note eff = update_holder_effect [OF step]
  have "dict_holding d' x = fold (\<lambda>ev. apply_event ev x) evs (dict_holding d1 x) \<and> distinct (map fst d') \<and>
    can_replay evs x (dict_holding d1 x) \<and> a' - a1 = (\<Sum>x\<in>X. held (dict_holding d' x)) - (\<Sum>x\<in>X. held (dict_holding d1 x))"
    using Cons.prems(3) by (intro Cons.IH [OF rest eff(2) [OF Cons.prems(2)]]) auto
  moreover have "a1 - a = (\<Sum>x\<in>X. held (dict_holding d1 x)) - (\<Sum>x\<in>X. held (dict_holding d x))"
    using Cons.prems(3) by (intro eff(4) assms(3)) auto
  ultimately show ?case using eff(1,3) by simp
qed simp
section \<open>One update of a contract\<close>

lemma holder_dict_of_rows:
  "map_of (fold (\<lambda>x. AList.update (f x) x) xs []) = keyBy f xs"
  "distinct (map fst (fold (\<lambda>x. AList.update (f x) x) xs []))"
  by (induction xs rule: rev_induct) (simp_all add: update_conv' distinct_update)

lemma load_lookup20:
  assumes "distinct (holder_keys (cw20_holders db))"
  shows "map_of (load_cw20_holders evs c db) x =
    (if \<exists>ev\<in>set evs. touches ev x then holder_at c x (cw20_holders db) else None)"
proof -
  let ?touched = "\<exists>ev\<in>set evs. touches ev x"
  let ?as = "concat (map (\<lambda>ev. (if truthy (ta_from ev) then [the (ta_from ev)] else []) @
      (if truthy (ta_to ev) then [the (ta_to ev)] else [])) evs)"
  let ?rows = "filter (\<lambda>h. th_address h \<in> set ?as \<and> th_cw20_contract_id h = c) (cw20_holders db)"
  have touched: "x \<in> set ?as \<longleftrightarrow> ?touched"
    by (force simp: touches_def sends_def receives_def truthy_def split: if_splits)
  have load: "map_of (load_cw20_holders evs c db) x = keyBy th_address ?rows x"
    unfolding load_cw20_holders_def Let_def holder_dict_of_rows ..
  show ?thesis
  proof (cases "keyBy th_address ?rows x")
    case None
    then have "\<not> (\<exists>h\<in>set (cw20_holders db). th_address h = x \<and> th_cw20_contract_id h = c \<and> ?touched)"
      using touched by (auto simp: keyBy_None_iff simp del: set_concat)
    then have "?touched \<Longrightarrow> holder_at c x (cw20_holders db) = None" by (auto simp: holder_at_def find_None_iff)
    with None load show ?thesis by (simp del: set_concat)
  next
    case (Some h)
    then have h: "h \<in> set ?rows" "th_address h = x" by (auto dest: keyBy_SomeD simp del: set_concat)
    then have "?touched" "h \<in> set (cw20_holders db)" "th_cw20_contract_id h = c" using touched by (auto simp del: set_concat)
    moreover from this h(2) have "holder_at c x (cw20_holders db) = Some h"
      unfolding holder_at_def using assms
      by (intro find_unique) (auto simp: distinct_map inj_on_def holder_key_def)
    ultimately show ?thesis using load Some by simp
  qed
qed

lemma load_distinct20: "distinct (map fst (load_cw20_holders evs c db))"
  by (simp add: load_cw20_holders_def Let_def holder_dict_of_rows)

lemma apply_event_untouched: "\<not> touches ev x \<Longrightarrow> apply_event ev x v = v"
  by (simp add: apply_event_def touches_def)

lemma apply_events_untouched: "\<forall>ev\<in>set evs. \<not> touches ev x \<Longrightarrow> fold (\<lambda>ev. apply_event ev x) evs v = v"
  by (induction evs arbitrary: v) (simp_all add: apply_event_untouched)

lemma can_replay_untouched: "\<forall>ev\<in>set evs. \<not> touches ev x \<Longrightarrow> can_replay evs x v"
  by (induction evs arbitrary: v) (simp_all add: touches_def)

lemma apply_events_keep: "v \<noteq> None \<Longrightarrow> fold (\<lambda>ev. apply_event ev x) evs v \<noteq> None"
proof (induction evs arbitrary: v)
  case (Cons ev evs)
  then have "apply_event ev x v \<noteq> None" by (auto simp: apply_event_def take_out_def put_in_def Let_def)
  with Cons.IH show ?case by simp
qed simp

abbreviation balance_events :: "cw20_activity list \<Rightarrow> cw20_activity list" where
  "balance_events evs \<equiv> sort_key ta_id (filter (\<lambda>ev. ta_action ev \<in> set balance_actions) evs)"

definition stored_holding :: "int \<Rightarrow> string \<Rightarrow> ('c, 'a) cw20_db_scheme \<Rightarrow> holding" where
  "stored_holding c x db = holding_of (holder_at c x (cw20_holders db))"

lemma finite_touched: "finite {x. \<exists>ev\<in>set evs. touches ev x}"
proof -
  have "{x. \<exists>ev\<in>set evs. touches ev x} \<subseteq> (\<Union>ev\<in>set evs. {the (ta_from ev), the (ta_to ev)})"
    by (auto simp: touches_def sends_def receives_def)
  then show ?thesis by (rule finite_subset) simp
qed

text \<open>
  The update replays the balance events of the batch over the rows of every address, leaves other
  contracts alone, and returns what the contract's balances change in sum.
\<close>

lemma updateBalanceHolders_effect:
  assumes "updateBalanceHolders evs c db = Inr (db', a)" and "distinct (holder_keys (cw20_holders db))"
  obtains hs where "db' = db\<lparr>cw20_holders := hs\<rparr>" "distinct (holder_keys hs)"
    "\<And>x. holding_of (holder_at c x hs) = fold (\<lambda>ev. apply_event ev x) (balance_events evs) (stored_holding c x db)"
    "\<And>x. can_replay (balance_events evs) x (stored_holding c x db)"
    "\<And>c' x. c' \<noteq> c \<Longrightarrow> holder_at c' x hs = holder_at c' x (cw20_holders db)"
    "holder_sum c hs = holder_sum c (cw20_holders db) + a"
proof -
  let ?evs = "balance_events evs" and ?hs = "cw20_holders db"
  let ?d0 = "load_cw20_holders ?evs c db"
  from assms(1) obtain d where run: "rfold (update_holder c) ?evs (?d0, 0) = Inr (d, a)"
    and db': "db' = db\<lparr>cw20_holders := store_holders c d ?hs\<rparr>"
    by (auto simp: updateBalanceHolders_def Let_def rbind_eq_Inr)
  let ?X = "{x. \<exists>ev\<in>set ?evs. touches ev x}" and ?hs' = "store_holders c d ?hs"
  note eff = update_holders_effect [OF run load_distinct20 finite_touched [of ?evs]]
  have dist: "distinct (map fst d)" using eff by blast
  have view: "dict_holding d x = fold (\<lambda>ev. apply_event ev x) ?evs (dict_holding ?d0 x)" for x using eff by blast
  have a: "a = (\<Sum>x\<in>?X. held (dict_holding d x)) - (\<Sum>x\<in>?X. held (dict_holding ?d0 x))" using eff by fastforce
  have stored: "holding_of (holder_at c x ?hs') = (case dict_holding d x of None \<Rightarrow> holding_of (holder_at c x ?hs) | Some v \<Rightarrow> Some v)" for x
    by (simp add: holder_at_store [OF dist] holding_of_def split: option.split)
  have touched: "dict_holding ?d0 x = stored_holding c x db" if "x \<in> ?X" for x
    using that load_lookup20 [OF assms(2), of ?evs c x] by (simp add: stored_holding_def del: set_sort set_filter)
  have untouched: "dict_holding d x = None" if "x \<notin> ?X" for x
    using that load_lookup20 [OF assms(2), of ?evs c x] view [of x] apply_events_untouched [of ?evs x None]
    by (simp add: holding_of_def del: set_sort set_filter)
  have replay: "holding_of (holder_at c x ?hs') = fold (\<lambda>ev. apply_event ev x) ?evs (stored_holding c x db)" for x
  proof (cases "x \<in> ?X")
    case True
    have "stored_holding c x db = None" if "fold (\<lambda>ev. apply_event ev x) ?evs (stored_holding c x db) = None"
      using that apply_events_keep by metis
    then show ?thesis using stored [of x] view [of x] touched [OF True]
      by (auto simp: stored_holding_def split: option.splits)
  next
    case False
    then show ?thesis using stored [of x] untouched [OF False] apply_events_untouched [of ?evs x]
      by (simp add: stored_holding_def del: set_sort set_filter)
  qed
  have ready: "can_replay ?evs x (stored_holding c x db)" for x
  proof (cases "x \<in> ?X")
    case True
    from eff have "can_replay ?evs x (dict_holding ?d0 x)" by blast
    with touched [OF True] show ?thesis by simp
  next
    case False
    then show ?thesis by (intro can_replay_untouched) blast
  qed
  have dist': "distinct (holder_keys ?hs')" by (rule store_holders_distinct [OF assms(2)])
  have "holder_amount (holder_at c x ?hs') = holder_amount (holder_at c x ?hs) +
      (if x \<in> ?X then held (dict_holding d x) - held (dict_holding ?d0 x) else 0)" for x
  proof (cases "x \<in> ?X")
    case True
    then show ?thesis using arg_cong [OF replay [of x], of held] arg_cong [OF view [of x], of held] touched [OF True]
      by (simp add: stored_holding_def)
  next
    case False
    then show ?thesis using arg_cong [OF replay [of x], of held] apply_events_untouched [of ?evs x "stored_holding c x db"]
      by (simp add: stored_holding_def del: set_sort set_filter)
  qed
  from holder_sum_change [OF assms(2) dist' finite_touched this] a
  have sum: "holder_sum c ?hs' = holder_sum c ?hs + a" by (simp add: sum_subtractf)
  show thesis
    by (rule that [OF db' dist' replay ready _ sum]) (simp add: holder_at_store [OF dist])
qed
section \<open>The supply of a contract is the sum of its holders' balances\<close>

definition cw20_wf :: "('c, 'a) cw20_db_scheme \<Rightarrow> bool" where
  "cw20_wf db \<longleftrightarrow> distinct (map tc_id (cw20_contracts db)) \<and>
     list_all (\<lambda>n. tc_id n < cw20_contract_seq db) (cw20_contracts db) \<and>
     distinct (holder_keys (cw20_holders db)) \<and>
     list_all (\<lambda>h. th_cw20_contract_id h < cw20_contract_seq db) (cw20_holders db) \<and>
     list_all (\<lambda>n. tc_total_supply n = holder_sum (tc_id n) (cw20_holders db)) (cw20_contracts db)"

lemma cw20_wf_cong:
  assumes "cw20_contracts db' = cw20_contracts db" "cw20_contract_seq db' = cw20_contract_seq db"
    "cw20_holders db' = cw20_holders db"
  shows "cw20_wf db' \<longleftrightarrow> cw20_wf db"
  by (simp add: cw20_wf_def assms)

text \<open>Operations that only touch other tables.\<close>

definition same_accounts :: "('c, 'a) cw20_db_scheme \<Rightarrow> ('c, 'a) cw20_db_scheme \<Rightarrow> bool" where
  "same_accounts db db' \<longleftrightarrow> cw20_contracts db' = cw20_contracts db \<and> cw20_contract_seq db' = cw20_contract_seq db \<and>
     cw20_holders db' = cw20_holders db"

lemma same_accounts_wf: "same_accounts db db' \<Longrightarrow> cw20_wf db' \<longleftrightarrow> cw20_wf db"
  by (rule cw20_wf_cong) (simp_all add: same_accounts_def)

lemma same_accounts_refl [simp]: "same_accounts db db"
  by (simp add: same_accounts_def)

lemma handleTotalHolderStatistic_effect:
  assumes "handleTotalHolderStatistic day db = Inr db'"
  shows "\<exists>stats. db' = db\<lparr>cw20_stats := stats\<rparr>"
proof -
  have "rfold insert_cw20_stats rows db = Inr db' \<Longrightarrow> \<exists>stats. db' = db\<lparr>cw20_stats := stats\<rparr>" for rows db
    by (induction rows arbitrary: db) (fastforce simp: rbind_eq_Inr insert_cw20_stats_def split: if_splits intro: exI [of _ "cw20_stats db'"])+
  with assms show ?thesis by (simp add: handleTotalHolderStatistic_def)
qed

lemma handleStatistic_effect:
  assumes "handleStatistic ext s db = Inr db'"
  obtains stats where "db' = db\<lparr>cw20_stats := stats\<rparr>"
proof -
  from assms obtain day where "handleTotalHolderStatistic day db = Inr db' \<or> db' = db"
    unfolding handleStatistic_def Let_def by (auto split: option.splits list.splits if_splits)
  then show thesis
  proof
    assume "db' = db"
    with that [of "cw20_stats db"] show thesis by simp
  qed (use that handleTotalHolderStatistic_effect in blast)
qed

lemma handleCw20Histories_effect:
  assumes "handleCw20Histories ext evs db = Inr db'"
  obtains acts n where "db' = db\<lparr>cw20_activities := acts, cw20_activity_seq := n\<rparr>"
  using assms
  by (auto simp: handleCw20Histories_def insert_cw20_activities_def Let_def rbind_eq_Inr split: if_splits)

text \<open>New contracts.\<close>

lemma insert_cw20_holder_effect:
  assumes "insert_cw20_holder r db = Inr db'"
  shows "db' = db\<lparr>cw20_holders := cw20_holders db @ [r]\<rparr>" and "holder_key r \<notin> set (holder_keys (cw20_holders db))"
  using assms by (auto simp: insert_cw20_holder_def list_ex_iff holder_key_def split: if_splits)

lemma insert_cw20_holders_effect:
  assumes "rfold insert_cw20_holder rows db = Inr db'"
  shows "db' = db\<lparr>cw20_holders := cw20_holders db @ rows\<rparr> \<and>
    (distinct (holder_keys (cw20_holders db)) \<longrightarrow> distinct (holder_keys (cw20_holders db @ rows)))"
  using assms
proof (induction rows arbitrary: db)
  case (Cons r rows)
  from Cons.prems obtain db1 where ins: "insert_cw20_holder r db = Inr db1" and rest: "rfold insert_cw20_holder rows db1 = Inr db'"
    by (auto simp: rbind_eq_Inr)
  note db1 = insert_cw20_holder_effect [OF ins]
  from Cons.IH [OF rest] db1(2) show ?case by (simp add: db1(1))
qed simp

lemma insert_cw20_graph_effect:
  assumes "insert_cw20_graph sc info track es h db = Inr db'"
  shows "db' = db\<lparr>cw20_contracts := cw20_contracts db @ [new_cw20_contract (cw20_contract_seq db) sc info track es h],
      cw20_contract_seq := cw20_contract_seq db + 1,
      cw20_holders := cw20_holders db @ map (initial_holder (cw20_contract_seq db)) es\<rparr>"
    and "distinct (holder_keys (cw20_holders db)) \<Longrightarrow>
      distinct (holder_keys (cw20_holders db @ map (initial_holder (cw20_contract_seq db)) es))"
    and "sc \<notin> tc_smart_contract_id ` set (cw20_contracts db)"
proof -
  let ?n = "new_cw20_contract (cw20_contract_seq db) sc info track es h"
  let ?db1 = "db\<lparr>cw20_contracts := cw20_contracts db @ [?n], cw20_contract_seq := cw20_contract_seq db + 1\<rparr>"
  from assms have ins: "rfold insert_cw20_holder (map (initial_holder (cw20_contract_seq db)) es) ?db1 = Inr db'"
    and "tc_smart_contract_id ?n \<notin> tc_smart_contract_id ` set (cw20_contracts db)"
    by (auto simp: insert_cw20_graph_def insert_cw20_contract_def Let_def rbind_eq_Inr split: if_splits)
  then show "sc \<notin> tc_smart_contract_id ` set (cw20_contracts db)" by (simp add: new_cw20_contract_def)
  show "db' = db\<lparr>cw20_contracts := cw20_contracts db @ [?n], cw20_contract_seq := cw20_contract_seq db + 1,
      cw20_holders := cw20_holders db @ map (initial_holder (cw20_contract_seq db)) es\<rparr>"
    using insert_cw20_holders_effect [OF ins] by simp
  show "distinct (holder_keys (cw20_holders db @ map (initial_holder (cw20_contract_seq db)) es))"
    if "distinct (holder_keys (cw20_holders db))"
    using insert_cw20_holders_effect [OF ins] that by simp
qed

lemma holder_sum_append [simp]: "holder_sum c (xs @ ys) = holder_sum c xs + holder_sum c ys"
  by (simp add: holder_sum_def)

lemma holder_sum_none: "\<forall>h\<in>set hs. th_cw20_contract_id h \<noteq> c \<Longrightarrow> holder_sum c hs = 0"
  by (simp add: holder_sum_def filter_False)

lemma holder_sum_initial: "holder_sum c (map (initial_holder i) es) = (if c = i then sum_list (map he_amount es) else 0)"
  by (induction es) (auto simp: holder_sum_def initial_holder_def)

lemma insert_cw20_graph_wf:
  assumes "insert_cw20_graph sc info track es h db = Inr db'" and "cw20_wf db"
  shows "cw20_wf db'"
proof -
  note eff = insert_cw20_graph_effect [OF assms(1)]
  have "holder_sum (cw20_contract_seq db) (cw20_holders db) = 0"
    using assms(2) by (intro holder_sum_none) (auto simp: cw20_wf_def list_all_iff)
  with assms(2) eff(2) show ?thesis
    by (auto simp: cw20_wf_def eff(1) list_all_iff new_cw20_contract_def initial_holder_def holder_sum_initial)
qed

lemma delete_cw20_contract_wf:
  assumes "cw20_wf db"
  shows "cw20_wf (delete_cw20_contract i db)"
proof -
  have "holder_sum j (filter (\<lambda>h. th_cw20_contract_id h \<noteq> i) hs) = holder_sum j hs" if "j \<noteq> i" for j hs
    using that by (simp add: holder_sum_def) (metis (mono_tags, lifting) filter_cong)
  with assms show ?thesis
    by (auto simp: cw20_wf_def delete_cw20_contract_def list_all_iff distinct_map_filter)
qed

text \<open>The update of a contract moves its supply by the sum of what it moves its balances.\<close>

lemma jobHandle_cases:
  assumes "jobHandle p db = Inr db'"
  obtains (none) "db' = db"
    "filter (\<lambda>a. ta_cw20_contract_id a = ub_cw20ContractId p \<and> in_range (ub_startBlock p) (ub_endBlock p) (ta_height a))
        (cw20_activities db) = []"
  | (some) db1 a where
    "updateBalanceHolders (filter (\<lambda>a. ta_cw20_contract_id a = ub_cw20ContractId p \<and>
        in_range (ub_startBlock p) (ub_endBlock p) (ta_height a)) (cw20_activities db)) (ub_cw20ContractId p) db = Inr (db1, a)"
    "db' = db1\<lparr>cw20_contracts := map (\<lambda>n. if tc_id n = ub_cw20ContractId p
        then n\<lparr>tc_total_supply := tc_total_supply n + a, tc_last_updated_height := ub_endBlock p\<rparr> else n) (cw20_contracts db1)\<rparr>"
    "ub_cw20ContractId p \<in> tc_id ` set (cw20_contracts db1)"
  using assms unfolding jobHandle_def Let_def by (auto simp: rbind_eq_Inr split: if_splits)

lemma jobHandle_wf:
  assumes "jobHandle p db = Inr db'" and "cw20_wf db"
  shows "cw20_wf db'"
  using assms(1)
proof (cases rule: jobHandle_cases)
  case (some db1 a)
  let ?c = "ub_cw20ContractId p"
  from assms(2) have dist: "distinct (holder_keys (cw20_holders db))" by (simp add: cw20_wf_def)
  obtain hs where db1: "db1 = db\<lparr>cw20_holders := hs\<rparr>" and hs: "distinct (holder_keys hs)"
    and other: "\<And>c' x. c' \<noteq> ?c \<Longrightarrow> holder_at c' x hs = holder_at c' x (cw20_holders db)"
    and sum: "holder_sum ?c hs = holder_sum ?c (cw20_holders db) + a"
    by (rule updateBalanceHolders_effect [OF some(1) dist]) blast
  have "holder_sum c' hs = holder_sum c' (cw20_holders db)" if "c' \<noteq> ?c" for c'
    using holder_sum_change [OF dist hs finite.emptyI, of c'] other [OF that] by simp
  moreover have "th_cw20_contract_id h < cw20_contract_seq db" if "h \<in> set hs" for h
  proof (cases "th_cw20_contract_id h = ?c")
    case True
    with some(3) assms(2) show ?thesis by (auto simp: db1 cw20_wf_def list_all_iff)
  next
    case False
    have "holder_at (th_cw20_contract_id h) (th_address h) hs \<noteq> None"
      using that by (auto simp: holder_at_None holder_key_def)
    then have "(th_cw20_contract_id h, th_address h) \<in> set (holder_keys (cw20_holders db))"
      unfolding other [OF False] holder_at_None by simp
    then obtain g where "g \<in> set (cw20_holders db)" "th_cw20_contract_id g = th_cw20_contract_id h"
      by (auto simp: holder_key_def)
    with assms(2) show ?thesis by (auto simp: cw20_wf_def list_all_iff)
  qed
  ultimately show ?thesis using assms(2) hs sum
    by (auto simp: cw20_wf_def some(2) db1 list_all_iff comp_def if_distrib [of tc_id] cong: if_cong)
qed (use assms(2) in simp)
section \<open>The services as steps\<close>

text \<open>
  Every operation that changes the tables: a run of the range job, also one that throws, the update
  of a contract, a page of the history, the request to reindex, and the reindexing of a contract.
\<close>

inductive cw20_step :: "config \<Rightarrow> cw20_ext \<Rightarrow> ('c, 'a) cw20_db_scheme \<Rightarrow> ('c, 'a) cw20_db_scheme \<Rightarrow> bool"
  for cfg :: config and ext :: cw20_ext
where
  step_job: "jobHandleCw20 cfg ext db = Some (db', e) \<Longrightarrow> cw20_step cfg ext db db'"
| step_update: "jobHandle p db = Inr db' \<Longrightarrow> cw20_step cfg ext db db'"
| step_history: "reindexHistory ext n h prevId db = Inr (db', next) \<Longrightarrow> cw20_step cfg ext db db'"
| step_request: "cw20_reindexing addr db = Inr db' \<Longrightarrow> cw20_step cfg ext db db'"
| step_reindex: "cw20_reindex_job cfg ext payload db = Some (Inr (db', h)) \<Longrightarrow> cw20_step cfg ext db db'"

lemma UpdateByContract_accounts [simp]: "same_accounts db (UpdateByContract cs s e db)"
  by (simp add: same_accounts_def UpdateByContract_def)

lemma saveCheckpoint_accounts [simp]: "same_accounts db (saveCheckpoint row db)"
  by (simp add: same_accounts_def saveCheckpoint_def)

lemma handleCw20Histories_accounts: "handleCw20Histories ext evs db = Inr db' \<Longrightarrow> same_accounts db db'"
  by (erule handleCw20Histories_effect) (simp add: same_accounts_def)

lemma handleStatistic_accounts: "handleStatistic ext s db = Inr db' \<Longrightarrow> same_accounts db db'"
  by (erule handleStatistic_effect) (simp add: same_accounts_def)

lemma handleCw20Instantiate_wf:
  assumes "handleCw20Instantiate ext evs db = Some (Inr db')" and "cw20_wf db"
  shows "cw20_wf db'"
proof (cases "evs = []")
  case False
  with assms(1) obtain infos answers where run: "rfold (store_instantiated infos) answers db = Inr db'"
    by (auto simp: handleCw20Instantiate_def split: sum.splits)
  show ?thesis
    by (rule rfold_invariant [where I = cw20_wf, OF run assms(2)])
      (auto simp: store_instantiated_def split: prod.splits intro: insert_cw20_graph_wf)
qed (use assms in \<open>simp add: handleCw20Instantiate_def\<close>)

lemma cw20_transaction_wf:
  assumes "cw20_transaction ext evs row db = Some (Inr db')" and "cw20_wf db"
  shows "cw20_wf db'"
proof (cases "evs = []")
  case False
  with assms(1) obtain db1 db2 where
    "handleCw20Instantiate ext (filter (\<lambda>ev. ev_action ev = Some ''instantiate'') evs) db = Some (Inr db1)"
    and hist: "handleCw20Histories ext evs db1 = Inr db2" and db': "db' = saveCheckpoint row db2"
    by (auto simp: cw20_transaction_def rbind_eq_Inr)
  then have "cw20_wf db1" using assms(2) by (blast intro: handleCw20Instantiate_wf)
  then show ?thesis
    using same_accounts_wf [OF handleCw20Histories_accounts [OF hist]] same_accounts_wf [OF saveCheckpoint_accounts, of row db2]
    by (simp add: db')
qed (use assms same_accounts_wf [OF saveCheckpoint_accounts, of row db] in \<open>auto simp: cw20_transaction_def\<close>)

lemma jobHandleCw20_cases:
  assumes "jobHandleCw20 cfg ext db = Some (db', err)"
  obtains (failed) e where "err = Some e" "db' = db"
      "handleStatistic ext (job_start cfg HANDLE_CW20 (block_checkpoint db)) db = Inl e"
  | (stats) "handleStatistic ext (job_start cfg HANDLE_CW20 (block_checkpoint db)) db = Inr db'"
      "err = None \<Longrightarrow> job_end cfg HANDLE_CW20 (block_checkpoint db) \<le> job_start cfg HANDLE_CW20 (block_checkpoint db)"
  | (stored) db1 db2 evs where "err = None"
      "handleStatistic ext (job_start cfg HANDLE_CW20 (block_checkpoint db)) db = Inr db1"
      "job_start cfg HANDLE_CW20 (block_checkpoint db) < job_end cfg HANDLE_CW20 (block_checkpoint db)"
      "evs = getCw20ContractEvents (job_start cfg HANDLE_CW20 (block_checkpoint db)) (job_end cfg HANDLE_CW20 (block_checkpoint db)) None None db1"
      "cw20_transaction ext evs (job_name HANDLE_CW20, job_end cfg HANDLE_CW20 (block_checkpoint db)) db1 = Some (Inr db2)"
      "db' = UpdateByContract (map (\<lambda>(_, n). (tc_id n, tc_last_updated_height n)) (tracked_cw20 (map ev_contract_address evs) db2))
        (job_start cfg HANDLE_CW20 (block_checkpoint db)) (job_end cfg HANDLE_CW20 (block_checkpoint db)) db2"
proof (cases "handleStatistic ext (job_start cfg HANDLE_CW20 (block_checkpoint db)) db")
  case (Inl e)
  with assms failed [of e] show thesis by (simp add: jobHandleCw20_def getCheckpoint_row)
next
  case (Inr db1)
  let ?s = "job_start cfg HANDLE_CW20 (block_checkpoint db)" and ?e = "job_end cfg HANDLE_CW20 (block_checkpoint db)"
  let ?evs = "getCw20ContractEvents ?s ?e None None db1"
  show thesis
  proof (cases "?s \<ge> ?e")
    case True
    with Inr assms have "db' = db1" by (simp add: jobHandleCw20_def getCheckpoint_row)
    with Inr True show thesis by (intro stats) simp_all
  next
    case False
    with Inr assms obtain r where tr: "cw20_transaction ext ?evs (job_name HANDLE_CW20, ?e) db1 = Some r"
      and out: "(case r of Inl e \<Rightarrow> (db1, Some e)
          | Inr db2 \<Rightarrow> (UpdateByContract (map (\<lambda>(_, n). (tc_id n, tc_last_updated_height n))
              (tracked_cw20 (map ev_contract_address ?evs) db2)) ?s ?e db2, None)) = (db', err)"
      unfolding jobHandleCw20_def getCheckpoint_row by (auto simp: Let_def)
    show thesis
    proof (cases r)
      case (Inl e)
      with out \<open>handleStatistic ext ?s db = Inr db1\<close> show thesis by (intro stats) auto
    next
      case (Inr db2)
      with out tr False \<open>handleStatistic ext ?s db = Inr db1\<close> show thesis by (intro stored [of db1 ?evs db2]) simp_all
    qed
  qed
qed

lemma cw20_step_wf:
  assumes "cw20_step cfg ext db db'" and "cw20_wf db"
  shows "cw20_wf db'"
  using assms(1)
proof cases
  case (step_job e)
  then show ?thesis
  proof (cases rule: jobHandleCw20_cases)
    case stats
    with same_accounts_wf [OF handleStatistic_accounts] assms(2) show ?thesis by blast
  next
    case (stored db1 db2 evs)
    from same_accounts_wf [OF handleStatistic_accounts [OF stored(2)]] assms(2) have "cw20_wf db1" by simp
    from cw20_transaction_wf [OF stored(5) this] same_accounts_wf [OF UpdateByContract_accounts] show ?thesis
      unfolding stored(6) by blast
  qed (use assms(2) in simp)
next
  case (step_history n h prevId nxt)
  then obtain evs where "handleCw20Histories ext evs db = Inr db' \<or> db' = remove_cw20_reindex_job (ch_contractAddress h) db"
    by (auto simp: reindexHistory_def Let_def rbind_eq_Inr split: if_splits)
  then have "same_accounts db db'"
    using handleCw20Histories_accounts by (auto simp: same_accounts_def remove_cw20_reindex_job_def)
  from same_accounts_wf [OF this] assms(2) show ?thesis by simp
next
  case (step_request addr)
  then have "same_accounts db db'"
    by (auto simp: cw20_reindexing_def same_accounts_def split: option.splits if_splits)
  from same_accounts_wf [OF this] assms(2) show ?thesis by simp
next
  case (step_reindex payload h)
  then obtain addr sc info track es where "replace_cw20_contract addr sc info track es db = Inr db'"
    by (auto simp: cw20_reindex_job_def rbind_eq_Inr case_prod_beta split: sum.splits)
  moreover define db1 where
    "db1 = (case cw20_contract_at addr db of None \<Rightarrow> db | Some n \<Rightarrow> delete_cw20_contract (tc_id n) db)"
  ultimately obtain db2 cs s e where ins: "insert_cw20_graph sc info track es (min_height es) db1 = Inr db2"
    and db': "db' = UpdateByContract cs s e db2"
    unfolding replace_cw20_contract_def Let_def db1_def [symmetric] rbind_eq_Inr by blast
  have "cw20_wf db1" using assms(2) by (simp add: db1_def delete_cw20_contract_wf split: option.split)
  from insert_cw20_graph_wf [OF ins this] same_accounts_wf [OF UpdateByContract_accounts] show ?thesis
    unfolding db' by blast
qed (use assms(2) jobHandle_wf in blast)
section \<open>What the activities of a batch move\<close>

definition delta :: "cw20_activity \<Rightarrow> string \<Rightarrow> int" where
  "delta ev x = (if receives ev x then the (ta_amount ev) else 0) - (if sends ev x then the (ta_amount ev) else 0)"

text \<open>In the order of their heights, activities that are not older than the row add up.\<close>

lemma replay_adds_up:
  assumes "can_replay evs x v" and "sorted (map ta_height evs)" and "\<forall>ev\<in>set evs. 0 \<le> ta_height ev"
    and "\<forall>a h. v = Some (a, h) \<longrightarrow> (\<forall>ev\<in>set evs. h \<le> ta_height ev)"
  shows "held (fold (\<lambda>ev. apply_event ev x) evs v) = held v + sum_list (map (\<lambda>ev. delta ev x) evs)"
  using assms
proof (induction evs arbitrary: v)
  case (Cons ev evs)
  let ?v = "apply_event ev x v"
  have step: "held ?v = held v + delta ev x"
    using Cons.prems(1,3,4)
    by (cases v) (auto simp: apply_event_def take_out_def put_in_def delta_def held_def Let_def)
  have "\<forall>a h. ?v = Some (a, h) \<longrightarrow> (\<forall>e\<in>set evs. h \<le> ta_height e)"
    using Cons.prems(2,4)
    by (cases v) (auto simp: apply_event_def take_out_def put_in_def Let_def split: if_splits)
  with Cons.IH [of ?v] Cons.prems(1-3) step show ?case by simp
qed simp

lemma jobHandle_keeps:
  assumes "jobHandle p db = Inr db'" and "cw20_wf db"
  shows "cw20_activities db' = cw20_activities db" "block_checkpoint db' = block_checkpoint db"
    "smart_contract_events db' = smart_contract_events db" "event_table db' = event_table db"
    "transaction_table db' = transaction_table db" "message_table db' = message_table db"
    "smart_contracts db' = smart_contracts db" "codes db' = codes db"
    "c \<noteq> ub_cw20ContractId p \<Longrightarrow> holder_at c x (cw20_holders db') = holder_at c x (cw20_holders db)"
proof -
  have "\<exists>ns hs. db' = db\<lparr>cw20_contracts := ns, cw20_holders := hs\<rparr> \<and>
      (\<forall>c x. c \<noteq> ub_cw20ContractId p \<longrightarrow> holder_at c x hs = holder_at c x (cw20_holders db))"
    using assms(1)
  proof (cases rule: jobHandle_cases)
    case none
    then show ?thesis by (intro exI [of _ "cw20_contracts db"] exI [of _ "cw20_holders db"]) simp
  next
    case (some db1 a)
    from assms(2) have "distinct (holder_keys (cw20_holders db))" by (simp add: cw20_wf_def)
    then obtain hs where db1: "db1 = db\<lparr>cw20_holders := hs\<rparr>"
      and other: "\<And>c' x. c' \<noteq> ub_cw20ContractId p \<Longrightarrow> holder_at c' x hs = holder_at c' x (cw20_holders db)"
      by (rule updateBalanceHolders_effect [OF some(1)]) blast
    show ?thesis
      by (rule exI [of _ "cw20_contracts db'"], rule exI [of _ hs]) (use other in \<open>simp add: some(2) db1\<close>)
  qed
  then show "cw20_activities db' = cw20_activities db" "block_checkpoint db' = block_checkpoint db"
    "smart_contract_events db' = smart_contract_events db" "event_table db' = event_table db"
    "transaction_table db' = transaction_table db" "message_table db' = message_table db"
    "smart_contracts db' = smart_contracts db" "codes db' = codes db"
    "c \<noteq> ub_cw20ContractId p \<Longrightarrow> holder_at c x (cw20_holders db') = holder_at c x (cw20_holders db)"
    by auto
qed

text \<open>What an update adds to a balance that is not newer than its range.\<close>

lemma jobHandle_balance:
  assumes "jobHandle p db = Inr db'" and "cw20_wf db"
    and "evs = filter (\<lambda>a. ta_cw20_contract_id a = ub_cw20ContractId p \<and>
      in_range (ub_startBlock p) (ub_endBlock p) (ta_height a)) (cw20_activities db)"
    and "sorted (map ta_id evs)" and "sorted (map ta_height evs)" and "0 \<le> ub_startBlock p"
    and "\<forall>h. holder_at (ub_cw20ContractId p) x (cw20_holders db) = Some h \<longrightarrow> th_last_updated_height h \<le> ub_startBlock p"
  shows "holder_amount (holder_at (ub_cw20ContractId p) x (cw20_holders db')) =
    holder_amount (holder_at (ub_cw20ContractId p) x (cw20_holders db)) +
    sum_list (map (\<lambda>ev. if ta_action ev \<in> set balance_actions then delta ev x else 0) evs)"
  using assms(1)
proof (cases rule: jobHandle_cases)
  case (some db1 a)
  let ?c = "ub_cw20ContractId p"
  let ?evs = "filter (\<lambda>ev. ta_action ev \<in> set balance_actions) evs"
  from assms(2) have dist: "distinct (holder_keys (cw20_holders db))" by (simp add: cw20_wf_def)
  obtain hs where db1: "db1 = db\<lparr>cw20_holders := hs\<rparr>"
    and replay: "\<And>x. holding_of (holder_at ?c x hs) = fold (\<lambda>ev. apply_event ev x) (balance_events evs) (stored_holding ?c x db)"
    and ready: "\<And>x. can_replay (balance_events evs) x (stored_holding ?c x db)"
    by (rule updateBalanceHolders_effect [OF some(1) [folded assms(3)] dist]) blast
  have order: "balance_events evs = ?evs"
    using assms(4) by (intro sort_key_id_if_sorted) (simp add: sorted_map sorted_wrt_filter)
  have range: "in_range (ub_startBlock p) (ub_endBlock p) (ta_height ev)" if "ev \<in> set evs" for ev
    using that by (simp add: assms(3))
  have "held (fold (\<lambda>ev. apply_event ev x) ?evs (stored_holding ?c x db)) =
      held (stored_holding ?c x db) + sum_list (map (\<lambda>ev. delta ev x) ?evs)"
  proof (rule replay_adds_up)
    show "can_replay ?evs x (stored_holding ?c x db)" using ready order by metis
    show "sorted (map ta_height ?evs)" using assms(5) by (simp add: sorted_map sorted_wrt_filter)
    show "\<forall>ev\<in>set ?evs. 0 \<le> ta_height ev" using range assms(6) by (fastforce simp: in_range_def)
    show "\<forall>a h. stored_holding ?c x db = Some (a, h) \<longrightarrow> (\<forall>ev\<in>set ?evs. h \<le> ta_height ev)"
      using range assms(7) by (fastforce simp: stored_holding_def holding_of_def in_range_def)
  qed
  then have "holder_amount (holder_at ?c x hs) = holder_amount (holder_at ?c x (cw20_holders db)) + sum_list (map (\<lambda>ev. delta ev x) ?evs)"
    using arg_cong [OF replay [of x], of held] by (simp add: order stored_holding_def)
  moreover have "cw20_holders db' = hs" by (simp add: some(2) db1)
  ultimately show ?thesis by (simp add: sum_list_map_filter')
qed (simp add: assms(3))

end
