(* ===== verification/Cw20_Balances.thy ===== *)
theory Cw20_Balances
  imports Cw20_Ledger
begin

text \<open>
  The balances of CW-20 holders over the runs of the services: a run of the range job queues updates,
  and with them a balance moves by what the contract's events of the range say, whenever they are served.
\<close>

section \<open>What events move\<close>

definition moved :: "cw20_ext \<Rightarrow> string \<Rightarrow> cw20_event \<Rightarrow> int" where
  "moved ext x ev =
     (if coerce_string (ev_action ev) \<in> set balance_actions
      then (let amount = the (Option.bind (getAttributeFrom (ev_attributes ev) ''amount'') (to_numeric ext)) in
            (if x \<noteq> [] \<and> getAttributeFrom (ev_attributes ev) ''to'' = Some x then amount else 0) -
            (if x \<noteq> [] \<and> getAttributeFrom (ev_attributes ev) ''from'' = Some x then amount else 0))
      else 0)"

definition cw20_rows :: "('c, 'a) contract_event_db_scheme \<Rightarrow> (int \<times> cw20_event) list" where
  "cw20_rows db = List.map_filter (cw20_event_of db) (smart_contract_events db)"

abbreviation cw20_events :: "int \<Rightarrow> int \<Rightarrow> ('c, 'a) contract_event_db_scheme \<Rightarrow> cw20_event list" where
  "cw20_events a b db \<equiv> getCw20ContractEvents a b None None db"

lemma cw20_events_eq: "cw20_events a b db = map snd (filter (\<lambda>r. in_range a b (fst r)) (cw20_rows db))"
  by (simp add: getCw20ContractEvents_def cw20_rows_def Let_def case_prod_unfold)

definition moved_in :: "cw20_ext \<Rightarrow> string \<Rightarrow> string \<Rightarrow> ('c, 'a) cw20_db_scheme \<Rightarrow> int \<Rightarrow> int \<Rightarrow> int" where
  "moved_in ext A x db a b = sum_list (map (moved ext x) (filter (\<lambda>ev. ev_contract_address ev = A) (cw20_events a b db)))"

definition cw20_balance :: "int \<Rightarrow> string \<Rightarrow> ('c, 'a) cw20_db_scheme \<Rightarrow> int" where
  "cw20_balance c x db = holder_amount (holder_at c x (cw20_holders db))"

lemma moved_in_split:
  assumes "a \<le> b" and "b \<le> d"
  shows "moved_in ext A x db a d = moved_in ext A x db a b + moved_in ext A x db b d"
proof -
  have eq: "moved_in ext A x db s e = sum_mset (image_mset (moved ext x \<circ> snd)
      (filter_mset (\<lambda>r. ev_contract_address (snd r) = A \<and> in_range s e (fst r)) (mset (cw20_rows db))))" for s e
    by (simp add: moved_in_def cw20_events_eq filter_map comp_def conj_commute flip: sum_mset_sum_list)
  show ?thesis unfolding eq filter_mset_range_split [OF assms] by simp
qed

lemma cw20_rows_cong:
  assumes "smart_contract_events db' = smart_contract_events db" "event_table db' = event_table db"
    "transaction_table db' = transaction_table db" "message_table db' = message_table db"
    "smart_contracts db' = smart_contracts db" "codes db' = codes db"
  shows "cw20_rows db' = cw20_rows db"
proof -
  have "message_sender db' = message_sender db" by (rule ext) (simp only: message_sender_def assms)
  then have "cw20_event_of db' = cw20_event_of db"
    by (intro ext) (simp only: cw20_event_of_def contract_event_join_def assms)
  then show ?thesis by (simp only: cw20_rows_def assms)
qed

text \<open>The tables that the events are read from.\<close>

definition same_events :: "('c, 'a) cw20_db_scheme \<Rightarrow> ('c, 'a) cw20_db_scheme \<Rightarrow> bool" where
  "same_events db db' \<longleftrightarrow> smart_contract_events db' = smart_contract_events db \<and> event_table db' = event_table db \<and>
     transaction_table db' = transaction_table db \<and> message_table db' = message_table db \<and>
     smart_contracts db' = smart_contracts db \<and> codes db' = codes db"

lemma same_events_rows: "same_events db db' \<Longrightarrow> cw20_rows db' = cw20_rows db"
  by (rule cw20_rows_cong) (simp_all add: same_events_def)

lemma same_events_refl [simp]: "same_events db db"
  by (simp add: same_events_def)

lemma same_events_trans: "same_events db db' \<Longrightarrow> same_events db' db2 \<Longrightarrow> same_events db db2"
  by (simp add: same_events_def)

section \<open>Contracts and activities of a run\<close>

text \<open>
  The contract at \<open>A\<close>: the smart contract has one row, with the CW-20 contract \<open>c\<close>, which is tracked.
\<close>

definition cw20_row_ok :: "string \<Rightarrow> cw20_contract \<Rightarrow> ('c, 'a) cw20_db_scheme \<Rightarrow> bool" where
  "cw20_row_ok A n db \<longleftrightarrow> n \<in> set (cw20_contracts db) \<and> tc_track n \<and> tc_id n \<noteq> 0 \<and> cw20_address db n = Some A \<and>
     list_all (\<lambda>k. k_address k = A \<longrightarrow> k_id k = tc_smart_contract_id n) (smart_contracts db) \<and>
     list_all (\<lambda>n'. tc_smart_contract_id n' = tc_smart_contract_id n \<longrightarrow> n' = n) (cw20_contracts db)"

lemma find_in: "find P xs = Some x \<Longrightarrow> x \<in> set xs \<and> P x"
  by (induction xs) (auto split: if_splits)

lemma cw20_address_A:
  assumes "cw20_row_ok A n db" and "n' \<in> set (cw20_contracts db)"
  shows "cw20_address db n' = Some A \<longleftrightarrow> n' = n"
proof
  assume "cw20_address db n' = Some A"
  then obtain k where "k \<in> set (smart_contracts db)" "k_address k = A" "k_id k = tc_smart_contract_id n'"
    by (auto simp: cw20_address_def dest!: find_in)
  with assms show "n' = n" by (auto simp: cw20_row_ok_def list_all_iff)
qed (use assms(1) in \<open>simp add: cw20_row_ok_def\<close>)

lemma in_tracked_cw20:
  "(a, n) \<in> set (tracked_cw20 as db) \<longleftrightarrow> n \<in> set (cw20_contracts db) \<and> tc_track n \<and> cw20_address db n = Some a \<and> a \<in> set as"
  by (auto simp: tracked_cw20_def set_map_filter_Some split: option.splits if_splits)

lemma handleCw20Instantiate_effect:
  assumes "handleCw20Instantiate ext evs db = Some (Inr db')" and "cw20_row_ok A n db" and "cw20_wf db"
  shows "\<exists>ns i hs. db' = db\<lparr>cw20_contracts := cw20_contracts db @ ns, cw20_contract_seq := i, cw20_holders := cw20_holders db @ hs\<rparr>"
    and "cw20_row_ok A n db'" and "holder_at (tc_id n) x (cw20_holders db') = holder_at (tc_id n) x (cw20_holders db)"
proof -
  let ?I = "\<lambda>s. cw20_row_ok A n s \<and> cw20_wf s \<and> holder_at (tc_id n) x (cw20_holders s) = holder_at (tc_id n) x (cw20_holders db) \<and>
    (\<exists>ns i hs. s = db\<lparr>cw20_contracts := cw20_contracts db @ ns, cw20_contract_seq := i, cw20_holders := cw20_holders db @ hs\<rparr>)"
  have step: "?I s'" if I: "?I s" and run: "store_instantiated infos e s = Inr s'" for infos e s s'
  proof -
    from run obtain sc info track es where ins: "insert_cw20_graph sc info track es (min_height es) s = Inr s'"
      by (auto simp: store_instantiated_def case_prod_beta)
    note eff = insert_cw20_graph_effect [OF ins]
    from I have "tc_id n < cw20_contract_seq s" and n: "n \<in> set (cw20_contracts s)"
      by (auto simp: cw20_row_ok_def cw20_wf_def list_all_iff)
    then have "holder_at (tc_id n) x (map (initial_holder (cw20_contract_seq s)) es) = None"
      by (auto simp: holder_at_None holder_key_def initial_holder_def)
    then have "holder_at (tc_id n) x (cw20_holders s') = holder_at (tc_id n) x (cw20_holders s)"
      by (simp add: holder_at_def eff(1) find_append split: option.split)
    moreover have "cw20_row_ok A n s'"
      using I eff(3) n by (auto simp: cw20_row_ok_def eff(1) cw20_address_def new_cw20_contract_def)
    moreover have "\<exists>ns i hs. s' = db\<lparr>cw20_contracts := cw20_contracts db @ ns, cw20_contract_seq := i, cw20_holders := cw20_holders db @ hs\<rparr>"
    proof -
      from I obtain ns i hs where "s = db\<lparr>cw20_contracts := cw20_contracts db @ ns, cw20_contract_seq := i, cw20_holders := cw20_holders db @ hs\<rparr>"
        by blast
      with eff(1) show ?thesis by simp blast
    qed
    moreover have "cw20_wf s'" using insert_cw20_graph_wf [OF ins] I by blast
    ultimately show ?thesis using I by simp
  qed
  have base: "?I db"
    using assms(2,3)
    by (simp, intro exI [of _ "[]"] exI [of _ "cw20_contract_seq db"]) simp
  have "?I db'"
  proof (cases "evs = []")
    case True
    with assms(1) base show ?thesis by (simp add: handleCw20Instantiate_def)
  next
    case False
    with assms(1) obtain infos answers where run: "rfold (store_instantiated infos) answers db = Inr db'"
      by (auto simp: handleCw20Instantiate_def split: sum.splits)
    show ?thesis by (rule rfold_invariant [where I = ?I, OF run base]) (rule step)
  qed
  then show "\<exists>ns i hs. db' = db\<lparr>cw20_contracts := cw20_contracts db @ ns, cw20_contract_seq := i, cw20_holders := cw20_holders db @ hs\<rparr>"
    and "cw20_row_ok A n db'" and "holder_at (tc_id n) x (cw20_holders db') = holder_at (tc_id n) x (cw20_holders db)"
    by blast+
qed
text \<open>The row of an event's activity, but for its ids.\<close>

definition records :: "cw20_ext \<Rightarrow> cw20_event \<Rightarrow> cw20_activity \<Rightarrow> bool" where
  "records ext ev a \<longleftrightarrow> ta_smart_contract_event_id a = ev_smart_contract_event_id ev \<and>
     ta_action a = coerce_string (ev_action ev) \<and>
     ta_amount a = Option.bind (getAttributeFrom (ev_attributes ev) ''amount'') (to_numeric ext) \<and>
     ta_from a = getAttributeFrom (ev_attributes ev) ''from'' \<and> ta_to a = getAttributeFrom (ev_attributes ev) ''to'' \<and>
     ta_height a = ev_height ev"

lemma records_moved:
  "records ext ev a \<Longrightarrow> (if ta_action a \<in> set balance_actions then delta a x else 0) = moved ext x ev"
  by (auto simp: records_def moved_def delta_def sends_def receives_def truthy_def Let_def)

lemma list_all2_filter:
  assumes "list_all2 R xs ys" and "\<And>x y. R x y \<Longrightarrow> P x = Q y"
  shows "list_all2 R (filter P xs) (filter Q ys)"
  using assms by (induction rule: list_all2_induct) auto

lemma map_filter_tag:
  assumes "\<And>e. e \<in> set es \<Longrightarrow> g e = None \<or> (\<exists>n. g e = Some (n, e))"
    and "\<And>e. e \<in> set es \<Longrightarrow> Q e \<longleftrightarrow> (\<exists>n. g e = Some (n, e) \<and> P n)"
  shows "map snd (filter (\<lambda>(n, _). P n) (List.map_filter g es)) = filter Q es"
  using assms
proof (induction es)
  case (Cons e es)
  from Cons.prems(1) [of e] Cons.prems(2) [of e] Cons.IH Cons.prems show ?case
    by (cases "g e") (auto simp: map_filter_simps)
qed simp

lemma cw20_activity_row:
  "cw20_activity_of ext n ev = Inr f \<Longrightarrow>
    ta_id (f j) = j \<and> ta_cw20_contract_id (f j) = tc_id n \<and> records ext ev (f j)"
  by (cases "ev_message_sender ev") (auto simp: cw20_activity_of_def records_def)

lemma numbered_rows:
  assumes "rmap (\<lambda>(n, ev). cw20_activity_of ext n ev) mine = Inr fs"
  shows "list_all2 (\<lambda>(n, ev) a. ta_cw20_contract_id a = tc_id n \<and> records ext ev a) mine
      (map (\<lambda>(k, f). f (q + int k)) (zip [0..<length fs] fs))"
    and "map ta_id (map (\<lambda>(k, f). f (q + int k)) (zip [0..<length fs] fs)) = map (\<lambda>k. q + int k) [0..<length fs]"
proof -
  from assms have rows: "list_all2 (\<lambda>(n, ev) f. cw20_activity_of ext n ev = Inr f) mine fs"
    by (simp add: rmap_eq_Inr case_prod_unfold)
  then have len: "length mine = length fs" by (rule list_all2_lengthD)
  have row: "case mine ! i of (n, ev) \<Rightarrow> ta_id ((fs ! i) j) = j \<and> ta_cw20_contract_id ((fs ! i) j) = tc_id n \<and> records ext ev ((fs ! i) j)"
    if "i < length fs" for i j
    using list_all2_nthD2 [OF rows that]
    by (cases "mine ! i") (simp add: cw20_activity_row)
  show "list_all2 (\<lambda>(n, ev) a. ta_cw20_contract_id a = tc_id n \<and> records ext ev a) mine
      (map (\<lambda>(k, f). f (q + int k)) (zip [0..<length fs] fs))"
    using len row by (fastforce simp: list_all2_conv_all_nth split: prod.split)
  show "map ta_id (map (\<lambda>(k, f). f (q + int k)) (zip [0..<length fs] fs)) = map (\<lambda>k. q + int k) [0..<length fs]"
    using row by (intro nth_equalityI) (auto split: prod.splits)
qed

lemma histories_of_contract:
  assumes "handleCw20Histories ext evs db = Inr db'" and "cw20_row_ok A n db" and "cw20_wf db"
  obtains acts where "cw20_activities db' = cw20_activities db @ acts" "sorted (map ta_id acts)"
    "list_all2 (records ext) (filter (\<lambda>ev. ev_contract_address ev = A) evs)
      (filter (\<lambda>a. ta_cw20_contract_id a = tc_id n) acts)"
proof -
  let ?tr = "tracked_cw20 (map ev_contract_address evs) db"
  let ?by = "map_option snd \<circ> keyBy fst ?tr"
  let ?g = "\<lambda>ev. case ?by (ev_contract_address ev) of None \<Rightarrow> None | Some n \<Rightarrow> if tc_id n = 0 then None else Some (n, ev)"
  let ?mine = "List.map_filter ?g evs"
  from assms(1) obtain fs where rows: "rmap (\<lambda>(n, ev). cw20_activity_of ext n ev) ?mine = Inr fs"
    and db': "db' = insert_cw20_activities fs db"
    by (auto simp: handleCw20Histories_def Let_def rbind_eq_Inr split: if_splits)
  let ?acts = "map (\<lambda>(k, f). f (cw20_activity_seq db + int k)) (zip [0..<length fs] fs)"
  note num = numbered_rows [OF rows, of "cw20_activity_seq db"]
  have other: "n' \<in> set (cw20_contracts db) \<and> cw20_address db n' = Some a" if "?by a = Some n'" for a n'
    using that by (auto simp: in_tracked_cw20 dest!: keyBy_SomeD)
  have same: "n' = n" if "n' \<in> set (cw20_contracts db)" "tc_id n' = tc_id n" for n'
    using that assms(2,3) by (auto simp: cw20_row_ok_def cw20_wf_def distinct_map dest: inj_onD)
  have A: "?by A = Some n" if "ev \<in> set evs" "ev_contract_address ev = A" for ev
  proof -
    have "(A, n) \<in> set ?tr" using that assms(2) by (auto simp: in_tracked_cw20 cw20_row_ok_def)
    then obtain n' where "?by A = Some n'" by (cases "?by A") (force simp: keyBy_None_iff)+
    with other [of A n'] cw20_address_A [OF assms(2)] show ?thesis by auto
  qed
  have mine: "ev_contract_address ev = A \<longleftrightarrow> (\<exists>n'. ?g ev = Some (n', ev) \<and> tc_id n' = tc_id n)" if "ev \<in> set evs" for ev
  proof
    assume "ev_contract_address ev = A"
    with A [OF that] assms(2) show "\<exists>n'. ?g ev = Some (n', ev) \<and> tc_id n' = tc_id n" by (auto simp: cw20_row_ok_def)
  next
    assume "\<exists>n'. ?g ev = Some (n', ev) \<and> tc_id n' = tc_id n"
    then obtain n' where n': "?by (ev_contract_address ev) = Some n'" "tc_id n' = tc_id n"
      by (auto split: option.splits if_splits)
    with other same have "n' = n" by blast
    with other [OF n'(1)] assms(2) show "ev_contract_address ev = A" by (simp add: cw20_row_ok_def)
  qed
  have g: "map snd (filter (\<lambda>(n', _). tc_id n' = tc_id n) ?mine) = filter (\<lambda>ev. ev_contract_address ev = A) evs"
    by (rule map_filter_tag [where P = "\<lambda>n'. tc_id n' = tc_id n"]) (use mine in \<open>auto split: option.split\<close>)
  have "list_all2 (\<lambda>(n, ev) a. ta_cw20_contract_id a = tc_id n \<and> records ext ev a)
      (filter (\<lambda>(n', _). tc_id n' = tc_id n) ?mine) (filter (\<lambda>a. ta_cw20_contract_id a = tc_id n) ?acts)"
    by (rule list_all2_filter [OF num(1)]) auto
  then have "list_all2 (records ext) (map snd (filter (\<lambda>(n', _). tc_id n' = tc_id n) ?mine))
      (filter (\<lambda>a. ta_cw20_contract_id a = tc_id n) ?acts)"
    by (auto simp: list_all2_map1 elim!: list_all2_mono)
  moreover have "sorted (map ta_id ?acts)" unfolding num(2) by (simp add: sorted_map sorted_wrt_upt sorted_wrt_iff_nth_less)
  ultimately show thesis using that [of ?acts] g by (simp add: db' insert_cw20_activities_def)
qed
section \<open>Queued updates\<close>

text \<open>
  The activities that a queued update will count, what they move to and from an address, and what
  all queued updates of a contract have yet to move.
\<close>

definition update_activities :: "update_by_contract_param \<Rightarrow> ('c, 'a) cw20_db_scheme \<Rightarrow> cw20_activity list" where
  "update_activities p db =
     filter (\<lambda>a. ta_cw20_contract_id a = ub_cw20ContractId p \<and> in_range (ub_startBlock p) (ub_endBlock p) (ta_height a))
       (cw20_activities db)"

definition activities_move :: "string \<Rightarrow> cw20_activity list \<Rightarrow> int" where
  "activities_move x as = sum_list (map (\<lambda>a. if ta_action a \<in> set balance_actions then delta a x else 0) as)"

definition updates_of :: "int \<Rightarrow> ('c, 'a) cw20_db_scheme \<Rightarrow> update_by_contract_param list" where
  "updates_of c db = filter (\<lambda>p. ub_cw20ContractId p = c) (cw20_update_jobs db)"

definition pending_moves :: "int \<Rightarrow> string \<Rightarrow> ('c, 'a) cw20_db_scheme \<Rightarrow> int" where
  "pending_moves c x db = sum_list (map (\<lambda>p. activities_move x (update_activities p db)) (updates_of c db))"

definition cw20_total :: "int \<Rightarrow> string \<Rightarrow> ('c, 'a) cw20_db_scheme \<Rightarrow> int" where
  "cw20_total c x db = cw20_balance c x db + pending_moves c x db"

lemma activities_move_Nil [simp]: "activities_move x [] = 0"
  by (simp add: activities_move_def)

lemma pending_moves_none: "updates_of c db = [] \<Longrightarrow> pending_moves c x db = 0"
  by (simp add: pending_moves_def)

lemma update_activities_cong: "cw20_activities db' = cw20_activities db \<Longrightarrow> update_activities p db' = update_activities p db"
  by (simp add: update_activities_def)

lemma pending_moves_cong:
  assumes "updates_of c db' = updates_of c db"
    and "\<And>p. p \<in> set (updates_of c db) \<Longrightarrow> update_activities p db' = update_activities p db"
  shows "pending_moves c x db' = pending_moves c x db"
proof -
  have "map (\<lambda>p. activities_move x (update_activities p db')) (updates_of c db) =
      map (\<lambda>p. activities_move x (update_activities p db)) (updates_of c db)"
    using assms(2) by simp
  then show ?thesis by (simp only: pending_moves_def assms(1))
qed

text \<open>The updates that a run queues.\<close>

lemma distinct_map_filter_key:
  assumes "\<And>x y. h x = Some y \<Longrightarrow> g y = f x" and "distinct (map f xs)"
  shows "distinct (map g (List.map_filter h xs))"
  using assms(2)
proof (induction xs)
  case (Cons x xs)
  have "f x \<notin> g ` set (List.map_filter h xs)"
    using Cons.prems assms(1) by (force simp: set_map_filter_Some)
  with Cons assms(1) [of x] show ?case by (cases "h x") (auto simp: map_filter_simps)
qed simp

lemma filter_key_single: "distinct (map f xs) \<Longrightarrow> x \<in> set xs \<Longrightarrow> filter (\<lambda>y. f y = f x) xs = [x]"
proof (induction xs)
  case (Cons y ys)
  show ?case
  proof (cases "x = y")
    case True
    with Cons.prems show ?thesis by (simp add: filter_empty_conv) (metis image_eqI)
  next
    case False
    with Cons.prems have "x \<in> set ys" "f y \<noteq> f x" by auto
    with Cons show ?thesis by simp
  qed
qed simp

lemma queued_updates:
  assumes "cw20_wf db" and "cw20_row_ok A n db" and "tc_last_updated_height n \<le> s" and "s < e"
  shows "updates_of (tc_id n) (UpdateByContract (map (\<lambda>(_, n). (tc_id n, tc_last_updated_height n)) (tracked_cw20 as db)) s e db) =
    updates_of (tc_id n) db @
      (if A \<in> set as then [\<lparr>ub_cw20ContractId = tc_id n, ub_startBlock = s, ub_endBlock = e\<rparr>] else [])"
proof -
  let ?g = "\<lambda>(i, l). if max s l < e then Some \<lparr>ub_cw20ContractId = i, ub_startBlock = max s l, ub_endBlock = e\<rparr> else None"
  let ?f = "\<lambda>n. (tc_id n, tc_last_updated_height n)"
  let ?p = "\<lparr>ub_cw20ContractId = tc_id n, ub_startBlock = s, ub_endBlock = e\<rparr>"
  let ?jobs = "List.map_filter ?g (map (\<lambda>x. ?f (snd x)) (tracked_cw20 as db))"
  have "distinct (map (\<lambda>x. tc_id (snd x)) (tracked_cw20 as db))"
    using assms(1) unfolding tracked_cw20_def
    by (intro distinct_map_filter_key [where f = tc_id]) (auto simp: cw20_wf_def split: option.splits if_splits)
  then have dist: "distinct (map ub_cw20ContractId ?jobs)"
    by (intro distinct_map_filter_key [where f = fst]) (auto simp: comp_def split: if_splits)
  have same: "n' = n" if "n' \<in> set (cw20_contracts db)" "tc_id n' = tc_id n" for n'
    using that assms(1,2) by (auto simp: cw20_row_ok_def cw20_wf_def distinct_map dest: inj_onD)
  have "filter (\<lambda>p. ub_cw20ContractId p = tc_id n) ?jobs = (if A \<in> set as then [?p] else [])"
  proof (cases "A \<in> set as")
    case True
    have "(A, n) \<in> set (tracked_cw20 as db)" using True assms(2) by (simp add: in_tracked_cw20 cw20_row_ok_def)
    then have "?p \<in> set ?jobs" using assms(3,4) by (force simp: set_map_filter_Some max_def)
    from filter_key_single [OF dist this] True show ?thesis by simp
  next
    case False
    have "ub_cw20ContractId p \<noteq> tc_id n" if "p \<in> set ?jobs" for p
    proof
      assume "ub_cw20ContractId p = tc_id n"
      with that obtain a n' where n': "(a, n') \<in> set (tracked_cw20 as db)" "tc_id n' = tc_id n"
        by (auto simp: set_map_filter_Some split: if_splits)
      then have "n' \<in> set (cw20_contracts db)" "cw20_address db n' = Some a" "a \<in> set as" by (simp_all add: in_tracked_cw20)
      moreover from same [OF this(1) n'(2)] have "n' = n" .
      ultimately show False using assms(2) False by (simp add: cw20_row_ok_def)
    qed
    then have "filter (\<lambda>p. ub_cw20ContractId p = tc_id n) ?jobs = []" by (auto simp only: filter_empty_conv)
    with False show ?thesis by (simp only: if_False)
  qed
  then show ?thesis by (simp add: updates_of_def UpdateByContract_def Let_def case_prod_unfold)
qed

section \<open>When the services count right\<close>

abbreviation cw20_pos :: "config \<Rightarrow> ('c, 'a) cw20_db_scheme \<Rightarrow> int" where
  "cw20_pos cfg db \<equiv> job_start cfg HANDLE_CW20 (block_checkpoint db)"

abbreviation cw20_end :: "config \<Rightarrow> ('c, 'a) cw20_db_scheme \<Rightarrow> int" where
  "cw20_end cfg db \<equiv> job_end cfg HANDLE_CW20 (block_checkpoint db)"

text \<open>
  A queued update of the contract is in order when its range is behind the checkpoint, the holder
  is not ahead of its start, and its activities are in the order of their heights.
\<close>

definition queued_ok :: "string \<Rightarrow> int \<Rightarrow> ('c, 'a) cw20_db_scheme \<Rightarrow> update_by_contract_param \<Rightarrow> bool" where
  "queued_ok x h db p \<longleftrightarrow> 0 \<le> ub_startBlock p \<and> ub_startBlock p \<le> ub_endBlock p \<and> ub_endBlock p \<le> h \<and>
     sorted (map ta_id (update_activities p db)) \<and> sorted (map ta_height (update_activities p db)) \<and>
     (\<forall>r. holder_at (ub_cw20ContractId p) x (cw20_holders db) = Some r \<longrightarrow> th_last_updated_height r \<le> ub_startBlock p)"

definition queue_ok :: "int \<Rightarrow> string \<Rightarrow> int \<Rightarrow> ('c, 'a) cw20_db_scheme \<Rightarrow> bool" where
  "queue_ok c x h db \<longleftrightarrow> sorted_wrt (\<lambda>p q. ub_endBlock p \<le> ub_startBlock q) (updates_of c db) \<and>
     list_all (queued_ok x h db) (updates_of c db)"

text \<open>
  A state in which the services count right: the contract has one row and is tracked, neither the
  row nor the holder nor an activity is ahead of the checkpoint, the queued updates of the contract
  are in order and one behind the other, and the events are in the order of their heights.
\<close>

definition cw20_ready :: "config \<Rightarrow> string \<Rightarrow> int \<Rightarrow> string \<Rightarrow> ('c, 'a) cw20_db_scheme \<Rightarrow> bool" where
  "cw20_ready cfg A c x db \<longleftrightarrow>
     (\<exists>n. cw20_row_ok A n db \<and> tc_id n = c \<and> tc_last_updated_height n \<le> cw20_pos cfg db) \<and>
     cw20_wf db \<and> queue_ok c x (cw20_pos cfg db) db \<and> 0 \<le> cw20_pos cfg db \<and>
     (\<forall>h. holder_at c x (cw20_holders db) = Some h \<longrightarrow> th_last_updated_height h \<le> cw20_pos cfg db) \<and>
     list_all (\<lambda>a. ta_cw20_contract_id a = c \<longrightarrow> ta_height a \<le> cw20_pos cfg db) (cw20_activities db) \<and>
     sorted (map fst (cw20_rows db)) \<and> list_all (\<lambda>(h, ev). ev_height ev = h) (cw20_rows db)"

lemma updates_of_contract: "p \<in> set (updates_of c db) \<Longrightarrow> ub_cw20ContractId p = c"
  by (simp add: updates_of_def)

section \<open>A run of the range job\<close>

text \<open>The job as the other jobs see it: a run that throws or gets no answer has stored no range.\<close>

definition cw20_run :: "config \<Rightarrow> cw20_ext \<Rightarrow> ('c, 'a) cw20_db_scheme \<Rightarrow> ('c, 'a) cw20_db_scheme res" where
  "cw20_run cfg ext db =
     (case jobHandleCw20 cfg ext db of None \<Rightarrow> Inl (JsError ''no answer'') | Some r \<Rightarrow> succeeded r)"

lemma cw20_run_eq_Inr: "cw20_run cfg ext db = Inr db' \<longleftrightarrow> jobHandleCw20 cfg ext db = Some (db', None)"
  by (auto simp: cw20_run_def succeeded_eq_Inr split: option.splits)

text \<open>What the transaction of a run leaves for the updates.\<close>

lemma cw20_transaction_effect:
  assumes "cw20_transaction ext evs row db = Some (Inr db')" and "cw20_row_ok A n db" and "cw20_wf db"
  obtains acts where "cw20_activities db' = cw20_activities db @ acts" "sorted (map ta_id acts)"
    "list_all2 (records ext) (filter (\<lambda>ev. ev_contract_address ev = A) evs)
      (filter (\<lambda>a. ta_cw20_contract_id a = tc_id n) acts)"
    "cw20_row_ok A n db'" "cw20_wf db'" "holder_at (tc_id n) x (cw20_holders db') = holder_at (tc_id n) x (cw20_holders db)"
    "cw20_update_jobs db' = cw20_update_jobs db" "same_events db db'"
    "block_checkpoint db' = (block_checkpoint db)(fst row \<mapsto> snd row)"
proof (cases "evs = []")
  case True
  with assms have db': "db' = saveCheckpoint row db" by (auto simp: cw20_transaction_def)
  show thesis
    by (rule that [of "[]"])
      (use assms(2,3) True in \<open>simp_all add: db' saveCheckpoint_def cw20_row_ok_def cw20_address_def cw20_wf_def same_events_def\<close>)
next
  case False
  with assms(1) obtain db1 db2 where
    ins: "handleCw20Instantiate ext (filter (\<lambda>ev. ev_action ev = Some ''instantiate'') evs) db = Some (Inr db1)"
    and hist: "handleCw20Histories ext evs db1 = Inr db2" and db': "db' = saveCheckpoint row db2"
    by (auto simp: cw20_transaction_def rbind_eq_Inr)
  note inst = handleCw20Instantiate_effect [OF ins assms(2,3)]
  have wf1: "cw20_wf db1" by (rule handleCw20Instantiate_wf [OF ins assms(3)])
  from hist inst(2) wf1 obtain acts where acts: "cw20_activities db2 = cw20_activities db1 @ acts" "sorted (map ta_id acts)"
    "list_all2 (records ext) (filter (\<lambda>ev. ev_contract_address ev = A) evs)
      (filter (\<lambda>a. ta_cw20_contract_id a = tc_id n) acts)"
    by (rule histories_of_contract)
  from hist obtain as q where db2: "db2 = db1\<lparr>cw20_activities := as, cw20_activity_seq := q\<rparr>"
    by (rule handleCw20Histories_effect)
  from inst(1) obtain ns i hs where
    db1: "db1 = db\<lparr>cw20_contracts := cw20_contracts db @ ns, cw20_contract_seq := i, cw20_holders := cw20_holders db @ hs\<rparr>"
    by blast
  show thesis
  proof (rule that [OF _ acts(2,3)])
    show "cw20_activities db' = cw20_activities db @ acts" using acts(1) by (simp add: db' db1 saveCheckpoint_def)
    show "cw20_row_ok A n db'" using inst(2) by (simp add: db' db2 saveCheckpoint_def cw20_row_ok_def cw20_address_def)
    show "cw20_wf db'" using wf1 by (simp add: db' db2 saveCheckpoint_def cw20_wf_def)
    show "holder_at (tc_id n) x (cw20_holders db') = holder_at (tc_id n) x (cw20_holders db)"
      using inst(3) by (simp add: db' db2 saveCheckpoint_def)
    show "cw20_update_jobs db' = cw20_update_jobs db" "same_events db db'"
      "block_checkpoint db' = (block_checkpoint db)(fst row \<mapsto> snd row)"
      by (simp_all add: db' db2 db1 saveCheckpoint_def same_events_def)
  qed
qed
lemma list_all2_map_eq: "list_all2 R xs ys \<Longrightarrow> (\<And>x y. R x y \<Longrightarrow> f x = g y) \<Longrightarrow> map f xs = map g ys"
  by (induction rule: list_all2_induct) auto

lemma new_activities:
  assumes "list_all2 (records ext) (filter (\<lambda>ev. ev_contract_address ev = A) evs) (filter (\<lambda>a. ta_cw20_contract_id a = c) acts)"
    and "list_all (\<lambda>a. ta_cw20_contract_id a = c \<longrightarrow> ta_height a \<le> s) old"
    and "\<forall>ev\<in>set evs. in_range s e (ev_height ev)"
  shows "filter (\<lambda>a. ta_cw20_contract_id a = c \<and> in_range s e (ta_height a)) (old @ acts) =
    filter (\<lambda>a. ta_cw20_contract_id a = c) acts"
proof -
  have "in_range s e (ta_height a)" if "a \<in> set (filter (\<lambda>a. ta_cw20_contract_id a = c) acts)" for a
  proof -
    from list_all2_set2 [OF assms(1) that] obtain ev where "ev \<in> set evs" "records ext ev a" by auto
    with assms(3) show ?thesis by (simp add: records_def)
  qed
  then have "filter (\<lambda>a. ta_cw20_contract_id a = c \<and> in_range s e (ta_height a)) acts = filter (\<lambda>a. ta_cw20_contract_id a = c) acts"
    by (intro filter_cong) auto
  moreover have "filter (\<lambda>a. ta_cw20_contract_id a = c \<and> in_range s e (ta_height a)) old = []"
    using assms(2) by (auto simp: filter_empty_conv list_all_iff in_range_def)
  ultimately show ?thesis by simp
qed

text \<open>The activities of the contract that a run over the heights from \<open>s\<close> to \<open>e\<close> adds.\<close>

lemma run_activities:
  assumes rec: "list_all2 (records ext) (filter (\<lambda>ev. ev_contract_address ev = A) evs) (filter (\<lambda>a. ta_cw20_contract_id a = c) acts)"
    and "sorted (map ta_id acts)" and "\<forall>ev\<in>set evs. in_range s e (ev_height ev)" and "sorted (map ev_height evs)"
    and "list_all (\<lambda>a. ta_cw20_contract_id a = c \<longrightarrow> ta_height a \<le> s) old"
  shows "\<forall>a\<in>set acts. ta_cw20_contract_id a = c \<longrightarrow> s < ta_height a"
    and "filter (\<lambda>a. ta_cw20_contract_id a = c \<and> in_range s e (ta_height a)) (old @ acts) =
      filter (\<lambda>a. ta_cw20_contract_id a = c) acts"
    and "sorted (map ta_id (filter (\<lambda>a. ta_cw20_contract_id a = c) acts))"
    and "sorted (map ta_height (filter (\<lambda>a. ta_cw20_contract_id a = c) acts))"
    and "map (\<lambda>a. if ta_action a \<in> set balance_actions then delta a x else 0) (filter (\<lambda>a. ta_cw20_contract_id a = c) acts) =
      map (moved ext x) (filter (\<lambda>ev. ev_contract_address ev = A) evs)"
    and "\<forall>a\<in>set acts. ta_cw20_contract_id a = c \<longrightarrow> ta_height a \<le> e"
proof -
  have range: "in_range s e (ta_height a)" if "a \<in> set acts" "ta_cw20_contract_id a = c" for a
  proof -
    from that have "a \<in> set (filter (\<lambda>a. ta_cw20_contract_id a = c) acts)" by simp
    from list_all2_set2 [OF rec this] obtain ev where "ev \<in> set evs" "records ext ev a" by auto
    with assms(3) show ?thesis by (simp add: records_def)
  qed
  then show "\<forall>a\<in>set acts. ta_cw20_contract_id a = c \<longrightarrow> s < ta_height a"
    and "\<forall>a\<in>set acts. ta_cw20_contract_id a = c \<longrightarrow> ta_height a \<le> e" by (auto simp: in_range_def)
  show "filter (\<lambda>a. ta_cw20_contract_id a = c \<and> in_range s e (ta_height a)) (old @ acts) =
      filter (\<lambda>a. ta_cw20_contract_id a = c) acts" by (rule new_activities [OF rec assms(5,3)])
  show "sorted (map ta_id (filter (\<lambda>a. ta_cw20_contract_id a = c) acts))"
    using assms(2) by (simp add: sorted_map sorted_wrt_filter)
  have "map ev_height (filter (\<lambda>ev. ev_contract_address ev = A) evs) = map ta_height (filter (\<lambda>a. ta_cw20_contract_id a = c) acts)"
    by (rule list_all2_map_eq [OF rec]) (simp add: records_def)
  moreover have "sorted (map ev_height (filter (\<lambda>ev. ev_contract_address ev = A) evs))"
    using assms(4) by (simp add: sorted_map sorted_wrt_filter)
  ultimately show "sorted (map ta_height (filter (\<lambda>a. ta_cw20_contract_id a = c) acts))" by simp
  show "map (\<lambda>a. if ta_action a \<in> set balance_actions then delta a x else 0) (filter (\<lambda>a. ta_cw20_contract_id a = c) acts) =
      map (moved ext x) (filter (\<lambda>ev. ev_contract_address ev = A) evs)"
    by (rule list_all2_map_eq [OF rec, symmetric]) (simp add: records_moved)
qed

lemma cw20_run_cases:
  assumes "cw20_run cfg ext db = Inr db'"
  obtains (skip) stats where "cw20_end cfg db \<le> cw20_pos cfg db" "db' = db\<lparr>cw20_stats := stats\<rparr>"
  | (run) stats evs db2 where "cw20_pos cfg db < cw20_end cfg db"
      "evs = cw20_events (cw20_pos cfg db) (cw20_end cfg db) (db\<lparr>cw20_stats := stats\<rparr>)"
      "cw20_transaction ext evs (job_name HANDLE_CW20, cw20_end cfg db) (db\<lparr>cw20_stats := stats\<rparr>) = Some (Inr db2)"
      "db' = UpdateByContract (map (\<lambda>(_, n). (tc_id n, tc_last_updated_height n))
        (tracked_cw20 (map ev_contract_address evs) db2)) (cw20_pos cfg db) (cw20_end cfg db) db2"
proof -
  from assms have "jobHandleCw20 cfg ext db = Some (db', None)" by (simp add: cw20_run_eq_Inr)
  then show thesis
  proof (cases rule: jobHandleCw20_cases)
    case stats
    from stats(1) obtain st where "db' = db\<lparr>cw20_stats := st\<rparr>" by (rule handleStatistic_effect)
    with stats(2) show thesis by (intro skip) simp_all
  next
    case (stored dbs db2 evs)
    from stored(2) obtain st where dbs: "dbs = db\<lparr>cw20_stats := st\<rparr>" by (rule handleStatistic_effect)
    with run [of evs st db2] stored show thesis by simp
  qed simp
qed

text \<open>Activities of heights after the range of an update do not concern it.\<close>

lemma update_activities_later:
  assumes "cw20_activities db' = cw20_activities db @ acts" and "ub_cw20ContractId p = c" and "ub_endBlock p \<le> s"
    and "\<forall>a\<in>set acts. ta_cw20_contract_id a = c \<longrightarrow> s < ta_height a"
  shows "update_activities p db' = update_activities p db"
  using assms by (auto simp: update_activities_def filter_empty_conv in_range_def)

lemma run_queues:
  assumes "cw20_activities db' = cw20_activities db @ acts"
    and "holder_at c x (cw20_holders db') = holder_at c x (cw20_holders db)"
    and "updates_of c db' = updates_of c db @ (if B then [\<lparr>ub_cw20ContractId = c, ub_startBlock = s, ub_endBlock = e\<rparr>] else [])"
    and "\<forall>a\<in>set acts. ta_cw20_contract_id a = c \<longrightarrow> s < ta_height a"
    and "\<not> B \<Longrightarrow> filter (\<lambda>a. ta_cw20_contract_id a = c) acts = []"
    and "filter (\<lambda>a. ta_cw20_contract_id a = c \<and> in_range s e (ta_height a)) (cw20_activities db @ acts) =
      filter (\<lambda>a. ta_cw20_contract_id a = c) acts"
    and "sorted (map ta_id (filter (\<lambda>a. ta_cw20_contract_id a = c) acts))"
    and "sorted (map ta_height (filter (\<lambda>a. ta_cw20_contract_id a = c) acts))"
    and "s < e" and "0 \<le> s" and "queue_ok c x s db"
    and "\<forall>h. holder_at c x (cw20_holders db) = Some h \<longrightarrow> th_last_updated_height h \<le> s"
  shows "queue_ok c x e db'" and "pending_moves c x db' = pending_moves c x db + activities_move x (filter (\<lambda>a. ta_cw20_contract_id a = c) acts)"
proof -
  let ?p = "\<lparr>ub_cw20ContractId = c, ub_startBlock = s, ub_endBlock = e\<rparr>"
  have ok: "queued_ok x s db p" if "p \<in> set (updates_of c db)" for p
    using that assms(11) by (simp add: queue_ok_def list_all_iff)
  have old: "update_activities p db' = update_activities p db" if "p \<in> set (updates_of c db)" for p
    using ok [OF that] by (intro update_activities_later [OF assms(1) updates_of_contract [OF that] _ assms(4)]) (simp add: queued_ok_def)
  have new: "update_activities ?p db' = filter (\<lambda>a. ta_cw20_contract_id a = c) acts"
    using assms(6) by (simp add: update_activities_def assms(1) del: filter_append)
  have ok': "queued_ok x e db' p" if "p \<in> set (updates_of c db)" for p
    using ok [OF that] old [OF that] updates_of_contract [OF that] assms(2,9) by (simp add: queued_ok_def)
  moreover have "queued_ok x e db' ?p" using assms(2,7-10,12) new by (simp add: queued_ok_def)
  ultimately have "list_all (queued_ok x e db') (updates_of c db')" by (auto simp: list_all_iff assms(3))
  moreover have "sorted_wrt (\<lambda>p q. ub_endBlock p \<le> ub_startBlock q) (updates_of c db')"
    using ok assms(11) by (auto simp: sorted_wrt_append assms(3) queue_ok_def queued_ok_def)
  ultimately show "queue_ok c x e db'" by (simp add: queue_ok_def)
  have "(\<Sum>p\<leftarrow>updates_of c db. activities_move x (update_activities p db')) =
      (\<Sum>p\<leftarrow>updates_of c db. activities_move x (update_activities p db))" by (rule arg_cong [where f = sum_list]) (simp add: old)
  then show "pending_moves c x db' = pending_moves c x db + activities_move x (filter (\<lambda>a. ta_cw20_contract_id a = c) acts)"
    using new assms(5) by (simp add: pending_moves_def assms(3))
qed

text \<open>
  A run moves no balance, but it queues what the events of its range move; and it leaves a state in
  which the services count right.
\<close>

lemma cw20_run_effect:
  assumes "cw20_ready cfg A c x db" and "cw20_run cfg ext db = Inr db'"
  shows "cw20_ready cfg A c x db' \<and> same_events db db' \<and> cw20_total c x db' = cw20_total c x db +
      (if cw20_end cfg db \<le> cw20_pos cfg db then 0 else moved_in ext A x db (cw20_pos cfg db) (cw20_end cfg db))"
proof -
  let ?s = "cw20_pos cfg db" and ?e = "cw20_end cfg db"
  from assms(1) obtain n where row: "cw20_row_ok A n db" and c: "tc_id n = c" and last: "tc_last_updated_height n \<le> ?s"
    and wf: "cw20_wf db" and queue: "queue_ok c x ?s db" and pos: "0 \<le> ?s"
    and holder: "\<forall>h. holder_at c x (cw20_holders db) = Some h \<longrightarrow> th_last_updated_height h \<le> ?s"
    and old: "list_all (\<lambda>a. ta_cw20_contract_id a = c \<longrightarrow> ta_height a \<le> ?s) (cw20_activities db)"
    and sorted: "sorted (map fst (cw20_rows db))" and heights: "list_all (\<lambda>(h, ev). ev_height ev = h) (cw20_rows db)"
    by (auto simp: cw20_ready_def)
  from assms(2) show ?thesis
  proof (cases rule: cw20_run_cases)
    case (skip st)
    have eq: "same_events db db'" "cw20_wf db'" "cw20_row_ok A n db'" "updates_of c db' = updates_of c db"
      "cw20_activities db' = cw20_activities db" "cw20_holders db' = cw20_holders db" "block_checkpoint db' = block_checkpoint db"
      using row wf by (simp_all add: skip(2) same_events_def cw20_wf_def cw20_row_ok_def cw20_address_def updates_of_def)
    have upd: "update_activities p db' = update_activities p db" for p by (rule update_activities_cong) (rule eq)
    have "queued_ok x ?s db' = queued_ok x ?s db" by (intro ext) (simp add: queued_ok_def eq(6) upd)
    then have "queue_ok c x ?s db'" using queue by (simp add: queue_ok_def eq(4))
    moreover have "cw20_total c x db' = cw20_total c x db"
      using pending_moves_cong [OF eq(4) upd] by (simp add: cw20_total_def cw20_balance_def eq(6))
    ultimately show ?thesis using eq(1-3) c last holder old pos sorted heights skip(1)
      by (auto simp: cw20_ready_def eq(5-7) same_events_rows [OF eq(1)])
  next
    case (run st evs db2)
    let ?db1 = "db\<lparr>cw20_stats := st\<rparr>" and ?mine = "\<lambda>acts. filter (\<lambda>a. ta_cw20_contract_id a = c) acts"
    have "cw20_row_ok A n ?db1" "cw20_wf ?db1" using row wf by (simp_all add: cw20_row_ok_def cw20_address_def cw20_wf_def)
    with run(3) obtain acts where acts: "cw20_activities db2 = cw20_activities ?db1 @ acts" "sorted (map ta_id acts)"
      and rec: "list_all2 (records ext) (filter (\<lambda>ev. ev_contract_address ev = A) evs) (filter (\<lambda>a. ta_cw20_contract_id a = tc_id n) acts)"
      and db2: "cw20_row_ok A n db2" "cw20_wf db2" "holder_at (tc_id n) x (cw20_holders db2) = holder_at (tc_id n) x (cw20_holders ?db1)"
        "cw20_update_jobs db2 = cw20_update_jobs ?db1" "same_events ?db1 db2"
        "block_checkpoint db2 = (block_checkpoint ?db1)(fst (job_name HANDLE_CW20, ?e) \<mapsto> snd (job_name HANDLE_CW20, ?e))"
      by (rule cw20_transaction_effect [where x = x])
    have evs: "evs = map snd (filter (\<lambda>r. in_range ?s ?e (fst r)) (cw20_rows db))"
      unfolding run(2) cw20_events_eq by (simp add: cw20_rows_cong [of ?db1 db])
    have range: "\<forall>ev\<in>set evs. in_range ?s ?e (ev_height ev)" using heights by (auto simp: evs list_all_iff)
    note mine = run_activities [OF rec [unfolded c] acts(2) range _ old]
    have "map ev_height evs = map fst (filter (\<lambda>r. in_range ?s ?e (fst r)) (cw20_rows db))"
      using heights by (auto simp: evs list_all_iff)
    then have "sorted (map ev_height evs)" using sorted by (simp add: sorted_map sorted_wrt_filter)
    note mine = mine [OF this]
    have db': "cw20_activities db' = cw20_activities db @ acts" "cw20_holders db' = cw20_holders db2" "same_events db db'"
      "cw20_wf db'" "cw20_row_ok A n db'" "block_checkpoint db' = block_checkpoint db2"
      using acts db2(1,2,5) by (simp_all add: run(4) UpdateByContract_def same_events_def cw20_wf_def cw20_row_ok_def cw20_address_def)
    have "updates_of c db' = updates_of c db @ (if A \<in> set (map ev_contract_address evs)
        then [\<lparr>ub_cw20ContractId = c, ub_startBlock = ?s, ub_endBlock = ?e\<rparr>] else [])"
      using queued_updates [OF db2(2,1) last run(1), of "map ev_contract_address evs"] db2(4)
      by (simp only: run(4) c) (simp add: updates_of_def)
    note queues = run_queues [OF db'(1) _ this mine(1) _ mine(2-4) run(1) pos queue holder]
    have hold: "holder_at c x (cw20_holders db') = holder_at c x (cw20_holders db)" using db2(3) by (simp add: db'(2) c)
    have none: "?mine acts = []" if "A \<notin> set (map ev_contract_address evs)"
    proof -
      have "filter (\<lambda>ev. ev_contract_address ev = A) evs = []" using that by (auto simp: filter_empty_conv)
      with rec show ?thesis by (simp add: c)
    qed
    have "activities_move x (?mine acts) = moved_in ext A x db ?s ?e"
      by (simp only: activities_move_def mine(5) moved_in_def cw20_events_eq flip: evs)
    with queues(2) [OF hold none] hold have total: "cw20_total c x db' = cw20_total c x db + moved_in ext A x db ?s ?e"
      by (simp add: cw20_total_def cw20_balance_def)
    have pos': "cw20_pos cfg db' = ?e" by (simp add: db'(6) db2(6) job_start_eq)
    have "list_all (\<lambda>a. ta_cw20_contract_id a = c \<longrightarrow> ta_height a \<le> ?e) (cw20_activities db')"
      using old mine(6) run(1) by (force simp: list_all_iff db'(1))
    moreover have "\<exists>n. cw20_row_ok A n db' \<and> tc_id n = c \<and> tc_last_updated_height n \<le> ?e"
      using db'(5) c last run(1) by force
    moreover have "\<forall>h. holder_at c x (cw20_holders db') = Some h \<longrightarrow> th_last_updated_height h \<le> ?e"
      by (metis hold holder le_less_trans less_imp_le run(1))
    moreover have "0 \<le> ?e" using pos run(1) by simp
    ultimately have "cw20_ready cfg A c x db'"
      unfolding cw20_ready_def pos' same_events_rows [OF db'(3)]
      using db'(4) queues(1) [OF hold none] sorted heights by blast
    then show ?thesis using total db'(3) run(1) by simp
  qed
qed

section \<open>Serving an update\<close>

lemma apply_events_height:
  assumes "fold (\<lambda>ev. apply_event ev x) evs v = Some (a, h)" and "\<forall>ev\<in>set evs. ta_height ev \<le> e"
    and "\<forall>a h. v = Some (a, h) \<longrightarrow> h \<le> e"
  shows "h \<le> e"
  using assms
proof (induction evs arbitrary: v)
  case (Cons ev evs)
  have "\<forall>a h. apply_event ev x v = Some (a, h) \<longrightarrow> h \<le> e"
    using Cons.prems(2,3) by (cases v) (auto simp: apply_event_def take_out_def put_in_def Let_def split: if_splits)
  with Cons.IH [of "apply_event ev x v"] Cons.prems(1,2) show ?case by simp
qed simp

lemma cw20_row_ok_map:
  assumes "cw20_row_ok A n db" and "\<And>n. tc_id (f n) = tc_id n \<and> tc_smart_contract_id (f n) = tc_smart_contract_id n \<and> tc_track (f n) = tc_track n"
  shows "cw20_row_ok A (f n) (db\<lparr>cw20_contracts := map f (cw20_contracts db)\<rparr>)"
  using assms by (auto simp: cw20_row_ok_def cw20_address_def list_all_iff)

lemma jobHandle_queue: "jobHandle p db = Inr db' \<Longrightarrow> cw20_update_jobs db' = cw20_update_jobs db"
  by (erule jobHandle_cases) (auto simp: updateBalanceHolders_def Let_def rbind_eq_Inr)

text \<open>An update leaves the holders at most at the end of its range.\<close>

lemma jobHandle_holder:
  assumes "jobHandle p db = Inr db'" and "cw20_wf db" and "holder_at (ub_cw20ContractId p) x (cw20_holders db') = Some h"
    and "\<forall>h. holder_at (ub_cw20ContractId p) x (cw20_holders db) = Some h \<longrightarrow> th_last_updated_height h \<le> ub_endBlock p"
  shows "th_last_updated_height h \<le> ub_endBlock p"
  using assms(1)
proof (cases rule: jobHandle_cases)
  case (some db1 a)
  let ?c = "ub_cw20ContractId p"
  let ?evs = "filter (\<lambda>a. ta_cw20_contract_id a = ?c \<and> in_range (ub_startBlock p) (ub_endBlock p) (ta_height a)) (cw20_activities db)"
  from assms(2) have dist: "distinct (holder_keys (cw20_holders db))" by (simp add: cw20_wf_def)
  obtain hs where db1: "db1 = db\<lparr>cw20_holders := hs\<rparr>"
    and replay: "\<And>x. holding_of (holder_at ?c x hs) = fold (\<lambda>ev. apply_event ev x) (balance_events ?evs) (stored_holding ?c x db)"
    by (rule updateBalanceHolders_effect [OF some(1) dist]) blast
  have "fold (\<lambda>ev. apply_event ev x) (balance_events ?evs) (stored_holding ?c x db) = Some (th_amount h, th_last_updated_height h)"
    using replay [of x] assms(3) by (simp add: holding_of_def some(2) db1)
  then show ?thesis
    by (rule apply_events_height) (use assms(4) in \<open>auto simp: stored_holding_def holding_of_def in_range_def\<close>)
qed (use assms(3,4) in simp)

text \<open>An update leaves the contract with one row, at most at the end of its range.\<close>

lemma jobHandle_row:
  assumes "jobHandle p db = Inr db'" and "cw20_row_ok A n db" and "cw20_wf db"
    and "tc_last_updated_height n \<le> h" and "tc_id n = ub_cw20ContractId p \<Longrightarrow> ub_endBlock p \<le> h"
  shows "\<exists>n'. cw20_row_ok A n' db' \<and> tc_id n' = tc_id n \<and> tc_last_updated_height n' \<le> h"
  using assms(1)
proof (cases rule: jobHandle_cases)
  case (some db1 a)
  let ?f = "\<lambda>n. if tc_id n = ub_cw20ContractId p then n\<lparr>tc_total_supply := tc_total_supply n + a, tc_last_updated_height := ub_endBlock p\<rparr> else n"
  from some(1) have "cw20_contracts db1 = cw20_contracts db" "smart_contracts db1 = smart_contracts db"
    by (auto simp: updateBalanceHolders_def Let_def rbind_eq_Inr)
  with assms(2) have "cw20_row_ok A n db1" by (simp add: cw20_row_ok_def cw20_address_def)
  then have "cw20_row_ok A (?f n) (db1\<lparr>cw20_contracts := map ?f (cw20_contracts db1)\<rparr>)" by (rule cw20_row_ok_map) simp
  then have "cw20_row_ok A (?f n) db'" by (simp only: some(2))
  moreover have "tc_id (?f n) = tc_id n" "tc_last_updated_height (?f n) \<le> h" using assms(4,5) by auto
  ultimately show ?thesis by blast
qed (use assms(2,4) in blast)

text \<open>
  Serving the first queued update of its contract moves what was pending into the balance; and it
  leaves a state in which the services count right.
\<close>

lemma serve_effect:
  assumes "cw20_ready cfg A c x db" and "cw20_update_jobs db = ps @ p # qs" and "ub_cw20ContractId p \<notin> ub_cw20ContractId ` set ps"
    and "jobHandle p (db\<lparr>cw20_update_jobs := ps @ qs\<rparr>) = Inr db'"
  shows "cw20_ready cfg A c x db'" and "same_events db db'" and "cw20_total c x db' = cw20_total c x db"
    and "block_checkpoint db' = block_checkpoint db"
proof -
  let ?db = "db\<lparr>cw20_update_jobs := ps @ qs\<rparr>" and ?s = "cw20_pos cfg db" and ?i = "ub_cw20ContractId p"
  from assms(1) obtain n where row: "cw20_row_ok A n db" and c: "tc_id n = c" and last: "tc_last_updated_height n \<le> ?s"
    and wf: "cw20_wf db" and queue: "queue_ok c x ?s db" and pos: "0 \<le> ?s"
    and holder: "\<forall>h. holder_at c x (cw20_holders db) = Some h \<longrightarrow> th_last_updated_height h \<le> ?s"
    and rest: "list_all (\<lambda>a. ta_cw20_contract_id a = c \<longrightarrow> ta_height a \<le> ?s) (cw20_activities db)"
      "sorted (map fst (cw20_rows db))" "list_all (\<lambda>(h, ev). ev_height ev = h) (cw20_rows db)"
    by (auto simp: cw20_ready_def)
  have wf1: "cw20_wf ?db" and row1: "cw20_row_ok A n ?db" using wf row by (simp_all add: cw20_wf_def cw20_row_ok_def cw20_address_def)
  note keeps = jobHandle_keeps [OF assms(4) wf1]
  show same: "same_events db db'" and chk: "block_checkpoint db' = block_checkpoint db" by (simp_all add: same_events_def keeps)
  have acts: "cw20_activities db' = cw20_activities db" by (simp add: keeps)
  have upd: "update_activities q db' = update_activities q db" for q by (rule update_activities_cong) (rule acts)
  have jobs: "cw20_update_jobs db' = ps @ qs" using jobHandle_queue [OF assms(4)] by simp
  have split: "updates_of c db = (if ?i = c then p # updates_of c db' else updates_of c db')"
  proof (cases "?i = c")
    case True
    with assms(3) have "filter (\<lambda>q. ub_cw20ContractId q = c) ps = []" by (simp add: filter_empty_conv) (metis image_eqI)
    with True show ?thesis by (simp add: updates_of_def jobs assms(2))
  qed (simp add: updates_of_def jobs assms(2))
  have "queue_ok c x ?s db' \<and> cw20_total c x db' = cw20_total c x db \<and>
      (\<forall>h. holder_at c x (cw20_holders db') = Some h \<longrightarrow> th_last_updated_height h \<le> ?s)"
  proof (cases "?i = c")
    case True
    from queue have p: "queued_ok x ?s db p" and later: "\<forall>q\<in>set (updates_of c db'). ub_endBlock p \<le> ub_startBlock q"
      and others: "list_all (queued_ok x ?s db) (updates_of c db')" "sorted_wrt (\<lambda>p q. ub_endBlock p \<le> ub_startBlock q) (updates_of c db')"
      using True by (simp_all add: queue_ok_def split)
    from p have facts: "0 \<le> ub_startBlock p" "ub_startBlock p \<le> ub_endBlock p" "ub_endBlock p \<le> ?s"
      "sorted (map ta_id (update_activities p ?db))" "sorted (map ta_height (update_activities p ?db))"
      "\<forall>h. holder_at ?i x (cw20_holders ?db) = Some h \<longrightarrow> th_last_updated_height h \<le> ub_startBlock p"
      by (simp_all add: queued_ok_def update_activities_def)
    from facts(2,6) have "th_last_updated_height h \<le> ub_endBlock p" if "holder_at ?i x (cw20_holders db') = Some h" for h
      using jobHandle_holder [OF assms(4) wf1 that] by force
    then have at: "th_last_updated_height h \<le> ub_endBlock p" if "holder_at c x (cw20_holders db') = Some h" for h
      using that True by blast
    have "queued_ok x ?s db' q" if "q \<in> set (updates_of c db')" for q
      using that others(1) later at updates_of_contract [OF that] upd [of q] unfolding queued_ok_def list_all_iff by fastforce
    then have "queue_ok c x ?s db'" using others(2) by (simp add: queue_ok_def list_all_iff)
    moreover have "cw20_balance c x db' = cw20_balance c x ?db + activities_move x (update_activities p ?db)"
      using jobHandle_balance [OF assms(4) wf1 update_activities_def facts(4,5,1,6)] True by (simp add: cw20_balance_def activities_move_def)
    then have "cw20_total c x db' = cw20_total c x db"
      using True by (simp add: cw20_total_def pending_moves_def split cw20_balance_def update_activities_def acts)
    ultimately show ?thesis using at facts(3) by force
  next
    case False
    have at: "holder_at c x (cw20_holders db') = holder_at c x (cw20_holders db)" using keeps(9) [of c x] False by simp
    have "updates_of c db' = updates_of c db" using split False by simp
    moreover have "queued_ok x ?s db' q" if "q \<in> set (updates_of c db)" for q
      using that queue by (simp add: queue_ok_def list_all_iff queued_ok_def upd at updates_of_contract [OF that])
    ultimately show ?thesis using queue holder at
      by (simp add: queue_ok_def upd cw20_total_def pending_moves_def cw20_balance_def list_all_iff)
  qed
  moreover have "\<exists>n'. cw20_row_ok A n' db' \<and> tc_id n' = c \<and> tc_last_updated_height n' \<le> ?s"
  proof -
    have "ub_endBlock p \<le> ?s" if "tc_id n = ?i" using that c queue split by (simp add: queue_ok_def queued_ok_def)
    from jobHandle_row [OF assms(4) row1 wf1 last this] c show ?thesis by blast
  qed
  ultimately show "cw20_ready cfg A c x db'" and "cw20_total c x db' = cw20_total c x db"
    using jobHandle_wf [OF assms(4) wf1] pos rest by (auto simp: cw20_ready_def chk acts same_events_rows [OF same])
qed

section \<open>Exactly once\<close>

lemma jobHandle_checkpoint: "jobHandle p db = Inr db' \<Longrightarrow> block_checkpoint db' = block_checkpoint db"
  by (erule jobHandle_cases) (auto simp: updateBalanceHolders_def Let_def rbind_eq_Inr)

lemma store_instantiated_checkpoint:
  "store_instantiated infos e db = Inr db' \<Longrightarrow> block_checkpoint db' = block_checkpoint db"
  by (auto simp: store_instantiated_def case_prod_beta dest!: insert_cw20_graph_effect(1))

lemma cw20_transaction_checkpoint:
  assumes "cw20_transaction ext evs row db = Some (Inr db')"
  shows "block_checkpoint db' = (block_checkpoint db)(fst row \<mapsto> snd row)"
proof (cases "evs = []")
  case False
  with assms obtain db1 db2 where
    ins: "handleCw20Instantiate ext (filter (\<lambda>ev. ev_action ev = Some ''instantiate'') evs) db = Some (Inr db1)"
    and hist: "handleCw20Histories ext evs db1 = Inr db2" and db': "db' = saveCheckpoint row db2"
    by (auto simp: cw20_transaction_def rbind_eq_Inr)
  have "block_checkpoint db1 = block_checkpoint db"
  proof (cases "filter (\<lambda>ev. ev_action ev = Some ''instantiate'') evs = []")
    case False
    with ins obtain infos answers where "rfold (store_instantiated infos) answers db = Inr db1"
      by (auto simp: handleCw20Instantiate_def split: sum.splits simp del: filter_empty_conv)
    then show ?thesis
      by (rule rfold_invariant [where I = "\<lambda>s. block_checkpoint s = block_checkpoint db"])
        (simp_all add: store_instantiated_checkpoint)
  qed (use ins in \<open>simp add: handleCw20Instantiate_def\<close>)
  moreover from hist have "block_checkpoint db2 = block_checkpoint db1" by (rule handleCw20Histories_effect) simp
  ultimately show ?thesis by (simp add: db')
qed (use assms in \<open>auto simp: cw20_transaction_def\<close>)

lemma cw20_run_checkpoint:
  assumes "cw20_run cfg ext db = Inr db'"
  shows "block_checkpoint db' = checkpoint_run cfg HANDLE_CW20 (block_checkpoint db)"
  using assms
proof (cases rule: cw20_run_cases)
  case (skip st)
  then show ?thesis by (simp add: checkpoint_run_def skips_def HANDLE_CW20_def)
next
  case (run st evs db2)
  from cw20_transaction_checkpoint [OF run(3)] run(1) show ?thesis
    by (simp add: run(4) checkpoint_run_def skips_def HANDLE_CW20_def UpdateByContract_def)
qed

lemma cw20_run_out:
  assumes "cw20_ready cfg A c x db" and "cw20_run cfg ext db = Inr db'"
  shows "cw20_total c x db' = cw20_total c x db +
    (if skips (job_guard HANDLE_CW20) (cw20_pos cfg db) (cw20_end cfg db) then 0
     else moved_in ext A x db (cw20_pos cfg db) (cw20_end cfg db))"
  using cw20_run_effect [OF assms] by (simp add: skips_def HANDLE_CW20_def)

lemma moved_in_cong: "same_events db db' \<Longrightarrow> moved_in ext A x db' = moved_in ext A x db"
  by (intro ext) (simp add: moved_in_def cw20_events_eq same_events_rows)

lemma cw20_run_rows: "cw20_ready cfg A c x db \<Longrightarrow> cw20_run cfg ext db = Inr db' \<Longrightarrow> moved_in ext A x db' = moved_in ext A x db"
  using cw20_run_effect by (blast intro: moved_in_cong)

lemma cw20_guarded: "\<not> skips (job_guard HANDLE_CW20) s e \<Longrightarrow> s \<le> e"
  by (simp add: HANDLE_CW20_def skips_def)

interpretation cw20_balance_job: appending_job cfg HANDLE_CW20 "cw20_run cfg ext"
    "cw20_ready cfg A c x" "moved_in ext A x" "cw20_total c x"
  for cfg ext A c x
  by unfold_locales
    (rule cw20_run_checkpoint cw20_run_out cw20_run_rows moved_in_split cw20_guarded; assumption)+

text \<open>What the other jobs may do to the contract between the runs.\<close>

definition cw20_env :: "config \<Rightarrow> cw20_ext \<Rightarrow> string \<Rightarrow> int \<Rightarrow> string \<Rightarrow> ('c, 'a) cw20_db_scheme \<Rightarrow> ('c, 'a) cw20_db_scheme \<Rightarrow> bool" where
  "cw20_env cfg ext A c x db db' \<longleftrightarrow>
     settled_env (cw20_pos cfg) (cw20_total c x) (moved_in ext A x) db db' \<and> (cw20_ready cfg A c x db \<longrightarrow> cw20_ready cfg A c x db')"

text \<open>
  The services as they run: the range job, which may throw; the worker of the queue, which takes
  the updates of a contract in the order in which they were queued, takes a served one off and
  leaves one that throws to be tried again; and the other jobs.
\<close>

inductive cw20_service ::
  "config \<Rightarrow> cw20_ext \<Rightarrow> string \<Rightarrow> int \<Rightarrow> string \<Rightarrow> ('c, 'a) cw20_db_scheme \<Rightarrow> ('c, 'a) cw20_db_scheme \<Rightarrow> bool"
  for cfg :: config and ext :: cw20_ext and A :: string and c :: int and x :: string
where
  service_job: "jobHandleCw20 cfg ext db = Some (db', err) \<Longrightarrow> cw20_service cfg ext A c x db db'"
| service_update: "cw20_update_jobs db = ps @ p # qs \<Longrightarrow> ub_cw20ContractId p \<notin> ub_cw20ContractId ` set ps \<Longrightarrow>
    jobHandle p (db\<lparr>cw20_update_jobs := ps @ qs\<rparr>) = Inr db' \<Longrightarrow> cw20_service cfg ext A c x db db'"
| service_retry: "p \<in> set (cw20_update_jobs db) \<Longrightarrow> jobHandle p db = Inl e \<Longrightarrow> cw20_service cfg ext A c x db db"
| service_other: "cw20_env cfg ext A c x db db' \<Longrightarrow> cw20_service cfg ext A c x db db'"

lemma stats_env: "cw20_env cfg ext A c x db (db\<lparr>cw20_stats := st\<rparr>)"
proof -
  let ?db = "db\<lparr>cw20_stats := st\<rparr>"
  have same: "same_events db ?db" by (simp add: same_events_def)
  have upd: "updates_of c ?db = updates_of c db" "\<And>p. update_activities p ?db = update_activities p db"
    by (simp_all add: updates_of_def update_activities_def)
  have "cw20_total c x ?db = cw20_total c x db" by (simp add: cw20_total_def cw20_balance_def pending_moves_def upd)
  moreover have "queued_ok x (cw20_pos cfg db) ?db = queued_ok x (cw20_pos cfg db) db" by (intro ext) (simp add: queued_ok_def upd)
  then have "cw20_ready cfg A c x db \<longrightarrow> cw20_ready cfg A c x ?db"
    by (simp add: cw20_ready_def cw20_row_ok_def cw20_address_def cw20_wf_def queue_ok_def upd same_events_rows [OF same])
  ultimately show ?thesis by (simp add: cw20_env_def settled_env_def moved_in_cong [OF same])
qed

lemma serve_env:
  assumes "cw20_ready cfg A c x db" and "cw20_update_jobs db = ps @ p # qs" and "ub_cw20ContractId p \<notin> ub_cw20ContractId ` set ps"
    and "jobHandle p (db\<lparr>cw20_update_jobs := ps @ qs\<rparr>) = Inr db'"
  shows "cw20_env cfg ext A c x db db'"
  using serve_effect [OF assms] by (simp add: cw20_env_def settled_env_def moved_in_cong)

text \<open>Every step of the services is a run of the range job or leaves balance and pending updates as they are in sum.\<close>

lemma service_step:
  assumes "cw20_service cfg ext A c x db db'" and "cw20_ready cfg A c x db"
  shows "cw20_run cfg ext db = Inr db' \<or> cw20_env cfg ext A c x db db'"
  using assms(1)
proof cases
  case (service_job err)
  show ?thesis
  proof (cases err)
    case None
    with service_job show ?thesis by (simp add: cw20_run_eq_Inr)
  next
    case (Some e)
    from service_job have "\<exists>st. db' = db\<lparr>cw20_stats := st\<rparr>"
    proof (cases rule: jobHandleCw20_cases)
      case (failed e)
      then show ?thesis by (intro exI [of _ "cw20_stats db"]) simp
    next
      case stats
      from stats(1) show ?thesis by (rule handleStatistic_effect) blast
    qed (use Some in simp)
    with stats_env show ?thesis by blast
  qed
next
  case (service_update ps p qs)
  with assms(2) show ?thesis by (blast intro: serve_env)
next
  case (service_retry p e)
  then show ?thesis by (simp add: cw20_env_def settled_env_def)
qed simp

lemma service_trace:
  assumes "(cw20_service cfg ext A c x)\<^sup>*\<^sup>* db0 db" and "cw20_ready cfg A c x db0"
  shows "cw20_ready cfg A c x db \<and>
    job_trace (cw20_run cfg ext) (cw20_ready cfg A c x) (settled_env (cw20_pos cfg) (cw20_total c x) (moved_in ext A x)) db0 db"
  using assms(1)
proof (induction rule: rtranclp_induct)
  case base
  with assms(2) show ?case by (simp add: job_trace.trace_start)
next
  case (step db db')
  from service_step [OF step.hyps(2)] step.IH consider "cw20_run cfg ext db = Inr db'" | "cw20_env cfg ext A c x db db'" by blast
  then show ?case
  proof cases
    case 1
    with step.IH cw20_run_effect [of cfg A c x db ext db'] show ?thesis by (blast intro: job_trace.trace_run)
  next
    case 2
    with step.IH show ?thesis unfolding cw20_env_def by (blast intro: job_trace.trace_env)
  qed
qed

section \<open>Properties\<close>

text \<open>A token of which ten are minted at height 1, and four are sent on at height 2.\<close>

definition sample_cw20_ext :: cw20_ext where
  "sample_cw20_ext =
     \<lparr>token_info = (\<lambda>_. Inr None), query_minter = (\<lambda>_. Inr None), query_marketing_info = (\<lambda>_. Inr None),
      all_accounts = (\<lambda>_ s. Inr (if s = None then [''aura1o''] else if s = Some ''aura1o'' then [''aura1p''] else [])),
      query_balance = (\<lambda>_ a. Inr (if a = ''aura1o'' then (5, 1) else (3, 2))),
      to_numeric = (\<lambda>s. map_option int (js_parseInt s)), day_of = (\<lambda>_. 0)\<rparr>"

definition sample_cw20_message :: "int \<Rightarrow> string message_row" where
  "sample_cw20_message i =
     \<lparr>msg_id = i, msg_tx_id = i, msg_index = 0, msg_type = ''/cosmwasm.wasm.v1.MsgExecuteContract'', msg_sender = ''aura1o'',
      msg_content = [], msg_parent_id = None\<rparr>"

definition sample_cw20_contract :: cw20_contract where
  "sample_cw20_contract =
     \<lparr>tc_id = 7, tc_smart_contract_id = 1, tc_marketing_info = None, tc_total_supply = 0, tc_symbol = Some ''T'',
      tc_decimal = Some ''6'', tc_minter = None, tc_name = Some ''token'', tc_track = True, tc_last_updated_height = 0\<rparr>"

definition sample_cw20_event :: "int \<Rightarrow> string \<Rightarrow> (string \<times> string) list \<Rightarrow> smart_contract_event" where
  "sample_cw20_event i action kvs =
     \<lparr>se_id = i, se_smart_contract_id = 1, se_action = Some action, se_event_id = i, se_index = 0, se_tx_id = i,
      se_attributes = sample_attributes kvs\<rparr>"

definition sample_cw20_db :: "string cw20_db" where
  "sample_cw20_db =
     \<lparr>block_checkpoint = [''crawl:contract-event'' \<mapsto> 2],
      block_table = [\<lparr>blk_height = 0, blk_hash = ''h'', blk_time = ''t'', blk_proposer_address = ''p'', blk_tx_count = 0, blk_signatures = []\<rparr>],
      transaction_table = map sample_wasm_tx [1, 2], transaction_seq = 3,
      event_table = map (\<lambda>i. sample_wasm_event i i ''wasm'' []) [1, 2], event_seq = 3,
      message_table = map sample_cw20_message [1, 2], message_seq = 3, codes = [sample_code 1 ''CW20''], code_id_verifications = [],
      smart_contracts = [sample_wasm_contract 1 ''aura1c'' 1], smart_contract_seq = 2,
      smart_contract_events =
        [sample_cw20_event 1 ''mint'' [(''to'', ''aura1o''), (''amount'', ''10'')],
         sample_cw20_event 2 ''transfer'' [(''from'', ''aura1o''), (''to'', ''aura1p''), (''amount'', ''4'')]],
      smart_contract_event_seq = 3,
      cw20_contracts = [sample_cw20_contract], cw20_contract_seq = 8, cw20_holders = [], cw20_activities = [], cw20_activity_seq = 1,
      cw20_stats = [], cw20_update_jobs = [], cw20_reindex_jobs = []\<rparr>"

lemma sample_cw20_wf: "cw20_wf sample_cw20_db"
  by (simp add: cw20_wf_def sample_cw20_db_def sample_cw20_contract_def holder_sum_def)

lemma sample_cw20_ready: "cw20_ready sample_wasm_config ''aura1c'' 7 x sample_cw20_db"
proof -
  have "cw20_row_ok ''aura1c'' sample_cw20_contract sample_cw20_db" "tc_id sample_cw20_contract = 7"
    by (simp_all add: cw20_row_ok_def sample_cw20_db_def sample_cw20_contract_def cw20_address_def sample_wasm_contract_def)
  moreover have "tc_last_updated_height sample_cw20_contract \<le> cw20_pos sample_wasm_config sample_cw20_db"
    "0 \<le> cw20_pos sample_wasm_config sample_cw20_db" "updates_of 7 sample_cw20_db = []" "cw20_activities sample_cw20_db = []"
    "sorted (map fst (cw20_rows sample_cw20_db))" "list_all (\<lambda>(h, ev). ev_height ev = h) (cw20_rows sample_cw20_db)" by code_simp+
  moreover have "holder_at 7 x (cw20_holders sample_cw20_db) = None" by (simp add: sample_cw20_db_def holder_at_def)
  ultimately show ?thesis using sample_cw20_wf unfolding cw20_ready_def queue_ok_def by auto
qed

text \<open>
  C5. The range job stores activities, moves its checkpoint and queues updates; a worker serves the
  updates later, and runs of the job, updates and other jobs interleave in any way. Then the stored balance of an
  address together with what the queued updates have yet to move is always the one at first plus what
  all events of the contract between the checkpoints move to and from the address: every event
  counts exactly once, and once no update of the contract is queued the balance alone says so. A run that throws and an update that
  throws and is tried again change nothing of this. It is stated for a contract that is tracked and has one row
  (it was never migrated), of which at first neither the row nor the holder nor an activity is ahead of the
  checkpoint, with the contract events in the order of their heights; it relies on the updates of a contract being served in the
  order in which they were queued and tried until they succeed, and on other jobs (reindexing among them) leaving
  the checkpoint, the balance, the queued updates and the events of passed heights alone, and all this in force.
\<close>

theorem cw20_balances_replayed:
  assumes "(cw20_service cfg ext A c x)\<^sup>*\<^sup>* db0 db" and "cw20_ready cfg A c x db0"
  shows "cw20_pos cfg db0 \<le> cw20_pos cfg db \<and>
    cw20_balance c x db + pending_moves c x db =
      cw20_balance c x db0 + pending_moves c x db0 + moved_in ext A x db (cw20_pos cfg db0) (cw20_pos cfg db) \<and>
    (updates_of c db0 = [] \<and> updates_of c db = [] \<longrightarrow>
      cw20_balance c x db = cw20_balance c x db0 + moved_in ext A x db (cw20_pos cfg db0) (cw20_pos cfg db))"
  using cw20_balance_job.exactly_once [OF conjunct2 [OF service_trace [OF assms]]]
  by (auto simp: cw20_total_def pending_moves_none)

theorem cw20_balances_replayed_witness:
  "\<exists>db db'. jobHandleCw20 sample_wasm_config sample_cw20_ext sample_cw20_db = Some (db, None) \<and>
    cw20_balance 7 ''aura1o'' db = 0 \<and> pending_moves 7 ''aura1o'' db = 6 \<and>
    jobHandle \<lparr>ub_cw20ContractId = 7, ub_startBlock = 0, ub_endBlock = 2\<rparr> (db\<lparr>cw20_update_jobs := []\<rparr>) = Inr db' \<and>
    cw20_balance 7 ''aura1o'' db' = 6 \<and> cw20_balance 7 ''aura1p'' db' = 4"
proof -
  let ?job = "jobHandleCw20 sample_wasm_config sample_cw20_ext sample_cw20_db"
  let ?db = "fst (the ?job)" and ?p = "\<lparr>ub_cw20ContractId = 7, ub_startBlock = 0, ub_endBlock = 2\<rparr>"
  let ?r = "jobHandle ?p (?db\<lparr>cw20_update_jobs := []\<rparr>)"
  have "?job \<noteq> None" "snd (the ?job) = None" "\<not> isl ?r" by code_simp+
  then have run: "?job = Some (?db, None)" and upd: "?r = Inr (projr ?r)" by (auto simp: prod_eq_iff)
  have queue: "cw20_update_jobs ?db = [] @ ?p # []" by code_simp
  have steps: "(cw20_service sample_wasm_config sample_cw20_ext ''aura1c'' 7 x)\<^sup>*\<^sup>* sample_cw20_db (projr ?r)" for x
  proof -
    have "cw20_service sample_wasm_config sample_cw20_ext ''aura1c'' 7 x ?db (projr ?r)"
      by (rule service_update [OF queue]) (use upd in simp_all)
    with service_job [OF run] show ?thesis by (meson converse_rtranclp_into_rtranclp r_into_rtranclp)
  qed
  note bal = cw20_balances_replayed [OF steps sample_cw20_ready]
  have "cw20_pos sample_wasm_config sample_cw20_db = 0" "cw20_pos sample_wasm_config (projr ?r) = 2"
    "moved_in sample_cw20_ext ''aura1c'' ''aura1o'' (projr ?r) 0 2 = 6" "moved_in sample_cw20_ext ''aura1c'' ''aura1p'' (projr ?r) 0 2 = 4"
    "cw20_balance 7 ''aura1o'' sample_cw20_db = 0" "cw20_balance 7 ''aura1p'' sample_cw20_db = 0"
    "updates_of 7 sample_cw20_db = []" "updates_of 7 (projr ?r) = []" by code_simp+
  then have "cw20_balance 7 ''aura1o'' (projr ?r) = 6" "cw20_balance 7 ''aura1p'' (projr ?r) = 4"
    using bal [of "''aura1o''"] bal [of "''aura1p''"] by simp_all
  moreover have "cw20_balance 7 ''aura1o'' ?db = 0" "pending_moves 7 ''aura1o'' ?db = 6" by code_simp+
  ultimately show ?thesis using run upd by blast
qed

text \<open>
  C21. Whatever the CW-20 services do, in whatever order (runs of the range job, also ones that
  throw, updates of a contract, pages of the history, reindexing), the stored supply of every
  contract is the sum of the stored balances of its holders.
\<close>

theorem cw20_supply_is_sum:
  assumes "(cw20_step cfg ext)\<^sup>*\<^sup>* db0 db" and "cw20_wf db0" and "n \<in> set (cw20_contracts db)"
  shows "tc_total_supply n = holder_sum (tc_id n) (cw20_holders db)"
proof -
  from assms(1,2) have "cw20_wf db" by (induction rule: rtranclp_induct) (auto intro: cw20_step_wf)
  with assms(3) show ?thesis by (simp add: cw20_wf_def list_all_iff)
qed

theorem cw20_supply_is_sum_witness:
  "\<exists>db. (cw20_step sample_wasm_config sample_cw20_ext)\<^sup>*\<^sup>* sample_cw20_db db \<and>
    (\<exists>n\<in>set (cw20_contracts db). tc_total_supply n = 10 \<and> holder_sum (tc_id n) (cw20_holders db) = 10)"
proof -
  let ?job = "jobHandleCw20 sample_wasm_config sample_cw20_ext sample_cw20_db"
  let ?db1 = "fst (the ?job)" and ?p = "\<lparr>ub_cw20ContractId = 7, ub_startBlock = 0, ub_endBlock = 2\<rparr>"
  let ?db2 = "projr (jobHandle ?p ?db1)"
  have "?job \<noteq> None" "\<not> isl (jobHandle ?p ?db1)" by code_simp+
  then have "?job = Some (?db1, snd (the ?job))" "jobHandle ?p ?db1 = Inr ?db2" by (simp_all add: prod_eq_iff)
  then have "cw20_step sample_wasm_config sample_cw20_ext sample_cw20_db ?db1" "cw20_step sample_wasm_config sample_cw20_ext ?db1 ?db2"
    by (blast intro: step_job step_update)+
  then have steps: "(cw20_step sample_wasm_config sample_cw20_ext)\<^sup>*\<^sup>* sample_cw20_db ?db2" by simp
  have "map tc_total_supply (cw20_contracts ?db2) = [10]" by code_simp
  then obtain n where "n \<in> set (cw20_contracts ?db2)" "tc_total_supply n = 10" by auto
  with steps cw20_supply_is_sum [OF steps sample_cw20_wf] show ?thesis by metis
qed

end
