(* ===== verification/Feegrant.thy ===== *)
theory Feegrant
  imports Chain_Db Json
begin

text \<open>
  Fee grants: the job of \<^verbatim>\<open>src/services/feegrant/feegrant.service.ts\<close> that derives grants and their
  history from events, and the job of \<^verbatim>\<open>update_feegrant.service.ts\<close> that attributes the history to the
  grants and keeps their remaining limit and their status. A grant is available until it is revoked
  or used up, and what is left of its limit is the limit at first less everything used.
\<close>

section \<open>Tables\<close>

text \<open>
  A row without the columns the database fills; an amount is a JSON value until it is stored.
\<close>

record 'n history_entry =
  hy_tx_id :: int
  hy_action :: string
  hy_amount :: "'n option"
  hy_granter :: string
  hy_grantee :: string
  hy_denom :: "string option"

record feegrant_history = "int history_entry" +
  hy_id :: int
  hy_feegrant_id :: "int option"
  hy_processed :: bool

record 'n grant_entry =
  gr_init_tx_id :: "int option"
  gr_granter :: string
  gr_grantee :: string
  gr_type :: string
  gr_expiration :: "string option"
  gr_status :: string
  gr_spend_limit :: "'n option"
  gr_denom :: "string option"

record feegrant = "int grant_entry" +
  gr_id :: int
  gr_revoke_tx_id :: "int option"

record feegrant_db = "json chain_db" +
  feegrants :: "feegrant list"
  feegrant_seq :: int
  feegrant_histories :: "feegrant_history list"
  feegrant_history_seq :: int

definition FEEGRANT_AVAILABLE :: string where "FEEGRANT_AVAILABLE = ''Available''"
definition FEEGRANT_USE_UP :: string where "FEEGRANT_USE_UP = ''Use up''"
definition FEEGRANT_REVOKED :: string where "FEEGRANT_REVOKED = ''Revoked''"

definition ACTION_CREATE :: string where "ACTION_CREATE = ''create''"
definition ACTION_REVOKE :: string where "ACTION_REVOKE = ''revoke''"
definition ACTION_USE :: string where "ACTION_USE = ''use''"
definition ACTION_USE_UP :: string where "ACTION_USE_UP = ''useup''"

definition BASIC_ALLOWANCE :: string where
  "BASIC_ALLOWANCE = ''/cosmos.feegrant.v1beta1.BasicAllowance''"

definition PERIODIC_ALLOWANCE :: string where
  "PERIODIC_ALLOWANCE = ''/cosmos.feegrant.v1beta1.PeriodicAllowance''"

text \<open>\<^verbatim>\<open>new Date\<close> as it is stored.\<close>

record feegrant_ext = column_ext +
  new_Date :: "json \<Rightarrow> string"

section \<open>The allowance of a grant\<close>

lemma json_get_size: "json_get j k = Inr (Some v) \<Longrightarrow> size v < size j"
proof (cases j)
  case (JObj kvs)
  assume "json_get j k = Inr (Some v)"
  with JObj have "(k, v) \<in> set kvs" by (simp add: json_get_def map_of_SomeD)
  then have "size v < Suc (size_list (\<lambda>p. size (snd p)) kvs)"
    by (induction kvs) (auto simp: less_Suc_eq_le)
  moreover have "size_list (\<lambda>p. size (snd p)) kvs \<le> size_list (size_prod (\<lambda>_. 0) size) kvs"
    by (rule size_list_pointwise) (simp add: size_prod_simp)
  ultimately show ?thesis using JObj by simp
qed (simp_all add: json_get_def)

text \<open>The loop of \<open>getCreateFeegrantInfo\<close>, which unwraps an allowance until it meets a basic or periodic one.\<close>

function base_allowance :: "json \<Rightarrow> (json \<times> string) res" where
  "base_allowance basicAllowance =
     rbind (json_get basicAllowance ''@type'') (\<lambda>type.
       if type = Some (JStr BASIC_ALLOWANCE) then Inr (basicAllowance, BASIC_ALLOWANCE)
       else if type = Some (JStr PERIODIC_ALLOWANCE) then Inr (basicAllowance, PERIODIC_ALLOWANCE)
       else (case json_get basicAllowance ''allowance'' of
               Inl e \<Rightarrow> Inl e
             | Inr None \<Rightarrow> Inl TypeError
             | Inr (Some inner) \<Rightarrow> base_allowance inner))"
  by pat_completeness auto
termination by (relation "measure size") (simp_all add: json_get_size)

declare base_allowance.simps [simp del]

record grant_info =
  gi_type :: string
  gi_spend_limit :: "json option"
  gi_denom :: "json option"
  gi_expiration :: "string option"

text \<open>Amount and denom of the first coin of a limit, which is a list of coins when it is there.\<close>

definition first_coin :: "json option \<Rightarrow> (json option \<times> json option) res" where
  "first_coin spend_limit =
     (case spend_limit of
        Some (JArr (c # _)) \<Rightarrow>
          rbind (json_get c ''amount'') (\<lambda>amount. rbind (json_get c ''denom'') (\<lambda>denom. Inr (amount, denom)))
      | _ \<Rightarrow> Inr (None, None))"

definition getCreateFeegrantInfo :: "feegrant_ext \<Rightarrow> json \<Rightarrow> grant_info res" where
  "getCreateFeegrantInfo ext message =
     rbind (json_get message ''allowance'') (\<lambda>allowance.
     rbind (need allowance) (\<lambda>allowance.
     rbind (base_allowance allowance) (\<lambda>(basicAllowance, type).
     rbind (if type = PERIODIC_ALLOWANCE then json_get basicAllowance ''basic'' else Inr (Some basicAllowance)) (\<lambda>basic.
     rbind (first_coin (json_opt basic ''spend_limit'')) (\<lambda>(spendLimit, denom).
       Inr \<lparr>gi_type = type, gi_spend_limit = spendLimit, gi_denom = denom,
            gi_expiration = (let expiration = json_opt basic ''expiration'' in
                             if json_truthy expiration then map_option (new_Date ext) expiration else None)\<rparr>)))))"

section \<open>Events\<close>

record feegrant_event =
  fe_event :: event_row
  fe_transaction :: "json transaction_row"
  fe_message :: "json message_row option"

text \<open>
  The relation compares transaction and index only; of several messages with that index (those
  inside of an authorised execution have one too) the model takes the first.
\<close>

definition event_message :: "('c, 'a) chain_db_scheme \<Rightarrow> event_row \<Rightarrow> 'c message_row option" where
  "event_message db e =
     (case (evt_tx_id e, evt_tx_msg_index e) of
        (Some i, Some k) \<Rightarrow> find (\<lambda>m. msg_tx_id m = i \<and> msg_index m = k) (message_table db)
      | _ \<Rightarrow> None)"

definition feegrant_events :: "int \<Rightarrow> int \<Rightarrow> (json, 'a) chain_db_scheme \<Rightarrow> feegrant_event list" where
  "feegrant_events startB endB db =
     List.map_filter (\<lambda>e. case event_tx db e of
         None \<Rightarrow> None
       | Some t \<Rightarrow>
           if evt_type e \<in> set [''use_feegrant'', ''set_feegrant'', ''revoke_feegrant''] \<and> in_range startB endB (tx_height t)
           then Some \<lparr>fe_event = e, fe_transaction = t, fe_message = event_message db e\<rparr> else None)
       (event_table db)"

abbreviation fe_attr :: "feegrant_event \<Rightarrow> string \<Rightarrow> string option" where
  "fe_attr f key \<equiv> getAttributeFrom (evt_attributes (fe_event f)) key"

abbreviation fe_tx_id :: "feegrant_event \<Rightarrow> int" where
  "fe_tx_id f \<equiv> tx_id (fe_transaction f)"

text \<open>\<^verbatim>\<open>FeegrantHistory.fromJson\<close>: granter and grantee are required.\<close>

definition history_of ::
  "feegrant_event \<Rightarrow> string \<Rightarrow> json option \<Rightarrow> string option \<Rightarrow> json history_entry res"
where
  "history_of f action amount denom =
     rbind (required ''granter'' (fe_attr f ''granter'')) (\<lambda>granter.
     rbind (required ''grantee'' (fe_attr f ''grantee'')) (\<lambda>grantee.
       Inr \<lparr>hy_tx_id = fe_tx_id f, hy_action = action, hy_amount = amount, hy_granter = granter,
            hy_grantee = grantee, hy_denom = denom\<rparr>))"

text \<open>The first pass: uses, with the first coin of the fee of their transaction.\<close>

definition use_entry :: "feegrant_event \<Rightarrow> json history_entry res" where
  "use_entry f =
     (case tx_fee (fe_transaction f) of
        [] \<Rightarrow> Inl TypeError
      | fee # _ \<Rightarrow> history_of f ACTION_USE (Some (JStr (coin_amount fee))) (Some (coin_denom fee)))"

definition use_entries :: "feegrant_event list \<Rightarrow> json history_entry list res" where
  "use_entries fs = rmap use_entry (filter (\<lambda>f. evt_type (fe_event f) = ''use_feegrant'') fs)"

text \<open>
  \<^verbatim>\<open>newHistories[newHistories.findIndex(p)].action = \<dots>\<close>, which throws when there is no such row.
\<close>

fun update_first :: "('x \<Rightarrow> bool) \<Rightarrow> ('x \<Rightarrow> 'x) \<Rightarrow> 'x list \<Rightarrow> 'x list res" where
  "update_first p f [] = Inl TypeError"
| "update_first p f (x # xs) = (if p x then Inr (f x # xs) else rbind (update_first p f xs) (\<lambda>ys. Inr (x # ys)))"

definition is_used_by :: "feegrant_event \<Rightarrow> json history_entry \<Rightarrow> bool" where
  "is_used_by f h \<longleftrightarrow>
     hy_action h = ACTION_USE \<and> hy_tx_id h = fe_tx_id f \<and>
     Some (hy_granter h) = fe_attr f ''granter'' \<and> Some (hy_grantee h) = fe_attr f ''grantee''"

definition grant_of :: "feegrant_event \<Rightarrow> grant_info \<Rightarrow> string option \<Rightarrow> json grant_entry res" where
  "grant_of f info denom =
     rbind (required ''granter'' (fe_attr f ''granter'')) (\<lambda>granter.
     rbind (required ''grantee'' (fe_attr f ''grantee'')) (\<lambda>grantee.
       Inr \<lparr>gr_init_tx_id = Some (fe_tx_id f), gr_granter = granter, gr_grantee = grantee,
            gr_type = gi_type info, gr_expiration = gi_expiration info, gr_status = FEEGRANT_AVAILABLE,
            gr_spend_limit = gi_spend_limit info, gr_denom = denom\<rparr>))"

text \<open>
  The second pass: a new grant with its entry; a revocation by a message; and the revocation that
  the chain itself makes when a use exhausts a grant, which has no message and marks that use.
\<close>

type_synonym feegrant_rows = "json grant_entry list \<times> json history_entry list"

definition feegrant_event_step :: "feegrant_ext \<Rightarrow> feegrant_event \<Rightarrow> feegrant_rows \<Rightarrow> feegrant_rows res" where
  "feegrant_event_step ext f st =
     (case st of (newFeegrants, newHistories) \<Rightarrow>
        if evt_type (fe_event f) = ''set_feegrant'' then
          (case fe_message f of
             None \<Rightarrow> Inr (newFeegrants, newHistories)
           | Some m \<Rightarrow>
               rbind (getCreateFeegrantInfo ext (msg_content m)) (\<lambda>info.
               let denom = text_value ext (gi_denom info) in
               rbind (grant_of f info denom) (\<lambda>g.
               rbind (history_of f ACTION_CREATE (gi_spend_limit info) denom) (\<lambda>h.
                 Inr (newFeegrants @ [g], newHistories @ [h])))))
        else if evt_type (fe_event f) = ''revoke_feegrant'' then
          (if evt_tx_msg_index (fe_event f) \<noteq> None
           then rbind (history_of f ACTION_REVOKE None None) (\<lambda>h. Inr (newFeegrants, newHistories @ [h]))
           else rbind (update_first (is_used_by f) (\<lambda>h. h\<lparr>hy_action := ACTION_USE_UP\<rparr>) newHistories) (\<lambda>hs.
                  Inr (newFeegrants, hs)))
        else Inr (newFeegrants, newHistories))"

definition getFeegrantEvents ::
  "feegrant_ext \<Rightarrow> int \<Rightarrow> int \<Rightarrow> (json, 'a) chain_db_scheme \<Rightarrow> feegrant_rows res"
where
  "getFeegrantEvents ext startB endB db =
     (let feegrantEvents = feegrant_events startB endB db in
      rbind (use_entries feegrantEvents) (\<lambda>uses.
      rbind (rfold (feegrant_event_step ext) feegrantEvents ([], uses)) (\<lambda>(newFeegrants, newHistories).
        Inr (newFeegrants, sort_key hy_tx_id newHistories))))"

section \<open>The range job\<close>

definition stored_grant :: "feegrant_ext \<Rightarrow> json grant_entry \<Rightarrow> (int \<Rightarrow> feegrant) res" where
  "stored_grant ext g =
     rbind (numeric_value ext (gr_spend_limit g)) (\<lambda>spend_limit.
       Inr (\<lambda>newId. \<lparr>gr_init_tx_id = gr_init_tx_id g, gr_granter = gr_granter g, gr_grantee = gr_grantee g,
         gr_type = gr_type g, gr_expiration = gr_expiration g, gr_status = gr_status g,
         gr_spend_limit = spend_limit, gr_denom = gr_denom g, gr_id = newId, gr_revoke_tx_id = None\<rparr>))"

definition stored_history :: "feegrant_ext \<Rightarrow> json history_entry \<Rightarrow> (int \<Rightarrow> feegrant_history) res" where
  "stored_history ext h =
     rbind (numeric_value ext (hy_amount h)) (\<lambda>amount.
       Inr (\<lambda>newId. \<lparr>hy_tx_id = hy_tx_id h, hy_action = hy_action h, hy_amount = amount,
         hy_granter = hy_granter h, hy_grantee = hy_grantee h, hy_denom = hy_denom h,
         hy_id = newId, hy_feegrant_id = None, hy_processed = False\<rparr>))"

definition insert_feegrants :: "(int \<Rightarrow> feegrant) list \<Rightarrow> 'a feegrant_db_scheme \<Rightarrow> 'a feegrant_db_scheme" where
  "insert_feegrants rows db =
     db\<lparr>feegrants := feegrants db @ numbered (feegrant_seq db) rows,
        feegrant_seq := feegrant_seq db + int (length rows)\<rparr>"

definition insert_feegrant_histories ::
  "(int \<Rightarrow> feegrant_history) list \<Rightarrow> 'a feegrant_db_scheme \<Rightarrow> 'a feegrant_db_scheme"
where
  "insert_feegrant_histories rows db =
     db\<lparr>feegrant_histories := feegrant_histories db @ numbered (feegrant_history_seq db) rows,
        feegrant_history_seq := feegrant_history_seq db + int (length rows)\<rparr>"

definition HANDLE_FEEGRANT :: job_decl where
  "HANDLE_FEEGRANT =
     \<lparr>job_name = ''handle:feegrant'', lastHeightJobNames = [''handle:transaction''],
      configName = Some ''feegrant'', job_guard = SkipGE\<rparr>"

definition feegrant_work ::
  "feegrant_ext \<Rightarrow> int \<Rightarrow> int \<Rightarrow> 'a feegrant_db_scheme \<Rightarrow> 'a feegrant_db_scheme res"
where
  "feegrant_work ext startB endB db =
     rbind (getFeegrantEvents ext startB endB db) (\<lambda>(newFeegrants, newHistories).
     rbind (rmap (stored_grant ext) newFeegrants) (\<lambda>grants.
     rbind (rmap (stored_history ext) newHistories) (\<lambda>histories.
       Inr (insert_feegrant_histories histories (insert_feegrants grants db)))))"

definition feegrant_job :: "config \<Rightarrow> feegrant_ext \<Rightarrow> 'a feegrant_db_scheme \<Rightarrow> 'a feegrant_db_scheme res" where
  "feegrant_job cfg ext = range_job cfg HANDLE_FEEGRANT (feegrant_work ext)"

section \<open>The update of grants\<close>

definition init_tx_or_0 :: "feegrant \<Rightarrow> int" where
  "init_tx_or_0 g = (case gr_init_tx_id g of None \<Rightarrow> 0 | Some i \<Rightarrow> i)"

text \<open>The grant an entry belongs to: of those of its pair that are not newer, the newest.\<close>

definition original_feegrant :: "feegrant list \<Rightarrow> feegrant_history \<Rightarrow> feegrant option" where
  "original_feegrant originalFeegrants e =
     (case filter (\<lambda>x. gr_grantee x = hy_grantee e \<and> gr_granter x = hy_granter e \<and> init_tx_or_0 x \<le> hy_tx_id e)
             originalFeegrants of
        [] \<Rightarrow> None
      | x # xs \<Rightarrow>
          Some (fold (\<lambda>current prev. if init_tx_or_0 current < init_tx_or_0 prev then prev else current) xs x))"

type_synonym grant_updates = "(int \<rightharpoonup> int \<times> string) \<times> feegrant_history list"

definition initial_updates :: "feegrant_history list \<Rightarrow> int \<rightharpoonup> int \<times> string" where
  "initial_updates hs =
     fold (\<lambda>e m. if hy_action e \<noteq> ACTION_CREATE then m(the (hy_feegrant_id e) \<mapsto> (0, FEEGRANT_AVAILABLE)) else m) hs Map.empty"

definition update_of :: "feegrant_history \<Rightarrow> grant_updates \<Rightarrow> grant_updates res" where
  "update_of e st =
     (case st of (mapUpdate, listRevoke) \<Rightarrow>
      if hy_action e = ACTION_CREATE then Inr (mapUpdate, listRevoke)
      else (let i = the (hy_feegrant_id e) in
        case mapUpdate i of
          None \<Rightarrow> Inl (JsError ''not found in mapUpdate'')
        | Some (amount, status) \<Rightarrow>
            if hy_action e = ACTION_USE then
              (case hy_amount e of
                 None \<Rightarrow> Inl (JsError ''Use feegrant but not found fee'')
               | Some a \<Rightarrow> Inr (mapUpdate(i \<mapsto> (amount + a, status)), listRevoke))
            else if hy_action e = ACTION_REVOKE then
              Inr (mapUpdate(i \<mapsto> (amount, FEEGRANT_REVOKED)), listRevoke @ [e])
            else if hy_action e = ACTION_USE_UP then
              (case hy_amount e of
                 None \<Rightarrow> Inl (JsError ''Use up feegrant but not found fee'')
               | Some a \<Rightarrow> Inr (mapUpdate(i \<mapsto> (amount + a, FEEGRANT_USE_UP)), listRevoke @ [e]))
            else Inl (JsError ''bug action not found'')))"

definition patch_grant :: "(int \<rightharpoonup> int \<times> string) \<Rightarrow> feegrant \<Rightarrow> feegrant" where
  "patch_grant mapUpdate g =
     (case mapUpdate (gr_id g) of
        None \<Rightarrow> g
      | Some (amount, status) \<Rightarrow>
          g\<lparr>gr_spend_limit := map_option (\<lambda>l. l - amount) (gr_spend_limit g), gr_status := status\<rparr>)"

definition patch_revoke :: "feegrant_history \<Rightarrow> feegrant list \<Rightarrow> feegrant list res" where
  "patch_revoke e gs =
     (case hy_feegrant_id e of
        None \<Rightarrow> Inl (JsError ''Not found origin feegrant for fee grant event'')
      | Some i \<Rightarrow>
          if i = 0 then Inl (JsError ''Not found origin feegrant for fee grant event'')
          else Inr (map (\<lambda>g. if gr_id g = i then g\<lparr>gr_revoke_tx_id := Some (hy_tx_id e)\<rparr> else g) gs))"

definition updateFeegrant :: "feegrant_history list \<Rightarrow> feegrant list \<Rightarrow> feegrant list res" where
  "updateFeegrant hs gs =
     (if hs = [] then Inr gs
      else rbind (rfold update_of hs (initial_updates hs, [])) (\<lambda>(mapUpdate, listRevoke).
             rfold patch_revoke listRevoke (map (patch_grant mapUpdate) gs)))"

definition link_history :: "feegrant list \<Rightarrow> feegrant_history list \<Rightarrow> feegrant_history \<Rightarrow> feegrant_history" where
  "link_history originalFeegrants batch h =
     (if hy_id h \<in> set (map hy_id batch)
      then (case original_feegrant originalFeegrants h of
              None \<Rightarrow> h\<lparr>hy_processed := True\<rparr>
            | Some g \<Rightarrow> h\<lparr>hy_feegrant_id := Some (gr_id g), hy_processed := True\<rparr>)
      else h)"

text \<open>
  The entries not processed yet, up to \<^verbatim>\<open>limitPerCall\<close> of them, and the grants they may belong to. The query
  does not order the entries; the model takes them in the order of the table.
\<close>

definition unprocessed :: "nat \<Rightarrow> 'a feegrant_db_scheme \<Rightarrow> feegrant_history list" where
  "unprocessed limitPerCall db = take limitPerCall (filter (\<lambda>h. \<not> hy_processed h) (feegrant_histories db))"

definition original_feegrants :: "feegrant_history list \<Rightarrow> 'a feegrant_db_scheme \<Rightarrow> feegrant list" where
  "original_feegrants batch db =
     filter (\<lambda>g. (gr_granter g, gr_grantee g) \<in> set (map (\<lambda>h. (hy_granter h, hy_grantee h)) batch) \<and>
                 gr_status g = FEEGRANT_AVAILABLE) (feegrants db)"

definition linked :: "feegrant list \<Rightarrow> feegrant_history list \<Rightarrow> feegrant_history list" where
  "linked originals batch =
     List.map_filter (\<lambda>h. map_option (\<lambda>g. h\<lparr>hy_feegrant_id := Some (gr_id g)\<rparr>) (original_feegrant originals h)) batch"

definition update_feegrant_job :: "nat \<Rightarrow> 'a feegrant_db_scheme \<Rightarrow> 'a feegrant_db_scheme res" where
  "update_feegrant_job limitPerCall db =
     (let batch = unprocessed limitPerCall db; originals = original_feegrants batch db in
      if batch = [] then Inr db
      else rbind (updateFeegrant (linked originals batch) (feegrants db)) (\<lambda>gs.
             Inr (db\<lparr>feegrant_histories := map (link_history originals batch) (feegrant_histories db),
                     feegrants := gs\<rparr>)))"

end
