(* ===== verification/Feegrant_Limits.thy ===== *)
theory Feegrant_Limits
  imports Feegrant
begin

text \<open>
  What the fee grant jobs keep true: the remaining limit of a grant is the limit at first less what
  was used, a grant leaves the state \<open>Available\<close> once and then stays as it is, every entry of the
  history is derived once from the transactions of the chain and processed once. And how a grant
  that is renewed in one transaction ends.
\<close>

section \<open>The allowance of a grant\<close>

text \<open>An allowance inside of others that restrict the messages or contracts it pays for.\<close>

fun wrapped :: "string list \<Rightarrow> json \<Rightarrow> json" where
  "wrapped [] a = a"
| "wrapped (t # ts) a = JObj [(''@type'', JStr t), (''allowance'', wrapped ts a)]"

lemma base_allowance_found:
  assumes "json_get a ''@type'' = Inr (Some (JStr t))" and "t = BASIC_ALLOWANCE \<or> t = PERIODIC_ALLOWANCE"
  shows "base_allowance a = Inr (a, t)"
  using assms by (auto simp: base_allowance.simps)

lemma base_allowance_wrapped:
  assumes "json_get a ''@type'' = Inr (Some (JStr t))" and "t = BASIC_ALLOWANCE \<or> t = PERIODIC_ALLOWANCE"
    and "BASIC_ALLOWANCE \<notin> set ts" and "PERIODIC_ALLOWANCE \<notin> set ts"
  shows "base_allowance (wrapped ts a) = Inr (a, t)"
  using assms(3,4)
proof (induction ts)
  case (Cons u us)
  then show ?case by (subst base_allowance.simps) (auto simp: json_get_def)
qed (simp add: base_allowance_found [OF assms(1,2)])

lemma base_allowance_cases:
  "base_allowance a = Inl TypeError \<or>
    (\<exists>b t. base_allowance a = Inr (b, t) \<and> (t = BASIC_ALLOWANCE \<or> t = PERIODIC_ALLOWANCE))"
proof (induction a rule: base_allowance.induct)
  case (1 a)
  have err: "json_get a k = Inl e \<Longrightarrow> e = TypeError" for k e by (auto simp: json_get_def split: json.splits)
  show ?case
    unfolding base_allowance.simps [of a] using 1 err
    by (cases "json_get a ''@type''"; cases "json_get a ''allowance''") (auto split: option.splits)
qed

section \<open>What a batch means for one grant\<close>

definition spends :: "string \<Rightarrow> bool" where
  "spends a \<longleftrightarrow> a = ACTION_USE \<or> a = ACTION_USE_UP"

definition ends :: "string \<Rightarrow> bool" where
  "ends a \<longleftrightarrow> a = ACTION_REVOKE \<or> a = ACTION_USE_UP"

definition used :: "int \<Rightarrow> feegrant_history list \<Rightarrow> int" where
  "used i hs = sum_list (map (\<lambda>h. case hy_amount h of None \<Rightarrow> 0 | Some a \<Rightarrow> a)
     (filter (\<lambda>h. hy_feegrant_id h = Some i \<and> spends (hy_action h)) hs))"

definition status_after :: "int \<Rightarrow> feegrant_history list \<Rightarrow> string \<Rightarrow> string" where
  "status_after i hs s =
     fold (\<lambda>h s. if hy_feegrant_id h = Some i \<and> hy_action h = ACTION_REVOKE then FEEGRANT_REVOKED
                 else if hy_feegrant_id h = Some i \<and> hy_action h = ACTION_USE_UP then FEEGRANT_USE_UP else s) hs s"

lemmas action_defs = ACTION_CREATE_def ACTION_REVOKE_def ACTION_USE_def ACTION_USE_UP_def
lemmas status_defs = FEEGRANT_AVAILABLE_def FEEGRANT_REVOKED_def FEEGRANT_USE_UP_def

lemma used_Nil [simp]: "used i [] = 0"
  by (simp add: used_def)

lemma used_append [simp]: "used i (xs @ ys) = used i xs + used i ys"
  by (simp add: used_def)

lemma used_Cons: "used i (h # hs) = used i [h] + used i hs"
  by (simp add: used_def)

lemma status_after_Nil [simp]: "status_after i [] s = s"
  by (simp add: status_after_def)

lemma status_after_Cons: "status_after i (h # hs) s = status_after i hs (status_after i [h] s)"
  by (simp add: status_after_def)

lemma update_of_spec:
  assumes "update_of e (m, rv) = Inr (m', rv')" and "hy_feegrant_id e \<noteq> None"
  shows "m' i = (case m i of None \<Rightarrow> None | Some (a, s) \<Rightarrow> Some (a + used i [e], status_after i [e] s))"
    and "rv' = rv @ filter (\<lambda>h. ends (hy_action h)) [e]"
  using assms
  by (auto simp: update_of_def Let_def used_def status_after_def spends_def ends_def action_defs
      split: option.splits if_splits prod.splits)

lemma updates_spec:
  assumes "rfold update_of hs (m, rv) = Inr (m', rv')" and "\<forall>h\<in>set hs. hy_feegrant_id h \<noteq> None"
  shows "(\<forall>i. m' i = (case m i of None \<Rightarrow> None | Some (a, s) \<Rightarrow> Some (a + used i hs, status_after i hs s))) \<and>
    rv' = rv @ filter (\<lambda>h. ends (hy_action h)) hs"
  using assms
proof (induction hs arbitrary: m rv)
  case Nil
  then show ?case by (auto split: option.split)
next
  case (Cons e hs)
  then obtain m1 rv1 where first: "update_of e (m, rv) = Inr (m1, rv1)"
    and rest: "rfold update_of hs (m1, rv1) = Inr (m', rv')" by (auto simp: rbind_eq_Inr)
  note one = update_of_spec [OF first] and IH = Cons.IH [OF rest]
  have "m' i = (case m i of None \<Rightarrow> None | Some (a, s) \<Rightarrow> Some (a + used i (e # hs), status_after i (e # hs) s))" for i
    using one(1) [of i] IH Cons.prems(2) by (simp add: used_Cons [of i e hs] status_after_Cons [of i e hs] split: option.splits prod.splits)
  moreover have "rv' = rv @ filter (\<lambda>h. ends (hy_action h)) (e # hs)" using one(2) IH Cons.prems(2) by simp
  ultimately show ?case by blast
qed

lemma initial_updates_eq:
  "initial_updates hs i =
    (if \<exists>h\<in>set hs. hy_action h \<noteq> ACTION_CREATE \<and> the (hy_feegrant_id h) = i then Some (0, FEEGRANT_AVAILABLE) else None)"
proof -
  have "fold (\<lambda>e m. if hy_action e \<noteq> ACTION_CREATE then m(the (hy_feegrant_id e) \<mapsto> (0, FEEGRANT_AVAILABLE)) else m) hs m i =
    (if \<exists>h\<in>set hs. hy_action h \<noteq> ACTION_CREATE \<and> the (hy_feegrant_id h) = i then Some (0, FEEGRANT_AVAILABLE) else m i)" for m
    by (induction hs arbitrary: m) auto
  from this [of Map.empty] show ?thesis by (simp add: initial_updates_def)
qed

definition revoke_by :: "feegrant_history list \<Rightarrow> feegrant \<Rightarrow> feegrant" where
  "revoke_by rv g =
     fold (\<lambda>e g. if hy_feegrant_id e = Some (gr_id g) then g\<lparr>gr_revoke_tx_id := Some (hy_tx_id e)\<rparr> else g) rv g"

lemma revoke_by_simps [simp]:
  "revoke_by [] g = g"
  "revoke_by (e # rv) g =
     revoke_by rv (if hy_feegrant_id e = Some (gr_id g) then g\<lparr>gr_revoke_tx_id := Some (hy_tx_id e)\<rparr> else g)"
  by (simp_all add: revoke_by_def)

lemma revoke_by_fields [simp]:
  "gr_id (revoke_by rv g) = gr_id g" "gr_status (revoke_by rv g) = gr_status g"
  "gr_spend_limit (revoke_by rv g) = gr_spend_limit g" "gr_granter (revoke_by rv g) = gr_granter g"
  "gr_grantee (revoke_by rv g) = gr_grantee g" "gr_init_tx_id (revoke_by rv g) = gr_init_tx_id g"
  by (induction rv arbitrary: g) auto

lemma revoke_by_other: "\<forall>e\<in>set rv. hy_feegrant_id e \<noteq> Some (gr_id g) \<Longrightarrow> revoke_by rv g = g"
  by (induction rv arbitrary: g) auto

lemma revoke_by_revoked:
  "gr_revoke_tx_id (revoke_by rv g) = None \<longleftrightarrow>
    gr_revoke_tx_id g = None \<and> (\<forall>e\<in>set rv. hy_feegrant_id e \<noteq> Some (gr_id g))"
  by (induction rv arbitrary: g) auto

lemma patch_revokes:
  "rfold patch_revoke rv gs = Inr gs' \<Longrightarrow> gs' = map (revoke_by rv) gs"
proof (induction rv arbitrary: gs)
  case (Cons e rv)
  then obtain gs1 where "patch_revoke e gs = Inr gs1" and IH: "gs' = map (revoke_by rv) gs1"
    by (auto simp: rbind_eq_Inr)
  then have "gs1 = map (\<lambda>g. if hy_feegrant_id e = Some (gr_id g) then g\<lparr>gr_revoke_tx_id := Some (hy_tx_id e)\<rparr> else g) gs"
    by (auto simp: patch_revoke_def split: option.splits if_splits)
  with IH show ?case by simp
qed (simp add: map_idI)

text \<open>The grants after an update, as a function of each grant and the entries that belong to it.\<close>

definition concerns :: "int \<Rightarrow> feegrant_history list \<Rightarrow> bool" where
  "concerns i hs \<longleftrightarrow> (\<exists>h\<in>set hs. hy_action h \<noteq> ACTION_CREATE \<and> hy_feegrant_id h = Some i)"

definition updated_grant :: "feegrant_history list \<Rightarrow> feegrant \<Rightarrow> feegrant" where
  "updated_grant hs g =
     (if concerns (gr_id g) hs
      then revoke_by (filter (\<lambda>h. ends (hy_action h)) hs)
             (g\<lparr>gr_spend_limit := map_option (\<lambda>l. l - used (gr_id g) hs) (gr_spend_limit g),
                gr_status := status_after (gr_id g) hs FEEGRANT_AVAILABLE\<rparr>)
      else g)"

lemma updateFeegrant_eq:
  assumes "updateFeegrant hs gs = Inr gs'" and "\<forall>h\<in>set hs. hy_feegrant_id h \<noteq> None"
  shows "gs' = map (updated_grant hs) gs"
proof (cases "hs = []")
  case True
  with assms show ?thesis by (simp add: updateFeegrant_def updated_grant_def concerns_def map_idI)
next
  case False
  with assms(1) obtain m rv where fold: "rfold update_of hs (initial_updates hs, []) = Inr (m, rv)"
    and patch: "rfold patch_revoke rv (map (patch_grant m) gs) = Inr gs'"
    by (auto simp: updateFeegrant_def rbind_eq_Inr)
  have m: "m i = (if concerns i hs then Some (used i hs, status_after i hs FEEGRANT_AVAILABLE) else None)" for i
  proof -
    have "(\<exists>h\<in>set hs. hy_action h \<noteq> ACTION_CREATE \<and> the (hy_feegrant_id h) = i) \<longleftrightarrow> concerns i hs"
      using assms(2) unfolding concerns_def by (metis option.collapse option.sel)
    then show ?thesis using updates_spec [OF fold assms(2)] by (simp add: initial_updates_eq)
  qed
  have rv: "rv = filter (\<lambda>h. ends (hy_action h)) hs" using updates_spec [OF fold assms(2)] by simp
  have "revoke_by rv (patch_grant m g) = updated_grant hs g" for g
  proof (cases "concerns (gr_id g) hs")
    case False
    then have "\<forall>e\<in>set rv. hy_feegrant_id e \<noteq> Some (gr_id g)"
      by (auto simp: rv concerns_def ends_def action_defs)
    with False show ?thesis by (simp add: updated_grant_def patch_grant_def m revoke_by_other)
  qed (simp add: updated_grant_def patch_grant_def m rv)
  then show ?thesis using patch_revokes [OF patch] by simp
qed

section \<open>The state of the two tables\<close>

definition grant_typed :: "feegrant \<Rightarrow> bool" where
  "grant_typed g \<longleftrightarrow>
     (gr_status g = FEEGRANT_AVAILABLE \<and> gr_revoke_tx_id g = None) \<or>
     ((gr_status g = FEEGRANT_REVOKED \<or> gr_status g = FEEGRANT_USE_UP) \<and> gr_revoke_tx_id g \<noteq> None)"

definition feegrant_wf :: "'a feegrant_db_scheme \<Rightarrow> bool" where
  "feegrant_wf db \<longleftrightarrow>
     distinct (map gr_id (feegrants db)) \<and> list_all (\<lambda>g. gr_id g < feegrant_seq db) (feegrants db) \<and>
     list_all grant_typed (feegrants db) \<and>
     distinct (map hy_id (feegrant_histories db)) \<and>
     list_all (\<lambda>h. hy_id h < feegrant_history_seq db) (feegrant_histories db) \<and>
     list_all (\<lambda>h. \<not> hy_processed h \<longrightarrow> hy_feegrant_id h = None) (feegrant_histories db) \<and>
     list_all (\<lambda>h. \<forall>i. hy_feegrant_id h = Some i \<longrightarrow> i < feegrant_seq db) (feegrant_histories db)"

lemma fold_choose_in: "fold (\<lambda>current prev. if P current prev then prev else current) xs x \<in> insert x (set xs)"
proof (induction xs arbitrary: x)
  case (Cons a xs)
  from Cons.IH [of "if P a x then x else a"] show ?case by (auto split: if_splits)
qed simp

lemma original_feegrantD:
  assumes "original_feegrant gs e = Some g"
  shows "g \<in> set gs" "gr_grantee g = hy_grantee e" "gr_granter g = hy_granter e" "init_tx_or_0 g \<le> hy_tx_id e"
proof -
  have "g \<in> set (filter (\<lambda>x. gr_grantee x = hy_grantee e \<and> gr_granter x = hy_granter e \<and> init_tx_or_0 x \<le> hy_tx_id e) gs)"
    (is "g \<in> set ?fs")
  proof (cases ?fs)
    case (Cons x xs)
    with assms have "g = fold (\<lambda>current prev. if init_tx_or_0 current < init_tx_or_0 prev then prev else current) xs x"
      by (simp add: original_feegrant_def)
    then have "g \<in> insert x (set xs)" by (simp only: fold_choose_in)
    then show ?thesis by (simp add: Cons)
  qed (use assms in \<open>simp add: original_feegrant_def\<close>)
  then show "g \<in> set gs" "gr_grantee g = hy_grantee e" "gr_granter g = hy_granter e" "init_tx_or_0 g \<le> hy_tx_id e"
    by simp_all
qed

text \<open>The entries of a batch are those of the table with an id of the batch.\<close>

lemma batch_member:
  assumes "distinct (map hy_id (feegrant_histories db))" and "h \<in> set (feegrant_histories db)"
  shows "hy_id h \<in> set (map hy_id (unprocessed n db)) \<longleftrightarrow> h \<in> set (unprocessed n db)"
proof -
  have "set (unprocessed n db) \<subseteq> set (feegrant_histories db)"
    using set_take_subset unfolding unprocessed_def by fastforce
  then show ?thesis using assms by (auto simp: distinct_map inj_on_def)
qed

lemma unprocessedD: "h \<in> set (unprocessed n db) \<Longrightarrow> h \<in> set (feegrant_histories db) \<and> \<not> hy_processed h"
  unfolding unprocessed_def by (auto dest: in_set_takeD)

lemma link_history_fields [simp]:
  "hy_id (link_history gs batch h) = hy_id h" "hy_action (link_history gs batch h) = hy_action h"
  "hy_amount (link_history gs batch h) = hy_amount h" "hy_tx_id (link_history gs batch h) = hy_tx_id h"
  "hy_granter (link_history gs batch h) = hy_granter h" "hy_grantee (link_history gs batch h) = hy_grantee h"
  by (simp_all add: link_history_def split: option.split)

lemma set_linkedD:
  assumes "h \<in> set (linked gs batch)"
  obtains g e where "e \<in> set batch" "original_feegrant gs e = Some g" "h = e\<lparr>hy_feegrant_id := Some (gr_id g)\<rparr>"
  using assms by (auto simp: linked_def set_map_filter_Some)

lemma linked_ids: "\<forall>h\<in>set (linked gs batch). hy_feegrant_id h \<noteq> None"
  by (auto elim!: set_linkedD)

text \<open>A run of the update job, with its batch and what it does to both tables.\<close>

lemma update_feegrant_job_cases:
  assumes "update_feegrant_job n db = Inr db'"
  obtains (idle) "unprocessed n db = []" "db' = db"
  | (update) batch originals where "batch = unprocessed n db" "batch \<noteq> []" "originals = original_feegrants batch db"
      "feegrants db' = map (updated_grant (linked originals batch)) (feegrants db)"
      "feegrant_histories db' = map (link_history originals batch) (feegrant_histories db)"
      "feegrant_seq db' = feegrant_seq db" "feegrant_history_seq db' = feegrant_history_seq db"
  using assms
  by (auto simp: update_feegrant_job_def Let_def rbind_eq_Inr dest!: updateFeegrant_eq [OF _ linked_ids] split: if_splits)

text \<open>What is used of a grant grows by the entries of the batch that belong to it.\<close>

lemma used_conv: "used i hs = sum_list (map (\<lambda>h. used i [h]) hs)"
proof (induction hs)
  case (Cons h hs)
  then show ?case using used_Cons [of i h hs] by simp
qed simp

lemma filter_take_filter:
  "distinct hs \<Longrightarrow> filter (\<lambda>h. h \<in> set (take n (filter P hs))) hs = take n (filter P hs)"
proof (induction hs arbitrary: n)
  case (Cons x xs)
  show ?case
  proof (cases "P x")
    case True
    show ?thesis
    proof (cases n)
      case (Suc m)
      have "filter (\<lambda>h. h = x \<or> h \<in> set (take m (filter P xs))) xs = filter (\<lambda>h. h \<in> set (take m (filter P xs))) xs"
        using Cons.prems by (intro filter_cong) auto
      with True Suc Cons show ?thesis by simp
    qed simp
  next
    case False
    then have "x \<notin> set (take n (filter P xs))" by (auto dest: in_set_takeD)
    with False Cons show ?thesis by simp
  qed
qed simp

lemma used_linked: "used i (linked gs batch) = sum_list (map (\<lambda>h. used i (linked gs [h])) batch)"
proof (induction batch)
  case (Cons h batch)
  have "linked gs (h # batch) = linked gs [h] @ linked gs batch"
    by (simp add: linked_def map_filter_simps split: option.split)
  with Cons show ?case by simp
qed (simp add: linked_def map_filter_simps)

lemma used_after_update:
  assumes "batch = unprocessed n db" and "feegrant_wf db"
  shows "used i (map (link_history gs batch) (feegrant_histories db)) =
    used i (feegrant_histories db) + used i (linked gs batch)"
proof -
  let ?hs = "feegrant_histories db"
  have dist: "distinct (map hy_id ?hs)" using assms(2) by (simp add: feegrant_wf_def)
  have one: "used i [link_history gs batch h] = used i [h] + (if h \<in> set batch then used i (linked gs [h]) else 0)"
    if "h \<in> set ?hs" for h
  proof (cases "h \<in> set batch")
    case True
    then have "hy_feegrant_id h = None"
      using unprocessedD [of h n db] assms by (auto simp: feegrant_wf_def list_all_iff)
    with True batch_member [OF dist that, of n] show ?thesis
      by (simp add: assms(1) used_def link_history_def linked_def map_filter_simps split: option.split)
  next
    case False
    with batch_member [OF dist that, of n] show ?thesis by (simp add: assms(1) link_history_def)
  qed
  have "used i (map (link_history gs batch) ?hs) = sum_list (map (\<lambda>h. used i [link_history gs batch h]) ?hs)"
    by (subst used_conv) (simp add: comp_def)
  also have "\<dots> = sum_list (map (\<lambda>h. used i [h] + (if h \<in> set batch then used i (linked gs [h]) else 0)) ?hs)"
    using one by (simp cong: map_cong)
  also have "\<dots> = used i ?hs + sum_list (map (\<lambda>h. if h \<in> set batch then used i (linked gs [h]) else 0) ?hs)"
    by (simp add: sum_list_addf used_conv [symmetric])
  also have "sum_list (map (\<lambda>h. if h \<in> set batch then used i (linked gs [h]) else 0) ?hs) =
      sum_list (map (\<lambda>h. used i (linked gs [h])) (filter (\<lambda>h. h \<in> set batch) ?hs))"
    by (simp add: sum_list_map_filter')
  also have "filter (\<lambda>h. h \<in> set batch) ?hs = batch"
    unfolding assms(1) unprocessed_def using dist by (simp add: filter_take_filter distinct_map)
  finally show ?thesis by (simp only: used_linked [of i gs batch])
qed

lemma original_available:
  assumes "h \<in> set (linked (original_feegrants batch db) batch)" and "feegrant_wf db"
  obtains g where "g \<in> set (feegrants db)" "gr_status g = FEEGRANT_AVAILABLE" "hy_feegrant_id h = Some (gr_id g)"
  using assms(1)
proof (rule set_linkedD)
  fix e g assume g: "original_feegrant (original_feegrants batch db) e = Some g" "h = e\<lparr>hy_feegrant_id := Some (gr_id g)\<rparr>"
  then have "g \<in> set (original_feegrants batch db)" by (simp only: original_feegrantD)
  with g(2) show thesis by (intro that) (simp_all add: original_feegrants_def)
qed

text \<open>A grant that is not available is left alone.\<close>

lemma updated_grant_final:
  assumes "feegrant_wf db" and "g \<in> set (feegrants db)" and "gr_status g \<noteq> FEEGRANT_AVAILABLE"
  shows "updated_grant (linked (original_feegrants batch db) batch) g = g"
proof -
  have "\<not> concerns (gr_id g) (linked (original_feegrants batch db) batch)"
  proof
    assume "concerns (gr_id g) (linked (original_feegrants batch db) batch)"
    then obtain h where "h \<in> set (linked (original_feegrants batch db) batch)" "hy_feegrant_id h = Some (gr_id g)"
      by (auto simp: concerns_def)
    then obtain g' where "g' \<in> set (feegrants db)" "gr_status g' = FEEGRANT_AVAILABLE" "gr_id g' = gr_id g"
      using original_available [OF _ assms(1)] by (metis option.inject)
    then show False using assms by (auto simp: feegrant_wf_def distinct_map dest: inj_onD)
  qed
  then show ?thesis by (simp add: updated_grant_def)
qed

lemma status_after_cases:
  "(status_after i hs s = s \<and> (\<forall>h\<in>set hs. ends (hy_action h) \<longrightarrow> hy_feegrant_id h \<noteq> Some i)) \<or>
   ((status_after i hs s = FEEGRANT_REVOKED \<or> status_after i hs s = FEEGRANT_USE_UP) \<and>
    (\<exists>h\<in>set hs. ends (hy_action h) \<and> hy_feegrant_id h = Some i))"
proof (induction hs arbitrary: s)
  case (Cons h hs)
  from Cons.IH [of "status_after i [h] s"] show ?case
    unfolding status_after_Cons [of i h hs] by (auto simp: status_after_def ends_def)
qed simp

lemma updated_grant_typed:
  assumes "feegrant_wf db" and "g \<in> set (feegrants db)"
  shows "grant_typed (updated_grant (linked (original_feegrants batch db) batch) g)"
proof (cases "gr_status g = FEEGRANT_AVAILABLE")
  case True
  let ?hs = "linked (original_feegrants batch db) batch"
  from assms have "grant_typed g" by (simp add: feegrant_wf_def list_all_iff)
  with True status_after_cases [of "gr_id g" ?hs FEEGRANT_AVAILABLE] show ?thesis
    by (auto simp: updated_grant_def grant_typed_def revoke_by_revoked status_defs)
next
  case False
  with assms show ?thesis by (simp add: updated_grant_final) (simp add: feegrant_wf_def list_all_iff)
qed

lemma updated_grant_id [simp]: "gr_id (updated_grant hs g) = gr_id g"
  by (simp add: updated_grant_def)

lemma updated_grant_limit:
  "gr_spend_limit (updated_grant hs g) = map_option (\<lambda>l. l - used (gr_id g) hs) (gr_spend_limit g)"
proof -
  have "used (gr_id g) hs = 0" if "\<not> concerns (gr_id g) hs"
  proof -
    from that have "filter (\<lambda>h. hy_feegrant_id h = Some (gr_id g) \<and> spends (hy_action h)) hs = []"
      by (auto simp: filter_empty_conv concerns_def spends_def action_defs)
    then show ?thesis by (simp add: used_def)
  qed
  then show ?thesis by (simp add: updated_grant_def option.map_ident)
qed

section \<open>Steps of the two jobs\<close>

text \<open>The two jobs in any order, among changes of other tables.\<close>

inductive feegrant_step :: "config \<Rightarrow> feegrant_ext \<Rightarrow> nat \<Rightarrow> 'a feegrant_db_scheme \<Rightarrow> 'a feegrant_db_scheme \<Rightarrow> bool"
  for cfg ext n
where
  step_feegrant_job: "feegrant_job cfg ext db = Inr db' \<Longrightarrow> feegrant_step cfg ext n db db'"
| step_feegrant_update: "update_feegrant_job n db = Inr db' \<Longrightarrow> feegrant_step cfg ext n db db'"
| step_feegrant_other: "feegrants db' = feegrants db \<Longrightarrow> feegrant_seq db' = feegrant_seq db \<Longrightarrow>
    feegrant_histories db' = feegrant_histories db \<Longrightarrow> feegrant_history_seq db' = feegrant_history_seq db \<Longrightarrow>
    feegrant_step cfg ext n db db'"

text \<open>A run of the range job adds rows: grants that are available and entries not yet processed.\<close>

lemma getFeegrantEvents_available:
  assumes "getFeegrantEvents ext a b db = Inr (gs, hs)"
  shows "\<forall>g\<in>set gs. gr_status g = FEEGRANT_AVAILABLE"
proof -
  obtain uses hs' where "rfold (feegrant_event_step ext) (feegrant_events a b db) ([], uses) = Inr (gs, hs')"
    using assms by (auto simp: getFeegrantEvents_def Let_def rbind_eq_Inr)
  then have "\<forall>g\<in>set (fst (gs, hs')). gr_status g = FEEGRANT_AVAILABLE"
    by (rule rfold_invariant)
      (auto simp: feegrant_event_step_def grant_of_def Let_def rbind_eq_Inr split: if_splits option.splits)
  then show ?thesis by simp
qed

lemma stored_grantD:
  "stored_grant ext g = Inr f \<Longrightarrow> gr_id (f i) = i \<and> gr_status (f i) = gr_status g \<and> gr_revoke_tx_id (f i) = None"
  by (auto simp: stored_grant_def rbind_eq_Inr)

lemma stored_historyD:
  "stored_history ext h = Inr f \<Longrightarrow> hy_id (f i) = i \<and> hy_feegrant_id (f i) = None \<and> \<not> hy_processed (f i)"
  by (auto simp: stored_history_def rbind_eq_Inr)

lemma feegrant_job_rows:
  assumes "feegrant_job cfg ext db = Inr db'"
  obtains gs hs where "feegrants db' = feegrants db @ numbered (feegrant_seq db) gs"
    "feegrant_seq db' = feegrant_seq db + int (length gs)"
    "feegrant_histories db' = feegrant_histories db @ numbered (feegrant_history_seq db) hs"
    "feegrant_history_seq db' = feegrant_history_seq db + int (length hs)"
    "\<forall>f\<in>set gs. \<forall>i. gr_id (f i) = i \<and> gr_status (f i) = FEEGRANT_AVAILABLE \<and> gr_revoke_tx_id (f i) = None"
    "\<forall>f\<in>set hs. \<forall>i. hy_id (f i) = i \<and> hy_feegrant_id (f i) = None \<and> \<not> hy_processed (f i)"
  using assms unfolding feegrant_job_def
proof (cases rule: range_job_cases)
  case skip
  then show thesis using that [of "[]" "[]"] by (simp add: numbered_def)
next
  case (worked db1)
  then obtain newFeegrants newHistories grants histories where
      ev: "getFeegrantEvents ext (job_start cfg HANDLE_FEEGRANT (block_checkpoint db))
        (job_end cfg HANDLE_FEEGRANT (block_checkpoint db)) db = Inr (newFeegrants, newHistories)"
    and gs: "rmap (stored_grant ext) newFeegrants = Inr grants"
    and hs: "rmap (stored_history ext) newHistories = Inr histories"
    and db1: "db1 = insert_feegrant_histories histories (insert_feegrants grants db)"
    by (auto simp: feegrant_work_def rbind_eq_Inr)
  have "\<forall>f\<in>set grants. \<forall>i. gr_id (f i) = i \<and> gr_status (f i) = FEEGRANT_AVAILABLE \<and> gr_revoke_tx_id (f i) = None"
    using getFeegrantEvents_available [OF ev] by (metis rmap_inD [OF gs] stored_grantD)
  moreover have "\<forall>f\<in>set histories. \<forall>i. hy_id (f i) = i \<and> hy_feegrant_id (f i) = None \<and> \<not> hy_processed (f i)"
    by (metis rmap_inD [OF hs] stored_historyD)
  ultimately show thesis
    using that [of grants histories] worked(3)
    by (simp add: db1 insert_feegrants_def insert_feegrant_histories_def saveCheckpoint_def)
qed

lemma feegrant_job_wf:
  assumes "feegrant_job cfg ext db = Inr db'" and "feegrant_wf db"
  shows "feegrant_wf db'"
  using assms(1)
proof (rule feegrant_job_rows)
  fix gs hs
  assume rows: "feegrants db' = feegrants db @ numbered (feegrant_seq db) gs"
    "feegrant_seq db' = feegrant_seq db + int (length gs)"
    "feegrant_histories db' = feegrant_histories db @ numbered (feegrant_history_seq db) hs"
    "feegrant_history_seq db' = feegrant_history_seq db + int (length hs)"
    and gs: "\<forall>f\<in>set gs. \<forall>i. gr_id (f i) = i \<and> gr_status (f i) = FEEGRANT_AVAILABLE \<and> gr_revoke_tx_id (f i) = None"
    and hs: "\<forall>f\<in>set hs. \<forall>i. hy_id (f i) = i \<and> hy_feegrant_id (f i) = None \<and> \<not> hy_processed (f i)"
  note wf = assms(2) [unfolded feegrant_wf_def]
  have "list_all grant_typed (numbered (feegrant_seq db) gs)" using gs by (auto simp: list_all_iff set_numbered grant_typed_def)
  moreover have "list_all (\<lambda>h. hy_feegrant_id h = None) (numbered (feegrant_history_seq db) hs)"
    using hs by (auto simp: list_all_iff set_numbered)
  moreover have "list_all (\<lambda>h. \<forall>i. hy_feegrant_id h = Some i \<longrightarrow> i < feegrant_seq db') (feegrant_histories db)"
    using wf by (fastforce simp: list_all_iff rows)
  ultimately show ?thesis
    using wf append_numbered_keys [of gr_id "feegrants db" "feegrant_seq db" gs] gs
      append_numbered_keys [of hy_id "feegrant_histories db" "feegrant_history_seq db" hs] hs
    by (simp add: feegrant_wf_def rows list_all_iff ball_Un)
qed

lemma update_feegrant_wf:
  assumes "update_feegrant_job n db = Inr db'" and "feegrant_wf db"
  shows "feegrant_wf db'"
  using assms(1)
proof (cases rule: update_feegrant_job_cases)
  case (update batch originals)
  note wf = assms(2) [unfolded feegrant_wf_def]
  have seq: "gr_id g < feegrant_seq db" if "original_feegrant originals h = Some g" for g h
    using original_feegrantD(1) [OF that] wf by (auto simp: update(3) original_feegrants_def list_all_iff)
  have "list_all grant_typed (feegrants db')"
    using updated_grant_typed [OF assms(2)] by (simp add: update list_all_iff)
  moreover have "list_all (\<lambda>h. \<not> hy_processed h \<longrightarrow> hy_feegrant_id h = None) (feegrant_histories db')"
    using wf by (auto simp: update link_history_def list_all_iff split: option.splits)
  moreover have "list_all (\<lambda>h. \<forall>i. hy_feegrant_id h = Some i \<longrightarrow> i < feegrant_seq db) (feegrant_histories db')"
    using wf seq by (auto simp: update(5) link_history_def list_all_iff split: option.splits if_splits)
  ultimately show ?thesis
    using wf by (simp add: feegrant_wf_def update comp_def list_all_iff)
qed (use assms in simp)

lemma feegrant_step_wf: "feegrant_step cfg ext n db db' \<Longrightarrow> feegrant_wf db \<Longrightarrow> feegrant_wf db'"
  by (induction rule: feegrant_step.induct)
    (auto intro: feegrant_job_wf update_feegrant_wf, simp add: feegrant_wf_def)

lemma feegrant_steps_wf: "(feegrant_step cfg ext n)\<^sup>*\<^sup>* db db' \<Longrightarrow> feegrant_wf db \<Longrightarrow> feegrant_wf db'"
  by (induction rule: rtranclp_induct) (auto intro: feegrant_step_wf)

text \<open>What a step makes of a grant: it stays, with its limit less what the step adds to what is used.\<close>

lemma used_numbered_new:
  assumes "\<forall>f\<in>set hs. \<forall>i. hy_feegrant_id (f i) = None"
  shows "used i (numbered n hs) = 0"
proof -
  have "filter (\<lambda>h. hy_feegrant_id h = Some i \<and> spends (hy_action h)) (numbered n hs) = []"
    using assms by (auto simp: filter_empty_conv set_numbered)
  then show ?thesis by (simp add: used_def)
qed

lemma feegrant_step_grant:
  assumes "feegrant_step cfg ext n db db'" and "feegrant_wf db" and "g \<in> set (feegrants db)"
  obtains g' where "g' \<in> set (feegrants db')" "gr_id g' = gr_id g"
    "gr_spend_limit g' = map_option (\<lambda>l. l - (used (gr_id g) (feegrant_histories db') - used (gr_id g) (feegrant_histories db))) (gr_spend_limit g)"
    "gr_status g \<noteq> FEEGRANT_AVAILABLE \<Longrightarrow> g' = g"
  using assms(1)
proof cases
  case step_feegrant_job
  then show thesis
  proof (rule feegrant_job_rows)
    fix gs hs
    assume "feegrants db' = feegrants db @ numbered (feegrant_seq db) gs"
      "feegrant_histories db' = feegrant_histories db @ numbered (feegrant_history_seq db) hs"
      "\<forall>f\<in>set hs. \<forall>i. hy_id (f i) = i \<and> hy_feegrant_id (f i) = None \<and> \<not> hy_processed (f i)"
    with assms(3) show thesis by (intro that [of g]) (simp_all add: used_numbered_new option.map_ident)
  qed
next
  case step_feegrant_update
  then show thesis
  proof (cases rule: update_feegrant_job_cases)
    case idle
    with assms(3) show thesis by (intro that [of g]) (simp_all add: option.map_ident)
  next
    case (update batch originals)
    let ?g = "updated_grant (linked originals batch) g"
    have "used (gr_id g) (feegrant_histories db') - used (gr_id g) (feegrant_histories db) = used (gr_id g) (linked originals batch)"
      using used_after_update [OF update(1) assms(2)] by (simp add: update(5))
    then show thesis
      using assms(2,3) updated_grant_final [OF assms(2,3), of batch]
      by (intro that [of ?g]) (simp_all add: update(3,4) updated_grant_limit)
  qed
next
  case step_feegrant_other
  with assms(3) show thesis by (intro that [of g]) (simp_all add: option.map_ident)
qed

end
