(* ===== verification/Feegrant_History.thy ===== *)
theory Feegrant_History
  imports Feegrant_Limits
begin

text \<open>
  The history of fee grants over the runs of the range job: what a transaction contributes depends
  on its own events only, and every transaction contributes exactly once.
\<close>

section \<open>One transaction at a time\<close>

lemma update_first_filter:
  assumes "update_first p g xs = Inr ys" and "\<And>x. p x \<Longrightarrow> q x" and "\<And>x. p x \<Longrightarrow> q (g x)"
  shows "update_first p g (filter q xs) = Inr (filter q ys)"
  using assms(1)
proof (induction xs arbitrary: ys)
  case (Cons x xs)
  then show ?case using assms(2,3) by (auto simp: rbind_eq_Inr split: if_splits)
qed simp

lemma update_first_filter_other:
  assumes "update_first p g xs = Inr ys" and "\<And>x. p x \<Longrightarrow> \<not> q x" and "\<And>x. p x \<Longrightarrow> \<not> q (g x)"
  shows "filter q ys = filter q xs"
  using assms(1)
proof (induction xs arbitrary: ys)
  case (Cons x xs)
  then show ?case using assms(2,3) by (auto simp: rbind_eq_Inr split: if_splits)
qed simp

abbreviation of_tx :: "int \<Rightarrow> 'n history_entry list \<Rightarrow> 'n history_entry list" where
  "of_tx i hs \<equiv> filter (\<lambda>h. hy_tx_id h = i) hs"

lemma history_of_tx: "history_of f action amount denom = Inr h \<Longrightarrow> hy_tx_id h = fe_tx_id f"
  by (auto simp: history_of_def rbind_eq_Inr)

lemma use_entry_tx: "use_entry f = Inr h \<Longrightarrow> hy_tx_id h = fe_tx_id f"
  by (auto simp: use_entry_def history_of_tx split: list.splits)

lemma use_entries_tx:
  assumes "use_entries fs = Inr uses"
  shows "use_entries (filter (\<lambda>f. fe_tx_id f = i) fs) = Inr (of_tx i uses)"
  using assms unfolding use_entries_def
proof (induction fs arbitrary: uses)
  case (Cons f fs)
  then show ?case by (auto simp: rbind_eq_Inr use_entry_tx split: if_splits)
qed simp

lemma event_step_tx:
  assumes "feegrant_event_step ext f (gs, hs) = Inr (gs', hs')"
  shows "fe_tx_id f \<noteq> i \<Longrightarrow> of_tx i hs' = of_tx i hs"
    and "fe_tx_id f = i \<Longrightarrow> \<exists>ks'. feegrant_event_step ext f (ks, of_tx i hs) = Inr (ks', of_tx i hs')"
proof -
  have mine: "is_used_by f h \<Longrightarrow> hy_tx_id h = fe_tx_id f" for h by (simp add: is_used_by_def)
  show "fe_tx_id f \<noteq> i \<Longrightarrow> of_tx i hs' = of_tx i hs"
    using assms mine
    by (auto simp: feegrant_event_step_def Let_def rbind_eq_Inr history_of_tx
        split: if_splits option.splits elim!: update_first_filter_other)
  show "fe_tx_id f = i \<Longrightarrow> \<exists>ks'. feegrant_event_step ext f (ks, of_tx i hs) = Inr (ks', of_tx i hs')"
    using assms mine
    by (auto simp: feegrant_event_step_def Let_def rbind_eq_Inr history_of_tx
        split: if_splits option.splits dest!: update_first_filter [where q = "\<lambda>h. hy_tx_id h = i"])
qed

lemma event_steps_tx:
  assumes "rfold (feegrant_event_step ext) fs (gs, hs) = Inr (gs', hs')"
  shows "\<exists>ks'. rfold (feegrant_event_step ext) (filter (\<lambda>f. fe_tx_id f = i) fs) (ks, of_tx i hs) = Inr (ks', of_tx i hs')"
  using assms
proof (induction fs arbitrary: gs hs ks)
  case (Cons f fs)
  then obtain gs1 hs1 where first: "feegrant_event_step ext f (gs, hs) = Inr (gs1, hs1)"
    and rest: "rfold (feegrant_event_step ext) fs (gs1, hs1) = Inr (gs', hs')" by (auto simp: rbind_eq_Inr)
  show ?case
  proof (cases "fe_tx_id f = i")
    case True
    then obtain ks1 where "feegrant_event_step ext f (ks, of_tx i hs) = Inr (ks1, of_tx i hs1)"
      using event_step_tx(2) [OF first] by blast
    with True Cons.IH [OF rest, of ks1] show ?thesis by simp
  next
    case False
    with Cons.IH [OF rest, of ks] event_step_tx(1) [OF first, of i] show ?thesis by simp
  qed
qed simp

lemma event_steps_ids:
  assumes "rfold (feegrant_event_step ext) fs (gs, hs) = Inr (gs', hs')"
    and "hy_tx_id ` set hs \<subseteq> fe_tx_id ` S" and "set fs \<subseteq> S"
  shows "hy_tx_id ` set hs' \<subseteq> fe_tx_id ` S"
proof -
  have "hy_tx_id ` set (snd (gs', hs')) \<subseteq> fe_tx_id ` S"
    using assms(1)
  proof (rule rfold_invariant)
    fix f st st' assume f: "f \<in> set fs" and st: "hy_tx_id ` set (snd st) \<subseteq> fe_tx_id ` S"
      and step: "feegrant_event_step ext f st = Inr st'"
    obtain gs hs gs' hs' where eq: "st = (gs, hs)" "st' = (gs', hs')" by (cases st; cases st')
    have "hy_tx_id h \<in> fe_tx_id ` S" if "h \<in> set hs'" for h
    proof (cases "hy_tx_id h = fe_tx_id f")
      case True
      with f assms(3) show ?thesis by auto
    next
      case False
      with step have "of_tx (hy_tx_id h) hs' = of_tx (hy_tx_id h) hs" by (intro event_step_tx(1)) (auto simp: eq)
      moreover have "h \<in> set (of_tx (hy_tx_id h) hs')" using that by simp
      ultimately have "h \<in> set (of_tx (hy_tx_id h) hs)" by simp
      with st show ?thesis by (auto simp: eq)
    qed
    then show "hy_tx_id ` set (snd st') \<subseteq> fe_tx_id ` S" by (auto simp: eq)
  qed (use assms(2) in simp)
  then show ?thesis by simp
qed

lemma mset_by_key:
  assumes "distinct ids" and "key ` set hs \<subseteq> set ids"
  shows "mset hs = (\<Sum>i\<in>#mset ids. mset (filter (\<lambda>h. key h = i) hs))"
  using assms
proof (induction hs)
  case (Cons h hs)
  then obtain us vs where ids: "ids = us @ key h # vs" by (auto dest: split_list)
  have other: "(\<Sum>i\<in>#mset xs. mset (filter (\<lambda>k. key k = i) (h # hs))) = (\<Sum>i\<in>#mset xs. mset (filter (\<lambda>k. key k = i) hs))"
    if "key h \<notin> set xs" for xs
    using that by (induction xs) auto
  from Cons ids other [of us] other [of vs] show ?case by simp
qed simp

section \<open>What a transaction contributes\<close>

definition all_feegrant_events :: "(json, 'a) chain_db_scheme \<Rightarrow> feegrant_event list" where
  "all_feegrant_events db =
     List.map_filter (\<lambda>e. case event_tx db e of
         None \<Rightarrow> None
       | Some t \<Rightarrow>
           if evt_type e \<in> set [''use_feegrant'', ''set_feegrant'', ''revoke_feegrant'']
           then Some \<lparr>fe_event = e, fe_transaction = t, fe_message = event_message db e\<rparr> else None)
       (event_table db)"

definition history_content :: "feegrant_ext \<Rightarrow> json history_entry \<Rightarrow> int history_entry" where
  "history_content ext h =
     \<lparr>hy_tx_id = hy_tx_id h, hy_action = hy_action h,
      hy_amount = (case numeric_value ext (hy_amount h) of Inl _ \<Rightarrow> None | Inr a \<Rightarrow> a),
      hy_granter = hy_granter h, hy_grantee = hy_grantee h, hy_denom = hy_denom h\<rparr>"

text \<open>The entries the events of one transaction give on their own.\<close>

definition tx_history :: "feegrant_ext \<Rightarrow> (json, 'a) chain_db_scheme \<Rightarrow> int \<Rightarrow> int history_entry multiset" where
  "tx_history ext db i =
     (let fs = filter (\<lambda>f. fe_tx_id f = i) (all_feegrant_events db) in
      case rbind (use_entries fs) (\<lambda>uses. rfold (feegrant_event_step ext) fs ([], uses)) of
        Inl _ \<Rightarrow> {#}
      | Inr (_, hs) \<Rightarrow> image_mset (history_content ext) (mset hs))"

definition range_history ::
  "feegrant_ext \<Rightarrow> (json, 'a) chain_db_scheme \<Rightarrow> int \<Rightarrow> int \<Rightarrow> int history_entry multiset"
where
  "range_history ext db a b =
     (\<Sum>t\<in>#filter_mset (\<lambda>t. in_range a b (tx_height t)) (mset (transaction_table db)). tx_history ext db (tx_id t))"

definition stored_entries :: "'a feegrant_db_scheme \<Rightarrow> int history_entry multiset" where
  "stored_entries db = image_mset history_entry.truncate (mset (feegrant_histories db))"

lemma feegrant_events_eq:
  "feegrant_events a b db = filter (\<lambda>f. in_range a b (tx_height (fe_transaction f))) (all_feegrant_events db)"
proof -
  have "List.map_filter (\<lambda>e. case event_tx db e of None \<Rightarrow> None | Some t \<Rightarrow>
        if P e \<and> in_range a b (tx_height t) then Some (F e t) else None) es =
      filter (\<lambda>f. in_range a b (tx_height (fe_transaction f)))
        (List.map_filter (\<lambda>e. case event_tx db e of None \<Rightarrow> None | Some t \<Rightarrow> if P e then Some (F e t) else None) es)"
    if "\<And>e t. fe_transaction (F e t) = t" for P es and F :: "event_row \<Rightarrow> json transaction_row \<Rightarrow> feegrant_event"
    using that by (induction es) (simp_all add: map_filter_simps split: option.split)
  from this [of "\<lambda>e t. \<lparr>fe_event = e, fe_transaction = t, fe_message = event_message db e\<rparr>"]
  show ?thesis by (simp only: feegrant_events_def all_feegrant_events_def feegrant_event.simps)
qed

lemma all_feegrant_events_tx:
  assumes "f \<in> set (all_feegrant_events db)"
  shows "find (\<lambda>t. tx_id t = fe_tx_id f) (transaction_table db) = Some (fe_transaction f)"
proof -
  from assms obtain e where "event_tx db e = Some (fe_transaction f)"
    by (auto simp: all_feegrant_events_def set_map_filter_Some split: option.splits if_splits)
  then obtain i where i: "find (\<lambda>t. tx_id t = i) (transaction_table db) = Some (fe_transaction f)"
    by (auto simp: event_tx_def split: option.splits)
  then have "tx_id (fe_transaction f) = i" by (auto simp: find_Some_iff)
  with i show ?thesis by simp
qed

lemma range_events_of_tx:
  assumes "distinct (map tx_id (transaction_table db))" and "t \<in> set (transaction_table db)" and "in_range a b (tx_height t)"
  shows "filter (\<lambda>f. fe_tx_id f = tx_id t) (feegrant_events a b db) = filter (\<lambda>f. fe_tx_id f = tx_id t) (all_feegrant_events db)"
proof -
  have "in_range a b (tx_height (fe_transaction f))" if "f \<in> set (all_feegrant_events db)" "fe_tx_id f = tx_id t" for f
  proof -
    have "Some (fe_transaction f) = Some t"
      using all_feegrant_events_tx [OF that(1)] find_by_key [OF assms(1,2) refl] by (simp only: that(2))
    with assms(3) show ?thesis by simp
  qed
  then show ?thesis unfolding feegrant_events_eq filter_filter by (intro filter_cong) auto
qed

lemma image_mset_sum: "image_mset f (\<Sum>i\<in>#M. g i) = (\<Sum>i\<in>#M. image_mset f (g i))"
  by (induction M) simp_all

lemma range_history_derived:
  assumes "getFeegrantEvents ext a b db = Inr (gs, hs)" and "distinct (map tx_id (transaction_table db))"
  shows "image_mset (history_content ext) (mset hs) = range_history ext db a b"
proof -
  let ?fs = "feegrant_events a b db" and ?ts = "filter (\<lambda>t. in_range a b (tx_height t)) (transaction_table db)"
  obtain uses ks where uses: "use_entries ?fs = Inr uses"
    and steps: "rfold (feegrant_event_step ext) ?fs ([], uses) = Inr (gs, ks)" and hs: "hs = sort_key hy_tx_id ks"
    using assms(1) by (auto simp: getFeegrantEvents_def Let_def rbind_eq_Inr)
  have "hy_tx_id ` set uses \<subseteq> fe_tx_id ` set ?fs"
    using uses rmap_inD use_entry_tx unfolding use_entries_def by (fastforce simp: image_iff)
  then have "hy_tx_id ` set ks \<subseteq> fe_tx_id ` set ?fs" by (intro event_steps_ids [OF steps]) simp_all
  moreover have "fe_tx_id ` set ?fs \<subseteq> tx_id ` set ?ts"
    using all_feegrant_events_tx by (fastforce simp: feegrant_events_eq find_Some_iff image_iff)
  ultimately have ids: "hy_tx_id ` set ks \<subseteq> set (map tx_id ?ts)" by simp
  have dist: "distinct (map tx_id ?ts)" using assms(2) by (simp add: distinct_map_filter)
  have one: "image_mset (history_content ext) (mset (of_tx (tx_id t) ks)) = tx_history ext db (tx_id t)" if "t \<in> set ?ts" for t
  proof -
    have eq: "filter (\<lambda>f. fe_tx_id f = tx_id t) ?fs = filter (\<lambda>f. fe_tx_id f = tx_id t) (all_feegrant_events db)"
      using that by (intro range_events_of_tx [OF assms(2)]) simp_all
    obtain k where "rfold (feegrant_event_step ext) (filter (\<lambda>f. fe_tx_id f = tx_id t) ?fs) ([], of_tx (tx_id t) uses) =
        Inr (k, of_tx (tx_id t) ks)" using event_steps_tx [OF steps] by blast
    with use_entries_tx [OF uses, of "tx_id t"] show ?thesis unfolding eq by (simp add: tx_history_def Let_def)
  qed
  have "image_mset (history_content ext) (mset ks) =
      (\<Sum>i\<in>#mset (map tx_id ?ts). image_mset (history_content ext) (mset (of_tx i ks)))"
    by (subst mset_by_key [OF dist ids]) (simp add: image_mset_sum)
  also have "\<dots> = (\<Sum>t\<in>#mset ?ts. image_mset (history_content ext) (mset (of_tx (tx_id t) ks)))"
    by (simp add: multiset.map_comp comp_def)
  also have "\<dots> = (\<Sum>t\<in>#mset ?ts. tx_history ext db (tx_id t))"
    by (intro arg_cong [where f = sum_mset] image_mset_cong) (use one in simp)
  finally show ?thesis by (simp add: hs range_history_def)
qed

section \<open>Every transaction once\<close>

lemma range_history_split:
  "a \<le> b \<Longrightarrow> b \<le> c \<Longrightarrow> range_history ext db a c = range_history ext db a b + range_history ext db b c"
  using filter_mset_range_split [where P = "\<lambda>_. True" and h = tx_height and M = "mset (transaction_table db)", of a b c]
  by (simp add: range_history_def)

lemma range_history_cong:
  assumes "transaction_table db' = transaction_table db" "event_table db' = event_table db" "message_table db' = message_table db"
  shows "range_history ext db' = range_history ext db"
proof -
  have "event_tx db' = event_tx db" "event_message db' = event_message db"
    by (simp_all only: fun_eq_iff event_tx_def event_message_def assms simp_thms)
  then have "all_feegrant_events db' = all_feegrant_events db" using assms by (simp only: all_feegrant_events_def)
  then have "tx_history ext db' = tx_history ext db" by (simp only: fun_eq_iff tx_history_def simp_thms)
  with assms(1) show ?thesis by (simp only: fun_eq_iff range_history_def simp_thms)
qed

lemma stored_history_content: "stored_history ext h = Inr f \<Longrightarrow> history_entry.truncate (f i) = history_content ext h"
  by (auto simp: stored_history_def history_content_def rbind_eq_Inr history_entry.truncate_def)

lemma stored_histories_content:
  assumes "rmap (stored_history ext) hs = Inr fs"
  shows "map history_entry.truncate (numbered n fs) = map (history_content ext) hs"
  using assms by (intro nth_equalityI) (auto simp: rmap_eq_Inr list_all2_conv_all_nth stored_history_content)

abbreviation feegrant_pos :: "config \<Rightarrow> 'a feegrant_db_scheme \<Rightarrow> int" where
  "feegrant_pos cfg db \<equiv> job_start cfg HANDLE_FEEGRANT (block_checkpoint db)"

abbreviation feegrant_end :: "config \<Rightarrow> 'a feegrant_db_scheme \<Rightarrow> int" where
  "feegrant_end cfg db \<equiv> job_end cfg HANDLE_FEEGRANT (block_checkpoint db)"

lemma feegrant_work_cases:
  assumes "feegrant_work ext s e db = Inr db'"
  obtains gs hs grants histories where "getFeegrantEvents ext s e db = Inr (gs, hs)"
    "rmap (stored_history ext) hs = Inr histories" "rmap (stored_grant ext) gs = Inr grants"
    "db' = insert_feegrant_histories histories (insert_feegrants grants db)"
  using assms by (auto simp: feegrant_work_def rbind_eq_Inr)

lemmas insert_defs = insert_feegrant_histories_def insert_feegrants_def saveCheckpoint_def

lemma feegrant_job_checkpoint:
  "feegrant_job cfg ext db = Inr db' \<Longrightarrow> block_checkpoint db' = checkpoint_run cfg HANDLE_FEEGRANT (block_checkpoint db)"
  unfolding feegrant_job_def by (erule range_job_checkpoint) (auto simp: insert_defs elim!: feegrant_work_cases)

lemma feegrant_job_settled:
  assumes "feegrant_job cfg ext db = Inr db'"
  shows "range_history ext db' = range_history ext db"
  using assms unfolding feegrant_job_def
proof (cases rule: range_job_cases)
  case (worked db1)
  then show ?thesis by (intro range_history_cong) (auto simp: insert_defs elim!: feegrant_work_cases)
qed simp

lemma feegrant_job_entries:
  assumes "feegrant_job cfg ext db = Inr db'" and "distinct (map tx_id (transaction_table db))"
  shows "stored_entries db' = stored_entries db +
      (if skips (job_guard HANDLE_FEEGRANT) (feegrant_pos cfg db) (feegrant_end cfg db) then 0
       else range_history ext db (feegrant_pos cfg db) (feegrant_end cfg db))"
  using assms(1) unfolding feegrant_job_def
proof (cases rule: range_job_cases)
  case (worked db1)
  from worked(2) show ?thesis
  proof (rule feegrant_work_cases)
    fix gs hs grants histories
    assume ev: "getFeegrantEvents ext (feegrant_pos cfg db) (feegrant_end cfg db) db = Inr (gs, hs)"
      and hs: "rmap (stored_history ext) hs = Inr histories"
      and db1: "db1 = insert_feegrant_histories histories (insert_feegrants grants db)"
    have "image_mset history_entry.truncate (mset (numbered (feegrant_history_seq db) histories)) =
        range_history ext db (feegrant_pos cfg db) (feegrant_end cfg db)"
      using stored_histories_content [OF hs] range_history_derived [OF ev assms(2)] by (metis mset_map)
    with worked(1) show ?thesis by (simp add: worked(3) db1 stored_entries_def insert_defs)
  qed
qed simp

lemma feegrant_guarded:
  "\<not> skips (job_guard HANDLE_FEEGRANT) (feegrant_pos cfg db) (feegrant_end cfg db) \<Longrightarrow> feegrant_pos cfg db \<le> feegrant_end cfg db"
  using not_skips_le [of "job_guard HANDLE_FEEGRANT"] by (simp add: HANDLE_FEEGRANT_def)

interpretation feegrant_history_job: appending_job cfg HANDLE_FEEGRANT "feegrant_job cfg ext"
  "\<lambda>db. distinct (map tx_id (transaction_table db))" "range_history ext" stored_entries
  for cfg ext
  by unfold_locales
    (rule feegrant_job_checkpoint feegrant_job_entries feegrant_job_settled range_history_split feegrant_guarded; assumption)+

section \<open>The update job ends what is pending\<close>

definition history_ok :: "('n, 'a) history_entry_scheme \<Rightarrow> bool" where
  "history_ok h \<longleftrightarrow>
     hy_action h \<in> {ACTION_CREATE, ACTION_REVOKE, ACTION_USE, ACTION_USE_UP} \<and> (spends (hy_action h) \<longrightarrow> hy_amount h \<noteq> None)"

lemma updates_total:
  assumes "\<forall>h\<in>set hs. history_ok h \<and> (hy_action h \<noteq> ACTION_CREATE \<longrightarrow> m (the (hy_feegrant_id h)) \<noteq> None)"
  shows "\<exists>st. rfold update_of hs (m, rv) = Inr st"
proof -
  let ?I = "\<lambda>st ys. \<forall>h\<in>set ys. history_ok h \<and> (hy_action h \<noteq> ACTION_CREATE \<longrightarrow> fst st (the (hy_feegrant_id h)) \<noteq> None)"
  have "\<exists>st'. update_of e st = Inr st' \<and> ?I st' ys" if "?I st (e # ys)" for e ys and st :: grant_updates
    using that
    by (cases st) (auto simp: update_of_def Let_def history_ok_def spends_def action_defs split: option.splits prod.splits)
  from rfold_total [of ?I "(m, rv)" hs update_of, OF _ this] assms show ?thesis by fastforce
qed

lemma patch_revokes_total: "\<forall>e\<in>set rv. \<exists>i. i \<noteq> 0 \<and> hy_feegrant_id e = Some i \<Longrightarrow> \<exists>gs'. rfold patch_revoke rv gs = Inr gs'"
  by (induction rv arbitrary: gs) (auto simp: patch_revoke_def)

lemma updateFeegrant_total:
  assumes "\<forall>h\<in>set hs. history_ok h \<and> (\<exists>i. i \<noteq> 0 \<and> hy_feegrant_id h = Some i)"
  shows "\<exists>gs'. updateFeegrant hs gs = Inr gs'"
proof (cases "hs = []")
  case False
  have "\<exists>st. rfold update_of hs (initial_updates hs, []) = Inr st"
    using assms by (intro updates_total) (auto simp: initial_updates_eq)
  then obtain m rv where fold: "rfold update_of hs (initial_updates hs, []) = Inr (m, rv)" by (metis surj_pair)
  then have "rv = filter (\<lambda>h. ends (hy_action h)) hs" using updates_spec assms by fastforce
  with assms have "\<forall>e\<in>set rv. \<exists>i. i \<noteq> 0 \<and> hy_feegrant_id e = Some i" by simp
  from patch_revokes_total [OF this] fold False show ?thesis by (simp add: updateFeegrant_def)
qed (simp add: updateFeegrant_def)

definition pending :: "'a feegrant_db_scheme \<Rightarrow> nat" where
  "pending db = length (filter (\<lambda>h. \<not> hy_processed h) (feegrant_histories db))"

definition feegrant_live :: "'a feegrant_db_scheme \<Rightarrow> bool" where
  "feegrant_live db \<longleftrightarrow> feegrant_wf db \<and> list_all history_ok (feegrant_histories db) \<and> list_all (\<lambda>g. gr_id g \<noteq> 0) (feegrants db)"

lemma history_ok_link [simp]: "history_ok (link_history gs batch h) = history_ok h"
  by (simp add: history_ok_def)

lemma pending_linked:
  assumes "feegrant_wf db" and "batch = unprocessed n db"
  shows "filter (\<lambda>h. \<not> hy_processed h) (map (link_history gs batch) (feegrant_histories db)) =
    drop n (filter (\<lambda>h. \<not> hy_processed h) (feegrant_histories db))"
proof -
  let ?hs = "feegrant_histories db" and ?P = "\<lambda>h. \<not> hy_processed h"
  have dist: "distinct (map hy_id ?hs)" using assms(1) by (simp add: feegrant_wf_def)
  have link: "link_history gs batch h = h" if "h \<in> set ?hs" "h \<notin> set batch" for h
    using batch_member [OF dist that(1), of n] that(2) by (simp add: link_history_def assms(2))
  have "?P (link_history gs batch h) \<longleftrightarrow> ?P h \<and> h \<notin> set batch" if "h \<in> set ?hs" for h
  proof (cases "h \<in> set batch")
    case True
    then show ?thesis using batch_member [OF dist that, of n] by (simp add: link_history_def assms(2) split: option.split)
  qed (simp add: link that)
  then have "filter ?P (map (link_history gs batch) ?hs) = map (link_history gs batch) (filter (\<lambda>h. ?P h \<and> h \<notin> set batch) ?hs)"
    by (simp add: filter_map comp_def cong: filter_cong)
  also have "\<dots> = filter (\<lambda>h. ?P h \<and> h \<notin> set batch) ?hs"
    by (rule map_idI) (use link in auto)
  also have "\<dots> = filter (\<lambda>h. h \<notin> set (take n (filter ?P ?hs))) (filter ?P ?hs)"
    by (simp add: assms(2) unprocessed_def conj_commute)
  also have "\<dots> = drop n (filter ?P ?hs)"
  proof -
    have "distinct (filter ?P ?hs)" using dist by (simp add: distinct_map)
    moreover have "distinct xs \<Longrightarrow> filter (\<lambda>h. h \<notin> set (take n xs)) xs = drop n xs" for xs :: "feegrant_history list"
      by (subst append_take_drop_id [of n xs, symmetric], subst filter_append)
        (auto simp: filter_id_conv filter_empty_conv dest: set_take_disj_set_drop_if_distinct)
    ultimately show ?thesis by blast
  qed
  finally show ?thesis .
qed

lemma update_feegrant_live:
  assumes "feegrant_live db"
  shows "\<exists>db'. update_feegrant_job n db = Inr db' \<and> feegrant_live db' \<and> pending db' = pending db - n"
proof -
  let ?batch = "unprocessed n db" and ?originals = "original_feegrants (unprocessed n db) db"
  note live = assms [unfolded feegrant_live_def]
  have "history_ok h \<and> (\<exists>i. i \<noteq> 0 \<and> hy_feegrant_id h = Some i)" if "h \<in> set (linked ?originals ?batch)" for h
    using that
  proof (rule set_linkedD)
    fix g e assume e: "e \<in> set ?batch" and g: "original_feegrant ?originals e = Some g" and h: "h = e\<lparr>hy_feegrant_id := Some (gr_id g)\<rparr>"
    have "history_ok e" using unprocessedD [OF e] live by (simp add: list_all_iff)
    moreover have "gr_id g \<noteq> 0" using original_feegrantD(1) [OF g] live by (simp add: original_feegrants_def list_all_iff)
    ultimately show ?thesis by (simp add: h history_ok_def)
  qed
  then obtain gs where "updateFeegrant (linked ?originals ?batch) (feegrants db) = Inr gs" using updateFeegrant_total by blast
  then obtain db' where run: "update_feegrant_job n db = Inr db'" by (cases "?batch = []") (auto simp: update_feegrant_job_def Let_def)
  from run have "feegrant_live db' \<and> pending db' = pending db - n"
  proof (cases rule: update_feegrant_job_cases)
    case idle
    then have "take n (filter (\<lambda>h. \<not> hy_processed h) (feegrant_histories db)) = []" by (simp add: unprocessed_def)
    then have "n = 0 \<or> pending db = 0" by (auto simp: pending_def)
    with idle assms show ?thesis by auto
  next
    case (update batch originals)
    have "length (filter (\<lambda>h. \<not> hy_processed h) (feegrant_histories db')) = pending db - n"
      using live by (simp add: update(5) pending_linked [OF _ update(1)] pending_def)
    with live update_feegrant_wf [OF run] show ?thesis
      by (simp add: feegrant_live_def pending_def update(4,5) list_all_iff)
  qed
  with run show ?thesis by blast
qed

text \<open>What the range job derives is fit for the update.\<close>

lemma update_first_all:
  "update_first p g xs = Inr ys \<Longrightarrow> \<forall>x\<in>set xs. P x \<Longrightarrow> (\<And>x. P x \<Longrightarrow> p x \<Longrightarrow> P (g x)) \<Longrightarrow> \<forall>y\<in>set ys. P y"
  by (induction xs arbitrary: ys) (auto simp: rbind_eq_Inr split: if_splits)

definition derived_ok :: "json history_entry \<Rightarrow> bool" where
  "derived_ok h \<longleftrightarrow>
     hy_action h \<in> {ACTION_CREATE, ACTION_REVOKE, ACTION_USE, ACTION_USE_UP} \<and>
     (spends (hy_action h) \<longrightarrow> (\<exists>s. hy_amount h = Some (JStr s)))"

lemma event_step_derived:
  assumes "feegrant_event_step ext f (gs, hs) = Inr (gs', hs')" and "\<forall>h\<in>set hs. derived_ok h"
  shows "\<forall>h\<in>set hs'. derived_ok h"
proof -
  have used: "\<forall>h\<in>set ks. derived_ok h" if "update_first (is_used_by f) (\<lambda>h. h\<lparr>hy_action := ACTION_USE_UP\<rparr>) hs = Inr ks" for ks
    using that assms(2) by (rule update_first_all) (auto simp: derived_ok_def is_used_by_def spends_def action_defs)
  have create: "history_of f ACTION_CREATE a d = Inr h \<Longrightarrow> derived_ok h" "history_of f ACTION_REVOKE a d = Inr h \<Longrightarrow> derived_ok h" for a d h
    by (auto simp: history_of_def derived_ok_def spends_def action_defs rbind_eq_Inr)
  from assms show ?thesis
    by (auto simp: feegrant_event_step_def Let_def rbind_eq_Inr dest: create used split: if_splits option.splits)
qed

lemma getFeegrantEvents_derived:
  assumes "getFeegrantEvents ext a b db = Inr (gs, hs)"
  shows "\<forall>h\<in>set hs. derived_ok h"
proof -
  obtain uses ks where uses: "use_entries (feegrant_events a b db) = Inr uses"
    and steps: "rfold (feegrant_event_step ext) (feegrant_events a b db) ([], uses) = Inr (gs, ks)" and hs: "hs = sort_key hy_tx_id ks"
    using assms by (auto simp: getFeegrantEvents_def Let_def rbind_eq_Inr)
  have "derived_ok h" if "use_entry f = Inr h" for f h
    using that by (auto simp: use_entry_def history_of_def derived_ok_def spends_def rbind_eq_Inr split: list.splits)
  then have "\<forall>h\<in>set (snd ([] :: json grant_entry list, uses)). derived_ok h"
    using rmap_inD [OF uses [unfolded use_entries_def]] by fastforce
  with steps have "\<forall>h\<in>set (snd (gs, ks)). derived_ok h"
  proof (rule rfold_invariant)
    show "\<forall>h\<in>set (snd st'). derived_ok h" if "\<forall>h\<in>set (snd st). derived_ok h" "feegrant_event_step ext f st = Inr st'" for f st st'
      using event_step_derived [of ext f "fst st" "snd st" "fst st'" "snd st'"] that by simp
  qed
  then show ?thesis by (simp add: hs)
qed

lemma stored_derived_ok:
  assumes "stored_history ext h = Inr f" and "derived_ok h"
  shows "history_ok (f i)"
proof -
  have "a \<noteq> None" if "numeric_value ext (Some (JStr s)) = Inr a" for a s
    using that by (cases "column_numeric ext (column_text ext (JStr s))") (auto simp: numeric_value_def text_value_def)
  with assms show ?thesis by (auto simp: stored_history_def derived_ok_def history_ok_def rbind_eq_Inr)
qed

lemma feegrant_job_live:
  assumes "feegrant_job cfg ext db = Inr db'" and "feegrant_live db" and "0 < feegrant_seq db"
  shows "feegrant_live db'"
proof -
  have "list_all history_ok (feegrant_histories db')"
    using assms(1) unfolding feegrant_job_def
  proof (cases rule: range_job_cases)
    case (worked db1)
    from worked(2) show ?thesis
    proof (rule feegrant_work_cases)
      fix gs hs grants histories
      assume ev: "getFeegrantEvents ext (feegrant_pos cfg db) (feegrant_end cfg db) db = Inr (gs, hs)"
        and hs: "rmap (stored_history ext) hs = Inr histories"
        and db1: "db1 = insert_feegrant_histories histories (insert_feegrants grants db)"
      have "\<forall>f\<in>set histories. \<forall>i. history_ok (f i)"
        using getFeegrantEvents_derived [OF ev] rmap_inD [OF hs] stored_derived_ok by metis
      then show ?thesis
        using assms(2) by (auto simp: worked(3) db1 insert_defs feegrant_live_def list_all_iff set_numbered)
    qed
  qed (use assms(2) in \<open>simp add: feegrant_live_def\<close>)
  moreover have "list_all (\<lambda>g. gr_id g \<noteq> 0) (feegrants db')"
    using assms(1)
  proof (rule feegrant_job_rows)
    fix gs assume "feegrants db' = feegrants db @ numbered (feegrant_seq db) gs"
      "\<forall>f\<in>set gs. \<forall>i. gr_id (f i) = i \<and> gr_status (f i) = FEEGRANT_AVAILABLE \<and> gr_revoke_tx_id (f i) = None"
    with assms(2,3) show ?thesis by (auto simp: feegrant_live_def list_all_iff set_numbered)
  qed
  ultimately show ?thesis using feegrant_job_wf [OF assms(1)] assms(2) by (simp add: feegrant_live_def)
qed

section \<open>Properties\<close>

text \<open>A chain with a grant of 100, a use of 30, and a use of 20 that exhausts it.\<close>

definition sample_feegrant_ext :: feegrant_ext where
  "sample_feegrant_ext =
     \<lparr>column_text = (\<lambda>j. case j of JStr s \<Rightarrow> s | _ \<Rightarrow> []), column_numeric = number_of_text, new_Date = (\<lambda>_. [])\<rparr>"

definition sample_fee_tx :: "int \<Rightarrow> int \<Rightarrow> string \<Rightarrow> json transaction_row" where
  "sample_fee_tx i h fee =
     \<lparr>tx_id = i, tx_height = h, tx_hash = [], tx_codespace = [], tx_code = 0, tx_gas_used = ''0'', tx_gas_wanted = ''0'',
      tx_gas_limit = ''0'', tx_fee = [\<lparr>coin_denom = ''uaura'', coin_amount = fee\<rparr>], tx_memo = [], tx_index = 0,
      tx_timestamp = [], tx_data = None\<rparr>"

definition sample_fee_event :: "int \<Rightarrow> int \<Rightarrow> nat option \<Rightarrow> string \<Rightarrow> event_row" where
  "sample_fee_event i t k type =
     \<lparr>evt_id = i, evt_tx_id = Some t, evt_tx_msg_index = k, evt_type = type, evt_block_height = t, evt_source = TX_EVENT,
      evt_attributes = [\<lparr>attr_index = 0, attr_key = Some ''granter'', attr_value = Some ''A''\<rparr>,
                        \<lparr>attr_index = 1, attr_key = Some ''grantee'', attr_value = Some ''B''\<rparr>]\<rparr>"

definition sample_allowance :: json where
  "sample_allowance =
     JObj [(''@type'', JStr BASIC_ALLOWANCE),
           (''spend_limit'', JArr [JObj [(''denom'', JStr ''uaura''), (''amount'', JStr ''100'')]])]"

definition sample_grant_message :: "json message_row" where
  "sample_grant_message =
     \<lparr>msg_id = 1, msg_tx_id = 1, msg_index = 0, msg_type = ''/cosmos.feegrant.v1beta1.MsgGrantAllowance'', msg_sender = ''A'',
      msg_content = JObj [(''allowance'', wrapped [''/cosmos.feegrant.v1beta1.AllowedMsgAllowance''] sample_allowance)],
      msg_parent_id = None\<rparr>"

definition sample_fee_config :: config where
  "sample_fee_config = \<lparr>startBlock = 0, blocksPerCall = (\<lambda>_. 10)\<rparr>"

definition sample_feegrant_db :: feegrant_db where
  "sample_feegrant_db =
     \<lparr>block_checkpoint = [''handle:transaction'' \<mapsto> 3], block_table = [],
      transaction_table = [sample_fee_tx 1 1 ''5'', sample_fee_tx 2 2 ''30'', sample_fee_tx 3 3 ''20''], transaction_seq = 4,
      event_table = [sample_fee_event 1 1 (Some 0) ''set_feegrant'', sample_fee_event 2 2 None ''use_feegrant'',
        sample_fee_event 3 3 None ''revoke_feegrant'', sample_fee_event 4 3 None ''use_feegrant''], event_seq = 5,
      message_table = [sample_grant_message], message_seq = 2,
      feegrants = [], feegrant_seq = 1, feegrant_histories = [], feegrant_history_seq = 1\<rparr>"

definition sample_granted_db :: feegrant_db where
  "sample_granted_db = projr (feegrant_job sample_fee_config sample_feegrant_ext sample_feegrant_db)"

lemma sample_granted: "feegrant_job sample_fee_config sample_feegrant_ext sample_feegrant_db = Inr sample_granted_db"
proof -
  have "\<not> isl (feegrant_job sample_fee_config sample_feegrant_ext sample_feegrant_db)" by code_simp
  then show ?thesis by (simp add: sample_granted_db_def)
qed

lemma sample_feegrant_live: "feegrant_live sample_feegrant_db" "feegrant_wf sample_granted_db" "feegrant_live sample_granted_db"
proof -
  show live: "feegrant_live sample_feegrant_db" by (simp add: feegrant_live_def feegrant_wf_def sample_feegrant_db_def)
  show "feegrant_live sample_granted_db"
    using sample_granted live by (rule feegrant_job_live) (simp add: sample_feegrant_db_def)
  then show "feegrant_wf sample_granted_db" by (simp add: feegrant_live_def)
qed

text \<open>
  However the runs of the fee grant job interleave with other jobs that leave its checkpoint, its
  history and the transactions of passed heights alone, the stored history is the one at first plus
  what the transactions between the checkpoints contribute, each on its own and exactly once.
\<close>

theorem feegrant_history_exactly_once:
  assumes "job_trace (feegrant_job cfg ext) (\<lambda>db. distinct (map tx_id (transaction_table db)))
    (settled_env (feegrant_pos cfg) stored_entries (range_history ext)) db0 db"
  shows "feegrant_pos cfg db0 \<le> feegrant_pos cfg db \<and>
    stored_entries db = stored_entries db0 + range_history ext db (feegrant_pos cfg db0) (feegrant_pos cfg db)"
  using assms by (rule feegrant_history_job.exactly_once)

theorem feegrant_history_exactly_once_witness:
  "stored_entries sample_granted_db = range_history sample_feegrant_ext sample_granted_db 0 3 \<and>
    map hy_action (feegrant_histories sample_granted_db) = [''create'', ''use'', ''useup'']"
proof -
  have "job_trace (feegrant_job sample_fee_config sample_feegrant_ext) (\<lambda>db. distinct (map tx_id (transaction_table db)))
      (settled_env (feegrant_pos sample_fee_config) stored_entries (range_history sample_feegrant_ext)) sample_feegrant_db sample_granted_db"
    by (intro trace_one sample_granted) (simp add: sample_feegrant_db_def sample_fee_tx_def)
  note once = feegrant_history_exactly_once [OF this]
  have "feegrant_pos sample_fee_config sample_feegrant_db = 0" "feegrant_pos sample_fee_config sample_granted_db = 3"
    "map hy_action (feegrant_histories sample_granted_db) = [''create'', ''use'', ''useup'']" by code_simp+
  moreover have "stored_entries sample_feegrant_db = {#}" by (simp add: stored_entries_def sample_feegrant_db_def)
  ultimately show ?thesis using once by simp
qed

text \<open>
  C11. Whatever the two fee grant jobs do, in whatever order and however often, what is left of the limit
  of a grant is what was left at first less the amounts of the uses attributed to it since: every
  use is subtracted exactly once.
\<close>

theorem feegrant_limit_accounted:
  assumes "(feegrant_step cfg ext n)\<^sup>*\<^sup>* db0 db" and "feegrant_wf db0" and "g \<in> set (feegrants db0)"
  shows "\<exists>g'\<in>set (feegrants db). gr_id g' = gr_id g \<and>
    gr_spend_limit g' =
      map_option (\<lambda>l. l - (used (gr_id g) (feegrant_histories db) - used (gr_id g) (feegrant_histories db0))) (gr_spend_limit g)"
  using assms(1)
proof (induction rule: rtranclp_induct)
  case base
  show ?case using assms(3) by (intro bexI [of _ g]) (simp_all add: option.map_ident)
next
  case (step db db')
  then obtain g1 where g1: "g1 \<in> set (feegrants db)" "gr_id g1 = gr_id g"
    "gr_spend_limit g1 = map_option (\<lambda>l. l - (used (gr_id g) (feegrant_histories db) - used (gr_id g) (feegrant_histories db0))) (gr_spend_limit g)"
    by blast
  from step.hyps(2) feegrant_steps_wf [OF step.hyps(1) assms(2)] g1(1) show ?case
  proof (rule feegrant_step_grant)
    fix g' assume "g' \<in> set (feegrants db')" "gr_id g' = gr_id g1"
      "gr_spend_limit g' = map_option (\<lambda>l. l - (used (gr_id g1) (feegrant_histories db') - used (gr_id g1) (feegrant_histories db))) (gr_spend_limit g1)"
    with g1 show ?case by (intro bexI [of _ g']) (auto simp: option.map_comp comp_def intro!: option.map_cong0)
  qed
qed

text \<open>After the update of the sample's three entries.\<close>

definition sample_updated_db :: feegrant_db where
  "sample_updated_db = projr (update_feegrant_job 5 sample_granted_db)"

lemma sample_updated: "update_feegrant_job 5 sample_granted_db = Inr sample_updated_db"
proof -
  have "\<not> isl (update_feegrant_job 5 sample_granted_db)" by code_simp
  then show ?thesis by (simp add: sample_updated_db_def)
qed

lemma sample_steps: "(feegrant_step sample_fee_config sample_feegrant_ext 5)\<^sup>*\<^sup>* sample_granted_db sample_updated_db"
  using step_feegrant_update [OF sample_updated] by (rule r_into_rtranclp)

theorem feegrant_limit_accounted_witness:
  "\<exists>g\<in>set (feegrants sample_updated_db). gr_id g = 1 \<and> gr_spend_limit g = Some (100 - 50)"
proof -
  have "map gr_id (feegrants sample_granted_db) = [1]" "map gr_spend_limit (feegrants sample_granted_db) = [Some 100]"
    "used 1 (feegrant_histories sample_updated_db) = 50" "used 1 (feegrant_histories sample_granted_db) = 0" by code_simp+
  moreover from this obtain g where "g \<in> set (feegrants sample_granted_db)" "gr_id g = 1" "gr_spend_limit g = Some 100"
    by auto
  ultimately show ?thesis using feegrant_limit_accounted [OF sample_steps sample_feegrant_live(2), of g] by simp
qed

text \<open>
  C24. In every state the fee grant jobs reach, a grant is available and has no ending transaction, or it is
  revoked or used up and has one; and a grant that has ended is never changed again.
\<close>

theorem feegrant_lifecycle:
  assumes "(feegrant_step cfg ext n)\<^sup>*\<^sup>* db0 db" and "feegrant_wf db0"
  shows "(\<forall>g\<in>set (feegrants db). grant_typed g) \<and>
    (\<forall>g\<in>set (feegrants db0). gr_status g \<noteq> FEEGRANT_AVAILABLE \<longrightarrow> g \<in> set (feegrants db))"
proof
  show "\<forall>g\<in>set (feegrants db). grant_typed g"
    using feegrant_steps_wf [OF assms] by (simp add: feegrant_wf_def list_all_iff)
  show "\<forall>g\<in>set (feegrants db0). gr_status g \<noteq> FEEGRANT_AVAILABLE \<longrightarrow> g \<in> set (feegrants db)"
    using assms(1)
  proof (induction rule: rtranclp_induct)
    case (step db db')
    then show ?case by (metis feegrant_step_grant feegrant_steps_wf [OF _ assms(2)])
  qed simp
qed

theorem feegrant_lifecycle_witness:
  "\<exists>g\<in>set (feegrants sample_updated_db). gr_status g = ''Use up'' \<and> gr_revoke_tx_id g = Some 3 \<and> grant_typed g"
proof -
  have "map gr_status (feegrants sample_updated_db) = [''Use up'']" "map gr_revoke_tx_id (feegrants sample_updated_db) = [Some 3]"
    by code_simp+
  then obtain g where "g \<in> set (feegrants sample_updated_db)" "gr_status g = ''Use up''" "gr_revoke_tx_id g = Some 3" by auto
  with feegrant_lifecycle [OF sample_steps sample_feegrant_live(2)] show ?thesis by blast
qed

text \<open>
  C31. The update job never fails on the entries that the range job derives, and it ends what is pending:
  runs of up to so many entries each, as many as the entries need, leave none.
\<close>

theorem feegrant_update_ends:
  assumes "feegrant_live db" and "pending db \<le> k * n"
  shows "\<exists>db'. ((\<lambda>db db'. update_feegrant_job n db = Inr db') ^^ k) db db' \<and> pending db' = 0 \<and> feegrant_live db'"
  using assms
proof (induction k arbitrary: db)
  case (Suc k)
  from update_feegrant_live [OF Suc.prems(1)] obtain db1 where
    run: "update_feegrant_job n db = Inr db1" "feegrant_live db1" "pending db1 = pending db - n" by blast
  with Suc.prems(2) have "pending db1 \<le> k * n" by simp
  from Suc.IH [OF run(2) this] obtain db2 where
    rest: "((\<lambda>db db'. update_feegrant_job n db = Inr db') ^^ k) db1 db2" "pending db2 = 0" "feegrant_live db2" by (elim exE conjE)
  from run(1) rest(1) have "((\<lambda>db db'. update_feegrant_job n db = Inr db') ^^ Suc k) db db2" by (rule relpowp_Suc_I2)
  with rest(2,3) show ?case by (intro exI [of _ db2] conjI)
qed auto

theorem feegrant_update_ends_witness:
  "\<exists>db. ((\<lambda>db db'. update_feegrant_job 2 db = Inr db') ^^ 2) sample_granted_db db \<and> pending sample_granted_db = 3 \<and> pending db = 0"
proof -
  have three: "pending sample_granted_db = 3" by code_simp
  then have "pending sample_granted_db \<le> 2 * 2" by simp
  from feegrant_update_ends [OF sample_feegrant_live(3) this] obtain db where
    "((\<lambda>db db'. update_feegrant_job 2 db = Inr db') ^^ 2) sample_granted_db db" "pending db = 0" by (elim exE conjE)
  with three show ?thesis by (intro exI [of _ db] conjI)
qed

section \<open>A grant renewed in one transaction\<close>

lemma fold_latest:
  fixes key :: "'x \<Rightarrow> int"
  shows "\<forall>y\<in>insert x (set xs). key y \<le> key (fold (\<lambda>current prev. if key current < key prev then prev else current) xs x)"
proof (induction xs arbitrary: x)
  case (Cons a xs)
  let ?x = "if key a < key x then x else a"
  have "key x \<le> key ?x" "key a \<le> key ?x" by auto
  with Cons.IH [of ?x] show ?case by (auto intro: order_trans)
qed simp

lemma status_after_use_up:
  "status_after i hs s = FEEGRANT_USE_UP \<Longrightarrow> s = FEEGRANT_USE_UP \<or> (\<exists>h\<in>set hs. hy_action h = ACTION_USE_UP)"
proof (induction hs arbitrary: s)
  case (Cons h hs)
  from Cons.IH [of "status_after i [h] s"] Cons.prems show ?case
    unfolding status_after_Cons [of i h hs] by (auto simp: status_after_def status_defs split: if_splits)
qed simp

lemma status_after_revoked:
  assumes "h \<in> set hs" and "hy_feegrant_id h = Some i" and "hy_action h = ACTION_REVOKE" and "\<forall>k\<in>set hs. hy_action k \<noteq> ACTION_USE_UP"
  shows "status_after i hs FEEGRANT_AVAILABLE = FEEGRANT_REVOKED"
proof -
  have "status_after i hs FEEGRANT_AVAILABLE \<noteq> FEEGRANT_USE_UP"
    using status_after_use_up [of i hs FEEGRANT_AVAILABLE] assms(4) by (auto simp: status_defs)
  moreover have "ends (hy_action h)" by (simp add: assms(3) ends_def)
  ultimately show ?thesis using status_after_cases [of i hs FEEGRANT_AVAILABLE] assms(1,2) by blast
qed

lemma original_feegrant_latest:
  assumes "new \<in> set gs" and "gr_grantee new = hy_grantee e" and "gr_granter new = hy_granter e" and "init_tx_or_0 new \<le> hy_tx_id e"
    and "\<forall>g\<in>set gs. gr_grantee g = hy_grantee e \<and> gr_granter g = hy_granter e \<and> g \<noteq> new \<longrightarrow> init_tx_or_0 g < init_tx_or_0 new"
  shows "original_feegrant gs e = Some new"
proof -
  let ?fs = "filter (\<lambda>x. gr_grantee x = hy_grantee e \<and> gr_granter x = hy_granter e \<and> init_tx_or_0 x \<le> hy_tx_id e) gs"
  have new: "new \<in> set ?fs" using assms(1-4) by simp
  then obtain x xs where fs: "?fs = x # xs" by (cases ?fs) auto
  let ?g = "fold (\<lambda>current prev. if init_tx_or_0 current < init_tx_or_0 prev then prev else current) xs x"
  have g: "?g \<in> set ?fs" unfolding fs using fold_choose_in by simp
  have "init_tx_or_0 new \<le> init_tx_or_0 ?g" using fold_latest [of x xs init_tx_or_0] new unfolding fs by auto
  moreover have "init_tx_or_0 ?g < init_tx_or_0 new" if "?g \<noteq> new" using g assms(5) that by (simp only: set_filter) blast
  ultimately have "?g = new" by linarith
  then show ?thesis by (simp add: original_feegrant_def fs)
qed

text \<open>
  Messages that revoke a grant and grant it again in one transaction: the revocation is attributed to
  the new grant, since only the transaction is compared and not the order of the messages. The new
  grant becomes revoked and the old one stays available.
\<close>

theorem renewed_grant_revoked:
  assumes "feegrant_live db" and "old \<in> set (feegrants db)" and "new \<in> set (feegrants db)"
    and "gr_status old = FEEGRANT_AVAILABLE" and "gr_status new = FEEGRANT_AVAILABLE"
    and "gr_granter old = hy_granter e" and "gr_grantee old = hy_grantee e"
    and "gr_granter new = hy_granter e" and "gr_grantee new = hy_grantee e"
    and "init_tx_or_0 old < hy_tx_id e" and "gr_init_tx_id new = Some (hy_tx_id e)"
    and "\<forall>g\<in>set (feegrants db). gr_status g = FEEGRANT_AVAILABLE \<and> gr_granter g = hy_granter e \<and> gr_grantee g = hy_grantee e \<longrightarrow> g = old \<or> g = new"
    and "e \<in> set (unprocessed n db)" and "hy_action e = ACTION_REVOKE"
    and "\<forall>h\<in>set (unprocessed n db). h = e \<or> hy_action h = ACTION_CREATE"
  shows "\<exists>db'. update_feegrant_job n db = Inr db' \<and> old \<in> set (feegrants db') \<and>
    (\<exists>g\<in>set (feegrants db'). gr_id g = gr_id new \<and> gr_status g = FEEGRANT_REVOKED)"
proof -
  let ?batch = "unprocessed n db" and ?gs = "original_feegrants (unprocessed n db) db"
  from update_feegrant_live [OF assms(1)] obtain db' where run: "update_feegrant_job n db = Inr db'" by blast
  have init: "init_tx_or_0 new = hy_tx_id e" using assms(11) by (simp add: init_tx_or_0_def)
  have "(hy_granter e, hy_grantee e) \<in> set (map (\<lambda>h. (hy_granter h, hy_grantee h)) ?batch)" using assms(13) by force
  then have "new \<in> set ?gs" using assms(3,5,8,9) by (simp add: original_feegrants_def)
  moreover have "\<forall>g\<in>set ?gs. gr_grantee g = hy_grantee e \<and> gr_granter g = hy_granter e \<and> g \<noteq> new \<longrightarrow> init_tx_or_0 g < init_tx_or_0 new"
    using assms(10,12) init by (auto simp: original_feegrants_def)
  ultimately have orig: "original_feegrant ?gs e = Some new"
    using assms(8,9) init by (intro original_feegrant_latest) simp_all
  have neq: "gr_id old \<noteq> gr_id new"
    using assms(1-3,10) init by (auto simp: feegrant_live_def feegrant_wf_def distinct_map dest: inj_onD)
  have only: "h = e\<lparr>hy_feegrant_id := Some (gr_id new)\<rparr>" if "h \<in> set (linked ?gs ?batch)" "hy_action h \<noteq> ACTION_CREATE" for h
    using that(1) by (rule set_linkedD) (use that(2) assms(15) orig in auto)
  have mine: "e\<lparr>hy_feegrant_id := Some (gr_id new)\<rparr> \<in> set (linked ?gs ?batch)"
    using assms(13) orig by (auto simp: linked_def set_map_filter_Some intro!: bexI [of _ e])
  have "\<not> concerns (gr_id old) (linked ?gs ?batch)" using only neq by (fastforce simp: concerns_def)
  then have old: "updated_grant (linked ?gs ?batch) old = old" by (simp add: updated_grant_def)
  have "concerns (gr_id new) (linked ?gs ?batch)"
    using mine assms(14) by (auto simp: concerns_def action_defs intro!: bexI [of _ "e\<lparr>hy_feegrant_id := Some (gr_id new)\<rparr>"])
  moreover have "status_after (gr_id new) (linked ?gs ?batch) FEEGRANT_AVAILABLE = FEEGRANT_REVOKED"
  proof (rule status_after_revoked [OF mine])
    show "\<forall>k\<in>set (linked ?gs ?batch). hy_action k \<noteq> ACTION_USE_UP"
    proof
      fix k assume k: "k \<in> set (linked ?gs ?batch)"
      show "hy_action k \<noteq> ACTION_USE_UP"
      proof (cases "hy_action k = ACTION_CREATE")
        case False
        from only [OF k this] assms(14) show ?thesis by (simp add: action_defs)
      qed (simp add: action_defs)
    qed
  qed (simp_all add: assms(14))
  ultimately have "gr_status (updated_grant (linked ?gs ?batch) new) = FEEGRANT_REVOKED" by (simp add: updated_grant_def)
  moreover from run have "feegrants db' = map (updated_grant (linked ?gs ?batch)) (feegrants db)"
    by (rule update_feegrant_job_cases) (use assms(13) in auto)
  ultimately have "old \<in> set (feegrants db')" "updated_grant (linked ?gs ?batch) new \<in> set (feegrants db')"
    using old assms(2,3) by (auto simp: image_iff intro: bexI [of _ old])
  with run \<open>gr_status (updated_grant (linked ?gs ?batch) new) = FEEGRANT_REVOKED\<close> show ?thesis
    by (intro exI [of _ db'] conjI bexI [of _ "updated_grant (linked ?gs ?batch) new"]) simp_all
qed

text \<open>Grant 1 of transaction 1, then a transaction 2 that revokes it and grants it again.\<close>

definition sample_grant :: "int \<Rightarrow> feegrant" where
  "sample_grant i =
     \<lparr>gr_init_tx_id = Some i, gr_granter = ''A'', gr_grantee = ''B'', gr_type = BASIC_ALLOWANCE, gr_expiration = None,
      gr_status = FEEGRANT_AVAILABLE, gr_spend_limit = Some 100, gr_denom = Some ''uaura'', gr_id = i, gr_revoke_tx_id = None\<rparr>"

definition sample_entry :: "int \<Rightarrow> string \<Rightarrow> feegrant_history" where
  "sample_entry i action =
     \<lparr>hy_tx_id = 2, hy_action = action, hy_amount = None, hy_granter = ''A'', hy_grantee = ''B'', hy_denom = None,
      hy_id = i, hy_feegrant_id = None, hy_processed = False\<rparr>"

definition sample_renewal_db :: feegrant_db where
  "sample_renewal_db = sample_feegrant_db\<lparr>feegrants := [sample_grant 1, sample_grant 2], feegrant_seq := 3,
     feegrant_histories := [sample_entry 2 ACTION_REVOKE, sample_entry 3 ACTION_CREATE], feegrant_history_seq := 4\<rparr>"

theorem renewed_grant_revoked_witness:
  "\<exists>db'. update_feegrant_job 10 sample_renewal_db = Inr db' \<and> sample_grant 1 \<in> set (feegrants db') \<and>
    (\<exists>g\<in>set (feegrants db'). gr_id g = 2 \<and> gr_status g = FEEGRANT_REVOKED)"
proof -
  have "feegrant_live sample_renewal_db"
    by (simp add: feegrant_live_def feegrant_wf_def sample_renewal_db_def sample_feegrant_db_def sample_grant_def sample_entry_def
        grant_typed_def history_ok_def spends_def action_defs status_defs)
  moreover have "unprocessed 10 sample_renewal_db = [sample_entry 2 ACTION_REVOKE, sample_entry 3 ACTION_CREATE]"
    by (simp add: unprocessed_def sample_renewal_db_def sample_entry_def)
  ultimately show ?thesis
    using renewed_grant_revoked [of sample_renewal_db "sample_grant 1" "sample_grant 2" "sample_entry 2 ACTION_REVOKE" 10]
    by (simp add: sample_renewal_db_def sample_grant_def sample_entry_def init_tx_or_0_def)
qed

section \<open>A grant inside an authorised execution\<close>

text \<open>
  A grant made inside an authorised execution stops the fee grant job: the event belongs to the
  execution, whose content has no allowance, and reading its type throws. Every run whose range has
  such an event fails, so the checkpoint never passes it.
\<close>

theorem authorised_grant_blocks:
  assumes "f \<in> set (feegrant_events (feegrant_pos cfg db) (feegrant_end cfg db) db)"
    and "evt_type (fe_event f) = ''set_feegrant''" and "fe_message f = Some m"
    and "json_get (msg_content m) ''allowance'' = Inr None"
    and "feegrant_pos cfg db < feegrant_end cfg db"
  shows "\<exists>e. feegrant_job cfg ext db = Inl e"
proof -
  have step: "isl (feegrant_event_step ext f st)" for st
    using assms(2-4) by (cases st) (simp add: feegrant_event_step_def getCreateFeegrantInfo_def)
  have "isl (getFeegrantEvents ext (feegrant_pos cfg db) (feegrant_end cfg db) db)"
  proof (cases "use_entries (feegrant_events (feegrant_pos cfg db) (feegrant_end cfg db) db)")
    case (Inr uses)
    from rfold_throws [where f = "feegrant_event_step ext" and s = "([], uses)", OF assms(1) step] show ?thesis
      by (auto simp: getFeegrantEvents_def Inr isl_def)
  qed (simp add: getFeegrantEvents_def)
  then have "isl (feegrant_work ext (feegrant_pos cfg db) (feegrant_end cfg db) db)" by (auto simp: feegrant_work_def isl_def)
  with assms(5) have "isl (feegrant_job cfg ext db)"
    by (simp add: feegrant_job_def range_job_isl skips_def HANDLE_FEEGRANT_def)
  then show ?thesis by (simp add: isl_def)
qed

definition sample_exec_db :: feegrant_db where
  "sample_exec_db = sample_feegrant_db\<lparr>message_table := [sample_grant_message\<lparr>
     msg_type := ''/cosmos.authz.v1beta1.MsgExec'', msg_content := JObj [(''msgs'', JArr [msg_content sample_grant_message])]\<rparr>]\<rparr>"

theorem authorised_grant_blocks_witness: "\<exists>e. feegrant_job sample_fee_config sample_feegrant_ext sample_exec_db = Inl e"
proof -
  let ?f = "hd (feegrant_events 0 3 sample_exec_db)"
  have at: "feegrant_pos sample_fee_config sample_exec_db = 0" "feegrant_end sample_fee_config sample_exec_db = 3" by code_simp+
  have "feegrant_events 0 3 sample_exec_db \<noteq> []" "evt_type (fe_event ?f) = ''set_feegrant''"
    "map_option (\<lambda>m. json_get (msg_content m) ''allowance'') (fe_message ?f) = Some (Inr None)" by code_simp+
  with authorised_grant_blocks [of ?f sample_fee_config sample_exec_db] at show ?thesis by auto
qed

end
