(* ===== verification/Ibc.thy ===== *)
theory Ibc
  imports Chain_Db Json
begin

text \<open>
  Inter-blockchain communication: the jobs of \<^verbatim>\<open>src/services/ibc\<close> that store clients, connections and
  channels (\<^verbatim>\<open>crawl_ibc_tao.service.ts\<close>), the packets of the channels (\<^verbatim>\<open>crawl_ibc_app.service.ts\<close>) and the
  token transfers the packets carry (\<^verbatim>\<open>crawl_ibc_ics20.service.ts\<close>), with their models.
\<close>

section \<open>Tables\<close>

record ibc_client =
  icl_id :: int
  icl_client_id :: string
  icl_counterparty_chain_id :: string
  icl_client_state :: json
  icl_consensus_state :: json
  icl_client_type :: string

record ibc_connection =
  icn_id :: int
  icn_ibc_client_id :: int
  icn_connection_id :: string
  icn_counterparty_client_id :: string
  icn_counterparty_connection_id :: string

record ibc_channel =
  ich_id :: int
  ich_ibc_connection_id :: int
  ich_channel_id :: string
  ich_port_id :: string
  ich_counterparty_port_id :: string
  ich_counterparty_channel_id :: string
  ich_state :: string

record ibc_message =
  im_id :: int
  im_transaction_message_id :: int
  im_src_channel_id :: string
  im_src_port_id :: string
  im_dst_channel_id :: string
  im_dst_port_id :: string
  im_type :: string
  im_sequence :: int
  im_sequence_key :: string
  im_data :: "json option"
  im_tx_hash :: string

record ibc_ics20 =
  is_id :: int
  is_ibc_message_id :: int
  is_sender :: "string option"
  is_receiver :: string
  is_amount :: int
  is_denom :: string
  is_status :: string
  is_channel_id :: string
  is_sequence_key :: string
  is_type :: string
  is_memo :: "string option"
  is_start_time :: "string option"
  is_finish_time :: "string option"

record ibc_db = "json chain_db" +
  ibc_clients :: "ibc_client list"
  ibc_client_seq :: int
  ibc_connections :: "ibc_connection list"
  ibc_connection_seq :: int
  ibc_channels :: "ibc_channel list"
  ibc_channel_seq :: int
  ibc_messages :: "ibc_message list"
  ibc_message_seq :: int
  ibc_ics20s :: "ibc_ics20 list"
  ibc_ics20_seq :: int

definition CHANNEL_OPEN :: string where "CHANNEL_OPEN = ''OPEN''"
definition CHANNEL_CLOSE :: string where "CHANNEL_CLOSE = ''CLOSE''"

definition SEND_PACKET :: string where "SEND_PACKET = ''send_packet''"
definition RECV_PACKET :: string where "RECV_PACKET = ''recv_packet''"
definition ACKNOWLEDGE_PACKET :: string where "ACKNOWLEDGE_PACKET = ''acknowledge_packet''"
definition TIMEOUT_PACKET :: string where "TIMEOUT_PACKET = ''timeout_packet''"

definition STATUS_TIMEOUT :: string where "STATUS_TIMEOUT = ''timeout''"
definition STATUS_ACK_ERROR :: string where "STATUS_ACK_ERROR = ''ack_error''"
definition STATUS_ACK_SUCCESS :: string where "STATUS_ACK_SUCCESS = ''ack_success''"
definition STATUS_ONGOING :: string where "STATUS_ONGOING = ''ongoing''"

definition FUNGIBLE_TOKEN_PACKET :: string where "FUNGIBLE_TOKEN_PACKET = ''fungible_token_packet''"
definition DENOM_TRACE :: string where "DENOM_TRACE = ''denomination_trace''"

text \<open>
  \<open>fromUtf8(fromHex(\<dots>))\<close> of \<^verbatim>\<open>@cosmjs/encoding\<close>, the text a \<^verbatim>\<open>jsonb\<close> column accepts, and the port of
  token transfers in the configuration.
\<close>

record ibc_ext = column_ext +
  hex_utf8 :: "string \<Rightarrow> string option"
  jsonb_value :: "string \<Rightarrow> json option"
  ics20_port :: string

definition unique_violation :: js_error where
  "unique_violation = DbError ''duplicate key value violates unique constraint''"

section \<open>Joins\<close>

text \<open>
  \<^verbatim>\<open>Event.query().joinRelated('message')\<close>: a row for every message with the transaction and the index of
  the event.
\<close>

definition joined_messages :: "('c, 'a) chain_db_scheme \<Rightarrow> event_row \<Rightarrow> 'c message_row list" where
  "joined_messages db e =
     filter (\<lambda>m. evt_tx_id e = Some (msg_tx_id m) \<and> evt_tx_msg_index e = Some (msg_index m)) (message_table db)"

definition events_with_message ::
  "string list \<Rightarrow> int \<Rightarrow> int \<Rightarrow> ('c, 'a) chain_db_scheme \<Rightarrow> (event_row \<times> 'c message_row) list"
where
  "events_with_message types startHeight endHeight db =
     concat (map (\<lambda>e. map (Pair e) (joined_messages db e))
       (filter (\<lambda>e. evt_type e \<in> set types \<and> in_range startHeight endHeight (evt_block_height e)) (event_table db)))"

definition events_of_message :: "('c, 'a) chain_db_scheme \<Rightarrow> 'c message_row \<Rightarrow> event_row list" where
  "events_of_message db m =
     filter (\<lambda>e. evt_tx_id e = Some (msg_tx_id m) \<and> evt_tx_msg_index e = Some (msg_index m)) (event_table db)"

abbreviation event_attr :: "event_row \<Rightarrow> string \<Rightarrow> string option" where
  "event_attr e key \<equiv> getAttributeFrom (evt_attributes e) key"

text \<open>The query builder rejects a list of values with one that is undefined.\<close>

definition bound :: "string option list \<Rightarrow> string list res" where
  "bound vs = rmap (\<lambda>v. case v of None \<Rightarrow> Inl (JsError ''Undefined binding(s) detected'') | Some s \<Rightarrow> Inr s) vs"

section \<open>Clients, connections and channels\<close>

text \<open>A field declared as an object.\<close>

definition as_object :: "json option \<Rightarrow> json res" where
  "as_object v = (case v of Some (JObj kvs) \<Rightarrow> Inr (JObj kvs) | _ \<Rightarrow> Inl (ValidationError ''must be object''))"

definition new_client :: "event_row \<times> json message_row \<Rightarrow> (int \<Rightarrow> ibc_client) res" where
  "new_client em =
     (case em of (e, m) \<Rightarrow>
        rbind (json_get (msg_content m) ''client_state'') (\<lambda>client_state.
        rbind (rbind (need client_state) (\<lambda>s. json_get s ''chain_id'')) (\<lambda>chain_id.
        rbind (json_get (msg_content m) ''consensus_state'') (\<lambda>consensus_state.
        rbind (required ''client_id'' (event_attr e ''client_id'')) (\<lambda>client_id.
        rbind (as_string chain_id) (\<lambda>chain_id.
        rbind (as_object client_state) (\<lambda>client_state.
        rbind (as_object consensus_state) (\<lambda>consensus_state.
        rbind (required ''client_type'' (event_attr e ''client_type'')) (\<lambda>client_type.
          Inr (\<lambda>newId. \<lparr>icl_id = newId, icl_client_id = client_id, icl_counterparty_chain_id = chain_id,
            icl_client_state = client_state, icl_consensus_state = consensus_state, icl_client_type = client_type\<rparr>))))))))))"

definition insert_client :: "(int \<Rightarrow> ibc_client) \<Rightarrow> 'a ibc_db_scheme \<Rightarrow> 'a ibc_db_scheme res" where
  "insert_client f db =
     (let row = f (ibc_client_seq db) in
      if icl_client_id row \<in> set (map icl_client_id (ibc_clients db)) then Inl unique_violation
      else Inr (db\<lparr>ibc_clients := ibc_clients db @ [row], ibc_client_seq := ibc_client_seq db + 1\<rparr>))"

definition handleNewIbcClient :: "(event_row \<times> json message_row) list \<Rightarrow> 'a ibc_db_scheme \<Rightarrow> 'a ibc_db_scheme res" where
  "handleNewIbcClient events db = rbind (rmap new_client events) (\<lambda>rows. rfold insert_client rows db)"

definition new_connection :: "(string \<rightharpoonup> ibc_client) \<Rightarrow> event_row \<Rightarrow> (int \<Rightarrow> ibc_connection) res" where
  "new_connection ibcClientsByClientId e =
     rbind (need (Option.bind (event_attr e ''client_id'') ibcClientsByClientId)) (\<lambda>client.
     rbind (required ''connection_id'' (event_attr e ''connection_id'')) (\<lambda>connection_id.
     rbind (required ''counterparty_client_id'' (event_attr e ''counterparty_client_id'')) (\<lambda>cp_client_id.
     rbind (required ''counterparty_connection_id'' (event_attr e ''counterparty_connection_id'')) (\<lambda>cp_connection_id.
       Inr (\<lambda>newId. \<lparr>icn_id = newId, icn_ibc_client_id = icl_id client, icn_connection_id = connection_id,
         icn_counterparty_client_id = cp_client_id, icn_counterparty_connection_id = cp_connection_id\<rparr>)))))"

definition insert_connection :: "(int \<Rightarrow> ibc_connection) \<Rightarrow> 'a ibc_db_scheme \<Rightarrow> 'a ibc_db_scheme res" where
  "insert_connection f db =
     (let row = f (ibc_connection_seq db) in
      if icn_connection_id row \<in> set (map icn_connection_id (ibc_connections db)) then Inl unique_violation
      else Inr (db\<lparr>ibc_connections := ibc_connections db @ [row], ibc_connection_seq := ibc_connection_seq db + 1\<rparr>))"

definition handleNewIbcConnection :: "event_row list \<Rightarrow> 'a ibc_db_scheme \<Rightarrow> 'a ibc_db_scheme res" where
  "handleNewIbcConnection events db =
     rbind (bound (map (\<lambda>e. event_attr e ''client_id'') events)) (\<lambda>ids.
     let ibcClientsByClientId = keyBy icl_client_id (filter (\<lambda>c. icl_client_id c \<in> set ids) (ibc_clients db)) in
     rbind (rmap (new_connection ibcClientsByClientId) events) (\<lambda>rows. rfold insert_connection rows db))"

definition new_channel :: "(string \<rightharpoonup> ibc_connection) \<Rightarrow> event_row \<Rightarrow> (int \<Rightarrow> ibc_channel) res" where
  "new_channel ibcConnectionsByConnectionId e =
     rbind (need (Option.bind (event_attr e ''connection_id'') ibcConnectionsByConnectionId)) (\<lambda>conn.
     rbind (required ''channel_id'' (event_attr e ''channel_id'')) (\<lambda>channel_id.
     rbind (required ''port_id'' (event_attr e ''port_id'')) (\<lambda>port_id.
     rbind (required ''counterparty_port_id'' (event_attr e ''counterparty_port_id'')) (\<lambda>cp_port_id.
     rbind (required ''counterparty_channel_id'' (event_attr e ''counterparty_channel_id'')) (\<lambda>cp_channel_id.
       Inr (\<lambda>newId. \<lparr>ich_id = newId, ich_ibc_connection_id = icn_id conn, ich_channel_id = channel_id, ich_port_id = port_id,
         ich_counterparty_port_id = cp_port_id, ich_counterparty_channel_id = cp_channel_id, ich_state = CHANNEL_OPEN\<rparr>))))))"

definition insert_channel :: "(int \<Rightarrow> ibc_channel) \<Rightarrow> 'a ibc_db_scheme \<Rightarrow> 'a ibc_db_scheme res" where
  "insert_channel f db =
     (let row = f (ibc_channel_seq db) in
      if ich_channel_id row \<in> set (map ich_channel_id (ibc_channels db)) then Inl unique_violation
      else Inr (db\<lparr>ibc_channels := ibc_channels db @ [row], ibc_channel_seq := ibc_channel_seq db + 1\<rparr>))"

definition handleNewIbcChannel :: "event_row list \<Rightarrow> 'a ibc_db_scheme \<Rightarrow> 'a ibc_db_scheme res" where
  "handleNewIbcChannel events db =
     rbind (bound (map (\<lambda>e. event_attr e ''connection_id'') events)) (\<lambda>ids.
     let ibcConnectionsByConnectionId = keyBy icn_connection_id (filter (\<lambda>c. icn_connection_id c \<in> set ids) (ibc_connections db)) in
     rbind (rmap (new_channel ibcConnectionsByConnectionId) events) (\<lambda>rows. rfold insert_channel rows db))"

definition close_channel :: "string \<Rightarrow> ibc_channel \<Rightarrow> ibc_channel" where
  "close_channel channelId ch = (if ich_channel_id ch = channelId then ch\<lparr>ich_state := CHANNEL_CLOSE\<rparr> else ch)"

definition handleCloseIbcChannel :: "event_row list \<Rightarrow> 'a ibc_db_scheme \<Rightarrow> 'a ibc_db_scheme res" where
  "handleCloseIbcChannel events db =
     rbind (rmap (\<lambda>e. if truthy (event_attr e ''channel_id'') then Inr (the (event_attr e ''channel_id''))
                      else Inl (JsError ''Event close channel not found channelId'')) events) (\<lambda>ids.
       Inr (db\<lparr>ibc_channels := fold (\<lambda>i. map (close_channel i)) ids (ibc_channels db)\<rparr>))"

definition tao_types :: "string list" where
  "tao_types = [''create_client'', ''connection_open_ack'', ''connection_open_confirm'', ''channel_open_ack'',
     ''channel_open_confirm'', ''channel_close_init'', ''channel_close_confirm'', ''channel_close'']"

definition of_types :: "string list \<Rightarrow> (event_row \<times> 'm) list \<Rightarrow> (event_row \<times> 'm) list" where
  "of_types types = filter (\<lambda>(e, _). evt_type e \<in> set types)"

definition CRAWL_IBC_TAO :: job_decl where
  "CRAWL_IBC_TAO =
     \<lparr>job_name = ''crawl:ibc-tao'', lastHeightJobNames = [''handle:transaction''],
      configName = Some ''crawlIbcTao'', job_guard = SkipGT\<rparr>"

definition ibc_tao_work :: "int \<Rightarrow> int \<Rightarrow> 'a ibc_db_scheme \<Rightarrow> 'a ibc_db_scheme res" where
  "ibc_tao_work startHeight endHeight db =
     (let events = events_with_message tao_types startHeight endHeight db in
      rbind (handleNewIbcClient (of_types [''create_client''] events) db) (\<lambda>db1.
      rbind (handleNewIbcConnection (map fst (of_types [''connection_open_confirm'', ''connection_open_ack''] events)) db1) (\<lambda>db2.
      rbind (handleNewIbcChannel (map fst (of_types [''channel_open_ack'', ''channel_open_confirm''] events)) db2) (\<lambda>db3.
        handleCloseIbcChannel
          (map fst (of_types [''channel_close'', ''channel_close_confirm'', ''channel_close_init''] events)) db3))))"

definition crawlIbcTao :: "config \<Rightarrow> 'a ibc_db_scheme \<Rightarrow> 'a ibc_db_scheme res" where
  "crawlIbcTao cfg = range_job cfg CRAWL_IBC_TAO ibc_tao_work"

section \<open>Packets\<close>

definition CRAWL_IBC_APP :: job_decl where
  "CRAWL_IBC_APP =
     \<lparr>job_name = ''crawl:ibc-app'', lastHeightJobNames = [''crawl:ibc-tao''],
      configName = Some ''crawlIbcTao'', job_guard = SkipGT\<rparr>"

definition packet_types :: "string list" where
  "packet_types = [ACKNOWLEDGE_PACKET, RECV_PACKET, SEND_PACKET, TIMEOUT_PACKET]"

text \<open>The events of packets joined with their messages and the transactions of these.\<close>

definition packet_events ::
  "int \<Rightarrow> int \<Rightarrow> (json, 'a) chain_db_scheme \<Rightarrow> (event_row \<times> json message_row \<times> json transaction_row) list"
where
  "packet_events startHeight endHeight db =
     List.map_filter (\<lambda>(e, m). map_option (\<lambda>t. (e, m, t)) (message_tx db m))
       (events_with_message packet_types startHeight endHeight db)"

text \<open>\<^verbatim>\<open>`${srcChannel}.${srcPort}.${dstChannel}.${dstPort}.${sequence}`\<close>\<close>

definition sequence_key :: "string \<Rightarrow> string \<Rightarrow> string \<Rightarrow> string \<Rightarrow> string \<Rightarrow> string" where
  "sequence_key srcChannel srcPort dstChannel dstPort sequence =
     srcChannel @ ''.'' @ srcPort @ ''.'' @ dstChannel @ ''.'' @ dstPort @ ''.'' @ sequence"

definition packet_data :: "ibc_ext \<Rightarrow> string option \<Rightarrow> json option res" where
  "packet_data ext dataHex =
     (if truthy dataHex
      then (case hex_utf8 ext (the dataHex) of
              None \<Rightarrow> Inl (JsError ''Invalid hex string'')
            | Some s \<Rightarrow> (case jsonb_value ext s of None \<Rightarrow> Inl (DbError ''invalid input syntax for type json'') | Some j \<Rightarrow> Inr (Some j)))
      else Inr None)"

definition ibc_message_of ::
  "ibc_ext \<Rightarrow> event_row \<times> json message_row \<times> json transaction_row \<Rightarrow> (int \<Rightarrow> ibc_message) res"
where
  "ibc_message_of ext emt =
     (case emt of (e, m, t) \<Rightarrow>
        rbind (packet_data ext (event_attr e ''packet_data_hex'')) (\<lambda>data.
        rbind (required ''src_channel_id'' (event_attr e ''packet_src_channel'')) (\<lambda>srcChannel.
        rbind (required ''src_port_id'' (event_attr e ''packet_src_port'')) (\<lambda>srcPort.
        rbind (required ''dst_channel_id'' (event_attr e ''packet_dst_channel'')) (\<lambda>dstChannel.
        rbind (required ''dst_port_id'' (event_attr e ''packet_dst_port'')) (\<lambda>dstPort.
        rbind (required ''sequence'' (event_attr e ''packet_sequence'')) (\<lambda>sequence.
        rbind (as_number (Some (JStr sequence))) (\<lambda>n.
          Inr (\<lambda>newId. \<lparr>im_id = newId, im_transaction_message_id = msg_id m,
            im_src_channel_id = srcChannel, im_src_port_id = srcPort, im_dst_channel_id = dstChannel, im_dst_port_id = dstPort,
            im_type = evt_type e, im_sequence = n,
            im_sequence_key = sequence_key srcChannel srcPort dstChannel dstPort sequence,
            im_data = data, im_tx_hash = tx_hash t\<rparr>)))))))))"

definition insert_ibc_messages :: "(int \<Rightarrow> ibc_message) list \<Rightarrow> 'a ibc_db_scheme \<Rightarrow> 'a ibc_db_scheme" where
  "insert_ibc_messages rows db =
     db\<lparr>ibc_messages := ibc_messages db @ numbered (ibc_message_seq db) rows,
        ibc_message_seq := ibc_message_seq db + int (length rows)\<rparr>"

definition handleIbcMessage ::
  "ibc_ext \<Rightarrow> (event_row \<times> json message_row \<times> json transaction_row) list \<Rightarrow> 'a ibc_db_scheme \<Rightarrow> 'a ibc_db_scheme res"
where
  "handleIbcMessage ext events db =
     rbind (rmap (ibc_message_of ext) events) (\<lambda>ibcMessages. Inr (insert_ibc_messages ibcMessages db))"

definition crawlIbcApp :: "config \<Rightarrow> ibc_ext \<Rightarrow> 'a ibc_db_scheme \<Rightarrow> 'a ibc_db_scheme res" where
  "crawlIbcApp cfg ext =
     range_job cfg CRAWL_IBC_APP (\<lambda>startHeight endHeight db. handleIbcMessage ext (packet_events startHeight endHeight db) db)"

section \<open>Token transfers\<close>

definition CRAWL_IBC_ICS20 :: job_decl where
  "CRAWL_IBC_ICS20 =
     \<lparr>job_name = ''crawl:ibc-ics20'', lastHeightJobNames = [''crawl:ibc-app''],
      configName = Some ''crawlIbcIcs20'', job_guard = SkipGT\<rparr>"

text \<open>The packets of a kind in a range of heights, with their message and transaction, ordered by message.\<close>

definition packets ::
  "(ibc_message \<Rightarrow> bool) \<Rightarrow> int \<Rightarrow> int \<Rightarrow> 'a ibc_db_scheme \<Rightarrow> (ibc_message \<times> json message_row \<times> json transaction_row) list"
where
  "packets p startHeight endHeight db =
     sort_key (\<lambda>(_, m, _). msg_id m)
       (List.map_filter (\<lambda>im.
          case find (\<lambda>m. msg_id m = im_transaction_message_id im) (message_table db) of
            None \<Rightarrow> None
          | Some m \<Rightarrow>
              (case message_tx db m of
                 None \<Rightarrow> None
               | Some t \<Rightarrow> if p im \<and> in_range startHeight endHeight (tx_height t) then Some (im, m, t) else None))
         (ibc_messages db))"

definition numeric_amount :: "ibc_ext \<Rightarrow> string \<Rightarrow> int res" where
  "numeric_amount ext s =
     (case column_numeric ext s of None \<Rightarrow> Inl (DbError ''invalid input syntax for type numeric'') | Some n \<Rightarrow> Inr n)"

definition ics20_send_row ::
  "ibc_ext \<Rightarrow> ibc_message \<times> json message_row \<times> json transaction_row \<Rightarrow> (int \<Rightarrow> ibc_ics20) res"
where
  "ics20_send_row ext imt =
     (case imt of (im, _, t) \<Rightarrow>
        rbind (as_string (json_opt (im_data im) ''receiver'')) (\<lambda>receiver.
        rbind (as_string (json_opt (im_data im) ''amount'')) (\<lambda>amount.
        rbind (as_string (json_opt (im_data im) ''denom'')) (\<lambda>denom.
        rbind (numeric_amount ext amount) (\<lambda>n.
          Inr (\<lambda>newId. \<lparr>is_id = newId, is_ibc_message_id = im_id im,
            is_sender = text_value ext (json_opt (im_data im) ''sender''), is_receiver = receiver, is_amount = n, is_denom = denom,
            is_status = STATUS_ONGOING, is_channel_id = im_src_channel_id im, is_sequence_key = im_sequence_key im,
            is_type = im_type im, is_memo = text_value ext (json_opt (im_data im) ''memo''),
            is_start_time = Some (tx_timestamp t), is_finish_time = None\<rparr>))))))"

text \<open>The column of the message is unique.\<close>

definition insert_ics20 :: "(int \<Rightarrow> ibc_ics20) \<Rightarrow> 'a ibc_db_scheme \<Rightarrow> 'a ibc_db_scheme res" where
  "insert_ics20 f db =
     (let row = f (ibc_ics20_seq db) in
      if is_ibc_message_id row \<in> set (map is_ibc_message_id (ibc_ics20s db)) then Inl unique_violation
      else Inr (db\<lparr>ibc_ics20s := ibc_ics20s db @ [row], ibc_ics20_seq := ibc_ics20_seq db + 1\<rparr>))"

definition handleIcs20Send :: "ibc_ext \<Rightarrow> int \<Rightarrow> int \<Rightarrow> 'a ibc_db_scheme \<Rightarrow> 'a ibc_db_scheme res" where
  "handleIcs20Send ext startHeight endHeight db =
     rbind (rmap (ics20_send_row ext)
       (packets (\<lambda>im. im_src_port_id im = ics20_port ext \<and> im_type im = SEND_PACKET) startHeight endHeight db))
       (\<lambda>rows. rfold insert_ics20 rows db)"

text \<open>\<^verbatim>\<open>s.split('/')\<close>\<close>

fun split_slash :: "string \<Rightarrow> string list" where
  "split_slash [] = [[]]"
| "split_slash (c # cs) =
     (if c = CHR ''/'' then [] # split_slash cs
      else case split_slash cs of [] \<Rightarrow> [[c]] | w # ws \<Rightarrow> (c # w) # ws)"

fun join_slash :: "string list \<Rightarrow> string" where
  "join_slash [] = []"
| "join_slash [w] = w"
| "join_slash (w # ws) = w @ CHR ''/'' # join_slash ws"

definition parseDenom :: "string \<Rightarrow> bool \<Rightarrow> string \<Rightarrow> string \<Rightarrow> string" where
  "parseDenom denom isSource dstPort dstChannel =
     (if isSource then join_slash (drop 2 (split_slash denom)) else dstPort @ ''/'' @ dstChannel @ ''/'' @ denom)"

definition ics20_recv_row ::
  "ibc_ext \<Rightarrow> 'a ibc_db_scheme \<Rightarrow> ibc_message \<times> json message_row \<times> json transaction_row \<Rightarrow> (int \<Rightarrow> ibc_ics20) res"
where
  "ics20_recv_row ext db imt =
     (case imt of (im, m, t) \<Rightarrow>
        (case find (\<lambda>e. evt_type e = FUNGIBLE_TOKEN_PACKET) (events_of_message db m) of
           None \<Rightarrow> Inl (JsError ''Recv ibc hasn't emmitted events'')
         | Some recvEvent \<Rightarrow>
             (case event_attr recvEvent ''denom'' of
                None \<Rightarrow> Inl (JsError ''Recv ibc hasn't emit denom'')
              | Some originalDenom \<Rightarrow>
                  (let isSource = (find (\<lambda>e. evt_type e = DENOM_TRACE) (events_of_message db m) = None);
                       denom = parseDenom originalDenom isSource (im_dst_port_id im) (im_dst_channel_id im) in
                   rbind (required ''receiver'' (event_attr recvEvent ''receiver'')) (\<lambda>receiver.
                   rbind (required ''amount'' (event_attr recvEvent ''amount'')) (\<lambda>amount.
                   rbind (numeric_amount ext amount) (\<lambda>n.
                     Inr (\<lambda>newId. \<lparr>is_id = newId, is_ibc_message_id = im_id im,
                       is_sender = event_attr recvEvent ''sender'', is_receiver = receiver, is_amount = n, is_denom = denom,
                       is_status = (if event_attr recvEvent ''success'' = Some ''true'' then STATUS_ACK_SUCCESS else STATUS_ACK_ERROR),
                       is_channel_id = im_dst_channel_id im, is_sequence_key = im_sequence_key im, is_type = im_type im,
                       is_memo = event_attr recvEvent ''memo'', is_start_time = None,
                       is_finish_time = Some (tx_timestamp t)\<rparr>))))))))"

definition handleIcs20Recv :: "ibc_ext \<Rightarrow> int \<Rightarrow> int \<Rightarrow> 'a ibc_db_scheme \<Rightarrow> 'a ibc_db_scheme res" where
  "handleIcs20Recv ext startHeight endHeight db =
     rbind (rmap (ics20_recv_row ext db)
       (packets (\<lambda>im. im_dst_port_id im = ics20_port ext \<and> im_type im = RECV_PACKET) startHeight endHeight db))
       (\<lambda>rows. rfold insert_ics20 rows db)"

text \<open>
  \<open>updateOriginSendStatus\<close>: the sends with the keys of the packets, the last row of a key, get the status
  and the time of the last packet of that key; a packet without a send throws.
\<close>

definition finish_send :: "string \<Rightarrow> string \<times> string \<Rightarrow> (string \<rightharpoonup> ibc_ics20) \<Rightarrow> (string \<rightharpoonup> ibc_ics20) res" where
  "finish_send type msg ibcIcs20sKeyBy =
     (case msg of (key, timestamp) \<Rightarrow>
        rbind (need (ibcIcs20sKeyBy key)) (\<lambda>row.
          Inr (ibcIcs20sKeyBy(key \<mapsto> row\<lparr>is_finish_time := Some timestamp, is_status := type\<rparr>))))"

definition store_send :: "(string \<rightharpoonup> ibc_ics20) \<Rightarrow> ibc_ics20 \<Rightarrow> ibc_ics20" where
  "store_send ibcIcs20sKeyBy u =
     (case ibcIcs20sKeyBy (is_sequence_key u) of None \<Rightarrow> u | Some row \<Rightarrow> if is_id row = is_id u then row else u)"

definition updateOriginSendStatus :: "(string \<times> string) list \<Rightarrow> string \<Rightarrow> 'a ibc_db_scheme \<Rightarrow> 'a ibc_db_scheme res" where
  "updateOriginSendStatus msgs type db =
     (let ibcIcs20sKeyBy = keyBy is_sequence_key
            (filter (\<lambda>r. is_sequence_key r \<in> set (map fst msgs) \<and> is_type r = SEND_PACKET) (ibc_ics20s db)) in
      rbind (rfold (finish_send type) msgs ibcIcs20sKeyBy) (\<lambda>updated.
        Inr (db\<lparr>ibc_ics20s := map (store_send updated) (ibc_ics20s db)\<rparr>)))"

abbreviation packet_key :: "ibc_message \<times> json message_row \<times> json transaction_row \<Rightarrow> string \<times> string" where
  "packet_key imt \<equiv> (im_sequence_key (fst imt), tx_timestamp (snd (snd imt)))"

text \<open>The second of the two transfer events of an acknowledgement tells whether it succeeded.\<close>

definition ack_succeeded ::
  "'a ibc_db_scheme \<Rightarrow> ibc_message \<times> json message_row \<times> json transaction_row \<Rightarrow> bool res"
where
  "ack_succeeded db imt =
     (case filter (\<lambda>e. evt_type e = FUNGIBLE_TOKEN_PACKET) (events_of_message db (fst (snd imt))) of
        [_, e] \<Rightarrow> Inr (event_attr e ''success'' \<noteq> None)
      | _ \<Rightarrow> Inl (JsError ''Ack ibc hasn't emmitted enough events''))"

definition handleIcs20Ack :: "ibc_ext \<Rightarrow> int \<Rightarrow> int \<Rightarrow> 'a ibc_db_scheme \<Rightarrow> 'a ibc_db_scheme res" where
  "handleIcs20Ack ext startHeight endHeight db =
     (let ics20Acks = packets (\<lambda>im. im_src_port_id im = ics20_port ext \<and> im_type im = ACKNOWLEDGE_PACKET) startHeight endHeight db in
      rbind (rmap (ack_succeeded db) ics20Acks) (\<lambda>flags.
      let keys = zip flags (map packet_key ics20Acks) in
      rbind (updateOriginSendStatus (map snd (filter fst keys)) STATUS_ACK_SUCCESS db)
        (updateOriginSendStatus (map snd (filter (Not \<circ> fst) keys)) STATUS_ACK_ERROR)))"

definition handleIcs20Timeout :: "ibc_ext \<Rightarrow> int \<Rightarrow> int \<Rightarrow> 'a ibc_db_scheme \<Rightarrow> 'a ibc_db_scheme res" where
  "handleIcs20Timeout ext startHeight endHeight db =
     updateOriginSendStatus
       (map packet_key (packets (\<lambda>im. im_src_port_id im = ics20_port ext \<and> im_type im = TIMEOUT_PACKET) startHeight endHeight db))
       STATUS_TIMEOUT db"

definition ics20_work :: "ibc_ext \<Rightarrow> int \<Rightarrow> int \<Rightarrow> 'a ibc_db_scheme \<Rightarrow> 'a ibc_db_scheme res" where
  "ics20_work ext startHeight endHeight db =
     rbind (handleIcs20Send ext startHeight endHeight db) (\<lambda>db1.
     rbind (handleIcs20Recv ext startHeight endHeight db1) (\<lambda>db2.
     rbind (handleIcs20Ack ext startHeight endHeight db2) (\<lambda>db3.
       handleIcs20Timeout ext startHeight endHeight db3)))"

definition crawlIbcIcs20 :: "config \<Rightarrow> ibc_ext \<Rightarrow> 'a ibc_db_scheme \<Rightarrow> 'a ibc_db_scheme res" where
  "crawlIbcIcs20 cfg ext = range_job cfg CRAWL_IBC_ICS20 (ics20_work ext)"

end
