(* ===== verification/Ibc_Packets.thy ===== *)
theory Ibc_Packets
  imports Ibc Votes
begin

text \<open>
  What the packets table of \<open>Ibc\<close> holds: the job stores a row for every packet event and message of
  the event, exactly once; and the links between clients, connections and channels.
\<close>

section \<open>Packets of a range\<close>

lemma mset_concat_range_split:
  assumes "a \<le> b" and "b \<le> c"
  shows "mset (concat (map g (filter (\<lambda>x. P x \<and> in_range a c (h x)) xs))) =
    mset (concat (map g (filter (\<lambda>x. P x \<and> in_range a b (h x)) xs))) +
    mset (concat (map g (filter (\<lambda>x. P x \<and> in_range b c (h x)) xs)))"
  using assms by (induction xs) (auto simp: in_range_def)

lemma mset_map_filter: "mset (List.map_filter f xs) = image_mset (the \<circ> f) (filter_mset (\<lambda>x. f x \<noteq> None) (mset xs))"
  by (simp add: map_filter_conv mset_filter [symmetric] del: mset_filter)

lemma packet_events_split:
  assumes "a \<le> b" and "b \<le> c"
  shows "mset (packet_events a c db) = mset (packet_events a b db) + mset (packet_events b c db)"
  by (simp only: packet_events_def events_with_message_def mset_map_filter mset_concat_range_split [OF assms]
      filter_union_mset image_mset_union)

text \<open>The row of a packet event, less its id.\<close>

definition packet_content :: "ibc_ext \<Rightarrow> event_row \<times> json message_row \<times> json transaction_row \<Rightarrow> ibc_message" where
  "packet_content ext emt =
     (case emt of (e, m, t) \<Rightarrow>
        let attr = (\<lambda>key. the (event_attr e key)) in
        \<lparr>im_id = 0, im_transaction_message_id = msg_id m,
         im_src_channel_id = attr ''packet_src_channel'', im_src_port_id = attr ''packet_src_port'',
         im_dst_channel_id = attr ''packet_dst_channel'', im_dst_port_id = attr ''packet_dst_port'',
         im_type = evt_type e, im_sequence = the (number_of_text (attr ''packet_sequence'')),
         im_sequence_key = sequence_key (attr ''packet_src_channel'') (attr ''packet_src_port'')
           (attr ''packet_dst_channel'') (attr ''packet_dst_port'') (attr ''packet_sequence''),
         im_data = (if truthy (event_attr e ''packet_data_hex'')
                    then jsonb_value ext (the (hex_utf8 ext (attr ''packet_data_hex''))) else None),
         im_tx_hash = tx_hash t\<rparr>)"

definition range_packets :: "ibc_ext \<Rightarrow> 'a ibc_db_scheme \<Rightarrow> int \<Rightarrow> int \<Rightarrow> ibc_message multiset" where
  "range_packets ext db a b = image_mset (packet_content ext) (mset (packet_events a b db))"

definition stored_packets :: "'a ibc_db_scheme \<Rightarrow> ibc_message multiset" where
  "stored_packets db = image_mset (\<lambda>im. im\<lparr>im_id := 0\<rparr>) (mset (ibc_messages db))"

lemma required_eq_Inr [simp]: "required field v = Inr s \<longleftrightarrow> v = Some s"
  by (simp add: required_def split: option.split)

lemma packet_data_eq_Inr:
  "packet_data ext v = Inr d \<Longrightarrow> d = (if truthy v then jsonb_value ext (the (hex_utf8 ext (the v))) else None)"
  by (auto simp: packet_data_def split: if_splits option.splits)

lemma packet_content_id [simp]: "(packet_content ext emt)\<lparr>im_id := 0\<rparr> = packet_content ext emt"
  by (simp add: packet_content_def Let_def split: prod.split)

lemma ibc_message_of_content: "ibc_message_of ext emt = Inr f \<Longrightarrow> f i = (packet_content ext emt)\<lparr>im_id := i\<rparr>"
  by (auto simp: ibc_message_of_def packet_content_def Let_def rbind_eq_Inr as_number_def
      dest!: packet_data_eq_Inr split: prod.splits option.splits)

lemma handleIbcMessage_stores:
  assumes "handleIbcMessage ext events db = Inr db'"
  shows "stored_packets db' = stored_packets db + image_mset (packet_content ext) (mset events)"
    and "block_checkpoint db' = block_checkpoint db" and "event_table db' = event_table db"
    and "message_table db' = message_table db" and "transaction_table db' = transaction_table db"
proof -
  from assms obtain rows where rows: "rmap (ibc_message_of ext) events = Inr rows" and db': "db' = insert_ibc_messages rows db"
    by (auto simp: handleIbcMessage_def rbind_eq_Inr)
  have "map (\<lambda>im. im\<lparr>im_id := 0\<rparr>) (numbered n rows) = map (\<lambda>f. (f 0)\<lparr>im_id := 0\<rparr>) rows" for n
  proof (rule map_numbered)
    fix f i assume "f \<in> set rows"
    with rows obtain emt where "ibc_message_of ext emt = Inr f" by (auto dest: rmap_inD)
    from ibc_message_of_content [OF this] show "(f i)\<lparr>im_id := 0\<rparr> = (f 0)\<lparr>im_id := 0\<rparr>" by simp
  qed
  moreover have "map (\<lambda>f. (f 0)\<lparr>im_id := 0\<rparr>) rows = map (packet_content ext) events"
    using rows by (induction events arbitrary: rows) (auto simp: rbind_eq_Inr dest!: ibc_message_of_content [where i = 0])
  ultimately have "image_mset (\<lambda>im. im\<lparr>im_id := 0\<rparr>) (mset (numbered n rows)) = image_mset (packet_content ext) (mset events)" for n
    by (metis mset_map)
  then show "stored_packets db' = stored_packets db + image_mset (packet_content ext) (mset events)"
    by (simp add: stored_packets_def db' insert_ibc_messages_def)
  show "block_checkpoint db' = block_checkpoint db" "event_table db' = event_table db"
    "message_table db' = message_table db" "transaction_table db' = transaction_table db"
    by (simp_all add: db' insert_ibc_messages_def)
qed

abbreviation ibc_app_pos :: "config \<Rightarrow> 'a ibc_db_scheme \<Rightarrow> int" where
  "ibc_app_pos cfg db \<equiv> job_start cfg CRAWL_IBC_APP (block_checkpoint db)"

abbreviation ibc_app_end :: "config \<Rightarrow> 'a ibc_db_scheme \<Rightarrow> int" where
  "ibc_app_end cfg db \<equiv> job_end cfg CRAWL_IBC_APP (block_checkpoint db)"

lemma packet_events_cong:
  assumes "event_table db' = event_table db" and "message_table db' = message_table db"
    and "transaction_table db' = transaction_table db"
  shows "packet_events a b db' = packet_events a b db"
  by (simp add: packet_events_def events_with_message_def joined_messages_def [abs_def] message_tx_def [abs_def] assms)

lemma crawlIbcApp_checkpoint:
  "crawlIbcApp cfg ext db = Inr db' \<Longrightarrow> block_checkpoint db' = checkpoint_run cfg CRAWL_IBC_APP (block_checkpoint db)"
  unfolding crawlIbcApp_def by (rule range_job_checkpoint) (assumption | rule handleIbcMessage_stores(2))+

lemma crawlIbcApp_settled:
  assumes "crawlIbcApp cfg ext db = Inr db'"
  shows "range_packets ext db' = range_packets ext db"
proof -
  have "packet_events a b db' = packet_events a b db" for a b
    using assms unfolding crawlIbcApp_def
  proof (cases rule: range_job_cases)
    case (worked db1)
    with handleIbcMessage_stores(3,4,5) [OF worked(2)] show ?thesis
      by (intro packet_events_cong) (simp_all add: saveCheckpoint_def)
  qed simp
  then show ?thesis by (simp add: range_packets_def [abs_def])
qed

lemma crawlIbcApp_stores:
  assumes "crawlIbcApp cfg ext db = Inr db'"
  shows "stored_packets db' = stored_packets db +
    (if skips (job_guard CRAWL_IBC_APP) (ibc_app_pos cfg db) (ibc_app_end cfg db) then 0
     else range_packets ext db (ibc_app_pos cfg db) (ibc_app_end cfg db))"
  using assms unfolding crawlIbcApp_def
  by (cases rule: range_job_cases)
    (auto simp: saveCheckpoint_def stored_packets_def range_packets_def dest!: handleIbcMessage_stores(1))

lemma range_packets_split:
  "a \<le> b \<Longrightarrow> b \<le> c \<Longrightarrow> range_packets ext db a c = range_packets ext db a b + range_packets ext db b c"
  by (simp only: range_packets_def packet_events_split [of a b c] image_mset_union)

lemma ibc_app_guarded:
  "\<not> skips (job_guard CRAWL_IBC_APP) (ibc_app_pos cfg db) (ibc_app_end cfg db) \<Longrightarrow> ibc_app_pos cfg db \<le> ibc_app_end cfg db"
  using not_skips_le [of "job_guard CRAWL_IBC_APP"] by (simp add: CRAWL_IBC_APP_def)

interpretation ibc_app_job: appending_job cfg CRAWL_IBC_APP "crawlIbcApp cfg ext" "\<lambda>_. True" "range_packets ext" stored_packets
  for cfg ext
  by unfold_locales
    (rule crawlIbcApp_checkpoint crawlIbcApp_stores crawlIbcApp_settled range_packets_split ibc_app_guarded; assumption)+
section \<open>Clients, connections and channels are linked\<close>

definition keyed :: "('r \<Rightarrow> int) \<Rightarrow> int \<Rightarrow> 'r list \<Rightarrow> bool" where
  "keyed key seq rows \<longleftrightarrow> distinct (map key rows) \<and> (\<forall>r\<in>set rows. key r < seq)"

lemma keyed_map: "keyed key seq rows \<longleftrightarrow> distinct (map key rows) \<and> (\<forall>k\<in>set (map key rows). k < seq)"
  by (simp add: keyed_def)

lemma keyed_snoc: "keyed key seq rows \<Longrightarrow> key r = seq \<Longrightarrow> keyed key (seq + 1) (rows @ [r])"
  by (fastforce simp: keyed_def)

text \<open>
  The constraints of the schema, which the database enforces or the sequences give, and the links the
  job is responsible for: a connection has a client, a channel a connection.
\<close>

definition tao_linked :: "'a ibc_db_scheme \<Rightarrow> bool" where
  "tao_linked db \<longleftrightarrow>
     keyed icl_id (ibc_client_seq db) (ibc_clients db) \<and> distinct (map icl_client_id (ibc_clients db)) \<and>
     keyed icn_id (ibc_connection_seq db) (ibc_connections db) \<and> distinct (map icn_connection_id (ibc_connections db)) \<and>
     keyed ich_id (ibc_channel_seq db) (ibc_channels db) \<and> distinct (map ich_channel_id (ibc_channels db)) \<and>
     (\<forall>c\<in>set (ibc_connections db). icn_ibc_client_id c \<in> icl_id ` set (ibc_clients db)) \<and>
     (\<forall>c\<in>set (ibc_channels db). ich_ibc_connection_id c \<in> icn_id ` set (ibc_connections db) \<and>
        ich_state c \<in> {CHANNEL_OPEN, CHANNEL_CLOSE})"

text \<open>Rows stay; of a channel only its state changes, and only to closed.\<close>

definition tao_grows :: "'a ibc_db_scheme \<Rightarrow> 'a ibc_db_scheme \<Rightarrow> bool" where
  "tao_grows db db' \<longleftrightarrow>
     set (ibc_clients db) \<subseteq> set (ibc_clients db') \<and> set (ibc_connections db) \<subseteq> set (ibc_connections db') \<and>
     (\<forall>c\<in>set (ibc_channels db). c \<in> set (ibc_channels db') \<or> c\<lparr>ich_state := CHANNEL_CLOSE\<rparr> \<in> set (ibc_channels db'))"

lemma tao_grows_refl [simp]: "tao_grows db db"
  by (simp add: tao_grows_def)

lemma tao_grows_trans:
  assumes "tao_grows db1 db2" and "tao_grows db2 db3"
  shows "tao_grows db1 db3"
proof -
  have "c \<in> set (ibc_channels db3) \<or> c\<lparr>ich_state := CHANNEL_CLOSE\<rparr> \<in> set (ibc_channels db3)" if "c \<in> set (ibc_channels db1)" for c
  proof -
    from assms(1) that consider "c \<in> set (ibc_channels db2)" | "c\<lparr>ich_state := CHANNEL_CLOSE\<rparr> \<in> set (ibc_channels db2)"
      by (auto simp: tao_grows_def)
    then show ?thesis
    proof cases
      case 2
      with assms(2) have "c\<lparr>ich_state := CHANNEL_CLOSE\<rparr> \<in> set (ibc_channels db3) \<or>
          (c\<lparr>ich_state := CHANNEL_CLOSE\<rparr>)\<lparr>ich_state := CHANNEL_CLOSE\<rparr> \<in> set (ibc_channels db3)"
        unfolding tao_grows_def by blast
      then show ?thesis by simp
    qed (use assms(2) in \<open>simp add: tao_grows_def\<close>)
  qed
  with assms show ?thesis by (auto simp: tao_grows_def)
qed

lemma insert_client_ok:
  "tao_linked db \<Longrightarrow> icl_id (f (ibc_client_seq db)) = ibc_client_seq db \<Longrightarrow> insert_client f db = Inr db' \<Longrightarrow>
    tao_linked db' \<and> tao_grows db db'"
  by (auto simp: insert_client_def tao_linked_def tao_grows_def Let_def keyed_snoc split: if_splits)

lemma insert_connection_ok:
  "tao_linked db \<Longrightarrow> icn_id (f (ibc_connection_seq db)) = ibc_connection_seq db \<Longrightarrow>
    icn_ibc_client_id (f (ibc_connection_seq db)) \<in> icl_id ` set (ibc_clients db) \<Longrightarrow> insert_connection f db = Inr db' \<Longrightarrow>
    tao_linked db' \<and> tao_grows db db' \<and> ibc_clients db' = ibc_clients db"
  by (auto simp: insert_connection_def tao_linked_def tao_grows_def Let_def keyed_snoc split: if_splits)

lemma insert_channel_ok:
  "tao_linked db \<Longrightarrow> ich_id (f (ibc_channel_seq db)) = ibc_channel_seq db \<Longrightarrow> ich_state (f (ibc_channel_seq db)) = CHANNEL_OPEN \<Longrightarrow>
    ich_ibc_connection_id (f (ibc_channel_seq db)) \<in> icn_id ` set (ibc_connections db) \<Longrightarrow> insert_channel f db = Inr db' \<Longrightarrow>
    tao_linked db' \<and> tao_grows db db' \<and> ibc_connections db' = ibc_connections db"
  by (auto simp: insert_channel_def tao_linked_def tao_grows_def Let_def keyed_snoc split: if_splits)

lemma handleNewIbcClient_ok:
  assumes "tao_linked db" and "handleNewIbcClient events db = Inr db'"
  shows "tao_linked db' \<and> tao_grows db db'"
proof -
  from assms(2) obtain rows where rows: "rmap new_client events = Inr rows" and ins: "rfold insert_client rows db = Inr db'"
    by (auto simp: handleNewIbcClient_def rbind_eq_Inr)
  have new: "icl_id (f i) = i" if "f \<in> set rows" for f i
    using rmap_inD [OF rows that] by (auto simp: new_client_def rbind_eq_Inr)
  show ?thesis
  proof (rule rfold_invariant [where I = "\<lambda>s. tao_linked s \<and> tao_grows db s", OF ins])
    fix f s s' assume "f \<in> set rows" "tao_linked s \<and> tao_grows db s" "insert_client f s = Inr s'"
    then show "tao_linked s' \<and> tao_grows db s'" using insert_client_ok [of s f s'] new tao_grows_trans by blast
  qed (simp add: assms)
qed

lemma new_connection_linked:
  assumes "new_connection (keyBy icl_client_id clients) e = Inr f"
  shows "icn_id (f i) = i" and "icn_ibc_client_id (f i) \<in> icl_id ` set clients"
  using assms
  by (auto simp: new_connection_def rbind_eq_Inr need_eq_Inr bind_eq_Some_conv dest!: keyBy_SomeD)

lemma new_channel_linked:
  assumes "new_channel (keyBy icn_connection_id conns) e = Inr f"
  shows "ich_id (f i) = i" and "ich_state (f i) = CHANNEL_OPEN" and "ich_ibc_connection_id (f i) \<in> icn_id ` set conns"
  using assms
  by (auto simp: new_channel_def rbind_eq_Inr need_eq_Inr bind_eq_Some_conv dest!: keyBy_SomeD)

lemma handleNewIbcConnection_ok:
  assumes "tao_linked db" and "handleNewIbcConnection events db = Inr db'"
  shows "tao_linked db' \<and> tao_grows db db'"
proof -
  from assms(2) obtain ids rows where
    rows: "rmap (new_connection (keyBy icl_client_id (filter (\<lambda>c. icl_client_id c \<in> ids) (ibc_clients db)))) events = Inr rows"
    and ins: "rfold insert_connection rows db = Inr db'"
    by (auto simp: handleNewIbcConnection_def rbind_eq_Inr Let_def)
  have new: "icn_id (f i) = i" "icn_ibc_client_id (f i) \<in> icl_id ` set (ibc_clients db)" if "f \<in> set rows" for f i
    using rmap_inD [OF rows that] new_connection_linked by fastforce+
  let ?I = "\<lambda>s. tao_linked s \<and> tao_grows db s \<and> ibc_clients s = ibc_clients db"
  have "?I db'"
  proof (rule rfold_invariant [where I = ?I, OF ins])
    fix f s s' assume "f \<in> set rows" "?I s" "insert_connection f s = Inr s'"
    then show "?I s'" using insert_connection_ok [of s f s'] new [of f "ibc_connection_seq s"] tao_grows_trans [of db s s'] by auto
  qed (simp add: assms)
  then show ?thesis by blast
qed

lemma handleNewIbcChannel_ok:
  assumes "tao_linked db" and "handleNewIbcChannel events db = Inr db'"
  shows "tao_linked db' \<and> tao_grows db db'"
proof -
  from assms(2) obtain ids rows where
    rows: "rmap (new_channel (keyBy icn_connection_id (filter (\<lambda>c. icn_connection_id c \<in> ids) (ibc_connections db)))) events = Inr rows"
    and ins: "rfold insert_channel rows db = Inr db'"
    by (auto simp: handleNewIbcChannel_def rbind_eq_Inr Let_def)
  have new: "ich_id (f i) = i" "ich_state (f i) = CHANNEL_OPEN" "ich_ibc_connection_id (f i) \<in> icn_id ` set (ibc_connections db)"
    if "f \<in> set rows" for f i
    using rmap_inD [OF rows that] new_channel_linked by fastforce+
  let ?I = "\<lambda>s. tao_linked s \<and> tao_grows db s \<and> ibc_connections s = ibc_connections db"
  have "?I db'"
  proof (rule rfold_invariant [where I = ?I, OF ins])
    fix f s s' assume "f \<in> set rows" "?I s" "insert_channel f s = Inr s'"
    then show "?I s'" using insert_channel_ok [of s f s'] new [of f "ibc_channel_seq s"] tao_grows_trans [of db s s'] by auto
  qed (simp add: assms)
  then show ?thesis by blast
qed

text \<open>Closing the channels of a list of ids.\<close>

lemma close_channels:
  "fold (\<lambda>i. map (close_channel i)) ids cs =
     map (\<lambda>c. if ich_channel_id c \<in> set ids then c\<lparr>ich_state := CHANNEL_CLOSE\<rparr> else c) cs"
  by (induction ids arbitrary: cs) (auto simp: close_channel_def)

lemma handleCloseIbcChannel_ok:
  assumes "tao_linked db" and "handleCloseIbcChannel events db = Inr db'"
  shows "tao_linked db' \<and> tao_grows db db' \<and>
    (\<forall>e\<in>set events. \<forall>c\<in>set (ibc_channels db'). Some (ich_channel_id c) = event_attr e ''channel_id'' \<longrightarrow> ich_state c = CHANNEL_CLOSE)"
proof -
  let ?id = "\<lambda>e. if truthy (event_attr e ''channel_id'') then Inr (the (event_attr e ''channel_id''))
      else Inl (JsError ''Event close channel not found channelId'')"
  let ?close = "\<lambda>ids c. if ich_channel_id c \<in> ids then c\<lparr>ich_state := CHANNEL_CLOSE\<rparr> else c"
  from assms(2) obtain ids where ids: "rmap ?id events = Inr ids"
    and db': "db' = db\<lparr>ibc_channels := map (?close (set ids)) (ibc_channels db)\<rparr>"
    by (auto simp: handleCloseIbcChannel_def rbind_eq_Inr close_channels)
  have keys: "map ich_id (map (?close I) cs) = map ich_id cs" "map ich_channel_id (map (?close I) cs) = map ich_channel_id cs" for I cs
    by (induction cs) simp_all
  have "keyed ich_id n (map (?close I) cs) = keyed ich_id n cs" for n I cs
    by (simp only: keyed_map keys(1))
  with assms(1) have "tao_linked db'" by (auto simp: tao_linked_def db' keys(2) simp del: map_map)
  moreover have "tao_grows db db'" by (auto simp: db' tao_grows_def)
  moreover have "the (event_attr e ''channel_id'') \<in> set ids" if "e \<in> set events" for e
    using ids that by (induction events arbitrary: ids) (auto simp: rbind_eq_Inr split: if_splits)
  then have "ich_state c = CHANNEL_CLOSE"
    if "e \<in> set events" "c \<in> set (ibc_channels db')" "Some (ich_channel_id c) = event_attr e ''channel_id''" for e c
    using that by (force simp: db' dest: sym [of "Some _"])
  ultimately show ?thesis by blast
qed
lemma ibc_tao_work_ok:
  assumes "tao_linked db" and "ibc_tao_work a b db = Inr db'"
  shows "tao_linked db' \<and> tao_grows db db' \<and>
    (\<forall>(e, m)\<in>set (events_with_message tao_types a b db). \<forall>c\<in>set (ibc_channels db').
       evt_type e \<in> {''channel_close'', ''channel_close_confirm'', ''channel_close_init''} \<and>
       Some (ich_channel_id c) = event_attr e ''channel_id'' \<longrightarrow> ich_state c = CHANNEL_CLOSE)"
proof -
  let ?ev = "events_with_message tao_types a b db"
  let ?closing = "map fst (of_types [''channel_close'', ''channel_close_confirm'', ''channel_close_init''] ?ev)"
  from assms(2) obtain db1 db2 db3 where
    runs: "handleNewIbcClient (of_types [''create_client''] ?ev) db = Inr db1"
      "handleNewIbcConnection (map fst (of_types [''connection_open_confirm'', ''connection_open_ack''] ?ev)) db1 = Inr db2"
      "handleNewIbcChannel (map fst (of_types [''channel_open_ack'', ''channel_open_confirm''] ?ev)) db2 = Inr db3"
      "handleCloseIbcChannel ?closing db3 = Inr db'"
    unfolding ibc_tao_work_def Let_def rbind_eq_Inr by blast
  note 1 = handleNewIbcClient_ok [OF assms(1) runs(1)]
  note 2 = handleNewIbcConnection_ok [OF conjunct1 [OF 1] runs(2)]
  note 3 = handleNewIbcChannel_ok [OF conjunct1 [OF 2] runs(3)]
  note 4 = handleCloseIbcChannel_ok [OF conjunct1 [OF 3] runs(4)]
  have "tao_grows db db'"
    by (rule tao_grows_trans [OF conjunct2 [OF 1] tao_grows_trans [OF conjunct2 [OF 2]
          tao_grows_trans [OF conjunct2 [OF 3] conjunct1 [OF conjunct2 [OF 4]]]]])
  moreover have "ich_state c = CHANNEL_CLOSE"
    if "(e, m) \<in> set ?ev" "c \<in> set (ibc_channels db')" "Some (ich_channel_id c) = event_attr e ''channel_id''"
      "evt_type e \<in> {''channel_close'', ''channel_close_confirm'', ''channel_close_init''}" for e m c
  proof -
    have "(e, m) \<in> set (of_types [''channel_close'', ''channel_close_confirm'', ''channel_close_init''] ?ev)"
      using that(1,4) by (simp add: of_types_def)
    from imageI [OF this, of fst] have "e \<in> set ?closing" by simp
    with conjunct2 [OF conjunct2 [OF 4]] that(2,3) show ?thesis by blast
  qed
  ultimately show ?thesis using conjunct1 [OF 4] by (simp only: simp_thms split_paired_all prod.case Ball_def) blast
qed
lemma insert_tao_checkpoint:
  "insert_client f db = Inr db' \<Longrightarrow> block_checkpoint db' = block_checkpoint db"
  "insert_connection g db = Inr db' \<Longrightarrow> block_checkpoint db' = block_checkpoint db"
  "insert_channel h db = Inr db' \<Longrightarrow> block_checkpoint db' = block_checkpoint db"
  by (auto simp: insert_client_def insert_connection_def insert_channel_def Let_def split: if_splits)

lemma rfold_checkpoint:
  assumes "rfold f xs db = Inr db'" and "\<And>x s s'. f x s = Inr s' \<Longrightarrow> block_checkpoint s' = block_checkpoint s"
  shows "block_checkpoint db' = block_checkpoint db"
  by (rule rfold_invariant [where I = "\<lambda>s. block_checkpoint s = block_checkpoint db", OF assms(1)]) (auto dest: assms(2))

lemma ibc_tao_work_checkpoint:
  assumes "ibc_tao_work a b db = Inr db'"
  shows "block_checkpoint db' = block_checkpoint db"
proof -
  have 1: "block_checkpoint s' = block_checkpoint s" if "handleNewIbcClient ev s = Inr s'" for ev s s'
    using that insert_tao_checkpoint(1) by (auto simp: handleNewIbcClient_def rbind_eq_Inr elim!: rfold_checkpoint)
  have 2: "block_checkpoint s' = block_checkpoint s" if "handleNewIbcConnection ev s = Inr s'" for ev s s'
    using that insert_tao_checkpoint(2) by (auto simp: handleNewIbcConnection_def rbind_eq_Inr Let_def elim!: rfold_checkpoint)
  have 3: "block_checkpoint s' = block_checkpoint s" if "handleNewIbcChannel ev s = Inr s'" for ev s s'
    using that insert_tao_checkpoint(3) by (auto simp: handleNewIbcChannel_def rbind_eq_Inr Let_def elim!: rfold_checkpoint)
  have 4: "block_checkpoint s' = block_checkpoint s" if "handleCloseIbcChannel ev s = Inr s'" for ev s s'
    using that by (auto simp: handleCloseIbcChannel_def rbind_eq_Inr)
  from assms show ?thesis
    unfolding ibc_tao_work_def Let_def rbind_eq_Inr by (elim exE conjE) (drule 1, drule 2, drule 3, drule 4, simp)
qed

lemma crawlIbcTao_checkpoint:
  "crawlIbcTao cfg db = Inr db' \<Longrightarrow> block_checkpoint db' = checkpoint_run cfg CRAWL_IBC_TAO (block_checkpoint db)"
  unfolding crawlIbcTao_def by (rule range_job_checkpoint) (assumption | rule ibc_tao_work_checkpoint)+

interpretation ibc_tao_job: checkpointed_job cfg CRAWL_IBC_TAO "crawlIbcTao cfg" for cfg
  by unfold_locales (rule crawlIbcTao_checkpoint)
section \<open>An event of several messages\<close>

lemma packet_events_iff:
  "(e, m, t) \<in> set (packet_events a b db) \<longleftrightarrow>
     e \<in> set (event_table db) \<and> evt_type e \<in> set packet_types \<and> in_range a b (evt_block_height e) \<and>
     m \<in> set (joined_messages db e) \<and> message_tx db m = Some t"
  by (auto simp: packet_events_def events_with_message_def set_map_filter_Some)

lemma crawlIbcApp_row:
  assumes "crawlIbcApp cfg ext db = Inr db'"
    and "(e, m, t) \<in> set (packet_events (ibc_app_pos cfg db) (ibc_app_end cfg db) db)"
  shows "\<exists>im\<in>set (ibc_messages db'). im\<lparr>im_id := 0\<rparr> = packet_content ext (e, m, t)"
proof -
  from assms(2) have "ibc_app_pos cfg db < ibc_app_end cfg db" by (auto simp: packet_events_iff in_range_def)
  then have "\<not> skips (job_guard CRAWL_IBC_APP) (ibc_app_pos cfg db) (ibc_app_end cfg db)"
    by (simp add: CRAWL_IBC_APP_def skips_def)
  with crawlIbcApp_stores [OF assms(1)] assms(2) have "packet_content ext (e, m, t) \<in># stored_packets db'"
    by (simp add: range_packets_def)
  then show ?thesis by (auto simp: stored_packets_def)
qed

section \<open>Properties\<close>

definition sample_ibc_ext :: ibc_ext where
  "sample_ibc_ext = \<lparr>column_text = (\<lambda>j. case j of JStr s \<Rightarrow> s | _ \<Rightarrow> []), column_numeric = number_of_text,
     hex_utf8 = Some, jsonb_value = (\<lambda>s. Some (JObj [(''sender'', JStr ''aura1a''), (''receiver'', JStr ''cosmos1b''),
       (''amount'', JStr ''5''), (''denom'', JStr ''uaura'')])), ics20_port = ''transfer''\<rparr>"

definition sample_ibc_config :: config where
  "sample_ibc_config = \<lparr>startBlock = 0, blocksPerCall = (\<lambda>_. 100)\<rparr>"

definition sample_ibc_tx :: "int \<Rightarrow> int \<Rightarrow> json transaction_row" where
  "sample_ibc_tx i h =
     \<lparr>tx_id = i, tx_height = h, tx_hash = ''A'' @ show_int i, tx_codespace = [], tx_code = 0, tx_gas_used = ''0'',
      tx_gas_wanted = ''0'', tx_gas_limit = ''0'', tx_fee = [], tx_memo = [], tx_index = 0, tx_timestamp = ''t'' @ show_int h,
      tx_data = None\<rparr>"

definition sample_ibc_message :: "int \<Rightarrow> int \<Rightarrow> nat \<Rightarrow> string \<Rightarrow> json \<Rightarrow> json message_row" where
  "sample_ibc_message i tx k type content =
     \<lparr>msg_id = i, msg_tx_id = tx, msg_index = k, msg_type = type, msg_sender = ''aura1a'', msg_content = content,
      msg_parent_id = None\<rparr>"

definition sample_ibc_event :: "int \<Rightarrow> int \<Rightarrow> int \<Rightarrow> string \<Rightarrow> (string \<times> string) list \<Rightarrow> event_row" where
  "sample_ibc_event i tx h type attrs =
     \<lparr>evt_id = i, evt_tx_id = Some tx, evt_tx_msg_index = Some 0, evt_type = type, evt_block_height = h, evt_source = TX_EVENT,
      evt_attributes = map (\<lambda>(k, v). \<lparr>attr_index = 0, attr_key = Some k, attr_value = Some v\<rparr>) attrs\<rparr>"

definition sample_packet_attributes :: "(string \<times> string) list" where
  "sample_packet_attributes =
     [(''packet_data_hex'', ''7b7d''), (''packet_src_channel'', ''channel-0''), (''packet_src_port'', ''transfer''),
      (''packet_dst_channel'', ''channel-9''), (''packet_dst_port'', ''transfer''), (''packet_sequence'', ''12'')]"

definition sample_ibc_db :: "(string \<times> int) list \<Rightarrow> event_row list \<Rightarrow> json message_row list \<Rightarrow> ibc_db" where
  "sample_ibc_db checkpoints events messages =
     \<lparr>block_checkpoint = map_of checkpoints, block_table = [],
      transaction_table = [sample_ibc_tx 1 2, sample_ibc_tx 2 5], transaction_seq = 3,
      event_table = events, event_seq = 10, message_table = messages, message_seq = 10,
      ibc_clients = [], ibc_client_seq = 1, ibc_connections = [], ibc_connection_seq = 1, ibc_channels = [], ibc_channel_seq = 1,
      ibc_messages = [], ibc_message_seq = 1, ibc_ics20s = [], ibc_ics20_seq = 1\<rparr>"

text \<open>A packet sent by the one message of an authorised execution.\<close>

definition sample_exec_packet_db :: ibc_db where
  "sample_exec_packet_db =
     sample_ibc_db [(''handle:transaction'', 5), (''crawl:ibc-tao'', 5)]
       [sample_ibc_event 1 1 2 SEND_PACKET sample_packet_attributes]
       [sample_ibc_message 1 1 0 MSG_AUTHZ_EXEC
          (JObj [(''msgs'', JArr [JObj [(''@type'', JStr ''/ibc.applications.transfer.v1.MsgTransfer'')]])])]"

text \<open>
  C13. However the runs of the packet job interleave with other jobs that leave its checkpoint, its rows and
  the events, messages and transactions of passed heights alone, the packets table holds, up to the
  ids, the rows it had at first and, for every packet event of the heights passed since and every
  message the event belongs to, exactly one row with the channels, ports, sequence and data of the
  event, the message and the hash of its transaction.
\<close>

theorem ibc_messages_exactly_once:
  assumes "job_trace (crawlIbcApp cfg ext) (\<lambda>_. True) (settled_env (ibc_app_pos cfg) stored_packets (range_packets ext)) db0 db"
  shows "ibc_app_pos cfg db0 \<le> ibc_app_pos cfg db \<and>
    stored_packets db = stored_packets db0 + range_packets ext db (ibc_app_pos cfg db0) (ibc_app_pos cfg db)"
  using assms by (rule ibc_app_job.exactly_once)

definition sample_packets_db :: ibc_db where
  "sample_packets_db = projr (crawlIbcApp sample_ibc_config sample_ibc_ext sample_exec_packet_db)"

lemma sample_packets: "crawlIbcApp sample_ibc_config sample_ibc_ext sample_exec_packet_db = Inr sample_packets_db"
proof -
  have "\<not> isl (crawlIbcApp sample_ibc_config sample_ibc_ext sample_exec_packet_db)" by code_simp
  then show ?thesis by (simp add: sample_packets_db_def)
qed

theorem ibc_messages_exactly_once_witness:
  "stored_packets sample_packets_db = range_packets sample_ibc_ext sample_packets_db 0 5 \<and>
    map im_sequence_key (ibc_messages sample_packets_db) = [''channel-0.transfer.channel-9.transfer.12'']"
proof -
  have "job_trace (crawlIbcApp sample_ibc_config sample_ibc_ext) (\<lambda>_. True)
      (settled_env (ibc_app_pos sample_ibc_config) stored_packets (range_packets sample_ibc_ext)) sample_exec_packet_db sample_packets_db"
    by (intro trace_one sample_packets) simp
  note once = ibc_messages_exactly_once [OF this]
  have "ibc_app_pos sample_ibc_config sample_exec_packet_db = 0" "ibc_app_pos sample_ibc_config sample_packets_db = 5"
    "map im_sequence_key (ibc_messages sample_packets_db) = [''channel-0.transfer.channel-9.transfer.12'']" by code_simp+
  moreover have "stored_packets sample_exec_packet_db = {#}"
    by (simp add: stored_packets_def sample_exec_packet_db_def sample_ibc_db_def)
  ultimately show ?thesis using once by simp
qed

text \<open>
  An event belongs to every message row with its transaction and its message index. When the job for
  authorised executions has stored the messages inside an execution, whose indices count from zero again,
  a packet event can have two messages, and the packets table then gets the packet twice.
\<close>

theorem packet_of_two_messages_repeated:
  assumes "crawlIbcApp cfg ext db = Inr db'"
    and "e \<in> set (event_table db)" and "evt_type e \<in> set packet_types"
    and "in_range (ibc_app_pos cfg db) (ibc_app_end cfg db) (evt_block_height e)"
    and "m \<in> set (joined_messages db e)" and "m' \<in> set (joined_messages db e)" and "msg_id m \<noteq> msg_id m'"
    and "message_tx db m \<noteq> None"
  shows "\<exists>im\<in>set (ibc_messages db'). \<exists>im'\<in>set (ibc_messages db').
    im_transaction_message_id im = msg_id m \<and> im_transaction_message_id im' = msg_id m' \<and>
    im_sequence_key im = im_sequence_key im' \<and> im_type im = im_type im'"
proof -
  from assms(8) obtain t where t: "message_tx db m = Some t" by blast
  have "msg_tx_id m' = msg_tx_id m" using assms(5,6) by (auto simp: joined_messages_def)
  with t have t': "message_tx db m' = Some t" by (simp add: message_tx_def)
  from crawlIbcApp_row [OF assms(1), of e m t] obtain im where im: "im \<in> set (ibc_messages db')"
    "im\<lparr>im_id := 0\<rparr> = packet_content ext (e, m, t)" using assms t by (auto simp: packet_events_iff)
  from crawlIbcApp_row [OF assms(1), of e m' t] obtain im' where im': "im' \<in> set (ibc_messages db')"
    "im'\<lparr>im_id := 0\<rparr> = packet_content ext (e, m', t)" using assms t' by (auto simp: packet_events_iff)
  from im(2) im'(2) have
    "im_transaction_message_id im = msg_id m \<and> im_transaction_message_id im' = msg_id m' \<and>
     im_sequence_key im = im_sequence_key im' \<and> im_type im = im_type im'"
    by (cases im; cases im') (simp add: packet_content_def Let_def)
  with im(1) im'(1) show ?thesis by blast
qed

definition sample_authorised_db :: ibc_db where
  "sample_authorised_db = projr (handle_authz_job sample_ibc_config sample_exec_packet_db)"

definition sample_repeated_db :: ibc_db where
  "sample_repeated_db = projr (crawlIbcApp sample_ibc_config sample_ibc_ext sample_authorised_db)"

theorem packet_of_two_messages_repeated_witness:
  "handle_authz_job sample_ibc_config sample_exec_packet_db = Inr sample_authorised_db \<and>
   (\<exists>im\<in>set (ibc_messages sample_repeated_db). \<exists>im'\<in>set (ibc_messages sample_repeated_db).
      im_transaction_message_id im = 1 \<and> im_transaction_message_id im' = 10 \<and> im_sequence_key im = im_sequence_key im')"
proof -
  let ?e = "event_table sample_authorised_db ! 0"
  let ?m = "message_table sample_authorised_db ! 0" and ?m' = "message_table sample_authorised_db ! 1"
  have "\<not> isl (handle_authz_job sample_ibc_config sample_exec_packet_db)"
    and "\<not> isl (crawlIbcApp sample_ibc_config sample_ibc_ext sample_authorised_db)" by code_simp+
  then have runs: "handle_authz_job sample_ibc_config sample_exec_packet_db = Inr sample_authorised_db"
      "crawlIbcApp sample_ibc_config sample_ibc_ext sample_authorised_db = Inr sample_repeated_db"
    by (simp_all add: sample_authorised_db_def sample_repeated_db_def)
  have len: "0 < length (event_table sample_authorised_db)" "length (message_table sample_authorised_db) = 2" by code_simp+
  have ids: "msg_id ?m = 1" "msg_id ?m' = 10" "evt_type ?e = SEND_PACKET" "evt_block_height ?e = 2"
    "evt_tx_id ?e = Some 1" "evt_tx_msg_index ?e = Some 0" "msg_tx_id ?m = 1" "msg_tx_id ?m' = 1" "msg_index ?m = 0" "msg_index ?m' = 0"
    "ibc_app_pos sample_ibc_config sample_authorised_db = 0" "ibc_app_end sample_ibc_config sample_authorised_db = 5" by code_simp+
  have "message_tx sample_authorised_db ?m \<noteq> None" by code_simp
  with packet_of_two_messages_repeated [OF runs(2), of ?e ?m ?m'] len ids runs(1) show ?thesis
    by (simp add: joined_messages_def packet_types_def in_range_def) blast
qed
text \<open>
  C22. A run of the job for clients, connections and channels that succeeds keeps the tables linked: client,
  connection and channel names stay unique, every connection has a client and every channel a
  connection, a channel is open or closed. No row is lost and nothing of a row changes but the state
  of a channel, from open to closed; and every channel that a closing event of the range names is closed.
\<close>

theorem ibc_tao_kept_linked:
  assumes "crawlIbcTao cfg db = Inr db'" and "tao_linked db"
  shows "tao_linked db' \<and> tao_grows db db' \<and>
    (\<not> skips (job_guard CRAWL_IBC_TAO) (job_start cfg CRAWL_IBC_TAO (block_checkpoint db)) (job_end cfg CRAWL_IBC_TAO (block_checkpoint db)) \<longrightarrow>
      (\<forall>(e, m)\<in>set (events_with_message tao_types (job_start cfg CRAWL_IBC_TAO (block_checkpoint db))
           (job_end cfg CRAWL_IBC_TAO (block_checkpoint db)) db).
       \<forall>c\<in>set (ibc_channels db').
         evt_type e \<in> {''channel_close'', ''channel_close_confirm'', ''channel_close_init''} \<and>
         Some (ich_channel_id c) = event_attr e ''channel_id'' \<longrightarrow> ich_state c = CHANNEL_CLOSE))"
  using assms(1) unfolding crawlIbcTao_def
proof (cases rule: range_job_cases)
  case skip
  with assms(2) show ?thesis by simp
next
  case (worked db1)
  have "tao_linked db' = tao_linked db1" "tao_grows db db' = tao_grows db db1" "ibc_channels db' = ibc_channels db1"
    by (simp_all add: worked(3) saveCheckpoint_def tao_linked_def tao_grows_def)
  with ibc_tao_work_ok [OF assms(2) worked(2)] show ?thesis by simp
qed

definition sample_tao_db :: ibc_db where
  "sample_tao_db =
     sample_ibc_db [(''handle:transaction'', 5)]
       [sample_ibc_event 1 1 2 ''create_client'' [(''client_id'', ''07-tendermint-0''), (''client_type'', ''07-tendermint'')],
        sample_ibc_event 2 1 2 ''connection_open_ack''
          [(''client_id'', ''07-tendermint-0''), (''connection_id'', ''connection-0''),
           (''counterparty_client_id'', ''07-tendermint-4''), (''counterparty_connection_id'', ''connection-7'')],
        sample_ibc_event 3 1 2 ''channel_open_ack''
          [(''connection_id'', ''connection-0''), (''channel_id'', ''channel-0''), (''port_id'', ''transfer''),
           (''counterparty_port_id'', ''transfer''), (''counterparty_channel_id'', ''channel-9'')],
        sample_ibc_event 4 1 2 ''channel_open_ack''
          [(''connection_id'', ''connection-0''), (''channel_id'', ''channel-1''), (''port_id'', ''transfer''),
           (''counterparty_port_id'', ''transfer''), (''counterparty_channel_id'', ''channel-10'')],
        sample_ibc_event 5 1 2 ''channel_close'' [(''channel_id'', ''channel-1'')]]
       [sample_ibc_message 1 1 0 ''/ibc.core.client.v1.MsgCreateClient''
          (JObj [(''client_state'', JObj [(''chain_id'', JStr ''cosmoshub-4'')]), (''consensus_state'', JObj [])])]"

definition sample_linked_db :: ibc_db where
  "sample_linked_db = projr (crawlIbcTao sample_ibc_config sample_tao_db)"

theorem ibc_tao_kept_linked_witness:
  "tao_linked sample_linked_db \<and> tao_grows sample_tao_db sample_linked_db \<and>
    map ich_state (ibc_channels sample_linked_db) = [CHANNEL_OPEN, CHANNEL_CLOSE]"
proof -
  have "\<not> isl (crawlIbcTao sample_ibc_config sample_tao_db)" by code_simp
  then have "crawlIbcTao sample_ibc_config sample_tao_db = Inr sample_linked_db" by (simp add: sample_linked_db_def)
  moreover have "tao_linked sample_tao_db" by code_simp
  ultimately have "tao_linked sample_linked_db \<and> tao_grows sample_tao_db sample_linked_db"
    using ibc_tao_kept_linked by blast
  moreover have "map ich_state (ibc_channels sample_linked_db) = [CHANNEL_OPEN, CHANNEL_CLOSE]" by code_simp
  ultimately show ?thesis by blast
qed

text \<open>
  A connection whose client is neither in the table nor created in the range, such as one created
  before the height the indexer starts at, makes every run over it throw: the job cannot pass it.
\<close>

theorem unknown_client_blocks:
  assumes "e \<in> set (map fst (of_types [''connection_open_confirm'', ''connection_open_ack'']
      (events_with_message tao_types a b db)))"
    and "\<forall>c\<in>set (ibc_clients db). Some (icl_client_id c) \<noteq> event_attr e ''client_id''"
    and "\<forall>(e', m)\<in>set (of_types [''create_client''] (events_with_message tao_types a b db)).
      event_attr e' ''client_id'' \<noteq> event_attr e ''client_id''"
  shows "isl (ibc_tao_work a b db)"
proof (rule ccontr)
  let ?ev = "events_with_message tao_types a b db"
  assume "\<not> isl (ibc_tao_work a b db)"
  then obtain db' where "ibc_tao_work a b db = Inr db'" by (metis sum.collapse(2))
  then obtain db1 db2 where
    runs: "handleNewIbcClient (of_types [''create_client''] ?ev) db = Inr db1"
      "handleNewIbcConnection (map fst (of_types [''connection_open_confirm'', ''connection_open_ack''] ?ev)) db1 = Inr db2"
    unfolding ibc_tao_work_def Let_def rbind_eq_Inr by blast
  from runs(1) obtain rows where rows: "rmap new_client (of_types [''create_client''] ?ev) = Inr rows"
    and ins: "rfold insert_client rows db = Inr db1" by (auto simp: handleNewIbcClient_def rbind_eq_Inr)
  have new: "Some (icl_client_id (f i)) \<noteq> event_attr e ''client_id''" if "f \<in> set rows" for f i
  proof -
    from rmap_inD [OF rows that] obtain e' m where
      e': "(e', m) \<in> set (of_types [''create_client''] ?ev)" "new_client (e', m) = Inr f" by auto
    then have "Some (icl_client_id (f i)) = event_attr e' ''client_id''" by (auto simp: new_client_def rbind_eq_Inr)
    with bspec [OF assms(3) e'(1)] show ?thesis by simp
  qed
  have unknown: "\<forall>c\<in>set (ibc_clients db1). Some (icl_client_id c) \<noteq> event_attr e ''client_id''"
    by (rule rfold_invariant [where I = "\<lambda>s. \<forall>c\<in>set (ibc_clients s). Some (icl_client_id c) \<noteq> event_attr e ''client_id''", OF ins])
      (use assms(2) new in \<open>auto simp: insert_client_def Let_def split: if_splits\<close>)
  from runs(2) obtain ids rows' where
    "rmap (new_connection (keyBy icl_client_id (filter (\<lambda>c. icl_client_id c \<in> ids) (ibc_clients db1))))
       (map fst (of_types [''connection_open_confirm'', ''connection_open_ack''] ?ev)) = Inr rows'"
    by (auto simp: handleNewIbcConnection_def rbind_eq_Inr Let_def)
  with assms(1) obtain f where "new_connection (keyBy icl_client_id (filter (\<lambda>c. icl_client_id c \<in> ids) (ibc_clients db1))) e = Inr f"
    by (auto simp only: rmap_eq_Inr list_all2_conv_all_nth in_set_conv_nth)
  then obtain c where "c \<in> set (ibc_clients db1)" "event_attr e ''client_id'' = Some (icl_client_id c)"
    by (auto simp: new_connection_def rbind_eq_Inr need_eq_Inr bind_eq_Some_conv dest!: keyBy_SomeD)
  with unknown show False by (metis (no_types))
qed

theorem unknown_client_blocks_witness:
  "isl (ibc_tao_work 0 5 (sample_tao_db\<lparr>event_table := tl (event_table sample_tao_db)\<rparr>))"
proof (rule unknown_client_blocks [where e = "event_table sample_tao_db ! 1"])
  show "event_table sample_tao_db ! 1 \<in> set (map fst (of_types [''connection_open_confirm'', ''connection_open_ack'']
      (events_with_message tao_types 0 5 (sample_tao_db\<lparr>event_table := tl (event_table sample_tao_db)\<rparr>))))"
    by (simp add: sample_tao_db_def sample_ibc_db_def sample_ibc_event_def sample_ibc_message_def events_with_message_def
        of_types_def tao_types_def joined_messages_def in_range_def)
qed (simp_all add: sample_tao_db_def sample_ibc_db_def sample_ibc_event_def sample_ibc_message_def events_with_message_def
    of_types_def tao_types_def joined_messages_def in_range_def)

end
