(* ===== verification/Ibc_Transfers.thy ===== *)
theory Ibc_Transfers
  imports Ibc_Packets
begin

text \<open>
  The token transfers of \<open>Ibc\<close>: a row for every packet of the transfer port that is sent or received,
  exactly once, whose content never changes; the status of a sent transfer is what the
  acknowledgement or the timeout of its packet says; an acknowledgement without a stored transfer stops
  the job; and the names of tokens on the way there and back.
\<close>

section \<open>What the handlers change\<close>

lemma numbered_Cons: "numbered n (f # fs) = f n # numbered (n + 1) fs"
  by (rule nth_equalityI) (auto simp: nth_Cons' algebra_simps of_nat_diff)

lemma numbered_Nil [simp]: "numbered n [] = []"
  by (simp add: numbered_def)

lemma insert_ics20s:
  "rfold insert_ics20 rows db = Inr db' \<Longrightarrow>
     db' = db\<lparr>ibc_ics20s := ibc_ics20s db @ numbered (ibc_ics20_seq db) rows,
              ibc_ics20_seq := ibc_ics20_seq db + int (length rows)\<rparr>"
proof (induction rows arbitrary: db)
  case (Cons f rows)
  then obtain db1 where one: "insert_ics20 f db = Inr db1" and rest: "rfold insert_ics20 rows db1 = Inr db'"
    by (auto simp: rbind_eq_Inr)
  from one have "db1 = db\<lparr>ibc_ics20s := ibc_ics20s db @ [f (ibc_ics20_seq db)], ibc_ics20_seq := ibc_ics20_seq db + 1\<rparr>"
    by (auto simp: insert_ics20_def Let_def split: if_splits)
  with Cons.IH [OF rest] show ?case by (simp add: numbered_Cons algebra_simps)
qed simp

lemma insert_ics20s_distinct:
  "rfold insert_ics20 rows db = Inr db' \<Longrightarrow> distinct (map is_ibc_message_id (ibc_ics20s db)) \<Longrightarrow>
    distinct (map is_ibc_message_id (ibc_ics20s db'))"
  by (erule rfold_invariant) (auto simp: insert_ics20_def Let_def split: if_splits)

lemma events_of_message_ics20 [simp]:
  "events_of_message (db\<lparr>ibc_ics20_seq := n\<rparr>) = events_of_message db"
  "events_of_message (db\<lparr>ibc_ics20s := rs\<rparr>) = events_of_message db"
  by (simp_all add: events_of_message_def fun_eq_iff)

lemma packets_cong:
  assumes "ibc_messages db' = ibc_messages db" and "message_table db' = message_table db"
    and "transaction_table db' = transaction_table db"
  shows "packets p a b db' = packets p a b db"
proof -
  have "message_tx db' = message_tx db" by (simp add: message_tx_def fun_eq_iff assms(3))
  then show ?thesis by (simp only: packets_def assms(1,2))
qed

lemma packets_ics20 [simp]:
  "packets p a b (db\<lparr>ibc_ics20_seq := n\<rparr>) = packets p a b db"
  "packets p a b (db\<lparr>ibc_ics20s := rs\<rparr>) = packets p a b db"
  by (rule packets_cong; simp)+

lemma recv_row_ics20 [simp]:
  "ics20_recv_row ext (db\<lparr>ibc_ics20_seq := n\<rparr>) = ics20_recv_row ext db"
  "ics20_recv_row ext (db\<lparr>ibc_ics20s := rs\<rparr>) = ics20_recv_row ext db"
  unfolding fun_eq_iff ics20_recv_row_def events_of_message_ics20 by simp_all

lemma ack_succeeded_ics20 [simp]:
  "ack_succeeded (db\<lparr>ibc_ics20_seq := n\<rparr>) = ack_succeeded db"
  "ack_succeeded (db\<lparr>ibc_ics20s := rs\<rparr>) = ack_succeeded db"
  by (simp_all add: ack_succeeded_def fun_eq_iff)

abbreviation send_packets :: "ibc_ext \<Rightarrow> int \<Rightarrow> int \<Rightarrow> 'a ibc_db_scheme \<Rightarrow> (ibc_message \<times> json message_row \<times> json transaction_row) list" where
  "send_packets ext \<equiv> packets (\<lambda>im. im_src_port_id im = ics20_port ext \<and> im_type im = SEND_PACKET)"

abbreviation recv_packets :: "ibc_ext \<Rightarrow> int \<Rightarrow> int \<Rightarrow> 'a ibc_db_scheme \<Rightarrow> (ibc_message \<times> json message_row \<times> json transaction_row) list" where
  "recv_packets ext \<equiv> packets (\<lambda>im. im_dst_port_id im = ics20_port ext \<and> im_type im = RECV_PACKET)"

abbreviation ack_packets :: "ibc_ext \<Rightarrow> int \<Rightarrow> int \<Rightarrow> 'a ibc_db_scheme \<Rightarrow> (ibc_message \<times> json message_row \<times> json transaction_row) list" where
  "ack_packets ext \<equiv> packets (\<lambda>im. im_src_port_id im = ics20_port ext \<and> im_type im = ACKNOWLEDGE_PACKET)"

abbreviation timeout_packets :: "ibc_ext \<Rightarrow> int \<Rightarrow> int \<Rightarrow> 'a ibc_db_scheme \<Rightarrow> (ibc_message \<times> json message_row \<times> json transaction_row) list" where
  "timeout_packets ext \<equiv> packets (\<lambda>im. im_src_port_id im = ics20_port ext \<and> im_type im = TIMEOUT_PACKET)"

text \<open>The keys of the acknowledgements with a given result.\<close>

definition ack_keys :: "bool \<Rightarrow> ibc_ext \<Rightarrow> int \<Rightarrow> int \<Rightarrow> 'a ibc_db_scheme \<Rightarrow> (string \<times> string) list" where
  "ack_keys ok ext a b db = map packet_key (filter (\<lambda>imt. ack_succeeded db imt = Inr ok) (ack_packets ext a b db))"

lemma zip_flags:
  "rmap f xs = Inr flags \<Longrightarrow>
     map snd (filter fst (zip flags (map g xs))) = map g (filter (\<lambda>x. f x = Inr True) xs) \<and>
     map snd (filter (Not \<circ> fst) (zip flags (map g xs))) = map g (filter (\<lambda>x. f x = Inr False) xs)"
  by (induction xs arbitrary: flags) (auto simp: rbind_eq_Inr)

lemma handleIcs20Ack_steps:
  assumes "handleIcs20Ack ext a b db = Inr db'"
  obtains db1 where "updateOriginSendStatus (ack_keys True ext a b db) STATUS_ACK_SUCCESS db = Inr db1"
    and "updateOriginSendStatus (ack_keys False ext a b db) STATUS_ACK_ERROR db1 = Inr db'"
    and "\<forall>imt\<in>set (ack_packets ext a b db). packet_key imt \<in> set (ack_keys True ext a b db) \<union> set (ack_keys False ext a b db)"
proof -
  let ?acks = "ack_packets ext a b db"
  from assms obtain flags d where flags: "rmap (ack_succeeded db) ?acks = Inr flags"
    and d: "updateOriginSendStatus (map snd (filter fst (zip flags (map packet_key ?acks)))) STATUS_ACK_SUCCESS db = Inr d"
      "updateOriginSendStatus (map snd (filter (Not \<circ> fst) (zip flags (map packet_key ?acks)))) STATUS_ACK_ERROR d = Inr db'"
    unfolding handleIcs20Ack_def Let_def rbind_eq_Inr by (elim exE conjE)
  have "\<exists>ok. ack_succeeded db imt = Inr ok" if "imt \<in> set ?acks" for imt
    using flags that by (auto simp: rmap_eq_Inr list_all2_conv_all_nth in_set_conv_nth)
  then have "packet_key imt \<in> set (ack_keys True ext a b db) \<union> set (ack_keys False ext a b db)" if "imt \<in> set ?acks" for imt
    using that by (fastforce simp: ack_keys_def)
  with d show thesis
    unfolding conjunct1 [OF zip_flags [OF flags]] conjunct2 [OF zip_flags [OF flags]]
    by (intro that) (simp_all add: ack_keys_def)
qed

lemma updateOriginSendStatus_frame:
  assumes "updateOriginSendStatus msgs type db = Inr db'"
  obtains rs where "db' = db\<lparr>ibc_ics20s := rs\<rparr>"
  using assms by (auto simp: updateOriginSendStatus_def Let_def rbind_eq_Inr)

text \<open>A run of the work: the new rows, then three updates of the table.\<close>

lemma ics20_work_steps:
  assumes "ics20_work ext a b db = Inr db'"
  obtains sends recvs db2 db3 db4 where
    "rmap (ics20_send_row ext) (send_packets ext a b db) = Inr sends"
    "rmap (ics20_recv_row ext db) (recv_packets ext a b db) = Inr recvs"
    "db2 = db\<lparr>ibc_ics20s := ibc_ics20s db @ numbered (ibc_ics20_seq db) (sends @ recvs),
       ibc_ics20_seq := ibc_ics20_seq db + int (length (sends @ recvs))\<rparr>"
    "updateOriginSendStatus (ack_keys True ext a b db) STATUS_ACK_SUCCESS db2 = Inr db3"
    "updateOriginSendStatus (ack_keys False ext a b db) STATUS_ACK_ERROR db3 = Inr db4"
    "updateOriginSendStatus (map packet_key (timeout_packets ext a b db)) STATUS_TIMEOUT db4 = Inr db'"
    "distinct (map is_ibc_message_id (ibc_ics20s db)) \<Longrightarrow> distinct (map is_ibc_message_id (ibc_ics20s db2))"
    "\<forall>imt\<in>set (ack_packets ext a b db). packet_key imt \<in> set (ack_keys True ext a b db) \<union> set (ack_keys False ext a b db)"
proof -
  from assms obtain d1 d2 d3 where d1: "handleIcs20Send ext a b db = Inr d1" and d2: "handleIcs20Recv ext a b d1 = Inr d2"
    and d3: "handleIcs20Ack ext a b d2 = Inr d3" and d4: "handleIcs20Timeout ext a b d3 = Inr db'"
    by (auto simp: ics20_work_def rbind_eq_Inr)
  from d1 obtain sends where sends: "rmap (ics20_send_row ext) (send_packets ext a b db) = Inr sends"
    and ins1: "rfold insert_ics20 sends db = Inr d1" by (auto simp: handleIcs20Send_def rbind_eq_Inr)
  note f1 = insert_ics20s [OF ins1]
  from d2 obtain recvs where recvs: "rmap (ics20_recv_row ext db) (recv_packets ext a b db) = Inr recvs"
    and ins2: "rfold insert_ics20 recvs d1 = Inr d2" by (auto simp: handleIcs20Recv_def rbind_eq_Inr f1)
  have split: "numbered n (xs @ ys) = numbered n xs @ numbered (n + int (length xs)) ys" for n xs and ys :: "(int \<Rightarrow> ibc_ics20) list"
    by (induction xs arbitrary: n) (simp_all add: numbered_Cons algebra_simps)
  have f2: "d2 = db\<lparr>ibc_ics20s := ibc_ics20s db @ numbered (ibc_ics20_seq db) (sends @ recvs),
       ibc_ics20_seq := ibc_ics20_seq db + int (length (sends @ recvs))\<rparr>"
    by (simp add: insert_ics20s [OF ins2] f1 split)
  have keys: "ack_keys ok ext a b d2 = ack_keys ok ext a b db" for ok by (simp add: ack_keys_def f2)
  have acks2: "ack_packets ext a b d2 = ack_packets ext a b db" by (simp add: f2)
  from handleIcs20Ack_steps [OF d3, unfolded keys acks2] obtain d
    where u: "updateOriginSendStatus (ack_keys True ext a b db) STATUS_ACK_SUCCESS d2 = Inr d"
      "updateOriginSendStatus (ack_keys False ext a b db) STATUS_ACK_ERROR d = Inr d3"
      and acks: "\<forall>imt\<in>set (ack_packets ext a b db). packet_key imt \<in> set (ack_keys True ext a b db) \<union> set (ack_keys False ext a b db)" .
  obtain rs where "d = d2\<lparr>ibc_ics20s := rs\<rparr>" using u(1) by (rule updateOriginSendStatus_frame)
  moreover obtain rs' where "d3 = d\<lparr>ibc_ics20s := rs'\<rparr>" using u(2) by (rule updateOriginSendStatus_frame)
  ultimately have "timeout_packets ext a b d3 = timeout_packets ext a b db" by (simp add: f2)
  with d4 have "updateOriginSendStatus (map packet_key (timeout_packets ext a b db)) STATUS_TIMEOUT d3 = Inr db'"
    by (simp add: handleIcs20Timeout_def)
  moreover have "distinct (map is_ibc_message_id (ibc_ics20s d2))" if "distinct (map is_ibc_message_id (ibc_ics20s db))"
    using insert_ics20s_distinct [OF ins2 insert_ics20s_distinct [OF ins1 that]] .
  ultimately show thesis using sends recvs f2 u acks by (intro that [of sends recvs d2 d d3])
qed
section \<open>The update of sent transfers\<close>

lemma finish_sends:
  assumes "rfold (finish_send type) msgs m = Inr m'"
  shows "(\<forall>k\<in>fst ` set msgs. m k \<noteq> None) \<and>
    m' = (\<lambda>k. map_option (\<lambda>r. case map_of (rev msgs) k of None \<Rightarrow> r | Some t \<Rightarrow> r\<lparr>is_finish_time := Some t, is_status := type\<rparr>) (m k))"
  using assms
proof (induction msgs arbitrary: m' rule: rev_induct)
  case Nil
  then show ?case by (simp add: option.map_ident)
next
  case (snoc x xs)
  obtain k t where x: "x = (k, t)" by force
  from snoc.prems obtain m1 where m1: "rfold (finish_send type) xs m = Inr m1" and last: "finish_send type x m1 = Inr m'"
    by (auto simp: rfold_append rbind_eq_Inr)
  note IH = snoc.IH [OF m1]
  from last obtain r where r: "m1 k = Some r" and m': "m' = m1(k \<mapsto> r\<lparr>is_finish_time := Some t, is_status := type\<rparr>)"
    by (auto simp: finish_send_def x rbind_eq_Inr need_eq_Inr)
  from r IH obtain r0 where r0: "m k = Some r0"
    "r = (case map_of (rev xs) k of None \<Rightarrow> r0 | Some t \<Rightarrow> r0\<lparr>is_finish_time := Some t, is_status := type\<rparr>)" by auto
  then have "r\<lparr>is_finish_time := Some t, is_status := type\<rparr> = r0\<lparr>is_finish_time := Some t, is_status := type\<rparr>"
    by (auto split: option.splits)
  with IH r0(1) show ?case by (auto simp: x m' fun_eq_iff)
qed

text \<open>What an update does to a row when the sent transfers have different keys.\<close>

definition settle :: "(string \<times> string \<times> string) list \<Rightarrow> ibc_ics20 \<Rightarrow> ibc_ics20" where
  "settle es u =
     (if is_type u = SEND_PACKET
      then (case map_of (rev es) (is_sequence_key u) of
              None \<Rightarrow> u
            | Some (s, t) \<Rightarrow> u\<lparr>is_finish_time := Some t, is_status := s\<rparr>)
      else u)"

definition send_row_keys :: "ibc_ics20 list \<Rightarrow> string list" where
  "send_row_keys rs = map is_sequence_key (filter (\<lambda>r. is_type r = SEND_PACKET) rs)"

lemma send_row_keys_map:
  "(\<And>r. is_type (f r) = is_type r) \<Longrightarrow> (\<And>r. is_sequence_key (f r) = is_sequence_key r) \<Longrightarrow> send_row_keys (map f rs) = send_row_keys rs"
  by (simp add: send_row_keys_def filter_map o_def)

lemma settle_keeps [simp]:
  "is_type (settle es u) = is_type u" "is_sequence_key (settle es u) = is_sequence_key u" "is_id (settle es u) = is_id u"
  by (simp_all add: settle_def split: option.split)

abbreviation with_status :: "string \<Rightarrow> (string \<times> string) list \<Rightarrow> (string \<times> string \<times> string) list" where
  "with_status s ks \<equiv> map (\<lambda>(k, t). (k, s, t)) ks"

lemma map_of_with_status: "map_of (rev (with_status s ks)) k = map_option (Pair s) (map_of (rev ks) k)"
  by (induction ks rule: rev_induct) auto

text \<open>An update that succeeds has found a sent transfer for every key.\<close>

lemma update_known:
  assumes "updateOriginSendStatus msgs type db = Inr db'"
  shows "fst ` set msgs \<subseteq> set (send_row_keys (ibc_ics20s db))"
proof
  let ?m = "keyBy is_sequence_key (filter (\<lambda>r. is_sequence_key r \<in> set (map fst msgs) \<and> is_type r = SEND_PACKET) (ibc_ics20s db))"
  from assms obtain m' where "rfold (finish_send type) msgs ?m = Inr m'"
    by (auto simp: updateOriginSendStatus_def Let_def rbind_eq_Inr)
  note fin = finish_sends [OF this]
  fix k assume "k \<in> fst ` set msgs"
  with fin have "?m k \<noteq> None" by blast
  then show "k \<in> set (send_row_keys (ibc_ics20s db))" by (auto simp: send_row_keys_def dest!: keyBy_SomeD)
qed

text \<open>Whatever the keys, an update changes only the status and the finish time of sent transfers.\<close>

lemma status_update_keeps:
  assumes "updateOriginSendStatus msgs type db = Inr db'" and "distinct (map is_id (ibc_ics20s db))"
  shows "\<exists>f. ibc_ics20s db' = map f (ibc_ics20s db) \<and>
    (\<forall>u\<in>set (ibc_ics20s db). f u = u \<or> is_type u = SEND_PACKET \<and> (\<exists>t. f u = u\<lparr>is_finish_time := Some t, is_status := type\<rparr>))"
proof -
  let ?rows = "filter (\<lambda>r. is_sequence_key r \<in> set (map fst msgs) \<and> is_type r = SEND_PACKET) (ibc_ics20s db)"
  let ?m = "keyBy is_sequence_key ?rows"
  from assms(1) obtain m' where m': "rfold (finish_send type) msgs ?m = Inr m'"
    and db': "ibc_ics20s db' = map (store_send m') (ibc_ics20s db)"
    by (auto simp: updateOriginSendStatus_def Let_def rbind_eq_Inr)
  note fin = conjunct2 [OF finish_sends [OF m']]
  have "store_send m' u = u \<or> is_type u = SEND_PACKET \<and> (\<exists>t. store_send m' u = u\<lparr>is_finish_time := Some t, is_status := type\<rparr>)"
    if u: "u \<in> set (ibc_ics20s db)" for u
  proof (cases "m' (is_sequence_key u)")
    case (Some row)
    with fin obtain r0 where r0: "?m (is_sequence_key u) = Some r0"
      "row = (case map_of (rev msgs) (is_sequence_key u) of None \<Rightarrow> r0 | Some t \<Rightarrow> r0\<lparr>is_finish_time := Some t, is_status := type\<rparr>)"
      by auto
    from keyBy_SomeD [OF r0(1)] have in0: "r0 \<in> set (ibc_ics20s db)" "is_type r0 = SEND_PACKET" by auto
    show ?thesis
    proof (cases "is_id row = is_id u")
      case True
      with r0(2) have "is_id r0 = is_id u" by (simp split: option.splits)
      with assms(2) in0(1) u have "r0 = u" by (auto simp: distinct_map inj_on_def)
      moreover have "store_send m' u = row" using True Some by (simp add: store_send_def)
      ultimately show ?thesis using r0(2) in0(2) by (cases "map_of (rev msgs) (is_sequence_key u)") auto
    qed (simp add: store_send_def Some)
  qed (simp add: store_send_def)
  with db' show ?thesis by blast
qed

lemma update_settles:
  assumes "updateOriginSendStatus msgs type db = Inr db'" and "distinct (map is_id (ibc_ics20s db))"
    and "distinct (send_row_keys (ibc_ics20s db))"
  shows "ibc_ics20s db' = map (settle (with_status type msgs)) (ibc_ics20s db)"
    and "fst ` set msgs \<subseteq> set (send_row_keys (ibc_ics20s db))"
proof -
  let ?rows = "filter (\<lambda>r. is_sequence_key r \<in> set (map fst msgs) \<and> is_type r = SEND_PACKET) (ibc_ics20s db)"
  let ?m = "keyBy is_sequence_key ?rows"
  from assms(1) obtain m' where m': "rfold (finish_send type) msgs ?m = Inr m'"
    and db': "ibc_ics20s db' = map (store_send m') (ibc_ics20s db)"
    by (auto simp: updateOriginSendStatus_def Let_def rbind_eq_Inr)
  note fin = finish_sends [OF m']
  have inj: "inj_on is_sequence_key {r \<in> set (ibc_ics20s db). is_type r = SEND_PACKET}"
    using assms(3) by (auto simp: send_row_keys_def distinct_map inj_on_def)
  have "store_send m' u = settle (with_status type msgs) u" if u: "u \<in> set (ibc_ics20s db)" for u
  proof (cases "u \<in> set ?rows")
    case True
    have "inj_on is_sequence_key (set ?rows)" by (rule inj_on_subset [OF inj]) auto
    from keyBy_unique [OF True this] have "?m (is_sequence_key u) = Some u" .
    with fin True show ?thesis
      by (auto simp: store_send_def settle_def map_of_with_status split: option.splits)
  next
    case False
    have "settle (with_status type msgs) u = u"
    proof (cases "is_type u = SEND_PACKET")
      case True
      with False u have "is_sequence_key u \<notin> fst ` set (rev msgs)" by auto
      then have "map_of (rev msgs) (is_sequence_key u) = None" by (simp add: map_of_eq_None_iff)
      then show ?thesis by (simp add: settle_def map_of_with_status)
    qed (simp add: settle_def)
    moreover have "store_send m' u = u"
    proof (cases "m' (is_sequence_key u)")
      case (Some row)
      with fin obtain r0 where r0: "?m (is_sequence_key u) = Some r0"
        "row = (case map_of (rev msgs) (is_sequence_key u) of None \<Rightarrow> r0 | Some t \<Rightarrow> r0\<lparr>is_finish_time := Some t, is_status := type\<rparr>)"
        by auto
      with keyBy_SomeD [OF r0(1)] False have "r0 \<in> set (ibc_ics20s db)" "r0 \<noteq> u" by auto
      with assms(2) u have "is_id r0 \<noteq> is_id u" by (auto simp: distinct_map inj_on_def)
      moreover have "is_id row = is_id r0" using r0(2) by (simp split: option.splits)
      ultimately show ?thesis by (simp add: store_send_def Some)
    qed (simp add: store_send_def)
    ultimately show ?thesis by simp
  qed
  with db' show "ibc_ics20s db' = map (settle (with_status type msgs)) (ibc_ics20s db)" by simp
  show "fst ` set msgs \<subseteq> set (send_row_keys (ibc_ics20s db))" using assms(1) by (rule update_known)
qed
section \<open>Rows of transfers\<close>

text \<open>What never changes of a row, less its id.\<close>

definition transfer_core :: "ibc_ics20 \<Rightarrow> ibc_ics20" where
  "transfer_core r =
     (if is_type r = SEND_PACKET then r\<lparr>is_id := 0, is_status := STATUS_ONGOING, is_finish_time := None\<rparr> else r\<lparr>is_id := 0\<rparr>)"

text \<open>A sent transfer is under way until it has ended; a received one is stored with its result.\<close>

definition transfer_ok :: "ibc_ics20 \<Rightarrow> bool" where
  "transfer_ok r \<longleftrightarrow>
     is_type r = SEND_PACKET \<and> is_start_time r \<noteq> None \<and>
       (is_status r = STATUS_ONGOING \<and> is_finish_time r = None \<or>
        is_status r \<in> {STATUS_ACK_SUCCESS, STATUS_ACK_ERROR, STATUS_TIMEOUT} \<and> is_finish_time r \<noteq> None) \<or>
     is_type r = RECV_PACKET \<and> is_start_time r = None \<and>
       is_status r \<in> {STATUS_ACK_SUCCESS, STATUS_ACK_ERROR} \<and> is_finish_time r \<noteq> None"

lemmas packet_type_defs = SEND_PACKET_def RECV_PACKET_def ACKNOWLEDGE_PACKET_def TIMEOUT_PACKET_def
lemmas status_defs = STATUS_ONGOING_def STATUS_ACK_SUCCESS_def STATUS_ACK_ERROR_def STATUS_TIMEOUT_def

lemma packets_iff:
  "(im, m, t) \<in> set (packets p a b db) \<longleftrightarrow>
     im \<in> set (ibc_messages db) \<and> find (\<lambda>m. msg_id m = im_transaction_message_id im) (message_table db) = Some m \<and>
     message_tx db m = Some t \<and> p im \<and> in_range a b (tx_height t)"
  by (force simp: packets_def set_map_filter_Some split: option.split_asm if_split_asm)

lemma packets_pred: "imt \<in> set (packets p a b db) \<Longrightarrow> p (fst imt)"
  by (cases imt) (simp add: packets_iff)

lemma send_row_facts:
  assumes "ics20_send_row ext imt = Inr f" and "im_type (fst imt) = SEND_PACKET"
  shows "is_id (f i) = i" and "is_type (f i) = SEND_PACKET" and "is_status (f i) = STATUS_ONGOING" and "is_finish_time (f i) = None"
    and "is_sequence_key (f i) = im_sequence_key (fst imt)" and "transfer_ok (f i)" and "transfer_core (f i) = f 0"
  using assms by (auto simp: ics20_send_row_def rbind_eq_Inr transfer_ok_def transfer_core_def split: prod.splits)

lemma recv_row_facts:
  assumes "ics20_recv_row ext db imt = Inr f" and "im_type (fst imt) = RECV_PACKET"
  shows "is_id (f i) = i" and "is_type (f i) = RECV_PACKET" and "transfer_ok (f i)" and "transfer_core (f i) = f 0"
  using assms
  by (auto simp: ics20_recv_row_def rbind_eq_Inr Let_def transfer_ok_def transfer_core_def packet_type_defs
      split: prod.splits option.splits if_splits)

text \<open>The rows a range of heights stands for.\<close>

definition range_transfers :: "ibc_ext \<Rightarrow> 'a ibc_db_scheme \<Rightarrow> int \<Rightarrow> int \<Rightarrow> ibc_ics20 multiset" where
  "range_transfers ext db a b =
     image_mset (\<lambda>imt. projr (ics20_send_row ext imt) 0) (mset (send_packets ext a b db)) +
     image_mset (\<lambda>imt. projr (ics20_recv_row ext db imt) 0) (mset (recv_packets ext a b db))"

definition stored_ics20s :: "'a ibc_db_scheme \<Rightarrow> ibc_ics20 multiset" where
  "stored_ics20s db = image_mset transfer_core (mset (ibc_ics20s db))"

lemma rmap_contents: "rmap f xs = Inr fs \<Longrightarrow> map (\<lambda>x. projr (f x) 0) xs = map (\<lambda>g. g 0) fs"
  by (induction xs arbitrary: fs) (auto simp: rbind_eq_Inr)

lemma new_transfers:
  assumes "rmap (ics20_send_row ext) (send_packets ext a b db) = Inr sends"
    and "rmap (ics20_recv_row ext db) (recv_packets ext a b db) = Inr recvs"
  shows "\<forall>f\<in>set (sends @ recvs). \<forall>i. is_id (f i) = i \<and> transfer_ok (f i) \<and> transfer_core (f i) = f 0"
    and "image_mset transfer_core (mset (numbered n (sends @ recvs))) = range_transfers ext db a b"
proof -
  have "is_id (f i) = i \<and> transfer_ok (f i) \<and> transfer_core (f i) = f 0" if "f \<in> set sends" for f i
    using rmap_inD [OF assms(1) that] send_row_facts by (fastforce dest: packets_pred)
  moreover have "is_id (f i) = i \<and> transfer_ok (f i) \<and> transfer_core (f i) = f 0" if "f \<in> set recvs" for f i
    using rmap_inD [OF assms(2) that] recv_row_facts by (fastforce dest: packets_pred)
  ultimately show new: "\<forall>f\<in>set (sends @ recvs). \<forall>i. is_id (f i) = i \<and> transfer_ok (f i) \<and> transfer_core (f i) = f 0"
    by auto
  have "map transfer_core (numbered n (sends @ recvs)) = map (\<lambda>f. f 0) (sends @ recvs)"
    by (rule map_numbered) (use new in blast)
  also have "\<dots> = map (\<lambda>imt. projr (ics20_send_row ext imt) 0) (send_packets ext a b db) @
      map (\<lambda>imt. projr (ics20_recv_row ext db imt) 0) (recv_packets ext a b db)"
    by (simp only: map_append rmap_contents [OF assms(1)] rmap_contents [OF assms(2)])
  finally have "mset (map transfer_core (numbered n (sends @ recvs))) =
      mset (map (\<lambda>imt. projr (ics20_send_row ext imt) 0) (send_packets ext a b db) @
        map (\<lambda>imt. projr (ics20_recv_row ext db imt) 0) (recv_packets ext a b db))" by (rule arg_cong)
  then show "image_mset transfer_core (mset (numbered n (sends @ recvs))) = range_transfers ext db a b"
    by (simp only: range_transfers_def mset_append mset_map)
qed

lemma update_core:
  assumes "updateOriginSendStatus msgs type db = Inr db'" and "distinct (map is_id (ibc_ics20s db))"
  shows "map transfer_core (ibc_ics20s db') = map transfer_core (ibc_ics20s db)"
    and "map is_id (ibc_ics20s db') = map is_id (ibc_ics20s db)"
    and "map is_ibc_message_id (ibc_ics20s db') = map is_ibc_message_id (ibc_ics20s db)"
proof -
  from status_update_keeps [OF assms] obtain f where f: "ibc_ics20s db' = map f (ibc_ics20s db)"
    "\<forall>u\<in>set (ibc_ics20s db). f u = u \<or> is_type u = SEND_PACKET \<and> (\<exists>t. f u = u\<lparr>is_finish_time := Some t, is_status := type\<rparr>)"
    by blast
  then have "transfer_core (f u) = transfer_core u \<and> is_id (f u) = is_id u \<and> is_ibc_message_id (f u) = is_ibc_message_id u"
    if "u \<in> set (ibc_ics20s db)" for u
    using that by (auto simp: transfer_core_def)
  with f(1) show "map transfer_core (ibc_ics20s db') = map transfer_core (ibc_ics20s db)"
    "map is_id (ibc_ics20s db') = map is_id (ibc_ics20s db)"
    "map is_ibc_message_id (ibc_ics20s db') = map is_ibc_message_id (ibc_ics20s db)" by simp_all
qed

text \<open>An update keeps rows in order and ends the transfers it touches.\<close>

lemma update_ok:
  assumes "updateOriginSendStatus msgs type db = Inr db'" and "distinct (map is_id (ibc_ics20s db))"
    and "type \<in> {STATUS_ACK_SUCCESS, STATUS_ACK_ERROR, STATUS_TIMEOUT}"
  shows "list_all2 (\<lambda>r r'. (transfer_ok r \<longrightarrow> transfer_ok r') \<and> is_id r' = is_id r \<and> transfer_core r' = transfer_core r \<and>
    (is_status r \<noteq> STATUS_ONGOING \<longrightarrow> is_status r' \<noteq> STATUS_ONGOING)) (ibc_ics20s db) (ibc_ics20s db')"
proof -
  from status_update_keeps [OF assms(1,2)] obtain f where f: "ibc_ics20s db' = map f (ibc_ics20s db)"
    "\<forall>u\<in>set (ibc_ics20s db). f u = u \<or> is_type u = SEND_PACKET \<and> (\<exists>t. f u = u\<lparr>is_finish_time := Some t, is_status := type\<rparr>)"
    by blast
  have "(transfer_ok u \<longrightarrow> transfer_ok (f u)) \<and> is_id (f u) = is_id u \<and> transfer_core (f u) = transfer_core u \<and>
      (is_status u \<noteq> STATUS_ONGOING \<longrightarrow> is_status (f u) \<noteq> STATUS_ONGOING)" if "u \<in> set (ibc_ics20s db)" for u
    using bspec [OF f(2) that] assms(3) by (auto simp: transfer_ok_def transfer_core_def status_defs packet_type_defs)
  then show ?thesis by (simp add: f(1) list_all2_map2 list.rel_refl_strong)
qed
section \<open>Every packet of a transfer exactly once\<close>

abbreviation ics20_pos :: "config \<Rightarrow> 'a ibc_db_scheme \<Rightarrow> int" where
  "ics20_pos cfg db \<equiv> job_start cfg CRAWL_IBC_ICS20 (block_checkpoint db)"

abbreviation ics20_end :: "config \<Rightarrow> 'a ibc_db_scheme \<Rightarrow> int" where
  "ics20_end cfg db \<equiv> job_end cfg CRAWL_IBC_ICS20 (block_checkpoint db)"

lemma ics20_work_frame:
  assumes "ics20_work ext a b db = Inr db'"
  obtains rs n where "db' = db\<lparr>ibc_ics20s := rs, ibc_ics20_seq := n\<rparr>"
  using assms
proof (rule ics20_work_steps)
  fix sends recvs :: "(int \<Rightarrow> ibc_ics20) list" and db2 db3 db4
  assume db2: "db2 = db\<lparr>ibc_ics20s := ibc_ics20s db @ numbered (ibc_ics20_seq db) (sends @ recvs),
       ibc_ics20_seq := ibc_ics20_seq db + int (length (sends @ recvs))\<rparr>"
    and u: "updateOriginSendStatus (ack_keys True ext a b db) STATUS_ACK_SUCCESS db2 = Inr db3"
    "updateOriginSendStatus (ack_keys False ext a b db) STATUS_ACK_ERROR db3 = Inr db4"
    "updateOriginSendStatus (map packet_key (timeout_packets ext a b db)) STATUS_TIMEOUT db4 = Inr db'"
  obtain r3 where "db3 = db2\<lparr>ibc_ics20s := r3\<rparr>" using u(1) by (rule updateOriginSendStatus_frame)
  moreover obtain r4 where "db4 = db3\<lparr>ibc_ics20s := r4\<rparr>" using u(2) by (rule updateOriginSendStatus_frame)
  moreover obtain r5 where "db' = db4\<lparr>ibc_ics20s := r5\<rparr>" using u(3) by (rule updateOriginSendStatus_frame)
  ultimately have "db' = db\<lparr>ibc_ics20s := r5, ibc_ics20_seq := ibc_ics20_seq db + int (length (sends @ recvs))\<rparr>"
    by (simp add: db2)
  then show thesis by (rule that)
qed

lemma crawlIbcIcs20_checkpoint:
  "crawlIbcIcs20 cfg ext db = Inr db' \<Longrightarrow> block_checkpoint db' = checkpoint_run cfg CRAWL_IBC_ICS20 (block_checkpoint db)"
  unfolding crawlIbcIcs20_def
  by (erule range_job_checkpoint) (auto elim!: ics20_work_frame)

lemma crawlIbcIcs20_frame:
  assumes "crawlIbcIcs20 cfg ext db = Inr db'"
  shows "packets p a b db' = packets p a b db" and "events_of_message db' = events_of_message db"
proof -
  have "ibc_messages db' = ibc_messages db \<and> message_table db' = message_table db \<and> transaction_table db' = transaction_table db \<and>
      event_table db' = event_table db"
    using assms unfolding crawlIbcIcs20_def
  proof (cases rule: range_job_cases)
    case (worked db1)
    from worked(2) obtain rs n where "db1 = db\<lparr>ibc_ics20s := rs, ibc_ics20_seq := n\<rparr>" by (rule ics20_work_frame)
    with worked(3) show ?thesis by (simp add: saveCheckpoint_def)
  qed simp
  then show "packets p a b db' = packets p a b db" and "events_of_message db' = events_of_message db"
    by (auto intro: packets_cong simp: events_of_message_def fun_eq_iff)
qed

lemma crawlIbcIcs20_settled:
  assumes "crawlIbcIcs20 cfg ext db = Inr db'"
  shows "range_transfers ext db' = range_transfers ext db"
proof -
  have "ics20_recv_row ext db' = ics20_recv_row ext db"
    unfolding fun_eq_iff ics20_recv_row_def crawlIbcIcs20_frame(2) [OF assms] by simp
  then show ?thesis by (intro ext) (simp only: range_transfers_def crawlIbcIcs20_frame(1) [OF assms])
qed

definition ics20_keyed :: "'a ibc_db_scheme \<Rightarrow> bool" where
  "ics20_keyed db \<longleftrightarrow> keyed is_id (ibc_ics20_seq db) (ibc_ics20s db)"

lemma keyed_numbered:
  "keyed key n xs \<Longrightarrow> \<forall>f\<in>set rows. \<forall>i. key (f i) = i \<Longrightarrow> keyed key (n + int (length rows)) (xs @ numbered n rows)"
  unfolding keyed_def using append_numbered_keys [of key xs n rows] by (simp add: list_all_iff)

text \<open>The state after the new rows, before the updates.\<close>

lemma inserted_ok:
  assumes "ics20_keyed db"
    and "rmap (ics20_send_row ext) (send_packets ext a b db) = Inr sends"
    and "rmap (ics20_recv_row ext db) (recv_packets ext a b db) = Inr recvs"
    and "db2 = db\<lparr>ibc_ics20s := ibc_ics20s db @ numbered (ibc_ics20_seq db) (sends @ recvs),
       ibc_ics20_seq := ibc_ics20_seq db + int (length (sends @ recvs))\<rparr>"
  shows "ics20_keyed db2" and "stored_ics20s db2 = stored_ics20s db + range_transfers ext db a b"
proof -
  from new_transfers(1) [OF assms(2,3)] have "\<forall>f\<in>set (sends @ recvs). \<forall>i. is_id (f i) = i" by blast
  from keyed_numbered [OF _ this] assms(1,4) show "ics20_keyed db2" by (simp add: ics20_keyed_def)
  show "stored_ics20s db2 = stored_ics20s db + range_transfers ext db a b"
    using new_transfers(2) [OF assms(2,3), of "ibc_ics20_seq db"] by (simp add: stored_ics20s_def assms(4))
qed

lemma update_stored:
  assumes "updateOriginSendStatus msgs type db = Inr db'" and "ics20_keyed db"
  shows "ics20_keyed db'" and "stored_ics20s db' = stored_ics20s db"
proof -
  have "distinct (map is_id (ibc_ics20s db))" using assms(2) by (simp add: ics20_keyed_def keyed_def)
  note core = update_core [OF assms(1) this]
  obtain rs where "db' = db\<lparr>ibc_ics20s := rs\<rparr>" using assms(1) by (rule updateOriginSendStatus_frame)
  then have "ibc_ics20_seq db' = ibc_ics20_seq db" by simp
  with core(2) assms(2) show "ics20_keyed db'" unfolding ics20_keyed_def keyed_map by simp
  from core(1) show "stored_ics20s db' = stored_ics20s db" unfolding stored_ics20s_def by (metis mset_map)
qed

lemma ics20_work_stored:
  assumes "ics20_work ext a b db = Inr db'" and "ics20_keyed db"
  shows "ics20_keyed db' \<and> stored_ics20s db' = stored_ics20s db + range_transfers ext db a b"
  using assms(1)
proof (rule ics20_work_steps)
  fix sends recvs db2 db3 db4
  assume new: "rmap (ics20_send_row ext) (send_packets ext a b db) = Inr sends"
      "rmap (ics20_recv_row ext db) (recv_packets ext a b db) = Inr recvs"
      "db2 = db\<lparr>ibc_ics20s := ibc_ics20s db @ numbered (ibc_ics20_seq db) (sends @ recvs),
         ibc_ics20_seq := ibc_ics20_seq db + int (length (sends @ recvs))\<rparr>"
    and u: "updateOriginSendStatus (ack_keys True ext a b db) STATUS_ACK_SUCCESS db2 = Inr db3"
    "updateOriginSendStatus (ack_keys False ext a b db) STATUS_ACK_ERROR db3 = Inr db4"
    "updateOriginSendStatus (map packet_key (timeout_packets ext a b db)) STATUS_TIMEOUT db4 = Inr db'"
  note 2 = inserted_ok [OF assms(2) new]
  note 3 = update_stored [OF u(1) 2(1)]
  note 4 = update_stored [OF u(2) 3(1)]
  note 5 = update_stored [OF u(3) 4(1)]
  from 5(1) 2(2) 3(2) 4(2) 5(2) show ?thesis by simp
qed

lemma crawlIbcIcs20_stored:
  assumes "ics20_keyed db" and "crawlIbcIcs20 cfg ext db = Inr db'"
  shows "stored_ics20s db' = stored_ics20s db +
    (if skips (job_guard CRAWL_IBC_ICS20) (ics20_pos cfg db) (ics20_end cfg db) then 0
     else range_transfers ext db (ics20_pos cfg db) (ics20_end cfg db))"
  using assms(2) unfolding crawlIbcIcs20_def
proof (cases rule: range_job_cases)
  case (worked db1)
  with ics20_work_stored [OF worked(2) assms(1)] show ?thesis by (simp add: stored_ics20s_def saveCheckpoint_def)
qed simp

lemma packets_split:
  assumes "a \<le> b" and "b \<le> c"
  shows "mset (packets p a c db) = mset (packets p a b db) + mset (packets p b c db)"
proof -
  let ?f = "\<lambda>a b im. case find (\<lambda>m. msg_id m = im_transaction_message_id im) (message_table db) of
       None \<Rightarrow> None
     | Some m \<Rightarrow> (case message_tx db m of None \<Rightarrow> None
         | Some t \<Rightarrow> if p im \<and> in_range a b (tx_height t) then Some (im, m, t) else None)"
  have "mset (List.map_filter (?f a c) ims) = mset (List.map_filter (?f a b) ims) + mset (List.map_filter (?f b c) ims)" for ims
    using assms by (induction ims) (auto simp: map_filter_simps in_range_def split: option.split)
  then show ?thesis by (simp only: packets_def mset_sort)
qed

lemma range_transfers_split:
  "a \<le> b \<Longrightarrow> b \<le> c \<Longrightarrow> range_transfers ext db a c = range_transfers ext db a b + range_transfers ext db b c"
  by (simp only: range_transfers_def packets_split [of a b c] image_mset_union ac_simps)

lemma ics20_guarded:
  "\<not> skips (job_guard CRAWL_IBC_ICS20) (ics20_pos cfg db) (ics20_end cfg db) \<Longrightarrow> ics20_pos cfg db \<le> ics20_end cfg db"
  using not_skips_le [of "job_guard CRAWL_IBC_ICS20"] by (simp add: CRAWL_IBC_ICS20_def)

interpretation ics20_job: appending_job cfg CRAWL_IBC_ICS20 "crawlIbcIcs20 cfg ext" ics20_keyed "range_transfers ext" stored_ics20s
  for cfg ext
  by unfold_locales
    (rule crawlIbcIcs20_checkpoint crawlIbcIcs20_stored crawlIbcIcs20_settled range_transfers_split ics20_guarded; assumption)+
section \<open>The life of a transfer\<close>

definition ics20_wf :: "'a ibc_db_scheme \<Rightarrow> bool" where
  "ics20_wf db \<longleftrightarrow> ics20_keyed db \<and> list_all transfer_ok (ibc_ics20s db) \<and> distinct (map is_ibc_message_id (ibc_ics20s db))"

definition transfer_evolves :: "ibc_ics20 \<Rightarrow> ibc_ics20 \<Rightarrow> bool" where
  "transfer_evolves r r' \<longleftrightarrow>
     is_id r' = is_id r \<and> transfer_core r' = transfer_core r \<and> (is_status r \<noteq> STATUS_ONGOING \<longrightarrow> is_status r' \<noteq> STATUS_ONGOING)"

definition transfers_evolve :: "'a ibc_db_scheme \<Rightarrow> 'a ibc_db_scheme \<Rightarrow> bool" where
  "transfers_evolve db db' \<longleftrightarrow> (\<forall>r\<in>set (ibc_ics20s db). \<exists>r'\<in>set (ibc_ics20s db'). transfer_evolves r r')"

lemma transfers_evolve_trans: "transfers_evolve db1 db2 \<Longrightarrow> transfers_evolve db2 db3 \<Longrightarrow> transfers_evolve db1 db3"
  by (fastforce simp: transfers_evolve_def transfer_evolves_def)

lemma transfers_evolve_mono: "set (ibc_ics20s db) \<subseteq> set (ibc_ics20s db') \<Longrightarrow> transfers_evolve db db'"
  by (fastforce simp: transfers_evolve_def transfer_evolves_def)

lemma list_all2_inD: "list_all2 P xs ys \<Longrightarrow> x \<in> set xs \<Longrightarrow> \<exists>y\<in>set ys. P x y"
  by (induction xs ys rule: list_all2_induct) auto

lemma update_wf:
  assumes "updateOriginSendStatus msgs type db = Inr db'" and "ics20_wf db"
    and "type \<in> {STATUS_ACK_SUCCESS, STATUS_ACK_ERROR, STATUS_TIMEOUT}"
  shows "ics20_wf db' \<and> transfers_evolve db db'"
proof -
  from assms(2) have dist: "distinct (map is_id (ibc_ics20s db))" by (simp add: ics20_wf_def ics20_keyed_def keyed_def)
  note rel = update_ok [OF assms(1) dist assms(3)]
  have "list_all transfer_ok (ibc_ics20s db')"
    using assms(2) rel by (auto simp: ics20_wf_def list_all_length list_all2_conv_all_nth)
  moreover have "ics20_keyed db'" "distinct (map is_ibc_message_id (ibc_ics20s db'))"
    using assms update_stored(1) [OF assms(1)] update_core(3) [OF assms(1) dist] by (simp_all add: ics20_wf_def)
  moreover have "transfers_evolve db db'"
    unfolding transfers_evolve_def transfer_evolves_def using list_all2_inD [OF rel] by blast
  ultimately show ?thesis by (simp add: ics20_wf_def)
qed

lemma ics20_work_wf:
  assumes "ics20_work ext a b db = Inr db'" and "ics20_wf db"
  shows "ics20_wf db' \<and> transfers_evolve db db'"
  using assms(1)
proof (rule ics20_work_steps)
  fix sends recvs db2 db3 db4
  assume new: "rmap (ics20_send_row ext) (send_packets ext a b db) = Inr sends"
      "rmap (ics20_recv_row ext db) (recv_packets ext a b db) = Inr recvs"
      "db2 = db\<lparr>ibc_ics20s := ibc_ics20s db @ numbered (ibc_ics20_seq db) (sends @ recvs),
         ibc_ics20_seq := ibc_ics20_seq db + int (length (sends @ recvs))\<rparr>"
    and u: "updateOriginSendStatus (ack_keys True ext a b db) STATUS_ACK_SUCCESS db2 = Inr db3"
    "updateOriginSendStatus (ack_keys False ext a b db) STATUS_ACK_ERROR db3 = Inr db4"
    "updateOriginSendStatus (map packet_key (timeout_packets ext a b db)) STATUS_TIMEOUT db4 = Inr db'"
    and dist: "distinct (map is_ibc_message_id (ibc_ics20s db)) \<Longrightarrow> distinct (map is_ibc_message_id (ibc_ics20s db2))"
  have keyed2: "ics20_keyed db2" using inserted_ok(1) [OF _ new] assms(2) by (simp add: ics20_wf_def)
  have "transfer_ok r" if "r \<in> set (numbered n (sends @ recvs))" for r n
  proof -
    from that obtain i where "i < length (sends @ recvs)" "r = ((sends @ recvs) ! i) (n + int i)" by (auto simp only: set_numbered)
    with new_transfers(1) [OF new(1,2)] nth_mem show ?thesis by blast
  qed
  with assms(2) have "list_all transfer_ok (ibc_ics20s db2)" by (auto simp: new(3) ics20_wf_def list_all_iff)
  with keyed2 dist assms(2) have "ics20_wf db2" by (simp add: ics20_wf_def)
  note 3 = update_wf [OF u(1) this]
  have 3: "ics20_wf db3" "transfers_evolve db2 db3" using 3 by simp_all
  have 4: "ics20_wf db4" "transfers_evolve db3 db4" using update_wf [OF u(2) 3(1)] by simp_all
  have 5: "ics20_wf db'" "transfers_evolve db4 db'" using update_wf [OF u(3) 4(1)] by simp_all
  have "transfers_evolve db db2" by (rule transfers_evolve_mono) (simp add: new(3))
  from transfers_evolve_trans [OF this transfers_evolve_trans [OF 3(2) transfers_evolve_trans [OF 4(2) 5(2)]]] 5(1)
  show ?thesis by blast
qed

section \<open>The status of sent transfers\<close>

text \<open>How the packets of a range end transfers: key, status and time.\<close>

definition endings :: "ibc_ext \<Rightarrow> int \<Rightarrow> int \<Rightarrow> 'a ibc_db_scheme \<Rightarrow> (string \<times> string \<times> string) list" where
  "endings ext a b db =
     with_status STATUS_ACK_SUCCESS (ack_keys True ext a b db) @ with_status STATUS_ACK_ERROR (ack_keys False ext a b db) @
     with_status STATUS_TIMEOUT (map packet_key (timeout_packets ext a b db))"

lemma settle_append: "settle es' (settle es u) = settle (es @ es') u"
  by (auto simp: settle_def map_add_def split: option.splits)

lemma map_settle [simp]: "send_row_keys (map (settle es) rs) = send_row_keys rs" "map is_id (map (settle es) rs) = map is_id rs"
  by (simp_all add: send_row_keys_map)

lemma send_row_keys_append: "send_row_keys (xs @ ys) = send_row_keys xs @ send_row_keys ys"
  by (simp add: send_row_keys_def)

definition send_keys :: "ibc_ext \<Rightarrow> int \<Rightarrow> int \<Rightarrow> 'a ibc_db_scheme \<Rightarrow> string list" where
  "send_keys ext a b db = map (im_sequence_key \<circ> fst) (send_packets ext a b db)"

lemma new_send_keys:
  assumes "rmap (ics20_send_row ext) (send_packets ext a b db) = Inr sends"
    and "rmap (ics20_recv_row ext db) (recv_packets ext a b db) = Inr recvs"
  shows "send_row_keys (numbered n (sends @ recvs)) = send_keys ext a b db"
    and "\<forall>r\<in>set (numbered n (sends @ recvs)). is_type r = SEND_PACKET \<longrightarrow> is_status r = STATUS_ONGOING \<and> is_finish_time r = None"
proof -
  have s: "is_type (f i) = SEND_PACKET \<and> is_status (f i) = STATUS_ONGOING \<and> is_finish_time (f i) = None" if "f \<in> set sends" for f i
    using rmap_inD [OF assms(1) that] send_row_facts by (fastforce dest: packets_pred)
  have r: "is_type (f i) \<noteq> SEND_PACKET" if "f \<in> set recvs" for f i
    using rmap_inD [OF assms(2) that] recv_row_facts(2) by (fastforce dest: packets_pred simp: packet_type_defs)
  have split: "numbered n (sends @ recvs) = numbered n sends @ numbered (n + int (length sends)) recvs"
    by (rule nth_equalityI) (auto simp: nth_append)
  have "filter (\<lambda>r. is_type r = SEND_PACKET) (numbered n sends) = numbered n sends"
    "filter (\<lambda>r. is_type r = SEND_PACKET) (numbered (n + int (length sends)) recvs) = []"
    using s r by (auto simp: filter_id_conv filter_empty_conv set_numbered)
  then have "send_row_keys (numbered n (sends @ recvs)) = map is_sequence_key (numbered n sends)"
    by (simp add: send_row_keys_def split)
  also have "\<dots> = map (\<lambda>f. is_sequence_key (f 0)) sends"
    using rmap_inD [OF assms(1)] send_row_facts(5) by (intro map_numbered) (fastforce dest: packets_pred)
  also have "\<dots> = send_keys ext a b db"
  proof -
    have "map (\<lambda>f. is_sequence_key (f 0)) fs = map (im_sequence_key \<circ> fst) xs"
      if "rmap (ics20_send_row ext) xs = Inr fs" and "\<forall>x\<in>set xs. im_type (fst x) = SEND_PACKET" for xs fs
      using that by (induction xs arbitrary: fs) (auto simp: rbind_eq_Inr dest: send_row_facts(5))
    from this [OF assms(1)] show ?thesis by (auto simp: send_keys_def dest: packets_pred)
  qed
  finally show "send_row_keys (numbered n (sends @ recvs)) = send_keys ext a b db" .
  show "\<forall>r\<in>set (numbered n (sends @ recvs)). is_type r = SEND_PACKET \<longrightarrow> is_status r = STATUS_ONGOING \<and> is_finish_time r = None"
    using s r by (auto simp: split set_numbered)
qed
text \<open>With different keys, the work appends the new rows and settles all rows by the endings of the range.\<close>

lemma ics20_work_settles:
  assumes "ics20_work ext a b db = Inr db'" and "ics20_keyed db"
    and "distinct (send_row_keys (ibc_ics20s db) @ send_keys ext a b db)"
  obtains new where "ibc_ics20s db' = map (settle (endings ext a b db)) (ibc_ics20s db @ new)"
    and "send_row_keys new = send_keys ext a b db"
    and "\<forall>r\<in>set new. is_type r = SEND_PACKET \<longrightarrow> is_status r = STATUS_ONGOING \<and> is_finish_time r = None"
    and "fst ` set (endings ext a b db) \<subseteq> set (send_row_keys (ibc_ics20s db) @ send_keys ext a b db)"
  using assms(1)
proof (rule ics20_work_steps)
  fix sends recvs :: "(int \<Rightarrow> ibc_ics20) list" and db2 db3 db4
  let ?new = "numbered (ibc_ics20_seq db) (sends @ recvs)"
  assume new: "rmap (ics20_send_row ext) (send_packets ext a b db) = Inr sends"
      "rmap (ics20_recv_row ext db) (recv_packets ext a b db) = Inr recvs"
      "db2 = db\<lparr>ibc_ics20s := ibc_ics20s db @ ?new,
         ibc_ics20_seq := ibc_ics20_seq db + int (length (sends @ recvs))\<rparr>"
    and u: "updateOriginSendStatus (ack_keys True ext a b db) STATUS_ACK_SUCCESS db2 = Inr db3"
    "updateOriginSendStatus (ack_keys False ext a b db) STATUS_ACK_ERROR db3 = Inr db4"
    "updateOriginSendStatus (map packet_key (timeout_packets ext a b db)) STATUS_TIMEOUT db4 = Inr db'"
  note keys = new_send_keys [OF new(1,2), of "ibc_ics20_seq db"]
  let ?old = "ibc_ics20s db"
  have ids2: "distinct (map is_id (ibc_ics20s db2))" using inserted_ok(1) [OF assms(2) new] by (simp add: ics20_keyed_def keyed_def)
  have t2: "ibc_ics20s db2 = ?old @ ?new" by (simp add: new(3))
  have k2: "send_row_keys (ibc_ics20s db2) = send_row_keys ?old @ send_keys ext a b db" by (simp add: t2 send_row_keys_append keys(1))
  have s3: "ibc_ics20s db3 = map (settle (with_status STATUS_ACK_SUCCESS (ack_keys True ext a b db))) (ibc_ics20s db2)"
    "fst ` set (ack_keys True ext a b db) \<subseteq> set (send_row_keys (ibc_ics20s db2))"
    using update_settles [OF u(1) ids2] k2 assms(3) by auto
  have s4: "ibc_ics20s db4 = map (settle (with_status STATUS_ACK_ERROR (ack_keys False ext a b db))) (ibc_ics20s db3)"
    "fst ` set (ack_keys False ext a b db) \<subseteq> set (send_row_keys (ibc_ics20s db3))"
    using update_settles [OF u(2)] ids2 k2 assms(3) unfolding s3(1) map_settle by auto
  have s5: "ibc_ics20s db' = map (settle (with_status STATUS_TIMEOUT (map packet_key (timeout_packets ext a b db)))) (ibc_ics20s db4)"
    "fst ` set (map packet_key (timeout_packets ext a b db)) \<subseteq> set (send_row_keys (ibc_ics20s db4))"
    using update_settles [OF u(3)] ids2 k2 assms(3) unfolding s4(1) s3(1) map_settle by auto
  have "ibc_ics20s db' = map (settle (endings ext a b db)) (?old @ ?new)"
    by (simp add: s5(1) s4(1) s3(1) t2 settle_append endings_def)
  moreover have "fst ` set (endings ext a b db) \<subseteq> set (send_row_keys ?old @ send_keys ext a b db)"
    using s3(2) s4(2) s5(2) unfolding s4(1) s3(1) map_settle k2
    by (simp add: endings_def image_Un image_image split_beta)
  ultimately show thesis using keys by (intro that [of ?new])
qed

text \<open>
  The protocol: a packet is sent at most once, and acknowledged or timed out at most once.
\<close>

definition packets_once :: "ibc_ext \<Rightarrow> 'a ibc_db_scheme \<Rightarrow> bool" where
  "packets_once ext db \<longleftrightarrow>
     distinct (map im_sequence_key (filter (\<lambda>im. im_src_port_id im = ics20_port ext \<and> im_type im = SEND_PACKET) (ibc_messages db))) \<and>
     distinct (map im_sequence_key (filter (\<lambda>im. im_src_port_id im = ics20_port ext \<and>
       im_type im \<in> {ACKNOWLEDGE_PACKET, TIMEOUT_PACKET}) (ibc_messages db)))"

lemma packets_messages: "mset (map fst (packets p a b db)) \<subseteq># mset (filter p (ibc_messages db))"
proof -
  let ?f = "\<lambda>im. case find (\<lambda>m. msg_id m = im_transaction_message_id im) (message_table db) of
       None \<Rightarrow> None
     | Some m \<Rightarrow> (case message_tx db m of None \<Rightarrow> None
         | Some t \<Rightarrow> if p im \<and> in_range a b (tx_height t) then Some (im, m, t) else None)"
  have "mset (map fst (List.map_filter ?f ims)) \<subseteq># mset (filter p ims)" for ims
    by (induction ims) (auto simp: map_filter_simps subset_mset.add_mono intro: subset_mset.order_trans split: option.split)
  then show ?thesis by (simp add: packets_def)
qed

lemma distinct_mset_mono:
  assumes "mset xs \<subseteq># mset ys" and "distinct ys"
  shows "distinct xs"
proof -
  have "count (mset xs) x = (if x \<in> set xs then 1 else 0)" for x
  proof (cases "x \<in> set xs")
    case True
    then have "count (mset xs) x \<noteq> 0" by (simp only: count_eq_zero_iff set_mset_mset not_not)
    moreover have "count (mset xs) x \<le> count (mset ys) x" using assms(1) by (rule mset_subset_eq_count)
    moreover have "count (mset ys) x \<le> 1" using assms(2) by (simp add: distinct_count_atmost_1)
    ultimately have "count (mset xs) x = 1" by linarith
    with True show ?thesis by (simp only: if_True)
  qed (simp add: count_eq_zero_iff)
  then show ?thesis by (simp add: distinct_count_atmost_1)
qed
lemma distinct_packet_keys:
  assumes "distinct (map im_sequence_key (filter p (ibc_messages db)))"
  shows "distinct (map (im_sequence_key \<circ> fst) (packets p a b db))"
proof (rule distinct_mset_mono [OF _ assms])
  show "mset (map (im_sequence_key \<circ> fst) (packets p a b db)) \<subseteq># mset (map im_sequence_key (filter p (ibc_messages db)))"
    using image_mset_subseteq_mono [OF packets_messages, of im_sequence_key p a b db]
    by (simp only: mset_map image_mset.compositionality o_def)
qed

lemma endings_keys:
  "mset (map fst (endings ext a b db)) \<subseteq># mset (map (im_sequence_key \<circ> fst) (ack_packets ext a b db)) +
     mset (map (im_sequence_key \<circ> fst) (timeout_packets ext a b db))"
proof -
  have flags: "mset (map g (filter (\<lambda>x. f x = Inr True) xs)) + mset (map g (filter (\<lambda>x. f x = Inr False) xs)) \<subseteq># mset (map g xs)"
    for f :: "'x \<Rightarrow> bool res" and g :: "'x \<Rightarrow> string" and xs
    by (induction xs) (auto intro: subset_mset.order_trans)
  have "mset (map fst (endings ext a b db)) =
      mset (map (im_sequence_key \<circ> fst) (filter (\<lambda>x. ack_succeeded db x = Inr True) (ack_packets ext a b db))) +
      mset (map (im_sequence_key \<circ> fst) (filter (\<lambda>x. ack_succeeded db x = Inr False) (ack_packets ext a b db))) +
      mset (map (im_sequence_key \<circ> fst) (timeout_packets ext a b db))"
    by (simp add: endings_def ack_keys_def o_def split_beta)
  with flags [of "im_sequence_key \<circ> fst" "ack_succeeded db" "ack_packets ext a b db"] show ?thesis
    by (simp only: subset_mset.add_right_mono)
qed

lemma distinct_endings:
  assumes "packets_once ext db"
  shows "distinct (map fst (endings ext a b db))"
proof (rule distinct_mset_mono)
  let ?ack = "\<lambda>im. im_src_port_id im = ics20_port ext \<and> im_type im = ACKNOWLEDGE_PACKET"
  let ?timeout = "\<lambda>im. im_src_port_id im = ics20_port ext \<and> im_type im = TIMEOUT_PACKET"
  let ?both = "\<lambda>im. im_src_port_id im = ics20_port ext \<and> im_type im \<in> {ACKNOWLEDGE_PACKET, TIMEOUT_PACKET}"
  have "mset (map (im_sequence_key \<circ> fst) (packets p a b db)) \<subseteq># mset (map im_sequence_key (filter p (ibc_messages db)))" for p
    using image_mset_subseteq_mono [OF packets_messages, of im_sequence_key p a b db]
    by (simp only: mset_map image_mset.compositionality o_def)
  from subset_mset.order_trans [OF endings_keys subset_mset.add_mono [OF this this]]
  have "mset (map fst (endings ext a b db)) \<subseteq>#
      mset (map im_sequence_key (filter ?ack (ibc_messages db))) + mset (map im_sequence_key (filter ?timeout (ibc_messages db)))" .
  also have "mset (map im_sequence_key (filter ?ack ims)) + mset (map im_sequence_key (filter ?timeout ims)) =
      mset (map im_sequence_key (filter ?both ims))" for ims
    by (induction ims) (auto simp: packet_type_defs)
  finally show "mset (map fst (endings ext a b db)) \<subseteq># mset (map im_sequence_key (filter ?both (ibc_messages db)))" .
  show "distinct (map im_sequence_key (filter ?both (ibc_messages db)))" using assms by (simp add: packets_once_def)
qed

lemma endings_split:
  assumes "a \<le> b" and "b \<le> c"
  shows "mset (endings ext a c db) = mset (endings ext a b db) + mset (endings ext b c db)"
    and "mset (send_keys ext a c db) = mset (send_keys ext a b db) + mset (send_keys ext b c db)"
  by (simp_all only: endings_def ack_keys_def send_keys_def mset_append mset_map mset_filter packets_split [OF assms]
      filter_union_mset image_mset_union ac_simps)

lemma endings_empty: "endings ext a a db = []" "send_keys ext a a db = []"
  using endings_split [of a a a] by simp_all

text \<open>A row shows what the endings say of its key.\<close>

definition ended_by :: "(string \<times> string \<times> string) list \<Rightarrow> ibc_ics20 \<Rightarrow> bool" where
  "ended_by es r \<longleftrightarrow>
     (is_status r, is_finish_time r) =
       (case map_of es (is_sequence_key r) of None \<Rightarrow> (STATUS_ONGOING, None) | Some (s, t) \<Rightarrow> (s, Some t))"

lemma map_of_distinct_eq:
  "distinct (map fst es) \<Longrightarrow> distinct (map fst es') \<Longrightarrow> set es = set es' \<Longrightarrow> map_of es k = map_of es' k"
  by (metis map_of_eqI set_map map_of_is_SomeI map_of_SomeD map_of_eq_None_iff option.exhaust)

lemma ended_by_settle:
  assumes "ended_by es r" and "is_type r = SEND_PACKET"
    and "distinct (map fst es)" and "distinct (map fst es'')" and "mset es'' = mset es + mset es'"
  shows "ended_by es'' (settle es' r)"
proof -
  have set: "set es'' = set es \<union> set es'" using arg_cong [OF assms(5), of set_mset] by simp
  have dist: "distinct (map fst (es @ es'))"
    using assms(4,5) by (metis distinct_mset_mono mset_append mset_map subset_mset.order_refl)
  have dist': "distinct (map fst (rev es'))" using dist by (simp add: rev_map [symmetric])
  have merged: "map_of es'' k = map_of (es @ es') k" for k
    by (rule map_of_distinct_eq [OF assms(4) dist]) (simp add: set)
  have rev: "map_of (rev es') k = map_of es' k" for k
    by (rule map_of_distinct_eq [OF dist']) (use dist in simp_all)
  show ?thesis
  proof (cases "map_of es' (is_sequence_key r)")
    case None
    with rev have "settle es' r = r" by (simp add: settle_def)
    moreover have "map_of (es @ es') (is_sequence_key r) = map_of es (is_sequence_key r)"
      using None by (cases "map_of es (is_sequence_key r)") (simp_all add: map_add_def)
    ultimately show ?thesis using assms(1) by (simp only: ended_by_def merged)
  next
    case (Some v)
    then have "is_sequence_key r \<in> fst ` set es'" by (metis domI dom_map_of_conv_image_fst)
    with dist have "is_sequence_key r \<notin> fst ` set es" by auto
    then have "map_of es (is_sequence_key r) = None" by (simp add: map_of_eq_None_iff)
    with Some rev assms(2) show ?thesis by (cases v) (simp add: ended_by_def settle_def merged map_add_def)
  qed
qed
text \<open>What holds after the heights from \<open>a\<close> up to the checkpoint of the job have been passed.\<close>

definition statuses_follow :: "config \<Rightarrow> ibc_ext \<Rightarrow> int \<Rightarrow> 'a ibc_db_scheme \<Rightarrow> bool" where
  "statuses_follow cfg ext a db \<longleftrightarrow>
     mset (send_row_keys (ibc_ics20s db)) = mset (send_keys ext a (ics20_pos cfg db) db) \<and>
     (\<forall>r\<in>set (ibc_ics20s db). is_type r = SEND_PACKET \<longrightarrow> ended_by (endings ext a (ics20_pos cfg db) db) r)"

definition endings_known :: "config \<Rightarrow> ibc_ext \<Rightarrow> int \<Rightarrow> 'a ibc_db_scheme \<Rightarrow> bool" where
  "endings_known cfg ext a db \<longleftrightarrow>
     distinct (map fst (endings ext a (ics20_pos cfg db) db)) \<and>
     fst ` set (endings ext a (ics20_pos cfg db) db) \<subseteq> set (send_row_keys (ibc_ics20s db))"

text \<open>One run over the heights after \<open>b\<close> and up to \<open>c\<close>.\<close>

lemma ics20_work_statuses:
  assumes work: "ics20_work ext b c db = Inr db'" and "ics20_keyed db" and once: "packets_once ext db" and "a \<le> b" "b \<le> c"
    and keys: "mset (send_row_keys (ibc_ics20s db)) = mset (send_keys ext a b db)"
    and old: "\<forall>r\<in>set (ibc_ics20s db). is_type r = SEND_PACKET \<longrightarrow> ended_by (endings ext a b db) r"
    and known: "fst ` set (endings ext a b db) \<subseteq> set (send_row_keys (ibc_ics20s db))"
  shows "mset (send_row_keys (ibc_ics20s db')) = mset (send_keys ext a c db)"
    and "\<forall>r\<in>set (ibc_ics20s db'). is_type r = SEND_PACKET \<longrightarrow> ended_by (endings ext a c db) r"
    and "fst ` set (endings ext a c db) \<subseteq> set (send_row_keys (ibc_ics20s db'))"
proof -
  note split = endings_split [OF assms(4,5), of ext db]
  note dist = distinct_endings [OF once]
  have "distinct (send_keys ext a c db)" using once unfolding send_keys_def packets_once_def by (blast intro: distinct_packet_keys)
  then have d: "distinct (send_row_keys (ibc_ics20s db) @ send_keys ext b c db)"
    by (rule distinct_mset_mono [rotated]) (simp add: keys split(2))
  obtain new where t: "ibc_ics20s db' = map (settle (endings ext b c db)) (ibc_ics20s db @ new)"
    and new: "send_row_keys new = send_keys ext b c db"
      "\<forall>r\<in>set new. is_type r = SEND_PACKET \<longrightarrow> is_status r = STATUS_ONGOING \<and> is_finish_time r = None"
    and ends: "fst ` set (endings ext b c db) \<subseteq> set (send_row_keys (ibc_ics20s db) @ send_keys ext b c db)"
    using ics20_work_settles [OF work assms(2) d] .
  have k': "send_row_keys (ibc_ics20s db') = send_row_keys (ibc_ics20s db) @ send_keys ext b c db"
    by (simp only: t map_settle send_row_keys_append new(1))
  show "mset (send_row_keys (ibc_ics20s db')) = mset (send_keys ext a c db)" by (simp add: k' keys split(2))
  have "ended_by (endings ext a b db) r" if "r \<in> set new" "is_type r = SEND_PACKET" for r
  proof -
    from that have "is_sequence_key r \<in> set (send_keys ext b c db)" by (auto simp: send_row_keys_def simp flip: new(1))
    with d known have "is_sequence_key r \<notin> fst ` set (endings ext a b db)" by auto
    then have "map_of (endings ext a b db) (is_sequence_key r) = None" by (simp only: map_of_eq_None_iff) simp
    with new(2) that show ?thesis by (simp add: ended_by_def)
  qed
  with old have "ended_by (endings ext a b db) r" if "r \<in> set (ibc_ics20s db @ new)" "is_type r = SEND_PACKET" for r
    using that by auto
  from ended_by_settle [OF this _ dist dist split(1)]
  show "\<forall>r\<in>set (ibc_ics20s db'). is_type r = SEND_PACKET \<longrightarrow> ended_by (endings ext a c db) r" by (auto simp only: t set_map settle_keeps)
  have "set (endings ext a c db) = set (endings ext a b db) \<union> set (endings ext b c db)"
    using arg_cong [OF split(1), of set_mset] by simp
  with known ends show "fst ` set (endings ext a c db) \<subseteq> set (send_row_keys (ibc_ics20s db'))" by (auto simp: k')
qed

lemma ics20_run_statuses:
  assumes run: "crawlIbcIcs20 cfg ext db = Inr db'" and "packets_once ext db" and "a \<le> ics20_pos cfg db"
    and "ics20_keyed db" "statuses_follow cfg ext a db" "endings_known cfg ext a db"
  shows "a \<le> ics20_pos cfg db' \<and> ics20_keyed db' \<and> statuses_follow cfg ext a db' \<and> endings_known cfg ext a db'"
proof -
  have frame: "endings ext x y db' = endings ext x y db" "send_keys ext x y db' = send_keys ext x y db" for x y
  proof -
    have "ack_succeeded db' = ack_succeeded db" by (simp add: fun_eq_iff ack_succeeded_def crawlIbcIcs20_frame(2) [OF run])
    then show "endings ext x y db' = endings ext x y db" "send_keys ext x y db' = send_keys ext x y db"
      by (simp_all only: endings_def send_keys_def ack_keys_def crawlIbcIcs20_frame(1) [OF run])
  qed
  note pos = crawlIbcIcs20_checkpoint [OF run]
  from run show ?thesis unfolding crawlIbcIcs20_def
  proof (cases rule: range_job_cases)
    case skip
    with assms show ?thesis by simp
  next
    case (worked db1)
    have e: "ics20_pos cfg db' = ics20_end cfg db" using worked(1) by (simp add: pos job_start_checkpoint_run)
    have le: "ics20_pos cfg db \<le> ics20_end cfg db" by (rule ics20_guarded [OF worked(1)])
    have same: "ibc_ics20s db' = ibc_ics20s db1" "ibc_ics20_seq db' = ibc_ics20_seq db1" by (simp_all add: worked(3) saveCheckpoint_def)
    have "ics20_keyed db'" using ics20_work_stored [OF worked(2) assms(4)] by (simp add: ics20_keyed_def same)
    moreover note ics20_work_statuses [OF worked(2) assms(4,2,3) le]
    ultimately show ?thesis
      using assms(3,5,6) le distinct_endings [OF assms(2)] unfolding statuses_follow_def endings_known_def e frame same by auto
  qed
qed
section \<open>A transfer stored twice\<close>

text \<open>A sent transfer is shadowed when a later row has its key: the updates find the later row.\<close>

definition shadowed :: "'a ibc_db_scheme \<Rightarrow> ibc_ics20 \<Rightarrow> bool" where
  "shadowed db u \<longleftrightarrow>
     (\<exists>xs ys. ibc_ics20s db = xs @ u # ys \<and> (\<exists>v\<in>set ys. is_type v = SEND_PACKET \<and> is_sequence_key v = is_sequence_key u))"

lemma keyBy_later: "v \<in> set ys \<Longrightarrow> f v = k \<Longrightarrow> \<exists>r\<in>set ys. keyBy f (xs @ ys) k = Some r"
proof (induction ys rule: rev_induct)
  case (snoc y ys)
  have "keyBy f (xs @ ys @ [y]) = (keyBy f (xs @ ys))(f y \<mapsto> y)" using keyBy_snoc [of f "xs @ ys" y] by simp
  with snoc show ?case by auto
qed simp

lemma update_shadowed:
  assumes "updateOriginSendStatus msgs type db = Inr db'" and "distinct (map is_id (ibc_ics20s db))" and "shadowed db u"
  shows "shadowed db' u"
proof -
  from assms(3) obtain xs ys v where rows: "ibc_ics20s db = xs @ u # ys" and v: "v \<in> set ys" "is_type v = SEND_PACKET" "is_sequence_key v = is_sequence_key u"
    by (auto simp: shadowed_def)
  let ?p = "\<lambda>r. is_sequence_key r \<in> set (map fst msgs) \<and> is_type r = SEND_PACKET"
  let ?m = "keyBy is_sequence_key (filter ?p (ibc_ics20s db))"
  from assms(1) obtain m' where m': "rfold (finish_send type) msgs ?m = Inr m'"
    and db': "ibc_ics20s db' = map (store_send m') (ibc_ics20s db)"
    by (auto simp: updateOriginSendStatus_def Let_def rbind_eq_Inr)
  note fin = conjunct2 [OF finish_sends [OF m']]
  have keeps: "is_type (store_send m' w) = is_type w \<and> is_sequence_key (store_send m' w) = is_sequence_key w" if "w \<in> set (ibc_ics20s db)" for w
  proof -
    from status_update_keeps [OF assms(1,2)] obtain f where "map f (ibc_ics20s db) = map (store_send m') (ibc_ics20s db)"
      "\<forall>w\<in>set (ibc_ics20s db). f w = w \<or> is_type w = SEND_PACKET \<and> (\<exists>t. f w = w\<lparr>is_finish_time := Some t, is_status := type\<rparr>)"
      using db' by metis
    with that have "f w = store_send m' w" "f w = w \<or> (\<exists>t. f w = w\<lparr>is_finish_time := Some t, is_status := type\<rparr>)" by auto
    then show ?thesis by auto
  qed
  have "store_send m' u = u"
  proof (cases "m' (is_sequence_key u)")
    case (Some row)
    with fin obtain r0 where r0: "?m (is_sequence_key u) = Some r0" "is_id row = is_id r0" by (auto split: option.splits)
    have "is_sequence_key r0 \<in> set (map fst msgs)" using conjunct1 [OF keyBy_SomeD [OF r0(1)]] by simp
    then have "is_sequence_key u \<in> set (map fst msgs)" using conjunct2 [OF keyBy_SomeD [OF r0(1)]] by simp
    with v have "v \<in> set (filter ?p ys)" by simp
    from keyBy_later [where f = is_sequence_key, OF this v(3), of "filter ?p (xs @ [u])"] obtain r where "r \<in> set ys" "?m (is_sequence_key u) = Some r"
      by (auto simp: rows simp flip: filter_append)
    then have "is_id row \<in> is_id ` set ys" using r0 by simp
    moreover have "is_id u \<notin> is_id ` set ys" using assms(2) by (simp add: rows)
    ultimately have "is_id row \<noteq> is_id u" by metis
    then show ?thesis by (simp add: store_send_def Some)
  qed (simp add: store_send_def)
  then have "ibc_ics20s db' = map (store_send m') xs @ u # map (store_send m') ys" by (simp add: db' rows)
  moreover have "store_send m' v \<in> set (map (store_send m') ys)" "is_type (store_send m' v) = SEND_PACKET"
    "is_sequence_key (store_send m' v) = is_sequence_key u" using keeps [of v] v by (auto simp: rows)
  ultimately show ?thesis unfolding shadowed_def by blast
qed

lemma ics20_work_shadowed:
  assumes "ics20_work ext a b db = Inr db'" and "ics20_keyed db" and "shadowed db u"
  shows "shadowed db' u"
  using assms(1)
proof (rule ics20_work_steps)
  fix sends recvs db2 db3 db4
  assume new: "rmap (ics20_send_row ext) (send_packets ext a b db) = Inr sends"
      "rmap (ics20_recv_row ext db) (recv_packets ext a b db) = Inr recvs"
      "db2 = db\<lparr>ibc_ics20s := ibc_ics20s db @ numbered (ibc_ics20_seq db) (sends @ recvs),
         ibc_ics20_seq := ibc_ics20_seq db + int (length (sends @ recvs))\<rparr>"
    and u: "updateOriginSendStatus (ack_keys True ext a b db) STATUS_ACK_SUCCESS db2 = Inr db3"
    "updateOriginSendStatus (ack_keys False ext a b db) STATUS_ACK_ERROR db3 = Inr db4"
    "updateOriginSendStatus (map packet_key (timeout_packets ext a b db)) STATUS_TIMEOUT db4 = Inr db'"
  from inserted_ok(1) [OF assms(2) new] have 2: "ics20_keyed db2" .
  note 3 = update_stored(1) [OF u(1) 2]
  note 4 = update_stored(1) [OF u(2) 3]
  have ids: "distinct (map is_id (ibc_ics20s d))" if "ics20_keyed d" for d :: "'a ibc_db_scheme"
    using that by (simp add: ics20_keyed_def keyed_def)
  from assms(3) have "shadowed db2 u" unfolding shadowed_def new(3) by fastforce
  from update_shadowed [OF u(3) ids [OF 4] update_shadowed [OF u(2) ids [OF 3] update_shadowed [OF u(1) ids [OF 2] this]]]
  show ?thesis .
qed

section \<open>Names of tokens\<close>

lemma split_slash_nonempty [simp]: "split_slash s \<noteq> []"
  by (induction s) (auto split: list.split)

lemma join_split_slash: "join_slash (split_slash s) = s"
proof (induction s)
  case (Cons c s)
  obtain w ws where "split_slash s = w # ws" by (cases "split_slash s") auto
  with Cons show ?case by (cases ws) auto
qed simp

lemma split_slash_word: "CHR ''/'' \<notin> set w \<Longrightarrow> split_slash (w @ CHR ''/'' # s) = w # split_slash s"
  by (induction w) auto
section \<open>Properties\<close>

definition sample_ibc_row :: "int \<Rightarrow> int \<Rightarrow> string \<Rightarrow> ibc_message" where
  "sample_ibc_row i m type =
     \<lparr>im_id = i, im_transaction_message_id = m, im_src_channel_id = ''channel-0'', im_src_port_id = ''transfer'',
      im_dst_channel_id = ''channel-9'', im_dst_port_id = ''transfer'', im_type = type, im_sequence = 12,
      im_sequence_key = ''channel-0.transfer.channel-9.transfer.12'', im_data = jsonb_value sample_ibc_ext [], im_tx_hash = []\<rparr>"

text \<open>A transfer sent at height 2 and acknowledged at height 5.\<close>

definition sample_transfer_db :: ibc_db where
  "sample_transfer_db =
     (sample_ibc_db [(''crawl:ibc-app'', 5)]
       [sample_ibc_event 1 2 5 FUNGIBLE_TOKEN_PACKET [(''amount'', ''5'')],
        sample_ibc_event 2 2 5 FUNGIBLE_TOKEN_PACKET [(''success'', ''AQ=='')]]
       [sample_ibc_message 1 1 0 ''/ibc.applications.transfer.v1.MsgTransfer'' JNull,
        sample_ibc_message 2 2 0 ''/ibc.core.channel.v1.MsgAcknowledgement'' JNull])
     \<lparr>ibc_messages := [sample_ibc_row 1 1 SEND_PACKET, sample_ibc_row 2 2 ACKNOWLEDGE_PACKET], ibc_message_seq := 3\<rparr>"

definition sample_ended_db :: ibc_db where
  "sample_ended_db = projr (crawlIbcIcs20 sample_ibc_config sample_ibc_ext sample_transfer_db)"

lemma sample_ended: "crawlIbcIcs20 sample_ibc_config sample_ibc_ext sample_transfer_db = Inr sample_ended_db"
proof -
  have "\<not> isl (crawlIbcIcs20 sample_ibc_config sample_ibc_ext sample_transfer_db)" by code_simp
  then show ?thesis by (simp add: sample_ended_db_def)
qed

lemma sample_ended_pos:
  "ics20_pos sample_ibc_config sample_transfer_db = 0" "ics20_pos sample_ibc_config sample_ended_db = 5" by code_simp+

lemma sample_transfer_wf: "ics20_wf sample_transfer_db" "ics20_keyed sample_transfer_db" "ibc_ics20s sample_transfer_db = []"
  by code_simp+

text \<open>
  C9. Take a database without transfers and let the transfer job run any number of times while other jobs leave
  its checkpoint, its rows and the packets of passed heights alone, and suppose that no packet is sent
  twice or ended twice. Then there is one row for every transfer sent in the heights passed, and its
  status and finish time are what the chain says: those of the acknowledgement or the timeout of its
  packet when there is one in the heights passed, otherwise under way without a finish time.
\<close>

theorem ics20_status_follows_packets:
  assumes "job_trace (crawlIbcIcs20 cfg ext) (packets_once ext)
      (settled_env (ics20_pos cfg) (\<lambda>db. (ibc_ics20s db, ibc_ics20_seq db)) (\<lambda>db a b. (send_keys ext a b db, endings ext a b db))) db0 db"
    and "ibc_ics20s db0 = []"
  shows "ics20_pos cfg db0 \<le> ics20_pos cfg db \<and>
    mset (send_row_keys (ibc_ics20s db)) = mset (send_keys ext (ics20_pos cfg db0) (ics20_pos cfg db) db) \<and>
    (\<forall>r\<in>set (ibc_ics20s db). is_type r = SEND_PACKET \<longrightarrow>
       (is_status r, is_finish_time r) =
         (case map_of (endings ext (ics20_pos cfg db0) (ics20_pos cfg db) db) (is_sequence_key r) of
            None \<Rightarrow> (STATUS_ONGOING, None)
          | Some (s, t) \<Rightarrow> (s, Some t)))"
proof -
  let ?a = "ics20_pos cfg db0"
  have "?a \<le> ics20_pos cfg db \<and> ics20_keyed db \<and> statuses_follow cfg ext ?a db \<and> endings_known cfg ext ?a db"
    using assms(1)
  proof (induction rule: job_trace.induct)
    case trace_start
    show ?case
      by (simp add: assms(2) ics20_keyed_def keyed_def statuses_follow_def endings_known_def endings_empty send_row_keys_def)
  next
    case (trace_run db db')
    then show ?case by (intro ics20_run_statuses [where db = db]) blast+
  next
    case (trace_env db db')
    then show ?case by (simp add: settled_env_def ics20_keyed_def statuses_follow_def endings_known_def)
  qed
  then show ?thesis by (simp add: statuses_follow_def ended_by_def)
qed

theorem ics20_status_follows_packets_witness:
  "map is_status (ibc_ics20s sample_ended_db) = [STATUS_ACK_SUCCESS] \<and>
   map is_finish_time (ibc_ics20s sample_ended_db) = [Some ''t5''] \<and>
   mset (send_row_keys (ibc_ics20s sample_ended_db)) = mset (send_keys sample_ibc_ext 0 5 sample_ended_db)"
proof -
  have "packets_once sample_ibc_ext sample_transfer_db" by code_simp
  then have "job_trace (crawlIbcIcs20 sample_ibc_config sample_ibc_ext) (packets_once sample_ibc_ext)
      (settled_env (ics20_pos sample_ibc_config) (\<lambda>db. (ibc_ics20s db, ibc_ics20_seq db))
        (\<lambda>db a b. (send_keys sample_ibc_ext a b db, endings sample_ibc_ext a b db))) sample_transfer_db sample_ended_db"
    by (intro trace_one sample_ended)
  from ics20_status_follows_packets [OF this sample_transfer_wf(3)]
  have "mset (send_row_keys (ibc_ics20s sample_ended_db)) = mset (send_keys sample_ibc_ext 0 5 sample_ended_db)"
    by (simp add: sample_ended_pos)
  moreover have "map is_status (ibc_ics20s sample_ended_db) = [STATUS_ACK_SUCCESS]"
    "map is_finish_time (ibc_ics20s sample_ended_db) = [Some ''t5'']" by code_simp+
  ultimately show ?thesis by blast
qed

text \<open>
  However the runs of the transfer job interleave with other jobs, every packet of the transfer port that
  was sent or received in the heights passed has its row exactly once, with sender, receiver,
  amount and token, and the rows stored before keep theirs.
\<close>

theorem ics20_transfers_exactly_once:
  assumes "job_trace (crawlIbcIcs20 cfg ext) ics20_keyed (settled_env (ics20_pos cfg) stored_ics20s (range_transfers ext)) db0 db"
  shows "ics20_pos cfg db0 \<le> ics20_pos cfg db \<and>
    stored_ics20s db = stored_ics20s db0 + range_transfers ext db (ics20_pos cfg db0) (ics20_pos cfg db)"
  using assms by (rule ics20_job.exactly_once)

theorem ics20_transfers_exactly_once_witness:
  "stored_ics20s sample_ended_db = range_transfers sample_ibc_ext sample_ended_db 0 5 \<and> map is_amount (ibc_ics20s sample_ended_db) = [5]"
proof -
  have "job_trace (crawlIbcIcs20 sample_ibc_config sample_ibc_ext) ics20_keyed
      (settled_env (ics20_pos sample_ibc_config) stored_ics20s (range_transfers sample_ibc_ext)) sample_transfer_db sample_ended_db"
    by (intro trace_one sample_ended sample_transfer_wf)
  note ics20_transfers_exactly_once [OF this]
  moreover have "stored_ics20s sample_transfer_db = {#}" by (simp add: stored_ics20s_def sample_transfer_wf)
  moreover have "map is_amount (ibc_ics20s sample_ended_db) = [5]" by code_simp
  ultimately show ?thesis by (simp add: sample_ended_pos)
qed

text \<open>
  Every run of the transfer job keeps the table well formed: ids and messages are unique, a sent
  transfer has a start time and is under way exactly as long as it has no finish time, a received
  one is stored with its result. No row is lost, the content of a row never changes, and a transfer that has
  ended is never under way again.
\<close>

theorem ics20_life_of_transfers:
  assumes "crawlIbcIcs20 cfg ext db = Inr db'" and "ics20_wf db"
  shows "ics20_wf db' \<and> transfers_evolve db db'"
  using assms(1) unfolding crawlIbcIcs20_def
proof (cases rule: range_job_cases)
  case skip
  then show ?thesis using assms(2) transfers_evolve_mono [of db db] by simp
next
  case (worked db1)
  have "ics20_wf db' = ics20_wf db1" "transfers_evolve db db' = transfers_evolve db db1"
    by (simp_all add: worked(3) saveCheckpoint_def ics20_wf_def ics20_keyed_def transfers_evolve_def)
  with ics20_work_wf [OF worked(2) assms(2)] show ?thesis by simp
qed

theorem ics20_life_of_transfers_witness:
  "ics20_wf sample_ended_db \<and> transfers_evolve sample_transfer_db sample_ended_db"
  using ics20_life_of_transfers [OF sample_ended sample_transfer_wf(1)] .
lemma range_job_blocked:
  assumes "isl (ics20_work ext (ics20_pos cfg db) (ics20_end cfg db) db)" and "ics20_pos cfg db < ics20_end cfg db"
  shows "isl (crawlIbcIcs20 cfg ext db)"
  using assms by (simp add: crawlIbcIcs20_def range_job_isl CRAWL_IBC_ICS20_def skips_def)

lemma update_send_row_keys:
  assumes "updateOriginSendStatus msgs type db = Inr db'" and "distinct (map is_id (ibc_ics20s db))"
  shows "send_row_keys (ibc_ics20s db') = send_row_keys (ibc_ics20s db)"
proof -
  from status_update_keeps [OF assms] obtain f where f: "ibc_ics20s db' = map f (ibc_ics20s db)"
    "\<forall>u\<in>set (ibc_ics20s db). f u = u \<or> is_type u = SEND_PACKET \<and> (\<exists>t. f u = u\<lparr>is_finish_time := Some t, is_status := type\<rparr>)"
    by blast
  have "send_row_keys (map f rs) = send_row_keys rs" if "\<forall>u\<in>set rs. is_type (f u) = is_type u \<and> is_sequence_key (f u) = is_sequence_key u" for rs
    using that by (induction rs) (simp_all add: send_row_keys_def)
  moreover have "is_type (f u) = is_type u \<and> is_sequence_key (f u) = is_sequence_key u" if "u \<in> set (ibc_ics20s db)" for u
    using bspec [OF f(2) that] by auto
  ultimately show ?thesis by (simp add: f(1))
qed

text \<open>
  An acknowledgement of a transfer that is not stored, such as one sent before the height the indexer
  starts at, makes every run over it throw: the job for transfers cannot pass that height.
\<close>

theorem unknown_ack_blocks:
  assumes "imt \<in> set (ack_packets ext (ics20_pos cfg db) (ics20_end cfg db) db)"
    and "im_sequence_key (fst imt) \<notin> set (send_row_keys (ibc_ics20s db))"
    and "im_sequence_key (fst imt) \<notin> set (send_keys ext (ics20_pos cfg db) (ics20_end cfg db) db)"
    and "ics20_keyed db"
  shows "isl (crawlIbcIcs20 cfg ext db)"
proof (rule range_job_blocked)
  let ?a = "ics20_pos cfg db" and ?b = "ics20_end cfg db"
  obtain im m t where "imt = (im, m, t)" by (cases imt)
  with assms(1) show "?a < ?b" by (auto simp: packets_iff in_range_def)
  show "isl (ics20_work ext ?a ?b db)"
  proof (rule ccontr)
    assume "\<not> isl (ics20_work ext ?a ?b db)"
    then obtain db' where "ics20_work ext ?a ?b db = Inr db'" by (metis sum.collapse(2))
    then show False
    proof (rule ics20_work_steps)
      fix sends recvs db2 db3 db4
      assume new: "rmap (ics20_send_row ext) (send_packets ext ?a ?b db) = Inr sends"
          "rmap (ics20_recv_row ext db) (recv_packets ext ?a ?b db) = Inr recvs"
          "db2 = db\<lparr>ibc_ics20s := ibc_ics20s db @ numbered (ibc_ics20_seq db) (sends @ recvs),
             ibc_ics20_seq := ibc_ics20_seq db + int (length (sends @ recvs))\<rparr>"
        and u: "updateOriginSendStatus (ack_keys True ext ?a ?b db) STATUS_ACK_SUCCESS db2 = Inr db3"
        "updateOriginSendStatus (ack_keys False ext ?a ?b db) STATUS_ACK_ERROR db3 = Inr db4"
        and acks: "\<forall>imt\<in>set (ack_packets ext ?a ?b db). packet_key imt \<in> set (ack_keys True ext ?a ?b db) \<union> set (ack_keys False ext ?a ?b db)"
      have keys: "send_row_keys (ibc_ics20s db2) = send_row_keys (ibc_ics20s db) @ send_keys ext ?a ?b db"
        by (simp add: new(3) send_row_keys_append new_send_keys(1) [OF new(1,2)])
      have "send_row_keys (ibc_ics20s db3) = send_row_keys (ibc_ics20s db2)"
        using update_send_row_keys [OF u(1)] inserted_ok(1) [OF assms(4) new] by (simp add: ics20_keyed_def keyed_def)
      with update_known [OF u(1)] update_known [OF u(2)] keys
      have known: "fst ` (set (ack_keys True ext ?a ?b db) \<union> set (ack_keys False ext ?a ?b db)) \<subseteq>
          set (send_row_keys (ibc_ics20s db)) \<union> set (send_keys ext ?a ?b db)" by auto
      from bspec [OF acks assms(1)] have "fst (packet_key imt) \<in> fst ` (set (ack_keys True ext ?a ?b db) \<union> set (ack_keys False ext ?a ?b db))"
        by (rule imageI)
      with known assms(2,3) show False by auto
    qed
  qed
qed

text \<open>The sample with the packet of the transfer missing.\<close>

definition sample_unknown_db :: ibc_db where
  "sample_unknown_db = sample_transfer_db\<lparr>ibc_messages := [sample_ibc_row 2 2 ACKNOWLEDGE_PACKET]\<rparr>"

theorem unknown_ack_blocks_witness: "isl (crawlIbcIcs20 sample_ibc_config sample_ibc_ext sample_unknown_db)"
proof -
  have pos: "ics20_pos sample_ibc_config sample_unknown_db = 0" "ics20_end sample_ibc_config sample_unknown_db = 5" by code_simp+
  have "ack_packets sample_ibc_ext 0 5 sample_unknown_db =
      [(sample_ibc_row 2 2 ACKNOWLEDGE_PACKET, message_table sample_unknown_db ! 1, transaction_table sample_unknown_db ! 1)]"
    "send_keys sample_ibc_ext 0 5 sample_unknown_db = []" "send_row_keys (ibc_ics20s sample_unknown_db) = []"
    "ics20_keyed sample_unknown_db" by code_simp+
  with unknown_ack_blocks [where imt = "(sample_ibc_row 2 2 ACKNOWLEDGE_PACKET, message_table sample_unknown_db ! 1,
      transaction_table sample_unknown_db ! 1)" and cfg = sample_ibc_config and ext = sample_ibc_ext and db = sample_unknown_db]
  show ?thesis by (simp add: pos)
qed

text \<open>
  Of two rows of a sent transfer with the same sequence key, as they arise when a packet is stored twice, the
  first is never updated: whatever packets a run of the job passes, the row stays as it is, so a
  transfer that is under way there is shown under way for ever, although it was acknowledged.
\<close>

theorem repeated_transfer_never_ends:
  assumes "(\<lambda>db db'. crawlIbcIcs20 cfg ext db = Inr db')\<^sup>*\<^sup>* db0 db" and "ics20_keyed db0" and "shadowed db0 u"
  shows "u \<in> set (ibc_ics20s db)"
proof -
  have "ics20_keyed db \<and> shadowed db u"
    using assms(1)
  proof (induction rule: rtranclp_induct)
    case (step db db')
    from step.hyps(2) show ?case unfolding crawlIbcIcs20_def
    proof (cases rule: range_job_cases)
      case (worked db1)
      have "ics20_keyed db' = ics20_keyed db1" "shadowed db' u = shadowed db1 u"
        by (simp_all add: worked(3) saveCheckpoint_def ics20_keyed_def shadowed_def)
      with ics20_work_stored [OF worked(2)] ics20_work_shadowed [OF worked(2)] step.IH show ?thesis by blast
    qed (use step.IH in simp)
  qed (simp add: assms(2,3))
  then show ?thesis by (auto simp: shadowed_def)
qed

text \<open>The packets that the job for packets stored twice, and the acknowledgement of one of them.\<close>

definition sample_twice_db :: ibc_db where
  "sample_twice_db =
     sample_transfer_db\<lparr>ibc_messages := [sample_ibc_row 1 1 SEND_PACKET, sample_ibc_row 2 3 SEND_PACKET],
       message_table := message_table sample_transfer_db @ [sample_ibc_message 3 1 0 ''/ibc.applications.transfer.v1.MsgTransfer'' JNull]\<rparr>"

definition sample_two_rows_db :: ibc_db where
  "sample_two_rows_db =
     (projr (crawlIbcIcs20 sample_ibc_config sample_ibc_ext sample_twice_db))
       \<lparr>ibc_messages := ibc_messages sample_twice_db @ [sample_ibc_row 3 2 ACKNOWLEDGE_PACKET],
        block_checkpoint := map_of [(''crawl:ibc-app'', 5), (''crawl:ibc-ics20'', 3)]\<rparr>"

theorem repeated_transfer_never_ends_witness:
  "\<exists>db. crawlIbcIcs20 sample_ibc_config sample_ibc_ext sample_two_rows_db = Inr db \<and>
     ibc_ics20s sample_two_rows_db ! 0 \<in> set (ibc_ics20s db) \<and> is_status (ibc_ics20s sample_two_rows_db ! 0) = STATUS_ONGOING \<and>
     map is_status (ibc_ics20s db) = [STATUS_ONGOING, STATUS_ACK_SUCCESS]"
proof -
  let ?u = "ibc_ics20s sample_two_rows_db ! 0"
  let ?db = "projr (crawlIbcIcs20 sample_ibc_config sample_ibc_ext sample_two_rows_db)"
  have "\<not> isl (crawlIbcIcs20 sample_ibc_config sample_ibc_ext sample_two_rows_db)" by code_simp
  then have run: "crawlIbcIcs20 sample_ibc_config sample_ibc_ext sample_two_rows_db = Inr ?db" by simp
  have "ibc_ics20s sample_two_rows_db = [] @ ?u # [ibc_ics20s sample_two_rows_db ! 1]" by code_simp
  moreover have "is_type (ibc_ics20s sample_two_rows_db ! 1) = SEND_PACKET"
    "is_sequence_key (ibc_ics20s sample_two_rows_db ! 1) = is_sequence_key ?u" by code_simp+
  ultimately have "shadowed sample_two_rows_db ?u" unfolding shadowed_def by (metis list.set_intros(1))
  moreover have "ics20_keyed sample_two_rows_db" by code_simp
  moreover have "(\<lambda>db db'. crawlIbcIcs20 sample_ibc_config sample_ibc_ext db = Inr db')\<^sup>*\<^sup>* sample_two_rows_db ?db"
    by (rule r_into_rtranclp) (rule run)
  ultimately have "?u \<in> set (ibc_ics20s ?db)" by (intro repeated_transfer_never_ends)
  moreover have "is_status ?u = STATUS_ONGOING" "map is_status (ibc_ics20s ?db) = [STATUS_ONGOING, STATUS_ACK_SUCCESS]" by code_simp+
  ultimately show ?thesis using run by (intro exI [of _ ?db] conjI)
qed

text \<open>
  C33. A token that comes home gets its name back: when it left, the receiving chain put port and channel in
  front of its name, and on the way back the first two parts are removed.
\<close>

theorem parseDenom_roundtrip:
  assumes "CHR ''/'' \<notin> set port" and "CHR ''/'' \<notin> set channel"
  shows "parseDenom (parseDenom denom False port channel) True port' channel' = denom"
proof -
  have "split_slash (port @ ''/'' @ channel @ ''/'' @ denom) = port # channel # split_slash denom"
    using assms split_slash_word [of port "channel @ CHR ''/'' # denom"] split_slash_word [of channel denom] by simp
  then show ?thesis by (simp add: parseDenom_def join_split_slash)
qed

theorem parseDenom_roundtrip_witness:
  "parseDenom (parseDenom ''factory/aura1x/coin'' False ''transfer'' ''channel-9'') True [] [] = ''factory/aura1x/coin''"
  by (rule parseDenom_roundtrip) simp_all

end
