(* ===== verification/Stake.thy ===== *)
theory Stake
  imports Chain_Db
begin

text \<open>
  Staking events (\<^verbatim>\<open>src/services/crawl-validator/handle_stake_event.service.ts\<close>, \<^verbatim>\<open>src/models/power_event.ts\<close>): the job
  that turns delegations, redelegations, unbondings and new validators into rows of power events.
\<close>

section \<open>Tables\<close>

record power_event =
  pe_tx_id :: int
  pe_height :: int
  pe_type :: string
  pe_validator_src_id :: "int option"
  pe_validator_dst_id :: "int option"
  pe_amount :: string
  pe_time :: string

text \<open>The columns of a validator that the job reads.\<close>

record validator_key =
  vk_id :: int
  vk_operator_address :: string

record 'c stake_db = "'c chain_db" +
  validators :: "validator_key list"
  power_events :: "power_event list"

definition DELEGATE :: string where "DELEGATE = ''delegate''"
definition REDELEGATE :: string where "REDELEGATE = ''redelegate''"
definition UNBOND :: string where "UNBOND = ''unbond''"
definition CREATE_VALIDATOR :: string where "CREATE_VALIDATOR = ''create_validator''"

definition eventStakes :: "string list" where
  "eventStakes = [DELEGATE, REDELEGATE, UNBOND, CREATE_VALIDATOR]"

text \<open>\<open>parseCoins\<close> of \<^verbatim>\<open>@cosmjs/proto-signing\<close> and the comparison of the SDK version of the node with a version.\<close>

record stake_ext =
  parseCoins :: "string \<Rightarrow> coin list option"
  cosmosSdkVersion_compare :: "string \<Rightarrow> int"

definition HANDLE_STAKE_EVENT :: job_decl where
  "HANDLE_STAKE_EVENT =
     \<lparr>job_name = ''handle:stake-event'', lastHeightJobNames = [''handle:transaction'', ''crawl:validator''],
      configName = Some ''handleStakeEvent'', job_guard = SkipGE\<rparr>"

section \<open>One event\<close>

definition mapIndexAmountWithEventStakes :: "bool \<Rightarrow> string \<Rightarrow> int" where
  "mapIndexAmountWithEventStakes old action =
     (if old then (if action = REDELEGATE then 2 else 1)
      else (if action = DELEGATE \<or> action = REDELEGATE then 2 else 1))"

definition getRawAmountByFirstIndex :: "stake_ext \<Rightarrow> event_attribute list \<Rightarrow> string \<Rightarrow> int \<Rightarrow> event_attribute option" where
  "getRawAmountByFirstIndex ext attributes action firstIndex =
     (let indexRule = mapIndexAmountWithEventStakes (cosmosSdkVersion_compare ext ''0.47.8'' = - 1) in
      find (\<lambda>attr. attr_key attr = Some ''amount'' \<and> attr_index attr = firstIndex + indexRule action) attributes)"

text \<open>\<^verbatim>\<open>validatorKeys[attr.value].id\<close>\<close>

definition validator_id :: "(string \<rightharpoonup> validator_key) \<Rightarrow> event_attribute \<Rightarrow> int res" where
  "validator_id validatorKeys attr =
     rbind (need (Option.bind (attr_value attr) validatorKeys)) (\<lambda>v. Inr (vk_id v))"

text \<open>\<^verbatim>\<open>parseCoins(amountRaw?.value)[0].amount\<close>, required by the model\<close>

definition stake_amount :: "stake_ext \<Rightarrow> event_attribute option \<Rightarrow> string res" where
  "stake_amount ext amountRaw =
     (case amountRaw of
        None \<Rightarrow> Inl (ValidationError ''amount'')
      | Some attr \<Rightarrow>
          rbind (need (attr_value attr)) (\<lambda>value.
            case parseCoins ext value of
              None \<Rightarrow> Inl (JsError ''Got an invalid coin string'')
            | Some [] \<Rightarrow> Inl TypeError
            | Some (c # _) \<Rightarrow> Inr (coin_amount c)))"

text \<open>The source and the destination of an event; \<open>None\<close> when it is left out.\<close>

definition stake_sides ::
  "(string \<rightharpoonup> validator_key) \<Rightarrow> string \<Rightarrow> event_attribute \<Rightarrow> event_attribute option \<Rightarrow> (int option \<times> int option) option res"
where
  "stake_sides validatorKeys type firstValidator destValidator =
     rbind (validator_id validatorKeys firstValidator) (\<lambda>v.
       if type = REDELEGATE
       then (case destValidator of
               None \<Rightarrow> Inr None
             | Some d \<Rightarrow> rbind (validator_id validatorKeys d) (\<lambda>w. Inr (Some (Some v, Some w))))
       else if type = UNBOND then Inr (Some (Some v, None))
       else Inr (Some (None, Some v)))"

definition power_event_of ::
  "stake_ext \<Rightarrow> (string \<rightharpoonup> validator_key) \<Rightarrow> ('c, 'a) chain_db_scheme \<Rightarrow> event_row \<Rightarrow> power_event option res"
where
  "power_event_of ext validatorKeys db stakeEvent =
     (let attributes = sort_key attr_index (evt_attributes stakeEvent) in
      case find (\<lambda>a. attr_key a = Some ''validator'' \<or> attr_key a = Some ''source_validator'') attributes of
        None \<Rightarrow> Inr None
      | Some firstValidator \<Rightarrow>
          rbind (stake_sides validatorKeys (evt_type stakeEvent) firstValidator
                   (find (\<lambda>a. attr_key a = Some ''destination_validator'') attributes)) (\<lambda>sides.
          case sides of
            None \<Rightarrow> Inr None
          | Some (src, dst) \<Rightarrow>
              (case getRawAmountByFirstIndex ext attributes (evt_type stakeEvent) (attr_index firstValidator) of
                 None \<Rightarrow> rbind (need (event_tx db stakeEvent)) (\<lambda>_. Inl (ValidationError ''amount''))
               | Some amountRaw \<Rightarrow>
                   rbind (stake_amount ext (Some amountRaw)) (\<lambda>amount.
                   rbind (need (event_tx db stakeEvent)) (\<lambda>t.
                     Inr (Some \<lparr>pe_tx_id = tx_id t, pe_height = evt_block_height stakeEvent, pe_type = evt_type stakeEvent,
                       pe_validator_src_id = src, pe_validator_dst_id = dst, pe_amount = amount, pe_time = tx_timestamp t\<rparr>))))))"

section \<open>The job\<close>

definition stake_events :: "int \<Rightarrow> int \<Rightarrow> ('c, 'a) chain_db_scheme \<Rightarrow> event_row list" where
  "stake_events startHeight endHeight db =
     filter (\<lambda>e. evt_type e \<in> set eventStakes \<and> in_range startHeight endHeight (evt_block_height e)) (event_table db)"

definition stake_work :: "stake_ext \<Rightarrow> int \<Rightarrow> int \<Rightarrow> ('c, 'a) stake_db_scheme \<Rightarrow> ('c, 'a) stake_db_scheme res" where
  "stake_work ext startHeight endHeight db =
     (let validatorKeys = keyBy vk_operator_address (validators db) in
      rbind (rmap (power_event_of ext validatorKeys db) (stake_events startHeight endHeight db)) (\<lambda>rows.
        Inr (db\<lparr>power_events := power_events db @ List.map_filter id rows\<rparr>)))"

definition handle_stake_event_job :: "config \<Rightarrow> stake_ext \<Rightarrow> ('c, 'a) stake_db_scheme \<Rightarrow> ('c, 'a) stake_db_scheme res" where
  "handle_stake_event_job cfg ext = range_job cfg HANDLE_STAKE_EVENT (stake_work ext)"

section \<open>What a range contributes\<close>

definition range_power_events :: "stake_ext \<Rightarrow> ('c, 'a) stake_db_scheme \<Rightarrow> int \<Rightarrow> int \<Rightarrow> power_event multiset" where
  "range_power_events ext db a b =
     mset (List.map_filter (\<lambda>e. Option.bind (try_undefined (power_event_of ext (keyBy vk_operator_address (validators db)) db e)) id)
       (stake_events a b db))"

lemma map_filter_rmap:
  "rmap f xs = Inr ys \<Longrightarrow> List.map_filter id ys = List.map_filter (\<lambda>x. Option.bind (try_undefined (f x)) id) xs"
  by (induction xs arbitrary: ys) (auto simp: rbind_eq_Inr map_filter_simps split: option.split)

lemma range_power_events_split:
  assumes "a \<le> b" and "b \<le> c"
  shows "range_power_events ext db a c = range_power_events ext db a b + range_power_events ext db b c"
proof -
  have "mset (List.map_filter f (filter (\<lambda>e. P e \<and> in_range a c (h e)) es)) =
      mset (List.map_filter f (filter (\<lambda>e. P e \<and> in_range a b (h e)) es)) + mset (List.map_filter f (filter (\<lambda>e. P e \<and> in_range b c (h e)) es))"
    for f :: "event_row \<Rightarrow> power_event option" and P h es
    using assms by (induction es) (auto simp: map_filter_simps in_range_def split: option.split)
  then show ?thesis by (simp only: range_power_events_def stake_events_def)
qed

abbreviation stake_pos :: "config \<Rightarrow> ('c, 'a) stake_db_scheme \<Rightarrow> int" where
  "stake_pos cfg db \<equiv> job_start cfg HANDLE_STAKE_EVENT (block_checkpoint db)"

abbreviation stake_end :: "config \<Rightarrow> ('c, 'a) stake_db_scheme \<Rightarrow> int" where
  "stake_end cfg db \<equiv> job_end cfg HANDLE_STAKE_EVENT (block_checkpoint db)"

lemma stake_work_effect:
  assumes "stake_work ext a b db = Inr db'"
  obtains rows where "db' = db\<lparr>power_events := power_events db @ rows\<rparr>" and "mset rows = range_power_events ext db a b"
proof -
  from assms obtain ys where ys: "rmap (power_event_of ext (keyBy vk_operator_address (validators db)) db) (stake_events a b db) = Inr ys"
    and db': "db' = db\<lparr>power_events := power_events db @ List.map_filter id ys\<rparr>"
    by (auto simp: stake_work_def Let_def rbind_eq_Inr)
  from db' show thesis by (rule that) (simp only: range_power_events_def map_filter_rmap [OF ys])
qed

lemma stake_checkpoint:
  "handle_stake_event_job cfg ext db = Inr db' \<Longrightarrow> block_checkpoint db' = checkpoint_run cfg HANDLE_STAKE_EVENT (block_checkpoint db)"
  unfolding handle_stake_event_job_def by (erule range_job_checkpoint) (auto elim!: stake_work_effect)

lemma range_power_events_cong:
  assumes "event_table db' = event_table db" and "transaction_table db' = transaction_table db" and "validators db' = validators db"
  shows "range_power_events ext db' = range_power_events ext db"
proof -
  have "event_tx db' = event_tx db" unfolding fun_eq_iff event_tx_def assms(2) by simp
  then have "power_event_of ext k db' = power_event_of ext k db" for k by (intro HOL.ext) (simp only: power_event_of_def)
  then show ?thesis by (intro HOL.ext) (simp only: range_power_events_def stake_events_def assms)
qed

lemma stake_settled:
  assumes "handle_stake_event_job cfg ext db = Inr db'"
  shows "range_power_events ext db' = range_power_events ext db"
  using assms unfolding handle_stake_event_job_def
proof (cases rule: range_job_cases)
  case (worked db1)
  from worked(2) obtain rows where "db1 = db\<lparr>power_events := power_events db @ rows\<rparr>" by (rule stake_work_effect)
  with worked(3) show ?thesis by (intro range_power_events_cong) (simp_all add: saveCheckpoint_def)
qed simp

lemma stake_stored:
  assumes "handle_stake_event_job cfg ext db = Inr db'"
  shows "mset (power_events db') = mset (power_events db) +
    (if skips (job_guard HANDLE_STAKE_EVENT) (stake_pos cfg db) (stake_end cfg db) then 0
     else range_power_events ext db (stake_pos cfg db) (stake_end cfg db))"
  using assms unfolding handle_stake_event_job_def
proof (cases rule: range_job_cases)
  case (worked db1)
  from worked(2) obtain rows where "db1 = db\<lparr>power_events := power_events db @ rows\<rparr>"
    "mset rows = range_power_events ext db (stake_pos cfg db) (stake_end cfg db)" by (rule stake_work_effect)
  with worked(1,3) show ?thesis by (simp add: saveCheckpoint_def)
qed simp

lemma stake_guarded:
  "\<not> skips (job_guard HANDLE_STAKE_EVENT) (stake_pos cfg db) (stake_end cfg db) \<Longrightarrow> stake_pos cfg db \<le> stake_end cfg db"
  using not_skips_le [of "job_guard HANDLE_STAKE_EVENT"] by (simp add: HANDLE_STAKE_EVENT_def)

interpretation stake_job: appending_job cfg HANDLE_STAKE_EVENT "handle_stake_event_job cfg ext" "\<lambda>_. True"
  "range_power_events ext" "\<lambda>db. mset (power_events db)"
  for cfg ext
  by unfold_locales (rule stake_checkpoint stake_stored stake_settled range_power_events_split stake_guarded; assumption)+
section \<open>The sides of an event\<close>

lemmas stake_type_defs = DELEGATE_def REDELEGATE_def UNBOND_def CREATE_VALIDATOR_def

definition power_event_ok :: "validator_key list \<Rightarrow> power_event \<Rightarrow> bool" where
  "power_event_ok vs p \<longleftrightarrow>
     pe_type p \<in> set eventStakes \<and>
     (pe_validator_src_id p \<noteq> None \<longleftrightarrow> pe_type p \<in> {REDELEGATE, UNBOND}) \<and>
     (pe_validator_dst_id p \<noteq> None \<longleftrightarrow> pe_type p \<in> {DELEGATE, REDELEGATE, CREATE_VALIDATOR}) \<and>
     set_option (pe_validator_src_id p) \<union> set_option (pe_validator_dst_id p) \<subseteq> vk_id ` set vs"

lemma validator_id_in: "validator_id (keyBy vk_operator_address vs) a = Inr v \<Longrightarrow> v \<in> vk_id ` set vs"
  by (auto simp: validator_id_def rbind_eq_Inr need_eq_Inr bind_eq_Some_conv dest!: keyBy_SomeD)

lemma stake_sides_ok:
  assumes "stake_sides (keyBy vk_operator_address vs) type a d = Inr (Some (src, dst))" and "type \<in> set eventStakes"
  shows "(src \<noteq> None \<longleftrightarrow> type \<in> {REDELEGATE, UNBOND}) \<and> (dst \<noteq> None \<longleftrightarrow> type \<in> {DELEGATE, REDELEGATE, CREATE_VALIDATOR}) \<and>
    set_option src \<union> set_option dst \<subseteq> vk_id ` set vs"
proof -
  from assms(1) obtain v where v: "validator_id (keyBy vk_operator_address vs) a = Inr v"
    and rest: "(if type = REDELEGATE
       then (case d of None \<Rightarrow> Inr None
             | Some d \<Rightarrow> rbind (validator_id (keyBy vk_operator_address vs) d) (\<lambda>w. Inr (Some (Some v, Some w))))
       else if type = UNBOND then Inr (Some (Some v, None)) else Inr (Some (None, Some v))) = Inr (Some (src, dst))"
    unfolding stake_sides_def rbind_eq_Inr [where m = "validator_id (keyBy vk_operator_address vs) a"] by (elim exE conjE)
  have v': "v \<in> vk_id ` set vs" by (rule validator_id_in [OF v])
  from rest have sides: "if type = REDELEGATE then src = Some v \<and> (\<exists>w. validator_id (keyBy vk_operator_address vs) (the d) = Inr w \<and> dst = Some w)
      else if type = UNBOND then src = Some v \<and> dst = None else src = None \<and> dst = Some v"
    by (auto simp: rbind_eq_Inr split: if_split_asm option.split_asm)
  consider "type = DELEGATE" | "type = REDELEGATE" | "type = UNBOND" | "type = CREATE_VALIDATOR"
    using assms(2) by (auto simp: eventStakes_def)
  then show ?thesis by cases (use v' sides in \<open>auto simp: stake_type_defs dest: validator_id_in\<close>)
qed

lemma power_event_of_ok:
  assumes "power_event_of ext (keyBy vk_operator_address vs) db e = Inr (Some p)" and "evt_type e \<in> set eventStakes"
  shows "power_event_ok vs p"
proof -
  from assms(1) obtain a d src dst where "stake_sides (keyBy vk_operator_address vs) (evt_type e) a d = Inr (Some (src, dst))"
    "pe_type p = evt_type e" "pe_validator_src_id p = src" "pe_validator_dst_id p = dst"
    by (auto simp: power_event_of_def Let_def rbind_def split: sum.split_asm option.split_asm prod.split_asm)
  with stake_sides_ok [OF this(1) assms(2)] assms(2) show ?thesis by (simp add: power_event_ok_def)
qed

section \<open>Properties\<close>

definition sample_stake_ext :: stake_ext where
  "sample_stake_ext = \<lparr>parseCoins = (\<lambda>s. Some [\<lparr>coin_denom = ''uaura'', coin_amount = takeWhile is_digit s\<rparr>]),
     cosmosSdkVersion_compare = (\<lambda>_. - 1)\<rparr>"

definition sample_stake_attribute :: "int \<Rightarrow> string \<Rightarrow> string \<Rightarrow> event_attribute" where
  "sample_stake_attribute i k v = \<lparr>attr_index = i, attr_key = Some k, attr_value = Some v\<rparr>"

definition sample_stake_db :: "unit stake_db" where
  "sample_stake_db =
     \<lparr>block_checkpoint = map_of [(''handle:transaction'', 3), (''crawl:validator'', 3)], block_table = [],
      transaction_table =
        [\<lparr>tx_id = 1, tx_height = 2, tx_hash = [], tx_codespace = [], tx_code = 0, tx_gas_used = [], tx_gas_wanted = [], tx_gas_limit = [],
          tx_fee = [], tx_memo = [], tx_index = 0, tx_timestamp = ''t'', tx_data = None\<rparr>], transaction_seq = 2,
      event_table =
        [\<lparr>evt_id = 1, evt_tx_id = Some 1, evt_tx_msg_index = Some 0, evt_type = ''redelegate'', evt_block_height = 2, evt_source = TX_EVENT,
          evt_attributes = [sample_stake_attribute 0 ''source_validator'' ''valA'', sample_stake_attribute 1 ''destination_validator'' ''valB'',
            sample_stake_attribute 2 ''amount'' ''7uaura'']\<rparr>], event_seq = 2,
      message_table = [], message_seq = 1, validators = [\<lparr>vk_id = 4, vk_operator_address = ''valA''\<rparr>, \<lparr>vk_id = 5, vk_operator_address = ''valB''\<rparr>],
      power_events = []\<rparr>"

definition sample_stake_config :: config where
  "sample_stake_config = \<lparr>startBlock = 0, blocksPerCall = (\<lambda>_. 100)\<rparr>"

definition sample_staked_db :: "unit stake_db" where
  "sample_staked_db = projr (handle_stake_event_job sample_stake_config sample_stake_ext sample_stake_db)"

lemma sample_staked: "handle_stake_event_job sample_stake_config sample_stake_ext sample_stake_db = Inr sample_staked_db"
proof -
  have "\<not> isl (handle_stake_event_job sample_stake_config sample_stake_ext sample_stake_db)" by code_simp
  then show ?thesis by (simp add: sample_staked_db_def)
qed

text \<open>
  C25. However the runs of the stake job interleave with other jobs that leave its checkpoint, its rows and what
  passed heights say alone, the table holds, beside the rows it had, exactly one power event for every
  delegation, redelegation, unbonding and new validator of the heights passed that names its validators.
\<close>

theorem power_events_exactly_once:
  assumes "job_trace (handle_stake_event_job cfg ext) (\<lambda>_. True)
    (settled_env (stake_pos cfg) (\<lambda>db. mset (power_events db)) (range_power_events ext)) db0 db"
  shows "stake_pos cfg db0 \<le> stake_pos cfg db \<and>
    mset (power_events db) = mset (power_events db0) + range_power_events ext db (stake_pos cfg db0) (stake_pos cfg db)"
  using assms by (rule stake_job.exactly_once)

theorem power_events_exactly_once_witness:
  "mset (power_events sample_staked_db) = range_power_events sample_stake_ext sample_staked_db 0 3 \<and>
   map pe_amount (power_events sample_staked_db) = [''7'']"
proof -
  have "job_trace (handle_stake_event_job sample_stake_config sample_stake_ext) (\<lambda>_. True)
      (settled_env (stake_pos sample_stake_config) (\<lambda>db. mset (power_events db)) (range_power_events sample_stake_ext)) sample_stake_db sample_staked_db"
    by (intro trace_one sample_staked) simp
  note power_events_exactly_once [OF this]
  moreover have "stake_pos sample_stake_config sample_stake_db = 0" "stake_pos sample_stake_config sample_staked_db = 3"
    "map pe_amount (power_events sample_staked_db) = [''7'']" by code_simp+
  moreover have "power_events sample_stake_db = []" by (simp add: sample_stake_db_def)
  ultimately show ?thesis by simp
qed

text \<open>
  Every power event a run stores has the sides its kind asks for: an unbonding has a source, a delegation
  and a new validator a destination, a redelegation both, and both are ids of known validators.
\<close>

theorem power_events_have_sides:
  assumes "handle_stake_event_job cfg ext db = Inr db'"
    and "\<forall>p\<in>set (power_events db). power_event_ok (validators db) p"
  shows "validators db' = validators db \<and> (\<forall>p\<in>set (power_events db'). power_event_ok (validators db') p)"
  using assms(1) unfolding handle_stake_event_job_def
proof (cases rule: range_job_cases)
  case skip
  with assms(2) show ?thesis by simp
next
  case (worked db1)
  from worked(2) obtain rows where db1: "db1 = db\<lparr>power_events := power_events db @ rows\<rparr>"
    and rows: "mset rows = range_power_events ext db (stake_pos cfg db) (stake_end cfg db)" by (rule stake_work_effect)
  have "power_event_ok (validators db) p" if "p \<in> set rows" for p
  proof -
    from that rows have "p \<in># range_power_events ext db (stake_pos cfg db) (stake_end cfg db)" by (metis set_mset_mset)
    then obtain e where "e \<in> set (stake_events (stake_pos cfg db) (stake_end cfg db) db)"
      "power_event_of ext (keyBy vk_operator_address (validators db)) db e = Inr (Some p)"
      by (auto simp: range_power_events_def set_map_filter_Some bind_eq_Some_conv)
    then show ?thesis by (auto simp: stake_events_def intro: power_event_of_ok)
  qed
  with assms(2) show ?thesis by (auto simp: worked(3) db1 saveCheckpoint_def)
qed

theorem power_events_have_sides_witness:
  "\<forall>p\<in>set (power_events sample_staked_db). power_event_ok (validators sample_staked_db) p"
proof -
  have "\<forall>p\<in>set (power_events sample_stake_db). power_event_ok (validators sample_stake_db) p" by (simp add: sample_stake_db_def)
  from power_events_have_sides [OF sample_staked this] show ?thesis by blast
qed

end
