(* ===== verification/Evm_Tx.thy ===== *)
theory Evm_Tx
  imports Chain_Db Json Handle_Address
begin

text \<open>
  The EVM side of a block: \<^verbatim>\<open>src/services/evm/handle_tx_evm.service.ts\<close>, which stores the Ethereum transactions
  that messages of Cosmos transactions carry, and \<^verbatim>\<open>crawl_evm_event.service.ts\<close>, which stores the logs that
  these transactions wrote, with the models \<^verbatim>\<open>evm_transaction.ts\<close> and \<^verbatim>\<open>evm_event.ts\<close>.
\<close>

text \<open>Evaluation looks at the result of a call before it looks at what follows it.\<close>

declare rbind_def [code_unfold]

section \<open>Tables\<close>

record evm_transaction =
  et_id :: int
  et_hash :: string
  et_height :: int
  et_from :: string
  et_to :: "string option"
  et_size :: "json option"
  et_value :: "int option"
  et_gas :: "int option"
  et_gas_fee_cap :: "int option"
  et_gas_tip_cap :: "int option"
  et_data :: "string option"
  et_nonce :: "int option"
  et_tx_msg_id :: int
  et_tx_id :: int
  et_contract_address :: "string option"
  et_index :: nat
  et_status :: int
  et_reason :: "string option"

record evm_event_row =
  er_id :: int
  er_tx_id :: int
  er_evm_tx_id :: int
  er_address :: string
  er_topic0 :: "json option"
  er_topic1 :: "json option"
  er_topic2 :: "json option"
  er_topic3 :: "json option"
  er_data :: "string option"
  er_block_height :: int
  er_tx_hash :: string
  er_block_hash :: string
  er_tx_index :: int

record evm_db = "json chain_db" +
  evm_transactions :: "evm_transaction list"
  evm_transaction_seq :: int
  evm_events :: "evm_event_row list"
  evm_event_seq :: int

text \<open>
  The encodings of \<^verbatim>\<open>@cosmjs/encoding\<close>, the address codec with the prefix of the configuration, the receipt
  of a transaction as the node answers it (the inner \<open>None\<close> is a receipt without a contract address), and
  \<^verbatim>\<open>JSON.parse\<close>.
\<close>

record evm_ext =
  base64_bytes :: "string \<Rightarrow> string option"
  bytes_hex :: "string \<Rightarrow> string"
  evm_codec :: codec
  networkPrefixAddress :: string
  getTransactionReceipt :: "string \<Rightarrow> string option option res"
  JSON_parse :: "string \<Rightarrow> json option"

definition HANDLE_TRANSACTION_EVM :: job_decl where
  "HANDLE_TRANSACTION_EVM =
     \<lparr>job_name = ''handle:transaction-evm'', lastHeightJobNames = [''handle:transaction''],
      configName = Some ''handleTransactionEVM'', job_guard = SkipGE\<rparr>"

definition JOB_CRAWL_EVM_EVENT :: job_decl where
  "JOB_CRAWL_EVM_EVENT =
     \<lparr>job_name = ''job:crawl-evm-event'', lastHeightJobNames = [''handle:transaction-evm''],
      configName = Some ''jobCrawlEvmEvent'', job_guard = NoGuard\<rparr>"

definition MSG_ETHEREUM_TX :: string where
  "MSG_ETHEREUM_TX = ''/ethermint.evm.v1.MsgEthereumTx''"

section \<open>Big integers\<close>

text \<open>\<^verbatim>\<open>BigInt(text)\<close>: blanks around the number are skipped, no text is zero, a prefix names the base.\<close>

definition is_blank :: "char \<Rightarrow> bool" where
  "is_blank c \<longleftrightarrow> c \<in> {CHR '' '', CHR 0x09, CHR 0x0A, CHR 0x0B, CHR 0x0C, CHR 0x0D, CHR 0xA0}"

definition trim :: "string \<Rightarrow> string" where
  "trim s = rev (dropWhile is_blank (rev (dropWhile is_blank s)))"

definition base_digit :: "char \<Rightarrow> int option" where
  "base_digit c =
     (let n = of_char c :: int in
      if 48 \<le> n \<and> n \<le> 57 then Some (n - 48)
      else if 97 \<le> n \<and> n \<le> 102 then Some (n - 87)
      else if 65 \<le> n \<and> n \<le> 70 then Some (n - 55)
      else None)"

definition in_base :: "int \<Rightarrow> char \<Rightarrow> bool" where
  "in_base b c \<longleftrightarrow> (case base_digit c of None \<Rightarrow> False | Some d \<Rightarrow> d < b)"

definition base_value :: "int \<Rightarrow> string \<Rightarrow> int" where
  "base_value b s = foldl (\<lambda>v c. b * v + the (base_digit c)) 0 s"

definition base_text :: "int \<Rightarrow> string \<Rightarrow> int option" where
  "base_text b s = (if s \<noteq> [] \<and> list_all (in_base b) s then Some (base_value b s) else None)"

definition text_BigInt :: "string \<Rightarrow> int option" where
  "text_BigInt s =
     (case trim s of
        [] \<Rightarrow> Some 0
      | c # cs \<Rightarrow>
          if c = CHR ''0'' \<and> cs \<noteq> [] \<and> hd cs \<in> set ''xX'' then base_text 16 (tl cs)
          else if c = CHR ''0'' \<and> cs \<noteq> [] \<and> hd cs \<in> set ''oO'' then base_text 8 (tl cs)
          else if c = CHR ''0'' \<and> cs \<noteq> [] \<and> hd cs \<in> set ''bB'' then base_text 2 (tl cs)
          else if c = CHR ''-'' then map_option uminus (base_text 10 cs)
          else if c = CHR ''+'' then base_text 10 cs
          else base_text 10 (c # cs))"

text \<open>\<^verbatim>\<open>Utils.getBigIntIfNotNull\<close>; an array or an object stands for no number in these columns.\<close>

definition getBigIntIfNotNull :: "json option \<Rightarrow> int option res" where
  "getBigIntIfNotNull value =
     (case value of
        None \<Rightarrow> Inr None
      | Some JNull \<Rightarrow> Inr None
      | Some (JNum n) \<Rightarrow> Inr (Some n)
      | Some (JBool b) \<Rightarrow> Inr (Some (if b then 1 else 0))
      | Some (JStr s) \<Rightarrow>
          (case text_BigInt s of None \<Rightarrow> Inl (JsError ''SyntaxError'') | Some n \<Rightarrow> Inr (Some n))
      | Some _ \<Rightarrow> Inl (JsError ''SyntaxError''))"

section \<open>Transactions\<close>

text \<open>\<^verbatim>\<open>value ? value.toLowerCase() : null\<close>\<close>

definition lower_or_null :: "json option \<Rightarrow> string option res" where
  "lower_or_null v =
     (if json_truthy v then (case v of Some (JStr s) \<Rightarrow> Inr (Some (toLowerCase s)) | _ \<Rightarrow> Inl TypeError) else Inr None)"

definition evm_sender :: "evm_ext \<Rightarrow> json \<Rightarrow> string \<Rightarrow> string res" where
  "evm_sender ext content sender =
     rbind (lower_or_null (json_opt (Some content) ''from'')) (\<lambda>sent.
       case sent of
         Some s \<Rightarrow> Inr s
       | None \<Rightarrow>
           if sender \<noteq> []
           then rbind (convertBech32AddressToEthAddress (evm_codec ext) (networkPrefixAddress ext) sender) (\<lambda>s. Inr (toLowerCase s))
           else Inr sender)"

definition evm_data :: "evm_ext \<Rightarrow> json option \<Rightarrow> string option res" where
  "evm_data ext v =
     (if json_truthy v
      then (case v of
              Some (JStr s) \<Rightarrow>
                (case base64_bytes ext s of None \<Rightarrow> Inl (JsError ''Invalid base64 string format'') | Some b \<Rightarrow> Inr (Some (bytes_hex ext b)))
            | _ \<Rightarrow> Inl TypeError)
      else Inr None)"

text \<open>The messages of a range with their transactions.\<close>

definition evm_messages :: "int \<Rightarrow> int \<Rightarrow> 'a evm_db_scheme \<Rightarrow> (json message_row \<times> json transaction_row) list" where
  "evm_messages startB endB db =
     sort_key (\<lambda>(m, t). (tx_height t, tx_id t))
       (filter (\<lambda>(m, t). msg_type m = MSG_ETHEREUM_TX \<and> in_range startB endB (tx_height t))
         (List.map_filter (\<lambda>m. map_option (Pair m) (message_tx db m)) (message_table db)))"

text \<open>The column \<^verbatim>\<open>composite_key\<close> of an attribute.\<close>

definition attribute_composite_key :: "event_row \<Rightarrow> event_attribute \<Rightarrow> string" where
  "attribute_composite_key e a =
     (case attr_key a of None \<Rightarrow> [] | Some k \<Rightarrow> if k = [] then [] else evt_type e @ ''.'' @ k)"

definition failed_attributes :: "event_row list \<Rightarrow> (event_row \<times> event_attribute) list" where
  "failed_attributes es =
     concat (map (\<lambda>e. map (Pair e) (filter (\<lambda>a. attribute_composite_key e a = ''ethereum_tx.ethereumTxFailed'') (evt_attributes e))) es)"

definition failed_tx :: "event_row list \<Rightarrow> int \<Rightarrow> event_attribute option" where
  "failed_tx es i = map_option snd (find (\<lambda>(e, a). evt_tx_id e = Some i) (failed_attributes es))"

definition evm_transaction_of ::
  "evm_ext \<Rightarrow> event_row list \<Rightarrow> json message_row \<times> json transaction_row \<Rightarrow> evm_transaction res"
where
  "evm_transaction_of ext es mt =
     (case mt of (m, t) \<Rightarrow>
        let content = msg_content m; failedTx = failed_tx es (tx_id t) in
        rbind (evm_sender ext content (msg_sender m)) (\<lambda>sender.
        rbind (json_get content ''hash'') (\<lambda>hash.
        let data = json_opt (Some content) ''data'' in
        rbind (lower_or_null (json_opt data ''to'')) (\<lambda>to.
        rbind (getBigIntIfNotNull (json_opt data ''gas'')) (\<lambda>gas.
        rbind (getBigIntIfNotNull (json_opt data ''gas_fee_cap'')) (\<lambda>gas_fee_cap.
        rbind (getBigIntIfNotNull (json_opt data ''gas_tip_cap'')) (\<lambda>gas_tip_cap.
        rbind (evm_data ext (json_opt data ''data'')) (\<lambda>bytes.
        rbind (getBigIntIfNotNull (json_opt data ''nonce'')) (\<lambda>nonce.
        rbind (getBigIntIfNotNull (json_opt data ''value'')) (\<lambda>val.
        rbind (as_string hash) (\<lambda>hash.
          Inr \<lparr>et_id = 0, et_hash = hash, et_height = tx_height t, et_from = sender, et_to = to,
               et_size = json_opt (Some content) ''size'', et_value = val, et_gas = gas, et_gas_fee_cap = gas_fee_cap,
               et_gas_tip_cap = gas_tip_cap, et_data = bytes, et_nonce = nonce,
               et_tx_msg_id = msg_id m, et_tx_id = tx_id t, et_contract_address = None, et_index = tx_index t,
               et_status = (if failedTx = None then 1 else 0),
               et_reason = (case failedTx of None \<Rightarrow> None | Some a \<Rightarrow> attr_value a)\<rparr>)))))))))))"

text \<open>The address of a created contract comes from the receipt.\<close>

definition with_receipt :: "evm_ext \<Rightarrow> evm_transaction \<Rightarrow> evm_transaction res" where
  "with_receipt ext evmTx =
     (if et_to evmTx = None
      then rbind (getTransactionReceipt ext (et_hash evmTx)) (\<lambda>txReceipt.
        Inr (case txReceipt of
               Some (Some address) \<Rightarrow> if address = [] then evmTx else evmTx\<lparr>et_contract_address := Some (toLowerCase address)\<rparr>
             | _ \<Rightarrow> evmTx))
      else Inr evmTx)"

text \<open>Columns of type \<^verbatim>\<open>bigint\<close> hold 64 bits.\<close>

definition bigint_ok :: "int option \<Rightarrow> bool" where
  "bigint_ok n = (case n of None \<Rightarrow> True | Some i \<Rightarrow> - (2 ^ 63) \<le> i \<and> i < 2 ^ 63)"

definition evm_columns_ok :: "evm_transaction \<Rightarrow> bool" where
  "evm_columns_ok r \<longleftrightarrow>
     bigint_ok (et_gas r) \<and> bigint_ok (et_gas_fee_cap r) \<and> bigint_ok (et_gas_tip_cap r) \<and> bigint_ok (et_nonce r)"

definition insert_evm_transactions :: "evm_transaction list \<Rightarrow> 'a evm_db_scheme \<Rightarrow> 'a evm_db_scheme res" where
  "insert_evm_transactions rows db =
     (if list_all evm_columns_ok rows
      then Inr (db\<lparr>evm_transactions := evm_transactions db @ numbered (evm_transaction_seq db) (map (\<lambda>r i. r\<lparr>et_id := i\<rparr>) rows),
                   evm_transaction_seq := evm_transaction_seq db + int (length rows)\<rparr>)
      else Inl (DbError ''bigint out of range''))"

definition evm_tx_work :: "evm_ext \<Rightarrow> int \<Rightarrow> int \<Rightarrow> 'a evm_db_scheme \<Rightarrow> 'a evm_db_scheme res" where
  "evm_tx_work ext startB endB db =
     (let es = filter (\<lambda>e. in_range startB endB (evt_block_height e)) (event_table db) in
      rbind (rmap (evm_transaction_of ext es) (evm_messages startB endB db)) (\<lambda>evmTxs.
      rbind (rmap (with_receipt ext) evmTxs) (\<lambda>evmTxs.
        insert_evm_transactions evmTxs db)))"

definition handle_tx_evm_job :: "config \<Rightarrow> evm_ext \<Rightarrow> 'a evm_db_scheme \<Rightarrow> 'a evm_db_scheme res" where
  "handle_tx_evm_job cfg ext = range_job cfg HANDLE_TRANSACTION_EVM (evm_tx_work ext)"

section \<open>Events\<close>

definition log_attributes :: "int \<Rightarrow> int \<Rightarrow> 'a evm_db_scheme \<Rightarrow> (event_row \<times> event_attribute) list" where
  "log_attributes startB endB db =
     sort_key (\<lambda>(e, a). evt_id e)
       (concat (map (\<lambda>e. map (Pair e) (filter (\<lambda>a. attr_key a = Some ''txLog'') (evt_attributes e)))
         (filter (\<lambda>e. in_range startB endB (evt_block_height e)) (event_table db))))"

text \<open>
  \<^verbatim>\<open>_.mapValues(_.keyBy(evmTransactions, 'tx_id'), 'id')\<close>; the query does not order the transactions,
  the model takes them in the order of the table.
\<close>

definition mappingEvmTxId :: "evm_transaction list \<Rightarrow> (int \<rightharpoonup> int)" where
  "mappingEvmTxId txs i = map_option et_id (keyBy et_tx_id txs i)"

text \<open>\<^verbatim>\<open>topics[i]\<close>\<close>

definition topic :: "json option \<Rightarrow> nat \<Rightarrow> json option res" where
  "topic topics i =
     (case topics of
        None \<Rightarrow> Inl TypeError
      | Some JNull \<Rightarrow> Inl TypeError
      | Some (JArr xs) \<Rightarrow> Inr (if i < length xs then Some (xs ! i) else None)
      | Some _ \<Rightarrow> Inr None)"

definition log_data :: "evm_ext \<Rightarrow> json option \<Rightarrow> string option res" where
  "log_data ext v =
     (if json_truthy v
      then (case v of
              Some (JStr s) \<Rightarrow> (case base64_bytes ext s of None \<Rightarrow> Inl (JsError ''Invalid base64 string format'') | Some b \<Rightarrow> Inr (Some b))
            | _ \<Rightarrow> Inl TypeError)
      else Inr None)"

definition parsed_log :: "evm_ext \<Rightarrow> event_attribute \<Rightarrow> json res" where
  "parsed_log ext a =
     (case Option.bind (attr_value a) (JSON_parse ext) of None \<Rightarrow> Inl (JsError ''SyntaxError'') | Some v \<Rightarrow> Inr v)"

definition log_address :: "json \<Rightarrow> string res" where
  "log_address valueParse =
     rbind (json_get valueParse ''address'') (\<lambda>address. case address of Some (JStr s) \<Rightarrow> Inr (toLowerCase s) | _ \<Rightarrow> Inl TypeError)"

definition log_evm_tx_id :: "(int \<rightharpoonup> int) \<Rightarrow> event_row \<Rightarrow> int res" where
  "log_evm_tx_id evmTxId e =
     (case Option.bind (evt_tx_id e) evmTxId of None \<Rightarrow> Inl (ValidationError ''evm_tx_id'') | Some i \<Rightarrow> Inr i)"

definition evm_event_of :: "evm_ext \<Rightarrow> (int \<rightharpoonup> int) \<Rightarrow> event_row \<times> event_attribute \<Rightarrow> evm_event_row res" where
  "evm_event_of ext evmTxId ea =
     (case ea of (e, a) \<Rightarrow>
        rbind (parsed_log ext a) (\<lambda>valueParse.
        let topics = json_opt (Some valueParse) ''topics'' in
        rbind (log_address valueParse) (\<lambda>address.
        rbind (topic topics 0) (\<lambda>topic0.
        rbind (topic topics 1) (\<lambda>topic1.
        rbind (topic topics 2) (\<lambda>topic2.
        rbind (topic topics 3) (\<lambda>topic3.
        rbind (log_data ext (json_opt (Some valueParse) ''data'')) (\<lambda>data.
        rbind (log_evm_tx_id evmTxId e) (\<lambda>evm_tx_id.
        rbind (as_string (json_opt (Some valueParse) ''transactionHash'')) (\<lambda>tx_hash.
        rbind (as_string (json_opt (Some valueParse) ''blockHash'')) (\<lambda>block_hash.
        rbind (as_number (json_opt (Some valueParse) ''transactionIndex'')) (\<lambda>tx_index.
          Inr \<lparr>er_id = 0, er_tx_id = the (evt_tx_id e), er_evm_tx_id = evm_tx_id, er_address = address,
               er_topic0 = topic0, er_topic1 = topic1, er_topic2 = topic2, er_topic3 = topic3, er_data = data,
               er_block_height = evt_block_height e, er_tx_hash = tx_hash, er_block_hash = block_hash, er_tx_index = tx_index\<rparr>))))))))))))"

definition insert_evm_events :: "evm_event_row list \<Rightarrow> 'a evm_db_scheme \<Rightarrow> 'a evm_db_scheme" where
  "insert_evm_events rows db =
     db\<lparr>evm_events := evm_events db @ numbered (evm_event_seq db) (map (\<lambda>r i. r\<lparr>er_id := i\<rparr>) rows),
        evm_event_seq := evm_event_seq db + int (length rows)\<rparr>"

definition evm_event_work :: "evm_ext \<Rightarrow> int \<Rightarrow> int \<Rightarrow> 'a evm_db_scheme \<Rightarrow> 'a evm_db_scheme res" where
  "evm_event_work ext startB endB db =
     (let evmTransactions = filter (\<lambda>r. in_range startB endB (et_height r)) (evm_transactions db) in
      rbind (rmap (evm_event_of ext (mappingEvmTxId evmTransactions)) (log_attributes startB endB db)) (\<lambda>evmEvents.
        Inr (insert_evm_events evmEvents db)))"

definition crawlEvmEventHandler :: "config \<Rightarrow> evm_ext \<Rightarrow> 'a evm_db_scheme \<Rightarrow> 'a evm_db_scheme res" where
  "crawlEvmEventHandler cfg ext = range_job cfg JOB_CRAWL_EVM_EVENT (evm_event_work ext)"

section \<open>What the heights of a range contribute\<close>

lemma message_txD: "message_tx db m = Some t \<Longrightarrow> t \<in> set (transaction_table db) \<and> tx_id t = msg_tx_id m"
  by (auto simp: message_tx_def find_Some_iff)

lemma evm_messages_in:
  "(m, t) \<in> set (evm_messages a b db) \<Longrightarrow> message_tx db m = Some t \<and> in_range a b (tx_height t) \<and> m \<in> set (message_table db)"
  by (auto simp: evm_messages_def map_filter_def)

text \<open>Events are stored with the height of their transaction.\<close>

definition event_heights_ok :: "('c, 'a) chain_db_scheme \<Rightarrow> bool" where
  "event_heights_ok db \<longleftrightarrow>
     (\<forall>e\<in>set (event_table db). \<forall>t\<in>set (transaction_table db). evt_tx_id e = Some (tx_id t) \<longrightarrow> evt_block_height e = tx_height t)"

lemma find_concat_filter:
  assumes "\<And>e x. e \<in> set es \<Longrightarrow> \<not> Q e \<Longrightarrow> x \<in> set (f e) \<Longrightarrow> \<not> P x"
  shows "find P (concat (map f (filter Q es))) = find P (concat (map f es))"
  using assms
proof (induction es)
  case (Cons e es)
  have "find P (concat (map f (filter Q es))) = find P (concat (map f es))" by (rule Cons.IH) (use Cons.prems in auto)
  moreover have "find P (f e) = None" if "\<not> Q e" using Cons.prems that by (auto simp: find_None_iff)
  ultimately show ?case by (cases "find P (f e)") (auto simp: find_append)
qed simp

lemma failed_tx_in_range:
  assumes "event_heights_ok db" and "t \<in> set (transaction_table db)" and "in_range a b (tx_height t)"
  shows "failed_tx (filter (\<lambda>e. in_range a b (evt_block_height e)) (event_table db)) (tx_id t) = failed_tx (event_table db) (tx_id t)"
  unfolding failed_tx_def failed_attributes_def
  by (subst find_concat_filter) (use assms in \<open>auto simp: event_heights_ok_def\<close>)

definition evm_row :: "evm_ext \<Rightarrow> 'a evm_db_scheme \<Rightarrow> json message_row \<times> json transaction_row \<Rightarrow> evm_transaction res" where
  "evm_row ext db mt = rbind (evm_transaction_of ext (event_table db) mt) (with_receipt ext)"

definition range_evm_transactions :: "evm_ext \<Rightarrow> 'a evm_db_scheme \<Rightarrow> int \<Rightarrow> int \<Rightarrow> evm_transaction multiset" where
  "range_evm_transactions ext db a b = mset (List.map_filter (\<lambda>mt. try_undefined (evm_row ext db mt)) (evm_messages a b db))"

text \<open>The stored rows up to their ids.\<close>

definition stored_evm_transactions :: "'a evm_db_scheme \<Rightarrow> evm_transaction multiset" where
  "stored_evm_transactions db = image_mset (\<lambda>r. r\<lparr>et_id := 0\<rparr>) (mset (evm_transactions db))"

lemma evm_transaction_of_id: "evm_transaction_of ext es mt = Inr r \<Longrightarrow> et_id r = 0"
  by (auto simp: evm_transaction_of_def Let_def rbind_eq_Inr split: prod.split_asm)

lemma with_receipt_id: "with_receipt ext r = Inr r' \<Longrightarrow> et_id r' = et_id r"
  by (auto simp: with_receipt_def rbind_eq_Inr split: if_split_asm option.split)

lemma evm_tx_work_effect:
  assumes "evm_tx_work ext a b db = Inr db'" and "event_heights_ok db"
  obtains rows where "insert_evm_transactions rows db = Inr db'" "mset rows = range_evm_transactions ext db a b"
    "\<forall>r\<in>set rows. et_id r = 0"
proof -
  let ?es = "filter (\<lambda>e. in_range a b (evt_block_height e)) (event_table db)"
  from assms(1) obtain txs rows where txs: "rmap (evm_transaction_of ext ?es) (evm_messages a b db) = Inr txs"
    and rows: "rmap (with_receipt ext) txs = Inr rows" and ins: "insert_evm_transactions rows db = Inr db'"
    by (auto simp: evm_tx_work_def Let_def rbind_eq_Inr)
  have same: "evm_transaction_of ext ?es mt = evm_transaction_of ext (event_table db) mt" if mt: "mt \<in> set (evm_messages a b db)" for mt
  proof -
    obtain m t where "mt = (m, t)" by (cases mt)
    with mt have "t \<in> set (transaction_table db)" "in_range a b (tx_height t)" by (auto dest!: evm_messages_in message_txD)
    with failed_tx_in_range [OF assms(2)] \<open>mt = (m, t)\<close> show ?thesis by (simp add: evm_transaction_of_def)
  qed
  have "rmap (evm_row ext db) (evm_messages a b db) = rmap (\<lambda>x. rbind (evm_transaction_of ext ?es x) (with_receipt ext)) (evm_messages a b db)"
    by (rule rmap_cong_set) (simp only: evm_row_def same)
  also have "\<dots> = Inr rows" using rmap_rmap [OF txs, of "with_receipt ext"] rows by (simp only:)
  finally have "rmap (evm_row ext db) (evm_messages a b db) = Inr rows" .
  note rows' = this
  show thesis
  proof (rule that [OF ins])
    show "mset rows = range_evm_transactions ext db a b" unfolding range_evm_transactions_def rmap_derived [OF rows'] by (rule refl)
    show "\<forall>r\<in>set rows. et_id r = 0"
      using rows' by (auto simp: evm_row_def rbind_eq_Inr dest!: rmap_inD with_receipt_id evm_transaction_of_id)
  qed
qed

lemma insert_evm_transactions_effect:
  assumes "insert_evm_transactions rows db = Inr db'"
  shows "\<exists>new. db' = db\<lparr>evm_transactions := evm_transactions db @ new, evm_transaction_seq := evm_transaction_seq db + int (length rows)\<rparr> \<and>
    new = numbered (evm_transaction_seq db) (map (\<lambda>r i. r\<lparr>et_id := i\<rparr>) rows)"
  using assms by (auto simp: insert_evm_transactions_def split: if_split_asm)

lemma stored_after_insert:
  assumes "insert_evm_transactions rows db = Inr db'" and "\<forall>r\<in>set rows. et_id r = 0"
  shows "stored_evm_transactions db' = stored_evm_transactions db + mset rows"
proof -
  have "map (\<lambda>r. r\<lparr>et_id := 0\<rparr>) (numbered n (map (\<lambda>r i. r\<lparr>et_id := i\<rparr>) rows)) = map (\<lambda>f. f 0) (map (\<lambda>r i. r\<lparr>et_id := i\<rparr>) rows)" for n
    by (rule map_numbered) auto
  moreover have "map (\<lambda>f. f 0) (map (\<lambda>r i. r\<lparr>et_id := i\<rparr>) rows) = rows"
    using assms(2) by (simp add: comp_def) (rule map_idI, simp)
  ultimately have "image_mset (\<lambda>r. r\<lparr>et_id := 0\<rparr>) (mset (numbered n (map (\<lambda>r i. r\<lparr>et_id := i\<rparr>) rows))) = mset rows" for n
    by (metis mset_map)
  with insert_evm_transactions_effect [OF assms(1)] show ?thesis by (auto simp: stored_evm_transactions_def)
qed

abbreviation evm_tx_pos :: "config \<Rightarrow> 'a evm_db_scheme \<Rightarrow> int" where
  "evm_tx_pos cfg db \<equiv> job_start cfg HANDLE_TRANSACTION_EVM (block_checkpoint db)"

abbreviation evm_tx_end :: "config \<Rightarrow> 'a evm_db_scheme \<Rightarrow> int" where
  "evm_tx_end cfg db \<equiv> job_end cfg HANDLE_TRANSACTION_EVM (block_checkpoint db)"

lemma evm_tx_work_shape:
  assumes "evm_tx_work ext a b db = Inr db'"
  shows "\<exists>new n. db' = db\<lparr>evm_transactions := evm_transactions db @ new, evm_transaction_seq := n\<rparr>"
  using assms insert_evm_transactions_effect by (auto simp: evm_tx_work_def Let_def rbind_eq_Inr) blast

lemma evm_tx_checkpoint:
  "handle_tx_evm_job cfg ext db = Inr db' \<Longrightarrow> block_checkpoint db' = checkpoint_run cfg HANDLE_TRANSACTION_EVM (block_checkpoint db)"
  unfolding handle_tx_evm_job_def by (erule range_job_checkpoint) (auto dest!: evm_tx_work_shape)

lemma evm_messages_cong:
  assumes "message_table db' = message_table db" and "transaction_table db' = transaction_table db"
  shows "evm_messages a b db' = evm_messages a b db"
proof -
  have "message_tx db' = message_tx db" by (simp add: message_tx_def fun_eq_iff assms(2))
  then show ?thesis by (simp only: evm_messages_def assms(1))
qed

lemma range_evm_transactions_cong:
  assumes "message_table db' = message_table db" and "transaction_table db' = transaction_table db" and "event_table db' = event_table db"
  shows "range_evm_transactions ext db' = range_evm_transactions ext db"
  by (intro HOL.ext) (simp only: range_evm_transactions_def evm_row_def assms(3) evm_messages_cong [OF assms(1,2)])

lemma evm_tx_settled:
  assumes "handle_tx_evm_job cfg ext db = Inr db'"
  shows "range_evm_transactions ext db' = range_evm_transactions ext db"
  using assms unfolding handle_tx_evm_job_def
proof (cases rule: range_job_cases)
  case (worked db1)
  from evm_tx_work_shape [OF worked(2)] worked(3) show ?thesis
    by (intro range_evm_transactions_cong) (auto simp: saveCheckpoint_def)
qed simp

lemma evm_tx_stored:
  assumes "event_heights_ok db" and "handle_tx_evm_job cfg ext db = Inr db'"
  shows "stored_evm_transactions db' = stored_evm_transactions db +
    (if skips (job_guard HANDLE_TRANSACTION_EVM) (evm_tx_pos cfg db) (evm_tx_end cfg db) then 0
     else range_evm_transactions ext db (evm_tx_pos cfg db) (evm_tx_end cfg db))"
  using assms(2) unfolding handle_tx_evm_job_def
proof (cases rule: range_job_cases)
  case (worked db1)
  from evm_tx_work_effect [OF worked(2) assms(1)] obtain rows where rows: "insert_evm_transactions rows db = Inr db1"
    "mset rows = range_evm_transactions ext db (evm_tx_pos cfg db) (evm_tx_end cfg db)" "\<forall>r\<in>set rows. et_id r = 0" .
  have "stored_evm_transactions db' = stored_evm_transactions db1" by (simp add: worked(3) stored_evm_transactions_def saveCheckpoint_def)
  with stored_after_insert [OF rows(1,3)] rows(2) worked(1) show ?thesis by simp
qed simp

lemma range_evm_transactions_split:
  assumes "a \<le> b" and "b \<le> c"
  shows "range_evm_transactions ext db a c = range_evm_transactions ext db a b + range_evm_transactions ext db b c"
proof -
  have msgs: "evm_messages a b db = sort_key (\<lambda>(m, t). (tx_height t, tx_id t))
      (filter (\<lambda>x. msg_type (fst x) = MSG_ETHEREUM_TX \<and> in_range a b (tx_height (snd x)))
        (List.map_filter (\<lambda>m. map_option (Pair m) (message_tx db m)) (message_table db)))" for a b
    unfolding evm_messages_def by (simp add: case_prod_unfold)
  show ?thesis unfolding range_evm_transactions_def msgs by (rule derived_range_split [OF assms])
qed

lemma evm_tx_guarded:
  "\<not> skips (job_guard HANDLE_TRANSACTION_EVM) (evm_tx_pos cfg db) (evm_tx_end cfg db) \<Longrightarrow> evm_tx_pos cfg db \<le> evm_tx_end cfg db"
  using not_skips_le [of "job_guard HANDLE_TRANSACTION_EVM"] by (simp add: HANDLE_TRANSACTION_EVM_def)

interpretation evm_tx_job: appending_job cfg HANDLE_TRANSACTION_EVM "handle_tx_evm_job cfg ext" event_heights_ok
  "range_evm_transactions ext" stored_evm_transactions
  for cfg ext
  by unfold_locales (rule evm_tx_checkpoint evm_tx_stored evm_tx_settled range_evm_transactions_split evm_tx_guarded; assumption)+

section \<open>What the logs of a range contribute\<close>

text \<open>The Ethereum transactions have the height of the events of their Cosmos transaction.\<close>

definition log_heights_ok :: "'a evm_db_scheme \<Rightarrow> bool" where
  "log_heights_ok db \<longleftrightarrow>
     (\<forall>e\<in>set (event_table db). \<forall>r\<in>set (evm_transactions db). evt_tx_id e = Some (et_tx_id r) \<longrightarrow> et_height r = evt_block_height e)"

definition range_evm_events :: "evm_ext \<Rightarrow> 'a evm_db_scheme \<Rightarrow> int \<Rightarrow> int \<Rightarrow> evm_event_row multiset" where
  "range_evm_events ext db a b =
     mset (List.map_filter (\<lambda>ea. try_undefined (evm_event_of ext (mappingEvmTxId (evm_transactions db)) ea)) (log_attributes a b db))"

definition stored_evm_events :: "'a evm_db_scheme \<Rightarrow> evm_event_row multiset" where
  "stored_evm_events db = image_mset (\<lambda>r. r\<lparr>er_id := 0\<rparr>) (mset (evm_events db))"

lemma keyBy_filter:
  assumes "\<forall>x\<in>set xs. f x = k \<longrightarrow> P x"
  shows "keyBy f (filter P xs) k = keyBy f xs k"
  using assms by (induction xs rule: rev_induct) auto

lemma log_attributes_in:
  "(e, a) \<in> set (log_attributes s t db) \<longleftrightarrow>
     e \<in> set (event_table db) \<and> in_range s t (evt_block_height e) \<and> a \<in> set (evt_attributes e) \<and> attr_key a = Some ''txLog''"
  by (auto simp: log_attributes_def)

lemma mapping_in_range:
  assumes "log_heights_ok db" and "e \<in> set (event_table db)" and "in_range s t (evt_block_height e)" and "evt_tx_id e = Some i"
  shows "mappingEvmTxId (filter (\<lambda>r. in_range s t (et_height r)) (evm_transactions db)) i = mappingEvmTxId (evm_transactions db) i"
  unfolding mappingEvmTxId_def by (subst keyBy_filter) (use assms in \<open>auto simp: log_heights_ok_def\<close>)

lemma evm_event_of_id: "evm_event_of ext f ea = Inr r \<Longrightarrow> er_id r = 0"
  by (auto simp: evm_event_of_def Let_def rbind_eq_Inr split: prod.split_asm)

lemma evm_event_work_effect:
  assumes "evm_event_work ext s t db = Inr db'" and "log_heights_ok db"
  obtains rows where "db' = insert_evm_events rows db" "mset rows = range_evm_events ext db s t" "\<forall>r\<in>set rows. er_id r = 0"
proof -
  let ?txs = "filter (\<lambda>r. in_range s t (et_height r)) (evm_transactions db)"
  from assms(1) obtain rows where rows: "rmap (evm_event_of ext (mappingEvmTxId ?txs)) (log_attributes s t db) = Inr rows"
    and db': "db' = insert_evm_events rows db" by (auto simp: evm_event_work_def Let_def rbind_eq_Inr)
  have "rmap (evm_event_of ext (mappingEvmTxId (evm_transactions db))) (log_attributes s t db) = Inr rows"
    unfolding rows [symmetric]
  proof (rule rmap_cong_set)
    fix ea assume ea: "ea \<in> set (log_attributes s t db)"
    obtain e a where "ea = (e, a)" by (cases ea)
    with ea log_attributes_in have ea: "ea = (e, a)" "e \<in> set (event_table db)" "in_range s t (evt_block_height e)" by blast+
    have "Option.bind (evt_tx_id e) (mappingEvmTxId (evm_transactions db)) = Option.bind (evt_tx_id e) (mappingEvmTxId ?txs)"
      using mapping_in_range [OF assms(2) ea(2,3)] by (cases "evt_tx_id e") simp_all
    then show "evm_event_of ext (mappingEvmTxId (evm_transactions db)) ea = evm_event_of ext (mappingEvmTxId ?txs) ea"
      by (simp only: ea(1) evm_event_of_def log_evm_tx_id_def prod.case)
  qed
  note rows' = this
  show thesis
  proof (rule that [OF db'])
    show "mset rows = range_evm_events ext db s t" unfolding range_evm_events_def rmap_derived [OF rows'] by (rule refl)
    show "\<forall>r\<in>set rows. er_id r = 0" using rows by (auto dest!: rmap_inD evm_event_of_id)
  qed
qed

abbreviation evm_event_pos :: "config \<Rightarrow> 'a evm_db_scheme \<Rightarrow> int" where
  "evm_event_pos cfg db \<equiv> job_start cfg JOB_CRAWL_EVM_EVENT (block_checkpoint db)"

abbreviation evm_event_end :: "config \<Rightarrow> 'a evm_db_scheme \<Rightarrow> int" where
  "evm_event_end cfg db \<equiv> job_end cfg JOB_CRAWL_EVM_EVENT (block_checkpoint db)"

lemma evm_event_work_shape:
  assumes "evm_event_work ext s t db = Inr db'"
  shows "\<exists>new n. db' = db\<lparr>evm_events := evm_events db @ new, evm_event_seq := n\<rparr>"
  using assms by (auto simp: evm_event_work_def Let_def rbind_eq_Inr insert_evm_events_def)

lemma evm_event_checkpoint:
  "crawlEvmEventHandler cfg ext db = Inr db' \<Longrightarrow> block_checkpoint db' = checkpoint_run cfg JOB_CRAWL_EVM_EVENT (block_checkpoint db)"
  unfolding crawlEvmEventHandler_def by (erule range_job_checkpoint) (auto dest!: evm_event_work_shape)

lemma range_evm_events_cong:
  assumes "event_table db' = event_table db" and "evm_transactions db' = evm_transactions db"
  shows "range_evm_events ext db' = range_evm_events ext db"
  by (intro HOL.ext) (simp only: range_evm_events_def log_attributes_def assms)

lemma evm_event_settled:
  assumes "crawlEvmEventHandler cfg ext db = Inr db'"
  shows "range_evm_events ext db' = range_evm_events ext db"
  using assms unfolding crawlEvmEventHandler_def
proof (cases rule: range_job_cases)
  case (worked db1)
  from evm_event_work_shape [OF worked(2)] worked(3) show ?thesis
    by (intro range_evm_events_cong) (auto simp: saveCheckpoint_def)
qed simp

lemma stored_events_after_insert:
  assumes "\<forall>r\<in>set rows. er_id r = 0"
  shows "stored_evm_events (insert_evm_events rows db) = stored_evm_events db + mset rows"
proof -
  have "map (\<lambda>r. r\<lparr>er_id := 0\<rparr>) (numbered n (map (\<lambda>r i. r\<lparr>er_id := i\<rparr>) rows)) = map (\<lambda>f. f 0) (map (\<lambda>r i. r\<lparr>er_id := i\<rparr>) rows)" for n
    by (rule map_numbered) auto
  moreover have "map (\<lambda>f. f 0) (map (\<lambda>r i. r\<lparr>er_id := i\<rparr>) rows) = rows"
    using assms by (simp add: comp_def) (rule map_idI, simp)
  ultimately have "image_mset (\<lambda>r. r\<lparr>er_id := 0\<rparr>) (mset (numbered n (map (\<lambda>r i. r\<lparr>er_id := i\<rparr>) rows))) = mset rows" for n
    by (metis mset_map)
  then show ?thesis by (simp add: stored_evm_events_def insert_evm_events_def)
qed

lemma evm_event_stored:
  assumes "log_heights_ok db \<and> forward cfg JOB_CRAWL_EVM_EVENT db" and "crawlEvmEventHandler cfg ext db = Inr db'"
  shows "stored_evm_events db' = stored_evm_events db +
    (if skips (job_guard JOB_CRAWL_EVM_EVENT) (evm_event_pos cfg db) (evm_event_end cfg db) then 0
     else range_evm_events ext db (evm_event_pos cfg db) (evm_event_end cfg db))"
  using assms(2) unfolding crawlEvmEventHandler_def
proof (cases rule: range_job_cases)
  case (worked db1)
  from evm_event_work_effect [OF worked(2) conjunct1 [OF assms(1)]] obtain rows where rows: "db1 = insert_evm_events rows db"
    "mset rows = range_evm_events ext db (evm_event_pos cfg db) (evm_event_end cfg db)" "\<forall>r\<in>set rows. er_id r = 0" .
  have "stored_evm_events db' = stored_evm_events db1" by (simp add: worked(3) stored_evm_events_def saveCheckpoint_def)
  with stored_events_after_insert [OF rows(3), of db] rows(1,2) worked(1) show ?thesis by simp
qed simp

lemma range_evm_events_split:
  assumes "a \<le> b" and "b \<le> c"
  shows "range_evm_events ext db a c = range_evm_events ext db a b + range_evm_events ext db b c"
proof -
  have logs: "mset (log_attributes a b db) = filter_mset (\<lambda>x. True \<and> in_range a b (evt_block_height (fst x)))
      (mset (concat (map (\<lambda>e. map (Pair e) (filter (\<lambda>a. attr_key a = Some ''txLog'') (evt_attributes e))) (event_table db))))" for a b
  proof -
    have "concat (map (\<lambda>e. map (Pair e) (g e)) (filter (\<lambda>e. in_range a b (evt_block_height e)) es)) =
        filter (\<lambda>x. in_range a b (evt_block_height (fst x))) (concat (map (\<lambda>e. map (Pair e) (g e)) es))" for g es
      by (induction es) (auto simp: filter_map comp_def)
    note this [of "\<lambda>e. filter (\<lambda>a. attr_key a = Some ''txLog'') (evt_attributes e)" "event_table db"]
    then show ?thesis by (simp only: log_attributes_def mset_sort simp_thms mset_filter)
  qed
  show ?thesis unfolding range_evm_events_def mset_map_filter_mset logs by (subst filter_mset_range_split [OF assms]) simp
qed

lemma evm_event_guarded:
  "log_heights_ok db \<and> forward cfg JOB_CRAWL_EVM_EVENT db \<Longrightarrow>
    \<not> skips (job_guard JOB_CRAWL_EVM_EVENT) (evm_event_pos cfg db) (evm_event_end cfg db) \<Longrightarrow> evm_event_pos cfg db \<le> evm_event_end cfg db"
  unfolding forward_def by (elim conjE)

interpretation evm_event_job: appending_job cfg JOB_CRAWL_EVM_EVENT "crawlEvmEventHandler cfg ext"
  "\<lambda>db. log_heights_ok db \<and> forward cfg JOB_CRAWL_EVM_EVENT db" "range_evm_events ext" stored_evm_events
  for cfg ext
  by unfold_locales (rule evm_event_checkpoint evm_event_stored evm_event_settled range_evm_events_split evm_event_guarded; assumption)+

section \<open>Links between the tables\<close>

text \<open>Every log points to a transaction of the same Cosmos transaction, and ids are not used twice.\<close>

definition evm_linked :: "'a evm_db_scheme \<Rightarrow> bool" where
  "evm_linked db \<longleftrightarrow>
     distinct (map et_id (evm_transactions db)) \<and> list_all (\<lambda>r. et_id r < evm_transaction_seq db) (evm_transactions db) \<and>
     (\<forall>v\<in>set (evm_events db). \<exists>r\<in>set (evm_transactions db). et_id r = er_evm_tx_id v \<and> et_tx_id r = er_tx_id v)"

lemma evm_linked_transactions:
  assumes "evm_tx_work ext a b db = Inr db'" and "evm_linked db"
  shows "evm_linked db'"
proof -
  from assms(1) obtain rows where "insert_evm_transactions rows db = Inr db'"
    by (auto simp: evm_tx_work_def Let_def rbind_eq_Inr)
  from insert_evm_transactions_effect [OF this]
  have db': "db' = db\<lparr>evm_transactions := evm_transactions db @ numbered (evm_transaction_seq db) (map (\<lambda>r i. r\<lparr>et_id := i\<rparr>) rows),
      evm_transaction_seq := evm_transaction_seq db + int (length rows)\<rparr>" by blast
  have keys: "\<forall>f\<in>set (map (\<lambda>r i. r\<lparr>et_id := i\<rparr>) rows). \<forall>i. et_id (f i) = i" by auto
  note new = append_numbered_keys [where key = et_id, OF _ _ keys, of "evm_transactions db" "evm_transaction_seq db"]
  from new assms(2) show ?thesis by (auto simp: evm_linked_def db')
qed

lemma evm_event_of_link:
  assumes "evm_event_of ext (mappingEvmTxId txs) ea = Inr v"
  shows "\<exists>r\<in>set txs. et_id r = er_evm_tx_id v \<and> et_tx_id r = er_tx_id v"
proof -
  from assms obtain i where "evt_tx_id (fst ea) = Some i" "mappingEvmTxId txs i = Some (er_evm_tx_id v)" "er_tx_id v = i"
    by (auto simp: evm_event_of_def log_evm_tx_id_def Let_def rbind_eq_Inr bind_eq_Some_conv split: prod.split_asm option.split_asm)
  then show ?thesis by (auto simp: mappingEvmTxId_def dest!: keyBy_SomeD)
qed

lemma evm_linked_events:
  assumes "evm_event_work ext s t db = Inr db'" and "evm_linked db"
  shows "evm_linked db'"
proof -
  let ?txs = "filter (\<lambda>r. in_range s t (et_height r)) (evm_transactions db)"
  from assms(1) obtain rows where rows: "rmap (evm_event_of ext (mappingEvmTxId ?txs)) (log_attributes s t db) = Inr rows"
    and db': "db' = insert_evm_events rows db" by (auto simp: evm_event_work_def Let_def rbind_eq_Inr)
  have link: "\<exists>r\<in>set (evm_transactions db). et_id r = er_evm_tx_id v \<and> et_tx_id r = er_tx_id v" if "v \<in> set rows" for v
    using rmap_inD [OF rows that] by (auto dest!: evm_event_of_link)
  have "\<exists>r\<in>set (evm_transactions db). et_id r = er_evm_tx_id v \<and> et_tx_id r = er_tx_id v"
    if "v \<in> set (numbered n (map (\<lambda>r i. r\<lparr>er_id := i\<rparr>) rows))" for v n
    using that link by (auto simp: set_numbered)
  with assms(2) show ?thesis by (auto simp: evm_linked_def db' insert_evm_events_def)
qed

section \<open>Properties\<close>

definition sample_evm_ext :: evm_ext where
  "sample_evm_ext =
     \<lparr>base64_bytes = Some, bytes_hex = id, evm_codec = \<lparr>fromBech32 = (\<lambda>s. Some (''aura'', s)), toBech32 = (\<lambda>p d. d), ETH_encoder = (\<lambda>d. ''0X'' @ d),
        ETH_decoder = Some\<rparr>, networkPrefixAddress = ''aura'', getTransactionReceipt = (\<lambda>h. Inr (Some (Some ''0xNEW''))),
      JSON_parse = (\<lambda>s. Some (JObj [(''address'', JStr s), (''topics'', JArr [JStr ''t0'']), (''transactionHash'', JStr ''0xh''),
        (''blockHash'', JStr ''0xb''), (''transactionIndex'', JNum 0)]))\<rparr>"

definition sample_evm_message :: "int \<Rightarrow> nat \<Rightarrow> json message_row" where
  "sample_evm_message i k =
     \<lparr>msg_id = i, msg_tx_id = 1, msg_index = k, msg_type = MSG_ETHEREUM_TX, msg_sender = ''bob'',
      msg_content = JObj [(''hash'', JStr ''0xh''), (''size'', JNum 7), (''data'', JObj [(''gas'', JStr ''21000'')])], msg_parent_id = None\<rparr>"

definition sample_evm_db :: evm_db where
  "sample_evm_db =
     \<lparr>block_checkpoint = map_of [(''handle:transaction'', 3)], block_table = [],
      transaction_table =
        [\<lparr>tx_id = 1, tx_height = 2, tx_hash = [], tx_codespace = [], tx_code = 0, tx_gas_used = [], tx_gas_wanted = [], tx_gas_limit = [],
          tx_fee = [], tx_memo = [], tx_index = 0, tx_timestamp = ''t'', tx_data = None\<rparr>], transaction_seq = 2,
      event_table =
        [\<lparr>evt_id = 1, evt_tx_id = Some 1, evt_tx_msg_index = Some 0, evt_type = ''ethereum_tx'', evt_block_height = 2, evt_source = TX_EVENT,
          evt_attributes = [\<lparr>attr_index = 0, attr_key = Some ''ethereumTxFailed'', attr_value = Some ''reverted''\<rparr>]\<rparr>,
         \<lparr>evt_id = 2, evt_tx_id = Some 1, evt_tx_msg_index = Some 0, evt_type = ''tx_log'', evt_block_height = 2, evt_source = TX_EVENT,
          evt_attributes = [\<lparr>attr_index = 0, attr_key = Some ''txLog'', attr_value = Some ''0xA''\<rparr>]\<rparr>], event_seq = 3,
      message_table = [sample_evm_message 1 0, sample_evm_message 2 1], message_seq = 3,
      evm_transactions = [], evm_transaction_seq = 10, evm_events = [], evm_event_seq = 1\<rparr>"

definition sample_evm_config :: config where
  "sample_evm_config = \<lparr>startBlock = 0, blocksPerCall = (\<lambda>_. 100)\<rparr>"

definition sample_evm_db1 :: evm_db where
  "sample_evm_db1 = projr (handle_tx_evm_job sample_evm_config sample_evm_ext sample_evm_db)"

definition sample_evm_db2 :: evm_db where
  "sample_evm_db2 = projr (crawlEvmEventHandler sample_evm_config sample_evm_ext sample_evm_db1)"

lemma sample_evm_runs:
  "handle_tx_evm_job sample_evm_config sample_evm_ext sample_evm_db = Inr sample_evm_db1"
  "crawlEvmEventHandler sample_evm_config sample_evm_ext sample_evm_db1 = Inr sample_evm_db2"
proof -
  have "\<not> isl (handle_tx_evm_job sample_evm_config sample_evm_ext sample_evm_db)" by code_simp
  then show "handle_tx_evm_job sample_evm_config sample_evm_ext sample_evm_db = Inr sample_evm_db1" by (simp add: sample_evm_db1_def)
  have "\<not> isl (crawlEvmEventHandler sample_evm_config sample_evm_ext sample_evm_db1)" by code_simp
  then show "crawlEvmEventHandler sample_evm_config sample_evm_ext sample_evm_db1 = Inr sample_evm_db2" by (simp add: sample_evm_db2_def)
qed

text \<open>
  C14. However the runs of the job interleave with other jobs that leave its checkpoint, its rows and what passed
  heights say alone, the table holds, beside the rows it had and up to ids, exactly one Ethereum transaction for
  every message that carries one in the heights passed, with the contract address of its receipt and the
  status that the failure attribute of its Cosmos transaction gives.
\<close>

theorem evm_transactions_exactly_once:
  assumes "job_trace (handle_tx_evm_job cfg ext) event_heights_ok
    (settled_env (evm_tx_pos cfg) stored_evm_transactions (range_evm_transactions ext)) db0 db"
  shows "evm_tx_pos cfg db0 \<le> evm_tx_pos cfg db \<and>
    stored_evm_transactions db = stored_evm_transactions db0 + range_evm_transactions ext db (evm_tx_pos cfg db0) (evm_tx_pos cfg db)"
  using assms by (rule evm_tx_job.exactly_once)

lemma sample_evm_heights: "event_heights_ok sample_evm_db" "log_heights_ok sample_evm_db1"
proof -
  show "event_heights_ok sample_evm_db" by (simp add: event_heights_ok_def sample_evm_db_def)
  have "map (\<lambda>e. (evt_tx_id e, evt_block_height e)) (event_table sample_evm_db1) = [(Some 1, 2), (Some 1, 2)]"
    "map (\<lambda>r. (et_tx_id r, et_height r)) (evm_transactions sample_evm_db1) = [(1, 2), (1, 2)]" by code_simp+
  then show "log_heights_ok sample_evm_db1" by (auto simp: log_heights_ok_def map_eq_Cons_conv)
qed

theorem evm_transactions_exactly_once_witness:
  "stored_evm_transactions sample_evm_db1 = range_evm_transactions sample_evm_ext sample_evm_db1 0 3 \<and>
   map (\<lambda>r. (et_from r, et_status r, et_contract_address r)) (evm_transactions sample_evm_db1) =
     [(''0xbob'', 0, Some ''0xnew''), (''0xbob'', 0, Some ''0xnew'')]"
proof -
  have "job_trace (handle_tx_evm_job sample_evm_config sample_evm_ext) event_heights_ok
      (settled_env (evm_tx_pos sample_evm_config) stored_evm_transactions (range_evm_transactions sample_evm_ext)) sample_evm_db sample_evm_db1"
    by (intro trace_one sample_evm_runs sample_evm_heights)
  note evm_transactions_exactly_once [OF this]
  moreover have "evm_tx_pos sample_evm_config sample_evm_db = 0" "evm_tx_pos sample_evm_config sample_evm_db1 = 3"
    "map (\<lambda>r. (et_from r, et_status r, et_contract_address r)) (evm_transactions sample_evm_db1) =
     [(''0xbob'', 0, Some ''0xnew''), (''0xbob'', 0, Some ''0xnew'')]" by code_simp+
  moreover have "stored_evm_transactions sample_evm_db = {#}" by (simp add: stored_evm_transactions_def sample_evm_db_def)
  ultimately show ?thesis by simp
qed

text \<open>
  C15. The job that stores the logs, started only when the end of its range is not behind its start, stores, up to
  ids, exactly one row for every log attribute of the heights passed, however its runs interleave with other
  jobs that leave its checkpoint, its rows and what passed heights say alone.
\<close>

theorem evm_events_exactly_once:
  assumes "job_trace (crawlEvmEventHandler cfg ext) (\<lambda>db. log_heights_ok db \<and> forward cfg JOB_CRAWL_EVM_EVENT db)
    (settled_env (evm_event_pos cfg) stored_evm_events (range_evm_events ext)) db0 db"
  shows "evm_event_pos cfg db0 \<le> evm_event_pos cfg db \<and>
    stored_evm_events db = stored_evm_events db0 + range_evm_events ext db (evm_event_pos cfg db0) (evm_event_pos cfg db)"
  using assms by (rule evm_event_job.exactly_once)

theorem evm_events_exactly_once_witness:
  "stored_evm_events sample_evm_db2 = range_evm_events sample_evm_ext sample_evm_db2 0 3 \<and>
   map (\<lambda>v. (er_evm_tx_id v, er_address v, er_topic0 v, er_topic1 v)) (evm_events sample_evm_db2) =
     [(11, ''0xa'', Some (JStr ''t0''), None)]"
proof -
  have "forward sample_evm_config JOB_CRAWL_EVM_EVENT sample_evm_db1" by code_simp
  with sample_evm_heights(2) have "job_trace (crawlEvmEventHandler sample_evm_config sample_evm_ext)
      (\<lambda>db. log_heights_ok db \<and> forward sample_evm_config JOB_CRAWL_EVM_EVENT db)
      (settled_env (evm_event_pos sample_evm_config) stored_evm_events (range_evm_events sample_evm_ext)) sample_evm_db1 sample_evm_db2"
    by (intro trace_one sample_evm_runs conjI)
  note evm_events_exactly_once [OF this]
  moreover have "evm_event_pos sample_evm_config sample_evm_db1 = 0" "evm_event_pos sample_evm_config sample_evm_db2 = 3"
    "map (\<lambda>v. (er_evm_tx_id v, er_address v, er_topic0 v, er_topic1 v)) (evm_events sample_evm_db2) = [(11, ''0xa'', Some (JStr ''t0''), None)]"
    "evm_events sample_evm_db1 = []" by code_simp+
  moreover from this(4) have "stored_evm_events sample_evm_db1 = {#}" by (simp add: stored_evm_events_def)
  ultimately show ?thesis by simp
qed

text \<open>The two jobs in any order; the crawler and other jobs may change everything else.\<close>

inductive evm_step :: "config \<Rightarrow> evm_ext \<Rightarrow> 'a evm_db_scheme \<Rightarrow> 'a evm_db_scheme \<Rightarrow> bool" for cfg ext where
  transactions_run: "handle_tx_evm_job cfg ext db = Inr db' \<Longrightarrow> evm_step cfg ext db db'"
| logs_run: "crawlEvmEventHandler cfg ext db = Inr db' \<Longrightarrow> evm_step cfg ext db db'"
| others_run: "evm_transactions db' = evm_transactions db \<Longrightarrow> evm_transaction_seq db' = evm_transaction_seq db \<Longrightarrow>
    evm_events db' = evm_events db \<Longrightarrow> evm_step cfg ext db db'"

lemma evm_linked_saved [simp]: "evm_linked (saveCheckpoint r db) = evm_linked db"
  by (simp add: evm_linked_def saveCheckpoint_def split: prod.split)

lemma evm_step_linked:
  assumes "evm_step cfg ext db db'" and "evm_linked db"
  shows "evm_linked db'"
  using assms(1)
proof cases
  case transactions_run
  then show ?thesis unfolding handle_tx_evm_job_def
    by (cases rule: range_job_cases) (use assms(2) in \<open>auto dest: evm_linked_transactions\<close>)
next
  case logs_run
  then show ?thesis unfolding crawlEvmEventHandler_def
    by (cases rule: range_job_cases) (use assms(2) in \<open>auto dest: evm_linked_events\<close>)
next
  case others_run
  with assms(2) show ?thesis by (simp add: evm_linked_def)
qed

text \<open>
  C23. Whatever runs in whatever order, every stored log points to a stored Ethereum transaction of the same
  Cosmos transaction, and no two Ethereum transactions have the same id.
\<close>

theorem evm_logs_stay_linked:
  assumes "(evm_step cfg ext)\<^sup>*\<^sup>* db0 db" and "evm_linked db0"
  shows "distinct (map et_id (evm_transactions db)) \<and>
    (\<forall>v\<in>set (evm_events db). \<exists>r\<in>set (evm_transactions db). et_id r = er_evm_tx_id v \<and> et_tx_id r = er_tx_id v)"
proof -
  from assms have "evm_linked db" by (induction rule: rtranclp_induct) (auto intro: evm_step_linked)
  then show ?thesis by (simp add: evm_linked_def)
qed

theorem evm_logs_stay_linked_witness:
  "\<exists>v\<in>set (evm_events sample_evm_db2). \<exists>r\<in>set (evm_transactions sample_evm_db2). et_id r = er_evm_tx_id v \<and> et_tx_id r = er_tx_id v"
proof -
  have "(evm_step sample_evm_config sample_evm_ext)\<^sup>*\<^sup>* sample_evm_db sample_evm_db2"
    using transactions_run [OF sample_evm_runs(1)] logs_run [OF sample_evm_runs(2)] by (meson converse_rtranclp_into_rtranclp r_into_rtranclp)
  moreover have "evm_linked sample_evm_db" by (simp add: evm_linked_def sample_evm_db_def)
  ultimately have "\<forall>v\<in>set (evm_events sample_evm_db2). \<exists>r\<in>set (evm_transactions sample_evm_db2). et_id r = er_evm_tx_id v \<and> et_tx_id r = er_tx_id v"
    by (rule evm_logs_stay_linked [THEN conjunct2])
  moreover have "evm_events sample_evm_db2 \<noteq> []" by code_simp
  then have "hd (evm_events sample_evm_db2) \<in> set (evm_events sample_evm_db2)" by simp
  ultimately show ?thesis by blast
qed

text \<open>
  C39. A Cosmos transaction with several Ethereum transactions has all its logs stored for the last of them,
  whichever of them wrote the log.
\<close>

theorem logs_go_to_last_transaction:
  assumes "evm_event_work ext s t db = Inr db'" and "evm_transactions db = xs @ r # ys" and "in_range s t (et_height r)"
    and "\<forall>r'\<in>set ys. et_tx_id r' \<noteq> et_tx_id r"
  shows "\<exists>new. evm_events db' = evm_events db @ new \<and> (\<forall>v\<in>set new. er_tx_id v = et_tx_id r \<longrightarrow> er_evm_tx_id v = et_id r)"
proof -
  let ?txs = "filter (\<lambda>r. in_range s t (et_height r)) (evm_transactions db)"
  from assms(1) obtain rows where rows: "rmap (evm_event_of ext (mappingEvmTxId ?txs)) (log_attributes s t db) = Inr rows"
    and db': "db' = insert_evm_events rows db" by (auto simp: evm_event_work_def Let_def rbind_eq_Inr)
  have "keyBy f (xs @ x # ys) (f x) = Some x" if "\<forall>y\<in>set ys. f y \<noteq> f x" for f :: "evm_transaction \<Rightarrow> int" and xs x ys
    using that by (induction ys rule: rev_induct) (auto simp flip: append_assoc append_Cons)
  from this [of "filter (\<lambda>r. in_range s t (et_height r)) ys" et_tx_id r "filter (\<lambda>r. in_range s t (et_height r)) xs"]
  have last: "mappingEvmTxId ?txs (et_tx_id r) = Some (et_id r)" using assms(3,4) by (simp add: assms(2) mappingEvmTxId_def)
  have "er_evm_tx_id v = et_id r" if "v \<in> set rows" "er_tx_id v = et_tx_id r" for v
  proof -
    from rmap_inD [OF rows that(1)] obtain ea where "evm_event_of ext (mappingEvmTxId ?txs) ea = Inr v" by blast
    then have "mappingEvmTxId ?txs (er_tx_id v) = Some (er_evm_tx_id v)"
      by (auto simp: evm_event_of_def log_evm_tx_id_def Let_def rbind_eq_Inr bind_eq_Some_conv split: prod.split_asm option.split_asm)
    with last that(2) show ?thesis by simp
  qed
  then show ?thesis by (auto simp: db' insert_evm_events_def set_numbered)
qed

theorem logs_go_to_last_transaction_witness:
  "map et_id (evm_transactions sample_evm_db1) = [10, 11] \<and> map et_tx_id (evm_transactions sample_evm_db1) = [1, 1] \<and>
   (\<exists>db'. evm_event_work sample_evm_ext 0 3 sample_evm_db1 = Inr db' \<and>
     (\<exists>v\<in>set (evm_events db'). er_tx_id v = 1 \<and> er_evm_tx_id v = 11))"
proof -
  have ids: "map et_id (evm_transactions sample_evm_db1) = [10, 11]" "map et_tx_id (evm_transactions sample_evm_db1) = [1, 1]"
    "map et_height (evm_transactions sample_evm_db1) = [2, 2]" by code_simp+
  then obtain r1 r2 where txs: "evm_transactions sample_evm_db1 = [r1] @ r2 # []" and r2: "et_id r2 = 11" "et_tx_id r2 = 1" "et_height r2 = 2"
    by (auto simp: map_eq_Cons_conv)
  have "\<not> isl (evm_event_work sample_evm_ext 0 3 sample_evm_db1)" by code_simp
  then obtain db' where run: "evm_event_work sample_evm_ext 0 3 sample_evm_db1 = Inr db'" by (cases "evm_event_work sample_evm_ext 0 3 sample_evm_db1") auto
  from logs_go_to_last_transaction [OF run txs] r2 obtain new
    where new: "evm_events db' = evm_events sample_evm_db1 @ new" "\<forall>v\<in>set new. er_tx_id v = 1 \<longrightarrow> er_evm_tx_id v = 11"
    by (auto simp: in_range_def)
  have "evm_events sample_evm_db1 = []" by code_simp
  moreover have "hd (map er_tx_id (evm_events (projr (evm_event_work sample_evm_ext 0 3 sample_evm_db1)))) = 1"
    "evm_events (projr (evm_event_work sample_evm_ext 0 3 sample_evm_db1)) \<noteq> []" by code_simp+
  ultimately have "new \<noteq> []" "er_tx_id (hd new) = 1" using new(1) run by (simp_all add: hd_map)
  with new have "hd new \<in> set (evm_events db')" "er_tx_id (hd new) = 1" "er_evm_tx_id (hd new) = 11" by simp_all
  with ids run show ?thesis by blast
qed

text \<open>
  A log of a transaction for which no Ethereum transaction is stored, such as one that a message of another
  kind causes, stops the job: as long as that is so it throws whenever its range has the height of the log.
\<close>

theorem log_without_transaction_blocks:
  assumes "e \<in> set (event_table db)" and "a \<in> set (evt_attributes e)" and "attr_key a = Some ''txLog''"
    and "\<forall>r\<in>set (evm_transactions db). evt_tx_id e \<noteq> Some (et_tx_id r)"
    and "in_range (evm_event_pos cfg db) (evm_event_end cfg db) (evt_block_height e)"
  shows "isl (crawlEvmEventHandler cfg ext db)"
proof -
  have "isl (evm_event_work ext s t db)" if "in_range s t (evt_block_height e)" for s t
  proof (rule ccontr)
    let ?txs = "filter (\<lambda>r. in_range s t (et_height r)) (evm_transactions db)"
    assume "\<not> isl (evm_event_work ext s t db)"
    then obtain rows where rows: "rmap (evm_event_of ext (mappingEvmTxId ?txs)) (log_attributes s t db) = Inr rows"
      by (cases "rmap (evm_event_of ext (mappingEvmTxId ?txs)) (log_attributes s t db)") (simp_all add: evm_event_work_def)
    have "(e, a) \<in> set (log_attributes s t db)" using assms(1-3) that by (simp add: log_attributes_in)
    from rmap_memD [OF rows this] obtain v where v: "evm_event_of ext (mappingEvmTxId ?txs) (e, a) = Inr v" by blast
    then obtain i j where "evt_tx_id e = Some i" "mappingEvmTxId ?txs i = Some j"
      by (auto simp: evm_event_of_def log_evm_tx_id_def Let_def rbind_eq_Inr bind_eq_Some_conv split: option.split_asm)
    with assms(4) show False by (auto simp: mappingEvmTxId_def dest!: keyBy_SomeD)
  qed
  moreover have "\<not> skips (job_guard JOB_CRAWL_EVM_EVENT) x y" for x y by (simp add: JOB_CRAWL_EVM_EVENT_def skips_def)
  ultimately show ?thesis using assms(5) by (simp add: crawlEvmEventHandler_def range_job_isl)
qed

definition sample_stray_log_db :: evm_db where
  "sample_stray_log_db = sample_evm_db\<lparr>block_checkpoint := map_of [(''handle:transaction-evm'', 3)], message_table := []\<rparr>"

theorem log_without_transaction_blocks_witness:
  "isl (crawlEvmEventHandler sample_evm_config sample_evm_ext sample_stray_log_db)"
proof (rule log_without_transaction_blocks)
  show "event_table sample_stray_log_db ! 1 \<in> set (event_table sample_stray_log_db)"
    by (rule nth_mem) (simp add: sample_stray_log_db_def sample_evm_db_def)
  show "evt_attributes (event_table sample_stray_log_db ! 1) ! 0 \<in> set (evt_attributes (event_table sample_stray_log_db ! 1))"
    by (rule nth_mem) (simp add: sample_stray_log_db_def sample_evm_db_def)
  show "attr_key (evt_attributes (event_table sample_stray_log_db ! 1) ! 0) = Some ''txLog''"
    "\<forall>r\<in>set (evm_transactions sample_stray_log_db). evt_tx_id (event_table sample_stray_log_db ! 1) \<noteq> Some (et_tx_id r)"
    by (simp_all add: sample_stray_log_db_def sample_evm_db_def)
  show "in_range (evm_event_pos sample_evm_config sample_stray_log_db) (evm_event_end sample_evm_config sample_stray_log_db)
      (evt_block_height (event_table sample_stray_log_db ! 1))" by code_simp
qed

end
