(* ===== verification/Evm_Internal.thy ===== *)
theory Evm_Internal
  imports Evm_Tx Coin_Transfer
begin

text \<open>
  The calls inside Ethereum transactions: \<^verbatim>\<open>src/services/evm/evm_crawl_internal_tx.service.ts\<close> asks the node for the
  trace of every transaction of a range and stores a row for every call of it
  (\<^verbatim>\<open>src/models/evm_internal_transaction.ts\<close>).
\<close>

section \<open>Tables\<close>

record evm_internal =
  it_evm_tx_id :: int
  it_type_trace_address :: string
  it_type :: string
  it_from :: "string option"
  it_to :: "string option"
  it_value :: nat
  it_input :: string
  it_gas :: nat
  it_gas_used :: nat
  it_error :: "json option"

record internal_db = evm_db +
  evm_internals :: "evm_internal list"

text \<open>The answer of the node to \<^verbatim>\<open>debug_traceTransaction\<close> for the id and the hash of a transaction.\<close>

record trace_ext =
  debug_traceTransaction :: "int \<Rightarrow> string \<Rightarrow> json res"

definition EVM_CRAWL_INTERNAL_TX :: job_decl where
  "EVM_CRAWL_INTERNAL_TX =
     \<lparr>job_name = ''crawl:crawl-internal-tx'', lastHeightJobNames = [''handle:transaction-evm''],
      configName = Some ''evmCrawlInternalTx'', job_guard = SkipGE\<rparr>"

section \<open>Numbers and texts\<close>

text \<open>\<^verbatim>\<open>String(value)\<close>\<close>

fun js_String :: "json \<Rightarrow> string" where
  "js_String JNull = ''null''"
| "js_String (JBool b) = (if b then ''true'' else ''false'')"
| "js_String (JNum n) = show_int n"
| "js_String (JStr s) = s"
| "js_String (JArr xs) = tl (concat (map (\<lambda>x. CHR '','' # (if x = JNull then [] else js_String x)) xs))"
| "js_String (JObj _) = ''[object Object]''"

definition template :: "json option \<Rightarrow> string" where
  "template v = (case v of None \<Rightarrow> ''undefined'' | Some j \<Rightarrow> js_String j)"

text \<open>\<^verbatim>\<open>parseInt(text, 16)\<close>: \<open>None\<close> is \<^verbatim>\<open>NaN\<close>; the traces have no negative numbers.\<close>

definition parseInt16 :: "string \<Rightarrow> nat option" where
  "parseInt16 s =
     (let t = dropWhile is_blank s;
          u = (if take 2 t \<in> {''0x'', ''0X''} then drop 2 t else t);
          ds = takeWhile (in_base 16) u in
      if ds = [] then None else Some (nat (base_value 16 ds)))"

text \<open>
  The number as a double, as the driver writes it into a numeric column; the validator rejects \<^verbatim>\<open>NaN\<close> and
  infinite numbers.
\<close>

definition hex_number :: "string \<Rightarrow> string \<Rightarrow> nat res" where
  "hex_number field s =
     (case parseInt16 s of
        None \<Rightarrow> Inl (ValidationError field)
      | Some n \<Rightarrow> if bit_length (to_double n) \<le> 1024 then Inr (number_text_value (to_double n)) else Inl (ValidationError field))"

text \<open>For evaluation, sizes are compared by their bits.\<close>

lemma bit_length_le_iff: "bit_length n \<le> k \<longleftrightarrow> n < 2 ^ k"
proof
  assume le: "bit_length n \<le> k"
  have "n < 2 ^ bit_length n" using bit_length_bounds [of n] by (cases "n = 0") simp_all
  also have "(2::nat) ^ bit_length n \<le> 2 ^ k" using le by (rule power_increasing) simp
  finally show "n < 2 ^ k" .
qed (rule bit_length_le)

lemma number_text_value_code [code]:
  "number_text_value d = (if bit_length d \<le> 53 then d else shortest_decimal (bit_length d) d)"
  by (simp add: number_text_value_def bit_length_le_iff)

section \<open>One call\<close>

definition optional_string :: "json option \<Rightarrow> string option res" where
  "optional_string v = (case v of None \<Rightarrow> Inr None | Some _ \<Rightarrow> rbind (as_string v) (\<lambda>s. Inr (Some s)))"

text \<open>The id of the answer is coerced to a text and stored in a column of numbers.\<close>

definition tracer_id :: "json option \<Rightarrow> int res" where
  "tracer_id v =
     rbind (as_string v) (\<lambda>s.
       case number_of_text s of None \<Rightarrow> Inl (DbError ''invalid input syntax for type integer'') | Some n \<Rightarrow> Inr n)"

definition internal_row :: "json option \<Rightarrow> string \<Rightarrow> json \<Rightarrow> evm_internal res" where
  "internal_row tracerId typeTraceAddress call =
     rbind (json_get call ''type'') (\<lambda>type.
     let field = json_opt (Some call) in
     rbind (tracer_id tracerId) (\<lambda>evm_tx_id.
     rbind (as_string type) (\<lambda>type_text.
     rbind (optional_string (field ''from'')) (\<lambda>source.
     rbind (optional_string (field ''to'')) (\<lambda>target.
     rbind (hex_number ''value'' (case field ''value'' of None \<Rightarrow> ''0'' | Some JNull \<Rightarrow> ''0'' | Some v \<Rightarrow> js_String v)) (\<lambda>val.
     rbind (as_string (field ''input'')) (\<lambda>input.
     rbind (hex_number ''gas'' (template (field ''gas''))) (\<lambda>gas.
     rbind (hex_number ''gas_used'' (template (field ''gasUsed''))) (\<lambda>gas_used.
       Inr \<lparr>it_evm_tx_id = evm_tx_id, it_type_trace_address = typeTraceAddress @ ''_'' @ template type, it_type = type_text,
            it_from = source, it_to = target, it_value = val, it_input = input, it_gas = gas, it_gas_used = gas_used,
            it_error = field ''error''\<rparr>)))))))))"

section \<open>The tree of calls\<close>

definition call_segment :: "string \<Rightarrow> nat \<Rightarrow> string" where
  "call_segment parentType stackTraceIndex = parentType @ ''['' @ show_nat stackTraceIndex @ '']''"

definition trace_prefix :: "string option \<Rightarrow> string" where
  "trace_prefix current = (case current of None \<Rightarrow> [] | Some c \<Rightarrow> c @ ''_'')"

definition sub_calls :: "json \<Rightarrow> json option" where
  "sub_calls call = (let v = json_opt (Some call) ''calls'' in if json_truthy v then v else None)"

lemma json_opt_child: "json_opt (Some j) k = Some v \<Longrightarrow> v \<in> set (children j)"
  by (cases j) (force simp: json_opt_def dest: map_of_SomeD)+

lemma sub_calls_child: "sub_calls call = Some v \<Longrightarrow> v \<in> set (children call)"
  by (auto simp: sub_calls_def Let_def split: if_split_asm intro: json_opt_child)

lemma size_nested_call:
  assumes "(i, call) \<in> set (zip is cs)" and "sub_calls call = Some v"
  shows "size v < Suc (size_list size cs)"
proof -
  from assms(1) have "call \<in> set (children (JArr cs))" by (auto dest: set_zip_rightD)
  from size_children [OF this] size_children [OF sub_calls_child [OF assms(2)]] show ?thesis by simp
qed

function buildEvmInternalTx :: "json option \<Rightarrow> string option \<Rightarrow> string \<Rightarrow> json \<Rightarrow> evm_internal list res" where
  "buildEvmInternalTx tracerId current parentType calls =
     (case calls of
        JArr cs \<Rightarrow>
          rbind (rmap (\<lambda>(stackTraceIndex, call).
              let typeTraceAddress = trace_prefix current @ call_segment parentType stackTraceIndex in
              rbind (internal_row tracerId typeTraceAddress call) (\<lambda>row.
              case sub_calls call of
                None \<Rightarrow> Inr [row]
              | Some v \<Rightarrow>
                  rbind (buildEvmInternalTx tracerId (Some typeTraceAddress) (template (json_opt (Some call) ''type'')) v)
                    (\<lambda>rows. Inr (row # rows))))
            (zip [0..<length cs] cs)) (\<lambda>rows. Inr (concat rows))
      | _ \<Rightarrow> Inl TypeError)"
  by pat_completeness auto

termination buildEvmInternalTx
  by (relation "measure (\<lambda>(_, _, _, calls). size calls)") (auto intro: size_nested_call)

declare buildEvmInternalTx.simps [simp del]

definition buildEvmInternalTransaction :: "json \<Rightarrow> json option \<Rightarrow> evm_internal list res" where
  "buildEvmInternalTransaction tracerResult tracerId =
     rbind (need (json_opt (Some tracerResult) ''calls'')) (\<lambda>calls.
       buildEvmInternalTx tracerId None (template (json_opt (Some tracerResult) ''type'')) calls)"

section \<open>The job\<close>

definition traced_rows :: "trace_ext \<Rightarrow> evm_transaction \<Rightarrow> evm_internal list res" where
  "traced_rows ext evmTx =
     rbind (debug_traceTransaction ext (et_id evmTx) (et_hash evmTx)) (\<lambda>tracer.
     rbind (json_get tracer ''result'') (\<lambda>result.
       if json_truthy (json_opt result ''calls'')
       then buildEvmInternalTransaction (the result) (json_opt (Some tracer) ''id'')
       else Inr []))"

text \<open>Columns of type \<^verbatim>\<open>bigint\<close> hold 63 bits and a sign.\<close>

definition internal_columns_ok :: "evm_internal \<Rightarrow> bool" where
  "internal_columns_ok r \<longleftrightarrow> bit_length (it_gas r) \<le> 63 \<and> bit_length (it_gas_used r) \<le> 63"

definition internal_work :: "trace_ext \<Rightarrow> int \<Rightarrow> int \<Rightarrow> 'a internal_db_scheme \<Rightarrow> 'a internal_db_scheme res" where
  "internal_work ext startB endB db =
     rbind (rmap (traced_rows ext) (filter (\<lambda>r. in_range startB endB (et_height r)) (evm_transactions db))) (\<lambda>rows.
       if list_all internal_columns_ok (concat rows)
       then Inr (db\<lparr>evm_internals := evm_internals db @ concat rows\<rparr>)
       else Inl (DbError ''bigint out of range''))"

definition evm_crawl_internal_job :: "config \<Rightarrow> trace_ext \<Rightarrow> 'a internal_db_scheme \<Rightarrow> 'a internal_db_scheme res" where
  "evm_crawl_internal_job cfg ext = range_job cfg EVM_CRAWL_INTERNAL_TX (internal_work ext)"

section \<open>Addresses of calls\<close>

text \<open>The positions of the calls in depth-first order: the steps from the root, and the type of the call.\<close>

function call_paths :: "string \<Rightarrow> json \<Rightarrow> ((string \<times> nat) list \<times> string) list" where
  "call_paths parentType calls =
     (case calls of
        JArr cs \<Rightarrow>
          concat (map (\<lambda>(i, call).
              let t = template (json_opt (Some call) ''type'') in
              ([(parentType, i)], t) #
              (case sub_calls call of
                 None \<Rightarrow> []
               | Some v \<Rightarrow> map (\<lambda>(p, u). ((parentType, i) # p, u)) (call_paths t v)))
            (zip [0..<length cs] cs))
      | _ \<Rightarrow> [])"
  by pat_completeness auto

termination call_paths
  by (relation "measure (\<lambda>(_, calls). size calls)") (auto intro: size_nested_call)

declare call_paths.simps [simp del]

fun trace_address :: "(string \<times> nat) list \<Rightarrow> string \<Rightarrow> string" where
  "trace_address [] t = t"
| "trace_address ((n, i) # p) t = call_segment n i @ ''_'' @ trace_address p t"

lemma internal_row_address:
  "internal_row tracerId a call = Inr row \<Longrightarrow> it_type_trace_address row = a @ ''_'' @ template (json_opt (Some call) ''type'')"
  by (cases call) (auto simp: internal_row_def json_get_def json_opt_def Let_def rbind_eq_Inr)

lemma map_concat_rmap:
  assumes "rmap f xs = Inr yss" and "\<And>x ys. x \<in> set xs \<Longrightarrow> f x = Inr ys \<Longrightarrow> map g ys = h x"
  shows "map g (concat yss) = concat (map h xs)"
  using assms by (induction xs arbitrary: yss) (auto simp: rbind_eq_Inr)

lemma build_addresses:
  "buildEvmInternalTx tracerId current parentType calls = Inr rows \<Longrightarrow>
    map it_type_trace_address rows = map (\<lambda>(p, t). trace_prefix current @ trace_address p t) (call_paths parentType calls)"
proof (induction tracerId current parentType calls arbitrary: rows rule: buildEvmInternalTx.induct)
  case (1 tracerId current parentType calls)
  from "1.prems" obtain cs where cs: "calls = JArr cs" by (cases calls) (simp_all add: buildEvmInternalTx.simps)
  let ?a = "\<lambda>i. trace_prefix current @ call_segment parentType i"
  let ?t = "\<lambda>call. template (json_opt (Some call) ''type'')"
  let ?f = "\<lambda>(i, call). rbind (internal_row tracerId (?a i) call) (\<lambda>row.
      case sub_calls call of None \<Rightarrow> Inr [row]
      | Some v \<Rightarrow> rbind (buildEvmInternalTx tracerId (Some (?a i)) (?t call) v) (\<lambda>rows. Inr (row # rows)))"
  let ?g = "\<lambda>(p, t). trace_prefix current @ trace_address p t"
  let ?h = "\<lambda>(i, call). ([(parentType, i)], ?t call) #
      (case sub_calls call of None \<Rightarrow> [] | Some v \<Rightarrow> map (\<lambda>(p, u). ((parentType, i) # p, u)) (call_paths (?t call) v))"
  from "1.prems" obtain yss where yss: "rmap ?f (zip [0..<length cs] cs) = Inr yss" and rows: "rows = concat yss"
    by (auto simp: cs buildEvmInternalTx.simps [of _ _ _ "JArr cs"] Let_def rbind_eq_Inr)
  have "map it_type_trace_address rows = concat (map (\<lambda>x. map ?g (?h x)) (zip [0..<length cs] cs))"
    unfolding rows
  proof (rule map_concat_rmap [OF yss])
    fix x ys assume x: "x \<in> set (zip [0..<length cs] cs)" and ys: "?f x = Inr ys"
    obtain i call where ic: "x = (i, call)" by (cases x)
    from ys obtain row where row: "internal_row tracerId (?a i) call = Inr row"
      and rest: "(case sub_calls call of None \<Rightarrow> Inr [row]
        | Some v \<Rightarrow> rbind (buildEvmInternalTx tracerId (Some (?a i)) (?t call) v) (\<lambda>rows. Inr (row # rows))) = Inr ys"
      by (auto simp: ic rbind_eq_Inr)
    note addr = internal_row_address [OF row]
    show "map it_type_trace_address ys = map ?g (?h x)"
    proof (cases "sub_calls call")
      case None
      with rest addr show ?thesis by (auto simp: ic)
    next
      case (Some v)
      with rest obtain sub where sub: "buildEvmInternalTx tracerId (Some (?a i)) (?t call) v = Inr sub" and ys': "ys = row # sub"
        by (auto simp: rbind_eq_Inr)
      have "map it_type_trace_address sub = map (\<lambda>(p, t). trace_prefix (Some (?a i)) @ trace_address p t) (call_paths (?t call) v)"
        by (rule "1.IH" [OF cs x ic [symmetric] refl Some sub])
      with Some addr show ?thesis by (simp add: ic ys' trace_prefix_def comp_def case_prod_unfold)
    qed
  qed
  also have "\<dots> = map ?g (call_paths parentType calls)"
    by (simp add: cs call_paths.simps [of _ "JArr cs"] map_concat comp_def case_prod_unfold Let_def)
  finally show ?case .
qed

text \<open>The types of calls have no character that addresses use to separate their parts.\<close>

definition plain_type :: "string \<Rightarrow> bool" where
  "plain_type t \<longleftrightarrow> CHR ''_'' \<notin> set t \<and> CHR ''['' \<notin> set t"

lemma segment_plain: "plain_type n \<Longrightarrow> CHR ''_'' \<notin> set (call_segment n i)"
  by (simp add: plain_type_def call_segment_def show_nat_no_char is_digit_def)

lemma segment_inj: "plain_type n \<Longrightarrow> plain_type m \<Longrightarrow> call_segment n i = call_segment m j \<longleftrightarrow> n = m \<and> i = j"
  using sep_key_inj [of "CHR ''[''" n m] by (simp add: plain_type_def call_segment_def show_nat_inj)

lemma trace_address_inj:
  assumes "list_all (plain_type \<circ> fst) p" and "list_all (plain_type \<circ> fst) q" and "plain_type t" and "plain_type u"
  shows "trace_address p t = trace_address q u \<longleftrightarrow> p = q \<and> t = u"
  using assms(1,2)
proof (induction p arbitrary: q)
  case Nil
  show ?case
  proof (cases q)
    case (Cons y q')
    obtain n i where "y = (n, i)" by (cases y)
    with Cons assms(3) show ?thesis by (auto simp: plain_type_def)
  qed simp
next
  case (Cons x p)
  obtain n i where x: "x = (n, i)" by (cases x)
  show ?case
  proof (cases q)
    case Nil
    with x assms(4) show ?thesis by (auto simp: plain_type_def)
  next
    case q: (Cons y q')
    obtain m j where y: "y = (m, j)" by (cases y)
    from Cons.prems q x y have plain: "plain_type n" "plain_type m" by simp_all
    have "trace_address (x # p) t = trace_address q u \<longleftrightarrow> call_segment n i = call_segment m j \<and> trace_address p t = trace_address q' u"
      using sep_key_inj [of "CHR ''_''" "call_segment n i" "call_segment m j" "trace_address p t" "trace_address q' u"] segment_plain plain
      by (simp add: x y q)
    also have "\<dots> \<longleftrightarrow> (n = m \<and> i = j) \<and> p = q' \<and> t = u" using segment_inj [OF plain] Cons q by simp
    finally show ?thesis by (auto simp: x y q)
  qed
qed

lemma call_paths_names:
  "(p, t) \<in> set (call_paths parentType calls) \<Longrightarrow>
    t \<in> snd ` set (call_paths parentType calls) \<and> fst ` set p \<subseteq> insert parentType (snd ` set (call_paths parentType calls)) \<and> p \<noteq> []"
proof (induction parentType calls arbitrary: p t rule: call_paths.induct)
  case (1 parentType calls)
  let ?t = "\<lambda>call. template (json_opt (Some call) ''type'')"
  let ?h = "\<lambda>(i, call). ([(parentType, i)], ?t call) #
      (case sub_calls call of None \<Rightarrow> [] | Some v \<Rightarrow> map (\<lambda>(p, u). ((parentType, i) # p, u)) (call_paths (?t call) v))"
  from "1.prems" obtain cs where cs: "calls = JArr cs" by (cases calls) (simp_all add: call_paths.simps)
  have paths: "set (call_paths parentType calls) = (\<Union>x\<in>set (zip [0..<length cs] cs). set (?h x))"
    by (simp add: cs call_paths.simps [of _ "JArr cs"] case_prod_unfold Let_def)
  from "1.prems" obtain x where px: "x \<in> set (zip [0..<length cs] cs)" "(p, t) \<in> set (?h x)" unfolding paths by (rule UN_E)
  obtain i call where "x = (i, call)" by (cases x)
  with px have x: "(i, call) \<in> set (zip [0..<length cs] cs)" and pt: "(p, t) \<in> set (?h (i, call))" by blast+
  have snds: "snd ` set (?h (i, call)) \<subseteq> snd ` set (call_paths parentType calls)" unfolding paths using x by blast
  from pt consider "p = [(parentType, i)]" | v q where "sub_calls call = Some v" "p = (parentType, i) # q" "(q, t) \<in> set (call_paths (?t call) v)"
    by (cases "sub_calls call") auto
  then show ?case
  proof cases
    case 1
    with "1.prems" show ?thesis by force
  next
    case 2
    from "1.IH" [OF cs x refl refl 2(1,3)] have "fst ` set q \<subseteq> insert (?t call) (snd ` set (call_paths (?t call) v))" by blast
    moreover have "insert (?t call) (snd ` set (call_paths (?t call) v)) \<subseteq> snd ` set (?h (i, call))" using 2(1) by force
    ultimately have "fst ` set q \<subseteq> snd ` set (call_paths parentType calls)" using snds by (blast intro: order_trans)
    then have "fst ` set p \<subseteq> insert parentType (snd ` set (call_paths parentType calls))" by (auto simp: 2(2))
    with "1.prems" 2(2) show ?thesis by force
  qed
qed

lemma plain_paths:
  assumes "list_all plain_type (parentType # map snd (call_paths parentType calls))" and "(p, t) \<in> set (call_paths parentType calls)"
  shows "list_all (plain_type \<circ> fst) p \<and> plain_type t"
proof -
  have types: "plain_type u" if "u \<in> insert parentType (snd ` set (call_paths parentType calls))" for u
    using assms(1) that by (simp add: list_all_iff) blast
  note names = call_paths_names [OF assms(2)]
  have "plain_type n" if "n \<in> fst ` set p" for n
    using names that by (intro types) blast
  moreover have "plain_type t" using names by (intro types) blast
  ultimately show ?thesis by (simp add: list_all_iff)
qed

lemma distinct_concat_tagged:
  assumes "distinct (map fst xs)" and "\<And>x. x \<in> set xs \<Longrightarrow> distinct (h x)" and "\<And>x y. x \<in> set xs \<Longrightarrow> y \<in> set (h x) \<Longrightarrow> tag y = fst x"
  shows "distinct (concat (map h xs))"
  using assms
proof (induction xs)
  case (Cons x xs)
  have "set (h x) \<inter> set (concat (map h xs)) = {}"
  proof (rule ccontr)
    assume "set (h x) \<inter> set (concat (map h xs)) \<noteq> {}"
    then obtain y x' where "y \<in> set (h x)" "x' \<in> set xs" "y \<in> set (h x')" by auto
    then have "fst x = fst x'" using Cons.prems(3) [of x y] Cons.prems(3) [of x' y] by simp
    with \<open>x' \<in> set xs\<close> have "fst x \<in> fst ` set xs" by blast
    with Cons.prems(1) show False by simp
  qed
  with Cons show ?case by simp
qed simp

lemma call_paths_distinct: "distinct (map fst (call_paths parentType calls))"
proof (induction parentType calls rule: call_paths.induct)
  case (1 parentType calls)
  let ?t = "\<lambda>call. template (json_opt (Some call) ''type'')"
  let ?h = "\<lambda>(i, call). [(parentType, i)] #
      (case sub_calls call of None \<Rightarrow> [] | Some v \<Rightarrow> map (\<lambda>(p, u). (parentType, i) # p) (call_paths (?t call) v))"
  show ?case
  proof (cases calls)
    case (JArr cs)
    have "map fst (call_paths parentType calls) = concat (map ?h (zip [0..<length cs] cs))"
      by (simp add: JArr call_paths.simps [of _ "JArr cs"] map_concat comp_def case_prod_unfold Let_def option.case_distrib [of "map fst"] cong: option.case_cong)
    moreover have "distinct (concat (map ?h (zip [0..<length cs] cs)))"
    proof (rule distinct_concat_tagged [where tag = "\<lambda>p. snd (hd p)"])
      show "distinct (map fst (zip [0..<length cs] cs))" by simp
      fix x assume x: "x \<in> set (zip [0..<length cs] cs)"
      obtain i call where ic: "x = (i, call)" by (cases x)
      show "snd (hd y) = fst x" if "y \<in> set (?h x)" for y using that by (auto simp: ic split: option.split_asm)
      show "distinct (?h x)"
      proof (cases "sub_calls call")
        case (Some v)
        from "1.IH" [OF JArr x ic [symmetric] refl Some] have "distinct (map fst (call_paths (?t call) v))" .
        then have "distinct (map (\<lambda>p. (parentType, i) # p) (map fst (call_paths (?t call) v)))" by (simp add: distinct_map inj_on_def)
        moreover have "[] \<notin> fst ` set (call_paths (?t call) v)" using call_paths_names by force
        ultimately show ?thesis using Some by (auto simp: ic comp_def case_prod_unfold)
      qed (simp add: ic)
    qed
    ultimately show ?thesis by simp
  qed (simp_all add: call_paths.simps)
qed

section \<open>What the heights of a range contribute\<close>

definition range_internals :: "trace_ext \<Rightarrow> 'a internal_db_scheme \<Rightarrow> int \<Rightarrow> int \<Rightarrow> evm_internal multiset" where
  "range_internals ext db a b =
     (\<Sum>r\<in>#filter_mset (\<lambda>r. True \<and> in_range a b (et_height r)) (mset (evm_transactions db)).
        (case traced_rows ext r of Inl _ \<Rightarrow> {#} | Inr rows \<Rightarrow> mset rows))"

abbreviation internal_pos :: "config \<Rightarrow> 'a internal_db_scheme \<Rightarrow> int" where
  "internal_pos cfg db \<equiv> job_start cfg EVM_CRAWL_INTERNAL_TX (block_checkpoint db)"

abbreviation internal_end :: "config \<Rightarrow> 'a internal_db_scheme \<Rightarrow> int" where
  "internal_end cfg db \<equiv> job_end cfg EVM_CRAWL_INTERNAL_TX (block_checkpoint db)"

lemma mset_concat_rmap:
  "rmap f xs = Inr yss \<Longrightarrow> mset (concat yss) = (\<Sum>x\<in>#mset xs. (case f x of Inl _ \<Rightarrow> {#} | Inr ys \<Rightarrow> mset ys))"
  by (induction xs arbitrary: yss) (auto simp: rbind_eq_Inr)

lemma internal_work_effect:
  assumes "internal_work ext a b db = Inr db'"
  obtains rows where "db' = db\<lparr>evm_internals := evm_internals db @ rows\<rparr>" "mset rows = range_internals ext db a b"
proof -
  from assms obtain yss where yss: "rmap (traced_rows ext) (filter (\<lambda>r. in_range a b (et_height r)) (evm_transactions db)) = Inr yss"
    and db': "db' = db\<lparr>evm_internals := evm_internals db @ concat yss\<rparr>"
    by (auto simp: internal_work_def rbind_eq_Inr split: if_split_asm)
  from db' show thesis
    by (rule that) (simp add: mset_concat_rmap [OF yss] range_internals_def)
qed

lemma internal_checkpoint:
  "evm_crawl_internal_job cfg ext db = Inr db' \<Longrightarrow> block_checkpoint db' = checkpoint_run cfg EVM_CRAWL_INTERNAL_TX (block_checkpoint db)"
  unfolding evm_crawl_internal_job_def by (erule range_job_checkpoint) (auto elim!: internal_work_effect)

lemma internal_settled:
  assumes "evm_crawl_internal_job cfg ext db = Inr db'"
  shows "range_internals ext db' = range_internals ext db"
  using assms unfolding evm_crawl_internal_job_def
proof (cases rule: range_job_cases)
  case (worked db1)
  from worked(2) obtain rows where "db1 = db\<lparr>evm_internals := evm_internals db @ rows\<rparr>" by (rule internal_work_effect)
  with worked(3) show ?thesis by (simp add: range_internals_def fun_eq_iff saveCheckpoint_def)
qed simp

lemma internal_stored:
  assumes "evm_crawl_internal_job cfg ext db = Inr db'"
  shows "mset (evm_internals db') = mset (evm_internals db) +
    (if skips (job_guard EVM_CRAWL_INTERNAL_TX) (internal_pos cfg db) (internal_end cfg db) then 0
     else range_internals ext db (internal_pos cfg db) (internal_end cfg db))"
  using assms unfolding evm_crawl_internal_job_def
proof (cases rule: range_job_cases)
  case (worked db1)
  from worked(2) obtain rows where "db1 = db\<lparr>evm_internals := evm_internals db @ rows\<rparr>"
    "mset rows = range_internals ext db (internal_pos cfg db) (internal_end cfg db)" by (rule internal_work_effect)
  with worked(1,3) show ?thesis by (simp add: saveCheckpoint_def)
qed simp

lemma range_internals_split:
  assumes "a \<le> b" and "b \<le> c"
  shows "range_internals ext db a c = range_internals ext db a b + range_internals ext db b c"
  unfolding range_internals_def by (subst filter_mset_range_split [OF assms]) simp

lemma internal_guarded:
  "\<not> skips (job_guard EVM_CRAWL_INTERNAL_TX) (internal_pos cfg db) (internal_end cfg db) \<Longrightarrow> internal_pos cfg db \<le> internal_end cfg db"
  using not_skips_le [of "job_guard EVM_CRAWL_INTERNAL_TX"] by (simp add: EVM_CRAWL_INTERNAL_TX_def)

interpretation internal_job: appending_job cfg EVM_CRAWL_INTERNAL_TX "evm_crawl_internal_job cfg ext" "\<lambda>_. True"
  "range_internals ext" "\<lambda>db. mset (evm_internals db)"
  for cfg ext
  by unfold_locales (rule internal_checkpoint internal_stored internal_settled range_internals_split internal_guarded; assumption)+

section \<open>Properties\<close>

definition sample_call :: "string \<Rightarrow> (string \<times> json) list \<Rightarrow> json" where
  "sample_call type rest =
     JObj ([(''type'', JStr type), (''from'', JStr ''0xa''), (''to'', JStr ''0xb''), (''input'', JStr ''0x''), (''gas'', JStr ''0x5''),
        (''gasUsed'', JStr ''0x4'')] @ rest)"

definition sample_calls :: json where
  "sample_calls =
     JArr [sample_call ''CALL'' [(''value'', JStr ''0xa''), (''calls'', JArr [sample_call ''STATICCALL'' [], sample_call ''CREATE'' []])],
           sample_call ''CALL'' []]"

definition sample_trace_ext :: trace_ext where
  "sample_trace_ext =
     \<lparr>debug_traceTransaction = (\<lambda>i h. Inr (JObj [(''id'', JNum i), (''result'', JObj [(''type'', JStr ''CALL''), (''calls'', sample_calls)])]))\<rparr>"

text \<open>
  C28. The rows of a trace are its calls in depth-first order, and their addresses tell them apart: the row of
  every call, however deep, has the address that the positions and types of the calls above it spell out,
  and no two rows of a trace have the same address.
\<close>

theorem trace_addresses_distinct:
  assumes "buildEvmInternalTransaction result tracerId = Inr rows" and "json_opt (Some result) ''calls'' = Some calls"
    and "list_all plain_type (template (json_opt (Some result) ''type'') # map snd (call_paths (template (json_opt (Some result) ''type'')) calls))"
  shows "map it_type_trace_address rows =
      map (\<lambda>(p, t). trace_address p t) (call_paths (template (json_opt (Some result) ''type'')) calls) \<and>
    distinct (map it_type_trace_address rows)"
proof -
  let ?paths = "call_paths (template (json_opt (Some result) ''type'')) calls"
  from assms(1,2) have "buildEvmInternalTx tracerId None (template (json_opt (Some result) ''type'')) calls = Inr rows"
    by (simp add: buildEvmInternalTransaction_def)
  from build_addresses [OF this] have addr: "map it_type_trace_address rows = map (\<lambda>(p, t). trace_address p t) ?paths"
    by (simp add: trace_prefix_def)
  note plain = plain_paths [OF assms(3)]
  have "inj_on (\<lambda>(p, t). trace_address p t) (set ?paths)"
  proof (rule inj_onI)
    fix x y assume "x \<in> set ?paths" "y \<in> set ?paths" "(\<lambda>(p, t). trace_address p t) x = (\<lambda>(p, t). trace_address p t) y"
    moreover obtain p t q u where xy: "x = (p, t)" "y = (q, u)" by (cases x, cases y)
    ultimately show "x = y" using plain [of p t] plain [of q u] trace_address_inj [of p q t u] by simp
  qed
  moreover have "distinct ?paths" using call_paths_distinct by (metis distinct_map)
  ultimately show ?thesis unfolding addr by (simp add: distinct_map)
qed

theorem trace_addresses_distinct_witness:
  "\<exists>rows. buildEvmInternalTransaction (JObj [(''type'', JStr ''CALL''), (''calls'', sample_calls)]) (Some (JNum 7)) = Inr rows \<and>
    map it_type_trace_address rows =
      [''CALL[0]_CALL'', ''CALL[0]_CALL[0]_STATICCALL'', ''CALL[0]_CALL[1]_CREATE'', ''CALL[1]_CALL''] \<and>
    distinct (map it_type_trace_address rows)"
proof -
  let ?result = "JObj [(''type'', JStr ''CALL''), (''calls'', sample_calls)]"
  have "\<not> isl (buildEvmInternalTransaction ?result (Some (JNum 7)))" by code_simp
  then obtain rows where rows: "buildEvmInternalTransaction ?result (Some (JNum 7)) = Inr rows"
    by (cases "buildEvmInternalTransaction ?result (Some (JNum 7))") simp_all
  have calls: "json_opt (Some ?result) ''calls'' = Some sample_calls" by (simp add: json_opt_def)
  have plain: "list_all plain_type (template (json_opt (Some ?result) ''type'') # map snd (call_paths (template (json_opt (Some ?result) ''type'')) sample_calls))"
    "map (\<lambda>(p, t). trace_address p t) (call_paths (template (json_opt (Some ?result) ''type'')) sample_calls) =
      [''CALL[0]_CALL'', ''CALL[0]_CALL[0]_STATICCALL'', ''CALL[0]_CALL[1]_CREATE'', ''CALL[1]_CALL'']"
    by code_simp+
  from trace_addresses_distinct [OF rows calls plain(1)] rows plain(2) show ?thesis by auto
qed

definition sample_internal_db :: internal_db where
  "sample_internal_db =
     \<lparr>block_checkpoint = map_of [(''handle:transaction-evm'', 3)], block_table = [], transaction_table = [], transaction_seq = 1,
      event_table = [], event_seq = 1, message_table = [], message_seq = 1,
      evm_transactions =
        [\<lparr>et_id = 7, et_hash = ''0xh'', et_height = 2, et_from = ''0xa'', et_to = Some ''0xb'', et_size = None, et_value = None, et_gas = None,
          et_gas_fee_cap = None, et_gas_tip_cap = None, et_data = None, et_nonce = None, et_tx_msg_id = 1, et_tx_id = 1,
          et_contract_address = None, et_index = 0, et_status = 1, et_reason = None\<rparr>],
      evm_transaction_seq = 8, evm_events = [], evm_event_seq = 1, evm_internals = []\<rparr>"

definition sample_traced_db :: internal_db where
  "sample_traced_db = projr (evm_crawl_internal_job sample_evm_config sample_trace_ext sample_internal_db)"

lemma sample_traced: "evm_crawl_internal_job sample_evm_config sample_trace_ext sample_internal_db = Inr sample_traced_db"
proof -
  have "\<not> isl (evm_crawl_internal_job sample_evm_config sample_trace_ext sample_internal_db)" by code_simp
  then show ?thesis by (simp add: sample_traced_db_def)
qed

text \<open>
  However the runs of the job interleave with other jobs that leave its checkpoint, its rows and what passed
  heights say alone, the table holds, beside the rows it had, exactly the rows of the traces of the
  Ethereum transactions of the heights passed, each once.
\<close>

theorem internal_transactions_exactly_once:
  assumes "job_trace (evm_crawl_internal_job cfg ext) (\<lambda>_. True)
    (settled_env (internal_pos cfg) (\<lambda>db. mset (evm_internals db)) (range_internals ext)) db0 db"
  shows "internal_pos cfg db0 \<le> internal_pos cfg db \<and>
    mset (evm_internals db) = mset (evm_internals db0) + range_internals ext db (internal_pos cfg db0) (internal_pos cfg db)"
  using assms by (rule internal_job.exactly_once)

theorem internal_transactions_exactly_once_witness:
  "mset (evm_internals sample_traced_db) = range_internals sample_trace_ext sample_traced_db 0 3 \<and>
   map it_type (evm_internals sample_traced_db) = [''CALL'', ''STATICCALL'', ''CREATE'', ''CALL''] \<and>
   map it_value (evm_internals sample_traced_db) = [10, 0, 0, 0]"
proof -
  have "job_trace (evm_crawl_internal_job sample_evm_config sample_trace_ext) (\<lambda>_. True)
      (settled_env (internal_pos sample_evm_config) (\<lambda>db. mset (evm_internals db)) (range_internals sample_trace_ext)) sample_internal_db sample_traced_db"
    by (intro trace_one sample_traced) simp
  note internal_transactions_exactly_once [OF this]
  moreover have "internal_pos sample_evm_config sample_internal_db = 0" "internal_pos sample_evm_config sample_traced_db = 3"
    "map it_type (evm_internals sample_traced_db) = [''CALL'', ''STATICCALL'', ''CREATE'', ''CALL'']"
    "map it_value (evm_internals sample_traced_db) = [10, 0, 0, 0]" by code_simp+
  moreover have "evm_internals sample_internal_db = []" by (simp add: sample_internal_db_def)
  ultimately show ?thesis by simp
qed

lemma shortest_decimal_cases: "shortest_decimal k d = d \<or> 10 dvd shortest_decimal k d"
proof (induction k)
  case (Suc k)
  have "10 dvd d div 10 ^ Suc k * 10 ^ Suc k" "10 dvd d div 10 ^ Suc k * 10 ^ Suc k + 10 ^ Suc k" by (simp_all add: dvd_add)
  with Suc show ?case unfolding shortest_decimal.simps Let_def by presburger
qed simp

text \<open>
  C30. The value of a call below 2 to the power of 53 is stored as the trace has it; a greater value that is no JavaScript number,
  because it takes more than 53 bits, and no multiple of ten is stored as another number.
\<close>

theorem internal_value_bounds:
  assumes "internal_row tracerId a call = Inr row" and "json_opt (Some call) ''value'' = Some (JStr v)" and "parseInt16 v = Some n"
  shows "(n < 2 ^ 53 \<longrightarrow> it_value row = n) \<and> (to_double n \<noteq> n \<and> \<not> 10 dvd n \<longrightarrow> it_value row \<noteq> n)"
proof -
  from assms have val: "hex_number ''value'' v = Inr (it_value row)"
    by (auto simp: internal_row_def Let_def rbind_eq_Inr)
  have small: "it_value row = n" if n: "n < 2 ^ 53"
  proof -
    have "bit_length n \<le> 53" using n by (simp only: bit_length_le_iff)
    then have "bit_length n \<le> 1024" by simp
    with val n show ?thesis by (simp add: hex_number_def assms(3) to_double_exact number_text_value_def)
  qed
  have "it_value row = number_text_value (to_double n)" using val by (simp add: hex_number_def assms(3) split: if_split_asm)
  then have "it_value row = to_double n \<or> 10 dvd it_value row"
    using shortest_decimal_cases by (metis number_text_value_def)
  with small show ?thesis by auto
qed

theorem internal_value_bounds_witness:
  "\<exists>row. internal_row (Some (JNum 7)) ''CALL[0]'' (sample_call ''CALL'' [(''value'', JStr ''0xa'')]) = Inr row \<and> it_value row = 10"
proof -
  let ?r = "internal_row (Some (JNum 7)) ''CALL[0]'' (sample_call ''CALL'' [(''value'', JStr ''0xa'')])"
  have "\<not> isl ?r" by code_simp
  then obtain row where row: "?r = Inr row" by (cases ?r) simp_all
  have "json_opt (Some (sample_call ''CALL'' [(''value'', JStr ''0xa'')])) ''value'' = Some (JStr ''0xa'')" "parseInt16 ''0xa'' = Some 10"
    by code_simp+
  from internal_value_bounds [OF row this] row show ?thesis by simp
qed

end
