(* ===== verification/Evm_Contract.thy ===== *)
theory Evm_Contract
  imports Evm_Internal Erc20_Handler
begin

text \<open>
  The contracts of the EVM: \<^verbatim>\<open>src/services/evm/crawl_contract_evm.service.ts\<close> asks for the code of every address
  that the transactions of a range mention and stores those that have code, with the detection of proxies in
  \<^verbatim>\<open>helpers/contract_helper.ts\<close> and the constants of \<^verbatim>\<open>constant.ts\<close>.
\<close>

section \<open>The node\<close>

text \<open>
  What the code asks of the node and of packages: the code and the storage of an address (\<open>None\<close> is an address
  that a trace leaves out), the hash of a code and of a text, the selectors in a code, and the order in which concurrent
  requests are answered: \<open>slot_time\<close> for the requests of one address and \<open>contract_time\<close> for the addresses of
  the transactions of a range.
\<close>

record viem_ext =
  getBytecode :: "string option \<Rightarrow> string option res"
  getStorageAt :: "string option \<Rightarrow> string \<Rightarrow> int option \<Rightarrow> string option res"
  keccak256 :: "string \<Rightarrow> string"
  keccak_text :: "string \<Rightarrow> string"
  selectorsFromBytecode :: "string \<Rightarrow> string list"
  slot_time :: "string option \<Rightarrow> string \<Rightarrow> nat"
  contract_time :: "string \<Rightarrow> string option \<Rightarrow> nat"

section \<open>Constants\<close>

definition ABI_CHECK_INTERFACE_ERC_20 :: "string list" where
  "ABI_CHECK_INTERFACE_ERC_20 =
     [''totalSupply()'', ''balanceOf(address)'', ''transfer(address,uint256)'', ''allowance(address,address)'',
      ''approve(address,uint256)'', ''transferFrom(address,address,uint256)'']"

definition ABI_CHECK_INTERFACE_ERC_721 :: "string list" where
  "ABI_CHECK_INTERFACE_ERC_721 =
     [''balanceOf(address)'', ''ownerOf(uint256)'', ''safeTransferFrom(address,address,uint256)'',
      ''transferFrom(address,address,uint256)'', ''approve(address,uint256)'', ''getApproved(uint256)'',
      ''setApprovalForAll(address,bool)'', ''isApprovedForAll(address,address)'',
      ''safeTransferFrom(address,address,uint256,bytes)'']"

definition ABI_CHECK_INTERFACE_ERC_1155 :: "string list" where
  "ABI_CHECK_INTERFACE_ERC_1155 =
     [''safeTransferFrom(address,address,uint256,uint256,bytes)'', ''safeBatchTransferFrom(address,address,uint256[],uint256[],bytes)'',
      ''balanceOf(address,uint256)'', ''balanceOfBatch(address[],uint256[])'', ''setApprovalForAll(address,bool)'',
      ''isApprovedForAll(address,address)'']"

text \<open>\<^verbatim>\<open>text.slice(2, 10)\<close>\<close>

definition selector_part :: "string \<Rightarrow> string" where
  "selector_part s = take 8 (drop 2 s)"

definition method_prefixes :: "viem_ext \<Rightarrow> string list \<Rightarrow> string list" where
  "method_prefixes ext methods = map (\<lambda>m. selector_part (keccak_text ext m)) methods"

definition CREATE_CONTRACT :: string where
  "CREATE_CONTRACT = ''60806040''"

text \<open>The slots where proxies keep their implementation, with the type each of them stands for.\<close>

definition EIPProxyContractSupportByteCode :: "(string \<times> string) list" where
  "EIPProxyContractSupportByteCode =
     [(''360894a13ba1a3210667c828492db98dca3e2076cc3735a920a3ca505d382bbc'', ''PROXY_EIP_1967''),
      (''c5f16f0fcc639fa48a6947836d9850f504798523bf8c9a3a87d5876cf622bcf7'', ''PROXY_EIP_1822''),
      (''7050c9e0f4ca769c69bd3a8ef740bc37934f8e2c036e5a723fd8ee048ed3f8c3'', ''PROXY_OPEN_ZEPPELIN_IMPLEMENTATION'')]"

definition NULL_BYTE_CODE :: string where
  "NULL_BYTE_CODE = ''0x0000000000000000000000000000000000000000000000000000000000000000''"

section \<open>Proxies\<close>

record DetectEVMProxyContract =
  logicContractAddress :: string
  proxy_EIP :: "string option"

text \<open>\<^verbatim>\<open>text.text_includes(part)\<close>\<close>

fun text_includes :: "string \<Rightarrow> string \<Rightarrow> bool" where
  "text_includes [] part = (part = [])"
| "text_includes (c # cs) part = (startsWith (c # cs) part \<or> text_includes cs part)"

text \<open>\<^verbatim>\<open>blockHeight ? BigInt(blockHeight) : undefined\<close>\<close>

definition block_number :: "string option \<Rightarrow> int option res" where
  "block_number blockHeight =
     (case blockHeight of
        None \<Rightarrow> Inr None
      | Some s \<Rightarrow>
          if s = [] then Inr None
          else (case text_BigInt s of None \<Rightarrow> Inl (JsError ''SyntaxError'') | Some n \<Rightarrow> Inr (Some n)))"

definition detectProxyContractByByteCode ::
  "viem_ext \<Rightarrow> string option \<Rightarrow> string \<Rightarrow> string \<Rightarrow> string option \<Rightarrow> DetectEVMProxyContract res"
where
  "detectProxyContractByByteCode ext contractAddress byteCode byteCodeSlot blockHeight =
     (if \<not> text_includes byteCode byteCodeSlot then Inl (JsError ''Not proxy contract!'')
      else
        rbind (block_number blockHeight) (\<lambda>n.
        rbind (getStorageAt ext contractAddress (''0x'' @ byteCodeSlot) n) (\<lambda>storageSlotValue.
          case storageSlotValue of
            None \<Rightarrow> Inl (JsError ''Invalid contract address!'')
          | Some v \<Rightarrow>
              if v = ''0x'' \<or> v = NULL_BYTE_CODE then Inl (JsError ''Invalid contract address!'')
              else
                (let logicAddress = (if length v = 66 then ''0x'' @ drop 26 v else v) in
                 if logicAddress = ZERO_ADDRESS then Inl (JsError ''Zero contract detected!'')
                 else Inr \<lparr>logicContractAddress = logicAddress, proxy_EIP = map_of EIPProxyContractSupportByteCode byteCodeSlot\<rparr>))))"

text \<open>\<^verbatim>\<open>Promise.any\<close> over the supported slots: the first answer in time that is no error.\<close>

definition detect_any :: "viem_ext \<Rightarrow> string option \<Rightarrow> string \<Rightarrow> string option \<Rightarrow> DetectEVMProxyContract option" where
  "detect_any ext contractAddress byteCode blockHeight =
     (case List.map_filter (\<lambda>slot. try_undefined (detectProxyContractByByteCode ext contractAddress byteCode slot blockHeight))
         (sort_key (slot_time ext contractAddress) (map fst EIPProxyContractSupportByteCode)) of
        [] \<Rightarrow> None
      | d # _ \<Rightarrow> Some d)"

definition isContractProxy ::
  "viem_ext \<Rightarrow> string option \<Rightarrow> string option \<Rightarrow> string option \<Rightarrow> DetectEVMProxyContract option res"
where
  "isContractProxy ext contractAddress blockHeight byteCodeSlot =
     rbind (getBytecode ext contractAddress) (\<lambda>byteCode.
       Inr (if \<not> truthy byteCode then None
            else if truthy byteCodeSlot
            then try_undefined (detectProxyContractByByteCode ext contractAddress (the byteCode) (the byteCodeSlot) blockHeight)
            else detect_any ext contractAddress (the byteCode) blockHeight))"

section \<open>The contracts of a range\<close>

record evm_contract =
  evc_id :: int
  evc_address :: string
  evc_creator :: "string option"
  evc_created_height :: "int option"
  evc_created_hash :: "string option"
  evc_type :: "string option"
  evc_code_hash :: "string option"

text \<open>The rows, their sequence, and the code hashes that were queued for verification.\<close>

record evm_contract_db = internal_db +
  evm_contracts :: "evm_contract list"
  evm_contract_seq :: int
  verify_jobs :: "string list"

definition CRAWL_SMART_CONTRACT_EVM :: job_decl where
  "CRAWL_SMART_CONTRACT_EVM =
     \<lparr>job_name = ''crawl:smart-contract-evm'',
      lastHeightJobNames = [''job:crawl-evm-event'', ''crawl:crawl-internal-tx''],
      configName = Some ''crawlSmartContractEVM'', job_guard = SkipGE\<rparr>"

definition detectContractTypeByCode :: "viem_ext \<Rightarrow> string \<Rightarrow> string option" where
  "detectContractTypeByCode ext code =
     (let selectors = map selector_part (selectorsFromBytecode ext code);
          supports = (\<lambda>methods. list_all (\<lambda>m. m \<in> set selectors) (method_prefixes ext methods)) in
      if supports ABI_CHECK_INTERFACE_ERC_20 then Some ''ERC20''
      else if supports ABI_CHECK_INTERFACE_ERC_721 then Some ''ERC721''
      else if supports ABI_CHECK_INTERFACE_ERC_1155 then Some ''ERC1155''
      else None)"

definition range_evm_txs :: "int \<Rightarrow> int \<Rightarrow> 'a evm_db_scheme \<Rightarrow> evm_transaction list" where
  "range_evm_txs startB endB db =
     sort_key (\<lambda>r. (et_id r, et_height r)) (filter (\<lambda>r. in_range startB endB (et_height r)) (evm_transactions db))"

text \<open>The internal calls of a transaction that create a contract, and the addresses it mentions.\<close>

definition creations :: "'a internal_db_scheme \<Rightarrow> evm_transaction \<Rightarrow> string option list" where
  "creations db evmTx =
     map it_to (filter (\<lambda>i. it_evm_tx_id i = et_id evmTx \<and> it_type i \<in> {''CREATE'', ''CREATE2''}) (evm_internals db))"

definition currentAddresses :: "'a internal_db_scheme \<Rightarrow> evm_transaction \<Rightarrow> string option list" where
  "currentAddresses db evmTx =
     uniq (filter (\<lambda>v. truthy v \<and> startsWith (the v) ''0x'') [Some (et_from evmTx), et_to evmTx, et_contract_address evmTx] @
       map (\<lambda>v. Some (er_address v)) (filter (\<lambda>v. er_evm_tx_id v = et_id evmTx) (evm_events db)) @
       creations db evmTx)"

text \<open>\<^verbatim>\<open>addressesWithTx[evmTx.hash]\<close>: of transactions with the same hash the last one wins.\<close>

definition addressesWithTx :: "'a internal_db_scheme \<Rightarrow> evm_transaction list \<Rightarrow> string \<Rightarrow> string option list" where
  "addressesWithTx db txs hash = (case keyBy et_hash txs hash of None \<Rightarrow> [] | Some t \<Rightarrow> currentAddresses db t)"

definition creation_info :: "evm_transaction \<Rightarrow> bool \<Rightarrow> string option \<times> int option \<times> string option" where
  "creation_info evmTx isCreation =
     (if truthy (et_data evmTx) \<and>
         (startsWith (the (et_data evmTx)) CREATE_CONTRACT \<or> truthy (et_contract_address evmTx) \<or> isCreation)
      then (Some (et_from evmTx), Some (et_height evmTx), Some (et_hash evmTx))
      else (None, None, None))"

text \<open>The contract at an address that a transaction mentions, if there is one.\<close>

definition contract_at :: "viem_ext \<Rightarrow> string option set \<Rightarrow> evm_transaction \<Rightarrow> string option \<Rightarrow> evm_contract option res" where
  "contract_at ext created evmTx address =
     rbind (getBytecode ext address) (\<lambda>code.
       if \<not> truthy code then Inr None
       else
         rbind (isContractProxy ext address None None) (\<lambda>implementContractInfo.
           case creation_info evmTx (address \<in> created) of (creator, createdHeight, createdHash) \<Rightarrow>
             Inr (Some \<lparr>evc_id = 0, evc_address = coerce_string address, evc_creator = creator, evc_created_height = createdHeight,
                        evc_created_hash = createdHash,
                        evc_type = (case implementContractInfo of
                                      None \<Rightarrow> detectContractTypeByCode ext (the code)
                                    | Some d \<Rightarrow> proxy_EIP d),
                        evc_code_hash = Some (keccak256 ext (the code))\<rparr>)))"

text \<open>\<^verbatim>\<open>_.uniqBy(contracts, 'address')\<close>: the first contract with an address is kept.\<close>

fun uniqBy_address :: "evm_contract list \<Rightarrow> evm_contract list" where
  "uniqBy_address [] = []"
| "uniqBy_address (c # cs) = c # uniqBy_address (filter (\<lambda>d. evc_address d \<noteq> evc_address c) cs)"

text \<open>The requests for the addresses that are not stored yet, in the order in which they are answered.\<close>

definition contract_requests :: "viem_ext \<Rightarrow> int \<Rightarrow> int \<Rightarrow> 'a evm_contract_db_scheme \<Rightarrow> (evm_transaction \<times> string option) list" where
  "contract_requests ext startB endB db =
     (let txs = range_evm_txs startB endB db;
          known = Some ` evc_address ` set (evm_contracts db) in
      sort_key (\<lambda>(t, address). contract_time ext (et_hash t) address)
        (concat (map (\<lambda>t. map (Pair t) (filter (\<lambda>address. address \<notin> known) (addressesWithTx db txs (et_hash t)))) txs)))"

definition contract_work :: "viem_ext \<Rightarrow> int \<Rightarrow> int \<Rightarrow> 'a evm_contract_db_scheme \<Rightarrow> 'a evm_contract_db_scheme res" where
  "contract_work ext startB endB db =
     (let created = \<Union>t\<in>set (range_evm_txs startB endB db). set (creations db t) in
      rbind (rmap (\<lambda>(t, address). contract_at ext created t address) (contract_requests ext startB endB db)) (\<lambda>found.
      let newEvmContracts = uniqBy_address (List.map_filter id found) in
      if evc_address ` set newEvmContracts \<inter> evc_address ` set (evm_contracts db) \<noteq> {}
      then Inl (DbError ''duplicate key value violates unique constraint'')
      else
        Inr (db\<lparr>evm_contracts := evm_contracts db @ numbered (evm_contract_seq db) (map (\<lambda>c i. c\<lparr>evc_id := i\<rparr>) newEvmContracts),
                evm_contract_seq := evm_contract_seq db + int (length newEvmContracts),
                verify_jobs := verify_jobs db @ List.map_filter evc_code_hash newEvmContracts\<rparr>)))"

definition crawl_contract_evm_job :: "config \<Rightarrow> viem_ext \<Rightarrow> 'a evm_contract_db_scheme \<Rightarrow> 'a evm_contract_db_scheme res" where
  "crawl_contract_evm_job cfg ext = range_job cfg CRAWL_SMART_CONTRACT_EVM (contract_work ext)"

section \<open>What the heights of a range contribute\<close>

definition has_code :: "viem_ext \<Rightarrow> string option \<Rightarrow> bool" where
  "has_code ext address \<longleftrightarrow> (\<exists>code. getBytecode ext address = Inr code \<and> truthy code)"

text \<open>The addresses with code that the transactions of a height mention.\<close>

definition code_addresses :: "viem_ext \<Rightarrow> 'a internal_db_scheme \<Rightarrow> int \<Rightarrow> string set" where
  "code_addresses ext db h =
     coerce_string ` {a. has_code ext a \<and> (\<exists>t\<in>set (evm_transactions db). et_height t = h \<and> a \<in> set (currentAddresses db t))}"

definition stored_addresses :: "'a evm_contract_db_scheme \<Rightarrow> string set" where
  "stored_addresses db = evc_address ` set (evm_contracts db)"

text \<open>Hashes identify transactions, and addresses identify contracts.\<close>

definition contracts_ok :: "'a evm_contract_db_scheme \<Rightarrow> bool" where
  "contracts_ok db \<longleftrightarrow> distinct (map et_hash (evm_transactions db)) \<and> distinct (map evc_address (evm_contracts db))"

lemma uniqBy_addresses [simp]: "evc_address ` set (uniqBy_address cs) = evc_address ` set cs"
  by (induction cs rule: uniqBy_address.induct) auto

lemma uniqBy_distinct: "distinct (map evc_address (uniqBy_address cs))"
  by (induction cs rule: uniqBy_address.induct) auto

lemma uniqBy_first: "find (\<lambda>c. evc_address c = a) (uniqBy_address cs) = find (\<lambda>c. evc_address c = a) cs"
proof (induction cs rule: uniqBy_address.induct)
  case (2 c cs)
  have "find (\<lambda>d. evc_address d = a) (filter (\<lambda>d. evc_address d \<noteq> evc_address c) ds) = find (\<lambda>d. evc_address d = a) ds"
    if "evc_address c \<noteq> a" for ds using that by (induction ds) auto
  with 2 show ?case by auto
qed simp

lemma addressesWithTx_eq:
  assumes "distinct (map et_hash (evm_transactions db))" and "t \<in> set (range_evm_txs a b db)"
  shows "addressesWithTx db (range_evm_txs a b db) (et_hash t) = currentAddresses db t"
proof -
  have "inj_on et_hash (set (range_evm_txs a b db))"
    using assms(1) by (auto simp: range_evm_txs_def distinct_map intro: inj_on_subset)
  from keyBy_unique [OF assms(2) this] show ?thesis by (simp add: addressesWithTx_def)
qed

lemma contract_requests_in:
  assumes "distinct (map et_hash (evm_transactions db))"
  shows "(t, x) \<in> set (contract_requests ext a b db) \<longleftrightarrow>
    t \<in> set (range_evm_txs a b db) \<and> x \<in> set (currentAddresses db t) \<and> x \<notin> Some ` stored_addresses db"
proof -
  have "(t, x) \<in> set (contract_requests ext a b db) \<longleftrightarrow>
      t \<in> set (range_evm_txs a b db) \<and> x \<in> set (addressesWithTx db (range_evm_txs a b db) (et_hash t)) \<and> x \<notin> Some ` stored_addresses db"
    by (simp add: contract_requests_def Let_def stored_addresses_def) blast
  with addressesWithTx_eq [OF assms, of t a b] show ?thesis by auto
qed

lemma contract_at_found:
  assumes "contract_at ext created t x = Inr found"
  shows "(\<exists>c. found = Some c \<and> has_code ext x \<and> evc_address c = coerce_string x) \<or> found = None \<and> \<not> has_code ext x"
  using assms by (cases "creation_info t (x \<in> created)") (auto simp: contract_at_def has_code_def rbind_eq_Inr split: if_split_asm)

lemma found_addresses:
  assumes "rmap (\<lambda>(t, x). contract_at ext created t x) reqs = Inr found"
  shows "evc_address ` set (List.map_filter id found) = coerce_string ` {x. has_code ext x \<and> x \<in> snd ` set reqs}"
  using assms
proof (induction reqs arbitrary: found)
  case (Cons r reqs)
  obtain t x where r: "r = (t, x)" by (cases r)
  from Cons.prems obtain y ys where y: "contract_at ext created t x = Inr y" and ys: "rmap (\<lambda>(t, x). contract_at ext created t x) reqs = Inr ys"
    and found: "found = y # ys" by (auto simp: r rbind_eq_Inr)
  have code: "{z. has_code ext z \<and> z \<in> snd ` set (r # reqs)} =
      (if has_code ext x then insert x else id) {z. has_code ext z \<and> z \<in> snd ` set reqs}" by (auto simp: r)
  from contract_at_found [OF y] consider c where "y = Some c" "has_code ext x" "evc_address c = coerce_string x" | "y = None" "\<not> has_code ext x"
    by blast
  then show ?case unfolding code found
    by cases (use Cons.IH [OF ys] in \<open>simp_all add: map_filter_simps\<close>)
qed (simp add: map_filter_simps)

lemma contract_work_effect:
  assumes "contract_work ext a b db = Inr db'"
  obtains found new n q where
    "rmap (\<lambda>(t, x). contract_at ext (\<Union>t\<in>set (range_evm_txs a b db). set (creations db t)) t x) (contract_requests ext a b db) = Inr found"
    "new = uniqBy_address (List.map_filter id found)" "evc_address ` set new \<inter> stored_addresses db = {}"
    "db' = db\<lparr>evm_contracts := evm_contracts db @ numbered (evm_contract_seq db) (map (\<lambda>c i. c\<lparr>evc_id := i\<rparr>) new),
      evm_contract_seq := n, verify_jobs := q\<rparr>"
  using assms that by (auto simp: contract_work_def stored_addresses_def Let_def rbind_eq_Inr split: if_split_asm)

lemma numbered_addresses: "map evc_address (numbered n (map (\<lambda>c i. c\<lparr>evc_id := i\<rparr>) new)) = map evc_address new"
proof -
  have "map evc_address (numbered n (map (\<lambda>c i. c\<lparr>evc_id := i\<rparr>) new)) = map (\<lambda>f. evc_address (f 0)) (map (\<lambda>c i. c\<lparr>evc_id := i\<rparr>) new)"
    by (rule map_numbered) auto
  then show ?thesis by (simp add: comp_def)
qed

lemma coerced_union: "S \<union> coerce_string ` {x. x \<notin> Some ` S \<and> P x} = S \<union> coerce_string ` {x. P x}"
proof -
  have "coerce_string x \<in> S" if "x \<in> Some ` S" for x using that by (auto simp: coerce_string_def)
  then show ?thesis by blast
qed

lemma range_code_addresses:
  "(\<Union>h\<in>{a<..b}. code_addresses ext db h) =
    coerce_string ` {x. has_code ext x \<and> (\<exists>t\<in>set (range_evm_txs a b db). x \<in> set (currentAddresses db t))}"
proof -
  have txs: "set (range_evm_txs a b db) = {t \<in> set (evm_transactions db). a < et_height t \<and> et_height t \<le> b}"
    by (auto simp: range_evm_txs_def in_range_def)
  have "{x. has_code ext x \<and> (\<exists>t\<in>set (range_evm_txs a b db). x \<in> set (currentAddresses db t))} =
      (\<Union>h\<in>{a<..b}. {x. has_code ext x \<and> (\<exists>t\<in>set (evm_transactions db). et_height t = h \<and> x \<in> set (currentAddresses db t))})"
    unfolding txs by auto
  then show ?thesis by (simp only: code_addresses_def image_UN)
qed

lemma contract_work_addresses:
  assumes "contract_work ext a b db = Inr db'" and "contracts_ok db"
  shows "stored_addresses db' = stored_addresses db \<union> (\<Union>h\<in>{a<..b}. code_addresses ext db h)" and "contracts_ok db'"
proof -
  from assms(1) obtain found new n q where found: "rmap (\<lambda>(t, x). contract_at ext (\<Union>t\<in>set (range_evm_txs a b db). set (creations db t)) t x)
      (contract_requests ext a b db) = Inr found"
    and new: "new = uniqBy_address (List.map_filter id found)" "evc_address ` set new \<inter> stored_addresses db = {}"
    and db': "db' = db\<lparr>evm_contracts := evm_contracts db @ numbered (evm_contract_seq db) (map (\<lambda>c i. c\<lparr>evc_id := i\<rparr>) new),
      evm_contract_seq := n, verify_jobs := q\<rparr>" by (rule contract_work_effect)
  from assms(2) have hashes: "distinct (map et_hash (evm_transactions db))" by (simp add: contracts_ok_def)
  have addrs: "map evc_address (evm_contracts db') = map evc_address (evm_contracts db) @ map evc_address new"
    by (simp add: db' numbered_addresses)
  let ?mentioned = "\<lambda>x. \<exists>t\<in>set (range_evm_txs a b db). x \<in> set (currentAddresses db t)"
  have "x \<in> snd ` R \<longleftrightarrow> (\<exists>t. (t, x) \<in> R)" for x and R :: "(evm_transaction \<times> string option) set" by force
  then have "x \<in> snd ` set (contract_requests ext a b db) \<longleftrightarrow> x \<notin> Some ` stored_addresses db \<and> ?mentioned x" for x
    by (simp add: contract_requests_in [OF hashes]) blast
  then have reqs: "{x. has_code ext x \<and> x \<in> snd ` set (contract_requests ext a b db)} =
      {x. x \<notin> Some ` stored_addresses db \<and> (has_code ext x \<and> ?mentioned x)}" by blast
  have new_addrs: "evc_address ` set new = coerce_string ` {x. x \<notin> Some ` stored_addresses db \<and> (has_code ext x \<and> ?mentioned x)}"
    unfolding new(1) uniqBy_addresses found_addresses [OF found] reqs by (rule refl)
  have "(\<Union>h\<in>{a<..b}. code_addresses ext db h) = coerce_string ` {x. has_code ext x \<and> ?mentioned x}"
    by (rule range_code_addresses)
  moreover have "stored_addresses db' = stored_addresses db \<union> evc_address ` set new"
    using arg_cong [OF addrs, of set] by (simp add: stored_addresses_def)
  ultimately show "stored_addresses db' = stored_addresses db \<union> (\<Union>h\<in>{a<..b}. code_addresses ext db h)"
    by (simp only: new_addrs coerced_union)
  have "distinct (map evc_address (evm_contracts db'))"
    using new(2) assms(2) uniqBy_distinct unfolding addrs by (auto simp: new(1) contracts_ok_def stored_addresses_def)
  with hashes show "contracts_ok db'" by (simp add: contracts_ok_def db')
qed

abbreviation contract_pos :: "config \<Rightarrow> 'a evm_contract_db_scheme \<Rightarrow> int" where
  "contract_pos cfg db \<equiv> job_start cfg CRAWL_SMART_CONTRACT_EVM (block_checkpoint db)"

definition contract_acts :: "viem_ext \<Rightarrow> 'a evm_contract_db_scheme \<Rightarrow> int \<Rightarrow> int \<Rightarrow> string set list" where
  "contract_acts ext db a b = map (code_addresses ext db) [a + 1..b]"

lemma fold_union_heights: "fold (\<union>) (map f [a + 1..b]) S = S \<union> (\<Union>h\<in>{a<..b}. f h)"
proof -
  have "fold (\<union>) (map f hs) S = S \<union> (\<Union>h\<in>set hs. f h)" for hs by (induction hs arbitrary: S) auto
  moreover have "set [a + 1..b] = {a<..b}" by auto
  ultimately show ?thesis by simp
qed

lemma contract_work_shape:
  "contract_work ext a b db = Inr db' \<Longrightarrow> \<exists>cs n q. db' = db\<lparr>evm_contracts := cs, evm_contract_seq := n, verify_jobs := q\<rparr>"
  by (auto elim!: contract_work_effect)

lemma contract_checkpoint:
  "crawl_contract_evm_job cfg ext db = Inr db' \<Longrightarrow> block_checkpoint db' = checkpoint_run cfg CRAWL_SMART_CONTRACT_EVM (block_checkpoint db)"
  unfolding crawl_contract_evm_job_def by (erule range_job_checkpoint) (auto dest!: contract_work_shape)

lemma code_addresses_cong:
  assumes "evm_transactions db' = evm_transactions db" and "evm_events db' = evm_events db" and "evm_internals db' = evm_internals db"
  shows "code_addresses ext db' = code_addresses ext db"
proof -
  have "currentAddresses db' = currentAddresses db" by (intro HOL.ext) (simp only: currentAddresses_def creations_def assms)
  then show ?thesis by (intro HOL.ext) (simp only: code_addresses_def assms(1))
qed

lemma contract_settled:
  assumes "crawl_contract_evm_job cfg ext db = Inr db'"
  shows "contract_acts ext db' = contract_acts ext db"
  using assms unfolding crawl_contract_evm_job_def
proof (cases rule: range_job_cases)
  case (worked db1)
  from contract_work_shape [OF worked(2)] worked(3) have "code_addresses ext db' = code_addresses ext db"
    by (intro code_addresses_cong) (auto simp: saveCheckpoint_def)
  then show ?thesis by (simp add: contract_acts_def fun_eq_iff)
qed simp

lemma contract_saved [simp]:
  "stored_addresses (saveCheckpoint r db) = stored_addresses db" "contracts_ok (saveCheckpoint r db) = contracts_ok db"
  by (simp_all add: stored_addresses_def contracts_ok_def saveCheckpoint_def split: prod.split)

lemma contract_stored:
  assumes "contracts_ok db" and "crawl_contract_evm_job cfg ext db = Inr db'"
  shows "stored_addresses db' = (if skips (job_guard CRAWL_SMART_CONTRACT_EVM) (contract_pos cfg db) (job_end cfg CRAWL_SMART_CONTRACT_EVM (block_checkpoint db))
    then stored_addresses db
    else fold (\<union>) (contract_acts ext db (contract_pos cfg db) (job_end cfg CRAWL_SMART_CONTRACT_EVM (block_checkpoint db))) (stored_addresses db))"
  using assms(2) unfolding crawl_contract_evm_job_def
proof (cases rule: range_job_cases)
  case (worked db1)
  from contract_work_addresses(1) [OF worked(2) assms(1)] worked(1,3) show ?thesis by (simp add: contract_acts_def fold_union_heights)
qed simp

lemma contract_stays_ok:
  assumes "contracts_ok db" and "crawl_contract_evm_job cfg ext db = Inr db'"
  shows "contracts_ok db'"
  using assms(2) unfolding crawl_contract_evm_job_def
proof (cases rule: range_job_cases)
  case (worked db1)
  from contract_work_addresses(2) [OF worked(2) assms(1)] worked(3) show ?thesis by simp
qed (use assms(1) in simp)

lemma contract_acts_split:
  "a \<le> b \<Longrightarrow> b \<le> c \<Longrightarrow> contract_acts ext db a c = contract_acts ext db a b @ contract_acts ext db b c"
  unfolding contract_acts_def map_append [symmetric] using upto_split2 [of "a + 1" b c] by (cases "a = b") simp_all

lemma contract_guarded:
  "\<not> skips (job_guard CRAWL_SMART_CONTRACT_EVM) (contract_pos cfg db) (job_end cfg CRAWL_SMART_CONTRACT_EVM (block_checkpoint db)) \<Longrightarrow>
    contract_pos cfg db \<le> job_end cfg CRAWL_SMART_CONTRACT_EVM (block_checkpoint db)"
  using not_skips_le [of "job_guard CRAWL_SMART_CONTRACT_EVM"] by (simp add: CRAWL_SMART_CONTRACT_EVM_def)

interpretation contract_job: replaying_job cfg CRAWL_SMART_CONTRACT_EVM "crawl_contract_evm_job cfg ext" "\<lambda>_. True" contracts_ok
  "contract_acts ext" "(\<union>)" stored_addresses
  for cfg ext
  by unfold_locales (rule contract_checkpoint contract_stored contract_settled contract_stays_ok contract_acts_split contract_guarded; assumption)+

section \<open>Properties\<close>

definition sample_viem :: "(string \<Rightarrow> nat) \<Rightarrow> viem_ext" where
  "sample_viem time =
     \<lparr>getBytecode = (\<lambda>a. case a of None \<Rightarrow> Inl (JsError ''invalid argument'') | Some x \<Rightarrow> Inr (if x = ''0xc'' then Some ''0xcode'' else None)),
      getStorageAt = (\<lambda>a s n. Inr None), keccak256 = id, keccak_text = id, selectorsFromBytecode = (\<lambda>c. []), slot_time = (\<lambda>a s. 0), contract_time = (\<lambda>h a. time h)\<rparr>"

definition sample_contract_tx :: "int \<Rightarrow> string \<Rightarrow> string \<Rightarrow> string option \<Rightarrow> string option \<Rightarrow> string \<Rightarrow> evm_transaction" where
  "sample_contract_tx i hash source target contract bytes =
     \<lparr>et_id = i, et_hash = hash, et_height = 2, et_from = source, et_to = target, et_size = None, et_value = None, et_gas = None,
      et_gas_fee_cap = None, et_gas_tip_cap = None, et_data = Some bytes, et_nonce = None, et_tx_msg_id = 1, et_tx_id = i,
      et_contract_address = contract, et_index = 0, et_status = 1, et_reason = None\<rparr>"

text \<open>A transaction that creates a contract, and one that calls it.\<close>

definition sample_contract_db :: evm_contract_db where
  "sample_contract_db =
     \<lparr>block_checkpoint = map_of [(''job:crawl-evm-event'', 3), (''crawl:crawl-internal-tx'', 3)], block_table = [], transaction_table = [],
      transaction_seq = 1, event_table = [], event_seq = 1, message_table = [], message_seq = 1,
      evm_transactions = [sample_contract_tx 1 ''h1'' ''0xa'' None (Some ''0xc'') ''6080604052'', sample_contract_tx 2 ''h2'' ''0xb'' (Some ''0xc'') None ''a9''],
      evm_transaction_seq = 3, evm_events = [], evm_event_seq = 1, evm_internals = [], evm_contracts = [], evm_contract_seq = 5, verify_jobs = []\<rparr>"

abbreviation sample_contract_ext :: viem_ext where
  "sample_contract_ext \<equiv> sample_viem (\<lambda>h. if h = ''h1'' then 0 else 1)"

definition sample_contracts_db :: evm_contract_db where
  "sample_contracts_db = projr (crawl_contract_evm_job sample_evm_config sample_contract_ext sample_contract_db)"

lemma sample_contracts_run: "crawl_contract_evm_job sample_evm_config sample_contract_ext sample_contract_db = Inr sample_contracts_db"
proof -
  have "\<not> isl (crawl_contract_evm_job sample_evm_config sample_contract_ext sample_contract_db)" by code_simp
  then show ?thesis by (simp add: sample_contracts_db_def)
qed

lemma sample_contracts_ok: "contracts_ok sample_contract_db"
  by (simp add: contracts_ok_def sample_contract_db_def sample_contract_tx_def)

text \<open>
  C16. As long as no two stored Ethereum transactions have the same hash and no two stored contracts the same address,
  at first and after every step of another job (the database enforces only the latter), then,
  whatever order the concurrent requests are answered in and however the runs interleave with other jobs that
  leave the checkpoint, the rows and what passed heights say alone, the contracts stored are, beside those
  that were there, exactly the addresses with code that transactions of the heights passed mention as sender,
  target or created contract, in their logs or in the calls that create contracts; and no address is
  stored twice.
\<close>

theorem contracts_found_once:
  assumes "job_trace (crawl_contract_evm_job cfg ext) (\<lambda>_. True)
      (\<lambda>db db'. settled_env (contract_pos cfg) stored_addresses (contract_acts ext) db db' \<and> contracts_ok db') db0 db"
    and "contracts_ok db0"
  shows "stored_addresses db = stored_addresses db0 \<union> (\<Union>h\<in>{contract_pos cfg db0<..contract_pos cfg db}. code_addresses ext db h) \<and>
    distinct (map evc_address (evm_contracts db))"
  using contract_job.replays_once [OF assms] by (simp add: contract_acts_def fold_union_heights contracts_ok_def)

theorem contracts_found_once_witness:
  "stored_addresses sample_contracts_db = (\<Union>h\<in>{0<..3}. code_addresses sample_contract_ext sample_contracts_db h) \<and>
   map evc_address (evm_contracts sample_contracts_db) = [''0xc'']"
proof -
  have "job_trace (crawl_contract_evm_job sample_evm_config sample_contract_ext) (\<lambda>_. True)
      (\<lambda>db db'. settled_env (contract_pos sample_evm_config) stored_addresses (contract_acts sample_contract_ext) db db' \<and> contracts_ok db')
      sample_contract_db sample_contracts_db"
    by (intro trace_one sample_contracts_run) simp
  note contracts_found_once [OF this sample_contracts_ok]
  moreover have "contract_pos sample_evm_config sample_contract_db = 0" "contract_pos sample_evm_config sample_contracts_db = 3"
    "map evc_address (evm_contracts sample_contracts_db) = [''0xc'']" by code_simp+
  moreover have "stored_addresses sample_contract_db = {}" by (simp add: stored_addresses_def sample_contract_db_def)
  ultimately show ?thesis by simp
qed

text \<open>The contract at an address is the one of the first request for it.\<close>

lemma first_found:
  assumes "rmap (\<lambda>(t, x). contract_at ext created t x) reqs = Inr found" and "find (\<lambda>(t, x). x = Some a) reqs = Some (t, Some a)"
    and "has_code ext (Some a)" and "a \<noteq> []"
  shows "\<exists>c. find (\<lambda>c. evc_address c = a) (List.map_filter id found) = Some c \<and> contract_at ext created t (Some a) = Inr (Some c)"
  using assms(1,2)
proof (induction reqs arbitrary: found)
  case (Cons r reqs)
  obtain u x where r: "r = (u, x)" by (cases r)
  from Cons.prems(1) obtain y ys where y: "contract_at ext created u x = Inr y" and ys: "rmap (\<lambda>(t, x). contract_at ext created t x) reqs = Inr ys"
    and found: "found = y # ys" by (auto simp: r rbind_eq_Inr)
  note at = contract_at_found [OF y]
  show ?case
  proof (cases "x = Some a")
    case True
    with Cons.prems(2) r have "u = t" by simp
    with at True assms(3) y show ?thesis by (auto simp: found map_filter_simps coerce_string_def)
  next
    case False
    with assms(4) have "coerce_string x \<noteq> a" by (auto simp: coerce_string_def split: option.split_asm)
    moreover have "find (\<lambda>(t, x). x = Some a) reqs = Some (t, Some a)" using Cons.prems(2) False by (simp add: r)
    from Cons.IH [OF ys this] obtain c where "find (\<lambda>c. evc_address c = a) (List.map_filter id ys) = Some c" "contract_at ext created t (Some a) = Inr (Some c)" by blast
    ultimately show ?thesis using at by (auto simp: found map_filter_simps id_def)
  qed
qed simp

text \<open>
  C37. Of several transactions of a range that mention a new contract, the one whose request is answered first
  decides what is stored about its creation; when that one only calls the contract, it is stored
  without creator, height and hash of its creation, although the range has the creation.
\<close>

theorem creation_lost_in_race:
  assumes "contract_work ext s e db = Inr db'" and "find (\<lambda>(t, x). x = Some a) (contract_requests ext s e db) = Some (t, Some a)"
    and "has_code ext (Some a)" and "a \<noteq> []"
    and "creation_info t (Some a \<in> (\<Union>t\<in>set (range_evm_txs s e db). set (creations db t))) = (None, None, None)"
  shows "\<exists>c\<in>set (evm_contracts db'). evc_address c = a \<and> evc_creator c = None \<and> evc_created_height c = None \<and> evc_created_hash c = None"
proof -
  from assms(1) obtain found new n q where found: "rmap (\<lambda>(t, x). contract_at ext (\<Union>t\<in>set (range_evm_txs s e db). set (creations db t)) t x)
      (contract_requests ext s e db) = Inr found"
    and new: "new = uniqBy_address (List.map_filter id found)"
    and db': "db' = db\<lparr>evm_contracts := evm_contracts db @ numbered (evm_contract_seq db) (map (\<lambda>c i. c\<lparr>evc_id := i\<rparr>) new),
      evm_contract_seq := n, verify_jobs := q\<rparr>" by (rule contract_work_effect)
  from first_found [OF found assms(2-4)] obtain c where c: "find (\<lambda>c. evc_address c = a) new = Some c"
    "contract_at ext (\<Union>t\<in>set (range_evm_txs s e db). set (creations db t)) t (Some a) = Inr (Some c)"
    unfolding new uniqBy_first by blast
  from c(2) assms(5) have empty: "evc_creator c = None" "evc_created_height c = None" "evc_created_hash c = None"
    by (auto simp: contract_at_def rbind_eq_Inr split: if_split_asm)
  from c(1) obtain k where k: "k < length new" "new ! k = c" "evc_address c = a" by (auto simp: find_Some_iff)
  then have "c\<lparr>evc_id := evm_contract_seq db + int k\<rparr> \<in> set (evm_contracts db')"
    by (auto simp: db' set_numbered)
  with empty k(3) show ?thesis by (intro bexI) simp_all
qed

theorem creation_lost_in_race_witness:
  "\<exists>db'. contract_work (sample_viem (\<lambda>h. if h = ''h1'' then 1 else 0)) 0 3 sample_contract_db = Inr db' \<and>
    (\<exists>c\<in>set (evm_contracts db'). evc_address c = ''0xc'' \<and> evc_creator c = None \<and> evc_created_height c = None \<and> evc_created_hash c = None)"
proof -
  let ?ext = "sample_viem (\<lambda>h. if h = ''h1'' then 1 else 0)"
  let ?t = "sample_contract_tx 2 ''h2'' ''0xb'' (Some ''0xc'') None ''a9''"
  have "\<not> isl (contract_work ?ext 0 3 sample_contract_db)" by code_simp
  then obtain db' where run: "contract_work ?ext 0 3 sample_contract_db = Inr db'" by (cases "contract_work ?ext 0 3 sample_contract_db") simp_all
  have first: "find (\<lambda>(t, x). x = Some ''0xc'') (contract_requests ?ext 0 3 sample_contract_db) = Some (?t, Some ''0xc'')" by code_simp
  have code: "has_code ?ext (Some ''0xc'')" by (simp add: has_code_def sample_viem_def truthy_def)
  have info: "creation_info ?t (Some ''0xc'' \<in> (\<Union>t\<in>set (range_evm_txs 0 3 sample_contract_db). set (creations sample_contract_db t))) = (None, None, None)"
    by code_simp
  from creation_lost_in_race [OF run first code _ info] run show ?thesis by simp
qed

text \<open>
  A call that failed to create a contract has no target in its trace; as long as the node rejects a request
  without an address, the job throws whenever its range has the transaction of that call.
\<close>

theorem failed_creation_blocks:
  assumes "getBytecode ext None = Inl e" and "t \<in> set (evm_transactions db)" and "i \<in> set (evm_internals db)"
    and "it_evm_tx_id i = et_id t" and "it_type i \<in> {''CREATE'', ''CREATE2''}" and "it_to i = None"
    and "distinct (map et_hash (evm_transactions db))"
    and "in_range (contract_pos cfg db) (job_end cfg CRAWL_SMART_CONTRACT_EVM (block_checkpoint db)) (et_height t)"
  shows "isl (crawl_contract_evm_job cfg ext db)"
proof -
  let ?s = "contract_pos cfg db" and ?e = "job_end cfg CRAWL_SMART_CONTRACT_EVM (block_checkpoint db)"
  have "None \<in> set (currentAddresses db t)" using assms(3-6) by (force simp: currentAddresses_def creations_def)
  moreover have "t \<in> set (range_evm_txs ?s ?e db)" using assms(2,8) by (simp add: range_evm_txs_def)
  ultimately have req: "(t, None) \<in> set (contract_requests ext ?s ?e db)" by (simp add: contract_requests_in [OF assms(7)])
  have "isl (contract_work ext ?s ?e db)"
  proof (rule ccontr)
    assume "\<not> isl (contract_work ext ?s ?e db)"
    then obtain db' where "contract_work ext ?s ?e db = Inr db'" by (cases "contract_work ext ?s ?e db") simp_all
    then obtain found where found: "rmap (\<lambda>(t, x). contract_at ext (\<Union>t\<in>set (range_evm_txs ?s ?e db). set (creations db t)) t x)
      (contract_requests ext ?s ?e db) = Inr found" by (rule contract_work_effect)
    from rmap_memD [OF found req] assms(1) show False by (simp add: contract_at_def)
  qed
  moreover have "\<not> skips (job_guard CRAWL_SMART_CONTRACT_EVM) ?s ?e"
    using assms(8) by (simp add: CRAWL_SMART_CONTRACT_EVM_def skips_def in_range_def)
  ultimately show ?thesis by (simp add: crawl_contract_evm_job_def range_job_isl)
qed

theorem failed_creation_blocks_witness:
  "isl (crawl_contract_evm_job sample_evm_config sample_contract_ext
     (sample_contract_db\<lparr>evm_internals :=
        [\<lparr>it_evm_tx_id = 2, it_type_trace_address = ''CALL[0]_CREATE'', it_type = ''CREATE'', it_from = Some ''0xc'', it_to = None, it_value = 0,
          it_input = [], it_gas = 0, it_gas_used = 0, it_error = Some (JStr ''out of gas'')\<rparr>]\<rparr>))"
    (is "isl (crawl_contract_evm_job _ _ ?db)")
proof (rule failed_creation_blocks)
  show "getBytecode sample_contract_ext None = Inl (JsError ''invalid argument'')" by (simp add: sample_viem_def)
  show "sample_contract_tx 2 ''h2'' ''0xb'' (Some ''0xc'') None ''a9'' \<in> set (evm_transactions ?db)" by (simp add: sample_contract_db_def)
  show "hd (evm_internals ?db) \<in> set (evm_internals ?db)" by simp
  show "it_evm_tx_id (hd (evm_internals ?db)) = et_id (sample_contract_tx 2 ''h2'' ''0xb'' (Some ''0xc'') None ''a9'')"
    "it_type (hd (evm_internals ?db)) \<in> {''CREATE'', ''CREATE2''}" "it_to (hd (evm_internals ?db)) = None"
    by (simp_all add: sample_contract_tx_def)
  show "distinct (map et_hash (evm_transactions ?db))" by (simp add: sample_contract_db_def sample_contract_tx_def)
  show "in_range (contract_pos sample_evm_config ?db) (job_end sample_evm_config CRAWL_SMART_CONTRACT_EVM (block_checkpoint ?db))
      (et_height (sample_contract_tx 2 ''h2'' ''0xb'' (Some ''0xc'') None ''a9''))" by code_simp
qed

end
