(* ===== verification/Evm_Proxy.thy ===== *)
theory Evm_Proxy
  imports Evm_Contract Smart_Contract
begin

text \<open>
  The implementations of proxy contracts: \<^verbatim>\<open>src/services/evm/crawl_evm_proxy_history.service.ts\<close>, which follows the
  events of proxies, and the action of \<^verbatim>\<open>evm_proxy.service.ts\<close>, which looks at the storage of a contract
  (\<^verbatim>\<open>src/models/evm_proxy_history.ts\<close>).
\<close>

section \<open>Tables\<close>

record proxy_history =
  ph_id :: int
  ph_proxy_contract :: string
  ph_implementation_contract :: "string option"
  ph_tx_hash :: string
  ph_block_height :: "int option"
  ph_last_updated_height :: "int option"

text \<open>The rows, their sequence, and the proxies handed over to the services of the token standards.\<close>

record proxy_db = evm_contract_db +
  proxy_histories :: "proxy_history list"
  proxy_history_seq :: int
  registrations :: "(string \<times> (int option \<times> string)) list"

text \<open>
  The node, the decoding of an address by \<^verbatim>\<open>decodeAbiParameters\<close> (\<open>None\<close> is a thrown error), the height of the
  chain, and the calls of the services of the token standards with the name of the standard.
\<close>

record proxy_ext =
  viem :: viem_ext
  decodeAddress :: "json option \<Rightarrow> string option"
  chain_height :: "int res"
  insertNewContracts :: "string \<Rightarrow> (int option \<times> string) list \<Rightarrow> unit res"

definition HANDLE_EVM_PROXY_HISTORY :: job_decl where
  "HANDLE_EVM_PROXY_HISTORY =
     \<lparr>job_name = ''handle:evm-proxy-history'', lastHeightJobNames = [''crawl:smart-contract-evm''],
      configName = Some ''crawlEvmProxyHistory'', job_guard = NoGuard\<rparr>"

section \<open>One event\<close>

definition upgraded_event :: "proxy_ext \<Rightarrow> string" where
  "upgraded_event ext = keccak_text (viem ext) ''Upgraded(address)''"

definition proxyContractDb :: "'a evm_contract_db_scheme \<Rightarrow> evm_contract list" where
  "proxyContractDb db = filter (\<lambda>c. evc_type c \<in> Some ` snd ` set EIPProxyContractSupportByteCode) (evm_contracts db)"

text \<open>\<^verbatim>\<open>_.find(EIPProxyContractSupportByteCode, (value, __) => value.TYPE === type)?.SLOT\<close>\<close>

definition slot_of_type :: "string option \<Rightarrow> string option" where
  "slot_of_type type = map_option fst (find (\<lambda>(slot, t). type = Some t) EIPProxyContractSupportByteCode)"

definition firstTimeCatchProxyEvent :: "'a proxy_db_scheme \<Rightarrow> string \<Rightarrow> bool" where
  "firstTimeCatchProxyEvent db address \<longleftrightarrow>
     address \<in> evc_address ` set (proxyContractDb db) \<and>
     \<not> list_ex (\<lambda>h. ph_proxy_contract h = toLowerCase address \<and> ph_last_updated_height h \<noteq> None) (proxy_histories db)"

text \<open>
  The implementation an event tells and the height that is stored with it. The slot is passed to
  \<open>isContractProxy\<close> where that function expects a block height, and the answer, an object, is turned into a
  text by \<^verbatim>\<open>_.toLower\<close>.
\<close>

definition event_implementation :: "proxy_ext \<Rightarrow> 'a proxy_db_scheme \<Rightarrow> evm_event_row \<Rightarrow> (string option \<times> int option) res" where
  "event_implementation ext db evmEvent =
     (if er_topic0 evmEvent = Some (JStr (upgraded_event ext))
      then (case decodeAddress ext (er_topic1 evmEvent) of None \<Rightarrow> Inl (JsError ''AbiDecodingError'') | Some a \<Rightarrow> Inr (Some a, None))
      else if firstTimeCatchProxyEvent db (er_address evmEvent)
      then
        rbind (isContractProxy (viem ext) (Some (er_address evmEvent))
            (slot_of_type (Option.bind (find (\<lambda>c. evc_address c = er_address evmEvent) (proxyContractDb db)) evc_type)) None) (\<lambda>found.
        rbind (chain_height ext) (\<lambda>n. Inr (map_option (\<lambda>_. ''[object Object]'') found, Some n)))
      else Inr (None, None))"

definition newJSONProxy :: "proxy_ext \<Rightarrow> 'a proxy_db_scheme \<Rightarrow> evm_event_row \<Rightarrow> proxy_history res" where
  "newJSONProxy ext db evmEvent =
     rbind (event_implementation ext db evmEvent) (\<lambda>(implementationAddress, n).
       Inr \<lparr>ph_id = 0, ph_proxy_contract = toLowerCase (er_address evmEvent),
            ph_implementation_contract = (let s = toLowerCase (coerce_string implementationAddress) in if s = [] then None else Some s),
            ph_tx_hash = er_tx_hash evmEvent, ph_block_height = Some (er_block_height evmEvent), ph_last_updated_height = n\<rparr>)"

section \<open>Storing\<close>

definition newProxyContractsToSave :: "'a evm_contract_db_scheme \<Rightarrow> proxy_history list \<Rightarrow> proxy_history list" where
  "newProxyContractsToSave db rows =
     filter (\<lambda>h. ph_implementation_contract h \<noteq> None \<and> ph_proxy_contract h \<in> evc_address ` set (evm_contracts db)) rows"

text \<open>\<^verbatim>\<open>_.groupBy(rows, (proxy) => proxy.proxy_contract + proxy.block_height)\<close> and the merge of every group\<close>

definition proxy_key :: "proxy_history \<Rightarrow> string" where
  "proxy_key h = ph_proxy_contract h @ show_id (ph_block_height h)"

definition merge_rows :: "proxy_history \<Rightarrow> proxy_history \<Rightarrow> proxy_history" where
  "merge_rows h acc =
     h\<lparr>ph_implementation_contract :=
          (case ph_implementation_contract h of None \<Rightarrow> ph_implementation_contract acc | v \<Rightarrow> v),
       ph_last_updated_height := (case ph_last_updated_height h of None \<Rightarrow> ph_last_updated_height acc | v \<Rightarrow> v)\<rparr>"

definition mergedProxyContracts :: "proxy_history list \<Rightarrow> proxy_history list" where
  "mergedProxyContracts rows =
     map (\<lambda>k. let group = filter (\<lambda>h. proxy_key h = k) rows in fold merge_rows (tl group) (hd group)) (uniq (map proxy_key rows))"

text \<open>The insert that updates a row with the same proxy and height; every row of the statement takes an id.\<close>

definition same_history :: "proxy_history \<Rightarrow> proxy_history \<Rightarrow> bool" where
  "same_history h g \<longleftrightarrow>
     ph_proxy_contract h = ph_proxy_contract g \<and> ph_block_height h = ph_block_height g \<and> ph_block_height h \<noteq> None"

definition upsert_history :: "bool \<Rightarrow> proxy_history \<Rightarrow> int list \<times> 'a proxy_db_scheme \<Rightarrow> int list \<times> 'a proxy_db_scheme" where
  "upsert_history with_height h st =
     (case st of (ids, db) \<Rightarrow>
        (case find (same_history h) (proxy_histories db) of
           None \<Rightarrow>
             (ids @ [proxy_history_seq db],
              db\<lparr>proxy_histories := proxy_histories db @ [h\<lparr>ph_id := proxy_history_seq db\<rparr>], proxy_history_seq := proxy_history_seq db + 1\<rparr>)
         | Some g \<Rightarrow>
             (ids @ [ph_id g],
              db\<lparr>proxy_histories :=
                   map (\<lambda>g. if same_history h g
                            then g\<lparr>ph_implementation_contract := ph_implementation_contract h, ph_tx_hash := ph_tx_hash h,
                                   ph_last_updated_height := (if with_height then ph_last_updated_height h else ph_last_updated_height g)\<rparr>
                            else g) (proxy_histories db),
                 proxy_history_seq := proxy_history_seq db + 1\<rparr>)))"

definition proxy_store :: "proxy_ext \<Rightarrow> int \<Rightarrow> int \<Rightarrow> 'a proxy_db_scheme \<Rightarrow> (int list \<times> 'a proxy_db_scheme) res" where
  "proxy_store ext startB endB db =
     rbind (rmap (newJSONProxy ext db) (filter (\<lambda>v. in_range startB endB (er_block_height v)) (evm_events db))) (\<lambda>rows.
       let merged = mergedProxyContracts (newProxyContractsToSave db rows) in
       Inr (fold (upsert_history (list_ex (\<lambda>h. ph_last_updated_height h \<noteq> None) merged)) merged ([], db)))"

section \<open>Handing proxies over\<close>

text \<open>The stored histories of a run whose implementation is of a token standard, with the id of the proxy.\<close>

definition typed_proxies :: "string \<Rightarrow> int list \<Rightarrow> 'a proxy_db_scheme \<Rightarrow> (int option \<times> string) list" where
  "typed_proxies type ids db =
     map (\<lambda>h. (map_option evc_id (find (\<lambda>c. evc_address c = ph_proxy_contract h) (evm_contracts db)), ph_proxy_contract h))
       (filter (\<lambda>h. ph_id h \<in> set ids \<and>
            list_ex (\<lambda>c. Some (evc_address c) = ph_implementation_contract h \<and> evc_type c = Some type) (evm_contracts db))
         (proxy_histories db))"

definition hand_over :: "proxy_ext \<Rightarrow> string \<Rightarrow> int list \<Rightarrow> 'a proxy_db_scheme \<Rightarrow> 'a proxy_db_scheme outcome" where
  "hand_over ext type ids db =
     (case insertNewContracts ext type (typed_proxies type ids db) of
        Inl e \<Rightarrow> (db, Some e)
      | Inr _ \<Rightarrow> (db\<lparr>registrations := registrations db @ map (Pair type) (typed_proxies type ids db)\<rparr>, None))"

definition handleTypeProxyContracts :: "proxy_ext \<Rightarrow> int list \<Rightarrow> 'a proxy_db_scheme \<Rightarrow> 'a proxy_db_scheme outcome" where
  "handleTypeProxyContracts ext ids db =
     (case hand_over ext ''ERC20'' ids db of
        (db1, Some e) \<Rightarrow> (db1, Some e)
      | (db1, None) \<Rightarrow> hand_over ext ''ERC721'' ids db1)"

text \<open>The hand over follows the commit of the rows and the checkpoint.\<close>

definition proxy_history_job :: "config \<Rightarrow> proxy_ext \<Rightarrow> 'a proxy_db_scheme \<Rightarrow> 'a proxy_db_scheme outcome" where
  "proxy_history_job cfg ext db =
     (let startB = job_start cfg HANDLE_EVM_PROXY_HISTORY (block_checkpoint db);
          endB = job_end cfg HANDLE_EVM_PROXY_HISTORY (block_checkpoint db) in
      case proxy_store ext startB endB db of
        Inl e \<Rightarrow> (db, Some e)
      | Inr (ids, db1) \<Rightarrow> handleTypeProxyContracts ext ids (saveCheckpoint (job_name HANDLE_EVM_PROXY_HISTORY, endB) db1))"

section \<open>The action\<close>

text \<open>
  What the action returns or throws, with the database it leaves: the type of a contract is set before the
  height is asked for. The query takes the history that was updated last; rows of histories keep the time of
  their insertion unless they are merged, so the model takes the one inserted last.
\<close>

definition detectEvmProxy ::
  "proxy_ext \<Rightarrow> string \<Rightarrow> 'a proxy_db_scheme \<Rightarrow> proxy_history option res \<times> 'a proxy_db_scheme"
where
  "detectEvmProxy ext contractAddress db =
     (case isContractProxy (viem ext) (Some contractAddress) None None of
        Inl e \<Rightarrow> (Inl e, db)
      | Inr None \<Rightarrow> (Inl (ValidationError ''Not a proxy contract.''), db)
      | Inr (Some d) \<Rightarrow>
          (case find (\<lambda>c. evc_address c = contractAddress) (evm_contracts db) of
             None \<Rightarrow> (Inr None, db)
           | Some c \<Rightarrow>
               let db1 = (if truthy (evc_type c) then db
                          else db\<lparr>evm_contracts := map (\<lambda>c. if evc_address c = contractAddress then c\<lparr>evc_type := proxy_EIP d\<rparr> else c) (evm_contracts db)\<rparr>) in
               (case find (\<lambda>h. ph_proxy_contract h = contractAddress \<and> ph_implementation_contract h = Some (logicContractAddress d))
                   (rev (proxy_histories db)) of
                  Some h \<Rightarrow> (Inr (Some h), db1)
                | None \<Rightarrow>
                    (case chain_height ext of
                       Inl e \<Rightarrow> (Inl e, db1)
                     | Inr currentBlock \<Rightarrow>
                         let h = \<lparr>ph_id = proxy_history_seq db, ph_proxy_contract = contractAddress,
                                  ph_implementation_contract = Some (logicContractAddress d), ph_tx_hash = [],
                                  ph_block_height = None, ph_last_updated_height = Some currentBlock\<rparr> in
                         (Inr (Some h), db1\<lparr>proxy_histories := proxy_histories db @ [h], proxy_history_seq := proxy_history_seq db + 1\<rparr>)))))"

section \<open>Slots are no heights\<close>

lemma slots_no_heights: "list_all (\<lambda>(slot, t). slot \<noteq> [] \<and> text_BigInt slot = None) EIPProxyContractSupportByteCode"
  by code_simp

lemma slot_height:
  assumes "(slot, t) \<in> set EIPProxyContractSupportByteCode"
  shows "block_number (Some slot) = Inl (JsError ''SyntaxError'')"
  using slots_no_heights assms by (auto simp: list_all_iff block_number_def)

lemma detect_with_slot_height:
  "(slot, t) \<in> set EIPProxyContractSupportByteCode \<Longrightarrow> isl (detectProxyContractByByteCode node a code s (Some slot))"
  by (simp add: detectProxyContractByByteCode_def slot_height)

lemma isContractProxy_with_slot_height:
  assumes "(slot, t) \<in> set EIPProxyContractSupportByteCode" and "isContractProxy node a (Some slot) None = Inr found"
  shows "found = None"
proof -
  have "try_undefined (detectProxyContractByByteCode node a code s (Some slot)) = None" for code s
    using detect_with_slot_height [OF assms(1), of node a code s]
    by (cases "detectProxyContractByByteCode node a code s (Some slot)") simp_all
  then have "detect_any node a code (Some slot) = None" for code
    by (simp add: detect_any_def map_filter_def)
  with assms(2) show ?thesis by (auto simp: isContractProxy_def rbind_eq_Inr truthy_def split: if_split_asm)
qed

lemma slot_of_proxy:
  assumes "a \<in> evc_address ` set (proxyContractDb db)"
  shows "\<exists>slot t. slot_of_type (Option.bind (find (\<lambda>c. evc_address c = a) (proxyContractDb db)) evc_type) = Some slot \<and>
    (slot, t) \<in> set EIPProxyContractSupportByteCode"
proof -
  from assms obtain c where c: "find (\<lambda>c. evc_address c = a) (proxyContractDb db) = Some c"
    by (cases "find (\<lambda>c. evc_address c = a) (proxyContractDb db)") (auto simp: find_None_iff)
  then have "c \<in> set (proxyContractDb db)" by (auto simp: find_Some_iff)
  then obtain s t where st: "(s, t) \<in> set EIPProxyContractSupportByteCode" "evc_type c = Some t" by (auto simp: proxyContractDb_def)
  then obtain x where x: "find (\<lambda>(slot, u). Some t = Some u) EIPProxyContractSupportByteCode = Some x"
    by (cases "find (\<lambda>(slot, u). Some t = Some u) EIPProxyContractSupportByteCode") (auto simp: find_None_iff)
  then have "x \<in> set EIPProxyContractSupportByteCode" unfolding find_Some_iff by (metis nth_mem)
  with x c st(2) show ?thesis by (cases x) (auto simp: slot_of_type_def)
qed

text \<open>Only an upgrade tells an implementation.\<close>

lemma event_implementation_upgraded:
  assumes "event_implementation ext db v = Inr (Some a, n)"
  shows "er_topic0 v = Some (JStr (upgraded_event ext)) \<and> decodeAddress ext (er_topic1 v) = Some a \<and> n = None"
proof (cases "er_topic0 v = Some (JStr (upgraded_event ext))")
  case True
  with assms show ?thesis by (auto simp: event_implementation_def split: option.split_asm)
next
  case False
  with assms obtain found where first: "firstTimeCatchProxyEvent db (er_address v)"
    and found: "isContractProxy (viem ext) (Some (er_address v))
      (slot_of_type (Option.bind (find (\<lambda>c. evc_address c = er_address v) (proxyContractDb db)) evc_type)) None = Inr found"
    "found \<noteq> None" by (auto simp: event_implementation_def rbind_eq_Inr split: if_split_asm)
  from first slot_of_proxy [of "er_address v" db] obtain slot t where
    "slot_of_type (Option.bind (find (\<lambda>c. evc_address c = er_address v) (proxyContractDb db)) evc_type) = Some slot"
    "(slot, t) \<in> set EIPProxyContractSupportByteCode" by (auto simp: firstTimeCatchProxyEvent_def)
  with found isContractProxy_with_slot_height show ?thesis by metis
qed

section \<open>What a run stores\<close>

definition history_core :: "proxy_history \<Rightarrow> string \<times> string option \<times> string \<times> int option" where
  "history_core h = (ph_proxy_contract h, ph_implementation_contract h, ph_tx_hash h, ph_block_height h)"

lemma merge_core:
  assumes "\<forall>x\<in>set (h # hs). ph_implementation_contract x \<noteq> None"
  shows "\<exists>x\<in>set (h # hs). history_core (fold merge_rows hs h) = history_core x"
  using assms
proof (induction hs arbitrary: h)
  case (Cons g hs)
  have "history_core (merge_rows g h) = history_core g"
    using Cons.prems by (auto simp: history_core_def merge_rows_def split: option.split)
  moreover have "\<forall>x\<in>set (merge_rows g h # hs). ph_implementation_contract x \<noteq> None"
    using Cons.prems by (auto simp: merge_rows_def split: option.split)
  from Cons.IH [OF this] have "\<exists>x\<in>set (merge_rows g h # hs). history_core (fold merge_rows hs (merge_rows g h)) = history_core x" .
  ultimately show ?case by auto
qed simp

lemma merged_core:
  assumes "r \<in> set (mergedProxyContracts rows)" and "\<forall>x\<in>set rows. ph_implementation_contract x \<noteq> None"
  shows "\<exists>x\<in>set rows. history_core r = history_core x"
proof -
  from assms(1) obtain k where k: "k \<in> proxy_key ` set rows"
    and r: "r = fold merge_rows (tl (filter (\<lambda>h. proxy_key h = k) rows)) (hd (filter (\<lambda>h. proxy_key h = k) rows))"
    by (auto simp: mergedProxyContracts_def Let_def)
  from k have "filter (\<lambda>h. proxy_key h = k) rows \<noteq> []" by (auto simp: filter_empty_conv)
  then obtain h hs where g: "filter (\<lambda>h. proxy_key h = k) rows = h # hs" by (cases "filter (\<lambda>h. proxy_key h = k) rows") auto
  then have sub: "set (h # hs) \<subseteq> set rows" by (metis filter_is_subset)
  with assms(2) merge_core [of h hs] have "\<exists>x\<in>set (h # hs). history_core r = history_core x" unfolding r g by auto
  with sub show ?thesis by blast
qed

text \<open>One row of the statement: the rows of the table keep their keys, and a new row has a new key.\<close>

definition history_key :: "proxy_history \<Rightarrow> string \<times> int option" where
  "history_key h = (ph_proxy_contract h, ph_block_height h)"

lemma upsert_history_cases:
  assumes "upsert_history w h (ids, db) = (ids', db')"
  obtains (new) "find (same_history h) (proxy_histories db) = None" "\<exists>i. proxy_histories db' = proxy_histories db @ [h\<lparr>ph_id := i\<rparr>]"
      "\<exists>hs n. db' = db\<lparr>proxy_histories := hs, proxy_history_seq := n\<rparr>"
  | (old) f where "proxy_histories db' = map f (proxy_histories db)" "\<forall>g. history_key (f g) = history_key g"
      "\<forall>g. history_core (f g) \<noteq> history_core g \<longrightarrow> history_core (f g) = history_core h"
      "\<exists>hs n. db' = db\<lparr>proxy_histories := hs, proxy_history_seq := n\<rparr>"
proof (cases "find (same_history h) (proxy_histories db)")
  case None
  with assms show ?thesis by (intro new) (auto simp: upsert_history_def)
next
  case (Some g)
  let ?f = "\<lambda>g. if same_history h g
      then g\<lparr>ph_implementation_contract := ph_implementation_contract h, ph_tx_hash := ph_tx_hash h,
             ph_last_updated_height := (if w then ph_last_updated_height h else ph_last_updated_height g)\<rparr> else g"
  from Some assms show ?thesis
    by (intro old [of ?f]) (auto simp: upsert_history_def history_key_def history_core_def same_history_def)
qed

lemma upsert_fold:
  assumes "fold (upsert_history w) rows (ids, db) = (ids', db')"
  shows "(\<exists>hs n. db' = db\<lparr>proxy_histories := hs, proxy_history_seq := n\<rparr>) \<and>
    (\<forall>h\<in>set (proxy_histories db'). (\<exists>g\<in>set (proxy_histories db). history_core h = history_core g) \<or> (\<exists>x\<in>set rows. history_core h = history_core x))"
  using assms
proof (induction rows arbitrary: ids db)
  case Nil
  then show ?case by (auto intro!: exI [of _ "proxy_histories db"] exI [of _ "proxy_history_seq db"])
next
  case (Cons r rows)
  obtain ids1 db1 where step: "upsert_history w r (ids, db) = (ids1, db1)" by (cases "upsert_history w r (ids, db)")
  with Cons.prems have rest: "fold (upsert_history w) rows (ids1, db1) = (ids', db')" by simp
  have one: "(\<exists>hs n. db1 = db\<lparr>proxy_histories := hs, proxy_history_seq := n\<rparr>) \<and>
      (\<forall>h\<in>set (proxy_histories db1). (\<exists>g\<in>set (proxy_histories db). history_core h = history_core g) \<or> history_core h = history_core r)"
    using step
  proof (cases rule: upsert_history_cases)
    case new
    then show ?thesis by (auto simp: history_core_def)
  next
    case (old f)
    then show ?thesis by (simp add: ball_simps) blast
  qed
  note IH = Cons.IH [OF rest]
  show ?case
  proof (intro conjI ballI)
    from one obtain hs n where db1: "db1 = db\<lparr>proxy_histories := hs, proxy_history_seq := n\<rparr>" by blast
    from IH obtain hs' n' where "db' = db1\<lparr>proxy_histories := hs', proxy_history_seq := n'\<rparr>" by blast
    then have "db' = db\<lparr>proxy_histories := hs', proxy_history_seq := n'\<rparr>" by (simp add: db1)
    then show "\<exists>hs n. db' = db\<lparr>proxy_histories := hs, proxy_history_seq := n\<rparr>" by blast
    fix h assume "h \<in> set (proxy_histories db')"
    with IH consider g where "g \<in> set (proxy_histories db1)" "history_core h = history_core g" | x where "x \<in> set rows" "history_core h = history_core x"
      by blast
    then show "(\<exists>g\<in>set (proxy_histories db). history_core h = history_core g) \<or> (\<exists>x\<in>set (r # rows). history_core h = history_core x)"
    proof cases
      case 1
      with conjunct2 [OF one] show ?thesis by auto
    qed auto
  qed
qed

lemma saved_rows_upgraded:
  assumes "rmap (newJSONProxy ext db) vs = Inr rows" and "x \<in> set (newProxyContractsToSave db rows)"
  shows "\<exists>v\<in>set vs. \<exists>a. er_topic0 v = Some (JStr (upgraded_event ext)) \<and> decodeAddress ext (er_topic1 v) = Some a \<and>
    history_core x = (toLowerCase (er_address v), Some (toLowerCase a), er_tx_hash v, Some (er_block_height v))"
proof -
  from assms(2) have "x \<in> set rows" and some: "ph_implementation_contract x \<noteq> None" by (auto simp: newProxyContractsToSave_def)
  from rmap_inD [OF assms(1) this(1)] obtain v where v: "v \<in> set vs" "newJSONProxy ext db v = Inr x" by blast
  then obtain impl n where o: "event_implementation ext db v = Inr (impl, n)"
    and x: "history_core x = (toLowerCase (er_address v), (let s = toLowerCase (coerce_string impl) in if s = [] then None else Some s),
      er_tx_hash v, Some (er_block_height v))"
    by (auto simp: newJSONProxy_def rbind_eq_Inr history_core_def)
  from some x have "impl \<noteq> None" by (auto simp: history_core_def Let_def coerce_string_def toLowerCase_def split: option.split_asm if_split_asm)
  then obtain a where "impl = Some a" by blast
  with event_implementation_upgraded [of ext db v a n] o x some v(1) show ?thesis
    by (intro bexI [of _ v] exI [of _ a]) (auto simp: history_core_def coerce_string_def Let_def split: if_split_asm)
qed

lemma hand_over_db: "\<exists>rs. fst (hand_over ext type ids db) = db\<lparr>registrations := rs\<rparr>"
  by (auto simp: hand_over_def split: sum.split intro: exI [of _ "registrations db"])

lemma handleTypeProxyContracts_db: "\<exists>rs. fst (handleTypeProxyContracts ext ids db) = db\<lparr>registrations := rs\<rparr>"
proof -
  obtain db1 e where first: "hand_over ext ''ERC20'' ids db = (db1, e)" by (cases "hand_over ext ''ERC20'' ids db")
  with hand_over_db [of ext "''ERC20''" ids db] obtain rs where db1: "db1 = db\<lparr>registrations := rs\<rparr>" by auto
  from hand_over_db [of ext "''ERC721''" ids db1] obtain rs' where "fst (hand_over ext ''ERC721'' ids db1) = db1\<lparr>registrations := rs'\<rparr>" by blast
  with first db1 show ?thesis by (cases e) (auto simp: handleTypeProxyContracts_def)
qed

abbreviation proxy_pos :: "config \<Rightarrow> 'a proxy_db_scheme \<Rightarrow> int" where
  "proxy_pos cfg db \<equiv> job_start cfg HANDLE_EVM_PROXY_HISTORY (block_checkpoint db)"

abbreviation proxy_end :: "config \<Rightarrow> 'a proxy_db_scheme \<Rightarrow> int" where
  "proxy_end cfg db \<equiv> job_end cfg HANDLE_EVM_PROXY_HISTORY (block_checkpoint db)"

lemma proxy_job_cases:
  obtains (failed) e where "proxy_store ext (proxy_pos cfg db) (proxy_end cfg db) db = Inl e" "proxy_history_job cfg ext db = (db, Some e)"
  | (stored) ids db1 rs where "proxy_store ext (proxy_pos cfg db) (proxy_end cfg db) db = Inr (ids, db1)"
      "fst (proxy_history_job cfg ext db) = (saveCheckpoint (job_name HANDLE_EVM_PROXY_HISTORY, proxy_end cfg db) db1)\<lparr>registrations := rs\<rparr>"
proof (cases "proxy_store ext (proxy_pos cfg db) (proxy_end cfg db) db")
  case (Inl e)
  then show ?thesis by (intro failed) (simp_all add: proxy_history_job_def)
next
  case (Inr p)
  obtain ids db1 where "p = (ids, db1)" by (cases p)
  with Inr handleTypeProxyContracts_db [of ext ids "saveCheckpoint (job_name HANDLE_EVM_PROXY_HISTORY, proxy_end cfg db) db1"] show ?thesis
    by (auto simp: proxy_history_job_def intro: stored)
qed

lemma proxy_store_effect:
  assumes "proxy_store ext a b db = Inr (ids, db')"
  obtains rows where "rmap (newJSONProxy ext db) (filter (\<lambda>v. in_range a b (er_block_height v)) (evm_events db)) = Inr rows"
    "\<exists>hs n. db' = db\<lparr>proxy_histories := hs, proxy_history_seq := n\<rparr>"
    "\<forall>h\<in>set (proxy_histories db'). (\<exists>g\<in>set (proxy_histories db). history_core h = history_core g) \<or>
      (\<exists>x\<in>set (newProxyContractsToSave db rows). history_core h = history_core x)"
proof -
  from assms obtain rows where rows: "rmap (newJSONProxy ext db) (filter (\<lambda>v. in_range a b (er_block_height v)) (evm_events db)) = Inr rows"
    and db': "fold (upsert_history (list_ex (\<lambda>h. ph_last_updated_height h \<noteq> None) (mergedProxyContracts (newProxyContractsToSave db rows))))
      (mergedProxyContracts (newProxyContractsToSave db rows)) ([], db) = (ids, db')"
    by (auto simp: proxy_store_def Let_def rbind_eq_Inr)
  note up = upsert_fold [OF db']
  have some: "\<forall>x\<in>set (newProxyContractsToSave db rows). ph_implementation_contract x \<noteq> None" by (simp add: newProxyContractsToSave_def)
  show thesis
  proof (rule that [OF rows conjunct1 [OF up]])
    show "\<forall>h\<in>set (proxy_histories db'). (\<exists>g\<in>set (proxy_histories db). history_core h = history_core g) \<or>
      (\<exists>x\<in>set (newProxyContractsToSave db rows). history_core h = history_core x)"
      using conjunct2 [OF up] merged_core [OF _ some] by metis
  qed
qed

lemma proxy_checkpoint:
  assumes "succeeded (proxy_history_job cfg ext db) = Inr db'"
  shows "block_checkpoint db' = checkpoint_run cfg HANDLE_EVM_PROXY_HISTORY (block_checkpoint db)"
proof -
  from assms have ok: "proxy_history_job cfg ext db = (db', None)"
    by (cases "proxy_history_job cfg ext db") (auto simp: succeeded_def split: option.split_asm)
  show ?thesis
  proof (cases rule: proxy_job_cases [of ext cfg db])
    case (failed e)
    with ok show ?thesis by simp
  next
    case (stored ids db1 rs)
    from stored(1) obtain hs n where "db1 = db\<lparr>proxy_histories := hs, proxy_history_seq := n\<rparr>" by (rule proxy_store_effect) blast
    with stored(2) ok show ?thesis by (simp add: checkpoint_run_def saveCheckpoint_def HANDLE_EVM_PROXY_HISTORY_def skips_def)
  qed
qed

interpretation proxy_job: checkpointed_job cfg HANDLE_EVM_PROXY_HISTORY "\<lambda>db. succeeded (proxy_history_job cfg ext db)"
  for cfg ext
  by unfold_locales (rule proxy_checkpoint)

section \<open>Properties\<close>

definition sample_proxy_ext :: proxy_ext where
  "sample_proxy_ext =
     \<lparr>viem = sample_contract_ext, decodeAddress = (\<lambda>t. case t of Some (JStr s) \<Rightarrow> Some s | _ \<Rightarrow> None), chain_height = Inr 9,
      insertNewContracts = (\<lambda>t cs. Inr ())\<rparr>"

definition sample_proxy_event :: "string \<Rightarrow> json option \<Rightarrow> evm_event_row" where
  "sample_proxy_event topic0 topic1 =
     \<lparr>er_id = 1, er_tx_id = 1, er_evm_tx_id = 1, er_address = ''0xc'', er_topic0 = Some (JStr topic0), er_topic1 = topic1, er_topic2 = None,
      er_topic3 = None, er_data = None, er_block_height = 2, er_tx_hash = ''h1'', er_block_hash = ''b'', er_tx_index = 0\<rparr>"

definition sample_proxy_db :: "evm_event_row list \<Rightarrow> proxy_db" where
  "sample_proxy_db vs =
     \<lparr>block_checkpoint = map_of [(''crawl:smart-contract-evm'', 3)], block_table = [], transaction_table = [],
      transaction_seq = 1, event_table = [], event_seq = 1, message_table = [], message_seq = 1, evm_transactions = [],
      evm_transaction_seq = 1, evm_events = vs, evm_event_seq = 2, evm_internals = [],
      evm_contracts = [\<lparr>evc_id = 4, evc_address = ''0xc'', evc_creator = None, evc_created_height = None, evc_created_hash = None,
        evc_type = Some ''PROXY_EIP_1967'', evc_code_hash = None\<rparr>], evm_contract_seq = 5, verify_jobs = [],
      proxy_histories = [], proxy_history_seq = 1, registrations = []\<rparr>"

text \<open>
  C29. Whatever the run meets, every row of the histories is either one that was there or tells the implementation
  that an upgrade event of the range names, for the contract that emitted it and at its height. Events of
  another kind never lead to a row: the code means to read the storage of a proxy at its first event, but
  passes the slot as a height and gets nothing.
\<close>

theorem proxy_histories_only_upgrades:
  "\<forall>h\<in>set (proxy_histories (fst (proxy_history_job cfg ext db))).
     (\<exists>g\<in>set (proxy_histories db). history_core h = history_core g) \<or>
     (\<exists>v\<in>set (evm_events db). \<exists>a. in_range (proxy_pos cfg db) (proxy_end cfg db) (er_block_height v) \<and>
        er_topic0 v = Some (JStr (upgraded_event ext)) \<and> decodeAddress ext (er_topic1 v) = Some a \<and>
        history_core h = (toLowerCase (er_address v), Some (toLowerCase a), er_tx_hash v, Some (er_block_height v)))"
proof (cases rule: proxy_job_cases [of ext cfg db])
  case (failed e)
  then show ?thesis by auto
next
  case (stored ids db1 rs)
  from stored(1) obtain rows where rows: "rmap (newJSONProxy ext db) (filter (\<lambda>v. in_range (proxy_pos cfg db) (proxy_end cfg db) (er_block_height v)) (evm_events db)) = Inr rows"
    and hs: "\<forall>h\<in>set (proxy_histories db1). (\<exists>g\<in>set (proxy_histories db). history_core h = history_core g) \<or>
      (\<exists>x\<in>set (newProxyContractsToSave db rows). history_core h = history_core x)" by (rule proxy_store_effect)
  have same: "proxy_histories (fst (proxy_history_job cfg ext db)) = proxy_histories db1" by (simp add: stored(2) saveCheckpoint_def)
  show ?thesis unfolding same
  proof
    fix h assume "h \<in> set (proxy_histories db1)"
    with hs consider g where "g \<in> set (proxy_histories db)" "history_core h = history_core g"
      | x where "x \<in> set (newProxyContractsToSave db rows)" "history_core h = history_core x" by blast
    then show "(\<exists>g\<in>set (proxy_histories db). history_core h = history_core g) \<or>
     (\<exists>v\<in>set (evm_events db). \<exists>a. in_range (proxy_pos cfg db) (proxy_end cfg db) (er_block_height v) \<and>
        er_topic0 v = Some (JStr (upgraded_event ext)) \<and> decodeAddress ext (er_topic1 v) = Some a \<and>
        history_core h = (toLowerCase (er_address v), Some (toLowerCase a), er_tx_hash v, Some (er_block_height v)))"
    proof cases
      case 2
      from saved_rows_upgraded [OF rows 2(1)] 2(2) show ?thesis by auto
    qed blast
  qed
qed

theorem proxy_histories_only_upgrades_witness:
  "\<exists>h\<in>set (proxy_histories (fst (proxy_history_job sample_evm_config sample_proxy_ext
      (sample_proxy_db [sample_proxy_event ''Upgraded(address)'' (Some (JStr ''0xD''))])))).
     history_core h = (''0xc'', Some ''0xd'', ''h1'', Some 2)"
proof -
  let ?db = "sample_proxy_db [sample_proxy_event ''Upgraded(address)'' (Some (JStr ''0xD''))]"
  let ?hs = "proxy_histories (fst (proxy_history_job sample_evm_config sample_proxy_ext ?db))"
  have "length ?hs = 1" by code_simp
  then obtain h where h: "h \<in> set ?hs" by (cases ?hs) auto
  with proxy_histories_only_upgrades [of sample_evm_config sample_proxy_ext ?db] obtain v a where "v \<in> set (evm_events ?db)"
    "decodeAddress sample_proxy_ext (er_topic1 v) = Some a"
    "history_core h = (toLowerCase (er_address v), Some (toLowerCase a), er_tx_hash v, Some (er_block_height v))"
    by (auto simp: sample_proxy_db_def)
  moreover have "toLowerCase ''0xD'' = ''0xd''" "toLowerCase ''0xc'' = ''0xc''" by code_simp+
  ultimately have "history_core h = (''0xc'', Some ''0xd'', ''h1'', Some 2)"
    by (auto simp: sample_proxy_db_def sample_proxy_event_def sample_proxy_ext_def)
  with h show ?thesis by blast
qed

text \<open>
  C38. Any contract can stop the job: an event with the topic of an upgrade whose address is not indexed cannot be
  decoded, and the job throws and stores nothing whenever its range has that event.
\<close>

theorem unindexed_upgrade_blocks:
  assumes "v \<in> set (evm_events db)" and "er_topic0 v = Some (JStr (upgraded_event ext))" and "decodeAddress ext (er_topic1 v) = None"
    and "in_range (proxy_pos cfg db) (proxy_end cfg db) (er_block_height v)"
  shows "\<exists>e. proxy_history_job cfg ext db = (db, Some e)"
proof (cases rule: proxy_job_cases [of ext cfg db])
  case (failed e)
  then show ?thesis by blast
next
  case (stored ids db1 rs)
  from stored(1) obtain rows where rows: "rmap (newJSONProxy ext db) (filter (\<lambda>v. in_range (proxy_pos cfg db) (proxy_end cfg db) (er_block_height v)) (evm_events db)) = Inr rows"
    by (rule proxy_store_effect)
  have "v \<in> set (filter (\<lambda>v. in_range (proxy_pos cfg db) (proxy_end cfg db) (er_block_height v)) (evm_events db))" using assms(1,4) by simp
  from rmap_memD [OF rows this] assms(2,3) show ?thesis by (simp add: newJSONProxy_def event_implementation_def)
qed

theorem unindexed_upgrade_blocks_witness:
  "\<exists>e. proxy_history_job sample_evm_config sample_proxy_ext (sample_proxy_db [sample_proxy_event ''Upgraded(address)'' None]) =
     (sample_proxy_db [sample_proxy_event ''Upgraded(address)'' None], Some e)"
proof (rule unindexed_upgrade_blocks)
  show "sample_proxy_event ''Upgraded(address)'' None \<in> set (evm_events (sample_proxy_db [sample_proxy_event ''Upgraded(address)'' None]))"
    by (simp add: sample_proxy_db_def)
  show "er_topic0 (sample_proxy_event ''Upgraded(address)'' None) = Some (JStr (upgraded_event sample_proxy_ext))"
    "decodeAddress sample_proxy_ext (er_topic1 (sample_proxy_event ''Upgraded(address)'' None)) = None"
    by (simp_all add: sample_proxy_event_def sample_proxy_ext_def upgraded_event_def sample_viem_def)
  show "in_range (proxy_pos sample_evm_config (sample_proxy_db [sample_proxy_event ''Upgraded(address)'' None]))
      (proxy_end sample_evm_config (sample_proxy_db [sample_proxy_event ''Upgraded(address)'' None]))
      (er_block_height (sample_proxy_event ''Upgraded(address)'' None))" by code_simp
qed

text \<open>A proxy and a height identify a row, and every proxy is a stored contract.\<close>

definition histories_ok :: "'a proxy_db_scheme \<Rightarrow> bool" where
  "histories_ok db \<longleftrightarrow>
     distinct (map history_key (filter (\<lambda>h. ph_block_height h \<noteq> None) (proxy_histories db))) \<and>
     ph_proxy_contract ` set (proxy_histories db) \<subseteq> evc_address ` set (evm_contracts db)"

lemma upsert_keeps_ok:
  assumes "upsert_history w h (ids, db) = (ids', db')" and "histories_ok db" and "ph_proxy_contract h \<in> evc_address ` set (evm_contracts db)"
  shows "histories_ok db'" and "evm_contracts db' = evm_contracts db"
proof -
  show contracts: "evm_contracts db' = evm_contracts db" using assms(1) by (auto elim!: upsert_history_cases)
  from assms(1) show "histories_ok db'"
  proof (cases rule: upsert_history_cases)
    case new
    then obtain i where hs: "proxy_histories db' = proxy_histories db @ [h\<lparr>ph_id := i\<rparr>]" by blast
    have "history_key h \<notin> history_key ` {g \<in> set (proxy_histories db). ph_block_height g \<noteq> None}" if "ph_block_height h \<noteq> None"
      using new(1) that by (auto simp: find_None_iff same_history_def history_key_def)
    with assms(2,3) show ?thesis by (auto simp: histories_ok_def hs contracts history_key_def)
  next
    case (old f)
    have height: "ph_block_height (f g) = ph_block_height g" "ph_proxy_contract (f g) = ph_proxy_contract g" for g
      using old(2) by (simp_all add: history_key_def)
    have "map history_key (filter (\<lambda>h. ph_block_height h \<noteq> None) (map f hs)) = map history_key (filter (\<lambda>h. ph_block_height h \<noteq> None) hs)" for hs
      using old(2) height by (simp add: filter_map comp_def)
    moreover have "ph_proxy_contract ` set (map f hs) = ph_proxy_contract ` set hs" for hs by (simp add: image_image height)
    ultimately show ?thesis using assms(2) by (simp add: histories_ok_def old(1) contracts)
  qed
qed

lemma upsert_fold_ok:
  assumes "fold (upsert_history w) rows (ids, db) = (ids', db')" and "histories_ok db"
    and "\<forall>h\<in>set rows. ph_proxy_contract h \<in> evc_address ` set (evm_contracts db)"
  shows "histories_ok db'"
  using assms
proof (induction rows arbitrary: ids db)
  case (Cons r rows)
  obtain ids1 db1 where step: "upsert_history w r (ids, db) = (ids1, db1)" by (cases "upsert_history w r (ids, db)")
  with Cons.prems(1) have rest: "fold (upsert_history w) rows (ids1, db1) = (ids', db')" by simp
  have "ph_proxy_contract r \<in> evc_address ` set (evm_contracts db)" using Cons.prems(3) by simp
  note kept = upsert_keeps_ok [OF step Cons.prems(2) this]
  show ?case by (rule Cons.IH [OF rest kept(1)]) (use Cons.prems(3) kept(2) in simp)
qed simp

lemma proxy_store_keeps_ok:
  assumes "proxy_store ext a b db = Inr (ids, db')" and "histories_ok db"
  shows "histories_ok db'"
proof -
  from assms(1) obtain rows where db': "fold (upsert_history (list_ex (\<lambda>h. ph_last_updated_height h \<noteq> None) (mergedProxyContracts (newProxyContractsToSave db rows))))
      (mergedProxyContracts (newProxyContractsToSave db rows)) ([], db) = (ids, db')"
    by (auto simp: proxy_store_def Let_def rbind_eq_Inr)
  have some: "\<forall>x\<in>set (newProxyContractsToSave db rows). ph_implementation_contract x \<noteq> None" by (simp add: newProxyContractsToSave_def)
  have "ph_proxy_contract r \<in> evc_address ` set (evm_contracts db)" if "r \<in> set (mergedProxyContracts (newProxyContractsToSave db rows))" for r
    using merged_core [OF that some] by (auto simp: history_core_def newProxyContractsToSave_def)
  with upsert_fold_ok [OF db' assms(2)] show ?thesis by blast
qed

lemma proxy_db_kept: "proxy_histories (db\<lparr>evm_contracts := cs\<rparr>) = proxy_histories db" by simp

lemma detectEvmProxy_keeps_ok:
  assumes "histories_ok db"
  shows "histories_ok (snd (detectEvmProxy ext a db))"
proof -
  have typed: "evc_address ` set (map (\<lambda>c. if evc_address c = a then c\<lparr>evc_type := t\<rparr> else c) cs) = evc_address ` set cs" for t cs
  proof -
    have "map evc_address (map (\<lambda>c. if evc_address c = a then c\<lparr>evc_type := t\<rparr> else c) cs) = map evc_address cs" by simp
    then show ?thesis by (metis set_map)
  qed
  have stored: "a \<in> evc_address ` set (evm_contracts db)" if "find (\<lambda>c. evc_address c = a) (evm_contracts db) = Some c" for c
    using that by (auto simp: find_Some_iff)
  let ?same = "\<lambda>db1::'a proxy_db_scheme. evc_address ` set (evm_contracts db1) = evc_address ` set (evm_contracts db)"
  have same: "?same (if b then db else db\<lparr>evm_contracts := map (\<lambda>c. if evc_address c = a then c\<lparr>evc_type := t\<rparr> else c) (evm_contracts db)\<rparr>)" for b t
    using typed [of t "evm_contracts db"] by (cases b) simp_all
  have kept: "histories_ok (if b then db else db\<lparr>evm_contracts := map (\<lambda>c. if evc_address c = a then c\<lparr>evc_type := t\<rparr> else c) (evm_contracts db)\<rparr>)" for b t
    using assms same [of b t] by (cases b) (simp_all only: histories_ok_def proxy_db.select_convs proxy_db_kept if_True if_False)
  have added: "histories_ok (db1\<lparr>proxy_histories := proxy_histories db @ [h], proxy_history_seq := n\<rparr>)"
    if "?same db1" "ph_proxy_contract h = a" "ph_block_height h = None" "a \<in> evc_address ` set (evm_contracts db)"
    for db1 :: "'a proxy_db_scheme" and h n
    using assms that by (simp add: histories_ok_def)
  show ?thesis
    unfolding detectEvmProxy_def Let_def
    by (simp only: snd_conv split: sum.split option.split)
      (intro conjI allI impI; (rule assms | rule kept | (rule added [OF same], simp, simp, rule stored, assumption)))
qed

text \<open>The services that touch the histories or the contracts, and everything else.\<close>

inductive proxy_step :: "config \<Rightarrow> proxy_ext \<Rightarrow> 'a proxy_db_scheme \<Rightarrow> 'a proxy_db_scheme \<Rightarrow> bool" for cfg ext where
  histories_run: "db' = fst (proxy_history_job cfg ext db) \<Longrightarrow> proxy_step cfg ext db db'"
| action_run: "db' = snd (detectEvmProxy ext a db) \<Longrightarrow> proxy_step cfg ext db db'"
| contracts_run: "crawl_contract_evm_job cfg (viem ext) db = Inr db' \<Longrightarrow> proxy_step cfg ext db db'"
| other_run: "proxy_histories db' = proxy_histories db \<Longrightarrow> evm_contracts db' = evm_contracts db \<Longrightarrow> proxy_step cfg ext db db'"

lemma proxy_step_ok:
  assumes "proxy_step cfg ext db db'" and "histories_ok db"
  shows "histories_ok db'"
  using assms(1)
proof cases
  case histories_run
  show ?thesis
  proof (cases rule: proxy_job_cases [of ext cfg db])
    case (failed e)
    with histories_run assms(2) show ?thesis by simp
  next
    case (stored ids db1 rs)
    from proxy_store_keeps_ok [OF stored(1) assms(2)] stored(2) histories_run show ?thesis by (simp add: histories_ok_def saveCheckpoint_def)
  qed
next
  case (action_run a)
  with detectEvmProxy_keeps_ok [OF assms(2)] show ?thesis by simp
next
  case contracts_run
  then show ?thesis unfolding crawl_contract_evm_job_def
  proof (cases rule: range_job_cases)
    case skip
    with assms(2) show ?thesis by simp
  next
    case (worked db1)
    from worked(2) obtain new n q where "db1 = db\<lparr>evm_contracts := evm_contracts db @ new, evm_contract_seq := n, verify_jobs := q\<rparr>"
      by (rule contract_work_effect)
    with worked(3) assms(2) show ?thesis by (auto simp: histories_ok_def saveCheckpoint_def)
  qed
next
  case other_run
  with assms(2) show ?thesis by (simp add: histories_ok_def)
qed

text \<open>
  Whatever the history job, the action, the contract crawler and the other services do in whatever order, and
  wherever they throw: no two rows of the histories that have a height have the same proxy and height, and every proxy is a
  stored contract. The rows that the action stores have no height.
\<close>

theorem proxy_histories_kept:
  assumes "(proxy_step cfg ext)\<^sup>*\<^sup>* db0 db" and "histories_ok db0"
  shows "distinct (map history_key (filter (\<lambda>h. ph_block_height h \<noteq> None) (proxy_histories db))) \<and>
    ph_proxy_contract ` set (proxy_histories db) \<subseteq> evc_address ` set (evm_contracts db)"
proof -
  from assms have "histories_ok db" by (induction rule: rtranclp_induct) (auto intro: proxy_step_ok)
  then show ?thesis by (simp add: histories_ok_def)
qed

theorem proxy_histories_kept_witness:
  "let db = fst (proxy_history_job sample_evm_config sample_proxy_ext (sample_proxy_db [sample_proxy_event ''Upgraded(address)'' (Some (JStr ''0xD''))]))
   in proxy_histories db \<noteq> [] \<and> ph_proxy_contract ` set (proxy_histories db) \<subseteq> evc_address ` set (evm_contracts db)"
proof -
  let ?start = "sample_proxy_db [sample_proxy_event ''Upgraded(address)'' (Some (JStr ''0xD''))]"
  let ?db = "fst (proxy_history_job sample_evm_config sample_proxy_ext ?start)"
  have "(proxy_step sample_evm_config sample_proxy_ext)\<^sup>*\<^sup>* ?start ?db" 
    by (rule r_into_rtranclp) (rule histories_run [OF refl])
  moreover have "histories_ok ?start" by (simp add: histories_ok_def sample_proxy_db_def)
  ultimately have "ph_proxy_contract ` set (proxy_histories ?db) \<subseteq> evc_address ` set (evm_contracts ?db)"
    by (rule proxy_histories_kept [THEN conjunct2])
  moreover have "proxy_histories ?db \<noteq> []" by code_simp
  ultimately show ?thesis by (simp add: Let_def)
qed

text \<open>
  The action is idempotent: after it has returned a row, calling it again returns the same row and changes
  nothing, as long as the storage of the contract is the same.
\<close>

theorem detectEvmProxy_idempotent:
  assumes "detectEvmProxy ext a db = (Inr (Some h), db1)"
  shows "detectEvmProxy ext a db1 = (Inr (Some h), db1)"
proof -
  from assms obtain d c where d: "isContractProxy (viem ext) (Some a) None None = Inr (Some d)"
    and c: "find (\<lambda>c. evc_address c = a) (evm_contracts db) = Some c"
    by (auto simp: detectEvmProxy_def split: sum.split_asm option.split_asm)
  let ?set = "\<lambda>c. if evc_address c = a then c\<lparr>evc_type := proxy_EIP d\<rparr> else c"
  let ?P = "\<lambda>h. ph_proxy_contract h = a \<and> ph_implementation_contract h = Some (logicContractAddress d)"
  have idem: "map ?set (map ?set cs) = map ?set cs" for cs by simp
  have find_set: "find (\<lambda>c. evc_address c = a) (map ?set cs) = map_option ?set (find (\<lambda>c. evc_address c = a) cs)" for cs
    by (rule find_map_overwrite) simp
  have types: "evm_contracts db1 = (if truthy (evc_type c) then evm_contracts db else map ?set (evm_contracts db))"
    using assms d c by (auto simp: detectEvmProxy_def Let_def split: option.split_asm sum.split_asm)
  have c1: "find (\<lambda>c. evc_address c = a) (evm_contracts db1) = Some (if truthy (evc_type c) then c else ?set c)"
    using c find_set [of "evm_contracts db"] by (simp add: types)
  have h1: "find ?P (rev (proxy_histories db1)) = Some h"
    using assms d c by (auto simp: detectEvmProxy_def Let_def split: option.split_asm sum.split_asm)
  have "(if truthy (evc_type (if truthy (evc_type c) then c else ?set c)) then db1 else db1\<lparr>evm_contracts := map ?set (evm_contracts db1)\<rparr>) = db1"
    by (simp add: types)
  with d c1 h1 show ?thesis by (simp add: detectEvmProxy_def Let_def)
qed

text \<open>A contract whose code has the slot of the first kind of proxies, and whose storage names another contract.\<close>

definition sample_slot_ext :: proxy_ext where
  "sample_slot_ext = sample_proxy_ext\<lparr>viem := (viem sample_proxy_ext)
     \<lparr>getBytecode := (\<lambda>a. Inr (Some (''0x'' @ fst (hd EIPProxyContractSupportByteCode)))), getStorageAt := (\<lambda>a s n. Inr (Some ''0xd''))\<rparr>\<rparr>"

theorem detectEvmProxy_idempotent_witness:
  "let db = snd (detectEvmProxy sample_slot_ext ''0xc'' (sample_proxy_db [])) in
   detectEvmProxy sample_slot_ext ''0xc'' db = (fst (detectEvmProxy sample_slot_ext ''0xc'' (sample_proxy_db [])), db) \<and>
   map ph_implementation_contract (proxy_histories db) = [Some ''0xd'']"
proof -
  let ?run = "detectEvmProxy sample_slot_ext ''0xc'' (sample_proxy_db [])"
  have returned: "case fst ?run of Inr (Some h) \<Rightarrow> True | _ \<Rightarrow> False" by code_simp
  then obtain h where h: "fst ?run = Inr (Some h)" by (auto split: sum.split_asm option.split_asm)
  then have "?run = (Inr (Some h), snd ?run)" by (metis prod.collapse)
  then have "detectEvmProxy sample_slot_ext ''0xc'' (snd ?run) = (Inr (Some h), snd ?run)" by (rule detectEvmProxy_idempotent)
  moreover have "map ph_implementation_contract (proxy_histories (snd ?run)) = [Some ''0xd'']" by code_simp
  ultimately show ?thesis unfolding Let_def h by simp
qed

end
