(* ===== verification/Pipeline.thy ===== *)
theory Pipeline
  imports Coin_Transfer Votes Erc20_Ledger Erc721_Owners Cw721_Tokens Cw20_Balances Feegrant_History Ibc_Transfers Stake
    Evm_Proxy
begin

text \<open>
  The pipeline of range jobs: every call site of \<^verbatim>\<open>BlockCheckpoint.getCheckpoint\<close> under
  \<^verbatim>\<open>src/services\<close>, as the declaration of a job, and the behaviour of all of them together as a
  relation on the table of checkpoints. A job never passes the jobs it waits for, as long as
  the rows it waits for exist; every job reaches the height of the block crawler when the jobs
  run often enough in the order of their dependencies; and two consequences of the way
  \<open>getCheckpoint\<close> treats missing rows.
\<close>

section \<open>The jobs\<close>

definition CRAWL_VALIDATOR :: job_decl where
  "CRAWL_VALIDATOR =
     \<lparr>job_name = ''crawl:validator'', lastHeightJobNames = [''handle:transaction''],
      configName = None, job_guard = SkipGE\<rparr>"

definition CRAWL_PROPOSAL :: job_decl where
  "CRAWL_PROPOSAL =
     \<lparr>job_name = ''crawl:proposal'', lastHeightJobNames = [''handle:transaction''],
      configName = Some ''crawlProposal'', job_guard = SkipGE\<rparr>"

definition JOB_UPDATE_TX_COUNT_IN_BLOCK :: job_decl where
  "JOB_UPDATE_TX_COUNT_IN_BLOCK =
     \<lparr>job_name = ''job:update-tx-count-in-block'', lastHeightJobNames = [''crawl:block''],
      configName = Some ''jobUpdateTxCountInBlock'', job_guard = SkipGT\<rparr>"

text \<open>All range jobs, each after the jobs it waits for.\<close>

definition all_jobs :: "job_decl list" where
  "all_jobs =
     [CRAWL_TRANSACTION, HANDLE_TRANSACTION, JOB_UPDATE_TX_COUNT_IN_BLOCK, HANDLE_ADDRESS,
      HANDLE_COIN_TRANSFER, HANDLE_AUTHZ_TX, HANDLE_VOTE_TX, CRAWL_VALIDATOR, HANDLE_STAKE_EVENT,
      HANDLE_FEEGRANT, CRAWL_PROPOSAL, CRAWL_IBC_TAO, CRAWL_IBC_APP, CRAWL_IBC_ICS20, CRAWL_CODE,
      CRAWL_SMART_CONTRACT, HANDLE_MIGRATE_CONTRACT, CRAWL_CONTRACT_EVENT, HANDLE_CW20,
      HANDLE_CW721_TRANSACTION, HANDLE_TRANSACTION_EVM, JOB_CRAWL_EVM_EVENT, EVM_CRAWL_INTERNAL_TX,
      CRAWL_SMART_CONTRACT_EVM, HANDLE_EVM_PROXY_HISTORY, HANDLE_ERC20_CONTRACT,
      HANDLE_ERC20_ACTIVITY, HANDLE_ERC20_BALANCE, HANDLE_ERC721_CONTRACT, HANDLE_ERC721_ACTIVITY]"

section \<open>The pipeline as a transition system\<close>

text \<open>
  The block crawler creates its row and moves it forward; a range job runs. A run that throws
  is rolled back and leaves the table as it is.
\<close>

inductive pipeline_step :: "config \<Rightarrow> checkpoint_table \<Rightarrow> checkpoint_table \<Rightarrow> bool" for cfg where
  crawler: "(case tbl CRAWL_BLOCK of None \<Rightarrow> startBlock cfg | Some h \<Rightarrow> h) \<le> h' \<Longrightarrow>
    pipeline_step cfg tbl (tbl(CRAWL_BLOCK \<mapsto> h'))"
| job: "d \<in> set all_jobs \<Longrightarrow> pipeline_step cfg tbl (checkpoint_run cfg d tbl)"

inductive pipeline :: "config \<Rightarrow> checkpoint_table \<Rightarrow> checkpoint_table \<Rightarrow> bool" for cfg tbl0 where
  start: "pipeline cfg tbl0 tbl0"
| step: "pipeline cfg tbl0 tbl \<Longrightarrow> pipeline_step cfg tbl tbl' \<Longrightarrow> pipeline cfg tbl0 tbl'"

text \<open>Every run of a job that meets the checkpoint interface is a step of the pipeline.\<close>

context checkpointed_job
begin

lemma run_is_step:
  "decl \<in> set all_jobs \<Longrightarrow> run db = Inr db' \<Longrightarrow>
    pipeline_step cfg (block_checkpoint db) (block_checkpoint db')"
  by (simp add: run_checkpoint pipeline_step.job)

end

section \<open>No job passes the jobs it waits for\<close>

text \<open>
  A row of a job is not ahead of the row of any job it waits for; while that one has no row, the job
  has none either or one at height 0, and no row is negative.
\<close>

definition ordered :: "checkpoint_table \<Rightarrow> bool" where
  "ordered tbl \<longleftrightarrow> (\<forall>n h. tbl n = Some h \<longrightarrow> 0 \<le> h) \<and>
     (\<forall>d\<in>set all_jobs. \<forall>n\<in>set (lastHeightJobNames d). \<forall>h. tbl (job_name d) = Some h \<longrightarrow>
        (case tbl n of None \<Rightarrow> h = 0 | Some k \<Rightarrow> h \<le> k))"

text \<open>The jobs that wait for several others find the rows of all of them.\<close>

definition rows_present :: "checkpoint_table \<Rightarrow> bool" where
  "rows_present tbl \<longleftrightarrow>
     list_all (\<lambda>d. length (lastHeightJobNames d) = 1 \<or> list_all (\<lambda>n. tbl n \<noteq> None) (lastHeightJobNames d)) all_jobs"

definition config_ok :: "config \<Rightarrow> bool" where
  "config_ok cfg \<longleftrightarrow> 0 \<le> startBlock cfg \<and> (\<forall>k. 0 \<le> blocksPerCall cfg k)"

text \<open>The jobs that do not return early when the end of their range is behind its start.\<close>

definition unguarded_jobs :: "job_decl list" where
  "unguarded_jobs =
     [JOB_CRAWL_EVM_EVENT, HANDLE_EVM_PROXY_HISTORY, HANDLE_ERC20_CONTRACT, HANDLE_ERC20_ACTIVITY,
      HANDLE_ERC20_BALANCE, HANDLE_ERC721_CONTRACT, HANDLE_ERC721_ACTIVITY]"

lemma job_names_distinct: "distinct (map job_name all_jobs)"
  by code_simp

lemma crawler_is_no_job: "CRAWL_BLOCK \<notin> set (map job_name all_jobs)"
  by code_simp

lemma jobs_wait: "d \<in> set all_jobs \<Longrightarrow> lastHeightJobNames d \<noteq> []"
proof -
  have "list_all (\<lambda>d. lastHeightJobNames d \<noteq> []) all_jobs" by code_simp
  then show "d \<in> set all_jobs \<Longrightarrow> lastHeightJobNames d \<noteq> []" by (simp add: list_all_iff)
qed

lemma no_job_waits_for_itself: "d \<in> set all_jobs \<Longrightarrow> job_name d \<notin> set (lastHeightJobNames d)"
proof -
  have "list_all (\<lambda>d. job_name d \<notin> set (lastHeightJobNames d)) all_jobs" by code_simp
  then show "d \<in> set all_jobs \<Longrightarrow> job_name d \<notin> set (lastHeightJobNames d)" by (simp add: list_all_iff)
qed

lemma same_job: "d \<in> set all_jobs \<Longrightarrow> e \<in> set all_jobs \<Longrightarrow> job_name d = job_name e \<Longrightarrow> d = e"
  using job_names_distinct by (auto simp: distinct_map dest: inj_onD)

lemma guarded_jobs: "d \<in> set all_jobs \<Longrightarrow> d \<notin> set unguarded_jobs \<Longrightarrow> job_guard d \<noteq> NoGuard"
proof -
  have declared: "list_all (\<lambda>d. job_guard d = NoGuard \<longrightarrow> job_name d \<in> set (map job_name unguarded_jobs)) all_jobs" by code_simp
  have unguarded: "set unguarded_jobs \<subseteq> set all_jobs" by (auto simp: unguarded_jobs_def all_jobs_def)
  assume d: "d \<in> set all_jobs" "d \<notin> set unguarded_jobs"
  show "job_guard d \<noteq> NoGuard"
  proof
    assume "job_guard d = NoGuard"
    with declared d(1) obtain e where "e \<in> set unguarded_jobs" "job_name d = job_name e"
      unfolding list_all_iff set_map image_iff by blast
    with same_job d unguarded show False by (metis subsetD)
  qed
qed

lemma ordered_job:
  "ordered tbl \<Longrightarrow> d \<in> set all_jobs \<Longrightarrow> n \<in> set (lastHeightJobNames d) \<Longrightarrow> tbl (job_name d) = Some h \<Longrightarrow>
    (case tbl n of None \<Rightarrow> h = 0 | Some k \<Rightarrow> h \<le> k)"
  by (simp add: ordered_def)

text \<open>The end of the range of a job that waits for rows: not negative, and not behind the job's own row.\<close>

lemma job_end_forward:
  assumes "config_ok cfg" and "ordered tbl" and "d \<in> set all_jobs"
  shows "0 \<le> job_end cfg d tbl" and "tbl (job_name d) = Some h \<Longrightarrow> h \<le> job_end cfg d tbl"
proof -
  have start: "0 \<le> job_start cfg d tbl"
    using assms(1,2) by (auto simp: job_start_eq config_ok_def ordered_def split: option.split)
  have per: "0 \<le> blocksPerCall cfg k" for k using assms(1) by (simp add: config_ok_def)
  have "0 \<le> job_end cfg d tbl \<and> (\<forall>h. tbl (job_name d) = Some h \<longrightarrow> h \<le> job_end cfg d tbl)"
  proof (cases "lastHeightCheckpoint tbl (lastHeightJobNames d)")
    case None
    with jobs_wait [OF assms(3)] obtain n where n: "n \<in> set (lastHeightJobNames d)" "tbl n = None"
      by (auto simp: lastHeightCheckpoint_None) (meson list.set_sel(1))
    with None ordered_job [OF assms(2,3) n(1)] show ?thesis by (auto simp: job_end_eq)
  next
    case (Some m)
    from lastHeightCheckpoint_in [OF Some] obtain n where n: "n \<in> set (lastHeightJobNames d)" "tbl n = Some m" by blast
    with assms(2) have "0 \<le> m" by (auto simp: ordered_def)
    moreover have "h \<le> m" if "tbl (job_name d) = Some h" for h using ordered_job [OF assms(2,3) n(1) that] n(2) by simp
    ultimately show ?thesis using Some start per by (auto simp: job_end_eq job_start_eq split: option.split)
  qed
  then show "0 \<le> job_end cfg d tbl" and "tbl (job_name d) = Some h \<Longrightarrow> h \<le> job_end cfg d tbl" by blast+
qed

text \<open>The end of a range lies within every job waited for.\<close>

lemma job_end_within:
  assumes "rows_present tbl" and "d \<in> set all_jobs" and "n \<in> set (lastHeightJobNames d)"
  shows "case tbl n of None \<Rightarrow> job_end cfg d tbl = 0 | Some k \<Rightarrow> job_end cfg d tbl \<le> k"
proof (cases "tbl n")
  case None
  have "length (lastHeightJobNames d) = 1 \<or> list_all (\<lambda>n. tbl n \<noteq> None) (lastHeightJobNames d)"
    using assms(1,2) by (auto simp: rows_present_def list_all_iff)
  with assms(3) None have "lastHeightJobNames d = [n]"
    by (cases "lastHeightJobNames d") (auto simp: list_all_iff)
  with None show ?thesis by (simp add: job_end_eq lastHeightCheckpoint_def)
next
  case (Some k)
  with assms(3) have "job_end cfg d tbl \<le> k" by (rule job_end_le_dependency)
  with Some show ?thesis by simp
qed

text \<open>The rows of a table only grow, and new ones may appear.\<close>

definition rows_grow :: "checkpoint_table \<Rightarrow> checkpoint_table \<Rightarrow> bool" where
  "rows_grow tbl tbl' \<longleftrightarrow> (\<forall>n h. tbl n = Some h \<longrightarrow> (\<exists>h'. tbl' n = Some h' \<and> h \<le> h'))"

lemma rows_grow_refl: "rows_grow tbl tbl"
  by (simp add: rows_grow_def)

lemma rows_grow_trans: "rows_grow t1 t2 \<Longrightarrow> rows_grow t2 t3 \<Longrightarrow> rows_grow t1 t3"
  unfolding rows_grow_def by (meson order_trans)

lemma rows_grow_present: "rows_grow tbl tbl' \<Longrightarrow> rows_present tbl \<Longrightarrow> rows_present tbl'"
  unfolding rows_present_def rows_grow_def list_all_iff by (metis not_None_eq)

lemma behind_grown:
  assumes "rows_grow tbl tbl'" and "\<forall>n h. tbl' n = Some h \<longrightarrow> 0 \<le> h" and "case tbl n of None \<Rightarrow> h = 0 | Some k \<Rightarrow> h \<le> k"
  shows "case tbl' n of None \<Rightarrow> h = 0 | Some k \<Rightarrow> h \<le> k"
  using assms by (cases "tbl n"; cases "tbl' n") (fastforce simp: rows_grow_def)+

text \<open>A step that sets one row, to a height within the rows its owner waits for, keeps the order.\<close>

lemma ordered_update:
  assumes "ordered tbl" and "rows_grow tbl (tbl(m \<mapsto> h'))" and "0 \<le> h'"
    and "\<And>d n. d \<in> set all_jobs \<Longrightarrow> job_name d = m \<Longrightarrow> n \<in> set (lastHeightJobNames d) \<Longrightarrow> (case tbl n of None \<Rightarrow> h' = 0 | Some k \<Rightarrow> h' \<le> k)"
  shows "ordered (tbl(m \<mapsto> h'))"
proof -
  let ?t = "tbl(m \<mapsto> h')"
  have pos: "\<forall>n h. ?t n = Some h \<longrightarrow> 0 \<le> h" using assms(1,3) by (auto simp: ordered_def)
  have "case ?t n of None \<Rightarrow> h = 0 | Some k \<Rightarrow> h \<le> k"
    if "d \<in> set all_jobs" "n \<in> set (lastHeightJobNames d)" "?t (job_name d) = Some h" for d n h
  proof (rule behind_grown [OF assms(2) pos])
    show "case tbl n of None \<Rightarrow> h = 0 | Some k \<Rightarrow> h \<le> k"
    proof (cases "job_name d = m")
      case True
      with that(3) have "h = h'" by simp
      with assms(4) [OF that(1) True that(2)] show ?thesis by (simp only:)
    next
      case False
      with ordered_job [OF assms(1) that(1,2)] that(3) show ?thesis by simp
    qed
  qed
  with pos show ?thesis unfolding ordered_def by blast
qed

text \<open>How far a job has come: its row, or the configured start.\<close>

abbreviation position :: "config \<Rightarrow> checkpoint_table \<Rightarrow> job_decl \<Rightarrow> int" where
  "position cfg tbl d \<equiv> job_start cfg d tbl"

lemma pipeline_step_ordered:
  assumes "config_ok cfg" and "pipeline_step cfg tbl tbl'" and "ordered tbl" and "rows_present tbl"
  shows "ordered tbl' \<and> rows_grow tbl tbl' \<and>
    (\<forall>d\<in>set all_jobs. d \<notin> set unguarded_jobs \<longrightarrow> position cfg tbl d \<le> position cfg tbl' d)"
  using assms(2)
proof cases
  case (crawler h')
  have "0 \<le> (case tbl CRAWL_BLOCK of None \<Rightarrow> startBlock cfg | Some h \<Rightarrow> h)"
    using assms(1) conjunct1 [OF assms(3) [unfolded ordered_def]] by (simp add: config_ok_def split: option.split)
  with crawler(2) have "0 \<le> h'" by linarith
  moreover have grow: "rows_grow tbl tbl'" using crawler by (auto simp: rows_grow_def)
  moreover have "job_name d \<noteq> CRAWL_BLOCK" if "d \<in> set all_jobs" for d
    using that crawler_is_no_job by (metis image_eqI set_map)
  ultimately have "ordered tbl'" unfolding crawler(1) by (intro ordered_update [OF assms(3)]) blast+
  moreover have "position cfg tbl d \<le> position cfg tbl' d" if "d \<in> set all_jobs" for d
  proof -
    have "job_name d \<noteq> CRAWL_BLOCK" using that crawler_is_no_job by (metis image_eqI set_map)
    then show ?thesis by (simp add: crawler(1) job_start_eq)
  qed
  ultimately show ?thesis using grow by blast
next
  case (job d)
  note fwd = job_end_forward [OF assms(1,3) job(2)]
  have mono: "position cfg tbl e \<le> position cfg tbl' e" if "e \<in> set all_jobs" "e \<notin> set unguarded_jobs" for e
  proof (cases "job_name e = job_name d")
    case True
    with same_job [OF that(1) job(2)] checkpoint_run_mono [OF guarded_jobs [OF that]] show ?thesis by (simp add: job(1))
  next
    case False
    then show ?thesis by (simp add: job(1) job_start_eq checkpoint_run_other)
  qed
  show ?thesis
  proof (cases "skips (job_guard d) (job_start cfg d tbl) (job_end cfg d tbl)")
    case True
    then have "tbl' = tbl" by (simp add: job(1) checkpoint_run_def)
    with assms(3) rows_grow_refl show ?thesis by simp
  next
    case False
    then have tbl': "tbl' = tbl(job_name d \<mapsto> job_end cfg d tbl)" by (simp add: job(1) checkpoint_run_def)
    then have grow: "rows_grow tbl tbl'" using fwd(2) by (auto simp: rows_grow_def)
    moreover have "ordered tbl'"
      unfolding tbl'
      by (rule ordered_update [OF assms(3) grow [unfolded tbl'] fwd(1)])
        (use job_end_within [OF assms(4)] same_job job(2) in metis)
    ultimately show ?thesis using mono by blast
  qed
qed

text \<open>
  C1. However the block crawler and all range jobs interleave, starting from a table in which it holds
  and in which the jobs that wait for several others find the rows of all of them: no row of a job is
  ever ahead of the row of a job it waits for (and while that one has no row, it is at height 0), no
  row ever moves back, and no job that returns early on an empty range ever falls behind the height
  it would start from, be it its row or the configured start.
\<close>

theorem pipeline_ordered:
  assumes "config_ok cfg" and "ordered tbl0" and "rows_present tbl0" and "pipeline cfg tbl0 tbl"
  shows "ordered tbl \<and> rows_grow tbl0 tbl \<and>
    (\<forall>d\<in>set all_jobs. d \<notin> set unguarded_jobs \<longrightarrow> position cfg tbl0 d \<le> position cfg tbl d)"
proof -
  let ?mono = "\<lambda>t t'. \<forall>d\<in>set all_jobs. d \<notin> set unguarded_jobs \<longrightarrow> position cfg t d \<le> position cfg t' d"
  have "ordered tbl \<and> rows_present tbl \<and> rows_grow tbl0 tbl \<and> ?mono tbl0 tbl"
    using assms(4)
  proof (induction rule: pipeline.induct)
    case start
    with assms(2,3) rows_grow_refl show ?case by simp
  next
    case (step tbl tbl')
    then have IH: "ordered tbl" "rows_present tbl" "rows_grow tbl0 tbl" "?mono tbl0 tbl" by blast+
    from pipeline_step_ordered [OF assms(1) step.hyps(2) IH(1,2)]
    have "ordered tbl'" "rows_grow tbl tbl'" "?mono tbl tbl'" by blast+
    with IH rows_grow_trans rows_grow_present show ?case by (meson order_trans)
  qed
  then show ?thesis by blast
qed

definition sample_pipeline_config :: config where
  "sample_pipeline_config = \<lparr>startBlock = 5, blocksPerCall = (\<lambda>_. 100)\<rparr>"

definition sample_table :: checkpoint_table where
  "sample_table = map_of (map (\<lambda>d. (job_name d, 10)) all_jobs @ [(CRAWL_BLOCK, 20)])"

lemma sample_config_ok: "config_ok sample_pipeline_config"
  by (simp add: config_ok_def sample_pipeline_config_def)

lemma sample_table_ordered: "ordered sample_table" "rows_present sample_table"
proof -
  have rows: "h = 10 \<or> h = 20" if "sample_table n = Some h" for n h
    using map_of_SomeD [OF that [unfolded sample_table_def]] by auto
  have deps: "list_all (\<lambda>d. list_all (\<lambda>n. case sample_table n of None \<Rightarrow> False | Some k \<Rightarrow> 10 \<le> k) (lastHeightJobNames d) \<and>
      sample_table (job_name d) = Some 10) all_jobs" by code_simp
  have "0 \<le> h" if "sample_table n = Some h" for n h using rows [OF that] by auto
  moreover have "case sample_table n of None \<Rightarrow> h = 0 | Some k \<Rightarrow> h \<le> k"
    if "d \<in> set all_jobs" "n \<in> set (lastHeightJobNames d)" "sample_table (job_name d) = Some h" for d n h
    using deps that by (auto simp: list_all_iff split: option.splits)
  ultimately show "ordered sample_table" unfolding ordered_def by blast
  show "rows_present sample_table" by code_simp
qed

theorem pipeline_ordered_witness:
  "let tbl = checkpoint_run sample_pipeline_config CRAWL_TRANSACTION sample_table in
   position sample_pipeline_config sample_table CRAWL_TRANSACTION = 10 \<and>
   10 \<le> position sample_pipeline_config tbl CRAWL_TRANSACTION \<and> ordered tbl"
proof -
  let ?tbl = "checkpoint_run sample_pipeline_config CRAWL_TRANSACTION sample_table"
  have job: "CRAWL_TRANSACTION \<in> set all_jobs" by (simp add: all_jobs_def)
  then have "pipeline sample_pipeline_config sample_table ?tbl"
    by (intro pipeline.step [OF pipeline.start] pipeline_step.job)
  from pipeline_ordered [OF sample_config_ok sample_table_ordered this] job
  have "ordered ?tbl" "CRAWL_TRANSACTION \<notin> set unguarded_jobs \<Longrightarrow>
      position sample_pipeline_config sample_table CRAWL_TRANSACTION \<le> position sample_pipeline_config ?tbl CRAWL_TRANSACTION"
    by blast+
  moreover have "position sample_pipeline_config sample_table CRAWL_TRANSACTION = 10" "job_name CRAWL_TRANSACTION \<notin> set (map job_name unguarded_jobs)"
    by code_simp+
  ultimately show ?thesis by (auto simp: Let_def)
qed

section \<open>Every job catches up\<close>

text \<open>The jobs of a list come after the jobs they wait for, which are in the list or given.\<close>

primrec topological :: "string list \<Rightarrow> job_decl list \<Rightarrow> bool" where
  "topological given [] = True"
| "topological given (d # ds) =
     (list_all (\<lambda>n. n \<in> set given) (lastHeightJobNames d) \<and> lastHeightJobNames d \<noteq> [] \<and>
      job_name d \<notin> set given \<and> topological (job_name d # given) ds)"

lemma topological_fresh: "topological given ds \<Longrightarrow> e \<in> set ds \<Longrightarrow> job_name e \<notin> set given"
  by (induction ds arbitrary: given) fastforce+

lemma job_end_settled:
  assumes "list_all (\<lambda>n. tbl n = Some H) (lastHeightJobNames d)" and "lastHeightJobNames d \<noteq> []"
  shows "job_end cfg d tbl = (case configName d of None \<Rightarrow> H | Some k \<Rightarrow> min (job_start cfg d tbl + blocksPerCall cfg k) H)"
proof -
  from assms have "lastHeightCheckpoint tbl (lastHeightJobNames d) \<noteq> None"
    by (cases "lastHeightJobNames d") (auto simp: lastHeightCheckpoint_None)
  then obtain h where h: "lastHeightCheckpoint tbl (lastHeightJobNames d) = Some h" by blast
  with lastHeightCheckpoint_in [OF h] assms(1) have "h = H" by (auto simp: list_all_iff)
  with h show ?thesis by (simp add: job_end_eq)
qed

text \<open>How far \<open>k\<close> runs of a job bring it while the jobs it waits for stand at \<open>H\<close>.\<close>

lemma runs_of_a_job:
  assumes "config_ok cfg" and "list_all (\<lambda>n. tbl n = Some H) (lastHeightJobNames d)"
    and "lastHeightJobNames d \<noteq> []" and "job_name d \<notin> set (lastHeightJobNames d)"
    and "job_start cfg d tbl \<le> H"
  shows "(\<forall>n. n \<noteq> job_name d \<longrightarrow> (checkpoint_run cfg d ^^ k) tbl n = tbl n) \<and>
    job_start cfg d ((checkpoint_run cfg d ^^ k) tbl) \<le> H \<and>
    (case configName d of
       None \<Rightarrow> 0 < k \<longrightarrow> job_start cfg d ((checkpoint_run cfg d ^^ k) tbl) = H
     | Some c \<Rightarrow> min (job_start cfg d tbl + int k * blocksPerCall cfg c) H \<le> job_start cfg d ((checkpoint_run cfg d ^^ k) tbl))"
proof (induction k)
  case 0
  with assms(5) show ?case by (simp split: option.split)
next
  case (Suc k)
  let ?t = "(checkpoint_run cfg d ^^ k) tbl"
  have deps: "list_all (\<lambda>n. ?t n = Some H) (lastHeightJobNames d)"
    using Suc assms(2,4) by (simp add: list_all_iff) metis
  note endH = job_end_settled [OF deps assms(3), of cfg]
  have pos: "0 \<le> blocksPerCall cfg c" for c using assms(1) by (simp add: config_ok_def)
  have "job_start cfg d ?t \<le> job_end cfg d ?t" using Suc pos by (simp add: endH split: option.split)
  then have "job_start cfg d (checkpoint_run cfg d ?t) = job_end cfg d ?t"
    by (cases "job_guard d") (auto simp: job_start_checkpoint_run skips_def)
  then have next_start: "job_start cfg d (checkpoint_run cfg d ?t) = (case configName d of None \<Rightarrow> H
      | Some c \<Rightarrow> min (job_start cfg d ?t + blocksPerCall cfg c) H)"
    by (simp only: endH)
  show ?case
  proof (cases "configName d")
    case None
    with Suc show ?thesis by (simp add: next_start checkpoint_run_other)
  next
    case (Some c)
    with Suc pos [of c] show ?thesis by (simp add: next_start checkpoint_run_other min_def algebra_simps split: if_splits)
  qed
qed

definition enough_runs :: "config \<Rightarrow> int \<Rightarrow> nat \<Rightarrow> checkpoint_table \<Rightarrow> job_decl \<Rightarrow> bool" where
  "enough_runs cfg H k tbl d \<longleftrightarrow> job_start cfg d tbl \<le> H \<and> 0 < k \<and>
     (case configName d of None \<Rightarrow> True | Some c \<Rightarrow> H \<le> job_start cfg d tbl + int k * blocksPerCall cfg c)"

lemma job_reaches:
  assumes "config_ok cfg" and "list_all (\<lambda>n. tbl n = Some H) (lastHeightJobNames d)"
    and "lastHeightJobNames d \<noteq> []" and "job_name d \<notin> set (lastHeightJobNames d)"
    and "enough_runs cfg H k tbl d" and "startBlock cfg < H"
  shows "(checkpoint_run cfg d ^^ k) tbl (job_name d) = Some H"
proof -
  have "job_start cfg d ((checkpoint_run cfg d ^^ k) tbl) = H"
    using runs_of_a_job [OF assms(1-4), of k] assms(5)
    by (auto simp: enough_runs_def min_def split: option.splits if_splits)
  with assms(6) show ?thesis by (auto simp: job_start_eq split: option.splits)
qed

text \<open>Runs of a job of which some throw; a run that throws leaves the table as it is.\<close>

definition tries :: "config \<Rightarrow> job_decl \<Rightarrow> bool list \<Rightarrow> checkpoint_table \<Rightarrow> checkpoint_table" where
  "tries cfg d oks = fold (\<lambda>ok tbl. if ok then checkpoint_run cfg d tbl else tbl) oks"

definition successes :: "bool list \<Rightarrow> nat" where
  "successes oks = length (filter id oks)"

lemma tries_eq: "tries cfg d oks tbl = (checkpoint_run cfg d ^^ successes oks) tbl"
  by (induction oks arbitrary: tbl) (simp_all add: tries_def successes_def funpow_swap1)

lemma jobs_reach:
  assumes "config_ok cfg" and "startBlock cfg < H" and "topological given ds"
    and "\<forall>n\<in>set given. tbl n = Some H" and "\<forall>d\<in>set ds. enough_runs cfg H (successes (oks d)) tbl d"
  shows "\<forall>n\<in>set given \<union> set (map job_name ds). fold (\<lambda>d. tries cfg d (oks d)) ds tbl n = Some H"
  using assms(3-5)
proof (induction ds arbitrary: given tbl)
  case (Cons d ds)
  let ?t = "tries cfg d (oks d) tbl"
  have deps: "list_all (\<lambda>n. tbl n = Some H) (lastHeightJobNames d)" and ne: "lastHeightJobNames d \<noteq> []"
    and self: "job_name d \<notin> set (lastHeightJobNames d)"
    using Cons.prems by (auto simp: list_all_iff)
  have "job_start cfg d tbl \<le> H" using Cons.prems(3) by (simp add: enough_runs_def)
  note other = conjunct1 [OF runs_of_a_job [OF assms(1) deps ne self this, of "successes (oks d)"], folded tries_eq]
  have "?t (job_name d) = Some H"
    unfolding tries_eq using Cons.prems(3) by (intro job_reaches [OF assms(1) deps ne self _ assms(2)]) simp
  moreover have "?t n = Some H" if "n \<in> set given" for n
    using that other Cons.prems(1,2) by (metis topological.simps(2))
  ultimately have given: "\<forall>n\<in>set (job_name d # given). ?t n = Some H" by simp
  have "job_name e \<noteq> job_name d" if "e \<in> set ds" for e
    using that Cons.prems(1) topological_fresh [of "job_name d # given" ds e] by simp
  then have "job_start cfg e ?t = job_start cfg e tbl" if "e \<in> set ds" for e
    using that other by (simp add: job_start_eq)
  then have "\<forall>e\<in>set ds. enough_runs cfg H (successes (oks e)) ?t e"
    using Cons.prems(3) by (auto simp: enough_runs_def split: option.split)
  from Cons.IH [OF _ given this] Cons.prems(1) show ?case by simp
qed simp

text \<open>
  C10. Jobs catch up with the block crawler as far as their runs succeed: once the crawler stands at a height
  above the configured start, take any of the jobs together with all the jobs they wait for and run
  them in the order of the dependencies; if each of them has, among runs that throw and change
  nothing, enough runs that do not throw to cover its backlog, the checkpoint of each of them is
  brought to that height, whatever becomes of the other jobs.
\<close>

theorem pipeline_catches_up:
  assumes "config_ok cfg" and "tbl CRAWL_BLOCK = Some H" and "startBlock cfg < H"
    and "set ds \<subseteq> set all_jobs" and "topological [CRAWL_BLOCK] ds"
    and "\<forall>d\<in>set ds. enough_runs cfg H (successes (oks d)) tbl d"
  shows "\<forall>d\<in>set ds. fold (\<lambda>d. tries cfg d (oks d)) ds tbl (job_name d) = Some H"
  using jobs_reach [OF assms(1,3,5) _ assms(6)] assms(2) by simp

text \<open>
  All jobs but that of the CW-20 tokens, which throws on a new database, and one run that throws for
  each of them.
\<close>

definition sample_caught_up :: "job_decl list" where
  "sample_caught_up = filter (\<lambda>d. job_name d \<noteq> ''handle:cw20'') all_jobs"

theorem pipeline_catches_up_witness:
  "fold (\<lambda>d. tries sample_pipeline_config d [False, True, True, False, True]) sample_caught_up [CRAWL_BLOCK \<mapsto> 200]
     (job_name HANDLE_ERC721_ACTIVITY) = Some 200"
proof -
  have "list_all (enough_runs sample_pipeline_config 200 (successes [False, True, True, False, True]) [CRAWL_BLOCK \<mapsto> 200]) sample_caught_up"
    "topological [CRAWL_BLOCK] sample_caught_up" by code_simp+
  then have all: "\<forall>d\<in>set sample_caught_up. fold (\<lambda>d. tries sample_pipeline_config d [False, True, True, False, True]) sample_caught_up
      [CRAWL_BLOCK \<mapsto> 200] (job_name d) = Some 200"
    unfolding list_all_iff
    by (intro pipeline_catches_up [OF sample_config_ok])
      (simp_all add: sample_caught_up_def sample_pipeline_config_def del: filter.simps)
  have "HANDLE_ERC721_ACTIVITY \<in> set all_jobs" by (simp add: all_jobs_def)
  moreover have "job_name HANDLE_ERC721_ACTIVITY \<noteq> ''handle:cw20''" by code_simp
  ultimately have "HANDLE_ERC721_ACTIVITY \<in> set sample_caught_up" unfolding sample_caught_up_def set_filter by blast
  with all show ?thesis by (rule bspec)
qed

section \<open>Missing rows\<close>

text \<open>
  A job that waits for two jobs of which one has never run does not wait for that one: with
  transactions handled up to height 100 and no validator crawled, the staking event job runs
  over the heights up to 100 and stands there, while the validator job is still at the start.
\<close>

theorem missing_dependency_ignored:
  "let cfg = \<lparr>startBlock = 0, blocksPerCall = (\<lambda>_. 100)\<rparr>;
       tbl = [''handle:transaction'' \<mapsto> 100];
       tbl' = checkpoint_run cfg HANDLE_STAKE_EVENT tbl
   in pipeline_step cfg tbl tbl' \<and> position cfg tbl' HANDLE_STAKE_EVENT = 100 \<and>
      position cfg tbl' CRAWL_VALIDATOR = 0 \<and> \<not> ordered tbl'"
proof -
  let ?cfg = "\<lparr>startBlock = 0, blocksPerCall = (\<lambda>_. 100)\<rparr>"
  let ?tbl = "[''handle:transaction'' \<mapsto> 100 :: int]"
  let ?tbl' = "checkpoint_run ?cfg HANDLE_STAKE_EVENT ?tbl"
  have job: "HANDLE_STAKE_EVENT \<in> set all_jobs" by (simp add: all_jobs_def)
  then have "pipeline_step ?cfg ?tbl ?tbl'" by (rule pipeline_step.job)
  moreover have facts: "?tbl' (job_name HANDLE_STAKE_EVENT) = Some 100" "?tbl' ''crawl:validator'' = None"
    "''crawl:validator'' \<in> set (lastHeightJobNames HANDLE_STAKE_EVENT)"
    "position ?cfg ?tbl' HANDLE_STAKE_EVENT = 100" "position ?cfg ?tbl' CRAWL_VALIDATOR = 0"
    by code_simp+
  moreover have "\<not> ordered ?tbl'"
    using ordered_job [of ?tbl' HANDLE_STAKE_EVENT "''crawl:validator''" 100] job facts(1-3) by auto
  ultimately show ?thesis by (simp add: Let_def)
qed

text \<open>
  A job without a guard does not wait for a job that has never run: it stores the checkpoint
  0, below the configured start, and its next run begins at 0.
\<close>

theorem unguarded_job_stores_zero:
  assumes "d \<in> set unguarded_jobs"
    and "list_all (\<lambda>n. tbl n = None) (lastHeightJobNames d)"
  shows "checkpoint_run cfg d tbl (job_name d) = Some 0 \<and> job_start cfg d (checkpoint_run cfg d tbl) = 0"
proof -
  have "job_guard d = NoGuard"
    using assms(1) by (auto simp: unguarded_jobs_def JOB_CRAWL_EVM_EVENT_def HANDLE_EVM_PROXY_HISTORY_def HANDLE_ERC20_CONTRACT_def
        HANDLE_ERC20_ACTIVITY_def HANDLE_ERC20_BALANCE_def HANDLE_ERC721_CONTRACT_def HANDLE_ERC721_ACTIVITY_def)
  moreover have "lastHeightCheckpoint tbl (lastHeightJobNames d) = None"
    using assms(2) by (simp add: lastHeightCheckpoint_None list_all_iff)
  then have "job_end cfg d tbl = 0" by (simp add: job_end_eq)
  ultimately show ?thesis by (simp add: checkpoint_run_def skips_def job_start_eq)
qed

theorem unguarded_job_stores_zero_witness:
  "job_start sample_pipeline_config HANDLE_ERC20_CONTRACT Map.empty = 5 \<and>
   job_start sample_pipeline_config HANDLE_ERC20_CONTRACT
     (checkpoint_run sample_pipeline_config HANDLE_ERC20_CONTRACT Map.empty) = 0"
  using unguarded_job_stores_zero [of HANDLE_ERC20_CONTRACT Map.empty sample_pipeline_config]
  by (simp add: unguarded_jobs_def job_start_eq sample_pipeline_config_def list_all_iff)

end
