(* ===== verification/Cw721_Reindex.thy ===== *)
theory Cw721_Reindex
  imports Cw721_Tokens Pages
begin

text \<open>
  Reindexing of CW-721 contracts: the paged job \<open>crawlMissingContractHistory\<close> of
  \<^verbatim>\<open>src/services/cw721/cw721.service.ts\<close>, which queues itself with the next page until no event is left,
  the service \<^verbatim>\<open>src/services/cw721/cw721-reindexing.service.ts\<close> that starts it, and the owners of all
  tokens that \<^verbatim>\<open>src/models/cw721_contract.ts\<close> asks a contract for.
\<close>

section \<open>State and parameters\<close>

text \<open>The queue of contracts to reindex: the job's id, which is the address, with its payload.\<close>

record 'c cw721_reindex_db = "'c cw721_db" +
  cw721_reindex_jobs :: "(string \<times> int \<times> string) list"

record token_owner =
  to_owner :: string
  to_token_id :: string
  to_last_updated_height :: int

text \<open>The messages \<open>all_tokens\<close> and \<open>owner_of\<close>; an owner comes with the height of the answer.\<close>

record cw721_query = cw721_ext +
  all_tokens :: "string \<Rightarrow> string option \<Rightarrow> string list res"
  owner_of :: "string \<Rightarrow> string \<Rightarrow> (string \<times> int) res"

record history_params =
  hp_smartContractId :: int
  hp_startBlock :: int
  hp_endBlock :: "int option"
  hp_contractAddress :: string

definition getAllTokensOwner :: "'x cw721_query_scheme \<Rightarrow> string \<Rightarrow> token_owner list res option" where
  "getAllTokensOwner ext contractAddress =
     map_option (\<lambda>r. rbind r (rmap (\<lambda>i.
         rbind (owner_of ext contractAddress i) (\<lambda>(owner, height).
           Inr \<lparr>to_owner = owner, to_token_id = i, to_last_updated_height = height\<rparr>))))
       (all_pages (all_tokens ext contractAddress) None [])"

section \<open>The paged history\<close>

text \<open>The activities of a page are stored; the tokens that the replay changed are not.\<close>

definition history_page ::
  "int \<Rightarrow> cw721_msg list \<Rightarrow> ('c, 'a) cw721_db_scheme \<Rightarrow> ('c, 'a) cw721_db_scheme res"
where
  "history_page smartContractId events db =
     rbind (handleCw721MsgExec events db) (\<lambda>(_, acts).
       let toks = filter (\<lambda>t. case find (\<lambda>n. n_id n = tk_cw721_contract_id t) (cw721_contracts db) of
                     None \<Rightarrow> False
                   | Some n \<Rightarrow> n_contract_id n = smartContractId \<and> cw721_address db n \<noteq> None) (cw721_tokens db) in
       rfold insert_cw721_activity (map (link_activity toks) acts) db)"

definition history_events :: "history_params \<Rightarrow> (int \<times> nat) option \<Rightarrow> ('c, 'a) cw721_db_scheme \<Rightarrow> cw721_msg list" where
  "history_events p page db =
     (case hp_endBlock p of
        None \<Rightarrow> []
      | Some e \<Rightarrow> getCw721ContractEvents (hp_startBlock p) e (Some (hp_smartContractId p)) page db)"

definition remove_reindex_job :: "string \<Rightarrow> ('c, 'a) cw721_reindex_db_scheme \<Rightarrow> ('c, 'a) cw721_reindex_db_scheme" where
  "remove_reindex_job addr db =
     db\<lparr>cw721_reindex_jobs := filter (\<lambda>(a, _). a \<noteq> addr) (cw721_reindex_jobs db)\<rparr>"

text \<open>The job that it creates for the next page is the id with which that page starts.\<close>

definition crawlMissingContractHistory ::
  "nat \<Rightarrow> history_params \<Rightarrow> int \<Rightarrow> ('c, 'a) cw721_reindex_db_scheme \<Rightarrow>
    (('c, 'a) cw721_reindex_db_scheme \<times> int option) res"
where
  "crawlMissingContractHistory limitRecordGet p prevId db =
     (let events = history_events p (Some (prevId, limitRecordGet)) db in
      if events = [] then Inr (remove_reindex_job (hp_contractAddress p) db, None)
      else rbind (history_page (hp_smartContractId p) events db) (\<lambda>db'.
             Inr (db', Some (m_smart_contract_event_id (last events)))))"

section \<open>The reindexing service\<close>

definition cw721_contract_at :: "string \<Rightarrow> ('c, 'a) cw721_db_scheme \<Rightarrow> cw721_contract option" where
  "cw721_contract_at addr db = find (\<lambda>n. cw721_address db n = Some addr) (cw721_contracts db)"

definition delete_cw721_contract :: "int \<Rightarrow> ('c, 'a) cw721_db_scheme \<Rightarrow> ('c, 'a) cw721_db_scheme" where
  "delete_cw721_contract i db =
     db\<lparr>cw721_activities := filter (\<lambda>a. v_cw721_contract_id a \<noteq> i) (cw721_activities db),
        cw721_stats := filter (\<lambda>s. cs_cw721_contract_id s \<noteq> i) (cw721_stats db),
        cw721_tokens := filter (\<lambda>t. tk_cw721_contract_id t \<noteq> i) (cw721_tokens db),
        cw721_contracts := filter (\<lambda>n. n_id n \<noteq> i) (cw721_contracts db)\<rparr>"

definition min_or_zero :: "int list \<Rightarrow> int" where
  "min_or_zero hs = (case hs of [] \<Rightarrow> 0 | h # hs \<Rightarrow> fold min hs h)"

definition max_or_zero :: "int list \<Rightarrow> int" where
  "max_or_zero hs = (case hs of [] \<Rightarrow> 0 | h # hs \<Rightarrow> fold max hs h)"

definition owner_token :: "int \<Rightarrow> token_owner \<Rightarrow> cw721_token" where
  "owner_token contractId o1 =
     \<lparr>tk_id = None, tk_token_id = to_token_id o1, tk_media_info = None, tk_owner = Some (to_owner o1),
      tk_cw721_contract_id = contractId, tk_last_updated_height = to_last_updated_height o1, tk_burned = False\<rparr>"

text \<open>
  The rows of the contract are deleted and rebuilt without a transaction, so an error leaves what was
  done before it. The last component is the history job that is created at the end.
\<close>

definition reindex_with_owners ::
  "config \<Rightarrow> 'x cw721_query_scheme \<Rightarrow> int \<Rightarrow> string \<Rightarrow> token_owner list \<Rightarrow> ('c, 'a) cw721_db_scheme \<Rightarrow>
    ('c, 'a) cw721_db_scheme outcome \<times> history_params option"
where
  "reindex_with_owners cfg ext smartContractId addr currentTokensOwner db =
     (let minHeight = min_or_zero (map to_last_updated_height currentTokensOwner);
          maxHeight = max_or_zero (map to_last_updated_height currentTokensOwner);
          db1 = (case cw721_contract_at addr db of None \<Rightarrow> db | Some n \<Rightarrow> delete_cw721_contract (n_id n) db);
          newId = cw721_contract_seq db1 in
      case insert_cw721_contract (cw721_contract_of (cw721_contract_info ext addr) smartContractId) db1 of
        Inl e \<Rightarrow> ((db1, Some e), None)
      | Inr db2 \<Rightarrow>
          (case upsert_cw721_tokens (map (owner_token newId) currentTokensOwner) db2 of
             Inl e \<Rightarrow> ((db2, Some e), None)
           | Inr (db3, _) \<Rightarrow>
               (case handleRangeBlockMissingContract smartContractId minHeight maxHeight db3 of
                  Inl e \<Rightarrow> ((db3, Some e), None)
                | Inr db4 \<Rightarrow>
                    ((db4, None), Some \<lparr>hp_smartContractId = smartContractId, hp_startBlock = startBlock cfg,
                       hp_endBlock = Some maxHeight, hp_contractAddress = addr\<rparr>))))"

text \<open>\<open>None\<close> as a whole is a contract that never stops answering with tokens.\<close>

definition handleReindexAll ::
  "config \<Rightarrow> 'x cw721_query_scheme \<Rightarrow> int \<Rightarrow> string \<Rightarrow> ('c, 'a) cw721_db_scheme \<Rightarrow>
    (('c, 'a) cw721_db_scheme outcome \<times> history_params option) option"
where
  "handleReindexAll cfg ext smartContractId addr db =
     map_option (\<lambda>owners. case owners of
        Inl e \<Rightarrow> ((db, Some e), None)
      | Inr currentTokensOwner \<Rightarrow> reindex_with_owners cfg ext smartContractId addr currentTokensOwner db)
       (getAllTokensOwner ext addr)"

text \<open>The greatest height of all activities, of whatever contract; without any it is null.\<close>

definition handleReindexHistory ::
  "config \<Rightarrow> int \<Rightarrow> string \<Rightarrow> ('c, 'a) cw721_db_scheme \<Rightarrow> (('c, 'a) cw721_db_scheme \<times> history_params) res"
where
  "handleReindexHistory cfg smartContractId addr db =
     (case cw721_contract_at addr db of
        None \<Rightarrow> Inl NotFoundError
      | Some n \<Rightarrow>
          (let currentHeight = (if cw721_activities db = [] then None
                                else Some (max_or_zero (map v_height (cw721_activities db)))) in
           Inr (db\<lparr>cw721_activities := filter (\<lambda>a. \<not> (v_cw721_contract_id a = n_id n \<and>
                      (case currentHeight of None \<Rightarrow> False | Some h \<Rightarrow> v_height a \<le> h))) (cw721_activities db)\<rparr>,
                \<lparr>hp_smartContractId = smartContractId, hp_startBlock = startBlock cfg,
                 hp_endBlock = currentHeight, hp_contractAddress = addr\<rparr>)))"

text \<open>One job for each current contract with a CW-721 code, unless its address is in the queue.\<close>

definition cw721_reindexing ::
  "string list \<Rightarrow> string \<Rightarrow> ('c, 'a) cw721_reindex_db_scheme \<Rightarrow> ('c, 'a) cw721_reindex_db_scheme res"
where
  "cw721_reindexing contractAddresses type db =
     rfold (\<lambda>k db.
         case find (\<lambda>c. cd_code_id c = k_code_id k) (codes db) of
           None \<Rightarrow> Inl TypeError
         | Some c \<Rightarrow>
             if cd_type c = Some ''CW721'' \<and> k_address k \<notin> set (map fst (cw721_reindex_jobs db))
             then Inr (db\<lparr>cw721_reindex_jobs := cw721_reindex_jobs db @ [(k_address k, k_id k, type)]\<rparr>)
             else Inr db)
       (filter (\<lambda>k. k_status k = STATUS_LATEST \<and> k_address k \<in> set contractAddresses) (smart_contracts db)) db"

definition cw721_reindex_job ::
  "config \<Rightarrow> 'x cw721_query_scheme \<Rightarrow> string \<times> int \<times> string \<Rightarrow> ('c, 'a) cw721_db_scheme \<Rightarrow>
    (('c, 'a) cw721_db_scheme outcome \<times> history_params option) option"
where
  "cw721_reindex_job cfg ext payload db =
     (case payload of (addr, smartContractId, type) \<Rightarrow>
        if type = ''all'' then handleReindexAll cfg ext smartContractId addr db
        else if type = ''history''
        then Some (case handleReindexHistory cfg smartContractId addr db of
                     Inl e \<Rightarrow> ((db, Some e), None)
                   | Inr (db', p) \<Rightarrow> ((db', None), Some p))
        else Some ((db, None), None))"

section \<open>The history job is a paged job\<close>

lemma history_events_page:
  "history_events p (Some (prevId, n)) db =
    take n (filter (\<lambda>m. prevId < m_smart_contract_event_id m) (history_events p None db))"
  by (simp add: history_events_def getCw721ContractEvents_def Let_def split: option.split)

lemma cw721_rows_ids:
  "event_ids_increase db \<Longrightarrow> sorted_wrt (<) (map (\<lambda>(_, _, m). m_smart_contract_event_id m) (cw721_rows db))"
proof -
  have id: "m_smart_contract_event_id m = se_id se" if "cw721_msg_of db se = Some (h, k, m)" for se h k m
    using that by (auto simp: cw721_msg_of_def split: option.splits if_splits)
  have "sorted_wrt (<) (map se_id ses) \<Longrightarrow>
      sorted_wrt (<) (map (\<lambda>(_, _, m). m_smart_contract_event_id m) (List.map_filter (cw721_msg_of db) ses))" for ses
  proof (induction ses)
    case (Cons se ses)
    have "\<forall>x\<in>set (List.map_filter (cw721_msg_of db) ses). \<exists>s\<in>set ses. cw721_msg_of db s = Some x"
      by (auto simp: set_map_filter_Some)
    with Cons id show ?case
      by (cases "cw721_msg_of db se") (fastforce simp: map_filter_simps)+
  qed simp
  then show "event_ids_increase db \<Longrightarrow> ?thesis" by (simp add: event_ids_increase_def cw721_rows_def)
qed

lemma history_events_eq:
  "history_events p None db = (case hp_endBlock p of None \<Rightarrow> []
    | Some e \<Rightarrow> map (\<lambda>(_, _, m). m) (filter (\<lambda>(h, k, _). in_range (hp_startBlock p) e h \<and>
        (hp_smartContractId p = 0 \<or> k = hp_smartContractId p)) (cw721_rows db)))"
  by (simp add: history_events_def getCw721ContractEvents_def cw721_rows_def Let_def split: option.split)

lemma history_events_increase:
  assumes "event_ids_increase db"
  shows "sorted_wrt (<) (map m_smart_contract_event_id (history_events p None db))"
proof (cases "hp_endBlock p")
  case (Some e)
  have "sorted_wrt (\<lambda>x y. m_smart_contract_event_id (snd (snd x)) < m_smart_contract_event_id (snd (snd y))) (cw721_rows db)"
    using cw721_rows_ids [OF assms] by (simp add: sorted_wrt_map case_prod_unfold)
  from sorted_wrt_filter [OF this] Some show ?thesis
    by (simp add: history_events_eq sorted_wrt_map case_prod_unfold)
qed (simp add: history_events_eq)

lemma history_page_effect:
  assumes "history_page sc events db = Inr db'"
  obtains d acts toks where "handleCw721MsgExec events db = Inr (d, acts)"
    "db' = db\<lparr>cw721_activities := cw721_activities db @ map (\<lambda>a. a\<lparr>v_token_id := None\<rparr>) (map (link_activity toks) acts)\<rparr>"
  using assms by (auto simp: history_page_def rbind_eq_Inr Let_def dest: insert_cw721_activities)

lemma history_page_rows:
  assumes "history_page sc events db = Inr db'"
  shows "cw721_rows db' = cw721_rows db" "smart_contract_events db' = smart_contract_events db"
proof -
  from assms obtain acts where db': "db' = db\<lparr>cw721_activities := acts\<rparr>" by (rule history_page_effect)
  show "cw721_rows db' = cw721_rows db" by (rule cw721_rows_cong) (simp_all add: db')
  show "smart_contract_events db' = smart_contract_events db" by (simp add: db')
qed

lemma history_page_keeps:
  assumes "event_ids_increase db" and "history_page sc events db = Inr db'"
  shows "history_events p None db' = history_events p None db \<and> event_ids_increase db'"
  using assms(1) by (simp only: history_events_eq event_ids_increase_def history_page_rows [OF assms(2)] simp_thms)

lemma crawlMissingContractHistory_eq:
  "crawlMissingContractHistory n p prevId db =
    (let page = take n (filter (\<lambda>m. prevId < m_smart_contract_event_id m) (history_events p None db)) in
     if page = [] then Inr (remove_reindex_job (hp_contractAddress p) db, None)
     else rbind (history_page (hp_smartContractId p) page db) (\<lambda>db'. Inr (db', Some (m_smart_contract_event_id (last page)))))"
  by (simp only: crawlMissingContractHistory_def history_events_page)

interpretation cw721_history: paged_job "history_events p None" m_smart_contract_event_id "Suc n"
    "history_page (hp_smartContractId p)" "remove_reindex_job (hp_contractAddress p)"
    "crawlMissingContractHistory (Suc n) p" event_ids_increase
  for n p
  by (unfold_locales, rule zero_less_Suc)
    (rule crawlMissingContractHistory_eq history_events_increase history_page_keeps; assumption)+

section \<open>What the history stores\<close>

lemma tracked_address:
  assumes "addresses_ok db" and "contract_row_ok A c db" and "m \<in> set msgs"
  shows "tracked_by_addr msgs db (m_contractAddress m) = Some c \<longleftrightarrow> m_contractAddress m = A"
proof -
  have "addr_of db c = Some A" using addr_of_A [OF assms(1,2)] by simp
  then show ?thesis
    using tracked_by_addr_ok [OF assms(1), of msgs] tracked_by_addr_A [OF assms(1,2), of msgs] assms(3)
    by (auto simp: tracked_ok_def)
qed

lemma handleCw721MsgExec_events:
  assumes "handleCw721MsgExec msgs db = Inr (d, acts)"
  shows "map activity_event acts = tracked_events (tracked_by_addr msgs db) msgs"
  using assms cw721_process_activities by (simp add: handleCw721MsgExec_def tracked_by_addr_def Let_def)

lemma history_page_events:
  assumes "history_page sc msgs db = Inr db'" and "addresses_ok db" and "contract_row_ok A c db"
  shows "recorded_events c db' = recorded_events c db +
      mset (map m_smart_contract_event_id (filter (\<lambda>m. m_contractAddress m = A) msgs))"
    and "cw721_tokens db' = cw721_tokens db" "addresses_ok db'" "contract_row_ok A c db'"
proof -
  from assms(1) obtain d acts toks where exec: "handleCw721MsgExec msgs db = Inr (d, acts)"
    and db': "db' = db\<lparr>cw721_activities := cw721_activities db @ map (\<lambda>a. a\<lparr>v_token_id := None\<rparr>) (map (link_activity toks) acts)\<rparr>"
    by (rule history_page_effect)
  have "map activity_event (map (\<lambda>a. a\<lparr>v_token_id := None\<rparr>) (map (link_activity toks) acts)) = map activity_event acts"
    by (simp add: activity_event_def link_activity_def comp_def)
  then show "recorded_events c db' = recorded_events c db +
      mset (map m_smart_contract_event_id (filter (\<lambda>m. m_contractAddress m = A) msgs))"
    using handleCw721MsgExec_events [OF exec] tracked_events_A [of msgs _ c A, OF tracked_address [OF assms(2,3)]]
    by (simp add: recorded_events_eq db' del: map_map)
  show "cw721_tokens db' = cw721_tokens db" by (simp add: db')
  show "addresses_ok db'" "contract_row_ok A c db'"
    using assms(2,3) by (simp_all add: db' addresses_ok_def contract_row_ok_def cw721_address_def has_code_type_def)
qed

lemma history_pages_events:
  assumes "rfold (history_page sc) pages db = Inr db'" and "addresses_ok db" and "contract_row_ok A c db"
  shows "recorded_events c db' = recorded_events c db +
      mset (map m_smart_contract_event_id (filter (\<lambda>m. m_contractAddress m = A) (concat pages))) \<and>
    cw721_tokens db' = cw721_tokens db"
  using assms
proof (induction pages arbitrary: db)
  case (Cons page pages)
  from Cons.prems(1) obtain db1 where page: "history_page sc page db = Inr db1"
    and rest: "rfold (history_page sc) pages db1 = Inr db'" by (auto simp: rbind_eq_Inr)
  note eff = history_page_events [OF page Cons.prems(2,3)]
  from Cons.IH [OF rest eff(3,4)] eff(1,2) show ?case by simp
qed simp

text \<open>An activity is never stored for an event that has one.\<close>

lemma insert_cw721_activities_fresh:
  assumes "rfold insert_cw721_activity acts db = Inr db'"
  shows "v_smart_contract_event_id ` set acts \<inter> v_smart_contract_event_id ` set (cw721_activities db) = {}"
  using assms
proof (induction acts arbitrary: db)
  case (Cons a acts)
  from Cons.prems obtain db1 where a: "insert_cw721_activity a db = Inr db1"
    and rest: "rfold insert_cw721_activity acts db1 = Inr db'" by (auto simp: rbind_eq_Inr)
  from a have new: "v_smart_contract_event_id a \<notin> v_smart_contract_event_id ` set (cw721_activities db)"
    and db1: "cw721_activities db1 = cw721_activities db @ [a\<lparr>v_token_id := None\<rparr>]"
    by (auto simp: insert_cw721_activity_def split: if_splits)
  from Cons.IH [OF rest] new show ?case by (auto simp: db1)
qed simp

lemma history_page_fresh:
  assumes "history_page sc msgs db = Inr db'" and "addresses_ok db" and "contract_row_ok A c db"
    and "m \<in> set msgs" and "m_contractAddress m = A"
  shows "m_smart_contract_event_id m \<notin> v_smart_contract_event_id ` set (cw721_activities db)"
proof -
  from assms(1) obtain d acts toks where exec: "handleCw721MsgExec msgs db = Inr (d, acts)"
    and ins: "rfold insert_cw721_activity (map (link_activity toks) acts) db = Inr db'"
    by (auto simp: history_page_def rbind_eq_Inr Let_def)
  have "tracked_by_addr msgs db (m_contractAddress m) = Some c" using tracked_address [OF assms(2-4)] assms(5) by simp
  then have "(m_smart_contract_event_id m, c) \<in> set (tracked_events (tracked_by_addr msgs db) msgs)"
    using assms(4) by (force simp: tracked_events_def set_map_filter_Some)
  then have "(m_smart_contract_event_id m, c) \<in> activity_event ` set acts"
    unfolding handleCw721MsgExec_events [OF exec, symmetric] by simp
  then have "m_smart_contract_event_id m \<in> v_smart_contract_event_id ` set (map (link_activity toks) acts)"
    by (auto simp: activity_event_def link_activity_def intro!: rev_image_eqI)
  with insert_cw721_activities_fresh [OF ins] show ?thesis by blast
qed

lemma history_pages_fresh:
  assumes "rfold (history_page sc) pages db = Inr db'" and "addresses_ok db" and "contract_row_ok A c db"
    and "m \<in> set (concat pages)" and "m_contractAddress m = A"
  shows "m_smart_contract_event_id m \<notin> v_smart_contract_event_id ` set (cw721_activities db)"
  using assms
proof (induction pages arbitrary: db)
  case (Cons page pages)
  from Cons.prems(1) obtain db1 where page: "history_page sc page db = Inr db1"
    and rest: "rfold (history_page sc) pages db1 = Inr db'" by (auto simp: rbind_eq_Inr)
  show ?case
  proof (cases "m \<in> set page")
    case True
    with history_page_fresh [OF page Cons.prems(2,3)] Cons.prems(5) show ?thesis by blast
  next
    case False
    note eff = history_page_events [OF page Cons.prems(2,3)]
    have "m_smart_contract_event_id m \<notin> v_smart_contract_event_id ` set (cw721_activities db1)"
      using Cons.IH [OF rest eff(3,4)] Cons.prems(4,5) False by simp
    moreover from page obtain acts where "cw721_activities db1 = cw721_activities db @ acts"
      by (rule history_page_effect) simp
    ultimately show ?thesis by auto
  qed
qed simp
lemma run_history_result:
  assumes "0 < limit" and "event_ids_increase db"
  shows "run_pages (crawlMissingContractHistory limit p) prevId db =
    Some (rbind (rfold (history_page (hp_smartContractId p))
        (chunks limit (filter (\<lambda>m. prevId < m_smart_contract_event_id m) (history_events p None db))) db)
      (\<lambda>db'. Inr (remove_reindex_job (hp_contractAddress p) db')))"
  using cw721_history.run_pages_result [of db "limit - 1" p prevId] assms by simp

text \<open>The range handler stores an activity for each event of its range that is of the contract.\<close>

lemma handleRange_stores:
  assumes "handleRangeBlockMissingContract sc lo hi db = Inr db'"
    and "addresses_ok db'" and "contract_row_ok A c db'"
    and "m \<in> set (getCw721ContractEvents lo hi (Some sc) None db')" and "m_contractAddress m = A"
  shows "m_smart_contract_event_id m \<in> v_smart_contract_event_id ` set (cw721_activities db')"
proof -
  let ?msgs = "getCw721ContractEvents lo hi (Some sc) None db"
  from assms(1) obtain d acts where exec: "handleCw721MsgExec ?msgs db = Inr (d, acts)"
    and upd: "updateTokenAndActivities (map snd d) acts db = Inr db'"
    by (auto simp: handleRangeBlockMissingContract_def rbind_eq_Inr)
  from upd obtain db1 ts where
    log: "map activity_event (cw721_activities db') = map activity_event (cw721_activities db) @ map activity_event acts"
    and same: "cw721_contracts db' = cw721_contracts db" "smart_contracts db' = smart_contracts db"
      "cw721_contract_seq db' = cw721_contract_seq db" "codes db' = codes db" "event_table db' = event_table db"
      "transaction_table db' = transaction_table db" "smart_contract_events db' = smart_contract_events db"
    by (rule updateTokenAndActivities_effect)
  have ok: "addresses_ok db" "contract_row_ok A c db"
    using assms(2,3) same by (simp_all add: addresses_ok_def contract_row_ok_def cw721_address_def has_code_type_def)
  have "cw721_msg_of db' = cw721_msg_of db"
    by (rule ext) (simp only: cw721_msg_of_def contract_event_join_def same)
  then have m: "m \<in> set ?msgs" using assms(4) same by (simp add: getCw721ContractEvents_def)
  have "tracked_by_addr ?msgs db (m_contractAddress m) = Some c" using tracked_address [OF ok m] assms(5) by simp
  then have "(m_smart_contract_event_id m, c) \<in> set (tracked_events (tracked_by_addr ?msgs db) ?msgs)"
    using m by (force simp: tracked_events_def set_map_filter_Some)
  then have "(m_smart_contract_event_id m, c) \<in> set (map activity_event (cw721_activities db'))"
    unfolding handleCw721MsgExec_events [OF exec, symmetric] log by simp
  then show ?thesis by (auto simp: activity_event_def)
qed

text \<open>What a successful reindexing of all has done last, and the history job it queues.\<close>

lemma handleReindexAll_last:
  assumes "handleReindexAll cfg ext sc addr db = Some ((db', None), Some p)"
    and "getAllTokensOwner ext addr = Some (Inr owners)"
  obtains db3 where "handleRangeBlockMissingContract sc (min_or_zero (map to_last_updated_height owners))
      (max_or_zero (map to_last_updated_height owners)) db3 = Inr db'"
    and "p = \<lparr>hp_smartContractId = sc, hp_startBlock = startBlock cfg,
      hp_endBlock = Some (max_or_zero (map to_last_updated_height owners)), hp_contractAddress = addr\<rparr>"
  using assms by (auto simp: handleReindexAll_def reindex_with_owners_def Let_def split: sum.splits prod.splits)

text \<open>A token that is newer than all messages of a page keeps its entry while the page is replayed.\<close>

lemma newer_token_stays:
  assumes "cw721_process_msg tracked msg (d, acts) = Inr (d', acts')"
    and "map_of d key = Some t" and "m_height msg < tk_last_updated_height t"
  shows "map_of d' key = Some t"
  using assms
  by (auto simp: cw721_process_msg_def handlerCw721Mint_def handlerCw721Transfer_def handlerCw721Burn_def
      handleCw721Others_def rbind_eq_Inr need_eq_Inr Let_def update_conv' split: if_splits option.splits)

lemma transfer_activity:
  assumes "cw721_process_msg tracked msg (d, acts) = Inr (d', acts')"
    and "m_action msg = Some ''transfer_nft'' \<or> m_action msg = Some ''send_nft''"
    and "tracked (m_contractAddress msg) = Some c" and "map_of d (m_key msg) = Some t"
  shows "acts' = acts @ [cw721_activity_of msg c (m_attr msg ''sender'') (tk_owner t) (m_attr msg ''recipient'')]"
  using assms by (auto simp: cw721_process_msg_def handlerCw721Transfer_def Let_def)

lemma activities_grow:
  assumes "cw721_process tracked msgs (d, acts) = Inr (d', acts')"
  shows "set acts \<subseteq> set acts'"
  using assms unfolding cw721_process_def
proof (induction msgs arbitrary: d acts)
  case (Cons msg msgs)
  from Cons.prems obtain d1 acts1 where step: "cw721_process_msg tracked msg (d, acts) = Inr (d1, acts1)"
    and rest: "rfold (cw721_process_msg tracked) msgs (d1, acts1) = Inr (d', acts')" by (auto simp: rbind_eq_Inr)
  from step have "set acts \<subseteq> set acts1"
    by (auto simp: cw721_process_msg_def handlerCw721Mint_def handlerCw721Transfer_def handlerCw721Burn_def
        handleCw721Others_def rbind_eq_Inr need_eq_Inr Let_def split: if_splits option.splits)
  with Cons.IH [OF rest] show ?case by blast
qed simp

lemma transfers_from_stored_owner:
  assumes "cw721_process tracked msgs (d, acts) = Inr (d', acts')" and "map_of d (m_key m) = Some t"
    and "\<forall>x\<in>set msgs. m_height x < tk_last_updated_height t" and "m \<in> set msgs"
    and "m_action m = Some ''transfer_nft'' \<or> m_action m = Some ''send_nft''"
    and "tracked (m_contractAddress m) = Some c"
  shows "\<exists>a\<in>set acts'. v_smart_contract_event_id a = m_smart_contract_event_id m \<and> v_from a = tk_owner t"
  using assms(1-4)
proof (induction msgs arbitrary: d acts)
  case (Cons msg msgs)
  from Cons.prems(1) obtain d1 acts1 where step: "cw721_process_msg tracked msg (d, acts) = Inr (d1, acts1)"
    and rest: "cw721_process tracked msgs (d1, acts1) = Inr (d', acts')"
    by (auto simp: rbind_eq_Inr cw721_process_def)
  show ?case
  proof (cases "m = msg")
    case True
    with transfer_activity [OF step] assms(5,6) Cons.prems(2) have "acts1 = acts @
        [cw721_activity_of m c (m_attr m ''sender'') (tk_owner t) (m_attr m ''recipient'')]" by simp
    with activities_grow [OF rest] show ?thesis by (intro bexI) (auto simp: cw721_activity_of_def)
  next
    case False
    have "map_of d1 (m_key m) = Some t" using newer_token_stays [OF step Cons.prems(2)] Cons.prems(3) by simp
    with Cons.IH [OF rest] Cons.prems(3,4) False show ?thesis by simp
  qed
qed simp
section \<open>Properties\<close>

text \<open>
  The token of the contract was minted, sent on and sent back, at the heights 1, 2 and 3; the row
  of the token is newer than all of them.
\<close>

definition sample_reindex_db :: "cw721_token list \<Rightarrow> cw721_activity list \<Rightarrow> string cw721_reindex_db" where
  "sample_reindex_db toks acts =
     \<lparr>block_checkpoint = [''crawl:contract-event'' \<mapsto> 3], block_table = [],
      transaction_table = map sample_wasm_tx [1, 2, 3], transaction_seq = 4,
      event_table = map (\<lambda>i. sample_wasm_event i i ''wasm'' []) [1, 2, 3], event_seq = 4,
      message_table = [], message_seq = 1, codes = [sample_code 1 ''CW721''], code_id_verifications = [],
      smart_contracts = [sample_wasm_contract 1 ''aura1c'' 1], smart_contract_seq = 2,
      smart_contract_events =
        [sample_contract_event 1 ''mint'' [(''token_id'', ''a_1''), (''owner'', ''aura1o''), (''minter'', ''aura1m'')],
         sample_contract_event 2 ''send_nft'' [(''token_id'', ''a_1''), (''recipient'', ''aura1p''), (''sender'', ''aura1o'')],
         sample_contract_event 3 ''send_nft'' [(''token_id'', ''a_1''), (''recipient'', ''aura1q''), (''sender'', ''aura1p'')]],
      smart_contract_event_seq = 4,
      cw721_contracts = [\<lparr>n_id = 7, n_contract_id = 1, n_symbol = Some ''N'', n_minter = None, n_name = Some ''nft'', n_track = True\<rparr>],
      cw721_contract_seq = 8, cw721_tokens = toks, cw721_token_seq = 2, cw721_activities = acts, cw721_stats = [],
      cw721_reindex_jobs = [(''aura1c'', 1, ''all'')]\<rparr>"

definition sample_reindex_token :: cw721_token where
  "sample_reindex_token =
     \<lparr>tk_id = Some 1, tk_token_id = ''a_1'', tk_media_info = None, tk_owner = Some ''aura1q'',
      tk_cw721_contract_id = 7, tk_last_updated_height = 4, tk_burned = False\<rparr>"

definition sample_history :: history_params where
  "sample_history = \<lparr>hp_smartContractId = 1, hp_startBlock = 0, hp_endBlock = Some 3, hp_contractAddress = ''aura1c''\<rparr>"

text \<open>A contract with two tokens that answers with one token a page; the answers come at the heights 2 and 3.\<close>

definition sample_query :: cw721_query where
  "sample_query =
     \<lparr>query_contract_info = (\<lambda>_. None), query_cw721_minter = (\<lambda>_. None),
      all_tokens = (\<lambda>_ s. Inr (if s = None then [''a_1''] else if s = Some ''a_1'' then [''b''] else [])),
      owner_of = (\<lambda>_ i. Inr (if i = ''a_1'' then (''aura1q'', 3) else (''aura1o'', 2)))\<rparr>"

lemma sample_reindex_ok:
  "addresses_ok (sample_reindex_db toks acts)" "contract_row_ok ''aura1c'' 7 (sample_reindex_db toks acts)"
  "event_ids_increase (sample_reindex_db toks acts)"
  by (simp_all add: addresses_ok_def contract_row_ok_def sample_reindex_db_def sample_wasm_contract_def sample_code_def
      has_code_type_def cw721_address_def no_sep_def event_ids_increase_def sample_contract_event_def)

lemma sample_history_events:
  "history_events sample_history None (sample_reindex_db toks acts) = history_events sample_history None (sample_reindex_db [] [])"
proof -
  have "cw721_rows (sample_reindex_db toks acts) = cw721_rows (sample_reindex_db [] [])"
    by (rule cw721_rows_cong) (simp_all add: sample_reindex_db_def)
  then show ?thesis by (simp only: history_events_eq)
qed

text \<open>
  C32. The history job of a CW-721 contract, which handles one page of events and queues itself
  for the next, comes to an end whatever the page size: it throws, or it has stored exactly one
  activity for each event of the contract in its range that lies after the id it started from,
  has changed no token, and has released the contract's entry in the reindexing queue.
\<close>

theorem cw721_history_ends:
  assumes "0 < limit" and "event_ids_increase db" and "addresses_ok db" and "contract_row_ok A c db"
  shows "\<exists>r. run_pages (crawlMissingContractHistory limit p) prevId db = Some r \<and>
    (\<forall>db'. r = Inr db' \<longrightarrow>
       recorded_events c db' = recorded_events c db + mset (map m_smart_contract_event_id
         (filter (\<lambda>m. prevId < m_smart_contract_event_id m \<and> m_contractAddress m = A) (history_events p None db))) \<and>
       cw721_tokens db' = cw721_tokens db \<and>
       hp_contractAddress p \<notin> fst ` set (cw721_reindex_jobs db'))"
proof -
  let ?pages = "chunks limit (filter (\<lambda>m. prevId < m_smart_contract_event_id m) (history_events p None db))"
  let ?r = "rbind (rfold (history_page (hp_smartContractId p)) ?pages db)
      (\<lambda>db'. Inr (remove_reindex_job (hp_contractAddress p) db'))"
  have run: "run_pages (crawlMissingContractHistory limit p) prevId db = Some ?r"
    by (rule run_history_result [OF assms(1,2)])
  have "recorded_events c db' = recorded_events c db + mset (map m_smart_contract_event_id
         (filter (\<lambda>m. prevId < m_smart_contract_event_id m \<and> m_contractAddress m = A) (history_events p None db))) \<and>
       cw721_tokens db' = cw721_tokens db \<and> hp_contractAddress p \<notin> fst ` set (cw721_reindex_jobs db')"
    if "?r = Inr db'" for db'
  proof -
    from that obtain db1 where pages: "rfold (history_page (hp_smartContractId p)) ?pages db = Inr db1"
      and db': "db' = remove_reindex_job (hp_contractAddress p) db1" by (auto simp: rbind_eq_Inr)
    have "recorded_events c db' = recorded_events c db1" "cw721_tokens db' = cw721_tokens db1"
      "hp_contractAddress p \<notin> fst ` set (cw721_reindex_jobs db')"
      by (auto simp: db' remove_reindex_job_def recorded_events_def)
    with history_pages_events [OF pages assms(3,4)] show ?thesis by (simp add: conj_commute)
  qed
  with run show ?thesis by blast
qed

theorem cw721_history_ends_witness:
  "\<exists>db'. run_pages (crawlMissingContractHistory 2 sample_history) 0 (sample_reindex_db [sample_reindex_token] []) = Some (Inr db') \<and>
    recorded_events 7 db' = {#1, 2, 3#} \<and> ''aura1c'' \<notin> fst ` set (cw721_reindex_jobs db')"
proof -
  let ?db = "sample_reindex_db [sample_reindex_token] []"
  let ?evs = "history_events sample_history None (sample_reindex_db [] [])"
  note events = sample_history_events [of "[sample_reindex_token]" "[]"]
  note ok = sample_reindex_ok [of "[sample_reindex_token]" "[]"]
  have addr: "hp_contractAddress sample_history = ''aura1c''" by (simp add: sample_history_def)
  have two: "0 < (2 :: nat)" by simp
  from cw721_history_ends [OF two ok(3,1,2), of sample_history 0, unfolded events addr]
  obtain r where run: "run_pages (crawlMissingContractHistory 2 sample_history) 0 ?db = Some r"
    and post: "\<forall>db'. r = Inr db' \<longrightarrow> recorded_events 7 db' = recorded_events 7 ?db + mset (map m_smart_contract_event_id
         (filter (\<lambda>m. 0 < m_smart_contract_event_id m \<and> m_contractAddress m = ''aura1c'') ?evs)) \<and>
       cw721_tokens db' = cw721_tokens ?db \<and> ''aura1c'' \<notin> fst ` set (cw721_reindex_jobs db')"
    by blast
  have "\<not> isl (rbind (rfold (history_page (hp_smartContractId sample_history)) (chunks 2 (filter (\<lambda>m. 0 < m_smart_contract_event_id m) ?evs)) ?db)
      (\<lambda>db'. Inr (remove_reindex_job (hp_contractAddress sample_history) db')))" by code_simp
  then obtain db' where "r = Inr db'"
    using run [unfolded run_history_result [OF two ok(3), of sample_history 0, unfolded events]] by (metis option.inject sum.collapse(2))
  moreover have "map m_smart_contract_event_id
         (filter (\<lambda>m. 0 < m_smart_contract_event_id m \<and> m_contractAddress m = ''aura1c'') ?evs) = [1, 2, 3]"
    "recorded_events 7 ?db = {#}" by code_simp+
  ultimately show ?thesis using run post by simp
qed

text \<open>
  A contract that answers the query for all tokens with pages of its list and the query for the owner
  for each of its tokens: the loop over the pages ends, and gives every token once, in the contract's order, with
  the owner and the height of its answer.
\<close>

theorem getAllTokensOwner_complete:
  assumes "pages_of (all_tokens ext addr) n tokens"
    and "\<forall>i\<in>set tokens. owner_of ext addr i = Inr (owner i, height i)"
  shows "getAllTokensOwner ext addr =
    Some (Inr (map (\<lambda>i. \<lparr>to_owner = owner i, to_token_id = i, to_last_updated_height = height i\<rparr>) tokens))"
proof -
  have "rmap (\<lambda>i. rbind (owner_of ext addr i) (\<lambda>(o1, h). Inr \<lparr>to_owner = o1, to_token_id = i, to_last_updated_height = h\<rparr>)) is =
      Inr (map (\<lambda>i. \<lparr>to_owner = owner i, to_token_id = i, to_last_updated_height = height i\<rparr>) is)"
    if "\<forall>i\<in>set is. owner_of ext addr i = Inr (owner i, height i)" for "is"
    using that by (induction "is") simp_all
  with assms show ?thesis by (simp add: getAllTokensOwner_def all_pages_complete)
qed

lemma sample_pages: "pages_of (all_tokens sample_query ''aura1c'') 1 [''a_1'', ''b'']"
  by (auto simp: pages_of_def sample_query_def Cons_eq_append_conv)

theorem getAllTokensOwner_complete_witness:
  "getAllTokensOwner sample_query ''aura1c'' =
    Some (Inr [\<lparr>to_owner = ''aura1q'', to_token_id = ''a_1'', to_last_updated_height = 3\<rparr>,
               \<lparr>to_owner = ''aura1o'', to_token_id = ''b'', to_last_updated_height = 2\<rparr>])"
  using getAllTokensOwner_complete [OF sample_pages, of "\<lambda>i. if i = ''a_1'' then ''aura1q'' else ''aura1o''" "\<lambda>i. if i = ''a_1'' then 3 else 2"]
  by (simp add: sample_query_def)

text \<open>
  Reindexing all of a CW-721 contract stores the activities of the events between the lowest
  and the highest height of the answers, and then queues the history job over a range that
  contains those heights again. When there is such an event, the history job throws: its activity
  is stored already, and an event has one activity at most.
\<close>

theorem reindex_all_blocks_history:
  assumes "handleReindexAll cfg ext sc A db = Some ((db', None), Some p)"
    and "getAllTokensOwner ext A = Some (Inr owners)"
    and "addresses_ok db'" and "contract_row_ok A c db'" and "event_ids_increase db'"
    and "m \<in> set (getCw721ContractEvents (min_or_zero (map to_last_updated_height owners))
           (max_or_zero (map to_last_updated_height owners)) (Some sc) None db')"
    and "m_contractAddress m = A" and "0 < m_smart_contract_event_id m"
    and "startBlock cfg \<le> min_or_zero (map to_last_updated_height owners)" and "0 < limit"
  shows "\<exists>e. run_pages (crawlMissingContractHistory limit p) 0 db' = Some (Inl e)"
proof -
  let ?lo = "min_or_zero (map to_last_updated_height owners)" and ?hi = "max_or_zero (map to_last_updated_height owners)"
  from assms(1,2) obtain db3 where range: "handleRangeBlockMissingContract sc ?lo ?hi db3 = Inr db'"
    and p: "p = \<lparr>hp_smartContractId = sc, hp_startBlock = startBlock cfg, hp_endBlock = Some ?hi, hp_contractAddress = A\<rparr>"
    by (rule handleReindexAll_last)
  have stored: "m_smart_contract_event_id m \<in> v_smart_contract_event_id ` set (cw721_activities db')"
    by (rule handleRange_stores [OF range assms(3,4,6,7)])
  let ?pages = "chunks limit (filter (\<lambda>m. 0 < m_smart_contract_event_id m) (history_events p None db'))"
  have "m \<in> set (history_events p None db')"
    using assms(6,9) by (force simp: p history_events_def getCw721ContractEvents_def Let_def in_range_def)
  then have "m \<in> set (concat ?pages)" using assms(8) by simp
  with stored assms(7) have "rfold (history_page (hp_smartContractId p)) ?pages db' \<noteq> Inr db2" for db2
    using history_pages_fresh [OF _ assms(3,4)] by blast
  then obtain e where "rfold (history_page (hp_smartContractId p)) ?pages db' = Inl e" by (meson sum.exhaust)
  then show ?thesis using run_history_result [OF assms(10,5), of p 0] by simp
qed

theorem reindex_all_blocks_history_witness:
  "\<exists>db' p e. handleReindexAll sample_wasm_config sample_query 1 ''aura1c'' (sample_reindex_db [] []) = Some ((db', None), Some p) \<and>
    run_pages (crawlMissingContractHistory 100 p) 0 db' = Some (Inl e)"
proof -
  let ?owners = "[\<lparr>to_owner = ''aura1q'', to_token_id = ''a_1'', to_last_updated_height = 3\<rparr>,
      \<lparr>to_owner = ''aura1o'', to_token_id = ''b'', to_last_updated_height = 2\<rparr>]"
  let ?r = "reindex_with_owners sample_wasm_config sample_query 1 ''aura1c'' ?owners (sample_reindex_db [] [])"
  let ?db = "fst (fst ?r)" and ?p = "the (snd ?r)"
  have owners: "getAllTokensOwner sample_query ''aura1c'' = Some (Inr ?owners)"
    by (simp add: getAllTokensOwner_def all_pages_complete [OF sample_pages]) (simp add: sample_query_def)
  have "snd (fst ?r) = None" "snd ?r \<noteq> None" by code_simp+
  then have run: "handleReindexAll sample_wasm_config sample_query 1 ''aura1c'' (sample_reindex_db [] []) = Some ((?db, None), Some ?p)"
    by (auto simp: handleReindexAll_def owners prod_eq_iff)
  have msgs: "getCw721ContractEvents 2 3 (Some 1) None ?db \<noteq> []"
    "list_all (\<lambda>m. m_contractAddress m = ''aura1c'' \<and> 0 < m_smart_contract_event_id m) (getCw721ContractEvents 2 3 (Some 1) None ?db)"
    by code_simp+
  have range: "min_or_zero (map to_last_updated_height ?owners) = 2" "max_or_zero (map to_last_updated_height ?owners) = 3"
    by code_simp+
  have rows: "list_all (\<lambda>k. no_sep (k_address k)) (smart_contracts ?db)" "distinct (map k_id (smart_contracts ?db))"
    "distinct (map n_id (cw721_contracts ?db))" "list_all (\<lambda>n. n_id n < cw721_contract_seq ?db) (cw721_contracts ?db)"
    "sorted_wrt (<) (map se_id (smart_contract_events ?db))"
    by code_simp+
  have "cw721_contracts ?db = [\<lparr>n_id = 8, n_contract_id = 1, n_symbol = None, n_minter = None, n_name = None, n_track = True\<rparr>]"
    "smart_contracts ?db = [sample_wasm_contract 1 ''aura1c'' 1]" "codes ?db = [sample_code 1 ''CW721'']" by code_simp+
  then have "contract_row_ok ''aura1c'' 8 ?db"
    by (simp add: contract_row_ok_def sample_wasm_contract_def sample_code_def has_code_type_def cw721_address_def)
  moreover obtain m where m: "m \<in> set (getCw721ContractEvents 2 3 (Some 1) None ?db)" using msgs(1) by (cases "getCw721ContractEvents 2 3 (Some 1) None ?db") auto
  ultimately obtain e where "run_pages (crawlMissingContractHistory 100 ?p) 0 ?db = Some (Inl e)"
    using reindex_all_blocks_history [OF run owners, unfolded range, of 8 m 100] rows msgs(2)
    by (auto simp: list_all_iff addresses_ok_def event_ids_increase_def sample_wasm_config_def)
  with run show ?thesis by blast
qed

text \<open>
  The history job fills in the sender of a transfer from the stored token, not from the
  history: when the token's row is newer than the messages of a page, as it is after the service
  has loaded the current owners, every transfer of the page is stored with the current owner as
  the one it came from.
\<close>

theorem history_from_current_owner:
  assumes "history_page sc msgs db = Inr db'" and "addresses_ok db" and "contract_row_ok A c db"
    and "token_rows_ok db" and "t \<in> set (cw721_tokens db)" and "tk_cw721_contract_id t = c"
    and "\<forall>x\<in>set msgs. m_height x < tk_last_updated_height t" and "m \<in> set msgs"
    and "m_action m = Some ''transfer_nft'' \<or> m_action m = Some ''send_nft''"
    and "m_contractAddress m = A" and "m_attr m ''token_id'' = Some (tk_token_id t)" and "tk_token_id t \<noteq> []"
  shows "\<exists>a\<in>set (cw721_activities db'). v_smart_contract_event_id a = m_smart_contract_event_id m \<and> v_from a = tk_owner t"
proof -
  from assms(1) obtain d acts toks where exec: "handleCw721MsgExec msgs db = Inr (d, acts)"
    and db': "db' = db\<lparr>cw721_activities := cw721_activities db @ map (\<lambda>a. a\<lparr>v_token_id := None\<rparr>) (map (link_activity toks) acts)\<rparr>"
    by (rule history_page_effect)
  have run: "cw721_process (tracked_by_addr msgs db) msgs (load_cw721_tokens msgs db, []) = Inr (d, acts)"
    using exec by (simp add: handleCw721MsgExec_def tracked_by_addr_def Let_def)
  have "find (token_of c (tk_token_id t)) (cw721_tokens db) = Some t"
    using assms(4-6) by (intro find_token) (simp_all add: token_of_def)
  moreover have "(A, Some (tk_token_id t)) \<in> msg_pairs msgs" using assms(8,10,11) by force
  ultimately have "map_of (load_cw721_tokens msgs db) (m_key m) = Some t"
    using load_lookup [OF assms(2-4)] assms(10-12) by (simp add: m_key_def del: set_map)
  moreover have "tracked_by_addr msgs db (m_contractAddress m) = Some c"
    using tracked_address [OF assms(2,3,8)] assms(10) by simp
  ultimately obtain a where "a \<in> set acts" "v_smart_contract_event_id a = m_smart_contract_event_id m" "v_from a = tk_owner t"
    using transfers_from_stored_owner [OF run _ assms(7-9)] by blast
  then show ?thesis
    by (intro bexI [of _ "(link_activity toks a)\<lparr>v_token_id := None\<rparr>"]) (auto simp: db' link_activity_def)
qed

theorem history_from_current_owner_witness:
  "\<exists>db'. history_page 1 (history_events sample_history None (sample_reindex_db [] [])) (sample_reindex_db [sample_reindex_token] []) = Inr db' \<and>
    (\<exists>a\<in>set (cw721_activities db'). v_smart_contract_event_id a = 2 \<and> v_from a = Some ''aura1q'')"
proof -
  let ?db = "sample_reindex_db [sample_reindex_token] []"
  let ?msgs = "history_events sample_history None (sample_reindex_db [] [])"
  have "\<not> isl (history_page 1 ?msgs ?db)" by code_simp
  then obtain db' where run: "history_page 1 ?msgs ?db = Inr db'" by (metis sum.collapse(2))
  have "list_all (\<lambda>x. m_height x < tk_last_updated_height sample_reindex_token) ?msgs"
    "m_action (?msgs ! 1) = Some ''send_nft''" "m_contractAddress (?msgs ! 1) = ''aura1c''" "1 < length ?msgs"
    "m_attr (?msgs ! 1) ''token_id'' = Some (tk_token_id sample_reindex_token)" "m_smart_contract_event_id (?msgs ! 1) = 2"
    by code_simp+
  moreover have "token_rows_ok ?db" "sample_reindex_token \<in> set (cw721_tokens ?db)"
    by (simp_all add: token_rows_ok_def sample_reindex_db_def sample_reindex_token_def)
  ultimately have "\<exists>a\<in>set (cw721_activities db'). v_smart_contract_event_id a = 2 \<and> v_from a = tk_owner sample_reindex_token"
    using history_from_current_owner [OF run sample_reindex_ok(1,2), of sample_reindex_token "?msgs ! 1"]
    by (simp add: list_all_iff) (simp add: sample_reindex_token_def)
  with run show ?thesis by (auto simp: sample_reindex_token_def)
qed

end
