(* ===== verification/Cw20_History.thy ===== *)
theory Cw20_History
  imports Cw20_Balances
begin

text \<open>
  Reindexing of CW-20 contracts: the paged history job ends, and how it and the update that the
  reindexing queues get along with the range job.
\<close>

section \<open>The history job is a paged job\<close>

lemma cw20_history_events_page:
  "cw20_history_events p (Some (prevId, n)) db =
    take n (filter (\<lambda>ev. prevId < ev_smart_contract_event_id ev) (cw20_history_events p None db))"
  by (simp add: cw20_history_events_def getCw20ContractEvents_def Let_def)

lemma cw20_history_events_eq:
  "cw20_history_events p None db = map snd (filter (\<lambda>(h, ev). in_range (ch_startBlock p) (ch_endBlock p) h \<and>
    (ch_smartContractId p = 0 \<or> ev_smart_contract_id ev = ch_smartContractId p)) (cw20_rows db))"
  by (simp add: cw20_history_events_def getCw20ContractEvents_def cw20_rows_def Let_def)

lemma cw20_rows_ids:
  assumes "event_ids_increase db"
  shows "sorted_wrt (\<lambda>x y. ev_smart_contract_event_id (snd x) < ev_smart_contract_event_id (snd y)) (cw20_rows db)"
proof -
  have id: "ev_smart_contract_event_id (snd r) = se_id se" if "cw20_event_of db se = Some r" for se r
    using that by (auto simp: cw20_event_of_def split: option.splits if_splits)
  have "sorted_wrt (<) (map se_id ses) \<Longrightarrow>
      sorted_wrt (\<lambda>x y. ev_smart_contract_event_id (snd x) < ev_smart_contract_event_id (snd y)) (List.map_filter (cw20_event_of db) ses)" for ses
  proof (induction ses)
    case (Cons se ses)
    have "\<forall>r\<in>set (List.map_filter (cw20_event_of db) ses). \<exists>s\<in>set ses. cw20_event_of db s = Some r"
      by (auto simp: set_map_filter_Some)
    with Cons id show ?case by (cases "cw20_event_of db se") (fastforce simp: map_filter_simps)+
  qed simp
  with assms show ?thesis by (simp add: event_ids_increase_def cw20_rows_def)
qed

lemma cw20_history_increase:
  assumes "event_ids_increase db"
  shows "sorted_wrt (<) (map ev_smart_contract_event_id (cw20_history_events p None db))"
  using sorted_wrt_filter [OF cw20_rows_ids [OF assms]] by (simp add: cw20_history_events_eq sorted_wrt_map)

lemma handleCw20Histories_rows:
  assumes "handleCw20Histories ext evs db = Inr db'"
  shows "cw20_rows db' = cw20_rows db" "smart_contract_events db' = smart_contract_events db"
proof -
  from assms obtain acts n where db': "db' = db\<lparr>cw20_activities := acts, cw20_activity_seq := n\<rparr>"
    by (rule handleCw20Histories_effect)
  show "cw20_rows db' = cw20_rows db" by (rule cw20_rows_cong) (simp_all add: db')
  show "smart_contract_events db' = smart_contract_events db" by (simp add: db')
qed

lemma cw20_history_keeps:
  assumes "event_ids_increase db" and "handleCw20Histories ext evs db = Inr db'"
  shows "cw20_history_events p None db' = cw20_history_events p None db \<and> event_ids_increase db'"
  using assms(1) by (simp only: cw20_history_events_eq event_ids_increase_def handleCw20Histories_rows [OF assms(2)] simp_thms)

lemma reindexHistory_eq:
  "reindexHistory ext n p prevId db =
    (let page = take n (filter (\<lambda>ev. prevId < ev_smart_contract_event_id ev) (cw20_history_events p None db)) in
     if page = [] then Inr (remove_cw20_reindex_job (ch_contractAddress p) db, None)
     else rbind (handleCw20Histories ext page db) (\<lambda>db'. Inr (db', Some (ev_smart_contract_event_id (last page)))))"
  by (simp only: reindexHistory_def cw20_history_events_page)

interpretation cw20_history: paged_job "cw20_history_events p None" ev_smart_contract_event_id "Suc n"
    "handleCw20Histories ext" "remove_cw20_reindex_job (ch_contractAddress p)" "reindexHistory ext (Suc n) p" event_ids_increase
  for ext n p
  by (unfold_locales, rule zero_less_Suc)
    (rule reindexHistory_eq cw20_history_increase cw20_history_keeps; assumption)+

section \<open>What the history stores\<close>

definition recorded20 :: "int \<Rightarrow> ('c, 'a) cw20_db_scheme \<Rightarrow> int multiset" where
  "recorded20 c db = mset (map ta_smart_contract_event_id (filter (\<lambda>a. ta_cw20_contract_id a = c) (cw20_activities db)))"

lemma histories_recorded:
  assumes "list_all2 (records ext) evs as"
  shows "map ta_smart_contract_event_id as = map ev_smart_contract_event_id evs"
  by (rule list_all2_map_eq [OF assms, symmetric]) (simp add: records_def)

lemma histories_recorded20:
  assumes "handleCw20Histories ext evs db = Inr db'" and "cw20_row_ok A n db" and "cw20_wf db"
  shows "recorded20 (tc_id n) db' = recorded20 (tc_id n) db +
      mset (map ev_smart_contract_event_id (filter (\<lambda>ev. ev_contract_address ev = A) evs))"
    and "cw20_row_ok A n db'" and "cw20_wf db'"
proof -
  from assms obtain acts where "cw20_activities db' = cw20_activities db @ acts"
    "list_all2 (records ext) (filter (\<lambda>ev. ev_contract_address ev = A) evs) (filter (\<lambda>a. ta_cw20_contract_id a = tc_id n) acts)"
    by (rule histories_of_contract)
  with histories_recorded show "recorded20 (tc_id n) db' = recorded20 (tc_id n) db +
      mset (map ev_smart_contract_event_id (filter (\<lambda>ev. ev_contract_address ev = A) evs))"
    by (fastforce simp: recorded20_def)
  from assms(1) obtain as q where db': "db' = db\<lparr>cw20_activities := as, cw20_activity_seq := q\<rparr>"
    by (rule handleCw20Histories_effect)
  show "cw20_row_ok A n db'" "cw20_wf db'" using assms(2,3) by (simp_all add: db' cw20_row_ok_def cw20_address_def cw20_wf_def)
qed

lemma history_pages_recorded20:
  assumes "rfold (handleCw20Histories ext) pages db = Inr db'" and "cw20_row_ok A n db" and "cw20_wf db"
  shows "recorded20 (tc_id n) db' = recorded20 (tc_id n) db +
      mset (map ev_smart_contract_event_id (filter (\<lambda>ev. ev_contract_address ev = A) (concat pages))) \<and>
    cw20_row_ok A n db' \<and> cw20_wf db' \<and> cw20_rows db' = cw20_rows db \<and> block_checkpoint db' = block_checkpoint db"
  using assms
proof (induction pages arbitrary: db)
  case (Cons page pages)
  from Cons.prems(1) obtain db1 where page: "handleCw20Histories ext page db = Inr db1"
    and rest: "rfold (handleCw20Histories ext) pages db1 = Inr db'" by (auto simp: rbind_eq_Inr)
  note eff = histories_recorded20 [OF page Cons.prems(2,3)]
  have "block_checkpoint db1 = block_checkpoint db" by (rule handleCw20Histories_effect [OF page]) simp
  with Cons.IH [OF rest eff(2,3)] eff(1) handleCw20Histories_rows(1) [OF page] show ?case by simp
qed simp

lemma run_cw20_history:
  assumes "run_pages (reindexHistory ext limit p) prevId db = Some (Inr db')" and "0 < limit" and "event_ids_increase db"
  obtains db1 where "db' = remove_cw20_reindex_job (ch_contractAddress p) db1"
    "rfold (handleCw20Histories ext) (chunks limit (filter (\<lambda>ev. prevId < ev_smart_contract_event_id ev) (cw20_history_events p None db))) db = Inr db1"
proof -
  have "rbind (rfold (handleCw20Histories ext)
        (chunks limit (filter (\<lambda>ev. prevId < ev_smart_contract_event_id ev) (cw20_history_events p None db))) db)
      (\<lambda>db'. Inr (remove_cw20_reindex_job (ch_contractAddress p) db')) = Inr db'"
    using cw20_history.run_pages_result [OF assms(3), of ext "limit - 1" p prevId] assms(1,2) by simp
  with that show thesis by (auto simp: rbind_eq_Inr)
qed

lemma cw20_transaction_recorded:
  assumes "cw20_transaction ext evs row db = Some (Inr db')" and "cw20_row_ok A n db" and "cw20_wf db"
  shows "recorded20 (tc_id n) db' = recorded20 (tc_id n) db +
    mset (map ev_smart_contract_event_id (filter (\<lambda>ev. ev_contract_address ev = A) evs))"
proof -
  from assms obtain acts where "cw20_activities db' = cw20_activities db @ acts"
    "list_all2 (records ext) (filter (\<lambda>ev. ev_contract_address ev = A) evs) (filter (\<lambda>a. ta_cw20_contract_id a = tc_id n) acts)"
    by (rule cw20_transaction_effect)
  with histories_recorded show ?thesis by (fastforce simp: recorded20_def)
qed

text \<open>What a run of the range job that succeeds and passes a height adds for the contract.\<close>

lemma jobHandleCw20_recorded:
  assumes "jobHandleCw20 cfg ext db = Some (db', None)" and "cw20_row_ok A n db" and "cw20_wf db"
    and "cw20_pos cfg db < cw20_end cfg db"
  shows "recorded20 (tc_id n) db' = recorded20 (tc_id n) db + mset (map ev_smart_contract_event_id
    (filter (\<lambda>ev. ev_contract_address ev = A) (cw20_events (cw20_pos cfg db) (cw20_end cfg db) db)))"
  using assms(1)
proof (cases rule: jobHandleCw20_cases)
  case (stored dbs db2 evs)
  from stored(2) obtain st where dbs: "dbs = db\<lparr>cw20_stats := st\<rparr>" by (rule handleStatistic_effect)
  have ok: "cw20_row_ok A n dbs" "cw20_wf dbs" using assms(2,3) by (simp_all add: dbs cw20_row_ok_def cw20_address_def cw20_wf_def)
  have "evs = cw20_events (cw20_pos cfg db) (cw20_end cfg db) db"
    unfolding stored(4) cw20_events_eq by (simp add: dbs cw20_rows_cong [of "db\<lparr>cw20_stats := st\<rparr>" db])
  with cw20_transaction_recorded [OF stored(5) ok] show ?thesis by (simp add: stored(6) UpdateByContract_def recorded20_def dbs)
qed (use assms(4) in auto)

section \<open>Properties\<close>

definition sample_cw20_history :: cw20_history_params where
  "sample_cw20_history = \<lparr>ch_smartContractId = 1, ch_startBlock = 0, ch_endBlock = 2, ch_contractAddress = ''aura1c''\<rparr>"

text \<open>
  The history job that reindexing starts and the range job both store the activities of the
  heights that the range job has not passed yet: an event of such a height, which the history job
  has stored, is stored again by the next run of the range job.
\<close>

theorem cw20_history_repeats:
  assumes "run_pages (reindexHistory ext limit p) 0 db = Some (Inr db1)" and "0 < limit" and "event_ids_increase db"
    and "cw20_row_ok A n db" and "cw20_wf db" and "jobHandleCw20 cfg ext db1 = Some (db2, None)"
    and "(h, ev) \<in> set (cw20_rows db)" and "ev_contract_address ev = A" and "ev_smart_contract_id ev = ch_smartContractId p"
    and "0 < ev_smart_contract_event_id ev" and "in_range (ch_startBlock p) (ch_endBlock p) h"
    and "in_range (cw20_pos cfg db) (cw20_end cfg db) h"
  shows "2 \<le> count (recorded20 (tc_id n) db2) (ev_smart_contract_event_id ev)"
proof -
  let ?pages = "chunks limit (filter (\<lambda>ev. 0 < ev_smart_contract_event_id ev) (cw20_history_events p None db))"
  let ?i = "ev_smart_contract_event_id ev"
  from assms(1-3) obtain db0 where db1: "db1 = remove_cw20_reindex_job (ch_contractAddress p) db0"
    and pages: "rfold (handleCw20Histories ext) ?pages db = Inr db0" by (rule run_cw20_history)
  note hist = history_pages_recorded20 [OF pages assms(4,5)]
  have rows: "cw20_rows db1 = cw20_rows db0"
    by (rule cw20_rows_cong) (simp_all add: db1 remove_cw20_reindex_job_def)
  have same: "recorded20 (tc_id n) db1 = recorded20 (tc_id n) db0" "block_checkpoint db1 = block_checkpoint db0"
    by (simp_all add: db1 remove_cw20_reindex_job_def recorded20_def)
  have "ev \<in> set (cw20_history_events p None db)" using assms(7,9,11) by (force simp: cw20_history_events_eq)
  then have "?i \<in># mset (map ev_smart_contract_event_id (filter (\<lambda>ev. ev_contract_address ev = A) (concat ?pages)))"
    using assms(8,10) by simp
  then have "1 \<le> count (recorded20 (tc_id n) db1) ?i" 
    unfolding count_greater_eq_one_iff same(1) conjunct1 [OF hist] by simp
  moreover have "ev \<in> set (cw20_events (cw20_pos cfg db1) (cw20_end cfg db1) db1)"
    using assms(7,12) hist rows same by (force simp: cw20_events_eq)
  then have "?i \<in># mset (map ev_smart_contract_event_id (filter (\<lambda>ev. ev_contract_address ev = A)
      (cw20_events (cw20_pos cfg db1) (cw20_end cfg db1) db1)))"
    using assms(8) by simp
  then have "1 \<le> count (mset (map ev_smart_contract_event_id (filter (\<lambda>ev. ev_contract_address ev = A)
      (cw20_events (cw20_pos cfg db1) (cw20_end cfg db1) db1)))) ?i" by (simp only: count_greater_eq_one_iff)
  moreover have "cw20_row_ok A n db1" "cw20_wf db1"
    using hist by (simp_all add: db1 remove_cw20_reindex_job_def cw20_row_ok_def cw20_address_def cw20_wf_def)
  moreover have "cw20_pos cfg db1 < cw20_end cfg db1" using assms(12) hist same(2) by (simp add: in_range_def)
  ultimately show ?thesis unfolding jobHandleCw20_recorded [OF assms(6) \<open>cw20_row_ok A n db1\<close> \<open>cw20_wf db1\<close>
      \<open>cw20_pos cfg db1 < cw20_end cfg db1\<close>] count_union by linarith
qed

theorem cw20_history_repeats_witness:
  "\<exists>db1 db2. run_pages (reindexHistory sample_cw20_ext 1 sample_cw20_history) 0 sample_cw20_db = Some (Inr db1) \<and>
    jobHandleCw20 sample_wasm_config sample_cw20_ext db1 = Some (db2, None) \<and> 2 \<le> count (recorded20 7 db2) 2"
proof -
  let ?evs = "filter (\<lambda>ev. 0 < ev_smart_contract_event_id ev) (cw20_history_events sample_cw20_history None sample_cw20_db)"
  let ?r = "rbind (rfold (handleCw20Histories sample_cw20_ext) (chunks 1 ?evs) sample_cw20_db)
      (\<lambda>db'. Inr (remove_cw20_reindex_job (ch_contractAddress sample_cw20_history) db'))"
  let ?db1 = "projr ?r"
  let ?job = "jobHandleCw20 sample_wasm_config sample_cw20_ext ?db1"
  have ids: "event_ids_increase sample_cw20_db"
    by (simp add: event_ids_increase_def sample_cw20_db_def sample_cw20_event_def)
  have "\<not> isl ?r" by code_simp
  then have hist: "run_pages (reindexHistory sample_cw20_ext 1 sample_cw20_history) 0 sample_cw20_db = Some (Inr ?db1)"
    using cw20_history.run_pages_result [OF ids, of sample_cw20_ext 0 sample_cw20_history 0] by simp
  have "map_option snd ?job = Some None" by code_simp
  then have job: "?job = Some (fst (the ?job), None)" by (cases ?job) (auto simp: prod_eq_iff)
  have row: "cw20_row_ok ''aura1c'' sample_cw20_contract sample_cw20_db"
    by (simp add: cw20_row_ok_def sample_cw20_db_def sample_cw20_contract_def cw20_address_def sample_wasm_contract_def)
  let ?ev = "snd (cw20_rows sample_cw20_db ! 1)"
  have "length (cw20_rows sample_cw20_db) = 2" "fst (cw20_rows sample_cw20_db ! 1) = 2" by code_simp+
  then have "(2, ?ev) \<in> set (cw20_rows sample_cw20_db)" by (metis nth_mem one_less_numeral_iff prod.collapse semiring_norm(76))
  moreover have "ev_contract_address ?ev = ''aura1c''" "ev_smart_contract_id ?ev = ch_smartContractId sample_cw20_history"
    "0 < ev_smart_contract_event_id ?ev" "in_range (ch_startBlock sample_cw20_history) (ch_endBlock sample_cw20_history) 2"
    "in_range (cw20_pos sample_wasm_config sample_cw20_db) (cw20_end sample_wasm_config sample_cw20_db) 2"
    "ev_smart_contract_event_id ?ev = 2" "tc_id sample_cw20_contract = 7"
    by code_simp+
  ultimately have "2 \<le> count (recorded20 7 (fst (the ?job))) 2"
    using cw20_history_repeats [OF hist _ ids row sample_cw20_wf job, of 2 ?ev] by simp
  with hist job show ?thesis by blast
qed

text \<open>
  Reindexing queues the update of the heights between the answers of the balances before it
  starts the history job. An update that is served before the history job has stored anything
  finds no activity of the new contract row, and changes nothing.
\<close>

theorem cw20_reindex_update_idle:
  assumes "cw20_reindex_job cfg ext payload db = Some (Inr (db', h))" and "cw20_update_jobs db = []"
    and "list_all (\<lambda>a. ta_cw20_contract_id a < cw20_contract_seq db) (cw20_activities db)"
    and "p \<in> set (cw20_update_jobs db')"
  shows "jobHandle p db' = Inr db'"
proof -
  from assms(1) obtain addr sc info track es where rep: "replace_cw20_contract addr sc info track es db = Inr db'"
    by (auto simp: cw20_reindex_job_def rbind_eq_Inr case_prod_beta split: sum.splits)
  define db1 where "db1 = (case cw20_contract_at addr db of None \<Rightarrow> db | Some n \<Rightarrow> delete_cw20_contract (tc_id n) db)"
  from rep obtain db2 where ins: "insert_cw20_graph sc info track es (min_height es) db1 = Inr db2"
    and db': "db' = UpdateByContract [(cw20_contract_seq db1, min_height es)] (min_height es) (max_height es) db2"
    unfolding replace_cw20_contract_def Let_def db1_def [symmetric] rbind_eq_Inr by blast
  have db1: "cw20_update_jobs db1 = []" "cw20_contract_seq db1 = cw20_contract_seq db"
    "set (cw20_activities db1) \<subseteq> set (cw20_activities db)"
    using assms(2) by (auto simp: db1_def delete_cw20_contract_def split: option.split)
  have "ub_cw20ContractId p = cw20_contract_seq db"
    using assms(4) db1 by (auto simp: db' UpdateByContract_def insert_cw20_graph_effect(1) [OF ins] map_filter_simps split: if_splits)
  moreover have "cw20_activities db' = cw20_activities db1"
    by (simp add: db' UpdateByContract_def insert_cw20_graph_effect(1) [OF ins])
  ultimately have "filter (\<lambda>a. ta_cw20_contract_id a = ub_cw20ContractId p \<and>
      in_range (ub_startBlock p) (ub_endBlock p) (ta_height a)) (cw20_activities db') = []"
    using assms(3) db1(3) by (fastforce simp: filter_empty_conv list_all_iff)
  then show ?thesis by (simp add: jobHandle_def Let_def)
qed

lemma sample_cw20_balances:
  "getInstantiateBalances sample_cw20_ext ''aura1c'' =
    Some (Inr [\<lparr>he_address = ''aura1o'', he_amount = 5, he_event_height = 1\<rparr>, \<lparr>he_address = ''aura1p'', he_amount = 3, he_event_height = 2\<rparr>])"
proof -
  have "pages_of (all_accounts sample_cw20_ext ''aura1c'') 1 [''aura1o'', ''aura1p'']"
    by (auto simp: pages_of_def sample_cw20_ext_def Cons_eq_append_conv)
  from all_pages_complete [OF this] show ?thesis by (simp add: getInstantiateBalances_def) (simp add: sample_cw20_ext_def)
qed

theorem cw20_reindex_update_idle_witness:
  "\<exists>db' h p. cw20_reindex_job sample_wasm_config sample_cw20_ext (''aura1c'', 1) sample_cw20_db = Some (Inr (db', h)) \<and>
    cw20_update_jobs db' = [p] \<and> jobHandle p db' = Inr db'"
proof -
  let ?es = "[\<lparr>he_address = ''aura1o'', he_amount = 5, he_event_height = 1\<rparr>, \<lparr>he_address = ''aura1p'', he_amount = 3, he_event_height = 2\<rparr>]"
  let ?r = "replace_cw20_contract ''aura1c'' 1 (Some \<lparr>ci_address = ''aura1c'', ci_symbol = None, ci_minter = None,
      ci_decimal = None, ci_marketing_info = None, ci_name = None\<rparr>) True ?es sample_cw20_db"
  let ?p = "\<lparr>ub_cw20ContractId = 8, ub_startBlock = 1, ub_endBlock = 2\<rparr>"
  have "\<not> isl ?r" "cw20_update_jobs (projr ?r) = [?p]" by code_simp+
  then obtain db' where rep: "?r = Inr db'" and jobs: "cw20_update_jobs db' = [?p]" by (metis sum.collapse(2))
  have info: "getContractsInfo sample_cw20_ext [''aura1c''] = Inr [\<lparr>ci_address = ''aura1c'', ci_symbol = None, ci_minter = None,
      ci_decimal = None, ci_marketing_info = None, ci_name = None\<rparr>]"
    by code_simp
  obtain h where job: "cw20_reindex_job sample_wasm_config sample_cw20_ext (''aura1c'', 1) sample_cw20_db = Some (Inr (db', h))"
    using rep by (simp add: cw20_reindex_job_def info sample_cw20_balances balances_or_untracked_def)
  have "cw20_update_jobs sample_cw20_db = []" "cw20_activities sample_cw20_db = []" by (simp_all add: sample_cw20_db_def)
  with cw20_reindex_update_idle [OF job, of ?p] jobs have "jobHandle ?p db' = Inr db'" by simp
  with job jobs show ?thesis by blast
qed

end
