(* ===== verification/Graphql.thy ===== *)
theory Graphql
  imports Json Complex_Main
begin

text \<open>
  The gateway of GraphQL queries: what \<^verbatim>\<open>handleGraphQLQuery\<close> of
  \<^verbatim>\<open>src/services/api-gateways/graphiql.service.ts\<close> checks before it sends a query on, with the traversals of
  the syntax tree in \<^verbatim>\<open>src/common/utils/utils.ts\<close>. A syntax tree is the object that the parser returns.
\<close>

section \<open>Traversals of the syntax tree\<close>

definition is_object :: "json \<Rightarrow> bool" where
  "is_object j = (case j of JObj _ \<Rightarrow> True | JArr _ \<Rightarrow> True | _ \<Rightarrow> False)"

text \<open>
  The objects inside an object in the order in which the recursive functions of \<^verbatim>\<open>utils.ts\<close> visit them: the
  inside of a value before the value.
\<close>

function descendants :: "json \<Rightarrow> json list" where
  "descendants j = concat (map (\<lambda>v. if is_object v then descendants v @ [v] else []) (children j))"
  by pat_completeness auto

termination descendants
  by (relation "measure size") (simp_all add: size_children)

declare descendants.simps [simp del]

text \<open>\<^verbatim>\<open>node.kind\<close> and \<^verbatim>\<open>node.name.value\<close>\<close>

definition has_kind :: "string \<Rightarrow> json \<Rightarrow> bool" where
  "has_kind kind node \<longleftrightarrow> json_opt (Some node) ''kind'' = Some (JStr kind)"

definition node_name :: "json \<Rightarrow> json option res" where
  "node_name node = rbind (json_get node ''name'') (\<lambda>name. rbind (need name) (\<lambda>name. json_get name ''value''))"

definition named :: "string list \<Rightarrow> json \<Rightarrow> bool res" where
  "named names node = rbind (node_name node) (\<lambda>v. Inr (v \<in> Some ` JStr ` set names))"

text \<open>\<^verbatim>\<open>a && b\<close> where \<^verbatim>\<open>b\<close> may throw\<close>

definition rand :: "bool \<Rightarrow> bool res \<Rightarrow> bool res" where
  "rand a b = (if a then b else Inr False)"

text \<open>\<^verbatim>\<open>array.filter\<close>, \<^verbatim>\<open>array.find\<close> with a test that may throw\<close>

fun rfilter :: "('x \<Rightarrow> bool res) \<Rightarrow> 'x list \<Rightarrow> 'x list res" where
  "rfilter p [] = Inr []"
| "rfilter p (x # xs) = rbind (p x) (\<lambda>b. rbind (rfilter p xs) (\<lambda>ys. Inr (if b then x # ys else ys)))"

fun rfind :: "('x \<Rightarrow> bool res) \<Rightarrow> 'x list \<Rightarrow> 'x option res" where
  "rfind p [] = Inr None"
| "rfind p (x # xs) = rbind (p x) (\<lambda>b. if b then Inr (Some x) else rfind p xs)"

text \<open>An object field whose name is not an operator: \<^verbatim>\<open>!name.match('^_.')\<close>\<close>

definition condition_field :: "json \<Rightarrow> bool res" where
  "condition_field node =
     rand (has_kind ''ObjectField'' node)
       (rbind (node_name node) (\<lambda>v.
          case v of
            Some (JStr (c # d # _)) \<Rightarrow> Inr (\<not> (c = CHR ''_'' \<and> d \<noteq> CHR 0x0A \<and> d \<noteq> CHR 0x0D))
          | Some (JStr _) \<Rightarrow> Inr True
          | _ \<Rightarrow> Inl TypeError))"

function getDepth :: "json \<Rightarrow> int res" where
  "getDepth object =
     (if is_object object
      then rbind (condition_field object) (\<lambda>b.
           rbind (rmap getDepth (children object)) (\<lambda>ds.
             Inr ((if b then 1 else 0) + fold max ds (- 1))))
      else Inr 0)"
  by pat_completeness auto

termination getDepth
  by (relation "measure size") (simp_all add: size_children)

declare getDepth.simps [simp del]

definition filterWhereQuery :: "json option \<Rightarrow> json list res" where
  "filterWhereQuery object =
     (case object of
        None \<Rightarrow> Inr []
      | Some j \<Rightarrow> rfilter (\<lambda>v. rand (has_kind ''Argument'' v) (named [''where''] v)) (descendants j))"

section \<open>Heights in conditions\<close>

text \<open>Numbers of JavaScript as far as they are compared here.\<close>

datatype js_num = NaN | Num rat | Infinite bool

fun num_sub :: "js_num \<Rightarrow> js_num \<Rightarrow> js_num" where
  "num_sub (Num x) (Num y) = Num (x - y)"
| "num_sub (Num x) (Infinite pos) = Infinite (\<not> pos)"
| "num_sub (Infinite pos) (Num y) = Infinite pos"
| "num_sub (Infinite p) (Infinite q) = (if p = q then NaN else Infinite p)"
| "num_sub _ _ = NaN"

fun num_abs :: "js_num \<Rightarrow> js_num" where
  "num_abs NaN = NaN"
| "num_abs (Num x) = Num \<bar>x\<bar>"
| "num_abs (Infinite _) = Infinite True"

fun num_max :: "js_num \<Rightarrow> js_num \<Rightarrow> js_num" where
  "num_max NaN _ = NaN"
| "num_max _ NaN = NaN"
| "num_max (Num x) (Num y) = Num (max x y)"
| "num_max (Infinite pos) b = (if pos then Infinite True else b)"
| "num_max a (Infinite pos) = (if pos then Infinite True else a)"

fun num_gt :: "js_num \<Rightarrow> rat \<Rightarrow> bool" where
  "num_gt NaN _ = False"
| "num_gt (Num x) limit = (limit < x)"
| "num_gt (Infinite pos) _ = pos"

text \<open>
  The parts of the environment: the parser (\<^verbatim>\<open>gql\<close>), the number the language reads from a text, and the answer of the
  GraphQL engine to a query that is sent on.
\<close>

record graphql_params =
  operationName :: string
  query :: string
  variables :: json

datatype hasura_answer = Answer json | Refused json | Failed string string

record graphql_ext =
  gql :: "string \<Rightarrow> json option"
  string_number :: "string \<Rightarrow> js_num"
  hasura :: "graphql_params \<Rightarrow> hasura_answer"

definition js_Number :: "graphql_ext \<Rightarrow> json option \<Rightarrow> js_num" where
  "js_Number ext v =
     (case v of
        None \<Rightarrow> NaN
      | Some JNull \<Rightarrow> Num 0
      | Some (JBool b) \<Rightarrow> Num (if b then 1 else 0)
      | Some (JNum n) \<Rightarrow> Num (of_int n)
      | Some (JStr s) \<Rightarrow> string_number ext s
      | Some _ \<Rightarrow> NaN)"

text \<open>\<^verbatim>\<open>array.find(...)\<close> on a property that has to be an array\<close>

definition found_in :: "(json \<Rightarrow> bool res) \<Rightarrow> json option \<Rightarrow> json option res" where
  "found_in p v = (case v of Some (JArr xs) \<Rightarrow> rfind p xs | _ \<Rightarrow> Inl TypeError)"

text \<open>The mutable variables of \<open>isQueryNeedCondition\<close>: \<^verbatim>\<open>whereHeight\<close> and \<^verbatim>\<open>heightRange\<close>.\<close>

type_synonym height_state = "json option \<times> js_num"

definition findConditionInObj :: "string list \<Rightarrow> json \<Rightarrow> height_state \<Rightarrow> height_state res" where
  "findConditionInObj condition obj st =
     rbind (rfilter (\<lambda>v. rand (has_kind ''ObjectField'' v) (named condition v)) (descendants obj)) (\<lambda>found.
       Inr (case rev found of [] \<Rightarrow> st | v # _ \<Rightarrow> (Some v, snd st)))"

text \<open>\<^verbatim>\<open>limit.value.value\<close>\<close>

definition limit_value :: "json \<Rightarrow> json option res" where
  "limit_value field = rbind (json_get field ''value'') (\<lambda>v. rbind (need v) (\<lambda>v. json_get v ''value''))"

definition checkCondition :: "graphql_ext \<Rightarrow> string list \<Rightarrow> json \<Rightarrow> height_state \<Rightarrow> (bool \<times> height_state) res" where
  "checkCondition ext condition obj st =
     rbind (findConditionInObj condition obj st) (\<lambda>st'.
       case fst st' of
         None \<Rightarrow> Inr (False, st')
       | Some whereHeight \<Rightarrow>
           rbind (rbind (json_get whereHeight ''value'') (\<lambda>v. rbind (need v) (\<lambda>v. json_get v ''fields''))) (\<lambda>fields.
           rbind (found_in (named [''_eq'']) fields) (\<lambda>isEqual.
           if isEqual \<noteq> None then Inr (True, st')
           else
             rbind (found_in (named [''_lt'', ''_lte'']) fields) (\<lambda>upperLimit.
             rbind (found_in (named [''_gt'', ''_gte'']) fields) (\<lambda>lowerLimit.
               case (lowerLimit, upperLimit) of
                 (Some l, Some u) \<Rightarrow>
                   rbind (limit_value u) (\<lambda>uv.
                   rbind (limit_value l) (\<lambda>lv.
                     Inr (True, (fst st', num_max (num_abs (num_sub (js_Number ext uv) (js_Number ext lv))) (snd st')))))
               | _ \<Rightarrow> Inr (False, st'))))))"

text \<open>\<^verbatim>\<open>array.some(...)\<close> with a test that updates the variables\<close>

fun rsome :: "('x \<Rightarrow> 's \<Rightarrow> (bool \<times> 's) res) \<Rightarrow> 'x list \<Rightarrow> 's \<Rightarrow> (bool \<times> 's) res" where
  "rsome f [] s = Inr (False, s)"
| "rsome f (x # xs) s = rbind (f x s) (\<lambda>(b, s'). if b then Inr (True, s') else rsome f xs s')"

definition where_argument :: "json \<Rightarrow> json option res" where
  "where_argument node = rbind (json_get node ''arguments'') (found_in (named [''where'']))"

text \<open>The fields and the conditions that have to name a height.\<close>

definition extractFieldNeedHeightArgument :: "string list \<Rightarrow> json \<Rightarrow> (json list \<times> json list) res" where
  "extractFieldNeedHeightArgument relations obj =
     rbind (rfilter (\<lambda>v. rand (has_kind ''Field'' v) (named relations v)) (descendants obj)) (\<lambda>fields.
     rbind (rfilter (\<lambda>v. rand (has_kind ''ObjectField'' v) (named relations v)) (descendants obj)) (\<lambda>conds.
       Inr (fields, conds)))"

definition isQueryNeedCondition ::
  "graphql_ext \<Rightarrow> json \<Rightarrow> string list \<Rightarrow> string list \<Rightarrow> string list \<Rightarrow> (bool \<times> js_num) res"
where
  "isQueryNeedCondition ext object models relations condition =
     rbind (rand (has_kind ''Field'' object) (named models object)) (\<lambda>isModel.
     rbind (extractFieldNeedHeightArgument relations object) (\<lambda>(fields, resultRelations).
     let result = (if isModel then [object] else []) @ fields;
         check = (\<lambda>res st. rbind (where_argument res) (\<lambda>whereArg.
                    case whereArg of None \<Rightarrow> Inr (False, st) | Some w \<Rightarrow> checkCondition ext condition w st)) in
     rbind (if result = [] then Inr (True, (None, Num 0)) else rsome check result (None, Num 0)) (\<lambda>(response, st).
     rbind (if resultRelations = [] then Inr (response, st) else rsome (checkCondition ext condition) resultRelations st)
       (\<lambda>(response', st'). Inr (response', snd st')))))"
section \<open>The handler\<close>

record graphql_config =
  depthLimit :: int
  rootWhereDepthLimit :: int
  subWhereDepthLimit :: int
  queryNeedWhereModel :: "string list"
  queryNeedWhereRelation :: "string list"
  queryNeedWhereCondition :: "string list"
  queryHeightRangeLimit :: rat
  queryWhitelist :: "string list"

datatype query_error =
    InvalidQuery
  | NotAQuery
  | TooDeep
  | RootWhereTooDeep
  | SubWhereTooDeep
  | NoHeight
  | HeightRangeTooWide

text \<open>What the caller gets: a rejection, or what became of the query that was sent on.\<close>

datatype query_result = Rejected query_error | Successful json | BadRequest json | EngineError string string

definition only_queries :: "json list \<Rightarrow> bool" where
  "only_queries definitions =
     list_all (\<lambda>d. json_opt (Some d) ''operation'' = Some (JStr ''query'') \<or> has_kind ''FragmentDefinition'' d) definitions"

text \<open>\<^verbatim>\<open>query.replaceAll(' ', '').replaceAll('\n', '')\<close>\<close>

definition squeezed :: "string \<Rightarrow> string" where
  "squeezed text = filter (\<lambda>c. c \<noteq> CHR '' '' \<and> c \<noteq> CHR 0x0A) text"

text \<open>The loop over the characters of the query: the open brackets and whether the position is in parentheses.\<close>

fun too_deep :: "int \<Rightarrow> int \<Rightarrow> bool \<Rightarrow> string \<Rightarrow> bool" where
  "too_deep limit openBrackets isWhere [] = False"
| "too_deep limit openBrackets isWhere (c # cs) =
     (let isWhere' = (if c = CHR ''('' then True else if c = CHR '')'' then False else isWhere);
          open' = (if c = CHR 0x7B \<and> \<not> isWhere' then openBrackets + 1
                   else if c = CHR 0x7D \<and> \<not> isWhere' then openBrackets - 1 else openBrackets)
      in if open' > limit then True else too_deep limit open' isWhere' cs)"

text \<open>\<^verbatim>\<open>node.selectionSet.selections\<close>\<close>

definition selections :: "json \<Rightarrow> json option res" where
  "selections node = rbind (json_get node ''selectionSet'') (\<lambda>s. rbind (need s) (\<lambda>s. json_get s ''selections''))"

definition for_each :: "(json \<Rightarrow> 's \<Rightarrow> 's res) \<Rightarrow> json option \<Rightarrow> 's \<Rightarrow> 's res" where
  "for_each f v s = (case v of Some (JArr xs) \<Rightarrow> rfold f xs s | _ \<Rightarrow> Inl TypeError)"

text \<open>The checks of a field below the root; an earlier error is kept, except that the first check overwrites it.\<close>

definition check_root_where :: "graphql_config \<Rightarrow> json \<Rightarrow> query_error option \<Rightarrow> query_error option res" where
  "check_root_where cfg sel result =
     rbind (json_get sel ''arguments'') (\<lambda>args.
     rbind (case args of None \<Rightarrow> Inr None | Some JNull \<Rightarrow> Inr None | _ \<Rightarrow> found_in (named [''where'']) args) (\<lambda>whereArg.
       case whereArg of
         None \<Rightarrow> Inr result
       | Some w \<Rightarrow> rbind (getDepth w) (\<lambda>d. Inr (if d > rootWhereDepthLimit cfg + 1 then Some RootWhereTooDeep else result))))"

definition check_sub_where :: "graphql_config \<Rightarrow> json \<Rightarrow> query_error option \<Rightarrow> query_error option res" where
  "check_sub_where cfg sel result =
     (if result = None
      then rbind (json_get sel ''selectionSet'') (\<lambda>s.
           rbind (filterWhereQuery s) (\<lambda>subWhere.
             rfold (\<lambda>sub r. rbind (getDepth sub) (\<lambda>d. Inr (if d > subWhereDepthLimit cfg + 1 then Some SubWhereTooDeep else r)))
               subWhere result))
      else Inr result)"

definition check_height :: "graphql_config \<Rightarrow> graphql_ext \<Rightarrow> json \<Rightarrow> query_error option \<Rightarrow> query_error option res" where
  "check_height cfg ext sel result =
     (if result = None
      then rbind (isQueryNeedCondition ext sel (queryNeedWhereModel cfg) (queryNeedWhereRelation cfg) (queryNeedWhereCondition cfg))
             (\<lambda>(heightCondition, heightRange).
               let r = (if heightCondition then result else Some NoHeight) in
               Inr (if num_gt heightRange (queryHeightRangeLimit cfg) then Some HeightRangeTooWide else r))
      else Inr result)"

definition check_field :: "graphql_config \<Rightarrow> graphql_ext \<Rightarrow> json \<Rightarrow> query_error option \<Rightarrow> query_error option res" where
  "check_field cfg ext sel result =
     rbind (check_root_where cfg sel result) (\<lambda>r. rbind (check_sub_where cfg sel r) (check_height cfg ext sel))"

text \<open>\<^verbatim>\<open>selection.selectionSet?.selections\<close>; a field without one throws.\<close>

definition check_selection :: "graphql_config \<Rightarrow> graphql_ext \<Rightarrow> json \<Rightarrow> query_error option \<Rightarrow> query_error option res" where
  "check_selection cfg ext selection result =
     rbind (json_get selection ''selectionSet'') (\<lambda>s.
       case s of
         None \<Rightarrow> Inl TypeError
       | Some s \<Rightarrow> rbind (json_get s ''selections'') (\<lambda>sels. for_each (check_field cfg ext) sels result))"

definition check_query :: "graphql_config \<Rightarrow> graphql_ext \<Rightarrow> string \<Rightarrow> json list \<Rightarrow> query_error option res" where
  "check_query cfg ext text definitions =
     (if squeezed text \<in> set (queryWhitelist cfg) then Inr None
      else if too_deep (depthLimit cfg + 2) 0 False text then Inr (Some TooDeep)
      else
        (case definitions of
           [] \<Rightarrow> Inl TypeError
         | d # _ \<Rightarrow> rbind (selections d) (\<lambda>sels. for_each (check_selection cfg ext) sels None)))"

definition send_query :: "graphql_ext \<Rightarrow> graphql_params \<Rightarrow> query_result" where
  "send_query ext params =
     (case hasura ext params of Answer data \<Rightarrow> Successful data | Refused errors \<Rightarrow> BadRequest errors | Failed code msg \<Rightarrow> EngineError code msg)"

definition handleGraphQLQuery :: "graphql_config \<Rightarrow> graphql_ext \<Rightarrow> graphql_params \<Rightarrow> query_result res" where
  "handleGraphQLQuery cfg ext params =
     (case gql ext (query params) of
        None \<Rightarrow> Inr (Rejected InvalidQuery)
      | Some graphqlObj \<Rightarrow>
          rbind (json_get graphqlObj ''definitions'') (\<lambda>defs.
          case defs of
            Some (JArr definitions) \<Rightarrow>
              if \<not> only_queries definitions then Inr (Rejected NotAQuery)
              else rbind (check_query cfg ext (query params) definitions) (\<lambda>r.
                Inr (case r of Some e \<Rightarrow> Rejected e | None \<Rightarrow> send_query ext params))
          | _ \<Rightarrow> Inl TypeError))"

end
