(* ===== verification/Graphql_Limits.thy ===== *)
theory Graphql_Limits
  imports Graphql
begin

text \<open>
  What the checks of the GraphQL gateway guarantee for a query that is sent on, and which queries pass them
  although they should not.
\<close>

section \<open>A query that is sent on\<close>

lemma query_error_sticks:
  "check_root_where cfg sel (Some e) = Inr r \<Longrightarrow> r \<noteq> None"
  "check_sub_where cfg sel (Some e) = Inr (Some e)" "check_height cfg ext sel (Some e) = Inr (Some e)"
  by (auto simp: check_root_where_def check_sub_where_def check_height_def rbind_eq_Inr split: option.splits if_splits)

lemma check_field_sticks: "check_field cfg ext sel (Some e) = Inr r \<Longrightarrow> r \<noteq> None"
  using query_error_sticks(1) by (fastforce simp: check_field_def rbind_eq_Inr query_error_sticks)

text \<open>A loop over an error state that cannot go back to no error passes every element.\<close>

lemma rfold_no_error:
  assumes "\<And>x e r. f x (Some e) = Inr r \<Longrightarrow> r \<noteq> None"
  shows "rfold f xs None = Inr None \<longleftrightarrow> (\<forall>x\<in>set xs. f x None = Inr None)"
    and "rfold f xs (Some e) = Inr r \<Longrightarrow> r \<noteq> None"
proof -
  show stick: "rfold f xs (Some e) = Inr r \<Longrightarrow> r \<noteq> None" for e r
    by (induction xs arbitrary: e) (auto simp: rbind_eq_Inr dest: assms)
  show "rfold f xs None = Inr None \<longleftrightarrow> (\<forall>x\<in>set xs. f x None = Inr None)"
  proof (induction xs)
    case (Cons x xs)
    have stay: "rfold f ys (Some e) \<noteq> Inr None" for ys e
      by (induction ys arbitrary: e) (auto simp: rbind_eq_Inr dest: assms)
    have "rbind (f x None) (rfold f xs) = Inr None \<longleftrightarrow> f x None = Inr None \<and> rfold f xs None = Inr None"
    proof (cases "f x None")
      case (Inr r)
      with stay show ?thesis by (cases r) simp_all
    qed simp
    with Cons show ?case by simp
  qed simp
qed

lemma depth_checked:
  "rbind (getDepth w) (\<lambda>d. Inr (if d > limit then Some e else None)) = Inr None \<longleftrightarrow> (\<exists>d. getDepth w = Inr d \<and> d \<le> limit)"
  by (cases "getDepth w") simp_all

lemma check_sub_where_None:
  "check_sub_where cfg sel None = Inr None \<longleftrightarrow>
     (\<exists>s ws. json_get sel ''selectionSet'' = Inr s \<and> filterWhereQuery s = Inr ws \<and>
       (\<forall>w\<in>set ws. \<exists>d. getDepth w = Inr d \<and> d \<le> subWhereDepthLimit cfg + 1))"
proof -
  let ?f = "\<lambda>sub r. rbind (getDepth sub) (\<lambda>d. Inr (if d > subWhereDepthLimit cfg + 1 then Some SubWhereTooDeep else r))"
  have "rfold ?f ws None = Inr None \<longleftrightarrow> (\<forall>w\<in>set ws. ?f w None = Inr None)" for ws
    by (rule rfold_no_error(1)) (auto simp: rbind_eq_Inr split: if_splits)
  then have loop: "rfold ?f ws None = Inr None \<longleftrightarrow> (\<forall>w\<in>set ws. \<exists>d. getDepth w = Inr d \<and> d \<le> subWhereDepthLimit cfg + 1)" for ws
    by (simp only: depth_checked)
  show ?thesis unfolding check_sub_where_def rbind_eq_Inr if_P [OF refl] loop by blast
qed

lemma check_height_None:
  "check_height cfg ext sel None = Inr None \<longleftrightarrow>
     (\<exists>hr. isQueryNeedCondition ext sel (queryNeedWhereModel cfg) (queryNeedWhereRelation cfg) (queryNeedWhereCondition cfg) = Inr (True, hr) \<and>
       \<not> num_gt hr (queryHeightRangeLimit cfg))"
  by (auto simp: check_height_def rbind_eq_Inr Let_def split: if_splits)

text \<open>The where argument of a field, when it has one.\<close>

definition root_where :: "json \<Rightarrow> json option res" where
  "root_where sel =
     rbind (json_get sel ''arguments'') (\<lambda>args.
       case args of None \<Rightarrow> Inr None | Some JNull \<Rightarrow> Inr None | _ \<Rightarrow> found_in (named [''where'']) args)"

lemma check_root_where_None:
  "check_root_where cfg sel None = Inr None \<longleftrightarrow>
     (\<exists>w. root_where sel = Inr w \<and> (\<forall>j. w = Some j \<longrightarrow> (\<exists>d. getDepth j = Inr d \<and> d \<le> rootWhereDepthLimit cfg + 1)))"
proof -
  have "check_root_where cfg sel None =
      rbind (root_where sel) (\<lambda>w. case w of None \<Rightarrow> Inr None
        | Some j \<Rightarrow> rbind (getDepth j) (\<lambda>d. Inr (if d > rootWhereDepthLimit cfg + 1 then Some RootWhereTooDeep else None)))"
    by (simp add: check_root_where_def root_where_def rbind_assoc)
  moreover have "(case w of None \<Rightarrow> Inr None
        | Some j \<Rightarrow> rbind (getDepth j) (\<lambda>d. Inr (if d > rootWhereDepthLimit cfg + 1 then Some RootWhereTooDeep else None))) = Inr None \<longleftrightarrow>
      (\<forall>j. w = Some j \<longrightarrow> (\<exists>d. getDepth j = Inr d \<and> d \<le> rootWhereDepthLimit cfg + 1))" for w
    by (cases w) (simp_all only: depth_checked option.case option.inject option.distinct simp_thms)
  ultimately show ?thesis by (simp only: rbind_eq_Inr)
qed

text \<open>What the checks ask of a field below the root.\<close>

definition within_limits :: "graphql_config \<Rightarrow> graphql_ext \<Rightarrow> json \<Rightarrow> bool" where
  "within_limits cfg ext sel \<longleftrightarrow>
     (\<exists>w. root_where sel = Inr w \<and> (\<forall>j. w = Some j \<longrightarrow> (\<exists>d. getDepth j = Inr d \<and> d \<le> rootWhereDepthLimit cfg + 1))) \<and>
     (\<exists>s ws. json_get sel ''selectionSet'' = Inr s \<and> filterWhereQuery s = Inr ws \<and>
       (\<forall>w\<in>set ws. \<exists>d. getDepth w = Inr d \<and> d \<le> subWhereDepthLimit cfg + 1)) \<and>
     (\<exists>hr. isQueryNeedCondition ext sel (queryNeedWhereModel cfg) (queryNeedWhereRelation cfg) (queryNeedWhereCondition cfg) = Inr (True, hr) \<and>
       \<not> num_gt hr (queryHeightRangeLimit cfg))"

lemma check_field_None: "check_field cfg ext sel None = Inr None \<longleftrightarrow> within_limits cfg ext sel"
proof -
  have "check_field cfg ext sel None = Inr None \<longleftrightarrow>
      check_root_where cfg sel None = Inr None \<and> check_sub_where cfg sel None = Inr None \<and> check_height cfg ext sel None = Inr None"
    unfolding check_field_def rbind_eq_Inr by (metis not_None_eq query_error_sticks(2,3) sum.inject(2))
  then show ?thesis by (simp only: within_limits_def check_root_where_None check_sub_where_None check_height_None)
qed

text \<open>The fields below the root of an operation.\<close>

definition root_fields :: "json \<Rightarrow> json list res" where
  "root_fields d =
     rbind (selections d) (\<lambda>sels. case sels of
       Some (JArr xs) \<Rightarrow> rbind (rmap (\<lambda>x. rbind (selections x) (\<lambda>s. case s of Some (JArr ys) \<Rightarrow> Inr ys | _ \<Rightarrow> Inl TypeError)) xs)
         (\<lambda>yss. Inr (concat yss))
     | _ \<Rightarrow> Inl TypeError)"

lemma check_selection_alt:
  "check_selection cfg ext x r =
     rbind (rbind (selections x) (\<lambda>s. case s of Some (JArr ys) \<Rightarrow> Inr ys | _ \<Rightarrow> Inl TypeError))
       (\<lambda>ys. rfold (check_field cfg ext) ys r)"
  by (cases "json_get x ''selectionSet''")
    (auto simp: check_selection_def selections_def for_each_def rbind_def need_def split: option.splits sum.splits json.splits)

lemma check_selection_sticks: "check_selection cfg ext x (Some e) = Inr r \<Longrightarrow> r \<noteq> None"
  using rfold_no_error(2) [of "check_field cfg ext", OF check_field_sticks] by (auto simp: check_selection_alt rbind_eq_Inr)

lemma check_selections_None:
  "rbind (selections d) (\<lambda>sels. for_each (check_selection cfg ext) sels None) = Inr None \<longleftrightarrow>
     (\<exists>fields. root_fields d = Inr fields \<and> (\<forall>sel\<in>set fields. within_limits cfg ext sel))"
proof -
  let ?sub = "\<lambda>x. rbind (selections x) (\<lambda>s. case s of Some (JArr ys) \<Rightarrow> Inr ys | _ \<Rightarrow> Inl TypeError)"
  have one: "check_selection cfg ext x None = Inr None \<longleftrightarrow> (\<exists>ys. ?sub x = Inr ys \<and> (\<forall>sel\<in>set ys. within_limits cfg ext sel))" for x
    using rfold_no_error(1) [of "check_field cfg ext", OF check_field_sticks]
    by (simp add: check_selection_alt rbind_eq_Inr [where m = "?sub x"] check_field_None)
  have "(\<forall>x\<in>set xs. check_selection cfg ext x None = Inr None) \<longleftrightarrow>
      (\<exists>yss. rmap ?sub xs = Inr yss \<and> (\<forall>sel\<in>set (concat yss). within_limits cfg ext sel))" for xs
  proof (induction xs)
    case (Cons x xs)
    then show ?case unfolding one by (cases "?sub x") (auto simp: rbind_eq_Inr)
  qed simp
  then have "rfold (check_selection cfg ext) xs None = Inr None \<longleftrightarrow>
      (\<exists>yss. rmap ?sub xs = Inr yss \<and> (\<forall>sel\<in>set (concat yss). within_limits cfg ext sel))" for xs
    using rfold_no_error(1) [of "check_selection cfg ext", OF check_selection_sticks] by simp
  then show ?thesis
    by (cases "selections d") (auto simp: root_fields_def for_each_def rbind_eq_Inr split: option.splits json.splits)
qed
section \<open>The loop over the brackets\<close>

text \<open>The selections of a query as the caller writes them: a name, arguments in parentheses, selections in brackets.\<close>

datatype selection = Sel string "string option" "selection list"

fun show_selection :: "selection \<Rightarrow> string" where
  "show_selection (Sel name args subs) =
     name @ (case args of None \<Rightarrow> [] | Some a \<Rightarrow> CHR ''('' # a @ '')'') @
     (if subs = [] then [] else CHR 0x7B # concat (map show_selection subs) @ [CHR 0x7D])"

definition show_query :: "selection list \<Rightarrow> string" where
  "show_query subs = CHR 0x7B # concat (map show_selection subs) @ [CHR 0x7D]"

fun nesting :: "selection \<Rightarrow> int" where
  "nesting (Sel name args subs) = (if subs = [] then 0 else 1 + fold max (map nesting subs) 0)"

definition query_nesting :: "selection list \<Rightarrow> int" where
  "query_nesting subs = 1 + fold max (map nesting subs) 0"

fun plain_selection :: "selection \<Rightarrow> bool" where
  "plain_selection (Sel name args subs) \<longleftrightarrow>
     list_all (\<lambda>c. c \<notin> {CHR ''('', CHR '')'', CHR 0x7B, CHR 0x7D}) name \<and>
     (case args of None \<Rightarrow> True | Some a \<Rightarrow> list_all (\<lambda>c. c \<notin> {CHR ''('', CHR '')''}) a) \<and> list_all plain_selection subs"

lemma too_deep_text:
  "n \<le> limit \<Longrightarrow> list_all (\<lambda>c. c \<notin> {CHR ''('', CHR '')'', CHR 0x7B, CHR 0x7D}) t \<Longrightarrow>
    too_deep limit n False (t @ rest) = too_deep limit n False rest"
  by (induction t) (auto simp: Let_def)

lemma too_deep_arguments:
  "n \<le> limit \<Longrightarrow> list_all (\<lambda>c. c \<notin> {CHR ''('', CHR '')''}) t \<Longrightarrow> too_deep limit n True (t @ rest) = too_deep limit n True rest"
  by (induction t) (auto simp: Let_def)

lemma fold_max_gt: "fold max ds (m :: int) > limit \<longleftrightarrow> m > limit \<or> (\<exists>d\<in>set ds. d > limit)"
  by (induction ds arbitrary: m) (auto simp: less_max_iff_disj)

lemma too_deep_selections:
  assumes "\<And>s rest n. s \<in> set subs \<Longrightarrow> n \<le> limit \<Longrightarrow>
      too_deep limit n False (show_selection s @ rest) \<longleftrightarrow> n + nesting s > limit \<or> too_deep limit n False rest"
    and "n \<le> limit"
  shows "too_deep limit n False (concat (map show_selection subs) @ rest) \<longleftrightarrow>
    (\<exists>s\<in>set subs. n + nesting s > limit) \<or> too_deep limit n False rest"
  using assms by (induction subs) auto

lemma too_deep_brackets:
  assumes "\<And>s rest n. s \<in> set subs \<Longrightarrow> n \<le> limit \<Longrightarrow>
      too_deep limit n False (show_selection s @ rest) \<longleftrightarrow> n + nesting s > limit \<or> too_deep limit n False rest"
    and "n \<le> limit"
  shows "too_deep limit n False (CHR 0x7B # concat (map show_selection subs) @ CHR 0x7D # rest) \<longleftrightarrow>
    n + 1 + fold max (map nesting subs) 0 > limit \<or> too_deep limit n False rest"
proof -
  have "fold max (map nesting subs) 0 > limit - (n + 1) \<longleftrightarrow> n + 1 > limit \<or> (\<exists>s\<in>set subs. n + 1 + nesting s > limit)"
  proof -
    have "limit - (n + 1) < x \<longleftrightarrow> limit < n + 1 + x" for x by linarith
    then show ?thesis by (auto simp: fold_max_gt)
  qed
  then have "n + 1 + fold max (map nesting subs) 0 > limit \<longleftrightarrow> n + 1 > limit \<or> (\<exists>s\<in>set subs. n + 1 + nesting s > limit)"
    by linarith
  moreover have "too_deep limit (n + 1) False (concat (map show_selection subs) @ CHR 0x7D # rest) \<longleftrightarrow>
      (\<exists>s\<in>set subs. n + 1 + nesting s > limit) \<or> too_deep limit n False rest" if "n + 1 \<le> limit"
    using too_deep_selections [where n = "n + 1", OF assms(1) that] assms(2) by (simp add: Let_def)
  ultimately show ?thesis by (auto simp: Let_def)
qed

lemma too_deep_selection:
  "plain_selection s \<Longrightarrow> n \<le> limit \<Longrightarrow>
    too_deep limit n False (show_selection s @ rest) \<longleftrightarrow> n + nesting s > limit \<or> too_deep limit n False rest"
proof (induction s arbitrary: n rest)
  case (Sel name args subs)
  let ?subs = "if subs = [] then [] else CHR 0x7B # concat (map show_selection subs) @ [CHR 0x7D]"
  have subs: "too_deep limit n False (?subs @ rest) \<longleftrightarrow> n + nesting (Sel name args subs) > limit \<or> too_deep limit n False rest"
    using Sel too_deep_brackets [of subs limit n rest] by (auto simp: list_all_iff)
  have args: "too_deep limit n False ((case args of None \<Rightarrow> [] | Some a \<Rightarrow> CHR ''('' # a @ '')'') @ t) = too_deep limit n False t" for t
    using Sel.prems too_deep_arguments [of n limit] by (cases args) (auto simp: Let_def)
  have "too_deep limit n False (show_selection (Sel name args subs) @ rest) = too_deep limit n False (?subs @ rest)"
    using Sel.prems too_deep_text [of n limit name] args by simp
  with subs show ?case by simp
qed

section \<open>Conditions on heights\<close>

lemma rsome_first: "f x s = Inr (True, s') \<Longrightarrow> rsome f (x # xs) s = Inr (True, s')"
  by simp
lemma descendants_simps:
  "descendants (JObj kvs) = concat (map (\<lambda>v. if is_object v then descendants v @ [v] else []) (map snd kvs))"
  "descendants (JArr xs) = concat (map (\<lambda>v. if is_object v then descendants v @ [v] else []) xs)"
  "descendants (JStr s) = []"
  by (simp_all add: descendants.simps [of "JObj kvs"] descendants.simps [of "JArr xs"] descendants.simps [of "JStr s"])

lemma getDepth_simps:
  "getDepth (JObj kvs) = rbind (condition_field (JObj kvs)) (\<lambda>b. rbind (rmap getDepth (map snd kvs)) (\<lambda>ds. Inr ((if b then 1 else 0) + fold max ds (- 1))))"
  "getDepth (JArr xs) = rbind (rmap getDepth xs) (\<lambda>ds. Inr (fold max ds (- 1)))"
  "getDepth (JStr s) = Inr 0"
  by (simp_all add: getDepth.simps [of "JObj kvs"] getDepth.simps [of "JArr xs"] getDepth.simps [of "JStr s"] is_object_def
      condition_field_def has_kind_def json_opt_def rand_def)

text \<open>Nodes of the syntax tree as the parser makes them.\<close>

definition name_node :: "string \<Rightarrow> json" where
  "name_node n = JObj [(''kind'', JStr ''Name''), (''value'', JStr n)]"

definition variable_node :: "string \<Rightarrow> json" where
  "variable_node n = JObj [(''kind'', JStr ''Variable''), (''name'', name_node n)]"

definition int_node :: "string \<Rightarrow> json" where
  "int_node n = JObj [(''kind'', JStr ''IntValue''), (''value'', JStr n)]"

definition object_field :: "string \<Rightarrow> json \<Rightarrow> json" where
  "object_field n v = JObj [(''kind'', JStr ''ObjectField''), (''name'', name_node n), (''value'', v)]"

definition object_node :: "json list \<Rightarrow> json" where
  "object_node fs = JObj [(''kind'', JStr ''ObjectValue''), (''fields'', JArr fs)]"

definition where_node :: "json list \<Rightarrow> json" where
  "where_node fs = JObj [(''kind'', JStr ''Argument''), (''name'', name_node ''where''), (''value'', object_node fs)]"

definition selection_set :: "json list \<Rightarrow> json" where
  "selection_set sels = JObj [(''kind'', JStr ''SelectionSet''), (''selections'', JArr sels)]"

definition leaf_node :: "string \<Rightarrow> json" where
  "leaf_node n = JObj [(''kind'', JStr ''Field''), (''name'', name_node n), (''arguments'', JArr [])]"

definition field_node :: "string \<Rightarrow> json list \<Rightarrow> json list \<Rightarrow> json" where
  "field_node n args sels =
     JObj [(''kind'', JStr ''Field''), (''name'', name_node n), (''arguments'', JArr args), (''selectionSet'', selection_set sels)]"

lemmas node_defs = name_node_def variable_node_def int_node_def object_field_def object_node_def where_node_def
  selection_set_def leaf_node_def field_node_def
lemmas tree_simps = descendants_simps getDepth_simps is_object_def condition_field_def has_kind_def json_opt_def rand_def
  node_name_def named_def json_get_def

lemma height_where_depth:
  "getDepth (where_node [object_field ''block_height'' (object_node [object_field ''_gt'' l, object_field ''_lt'' u])]) =
     rbind (getDepth l) (\<lambda>dl. rbind (getDepth u) (\<lambda>du. Inr (1 + max 0 (max dl du))))"
  by (cases "getDepth l"; cases "getDepth u") (auto simp: node_defs tree_simps max_def)
section \<open>Properties\<close>

definition sample_gql_config :: graphql_config where
  "sample_gql_config = \<lparr>depthLimit = 3, rootWhereDepthLimit = 2, subWhereDepthLimit = 1,
     queryNeedWhereModel = [''event_attribute''], queryNeedWhereRelation = [''event_attributes''],
     queryNeedWhereCondition = [''block_height''], queryHeightRangeLimit = 10000, queryWhitelist = []\<rparr>"

definition sample_gql_document :: "json list \<Rightarrow> json" where
  "sample_gql_document sels =
     JObj [(''definitions'', JArr [JObj [(''kind'', JStr ''OperationDefinition''), (''operation'', JStr ''query''),
       (''selectionSet'', selection_set [field_node ''aura'' [] sels])]])]"

definition sample_gql_ext :: "json list \<Rightarrow> graphql_ext" where
  "sample_gql_ext sels = \<lparr>gql = (\<lambda>_. Some (sample_gql_document sels)),
     string_number = (\<lambda>s. case number_of_text s of None \<Rightarrow> NaN | Some n \<Rightarrow> Num (of_int n)), hasura = (\<lambda>_. Answer JNull)\<rparr>"

text \<open>
  A query is sent on to the engine exactly when it parses, all its operations are queries, and it is
  either on the list of known queries or every check of the handler passes.
\<close>

lemma query_sent_iff_checked:
  assumes "gql ext (query params) = Some obj" and "json_get obj ''definitions'' = Inr (Some (JArr (d # ds)))"
  shows "(\<exists>r. handleGraphQLQuery cfg ext params = Inr r \<and> (\<forall>e. r \<noteq> Rejected e)) \<longleftrightarrow>
    only_queries (d # ds) \<and>
    (squeezed (query params) \<in> set (queryWhitelist cfg) \<or>
     \<not> too_deep (depthLimit cfg + 2) 0 False (query params) \<and>
     (\<exists>fields. root_fields d = Inr fields \<and> (\<forall>sel\<in>set fields. within_limits cfg ext sel)))"
proof -
  have sent: "(\<forall>e. (case r of Some e \<Rightarrow> Rejected e | None \<Rightarrow> send_query ext params) \<noteq> Rejected e) \<longleftrightarrow> r = None" for r
    by (cases r) (auto simp: send_query_def split: hasura_answer.split)
  have "check_query cfg ext (query params) (d # ds) = Inr None \<longleftrightarrow>
      squeezed (query params) \<in> set (queryWhitelist cfg) \<or>
      \<not> too_deep (depthLimit cfg + 2) 0 False (query params) \<and>
      (\<exists>fields. root_fields d = Inr fields \<and> (\<forall>sel\<in>set fields. within_limits cfg ext sel))"
    using check_selections_None [of d cfg ext] by (simp add: check_query_def)
  moreover have "(\<exists>r. handleGraphQLQuery cfg ext params = Inr r \<and> (\<forall>e. r \<noteq> Rejected e)) \<longleftrightarrow>
      only_queries (d # ds) \<and> check_query cfg ext (query params) (d # ds) = Inr None"
  proof (cases "only_queries (d # ds)")
    case True
    then have "handleGraphQLQuery cfg ext params = rbind (check_query cfg ext (query params) (d # ds))
        (\<lambda>r. Inr (case r of Some e \<Rightarrow> Rejected e | None \<Rightarrow> send_query ext params))"
      by (simp add: handleGraphQLQuery_def assms)
    with True sent show ?thesis by (cases "check_query cfg ext (query params) (d # ds)") auto
  qed (simp add: handleGraphQLQuery_def assms)
  ultimately show ?thesis by blast
qed

text \<open>
  C27. For a query written with brackets only around selections and with parentheses only around arguments, the
  loop over the characters measures the nesting of the selections, whatever brackets the arguments
  contain: it rejects the query exactly when the nesting is more than the limit.
\<close>

theorem bracket_loop_is_nesting:
  assumes "list_all plain_selection subs" and "0 \<le> limit"
  shows "too_deep limit 0 False (show_query subs) \<longleftrightarrow> limit < query_nesting subs"
  using too_deep_brackets [of subs limit 0 "[]"] too_deep_selection assms by (auto simp: show_query_def query_nesting_def list_all_iff)

theorem bracket_loop_is_nesting_witness:
  "\<not> too_deep 2 0 False (show_query [Sel ''block'' (Some [CHR 0x7B, CHR 0x7B]) [Sel ''height'' None []]]) \<and>
   too_deep 1 0 False (show_query [Sel ''block'' (Some [CHR 0x7B, CHR 0x7B]) [Sel ''height'' None []]])"
proof -
  have plain: "list_all plain_selection [Sel ''block'' (Some [CHR 0x7B, CHR 0x7B]) [Sel ''height'' None []]]" by code_simp
  have nest: "query_nesting [Sel ''block'' (Some [CHR 0x7B, CHR 0x7B]) [Sel ''height'' None []]] = 2" by (simp add: query_nesting_def)
  from bracket_loop_is_nesting [OF plain, of 2] bracket_loop_is_nesting [OF plain, of 1] nest show ?thesis by simp
qed

text \<open>
  A comment with an opening parenthesis switches the depth limit off: the loop takes the rest of the
  query for arguments, so a query of any nesting passes as long as it has no closing parenthesis.
\<close>

theorem comment_hides_nesting:
  assumes "CHR '')'' \<notin> set text" and "0 \<le> limit"
  shows "\<not> too_deep limit 0 False (''#('' @ CHR 0x0A # text)"
proof -
  have "\<not> too_deep limit n True t" if "CHR '')'' \<notin> set t" "n \<le> limit" for n t
    using that by (induction t) (auto simp: Let_def)
  with assms show ?thesis by (simp add: Let_def)
qed

theorem comment_hides_nesting_witness:
  "too_deep 5 0 False (replicate 6 (CHR 0x7B)) \<and> \<not> too_deep 5 0 False (''#('' @ CHR 0x0A # replicate 6 (CHR 0x7B))"
proof
  show "too_deep 5 0 False (replicate 6 (CHR 0x7B))" by code_simp
  show "\<not> too_deep 5 0 False (''#('' @ CHR 0x0A # replicate 6 (CHR 0x7B))" by (rule comment_hides_nesting) simp_all
qed

text \<open>
  C36. A query of a table that needs a range of heights passes with whatever range when the two limits are
  variables: the difference of their missing values is not a number and no comparison with the limit
  rejects it.
\<close>

theorem variable_heights_unlimited:
  assumes "model \<in> set (queryNeedWhereModel cfg)" and "''block_height'' \<in> set (queryNeedWhereCondition cfg)"
    and "''_gt'' \<notin> set (queryNeedWhereCondition cfg)" and "''_lt'' \<notin> set (queryNeedWhereCondition cfg)"
    and "set (queryNeedWhereRelation cfg) \<inter> {''block_height'', ''_gt'', ''_lt'', leaf} = {}"
    and "0 \<le> rootWhereDepthLimit cfg"
  shows "within_limits cfg ext
    (field_node model
       [where_node [object_field ''block_height'' (object_node [object_field ''_gt'' (variable_node a), object_field ''_lt'' (variable_node b)])]]
       [leaf_node leaf])"
proof -
  let ?w = "where_node [object_field ''block_height'' (object_node [object_field ''_gt'' (variable_node a), object_field ''_lt'' (variable_node b)])]"
  let ?sel = "field_node model [?w] [leaf_node leaf]"
  have var: "getDepth (variable_node n) = Inr 0" for n by (simp add: node_defs tree_simps)
  have "root_where ?sel = Inr (Some ?w)"
    by (simp add: root_where_def found_in_def node_defs json_get_def named_def node_name_def)
  moreover have "getDepth ?w = Inr 1" by (simp only: height_where_depth var) simp
  moreover have "json_get ?sel ''selectionSet'' = Inr (Some (selection_set [leaf_node leaf]))" by (simp add: field_node_def json_get_def)
  moreover have "filterWhereQuery (Some (selection_set [leaf_node leaf])) = Inr []"
    by (simp add: filterWhereQuery_def node_defs tree_simps)
  moreover have "isQueryNeedCondition ext ?sel (queryNeedWhereModel cfg) (queryNeedWhereRelation cfg) (queryNeedWhereCondition cfg) = Inr (True, NaN)"
  proof -
    have rel: "extractFieldNeedHeightArgument (queryNeedWhereRelation cfg) ?sel = Inr ([], [])"
      using assms(5) by (auto simp: extractFieldNeedHeightArgument_def node_defs tree_simps image_iff)
    have arg: "where_argument ?sel = Inr (Some ?w)"
      by (simp add: where_argument_def found_in_def node_defs json_get_def named_def node_name_def)
    have mod: "rand (has_kind ''Field'' ?sel) (named (queryNeedWhereModel cfg) ?sel) = Inr True"
      using assms(1) by (simp add: node_defs tree_simps image_iff)
    have "checkCondition ext (queryNeedWhereCondition cfg) ?w (None, Num 0) = Inr (True,
        (Some (object_field ''block_height'' (object_node [object_field ''_gt'' (variable_node a), object_field ''_lt'' (variable_node b)])), NaN))"
      using assms(2-4)
      by (simp add: checkCondition_def findConditionInObj_def limit_value_def found_in_def js_Number_def node_defs tree_simps image_iff)
    with rel arg mod show ?thesis by (simp add: isQueryNeedCondition_def)
  qed
  ultimately show ?thesis using assms(6) by (simp add: within_limits_def)
qed

theorem variable_heights_unlimited_witness:
  "within_limits sample_gql_config (sample_gql_ext [])
    (field_node ''event_attribute''
       [where_node [object_field ''block_height'' (object_node [object_field ''_gt'' (variable_node ''a''), object_field ''_lt'' (variable_node ''b'')])]]
       [leaf_node ''value''])"
  by (rule variable_heights_unlimited) (simp_all add: sample_gql_config_def)

end
