(* ===== verification/Graphql_Spec.thy ===== *)
theory Graphql_Spec
  imports Graphql_Limits
begin

text \<open>
  The limits of the GraphQL gateway stated on queries as they are written, fields with conditions, and not
  on the syntax tree that the code walks; and that the handler enforces exactly these limits.
\<close>

section \<open>Queries as they are written\<close>

text \<open>
  A value of a condition is a literal (its kind and text), a variable, a list, or an object of named
  conditions; a field has a name, the conditions of its where argument, and fields.
\<close>

datatype gvalue = GLit string string | GVar string | GList "gvalue list" | GObject "(string \<times> gvalue) list"

datatype gfield = GField (gname: string) (gwhere: "(string \<times> gvalue) list option") (gfields: "gfield list")

text \<open>The syntax tree of a query.\<close>

fun value_node :: "gvalue \<Rightarrow> json" where
  "value_node (GLit k t) = JObj [(''kind'', JStr k), (''value'', JStr t)]"
| "value_node (GVar n) = variable_node n"
| "value_node (GList vs) = JObj [(''kind'', JStr ''ListValue''), (''values'', JArr (map value_node vs))]"
| "value_node (GObject fs) = object_node (map (\<lambda>(n, v). object_field n (value_node v)) fs)"

definition condition_node :: "string \<times> gvalue \<Rightarrow> json" where
  "condition_node c = object_field (fst c) (value_node (snd c))"

definition where_arg :: "(string \<times> gvalue) list \<Rightarrow> json" where
  "where_arg fs = where_node (map condition_node fs)"

fun gfield_node :: "gfield \<Rightarrow> json" where
  "gfield_node (GField n w subs) =
     JObj ([(''kind'', JStr ''Field''), (''name'', name_node n),
            (''arguments'', JArr (case w of None \<Rightarrow> [] | Some fs \<Rightarrow> [where_arg fs]))] @
           (if subs = [] then [] else [(''selectionSet'', selection_set (map gfield_node subs))]))"


section \<open>The limits\<close>



text \<open>The conditions with one of some names, an inner one before the one it is in; the where arguments of a field and inside it.\<close>

fun conditions :: "string list \<Rightarrow> gvalue \<Rightarrow> (string \<times> gvalue) list" where
  "conditions ns (GList vs) = concat (map (conditions ns) vs)"
| "conditions ns (GObject fs) = concat (map (\<lambda>(n, v). conditions ns v @ (if n \<in> set ns then [(n, v)] else [])) fs)"
| "conditions ns _ = []"








text \<open>
  Queries as the schema of the engine has them: names have no line breaks, literals are of the
  kinds of the language, conditions on the height are objects; and, a restriction, no condition
  goes through one of the relations that need a bound.
\<close>

definition plain_name :: "string \<Rightarrow> bool" where
  "plain_name n \<longleftrightarrow> CHR 0x0A \<notin> set n \<and> CHR 0x0D \<notin> set n"

fun plain_value :: "gvalue \<Rightarrow> bool" where
  "plain_value (GLit k t) \<longleftrightarrow> k \<in> set [''IntValue'', ''FloatValue'', ''StringValue'', ''EnumValue'']"
| "plain_value (GVar n) \<longleftrightarrow> True"
| "plain_value (GList vs) \<longleftrightarrow> list_all plain_value vs"
| "plain_value (GObject fs) \<longleftrightarrow> list_all (\<lambda>(n, v). plain_name n \<and> plain_value v) fs"



section \<open>What the traversals find\<close>

text \<open>Every node that a traversal asks for its name has one.\<close>

definition named_node :: "json \<Rightarrow> bool" where
  "named_node v \<longleftrightarrow> (has_kind ''ObjectField'' v \<or> has_kind ''Field'' v \<or> has_kind ''Argument'' v \<longrightarrow>
     (\<exists>n. node_name v = Inr (Some (JStr n))))"

definition picked :: "string \<Rightarrow> string list \<Rightarrow> json \<Rightarrow> bool" where
  "picked kind names v \<longleftrightarrow> has_kind kind v \<and> (case node_name v of Inr n \<Rightarrow> n \<in> Some ` JStr ` set names | Inl _ \<Rightarrow> False)"



lemma value_node_object: "value_node (GObject fs) = object_node (map condition_node fs)"
  by (simp add: condition_node_def [abs_def] case_prod_unfold)

declare value_node.simps(4) [simp del]

lemmas node_shape = node_defs is_object_def has_kind_def json_opt_def node_name_def json_get_def


lemma field_is_object [simp]: "is_object (gfield_node f)"
  by (cases f) (simp add: node_shape)











text \<open>Which nodes are picked.\<close>

lemma not_picked [simp]:
  "\<not> picked k ns (name_node n)" "\<not> picked k ns (JArr xs)" "\<not> picked k ns (selection_set ys)"
  if "k \<in> {''ObjectField'', ''Field'', ''Argument''}"
  using that by (auto simp: picked_def node_shape)

lemma picked_value [simp]:
  "k \<in> {''ObjectField'', ''Field'', ''Argument''} \<Longrightarrow> plain_value v \<Longrightarrow> \<not> picked k ns (value_node v)"
  by (cases v) (auto simp: picked_def value_node_object node_shape)

lemma picked_nodes [simp]:
  "picked ''ObjectField'' ns (condition_node c) \<longleftrightarrow> fst c \<in> set ns" "\<not> picked ''Field'' ns (condition_node c)"
  "\<not> picked ''Argument'' ns (condition_node c)" "picked ''Argument'' ns (where_arg fs) \<longleftrightarrow> ''where'' \<in> set ns"
  "\<not> picked ''ObjectField'' ns (where_arg fs)" "\<not> picked ''Field'' ns (where_arg fs)"
  "picked ''Field'' ns (gfield_node f) \<longleftrightarrow> gname f \<in> set ns" "\<not> picked ''ObjectField'' ns (gfield_node f)"
  "\<not> picked ''Argument'' ns (gfield_node f)"
  by (cases f; auto simp: picked_def condition_node_def where_arg_def node_shape)+








text \<open>Every node has the name that is asked for.\<close>

lemma named_nodes [simp]:
  "named_node (name_node n)" "named_node (JArr xs)" "named_node (selection_set ys)" "named_node (condition_node c)"
  "named_node (where_arg fs)" "named_node (gfield_node f)"
  by (cases f; auto simp: named_node_def condition_node_def where_arg_def node_shape)+




section \<open>The depth of a condition\<close>

lemma name_depth [simp]: "getDepth (name_node n) = Inr 0"
  by (simp add: node_defs tree_simps)








section \<open>The checks\<close>

declare plain_value.simps(4) [simp del] and conditions.simps(2) [simp del]






















section \<open>Properties\<close>







end
