(* ===== verification/Partition.thy ===== *)
theory Partition
  imports Checkpoint
begin

text \<open>
  The jobs that create the partitions of the big tables ahead of the rows: those of
  \<^verbatim>\<open>src/services/job/create_block_partition.service.ts\<close> and its siblings for events, transactions, messages,
  EVM events and EVM transactions, which look at the largest id, and the one of
  \<^verbatim>\<open>create_event_attr_partition.service.ts\<close>, which goes by the height of the block crawler.
\<close>

section \<open>Partitions of a table\<close>

record partition =
  pt_name :: string
  pt_from :: int
  pt_to :: int

text \<open>The names of all tables, and the partitions attached to every table.\<close>

record part_db = base_db +
  relnames :: "string list"
  attached :: "string \<Rightarrow> partition list"

record partition_config =
  blockStep :: int
  eventStep :: int
  transactionStep :: int
  transactionMessageStep :: int
  evmEventStep :: int
  evmTransactionStep :: int
  attrStep :: int
  attrRange :: int

definition partition_name :: "string \<Rightarrow> int \<Rightarrow> int \<Rightarrow> string" where
  "partition_name table a b = table @ ''_partition_'' @ show_int a @ ''_'' @ show_int b"

text \<open>
  The ids stay below \<open>2\<^sup>5\<^sup>3\<close>, so the quotient that the code takes as a floating point number has the integral
  part of the exact one. A name is looked up among the tables that are attached to some table.
\<close>

definition createPartitionName :: "string \<Rightarrow> int \<Rightarrow> int option \<Rightarrow> string list \<Rightarrow> partition option" where
  "createPartitionName table step latest children =
     (case latest of
        None \<Rightarrow> None
      | Some i \<Rightarrow>
          if 2 * (i mod step) < step then None
          else
            (let stepMultiple = i div step + 1;
                 a = step * stepMultiple;
                 b = a + step;
                 name = partition_name table a b in
             if name \<in> set children then None else Some \<lparr>pt_name = name, pt_from = a, pt_to = b\<rparr>))"

definition overlaps :: "partition \<Rightarrow> partition \<Rightarrow> bool" where
  "overlaps p q \<longleftrightarrow> pt_from p < pt_to q \<and> pt_from q < pt_to p"

text \<open>\<^verbatim>\<open>CREATE TABLE\<close> and \<^verbatim>\<open>ALTER TABLE \<dots> ATTACH PARTITION\<close>\<close>

definition createPartitionByPartitionInfo :: "string \<Rightarrow> partition \<Rightarrow> 'a part_db_scheme \<Rightarrow> 'a part_db_scheme res" where
  "createPartitionByPartitionInfo table p db =
     (if pt_name p \<in> set (relnames db) then Inl (DbError ''relation already exists'')
      else if pt_to p \<le> pt_from p then Inl (DbError ''empty range bound specified for partition'')
      else if \<exists>q\<in>set (attached db table). overlaps p q then Inl (DbError ''partition would overlap partition'')
      else Inr (db\<lparr>relnames := relnames db @ [pt_name p], attached := (attached db)(table := attached db table @ [p])\<rparr>))"

definition latest_id :: "int list \<Rightarrow> int option" where
  "latest_id ids = (case ids of [] \<Rightarrow> None | i # is \<Rightarrow> Some (fold max is i))"

definition partition_tables :: "string list" where
  "partition_tables = [''block'', ''event'', ''transaction'', ''transaction_message'', ''evm_event'', ''evm_transaction'', ''event_attribute'']"

definition child_names :: "'a part_db_scheme \<Rightarrow> string list" where
  "child_names db = concat (map (\<lambda>t. map pt_name (attached db t)) partition_tables)"

definition create_partition_job :: "string \<Rightarrow> int \<Rightarrow> int list \<Rightarrow> 'a part_db_scheme \<Rightarrow> (bool \<times> 'a part_db_scheme) res" where
  "create_partition_job table step ids db =
     (case createPartitionName table step (latest_id ids) (child_names db) of
        None \<Rightarrow> Inr (False, db)
      | Some p \<Rightarrow> rbind (createPartitionByPartitionInfo table p db) (\<lambda>db'. Inr (True, db')))"

text \<open>The jobs, given the heights or the ids of the rows of their table.\<close>

definition jobCreateBlockPartition :: "partition_config \<Rightarrow> int list \<Rightarrow> 'a part_db_scheme \<Rightarrow> (bool \<times> 'a part_db_scheme) res" where
  "jobCreateBlockPartition cfg heights = create_partition_job ''block'' (blockStep cfg) heights"

definition jobCreateEventPartition :: "partition_config \<Rightarrow> int list \<Rightarrow> 'a part_db_scheme \<Rightarrow> (bool \<times> 'a part_db_scheme) res" where
  "jobCreateEventPartition cfg ids = create_partition_job ''event'' (eventStep cfg) ids"

definition jobCreateTransactionPartition :: "partition_config \<Rightarrow> int list \<Rightarrow> 'a part_db_scheme \<Rightarrow> (bool \<times> 'a part_db_scheme) res" where
  "jobCreateTransactionPartition cfg ids = create_partition_job ''transaction'' (transactionStep cfg) ids"

definition jobCreateTransactionMessagePartition ::
  "partition_config \<Rightarrow> int list \<Rightarrow> 'a part_db_scheme \<Rightarrow> (bool \<times> 'a part_db_scheme) res"
where
  "jobCreateTransactionMessagePartition cfg ids = create_partition_job ''transaction_message'' (transactionMessageStep cfg) ids"

definition jobCreateEvmEventPartition :: "partition_config \<Rightarrow> int list \<Rightarrow> 'a part_db_scheme \<Rightarrow> (bool \<times> 'a part_db_scheme) res" where
  "jobCreateEvmEventPartition cfg ids = create_partition_job ''evm_event'' (evmEventStep cfg) ids"

definition jobCreateEVMTransactionPartition ::
  "partition_config \<Rightarrow> int list \<Rightarrow> 'a part_db_scheme \<Rightarrow> (bool \<times> 'a part_db_scheme) res"
where
  "jobCreateEVMTransactionPartition cfg ids = create_partition_job ''evm_transaction'' (evmTransactionStep cfg) ids"

section \<open>Partitions of the attributes of events\<close>

definition JOB_CREATE_EVENT_ATTR_PARTITION :: string where
  "JOB_CREATE_EVENT_ATTR_PARTITION = ''job:create-event-attr-partition''"

text \<open>
  The table is created and attached in a transaction; the checkpoint is updated from within it, but by a
  statement of its own that commits at once. The database may fail that statement, which rolls the
  transaction back, or fail to commit the transaction when the checkpoint has already moved.
\<close>

datatype commit_answer = Committed | UpdateFails | CommitFails

definition move_attr_checkpoint :: "int \<Rightarrow> 'a part_db_scheme \<Rightarrow> 'a part_db_scheme" where
  "move_attr_checkpoint endB db =
     (if block_checkpoint db JOB_CREATE_EVENT_ATTR_PARTITION = None then db
      else saveCheckpoint (JOB_CREATE_EVENT_ATTR_PARTITION, endB) db)"

definition jobCreateEventAttrPartition :: "commit_answer \<Rightarrow> int \<times> int \<Rightarrow> 'a part_db_scheme \<Rightarrow> 'a part_db_scheme outcome" where
  "jobCreateEventAttrPartition answer payload db =
     (case payload of (startB, endB) \<Rightarrow>
        case createPartitionByPartitionInfo ''event_attribute''
            \<lparr>pt_name = partition_name ''event_attribute'' startB endB, pt_from = startB, pt_to = endB\<rparr> db of
          Inl e \<Rightarrow> (db, Some e)
        | Inr db' \<Rightarrow>
            (case answer of
               UpdateFails \<Rightarrow> (db, Some (DbError ''update failed''))
             | CommitFails \<Rightarrow> (move_attr_checkpoint endB db, Some (DbError ''commit failed''))
             | Committed \<Rightarrow> (move_attr_checkpoint endB db', None)))"

text \<open>The payload of the job that is queued, if one is.\<close>

definition jobCheckIfNeedCreateEventAttrPartition :: "partition_config \<Rightarrow> 'a part_db_scheme \<Rightarrow> (int \<times> int) option" where
  "jobCheckIfNeedCreateEventAttrPartition cfg db =
     (case (block_checkpoint db ''crawl:block'', block_checkpoint db JOB_CREATE_EVENT_ATTR_PARTITION) of
        (Some crawled, Some created) \<Rightarrow> if crawled + attrRange cfg \<ge> created then Some (created, created + attrStep cfg) else None
      | _ \<Rightarrow> None)"

text \<open>
  The two jobs with the queue between them. A job that throws is tried again, or is dropped after its last attempt.
  \<open>commits\<close> says that no transaction fails to commit.
\<close>

inductive attr_step ::
  "partition_config \<Rightarrow> bool \<Rightarrow> 'a part_db_scheme \<times> (int \<times> int) list \<Rightarrow> 'a part_db_scheme \<times> (int \<times> int) list \<Rightarrow> bool"
  for cfg :: partition_config and commits :: bool
where
  checked: "jobCheckIfNeedCreateEventAttrPartition cfg db = Some payload \<Longrightarrow> attr_step cfg commits (db, jobs) (db, jobs @ [payload])"
| created: "payload \<in> set jobs \<Longrightarrow> jobCreateEventAttrPartition answer payload db = (db', None) \<Longrightarrow>
    attr_step cfg commits (db, jobs) (db', remove1 payload jobs)"
| failed: "payload \<in> set jobs \<Longrightarrow> commits \<longrightarrow> answer \<noteq> CommitFails \<Longrightarrow>
    jobCreateEventAttrPartition answer payload db = (db', Some e) \<Longrightarrow> jobs' \<in> {jobs, remove1 payload jobs} \<Longrightarrow>
    attr_step cfg commits (db, jobs) (db', jobs')"
| crawled: "attr_step cfg commits (db, jobs) (saveCheckpoint (''crawl:block'', h) db, jobs)"

lemma createEventAttr_cases:
  assumes "jobCreateEventAttrPartition answer (a, b) db = (db', err)"
  obtains (stored) p where "err = None" "p = \<lparr>pt_name = partition_name ''event_attribute'' a b, pt_from = a, pt_to = b\<rparr>"
      "pt_name p \<notin> set (relnames db)"
      "db' = move_attr_checkpoint b (db\<lparr>relnames := relnames db @ [pt_name p],
        attached := (attached db)(''event_attribute'' := attached db ''event_attribute'' @ [p])\<rparr>)"
  | (unchanged) e where "err = Some e" "db' = db"
  | (moved) e where "err = Some e" "answer = CommitFails" "db' = move_attr_checkpoint b db"
  using assms
  by (auto simp: jobCreateEventAttrPartition_def createPartitionByPartitionInfo_def split: commit_answer.split_asm if_split_asm)

section \<open>Partitions next to each other\<close>

definition tile :: "string \<Rightarrow> int \<Rightarrow> int \<Rightarrow> int \<Rightarrow> partition" where
  "tile table base step k =
     \<lparr>pt_name = partition_name table (base + step * k) (base + step * (k + 1)), pt_from = base + step * k, pt_to = base + step * (k + 1)\<rparr>"

definition tiles :: "string \<Rightarrow> int \<Rightarrow> int \<Rightarrow> nat \<Rightarrow> partition list" where
  "tiles table base step n = map (\<lambda>k. tile table base step (int k)) [0..<n]"

lemma tiles_Suc: "tiles table base step (Suc n) = tiles table base step n @ [tile table base step (int n)]"
  by (simp add: tiles_def)

lemma tile_in_tiles: "0 \<le> k \<Longrightarrow> k < int n \<Longrightarrow> tile table base step k \<in> set (tiles table base step n)"
  by (simp add: tiles_def image_iff) (metis atLeastLessThan_iff nat_0_le nat_less_iff zero_le)

lemma tiles_cover:
  assumes "0 < step" and "base \<le> j" and "j < base + step * int n"
  shows "\<exists>p\<in>set (tiles table base step n). pt_from p \<le> j \<and> j < pt_to p"
proof -
  let ?k = "(j - base) div step"
  have "0 \<le> ?k" using assms by (simp add: pos_imp_zdiv_nonneg_iff)
  moreover have k: "step * ?k \<le> j - base" "j - base < step * (?k + 1)"
  proof -
    have "step * ?k + (j - base) mod step = j - base" by (rule mult_div_mod_eq)
    moreover have "0 \<le> (j - base) mod step" "(j - base) mod step < step" using assms(1) by simp_all
    ultimately show "step * ?k \<le> j - base" "j - base < step * (?k + 1)" unfolding distrib_left by linarith+
  qed
  have "step * ?k < step * int n" using k(1) assms(3) by linarith
  with assms(1) have "?k < int n" by simp
  ultimately have "tile table base step ?k \<in> set (tiles table base step n)" by (rule tile_in_tiles)
  with k show ?thesis by (intro bexI [where x = "tile table base step ?k"]) (simp_all add: tile_def)
qed

lemma tile_disjoint: "0 < step \<Longrightarrow> overlaps (tile table base step k) (tile table base step l) \<longleftrightarrow> k = l"
  by (auto simp: overlaps_def tile_def)

text \<open>
  The partitions of a table are those of the first \<open>n\<close> steps, and no table has the name of a later one.
\<close>

definition partitions_ok :: "string \<Rightarrow> int \<Rightarrow> nat \<Rightarrow> 'a part_db_scheme \<Rightarrow> bool" where
  "partitions_ok table step n db \<longleftrightarrow>
     attached db table = tiles table 0 step n \<and>
     (\<forall>k. pt_name (tile table 0 step k) \<in> set (relnames db) \<union> set (child_names db) \<longrightarrow> 0 \<le> k \<and> k < int n)"
lemma partition_name_inj: "partition_name table a b = partition_name table a' b' \<longleftrightarrow> a = a' \<and> b = b'"
  by (simp add: partition_name_def sep_key_inj underscore_not_in_show_int show_int_inj)

lemma child_names_in: "table \<in> set partition_tables \<Longrightarrow> p \<in> set (attached db table) \<Longrightarrow> pt_name p \<in> set (child_names db)"
  by (auto simp: child_names_def)

lemma child_names_attach:
  "set (child_names (db\<lparr>relnames := rs, attached := (attached db)(table := attached db table @ [p])\<rparr>)) \<subseteq> insert (pt_name p) (set (child_names db))"
  by (fastforce simp: child_names_def split: if_split_asm)

lemma tile_name_inj: "0 < step \<Longrightarrow> pt_name (tile table base step k) = pt_name (tile table base step l) \<longleftrightarrow> k = l"
  by (auto simp: tile_def partition_name_inj)

text \<open>The partition after the last one can be attached.\<close>

lemma attach_next:
  assumes "partitions_ok table step n db" and "0 < step"
  shows "\<exists>db'. createPartitionByPartitionInfo table (tile table 0 step (int n)) db = Inr db' \<and>
    partitions_ok table step (Suc n) db' \<and> (\<forall>t. t \<noteq> table \<longrightarrow> attached db' t = attached db t)"
proof -
  let ?p = "tile table 0 step (int n)"
  let ?db = "db\<lparr>relnames := relnames db @ [pt_name ?p], attached := (attached db)(table := attached db table @ [?p])\<rparr>"
  have "pt_name ?p \<notin> set (relnames db)" using assms(1) by (auto simp: partitions_ok_def)
  moreover have "\<not> pt_to ?p \<le> pt_from ?p" using assms(2) by (simp add: tile_def)
  moreover have "\<not> (\<exists>q\<in>set (attached db table). overlaps ?p q)"
    using assms by (auto simp: partitions_ok_def tiles_def tile_disjoint)
  ultimately have "createPartitionByPartitionInfo table ?p db = Inr ?db" by (simp add: createPartitionByPartitionInfo_def)
  moreover have "partitions_ok table step (Suc n) ?db"
    unfolding partitions_ok_def
  proof (intro conjI allI impI)
    show "attached ?db table = tiles table 0 step (Suc n)" using assms(1) by (simp add: partitions_ok_def tiles_Suc)
    fix k assume "pt_name (tile table 0 step k) \<in> set (relnames ?db) \<union> set (child_names ?db)"
    then have "pt_name (tile table 0 step k) = pt_name ?p \<or> pt_name (tile table 0 step k) \<in> set (relnames db) \<union> set (child_names db)"
      using child_names_attach [where rs = "relnames db @ [pt_name ?p]" and table = table and p = ?p and db = db] by auto
    with assms have "k = int n \<or> (0 \<le> k \<and> k < int n)" by (auto simp: tile_name_inj partitions_ok_def)
    then show "0 \<le> k" "k < int (Suc n)" by auto
  qed
  ultimately show ?thesis by (intro exI [of _ ?db]) simp
qed

lemma createPartitionName_cases:
  assumes "partitions_ok table step n db" and "0 < step" and "table \<in> set partition_tables" and "0 \<le> i" and "i < step * int n"
  shows "createPartitionName table step (Some i) (child_names db) =
    (if 2 * (i mod step) \<ge> step \<and> i div step + 1 = int n then Some (tile table 0 step (int n)) else None)"
proof -
  let ?k = "i div step + 1"
  have p: "\<lparr>pt_name = partition_name table (step * ?k) (step * ?k + step), pt_from = step * ?k, pt_to = step * ?k + step\<rparr> = tile table 0 step ?k"
    by (simp add: tile_def algebra_simps)
  have "0 \<le> ?k" using assms(2,4) by (simp add: pos_imp_zdiv_nonneg_iff)
  have "step * (i div step) + i mod step = i" by (rule mult_div_mod_eq)
  moreover have "0 \<le> i mod step" using assms(2) by simp
  ultimately have "step * (i div step) < step * int n" using assms(5) by linarith
  with assms(2) have le: "?k \<le> int n" by simp
  have "partition_name table (step * ?k) (step * ?k + step) = pt_name (tile table 0 step ?k)" using arg_cong [OF p, of pt_name] by simp
  moreover have "pt_name (tile table 0 step ?k) \<in> set (child_names db) \<longleftrightarrow> ?k < int n"
  proof
    show "?k < int n" if "pt_name (tile table 0 step ?k) \<in> set (child_names db)" using assms(1) that by (auto simp: partitions_ok_def)
    show "pt_name (tile table 0 step ?k) \<in> set (child_names db)" if "?k < int n"
    proof (rule child_names_in [OF assms(3)])
      show "tile table 0 step ?k \<in> set (attached db table)"
        using tile_in_tiles [OF \<open>0 \<le> ?k\<close> that] assms(1) by (simp only: partitions_ok_def)
    qed
  qed
  ultimately show ?thesis using p le by (auto simp: createPartitionName_def Let_def)
qed

section \<open>The partitions of the attributes\<close>

text \<open>After the partitions \<open>P\<close> that were there, \<open>n\<close> partitions from the checkpoint \<open>c\<close> on.\<close>

definition attr_ok ::
  "partition_config \<Rightarrow> partition list \<Rightarrow> int \<Rightarrow> nat \<Rightarrow> 'a part_db_scheme \<times> (int \<times> int) list \<Rightarrow> bool"
where
  "attr_ok cfg P c n st \<longleftrightarrow>
     attached (fst st) ''event_attribute'' = P @ tiles ''event_attribute'' c (attrStep cfg) n \<and>
     block_checkpoint (fst st) JOB_CREATE_EVENT_ATTR_PARTITION = Some (c + attrStep cfg * int n) \<and>
     pt_name ` set (tiles ''event_attribute'' c (attrStep cfg) n) \<subseteq> set (relnames (fst st)) \<and>
     (\<forall>payload\<in>set (snd st). \<exists>k\<le>n. payload = (c + attrStep cfg * int k, c + attrStep cfg * (int k + 1)))"

lemma attr_created_ok:
  assumes "attr_ok cfg P c n (db, jobs)" and "payload \<in> set jobs" and "jobCreateEventAttrPartition answer payload db = (db', None)"
  shows "attr_ok cfg P c (Suc n) (db', remove1 payload jobs)"
proof -
  from assms(1,2) obtain k where k: "k \<le> n" "payload = (c + attrStep cfg * int k, c + attrStep cfg * (int k + 1))"
    by (auto simp: attr_ok_def)
  let ?p = "tile ''event_attribute'' c (attrStep cfg) (int k)"
  from assms(3) [unfolded k(2)] have fresh: "pt_name ?p \<notin> set (relnames db)"
    and db': "db' = move_attr_checkpoint (c + attrStep cfg * (int k + 1)) (db\<lparr>relnames := relnames db @ [pt_name ?p],
        attached := (attached db)(''event_attribute'' := attached db ''event_attribute'' @ [?p])\<rparr>)"
    by (cases rule: createEventAttr_cases; simp add: tile_def)+
  have "k = n"
  proof (rule ccontr)
    assume "k \<noteq> n"
    with k(1) have "?p \<in> set (tiles ''event_attribute'' c (attrStep cfg) n)" by (intro tile_in_tiles) auto
    with fresh assms(1) show False by (auto simp: attr_ok_def)
  qed
  have jobs: "\<exists>j\<le>Suc n. q = (c + attrStep cfg * int j, c + attrStep cfg * (int j + 1))" if "q \<in> set (remove1 payload jobs)" for q
  proof -
    from that set_remove1_subset have "q \<in> set jobs" by fast
    with assms(1) obtain j where "j \<le> n" "q = (c + attrStep cfg * int j, c + attrStep cfg * (int j + 1))"
      by (auto simp: attr_ok_def)
    then show ?thesis by (intro exI [of _ j]) simp
  qed
  show ?thesis
    using assms(1) jobs unfolding attr_ok_def fst_conv snd_conv
    by (auto simp: db' \<open>k = n\<close> move_attr_checkpoint_def saveCheckpoint_def tiles_Suc distrib_left add.commute)
qed

lemma attr_step_ok:
  assumes "attr_step cfg True st st'" and "attr_ok cfg P c n st"
  shows "\<exists>n'. attr_ok cfg P c n' st'"
  using assms(1)
proof cases
  case (checked db payload jobs)
  have "payload = (c + attrStep cfg * int n, c + attrStep cfg * (int n + 1))"
    using checked(3) assms(2) checked(1)
    by (auto simp: jobCheckIfNeedCreateEventAttrPartition_def attr_ok_def distrib_left split: option.split_asm if_split_asm)
  with checked assms(2) have "attr_ok cfg P c n st'" by (auto simp: attr_ok_def)
  then show ?thesis by blast
next
  case (created payload jobs answer db db')
  with assms(2) attr_created_ok [of cfg P c n db jobs payload answer db'] show ?thesis by blast
next
  case (failed payload jobs answer db db' e jobs')
  obtain a b where "payload = (a, b)" by (cases payload)
  with failed(5) have "jobCreateEventAttrPartition answer (a, b) db = (db', Some e)" by simp
  then have "db' = db" by (cases rule: createEventAttr_cases) (use failed(4) in auto)
  then show ?thesis using failed assms(2) set_remove1_subset [of payload jobs] by (intro exI [of _ n]) (auto simp: attr_ok_def)
next
  case (crawled db jobs h)
  then show ?thesis using assms(2) by (intro exI [of _ n]) (auto simp: attr_ok_def saveCheckpoint_def JOB_CREATE_EVENT_ATTR_PARTITION_def)
qed

lemma attr_steps_ok:
  assumes "(attr_step cfg True)\<^sup>*\<^sup>* (db0, []) st" and "block_checkpoint db0 JOB_CREATE_EVENT_ATTR_PARTITION = Some c"
  shows "\<exists>n. attr_ok cfg (attached db0 ''event_attribute'') c n st"
  using assms(1)
proof (induction rule: rtranclp_induct)
  case base
  show ?case using assms(2) by (intro exI [of _ 0]) (simp add: attr_ok_def tiles_def)
next
  case (step st st')
  then show ?case using attr_step_ok by blast
qed

section \<open>Properties\<close>

text \<open>
  C18. When the partitions of a table cover its first steps and every row lies in one of them, a run of the
  partition job succeeds, keeps the partitions next to each other without overlap, touches no other
  table, and afterwards every id up to half a step above the largest one has a partition.
\<close>

theorem partitions_stay_ahead:
  assumes "partitions_ok table step n db" and "0 < step" and "table \<in> set partition_tables"
    and "latest_id ids = Some i" and "0 \<le> i" and "i < step * int n"
  shows "\<exists>created db' n'. create_partition_job table step ids db = Inr (created, db') \<and>
    partitions_ok table step n' db' \<and> n' = (if created then Suc n else n) \<and>
    (\<forall>t. t \<noteq> table \<longrightarrow> attached db' t = attached db t) \<and>
    (\<forall>j. 0 \<le> j \<and> 2 * j \<le> 2 * i + step \<longrightarrow> (\<exists>p\<in>set (attached db' table). pt_from p \<le> j \<and> j < pt_to p))"
proof -
  note name = createPartitionName_cases [OF assms(1,2,3,5,6)]
  have i: "step * (i div step) + i mod step = i" by (rule mult_div_mod_eq)
  have m: "0 \<le> i mod step" "i mod step < step" using assms(2) by simp_all
  have cover: "\<exists>p\<in>set (attached db' table). pt_from p \<le> j \<and> j < pt_to p"
    if "partitions_ok table step n' db'" "2 * i + step < 2 * (step * int n')" "0 \<le> j" "2 * j \<le> 2 * i + step" for db' :: "'a part_db_scheme" and n' j
    using that tiles_cover [OF assms(2), of 0 j n' table] by (simp add: partitions_ok_def)
  show ?thesis
  proof (cases "2 * (i mod step) \<ge> step \<and> i div step + 1 = int n")
    case True
    from attach_next [OF assms(1,2)] obtain db' where db': "createPartitionByPartitionInfo table (tile table 0 step (int n)) db = Inr db'"
      "partitions_ok table step (Suc n) db'" "\<forall>t. t \<noteq> table \<longrightarrow> attached db' t = attached db t" by blast
    have run: "create_partition_job table step ids db = Inr (True, db')"
      using True name db'(1) by (simp add: create_partition_job_def assms(4))
    have "2 * i + step < 2 * (step * int (Suc n))" using assms(2,6) by (simp add: distrib_left)
    with cover [OF db'(2)] run db' show ?thesis by (intro exI [of _ True] exI [of _ db'] exI [of _ "Suc n"]) simp
  next
    case False
    then have "createPartitionName table step (Some i) (child_names db) = None" by (simp only: name if_False)
    then have run: "create_partition_job table step ids db = Inr (False, db)" by (simp add: create_partition_job_def assms(4))
    have "i div step + 1 \<le> int n"
    proof -
      have "step * (i div step) < step * int n" using i m assms(6) by linarith
      with assms(2) show ?thesis by simp
    qed
    then have "2 * i + step < 2 * (step * int n)"
    proof (cases "2 * (i mod step) < step")
      case True
      have "step * (i div step + 1) \<le> step * int n" using \<open>i div step + 1 \<le> int n\<close> assms(2) by simp
      with True i show ?thesis unfolding distrib_left by linarith
    next
      case False
      with \<open>\<not> (2 * (i mod step) \<ge> step \<and> i div step + 1 = int n)\<close> \<open>i div step + 1 \<le> int n\<close> have "i div step + 2 \<le> int n" by simp
      then have "step * (i div step + 2) \<le> step * int n" using assms(2) by simp
      with i m show ?thesis unfolding distrib_left by linarith
    qed
    with cover [OF assms(1)] run assms(1) show ?thesis by (intro exI [of _ False] exI [of _ db] exI [of _ n]) simp
  qed
qed

definition sample_part_db :: part_db where
  "sample_part_db = \<lparr>block_checkpoint = map_of [(''crawl:block'', 5), (JOB_CREATE_EVENT_ATTR_PARTITION, 10)],
     relnames = [''block'', ''block_partition_0_100''],
     attached = (\<lambda>t. if t = ''block'' then [tile ''block'' 0 100 0] else [])\<rparr>"

lemma sample_part_ok: "partitions_ok ''block'' 100 1 sample_part_db"
proof -
  have names: "pt_name (tile ''block'' 0 100 0) = ''block_partition_0_100''" by code_simp
  have "child_names sample_part_db = [pt_name (tile ''block'' 0 100 0)]"
    by (simp add: child_names_def partition_tables_def sample_part_db_def)
  moreover have "k = 0" if "pt_name (tile ''block'' 0 100 k) \<in> {''block_partition_0_100''}" for k
    using that names tile_name_inj [of 100 "''block''" 0 k 0] by simp
  moreover have "pt_name (tile ''block'' 0 100 k) \<noteq> ''block''" for k by (simp add: tile_def partition_name_def)
  moreover have "attached sample_part_db ''block'' = tiles ''block'' 0 100 1" "relnames sample_part_db = [''block'', ''block_partition_0_100'']"
    by (simp_all add: sample_part_db_def tiles_def)
  ultimately show ?thesis using names unfolding partitions_ok_def by force
qed

theorem partitions_stay_ahead_witness:
  "\<exists>created db'. create_partition_job ''block'' 100 [60, 50] sample_part_db = Inr (created, db') \<and>
     (\<exists>p\<in>set (attached db' ''block''). pt_from p \<le> 110 \<and> 110 < pt_to p)"
proof -
  have "latest_id [60, 50] = Some 60" by (simp add: latest_id_def)
  from partitions_stay_ahead [OF sample_part_ok _ _ this] obtain created db' where
    "create_partition_job ''block'' 100 [60, 50] sample_part_db = Inr (created, db')"
    "\<forall>j. 0 \<le> j \<and> 2 * j \<le> 2 * 60 + 100 \<longrightarrow> (\<exists>p\<in>set (attached db' ''block''). pt_from p \<le> j \<and> j < pt_to p)"
    by (auto simp: partition_tables_def)
  then show ?thesis by (intro exI [of _ created] exI [of _ db']) simp
qed

text \<open>
  C26. As long as no transaction fails to commit, whatever the two jobs for the partitions of attributes do, in whatever order, with
  jobs queued several times, failing, tried again or dropped: beside the partitions that were attached at
  first, when no job was queued, those attached lie next to each other, without gap or overlap, from the first checkpoint up to the present one.
\<close>

theorem attr_partitions_contiguous:
  assumes "(attr_step cfg True)\<^sup>*\<^sup>* (db0, []) (db, jobs)" and "block_checkpoint db0 JOB_CREATE_EVENT_ATTR_PARTITION = Some c"
  shows "\<exists>n. attached db ''event_attribute'' = attached db0 ''event_attribute'' @ tiles ''event_attribute'' c (attrStep cfg) n \<and>
    block_checkpoint db JOB_CREATE_EVENT_ATTR_PARTITION = Some (c + attrStep cfg * int n)"
  using attr_steps_ok [OF assms] by (auto simp: attr_ok_def)

definition sample_part_config :: partition_config where
  "sample_part_config = \<lparr>blockStep = 100, eventStep = 100, transactionStep = 100, transactionMessageStep = 100, evmEventStep = 100,
     evmTransactionStep = 100, attrStep = 10, attrRange = 7\<rparr>"

definition sample_attr_db :: part_db where
  "sample_attr_db = fst (jobCreateEventAttrPartition Committed (10, 20) sample_part_db)"

lemma sample_attr_checked: "attr_step sample_part_config True (sample_part_db, []) (sample_part_db, [(10, 20)])"
proof -
  have "jobCheckIfNeedCreateEventAttrPartition sample_part_config sample_part_db = Some (10, 20)" by code_simp
  from attr_step.checked [OF this, of True "[]"] show ?thesis by simp
qed

theorem attr_partitions_contiguous_witness:
  "\<exists>n. attached sample_attr_db ''event_attribute'' = tiles ''event_attribute'' 10 10 n \<and>
     block_checkpoint sample_attr_db JOB_CREATE_EVENT_ATTR_PARTITION = Some (10 + 10 * int n) \<and> n = 1"
proof -
  have "snd (jobCreateEventAttrPartition Committed (10, 20) sample_part_db) = None" by code_simp
  then have "jobCreateEventAttrPartition Committed (10, 20) sample_part_db = (sample_attr_db, None)"
    by (simp add: sample_attr_db_def prod_eq_iff)
  then have "attr_step sample_part_config True (sample_part_db, [(10, 20)]) (sample_attr_db, remove1 (10, 20) [(10, 20)])"
    by (intro attr_step.created) simp
  with sample_attr_checked have trace: "(attr_step sample_part_config True)\<^sup>*\<^sup>* (sample_part_db, []) (sample_attr_db, [])"
    by (auto intro: converse_rtranclp_into_rtranclp)
  have start: "attached sample_part_db ''event_attribute'' = []"
    "block_checkpoint sample_part_db JOB_CREATE_EVENT_ATTR_PARTITION = Some 10" by code_simp+
  have "block_checkpoint sample_attr_db JOB_CREATE_EVENT_ATTR_PARTITION = Some 20" by code_simp
  with attr_partitions_contiguous [OF trace start(2)] start(1) show ?thesis by (auto simp: sample_part_config_def)
qed




end
