(* ===== verification/Spec2Isabelle.thy ===== *)
theory Spec2Isabelle
  imports Pipeline Cw721_Reindex Cw20_History Graphql_Spec Partition
begin

text \<open>
  Horoscope v2 is the indexer of a Cosmos SDK chain with CosmWasm and EVM contracts. Services
  written in TypeScript read blocks, transactions and contract state from a node and store them,
  and what follows from them, in a relational database. This development models the services that
  carry the indexing logic and proves what they store.

  \<^bold>\<open>How the program works.\<close> Nearly every service is a \<^emph>\<open>range job\<close>: a repeated job reads the table
  \<^verbatim>\<open>block_checkpoint\<close>, takes the heights after its own row up to the lowest row of the jobs it waits
  for (\<^verbatim>\<open>BlockCheckpoint.getCheckpoint\<close>), derives rows from the rows of these heights, and stores them
  in one transaction with its new checkpoint. Jobs are started by a queue, in any order and again
  after a failure, so what matters is that every height is handled once, in order, whatever runs in
  between and whatever throws.

  \<^bold>\<open>How it is modelled.\<close> A database is a record of tables (lists of row records, in the order of
  insertion) that theories extend by the tables of their component; a handler is a function from
  database to \<open>'db res\<close>, where \<open>Inl\<close> is what the handler throws and stands for the rollback of its
  transaction; a handler that leaves changes behind when it throws returns the database with an
  optional error (\<open>outcome\<close>). What the code asks of the node, of contracts and of packages (bech32,
  ABI and protobuf decoding, the clock) is a parameter record named \<open>\<dots>_ext\<close>, \<open>codec\<close> or \<open>registry\<close>;
  theorems name what they rely on of it. Loops over answers that may never end are partial functions
  into \<open>option\<close>, where \<open>None\<close> is a loop that does not end, and their theorems say that they end; no
  definition uses fuel.

  \<^bold>\<open>Theories and sources\<close> (paths below \<^verbatim>\<open>src/src\<close>).
  \<^item> \<open>Prelude\<close>: errors, lodash and SQL helpers over lists, decimal texts, \<open>getAttributeFrom\<close> of
    \<^verbatim>\<open>common/utils/smart_contract.ts\<close>.
  \<^item> \<open>Checkpoint\<close>: \<^verbatim>\<open>models/block_checkpoint.ts\<close>, the shape \<open>range_job\<close> of a job, and the locales
    \<open>checkpointed_job\<close>, \<open>appending_job\<close> and \<open>replaying_job\<close>: a job that meets their laws
    stores, or replays, what it derives from every height exactly once.
  \<^item> \<open>Chain_Db\<close>: blocks, transactions, messages and events (\<^verbatim>\<open>models/\<close>), decoding of attributes.
  \<^item> \<open>Crawl_Block\<close>: \<^verbatim>\<open>services/crawl-block/crawl_block.service.ts\<close>; no height is left out, and a run
    with an answering node makes progress.
  \<^item> \<open>Crawl_Tx\<close>: \<^verbatim>\<open>services/crawl-tx/crawl_tx.service.ts\<close>; transactions are fetched page by page and
    stored once, and their events and messages are derived once.
  \<^item> \<open>Coin_Transfer\<close>, \<open>Votes\<close>, \<open>Json\<close>, \<open>Handle_Address\<close>: the jobs for coin transfers, authz messages,
    votes, vote counts and addresses.
  \<^item> \<open>Erc20_Handler\<close>, \<open>Erc20_Service\<close>, \<open>Erc20_Ledger\<close>: \<^verbatim>\<open>services/evm/erc20_handler.ts\<close>,
    \<^verbatim>\<open>erc20.service.ts\<close>, \<^verbatim>\<open>erc20_reindex.ts\<close>; stored balances are the ledger of all activities.
  \<^item> \<open>Erc721\<close>, \<open>Erc721_Owners\<close>: \<^verbatim>\<open>services/evm/erc721_handler.ts\<close>, \<^verbatim>\<open>erc721.service.ts\<close>; stored owners
    are the replay of all transfers.
  \<^item> \<open>Smart_Contract\<close>, \<open>Contract_Event\<close>: \<^verbatim>\<open>services/crawl-cosmwasm\<close>; codes, contracts, migrations and
    contract events.
  \<^item> \<open>Cw721\<close>, \<open>Cw721_Tokens\<close>, \<open>Cw721_Reindex\<close>: \<^verbatim>\<open>services/cw721\<close>; tokens are the replay of all messages,
    the paged history ends, and where reindexing and history disagree.
  \<^item> \<open>Cw20\<close>, \<open>Cw20_Ledger\<close>, \<open>Cw20_Balances\<close>, \<open>Cw20_History\<close>: \<^verbatim>\<open>services/cw20\<close>; supply is the sum of the
    balances after any sequence of operations, and balances with what the queued updates have yet to move are the net of all events.
  \<^item> \<open>Feegrant\<close>, \<open>Feegrant_Limits\<close>, \<open>Feegrant_History\<close>: \<^verbatim>\<open>services/feegrant\<close>; histories are stored once, the
    limit of a grant is its first limit less what was spent, a grant only ends, and the loop of the updates ends.
  \<^item> \<open>Ibc\<close>, \<open>Ibc_Packets\<close>, \<open>Ibc_Transfers\<close>: \<^verbatim>\<open>services/ibc\<close>; clients, connections and channels stay linked,
    packets are stored once, and the status of a transfer is that of its last packet.
  \<^item> \<open>Stake\<close>: \<^verbatim>\<open>services/crawl-validator/handle_stake_event.service.ts\<close>; every stake event is stored once.
  \<^item> \<open>Graphql\<close>, \<open>Graphql_Limits\<close>, \<open>Graphql_Spec\<close>: \<^verbatim>\<open>services/api-gateways/graphiql.service.ts\<close> with the traversals of
    \<^verbatim>\<open>common/utils/utils.ts\<close>; which queries reach the engine, against limits stated on queries as they are written.
  \<^item> \<open>Partition\<close>: \<^verbatim>\<open>services/job/create_*_partition.service.ts\<close> and their EVM variants; partitions stay ahead of the
    rows and have no gaps, those of attributes as long as every transaction commits.
  \<^item> \<open>Evm_Tx\<close>: \<^verbatim>\<open>services/evm/handle_tx_evm.service.ts\<close>, \<^verbatim>\<open>crawl_evm_event.service.ts\<close>; Ethereum transactions and logs
    are stored once and stay linked.
  \<^item> \<open>Evm_Internal\<close>: \<^verbatim>\<open>services/evm/evm_crawl_internal_tx.service.ts\<close>; the calls of a trace as rows with addresses that
    tell them apart, and which values survive JavaScript numbers.
  \<^item> \<open>Evm_Contract\<close>: \<^verbatim>\<open>services/evm/crawl_contract_evm.service.ts\<close>, \<^verbatim>\<open>helpers/contract_helper.ts\<close>; exactly the addresses
    with code that a range mentions become contracts, whatever order the concurrent requests are answered in.
  \<^item> \<open>Evm_Proxy\<close>: \<^verbatim>\<open>services/evm/crawl_evm_proxy_history.service.ts\<close>, \<^verbatim>\<open>evm_proxy.service.ts\<close>; the implementations that
    are stored for proxies.
  \<^item> \<open>Pages\<close>: loops and jobs that read page by page, with the locale \<open>paged_job\<close>.
  \<^item> \<open>Pipeline\<close>: the declarations of all range jobs and the runs of the whole pipeline as a step
    relation on the checkpoint table: rows stay ordered, jobs with a guard do not move back, and jobs whose runs
    succeed often enough catch up.
  \<^item> This theory: runs of the modelled jobs are runs of their declarations in that pipeline, and facts that span components.

  Row records are named after the models; a theory that reads only some columns of a table of another
  component has a record of those columns (the ERC-20 and ERC-721 jobs read \<open>evm_event\<close>, which
  \<open>Evm_Tx\<close> writes as \<open>evm_event_row\<close>).

  \<^bold>\<open>Where the code does not do what it means to\<close>, theorems say so: a CW-20 job that has no checkpoint
  never starts, the burn of an unknown CW-721 token stops its job, reindexing everything stops the
  history that it queues, a job runs ahead of a dependency that has no row yet, amounts of coin
  transfers and values of internal transactions are rounded, an acknowledgement of an unknown packet
  stops its job, a comment hides the depth of a query and variables hide its heights, logs of several Ethereum
  transactions in one Cosmos transaction go to the last of them, the creator of a contract can
  be lost to a request that is answered earlier, the storage of a proxy is never read at its first event,
  an upgrade event without an indexed address stops the history of proxies, a transaction whose hash is
  already stored at another height is never stored, and a transaction that fails to commit leaves a gap
  between the partitions of attributes.

  \<^bold>\<open>Not modelled.\<close> Services that copy answers of the node into tables (account balances, validators,
  delegators, signing info, proposals), the genesis import (file streams), media (HTTP, IPFS, S3), the
  verification of EVM contracts (a compiler), jobs that add constraints or rewrite old rows, statistics
  (aggregations in SQL), the other HTTP gateways, queues and configuration; logging throughout.
\<close>

section \<open>The modelled jobs are steps of the pipeline\<close>

text \<open>
  Each job that is modelled in full implements its place in the pipeline: a run that succeeds changes
  the table of checkpoints as a run of the job's declaration does.
\<close>

lemma modelled_runs:
  "(handleErc721Activity cfg nftext dbi = Inr dbi' \<longrightarrow> block_checkpoint dbi' = checkpoint_run cfg HANDLE_ERC721_ACTIVITY (block_checkpoint dbi)) \<and>
   (jobCrawlTx txcfg txext dba = Inr dba' \<longrightarrow> block_checkpoint dba' = checkpoint_run (tx_base_config txcfg) CRAWL_TRANSACTION (block_checkpoint dba)) \<and>
   (jobHandlerCrawlTx txcfg reg dbb = Inr dbb' \<longrightarrow> block_checkpoint dbb' = checkpoint_run (tx_base_config txcfg) HANDLE_TRANSACTION (block_checkpoint dbb)) \<and>
   (handle_address_job cfg cd prefix dbc = Inr dbc' \<longrightarrow> block_checkpoint dbc' = checkpoint_run cfg HANDLE_ADDRESS (block_checkpoint dbc)) \<and>
   (jobHandleTxCoinTransfer cfg dbd = Inr dbd' \<longrightarrow> block_checkpoint dbd' = checkpoint_run cfg HANDLE_COIN_TRANSFER (block_checkpoint dbd)) \<and>
   (handle_authz_job cfg dbe = Inr dbe' \<longrightarrow> block_checkpoint dbe' = checkpoint_run cfg HANDLE_AUTHZ_TX (block_checkpoint dbe)) \<and>
   (handleVote cfg dbf = Inr dbf' \<longrightarrow> block_checkpoint dbf' = checkpoint_run cfg HANDLE_VOTE_TX (block_checkpoint dbf)) \<and>
   (handleErc20Activity ecfg eext dbg = Inr dbg' \<longrightarrow> block_checkpoint dbg' = checkpoint_run (base_config ecfg) HANDLE_ERC20_ACTIVITY (block_checkpoint dbg)) \<and>
   (handleErc20Balance ecfg eext dbh = Inr dbh' \<longrightarrow> block_checkpoint dbh' = checkpoint_run (base_config ecfg) HANDLE_ERC20_BALANCE (block_checkpoint dbh)) \<and>
   (crawl_code_job cfg wext dbj = Inr dbj' \<longrightarrow> block_checkpoint dbj' = checkpoint_run cfg CRAWL_CODE (block_checkpoint dbj)) \<and>
   (succeeded (crawl_smart_contract_job cfg wext dbk) = Inr dbk' \<longrightarrow> block_checkpoint dbk' = checkpoint_run cfg CRAWL_SMART_CONTRACT (block_checkpoint dbk)) \<and>
   (handleMigrateContract cfg wext dbl = Inr dbl' \<longrightarrow> block_checkpoint dbl' = checkpoint_run cfg HANDLE_MIGRATE_CONTRACT (block_checkpoint dbl)) \<and>
   (succeeded (crawl_contract_event_job cfg wext dbm) = Inr dbm' \<longrightarrow> block_checkpoint dbm' = checkpoint_run cfg CRAWL_CONTRACT_EVENT (block_checkpoint dbm)) \<and>
   (cw721_job cfg cext dbn = Inr dbn' \<longrightarrow> block_checkpoint dbn' = checkpoint_run cfg HANDLE_CW721_TRANSACTION (block_checkpoint dbn)) \<and>
   (cw20_run cfg text dbo = Inr dbo' \<longrightarrow> block_checkpoint dbo' = checkpoint_run cfg HANDLE_CW20 (block_checkpoint dbo)) \<and>
   (feegrant_job cfg fext dbp = Inr dbp' \<longrightarrow> block_checkpoint dbp' = checkpoint_run cfg HANDLE_FEEGRANT (block_checkpoint dbp)) \<and>
   (crawlIbcTao cfg dbq = Inr dbq' \<longrightarrow> block_checkpoint dbq' = checkpoint_run cfg CRAWL_IBC_TAO (block_checkpoint dbq)) \<and>
   (crawlIbcApp cfg iext dbr = Inr dbr' \<longrightarrow> block_checkpoint dbr' = checkpoint_run cfg CRAWL_IBC_APP (block_checkpoint dbr)) \<and>
   (crawlIbcIcs20 cfg iext dbs = Inr dbs' \<longrightarrow> block_checkpoint dbs' = checkpoint_run cfg CRAWL_IBC_ICS20 (block_checkpoint dbs)) \<and>
   (handle_stake_event_job cfg sext dbt = Inr dbt' \<longrightarrow> block_checkpoint dbt' = checkpoint_run cfg HANDLE_STAKE_EVENT (block_checkpoint dbt)) \<and>
   (handle_tx_evm_job cfg vext dbu = Inr dbu' \<longrightarrow> block_checkpoint dbu' = checkpoint_run cfg HANDLE_TRANSACTION_EVM (block_checkpoint dbu)) \<and>
   (crawlEvmEventHandler cfg vext dbv = Inr dbv' \<longrightarrow> block_checkpoint dbv' = checkpoint_run cfg JOB_CRAWL_EVM_EVENT (block_checkpoint dbv)) \<and>
   (evm_crawl_internal_job cfg rext dbw = Inr dbw' \<longrightarrow> block_checkpoint dbw' = checkpoint_run cfg EVM_CRAWL_INTERNAL_TX (block_checkpoint dbw)) \<and>
   (crawl_contract_evm_job cfg node dbx = Inr dbx' \<longrightarrow> block_checkpoint dbx' = checkpoint_run cfg CRAWL_SMART_CONTRACT_EVM (block_checkpoint dbx)) \<and>
   (succeeded (proxy_history_job cfg pext dby) = Inr dby' \<longrightarrow> block_checkpoint dby' = checkpoint_run cfg HANDLE_EVM_PROXY_HISTORY (block_checkpoint dby))"
  by (intro conjI impI)
    (erule crawl_tx_job.run_checkpoint handle_tx_job.run_checkpoint addr_job.run_checkpoint
      ibc_tao_job.run_checkpoint ibc_app_job.run_checkpoint ics20_job.run_checkpoint
      coin_transfer_job.run_checkpoint authz_job.run_checkpoint vote_job.run_checkpoint
      erc20_activity_job.run_checkpoint erc20_balance_job.run_checkpoint erc721_activity_job.run_checkpoint
      crawl_code.run_checkpoint crawl_smart_contract.run_checkpoint migrate_job.run_checkpoint
      contract_event_job.run_checkpoint cw721_token_job.run_checkpoint cw20_balance_job.run_checkpoint
      feegrant_history_job.run_checkpoint stake_job.run_checkpoint evm_tx_job.run_checkpoint
      evm_event_job.run_checkpoint internal_job.run_checkpoint contract_job.run_checkpoint
      proxy_job.run_checkpoint)+

section \<open>The CW-20 job on a new database\<close>

text \<open>The crawler stores no block at or below the height it starts after.\<close>

lemma crawl_step_above:
  assumes "crawl_step cfg reg db db'" and "0 \<le> startBlock cfg" and "blocks_ok cfg db"
    and "\<forall>b\<in>set (block_table db). startBlock cfg < blk_height b"
  shows "\<forall>b\<in>set (block_table db'). startBlock cfg < blk_height b"
proof -
  have stored: "\<forall>b\<in>set (block_table db2). startBlock cfg < blk_height b"
    if "rpc_ok node" "initEnv cfg db = (current, db1)" "store_range cfg node reg current db1 = Inr db2" for node current db1 db2
  proof -
    note ini = initEnv_facts [OF that(2)]
    have le: "startBlock cfg \<le> current" using assms(3) ini(1) by (simp add: blocks_ok_def)
    with assms(2) have "0 \<le> current" by simp
    from store_range_heights(1) [OF that(1) this that(3)] obtain rows where rows: "block_table db2 = block_table db1 @ rows"
      "map blk_height rows = missing_heights (current + 1) (snd (crawl_range cfg node current)) (block_table db1)" by blast
    have "startBlock cfg < blk_height b" if "b \<in> set rows" for b
    proof -
      have "blk_height b \<in> set (map blk_height rows)" using that by simp
      then show ?thesis unfolding rows(2) missing_heights_def using le by auto
    qed
    with rows(1) ini(2) assms(4) show ?thesis by auto
  qed
  from assms(1) show ?thesis
  proof cases
    case (step_run node)
    obtain current db1 where ini: "initEnv cfg db = (current, db1)" by (cases "initEnv cfg db")
    then obtain db2 where db2: "store_range cfg node reg current db1 = Inr db2"
      and db': "db' = move_checkpoint cfg node current db2"
      using step_run(2) by (auto simp: crawl_block_job_def handleJobCrawlBlock_def split: sum.splits)
    have "block_table db' = block_table db2" by (auto simp: db' move_checkpoint_def saveCheckpoint_def split: prod.split)
    with stored [OF step_run(1) ini db2] show ?thesis by simp
  next
    case (step_stopped node current db1)
    then show ?thesis by (rule stored)
  next
    case (step_failed current)
    from initEnv_facts(2) [OF step_failed] assms(4) show ?thesis by simp
  next
    case step_other
    with assms(4) show ?thesis by simp
  qed
qed

text \<open>
  C40. On a database that the crawler fills from the configured start on, the CW-20 job never gets
  past its first run: as long as it has no checkpoint it looks for the block at the configured
  start height, which the crawler does not store, and throws without changing anything. This
  holds whatever the crawler and the other jobs do in between.
\<close>

theorem cw20_never_starts:
  assumes "(crawl_step cfg reg)\<^sup>*\<^sup>* db0 db" and "0 \<le> startBlock cfg" and "blocks_ok cfg db0"
    and "\<forall>b\<in>set (block_table db0). startBlock cfg < blk_height b"
    and "block_checkpoint db ''handle:cw20'' = None"
  shows "jobHandleCw20 cfg text db = Some (db, Some NotFoundError)"
proof -
  from assms(1) have "blocks_ok cfg db \<and> (\<forall>b\<in>set (block_table db). startBlock cfg < blk_height b)"
  proof (induction rule: rtranclp_induct)
    case base
    with assms(3,4) show ?case by blast
  next
    case (step y z)
    then show ?case using crawl_step_blocks_ok [OF step.hyps(2) assms(2)] crawl_step_above [OF step.hyps(2) assms(2)] by blast
  qed
  then have "find (\<lambda>b. blk_height b = startBlock cfg) (block_table db) = None" by (auto simp: find_None_iff)
  moreover have "job_start cfg HANDLE_CW20 (block_checkpoint db) = startBlock cfg"
    using assms(5) by (simp add: job_start_eq HANDLE_CW20_def)
  ultimately show ?thesis by (simp add: jobHandleCw20_def getCheckpoint_row handleStatistic_def)
qed

text \<open>The sample database without the block at the start height, with the crawler at height 2.\<close>

definition sample_new_db :: "string cw20_db" where
  "sample_new_db = sample_cw20_db\<lparr>block_table := [], block_checkpoint := Map.empty\<rparr>"

theorem cw20_never_starts_witness:
  "\<exists>db. (crawl_step sample_wasm_config sample_registry)\<^sup>*\<^sup>* sample_new_db db \<and> block_table db \<noteq> [] \<and>
    jobHandleCw20 sample_wasm_config sample_cw20_ext db = Some (db, Some NotFoundError)"
proof -
  let ?r = "crawl_block_job sample_wasm_config sample_node sample_registry sample_new_db"
  have "\<not> isl ?r" "block_table (projr ?r) \<noteq> []" "block_checkpoint (projr ?r) ''handle:cw20'' = None" by code_simp+
  then obtain db where run: "?r = Inr db" and facts: "block_table db \<noteq> []" "block_checkpoint db ''handle:cw20'' = None"
    by (metis sum.collapse(2))
  have steps: "(crawl_step sample_wasm_config sample_registry)\<^sup>*\<^sup>* sample_new_db db"
    using step_run [OF sample_rpc_ok run] by blast
  have "blocks_ok sample_wasm_config sample_new_db" "0 \<le> startBlock sample_wasm_config" "block_table sample_new_db = []"
    by (simp_all add: blocks_ok_def crawled_def sample_new_db_def sample_wasm_config_def)
  with cw20_never_starts [OF steps, of sample_cw20_ext] facts steps show ?thesis by auto
qed

end
